(* ===== verification/Ciss_Prelude.thy ===== *)
theory Ciss_Prelude
  imports Main "HOL-Library.List_Lexorder" "HOL-Library.Char_ord" "HOL-Library.Sublist"
begin

text \<open>
  The shared vocabulary of the development: Rust results (with panics as values, because the
  crate is built with \<^verbatim>\<open>overflow-checks = true\<close> and an overflowing sum is a panic, never a
  wrapped value), 64-bit arithmetic on \<^typ>\<open>nat\<close> with the bound written out, decimal rendering
  as \<^verbatim>\<open>format!\<close> does it, the string operations of the Rust standard library that the source
  uses, and the list lemmas the components share.

  Strings and byte vectors are both \<^typ>\<open>string\<close>: a \<^typ>\<open>char\<close> is exactly one byte, so
  \<open>length\<close> counts bytes as \<^verbatim>\<open>str::len\<close> does, \<^verbatim>\<open>as_bytes\<close> is the identity, and the
  lexicographic order of \<open>List_Lexorder\<close> over \<open>Char_ord\<close> is the byte order of \<^verbatim>\<open>str::cmp\<close>.
\<close>

named_theorems delim_simps \<open>splitting a formatted string at its separators\<close>
named_theorems result_splits \<open>case rules for results\<close>

section \<open>Types\<close>

type_synonym bytes = string
type_synonym u64 = nat
type_synonym i64 = int
type_synonym usize = nat

text \<open>\<open>Result<T, E>\<close>, with a panic as a third outcome.\<close>

datatype ('a, 'e) result = Ok 'a | Err 'e | Panic

fun result_bind :: "('a, 'e) result \<Rightarrow> ('a \<Rightarrow> ('b, 'e) result) \<Rightarrow> ('b, 'e) result" where
  "result_bind (Ok a) f = f a"
| "result_bind (Err e) f = Err e"
| "result_bind Panic f = Panic"

fun is_ok :: "('a, 'e) result \<Rightarrow> bool" where
  "is_ok (Ok a) = True"
| "is_ok (Err e) = False"
| "is_ok Panic = False"

declare result.splits [result_splits]

lemma is_ok_iff: "is_ok r \<longleftrightarrow> (\<exists>a. r = Ok a)"
  by (cases r) auto

lemma result_bind_Ok: "result_bind r f = Ok b \<longleftrightarrow> (\<exists>a. r = Ok a \<and> f a = Ok b)"
  by (cases r) auto

section \<open>Machine integers\<close>

definition u64_max :: nat where
  "u64_max = 2 ^ 64 - 1"

definition i64_max :: nat where
  "i64_max = 2 ^ 63 - 1"

definition fits_u64 :: "nat \<Rightarrow> bool" where
  "fits_u64 n \<longleftrightarrow> n \<le> u64_max"

text \<open>Plain \<open>+\<close> and \<open>*\<close> on \<open>u64\<close>: a panic on overflow.\<close>

definition u64_add :: "nat \<Rightarrow> nat \<Rightarrow> nat option" where
  "u64_add a b = (if a + b \<le> u64_max then Some (a + b) else None)"

definition u64_mul :: "nat \<Rightarrow> nat \<Rightarrow> nat option" where
  "u64_mul a b = (if a * b \<le> u64_max then Some (a * b) else None)"

definition saturating_add :: "nat \<Rightarrow> nat \<Rightarrow> nat" where
  "saturating_add a b = min (a + b) u64_max"

definition saturating_sub :: "nat \<Rightarrow> nat \<Rightarrow> nat" where
  "saturating_sub a b = a - b"

text \<open>\<open>i64::try_from(x).unwrap_or(i64::MAX)\<close> and \<open>u64::try_from(x).unwrap_or(0)\<close>, the two
  conversions at the SQLite boundary.\<close>

definition clamp_i64 :: "nat \<Rightarrow> int" where
  "clamp_i64 n = int (min n i64_max)"

definition u64_or_zero :: "int \<Rightarrow> nat" where
  "u64_or_zero i = nat i"

lemma u64_add_Some [simp]: "u64_add a b = Some c \<longleftrightarrow> c = a + b \<and> a + b \<le> u64_max"
  by (auto simp: u64_add_def)

lemma u64_add_None [simp]: "u64_add a b = None \<longleftrightarrow> u64_max < a + b"
  by (auto simp: u64_add_def)

lemma u64_mul_Some [simp]: "u64_mul a b = Some c \<longleftrightarrow> c = a * b \<and> a * b \<le> u64_max"
  by (auto simp: u64_mul_def)

lemma saturating_add_le: "saturating_add a b \<le> u64_max"
  by (simp add: saturating_add_def)

lemma saturating_add_exact: "a + b \<le> c \<Longrightarrow> c \<le> u64_max \<Longrightarrow> saturating_add a b = a + b"
  by (simp add: saturating_add_def)

lemma saturating_add_le_iff:
  "c < u64_max \<Longrightarrow> saturating_add a b \<le> c \<longleftrightarrow> a + b \<le> c"
  by (auto simp: saturating_add_def min_def)

lemma u64_or_zero_clamp: "u64_or_zero (clamp_i64 n) = min n i64_max"
  by (simp add: u64_or_zero_def clamp_i64_def)

lemma u64_or_zero_clamp_id [simp]: "n \<le> i64_max \<Longrightarrow> u64_or_zero (clamp_i64 n) = n"
  by (simp add: u64_or_zero_clamp)

section \<open>Decimal rendering\<close>

definition digit :: "nat \<Rightarrow> char" where
  "digit d = char_of (48 + d)"

fun show_nat :: "nat \<Rightarrow> string" where
  "show_nat n = (if n < 10 then [digit n] else show_nat (n div 10) @ [digit (n mod 10)])"

declare show_nat.simps [simp del]

definition show_int :: "int \<Rightarrow> string" where
  "show_int i = (if i < 0 then CHR ''-'' # show_nat (nat (- i)) else show_nat (nat i))"

definition show_bool :: "bool \<Rightarrow> string" where
  "show_bool b = (if b then ''true'' else ''false'')"

definition is_digit :: "char \<Rightarrow> bool" where
  "is_digit c \<longleftrightarrow> 48 \<le> (of_char c :: nat) \<and> (of_char c :: nat) \<le> 57"

definition read_nat :: "string \<Rightarrow> nat" where
  "read_nat s = foldl (\<lambda>a c. 10 * a + (of_char c - 48)) 0 s"

lemma of_char_digit [simp]: "d < 10 \<Longrightarrow> (of_char (digit d) :: nat) = 48 + d"
  by (simp add: digit_def of_char_of)

lemma is_digit_digit [simp]: "d < 10 \<Longrightarrow> is_digit (digit d)"
  by (simp add: is_digit_def)

lemma show_nat_digits: "c \<in> set (show_nat n) \<Longrightarrow> is_digit c"
proof (induction n rule: show_nat.induct)
  case (1 n)
  then show ?case
    by (subst (asm) (2) show_nat.simps) (auto split: if_splits)
qed

lemma show_nat_nonempty [simp]: "show_nat n \<noteq> []"
  by (subst show_nat.simps) simp

lemma read_nat_show_nat [simp]: "read_nat (show_nat n) = n"
proof (induction n rule: show_nat.induct)
  case (1 n)
  then show ?case
    by (subst show_nat.simps) (auto simp: read_nat_def)
qed

lemma show_nat_inject [simp]: "show_nat a = show_nat b \<longleftrightarrow> a = b"
  by (metis read_nat_show_nat)

lemma show_nat_no_char: "\<not> is_digit c \<Longrightarrow> c \<notin> set (show_nat n)"
  using show_nat_digits by blast

lemma show_nat_not_minus: "show_nat n \<noteq> CHR ''-'' # s"
proof
  assume eq: "show_nat n = CHR ''-'' # s"
  have "is_digit (CHR ''-'')" by (rule show_nat_digits [of _ n]) (simp add: eq)
  then show False by (simp add: is_digit_def)
qed

lemma show_int_inject [simp]: "show_int a = show_int b \<longleftrightarrow> a = b"
  using show_nat_not_minus by (auto simp: show_int_def split: if_splits) (metis show_nat_not_minus)+

lemma show_int_no_char:
  "\<not> is_digit c \<Longrightarrow> c \<noteq> CHR ''-'' \<Longrightarrow> c \<notin> set (show_int i)"
  by (auto simp: show_int_def show_nat_no_char)

lemma show_bool_inject [simp]: "show_bool a = show_bool b \<longleftrightarrow> a = b"
  by (cases a; cases b) (simp_all add: show_bool_def)

text \<open>\<^verbatim>\<open>str::parse::<u64>\<close>: an optional plus sign, at least one digit, nothing else, within
  64 bits.\<close>

definition parse_u64 :: "string \<Rightarrow> nat option" where
  "parse_u64 s =
     (let ds = (case s of c # r \<Rightarrow> if c = CHR ''+'' then r else s | [] \<Rightarrow> [])
      in if ds \<noteq> [] \<and> list_all is_digit ds \<and> read_nat ds \<le> u64_max
         then Some (read_nat ds) else None)"

lemma parse_u64_show_nat [simp]:
  assumes "n \<le> u64_max"
  shows "parse_u64 (show_nat n) = Some n"
proof -
  obtain c r where cr: "show_nat n = c # r"
    by (cases "show_nat n") auto
  have "is_digit c" by (rule show_nat_digits [of _ n]) (simp add: cr)
  then have "c \<noteq> CHR ''+''" by (auto simp: is_digit_def)
  moreover have "list_all is_digit (show_nat n)"
    by (auto simp: list_all_iff show_nat_digits)
  ultimately show ?thesis
    using assms read_nat_show_nat [of n] unfolding parse_u64_def cr by simp
qed

section \<open>String operations\<close>

definition starts_with :: "string \<Rightarrow> string \<Rightarrow> bool" where
  "starts_with p s \<longleftrightarrow> take (length p) s = p"

definition strip_prefix :: "string \<Rightarrow> string \<Rightarrow> string option" where
  "strip_prefix p s = (if starts_with p s then Some (drop (length p) s) else None)"

definition split_once :: "char \<Rightarrow> string \<Rightarrow> (string \<times> string) option" where
  "split_once c s =
     (case dropWhile (\<lambda>x. x \<noteq> c) s of
        [] \<Rightarrow> None
      | _ # r \<Rightarrow> Some (takeWhile (\<lambda>x. x \<noteq> c) s, r))"

fun join :: "string \<Rightarrow> string list \<Rightarrow> string" where
  "join sep [] = []"
| "join sep [x] = x"
| "join sep (x # y # ys) = x @ sep @ join sep (y # ys)"

lemma starts_with_append [simp]: "starts_with p (p @ s)"
  by (simp add: starts_with_def)

lemma starts_with_iff: "starts_with p s \<longleftrightarrow> (\<exists>r. s = p @ r)"
  by (metis append_eq_conv_conj append_take_drop_id starts_with_def)

lemma strip_prefix_Some: "strip_prefix p s = Some r \<longleftrightarrow> s = p @ r"
  by (auto simp: strip_prefix_def starts_with_iff)

lemma split_once_Some:
  assumes "split_once c s = Some (a, b)"
  shows "s = a @ c # b \<and> c \<notin> set a"
proof -
  from assms obtain x where d: "dropWhile (\<lambda>x. x \<noteq> c) s = x # b"
    and a: "a = takeWhile (\<lambda>x. x \<noteq> c) s"
    by (auto simp: split_once_def split: list.splits)
  then have "x = c" by (metis (mono_tags, lifting) dropWhile_eq_Cons_conv)
  moreover have "s = a @ x # b" by (metis a d takeWhile_dropWhile_id)
  moreover have "c \<notin> set a" unfolding a by (metis (mono_tags, lifting) set_takeWhileD)
  ultimately show ?thesis by simp
qed

lemma split_once_append: "c \<notin> set a \<Longrightarrow> split_once c (a @ c # b) = Some (a, b)"
  by (simp add: split_once_def dropWhile_append takeWhile_append)

lemma split_once_None: "split_once c s = None \<longleftrightarrow> c \<notin> set s"
proof (cases "dropWhile (\<lambda>x. x \<noteq> c) s")
  case Nil
  then have "c \<notin> set s" by (auto simp: dropWhile_eq_Nil_conv)
  then show ?thesis unfolding split_once_def Nil by simp
next
  case (Cons x r)
  have "c \<in> set s"
  proof (rule ccontr)
    assume "c \<notin> set s"
    then have "dropWhile (\<lambda>x. x \<noteq> c) s = []" by (simp only: dropWhile_eq_Nil_conv) auto
    with Cons show False by simp
  qed
  then show ?thesis unfolding split_once_def Cons by simp
qed

section \<open>Formatted strings split at their separators\<close>

lemma append_delim_eq [delim_simps]:
  "c \<notin> set x \<Longrightarrow> c \<notin> set x' \<Longrightarrow> x @ c # y = x' @ c # y' \<longleftrightarrow> x = x' \<and> y = y'"
proof (induction x arbitrary: x')
  case Nil
  then show ?case by (cases x') auto
next
  case (Cons a x)
  then show ?case by (cases x') auto
qed

text \<open>The last separator decides when the tails are free of it.\<close>

lemma append_delim_eq_rev:
  assumes "c \<notin> set y" and "c \<notin> set y'"
  shows "x @ c # y = x' @ c # y' \<longleftrightarrow> x = x' \<and> y = y'"
proof -
  have "x @ c # y = x' @ c # y' \<longleftrightarrow> rev (x @ c # y) = rev (x' @ c # y')"
    by (rule rev_is_rev_conv [symmetric])
  also have "\<dots> \<longleftrightarrow> rev y @ c # rev x = rev y' @ c # rev x'" by simp
  also have "\<dots> \<longleftrightarrow> rev y = rev y' \<and> rev x = rev x'"
    using assms by (intro append_delim_eq) auto
  finally show ?thesis by auto
qed

lemmas delimD = append_delim_eq [THEN iffD1, rotated 2]
lemmas delim_revD = append_delim_eq_rev [THEN iffD1, rotated 2]

lemma join_inject:
  assumes "\<And>x. x \<in> set xs \<union> set ys \<Longrightarrow> c \<notin> set x"
    and "length xs = length ys"
  shows "join [c] xs = join [c] ys \<Longrightarrow> xs = ys"
  using assms
proof (induction xs arbitrary: ys)
  case Nil
  then show ?case by simp
next
  case (Cons x xs)
  obtain y ys' where ys: "ys = y # ys'" using Cons.prems(3) by (cases ys) auto
  show ?case
  proof (cases xs)
    case Nil
    then show ?thesis using Cons.prems ys by simp
  next
    case (Cons x2 xs2)
    then obtain y2 ys2 where ys': "ys' = y2 # ys2"
      using Cons.prems(3) ys by (cases ys') auto
    have "x @ c # join [c] xs = y @ c # join [c] ys'"
      using Cons.prems(1) ys ys' \<open>xs = x2 # xs2\<close> by simp
    moreover have "c \<notin> set x" "c \<notin> set y" using Cons.prems(2) ys by auto
    ultimately have "x = y" and "join [c] xs = join [c] ys'"
      by (simp_all add: append_delim_eq)
    moreover have "xs = ys'"
      using Cons.IH [of ys'] Cons.prems(2,3) ys calculation(2) by auto
    ultimately show ?thesis using ys by simp
  qed
qed

section \<open>Lists\<close>

text \<open>\<open>HashSet::insert\<close> over an iterator, keeping first occurrences in order.\<close>

fun dedup_first :: "'a set \<Rightarrow> 'a list \<Rightarrow> 'a list" where
  "dedup_first seen [] = []"
| "dedup_first seen (x # xs) =
     (if x \<in> seen then dedup_first seen xs else x # dedup_first (insert x seen) xs)"

lemma set_dedup_first: "set (dedup_first seen xs) = set xs - seen"
  by (induction xs arbitrary: seen) auto

lemma distinct_dedup_first: "distinct (dedup_first seen xs)"
  by (induction xs arbitrary: seen) (auto simp: set_dedup_first)

lemma sum_list_filter_split:
  "sum_list (map f (filter P xs)) + sum_list (map f (filter (\<lambda>x. \<not> P x) xs))
     = (sum_list (map f xs) :: nat)"
  by (induction xs) auto

lemma last_in_filter: "P (last xs) \<Longrightarrow> xs \<noteq> [] \<Longrightarrow> last (filter P xs) = last xs"
  by (induction xs rule: rev_induct) auto

end
