(* ===== verification/Json.thy ===== *)
theory Json
  imports Ciss_Prelude "HOL-Library.Multiset"
begin

text \<open>
  JSON values (\<^verbatim>\<open>serde_json::Value\<close>) and \<^verbatim>\<open>src/src/canonical.rs\<close>: the one byte string every
  hash and signature of the ledger is taken over. The encoding of a scalar is \<^verbatim>\<open>serde_json\<close>'s
  and a parameter \<open>enc\<close>; the canonical form around it (recursive key sorting, separators, no
  white space) is the crate's own code. The main result is that the canonical string determines
  the value up to the order of object keys, and nothing else.
\<close>

section \<open>Values\<close>

text \<open>A number is an integer or a finite float, which is represented by the text \<^verbatim>\<open>serde_json\<close> prints for
  it (each float has its own, and it is never that of an integer). An object is an association list
  with distinct keys (\<open>jwf\<close>).\<close>

datatype json =
    JNull
  | JBool bool
  | JInt int
  | JFloat string
  | JStr string
  | JArr "json list"
  | JObj "(string \<times> json) list"

text \<open>The text of a float: the characters of a JSON number, with a fraction or an exponent.\<close>

definition float_char :: "char \<Rightarrow> bool" where
  "float_char c \<longleftrightarrow> is_digit c \<or> c \<in> {CHR ''-'', CHR ''+'', CHR ''.'', CHR ''e''}"

definition float_text :: "string \<Rightarrow> bool" where
  "float_text s \<longleftrightarrow> list_all float_char s \<and> (CHR ''.'' \<in> set s \<or> CHR ''e'' \<in> set s) \<and> (is_digit (hd s) \<or> hd s = CHR ''-'')"

fun is_scalar :: "json \<Rightarrow> bool" where
  "is_scalar (JArr xs) = False"
| "is_scalar (JObj kvs) = False"
| "is_scalar (JFloat s) = float_text s"
| "is_scalar _ = True"

text \<open>What every \<^verbatim>\<open>Value\<close> has by its type: distinct object keys at every level, and finite floats.\<close>

fun jwf :: "json \<Rightarrow> bool" where
  "jwf (JObj kvs) = (distinct (map fst kvs) \<and> list_all jwf (map snd kvs))"
| "jwf (JArr xs) = list_all jwf xs"
| "jwf (JFloat s) = float_text s"
| "jwf _ = True"

section \<open>canonical.rs\<close>

fun canonical_string :: "(json \<Rightarrow> string) \<Rightarrow> json \<Rightarrow> string" where
  "canonical_string enc (JObj kvs) =
     ''{'' @ join '','' (map (\<lambda>(k, s). enc (JStr k) @ '':'' @ s)
        (sort_key fst (map (\<lambda>(k, v). (k, canonical_string enc v)) kvs))) @ ''}''"
| "canonical_string enc (JArr xs) =
     ''['' @ join '','' (map (canonical_string enc) xs) @ '']''"
| "canonical_string enc v = enc v"

text \<open>Two specification functions: the key-sorted value, and the rendering that leaves the order
  of keys as it is.\<close>

fun jnorm :: "json \<Rightarrow> json" where
  "jnorm (JObj kvs) = JObj (sort_key fst (map (\<lambda>(k, v). (k, jnorm v)) kvs))"
| "jnorm (JArr xs) = JArr (map jnorm xs)"
| "jnorm v = v"

fun render :: "(json \<Rightarrow> string) \<Rightarrow> json \<Rightarrow> string" where
  "render enc (JObj kvs) =
     ''{'' @ join '','' (map (\<lambda>(k, v). enc (JStr k) @ '':'' @ render enc v) kvs) @ ''}''"
| "render enc (JArr xs) = ''['' @ join '','' (map (render enc) xs) @ '']''"
| "render enc v = enc v"

lemma sort_key_map_snd:
  "sort_key fst (map (\<lambda>(k, v). (k, f v)) kvs) = map (\<lambda>(k, v). (k, f v)) (sort_key fst kvs)"
proof -
  have ins: "insort_key fst (k, f v) (map (\<lambda>(k, v). (k, f v)) kvs)
      = map (\<lambda>(k, v). (k, f v)) (insort_key fst (k, v) kvs)" for k v kvs
    by (induction kvs) auto
  show ?thesis by (induction kvs) (auto simp: ins)
qed

lemma canonical_render: "canonical_string enc j = render enc (jnorm j)"
proof (induction j)
  case (JObj kvs)
  then have "map (\<lambda>(k, v). (k, canonical_string enc v)) kvs
      = map (\<lambda>(k, v). (k, render enc (jnorm v))) kvs"
    by (force simp: snds.simps)
  then have "map (\<lambda>(k, s). enc (JStr k) @ '':'' @ s)
        (sort_key fst (map (\<lambda>(k, v). (k, canonical_string enc v)) kvs))
      = map (\<lambda>(k, v). enc (JStr k) @ '':'' @ render enc (jnorm v)) (sort_key fst kvs)"
    by (simp only: sort_key_map_snd) (simp add: split_def)
  then show ?case
    by (simp only: canonical_string.simps jnorm.simps render.simps sort_key_map_snd)
      (simp add: split_def comp_def)
next
  case (JArr xs)
  then show ?case by (simp add: comp_def cong: map_cong)
qed simp_all

section \<open>The canonical string determines the value\<close>

text \<open>What the encoding of scalars must satisfy, the documented grammar of JSON: an encoded scalar
  is not empty, does not start like an array, an object or a separator, and is self-delimiting in
  front of a separator.\<close>

definition delim_char :: "char \<Rightarrow> bool" where
  "delim_char c \<longleftrightarrow> c \<in> {CHR '','', CHR ''}'', CHR '']'', CHR '':''}"

definition follow :: "string \<Rightarrow> bool" where
  "follow s \<longleftrightarrow> s = [] \<or> delim_char (hd s)"

definition scalar_start :: "string \<Rightarrow> bool" where
  "scalar_start s \<longleftrightarrow> s \<noteq> [] \<and> hd s \<noteq> CHR ''{'' \<and> hd s \<noteq> CHR ''['' \<and> \<not> delim_char (hd s)"

definition scalar_codec :: "(json \<Rightarrow> string) \<Rightarrow> bool" where
  "scalar_codec enc \<longleftrightarrow>
     (\<forall>s. is_scalar s \<longrightarrow> scalar_start (enc s)) \<and>
     (\<forall>s t x y. is_scalar s \<longrightarrow> is_scalar t \<longrightarrow> follow x \<longrightarrow> follow y \<longrightarrow>
        enc s @ x = enc t @ y \<longrightarrow> s = t \<and> x = y)"

lemma scalar_codecD:
  assumes "scalar_codec enc" and "is_scalar s"
  shows "scalar_start (enc s)"
    and "is_scalar t \<Longrightarrow> follow x \<Longrightarrow> follow y \<Longrightarrow> enc s @ x = enc t @ y \<Longrightarrow> s = t \<and> x = y"
  using assms unfolding scalar_codec_def by blast+

lemma follow_simps [simp]:
  "follow []" "follow (CHR '','' # s)" "follow (CHR ''}'' # s)" "follow (CHR '']'' # s)"
  "follow (CHR '':'' # s)"
  by (simp_all add: follow_def delim_char_def)

definition value_start :: "string \<Rightarrow> bool" where
  "value_start s \<longleftrightarrow> s \<noteq> [] \<and> \<not> delim_char (hd s)"

lemma scalar_start_value: "scalar_start s \<Longrightarrow> value_start s"
  by (simp add: scalar_start_def value_start_def)

lemma render_start:
  assumes "scalar_codec enc" and "jwf j"
  shows "value_start (render enc j)"
proof (cases "is_scalar j")
  case True
  then have "render enc j = enc j" by (cases j) auto
  with True assms show ?thesis by (simp add: scalar_codecD(1) scalar_start_value)
next
  case False
  with assms(2) show ?thesis
    by (cases j) (auto simp: value_start_def delim_char_def)
qed

text \<open>Items joined by commas up to a closing bracket are read back item by item, when each item
  is self-delimiting and starts like a value.\<close>

lemma join_items_inject:
  assumes item: "\<And>a b x y. a \<in> set as \<Longrightarrow> b \<in> set bs \<Longrightarrow> follow x \<Longrightarrow> follow y \<Longrightarrow>
        f a @ x = f b @ y \<Longrightarrow> a = b \<and> x = y"
    and start: "\<And>a. a \<in> set as \<union> set bs \<Longrightarrow> value_start (f a)"
    and cl: "cl = CHR ''}'' \<or> cl = CHR '']''"
    and eq: "join '','' (map f as) @ cl # x = join '','' (map f bs) @ cl # y"
  shows "as = bs \<and> x = y"
  using item start eq
proof (induction as arbitrary: bs)
  case Nil
  have "bs = []"
  proof (rule ccontr)
    assume "bs \<noteq> []"
    then obtain b bs' where b: "bs = b # bs'" by (cases bs) auto
    then have v: "value_start (f b)" using Nil.prems(2) by simp
    have "hd (join '','' (map f bs) @ cl # y) = hd (f b)"
      using v b by (cases bs') (auto simp: value_start_def)
    then have "hd (f b) = hd (cl # x)" using Nil.prems(3) by simp
    then have "hd (f b) = cl" by simp
    then show False using v cl by (auto simp: value_start_def delim_char_def)
  qed
  then show ?case using Nil.prems(3) by simp
next
  case (Cons a as)
  have va: "value_start (f a)" using Cons.prems(2) by simp
  have "bs \<noteq> []"
  proof
    assume "bs = []"
    then have "cl = hd (join '','' (map f (a # as)) @ cl # x)" using Cons.prems(3) by simp
    also have "\<dots> = hd (f a)" using va by (cases as) (auto simp: value_start_def)
    finally show False using va cl by (auto simp: value_start_def delim_char_def)
  qed
  then obtain b bs' where b: "bs = b # bs'" by (cases bs) auto
  define tl_of where "tl_of zs w = (if zs = [] then cl # w
      else CHR '','' # join '','' (map f zs) @ cl # w)" for zs w
  have split_a: "join '','' (map f (z # zs)) @ cl # w = f z @ tl_of zs w" for z zs w
    by (cases zs) (auto simp: tl_of_def)
  have fol: "follow (tl_of zs w)" for zs w
    using cl by (auto simp: tl_of_def)
  have "a = b \<and> tl_of as x = tl_of bs' y"
    using Cons.prems(1) [of a b "tl_of as x" "tl_of bs' y"] Cons.prems(3) fol
    by (simp add: b split_a del: join.simps list.map)
  then have ab: "a = b" and tls: "tl_of as x = tl_of bs' y" by simp_all
  show ?case
  proof (cases "as = []")
    case True
    then show ?thesis using ab tls cl b by (auto simp: tl_of_def split: if_splits)
  next
    case False
    then have "bs' \<noteq> []" using tls cl by (auto simp: tl_of_def split: if_splits)
    then have "join '','' (map f as) @ cl # x = join '','' (map f bs') @ cl # y"
      using tls False by (simp add: tl_of_def)
    then have "as = bs' \<and> x = y"
      using Cons.IH [of bs'] Cons.prems(1,2) b by auto
    then show ?thesis using ab b by simp
  qed
qed

lemma render_scalar:
  assumes codec: "scalar_codec enc" and "is_scalar a" "jwf b" "follow x" "follow y"
    and eq: "enc a @ x = render enc b @ y"
  shows "a = b \<and> x = y"
proof (cases "is_scalar b")
  case True
  then have "render enc b = enc b" by (cases b) auto
  then show ?thesis using scalar_codecD(2) [OF codec assms(2) True assms(4,5)] eq by simp
next
  case False
  then have "hd (enc a @ x) \<in> {CHR ''{'', CHR ''[''}" using eq assms(3) by (cases b) auto
  then show ?thesis using scalar_codecD(1) [OF codec assms(2)]
    by (auto simp: scalar_start_def)
qed

lemma render_bracket:
  assumes codec: "scalar_codec enc" and "jwf b" and eq: "c # s = render enc b @ y"
  shows "c = CHR ''{'' \<Longrightarrow> \<exists>kvs. b = JObj kvs" and "c = CHR ''['' \<Longrightarrow> \<exists>xs. b = JArr xs"
proof -
  have "c \<noteq> CHR ''{'' \<and> c \<noteq> CHR ''[''" if sc: "is_scalar b"
  proof -
    have "render enc b = enc b" using sc by (cases b) auto
    moreover have "scalar_start (enc b)" by (rule scalar_codecD(1) [OF codec sc])
    ultimately have "c = hd (enc b)" using eq by (cases "enc b") (auto simp: scalar_start_def)
    then show ?thesis using \<open>scalar_start (enc b)\<close> by (simp add: scalar_start_def)
  qed
  then show "c = CHR ''{'' \<Longrightarrow> \<exists>kvs. b = JObj kvs" and "c = CHR ''['' \<Longrightarrow> \<exists>xs. b = JArr xs"
    using assms(2) eq by (cases b; auto)+
qed

lemma render_inject:
  assumes codec: "scalar_codec enc"
  shows "jwf a \<Longrightarrow> jwf b \<Longrightarrow> follow x \<Longrightarrow> follow y \<Longrightarrow>
     render enc a @ x = render enc b @ y \<Longrightarrow> a = b \<and> x = y"
proof (induction a arbitrary: b x y)
  case (JObj kvs)
  obtain kvs' where b: "b = JObj kvs'"
    using render_bracket(1) [OF codec JObj.prems(2), of "CHR ''{''" _ y] JObj.prems(5) by auto
  let ?f = "\<lambda>(k, v). enc (JStr k) @ '':'' @ render enc v"
  have item: "p = q \<and> u = w"
    if "p \<in> set kvs" "q \<in> set kvs'" "follow u" "follow w" "?f p @ u = ?f q @ w" for p q u w
  proof -
    obtain k v where p: "p = (k, v)" by (cases p)
    obtain k' v' where q: "q = (k', v')" by (cases q)
    have "enc (JStr k) @ CHR '':'' # render enc v @ u = enc (JStr k') @ CHR '':'' # render enc v' @ w"
      using that(5) p q by simp
    then have "JStr k = JStr k' \<and> CHR '':'' # render enc v @ u = CHR '':'' # render enc v' @ w"
      by (intro scalar_codecD(2) [OF codec]) simp_all
    moreover have "jwf v" "jwf v'"
      using JObj.prems(1,2) that(1,2) p q b by (force simp: list_all_iff)+
    moreover have "v \<in> Basic_BNFs.snds p" by (simp add: p prod_set_defs)
    ultimately show ?thesis
      using JObj.IH [OF that(1), of v v' u w] that(3,4) p q by auto
  qed
  have start: "value_start (?f p)" if "p \<in> set kvs \<union> set kvs'" for p
    using scalar_codecD(1) [OF codec, of "JStr (fst p)"]
    by (cases p) (auto simp: value_start_def scalar_start_def)
  have "join '','' (map ?f kvs) @ CHR ''}'' # x = join '','' (map ?f kvs') @ CHR ''}'' # y"
    using JObj.prems(5) unfolding b render.simps by simp
  from join_items_inject [OF item start disjI1 [OF refl] this] show ?case by (simp add: b)
next
  case (JArr xs)
  obtain xs' where b: "b = JArr xs'"
    using render_bracket(2) [OF codec JArr.prems(2), of "CHR ''[''" _ y] JArr.prems(5) by auto
  have item: "p = q \<and> u = w"
    if "p \<in> set xs" "q \<in> set xs'" "follow u" "follow w"
       "render enc p @ u = render enc q @ w" for p q u w
    using JArr.IH [OF that(1), of q u w] JArr.prems(1,2) that b by (auto simp: list_all_iff)
  have start: "value_start (render enc p)" if "p \<in> set xs \<union> set xs'" for p
    using render_start [OF codec, of p] JArr.prems(1,2) that b by (auto simp: list_all_iff)
  have "join '','' (map (render enc) xs) @ CHR '']'' # x
      = join '','' (map (render enc) xs') @ CHR '']'' # y"
    using JArr.prems(5) unfolding b render.simps by simp
  then have "xs = xs' \<and> x = y"
    by (rule join_items_inject [where f = "render enc" and cl = "CHR '']''", rotated 3])
      (auto intro: start dest: item)
  then show ?case by (simp add: b)
next
  case JNull
  then show ?case using render_scalar [OF codec, of JNull b x y] by simp
next
  case (JBool t)
  then show ?case using render_scalar [OF codec, of "JBool t" b x y] by simp
next
  case (JInt i)
  then show ?case using render_scalar [OF codec, of "JInt i" b x y] by simp
next
  case (JStr s)
  then show ?case using render_scalar [OF codec, of "JStr s" b x y] by simp
next
  case (JFloat s)
  then show ?case using render_scalar [OF codec, of "JFloat s" b x y] by simp
qed

lemma distinct_fst_sort: "distinct (map fst (sort_key fst kvs)) = distinct (map fst kvs)"
  by (rule mset_eq_imp_distinct_iff) simp

lemma jwf_jnorm: "jwf j \<Longrightarrow> jwf (jnorm j)"
proof (induction j)
  case (JObj kvs)
  have "distinct (map fst (sort_key fst (map (\<lambda>(k, v). (k, jnorm v)) kvs)))"
    using JObj.prems by (simp only: sort_key_map_snd) (simp add: comp_def split_def distinct_fst_sort)
  moreover have "list_all jwf (map snd (sort_key fst (map (\<lambda>(k, v). (k, jnorm v)) kvs)))"
    using JObj by (force simp: list_all_iff)
  ultimately show ?case by simp
next
  case (JArr xs)
  then show ?case by (simp add: list_all_iff)
qed simp_all

text \<open>Reading a field of an object off its key-sorted form.\<close>

lemma map_of_sort_key:
  assumes "distinct (map fst kvs)"
  shows "map_of (sort_key fst kvs) = map_of kvs"
  using assms by (intro map_of_inject_set [THEN iffD2]) (simp_all add: distinct_fst_sort)

lemma jnorm_field:
  assumes "jnorm (JObj a) = jnorm (JObj b)" "distinct (map fst a)" "distinct (map fst b)"
  shows "map_option jnorm (map_of a k) = map_option jnorm (map_of b k)"
proof -
  have "map_of (map (\<lambda>(k, v). (k, jnorm v)) (sort_key fst a))
      = map_of (map (\<lambda>(k, v). (k, jnorm v)) (sort_key fst b))"
    using assms(1) by (simp add: sort_key_map_snd)
  then show ?thesis
    using assms(2,3) by (simp add: map_of_map map_of_sort_key fun_eq_iff comp_def)
qed

theorem canonical_string_inject:
  assumes "scalar_codec enc" "jwf a" "jwf b"
  shows "canonical_string enc a = canonical_string enc b \<longleftrightarrow> jnorm a = jnorm b"
  using render_inject [OF assms(1) jwf_jnorm [OF assms(2)] jwf_jnorm [OF assms(3)], of "[]" "[]"]
  by (auto simp: canonical_render)

end
