(* ===== verification/Crypto.thy ===== *)
theory Crypto
  imports Json
begin

text \<open>
  \<^verbatim>\<open>src/src/crypto.rs\<close> and \<^verbatim>\<open>src/src/identity.rs\<close>: fingerprints, signatures and the identifier an
  actor gets from its key. SHA-256, hexadecimal, Ed25519 and the JSON text layer are the crates
  \<^verbatim>\<open>sha2\<close>, \<^verbatim>\<open>hex\<close>, \<^verbatim>\<open>ed25519-dalek\<close> and \<^verbatim>\<open>serde_json\<close>; they are the fields of a record \<open>ext\<close> that every
  definition using them takes as its first argument, and their documented behaviour is stated as
  named predicates on that record. Collision freedom is never assumed of a whole hash function
  (no function with 32-byte results has it): it is always a hypothesis on the finite set of
  preimages in play, \<open>inj_on (sha256_hex X) S\<close>.
\<close>

section \<open>The external interfaces\<close>

text \<open>A verifying key is represented by the bytes \<^verbatim>\<open>to_bytes\<close> returns, a signature by its bytes.\<close>

type_synonym verifying_key = bytes
type_synonym signature = bytes

record ext =
  sha256 :: "bytes \<Rightarrow> bytes"
  hex_encode :: "bytes \<Rightarrow> string"
  hex_decode :: "string \<Rightarrow> bytes option"
  vk_from_bytes :: "bytes \<Rightarrow> verifying_key option"
  vk_is_weak :: "verifying_key \<Rightarrow> bool"
  ed_public :: "bytes \<Rightarrow> verifying_key"
  ed_sign :: "bytes \<Rightarrow> bytes \<Rightarrow> signature"
  sig_from_slice :: "bytes \<Rightarrow> signature option"
  verify_strict :: "verifying_key \<Rightarrow> bytes \<Rightarrow> signature \<Rightarrow> bool"
  scalar_text :: "json \<Rightarrow> string"

definition lower_hex_char :: "char \<Rightarrow> bool" where
  "lower_hex_char c \<longleftrightarrow> is_digit c \<or> (97 \<le> (of_char c :: nat) \<and> (of_char c :: nat) \<le> 102)"

definition hex_law :: "ext \<Rightarrow> bool" where
  "hex_law X \<longleftrightarrow>
     (\<forall>b. hex_decode X (hex_encode X b) = Some b) \<and>
     (\<forall>b. length (hex_encode X b) = 2 * length b) \<and>
     (\<forall>b. list_all lower_hex_char (hex_encode X b))"

definition digest_law :: "ext \<Rightarrow> bool" where
  "digest_law X \<longleftrightarrow> (\<forall>m. length (sha256 X m) = 32)"

definition key_law :: "ext \<Rightarrow> bool" where
  "key_law X \<longleftrightarrow> (\<forall>s. length s = 32 \<longrightarrow>
     length (ed_public X s) = 32 \<and> vk_from_bytes X (ed_public X s) = Some (ed_public X s) \<and>
     \<not> vk_is_weak X (ed_public X s))"

definition sign_law :: "ext \<Rightarrow> bool" where
  "sign_law X \<longleftrightarrow> (\<forall>s m. length s = 32 \<longrightarrow>
     sig_from_slice X (ed_sign X s m) = Some (ed_sign X s m) \<and>
     verify_strict X (ed_public X s) m (ed_sign X s m))"

section \<open>crypto.rs\<close>

definition PUBLIC_KEY_LEN :: nat where
  "PUBLIC_KEY_LEN = 32"

datatype CryptoError = InvalidHex | InvalidKeyLength nat | InvalidPublicKey

definition sha256_hex :: "ext \<Rightarrow> bytes \<Rightarrow> string" where
  "sha256_hex X data = hex_encode X (sha256 X data)"

record Keypair =
  kp_label :: string
  kp_signing_key :: bytes

definition from_seed :: "bytes \<Rightarrow> string \<Rightarrow> Keypair" where
  "from_seed seed label = \<lparr>kp_label = label, kp_signing_key = seed\<rparr>"

definition keypair_verifying_key :: "ext \<Rightarrow> Keypair \<Rightarrow> verifying_key" where
  "keypair_verifying_key X kp = ed_public X (kp_signing_key kp)"

definition public_key_hex :: "ext \<Rightarrow> Keypair \<Rightarrow> string" where
  "public_key_hex X kp = hex_encode X (keypair_verifying_key X kp)"

definition sign_message :: "ext \<Rightarrow> Keypair \<Rightarrow> string \<Rightarrow> string" where
  "sign_message X kp message = hex_encode X (ed_sign X (kp_signing_key kp) message)"

definition derive_keypair :: "ext \<Rightarrow> string \<Rightarrow> string \<Rightarrow> Keypair" where
  "derive_keypair X master_seed label =
     \<lparr>kp_label = label, kp_signing_key = sha256 X (master_seed @ ''::keyseed::'' @ label)\<rparr>"

definition public_key_from_hex :: "ext \<Rightarrow> string \<Rightarrow> (verifying_key, CryptoError) result" where
  "public_key_from_hex X h =
     (case hex_decode X h of
        None \<Rightarrow> Err InvalidHex
      | Some bs \<Rightarrow>
          if length bs \<noteq> PUBLIC_KEY_LEN then Err (InvalidKeyLength (length bs))
          else (case vk_from_bytes X bs of
                  None \<Rightarrow> Err InvalidPublicKey
                | Some key \<Rightarrow>
                    if key \<noteq> bs \<or> vk_is_weak X key then Err InvalidPublicKey else Ok key))"

definition verify_message :: "ext \<Rightarrow> verifying_key \<Rightarrow> string \<Rightarrow> string \<Rightarrow> bool" where
  "verify_message X vk message signature_hex =
     (case hex_decode X signature_hex of
        None \<Rightarrow> False
      | Some sb \<Rightarrow>
          (case sig_from_slice X sb of
             None \<Rightarrow> False
           | Some sg \<Rightarrow> verify_strict X vk message sg))"

section \<open>identity.rs\<close>

definition ID_DIGEST_HEX_LEN :: nat where
  "ID_DIGEST_HEX_LEN = 64"

definition derive_id :: "ext \<Rightarrow> verifying_key \<Rightarrow> string" where
  "derive_id X vk = ''id:'' @ take ID_DIGEST_HEX_LEN (sha256_hex X vk)"

record Identity =
  id_id :: string
  id_verifying_key :: verifying_key

definition from_verifying_key :: "ext \<Rightarrow> verifying_key \<Rightarrow> Identity" where
  "from_verifying_key X vk = \<lparr>id_id = derive_id X vk, id_verifying_key = vk\<rparr>"

definition from_public_key_hex :: "ext \<Rightarrow> string \<Rightarrow> (Identity, CryptoError) result" where
  "from_public_key_hex X h =
     (case public_key_from_hex X h of
        Ok vk \<Rightarrow> Ok (from_verifying_key X vk)
      | Err e \<Rightarrow> Err e
      | Panic \<Rightarrow> Panic)"

section \<open>canonical.rs over the external scalar encoder\<close>

definition to_canonical_bytes :: "ext \<Rightarrow> json \<Rightarrow> bytes" where
  "to_canonical_bytes X v = canonical_string (scalar_text X) v"

abbreviation text_law :: "ext \<Rightarrow> bool" where
  "text_law X \<equiv> scalar_codec (scalar_text X)"

section \<open>Lemmas\<close>

lemma verify_message_sign:
  assumes "hex_law X" "sign_law X" "length (kp_signing_key kp) = 32"
  shows "verify_message X (keypair_verifying_key X kp) m (sign_message X kp m)"
  using assms
  by (simp add: verify_message_def sign_message_def keypair_verifying_key_def hex_law_def sign_law_def)

text \<open>A signature binds a message among \<open>S\<close> when no signature verifies for two members of \<open>S\<close>.\<close>

definition binding_on :: "ext \<Rightarrow> verifying_key \<Rightarrow> string set \<Rightarrow> bool" where
  "binding_on X vk S \<longleftrightarrow>
     (\<forall>m \<in> S. \<forall>m' \<in> S. \<forall>sg. verify_message X vk m sg \<longrightarrow> verify_message X vk m' sg \<longrightarrow> m = m')"

lemma binding_onD:
  "binding_on X vk S \<Longrightarrow> verify_message X vk m sg \<Longrightarrow> verify_message X vk m' sg \<Longrightarrow>
   m \<in> S \<Longrightarrow> m' \<in> S \<Longrightarrow> m = m'"
  unfolding binding_on_def by blast

lemma public_key_from_hex_Ok:
  "public_key_from_hex X h = Ok vk \<longleftrightarrow>
     hex_decode X h = Some vk \<and> length vk = 32 \<and> vk_from_bytes X vk = Some vk \<and> \<not> vk_is_weak X vk"
  by (auto simp: public_key_from_hex_def PUBLIC_KEY_LEN_def split: option.splits if_splits)

lemma public_key_from_hex_no_Panic [simp]: "public_key_from_hex X h \<noteq> Panic"
  by (auto simp: public_key_from_hex_def split: option.splits)

lemma public_key_from_hex_keypair:
  assumes "hex_law X" "key_law X" "length (kp_signing_key kp) = 32"
  shows "public_key_from_hex X (public_key_hex X kp) = Ok (keypair_verifying_key X kp)"
  using assms
  by (simp add: public_key_from_hex_Ok public_key_hex_def keypair_verifying_key_def hex_law_def key_law_def)

lemma derive_keypair_seed_length:
  "digest_law X \<Longrightarrow> length (kp_signing_key (derive_keypair X ms l)) = 32"
  by (simp add: derive_keypair_def digest_law_def)

lemma sha256_hex_length: "hex_law X \<Longrightarrow> digest_law X \<Longrightarrow> length (sha256_hex X m) = 64"
  by (simp add: sha256_hex_def hex_law_def digest_law_def)

lemma sha256_hex_lower: "hex_law X \<Longrightarrow> list_all lower_hex_char (sha256_hex X m)"
  by (simp add: sha256_hex_def hex_law_def)

lemma sha256_hex_no_char:
  assumes "hex_law X" "\<not> lower_hex_char c"
  shows "c \<notin> set (sha256_hex X m)"
  using sha256_hex_lower [OF assms(1), of m] assms(2) by (auto simp: list_all_iff)

lemma sha256_hex_nonempty: "hex_law X \<Longrightarrow> digest_law X \<Longrightarrow> sha256_hex X m \<noteq> []"
  using sha256_hex_length [of X m] by auto

lemma derive_id_eq:
  "hex_law X \<Longrightarrow> digest_law X \<Longrightarrow> derive_id X vk = ''id:'' @ sha256_hex X vk"
  by (simp add: derive_id_def ID_DIGEST_HEX_LEN_def sha256_hex_length)

lemma from_public_key_hex_keypair:
  assumes "hex_law X" "key_law X" "length (kp_signing_key kp) = 32"
  shows "from_public_key_hex X (public_key_hex X kp)
    = Ok \<lparr>id_id = derive_id X (keypair_verifying_key X kp),
          id_verifying_key = keypair_verifying_key X kp\<rparr>"
  by (simp add: from_public_key_hex_def public_key_from_hex_keypair [OF assms] from_verifying_key_def)

lemma to_canonical_bytes_inject:
  "text_law X \<Longrightarrow> jwf a \<Longrightarrow> jwf b \<Longrightarrow>
   to_canonical_bytes X a = to_canonical_bytes X b \<longleftrightarrow> jnorm a = jnorm b"
  unfolding to_canonical_bytes_def by (rule canonical_string_inject)

end
