(* ===== verification/Identifiers.thy ===== *)
theory Identifiers
  imports Crypto
begin

text \<open>
  \<^verbatim>\<open>src/src/identifiers.rs\<close>: the validation of tenant identifiers and content addresses at the
  HTTP boundary. What a parsed \<open>Did\<close> or \<open>ContentAddr\<close> can never contain is what makes it a safe
  SQL key, file name and log field; the two identity spaces are disjoint.
\<close>

definition MAX_DID_LEN :: nat where
  "MAX_DID_LEN = 256"

definition CONTENT_ADDR_HEX_LEN :: nat where
  "CONTENT_ADDR_HEX_LEN = 64"

datatype IdentifierError = Empty | TooLong nat nat | Malformed | WrongSpace

datatype IdentitySpace = IdSpace | AtprotoSpace

datatype Did = Did (did_str: string)

datatype ContentAddr = ContentAddr (addr_str: string)

definition is_ascii_lowercase :: "char \<Rightarrow> bool" where
  "is_ascii_lowercase c \<longleftrightarrow> 97 \<le> (of_char c :: nat) \<and> (of_char c :: nat) \<le> 122"

definition is_ascii_uppercase :: "char \<Rightarrow> bool" where
  "is_ascii_uppercase c \<longleftrightarrow> 65 \<le> (of_char c :: nat) \<and> (of_char c :: nat) \<le> 90"

definition is_ascii_alphanumeric :: "char \<Rightarrow> bool" where
  "is_ascii_alphanumeric c \<longleftrightarrow> is_digit c \<or> is_ascii_lowercase c \<or> is_ascii_uppercase c"

definition is_lower_hex :: "string \<Rightarrow> bool" where
  "is_lower_hex s \<longleftrightarrow> list_all lower_hex_char s"

definition is_msid_byte :: "char \<Rightarrow> bool" where
  "is_msid_byte b \<longleftrightarrow> is_ascii_alphanumeric b \<or>
     b \<in> {CHR ''.'', CHR ''_'', CHR ''-'', CHR '':'', CHR ''%''}"

definition is_valid_did :: "string \<Rightarrow> bool" where
  "is_valid_did raw =
     (case strip_prefix ''id:'' raw of
        Some rest \<Rightarrow> length rest = 64 \<and> is_lower_hex rest
      | None \<Rightarrow>
          (case strip_prefix ''did:'' raw of
             Some rest \<Rightarrow>
               (case split_once (CHR '':'') rest of
                  None \<Rightarrow> False
                | Some (meth, msid) \<Rightarrow>
                    (meth \<noteq> [] \<and> list_all (\<lambda>b. is_ascii_lowercase b \<or> is_digit b) meth) \<and>
                    (msid \<noteq> [] \<and> list_all is_msid_byte msid))
           | None \<Rightarrow> False))"

definition did_parse :: "string \<Rightarrow> (Did, IdentifierError) result" where
  "did_parse raw =
     (if raw = [] then Err Empty
      else if length raw > MAX_DID_LEN then Err (TooLong (length raw) MAX_DID_LEN)
      else if is_valid_did raw then Ok (Did raw)
      else Err Malformed)"

definition did_space :: "Did \<Rightarrow> IdentitySpace" where
  "did_space d = (if starts_with ''id:'' (did_str d) then IdSpace else AtprotoSpace)"

definition require_atproto :: "Did \<Rightarrow> (unit, IdentifierError) result" where
  "require_atproto d = (case did_space d of AtprotoSpace \<Rightarrow> Ok () | IdSpace \<Rightarrow> Err WrongSpace)"

definition require_id :: "Did \<Rightarrow> (unit, IdentifierError) result" where
  "require_id d = (case did_space d of IdSpace \<Rightarrow> Ok () | AtprotoSpace \<Rightarrow> Err WrongSpace)"

definition content_addr_parse :: "string \<Rightarrow> (ContentAddr, IdentifierError) result" where
  "content_addr_parse raw =
     (if raw = [] then Err Empty
      else if length raw \<noteq> CONTENT_ADDR_HEX_LEN \<or> \<not> is_lower_hex raw then Err Malformed
      else Ok (ContentAddr raw))"

section \<open>Lemmas\<close>

text \<open>The bytes a path, a log line or a formatted key must not see.\<close>

definition unsafe_char :: "char \<Rightarrow> bool" where
  "unsafe_char c \<longleftrightarrow> (of_char c :: nat) \<le> 32 \<or> (of_char c :: nat) \<ge> 127 \<or> c = CHR ''/'' \<or>
     c = CHR 0x5C \<or> c = CHR ''|'' \<or> c = CHR 0x22 \<or> c = CHR 0x27 \<or> c = CHR '',''"

lemma lower_hex_safe: "lower_hex_char c \<Longrightarrow> \<not> unsafe_char c"
  by (auto simp: lower_hex_char_def unsafe_char_def is_digit_def)

lemma lower_hex_char_iff: "lower_hex_char c \<longleftrightarrow> c \<in> set ''0123456789abcdef''"
proof
  have "n \<in> of_char ` set ''0123456789abcdef''" if "48 \<le> n \<and> n \<le> 57 \<or> 97 \<le> n \<and> n \<le> 102" for n :: nat
    using that by simp presburger
  moreover assume "lower_hex_char c"
  ultimately have "(of_char c :: nat) \<in> of_char ` set ''0123456789abcdef''" by (simp only: lower_hex_char_def is_digit_def)
  then show "c \<in> set ''0123456789abcdef''" by (simp only: inj_image_mem_iff [OF inj_of_char])
next
  assume "c \<in> set ''0123456789abcdef''"
  then show "lower_hex_char c" by (auto simp: lower_hex_char_def is_digit_def)
qed

lemma is_lower_hex_digits: "is_lower_hex s \<longleftrightarrow> set s \<subseteq> set ''0123456789abcdef''"
  unfolding is_lower_hex_def list_all_iff lower_hex_char_iff by blast

lemma msid_safe: "is_msid_byte c \<Longrightarrow> \<not> unsafe_char c"
  by (auto simp: is_msid_byte_def is_ascii_alphanumeric_def is_ascii_lowercase_def
      is_ascii_uppercase_def unsafe_char_def is_digit_def)

lemma method_safe: "is_ascii_lowercase c \<or> is_digit c \<Longrightarrow> \<not> unsafe_char c"
  by (auto simp: is_ascii_lowercase_def unsafe_char_def is_digit_def)

lemma is_valid_did_cases:
  assumes "is_valid_did raw"
  obtains (native) rest where "raw = ''id:'' @ rest" "length rest = 64" "is_lower_hex rest"
  | (atproto) meth msid where "raw = ''did:'' @ meth @ '':'' @ msid" "meth \<noteq> []" "msid \<noteq> []"
      "list_all (\<lambda>b. is_ascii_lowercase b \<or> is_digit b) meth" "list_all is_msid_byte msid"
proof (cases "strip_prefix ''id:'' raw")
  case (Some rest)
  have "length rest = 64 \<and> is_lower_hex rest"
    using assms unfolding is_valid_did_def Some by simp
  moreover have "raw = ''id:'' @ rest" using Some by (simp only: strip_prefix_Some)
  ultimately show ?thesis using native by blast
next
  case None
  then obtain rest where r: "strip_prefix ''did:'' raw = Some rest"
    using assms by (auto simp: is_valid_did_def split: option.splits)
  then obtain m i where mi: "split_once (CHR '':'') rest = Some (m, i)"
    using assms None by (auto simp: is_valid_did_def split: option.splits)
  have raw: "raw = ''did:'' @ m @ '':'' @ i"
    using split_once_Some [OF mi] r by (simp add: strip_prefix_Some)
  show ?thesis
    by (rule atproto [OF raw]) (use assms None r mi in \<open>auto simp: is_valid_did_def\<close>)
qed

lemma prefix_safe: "list_all (\<lambda>c. \<not> unsafe_char c) ''did:''"
  by (simp add: unsafe_char_def)

lemma is_valid_did_safe:
  assumes "is_valid_did raw" "c \<in> set raw"
  shows "\<not> unsafe_char c"
proof -
  have "list_all (\<lambda>c. \<not> unsafe_char c) raw"
    using assms(1)
  proof (cases rule: is_valid_did_cases)
    case (native rest)
    then have "list_all (\<lambda>c. \<not> unsafe_char c) rest"
      unfolding is_lower_hex_def by (elim list.pred_mono_strong) (rule lower_hex_safe)
    then show ?thesis using native(1) prefix_safe by simp
  next
    case (atproto meth msid)
    then have "list_all (\<lambda>c. \<not> unsafe_char c) meth" "list_all (\<lambda>c. \<not> unsafe_char c) msid"
      by (elim list.pred_mono_strong; simp only: method_safe msid_safe not_False_eq_True)+
    then show ?thesis using atproto(1) prefix_safe by simp
  qed
  then show ?thesis using assms(2) unfolding list_all_iff by blast
qed

lemma is_valid_did_derive_id:
  assumes "hex_law X" "digest_law X"
  shows "is_valid_did (derive_id X vk)"
  by (simp add: derive_id_eq [OF assms] is_valid_did_def strip_prefix_def starts_with_def
      sha256_hex_length [OF assms] is_lower_hex_def sha256_hex_lower [OF assms(1)])

lemma did_parse_Ok:
  "did_parse raw = Ok d \<longleftrightarrow> d = Did raw \<and> raw \<noteq> [] \<and> length raw \<le> MAX_DID_LEN \<and> is_valid_did raw"
  by (auto simp: did_parse_def)

lemma content_addr_parse_Ok:
  "content_addr_parse raw = Ok a \<longleftrightarrow> a = ContentAddr raw \<and> length raw = 64 \<and> is_lower_hex raw"
  by (auto simp: content_addr_parse_def CONTENT_ADDR_HEX_LEN_def)

lemma did_parse_derive_id:
  assumes "hex_law X" "digest_law X"
  shows "did_parse (derive_id X vk) = Ok (Did (derive_id X vk))"
    and "did_space (Did (derive_id X vk)) = IdSpace"
  using is_valid_did_derive_id [OF assms] sha256_hex_length [OF assms, of vk]
  by (auto simp: did_parse_Ok derive_id_eq [OF assms] MAX_DID_LEN_def did_space_def starts_with_def)

lemma content_addr_sha256:
  assumes "hex_law X" "digest_law X"
  shows "content_addr_parse (sha256_hex X m) = Ok (ContentAddr (sha256_hex X m))"
  using assms by (simp add: content_addr_parse_Ok sha256_hex_length is_lower_hex_def sha256_hex_lower)

end
