(* ===== verification/Serde.thy ===== *)
theory Serde
  imports Crypto
begin

text \<open>
  The deserialization rules \<^verbatim>\<open>#[derive(Deserialize)]\<close> generates for the record types of the crate,
  over \<^verbatim>\<open>serde_json::Value\<close>: a struct is read from an object (every field present or optional, no
  unknown field under \<^verbatim>\<open>deny_unknown_fields\<close>) or from an array of exactly its fields in order; a
  unit variant from its name or from a one-entry object holding null; integers within their width.
  Field readers take \<open>None\<close> for a missing key.
\<close>

definition de_bool :: "json \<Rightarrow> bool option" where
  "de_bool j = (case j of JBool b \<Rightarrow> Some b | _ \<Rightarrow> None)"

definition de_u64 :: "json \<Rightarrow> nat option" where
  "de_u64 j = (case j of JInt i \<Rightarrow> if 0 \<le> i \<and> nat i \<le> u64_max then Some (nat i) else None | _ \<Rightarrow> None)"

definition de_i64 :: "json \<Rightarrow> int option" where
  "de_i64 j = (case j of JInt i \<Rightarrow> if - (2 ^ 63) \<le> i \<and> i < 2 ^ 63 then Some i else None | _ \<Rightarrow> None)"

definition de_str :: "json \<Rightarrow> string option" where
  "de_str j = (case j of JStr s \<Rightarrow> Some s | _ \<Rightarrow> None)"

fun sequence_opt :: "'a option list \<Rightarrow> 'a list option" where
  "sequence_opt [] = Some []"
| "sequence_opt (None # xs) = None"
| "sequence_opt (Some x # xs) = map_option ((#) x) (sequence_opt xs)"

definition de_vec :: "(json \<Rightarrow> 'a option) \<Rightarrow> json \<Rightarrow> 'a list option" where
  "de_vec f j = (case j of JArr xs \<Rightarrow> sequence_opt (map f xs) | _ \<Rightarrow> None)"

definition de_unit_enum :: "(string \<times> 'a) list \<Rightarrow> json \<Rightarrow> 'a option" where
  "de_unit_enum vs j =
     (case j of
        JStr s \<Rightarrow> map_of vs s
      | JObj [(s, JNull)] \<Rightarrow> map_of vs s
      | _ \<Rightarrow> None)"

text \<open>The fields of a struct with \<^verbatim>\<open>deny_unknown_fields\<close>, in declaration order.\<close>

definition struct_fields :: "string list \<Rightarrow> json \<Rightarrow> json option list option" where
  "struct_fields names j =
     (case j of
        JObj kvs \<Rightarrow> if set (map fst kvs) \<subseteq> set names then Some (map (map_of kvs) names) else None
      | JArr xs \<Rightarrow> if length xs = length names then Some (map Some xs) else None
      | _ \<Rightarrow> None)"

text \<open>A required field, and an \<open>Option\<close> field (missing and null are both \<open>None\<close>).\<close>

definition req :: "(json \<Rightarrow> 'a option) \<Rightarrow> json option \<Rightarrow> 'a option" where
  "req f v = Option.bind v f"

definition opt :: "(json \<Rightarrow> 'a option) \<Rightarrow> json option \<Rightarrow> 'a option option" where
  "opt f v =
     (case v of
        None \<Rightarrow> Some None
      | Some JNull \<Rightarrow> Some None
      | Some w \<Rightarrow> map_option Some (f w))"

definition ser_opt :: "('a \<Rightarrow> json) \<Rightarrow> 'a option \<Rightarrow> json" where
  "ser_opt f v = (case v of None \<Rightarrow> JNull | Some x \<Rightarrow> f x)"

lemmas de_defs = de_bool_def de_u64_def de_i64_def de_str_def de_vec_def de_unit_enum_def
  struct_fields_def req_def opt_def ser_opt_def

lemma sequence_opt_Some [simp]: "sequence_opt (map Some xs) = Some xs"
  by (induction xs) auto

lemma sequence_opt_JStr [simp]: "sequence_opt (map (de_str \<circ> JStr) xs) = Some xs"
  by (induction xs) (auto simp: de_str_def)

end
