(* ===== verification/Assertion.thy ===== *)
theory Assertion
  imports Identifiers Serde
begin

text \<open>
  \<^verbatim>\<open>src/src/assertion.rs\<close>: the self-assertion substrate. An assertion is a setting signed by its
  owner (Model A) or attested by the provider on the strength of a service-auth token (Model C),
  over a preimage that binds the kind, the owner, the sub-target, the sequence number and the
  fold of the body; the provider acknowledges the exact record it stored. The lemmas show that
  the preimages are unambiguous and live in three disjoint domains, that what is signed or
  acknowledged verifies, and what a verified record guarantees. The locale \<open>body_kind\<close> is what a
  kind has to supply; its lemma turns a binding fold into a binding signature.
\<close>

section \<open>Data\<close>

definition RECORD_DOMAIN_PREFIX :: string where
  "RECORD_DOMAIN_PREFIX = ''ciss/v1/assertion''"

definition ATTEST_DOMAIN_PREFIX :: string where
  "ATTEST_DOMAIN_PREFIX = ''ciss/v1/assertion-attest''"

definition ACK_DOMAIN_PREFIX :: string where
  "ACK_DOMAIN_PREFIX = ''ciss/v1/assertion-ack''"

record OwnerSigned =
  os_signer :: string
  os_sig :: string

record ProviderAttested =
  pa_owner_did :: string
  pa_authorizing_jti :: string
  pa_provider_sig :: string

datatype Authorization =
    AuthOwnerSigned OwnerSigned
  | AuthProviderAttested ProviderAttested

record SignedAssertion =
  sa_did :: string
  sa_kind :: string
  sa_subkey :: "string option"
  sa_seq :: u64
  sa_body :: json
  sa_authorization :: Authorization

record Ack =
  ack_signer :: string
  ack_sig :: string

section \<open>Preimages\<close>

definition subkey_tag :: "string option \<Rightarrow> string" where
  "subkey_tag subkey = (case subkey of None \<Rightarrow> ''-'' | Some s \<Rightarrow> s)"

definition subkey_well_formed :: "string option \<Rightarrow> bool" where
  "subkey_well_formed subkey =
     (case subkey of None \<Rightarrow> True | Some s \<Rightarrow> s \<noteq> [] \<and> s \<noteq> ''-'' \<and> CHR '':'' \<notin> set s)"

definition record_preimage :: "string \<Rightarrow> string \<Rightarrow> string option \<Rightarrow> u64 \<Rightarrow> string \<Rightarrow> string" where
  "record_preimage kind did subkey seq body_fold =
     RECORD_DOMAIN_PREFIX @ '':'' @ kind @ '':'' @ did @ '':'' @ subkey_tag subkey @ '':'' @
     show_nat seq @ '':'' @ body_fold"

definition attest_preimage ::
  "string \<Rightarrow> string \<Rightarrow> string \<Rightarrow> string option \<Rightarrow> u64 \<Rightarrow> string \<Rightarrow> string" where
  "attest_preimage kind owner_did did subkey seq body_fold =
     ATTEST_DOMAIN_PREFIX @ '':'' @ kind @ '':'' @ owner_did @ '':'' @ did @ '':'' @
     subkey_tag subkey @ '':'' @ show_nat seq @ '':'' @ body_fold"

definition ack_preimage :: "string \<Rightarrow> string \<Rightarrow> string option \<Rightarrow> u64 \<Rightarrow> string \<Rightarrow> string" where
  "ack_preimage kind did subkey seq record_digest_hex =
     ACK_DOMAIN_PREFIX @ '':'' @ kind @ '':'' @ did @ '':'' @ subkey_tag subkey @ '':'' @
     show_nat seq @ '':'' @ record_digest_hex"

section \<open>Operations\<close>

definition sign_owner ::
  "ext \<Rightarrow> string \<Rightarrow> string \<Rightarrow> string option \<Rightarrow> u64 \<Rightarrow> json \<Rightarrow> string \<Rightarrow> Keypair \<Rightarrow> SignedAssertion" where
  "sign_owner X kind did subkey seq body body_fold kp =
     \<lparr>sa_did = did, sa_kind = kind, sa_subkey = subkey, sa_seq = seq, sa_body = body,
      sa_authorization = AuthOwnerSigned
        \<lparr>os_signer = public_key_hex X kp,
         os_sig = sign_message X kp (record_preimage kind did subkey seq body_fold)\<rparr>\<rparr>"

definition attest_provider ::
  "ext \<Rightarrow> string \<Rightarrow> string \<Rightarrow> string option \<Rightarrow> u64 \<Rightarrow> json \<Rightarrow> string \<Rightarrow> string \<Rightarrow> Keypair
   \<Rightarrow> SignedAssertion" where
  "attest_provider X kind owner_did subkey seq body body_fold jti kp =
     \<lparr>sa_did = owner_did, sa_kind = kind, sa_subkey = subkey, sa_seq = seq, sa_body = body,
      sa_authorization = AuthProviderAttested
        \<lparr>pa_owner_did = owner_did, pa_authorizing_jti = jti,
         pa_provider_sig =
           sign_message X kp (attest_preimage kind owner_did owner_did subkey seq body_fold)\<rparr>\<rparr>"

definition verify_authorization ::
  "ext \<Rightarrow> SignedAssertion \<Rightarrow> Did \<Rightarrow> string \<Rightarrow> verifying_key \<Rightarrow> bool" where
  "verify_authorization X a target_did body_fold provider_key =
     (case sa_authorization a of
        AuthOwnerSigned owner \<Rightarrow>
          if did_space target_did \<noteq> IdSpace then False
          else (case public_key_from_hex X (os_signer owner) of
                  Ok signer_key \<Rightarrow>
                    if derive_id X signer_key \<noteq> sa_did a then False
                    else verify_message X signer_key
                      (record_preimage (sa_kind a) (sa_did a) (sa_subkey a) (sa_seq a) body_fold)
                      (os_sig owner)
                | _ \<Rightarrow> False)
      | AuthProviderAttested attested \<Rightarrow>
          if pa_owner_did attested \<noteq> sa_did a then False
          else verify_message X provider_key
            (attest_preimage (sa_kind a) (pa_owner_did attested) (sa_did a) (sa_subkey a) (sa_seq a)
               body_fold)
            (pa_provider_sig attested))"

definition assertion_verify ::
  "ext \<Rightarrow> SignedAssertion \<Rightarrow> string \<Rightarrow> u64 option \<Rightarrow> verifying_key \<Rightarrow> bool" where
  "assertion_verify X a body_fold prior_seq provider_key =
     (case did_parse (sa_did a) of
        Ok target_did \<Rightarrow>
          if sa_kind a = [] \<or> CHR '':'' \<in> set (sa_kind a) then False
          else if \<not> subkey_well_formed (sa_subkey a) then False
          else if (case prior_seq of Some prior \<Rightarrow> sa_seq a \<le> prior | None \<Rightarrow> False) then False
          else verify_authorization X a target_did body_fold provider_key
      | _ \<Rightarrow> False)"

text \<open>The record as \<^verbatim>\<open>serde_json\<close> serializes it, in the order of the struct's fields.\<close>

definition authorization_json :: "Authorization \<Rightarrow> json" where
  "authorization_json z =
     (case z of
        AuthOwnerSigned owner \<Rightarrow>
          JObj [(''OwnerSigned'', JObj [(''signer'', JStr (os_signer owner)), (''sig'', JStr (os_sig owner))])]
      | AuthProviderAttested p \<Rightarrow>
          JObj [(''ProviderAttested'',
            JObj [(''owner_did'', JStr (pa_owner_did p)), (''authorizing_jti'', JStr (pa_authorizing_jti p)),
                  (''provider_sig'', JStr (pa_provider_sig p))])])"

definition assertion_json :: "SignedAssertion \<Rightarrow> json" where
  "assertion_json a =
     JObj [(''did'', JStr (sa_did a)), (''kind'', JStr (sa_kind a)),
           (''subkey'', ser_opt JStr (sa_subkey a)), (''seq'', JInt (int (sa_seq a))),
           (''body'', sa_body a), (''authorization'', authorization_json (sa_authorization a))]"

definition assertion_digest :: "ext \<Rightarrow> SignedAssertion \<Rightarrow> string" where
  "assertion_digest X a = sha256_hex X (render (scalar_text X) (assertion_json a))"

definition make_ack :: "ext \<Rightarrow> SignedAssertion \<Rightarrow> Keypair \<Rightarrow> Ack" where
  "make_ack X a kp =
     \<lparr>ack_signer = public_key_hex X kp,
      ack_sig = sign_message X kp
        (ack_preimage (sa_kind a) (sa_did a) (sa_subkey a) (sa_seq a) (assertion_digest X a))\<rparr>"

definition verify_ack :: "ext \<Rightarrow> SignedAssertion \<Rightarrow> Ack \<Rightarrow> verifying_key \<Rightarrow> bool" where
  "verify_ack X a ack provider_key =
     verify_message X provider_key
       (ack_preimage (sa_kind a) (sa_did a) (sa_subkey a) (sa_seq a) (assertion_digest X a))
       (ack_sig ack)"

section \<open>Unambiguous preimages\<close>

lemma subkey_tag_inject:
  assumes "subkey_well_formed a" "subkey_well_formed b" "subkey_tag a = subkey_tag b"
  shows "a = b"
  using assms by (auto simp: subkey_well_formed_def subkey_tag_def split: option.splits)

lemma subkey_tag_no_colon: "subkey_well_formed a \<Longrightarrow> CHR '':'' \<notin> set (subkey_tag a)"
  by (auto simp: subkey_well_formed_def subkey_tag_def split: option.splits)

lemma show_nat_no_colon: "CHR '':'' \<notin> set (show_nat n)"
  by (rule show_nat_no_char) (simp add: is_digit_def)

lemma tail_inject:
  assumes "subkey_well_formed s" "subkey_well_formed s'"
    and "subkey_tag s @ CHR '':'' # show_nat n @ CHR '':'' # f
       = subkey_tag s' @ CHR '':'' # show_nat n' @ CHR '':'' # f'"
  shows "s = s' \<and> n = n' \<and> f = f'"
  using assms
  by (simp add: append_delim_eq subkey_tag_no_colon show_nat_no_colon) (auto dest: subkey_tag_inject)

lemma record_preimage_inject:
  assumes "CHR '':'' \<notin> set k" "CHR '':'' \<notin> set k'" "subkey_well_formed s" "subkey_well_formed s'"
    and "length d = length d'"
    and eq: "record_preimage k d s n f = record_preimage k' d' s' n' f'"
  shows "k = k' \<and> d = d' \<and> s = s' \<and> n = n' \<and> f = f'"
proof -
  have "k @ CHR '':'' # d @ CHR '':'' # subkey_tag s @ CHR '':'' # show_nat n @ CHR '':'' # f
      = k' @ CHR '':'' # d' @ CHR '':'' # subkey_tag s' @ CHR '':'' # show_nat n' @ CHR '':'' # f'"
    using eq by (simp add: record_preimage_def)
  from delimD [OF this assms(1,2)]
  have "k = k'" and "d @ CHR '':'' # subkey_tag s @ CHR '':'' # show_nat n @ CHR '':'' # f
      = d' @ CHR '':'' # subkey_tag s' @ CHR '':'' # show_nat n' @ CHR '':'' # f'"
    by blast+
  from append_eq_append_conv [THEN iffD1, OF _ this(2)] assms(5)
  have "d = d'" and
    "subkey_tag s @ CHR '':'' # show_nat n @ CHR '':'' # f
     = subkey_tag s' @ CHR '':'' # show_nat n' @ CHR '':'' # f'"
    by blast+
  then show ?thesis using tail_inject [OF assms(3,4)] \<open>k = k'\<close> by blast
qed

lemma ack_preimage_inject:
  assumes "CHR '':'' \<notin> set k" "CHR '':'' \<notin> set k'" "subkey_well_formed s" "subkey_well_formed s'"
    and "CHR '':'' \<notin> set h" "CHR '':'' \<notin> set h'"
    and eq: "ack_preimage k d s n h = ack_preimage k' d' s' n' h'"
  shows "k = k' \<and> d = d' \<and> s = s' \<and> n = n' \<and> h = h'"
proof -
  have "k @ CHR '':'' # d @ CHR '':'' # subkey_tag s @ CHR '':'' # show_nat n @ CHR '':'' # h
     = k' @ CHR '':'' # d' @ CHR '':'' # subkey_tag s' @ CHR '':'' # show_nat n' @ CHR '':'' # h'"
    using eq by (simp add: ack_preimage_def)
  note kr = delimD [OF this assms(1,2)]
  then have "(d @ CHR '':'' # subkey_tag s @ CHR '':'' # show_nat n) @ CHR '':'' # h
     = (d' @ CHR '':'' # subkey_tag s' @ CHR '':'' # show_nat n') @ CHR '':'' # h'"
    by simp
  note hr = delim_revD [OF this assms(5,6)]
  then have "(d @ CHR '':'' # subkey_tag s) @ CHR '':'' # show_nat n
     = (d' @ CHR '':'' # subkey_tag s') @ CHR '':'' # show_nat n'"
    by simp
  note nr = delim_revD [OF this show_nat_no_colon show_nat_no_colon]
  note dr = delim_revD [OF conjunct1 [OF nr] subkey_tag_no_colon [OF assms(3)]
      subkey_tag_no_colon [OF assms(4)]]
  show ?thesis using kr hr nr dr subkey_tag_inject [OF assms(3,4)] by simp
qed

lemma domains_disjoint:
  "record_preimage k d s n f \<noteq> attest_preimage k' w' d' s' n' f'"
  "record_preimage k d s n f \<noteq> ack_preimage k'' d'' s'' n'' h''"
  "attest_preimage k' w' d' s' n' f' \<noteq> ack_preimage k'' d'' s'' n'' h''"
  by (simp_all add: record_preimage_def attest_preimage_def ack_preimage_def
      RECORD_DOMAIN_PREFIX_def ATTEST_DOMAIN_PREFIX_def ACK_DOMAIN_PREFIX_def)

section \<open>Signing and verifying\<close>

lemma assertion_verify_wf:
  assumes "assertion_verify X a f prior pk"
  shows "is_valid_did (sa_did a)" "sa_kind a \<noteq> []" "CHR '':'' \<notin> set (sa_kind a)"
    "subkey_well_formed (sa_subkey a)" "\<And>p. prior = Some p \<Longrightarrow> p < sa_seq a"
    "verify_authorization X a (Did (sa_did a)) f pk"
  using assms
  by (auto simp: assertion_verify_def did_parse_Ok split: result.splits option.splits if_splits)

lemma verify_authorization_owner:
  assumes "verify_authorization X a d f pk" "sa_authorization a = AuthOwnerSigned ow"
  obtains vk where "public_key_from_hex X (os_signer ow) = Ok vk" "derive_id X vk = sa_did a"
    "did_space d = IdSpace"
    "verify_message X vk (record_preimage (sa_kind a) (sa_did a) (sa_subkey a) (sa_seq a) f) (os_sig ow)"
  using assms by (auto simp: verify_authorization_def split: result.splits if_splits)

lemma sign_owner_verifies:
  assumes "hex_law X" "digest_law X" "key_law X" "sign_law X" "length (kp_signing_key kp) = 32"
    and "kind \<noteq> []" "CHR '':'' \<notin> set kind" "subkey_well_formed subkey"
    and "\<And>p. prior = Some p \<Longrightarrow> p < seq"
  shows "assertion_verify X
    (sign_owner X kind (derive_id X (keypair_verifying_key X kp)) subkey seq body f kp) f prior pk"
  using assms did_parse_derive_id [OF assms(1,2)] public_key_from_hex_keypair [OF assms(1,3,5)]
    verify_message_sign [OF assms(1,4,5)]
  by (auto simp: assertion_verify_def verify_authorization_def sign_owner_def split: option.splits)

lemma attest_provider_verifies:
  assumes "hex_law X" "sign_law X" "length (kp_signing_key kp) = 32"
    and "did_parse did = Ok d" "kind \<noteq> []" "CHR '':'' \<notin> set kind" "subkey_well_formed subkey"
    and "\<And>p. prior = Some p \<Longrightarrow> p < seq"
  shows "assertion_verify X (attest_provider X kind did subkey seq body f jti kp) f prior
    (keypair_verifying_key X kp)"
  using assms verify_message_sign [OF assms(1,2,3)]
  by (auto simp: assertion_verify_def verify_authorization_def attest_provider_def split: option.splits)

text \<open>An acknowledgment verifies, and binds the exact record.\<close>

lemma make_ack_verifies:
  assumes "hex_law X" "sign_law X" "length (kp_signing_key kp) = 32"
  shows "verify_ack X a (make_ack X a kp) (keypair_verifying_key X kp)"
  using verify_message_sign [OF assms] by (simp add: verify_ack_def make_ack_def)

lemma assertion_json_inject: "assertion_json a = assertion_json b \<longleftrightarrow> a = b"
proof
  assume eq: "assertion_json a = assertion_json b"
  have z: "x = y" if "authorization_json x = authorization_json y" for x y
    using that by (cases x; cases y) (auto simp: authorization_json_def OwnerSigned.equality
        ProviderAttested.equality)
  have s: "x = y" if "ser_opt JStr x = ser_opt JStr y" for x y
    using that by (auto simp: ser_opt_def split: option.splits)
  show "a = b"
    using eq z s by (intro SignedAssertion.equality) (auto simp: assertion_json_def)
qed simp

lemma jwf_assertion_json: "jwf (sa_body a) \<Longrightarrow> jwf (assertion_json a)"
  by (auto simp: assertion_json_def authorization_json_def ser_opt_def
      split: option.splits Authorization.splits)

definition ack_text :: "ext \<Rightarrow> SignedAssertion \<Rightarrow> string" where
  "ack_text X a = ack_preimage (sa_kind a) (sa_did a) (sa_subkey a) (sa_seq a) (assertion_digest X a)"

lemma verify_ack_binds:
  assumes "hex_law X" "text_law X"
    and "inj_on (sha256_hex X)
      {render (scalar_text X) (assertion_json a), render (scalar_text X) (assertion_json b)}"
    and "binding_on X pk {ack_text X a, ack_text X b}"
    and "\<And>r. r \<in> {a, b} \<Longrightarrow> jwf (sa_body r) \<and> CHR '':'' \<notin> set (sa_kind r) \<and> subkey_well_formed (sa_subkey r)"
    and "verify_ack X a ack pk" "verify_ack X b ack pk"
  shows "a = b"
proof -
  have "ack_text X a = ack_text X b"
    by (rule binding_onD [OF assms(4), of _ "ack_sig ack"])
      (use assms(6,7) in \<open>simp_all add: verify_ack_def ack_text_def\<close>)
  moreover have "CHR '':'' \<notin> set (assertion_digest X r)" for r
    unfolding assertion_digest_def
    by (rule sha256_hex_no_char [OF assms(1)]) (simp add: lower_hex_char_def is_digit_def)
  ultimately have "assertion_digest X a = assertion_digest X b"
    using ack_preimage_inject [of "sa_kind a" "sa_kind b" "sa_subkey a" "sa_subkey b"] assms(5)
    unfolding ack_text_def by blast
  then have "render (scalar_text X) (assertion_json a) = render (scalar_text X) (assertion_json b)"
    using assms(3) by (simp add: assertion_digest_def inj_on_eq_iff)
  then have "assertion_json a = assertion_json b"
    using render_inject [OF assms(2), of "assertion_json a" "assertion_json b" "[]" "[]"] assms(5)
    by (simp add: jwf_assertion_json)
  then show ?thesis by (simp add: assertion_json_inject)
qed

section \<open>What a kind supplies\<close>

locale body_kind =
  fixes valid :: "'b \<Rightarrow> bool"
    and fold_of :: "'b \<Rightarrow> string"
    and same :: "'b \<Rightarrow> 'b \<Rightarrow> bool"
  assumes fold_binds: "valid a \<Longrightarrow> valid b \<Longrightarrow> fold_of a = fold_of b \<Longrightarrow> same a b"
begin

text \<open>One owner signature, verified for two records with bodies of the kind, forces the records
  to agree on everything it covers.\<close>

lemma owner_signature_binds:
  assumes ver: "assertion_verify X r (fold_of a) p pk" "assertion_verify X s (fold_of b) q pk"
    and ow: "sa_authorization r = AuthOwnerSigned ow" "sa_authorization s = AuthOwnerSigned ow"
    and val: "valid a" "valid b"
    and bind: "\<And>vk. public_key_from_hex X (os_signer ow) = Ok vk \<Longrightarrow> binding_on X vk
      {record_preimage (sa_kind r) (sa_did r) (sa_subkey r) (sa_seq r) (fold_of a),
       record_preimage (sa_kind s) (sa_did s) (sa_subkey s) (sa_seq s) (fold_of b)}"
  shows "sa_did r = sa_did s \<and> sa_kind r = sa_kind s \<and> sa_subkey r = sa_subkey s \<and>
    sa_seq r = sa_seq s \<and> same a b"
proof -
  obtain vk where vk: "public_key_from_hex X (os_signer ow) = Ok vk" "derive_id X vk = sa_did r"
    "verify_message X vk (record_preimage (sa_kind r) (sa_did r) (sa_subkey r) (sa_seq r) (fold_of a))
      (os_sig ow)"
    using verify_authorization_owner [OF assertion_verify_wf(6) [OF ver(1)] ow(1)] .
  obtain vk' where vk': "public_key_from_hex X (os_signer ow) = Ok vk'" "derive_id X vk' = sa_did s"
    "verify_message X vk' (record_preimage (sa_kind s) (sa_did s) (sa_subkey s) (sa_seq s) (fold_of b))
      (os_sig ow)"
    using verify_authorization_owner [OF assertion_verify_wf(6) [OF ver(2)] ow(2)] .
  have "vk = vk'" using vk(1) vk'(1) by simp
  then have did: "sa_did r = sa_did s" using vk(2) vk'(2) by simp
  have "record_preimage (sa_kind r) (sa_did r) (sa_subkey r) (sa_seq r) (fold_of a)
      = record_preimage (sa_kind s) (sa_did s) (sa_subkey s) (sa_seq s) (fold_of b)"
    using binding_onD [OF bind [OF vk(1)] vk(3)] vk'(3) \<open>vk = vk'\<close> by simp
  then have "sa_kind r = sa_kind s \<and> sa_did r = sa_did s \<and> sa_subkey r = sa_subkey s \<and>
      sa_seq r = sa_seq s \<and> fold_of a = fold_of b"
    using record_preimage_inject [OF assertion_verify_wf(3) [OF ver(1)] assertion_verify_wf(3) [OF ver(2)]
        assertion_verify_wf(4) [OF ver(1)] assertion_verify_wf(4) [OF ver(2)]
        arg_cong [OF did, of length]]
    by blast
  then show ?thesis using did fold_binds [OF val] by simp
qed

end

end
