(* ===== verification/Kind_Spec.thy ===== *)
theory Kind_Spec
  imports Ciss_Prelude
begin

text \<open>
  \<^verbatim>\<open>src/src/kind_spec.rs\<close>: the six semantic axes on which every assertion kind declares itself.
  The declarations themselves stand beside their kinds (\<open>Policy\<close>, \<open>Dials\<close>, \<open>Chain\<close>); the
  registry over them is in \<open>Kinds\<close>.
\<close>

datatype Retention = Setting | Immutable | Log | Chain

datatype Authorship = Derived | OwnerSignedAuthorship | ProviderSigned | CoSigned

datatype Erasure = Erasable | Permanent

datatype Enumeration = Listable | PointOnly

datatype HashPosture = FoldBound | ChainLinked | MerkleRooted | ContentAddressed

datatype HashAlgorithm = Sha256 | Blake3

record Hashing =
  posture :: HashPosture
  algorithm :: HashAlgorithm

datatype Growth = Bounded | Rolling | Unbounded

record Sizing =
  body_ceiling :: usize
  growth :: Growth

record KindSpec =
  ks_kind :: string
  ks_retention :: Retention
  ks_authorship :: Authorship
  ks_erasure :: Erasure
  ks_enumeration :: Enumeration
  ks_hashing :: Hashing
  ks_sizing :: Sizing

definition is_consistent :: "KindSpec \<Rightarrow> bool" where
  "is_consistent s \<longleftrightarrow> \<not> (ks_retention s = Chain \<and> ks_erasure s = Erasable)"

definition SMALL_BODY_CEILING_BYTES :: usize where
  "SMALL_BODY_CEILING_BYTES = 1024"

end
