(* ===== verification/Policy.thy ===== *)
theory Policy
  imports Assertion Kind_Spec
begin

text \<open>
  \<^verbatim>\<open>src/src/policy.rs\<close>: the read-policy kind. The body says who may read a namespace or an object;
  its fold is what the owner signs, and \<open>allows\<close> is the decision of the read gate on a resolved
  policy. The kind is an instance of \<open>body_kind\<close>: its fold determines the class and the set of
  readers.
\<close>

definition POLICY_KIND :: string where
  "POLICY_KIND = ''policy''"

definition MAX_READERS :: usize where
  "MAX_READERS = 1024"

definition POLICY_BODY_CEILING_BYTES :: usize where
  "POLICY_BODY_CEILING_BYTES = 64 * 1024"

definition POLICY_SPEC :: KindSpec where
  "POLICY_SPEC = \<lparr>ks_kind = POLICY_KIND, ks_retention = Setting,
     ks_authorship = OwnerSignedAuthorship, ks_erasure = Permanent, ks_enumeration = Listable,
     ks_hashing = \<lparr>posture = FoldBound, algorithm = Sha256\<rparr>,
     ks_sizing = \<lparr>body_ceiling = POLICY_BODY_CEILING_BYTES, growth = Bounded\<rparr>\<rparr>"

datatype ReadClass = World | Grantees | OwnerOnly

fun read_class_tag :: "ReadClass \<Rightarrow> string" where
  "read_class_tag World = ''world''"
| "read_class_tag Grantees = ''grantees''"
| "read_class_tag OwnerOnly = ''owner''"

record PolicyBody =
  pb_read_class :: ReadClass
  pb_readers :: "string list"

definition de_policy_body :: "json \<Rightarrow> PolicyBody option" where
  "de_policy_body j =
     (case struct_fields [''read_class'', ''readers''] j of
        Some [c, r] \<Rightarrow>
          (case (req (de_unit_enum [(''world'', World), (''grantees'', Grantees), (''owner'', OwnerOnly)]) c,
                 req (de_vec de_str) r) of
             (Some rc, Some rs) \<Rightarrow> Some \<lparr>pb_read_class = rc, pb_readers = rs\<rparr>
           | _ \<Rightarrow> None)
      | _ \<Rightarrow> None)"

definition ser_policy_body :: "PolicyBody \<Rightarrow> json" where
  "ser_policy_body b =
     JObj [(''read_class'', JStr (read_class_tag (pb_read_class b))),
           (''readers'', JArr (map JStr (pb_readers b)))]"

definition policy_body_fold :: "PolicyBody \<Rightarrow> string" where
  "policy_body_fold b =
     (let readers = sort (pb_readers b) in
      ''class='' @ read_class_tag (pb_read_class b) @ '';readers='' @ show_nat (length readers) @
      '':'' @ join '','' readers)"

text \<open>\<open>iter().all(|r| Did::parse(r).is_ok() && seen.insert(r))\<close>.\<close>

fun readers_ok :: "string set \<Rightarrow> string list \<Rightarrow> bool" where
  "readers_ok seen [] = True"
| "readers_ok seen (r # rs) \<longleftrightarrow> is_ok (did_parse r) \<and> r \<notin> seen \<and> readers_ok (insert r seen) rs"

definition policy_body_valid :: "PolicyBody \<Rightarrow> bool" where
  "policy_body_valid b =
     (case pb_read_class b of
        World \<Rightarrow> pb_readers b = []
      | OwnerOnly \<Rightarrow> pb_readers b = []
      | Grantees \<Rightarrow>
          if length (pb_readers b) > MAX_READERS then False else readers_ok {} (pb_readers b))"

record ResolvedPolicy =
  rp_read_class :: ReadClass
  rp_readers :: "string list"

definition world_policy :: ResolvedPolicy where
  "world_policy = \<lparr>rp_read_class = World, rp_readers = []\<rparr>"

definition deny_policy :: ResolvedPolicy where
  "deny_policy = \<lparr>rp_read_class = OwnerOnly, rp_readers = []\<rparr>"

definition from_body :: "PolicyBody \<Rightarrow> ResolvedPolicy" where
  "from_body b = \<lparr>rp_read_class = pb_read_class b, rp_readers = pb_readers b\<rparr>"

definition allows :: "ResolvedPolicy \<Rightarrow> string option \<Rightarrow> string \<Rightarrow> bool" where
  "allows p caller owner_did =
     (if caller = Some owner_did then True
      else (case rp_read_class p of
              World \<Rightarrow> True
            | OwnerOnly \<Rightarrow> False
            | Grantees \<Rightarrow> (case caller of None \<Rightarrow> False | Some c \<Rightarrow> list_ex (\<lambda>r. r = c) (rp_readers p))))"

section \<open>Lemmas\<close>

lemma readers_ok_iff:
  "readers_ok seen rs \<longleftrightarrow>
     (\<forall>r \<in> set rs. is_ok (did_parse r)) \<and> distinct rs \<and> set rs \<inter> seen = {}"
  by (induction rs arbitrary: seen) auto

lemma policy_reader_no_comma:
  assumes "policy_body_valid b" "r \<in> set (pb_readers b)"
  shows "CHR '','' \<notin> set r"
proof -
  have "is_ok (did_parse r)"
    using assms by (auto simp: policy_body_valid_def readers_ok_iff split: ReadClass.splits if_splits)
  then have "is_valid_did r" by (auto simp: is_ok_iff did_parse_Ok)
  then show ?thesis using is_valid_did_safe [of r "CHR '',''"] by (auto simp: unsafe_char_def)
qed

lemma read_class_tag_simps:
  "CHR '';'' \<notin> set (read_class_tag c)" "read_class_tag c = read_class_tag d \<longleftrightarrow> c = d"
  by (cases c; simp) (cases c; cases d; simp)

definition same_policy :: "PolicyBody \<Rightarrow> PolicyBody \<Rightarrow> bool" where
  "same_policy a b \<longleftrightarrow>
     pb_read_class a = pb_read_class b \<and> sort (pb_readers a) = sort (pb_readers b)"

lemma policy_fold_binds:
  assumes "policy_body_valid a" "policy_body_valid b" "policy_body_fold a = policy_body_fold b"
  shows "same_policy a b"
proof -
  let ?j = "\<lambda>b. join '','' (sort (pb_readers b))"
  have "read_class_tag (pb_read_class a) @ CHR '';'' # ''readers='' @ show_nat (length (pb_readers a)) @ CHR '':'' # ?j a
      = read_class_tag (pb_read_class b) @ CHR '';'' # ''readers='' @ show_nat (length (pb_readers b)) @ CHR '':'' # ?j b"
    using assms(3) by (simp add: policy_body_fold_def)
  note c = delimD [OF this read_class_tag_simps(1) read_class_tag_simps(1)]
  then have "show_nat (length (pb_readers a)) @ CHR '':'' # ?j a
      = show_nat (length (pb_readers b)) @ CHR '':'' # ?j b" by simp
  note l = delimD [OF this show_nat_no_colon show_nat_no_colon]
  have "sort (pb_readers a) = sort (pb_readers b)"
    by (rule join_inject [of _ _ "CHR '',''"])
      (use l policy_reader_no_comma [OF assms(1)] policy_reader_no_comma [OF assms(2)] in auto)
  then show ?thesis using c by (simp add: same_policy_def read_class_tag_simps(2))
qed

interpretation policy_kind: body_kind policy_body_valid policy_body_fold same_policy
  by unfold_locales (rule policy_fold_binds)

text \<open>Equivalent bodies decide every read alike.\<close>

lemma same_policy_allows:
  assumes "same_policy a b"
  shows "allows (from_body a) = allows (from_body b)"
proof -
  have "set (pb_readers a) = set (pb_readers b)"
    using assms by (metis same_policy_def set_sort)
  then show ?thesis
    using assms by (auto simp: fun_eq_iff allows_def from_body_def same_policy_def list_ex_iff
        split: ReadClass.splits option.splits)
qed

lemma allows_owner: "allows p (Some d) d"
  by (simp add: allows_def)

lemma allows_deny: "allows deny_policy c d \<longleftrightarrow> c = Some d"
  by (simp add: allows_def deny_policy_def)

lemma allows_world: "allows world_policy c d"
  by (simp add: allows_def world_policy_def)

lemma de_ser_policy: "de_policy_body (ser_policy_body b) = Some b"
  by (cases "pb_read_class b")
    (auto simp: de_policy_body_def ser_policy_body_def de_defs comp_def)

end
