(* ===== verification/Hash_Chain.thy ===== *)
theory Hash_Chain
  imports Ciss_Prelude
begin

text \<open>
  What an append-only, hash-linked sequence promises, once for the three chains of the program
  (ledger entries, statements, accounting entries). The locale \<open>hash_chain\<close> asks of a chain
  format only that its verifier accepts nothing but linked sequences; its lemmas say what the
  hash of the last entry commits to.
\<close>

fun linked :: "('e \<Rightarrow> 'h) \<Rightarrow> ('e \<Rightarrow> 'h) \<Rightarrow> 'h \<Rightarrow> 'e list \<Rightarrow> bool" where
  "linked prev hash h [] = True"
| "linked prev hash h (e # es) \<longleftrightarrow> prev e = h \<and> linked prev hash (hash e) es"

fun head_of :: "('e \<Rightarrow> 'h) \<Rightarrow> 'h \<Rightarrow> 'e list \<Rightarrow> 'h" where
  "head_of hash h [] = h"
| "head_of hash h (e # es) = head_of hash (hash e) es"

lemma head_of_append: "head_of hash h (xs @ ys) = head_of hash (head_of hash h xs) ys"
  by (induction xs arbitrary: h) auto

lemma head_of_snoc [simp]: "head_of hash h (xs @ [e]) = hash e"
  by (simp add: head_of_append)

lemma linked_append:
  "linked prev hash h (xs @ ys) \<longleftrightarrow> linked prev hash h xs \<and> linked prev hash (head_of hash h xs) ys"
  by (induction xs arbitrary: h) auto

lemma linked_snoc:
  "linked prev hash h (xs @ [e]) \<longleftrightarrow> linked prev hash h xs \<and> prev e = head_of hash h xs"
  by (simp add: linked_append)

text \<open>The part of an entry its hash covers is its content; a hash commits on a set of entries when
  equal hashes mean equal contents there.\<close>

definition commits :: "('e \<Rightarrow> 'h) \<Rightarrow> ('e \<Rightarrow> 'c) \<Rightarrow> 'e set \<Rightarrow> bool" where
  "commits hash content S \<longleftrightarrow> (\<forall>a \<in> S. \<forall>b \<in> S. hash a = hash b \<longrightarrow> content a = content b)"

lemma commitsD: "commits hash content S \<Longrightarrow> hash a = hash b \<Longrightarrow> a \<in> S \<Longrightarrow> b \<in> S \<Longrightarrow> content a = content b"
  unfolding commits_def by blast

lemma commits_subset: "commits hash content S \<Longrightarrow> T \<subseteq> S \<Longrightarrow> commits hash content T"
  unfolding commits_def by blast

lemma commits_id: "commits hash id S \<longleftrightarrow> inj_on hash S"
  by (auto simp: commits_def inj_on_def)

locale hash_chain =
  fixes prev :: "'e \<Rightarrow> 'h" and hash :: "'e \<Rightarrow> 'h" and content :: "'e \<Rightarrow> 'c"
    and genesis :: 'h and accepts :: "'e list \<Rightarrow> bool"
  assumes accepts_linked: "accepts es \<Longrightarrow> linked prev hash genesis es"
    and content_prev: "content a = content b \<Longrightarrow> prev a = prev b"
begin

text \<open>Two linked sequences with the same head agree from the back: one is a suffix of the other.\<close>

lemma linked_suffix:
  assumes "linked prev hash g xs" "linked prev hash h ys"
    and "head_of hash g xs = head_of hash h ys" "commits hash content (set xs \<union> set ys)"
  shows "suffix (map content xs) (map content ys) \<or> suffix (map content ys) (map content xs)"
  using assms
proof (induction xs arbitrary: ys rule: rev_induct)
  case Nil
  then show ?case by simp
next
  case (snoc e xs)
  show ?case
  proof (cases ys rule: rev_cases)
    case Nil
    then show ?thesis by simp
  next
    case (snoc ys' f)
    have ef: "content e = content f"
      by (rule commitsD [OF snoc.prems(4)]) (use snoc.prems(3) snoc in auto)
    have "suffix (map content xs) (map content ys') \<or> suffix (map content ys') (map content xs)"
    proof (rule snoc.IH)
      show "linked prev hash g xs" and "linked prev hash h ys'"
        using snoc.prems(1,2) snoc by (auto simp: linked_snoc)
      show "head_of hash g xs = head_of hash h ys'"
        using snoc.prems(1,2) snoc content_prev [OF ef] by (auto simp: linked_snoc)
      show "commits hash content (set xs \<union> set ys')"
        by (rule commits_subset [OF snoc.prems(4)]) (use snoc in auto)
    qed
    then show ?thesis using snoc ef by auto
  qed
qed

lemma suffix_genesis:
  assumes "linked prev hash genesis xs" "linked prev hash genesis ys"
    and "suffix (map content xs) (map content ys)" "genesis \<notin> hash ` set ys"
    and "xs \<noteq> [] \<or> ys = []"
  shows "map content xs = map content ys"
proof -
  obtain zs ws where ys: "ys = zs @ ws" and ws: "map content ws = map content xs"
    using assms(3) by (auto simp: suffix_def map_eq_append_conv)
  have "zs = []"
  proof (rule ccontr)
    assume "zs \<noteq> []"
    then obtain zs' z where z: "zs = zs' @ [z]" by (cases zs rule: rev_cases) auto
    have "xs \<noteq> []" using assms(5) ys z by auto
    then obtain x xs' w ws' where x: "xs = x # xs'" and w: "ws = w # ws'" and "content w = content x"
      using ws by (cases xs; cases ws) auto
    have "prev x = genesis" using assms(1) x by simp
    moreover have "prev w = hash z" using assms(2) ys z w by (simp add: linked_append)
    ultimately show False using content_prev [OF \<open>content w = content x\<close>] assms(4) ys z by auto
  qed
  then show ?thesis using ys ws by simp
qed

text \<open>Tamper evidence: the hash of the last entry determines the content of the whole history.\<close>

lemma tamper_evident:
  assumes "accepts xs" "accepts ys" "head_of hash genesis xs = head_of hash genesis ys"
    and com: "commits hash content (set xs \<union> set ys)" and fresh: "genesis \<notin> hash ` (set xs \<union> set ys)"
  shows "map content xs = map content ys"
proof -
  have l: "linked prev hash genesis xs" "linked prev hash genesis ys"
    using assms(1,2) by (simp_all add: accepts_linked)
  have e: "zs = [] \<or> head_of hash genesis zs \<noteq> genesis" if "set zs \<subseteq> set xs \<union> set ys" for zs
    using that fresh by (cases zs rule: rev_cases) auto
  have "xs = [] \<longleftrightarrow> ys = []" using assms(3) e [of xs] e [of ys] by auto
  with linked_suffix [OF l assms(3) com] show ?thesis
    using suffix_genesis [OF l] suffix_genesis [OF l(2,1)] fresh by fastforce
qed

end

end
