(* ===== verification/Chain.thy ===== *)
theory Chain
  imports Assertion Kind_Spec Hash_Chain
begin

text \<open>
  \<^verbatim>\<open>src/src/chain_kind.rs\<close>: the \<^verbatim>\<open>chain.counter\<close> kind, an append-only accounting chain with
  balance-forward checkpoints. The verification of a step, of a checkpoint and of a whole chain
  are the code's; the theorems say that a chain that recomputes is the sum of its steps, that the
  write-time checks maintain this, that dropping the prefix behind a checkpoint does not change
  the recomputed total, and that the hash of the head commits to every entry.
\<close>

section \<open>Data\<close>

definition CHAIN_COUNTER_KIND :: string where
  "CHAIN_COUNTER_KIND = ''chain.counter''"

definition GENESIS_PREV_HASH :: string where
  "GENESIS_PREV_HASH = replicate 64 (CHR ''0'')"

definition CHAIN_COUNTER_SPEC :: KindSpec where
  "CHAIN_COUNTER_SPEC = \<lparr>ks_kind = CHAIN_COUNTER_KIND, ks_retention = Chain,
     ks_authorship = OwnerSignedAuthorship, ks_erasure = Permanent, ks_enumeration = Listable,
     ks_hashing = \<lparr>posture = ChainLinked, algorithm = Sha256\<rparr>,
     ks_sizing = \<lparr>body_ceiling = SMALL_BODY_CEILING_BYTES, growth = Rolling\<rparr>\<rparr>"

record ChainCounterBody =
  cc_delta :: i64
  cc_total :: u64
  cc_prev_entry_hash :: string

record CheckpointBody =
  cp_closing_total :: u64
  cp_chain_head_hash :: string
  cp_prev_checkpoint :: string

datatype ChainStep = Checkpoint CheckpointBody | Step ChainCounterBody

record PrevEntry =
  pe_seq :: u64
  pe_total :: u64
  pe_entry_hash :: string

record ChainEntry =
  ce_did :: string
  ce_kind :: string
  ce_subkey :: "string option"
  ce_seq :: u64
  ce_step :: ChainStep

datatype ChainBreak =
    BreakSeq u64 u64
  | BreakTotal u64 i64 int u64
  | BreakPrevHash string string
  | BreakClosingTotal u64 u64
  | BreakPrevCheckpoint string string

section \<open>Folds and hashes\<close>

definition chain_counter_body_fold :: "ChainCounterBody \<Rightarrow> string" where
  "chain_counter_body_fold b =
     ''delta='' @ show_int (cc_delta b) @ '';total='' @ show_nat (cc_total b) @ '';prev='' @
     cc_prev_entry_hash b"

definition unwrap_or_empty :: "string option \<Rightarrow> string" where
  "unwrap_or_empty s = (case s of None \<Rightarrow> '''' | Some x \<Rightarrow> x)"

definition entry_hash ::
  "ext \<Rightarrow> string \<Rightarrow> string \<Rightarrow> string option \<Rightarrow> u64 \<Rightarrow> ChainCounterBody \<Rightarrow> string" where
  "entry_hash X did kind subkey seq b = sha256_hex X
     (did @ ''|'' @ kind @ ''|'' @ unwrap_or_empty subkey @ ''|'' @ show_nat seq @ ''|delta='' @
      show_int (cc_delta b) @ '';total='' @ show_nat (cc_total b) @ '';prev='' @ cc_prev_entry_hash b)"

definition checkpoint_body_fold :: "CheckpointBody \<Rightarrow> string" where
  "checkpoint_body_fold b =
     ''checkpoint;closing_total='' @ show_nat (cp_closing_total b) @ '';head='' @ cp_chain_head_hash b @
     '';prev_checkpoint='' @ cp_prev_checkpoint b"

definition checkpoint_hash ::
  "ext \<Rightarrow> string \<Rightarrow> string \<Rightarrow> string option \<Rightarrow> u64 \<Rightarrow> CheckpointBody \<Rightarrow> string" where
  "checkpoint_hash X did kind subkey seq b = sha256_hex X
     (did @ ''|'' @ kind @ ''|'' @ unwrap_or_empty subkey @ ''|'' @ show_nat seq @
      ''|checkpoint;closing_total='' @ show_nat (cp_closing_total b) @ '';head='' @ cp_chain_head_hash b @
      '';prev_checkpoint='' @ cp_prev_checkpoint b)"

definition step_fold :: "ChainStep \<Rightarrow> string" where
  "step_fold s = (case s of Step b \<Rightarrow> chain_counter_body_fold b | Checkpoint b \<Rightarrow> checkpoint_body_fold b)"

definition is_checkpoint :: "ChainStep \<Rightarrow> bool" where
  "is_checkpoint s = (case s of Checkpoint _ \<Rightarrow> True | Step _ \<Rightarrow> False)"

text \<open>\<^verbatim>\<open>#[serde(untagged)]\<close>: the checkpoint shape is tried first, then the step shape.\<close>

definition de_checkpoint :: "json \<Rightarrow> CheckpointBody option" where
  "de_checkpoint j =
     (case struct_fields [''closing_total'', ''chain_head_hash'', ''prev_checkpoint''] j of
        Some [t, h, p] \<Rightarrow>
          (case (req de_u64 t, req de_str h, req de_str p) of
             (Some x, Some y, Some z) \<Rightarrow>
               Some \<lparr>cp_closing_total = x, cp_chain_head_hash = y, cp_prev_checkpoint = z\<rparr>
           | _ \<Rightarrow> None)
      | _ \<Rightarrow> None)"

definition de_counter :: "json \<Rightarrow> ChainCounterBody option" where
  "de_counter j =
     (case struct_fields [''delta'', ''total'', ''prev_entry_hash''] j of
        Some [d, t, p] \<Rightarrow>
          (case (req de_i64 d, req de_u64 t, req de_str p) of
             (Some x, Some y, Some z) \<Rightarrow>
               Some \<lparr>cc_delta = x, cc_total = y, cc_prev_entry_hash = z\<rparr>
           | _ \<Rightarrow> None)
      | _ \<Rightarrow> None)"

definition de_chain_step :: "json \<Rightarrow> ChainStep option" where
  "de_chain_step j =
     (case de_checkpoint j of Some b \<Rightarrow> Some (Checkpoint b) | None \<Rightarrow> map_option Step (de_counter j))"

definition chain_break_reason :: "ChainBreak \<Rightarrow> string" where
  "chain_break_reason b =
     (case b of
        BreakSeq expected got \<Rightarrow>
          ''seq '' @ show_nat got @ '' is not the next entry (expected '' @ show_nat expected @ '')''
      | BreakTotal prev_total delta expected got \<Rightarrow>
          ''total '' @ show_nat got @ '' does not follow: prev '' @ show_nat prev_total @ '' + delta '' @
          show_int delta @ '' = '' @ show_int expected
      | BreakPrevHash expected got \<Rightarrow>
          ''prev_entry_hash '' @ got @ '' does not match the chain head '' @ expected
      | BreakClosingTotal running_total closing_total \<Rightarrow>
          ''checkpoint closing_total '' @ show_nat closing_total @
          '' does not equal the running total '' @ show_nat running_total
      | BreakPrevCheckpoint expected got \<Rightarrow>
          ''prev_checkpoint '' @ got @ '' does not match the prior checkpoint '' @ expected)"

section \<open>Verification\<close>

definition verify_step ::
  "PrevEntry option \<Rightarrow> ChainCounterBody \<Rightarrow> u64 \<Rightarrow> (unit, ChainBreak) result" where
  "verify_step prev body seq =
     (case (case prev of
              None \<Rightarrow> Some (1, 0, GENESIS_PREV_HASH)
            | Some p \<Rightarrow> (case u64_add (pe_seq p) 1 of
                          None \<Rightarrow> None
                        | Some n \<Rightarrow> Some (n, pe_total p, pe_entry_hash p))) of
        None \<Rightarrow> Panic
      | Some (expected_seq, prev_total, expected_prev_hash) \<Rightarrow>
          if seq \<noteq> expected_seq then Err (BreakSeq expected_seq seq)
          else if cc_prev_entry_hash body \<noteq> expected_prev_hash
            then Err (BreakPrevHash expected_prev_hash (cc_prev_entry_hash body))
          else if int (cc_total body) \<noteq> int prev_total + cc_delta body
            then Err (BreakTotal prev_total (cc_delta body) (int prev_total + cc_delta body) (cc_total body))
          else Ok ())"

definition verify_checkpoint ::
  "PrevEntry \<Rightarrow> string \<Rightarrow> CheckpointBody \<Rightarrow> u64 \<Rightarrow> (unit, ChainBreak) result" where
  "verify_checkpoint prev expected_prev_checkpoint body seq =
     (case u64_add (pe_seq prev) 1 of
        None \<Rightarrow> Panic
      | Some n \<Rightarrow>
          if seq \<noteq> n then Err (BreakSeq n seq)
          else if cp_chain_head_hash body \<noteq> pe_entry_hash prev
            then Err (BreakPrevHash (pe_entry_hash prev) (cp_chain_head_hash body))
          else if cp_closing_total body \<noteq> pe_total prev
            then Err (BreakClosingTotal (pe_total prev) (cp_closing_total body))
          else if cp_prev_checkpoint body \<noteq> expected_prev_checkpoint
            then Err (BreakPrevCheckpoint expected_prev_checkpoint (cp_prev_checkpoint body))
          else Ok ())"

definition head_hash :: "ext \<Rightarrow> ChainEntry \<Rightarrow> string" where
  "head_hash X e =
     (case ce_step e of
        Step b \<Rightarrow> entry_hash X (ce_did e) (ce_kind e) (ce_subkey e) (ce_seq e) b
      | Checkpoint b \<Rightarrow> checkpoint_hash X (ce_did e) (ce_kind e) (ce_subkey e) (ce_seq e) b)"

definition step_total :: "ChainStep \<Rightarrow> u64" where
  "step_total s = (case s of Step b \<Rightarrow> cc_total b | Checkpoint b \<Rightarrow> cp_closing_total b)"

text \<open>The loop of \<open>recompute_total\<close> over its two variables \<open>head\<close> and \<open>last_checkpoint\<close>.\<close>

fun recompute_loop ::
  "ext \<Rightarrow> PrevEntry option \<Rightarrow> string \<Rightarrow> ChainEntry list \<Rightarrow> (PrevEntry option \<times> string, ChainBreak) result" where
  "recompute_loop X head lc [] = Ok (head, lc)"
| "recompute_loop X head lc (e # es) =
     (case (case ce_step e of
              Step body \<Rightarrow> verify_step head body (ce_seq e)
            | Checkpoint body \<Rightarrow>
                (case head of None \<Rightarrow> Ok () | Some prev \<Rightarrow> verify_checkpoint prev lc body (ce_seq e))) of
        Ok _ \<Rightarrow>
          recompute_loop X
            (Some \<lparr>pe_seq = ce_seq e, pe_total = step_total (ce_step e), pe_entry_hash = head_hash X e\<rparr>)
            (if is_checkpoint (ce_step e) then head_hash X e else lc) es
      | Err b \<Rightarrow> Err b
      | Panic \<Rightarrow> Panic)"

definition recompute_total :: "ext \<Rightarrow> ChainEntry list \<Rightarrow> (u64, ChainBreak) result" where
  "recompute_total X es =
     (case recompute_loop X None GENESIS_PREV_HASH es of
        Ok (head, _) \<Rightarrow> Ok (case head of None \<Rightarrow> 0 | Some h \<Rightarrow> pe_total h)
      | Err b \<Rightarrow> Err b
      | Panic \<Rightarrow> Panic)"

section \<open>One step\<close>

lemma verify_step_Ok:
  "verify_step prev b seq = Ok u \<longleftrightarrow>
     (case prev of
        None \<Rightarrow> seq = 1 \<and> cc_prev_entry_hash b = GENESIS_PREV_HASH \<and> int (cc_total b) = cc_delta b
      | Some p \<Rightarrow> seq = pe_seq p + 1 \<and> seq \<le> u64_max \<and> cc_prev_entry_hash b = pe_entry_hash p \<and>
          int (cc_total b) = int (pe_total p) + cc_delta b)"
  by (cases prev) (auto simp: verify_step_def split: option.splits)

lemma verify_checkpoint_Ok:
  "verify_checkpoint p lc b seq = Ok u \<longleftrightarrow>
     seq = pe_seq p + 1 \<and> seq \<le> u64_max \<and> cp_chain_head_hash b = pe_entry_hash p \<and>
     cp_closing_total b = pe_total p \<and> cp_prev_checkpoint b = lc"
  by (auto simp: verify_checkpoint_def split: option.splits)

text \<open>Abstract view of an entry: the amount it adds and the predecessor it names.\<close>

definition entry_delta :: "ChainEntry \<Rightarrow> int" where
  "entry_delta e = (case ce_step e of Step b \<Rightarrow> cc_delta b | Checkpoint _ \<Rightarrow> 0)"

definition entry_prev :: "ChainEntry \<Rightarrow> string" where
  "entry_prev e = (case ce_step e of Step b \<Rightarrow> cc_prev_entry_hash b | Checkpoint b \<Rightarrow> cp_chain_head_hash b)"

definition check_entry :: "PrevEntry option \<Rightarrow> string \<Rightarrow> ChainEntry \<Rightarrow> (unit, ChainBreak) result" where
  "check_entry head lc e =
     (case ce_step e of
        Step body \<Rightarrow> verify_step head body (ce_seq e)
      | Checkpoint body \<Rightarrow>
          (case head of None \<Rightarrow> Ok () | Some prev \<Rightarrow> verify_checkpoint prev lc body (ce_seq e)))"

definition advance :: "ext \<Rightarrow> ChainEntry \<Rightarrow> PrevEntry" where
  "advance X e = \<lparr>pe_seq = ce_seq e, pe_total = step_total (ce_step e), pe_entry_hash = head_hash X e\<rparr>"

definition next_lc :: "ext \<Rightarrow> string \<Rightarrow> ChainEntry \<Rightarrow> string" where
  "next_lc X lc e = (if is_checkpoint (ce_step e) then head_hash X e else lc)"

lemma recompute_loop_Cons:
  "recompute_loop X head lc (e # es) =
     (case check_entry head lc e of
        Ok _ \<Rightarrow> recompute_loop X (Some (advance X e)) (next_lc X lc e) es
      | Err b \<Rightarrow> Err b | Panic \<Rightarrow> Panic)"
  by (simp only: recompute_loop.simps check_entry_def advance_def next_lc_def)

declare recompute_loop.simps(2) [simp del]

lemma check_entry_Some:
  assumes "check_entry (Some p) lc e = Ok u"
  shows "ce_seq e = pe_seq p + 1" "ce_seq e \<le> u64_max" "entry_prev e = pe_entry_hash p"
    "int (step_total (ce_step e)) = int (pe_total p) + entry_delta e"
  using assms
  by (auto simp: check_entry_def verify_step_Ok verify_checkpoint_Ok entry_prev_def entry_delta_def
      step_total_def split: ChainStep.splits)

lemma recompute_loop_append:
  "recompute_loop X head lc (xs @ ys) =
     (case recompute_loop X head lc xs of
        Ok (h, l) \<Rightarrow> recompute_loop X h l ys
      | Err b \<Rightarrow> Err b | Panic \<Rightarrow> Panic)"
  by (induction xs arbitrary: head lc) (auto simp: recompute_loop_Cons split: result.splits)

section \<open>A whole chain\<close>

lemma recompute_loop_sum:
  assumes "recompute_loop X (Some p) lc es = Ok (h, l)"
  shows "\<exists>q. h = Some q \<and> int (pe_total q) = int (pe_total p) + sum_list (map entry_delta es) \<and>
    pe_seq q = pe_seq p + length es \<and> linked entry_prev (head_hash X) (pe_entry_hash p) es \<and>
    pe_entry_hash q = head_of (head_hash X) (pe_entry_hash p) es"
  using assms
proof (induction es arbitrary: p lc)
  case Nil
  then show ?case by auto
next
  case (Cons e es)
  then obtain u where c: "check_entry (Some p) lc e = Ok u"
    and r: "recompute_loop X (Some (advance X e)) (next_lc X lc e) es = Ok (h, l)"
    by (auto simp: recompute_loop_Cons split: result.splits)
  from Cons.IH [OF r] check_entry_Some [OF c] show ?case by (auto simp: advance_def)
qed

text \<open>The balance a chain starts from: zero, or that of the checkpoint it was compacted to.\<close>

definition anchor :: "ChainEntry list \<Rightarrow> u64" where
  "anchor es =
     (case es of
        [] \<Rightarrow> 0
      | e # _ \<Rightarrow> (case ce_step e of Checkpoint b \<Rightarrow> cp_closing_total b | Step _ \<Rightarrow> 0))"

lemma recompute_total_Cons:
  assumes "recompute_total X (e # es) = Ok t"
  obtains u q l where "check_entry None GENESIS_PREV_HASH e = Ok u"
    "recompute_loop X (Some (advance X e)) (next_lc X GENESIS_PREV_HASH e) es = Ok (Some q, l)"
    "t = pe_total q"
proof -
  from assms obtain u h l where c: "check_entry None GENESIS_PREV_HASH e = Ok u"
    and r: "recompute_loop X (Some (advance X e)) (next_lc X GENESIS_PREV_HASH e) es = Ok (h, l)"
    and t: "t = (case h of None \<Rightarrow> 0 | Some h \<Rightarrow> pe_total h)"
    by (auto simp: recompute_total_def recompute_loop_Cons split: result.splits)
  from recompute_loop_sum [OF r] obtain q where "h = Some q" by blast
  then show ?thesis using that [OF c] r t by simp
qed

lemma recompute_total_sum:
  assumes "recompute_total X es = Ok t"
  shows "int t = int (anchor es) + sum_list (map entry_delta es)"
proof (cases es)
  case Nil
  then show ?thesis using assms by (simp add: recompute_total_def anchor_def)
next
  case (Cons e es')
  obtain u q l where c: "check_entry None GENESIS_PREV_HASH e = Ok u"
    and r: "recompute_loop X (Some (advance X e)) (next_lc X GENESIS_PREV_HASH e) es' = Ok (Some q, l)"
    and t: "t = pe_total q"
    using recompute_total_Cons assms Cons by metis
  have "int (step_total (ce_step e)) = int (anchor es) + entry_delta e"
    using c Cons by (auto simp: check_entry_def verify_step_Ok anchor_def entry_delta_def step_total_def
        split: ChainStep.splits)
  then show ?thesis using recompute_loop_sum [OF r] t Cons by (auto simp: advance_def)
qed

lemma recompute_total_seq:
  assumes "recompute_total X es = Ok t" "i < length es"
  shows "ce_seq (es ! i) = ce_seq (hd es) + i"
proof -
  obtain e es' where es: "es = e # es'" using assms(2) by (cases es) auto
  obtain u q l where
    r: "recompute_loop X (Some (advance X e)) (next_lc X GENESIS_PREV_HASH e) es' = Ok (Some q, l)"
    using recompute_total_Cons assms(1) es by metis
  have "ce_seq ((e # es') ! i) = ce_seq e + i"
    if "recompute_loop X (Some (advance X e)) lc es' = Ok (h, l')" "i < length (e # es')" for e es' lc h l' i
    using that
  proof (induction es' arbitrary: e lc i)
    case Nil
    then show ?case by simp
  next
    case (Cons f fs)
    then obtain u' where c: "check_entry (Some (advance X e)) lc f = Ok u'"
      and r': "recompute_loop X (Some (advance X f)) (next_lc X lc f) fs = Ok (h, l')"
      by (auto simp: recompute_loop_Cons split: result.splits)
    have "ce_seq f = ce_seq e + 1" using check_entry_Some(1) [OF c] by (simp add: advance_def)
    then show ?case using Cons.IH [OF r', of "i - 1"] Cons.prems(2) by (cases i) auto
  qed
  from this [OF r] assms(2) es show ?thesis by simp
qed

lemma recompute_total_linked:
  assumes "recompute_total X es = Ok t" "es \<noteq> []"
  shows "linked entry_prev (head_hash X) (entry_prev (hd es)) es"
proof -
  obtain e es' where es: "es = e # es'" using assms(2) by (cases es) auto
  obtain u q l where
    "recompute_loop X (Some (advance X e)) (next_lc X GENESIS_PREV_HASH e) es' = Ok (Some q, l)"
    using recompute_total_Cons assms(1) es by metis
  from recompute_loop_sum [OF this] show ?thesis by (simp add: es advance_def)
qed

text \<open>Compaction: the entries behind a checkpoint can be dropped.\<close>

lemma recompute_total_compact:
  assumes "recompute_total X (pre @ cp # post) = Ok t" "is_checkpoint (ce_step cp)"
  shows "recompute_total X (cp # post) = Ok t"
proof -
  obtain h l where "recompute_loop X None GENESIS_PREV_HASH (pre @ cp # post) = Ok (h, l)"
    and t: "t = (case h of None \<Rightarrow> 0 | Some h \<Rightarrow> pe_total h)"
    using assms(1) by (auto simp: recompute_total_def split: result.splits)
  then have "recompute_loop X (Some (advance X cp)) (head_hash X cp) post = Ok (h, l)"
    using assms(2) by (auto simp: recompute_loop_append recompute_loop_Cons next_lc_def split: result.splits)
  then show ?thesis
    using assms(2) t
    by (auto simp: recompute_total_def recompute_loop_Cons check_entry_def next_lc_def is_checkpoint_def
        split: ChainStep.splits)
qed

text \<open>The state the write path keeps of a stored chain: its head and its last checkpoint.\<close>

definition chain_state :: "ext \<Rightarrow> ChainEntry list \<Rightarrow> (PrevEntry option \<times> string) option" where
  "chain_state X es =
     (case recompute_loop X None GENESIS_PREV_HASH es of Ok s \<Rightarrow> Some s | _ \<Rightarrow> None)"

lemma chain_state_snoc:
  assumes "chain_state X es = Some (head, lc)" "check_entry head lc e = Ok u"
  shows "chain_state X (es @ [e]) = Some (Some (advance X e), next_lc X lc e)"
    and "recompute_total X (es @ [e]) = Ok (step_total (ce_step e))"
  using assms
  by (auto simp: chain_state_def recompute_total_def recompute_loop_append recompute_loop_Cons advance_def
      split: result.splits)

section \<open>What the head hash commits to\<close>

text \<open>The hashed text of an entry, and the entries whose text is unambiguous: the write boundary
  admits no other (a validated owner, a registered kind, a valid subkey, hexadecimal links).\<close>

definition entry_text :: "ChainEntry \<Rightarrow> string" where
  "entry_text e =
     ce_did e @ ''|'' @ ce_kind e @ ''|'' @ unwrap_or_empty (ce_subkey e) @ ''|'' @ show_nat (ce_seq e) @
     ''|'' @ step_fold (ce_step e)"

definition entry_wf :: "ChainEntry \<Rightarrow> bool" where
  "entry_wf e \<longleftrightarrow>
     CHR ''|'' \<notin> set (ce_did e) \<and> CHR ''|'' \<notin> set (ce_kind e) \<and>
     (case ce_subkey e of None \<Rightarrow> False | Some s \<Rightarrow> CHR ''|'' \<notin> set s) \<and>
     (case ce_step e of Step _ \<Rightarrow> True | Checkpoint b \<Rightarrow> CHR '';'' \<notin> set (cp_chain_head_hash b))"

lemma head_hash_text: "head_hash X e = sha256_hex X (entry_text e)"
  by (cases "ce_step e")
    (simp_all add: head_hash_def entry_hash_def checkpoint_hash_def entry_text_def step_fold_def
      chain_counter_body_fold_def checkpoint_body_fold_def)

lemma show_int_no_semicolon: "CHR '';'' \<notin> set (show_int i)"
  by (rule show_int_no_char) (simp_all add: is_digit_def)

lemma show_nat_no_semicolon: "CHR '';'' \<notin> set (show_nat i)"
  by (rule show_nat_no_char) (simp add: is_digit_def)

lemma show_nat_no_bar: "CHR ''|'' \<notin> set (show_nat i)"
  by (rule show_nat_no_char) (simp add: is_digit_def)

lemma counter_fold_binds:
  assumes "chain_counter_body_fold a = chain_counter_body_fold b"
  shows "a = b"
proof -
  have "show_int (cc_delta a) @ CHR '';'' # ''total='' @ show_nat (cc_total a) @ CHR '';'' # ''prev='' @ cc_prev_entry_hash a
      = show_int (cc_delta b) @ CHR '';'' # ''total='' @ show_nat (cc_total b) @ CHR '';'' # ''prev='' @ cc_prev_entry_hash b"
    using assms by (simp add: chain_counter_body_fold_def)
  note d = delimD [OF this show_int_no_semicolon show_int_no_semicolon]
  then have "show_nat (cc_total a) @ CHR '';'' # ''prev='' @ cc_prev_entry_hash a
      = show_nat (cc_total b) @ CHR '';'' # ''prev='' @ cc_prev_entry_hash b" by simp
  from delimD [OF this show_nat_no_semicolon show_nat_no_semicolon] d show ?thesis
    by (intro ChainCounterBody.equality) simp_all
qed

lemma checkpoint_fold_binds:
  assumes "CHR '';'' \<notin> set (cp_chain_head_hash a)" "CHR '';'' \<notin> set (cp_chain_head_hash b)"
    and "checkpoint_body_fold a = checkpoint_body_fold b"
  shows "a = b"
proof -
  have "show_nat (cp_closing_total a) @ CHR '';'' # ''head='' @ cp_chain_head_hash a @ CHR '';'' # ''prev_checkpoint='' @ cp_prev_checkpoint a
      = show_nat (cp_closing_total b) @ CHR '';'' # ''head='' @ cp_chain_head_hash b @ CHR '';'' # ''prev_checkpoint='' @ cp_prev_checkpoint b"
    using assms(3) by (simp add: checkpoint_body_fold_def)
  note t = delimD [OF this show_nat_no_semicolon show_nat_no_semicolon]
  then have "cp_chain_head_hash a @ CHR '';'' # ''prev_checkpoint='' @ cp_prev_checkpoint a
      = cp_chain_head_hash b @ CHR '';'' # ''prev_checkpoint='' @ cp_prev_checkpoint b" by simp
  from delimD [OF this assms(1,2)] t show ?thesis
    by (intro CheckpointBody.equality) simp_all
qed

definition step_wf :: "ChainStep \<Rightarrow> bool" where
  "step_wf s = (case s of Step _ \<Rightarrow> True | Checkpoint b \<Rightarrow> CHR '';'' \<notin> set (cp_chain_head_hash b))"

lemma step_fold_binds:
  assumes "step_wf a" "step_wf b" "step_fold a = step_fold b"
  shows "a = b"
proof -
  have "chain_counter_body_fold x \<noteq> checkpoint_body_fold y" for x y
    by (simp add: chain_counter_body_fold_def checkpoint_body_fold_def)
  then show ?thesis
    using assms counter_fold_binds checkpoint_fold_binds
    by (cases a; cases b) (auto simp: step_wf_def step_fold_def dest: sym)
qed

interpretation chain_kind: body_kind step_wf step_fold "(=)"
  by unfold_locales (rule step_fold_binds)

lemma entry_text_inject:
  assumes "entry_wf a" "entry_wf b" "entry_text a = entry_text b"
  shows "a = b"
proof -
  have nb: "CHR ''|'' \<notin> set (ce_did e) \<and> CHR ''|'' \<notin> set (ce_kind e) \<and>
      CHR ''|'' \<notin> set (unwrap_or_empty (ce_subkey e)) \<and> ce_subkey e \<noteq> None \<and> step_wf (ce_step e)"
    if "entry_wf e" for e
    using that by (auto simp: entry_wf_def step_wf_def unwrap_or_empty_def split: option.splits ChainStep.splits)
  have "ce_did a @ CHR ''|'' # ce_kind a @ CHR ''|'' # unwrap_or_empty (ce_subkey a) @ CHR ''|'' #
        show_nat (ce_seq a) @ CHR ''|'' # step_fold (ce_step a)
      = ce_did b @ CHR ''|'' # ce_kind b @ CHR ''|'' # unwrap_or_empty (ce_subkey b) @ CHR ''|'' #
        show_nat (ce_seq b) @ CHR ''|'' # step_fold (ce_step b)"
    using assms(3) by (simp add: entry_text_def)
  note d = delimD [OF this conjunct1 [OF nb [OF assms(1)]] conjunct1 [OF nb [OF assms(2)]]]
  note k = delimD [OF conjunct2 [OF d]] nb [OF assms(1)] nb [OF assms(2)]
  then have sk: "unwrap_or_empty (ce_subkey a) @ CHR ''|'' # show_nat (ce_seq a) @ CHR ''|'' # step_fold (ce_step a)
      = unwrap_or_empty (ce_subkey b) @ CHR ''|'' # show_nat (ce_seq b) @ CHR ''|'' # step_fold (ce_step b)"
    and kk: "ce_kind a = ce_kind b" by blast+
  have s: "unwrap_or_empty (ce_subkey a) = unwrap_or_empty (ce_subkey b)"
    and "show_nat (ce_seq a) @ CHR ''|'' # step_fold (ce_step a) = show_nat (ce_seq b) @ CHR ''|'' # step_fold (ce_step b)"
    using delimD [OF sk] k(2,3) by blast+
  note n = delimD [OF this(2) show_nat_no_bar show_nat_no_bar]
  have "ce_step a = ce_step b" using step_fold_binds k(2,3) n by blast
  moreover have "ce_subkey a = ce_subkey b" using s k(2,3) by (auto simp: unwrap_or_empty_def)
  ultimately show ?thesis using d kk n by (intro ChainEntry.equality) simp_all
qed

lemma head_hash_inj_on:
  assumes "inj_on (sha256_hex X) (entry_text ` S)" "\<And>e. e \<in> S \<Longrightarrow> entry_wf e"
  shows "inj_on (head_hash X) S"
proof (rule inj_onI)
  fix a b assume ab: "a \<in> S" "b \<in> S" "head_hash X a = head_hash X b"
  then have "entry_text a = entry_text b"
    using assms(1) by (auto simp: head_hash_text dest: inj_onD)
  then show "a = b" using entry_text_inject assms(2) ab by blast
qed

text \<open>A chain that still has its first entry.\<close>

definition whole_chain :: "ext \<Rightarrow> ChainEntry list \<Rightarrow> bool" where
  "whole_chain X es \<longleftrightarrow> is_ok (recompute_total X es) \<and> (es = [] \<or> \<not> is_checkpoint (ce_step (hd es)))"

lemma whole_chain_linked:
  assumes "whole_chain X es"
  shows "linked entry_prev (head_hash X) GENESIS_PREV_HASH es"
proof (cases es)
  case (Cons e es')
  obtain t where t: "recompute_total X es = Ok t"
    using assms by (auto simp: whole_chain_def is_ok_iff)
  obtain u where "check_entry None GENESIS_PREV_HASH e = Ok u"
    using recompute_total_Cons t Cons by metis
  then have "entry_prev e = GENESIS_PREV_HASH"
    using assms Cons
    by (auto simp: check_entry_def verify_step_Ok entry_prev_def whole_chain_def is_checkpoint_def
        split: ChainStep.splits)
  then show ?thesis using recompute_total_linked [OF t] Cons by simp
qed simp

interpretation counter_chain: hash_chain entry_prev "head_hash X" id GENESIS_PREV_HASH "whole_chain X" for X
  by unfold_locales (simp_all add: whole_chain_linked)

end
