(* ===== verification/Btree.thy ===== *)
theory Btree
  imports Ciss_Prelude
begin

text \<open>
  \<^verbatim>\<open>BTreeMap<String, V>\<close> of the Rust standard library as the list its iterator yields: entries in
  strictly increasing key order.
\<close>

type_synonym 'v btree = "(string \<times> 'v) list"

definition btree_wf :: "'v btree \<Rightarrow> bool" where
  "btree_wf t \<longleftrightarrow> sorted_wrt (<) (map fst t)"

fun bt_insert :: "string \<Rightarrow> 'v \<Rightarrow> 'v btree \<Rightarrow> 'v btree" where
  "bt_insert k v [] = [(k, v)]"
| "bt_insert k v ((k', v') # t) =
     (if k < k' then (k, v) # (k', v') # t
      else if k = k' then (k, v) # t
      else (k', v') # bt_insert k v t)"

definition bt_get :: "'v btree \<Rightarrow> string \<Rightarrow> 'v option" where
  "bt_get t k = map_of t k"

lemma bt_insert_keys: "fst ` set (bt_insert k v t) = insert k (fst ` set t)"
  by (induction k v t rule: bt_insert.induct) auto

lemma btree_wf_insert: "btree_wf t \<Longrightarrow> btree_wf (bt_insert k v t)"
proof (induction k v t rule: bt_insert.induct)
  case (2 k v k' v' t)
  have keys: "x \<in> insert k (fst ` set t)" if "x \<in> set (map fst (bt_insert k v t))" for x
    using that bt_insert_keys [of k v t] by auto
  show ?case
    using 2 keys by (fastforce simp: btree_wf_def image_iff)
qed (simp add: btree_wf_def)

lemma bt_get_insert: "btree_wf t \<Longrightarrow> bt_get (bt_insert k v t) = (bt_get t)(k \<mapsto> v)"
  unfolding bt_get_def
  by (induction k v t rule: bt_insert.induct) (auto simp: btree_wf_def fun_eq_iff)

lemma btree_distinct: "btree_wf t \<Longrightarrow> distinct (map fst t)"
  unfolding btree_wf_def using strict_sorted_iff by blast

lemma bt_insert_set: "btree_wf t \<Longrightarrow> set (bt_insert k v t) \<subseteq> insert (k, v) (set t)"
  by (induction k v t rule: bt_insert.induct) (auto simp: btree_wf_def)

end
