(* ===== verification/Manifest.thy ===== *)
theory Manifest
  imports Identifiers Btree
begin

text \<open>
  \<^verbatim>\<open>src/src/manifest.rs\<close>: the customer's signed list of what is stored. The Merkle root is computed
  as the code does, level by level with an odd child tagged apart from a pair, and shown to
  determine the leaf set; a verified manifest bills exactly the sum of its leaves, has no
  duplicate, and its signature binds leaves, total, sequence number and signer.
\<close>

section \<open>Operations\<close>

definition MANIFEST_SIG_DOMAIN :: string where
  "MANIFEST_SIG_DOMAIN = ''ciss/v1/manifest''"

text \<open>\<^verbatim>\<open>blobstore.rs\<close>: the per-object ceiling.\<close>

definition MAX_OBJECT_BYTES :: u64 where
  "MAX_OBJECT_BYTES = 2 * 1024 * 1024"

record ManifestLeaf =
  ml_cid :: string
  ml_size :: usize

definition leaf_is_valid :: "ManifestLeaf \<Rightarrow> bool" where
  "leaf_is_valid l \<longleftrightarrow>
     (length (ml_cid l) = 64 \<and> list_all lower_hex_char (ml_cid l)) \<and> ml_size l \<le> MAX_OBJECT_BYTES"

definition leaf_text :: "ManifestLeaf \<Rightarrow> string" where
  "leaf_text l = ''leaf:'' @ ml_cid l @ '':'' @ show_nat (ml_size l)"

definition leaf_hash :: "ext \<Rightarrow> ManifestLeaf \<Rightarrow> string" where
  "leaf_hash X l = sha256_hex X (leaf_text l)"

text \<open>\<open>chunks(2)\<close> of a level, as the texts that are hashed.\<close>

fun level_texts :: "string list \<Rightarrow> string list" where
  "level_texts [] = []"
| "level_texts [a] = [''node1:'' @ a]"
| "level_texts (a # b # r) = (''node:'' @ a @ '':'' @ b) # level_texts r"

definition merkle_level :: "ext \<Rightarrow> string list \<Rightarrow> string list" where
  "merkle_level X level = map (sha256_hex X) (level_texts level)"

lemma length_level_texts: "length (level_texts xs) = (length xs + 1) div 2"
  by (induction xs rule: level_texts.induct) auto

function merkle_loop :: "ext \<Rightarrow> string list \<Rightarrow> string list" where
  "merkle_loop X level = (if length level > 1 then merkle_loop X (merkle_level X level) else level)"
  by pat_completeness auto
termination
  by (relation "measure (\<lambda>(X, level). length level)")
    (auto simp: merkle_level_def length_level_texts)

declare merkle_loop.simps [simp del]

definition merkle_root :: "ext \<Rightarrow> ManifestLeaf list \<Rightarrow> string" where
  "merkle_root X leaves =
     (if leaves = [] then sha256_hex X ''empty-manifest''
      else (case merkle_loop X (map (leaf_hash X) (sort_key ml_cid leaves)) of
              h # _ \<Rightarrow> h
            | [] \<Rightarrow> []))"

fun dup_loop :: "string set \<Rightarrow> ManifestLeaf list \<Rightarrow> bool" where
  "dup_loop seen [] = False"
| "dup_loop seen (l # ls) \<longleftrightarrow> ml_cid l \<in> seen \<or> dup_loop (insert (ml_cid l) seen) ls"

definition has_duplicate_cids :: "ManifestLeaf list \<Rightarrow> bool" where
  "has_duplicate_cids leaves = dup_loop {} leaves"

definition heads_text :: "string btree \<Rightarrow> string" where
  "heads_text hs = foldl (\<lambda>acc (device, cid). acc @ device @ ''='' @ cid @ '';'') [] hs"

definition signing_preimage ::
  "ext \<Rightarrow> string \<Rightarrow> u64 \<Rightarrow> usize \<Rightarrow> usize \<Rightarrow> string \<Rightarrow> string btree option \<Rightarrow> string" where
  "signing_preimage X signer_id seq leaf_count total_bytes root heads =
     (let base = MANIFEST_SIG_DOMAIN @ '':'' @ signer_id @ '':'' @ show_nat seq @ '':'' @
            show_nat leaf_count @ '':'' @ show_nat total_bytes @ '':'' @ root
      in case heads of
           None \<Rightarrow> base
         | Some hs \<Rightarrow> base @ '':heads='' @ sha256_hex X (heads_text hs))"

record Manifest =
  m_leaves :: "ManifestLeaf list"
  m_root :: string
  m_total_bytes :: usize
  m_signer_id :: string
  m_seq :: u64
  m_signature :: string
  m_heads :: "string btree option"

text \<open>\<open>Iterator::sum\<close> over \<open>usize\<close>: a panic when the sum leaves 64 bits.\<close>

definition sum_sizes :: "ManifestLeaf list \<Rightarrow> (usize, unit) result" where
  "sum_sizes ls = (let s = sum_list (map ml_size ls) in if s \<le> u64_max then Ok s else Panic)"

definition manifest_verify :: "ext \<Rightarrow> Manifest \<Rightarrow> verifying_key \<Rightarrow> (bool, unit) result" where
  "manifest_verify X m customer_key =
     (if list_ex (\<lambda>l. \<not> leaf_is_valid l) (m_leaves m) \<or> has_duplicate_cids (m_leaves m) then Ok False
      else if merkle_root X (m_leaves m) \<noteq> m_root m then Ok False
      else (case sum_sizes (m_leaves m) of
              Ok recomputed \<Rightarrow>
                if recomputed \<noteq> m_total_bytes m then Ok False
                else Ok (verify_message X customer_key
                  (signing_preimage X (m_signer_id m) (m_seq m) (length (m_leaves m)) (m_total_bytes m)
                     (m_root m) (m_heads m))
                  (m_signature m))
            | Err e \<Rightarrow> Err e
            | Panic \<Rightarrow> Panic))"

definition build_signed ::
  "ext \<Rightarrow> ManifestLeaf list \<Rightarrow> string \<Rightarrow> Keypair \<Rightarrow> u64 \<Rightarrow> string btree option \<Rightarrow> (Manifest, unit) result" where
  "build_signed X items customer_id customer_key seq heads =
     (let leaves = sort_key ml_cid items;
          root = merkle_root X leaves
      in case sum_sizes leaves of
           Ok total_bytes \<Rightarrow>
             Ok \<lparr>m_leaves = leaves, m_root = root, m_total_bytes = total_bytes, m_signer_id = customer_id,
                 m_seq = seq,
                 m_signature = sign_message X customer_key
                   (signing_preimage X customer_id seq (length leaves) total_bytes root heads),
                 m_heads = heads\<rparr>
         | Err e \<Rightarrow> Err e
         | Panic \<Rightarrow> Panic)"

definition build_manifest :: "ext \<Rightarrow> ManifestLeaf list \<Rightarrow> string \<Rightarrow> Keypair \<Rightarrow> u64 \<Rightarrow> (Manifest, unit) result" where
  "build_manifest X items customer_id customer_key seq = build_signed X items customer_id customer_key seq None"

definition build_manifest_with_heads ::
  "ext \<Rightarrow> ManifestLeaf list \<Rightarrow> string \<Rightarrow> Keypair \<Rightarrow> u64 \<Rightarrow> string btree \<Rightarrow> (Manifest, unit) result" where
  "build_manifest_with_heads X items customer_id customer_key seq heads =
     build_signed X items customer_id customer_key seq (Some heads)"

definition expected_bytes :: "Manifest \<Rightarrow> (usize, unit) result" where
  "expected_bytes m = sum_sizes (m_leaves m)"

section \<open>The Merkle root determines the leaves\<close>

text \<open>The number of levels above the leaves, and every text hashed on the way up.\<close>

function merkle_depth :: "ext \<Rightarrow> string list \<Rightarrow> nat" where
  "merkle_depth X level = (if length level > 1 then Suc (merkle_depth X (merkle_level X level)) else 0)"
  by pat_completeness auto
termination
  by (relation "measure (\<lambda>(X, level). length level)")
    (auto simp: merkle_level_def length_level_texts)

function merkle_texts :: "ext \<Rightarrow> string list \<Rightarrow> string list" where
  "merkle_texts X level =
     (if length level > 1 then level_texts level @ merkle_texts X (merkle_level X level) else [])"
  by pat_completeness auto
termination
  by (relation "measure (\<lambda>(X, level). length level)")
    (auto simp: merkle_level_def length_level_texts)

declare merkle_depth.simps [simp del] merkle_texts.simps [simp del]

definition root_texts :: "ext \<Rightarrow> ManifestLeaf list \<Rightarrow> string set" where
  "root_texts X leaves =
     insert ''empty-manifest'' (leaf_text ` set leaves \<union>
       set (merkle_texts X (map (leaf_hash X) (sort_key ml_cid leaves))))"

lemma merkle_loop_pow: "merkle_loop X level = (merkle_level X ^^ merkle_depth X level) level"
proof (induction X level rule: merkle_loop.induct)
  case (1 X level)
  show ?case
  proof (cases "length level > 1")
    case True
    then show ?thesis
      using 1 by (simp add: merkle_loop.simps [of X level] merkle_depth.simps [of X level]
          funpow_Suc_right del: funpow.simps(2))
  next
    case False
    then show ?thesis by (simp add: merkle_loop.simps [of X level] merkle_depth.simps [of X level])
  qed
qed

lemma merkle_loop_single: "level \<noteq> [] \<Longrightarrow> \<exists>h. merkle_loop X level = [h]"
proof (induction X level rule: merkle_loop.induct)
  case (1 X level)
  show ?case
  proof (cases "length level > 1")
    case True
    then have "merkle_level X level \<noteq> []"
      using length_level_texts [of level] by (auto simp: merkle_level_def)
    then show ?thesis using 1 True by (simp add: merkle_loop.simps [of X level])
  next
    case False
    then show ?thesis using "1.prems" by (cases level) (auto simp: merkle_loop.simps)
  qed
qed

text \<open>The texts of the first \<open>n\<close> levels are among the texts of the tree.\<close>

lemma merkle_texts_pow:
  "n < merkle_depth X level \<Longrightarrow>
     set (level_texts ((merkle_level X ^^ n) level)) \<subseteq> set (merkle_texts X level)"
proof (induction n arbitrary: level)
  case 0
  then show ?case
    by (auto simp: merkle_depth.simps [of X level] merkle_texts.simps [of X level] split: if_splits)
next
  case (Suc n)
  then have l: "length level > 1" "n < merkle_depth X (merkle_level X level)"
    by (auto simp: merkle_depth.simps [of X level] split: if_splits)
  then show ?case
    using Suc.IH [OF l(2)]
    by (auto simp: merkle_texts.simps [of X level] funpow_Suc_right simp del: funpow.simps(2))
qed

definition digests :: "string list \<Rightarrow> bool" where
  "digests xs \<longleftrightarrow> list_all (\<lambda>x. CHR '':'' \<notin> set x) xs"

lemma level_texts_inject:
  assumes "digests xs" "digests ys" "level_texts xs = level_texts ys"
  shows "xs = ys"
  using assms
proof (induction xs arbitrary: ys rule: level_texts.induct)
  case 1
  then show ?case using length_level_texts [of ys] by (cases ys) auto
next
  case (2 a)
  then show ?case by (cases ys rule: level_texts.cases) auto
next
  case (3 a b r)
  from "3.prems"(3) obtain c d r' where ys: "ys = c # d # r'"
    and t: "a @ CHR '':'' # b = c @ CHR '':'' # d" and r: "level_texts r = level_texts r'"
    by (cases ys rule: level_texts.cases) auto
  have "a = c \<and> b = d"
    by (rule delimD [OF t]) (use "3.prems"(1,2) ys in \<open>auto simp: digests_def\<close>)
  moreover have "r = r'" using "3.IH" [of r'] "3.prems"(1,2) ys r by (simp add: digests_def)
  ultimately show ?case using ys by simp
qed

lemma map_inject_on:
  "inj_on f (set xs \<union> set ys) \<Longrightarrow> map f xs = map f ys \<Longrightarrow> xs = ys"
  by (rule map_inj_on)

lemma digests_level: "hex_law X \<Longrightarrow> digests (map (sha256_hex X) ts)"
  unfolding digests_def list_all_iff
  using sha256_hex_no_char [of X "CHR '':''"] by (auto simp: lower_hex_char_def is_digit_def)

lemma digests_pow: "hex_law X \<Longrightarrow> digests level \<Longrightarrow> digests ((merkle_level X ^^ n) level)"
  by (induction n) (simp_all add: merkle_level_def digests_level)

lemma merkle_pow_inject:
  assumes "hex_law X" "digests xs" "digests ys" "inj_on (sha256_hex X) T"
    and "\<And>i. i < n \<Longrightarrow> set (level_texts ((merkle_level X ^^ i) xs)) \<subseteq> T"
    and "\<And>i. i < n \<Longrightarrow> set (level_texts ((merkle_level X ^^ i) ys)) \<subseteq> T"
    and "(merkle_level X ^^ n) xs = (merkle_level X ^^ n) ys"
  shows "xs = ys"
  using assms(5-7)
proof (induction n)
  case (Suc n)
  let ?a = "(merkle_level X ^^ n) xs" and ?b = "(merkle_level X ^^ n) ys"
  have "map (sha256_hex X) (level_texts ?a) = map (sha256_hex X) (level_texts ?b)"
    using Suc.prems(3) by (simp add: merkle_level_def [symmetric])
  moreover have "inj_on (sha256_hex X) (set (level_texts ?a) \<union> set (level_texts ?b))"
    by (rule inj_on_subset [OF assms(4)]) (use Suc.prems(1,2) [of n] in simp)
  ultimately have "level_texts ?a = level_texts ?b" by (rule map_inject_on [rotated])
  then have "?a = ?b"
    by (rule level_texts_inject [OF digests_pow [OF assms(1,2)] digests_pow [OF assms(1,3)]])
  then show ?case using Suc.IH Suc.prems(1,2) by simp
qed simp

lemma level_texts_node: "t \<in> set (level_texts xs) \<Longrightarrow> \<exists>r. t = ''node'' @ r"
  by (induction xs rule: level_texts.induct) auto

lemma leaf_level_inject:
  assumes hex: "hex_law X" and ne: "us \<noteq> []" "vs \<noteq> []"
    and T: "inj_on (sha256_hex X) T" "set us \<subseteq> T" "set vs \<subseteq> T"
      "set (merkle_texts X (map (sha256_hex X) us)) \<subseteq> T" "set (merkle_texts X (map (sha256_hex X) vs)) \<subseteq> T"
    and leaf: "\<And>t. t \<in> set us \<union> set vs \<Longrightarrow> \<exists>r. t = ''leaf'' @ r"
    and le: "merkle_depth X (map (sha256_hex X) us) \<le> merkle_depth X (map (sha256_hex X) vs)"
    and eq: "merkle_loop X (map (sha256_hex X) us) = merkle_loop X (map (sha256_hex X) vs)"
  shows "us = vs"
proof -
  let ?u = "map (sha256_hex X) us" and ?v = "map (sha256_hex X) vs"
  let ?d = "merkle_depth X ?u" and ?e = "merkle_depth X ?v"
  obtain k where k: "?e = ?d + k" using le by (auto simp: le_iff_add)
  let ?w = "(merkle_level X ^^ k) ?v"
  have dig: "digests ?u" "digests ?v" by (simp_all add: digests_level hex)
  have comb: "(merkle_level X ^^ i) ?w = (merkle_level X ^^ (i + k)) ?v" for i
    by (simp add: funpow_add)
  have "?u = ?w"
  proof (rule merkle_pow_inject [OF hex dig(1) digests_pow [OF hex dig(2)] T(1)])
    show "set (level_texts ((merkle_level X ^^ i) ?u)) \<subseteq> T" if "i < ?d" for i
      using merkle_texts_pow [OF that] T(4) by blast
    show "set (level_texts ((merkle_level X ^^ i) ?w)) \<subseteq> T" if "i < ?d" for i
      using merkle_texts_pow [of "i + k" X ?v] that T(5) k unfolding comb by simp
    show "(merkle_level X ^^ ?d) ?u = (merkle_level X ^^ ?d) ?w"
      using eq unfolding merkle_loop_pow comb k by simp
  qed
  moreover have "k = 0"
  proof (rule ccontr)
    assume "k \<noteq> 0"
    then obtain j where j: "k = Suc j" by (cases k) auto
    let ?l = "level_texts ((merkle_level X ^^ j) ?v)"
    have w: "?w = map (sha256_hex X) ?l" by (simp add: j merkle_level_def)
    have ul: "map (sha256_hex X) us = map (sha256_hex X) ?l" using \<open>?u = ?w\<close> w by (rule trans)
    have "set us \<union> set ?l \<subseteq> T" using merkle_texts_pow [of j X ?v] T(2,5) k j by simp
    then have "us = ?l" by (rule map_inject_on [OF inj_on_subset [OF T(1)] ul])
    moreover have "hd us \<in> set us" using ne(1) by simp
    ultimately obtain r r' where "hd us = ''leaf'' @ r" "hd us = ''node'' @ r'"
      using leaf level_texts_node by blast
    then show False by simp
  qed
  ultimately have "?u = ?v" by simp
  then show ?thesis
    by (rule map_inject_on [OF inj_on_subset [OF T(1) Un_least [OF T(2,3)]]])
qed

lemma lower_hex_no_colon: "list_all lower_hex_char s \<Longrightarrow> CHR '':'' \<notin> set s"
  by (auto simp: list_all_iff lower_hex_char_def is_digit_def)

lemma leaf_text_inject:
  assumes "leaf_is_valid a" "leaf_is_valid b" "leaf_text a = leaf_text b"
  shows "a = b"
proof -
  have "ml_cid a @ CHR '':'' # show_nat (ml_size a) = ml_cid b @ CHR '':'' # show_nat (ml_size b)"
    using assms(3) by (simp add: leaf_text_def)
  from delimD [OF this] have "ml_cid a = ml_cid b \<and> show_nat (ml_size a) = show_nat (ml_size b)"
    using assms(1,2) by (auto simp: leaf_is_valid_def dest: lower_hex_no_colon)
  then show ?thesis by (intro ManifestLeaf.equality) simp_all
qed

lemma sort_key_Nil_iff: "sort_key f xs = [] \<longleftrightarrow> xs = []"
  by (metis length_0_conv length_sort)

lemma merkle_root_hd:
  "leaves \<noteq> [] \<Longrightarrow> merkle_loop X (map (leaf_hash X) (sort_key ml_cid leaves)) = [merkle_root X leaves]"
  using merkle_loop_single [of "map (leaf_hash X) (sort_key ml_cid leaves)" X] sort_key_Nil_iff [of ml_cid leaves]
  by (auto simp: merkle_root_def)

lemma show_nat_no_col: "CHR '':'' \<notin> set (show_nat n)"
  by (rule show_nat_no_char) (simp add: is_digit_def)

text \<open>The root of a non-empty list is the hash of a leaf or node text, never of the empty tag.\<close>

lemma merkle_root_text:
  assumes "leaves \<noteq> []"
  obtains t where "merkle_root X leaves = sha256_hex X t" "t \<in> root_texts X leaves" "t \<noteq> ''empty-manifest''"
proof -
  let ?ts = "map leaf_text (sort_key ml_cid leaves)" and ?d = "merkle_depth X (map (leaf_hash X) (sort_key ml_cid leaves))"
  have lv: "map (leaf_hash X) (sort_key ml_cid leaves) = map (sha256_hex X) ?ts" by (simp add: leaf_hash_def)
  have r: "[merkle_root X leaves] = (merkle_level X ^^ ?d) (map (sha256_hex X) ?ts)"
    using merkle_root_hd [OF assms, of X] unfolding lv merkle_loop_pow by simp
  show thesis
  proof (cases ?d)
    case 0
    with r obtain l where "sort_key ml_cid leaves = [l]" "merkle_root X leaves = sha256_hex X (leaf_text l)"
      unfolding lv by auto
    moreover from this(1) have "l \<in> set leaves" by (metis list.set_intros(1) set_sort)
    ultimately show thesis using that by (auto simp: root_texts_def leaf_text_def)
  next
    case (Suc j)
    let ?l = "level_texts ((merkle_level X ^^ j) (map (sha256_hex X) ?ts))"
    have "[merkle_root X leaves] = map (sha256_hex X) ?l" using r Suc unfolding lv by (simp add: merkle_level_def)
    then obtain t where t: "?l = [t]" "merkle_root X leaves = sha256_hex X t" by auto
    have "t \<in> root_texts X leaves"
      using merkle_texts_pow [of j X "map (sha256_hex X) ?ts"] Suc t(1)
      by (auto simp: root_texts_def lv)
    moreover obtain r where "t = ''node'' @ r"
      using level_texts_node [of t "(merkle_level X ^^ j) (map (sha256_hex X) ?ts)"] t(1) by auto
    then have "t \<noteq> ''empty-manifest''" by simp
    ultimately show thesis using that t(2) by blast
  qed
qed

lemma merkle_root_inject_le:
  assumes "hex_law X" "xs \<noteq> []" "ys \<noteq> []"
    and inj: "inj_on (sha256_hex X) (root_texts X xs \<union> root_texts X ys)"
    and val: "\<And>l. l \<in> set xs \<union> set ys \<Longrightarrow> leaf_is_valid l"
    and "merkle_depth X (map (leaf_hash X) (sort_key ml_cid xs))
       \<le> merkle_depth X (map (leaf_hash X) (sort_key ml_cid ys))"
    and "merkle_root X xs = merkle_root X ys"
  shows "sort_key ml_cid xs = sort_key ml_cid ys"
proof -
  have lv: "map (leaf_hash X) ls = map (sha256_hex X) (map leaf_text ls)" for ls
    by (simp add: leaf_hash_def)
  have "map leaf_text (sort_key ml_cid xs) = map leaf_text (sort_key ml_cid ys)"
  proof (rule leaf_level_inject [OF assms(1) _ _ inj])
    show "merkle_loop X (map (sha256_hex X) (map leaf_text (sort_key ml_cid xs)))
        = merkle_loop X (map (sha256_hex X) (map leaf_text (sort_key ml_cid ys)))"
      using merkle_root_hd [OF assms(2), of X] merkle_root_hd [OF assms(3), of X] assms(7) by (simp only: lv)
    show "merkle_depth X (map (sha256_hex X) (map leaf_text (sort_key ml_cid xs)))
        \<le> merkle_depth X (map (sha256_hex X) (map leaf_text (sort_key ml_cid ys)))"
      using assms(6) by (simp only: lv)
    show "\<exists>r. t = ''leaf'' @ r"
      if "t \<in> set (map leaf_text (sort_key ml_cid xs)) \<union> set (map leaf_text (sort_key ml_cid ys))" for t
      using that by (auto simp: leaf_text_def)
  qed (use assms(2,3) in \<open>auto simp: sort_key_Nil_iff root_texts_def lv\<close>)
  moreover have "inj_on leaf_text (set (sort_key ml_cid xs) \<union> set (sort_key ml_cid ys))"
    using val leaf_text_inject by (auto intro!: inj_onI)
  ultimately show ?thesis by (rule map_inject_on [rotated])
qed

lemma merkle_root_inject:
  assumes hex: "hex_law X"
    and inj: "inj_on (sha256_hex X) (root_texts X xs \<union> root_texts X ys)"
    and val: "\<And>l. l \<in> set xs \<union> set ys \<Longrightarrow> leaf_is_valid l"
    and eq: "merkle_root X xs = merkle_root X ys"
  shows "sort_key ml_cid xs = sort_key ml_cid ys"
proof -
  have empty: "vs = []"
    if "merkle_root X vs = sha256_hex X ''empty-manifest''" "vs \<in> {xs, ys}" for vs
  proof (rule ccontr)
    assume "vs \<noteq> []"
    then obtain t where t: "merkle_root X vs = sha256_hex X t" "t \<in> root_texts X vs" "t \<noteq> ''empty-manifest''"
      by (rule merkle_root_text)
    have "t = ''empty-manifest''"
      by (rule inj_onD [OF inj]) (use t that in \<open>auto simp: root_texts_def\<close>)
    then show False using t(3) by blast
  qed
  consider "xs = []" | "ys = []" | "xs \<noteq> []" "ys \<noteq> []" by blast
  then show ?thesis
  proof cases
    case 1
    then have "merkle_root X ys = sha256_hex X ''empty-manifest''"
      using eq [symmetric] by (simp only: merkle_root_def [of X "[]"] simp_thms if_True)
    then show ?thesis using empty [of ys] 1 by simp
  next
    case 2
    then have "merkle_root X xs = sha256_hex X ''empty-manifest''"
      using eq by (simp only: merkle_root_def [of X "[]"] simp_thms if_True)
    then show ?thesis using empty [of xs] 2 by simp
  next
    case 3
    have inj': "inj_on (sha256_hex X) (root_texts X ys \<union> root_texts X xs)" using inj by (simp add: Un_commute)
    show ?thesis
      using merkle_root_inject_le [OF hex 3 inj val _ eq]
        merkle_root_inject_le [OF hex 3(2,1) inj' _ _ eq [symmetric]] val
      by (metis Un_commute nle_le)
  qed
qed

lemma dup_loop_iff: "dup_loop seen ls \<longleftrightarrow> \<not> distinct (map ml_cid ls) \<or> set (map ml_cid ls) \<inter> seen \<noteq> {}"
  by (induction ls arbitrary: seen) auto

lemma has_duplicate_cids_iff: "has_duplicate_cids ls \<longleftrightarrow> \<not> distinct (map ml_cid ls)"
  by (simp add: has_duplicate_cids_def dup_loop_iff)

lemma merkle_root_perm:
  assumes "mset xs = mset ys" "\<not> has_duplicate_cids xs"
  shows "merkle_root X xs = merkle_root X ys"
proof -
  have "inj_on ml_cid (set xs)" using assms(2) by (simp add: has_duplicate_cids_iff distinct_map)
  then have "sort_key ml_cid xs = sort_key ml_cid ys"
    using assms(1) by (intro sort_key_inj_key_eq) simp_all
  moreover have "xs = [] \<longleftrightarrow> ys = []" using assms(1) by (metis mset_zero_iff)
  ultimately show ?thesis by (simp add: merkle_root_def)
qed

section \<open>Verified manifests\<close>

lemma sum_sizes_Ok: "sum_sizes ls = Ok s \<longleftrightarrow> s = sum_list (map ml_size ls) \<and> s \<le> u64_max"
  by (auto simp: sum_sizes_def Let_def)

lemma manifest_verify_True:
  "manifest_verify X m key = Ok True \<longleftrightarrow>
     list_all leaf_is_valid (m_leaves m) \<and> distinct (map ml_cid (m_leaves m)) \<and>
     merkle_root X (m_leaves m) = m_root m \<and>
     m_total_bytes m = sum_list (map ml_size (m_leaves m)) \<and> m_total_bytes m \<le> u64_max \<and>
     verify_message X key (signing_preimage X (m_signer_id m) (m_seq m) (length (m_leaves m))
       (m_total_bytes m) (m_root m) (m_heads m)) (m_signature m)"
  by (auto simp: manifest_verify_def has_duplicate_cids_iff sum_sizes_def Let_def list_all_iff list_ex_iff)

lemma verified_total_bound:
  assumes "manifest_verify X m key = Ok True"
  shows "m_total_bytes m \<le> length (m_leaves m) * MAX_OBJECT_BYTES"
proof -
  have "list_all leaf_is_valid ls \<Longrightarrow> sum_list (map ml_size ls) \<le> length ls * MAX_OBJECT_BYTES" for ls
    by (induction ls) (auto simp: leaf_is_valid_def)
  then show ?thesis using assms by (auto simp: manifest_verify_True)
qed

lemma build_signed_verifies:
  assumes "hex_law X" "sign_law X" "length (kp_signing_key kp) = 32"
    and "list_all leaf_is_valid items" "distinct (map ml_cid items)"
    and "sum_list (map ml_size items) \<le> u64_max"
  obtains m where "build_signed X items cust kp seq heads = Ok m"
    "manifest_verify X m (keypair_verifying_key X kp) = Ok True"
    "m_total_bytes m = sum_list (map ml_size items)" "mset (m_leaves m) = mset items"
    "m_seq m = seq" "m_signer_id m = cust" "m_heads m = heads"
proof -
  let ?ls = "sort_key ml_cid items"
  have sum: "sum_list (map ml_size ?ls) = sum_list (map ml_size items)"
    by (metis mset_map mset_sort sum_mset_sum_list)
  have "distinct (map ml_cid ?ls)"
    using assms(5) by (metis mset_eq_imp_distinct_iff mset_map mset_sort)
  moreover have "list_all leaf_is_valid ?ls" using assms(4) by (simp add: list_all_iff)
  moreover define m where "m = \<lparr>m_leaves = ?ls, m_root = merkle_root X ?ls,
    m_total_bytes = sum_list (map ml_size ?ls), m_signer_id = cust, m_seq = seq,
    m_signature = sign_message X kp
      (signing_preimage X cust seq (length ?ls) (sum_list (map ml_size ?ls)) (merkle_root X ?ls) heads),
    m_heads = heads\<rparr>"
  moreover have "build_signed X items cust kp seq heads = Ok m"
    using assms(6) by (simp add: build_signed_def sum_sizes_def Let_def m_def sum)
  ultimately show thesis
    using that [of m] sum assms(6) verify_message_sign [OF assms(1-3)]
    by (simp add: manifest_verify_True)
qed

section \<open>What the signature binds\<close>

lemma base_rev:
  assumes "CHR '':'' \<notin> set r" "CHR '':'' \<notin> set r'"
    and "d @ CHR '':'' # sid @ CHR '':'' # show_nat n @ CHR '':'' # show_nat c @ CHR '':'' # show_nat t @ CHR '':'' # r
       = d @ CHR '':'' # sid' @ CHR '':'' # show_nat n' @ CHR '':'' # show_nat c' @ CHR '':'' # show_nat t' @ CHR '':'' # r'"
  shows "sid = sid' \<and> n = n' \<and> c = c' \<and> t = t' \<and> r = r'"
proof -
  have "(sid @ CHR '':'' # show_nat n @ CHR '':'' # show_nat c @ CHR '':'' # show_nat t) @ CHR '':'' # r
      = (sid' @ CHR '':'' # show_nat n' @ CHR '':'' # show_nat c' @ CHR '':'' # show_nat t') @ CHR '':'' # r'"
    using assms(3) by simp
  note r = delim_revD [OF this assms(1,2)]
  then have "(sid @ CHR '':'' # show_nat n @ CHR '':'' # show_nat c) @ CHR '':'' # show_nat t
      = (sid' @ CHR '':'' # show_nat n' @ CHR '':'' # show_nat c') @ CHR '':'' # show_nat t'" by simp
  note t = delim_revD [OF this show_nat_no_col show_nat_no_col]
  then have "(sid @ CHR '':'' # show_nat n) @ CHR '':'' # show_nat c
      = (sid' @ CHR '':'' # show_nat n') @ CHR '':'' # show_nat c'" by simp
  note c = delim_revD [OF this show_nat_no_col show_nat_no_col]
  note n = delim_revD [OF conjunct1 [OF c] show_nat_no_col show_nat_no_col]
  show ?thesis using r t c n by simp
qed

definition heads_digest :: "ext \<Rightarrow> string btree option \<Rightarrow> string option" where
  "heads_digest X hs = map_option (\<lambda>h. sha256_hex X (heads_text h)) hs"

lemma signing_preimage_inject:
  assumes hex: "hex_law X" and r: "list_all lower_hex_char r" "list_all lower_hex_char r'"
    and eq: "signing_preimage X s n c t r h = signing_preimage X s' n' c' t' r' h'"
  shows "s = s' \<and> n = n' \<and> c = c' \<and> t = t' \<and> r = r' \<and> heads_digest X h = heads_digest X h'"
proof -
  have rc: "CHR '':'' \<notin> set r" "CHR '':'' \<notin> set r'" using r by (simp_all add: lower_hex_no_colon)
  let ?b = "\<lambda>s n c t r. MANIFEST_SIG_DOMAIN @ CHR '':'' # s @ CHR '':'' # show_nat n @ CHR '':'' # show_nat c @
      CHR '':'' # show_nat t @ CHR '':'' # r"
  have pre: "signing_preimage X s n c t r h =
      (case h of None \<Rightarrow> ?b s n c t r
       | Some hs \<Rightarrow> ?b s n c t r @ CHR '':'' # ''heads='' @ sha256_hex X (heads_text hs))" for s n c t r h
    by (simp add: signing_preimage_def Let_def split: option.splits)
  have hc: "CHR '':'' \<notin> set (''heads='' @ sha256_hex X m)" for m
    using sha256_hex_no_char [OF hex, of "CHR '':''"] by (simp add: lower_hex_char_def is_digit_def)
  have clash: "\<not> list_all lower_hex_char (''heads='' @ z)" for z
    by (simp add: lower_hex_char_def is_digit_def)
  have mixed: "?b s n c t r \<noteq> ?b s' n' c' t' r' @ CHR '':'' # ''heads='' @ sha256_hex X m"
    if "list_all lower_hex_char r" for s n c t r s' n' c' t' r' m
  proof
    assume "?b s n c t r = ?b s' n' c' t' r' @ CHR '':'' # ''heads='' @ sha256_hex X m"
    then have "(MANIFEST_SIG_DOMAIN @ CHR '':'' # s @ CHR '':'' # show_nat n @ CHR '':'' # show_nat c @
      CHR '':'' # show_nat t) @ CHR '':'' # r = ?b s' n' c' t' r' @ CHR '':'' # ''heads='' @ sha256_hex X m"
      by simp
    from delim_revD [OF this lower_hex_no_colon [OF that] hc] have "r = ''heads='' @ sha256_hex X m" by blast
    then show False using clash that by blast
  qed
  show ?thesis
  proof (cases h; cases h')
    assume hh: "h = None" "h' = None"
    have "?b s n c t r = ?b s' n' c' t' r'" using eq unfolding pre hh by (simp only: option.case)
    from base_rev [OF rc this] show ?thesis unfolding hh by simp
  next
    fix a assume "h = None" "h' = Some a"
    then show ?thesis using mixed [OF r(1)] eq unfolding pre by (simp only: option.case)
  next
    fix a assume "h = Some a" "h' = None"
    then show ?thesis using mixed [OF r(2)] eq [symmetric] unfolding pre by (simp only: option.case)
  next
    fix a b assume ab: "h = Some a" "h' = Some b"
    have "?b s n c t r @ CHR '':'' # ''heads='' @ sha256_hex X (heads_text a)
        = ?b s' n' c' t' r' @ CHR '':'' # ''heads='' @ sha256_hex X (heads_text b)"
      using eq unfolding pre ab by (simp only: option.case)
    note d = delim_revD [OF this hc hc]
    then show ?thesis using base_rev [OF rc conjunct1 [OF d]] ab by (simp add: heads_digest_def)
  qed
qed

definition manifest_text :: "ext \<Rightarrow> Manifest \<Rightarrow> string" where
  "manifest_text X m = signing_preimage X (m_signer_id m) (m_seq m) (length (m_leaves m))
     (m_total_bytes m) (m_root m) (m_heads m)"

lemma verified_signature:
  "manifest_verify X m key = Ok True \<Longrightarrow> verify_message X key (manifest_text X m) (m_signature m)"
  unfolding manifest_verify_True manifest_text_def by blast

lemma merkle_root_lower:
  assumes "hex_law X" shows "list_all lower_hex_char (merkle_root X ls)"
proof (cases "ls = []")
  case True
  then show ?thesis by (simp add: merkle_root_def sha256_hex_lower [OF assms])
next
  case False
  then show ?thesis by (rule merkle_root_text [where X = X]) (simp add: sha256_hex_lower [OF assms])
qed

lemma manifest_signature_binds:
  assumes hex: "hex_law X"
    and ver: "manifest_verify X m key = Ok True" "manifest_verify X m' key = Ok True"
    and sig: "m_signature m = m_signature m'"
    and bind: "binding_on X key {manifest_text X m, manifest_text X m'}"
    and inj: "inj_on (sha256_hex X) (root_texts X (m_leaves m) \<union> root_texts X (m_leaves m'))"
  shows "mset (m_leaves m) = mset (m_leaves m') \<and> m_total_bytes m = m_total_bytes m' \<and>
    m_seq m = m_seq m' \<and> m_signer_id m = m_signer_id m' \<and> m_root m = m_root m' \<and>
    heads_digest X (m_heads m) = heads_digest X (m_heads m')"
proof -
  have "manifest_text X m = manifest_text X m'"
    by (rule binding_onD [OF bind, of _ "m_signature m"])
      (use verified_signature [OF ver(1)] verified_signature [OF ver(2)] sig in simp_all)
  moreover have low: "list_all lower_hex_char (m_root m)" "list_all lower_hex_char (m_root m')"
    using ver merkle_root_lower [OF hex] by (metis manifest_verify_True)+
  ultimately have b: "m_signer_id m = m_signer_id m' \<and> m_seq m = m_seq m' \<and>
      length (m_leaves m) = length (m_leaves m') \<and> m_total_bytes m = m_total_bytes m' \<and>
      m_root m = m_root m' \<and> heads_digest X (m_heads m) = heads_digest X (m_heads m')"
    unfolding manifest_text_def by (intro signing_preimage_inject [OF hex low]) 
  have "sort_key ml_cid (m_leaves m) = sort_key ml_cid (m_leaves m')"
    by (rule merkle_root_inject [OF hex inj]) (use ver b in \<open>auto simp: manifest_verify_True list_all_iff\<close>)
  then have "mset (m_leaves m) = mset (m_leaves m')" by (metis mset_sort)
  then show ?thesis using b by blast
qed

end
