(* ===== verification/Dials.thy ===== *)
theory Dials
  imports Assertion Kind_Spec
begin

text \<open>
  \<^verbatim>\<open>src/src/dials.rs\<close> and \<^verbatim>\<open>src/src/kv.rs\<close>: the customer dials (storage and spend ceiling, spend
  period, account mode, receipt mode) and the \<^verbatim>\<open>kv.flag\<close> kind. Each is an instance of
  \<open>body_kind\<close>: the signed fold determines the body.
\<close>

section \<open>dials.rs\<close>

definition dial_spec :: "string \<Rightarrow> KindSpec" where
  "dial_spec kind = \<lparr>ks_kind = kind, ks_retention = Setting, ks_authorship = OwnerSignedAuthorship,
     ks_erasure = Permanent, ks_enumeration = PointOnly,
     ks_hashing = \<lparr>posture = FoldBound, algorithm = Sha256\<rparr>,
     ks_sizing = \<lparr>body_ceiling = SMALL_BODY_CEILING_BYTES, growth = Bounded\<rparr>\<rparr>"

definition CEILING_DIAL_KIND :: string where
  "CEILING_DIAL_KIND = ''dial.ceiling''"

definition PERIOD_DIAL_KIND :: string where
  "PERIOD_DIAL_KIND = ''dial.period''"

definition ACCOUNT_MODE_DIAL_KIND :: string where
  "ACCOUNT_MODE_DIAL_KIND = ''dial.account-mode''"

definition RECEIPT_MODE_DIAL_KIND :: string where
  "RECEIPT_MODE_DIAL_KIND = ''dial.receipt-mode''"

record CeilingDialBody =
  cd_at_rest_bytes :: "u64 option"
  cd_spend_cents :: "u64 option"

definition de_ceiling :: "json \<Rightarrow> CeilingDialBody option" where
  "de_ceiling j =
     (case struct_fields [''at_rest_bytes'', ''spend_cents''] j of
        Some [a, s] \<Rightarrow>
          (case (opt de_u64 a, opt de_u64 s) of
             (Some x, Some y) \<Rightarrow> Some \<lparr>cd_at_rest_bytes = x, cd_spend_cents = y\<rparr>
           | _ \<Rightarrow> None)
      | _ \<Rightarrow> None)"

definition fold_opt :: "u64 option \<Rightarrow> string" where
  "fold_opt v = (case v of None \<Rightarrow> ''none'' | Some n \<Rightarrow> show_nat n)"

definition ceiling_body_fold :: "CeilingDialBody \<Rightarrow> string" where
  "ceiling_body_fold b =
     ''at_rest_bytes='' @ fold_opt (cd_at_rest_bytes b) @ '';spend_cents='' @ fold_opt (cd_spend_cents b)"

definition PERIOD_BODY_FOLD :: string where
  "PERIOD_BODY_FOLD = ''new_period''"

datatype AccountMode = Active | Drawdown

definition is_active :: "AccountMode \<Rightarrow> bool" where
  "is_active m \<longleftrightarrow> m = Active"

definition de_account_mode :: "json \<Rightarrow> AccountMode option" where
  "de_account_mode = de_unit_enum [(''active'', Active), (''drawdown'', Drawdown)]"

record AccountModeBody =
  am_mode :: AccountMode

definition de_account_mode_body :: "json \<Rightarrow> AccountModeBody option" where
  "de_account_mode_body j =
     (case struct_fields [''mode''] j of
        Some [m] \<Rightarrow> map_option (\<lambda>x. \<lparr>am_mode = x\<rparr>) (req de_account_mode m)
      | _ \<Rightarrow> None)"

definition account_mode_body_fold :: "AccountModeBody \<Rightarrow> string" where
  "account_mode_body_fold b =
     (case am_mode b of Active \<Rightarrow> ''mode=active'' | Drawdown \<Rightarrow> ''mode=drawdown'')"

datatype ReceiptModeChoice = UnilateralChoice | BilateralChoice

record ReceiptModeBody =
  rm_mode :: ReceiptModeChoice

definition de_receipt_mode_body :: "json \<Rightarrow> ReceiptModeBody option" where
  "de_receipt_mode_body j =
     (case struct_fields [''mode''] j of
        Some [m] \<Rightarrow> map_option (\<lambda>x. \<lparr>rm_mode = x\<rparr>)
          (req (de_unit_enum [(''unilateral'', UnilateralChoice), (''bilateral'', BilateralChoice)]) m)
      | _ \<Rightarrow> None)"

definition receipt_mode_body_fold :: "ReceiptModeBody \<Rightarrow> string" where
  "receipt_mode_body_fold b =
     (case rm_mode b of UnilateralChoice \<Rightarrow> ''mode=unilateral'' | BilateralChoice \<Rightarrow> ''mode=bilateral'')"

section \<open>kv.rs\<close>

definition FLAG_KIND :: string where
  "FLAG_KIND = ''kv.flag''"

definition FLAG_SPEC :: KindSpec where
  "FLAG_SPEC = \<lparr>ks_kind = FLAG_KIND, ks_retention = Setting, ks_authorship = OwnerSignedAuthorship,
     ks_erasure = Erasable, ks_enumeration = Listable,
     ks_hashing = \<lparr>posture = FoldBound, algorithm = Sha256\<rparr>,
     ks_sizing = \<lparr>body_ceiling = SMALL_BODY_CEILING_BYTES, growth = Bounded\<rparr>\<rparr>"

definition MAX_SUBKEY_LEN :: usize where
  "MAX_SUBKEY_LEN = 256"

record FlagBody =
  fb_set :: bool

definition de_flag_body :: "json \<Rightarrow> FlagBody option" where
  "de_flag_body j =
     (case struct_fields [''set''] j of
        Some [v] \<Rightarrow> map_option (\<lambda>x. \<lparr>fb_set = x\<rparr>) (req de_bool v)
      | _ \<Rightarrow> None)"

definition flag_body_fold :: "FlagBody \<Rightarrow> string" where
  "flag_body_fold b = ''set='' @ show_bool (fb_set b)"

definition subkey_valid :: "string option \<Rightarrow> bool" where
  "subkey_valid subkey =
     (case subkey of
        None \<Rightarrow> False
      | Some sk \<Rightarrow> sk \<noteq> [] \<and> length sk \<le> MAX_SUBKEY_LEN \<and>
          list_all (\<lambda>b. is_ascii_alphanumeric b \<or>
            b \<in> {CHR ''.'', CHR ''_'', CHR ''%'', CHR '':'', CHR ''-''}) sk)"

section \<open>The folds bind the bodies\<close>

lemma fold_opt_inject: "fold_opt a = fold_opt b \<longleftrightarrow> a = b"
proof -
  have none: "show_nat n \<noteq> ''none''" for n
  proof
    assume eq: "show_nat n = ''none''"
    have "is_digit (CHR ''n'')" by (rule show_nat_digits [of _ n]) (simp add: eq)
    then show False by (simp add: is_digit_def)
  qed
  then show ?thesis
    by (auto simp: fold_opt_def split: option.splits) (metis none)+
qed

lemma fold_opt_no_semicolon: "CHR '';'' \<notin> set (fold_opt v)"
  by (cases v) (simp_all add: fold_opt_def show_nat_no_char is_digit_def)

lemma ceiling_fold_binds:
  assumes "ceiling_body_fold a = ceiling_body_fold b"
  shows "a = b"
proof -
  have "fold_opt (cd_at_rest_bytes a) @ CHR '';'' # ''spend_cents='' @ fold_opt (cd_spend_cents a)
      = fold_opt (cd_at_rest_bytes b) @ CHR '';'' # ''spend_cents='' @ fold_opt (cd_spend_cents b)"
    using assms by (simp add: ceiling_body_fold_def)
  from delimD [OF this fold_opt_no_semicolon fold_opt_no_semicolon] show ?thesis
    by (intro CeilingDialBody.equality) (simp_all add: fold_opt_inject)
qed

interpretation ceiling_kind: body_kind "\<lambda>_. True" ceiling_body_fold "(=)"
  by unfold_locales (rule ceiling_fold_binds)

interpretation account_mode_kind: body_kind "\<lambda>_. True" account_mode_body_fold "(=)"
  by unfold_locales
    (auto simp: account_mode_body_fold_def AccountModeBody.equality split: AccountMode.splits)

interpretation receipt_mode_kind: body_kind "\<lambda>_. True" receipt_mode_body_fold "(=)"
  by unfold_locales
    (auto simp: receipt_mode_body_fold_def ReceiptModeBody.equality split: ReceiptModeChoice.splits)

interpretation flag_kind: body_kind "\<lambda>_. True" flag_body_fold "(=)"
  by unfold_locales (auto simp: flag_body_fold_def FlagBody.equality)

end
