(* ===== verification/Receipts.thy ===== *)
theory Receipts
  imports Dials Btree
begin

text \<open>
  \<^verbatim>\<open>src/src/receipts.rs\<close>: signed acknowledgments of bytes crossing the boundary. The signatures are
  over the hash of the canonical bytes of the core; the account mode is left out of the serialized
  core when it is the default, and the content still determines the core.
\<close>

datatype Direction = Upload | Download

datatype ReceiptMode = Unilateral | Bilateral

record ReceiptCore =
  rc_direction :: Direction
  rc_cid :: string
  rc_byte_start :: usize
  rc_byte_end :: usize
  rc_bytes :: usize
  rc_running_total :: usize
  rc_day :: u64
  rc_account_mode :: AccountMode
  rc_receiver_id :: string
  rc_sender_id :: string

text \<open>\<open>byte_end - byte_start\<close> panics on underflow.\<close>

definition receipt_core_new ::
  "Direction \<Rightarrow> string \<Rightarrow> usize \<times> usize \<Rightarrow> usize \<Rightarrow> u64 \<Rightarrow> AccountMode \<Rightarrow> string \<Rightarrow> string
   \<Rightarrow> (ReceiptCore, unit) result" where
  "receipt_core_new direction cid byte_range running_total day account_mode receiver_id sender_id =
     (case byte_range of (byte_start, byte_end) \<Rightarrow>
        if byte_end < byte_start then Panic
        else Ok \<lparr>rc_direction = direction, rc_cid = cid, rc_byte_start = byte_start,
          rc_byte_end = byte_end, rc_bytes = byte_end - byte_start, rc_running_total = running_total,
          rc_day = day, rc_account_mode = account_mode, rc_receiver_id = receiver_id,
          rc_sender_id = sender_id\<rparr>)"

definition direction_json :: "Direction \<Rightarrow> json" where
  "direction_json d = JStr (case d of Upload \<Rightarrow> ''upload'' | Download \<Rightarrow> ''download'')"

definition account_mode_json :: "AccountMode \<Rightarrow> json" where
  "account_mode_json m = JStr (case m of Active \<Rightarrow> ''active'' | Drawdown \<Rightarrow> ''drawdown'')"

definition core_fields :: "ReceiptCore \<Rightarrow> (string \<times> json) list" where
  "core_fields c =
     [(''direction'', direction_json (rc_direction c)), (''cid'', JStr (rc_cid c)),
      (''byte_start'', JInt (int (rc_byte_start c))), (''byte_end'', JInt (int (rc_byte_end c))),
      (''bytes'', JInt (int (rc_bytes c))), (''running_total'', JInt (int (rc_running_total c))),
      (''day'', JInt (int (rc_day c)))] @
     (if is_active (rc_account_mode c) then []
      else [(''account_mode'', account_mode_json (rc_account_mode c))]) @
     [(''receiver_id'', JStr (rc_receiver_id c)), (''sender_id'', JStr (rc_sender_id c))]"

definition core_json :: "ReceiptCore \<Rightarrow> json" where
  "core_json c = JObj (core_fields c)"

definition content_hash :: "ext \<Rightarrow> ReceiptCore \<Rightarrow> string" where
  "content_hash X c = sha256_hex X (to_canonical_bytes X (core_json c))"

record Receipt =
  r_core :: ReceiptCore
  r_content_hash :: string
  r_mode :: ReceiptMode
  r_sigs :: "string btree"

definition core_matches :: "ext \<Rightarrow> Receipt \<Rightarrow> bool" where
  "core_matches X r \<longleftrightarrow> content_hash X (r_core r) = r_content_hash r"

definition verify_bilateral :: "ext \<Rightarrow> Receipt \<Rightarrow> verifying_key btree \<Rightarrow> bool" where
  "verify_bilateral X r keyring =
     (if r_mode r \<noteq> Bilateral \<or> \<not> core_matches X r then False
      else (case (bt_get (r_sigs r) (rc_receiver_id (r_core r)), bt_get (r_sigs r) (rc_sender_id (r_core r))) of
              (Some receiver_sig, Some sender_sig) \<Rightarrow>
                (case (bt_get keyring (rc_receiver_id (r_core r)), bt_get keyring (rc_sender_id (r_core r))) of
                   (Some receiver_key, Some sender_key) \<Rightarrow>
                     verify_message X receiver_key (r_content_hash r) receiver_sig \<and>
                     verify_message X sender_key (r_content_hash r) sender_sig
                 | _ \<Rightarrow> False)
            | _ \<Rightarrow> False))"

definition verify_unilateral :: "ext \<Rightarrow> Receipt \<Rightarrow> verifying_key btree \<Rightarrow> bool" where
  "verify_unilateral X r keyring =
     (if r_mode r \<noteq> Unilateral \<or> \<not> core_matches X r \<or> r_sigs r = [] then False
      else list_all (\<lambda>(i, sg). case bt_get keyring i of
                                 None \<Rightarrow> False
                               | Some key \<Rightarrow> verify_message X key (r_content_hash r) sg) (r_sigs r))"

definition is_acknowledged :: "Receipt \<Rightarrow> bool" where
  "is_acknowledged r \<longleftrightarrow>
     bt_get (r_sigs r) (rc_receiver_id (r_core r)) \<noteq> None \<and>
     bt_get (r_sigs r) (rc_sender_id (r_core r)) \<noteq> None"

definition is_co_attested :: "Receipt \<Rightarrow> bool" where
  "is_co_attested r \<longleftrightarrow> r_mode r = Bilateral \<and>
     bt_get (r_sigs r) (rc_receiver_id (r_core r)) \<noteq> None \<and>
     bt_get (r_sigs r) (rc_sender_id (r_core r)) \<noteq> None"

record TransferContext =
  tc_bytes :: usize
  tc_trust_distance :: "nat option"

definition select_mode :: "TransferContext \<Rightarrow> ReceiptMode \<Rightarrow> ReceiptMode" where
  "select_mode ctx default_mode = default_mode"

definition make_bilateral_receipt :: "ext \<Rightarrow> ReceiptCore \<Rightarrow> Keypair option \<Rightarrow> Keypair \<Rightarrow> Receipt" where
  "make_bilateral_receipt X core receiver_key sender_key =
     (let h = content_hash X core;
          sigs = (case receiver_key of
                    None \<Rightarrow> []
                  | Some rk \<Rightarrow>
                      bt_insert (rc_sender_id core) (sign_message X sender_key h)
                        (bt_insert (rc_receiver_id core) (sign_message X rk h) []))
      in \<lparr>r_core = core, r_content_hash = h, r_mode = Bilateral, r_sigs = sigs\<rparr>)"

definition make_unilateral_receipt :: "ext \<Rightarrow> ReceiptCore \<Rightarrow> string \<Rightarrow> Keypair \<Rightarrow> Receipt" where
  "make_unilateral_receipt X core provider_id provider_key =
     (let h = content_hash X core
      in \<lparr>r_core = core, r_content_hash = h, r_mode = Unilateral,
          r_sigs = bt_insert provider_id (sign_message X provider_key h) []\<rparr>)"

section \<open>The content hash determines the core\<close>

lemma jwf_core_json: "jwf (core_json c)"
  by (simp add: core_json_def core_fields_def direction_json_def account_mode_json_def)

lemma distinct_core_fields: "distinct (map fst (core_fields c))"
  using jwf_core_json [of c] by (simp add: core_json_def)

lemma map_of_core_fields:
  "map_of (core_fields c) ''direction'' = Some (direction_json (rc_direction c))"
  "map_of (core_fields c) ''cid'' = Some (JStr (rc_cid c))"
  "map_of (core_fields c) ''byte_start'' = Some (JInt (int (rc_byte_start c)))"
  "map_of (core_fields c) ''byte_end'' = Some (JInt (int (rc_byte_end c)))"
  "map_of (core_fields c) ''bytes'' = Some (JInt (int (rc_bytes c)))"
  "map_of (core_fields c) ''running_total'' = Some (JInt (int (rc_running_total c)))"
  "map_of (core_fields c) ''day'' = Some (JInt (int (rc_day c)))"
  "map_of (core_fields c) ''account_mode'' =
     (if rc_account_mode c = Active then None else Some (account_mode_json (rc_account_mode c)))"
  "map_of (core_fields c) ''receiver_id'' = Some (JStr (rc_receiver_id c))"
  "map_of (core_fields c) ''sender_id'' = Some (JStr (rc_sender_id c))"
  by (simp_all add: core_fields_def is_active_def)

lemma core_json_inject:
  assumes "jnorm (core_json a) = jnorm (core_json b)"
  shows "a = b"
proof -
  have f: "map_option jnorm (map_of (core_fields a) k) = map_option jnorm (map_of (core_fields b) k)" for k
    using jnorm_field [OF _ distinct_core_fields distinct_core_fields] assms
    unfolding core_json_def by blast
  note fs = f [of "''direction''"] f [of "''cid''"] f [of "''byte_start''"] f [of "''byte_end''"]
    f [of "''bytes''"] f [of "''running_total''"] f [of "''day''"] f [of "''account_mode''"]
    f [of "''receiver_id''"] f [of "''sender_id''"]
  have d: "rc_direction a = rc_direction b"
    using fs(1) by (auto simp: map_of_core_fields direction_json_def split: Direction.splits)
  have m: "rc_account_mode a = rc_account_mode b"
    using fs(8) by (cases "rc_account_mode a"; cases "rc_account_mode b")
      (auto simp: map_of_core_fields account_mode_json_def)
  show ?thesis
    using fs d m by (intro ReceiptCore.equality) (simp_all add: map_of_core_fields)
qed

lemma content_hash_inject:
  assumes "text_law X"
    and "inj_on (sha256_hex X) {to_canonical_bytes X (core_json a), to_canonical_bytes X (core_json b)}"
    and "content_hash X a = content_hash X b"
  shows "a = b"
proof -
  have "to_canonical_bytes X (core_json a) = to_canonical_bytes X (core_json b)"
    by (rule inj_onD [OF assms(2)]) (use assms(3) in \<open>simp_all add: content_hash_def\<close>)
  then show ?thesis
    using to_canonical_bytes_inject [OF assms(1) jwf_core_json jwf_core_json] core_json_inject by blast
qed

section \<open>Made receipts verify; altered ones do not\<close>

lemma make_unilateral_verifies:
  assumes "hex_law X" "sign_law X" "length (kp_signing_key kp) = 32"
    and "bt_get keyring provider_id = Some (keypair_verifying_key X kp)"
  shows "verify_unilateral X (make_unilateral_receipt X core provider_id kp) keyring"
  using assms(4) verify_message_sign [OF assms(1-3)]
  by (simp add: verify_unilateral_def make_unilateral_receipt_def core_matches_def Let_def)

lemma make_bilateral_verifies:
  assumes "hex_law X" "sign_law X" "length (kp_signing_key rk) = 32" "length (kp_signing_key sk) = 32"
    and "rc_receiver_id core \<noteq> rc_sender_id core"
    and "bt_get keyring (rc_receiver_id core) = Some (keypair_verifying_key X rk)"
    and "bt_get keyring (rc_sender_id core) = Some (keypair_verifying_key X sk)"
  shows "verify_bilateral X (make_bilateral_receipt X core (Some rk) sk) keyring"
  using assms(5-7) verify_message_sign [OF assms(1,2,3)] verify_message_sign [OF assms(1,2,4)]
  by (simp add: verify_bilateral_def make_bilateral_receipt_def core_matches_def bt_get_insert
      btree_wf_def Let_def bt_get_def)

lemma verified_core_matches:
  "verify_unilateral X r k \<or> verify_bilateral X r k \<Longrightarrow> core_matches X r"
  by (auto simp: verify_unilateral_def verify_bilateral_def split: if_splits)

lemma verified_receipts_agree:
  assumes "text_law X"
    and "inj_on (sha256_hex X)
      {to_canonical_bytes X (core_json (r_core r)), to_canonical_bytes X (core_json (r_core s))}"
    and "verify_unilateral X r k \<or> verify_bilateral X r k"
    and "verify_unilateral X s l \<or> verify_bilateral X s l"
    and "r_content_hash r = r_content_hash s"
  shows "r_core r = r_core s"
  using content_hash_inject [OF assms(1,2)] verified_core_matches [OF assms(3)]
    verified_core_matches [OF assms(4)] assms(5)
  by (simp add: core_matches_def)

lemma walkaway_not_verified:
  "\<not> verify_bilateral X (make_bilateral_receipt X core None sk) keyring"
  "\<not> verify_unilateral X (make_bilateral_receipt X core None sk) keyring"
  by (simp_all add: verify_bilateral_def verify_unilateral_def make_bilateral_receipt_def bt_get_def)

lemma verify_bilateral_co_attested: "verify_bilateral X r k \<Longrightarrow> is_co_attested r"
  by (auto simp: verify_bilateral_def is_co_attested_def split: if_splits option.splits)

end
