(* ===== verification/Statements.thy ===== *)
theory Statements
  imports Receipts Hash_Chain
begin

text \<open>
  \<^verbatim>\<open>src/src/pricing.rs\<close>, \<^verbatim>\<open>src/src/clock.rs\<close> and \<^verbatim>\<open>src/src/statements.rs\<close>: prices in integer cents,
  the day clock, the byte-day integral of the bytes at rest, and the hash-linked balance-forward
  statements with the purge of settled receipts. Sums and products that leave 64 bits panic.
\<close>

section \<open>pricing.rs\<close>

definition RENT_NUMERATOR :: u64 where
  "RENT_NUMERATOR = 1"

definition RENT_DENOMINATOR :: u64 where
  "RENT_DENOMINATOR = 10000"

definition POSTAGE_BYTES_PER_CENT :: u64 where
  "POSTAGE_BYTES_PER_CENT = 1000"

definition AUDIT_BYTES_PER_CENT :: u64 where
  "AUDIT_BYTES_PER_CENT = 1000"

definition AUDIT_OVERHEAD_CENTS :: u64 where
  "AUDIT_OVERHEAD_CENTS = 2"

definition checked :: "nat \<Rightarrow> (u64, unit) result" where
  "checked n = (if n \<le> u64_max then Ok n else Panic)"

definition rent_cents :: "u64 \<Rightarrow> (u64, unit) result" where
  "rent_cents byte_days =
     (case checked (byte_days * RENT_NUMERATOR) of Ok p \<Rightarrow> Ok (p div RENT_DENOMINATOR) | r \<Rightarrow> r)"

definition postage_cents :: "u64 \<Rightarrow> u64" where
  "postage_cents bytes = bytes div POSTAGE_BYTES_PER_CENT"

definition audit_cents :: "u64 \<Rightarrow> u64 \<Rightarrow> (u64, unit) result" where
  "audit_cents bytes_read audit_count =
     (case checked (audit_count * AUDIT_OVERHEAD_CENTS) of
        Ok p \<Rightarrow> checked (bytes_read div AUDIT_BYTES_PER_CENT + p)
      | r \<Rightarrow> r)"

section \<open>clock.rs\<close>

record SimClock =
  clk_day :: u64

definition clock_new :: SimClock where
  "clock_new = \<lparr>clk_day = 0\<rparr>"

definition advance_days :: "SimClock \<Rightarrow> u64 \<Rightarrow> (SimClock, unit) result" where
  "advance_days c n = (case checked (clk_day c + n) of Ok d \<Rightarrow> Ok (c\<lparr>clk_day := d\<rparr>) | Err e \<Rightarrow> Err e | Panic \<Rightarrow> Panic)"

section \<open>statements.rs: bytes at rest\<close>

definition GENESIS_STATEMENT :: string where
  "GENESIS_STATEMENT = replicate 64 (CHR ''0'')"

type_synonym timeline = "(u64 \<times> u64) list"

definition set_bytes_at_rest :: "timeline \<Rightarrow> u64 \<Rightarrow> u64 \<Rightarrow> timeline" where
  "set_bytes_at_rest points day tot =
     (if points \<noteq> [] \<and> fst (last points) = day then butlast points @ [(day, tot)]
      else points @ [(day, tot)])"

fun rest_loop :: "u64 \<Rightarrow> u64 \<Rightarrow> timeline \<Rightarrow> u64" where
  "rest_loop day current [] = current"
| "rest_loop day current ((d, tot) # ps) = (if d \<le> day then rest_loop day tot ps else current)"

definition bytes_at_rest_on :: "timeline \<Rightarrow> u64 \<Rightarrow> u64" where
  "bytes_at_rest_on points day = rest_loop day 0 points"

definition byte_days :: "timeline \<Rightarrow> u64 \<Rightarrow> u64 \<Rightarrow> (u64, unit) result" where
  "byte_days points start until = checked (sum_list (map (bytes_at_rest_on points) [start..<until]))"

section \<open>statements.rs: the statement chain\<close>

record StatementBody =
  sb_period :: u64
  sb_period_start_day :: u64
  sb_period_end_day :: u64
  sb_opening_root :: string
  sb_closing_root :: string
  sb_byte_days :: u64
  sb_rent_cents :: u64
  sb_postage_bytes :: u64
  sb_postage_cents :: u64
  sb_audit_count :: u64
  sb_audit_bytes :: u64
  sb_audit_cents :: u64
  sb_audit_tier :: string
  sb_grace_cents :: i64
  sb_fees_cents :: u64
  sb_total_cents :: u64
  sb_prev_statement_hash :: string

record Statement =
  st_body :: StatementBody
  st_hash :: string

definition statement_fields :: "StatementBody \<Rightarrow> (string \<times> json) list" where
  "statement_fields b =
     [(''period'', JInt (int (sb_period b))), (''period_start_day'', JInt (int (sb_period_start_day b))),
      (''period_end_day'', JInt (int (sb_period_end_day b))), (''opening_root'', JStr (sb_opening_root b)),
      (''closing_root'', JStr (sb_closing_root b)), (''byte_days'', JInt (int (sb_byte_days b))),
      (''rent_cents'', JInt (int (sb_rent_cents b))), (''postage_bytes'', JInt (int (sb_postage_bytes b))),
      (''postage_cents'', JInt (int (sb_postage_cents b))), (''audit_count'', JInt (int (sb_audit_count b))),
      (''audit_bytes'', JInt (int (sb_audit_bytes b))), (''audit_cents'', JInt (int (sb_audit_cents b))),
      (''audit_tier'', JStr (sb_audit_tier b)), (''grace_cents'', JInt (sb_grace_cents b)),
      (''fees_cents'', JInt (int (sb_fees_cents b))), (''total_cents'', JInt (int (sb_total_cents b))),
      (''prev_statement_hash'', JStr (sb_prev_statement_hash b))]"

definition statement_json :: "StatementBody \<Rightarrow> json" where
  "statement_json b = JObj (statement_fields b)"

definition build_statement :: "ext \<Rightarrow> StatementBody \<Rightarrow> Statement" where
  "build_statement X b =
     \<lparr>st_body = b, st_hash = sha256_hex X (to_canonical_bytes X (statement_json b))\<rparr>"

datatype ChainResult = ChainOk | ChainFailed usize string

fun verify_chain_loop :: "ext \<Rightarrow> nat \<Rightarrow> string \<Rightarrow> Statement list \<Rightarrow> ChainResult" where
  "verify_chain_loop X i expected_prev [] = ChainOk"
| "verify_chain_loop X i expected_prev (s # ss) =
     (if sb_prev_statement_hash (st_body s) \<noteq> expected_prev
        then ChainFailed i ''prev_statement_hash breaks the chain''
      else if sha256_hex X (to_canonical_bytes X (statement_json (st_body s))) \<noteq> st_hash s
        then ChainFailed i ''statement body edited (hash mismatch)''
      else if sb_period (st_body s) \<noteq> i
        then ChainFailed i ''period number out of sequence''
      else verify_chain_loop X (Suc i) (st_hash s) ss)"

definition verify_chain :: "ext \<Rightarrow> Statement list \<Rightarrow> ChainResult" where
  "verify_chain X ss = verify_chain_loop X 0 GENESIS_STATEMENT ss"

definition purge_receipts_settled_through :: "Receipt list \<Rightarrow> u64 \<Rightarrow> Receipt list \<times> usize" where
  "purge_receipts_settled_through receipts settled_through_day =
     (let kept = filter (\<lambda>r. settled_through_day \<le> rc_day (r_core r)) receipts
      in (kept, length receipts - length kept))"

section \<open>The byte-day integral\<close>

text \<open>Points in strictly increasing day order: what \<open>set_bytes_at_rest\<close> builds when time advances.\<close>

definition timeline_wf :: "timeline \<Rightarrow> bool" where
  "timeline_wf tm \<longleftrightarrow> sorted_wrt (<) (map fst tm)"

lemma rest_loop_append:
  "list_all (\<lambda>p. fst p \<le> d) xs \<Longrightarrow> rest_loop d c (xs @ ys) = rest_loop d (rest_loop d c xs) ys"
  by (induction xs arbitrary: c) auto

lemma rest_loop_snoc_later: "d < fst p \<Longrightarrow> rest_loop d c (xs @ [p]) = rest_loop d c xs"
  by (induction xs arbitrary: c) (cases p, auto)+

lemma set_bytes_at_rest_wf:
  assumes "timeline_wf tm" "tm = [] \<or> fst (last tm) \<le> day"
  shows "timeline_wf (set_bytes_at_rest tm day tot)"
proof (cases tm rule: rev_cases)
  case Nil
  then show ?thesis by (simp add: set_bytes_at_rest_def timeline_wf_def)
next
  case (snoc xs p)
  then show ?thesis
    using assms by (fastforce simp: set_bytes_at_rest_def timeline_wf_def sorted_wrt_append)
qed

lemma bytes_at_rest_on_set:
  assumes "timeline_wf tm" "tm = [] \<or> fst (last tm) \<le> day"
  shows "bytes_at_rest_on (set_bytes_at_rest tm day tot) d =
    (if day \<le> d then tot else bytes_at_rest_on tm d)"
proof (cases tm rule: rev_cases)
  case Nil
  then show ?thesis by (simp add: set_bytes_at_rest_def bytes_at_rest_on_def)
next
  case (snoc xs p)
  have early: "list_all (\<lambda>q. fst q < fst p) xs"
    using assms(1) snoc by (auto simp: timeline_wf_def sorted_wrt_append list_all_iff)
  obtain pd pt where p: "p = (pd, pt)" by (cases p)
  show ?thesis
  proof (cases "day \<le> d")
    case True
    have "list_all (\<lambda>q. fst q \<le> d) (xs @ [p])" "list_all (\<lambda>q. fst q \<le> d) xs"
      using early assms(2) snoc True by (auto simp: list_all_iff)
    then show ?thesis
      using True snoc p by (auto simp: set_bytes_at_rest_def bytes_at_rest_on_def rest_loop_append)
  next
    case False
    then show ?thesis
      using snoc p rest_loop_snoc_later [of d "(day, tot)" 0 "xs @ [p]"]
      by (auto simp: set_bytes_at_rest_def bytes_at_rest_on_def rest_loop_snoc_later)
  qed
qed

lemma byte_days_split:
  assumes "s \<le> m" "m \<le> e" "byte_days tm s e = Ok t"
  obtains a b where "byte_days tm s m = Ok a" "byte_days tm m e = Ok b" "t = a + b"
proof -
  have "[s..<e] = [s..<m] @ [m..<e]" using assms(1,2) by (metis upt_add_eq_append le_add_diff_inverse)
  then show thesis
    using that assms(3) by (auto simp: byte_days_def checked_def split: if_splits)
qed

lemma sum_rest_const:
  "(\<And>d. s \<le> d \<Longrightarrow> d < e \<Longrightarrow> f d = c) \<Longrightarrow> sum_list (map f [s..<e]) = (e - s) * (c :: nat)"
proof (induction e)
  case (Suc e)
  then show ?case by (cases "s \<le> e") (auto simp: Suc_diff_le)
qed simp

text \<open>After the last change, rent is the constant total times the days.\<close>

lemma byte_days_constant:
  assumes "timeline_wf tm" "tm = [] \<or> fst (last tm) \<le> day" "day \<le> s" "(e - s) * tot \<le> u64_max"
  shows "byte_days (set_bytes_at_rest tm day tot) s e = Ok ((e - s) * tot)"
proof -
  have "sum_list (map (bytes_at_rest_on (set_bytes_at_rest tm day tot)) [s..<e]) = (e - s) * tot"
    using bytes_at_rest_on_set [OF assms(1,2)] assms(3) by (intro sum_rest_const) simp
  then show ?thesis using assms(4) by (simp add: byte_days_def checked_def)
qed

section \<open>The statement chain\<close>

lemma verify_chain_loop_ok:
  "verify_chain_loop X i p ss = ChainOk \<longleftrightarrow>
     linked (\<lambda>s. sb_prev_statement_hash (st_body s)) st_hash p ss \<and>
     (\<forall>j < length ss. ss ! j = build_statement X (st_body (ss ! j)) \<and> sb_period (st_body (ss ! j)) = i + j)"
proof (induction ss arbitrary: i p)
  case Nil
  then show ?case by simp
next
  case (Cons s ss)
  have b: "s = build_statement X (st_body s) \<longleftrightarrow>
      sha256_hex X (to_canonical_bytes X (statement_json (st_body s))) = st_hash s"
    by (cases s) (auto simp: build_statement_def)
  show ?case by (auto simp: Cons.IH All_less_Suc2 b)
qed

lemma verify_chain_ok:
  "verify_chain X ss = ChainOk \<longleftrightarrow>
     linked (\<lambda>s. sb_prev_statement_hash (st_body s)) st_hash GENESIS_STATEMENT ss \<and>
     (\<forall>j < length ss. ss ! j = build_statement X (st_body (ss ! j)) \<and> sb_period (st_body (ss ! j)) = j)"
  by (simp add: verify_chain_def verify_chain_loop_ok)

text \<open>The reported position is the first bad link.\<close>

lemma verify_chain_loop_failed:
  "verify_chain_loop X i p ss = ChainFailed at r \<Longrightarrow>
     i \<le> at \<and> at - i < length ss \<and> verify_chain_loop X i p (take (at - i) ss) = ChainOk \<and>
     verify_chain_loop X i p (take (Suc (at - i)) ss) \<noteq> ChainOk"
proof (induction ss arbitrary: i p)
  case Nil
  then show ?case by simp
next
  case (Cons s ss)
  show ?case
  proof (cases "at = i")
    case True
    then show ?thesis
      using Cons.prems Cons.IH [of "Suc i" "st_hash s"] by (auto split: if_splits)
  next
    case False
    then have r: "verify_chain_loop X (Suc i) (st_hash s) ss = ChainFailed at r"
      using Cons.prems by (auto split: if_splits)
    from Cons.IH [OF this] obtain k where k: "at - i = Suc k" "at - Suc i = k" "Suc i \<le> at"
      by (metis Suc_diff_Suc Suc_le_lessD)
    then show ?thesis using Cons.IH [OF r] Cons.prems r by (auto split: if_splits)
  qed
qed

lemma verify_chain_snoc:
  assumes "verify_chain X ss = ChainOk"
    and "sb_prev_statement_hash b = head_of st_hash GENESIS_STATEMENT ss" "sb_period b = length ss"
  shows "verify_chain X (ss @ [build_statement X b]) = ChainOk"
  using assms by (auto simp: verify_chain_ok linked_snoc nth_append build_statement_def less_Suc_eq)

interpretation statement_chain:
  hash_chain "\<lambda>s. sb_prev_statement_hash (st_body s)" st_hash id GENESIS_STATEMENT "\<lambda>ss. verify_chain X ss = ChainOk"
    for X
  by unfold_locales (simp_all add: verify_chain_ok)

lemma jwf_statement_json: "jwf (statement_json b)"
  by (simp add: statement_json_def statement_fields_def)

lemma distinct_statement_fields: "distinct (map fst (statement_fields b))"
  using jwf_statement_json [of b] by (simp add: statement_json_def)

lemma statement_json_inject:
  assumes "jnorm (statement_json a) = jnorm (statement_json b)"
  shows "a = b"
proof -
  have f: "map_option jnorm (map_of (statement_fields a) k) = map_option jnorm (map_of (statement_fields b) k)" for k
    using jnorm_field [OF _ distinct_statement_fields distinct_statement_fields] assms
    unfolding statement_json_def by blast
  show ?thesis
  proof (rule StatementBody.equality)
    show "sb_period a = sb_period b"
      using f [of "''period''"] by (simp add: statement_fields_def)
    show "sb_period_start_day a = sb_period_start_day b"
      using f [of "''period_start_day''"] by (simp add: statement_fields_def)
    show "sb_period_end_day a = sb_period_end_day b"
      using f [of "''period_end_day''"] by (simp add: statement_fields_def)
    show "sb_opening_root a = sb_opening_root b"
      using f [of "''opening_root''"] by (simp add: statement_fields_def)
    show "sb_closing_root a = sb_closing_root b"
      using f [of "''closing_root''"] by (simp add: statement_fields_def)
    show "sb_byte_days a = sb_byte_days b"
      using f [of "''byte_days''"] by (simp add: statement_fields_def)
    show "sb_rent_cents a = sb_rent_cents b"
      using f [of "''rent_cents''"] by (simp add: statement_fields_def)
    show "sb_postage_bytes a = sb_postage_bytes b"
      using f [of "''postage_bytes''"] by (simp add: statement_fields_def)
    show "sb_postage_cents a = sb_postage_cents b"
      using f [of "''postage_cents''"] by (simp add: statement_fields_def)
    show "sb_audit_count a = sb_audit_count b"
      using f [of "''audit_count''"] by (simp add: statement_fields_def)
    show "sb_audit_bytes a = sb_audit_bytes b"
      using f [of "''audit_bytes''"] by (simp add: statement_fields_def)
    show "sb_audit_cents a = sb_audit_cents b"
      using f [of "''audit_cents''"] by (simp add: statement_fields_def)
    show "sb_audit_tier a = sb_audit_tier b"
      using f [of "''audit_tier''"] by (simp add: statement_fields_def)
    show "sb_grace_cents a = sb_grace_cents b"
      using f [of "''grace_cents''"] by (simp add: statement_fields_def)
    show "sb_fees_cents a = sb_fees_cents b"
      using f [of "''fees_cents''"] by (simp add: statement_fields_def)
    show "sb_total_cents a = sb_total_cents b"
      using f [of "''total_cents''"] by (simp add: statement_fields_def)
    show "sb_prev_statement_hash a = sb_prev_statement_hash b"
      using f [of "''prev_statement_hash''"] by (simp add: statement_fields_def)
  qed simp
qed

lemma statement_commits:
  assumes "text_law X" "verify_chain X xs = ChainOk" "verify_chain X ys = ChainOk"
    and inj: "inj_on (sha256_hex X) ((\<lambda>s. to_canonical_bytes X (statement_json (st_body s))) ` (set xs \<union> set ys))"
  shows "commits st_hash id (set xs \<union> set ys)"
  unfolding commits_def id_def
proof (intro ballI impI)
  fix a b assume ab: "a \<in> set xs \<union> set ys" "b \<in> set xs \<union> set ys" and h: "st_hash a = st_hash b"
  have bs: "s = build_statement X (st_body s)" if "s \<in> set xs \<union> set ys" for s
    using that assms(2,3) unfolding verify_chain_ok by (auto simp: in_set_conv_nth)
  have hs: "st_hash s = sha256_hex X (to_canonical_bytes X (statement_json (st_body s)))"
    if "s \<in> set xs \<union> set ys" for s
    using arg_cong [OF bs [OF that], of st_hash] by (simp add: build_statement_def)
  have "to_canonical_bytes X (statement_json (st_body a)) = to_canonical_bytes X (statement_json (st_body b))"
    by (rule inj_onD [OF inj]) (use h ab hs in auto)
  then have "st_body a = st_body b"
    using to_canonical_bytes_inject [OF assms(1) jwf_statement_json jwf_statement_json] statement_json_inject
    by blast
  then show "a = b" using bs ab by metis
qed

section \<open>The purge\<close>

lemma purge_spec:
  "purge_receipts_settled_through rs day = (kept, n) \<Longrightarrow>
     length rs = length kept + n \<and> set kept = {r \<in> set rs. day \<le> rc_day (r_core r)} \<and>
     purge_receipts_settled_through kept day = (kept, 0)"
  by (auto simp: purge_receipts_settled_through_def Let_def length_filter_le)

end
