(* ===== verification/Compute.thy ===== *)
theory Compute
  imports Ciss_Prelude "HOL-Library.AList"
begin

text \<open>
  \<^verbatim>\<open>src/src/compute.rs\<close>: the bounded per-caller ledger of dispatch times. A \<^verbatim>\<open>HashMap\<close> is an
  association list with distinct keys; its iteration order does not matter, because the ticks that
  decide an eviction are distinct (part of the invariant).
\<close>

definition ANONYMOUS_CALLER :: string where
  "ANONYMOUS_CALLER = ''anon''"

definition MAX_TRACKED_CALLERS :: usize where
  "MAX_TRACKED_CALLERS = 1024"

record ComputeCell =
  cell_requests :: u64
  cell_micros :: u64

definition cell_default :: ComputeCell where
  "cell_default = \<lparr>cell_requests = 0, cell_micros = 0\<rparr>"

record ComputeRow =
  row_caller :: string
  row_class :: string
  row_cell :: ComputeCell

record ComputeLedger =
  cl_cells :: "(string \<times> (string \<times> ComputeCell) list) list"
  cl_tick :: u64
  cl_seen :: "(string \<times> u64) list"

definition compute_new :: ComputeLedger where
  "compute_new = \<lparr>cl_cells = [], cl_tick = 0, cl_seen = []\<rparr>"

text \<open>\<open>iter().min_by_key(|(_, tick)| tick)\<close>: the first entry with the least tick.\<close>

fun min_by_tick :: "(string \<times> u64) list \<Rightarrow> (string \<times> u64) option" where
  "min_by_tick [] = None"
| "min_by_tick (p # ps) =
     (case min_by_tick ps of
        None \<Rightarrow> Some p
      | Some q \<Rightarrow> if snd q < snd p then Some q else Some p)"

definition evict_for :: "ComputeLedger \<Rightarrow> string \<Rightarrow> ComputeLedger" where
  "evict_for l caller =
     (if map_of (cl_cells l) caller = None \<and> length (cl_cells l) \<ge> MAX_TRACKED_CALLERS
      then (case min_by_tick (cl_seen l) of
              Some (evict, _) \<Rightarrow>
                l\<lparr>cl_cells := AList.delete evict (cl_cells l), cl_seen := AList.delete evict (cl_seen l)\<rparr>
            | None \<Rightarrow> l)
      else l)"

definition bump :: "ComputeCell \<Rightarrow> u64 \<Rightarrow> ComputeCell" where
  "bump c micros =
     \<lparr>cell_requests = saturating_add (cell_requests c) 1, cell_micros = saturating_add (cell_micros c) micros\<rparr>"

definition get_cell :: "ComputeLedger \<Rightarrow> string \<Rightarrow> string \<Rightarrow> ComputeCell" where
  "get_cell l caller class =
     (case map_of (cl_cells l) caller of
        None \<Rightarrow> cell_default
      | Some m \<Rightarrow> (case map_of m class of None \<Rightarrow> cell_default | Some c \<Rightarrow> c))"

definition compute_record :: "ComputeLedger \<Rightarrow> string \<Rightarrow> string \<Rightarrow> u64 \<Rightarrow> (ComputeLedger, unit) result" where
  "compute_record l0 caller class micros =
     (let l = evict_for l0 caller in
      case u64_add (cl_tick l) 1 of
        None \<Rightarrow> Panic
      | Some tick \<Rightarrow>
          let classes = (case map_of (cl_cells l) caller of None \<Rightarrow> [] | Some m \<Rightarrow> m)
          in Ok \<lparr>cl_cells = AList.update caller
                     (AList.update class (bump (get_cell l caller class) micros) classes) (cl_cells l),
                 cl_tick = tick,
                 cl_seen = AList.update caller tick (cl_seen l)\<rparr>)"

definition row_le :: "ComputeRow \<Rightarrow> string \<times> string" where
  "row_le r = (row_caller r, row_class r)"

definition snapshot :: "ComputeLedger \<Rightarrow> ComputeRow list" where
  "snapshot l =
     (let rows = concat (map (\<lambda>(caller, classes).
            map (\<lambda>(class, cell). \<lparr>row_caller = caller, row_class = class, row_cell = cell\<rparr>) classes) (cl_cells l))
      in sort_key row_caller (sort_key row_class rows))"

definition tracked_callers :: "ComputeLedger \<Rightarrow> usize" where
  "tracked_callers l = length (cl_cells l)"

section \<open>The invariant\<close>

definition compute_inv :: "ComputeLedger \<Rightarrow> bool" where
  "compute_inv l \<longleftrightarrow>
     distinct (map fst (cl_cells l)) \<and> distinct (map fst (cl_seen l)) \<and>
     fst ` set (cl_cells l) = fst ` set (cl_seen l) \<and>
     distinct (map snd (cl_seen l)) \<and> (\<forall>t \<in> snd ` set (cl_seen l). t \<le> cl_tick l) \<and>
     length (cl_cells l) \<le> MAX_TRACKED_CALLERS"

lemma compute_inv_new: "compute_inv compute_new"
  by (simp add: compute_inv_def compute_new_def)

lemma min_by_tick_None: "min_by_tick ps = None \<longleftrightarrow> ps = []"
  by (cases ps) (auto split: option.splits)

lemma min_by_tick_least:
  "min_by_tick ps = Some q \<Longrightarrow> q \<in> set ps \<and> (\<forall>p \<in> set ps. snd q \<le> snd p)"
  by (induction ps arbitrary: q) (force split: option.splits if_splits simp: min_by_tick_None)+

lemma delete_in_length:
  "distinct (map fst al) \<Longrightarrow> k \<in> fst ` set al \<Longrightarrow> length (AList.delete k al) = length al - 1"
proof (induction al)
  case (Cons p al)
  show ?case
  proof (cases "fst p = k")
    case True
    then have "k \<notin> fst ` set al" using Cons.prems(1) by auto
    then show ?thesis using True by (cases p) (simp add: delete_id)
  next
    case False
    then have "k \<in> fst ` set al" using Cons.prems(2) by auto
    then have "length al \<noteq> 0" by auto
    then show ?thesis using Cons False \<open>k \<in> fst ` set al\<close> by (cases p) simp
  qed
qed simp

lemma snd_delete_distinct: "distinct (map snd al) \<Longrightarrow> distinct (map snd (AList.delete k al))"
  by (induction al) (auto simp: AList.delete_eq image_iff)

lemma delete_keys_set: "fst ` set (AList.delete k al) = fst ` set al - {k}"
  by (induction al) auto

lemma delete_subset: "set (AList.delete k al) \<subseteq> set al"
  by (induction al) auto

lemma update_length:
  "length (AList.update k v al) = (if k \<in> fst ` set al then length al else Suc (length al))"
  by (induction al) auto

lemma evict_for_inv:
  assumes "compute_inv l"
  shows "compute_inv (evict_for l caller)" "cl_tick (evict_for l caller) = cl_tick l"
    "caller \<in> fst ` set (cl_cells (evict_for l caller)) \<or> length (cl_cells (evict_for l caller)) < MAX_TRACKED_CALLERS"
proof -
  have "compute_inv (evict_for l caller) \<and> cl_tick (evict_for l caller) = cl_tick l \<and>
    (caller \<in> fst ` set (cl_cells (evict_for l caller)) \<or> length (cl_cells (evict_for l caller)) < MAX_TRACKED_CALLERS)"
  proof (cases "map_of (cl_cells l) caller = None \<and> length (cl_cells l) \<ge> MAX_TRACKED_CALLERS")
    case True
    then have "cl_cells l \<noteq> []" by (auto simp: MAX_TRACKED_CALLERS_def)
    then have "cl_seen l \<noteq> []" using assms by (auto simp: compute_inv_def)
    then obtain e t where et: "min_by_tick (cl_seen l) = Some (e, t)"
      using min_by_tick_None by (metis not_None_eq prod.exhaust)
    have "e \<in> fst ` set (cl_cells l)"
      using min_by_tick_least [OF et] assms by (force simp: compute_inv_def)
    then have "length (AList.delete e (cl_cells l)) < MAX_TRACKED_CALLERS"
      using True assms delete_in_length [of "cl_cells l" e]
      by (auto simp: compute_inv_def MAX_TRACKED_CALLERS_def)
    moreover have "\<forall>t \<in> snd ` set (AList.delete e (cl_seen l)). t \<le> cl_tick l"
      using assms delete_subset [of e "cl_seen l"] unfolding compute_inv_def by fast
    moreover have "evict_for l caller =
        l\<lparr>cl_cells := AList.delete e (cl_cells l), cl_seen := AList.delete e (cl_seen l)\<rparr>"
      using True et by (simp add: evict_for_def)
    ultimately show ?thesis
      using assms by (simp add: compute_inv_def distinct_delete snd_delete_distinct delete_keys_set)
  next
    case False
    have "map_of (cl_cells l) caller = None \<longleftrightarrow> caller \<notin> fst ` set (cl_cells l)"
      by (rule map_of_eq_None_iff)
    then show ?thesis using False assms by (auto simp: evict_for_def)
  qed
  then show "compute_inv (evict_for l caller)" "cl_tick (evict_for l caller) = cl_tick l"
    "caller \<in> fst ` set (cl_cells (evict_for l caller)) \<or> length (cl_cells (evict_for l caller)) < MAX_TRACKED_CALLERS"
    by blast+
qed

lemma update_snd_distinct:
  assumes "distinct (map snd al)" "v \<notin> snd ` set al"
  shows "distinct (map snd (AList.update k v al)) \<and> snd ` set (AList.update k v al) \<subseteq> insert v (snd ` set al)"
  using assms by (induction al) auto

lemma compute_record_inv:
  assumes "compute_inv l" "compute_record l caller class micros = Ok l'"
  shows "compute_inv l'"
proof -
  let ?e = "evict_for l caller"
  have t: "cl_tick ?e + 1 \<notin> snd ` set (cl_seen ?e)"
    using evict_for_inv(1) [OF assms(1), of caller] by (force simp: compute_inv_def)
  have l': "cl_tick l' = cl_tick ?e + 1" "cl_seen l' = AList.update caller (cl_tick ?e + 1) (cl_seen ?e)"
    "\<exists>m. cl_cells l' = AList.update caller m (cl_cells ?e)"
    using assms(2) by (auto simp: compute_record_def Let_def split: option.splits)
  then obtain m where m: "cl_cells l' = AList.update caller m (cl_cells ?e)" by blast
  have e: "compute_inv ?e" by (rule evict_for_inv(1) [OF assms(1)])
  have keys: "fst ` set (AList.update k v al) = insert k (fst ` set al)" for k :: string and v :: 'x and al
    by (induction al) auto
  have len: "length (cl_cells l') \<le> MAX_TRACKED_CALLERS"
    using evict_for_inv(3) [OF assms(1), of caller] e unfolding m update_length by (auto simp: compute_inv_def)
  note upd = update_snd_distinct [OF _ t, of caller, folded l'(2)]
  have old: "distinct (map snd (cl_seen ?e))" "\<forall>t \<in> snd ` set (cl_seen ?e). t \<le> cl_tick ?e"
    using e unfolding compute_inv_def by blast+
  have ticks: "distinct (map snd (cl_seen l'))" "\<forall>t \<in> snd ` set (cl_seen l'). t \<le> cl_tick l'"
    using upd [OF old(1)] old(2) unfolding l'(1) by (blast, fastforce)
  have "distinct (map fst (cl_cells l'))" "distinct (map fst (cl_seen l'))"
    using e unfolding m l'(2) compute_inv_def by (auto simp: distinct_update)
  moreover have "fst ` set (cl_cells l') = fst ` set (cl_seen l')"
    using e unfolding m l'(2) keys compute_inv_def by simp
  ultimately show ?thesis using len ticks by (simp add: compute_inv_def)
qed

lemma compute_record_cell:
  assumes "compute_record l caller class micros = Ok l'" "map_of (cl_cells l) caller \<noteq> None"
  shows "get_cell l' caller class = bump (get_cell l caller class) micros"
  using assms
  by (auto simp: compute_record_def evict_for_def get_cell_def Let_def update_conv split: option.splits)

lemma compute_record_total:
  assumes "compute_inv l" "cl_tick l < u64_max"
  shows "\<exists>l'. compute_record l caller class micros = Ok l'"
  using evict_for_inv(2) [OF assms(1), of caller] assms(2)
  by (auto simp: compute_record_def Let_def split: option.splits)

end
