(* ===== verification/Store.thy ===== *)
theory Store
  imports Policy Chain Manifest Statements Compute
begin

text \<open>
  \<^verbatim>\<open>src/src/persist.rs\<close>: the SQLite record store. A table is a list of its rows (an association
  list where the primary key is the lookup key), a statement of the code is the list operation it
  stands for, and a transaction that does not commit leaves the store as it was. Integer columns
  are SQLite's 64-bit ones: a bound \<open>u64\<close> above \<open>i64::MAX\<close> is refused, an addition that leaves
  the range makes the column a real that no longer reads back as an integer, and the chain and
  assertion writers clamp instead (\<open>clamp_i64\<close>). A JSON column of the assertion table is the
  record its text parses to, or \<open>None\<close> for a text that does not parse; failures of the disk
  under SQLite are not modelled.
\<close>

section \<open>Tables\<close>

record ReceiptTotals =
  rt_receipt_count :: u64
  rt_upload_bytes :: u64
  rt_download_bytes :: u64
  rt_drawdown_download_bytes :: u64

definition total_bytes :: "ReceiptTotals \<Rightarrow> (u64, 'e) result" where
  "total_bytes t =
     (case u64_add (rt_upload_bytes t) (rt_download_bytes t) of Some n \<Rightarrow> Ok n | None \<Rightarrow> Panic)"

datatype PersistError = PSqlite | PJson | StaleAssertionSeq string u64

record total_row =
  tr_totals :: ReceiptTotals
  tr_stored_bytes :: u64

record assertion_row =
  ar_seq :: i64
  ar_json :: "SignedAssertion option"
  ar_ack :: "Ack option"

record chain_row =
  ch_did :: string
  ch_kind :: string
  ch_subkey :: string
  ch_seq :: i64
  ch_delta :: i64
  ch_total :: i64
  ch_prev_entry_hash :: string
  ch_entry_hash :: string
  ch_is_checkpoint :: bool
  ch_prev_checkpoint :: string
  ch_json :: SignedAssertion
  ch_ack :: Ack

record UsageRow =
  ur_did :: string
  ur_stored_bytes :: u64
  ur_upload_bytes :: u64
  ur_download_bytes :: u64
  ur_transferred_bytes :: u64
  ur_receipt_count :: u64

record ComputeUsageRow =
  cu_caller :: string
  cu_class :: string
  cu_requests :: i64
  cu_micros :: i64

type_synonym assertion_key = "string \<times> string \<times> string"

record Store =
  s_meta :: "(string \<times> string) list"
  s_manifest :: "(string \<times> Manifest) list"
  s_receipt :: "(string \<times> Receipt) list"
  s_statement :: "(string \<times> Statement) list"
  s_did_total :: "(string \<times> total_row) list"
  s_assertion :: "(assertion_key \<times> assertion_row) list"
  s_chain_entry :: "chain_row list"
  s_compute_usage :: "ComputeUsageRow list"

definition open_in_memory :: Store where
  "open_in_memory = \<lparr>s_meta = [], s_manifest = [], s_receipt = [], s_statement = [], s_did_total = [],
     s_assertion = [], s_chain_entry = [], s_compute_usage = []\<rparr>"

text \<open>A \<open>u64\<close> parameter, and an integer column read as \<open>u64\<close>.\<close>

definition sql_int :: "nat \<Rightarrow> (nat, PersistError) result" where
  "sql_int n = (if n \<le> i64_max then Ok n else Err PSqlite)"

section \<open>Meta, manifests, statements\<close>

definition put_meta :: "Store \<Rightarrow> string \<Rightarrow> string \<Rightarrow> Store" where
  "put_meta st key v = st\<lparr>s_meta := AList.update key v (s_meta st)\<rparr>"

definition get_meta :: "Store \<Rightarrow> string \<Rightarrow> string option" where
  "get_meta st key = map_of (s_meta st) key"

definition save_manifest :: "Store \<Rightarrow> string \<Rightarrow> Manifest \<Rightarrow> Store" where
  "save_manifest st did manifest = st\<lparr>s_manifest := AList.update did manifest (s_manifest st)\<rparr>"

definition load_manifest :: "Store \<Rightarrow> string \<Rightarrow> Manifest option" where
  "load_manifest st did = map_of (s_manifest st) did"

definition append_statement :: "Store \<Rightarrow> string \<Rightarrow> Statement \<Rightarrow> Store" where
  "append_statement st did statement = st\<lparr>s_statement := s_statement st @ [(did, statement)]\<rparr>"

definition load_statements :: "Store \<Rightarrow> string \<Rightarrow> Statement list" where
  "load_statements st did = map snd (filter (\<lambda>(d, _). d = did) (s_statement st))"

section \<open>Assertions\<close>

definition akey :: "string \<Rightarrow> string \<Rightarrow> string option \<Rightarrow> assertion_key" where
  "akey did kind subkey = (did, kind, unwrap_or_empty subkey)"

text \<open>\<open>INSERT \<dots> ON CONFLICT DO UPDATE \<dots> WHERE excluded.seq > assertion.seq\<close>, with the number of
  rows it changed.\<close>

definition upsert_assertion :: "Store \<Rightarrow> SignedAssertion \<Rightarrow> Ack \<Rightarrow> Store \<times> nat" where
  "upsert_assertion st record ack =
     (let k = akey (sa_did record) (sa_kind record) (sa_subkey record);
          row = \<lparr>ar_seq = clamp_i64 (sa_seq record), ar_json = Some record, ar_ack = Some ack\<rparr>;
          st' = st\<lparr>s_assertion := AList.update k row (s_assertion st)\<rparr>
      in case map_of (s_assertion st) k of
           None \<Rightarrow> (st', 1)
         | Some old \<Rightarrow> if ar_seq old < ar_seq row then (st', 1) else (st, 0))"

definition stale_target :: "SignedAssertion \<Rightarrow> string" where
  "stale_target record =
     (case sa_subkey record of
        None \<Rightarrow> sa_did record @ ''/'' @ sa_kind record
      | Some sk \<Rightarrow> sa_did record @ ''/'' @ sa_kind record @ ''/'' @ sk)"

definition save_assertion :: "Store \<Rightarrow> SignedAssertion \<Rightarrow> Ack \<Rightarrow> Store \<times> (unit, PersistError) result" where
  "save_assertion st record ack =
     (let (st', applied) = upsert_assertion st record ack
      in if applied = 0 then (st', Err (StaleAssertionSeq (stale_target record) (sa_seq record)))
         else (st', Ok ()))"

definition assertion_seq :: "Store \<Rightarrow> string \<Rightarrow> string \<Rightarrow> string option \<Rightarrow> u64 option" where
  "assertion_seq st did kind subkey =
     map_option (\<lambda>row. u64_or_zero (ar_seq row)) (map_of (s_assertion st) (akey did kind subkey))"

definition delete_assertion :: "Store \<Rightarrow> string \<Rightarrow> string \<Rightarrow> string option \<Rightarrow> Store \<times> bool" where
  "delete_assertion st did kind subkey =
     (let k = akey did kind subkey
      in (st\<lparr>s_assertion := AList.delete k (s_assertion st)\<rparr>, map_of (s_assertion st) k \<noteq> None))"

definition list_assertion_subkeys :: "Store \<Rightarrow> string \<Rightarrow> string \<Rightarrow> string list" where
  "list_assertion_subkeys st did kind =
     sort (map (\<lambda>((_, _, sk), _). sk) (filter (\<lambda>((d, k, _), _). d = did \<and> k = kind) (s_assertion st)))"

definition load_assertion ::
  "Store \<Rightarrow> string \<Rightarrow> string \<Rightarrow> string option \<Rightarrow> ((SignedAssertion \<times> Ack) option, PersistError) result" where
  "load_assertion st did kind subkey =
     (case map_of (s_assertion st) (akey did kind subkey) of
        None \<Rightarrow> Ok None
      | Some row \<Rightarrow>
          (case (ar_json row, ar_ack row) of
             (Some r, Some a) \<Rightarrow> Ok (Some (r, a))
           | _ \<Rightarrow> Err PJson))"

section \<open>Policies and dials\<close>

definition resolved_from_json :: "SignedAssertion option \<Rightarrow> ResolvedPolicy" where
  "resolved_from_json json =
     (case Option.bind json (\<lambda>a. de_policy_body (sa_body a)) of
        Some body \<Rightarrow> from_body body
      | None \<Rightarrow> deny_policy)"

definition assertion_json_row :: "Store \<Rightarrow> string \<Rightarrow> string \<Rightarrow> string option \<Rightarrow> SignedAssertion option option" where
  "assertion_json_row st did kind subkey =
     map_option ar_json (map_of (s_assertion st) (akey did kind subkey))"

definition resolve_object_policy :: "Store \<Rightarrow> string \<Rightarrow> string \<Rightarrow> ResolvedPolicy option" where
  "resolve_object_policy st did cid =
     map_option resolved_from_json (assertion_json_row st did POLICY_KIND (Some cid))"

definition resolve_policy :: "Store \<Rightarrow> string \<Rightarrow> string option \<Rightarrow> ResolvedPolicy" where
  "resolve_policy st did cid =
     (case (case cid of Some c \<Rightarrow> assertion_json_row st did POLICY_KIND (Some c) | None \<Rightarrow> None) of
        Some json \<Rightarrow> resolved_from_json json
      | None \<Rightarrow>
          (case assertion_json_row st did POLICY_KIND None of
             Some json \<Rightarrow> resolved_from_json json
           | None \<Rightarrow> world_policy))"

definition has_object_policies :: "Store \<Rightarrow> string \<Rightarrow> bool" where
  "has_object_policies st did =
     list_ex (\<lambda>((d, k, sk), _). d = did \<and> k = POLICY_KIND \<and> sk \<noteq> []) (s_assertion st)"

definition ceiling_dial :: "Store \<Rightarrow> string \<Rightarrow> CeilingDialBody option option" where
  "ceiling_dial st did =
     map_option (\<lambda>json. Option.bind json (\<lambda>a. de_ceiling (sa_body a)))
       (assertion_json_row st did CEILING_DIAL_KIND None)"

definition at_rest_dial :: "Store \<Rightarrow> string \<Rightarrow> u64 option" where
  "at_rest_dial st did =
     (case ceiling_dial st did of
        None \<Rightarrow> None
      | Some (Some body) \<Rightarrow> cd_at_rest_bytes body
      | Some None \<Rightarrow> Some 0)"

definition spend_dial :: "Store \<Rightarrow> string \<Rightarrow> u64 option" where
  "spend_dial st did =
     (case ceiling_dial st did of
        None \<Rightarrow> None
      | Some (Some body) \<Rightarrow> cd_spend_cents body
      | Some None \<Rightarrow> Some 0)"

definition account_mode :: "Store \<Rightarrow> string \<Rightarrow> AccountMode" where
  "account_mode st did =
     (case assertion_json_row st did ACCOUNT_MODE_DIAL_KIND None of
        None \<Rightarrow> Active
      | Some json \<Rightarrow>
          (case Option.bind json (\<lambda>a. de_account_mode_body (sa_body a)) of
             Some body \<Rightarrow> am_mode body
           | None \<Rightarrow> Drawdown))"

definition receipt_mode_dial :: "Store \<Rightarrow> string \<Rightarrow> ReceiptModeChoice" where
  "receipt_mode_dial st did =
     (case assertion_json_row st did RECEIPT_MODE_DIAL_KIND None of
        None \<Rightarrow> UnilateralChoice
      | Some json \<Rightarrow>
          (case Option.bind json (\<lambda>a. de_receipt_mode_body (sa_body a)) of
             Some body \<Rightarrow> rm_mode body
           | None \<Rightarrow> BilateralChoice))"

definition baseline_key :: "string \<Rightarrow> string" where
  "baseline_key did = ''period_baseline:'' @ did"

definition period_baseline :: "Store \<Rightarrow> string \<Rightarrow> (u64, PersistError) result" where
  "period_baseline st did =
     (case get_meta st (baseline_key did) of
        Some v \<Rightarrow> (case parse_u64 v of Some n \<Rightarrow> Ok n | None \<Rightarrow> Err PJson)
      | None \<Rightarrow> Ok 0)"

section \<open>Receipts and totals\<close>

definition load_receipts :: "Store \<Rightarrow> string \<Rightarrow> Receipt list" where
  "load_receipts st did = map snd (filter (\<lambda>(d, _). d = did) (s_receipt st))"

definition receipt_up :: "Receipt \<Rightarrow> u64" where
  "receipt_up r = (case rc_direction (r_core r) of Upload \<Rightarrow> rc_bytes (r_core r) | Download \<Rightarrow> 0)"

definition receipt_down :: "Receipt \<Rightarrow> u64" where
  "receipt_down r = (case rc_direction (r_core r) of Upload \<Rightarrow> 0 | Download \<Rightarrow> rc_bytes (r_core r))"

definition receipt_drain :: "Receipt \<Rightarrow> u64" where
  "receipt_drain r =
     (if rc_direction (r_core r) = Download \<and> rc_account_mode (r_core r) = Drawdown
      then rc_bytes (r_core r) else 0)"

definition add_receipt_totals :: "ReceiptTotals \<Rightarrow> Receipt \<Rightarrow> ReceiptTotals" where
  "add_receipt_totals t r =
     \<lparr>rt_receipt_count = rt_receipt_count t + 1, rt_upload_bytes = rt_upload_bytes t + receipt_up r,
      rt_download_bytes = rt_download_bytes t + receipt_down r,
      rt_drawdown_download_bytes = rt_drawdown_download_bytes t + receipt_drain r\<rparr>"

definition zero_totals :: ReceiptTotals where
  "zero_totals = \<lparr>rt_receipt_count = 0, rt_upload_bytes = 0, rt_download_bytes = 0,
     rt_drawdown_download_bytes = 0\<rparr>"

definition totals_le :: "ReceiptTotals \<Rightarrow> nat \<Rightarrow> bool" where
  "totals_le t n \<longleftrightarrow> rt_receipt_count t \<le> n \<and> rt_upload_bytes t \<le> n \<and> rt_download_bytes t \<le> n \<and>
     rt_drawdown_download_bytes t \<le> n"

text \<open>The scan of the ledger: a panic when a sum leaves \<open>u64\<close>.\<close>

definition ledger_totals :: "Receipt list \<Rightarrow> ReceiptTotals" where
  "ledger_totals rs = foldl add_receipt_totals zero_totals rs"

definition sum_receipts :: "Store \<Rightarrow> string \<Rightarrow> (ReceiptTotals, PersistError) result" where
  "sum_receipts st did =
     (let t = ledger_totals (load_receipts st did) in if totals_le t u64_max then Ok t else Panic)"

definition ensure_total_row :: "Store \<Rightarrow> string \<Rightarrow> (Store, PersistError) result" where
  "ensure_total_row st did =
     (case map_of (s_did_total st) did of
        Some _ \<Rightarrow> Ok st
      | None \<Rightarrow>
          (case sum_receipts st did of
             Ok t \<Rightarrow>
               if totals_le t i64_max
               then Ok (st\<lparr>s_did_total := AList.update did \<lparr>tr_totals = t, tr_stored_bytes = 0\<rparr> (s_did_total st)\<rparr>)
               else Err PSqlite
           | Err e \<Rightarrow> Err e
           | Panic \<Rightarrow> Panic))"

definition update_total_row :: "string \<Rightarrow> (total_row \<Rightarrow> total_row) \<Rightarrow> Store \<Rightarrow> Store" where
  "update_total_row did f st =
     st\<lparr>s_did_total := map (\<lambda>(d, row). (d, if d = did then f row else row)) (s_did_total st)\<rparr>"

definition append_receipt :: "Store \<Rightarrow> string \<Rightarrow> Receipt \<Rightarrow> Store \<times> (unit, PersistError) result" where
  "append_receipt st did receipt =
     (case ensure_total_row st did of
        Ok st1 \<Rightarrow>
          if rc_bytes (r_core receipt) > i64_max then (st, Err PSqlite)
          else let st2 = st1\<lparr>s_receipt := s_receipt st1 @ [(did, receipt)]\<rparr>;
                   st3 = update_total_row did (\<lambda>row. row\<lparr>tr_totals := add_receipt_totals (tr_totals row) receipt\<rparr>) st2
               in (st3, Ok ())
      | Err e \<Rightarrow> (st, Err e)
      | Panic \<Rightarrow> (st, Panic))"

definition running_totals :: "Store \<Rightarrow> string \<Rightarrow> (ReceiptTotals, PersistError) result" where
  "running_totals st did =
     (case map_of (s_did_total st) did of
        Some row \<Rightarrow> if totals_le (tr_totals row) i64_max then Ok (tr_totals row) else Err PSqlite
      | None \<Rightarrow> sum_receipts st did)"

definition store_usage :: "Store \<Rightarrow> (u64, PersistError) result" where
  "store_usage st = sql_int (sum_list (map (\<lambda>(_, row). tr_stored_bytes row) (s_did_total st)))"

definition did_stored_bytes :: "Store \<Rightarrow> string \<Rightarrow> (u64, PersistError) result" where
  "did_stored_bytes st did =
     (case map_of (s_did_total st) did of Some row \<Rightarrow> sql_int (tr_stored_bytes row) | None \<Rightarrow> Ok 0)"

definition add_stored_bytes :: "Store \<Rightarrow> string \<Rightarrow> u64 \<Rightarrow> Store \<times> (unit, PersistError) result" where
  "add_stored_bytes st did sz =
     (case ensure_total_row st did of
        Ok st1 \<Rightarrow>
          if sz > i64_max then (st, Err PSqlite)
          else (update_total_row did (\<lambda>row. row\<lparr>tr_stored_bytes := tr_stored_bytes row + sz\<rparr>) st1, Ok ())
      | Err e \<Rightarrow> (st, Err e)
      | Panic \<Rightarrow> (st, Panic))"

definition usage_row :: "string \<times> total_row \<Rightarrow> UsageRow" where
  "usage_row p =
     (case p of (did, row) \<Rightarrow>
        \<lparr>ur_did = did, ur_stored_bytes = tr_stored_bytes row,
         ur_upload_bytes = rt_upload_bytes (tr_totals row),
         ur_download_bytes = rt_download_bytes (tr_totals row),
         ur_transferred_bytes = rt_upload_bytes (tr_totals row) + rt_download_bytes (tr_totals row),
         ur_receipt_count = rt_receipt_count (tr_totals row)\<rparr>)"

text \<open>\<open>ORDER BY stored_bytes DESC, did\<close>.\<close>

definition usage_all :: "Store \<Rightarrow> UsageRow list" where
  "usage_all st =
     sort_key (\<lambda>r. - int (ur_stored_bytes r)) (sort_key ur_did (map usage_row (s_did_total st)))"

definition usage_for :: "Store \<Rightarrow> string \<Rightarrow> UsageRow option" where
  "usage_for st did = map_option (\<lambda>row. usage_row (did, row)) (map_of (s_did_total st) did)"

text \<open>SQLite's \<open>LIKE\<close>: \<open>%\<close> for any run, \<open>_\<close> for one byte, ASCII letters without case.\<close>

definition ascii_lower :: "char \<Rightarrow> char" where
  "ascii_lower c = (let n = of_char c :: nat in if 65 \<le> n \<and> n \<le> 90 then char_of (n + 32) else c)"

fun sql_like :: "string \<Rightarrow> string \<Rightarrow> bool" where
  "sql_like [] s = (s = [])"
| "sql_like (p # ps) [] = (p = CHR ''%'' \<and> sql_like ps [])"
| "sql_like (p # ps) (c # cs) =
     (if p = CHR ''%'' then sql_like ps (c # cs) \<or> sql_like (p # ps) cs
      else (p = CHR ''_'' \<or> ascii_lower p = ascii_lower c) \<and> sql_like ps cs)"

definition receipt_json :: "Receipt \<Rightarrow> json" where
  "receipt_json r =
     JObj [(''core'', core_json (r_core r)), (''content_hash'', JStr (r_content_hash r)),
           (''mode'', JStr (case r_mode r of Unilateral \<Rightarrow> ''unilateral'' | Bilateral \<Rightarrow> ''bilateral'')),
           (''sigs'', JObj (map (\<lambda>(i, s). (i, JStr s)) (r_sigs r)))]"

text \<open>The position of the newest matching row, and the update of that row.\<close>

fun find_last_idx :: "('a \<Rightarrow> bool) \<Rightarrow> 'a list \<Rightarrow> nat option" where
  "find_last_idx P [] = None"
| "find_last_idx P (x # xs) =
     (case find_last_idx P xs of Some i \<Rightarrow> Some (Suc i) | None \<Rightarrow> if P x then Some 0 else None)"

definition countersign_receipt ::
  "ext \<Rightarrow> Store \<Rightarrow> string \<Rightarrow> string \<Rightarrow> string \<Rightarrow> string \<Rightarrow> Store \<times> Receipt option" where
  "countersign_receipt X st did h signer sg =
     (case find_last_idx (\<lambda>(d, r). d = did \<and>
              sql_like (''%'' @ h @ ''%'') (render (scalar_text X) (receipt_json r))) (s_receipt st) of
        None \<Rightarrow> (st, None)
      | Some i \<Rightarrow>
          let (d, r) = s_receipt st ! i in
          if r_content_hash r \<noteq> h then (st, None)
          else let completed = r\<lparr>r_sigs := bt_insert signer sg (r_sigs r)\<rparr>
               in (st\<lparr>s_receipt := (s_receipt st)[i := (d, completed)]\<rparr>, Some completed))"

section \<open>Chains\<close>

definition chain_rows :: "Store \<Rightarrow> string \<Rightarrow> string \<Rightarrow> string option \<Rightarrow> chain_row list" where
  "chain_rows st did kind subkey =
     sort_key ch_seq (filter (\<lambda>c. (ch_did c, ch_kind c, ch_subkey c) = akey did kind subkey) (s_chain_entry st))"

definition latest_chain_entry :: "Store \<Rightarrow> string \<Rightarrow> string \<Rightarrow> string option \<Rightarrow> PrevEntry option" where
  "latest_chain_entry st did kind subkey =
     (let rows = chain_rows st did kind subkey in
      if rows = [] then None
      else Some \<lparr>pe_seq = u64_or_zero (ch_seq (last rows)), pe_total = u64_or_zero (ch_total (last rows)),
                 pe_entry_hash = ch_entry_hash (last rows)\<rparr>)"

definition row_entry :: "string \<Rightarrow> string \<Rightarrow> string option \<Rightarrow> chain_row \<Rightarrow> ChainEntry" where
  "row_entry did kind subkey c =
     \<lparr>ce_did = did, ce_kind = kind, ce_subkey = subkey, ce_seq = u64_or_zero (ch_seq c),
      ce_step =
        (if ch_is_checkpoint c
         then Checkpoint \<lparr>cp_closing_total = u64_or_zero (ch_total c), cp_chain_head_hash = ch_prev_entry_hash c,
                cp_prev_checkpoint = ch_prev_checkpoint c\<rparr>
         else Step \<lparr>cc_delta = ch_delta c, cc_total = u64_or_zero (ch_total c),
                cc_prev_entry_hash = ch_prev_entry_hash c\<rparr>)\<rparr>"

definition chain_entries ::
  "Store \<Rightarrow> string \<Rightarrow> string \<Rightarrow> string option \<Rightarrow> (ChainEntry \<times> SignedAssertion) list" where
  "chain_entries st did kind subkey =
     map (\<lambda>c. (row_entry did kind subkey c, ch_json c)) (chain_rows st did kind subkey)"

definition latest_checkpoint :: "Store \<Rightarrow> string \<Rightarrow> string \<Rightarrow> string option \<Rightarrow> chain_row option" where
  "latest_checkpoint st did kind subkey =
     (let cps = filter ch_is_checkpoint (chain_rows st did kind subkey) in
      if cps = [] then None else Some (last cps))"

definition latest_checkpoint_hash :: "Store \<Rightarrow> string \<Rightarrow> string \<Rightarrow> string option \<Rightarrow> string option" where
  "latest_checkpoint_hash st did kind subkey =
     map_option ch_entry_hash (latest_checkpoint st did kind subkey)"

text \<open>An insert refused by the primary key \<open>(did, kind, subkey, seq)\<close> is a failed transaction.\<close>

definition insert_chain_row :: "Store \<Rightarrow> chain_row \<Rightarrow> (Store, PersistError) result" where
  "insert_chain_row st row =
     (if list_ex (\<lambda>c. (ch_did c, ch_kind c, ch_subkey c, ch_seq c) =
            (ch_did row, ch_kind row, ch_subkey row, ch_seq row)) (s_chain_entry st)
      then Err PSqlite
      else Ok (st\<lparr>s_chain_entry := s_chain_entry st @ [row]\<rparr>))"

definition append_chain_entry ::
  "Store \<Rightarrow> SignedAssertion \<Rightarrow> Ack \<Rightarrow> ChainCounterBody \<Rightarrow> string \<Rightarrow> Store \<times> (unit, PersistError) result" where
  "append_chain_entry st record ack body h =
     (let row = \<lparr>ch_did = sa_did record, ch_kind = sa_kind record, ch_subkey = unwrap_or_empty (sa_subkey record),
            ch_seq = clamp_i64 (sa_seq record), ch_delta = cc_delta body, ch_total = clamp_i64 (cc_total body),
            ch_prev_entry_hash = cc_prev_entry_hash body, ch_entry_hash = h, ch_is_checkpoint = False,
            ch_prev_checkpoint = [], ch_json = record, ch_ack = ack\<rparr>
      in case insert_chain_row st row of
           Ok st1 \<Rightarrow> (fst (upsert_assertion st1 record ack), Ok ())
         | Err e \<Rightarrow> (st, Err e)
         | Panic \<Rightarrow> (st, Panic))"

definition append_checkpoint_entry ::
  "Store \<Rightarrow> SignedAssertion \<Rightarrow> Ack \<Rightarrow> CheckpointBody \<Rightarrow> string \<Rightarrow> Store \<times> (unit, PersistError) result" where
  "append_checkpoint_entry st record ack body h =
     (let row = \<lparr>ch_did = sa_did record, ch_kind = sa_kind record, ch_subkey = unwrap_or_empty (sa_subkey record),
            ch_seq = clamp_i64 (sa_seq record), ch_delta = 0, ch_total = clamp_i64 (cp_closing_total body),
            ch_prev_entry_hash = cp_chain_head_hash body, ch_entry_hash = h, ch_is_checkpoint = True,
            ch_prev_checkpoint = cp_prev_checkpoint body, ch_json = record, ch_ack = ack\<rparr>
      in case insert_chain_row st row of
           Ok st1 \<Rightarrow> (fst (upsert_assertion st1 record ack), Ok ())
         | Err e \<Rightarrow> (st, Err e)
         | Panic \<Rightarrow> (st, Panic))"

definition compact_behind_latest_checkpoint ::
  "Store \<Rightarrow> string \<Rightarrow> string \<Rightarrow> string option \<Rightarrow> Store \<times> u64 option" where
  "compact_behind_latest_checkpoint st did kind subkey =
     (case latest_checkpoint st did kind subkey of
        None \<Rightarrow> (st, None)
      | Some cp \<Rightarrow>
          (st\<lparr>s_chain_entry := filter (\<lambda>c. \<not> ((ch_did c, ch_kind c, ch_subkey c) = akey did kind subkey \<and>
                ch_seq c < ch_seq cp)) (s_chain_entry st)\<rparr>,
           Some (u64_or_zero (ch_seq cp))))"

section \<open>Compute usage\<close>

definition replace_compute_usage :: "Store \<Rightarrow> ComputeRow list \<Rightarrow> Store" where
  "replace_compute_usage st rows =
     st\<lparr>s_compute_usage := map (\<lambda>r. \<lparr>cu_caller = row_caller r, cu_class = row_class r,
          cu_requests = clamp_i64 (cell_requests (row_cell r)), cu_micros = clamp_i64 (cell_micros (row_cell r))\<rparr>) rows\<rparr>"

definition load_compute_usage :: "Store \<Rightarrow> ComputeUsageRow list" where
  "load_compute_usage st =
     sort_key cu_caller (sort_key cu_class
       (map (\<lambda>r. r\<lparr>cu_requests := max (cu_requests r) 0, cu_micros := max (cu_micros r) 0\<rparr>) (s_compute_usage st)))"

section \<open>The cached totals never drift from the ledger\<close>

definition totals_inv :: "Store \<Rightarrow> bool" where
  "totals_inv st \<longleftrightarrow> distinct (map fst (s_did_total st)) \<and>
     (\<forall>(d, row) \<in> set (s_did_total st). tr_totals row = ledger_totals (load_receipts st d))"

lemma totals_inv_empty: "totals_inv open_in_memory"
  by (simp add: totals_inv_def open_in_memory_def)

lemma ledger_totals_snoc: "ledger_totals (rs @ [r]) = add_receipt_totals (ledger_totals rs) r"
  by (simp add: ledger_totals_def)

lemma ledger_totals_sums:
  "ledger_totals rs = \<lparr>rt_receipt_count = length rs, rt_upload_bytes = sum_list (map receipt_up rs),
     rt_download_bytes = sum_list (map receipt_down rs),
     rt_drawdown_download_bytes = sum_list (map receipt_drain rs)\<rparr>"
proof (induction rs rule: rev_induct)
  case Nil
  then show ?case by (simp add: ledger_totals_def zero_totals_def)
next
  case (snoc r rs)
  then show ?case by (simp add: ledger_totals_snoc add_receipt_totals_def)
qed

lemma drain_le_download: "rt_drawdown_download_bytes (ledger_totals rs) \<le> rt_download_bytes (ledger_totals rs)"
proof -
  have "sum_list (map receipt_drain rs) \<le> sum_list (map receipt_down rs)"
    by (rule sum_list_mono) (simp add: receipt_drain_def receipt_down_def split: Direction.splits)
  then show ?thesis by (simp add: ledger_totals_sums)
qed

lemma load_receipts_snoc:
  "load_receipts (st\<lparr>s_receipt := s_receipt st @ [(did, r)]\<rparr>) d =
     load_receipts st d @ (if d = did then [r] else [])"
  by (simp add: load_receipts_def)

lemma load_receipts_update_total [simp]: "load_receipts (update_total_row did f st) d = load_receipts st d"
  by (simp add: load_receipts_def update_total_row_def)

lemma map_of_update_total:
  "map_of (s_did_total (update_total_row did f st)) d =
     (if d = did then map_option f (map_of (s_did_total st) d) else map_of (s_did_total st) d)"
proof -
  have "map_of (map (\<lambda>(d, row). (d, if d = did then f row else row)) al) d =
     (if d = did then map_option f (map_of al d) else map_of al d)" for al
    by (induction al) auto
  then show ?thesis by (simp add: update_total_row_def)
qed

lemma totals_inv_iff:
  "totals_inv st \<longleftrightarrow> distinct (map fst (s_did_total st)) \<and>
     (\<forall>d row. map_of (s_did_total st) d = Some row \<longrightarrow> tr_totals row = ledger_totals (load_receipts st d))"
  unfolding totals_inv_def by (auto simp: map_of_eq_Some_iff dest: map_of_SomeD)

lemma ensure_total_row_Ok:
  assumes "ensure_total_row st did = Ok st1" "totals_inv st"
  shows "totals_inv st1" "\<exists>row. map_of (s_did_total st1) did = Some row" "load_receipts st1 = load_receipts st"
    "s_receipt st1 = s_receipt st" "\<And>d. d \<noteq> did \<Longrightarrow> map_of (s_did_total st1) d = map_of (s_did_total st) d"
proof -
  have "totals_inv st1 \<and> (\<exists>row. map_of (s_did_total st1) did = Some row) \<and> load_receipts st1 = load_receipts st \<and>
      s_receipt st1 = s_receipt st \<and> (\<forall>d. d \<noteq> did \<longrightarrow> map_of (s_did_total st1) d = map_of (s_did_total st) d)"
  proof (cases "map_of (s_did_total st) did")
    case None
    then obtain t where t: "sum_receipts st did = Ok t"
      and st1: "st1 = st\<lparr>s_did_total := AList.update did \<lparr>tr_totals = t, tr_stored_bytes = 0\<rparr> (s_did_total st)\<rparr>"
      using assms(1) by (auto simp: ensure_total_row_def split: result.splits if_splits)
    have "t = ledger_totals (load_receipts st did)"
      using t by (auto simp: sum_receipts_def Let_def split: if_splits)
    then show ?thesis
      using assms(2) by (auto simp: totals_inv_iff st1 update_conv distinct_update load_receipts_def fun_eq_iff)
  next
    case (Some row)
    then show ?thesis using assms by (auto simp: ensure_total_row_def)
  qed
  then show "totals_inv st1" "\<exists>row. map_of (s_did_total st1) did = Some row" "load_receipts st1 = load_receipts st"
    "s_receipt st1 = s_receipt st" "\<And>d. d \<noteq> did \<Longrightarrow> map_of (s_did_total st1) d = map_of (s_did_total st) d"
    by auto
qed

lemma append_receipt_Ok:
  assumes "append_receipt st did r = (st', Ok u)"
  obtains st1 where "ensure_total_row st did = Ok st1" "rc_bytes (r_core r) \<le> i64_max"
    "st' = update_total_row did (\<lambda>row. row\<lparr>tr_totals := add_receipt_totals (tr_totals row) r\<rparr>)
       (st1\<lparr>s_receipt := s_receipt st1 @ [(did, r)]\<rparr>)"
  using assms by (auto simp: append_receipt_def Let_def not_less split: result.splits if_splits)

lemma fst_update_total: "map fst (s_did_total (update_total_row did f st)) = map fst (s_did_total st)"
  by (simp add: update_total_row_def comp_def split_def)

lemma append_receipt_inv:
  assumes "append_receipt st did r = (st', Ok u)" "totals_inv st"
  shows "totals_inv st'" "load_receipts st' did = load_receipts st did @ [r]"
    "\<And>d. d \<noteq> did \<Longrightarrow> load_receipts st' d = load_receipts st d"
proof -
  obtain st1 where e: "ensure_total_row st did = Ok st1"
    and st': "st' = update_total_row did (\<lambda>row. row\<lparr>tr_totals := add_receipt_totals (tr_totals row) r\<rparr>)
       (st1\<lparr>s_receipt := s_receipt st1 @ [(did, r)]\<rparr>)"
    using append_receipt_Ok [OF assms(1)] .
  note E = ensure_total_row_Ok [OF e assms(2)]
  have ld: "load_receipts st' d = load_receipts st d @ (if d = did then [r] else [])" for d
    by (simp add: st' load_receipts_snoc E(3))
  then show "load_receipts st' did = load_receipts st did @ [r]"
    "\<And>d. d \<noteq> did \<Longrightarrow> load_receipts st' d = load_receipts st d" by simp_all
  have dk: "distinct (map fst (s_did_total st'))"
    using E(1) unfolding st' fst_update_total by (simp add: totals_inv_iff)
  have "tr_totals row = ledger_totals (load_receipts st' d)"
    if "map_of (s_did_total st') d = Some row" for d row
    using that E(1,3) unfolding ld
    by (auto simp: st' map_of_update_total totals_inv_iff ledger_totals_snoc split: if_splits)
  then show "totals_inv st'" using dk unfolding totals_inv_iff by blast
qed

lemma append_receipt_not_Ok: "append_receipt st did r = (st', e) \<Longrightarrow> e \<noteq> Ok () \<Longrightarrow> st' = st"
  by (auto simp: append_receipt_def Let_def split: result.splits if_splits)

lemma add_stored_bytes_inv:
  assumes "add_stored_bytes st did n = (st', r)" "totals_inv st"
  shows "totals_inv st'"
proof (cases "ensure_total_row st did")
  case (Ok st1)
  note E = ensure_total_row_Ok [OF Ok assms(2)]
  show ?thesis
  proof (cases "n > i64_max")
    case False
    have st': "st' = update_total_row did (\<lambda>row. row\<lparr>tr_stored_bytes := tr_stored_bytes row + n\<rparr>) st1"
      using assms(1) Ok False by (simp add: add_stored_bytes_def)
    have "distinct (map fst (s_did_total st'))"
      using E(1) unfolding st' fst_update_total by (simp add: totals_inv_iff)
    moreover have "tr_totals row = ledger_totals (load_receipts st' d)"
      if "map_of (s_did_total st') d = Some row" for d row
      using that E(1,3) by (auto simp: st' map_of_update_total totals_inv_iff split: if_splits)
    ultimately show ?thesis unfolding totals_inv_iff by blast
  qed (use assms Ok in \<open>simp add: add_stored_bytes_def\<close>)
qed (use assms in \<open>auto simp: add_stored_bytes_def\<close>)

lemma running_totals_exact:
  assumes "totals_inv st" "running_totals st did = Ok t"
  shows "t = ledger_totals (load_receipts st did)"
  using assms
  by (auto simp: running_totals_def sum_receipts_def totals_inv_iff Let_def split: option.splits if_splits)

text \<open>Countersigning changes a receipt's signatures, never what it meters.\<close>

lemma find_last_idx_Some: "find_last_idx P xs = Some i \<Longrightarrow> i < length xs \<and> P (xs ! i)"
  by (induction xs arbitrary: i) (auto split: option.splits if_splits)

lemma countersign_receipt_cases:
  assumes "countersign_receipt X st did h signer sg = (st', c)"
  obtains "st' = st" "c = None"
  | i r where "i < length (s_receipt st)" "s_receipt st ! i = (did, r)" "r_content_hash r = h"
      "st' = st\<lparr>s_receipt := (s_receipt st)[i := (did, r\<lparr>r_sigs := bt_insert signer sg (r_sigs r)\<rparr>)]\<rparr>"
      "c = Some (r\<lparr>r_sigs := bt_insert signer sg (r_sigs r)\<rparr>)"
proof (cases "find_last_idx (\<lambda>(d, r). d = did \<and>
    sql_like (''%'' @ h @ ''%'') (render (scalar_text X) (receipt_json r))) (s_receipt st)")
  case None
  then show ?thesis using assms that(1) by (simp add: countersign_receipt_def)
next
  case (Some i)
  obtain d r where dr: "s_receipt st ! i = (d, r)" by (cases "s_receipt st ! i")
  have i: "i < length (s_receipt st)" and d: "d = did"
    using find_last_idx_Some [OF Some] dr by auto
  show ?thesis
  proof (cases "r_content_hash r = h")
    case True
    then show ?thesis
      using assms that(2) [OF i] dr d unfolding countersign_receipt_def Some by (simp add: Let_def)
  next
    case False
    then show ?thesis
      using assms that(1) dr unfolding countersign_receipt_def Some by (simp add: Let_def)
  qed
qed

lemma countersign_receipt_core:
  assumes "countersign_receipt X st did h signer sg = (st', c)"
  shows "map (\<lambda>(d, r). (d, r_core r)) (s_receipt st') = map (\<lambda>(d, r). (d, r_core r)) (s_receipt st)"
    "s_did_total st' = s_did_total st"
proof -
  show "map (\<lambda>(d, r). (d, r_core r)) (s_receipt st') = map (\<lambda>(d, r). (d, r_core r)) (s_receipt st)"
    using assms
  proof (cases rule: countersign_receipt_cases)
    case (2 i r)
    then show ?thesis by (simp add: map_update list_update_same_conv)
  qed simp
  show "s_did_total st' = s_did_total st"
    using assms by (cases rule: countersign_receipt_cases) simp_all
qed

lemma ledger_totals_core:
  assumes "map r_core rs = map r_core rs'"
  shows "ledger_totals rs = ledger_totals rs'"
proof -
  have m: "map receipt_up xs = map (\<lambda>c. case rc_direction c of Upload \<Rightarrow> rc_bytes c | Download \<Rightarrow> 0) (map r_core xs)"
    "map receipt_down xs = map (\<lambda>c. case rc_direction c of Upload \<Rightarrow> 0 | Download \<Rightarrow> rc_bytes c) (map r_core xs)"
    "map receipt_drain xs = map (\<lambda>c. if rc_direction c = Download \<and> rc_account_mode c = Drawdown
       then rc_bytes c else 0) (map r_core xs)" for xs
    by (simp_all add: receipt_up_def receipt_down_def receipt_drain_def)
  have "length rs = length rs'" using assms by (rule map_eq_imp_length_eq)
  then show ?thesis unfolding ledger_totals_sums m assms by simp
qed

lemma countersign_receipt_inv:
  assumes "countersign_receipt X st did h signer sg = (st', c)" "totals_inv st"
  shows "totals_inv st'" "\<And>d. ledger_totals (load_receipts st' d) = ledger_totals (load_receipts st d)"
proof -
  have core: "map r_core (load_receipts s d) = map snd (filter (\<lambda>(d', _). d' = d) (map (\<lambda>(d, r). (d, r_core r)) (s_receipt s)))"
    for s d
    by (simp add: load_receipts_def filter_map comp_def split_def)
  have lt: "ledger_totals (load_receipts st' d) = ledger_totals (load_receipts st d)" for d
    by (rule ledger_totals_core) (simp only: core countersign_receipt_core(1) [OF assms(1)])
  then show "\<And>d. ledger_totals (load_receipts st' d) = ledger_totals (load_receipts st d)" .
  show "totals_inv st'"
    using assms(2) lt countersign_receipt_core(2) [OF assms(1)] by (simp add: totals_inv_def)
qed

end
