(* ===== verification/Store_Laws.thy ===== *)
theory Store_Laws
  imports Store
begin

text \<open>
  What the store promises about assertions, policies and chains. Sequence numbers never go back
  (the locale \<open>monotone_register\<close>, for any history of writes); the finest policy row decides and an
  unreadable row denies; a stored chain keeps recomputing under appends whose values fit SQLite's
  integers and under compaction, and the head and checkpoint the write path reads from the table
  are those of the recomputation.
\<close>

section \<open>Registers that only advance\<close>

locale monotone_register =
  fixes seq_of :: "'s \<Rightarrow> 'k \<Rightarrow> nat option" and step :: "'s \<Rightarrow> 'r \<Rightarrow> 's"
  assumes step_mono: "seq_of s k = Some n \<Longrightarrow> \<exists>m. seq_of (step s r) k = Some m \<and> n \<le> m"
begin

lemma history_mono: "seq_of s k = Some n \<Longrightarrow> \<exists>m. seq_of (foldl step s rs) k = Some m \<and> n \<le> m"
proof (induction rs arbitrary: s n)
  case (Cons r rs)
  obtain m where "seq_of (step s r) k = Some m" "n \<le> m" using step_mono [OF Cons.prems] by blast
  then show ?case using Cons.IH [of "step s r" m] by force
qed simp

end

section \<open>Assertions\<close>

lemma unwrap_akey: "akey d k s = akey d' k' s' \<longleftrightarrow> d = d' \<and> k = k' \<and> unwrap_or_empty s = unwrap_or_empty s'"
  by (simp add: akey_def)

lemma upsert_assertion_cases:
  assumes "upsert_assertion st r a = (st', n)"
  shows "n = 1 \<and> map_of (s_assertion st') (akey (sa_did r) (sa_kind r) (sa_subkey r)) =
       Some \<lparr>ar_seq = clamp_i64 (sa_seq r), ar_json = Some r, ar_ack = Some a\<rparr> \<and>
     (\<forall>k. k \<noteq> akey (sa_did r) (sa_kind r) (sa_subkey r) \<longrightarrow> map_of (s_assertion st') k = map_of (s_assertion st) k) \<and>
     (\<forall>old. map_of (s_assertion st) (akey (sa_did r) (sa_kind r) (sa_subkey r)) = Some old \<longrightarrow>
        ar_seq old < clamp_i64 (sa_seq r)) \<or>
     n = 0 \<and> st' = st \<and>
     (\<exists>old. map_of (s_assertion st) (akey (sa_did r) (sa_kind r) (sa_subkey r)) = Some old \<and>
        clamp_i64 (sa_seq r) \<le> ar_seq old)"
  using assms by (auto simp: upsert_assertion_def Let_def update_conv split: option.splits if_splits)

lemma save_assertion_Ok:
  assumes "save_assertion st r a = (st', Ok u)"
  shows "load_assertion st' (sa_did r) (sa_kind r) (sa_subkey r) = Ok (Some (r, a))"
    "assertion_seq st' (sa_did r) (sa_kind r) (sa_subkey r) = Some (min (sa_seq r) i64_max)"
    "\<And>p. assertion_seq st (sa_did r) (sa_kind r) (sa_subkey r) = Some p \<Longrightarrow> 0 < sa_seq r \<Longrightarrow> p < sa_seq r"
    "\<And>k. k \<noteq> akey (sa_did r) (sa_kind r) (sa_subkey r) \<Longrightarrow> map_of (s_assertion st') k = map_of (s_assertion st) k"
proof -
  obtain n where u: "upsert_assertion st r a = (st', n)" "n \<noteq> 0"
    using assms by (auto simp: save_assertion_def Let_def split: prod.splits if_splits)
  note c = upsert_assertion_cases [OF u(1)]
  show "load_assertion st' (sa_did r) (sa_kind r) (sa_subkey r) = Ok (Some (r, a))"
    "assertion_seq st' (sa_did r) (sa_kind r) (sa_subkey r) = Some (min (sa_seq r) i64_max)"
    "\<And>k. k \<noteq> akey (sa_did r) (sa_kind r) (sa_subkey r) \<Longrightarrow> map_of (s_assertion st') k = map_of (s_assertion st) k"
    using c u(2) by (auto simp: load_assertion_def assertion_seq_def u64_or_zero_clamp)
  show "p < sa_seq r" if "assertion_seq st (sa_did r) (sa_kind r) (sa_subkey r) = Some p" "0 < sa_seq r" for p
    using c u(2) that by (auto simp: assertion_seq_def clamp_i64_def u64_or_zero_def)
qed

lemma save_assertion_Err: "save_assertion st r a = (st', Err e) \<Longrightarrow> st' = st"
  by (auto simp: save_assertion_def upsert_assertion_def Let_def split: option.splits if_splits)

text \<open>The write path as a register: one slot per \<open>(did, kind, subkey)\<close>.\<close>

definition save_step :: "Store \<Rightarrow> SignedAssertion \<times> Ack \<Rightarrow> Store" where
  "save_step st p = fst (save_assertion st (fst p) (snd p))"

definition slot_seq :: "Store \<Rightarrow> assertion_key \<Rightarrow> nat option" where
  "slot_seq st k = map_option (\<lambda>row. u64_or_zero (ar_seq row)) (map_of (s_assertion st) k)"

interpretation assertions: monotone_register slot_seq save_step
proof unfold_locales
  fix st k n and p :: "SignedAssertion \<times> Ack"
  assume n: "slot_seq st k = Some n"
  obtain r a where p: "p = (r, a)" by (cases p)
  obtain st' c where u: "upsert_assertion st r a = (st', c)" by fastforce
  have s: "save_step st p = st'" using u p by (simp add: save_step_def save_assertion_def)
  show "\<exists>m. slot_seq (save_step st p) k = Some m \<and> n \<le> m"
    using upsert_assertion_cases [OF u] n unfolding s slot_seq_def
    by (cases k; cases "k = akey (sa_did r) (sa_kind r) (sa_subkey r)") (auto simp: u64_or_zero_def)
qed

section \<open>Policies\<close>

lemma resolve_policy_object:
  "resolve_object_policy st did cid = Some p \<Longrightarrow> resolve_policy st did (Some cid) = p"
  by (auto simp: resolve_object_policy_def resolve_policy_def)

lemma resolve_policy_namespace:
  "resolve_object_policy st did cid = None \<Longrightarrow> resolve_policy st did (Some cid) = resolve_policy st did None"
  by (auto simp: resolve_object_policy_def resolve_policy_def)

lemma unreadable_policy_denies:
  assumes "assertion_json_row st did POLICY_KIND (Some cid) = Some j \<or>
      assertion_json_row st did POLICY_KIND (Some cid) = None \<and> assertion_json_row st did POLICY_KIND None = Some j"
    and "Option.bind j (\<lambda>a. de_policy_body (sa_body a)) = None"
  shows "resolve_policy st did (Some cid) = deny_policy"
  using assms by (auto simp: resolve_policy_def resolved_from_json_def)

lemma no_object_policies:
  assumes "\<not> has_object_policies st did" "cid \<noteq> []"
  shows "resolve_object_policy st did cid = None"
proof (rule ccontr)
  assume "resolve_object_policy st did cid \<noteq> None"
  then obtain row where "map_of (s_assertion st) (did, POLICY_KIND, cid) = Some row"
    by (auto simp: resolve_object_policy_def assertion_json_row_def akey_def unwrap_or_empty_def)
  then have "((did, POLICY_KIND, cid), row) \<in> set (s_assertion st)" by (rule map_of_SomeD)
  then show False using assms by (auto simp: has_object_policies_def list_ex_iff)
qed

section \<open>Chains\<close>

definition row_key :: "chain_row \<Rightarrow> string \<times> string \<times> string \<times> int" where
  "row_key c = (ch_did c, ch_kind c, ch_subkey c, ch_seq c)"

definition chain_pk :: "Store \<Rightarrow> bool" where
  "chain_pk st \<longleftrightarrow> distinct (map row_key (s_chain_entry st))"

definition rows_ok :: "ext \<Rightarrow> string \<Rightarrow> string \<Rightarrow> string option \<Rightarrow> chain_row list \<Rightarrow> bool" where
  "rows_ok X did kind sk rows \<longleftrightarrow>
     sorted_wrt (<) (map ch_seq rows) \<and>
     (\<forall>c \<in> set rows. ch_entry_hash c = head_hash X (row_entry did kind sk c)) \<and>
     is_ok (recompute_total X (map (row_entry did kind sk) rows))"

definition chain_inv :: "ext \<Rightarrow> Store \<Rightarrow> string \<Rightarrow> string \<Rightarrow> string option \<Rightarrow> bool" where
  "chain_inv X st did kind sk \<longleftrightarrow> chain_pk st \<and> rows_ok X did kind sk (chain_rows st did kind sk)"

lemma chain_state_of_total:
  "is_ok (recompute_total X es) \<Longrightarrow> \<exists>h lc. chain_state X es = Some (h, lc)"
  by (auto simp: recompute_total_def chain_state_def split: result.splits)

lemma chain_state_snocD:
  assumes "chain_state X (es @ [e]) = Some (h, lc)"
  obtains h' lc' u where "chain_state X es = Some (h', lc')" "check_entry h' lc' e = Ok u"
    "h = Some (advance X e)" "lc = next_lc X lc' e"
  using assms
  by (auto simp: chain_state_def recompute_loop_append recompute_loop_Cons split: result.splits)

text \<open>What the table's newest rows say is what recomputing the chain arrives at.\<close>

lemma rows_state:
  assumes "\<forall>c \<in> set rows. ch_entry_hash c = head_hash X (row_entry did kind sk c)"
    and "chain_state X (map (row_entry did kind sk) rows) = Some (h, lc)"
  shows "h = (if rows = [] then None else Some \<lparr>pe_seq = u64_or_zero (ch_seq (last rows)),
      pe_total = u64_or_zero (ch_total (last rows)), pe_entry_hash = ch_entry_hash (last rows)\<rparr>)"
    "lc = (if filter ch_is_checkpoint rows = [] then GENESIS_PREV_HASH
           else ch_entry_hash (last (filter ch_is_checkpoint rows)))"
  using assms
proof (induction rows arbitrary: h lc rule: rev_induct)
  case Nil
  {
    case 1 then show ?case by (simp add: chain_state_def)
  next
    case 2 then show ?case by (simp add: chain_state_def)
  }
next
  case (snoc c rows)
  {
    case 1
    then have "chain_state X (map (row_entry did kind sk) rows @ [row_entry did kind sk c]) = Some (h, lc)" by simp
    then have "h = Some (advance X (row_entry did kind sk c))" by (rule chain_state_snocD)
    moreover have "ch_entry_hash c = head_hash X (row_entry did kind sk c)" using 1(1) by simp
    ultimately show ?case by (simp add: advance_def) (simp add: row_entry_def step_total_def)
  next
    case 2
    then obtain h' lc' u where s: "chain_state X (map (row_entry did kind sk) rows) = Some (h', lc')"
      "lc = next_lc X lc' (row_entry did kind sk c)"
      by (auto elim: chain_state_snocD)
    have "lc' = (if filter ch_is_checkpoint rows = [] then GENESIS_PREV_HASH
           else ch_entry_hash (last (filter ch_is_checkpoint rows)))"
      using snoc.IH(2) 2 s(1) by simp
    then show ?case using s(2) 2 by (auto simp: next_lc_def row_entry_def is_checkpoint_def)
  }
qed

lemma chain_inv_state:
  assumes "chain_inv X st did kind sk"
  shows "chain_state X (map fst (chain_entries st did kind sk)) =
    Some (latest_chain_entry st did kind sk,
          (case latest_checkpoint_hash st did kind sk of None \<Rightarrow> GENESIS_PREV_HASH | Some h \<Rightarrow> h))"
proof -
  let ?rows = "chain_rows st did kind sk"
  have es: "map fst (chain_entries st did kind sk) = map (row_entry did kind sk) ?rows"
    by (simp add: chain_entries_def)
  obtain h lc where s: "chain_state X (map (row_entry did kind sk) ?rows) = Some (h, lc)"
    using assms chain_state_of_total [of X "map (row_entry did kind sk) ?rows"]
    unfolding chain_inv_def rows_ok_def by blast
  note r = rows_state [OF _ s]
  show ?thesis
    using r assms unfolding es s
    by (auto simp: chain_inv_def rows_ok_def latest_chain_entry_def latest_checkpoint_hash_def
        latest_checkpoint_def Let_def)
qed

lemma sort_key_snoc:
  assumes "\<And>y. y \<in> set xs \<Longrightarrow> f y < f x" "inj_on f (set xs)"
  shows "sort_key f (xs @ [x]) = sort_key f xs @ [x]"
proof (rule sort_key_inj_key_eq)
  show "inj_on f (set (xs @ [x]))"
  proof (rule inj_onI)
    fix a b assume ab: "a \<in> set (xs @ [x])" "b \<in> set (xs @ [x])" "f a = f b"
    show "a = b"
    proof (cases "a = x \<or> b = x")
      case True
      then show ?thesis using ab assms(1) [of a] assms(1) [of b] by auto
    next
      case False
      then show ?thesis using ab assms(2) by (auto dest: inj_onD)
    qed
  qed
  show "sorted (map f (sort_key f xs @ [x]))"
    using assms(1) by (auto simp: sorted_append less_imp_le)
qed simp

lemma key_seq_inj:
  assumes "chain_pk st"
  shows "inj_on ch_seq (set (filter (\<lambda>c. (ch_did c, ch_kind c, ch_subkey c) = akey did kind sk) (s_chain_entry st)))"
  using assms unfolding chain_pk_def distinct_map
  by (auto simp: inj_on_def row_key_def akey_def)

lemma chain_rows_set:
  "set (chain_rows st did kind sk) = {c \<in> set (s_chain_entry st). (ch_did c, ch_kind c, ch_subkey c) = akey did kind sk}"
  by (auto simp: chain_rows_def)

lemma s_chain_upsert [simp]: "s_chain_entry (fst (upsert_assertion st r a)) = s_chain_entry st"
  by (auto simp: upsert_assertion_def Let_def split: option.splits)

lemma chain_rows_cong: "s_chain_entry st = s_chain_entry st' \<Longrightarrow> chain_rows st = chain_rows st'"
  by (simp add: chain_rows_def fun_eq_iff)

text \<open>One more row, newer than the rest, that the check on the write path accepted.\<close>

lemma chain_inv_insert:
  assumes inv: "chain_inv X st did kind sk"
    and ins: "insert_chain_row st row = Ok st1"
    and key: "(ch_did row, ch_kind row, ch_subkey row) = akey did kind sk"
    and hash: "ch_entry_hash row = head_hash X (row_entry did kind sk row)"
    and chk: "check_entry (latest_chain_entry st did kind sk)
        (case latest_checkpoint_hash st did kind sk of None \<Rightarrow> GENESIS_PREV_HASH | Some h \<Rightarrow> h)
        (row_entry did kind sk row) = Ok u"
    and pos: "0 \<le> ch_seq row" "\<And>c. c \<in> set (chain_rows st did kind sk) \<Longrightarrow> 0 \<le> ch_seq c"
  shows "chain_rows st1 did kind sk = chain_rows st did kind sk @ [row]" "chain_inv X st1 did kind sk"
    "recompute_total X (map fst (chain_entries st1 did kind sk)) = Ok (step_total (ce_step (row_entry did kind sk row)))"
proof -
  let ?rows = "chain_rows st did kind sk" and ?k = "akey did kind sk"
  let ?F = "filter (\<lambda>c. (ch_did c, ch_kind c, ch_subkey c) = ?k)"
  have st1: "s_chain_entry st1 = s_chain_entry st @ [row]" and new: "row_key row \<notin> set (map row_key (s_chain_entry st))"
    using ins by (auto simp: insert_chain_row_def list_ex_iff row_key_def split: if_splits)
  have pk: "chain_pk st" using inv by (simp add: chain_inv_def)
  have srt: "sorted_wrt (<) (map ch_seq ?rows)" using inv by (simp add: chain_inv_def rows_ok_def)
  have last_seq: "ch_seq row = ch_seq (last ?rows) + 1" if "?rows \<noteq> []"
  proof -
    have "check_entry (Some \<lparr>pe_seq = u64_or_zero (ch_seq (last ?rows)), pe_total = u64_or_zero (ch_total (last ?rows)),
        pe_entry_hash = ch_entry_hash (last ?rows)\<rparr>)
        (case latest_checkpoint_hash st did kind sk of None \<Rightarrow> GENESIS_PREV_HASH | Some h \<Rightarrow> h)
        (row_entry did kind sk row) = Ok u"
      using chk that by (simp add: latest_chain_entry_def Let_def)
    from check_entry_Some(1) [OF this] show ?thesis
      using pos that by (simp add: row_entry_def u64_or_zero_def) (metis last_in_set nat_int of_nat_Suc int_nat_eq add.commute)
  qed
  have lt: "ch_seq c < ch_seq row" if "c \<in> set ?rows" for c
  proof -
    have ne: "?rows \<noteq> []" using that by auto
    have "ch_seq c \<le> ch_seq (last ?rows)"
    proof (cases "c = last ?rows")
      case False
      obtain xs where xs: "?rows = xs @ [last ?rows]" using ne by (metis append_butlast_last_id)
      then have "c \<in> set xs" using that False by (metis in_set_conv_decomp set_append Un_iff empty_iff empty_set set_ConsD)
      moreover have "sorted_wrt (<) (map ch_seq (xs @ [last ?rows]))" using srt xs by metis
      ultimately show ?thesis by (auto simp: sorted_wrt_append)
    qed simp
    then show ?thesis using last_seq [OF ne] by simp
  qed
  show rows1: "chain_rows st1 did kind sk = ?rows @ [row]"
  proof -
    have "?F (s_chain_entry st1) = ?F (s_chain_entry st) @ [row]" using key by (simp add: st1)
    moreover have "sort_key ch_seq (?F (s_chain_entry st) @ [row]) = sort_key ch_seq (?F (s_chain_entry st)) @ [row]"
      by (rule sort_key_snoc [OF _ key_seq_inj [OF pk]]) (use lt in \<open>auto simp: chain_rows_set\<close>)
    ultimately show ?thesis by (simp add: chain_rows_def)
  qed
  have es: "map fst (chain_entries s did kind sk) = map (row_entry did kind sk) (chain_rows s did kind sk)" for s
    by (simp add: chain_entries_def)
  show rec: "recompute_total X (map fst (chain_entries st1 did kind sk)) = Ok (step_total (ce_step (row_entry did kind sk row)))"
    using chain_state_snoc(2) [OF chain_inv_state [OF inv] chk] unfolding es rows1 by simp
  have "chain_pk st1" using pk new by (simp add: chain_pk_def st1)
  moreover have "sorted_wrt (<) (map ch_seq (?rows @ [row]))" using srt lt by (auto simp: sorted_wrt_append)
  ultimately show "chain_inv X st1 did kind sk"
    using rec inv hash unfolding chain_inv_def rows_ok_def es rows1 by simp
qed

lemma sorted_split_filter:
  assumes "sorted_wrt (<) (map f (pre @ c # post))"
  shows "filter (\<lambda>x. \<not> f x < (f c :: int)) (pre @ c # post) = c # post"
proof -
  have "filter (\<lambda>x. \<not> f x < f c) pre = []" using assms by (auto simp: filter_empty_conv sorted_wrt_append)
  moreover have "filter (\<lambda>x. \<not> f x < f c) post = post"
    using assms by (intro filter_True) (auto simp: sorted_wrt_append)
  ultimately show ?thesis by simp
qed

lemma compact_rows:
  assumes "chain_inv X st did kind sk"
    and "compact_behind_latest_checkpoint st did kind sk = (st', Some n)"
  obtains pre cp post where "chain_rows st did kind sk = pre @ cp # post" "ch_is_checkpoint cp"
    "chain_rows st' did kind sk = cp # post" "list_all (\<lambda>c. \<not> ch_is_checkpoint c) post"
    "n = u64_or_zero (ch_seq cp)"
proof -
  let ?rows = "chain_rows st did kind sk" and ?k = "akey did kind sk"
  obtain cp where cp: "latest_checkpoint st did kind sk = Some cp" and n: "n = u64_or_zero (ch_seq cp)"
    and st': "s_chain_entry st' = filter (\<lambda>c. \<not> ((ch_did c, ch_kind c, ch_subkey c) = ?k \<and> ch_seq c < ch_seq cp)) (s_chain_entry st)"
    using assms(2) by (auto simp: compact_behind_latest_checkpoint_def split: option.splits)
  have ne: "filter ch_is_checkpoint ?rows \<noteq> []" and l: "cp = last (filter ch_is_checkpoint ?rows)"
    using cp by (auto simp: latest_checkpoint_def Let_def split: if_splits)
  have "\<exists>c \<in> set ?rows. ch_is_checkpoint c" using ne by (simp add: filter_empty_conv)
  then obtain pre c post where sp': "?rows = pre @ c # post" "ch_is_checkpoint c" "\<forall>z \<in> set post. \<not> ch_is_checkpoint z"
    using split_list_last_prop by metis
  then have fp: "filter ch_is_checkpoint post = []" by simp
  have "c = cp" unfolding l sp'(1) using sp'(2) fp by simp
  then have sp: "?rows = pre @ cp # post" "ch_is_checkpoint cp" "filter ch_is_checkpoint post = []"
    using sp' fp by auto
  have srt: "sorted_wrt (<) (map ch_seq (pre @ cp # post))"
    using assms(1) sp(1) by (simp add: chain_inv_def rows_ok_def)
  have "chain_rows st' did kind sk = filter (\<lambda>c. \<not> ch_seq c < ch_seq cp) ?rows"
    unfolding chain_rows_def st' filter_filter
    by (simp add: filter_sort [symmetric] conj_commute) (rule filter_cong, auto)
  also have "\<dots> = cp # post" unfolding sp(1) by (rule sorted_split_filter [OF srt])
  finally show thesis using that [OF sp(1,2) _ _ n] sp(3) by (simp add: list_all_iff filter_empty_conv)
qed

lemma compact_keeps:
  assumes inv: "chain_inv X st did kind sk"
    and c: "compact_behind_latest_checkpoint st did kind sk = (st', Some n)"
  shows "chain_inv X st' did kind sk"
    "recompute_total X (map fst (chain_entries st' did kind sk)) = recompute_total X (map fst (chain_entries st did kind sk))"
proof -
  obtain pre cp post where r: "chain_rows st did kind sk = pre @ cp # post" "ch_is_checkpoint cp"
    "chain_rows st' did kind sk = cp # post"
    using compact_rows [OF assms] by metis
  let ?e = "row_entry did kind sk"
  obtain t where t: "recompute_total X (map ?e (pre @ cp # post)) = Ok t"
    using inv r(1) by (auto simp: chain_inv_def rows_ok_def is_ok_iff)
  have t': "recompute_total X (map ?e (cp # post)) = Ok t"
    using recompute_total_compact [of X "map ?e pre" "?e cp" "map ?e post" t] t r(2)
    by (simp add: row_entry_def is_checkpoint_def)
  have es: "map fst (chain_entries s did kind sk) = map ?e (chain_rows s did kind sk)" for s
    by (simp add: chain_entries_def)
  show "recompute_total X (map fst (chain_entries st' did kind sk)) = recompute_total X (map fst (chain_entries st did kind sk))"
    unfolding es r using t t' by simp
  have "chain_pk st'"
    using inv c by (auto simp: chain_inv_def chain_pk_def compact_behind_latest_checkpoint_def distinct_map
        split: option.splits intro: inj_on_subset)
  then show "chain_inv X st' did kind sk"
    using inv t' unfolding chain_inv_def rows_ok_def r by (simp add: sorted_wrt_append)
qed

end
