(* ===== verification/Wire.thy ===== *)
theory Wire
  imports Manifest Assertion
begin

text \<open>
  Request bodies: \<^verbatim>\<open>serde_json::from_slice\<close> at the types the server reads from the wire. The text
  layer is a parameter (\<open>json_parse\<close>: the syntax tree of a text, members in the order of the text
  and repeated keys kept); what \<^verbatim>\<open>#[derive(Deserialize)]\<close> does with the tree is written out: a
  struct refuses a repeated field, and an unknown one under \<^verbatim>\<open>deny_unknown_fields\<close>; a
  \<^verbatim>\<open>serde_json::Value\<close> keeps the last value of a repeated key, its keys sorted. The parameters of the
  service-auth verification (base64, multibase, the two ECDSA crates) and the text form of IPLD
  content identifiers are in the same record.
\<close>

record cid =
  cid_version :: nat
  cid_codec :: u64
  cid_mh_code :: u64
  cid_digest :: bytes

record net =
  json_parse :: "bytes \<Rightarrow> json option"
  b64url_decode :: "string \<Rightarrow> bytes option"
  multibase_decode :: "string \<Rightarrow> bytes option"
  k256_from_sec1 :: "bytes \<Rightarrow> bytes option"
  k256_sig :: "bytes \<Rightarrow> bytes option"
  k256_high_s :: "bytes \<Rightarrow> bool"
  k256_verify :: "bytes \<Rightarrow> bytes \<Rightarrow> bytes \<Rightarrow> bool"
  p256_from_sec1 :: "bytes \<Rightarrow> bytes option"
  p256_sig :: "bytes \<Rightarrow> bytes option"
  p256_high_s :: "bytes \<Rightarrow> bool"
  p256_verify :: "bytes \<Rightarrow> bytes \<Rightarrow> bytes \<Rightarrow> bool"
  cid_parse :: "string \<Rightarrow> cid option"
  cid_show :: "cid \<Rightarrow> string"

fun to_value :: "json \<Rightarrow> json" where
  "to_value (JObj kvs) = JObj (fold (\<lambda>(k, v) m. bt_insert k v m) (map (\<lambda>(k, v). (k, to_value v)) kvs) [])"
| "to_value (JArr xs) = JArr (map to_value xs)"
| "to_value v = v"

text \<open>The fields of a struct; \<open>n_default\<close> counts the trailing fields an array may leave out.\<close>

definition text_fields :: "bool \<Rightarrow> string list \<Rightarrow> nat \<Rightarrow> json \<Rightarrow> json option list option" where
  "text_fields deny names n_default j =
     (case j of
        JObj kvs \<Rightarrow>
          if \<not> distinct (filter (\<lambda>k. k \<in> set names) (map fst kvs)) then None
          else if deny \<and> \<not> set (map fst kvs) \<subseteq> set names then None
          else Some (map (map_of kvs) names)
      | JArr xs \<Rightarrow>
          if length xs \<le> length names \<and> length names \<le> length xs + n_default
          then Some (map Some xs @ replicate (length names - length xs) None) else None
      | _ \<Rightarrow> None)"

definition de_owner_signed :: "json \<Rightarrow> OwnerSigned option" where
  "de_owner_signed j =
     (case text_fields True [''signer'', ''sig''] 0 j of
        Some [a, b] \<Rightarrow>
          (case (req de_str a, req de_str b) of
             (Some x, Some y) \<Rightarrow> Some \<lparr>os_signer = x, os_sig = y\<rparr> | _ \<Rightarrow> None)
      | _ \<Rightarrow> None)"

definition de_provider_attested :: "json \<Rightarrow> ProviderAttested option" where
  "de_provider_attested j =
     (case text_fields True [''owner_did'', ''authorizing_jti'', ''provider_sig''] 0 j of
        Some [a, b, c] \<Rightarrow>
          (case (req de_str a, req de_str b, req de_str c) of
             (Some x, Some y, Some z) \<Rightarrow>
               Some \<lparr>pa_owner_did = x, pa_authorizing_jti = y, pa_provider_sig = z\<rparr>
           | _ \<Rightarrow> None)
      | _ \<Rightarrow> None)"

text \<open>An externally tagged enum: one member, named after the variant.\<close>

definition de_authorization :: "json \<Rightarrow> Authorization option" where
  "de_authorization j =
     (case j of
        JObj [(tag, v)] \<Rightarrow>
          if tag = ''OwnerSigned'' then map_option AuthOwnerSigned (de_owner_signed v)
          else if tag = ''ProviderAttested'' then map_option AuthProviderAttested (de_provider_attested v)
          else None
      | _ \<Rightarrow> None)"

definition de_signed_assertion :: "json \<Rightarrow> SignedAssertion option" where
  "de_signed_assertion j =
     (case text_fields True [''did'', ''kind'', ''subkey'', ''seq'', ''body'', ''authorization''] 0 j of
        Some [d, k, s, n, b, z] \<Rightarrow>
          (case (req de_str d, req de_str k, opt de_str s, req de_u64 n, b, req de_authorization z) of
             (Some did, Some kind, Some subkey, Some seq, Some body, Some auth) \<Rightarrow>
               Some \<lparr>sa_did = did, sa_kind = kind, sa_subkey = subkey, sa_seq = seq,
                 sa_body = to_value body, sa_authorization = auth\<rparr>
           | _ \<Rightarrow> None)
      | _ \<Rightarrow> None)"

text \<open>The Model-C body \<open>Intent\<close> and the body \<open>Countersign\<close>, structs local to their handlers.\<close>

record Intent =
  in_seq :: u64
  in_body :: json

definition de_intent :: "json \<Rightarrow> Intent option" where
  "de_intent j =
     (case text_fields True [''seq'', ''body''] 0 j of
        Some [n, b] \<Rightarrow>
          (case (req de_u64 n, b) of
             (Some seq, Some body) \<Rightarrow> Some \<lparr>in_seq = seq, in_body = to_value body\<rparr>
           | _ \<Rightarrow> None)
      | _ \<Rightarrow> None)"

record Countersign =
  cs_signer :: string
  cs_sig :: string

definition de_countersign :: "json \<Rightarrow> Countersign option" where
  "de_countersign j =
     (case text_fields True [''signer'', ''sig''] 0 j of
        Some [a, b] \<Rightarrow>
          (case (req de_str a, req de_str b) of
             (Some x, Some y) \<Rightarrow> Some \<lparr>cs_signer = x, cs_sig = y\<rparr> | _ \<Rightarrow> None)
      | _ \<Rightarrow> None)"

definition de_manifest_leaf :: "json \<Rightarrow> ManifestLeaf option" where
  "de_manifest_leaf j =
     (case text_fields True [''cid'', ''size''] 0 j of
        Some [a, b] \<Rightarrow>
          (case (req de_str a, req de_u64 b) of
             (Some x, Some n) \<Rightarrow> Some \<lparr>ml_cid = x, ml_size = n\<rparr> | _ \<Rightarrow> None)
      | _ \<Rightarrow> None)"

definition de_string_map :: "json \<Rightarrow> string btree option" where
  "de_string_map j =
     (case j of
        JObj kvs \<Rightarrow>
          map_option (\<lambda>ps. fold (\<lambda>(k, v) m. bt_insert k v m) ps [])
            (sequence_opt (map (\<lambda>(k, v). map_option (Pair k) (de_str v)) kvs))
      | _ \<Rightarrow> None)"

definition de_manifest :: "json \<Rightarrow> Manifest option" where
  "de_manifest j =
     (case text_fields True
         [''leaves'', ''root'', ''total_bytes'', ''signer_id'', ''seq'', ''signature'', ''heads''] 1 j of
        Some [l, r, t, i, n, s, h] \<Rightarrow>
          (case (req (de_vec de_manifest_leaf) l, req de_str r, req de_u64 t, req de_str i, req de_u64 n,
                 req de_str s, opt de_string_map h) of
             (Some leaves, Some root, Some total_b, Some signer, Some seq, Some sg, Some heads) \<Rightarrow>
               Some \<lparr>m_leaves = leaves, m_root = root, m_total_bytes = total_b, m_signer_id = signer,
                 m_seq = seq, m_signature = sg, m_heads = heads\<rparr>
           | _ \<Rightarrow> None)
      | _ \<Rightarrow> None)"

text \<open>The manifest as it is served back; absent heads are left out.\<close>

definition manifest_json :: "Manifest \<Rightarrow> json" where
  "manifest_json m =
     JObj ([(''leaves'', JArr (map (\<lambda>l. JObj [(''cid'', JStr (ml_cid l)), (''size'', JInt (int (ml_size l)))])
               (m_leaves m))),
            (''root'', JStr (m_root m)), (''total_bytes'', JInt (int (m_total_bytes m))),
            (''signer_id'', JStr (m_signer_id m)), (''seq'', JInt (int (m_seq m))),
            (''signature'', JStr (m_signature m))] @
           (case m_heads m of
              None \<Rightarrow> []
            | Some hs \<Rightarrow> [(''heads'', JObj (map (\<lambda>(k, v). (k, JStr v)) hs))]))"

definition from_slice :: "net \<Rightarrow> (json \<Rightarrow> 'a option) \<Rightarrow> bytes \<Rightarrow> 'a option" where
  "from_slice N de body = Option.bind (json_parse N body) de"

section \<open>What is written reads back\<close>

definition manifest_wf :: "Manifest \<Rightarrow> bool" where
  "manifest_wf m \<longleftrightarrow> list_all (\<lambda>l. ml_size l \<le> u64_max) (m_leaves m) \<and> m_total_bytes m \<le> u64_max \<and>
     m_seq m \<le> u64_max \<and> (case m_heads m of None \<Rightarrow> True | Some hs \<Rightarrow> btree_wf hs)"

lemma de_leaves:
  "list_all (\<lambda>l. ml_size l \<le> u64_max) ls \<Longrightarrow>
   sequence_opt (map (de_manifest_leaf \<circ> (\<lambda>l. JObj [(''cid'', JStr (ml_cid l)), (''size'', JInt (int (ml_size l)))])) ls)
     = Some ls"
  by (induction ls) (auto simp: de_manifest_leaf_def text_fields_def req_def de_str_def de_u64_def)

lemma sequence_pairs:
  "sequence_opt (map ((\<lambda>(k, v). map_option (Pair k) (de_str v)) \<circ> (\<lambda>(k, v). (k, JStr v))) hs) = Some hs"
  by (induction hs) (auto simp: de_str_def)

lemma bt_insert_last: "\<forall>k' \<in> fst ` set m. k' < k \<Longrightarrow> bt_insert k v m = m @ [(k, v)]"
  by (induction k v m rule: bt_insert.induct) auto

lemma fold_bt_insert:
  "sorted_wrt (<) (map fst (acc @ hs)) \<Longrightarrow> fold (\<lambda>(k, v) m. bt_insert k v m) hs acc = acc @ hs"
proof (induction hs arbitrary: acc)
  case (Cons p hs)
  obtain k v where p: "p = (k, v)" by (cases p)
  have "bt_insert k v acc = acc @ [(k, v)]"
    using Cons.prems p by (intro bt_insert_last) (auto simp: sorted_wrt_append)
  then show ?case using Cons.IH [of "acc @ [(k, v)]"] Cons.prems p by simp
qed simp

lemma de_string_map_ser: "btree_wf hs \<Longrightarrow> de_string_map (JObj (map (\<lambda>(k, v). (k, JStr v)) hs)) = Some hs"
  using fold_bt_insert [of "[]" hs]
  by (simp add: de_string_map_def sequence_pairs btree_wf_def)

lemma de_manifest_json:
  assumes "manifest_wf m"
  shows "de_manifest (manifest_json m) = Some m"
proof -
  note w = assms [unfolded manifest_wf_def]
  have lv: "de_vec de_manifest_leaf (JArr (map (\<lambda>l. JObj [(''cid'', JStr (ml_cid l)), (''size'', JInt (int (ml_size l)))])
      (m_leaves m))) = Some (m_leaves m)"
    using w de_leaves [of "m_leaves m"] by (simp add: de_vec_def)
  have hd: "opt de_string_map (Some (JObj (map (\<lambda>(k, v). (k, JStr v)) hs))) = Some (Some hs)"
    if "m_heads m = Some hs" for hs
    using w that de_string_map_ser [of hs] by (simp add: opt_def)
  show ?thesis
  proof (cases "m_heads m")
    case None
    then show ?thesis
      using w lv
      by (simp add: de_manifest_def manifest_json_def text_fields_def req_def de_str_def de_u64_def opt_def)
  next
    case (Some hs)
    then show ?thesis
      using w lv hd [OF Some]
      by (simp add: de_manifest_def manifest_json_def text_fields_def req_def de_str_def de_u64_def)
  qed
qed

definition assertion_wf :: "SignedAssertion \<Rightarrow> bool" where
  "assertion_wf a \<longleftrightarrow> sa_seq a \<le> u64_max \<and> to_value (sa_body a) = sa_body a"

lemma de_authorization_json: "de_authorization (authorization_json z) = Some z"
  by (cases z) (auto simp: de_authorization_def authorization_json_def de_owner_signed_def
      de_provider_attested_def text_fields_def req_def de_str_def)

lemma de_signed_assertion_json:
  assumes "assertion_wf a"
  shows "de_signed_assertion (assertion_json a) = Some a"
  using assms
  by (cases "sa_subkey a")
    (simp_all add: assertion_wf_def de_signed_assertion_def assertion_json_def text_fields_def req_def opt_def
      ser_opt_def de_str_def de_u64_def de_authorization_json)

end
