(* ===== verification/Kinds.thy ===== *)
theory Kinds
  imports Store_Laws Wire
begin

text \<open>
  The kind registry (\<^verbatim>\<open>src/src/kind_spec.rs\<close>) and the validation of a body by its kind
  (\<^verbatim>\<open>kind_fold\<close> in \<^verbatim>\<open>src/src/server.rs\<close>). The two name the same kinds, every registered kind is
  consistent, and an accepted fold is the fold of a body the kind can read back.
\<close>

definition REGISTRY :: "KindSpec list" where
  "REGISTRY = [POLICY_SPEC, dial_spec CEILING_DIAL_KIND, dial_spec PERIOD_DIAL_KIND,
     dial_spec ACCOUNT_MODE_DIAL_KIND, dial_spec RECEIPT_MODE_DIAL_KIND, FLAG_SPEC, CHAIN_COUNTER_SPEC]"

definition kind_spec :: "string \<Rightarrow> KindSpec option" where
  "kind_spec kind = find (\<lambda>spec. ks_kind spec = kind) REGISTRY"

definition registry_is_consistent :: bool where
  "registry_is_consistent \<longleftrightarrow> list_all is_consistent REGISTRY"

text \<open>The refusals are \<open>ServerError::BadAssertion\<close> with the quoted message.\<close>

definition kind_fold :: "string \<Rightarrow> string option \<Rightarrow> json \<Rightarrow> (string, string) result" where
  "kind_fold kind subkey body =
     (if kind = POLICY_KIND then
        (if (case subkey of None \<Rightarrow> False | Some sk \<Rightarrow> \<not> is_ok (content_addr_parse sk))
           then Err ''policy subkey is not a content address''
         else case de_policy_body body of
           None \<Rightarrow> Err ''body is not a valid policy body''
         | Some b \<Rightarrow> if \<not> policy_body_valid b then Err ''policy readers do not fit the read class''
                     else Ok (policy_body_fold b))
      else if kind = CEILING_DIAL_KIND then
        (if subkey \<noteq> None then Err ''the ceiling dial takes no subkey''
         else case de_ceiling body of
           None \<Rightarrow> Err ''body is not a valid ceiling dial''
         | Some b \<Rightarrow> Ok (ceiling_body_fold b))
      else if kind = PERIOD_DIAL_KIND then
        (if subkey \<noteq> None then Err ''the period dial takes no subkey''
         else if body \<noteq> JObj [] then Err ''the period dial body is empty ({})''
         else Ok PERIOD_BODY_FOLD)
      else if kind = ACCOUNT_MODE_DIAL_KIND then
        (if subkey \<noteq> None then Err ''the account-mode dial takes no subkey''
         else case de_account_mode_body body of
           None \<Rightarrow> Err ''body is not a valid account-mode dial''
         | Some b \<Rightarrow> Ok (account_mode_body_fold b))
      else if kind = RECEIPT_MODE_DIAL_KIND then
        (if subkey \<noteq> None then Err ''the receipt-mode dial takes no subkey''
         else case de_receipt_mode_body body of
           None \<Rightarrow> Err ''body is not a valid receipt-mode dial''
         | Some b \<Rightarrow> Ok (receipt_mode_body_fold b))
      else if kind = FLAG_KIND then
        (if \<not> subkey_valid subkey then Err ''kv kinds require a valid subkey''
         else case de_flag_body body of
           None \<Rightarrow> Err ''body is not a valid kv flag''
         | Some b \<Rightarrow> Ok (flag_body_fold b))
      else if kind = CHAIN_COUNTER_KIND then
        (if \<not> subkey_valid subkey then Err ''chain.counter requires a valid subkey''
         else case de_chain_step body of
           None \<Rightarrow> Err ''body is not a valid chain.counter entry''
         | Some b \<Rightarrow> Ok (step_fold b))
      else Err ''unknown assertion kind'')"

lemmas kind_defs = POLICY_KIND_def CEILING_DIAL_KIND_def PERIOD_DIAL_KIND_def ACCOUNT_MODE_DIAL_KIND_def
  RECEIPT_MODE_DIAL_KIND_def FLAG_KIND_def CHAIN_COUNTER_KIND_def

lemmas spec_defs = POLICY_SPEC_def dial_spec_def FLAG_SPEC_def CHAIN_COUNTER_SPEC_def

lemma kinds_distinct:
  "distinct [POLICY_KIND, CEILING_DIAL_KIND, PERIOD_DIAL_KIND, ACCOUNT_MODE_DIAL_KIND,
     RECEIPT_MODE_DIAL_KIND, FLAG_KIND, CHAIN_COUNTER_KIND]"
  by (simp add: kind_defs)

lemma kind_neqs [simp]:
  "POLICY_KIND \<noteq> CEILING_DIAL_KIND" "POLICY_KIND \<noteq> PERIOD_DIAL_KIND" "POLICY_KIND \<noteq> ACCOUNT_MODE_DIAL_KIND"
  "POLICY_KIND \<noteq> RECEIPT_MODE_DIAL_KIND" "POLICY_KIND \<noteq> FLAG_KIND" "POLICY_KIND \<noteq> CHAIN_COUNTER_KIND"
  "CEILING_DIAL_KIND \<noteq> POLICY_KIND" "CEILING_DIAL_KIND \<noteq> PERIOD_DIAL_KIND" "CEILING_DIAL_KIND \<noteq> ACCOUNT_MODE_DIAL_KIND"
  "CEILING_DIAL_KIND \<noteq> RECEIPT_MODE_DIAL_KIND" "CEILING_DIAL_KIND \<noteq> FLAG_KIND" "CEILING_DIAL_KIND \<noteq> CHAIN_COUNTER_KIND"
  "PERIOD_DIAL_KIND \<noteq> POLICY_KIND" "PERIOD_DIAL_KIND \<noteq> CEILING_DIAL_KIND" "PERIOD_DIAL_KIND \<noteq> ACCOUNT_MODE_DIAL_KIND"
  "PERIOD_DIAL_KIND \<noteq> RECEIPT_MODE_DIAL_KIND" "PERIOD_DIAL_KIND \<noteq> FLAG_KIND" "PERIOD_DIAL_KIND \<noteq> CHAIN_COUNTER_KIND"
  "ACCOUNT_MODE_DIAL_KIND \<noteq> POLICY_KIND" "ACCOUNT_MODE_DIAL_KIND \<noteq> CEILING_DIAL_KIND" "ACCOUNT_MODE_DIAL_KIND \<noteq> PERIOD_DIAL_KIND"
  "ACCOUNT_MODE_DIAL_KIND \<noteq> RECEIPT_MODE_DIAL_KIND" "ACCOUNT_MODE_DIAL_KIND \<noteq> FLAG_KIND" "ACCOUNT_MODE_DIAL_KIND \<noteq> CHAIN_COUNTER_KIND"
  "RECEIPT_MODE_DIAL_KIND \<noteq> POLICY_KIND" "RECEIPT_MODE_DIAL_KIND \<noteq> CEILING_DIAL_KIND" "RECEIPT_MODE_DIAL_KIND \<noteq> PERIOD_DIAL_KIND"
  "RECEIPT_MODE_DIAL_KIND \<noteq> ACCOUNT_MODE_DIAL_KIND" "RECEIPT_MODE_DIAL_KIND \<noteq> FLAG_KIND" "RECEIPT_MODE_DIAL_KIND \<noteq> CHAIN_COUNTER_KIND"
  "FLAG_KIND \<noteq> POLICY_KIND" "FLAG_KIND \<noteq> CEILING_DIAL_KIND" "FLAG_KIND \<noteq> PERIOD_DIAL_KIND"
  "FLAG_KIND \<noteq> ACCOUNT_MODE_DIAL_KIND" "FLAG_KIND \<noteq> RECEIPT_MODE_DIAL_KIND" "FLAG_KIND \<noteq> CHAIN_COUNTER_KIND"
  "CHAIN_COUNTER_KIND \<noteq> POLICY_KIND" "CHAIN_COUNTER_KIND \<noteq> CEILING_DIAL_KIND" "CHAIN_COUNTER_KIND \<noteq> PERIOD_DIAL_KIND"
  "CHAIN_COUNTER_KIND \<noteq> ACCOUNT_MODE_DIAL_KIND" "CHAIN_COUNTER_KIND \<noteq> RECEIPT_MODE_DIAL_KIND" "CHAIN_COUNTER_KIND \<noteq> FLAG_KIND"
  using kinds_distinct by auto

lemma kind_spec_cases:
  "kind_spec kind =
     (if kind = POLICY_KIND then Some POLICY_SPEC
      else if kind \<in> {CEILING_DIAL_KIND, PERIOD_DIAL_KIND, ACCOUNT_MODE_DIAL_KIND, RECEIPT_MODE_DIAL_KIND}
        then Some (dial_spec kind)
      else if kind = FLAG_KIND then Some FLAG_SPEC
      else if kind = CHAIN_COUNTER_KIND then Some CHAIN_COUNTER_SPEC
      else None)"
  by (auto simp: kind_spec_def REGISTRY_def spec_defs)

lemma kind_spec_simps [simp]:
  "kind_spec POLICY_KIND = Some POLICY_SPEC" "kind_spec CEILING_DIAL_KIND = Some (dial_spec CEILING_DIAL_KIND)"
  "kind_spec PERIOD_DIAL_KIND = Some (dial_spec PERIOD_DIAL_KIND)"
  "kind_spec ACCOUNT_MODE_DIAL_KIND = Some (dial_spec ACCOUNT_MODE_DIAL_KIND)"
  "kind_spec RECEIPT_MODE_DIAL_KIND = Some (dial_spec RECEIPT_MODE_DIAL_KIND)"
  "kind_spec FLAG_KIND = Some FLAG_SPEC" "kind_spec CHAIN_COUNTER_KIND = Some CHAIN_COUNTER_SPEC"
  by (simp_all add: kind_spec_cases)

definition registered :: "string \<Rightarrow> bool" where
  "registered kind \<longleftrightarrow> kind \<in> {POLICY_KIND, CEILING_DIAL_KIND, PERIOD_DIAL_KIND, ACCOUNT_MODE_DIAL_KIND,
     RECEIPT_MODE_DIAL_KIND, FLAG_KIND, CHAIN_COUNTER_KIND}"

lemma kind_spec_None: "kind_spec kind = None \<longleftrightarrow> \<not> registered kind"
  by (simp add: kind_spec_cases registered_def)

lemma registeredE:
  assumes "kind_spec kind = Some s"
  obtains "kind = POLICY_KIND" | "kind = CEILING_DIAL_KIND" | "kind = PERIOD_DIAL_KIND"
  | "kind = ACCOUNT_MODE_DIAL_KIND" | "kind = RECEIPT_MODE_DIAL_KIND" | "kind = FLAG_KIND"
  | "kind = CHAIN_COUNTER_KIND"
  using assms kind_spec_None [of kind] unfolding registered_def by auto

lemma kind_spec_retention: "kind_spec kind = Some s \<Longrightarrow> ks_retention s = Chain \<longleftrightarrow> kind = CHAIN_COUNTER_KIND"
  by (frule registeredE; auto simp: spec_defs)

lemma kind_spec_erasure: "kind_spec kind = Some s \<Longrightarrow> ks_erasure s = Permanent \<longleftrightarrow> kind \<noteq> FLAG_KIND"
  by (frule registeredE; auto simp: spec_defs)

lemma kind_spec_enumeration: "kind_spec kind = Some s \<Longrightarrow> ks_enumeration s = PointOnly \<longleftrightarrow>
    kind \<notin> {POLICY_KIND, FLAG_KIND, CHAIN_COUNTER_KIND}"
  by (frule registeredE; auto simp: spec_defs)

lemma kind_fold_registered: "kind_fold kind subkey body = Ok f \<Longrightarrow> kind_spec kind \<noteq> None"
  by (auto simp: kind_fold_def kind_spec_cases split: if_splits)

lemma not_panic_intros:
  "x \<noteq> Panic \<Longrightarrow> y \<noteq> Panic \<Longrightarrow> (if b then x else y) \<noteq> Panic"
  "x \<noteq> Panic \<Longrightarrow> (\<And>a. f a \<noteq> Panic) \<Longrightarrow> (case v of None \<Rightarrow> x | Some a \<Rightarrow> f a) \<noteq> Panic"
  "Ok z \<noteq> Panic" "Err e \<noteq> Panic"
  by (simp_all split: option.split)

lemma kind_fold_no_panic: "kind_fold kind subkey body \<noteq> Panic"
  unfolding kind_fold_def by (intro not_panic_intros)

lemma kind_fold_chain_eq:
  "kind_fold CHAIN_COUNTER_KIND subkey body =
     (if \<not> subkey_valid subkey then Err ''chain.counter requires a valid subkey''
      else case de_chain_step body of
        None \<Rightarrow> Err ''body is not a valid chain.counter entry''
      | Some b \<Rightarrow> Ok (step_fold b))"
  by (simp only: kind_fold_def kind_neqs if_False if_True refl)

lemma kind_fold_chain:
  assumes "kind_fold CHAIN_COUNTER_KIND subkey body = Ok f"
  obtains step where "de_chain_step body = Some step" "f = step_fold step" "subkey_valid subkey"
  using assms that by (auto simp: kind_fold_chain_eq split: if_splits option.splits)

end
