(* ===== verification/Auth.thy ===== *)
theory Auth
  imports Wire
begin

text \<open>
  Authentication: the crate \<^verbatim>\<open>ciss-auth\<close> (signed sessions, service-auth tokens, the replay guard) and
  its use in \<^verbatim>\<open>src/src/server.rs\<close>. A principal is authenticated only on proof of key possession: the
  session signature under the key that derives the identifier, or a token whose signature verifies
  under a key resolved for its issuer, bound to this service and method and unexpired. A token
  with an id is granted once, whatever else is presented in between.
\<close>

section \<open>lib.rs\<close>

datatype JwtError =
    BadDidKey | UnsupportedKeyType | BadSignatureJwt | MalleableSignature | SignatureInvalid
  | BadJwtStructure | BadHeader | BadClaims | WrongIssuer | WrongAudience | WrongMethod | Expired | Replayed

datatype AuthError = BadKeyHex | BadKeyLen | BadKey | BadSignatureHex | BadSignature | DidMismatch | Unverified

datatype Principal = Anonymous | Authenticated string

fun principal_did :: "Principal \<Rightarrow> string option" where
  "principal_did Anonymous = None"
| "principal_did (Authenticated did) = Some did"

definition auth_derive_id :: "ext \<Rightarrow> verifying_key \<Rightarrow> string" where
  "auth_derive_id X key = ''id:'' @ take ID_DIGEST_HEX_LEN (hex_encode X (sha256 X key))"

definition parse_public_key :: "ext \<Rightarrow> string \<Rightarrow> (verifying_key, AuthError) result" where
  "parse_public_key X pk_hex =
     (case hex_decode X pk_hex of
        None \<Rightarrow> Err BadKeyHex
      | Some bs \<Rightarrow>
          if length bs \<noteq> PUBLIC_KEY_LEN then Err BadKeyLen
          else (case vk_from_bytes X bs of
                  None \<Rightarrow> Err BadKey
                | Some key \<Rightarrow> if key \<noteq> bs \<or> vk_is_weak X key then Err BadKey else Ok key))"

definition verify_session :: "ext \<Rightarrow> string \<Rightarrow> string \<Rightarrow> bytes \<Rightarrow> string \<Rightarrow> (Principal, AuthError) result" where
  "verify_session X claimed_did pk_hex challenge signature_hex =
     (case parse_public_key X pk_hex of
        Err e \<Rightarrow> Err e
      | Panic \<Rightarrow> Panic
      | Ok key \<Rightarrow>
          if auth_derive_id X key \<noteq> claimed_did then Err DidMismatch
          else (case hex_decode X signature_hex of
                  None \<Rightarrow> Err BadSignatureHex
                | Some signature_bytes \<Rightarrow>
                    (case sig_from_slice X signature_bytes of
                       None \<Rightarrow> Err BadSignature
                     | Some sg \<Rightarrow>
                         if verify_strict X key challenge sg then Ok (Authenticated claimed_did)
                         else Err Unverified)))"

section \<open>did\_key.rs\<close>

datatype AtprotoKey = Secp256k1 bytes | P256 bytes

definition from_did_key :: "net \<Rightarrow> string \<Rightarrow> (AtprotoKey, JwtError) result" where
  "from_did_key N did_key =
     (case strip_prefix ''did:key:'' did_key of
        None \<Rightarrow> Err BadDidKey
      | Some multikey \<Rightarrow>
          (case multibase_decode N multikey of
             None \<Rightarrow> Err BadDidKey
           | Some bs \<Rightarrow>
               (case strip_prefix [CHR 0xE7, CHR 0x01] bs of
                  Some key \<Rightarrow>
                    (case k256_from_sec1 N key of None \<Rightarrow> Err BadDidKey | Some vk \<Rightarrow> Ok (Secp256k1 vk))
                | None \<Rightarrow>
                    (case strip_prefix [CHR 0x80, CHR 0x24] bs of
                       Some key \<Rightarrow>
                         (case p256_from_sec1 N key of None \<Rightarrow> Err BadDidKey | Some vk \<Rightarrow> Ok (P256 vk))
                     | None \<Rightarrow> Err UnsupportedKeyType))))"

definition atproto_verify :: "net \<Rightarrow> AtprotoKey \<Rightarrow> bytes \<Rightarrow> bytes \<Rightarrow> (unit, JwtError) result" where
  "atproto_verify N key signing_input signature =
     (case key of
        Secp256k1 vk \<Rightarrow>
          (case k256_sig N signature of
             None \<Rightarrow> Err BadSignatureJwt
           | Some sg \<Rightarrow>
               if k256_high_s N sg then Err MalleableSignature
               else if k256_verify N vk signing_input sg then Ok () else Err SignatureInvalid)
      | P256 vk \<Rightarrow>
          (case p256_sig N signature of
             None \<Rightarrow> Err BadSignatureJwt
           | Some sg \<Rightarrow>
               if p256_high_s N sg then Err MalleableSignature
               else if p256_verify N vk signing_input sg then Ok () else Err SignatureInvalid))"

section \<open>service\_jwt.rs\<close>

record ServiceAuthParams =
  expected_iss :: string
  expected_aud :: string
  expected_lxm :: string
  sp_now_unix_s :: u64

record Verified =
  v_did :: string
  v_jti :: "string option"
  v_exp_unix_s :: u64

definition verified_principal :: "Verified \<Rightarrow> Principal" where
  "verified_principal v = Authenticated (v_did v)"

record Claims =
  c_iss :: string
  c_aud :: string
  c_lxm :: "string option"
  c_exp :: u64
  c_jti :: "string option"

definition de_header_alg :: "json \<Rightarrow> string option" where
  "de_header_alg j =
     (case text_fields False [''alg''] 0 j of Some [a] \<Rightarrow> req de_str a | _ \<Rightarrow> None)"

definition de_claims :: "json \<Rightarrow> Claims option" where
  "de_claims j =
     (case text_fields False [''iss'', ''aud'', ''lxm'', ''exp'', ''jti''] 1 j of
        Some [i, a, l, e, t] \<Rightarrow>
          (case (req de_str i, req de_str a, opt de_str l, req de_u64 e, opt de_str t) of
             (Some iss, Some aud, Some lxm, Some exp, Some jti) \<Rightarrow>
               Some \<lparr>c_iss = iss, c_aud = aud, c_lxm = lxm, c_exp = exp, c_jti = jti\<rparr>
           | _ \<Rightarrow> None)
      | _ \<Rightarrow> None)"

definition de_iss_only :: "json \<Rightarrow> string option" where
  "de_iss_only j =
     (case text_fields False [''iss''] 0 j of Some [i] \<Rightarrow> req de_str i | _ \<Rightarrow> None)"

definition decode_json :: "net \<Rightarrow> (json \<Rightarrow> 'a option) \<Rightarrow> string \<Rightarrow> 'a option" where
  "decode_json N de segment = Option.bind (b64url_decode N segment) (from_slice N de)"

text \<open>\<open>str::split\<close> on one character.\<close>

fun split_on :: "char \<Rightarrow> string \<Rightarrow> string list" where
  "split_on c [] = [[]]"
| "split_on c (x # xs) =
     (case split_on c xs of
        [] \<Rightarrow> [[x]]
      | y # ys \<Rightarrow> if x = c then [] # y # ys else (x # y) # ys)"

definition verify_service_auth_jwt ::
  "net \<Rightarrow> string \<Rightarrow> string \<Rightarrow> ServiceAuthParams \<Rightarrow> (Verified, JwtError) result" where
  "verify_service_auth_jwt N jwt signing_key params =
     (case split_on (CHR ''.'') jwt of
        [h, p, s] \<Rightarrow>
          (case decode_json N de_header_alg h of
             None \<Rightarrow> Err BadHeader
           | Some alg \<Rightarrow>
               if alg \<noteq> ''ES256K'' \<and> alg \<noteq> ''ES256'' then Err BadHeader
               else (case b64url_decode N s of
                  None \<Rightarrow> Err BadSignatureJwt
                | Some sg \<Rightarrow>
                    let signing_input = take (length h + 1 + length p) jwt in
                    result_bind (from_did_key N signing_key) (\<lambda>key.
                    result_bind (atproto_verify N key signing_input sg) (\<lambda>_.
                      case decode_json N de_claims p of
                        None \<Rightarrow> Err BadClaims
                      | Some claims \<Rightarrow>
                          if c_iss claims \<noteq> expected_iss params then Err WrongIssuer
                          else if c_aud claims \<noteq> expected_aud params then Err WrongAudience
                          else if c_lxm claims \<noteq> Some (expected_lxm params) then Err WrongMethod
                          else if c_exp claims \<le> sp_now_unix_s params then Err Expired
                          else Ok \<lparr>v_did = c_iss claims, v_jti = c_jti claims, v_exp_unix_s = c_exp claims\<rparr>))))
      | _ \<Rightarrow> Err BadJwtStructure)"

definition peek_iss :: "net \<Rightarrow> string \<Rightarrow> (string, JwtError) result" where
  "peek_iss N jwt =
     (case split_on (CHR ''.'') jwt of
        [h, p, s] \<Rightarrow> (case decode_json N de_iss_only p of None \<Rightarrow> Err BadClaims | Some iss \<Rightarrow> Ok iss)
      | _ \<Rightarrow> Err BadJwtStructure)"

section \<open>replay.rs\<close>

type_synonym ReplayGuard = "(string \<times> u64) list"

definition check_and_record :: "ReplayGuard \<Rightarrow> string \<Rightarrow> u64 \<Rightarrow> u64 \<Rightarrow> ReplayGuard \<times> (unit, JwtError) result" where
  "check_and_record seen jti exp_unix_s now_unix_s =
     (let seen' = filter (\<lambda>(_, exp). exp > now_unix_s) seen in
      if map_of seen' jti \<noteq> None then (seen', Err Replayed)
      else (seen' @ [(jti, exp_unix_s)], Ok ()))"

section \<open>server.rs\<close>

type_synonym HeaderMap = "string \<Rightarrow> string option"

definition PUBKEY_HEADER :: string where "PUBKEY_HEADER = ''x-croft-pubkey''"
definition SESSION_HEADER :: string where "SESSION_HEADER = ''x-croft-session''"
definition SESSION_CHALLENGE_PREFIX :: string where "SESSION_CHALLENGE_PREFIX = ''ciss-session/v1/''"

definition authenticate :: "ext \<Rightarrow> HeaderMap \<Rightarrow> Principal" where
  "authenticate X headers =
     (case (headers PUBKEY_HEADER, headers SESSION_HEADER) of
        (Some pubkey_hex, Some sig_hex) \<Rightarrow>
          (case public_key_from_hex X pubkey_hex of
             Ok key \<Rightarrow>
               let did = derive_id X key; challenge = SESSION_CHALLENGE_PREFIX @ did in
               (case verify_session X did pubkey_hex challenge sig_hex of Ok p \<Rightarrow> p | _ \<Rightarrow> Anonymous)
           | _ \<Rightarrow> Anonymous)
      | _ \<Rightarrow> Anonymous)"

definition is_space :: "char \<Rightarrow> bool" where
  "is_space c \<longleftrightarrow> (of_char c :: nat) \<in> {9, 10, 11, 12, 13, 32}"

definition trim :: "string \<Rightarrow> string" where
  "trim s = rev (dropWhile is_space (rev (dropWhile is_space s)))"

definition bearer_token :: "HeaderMap \<Rightarrow> string option" where
  "bearer_token headers =
     map_option trim (Option.bind (headers ''authorization'') (strip_prefix ''Bearer ''))"

text \<open>The resolver is the crate \<^verbatim>\<open>ciss-resolve\<close> behind its trait: the signing key of an identifier,
  from its cache or (\<open>True\<close>) refreshed.\<close>

type_synonym resolver = "string \<Rightarrow> bool \<Rightarrow> string option"

definition verify_service_auth_full ::
  "net \<Rightarrow> resolver \<Rightarrow> string \<Rightarrow> u64 \<Rightarrow> ReplayGuard \<Rightarrow> string \<Rightarrow> string
   \<Rightarrow> ReplayGuard \<times> Principal \<times> string option" where
  "verify_service_auth_full N resolve service_did now replay jwt lxm =
     (case peek_iss N jwt of
        Ok iss \<Rightarrow>
          (case did_parse iss of
             Ok did \<Rightarrow>
               if \<not> is_ok (require_atproto did) then (replay, Anonymous, None)
               else
                 let params = \<lparr>expected_iss = iss, expected_aud = service_did, expected_lxm = lxm, sp_now_unix_s = now\<rparr> in
                 (case resolve iss False of
                    None \<Rightarrow> (replay, Anonymous, None)
                  | Some keys \<Rightarrow>
                      let verified =
                        (case verify_service_auth_jwt N jwt keys params of
                           Ok v \<Rightarrow> Some v
                         | Err e \<Rightarrow>
                             if e = SignatureInvalid then
                               (case resolve iss True of
                                  None \<Rightarrow> None
                                | Some fresh \<Rightarrow>
                                    (case verify_service_auth_jwt N jwt fresh params of Ok v \<Rightarrow> Some v | _ \<Rightarrow> None))
                             else None
                         | Panic \<Rightarrow> None)
                      in case verified of
                           None \<Rightarrow> (replay, Anonymous, None)
                         | Some v \<Rightarrow>
                             (case v_jti v of
                                None \<Rightarrow> (replay, verified_principal v, None)
                              | Some jti \<Rightarrow>
                                  (case check_and_record replay jti (v_exp_unix_s v) now of
                                     (replay', Ok _) \<Rightarrow> (replay', verified_principal v, Some jti)
                                   | (replay', _) \<Rightarrow> (replay', Anonymous, None))))
           | _ \<Rightarrow> (replay, Anonymous, None))
      | _ \<Rightarrow> (replay, Anonymous, None))"

definition verify_service_auth ::
  "net \<Rightarrow> resolver \<Rightarrow> string \<Rightarrow> u64 \<Rightarrow> ReplayGuard \<Rightarrow> string \<Rightarrow> string \<Rightarrow> ReplayGuard \<times> Principal" where
  "verify_service_auth N resolve service_did now replay jwt lxm =
     (case verify_service_auth_full N resolve service_did now replay jwt lxm of (r, p, _) \<Rightarrow> (r, p))"

definition authenticate_atproto ::
  "ext \<Rightarrow> net \<Rightarrow> resolver \<Rightarrow> string \<Rightarrow> u64 \<Rightarrow> ReplayGuard \<Rightarrow> HeaderMap \<Rightarrow> string \<Rightarrow> ReplayGuard \<times> Principal" where
  "authenticate_atproto X N resolve service_did now replay headers lxm =
     (case bearer_token headers of
        Some jwt \<Rightarrow> verify_service_auth N resolve service_did now replay jwt lxm
      | None \<Rightarrow> (replay, authenticate X headers))"

section \<open>Sessions\<close>

lemma auth_derive_id_eq [simp]: "auth_derive_id X key = derive_id X key"
  by (simp add: auth_derive_id_def derive_id_def sha256_hex_def)

lemma parse_public_key_Ok [simp]: "parse_public_key X h = Ok key \<longleftrightarrow> public_key_from_hex X h = Ok key"
  by (auto simp: parse_public_key_def public_key_from_hex_def split: option.splits)

lemma verify_session_Ok:
  "verify_session X did pk challenge sg = Ok p \<longleftrightarrow>
     p = Authenticated did \<and>
     (\<exists>key. public_key_from_hex X pk = Ok key \<and> derive_id X key = did \<and> verify_message X key challenge sg)"
  by (auto simp: verify_session_def verify_message_def parse_public_key_Ok [symmetric]
      split: result.splits option.splits simp del: parse_public_key_Ok)

lemma authenticate_iff:
  "authenticate X headers = Authenticated did \<longleftrightarrow>
     (\<exists>pk sg key. headers PUBKEY_HEADER = Some pk \<and> headers SESSION_HEADER = Some sg \<and>
        public_key_from_hex X pk = Ok key \<and> derive_id X key = did \<and>
        verify_message X key (SESSION_CHALLENGE_PREFIX @ did) sg)"
proof
  assume a: "authenticate X headers = Authenticated did"
  obtain pk sg key where h: "headers PUBKEY_HEADER = Some pk" "headers SESSION_HEADER = Some sg"
    "public_key_from_hex X pk = Ok key"
    and v: "verify_session X (derive_id X key) pk (SESSION_CHALLENGE_PREFIX @ derive_id X key) sg = Ok (Authenticated did)"
    using a unfolding authenticate_def Let_def by (auto split: option.splits result.splits)
  show "\<exists>pk sg key. headers PUBKEY_HEADER = Some pk \<and> headers SESSION_HEADER = Some sg \<and>
        public_key_from_hex X pk = Ok key \<and> derive_id X key = did \<and>
        verify_message X key (SESSION_CHALLENGE_PREFIX @ did) sg"
    using h v [unfolded verify_session_Ok] by auto
next
  assume "\<exists>pk sg key. headers PUBKEY_HEADER = Some pk \<and> headers SESSION_HEADER = Some sg \<and>
        public_key_from_hex X pk = Ok key \<and> derive_id X key = did \<and>
        verify_message X key (SESSION_CHALLENGE_PREFIX @ did) sg"
  then obtain pk sg key where h: "headers PUBKEY_HEADER = Some pk" "headers SESSION_HEADER = Some sg"
    "public_key_from_hex X pk = Ok key" "derive_id X key = did"
    "verify_message X key (SESSION_CHALLENGE_PREFIX @ did) sg" by blast
  have "verify_session X did pk (SESSION_CHALLENGE_PREFIX @ did) sg = Ok (Authenticated did)"
    unfolding verify_session_Ok using h by blast
  then show "authenticate X headers = Authenticated did" using h by (simp add: authenticate_def)
qed

section \<open>Tokens\<close>

lemma case_three:
  obtains (three) x y z where "xs = [x, y, z]" | (other) "\<And>x y z. xs \<noteq> [x, y, z]"
  by blast

lemma other_three:
  "(\<And>x y z. xs \<noteq> [x, y, z]) \<Longrightarrow> (case xs of [x, y, z] \<Rightarrow> f x y z | _ \<Rightarrow> d) = d"
  by (auto split: list.splits)

lemma verify_service_auth_jwt_Ok:
  assumes "verify_service_auth_jwt N jwt k params = Ok v"
  obtains h p s sg key claims where "split_on (CHR ''.'') jwt = [h, p, s]" "b64url_decode N s = Some sg"
    "from_did_key N k = Ok key" "atproto_verify N key (take (length h + 1 + length p) jwt) sg = Ok ()"
    "decode_json N de_claims p = Some claims" "c_iss claims = expected_iss params"
    "c_aud claims = expected_aud params" "c_lxm claims = Some (expected_lxm params)"
    "sp_now_unix_s params < c_exp claims"
    "v = \<lparr>v_did = c_iss claims, v_jti = c_jti claims, v_exp_unix_s = c_exp claims\<rparr>"
proof -
  obtain h p s where sp: "split_on (CHR ''.'') jwt = [h, p, s]"
  proof (cases "split_on (CHR ''.'') jwt" rule: case_three)
    case (three h p s)
    then show thesis by (rule that)
  next
    case other
    then show thesis using assms by (simp add: verify_service_auth_jwt_def other_three)
  qed
  obtain alg sg where alg: "decode_json N de_header_alg h = Some alg" "alg = ''ES256K'' \<or> alg = ''ES256''"
    and sg: "b64url_decode N s = Some sg"
    using assms unfolding verify_service_auth_jwt_def sp by (auto split: option.splits if_splits)
  have "\<not> (alg \<noteq> ''ES256K'' \<and> alg \<noteq> ''ES256'')" using alg(2) by blast
  note r = assms [unfolded verify_service_auth_jwt_def sp Let_def, simplified alg(1) sg this if_False list.case option.case]
  show thesis
    using r that [OF sp sg] by (auto simp: result_bind_Ok not_le split: option.splits if_splits)
qed

text \<open>What a granted request has proved.\<close>

definition token_proves :: "net \<Rightarrow> string \<Rightarrow> string \<Rightarrow> string \<Rightarrow> string \<Rightarrow> string \<Rightarrow> u64 \<Rightarrow> Claims \<Rightarrow> bool" where
  "token_proves N jwt signing_key did aud lxm now claims \<longleftrightarrow>
     (\<exists>h p s sg key. split_on (CHR ''.'') jwt = [h, p, s] \<and> b64url_decode N s = Some sg \<and>
        from_did_key N signing_key = Ok key \<and>
        atproto_verify N key (take (length h + 1 + length p) jwt) sg = Ok () \<and>
        decode_json N de_claims p = Some claims) \<and>
     c_iss claims = did \<and> c_aud claims = aud \<and> c_lxm claims = Some lxm \<and> now < c_exp claims"

lemma verify_jwt_proves:
  "verify_service_auth_jwt N jwt k \<lparr>expected_iss = did, expected_aud = aud, expected_lxm = lxm, sp_now_unix_s = now\<rparr> = Ok v
   \<Longrightarrow> \<exists>c. token_proves N jwt k did aud lxm now c \<and>
         v = \<lparr>v_did = did, v_jti = c_jti c, v_exp_unix_s = c_exp c\<rparr>"
  by (erule verify_service_auth_jwt_Ok) (fastforce simp: token_proves_def)

lemma service_auth_granted:
  assumes "verify_service_auth_full N resolve aud now g jwt lxm = (g', Authenticated did, j)"
  obtains fresh k c where "resolve did fresh = Some k" "token_proves N jwt k did aud lxm now c"
    "did_parse did = Ok (Did did)" "did_space (Did did) = AtprotoSpace" "j = c_jti c"
    "case c_jti c of None \<Rightarrow> g' = g | Some jti \<Rightarrow> check_and_record g jti (c_exp c) now = (g', Ok ())"
proof -
  let ?P = "\<lambda>iss. \<lparr>expected_iss = iss, expected_aud = aud, expected_lxm = lxm, sp_now_unix_s = now\<rparr>"
  obtain iss d where iss: "peek_iss N jwt = Ok iss" and d: "did_parse iss = Ok d" "is_ok (require_atproto d)"
    using assms unfolding verify_service_auth_full_def by (auto split: result.splits if_splits)
  obtain fresh k v where k: "resolve iss fresh = Some k" and v: "verify_service_auth_jwt N jwt k (?P iss) = Ok v"
    and r: "case v_jti v of None \<Rightarrow> (g, verified_principal v, None) = (g', Authenticated did, j)
        | Some jti \<Rightarrow> (case check_and_record g jti (v_exp_unix_s v) now of
            (r', Ok _) \<Rightarrow> (r', verified_principal v, Some jti)
          | (r', _) \<Rightarrow> (r', Anonymous, None)) = (g', Authenticated did, j)"
    using assms iss d unfolding verify_service_auth_full_def Let_def
    by (auto split: option.splits result.splits if_splits prod.splits)
  obtain c where c: "token_proves N jwt k iss aud lxm now c" and vc: "v = \<lparr>v_did = iss, v_jti = c_jti c, v_exp_unix_s = c_exp c\<rparr>"
    using verify_jwt_proves [OF v] by blast
  have did: "iss = did" and j: "j = c_jti c"
    and g: "case c_jti c of None \<Rightarrow> g' = g | Some jti \<Rightarrow> check_and_record g jti (c_exp c) now = (g', Ok ())"
    using r vc by (auto simp: verified_principal_def split: option.splits prod.splits result.splits)
  have "d = Did iss" using d(1) by (simp add: did_parse_Ok)
  then have "did_space (Did iss) = AtprotoSpace"
    using d(2) by (auto simp: require_atproto_def split: IdentitySpace.splits)
  then show thesis
    using that [OF k [unfolded did] c [unfolded did] _ _ j g] d(1) did \<open>d = Did iss\<close> by simp
qed

section \<open>A token is granted once\<close>

type_synonym auth_request = "u64 \<times> resolver \<times> string \<times> string"

fun auth_run :: "net \<Rightarrow> string \<Rightarrow> ReplayGuard \<Rightarrow> auth_request list \<Rightarrow> (Principal \<times> string option) list" where
  "auth_run N aud g [] = []"
| "auth_run N aud g ((now, resolve, jwt, lxm) # rs) =
     (case verify_service_auth_full N resolve aud now g jwt lxm of
        (g', r) \<Rightarrow> r # auth_run N aud g' rs)"

lemma check_and_record_keeps:
  "check_and_record g j e now = (g', r) \<Longrightarrow> (jti, exp) \<in> set g \<Longrightarrow> now < exp \<Longrightarrow> (jti, exp) \<in> set g'"
  by (auto simp: check_and_record_def Let_def split: if_splits)

lemma check_and_record_Ok:
  assumes "check_and_record g j e now = (g', Ok u)"
  shows "(j, e) \<in> set g'" "\<And>exp. (j, exp) \<in> set g \<Longrightarrow> exp \<le> now"
  using assms
  by (auto simp: check_and_record_def Let_def map_of_eq_None_iff not_less [symmetric] split: if_splits)
    (metis (mono_tags, lifting) case_prodI fst_conv image_eqI mem_Collect_eq)

lemma full_guard_cases:
  assumes "verify_service_auth_full N resolve aud now g jwt lxm = (g', r)"
  shows "g' = g \<or> (\<exists>j e r'. check_and_record g j e now = (g', r'))"
  using assms unfolding verify_service_auth_full_def Let_def
  by (auto split: option.splits result.splits if_splits prod.splits)

lemma full_guard_keeps:
  assumes "verify_service_auth_full N resolve aud now g jwt lxm = (g', r)" "(jti, exp) \<in> set g" "now < exp"
  shows "(jti, exp) \<in> set g'"
  using full_guard_cases [OF assms(1)] check_and_record_keeps assms(2,3) by blast

lemma not_granted: "(\<And>did. p \<noteq> Authenticated did) \<Longrightarrow> p = Anonymous"
  by (cases p) auto

lemma token_claims_unique:
  "token_proves N jwt k d a l n c \<Longrightarrow> token_proves N jwt k' d' a' l' n' c' \<Longrightarrow> c' = c"
  by (auto simp: token_proves_def)

lemma seen_token_refused:
  assumes "verify_service_auth_full N resolve aud now g jwt lxm = (g', p, j)"
    and "token_proves N jwt k d a l n c" "c_jti c = Some jti" "now < c_exp c \<Longrightarrow> (jti, c_exp c) \<in> set g"
  shows "p = Anonymous"
proof (rule not_granted, rule notI)
  fix did assume p: "p = Authenticated did"
  obtain k' c' where c': "token_proves N jwt k' did aud lxm now c'"
    "case c_jti c' of None \<Rightarrow> g' = g | Some jti \<Rightarrow> check_and_record g jti (c_exp c') now = (g', Ok ())"
    using service_auth_granted [OF assms(1) [unfolded p]] by metis
  have c: "c' = c" using token_claims_unique [OF assms(2) c'(1)] .
  then have "now < c_exp c" using c'(1) by (simp add: token_proves_def)
  moreover have "check_and_record g jti (c_exp c) now = (g', Ok ())" using c'(2) c assms(3) by simp
  ultimately show False using check_and_record_Ok(2) assms(4) by (metis leD)
qed

lemma auth_run_length [simp]: "length (auth_run N aud g rs) = length rs"
  by (induction N aud g rs rule: auth_run.induct) (auto split: prod.splits)

lemma auth_run_nth:
  "i < length rs \<Longrightarrow> rs ! i = (now, resolve, jwt, lxm) \<Longrightarrow>
   \<exists>g'. auth_run N aud g rs ! i = snd (verify_service_auth_full N resolve aud now g' jwt lxm)"
proof (induction rs arbitrary: g i)
  case (Cons r rs)
  obtain t rv jw lx where r: "r = (t, rv, jw, lx)" by (cases r)
  obtain g' q where f: "verify_service_auth_full N rv aud t g jw lx = (g', q)" by (metis surj_pair)
  show ?case
  proof (cases i)
    case 0
    then show ?thesis using Cons.prems r f by (auto intro: exI [of _ g])
  next
    case (Suc i')
    then show ?thesis using Cons.IH [of i' g'] Cons.prems r f by simp
  qed
qed simp

lemma run_refuses:
  assumes "token_proves N jwt k d a l n c" "c_jti c = Some jti" "(jti, c_exp c) \<in> set g"
    and "sorted (map fst rs)" "i < length rs" "rs ! i = (now, resolve, jwt, lxm)"
  shows "fst (auth_run N aud g rs ! i) = Anonymous"
  using assms(3-)
proof (induction rs arbitrary: g i)
  case (Cons r rs)
  obtain t rv jw lx where r: "r = (t, rv, jw, lx)" by (cases r)
  obtain g' p j where f: "verify_service_auth_full N rv aud t g jw lx = (g', p, j)" by (metis surj_pair)
  show ?case
  proof (cases i)
    case 0
    then show ?thesis
      using seen_token_refused [OF f, of k d a l n c jti] assms(1,2) Cons.prems r f by simp
  next
    case (Suc i')
    have t: "t \<le> now" using Cons.prems Suc r by (auto dest!: nth_mem [of i' rs])
    show ?thesis
    proof (cases "now < c_exp c")
      case True
      then have "(jti, c_exp c) \<in> set g'" using full_guard_keeps [OF f Cons.prems(1)] t by simp
      then show ?thesis using Cons.IH [of g' i'] Cons.prems Suc r f by simp
    next
      case False
      have "\<exists>g''. auth_run N aud g' rs ! i' = snd (verify_service_auth_full N resolve aud now g'' jwt lxm)"
        using auth_run_nth [of i' rs] Cons.prems Suc by auto
      then obtain g'' where "auth_run N aud g' rs ! i' = snd (verify_service_auth_full N resolve aud now g'' jwt lxm)"
        by blast
      then show ?thesis
        using seen_token_refused [of N resolve aud now g'' jwt lxm, OF _ assms(1,2)] False Suc r f
        by (metis (no_types, lifting) auth_run.simps(2) case_prod_conv nth_Cons_Suc prod.collapse)
    qed
  qed
qed simp

end
