(* ===== verification/Blob.thy ===== *)
theory Blob
  imports Manifest
begin

text \<open>
  \<^verbatim>\<open>src/src/blobstore.rs\<close>: bytes under a key, in memory or in files, behind one trait. The trait is
  the locale \<open>blob_store\<close>, with what a backend promises when the disk may fail at any call, and
  \<open>reliable_blob_store\<close>, with what it promises when it does not; both backends are shown to keep
  the promises. The file system is a map from paths to nodes with a fault predicate over its
  system calls. A path is a list of components, because a validated owner and content address
  contain no separator (\<open>Identifiers\<close>).
\<close>

section \<open>Data\<close>

datatype BlobError =
    BlobMissing string string
  | BlobTooLarge string string u64 u64
  | BlobIo string string

type_synonym memory_store = "string \<times> string \<Rightarrow> bytes option"

datatype fs_node = RegularFile bytes | OtherNode

datatype fs_call = CreateDir | WriteFile | Rename | Stat | ReadFile

type_synonym path = "string list"

record FsBlobStore =
  fs_root :: string
  fs_files :: "path \<Rightarrow> fs_node option"
  fs_fault :: "fs_call \<Rightarrow> path \<Rightarrow> bool"

section \<open>MemoryBlobStore\<close>

definition mem_put :: "memory_store \<Rightarrow> string \<Rightarrow> string \<Rightarrow> bytes \<Rightarrow> memory_store \<times> (usize, BlobError) result" where
  "mem_put m did cid bs = (m((did, cid) \<mapsto> bs), Ok (length bs))"

definition mem_get :: "memory_store \<Rightarrow> string \<Rightarrow> string \<Rightarrow> (bytes, BlobError) result" where
  "mem_get m did cid =
     (case m (did, cid) of
        None \<Rightarrow> Err (BlobMissing did cid)
      | Some bs \<Rightarrow>
          if length bs > MAX_OBJECT_BYTES then Err (BlobTooLarge did cid (length bs) MAX_OBJECT_BYTES)
          else Ok bs)"

definition mem_has :: "memory_store \<Rightarrow> string \<Rightarrow> string \<Rightarrow> bool" where
  "mem_has m did cid \<longleftrightarrow> m (did, cid) \<noteq> None"

section \<open>FsBlobStore\<close>

definition permanent_path :: "FsBlobStore \<Rightarrow> string \<Rightarrow> string \<Rightarrow> path" where
  "permanent_path s did cid = [fs_root s, ''blocks'', did, cid]"

definition temp_path :: "FsBlobStore \<Rightarrow> string \<Rightarrow> string \<Rightarrow> path" where
  "temp_path s did cid = [fs_root s, ''tmp'', did, cid]"

text \<open>\<open>Path::exists\<close>: false when the node cannot be queried.\<close>

definition path_exists :: "FsBlobStore \<Rightarrow> path \<Rightarrow> bool" where
  "path_exists s p \<longleftrightarrow> fs_files s p \<noteq> None \<and> \<not> fs_fault s Stat p"

definition ensure_parent :: "FsBlobStore \<Rightarrow> path \<Rightarrow> string \<Rightarrow> string \<Rightarrow> (unit, BlobError) result" where
  "ensure_parent s p did cid = (if fs_fault s CreateDir (butlast p) then Err (BlobIo did cid) else Ok ())"

text \<open>A failed write leaves the staging file truncated.\<close>

definition fs_write :: "FsBlobStore \<Rightarrow> path \<Rightarrow> bytes \<Rightarrow> FsBlobStore" where
  "fs_write s p bs =
     s\<lparr>fs_files := (fs_files s)(p \<mapsto> RegularFile (if fs_fault s WriteFile p then [] else bs))\<rparr>"

definition fs_rename :: "FsBlobStore \<Rightarrow> path \<Rightarrow> path \<Rightarrow> FsBlobStore" where
  "fs_rename s p q = s\<lparr>fs_files := (fs_files s)(p := None, q := fs_files s p)\<rparr>"

definition fs_put :: "FsBlobStore \<Rightarrow> string \<Rightarrow> string \<Rightarrow> bytes \<Rightarrow> FsBlobStore \<times> (usize, BlobError) result" where
  "fs_put s did cid bs =
     (let permanent = permanent_path s did cid; temp = temp_path s did cid in
      if path_exists s permanent then (s, Ok (length bs))
      else case ensure_parent s temp did cid of
        Ok _ \<Rightarrow>
          (case ensure_parent s permanent did cid of
             Ok _ \<Rightarrow>
               let s' = fs_write s temp bs in
               if fs_fault s WriteFile temp then (s', Err (BlobIo did cid))
               else if fs_fault s Rename temp then (s', Err (BlobIo did cid))
               else (fs_rename s' temp permanent, Ok (length bs))
           | Err e \<Rightarrow> (s, Err e)
           | Panic \<Rightarrow> (s, Panic))
      | Err e \<Rightarrow> (s, Err e)
      | Panic \<Rightarrow> (s, Panic))"

definition fs_get :: "FsBlobStore \<Rightarrow> string \<Rightarrow> string \<Rightarrow> (bytes, BlobError) result" where
  "fs_get s did cid =
     (let p = permanent_path s did cid in
      case fs_files s p of
        None \<Rightarrow> Err (BlobMissing did cid)
      | Some node \<Rightarrow>
          if fs_fault s Stat p then Err (BlobIo did cid)
          else (case node of
                  OtherNode \<Rightarrow> Err (BlobMissing did cid)
                | RegularFile bs \<Rightarrow>
                    if length bs > MAX_OBJECT_BYTES
                      then Err (BlobTooLarge did cid (length bs) MAX_OBJECT_BYTES)
                    else if fs_fault s ReadFile p then Err (BlobIo did cid)
                    else Ok bs))"

definition fs_has :: "FsBlobStore \<Rightarrow> string \<Rightarrow> string \<Rightarrow> bool" where
  "fs_has s did cid \<longleftrightarrow> path_exists s (permanent_path s did cid)"

section \<open>What a backend promises\<close>

locale blob_store =
  fixes put :: "'s \<Rightarrow> string \<Rightarrow> string \<Rightarrow> bytes \<Rightarrow> 's \<times> (usize, BlobError) result"
    and get :: "'s \<Rightarrow> string \<Rightarrow> string \<Rightarrow> (bytes, BlobError) result"
    and has :: "'s \<Rightarrow> string \<Rightarrow> string \<Rightarrow> bool"
  assumes put_length: "put s d c b = (s', Ok n) \<Longrightarrow> n = length b"
    and put_fresh: "put s d c b = (s', Ok n) \<Longrightarrow> \<not> has s d c \<Longrightarrow> get s' d c = Ok x \<Longrightarrow> x = b"
    and put_frame: "put s d c b = (s', r) \<Longrightarrow> (d', c') \<noteq> (d, c) \<Longrightarrow> get s' d' c' = get s d' c'"
    and get_bound: "get s d c = Ok x \<Longrightarrow> length x \<le> MAX_OBJECT_BYTES"
    and put_failed: "put s d c b = (s', Err e) \<Longrightarrow> get s' d c = get s d c"
begin

text \<open>Any sequence of puts leaves the blobs of other owners alone.\<close>

lemma puts_frame:
  assumes "d \<notin> fst ` set ops"
  shows "get (fold (\<lambda>(d, c, b) s. fst (put s d c b)) ops s) d c = get s d c"
  using assms
proof (induction ops arbitrary: s)
  case (Cons p ops)
  obtain d' c' b' where p: "p = (d', c', b')" by (cases p)
  obtain s' r where "put s d' c' b' = (s', r)" by fastforce
  then show ?case
    using put_frame [of s d' c' b' s' r d c] Cons p by auto
qed simp

end

locale reliable_blob_store = blob_store +
  assumes put_ok: "\<exists>s'. put s d c b = (s', Ok (length b))"
    and get_put: "put s d c b = (s', Ok n) \<Longrightarrow> \<not> has s d c \<Longrightarrow> length b \<le> MAX_OBJECT_BYTES \<Longrightarrow> get s' d c = Ok b"
    and has_put: "put s d c b = (s', Ok n) \<Longrightarrow> has s' d c"
    and put_has: "put s d c b = (s', Ok n) \<Longrightarrow> has s d c \<Longrightarrow> get s d c = Ok b \<Longrightarrow> get s' d c = Ok b"
begin

text \<open>Storing the same content twice is storing it once.\<close>

lemma put_twice:
  assumes "put s d c b = (s1, Ok n)" "put s1 d c b = (s2, Ok m)" "\<not> has s d c" "length b \<le> MAX_OBJECT_BYTES"
  shows "get s2 d c = Ok b \<and> m = n"
  using get_put [OF assms(1,3,4)] has_put [OF assms(1)] put_has [OF assms(2)] put_length assms(1,2) by blast

end

interpretation memory: reliable_blob_store mem_put mem_get mem_has
  by unfold_locales
    (auto simp: mem_put_def mem_get_def mem_has_def split: option.splits if_splits)

lemma paths_distinct [simp]:
  "permanent_path s d c \<noteq> temp_path s d' c'" "temp_path s d c \<noteq> permanent_path s d' c'"
  by (simp_all add: permanent_path_def temp_path_def)

lemma permanent_path_inject [simp]:
  "permanent_path s d c = permanent_path s d' c' \<longleftrightarrow> d = d' \<and> c = c'"
  by (simp add: permanent_path_def)

text \<open>The effect of a put on the permanent paths, for every pattern of faults.\<close>

lemma fs_put_cases:
  assumes "fs_put s d c b = (s', r)"
  shows "fs_root s' = fs_root s \<and> fs_fault s' = fs_fault s \<and>
    (\<forall>d' c'. (d', c') \<noteq> (d, c) \<longrightarrow>
       fs_files s' (permanent_path s d' c') = fs_files s (permanent_path s d' c')) \<and>
    (case r of
       Ok n \<Rightarrow> n = length b \<and>
         fs_files s' (permanent_path s d c) =
           (if path_exists s (permanent_path s d c) then fs_files s (permanent_path s d c)
            else Some (RegularFile b))
     | _ \<Rightarrow> r = Err (BlobIo d c) \<and> fs_files s' (permanent_path s d c) = fs_files s (permanent_path s d c))"
  using assms
  by (auto simp: fs_put_def ensure_parent_def fs_write_def fs_rename_def Let_def split: if_splits)

lemma fs_get_cong:
  "fs_files s' (permanent_path s d c) = fs_files s (permanent_path s d c) \<Longrightarrow>
   fs_root s' = fs_root s \<Longrightarrow> fs_fault s' = fs_fault s \<Longrightarrow> fs_get s' d c = fs_get s d c"
  by (simp add: fs_get_def permanent_path_def Let_def split: option.splits fs_node.splits)

interpretation filesystem: blob_store fs_put fs_get fs_has
proof unfold_locales
  fix s s' :: FsBlobStore and d c d' c' :: string and b x :: bytes and n r e
  show "n = length b" if "fs_put s d c b = (s', Ok n)"
    using fs_put_cases [OF that] by simp
  show "x = b" if "fs_put s d c b = (s', Ok n)" "\<not> fs_has s d c" "fs_get s' d c = Ok x"
    using fs_put_cases [OF that(1)] that(2,3)
    by (auto simp: fs_get_def fs_has_def permanent_path_def Let_def split: if_splits)
  show "fs_get s' d' c' = fs_get s d' c'" if "fs_put s d c b = (s', r)" "(d', c') \<noteq> (d, c)"
    using fs_put_cases [OF that(1)] that(2) by (intro fs_get_cong) auto
  show "length x \<le> MAX_OBJECT_BYTES" if "fs_get s d c = Ok x"
    using that by (auto simp: fs_get_def Let_def split: option.splits fs_node.splits if_splits)
  show "fs_get s' d c = fs_get s d c" if "fs_put s d c b = (s', Err e)"
    using fs_put_cases [OF that] by (intro fs_get_cong) auto
qed

text \<open>A disk without faults gives a reliable backend: the same code on stores whose fault
  predicate is constantly false.\<close>

definition healthy :: "FsBlobStore \<Rightarrow> FsBlobStore" where
  "healthy s = s\<lparr>fs_fault := (\<lambda>_ _. False)\<rparr>"

definition fs_put_healthy :: "FsBlobStore \<Rightarrow> string \<Rightarrow> string \<Rightarrow> bytes \<Rightarrow> FsBlobStore \<times> (usize, BlobError) result" where
  "fs_put_healthy s = fs_put (healthy s)"

definition fs_get_healthy :: "FsBlobStore \<Rightarrow> string \<Rightarrow> string \<Rightarrow> (bytes, BlobError) result" where
  "fs_get_healthy s = fs_get (healthy s)"

definition fs_has_healthy :: "FsBlobStore \<Rightarrow> string \<Rightarrow> string \<Rightarrow> bool" where
  "fs_has_healthy s = fs_has (healthy s)"

lemmas healthy_defs = fs_put_healthy_def fs_get_healthy_def fs_has_healthy_def

lemma healthy_put:
  assumes "fs_put (healthy s) d c b = (s', r)"
  shows "healthy s' = s'" "r = Ok (length b)"
  using assms
  by (auto simp: fs_put_def ensure_parent_def fs_write_def fs_rename_def healthy_def Let_def split: if_splits)

interpretation disk: reliable_blob_store fs_put_healthy fs_get_healthy fs_has_healthy
proof unfold_locales
  fix s s' :: FsBlobStore and d c d' c' :: string and b x :: bytes and n r e
  note F = filesystem.put_length filesystem.put_fresh filesystem.put_frame filesystem.get_bound filesystem.put_failed
  show "n = length b" if "fs_put_healthy s d c b = (s', Ok n)"
    using F(1) that unfolding healthy_defs by blast
  show "x = b" if "fs_put_healthy s d c b = (s', Ok n)" "\<not> fs_has_healthy s d c" "fs_get_healthy s' d c = Ok x"
    using F(2) that healthy_put(1) unfolding healthy_defs by metis
  show "fs_get_healthy s' d' c' = fs_get_healthy s d' c'" if "fs_put_healthy s d c b = (s', r)" "(d', c') \<noteq> (d, c)"
    using F(3) that healthy_put(1) unfolding healthy_defs by metis
  show "length x \<le> MAX_OBJECT_BYTES" if "fs_get_healthy s d c = Ok x"
    using F(4) that unfolding healthy_defs by blast
  show "fs_get_healthy s' d c = fs_get_healthy s d c" if "fs_put_healthy s d c b = (s', Err e)"
    using that healthy_put(2) unfolding healthy_defs by blast
  show "\<exists>s'. fs_put_healthy s d c b = (s', Ok (length b))"
    using healthy_put(2) unfolding healthy_defs by (metis surj_pair)
  show "fs_get_healthy s' d c = Ok b"
    if "fs_put_healthy s d c b = (s', Ok n)" "\<not> fs_has_healthy s d c" "length b \<le> MAX_OBJECT_BYTES"
    using fs_put_cases [OF that(1) [unfolded healthy_defs]] that(2,3)
    by (auto simp: healthy_defs fs_get_def fs_has_def permanent_path_def healthy_def Let_def split: if_splits)
  show "fs_has_healthy s' d c" if "fs_put_healthy s d c b = (s', Ok n)"
    using fs_put_cases [OF that [unfolded healthy_defs]]
    by (auto simp: healthy_defs fs_has_def path_exists_def permanent_path_def healthy_def split: if_splits)
  show "fs_get_healthy s' d c = Ok b"
    if "fs_put_healthy s d c b = (s', Ok n)" "fs_has_healthy s d c" "fs_get_healthy s d c = Ok b"
    using that by (auto simp: healthy_defs fs_put_def fs_has_def Let_def healthy_def split: if_splits)
qed

end
