(* ===== verification/Server.thy ===== *)
theory Server
  imports Kinds Auth Blob
begin

text \<open>
  \<^verbatim>\<open>src/src/server.rs\<close>: the dispatch boundary and the operations behind it. The shared state is the
  record \<open>AppState\<close>, threaded through; an operation returns the state it leaves (also when it
  refuses or panics half way) and its outcome. A panic inside an operation becomes
  \<open>ServerError::TaskJoin\<close> at \<open>dispatch_blocking\<close>. The time an operation took is an argument
  of \<open>dispatch\<close>, its measurement being the clock's.
\<close>

section \<open>Errors\<close>

datatype CidError = CidBadHex | BadDigestLen usize | Unparseable | NotRawSha256

datatype ServerError =
    SePersist PersistError
  | SeBlob BlobError
  | NotFound
  | Tampered string string
  | BadManifest string
  | BadPubkey
  | DidKeyMismatch
  | Unauthorized
  | Forbidden
  | DuLockedToAdmins
  | BadCid CidError
  | ByteCountMismatch usize usize
  | SeJson
  | BadConfig
  | ProviderSeedMissing
  | BadIdentifier IdentifierError
  | StoreFull
  | DidQuotaExceeded
  | ObjectTooLarge u64 u64
  | TaskJoin
  | BadAssertion string
  | AssertionUnauthorized
  | AssertionAboveBound u64 u64
  | BodyAboveCeiling string usize usize
  | ErasureNotAllowed string
  | EnumerationNotAllowed string
  | ChainBroken string
  | SpendCeiling u64 u64 u64
  | DrawdownActive
  | AssertionStale string u64

section \<open>State\<close>

record Provider =
  pv_id :: string
  pv_keypair :: Keypair
  pv_attest_keypair :: Keypair

definition provider_from_seed :: "ext \<Rightarrow> string \<Rightarrow> Provider" where
  "provider_from_seed X seed =
     (let keypair = derive_keypair X seed ''provider''; attest_keypair = derive_keypair X seed ''policy-attest''
      in \<lparr>pv_id = derive_id X (keypair_verifying_key X keypair), pv_keypair = keypair,
          pv_attest_keypair = attest_keypair\<rparr>)"

definition attest_verifying_key :: "ext \<Rightarrow> Provider \<Rightarrow> verifying_key" where
  "attest_verifying_key X p = keypair_verifying_key X (pv_attest_keypair p)"

datatype blobs = MemoryBlobs memory_store | FsBlobs FsBlobStore

fun blobs_put :: "blobs \<Rightarrow> string \<Rightarrow> string \<Rightarrow> bytes \<Rightarrow> blobs \<times> (usize, BlobError) result" where
  "blobs_put (MemoryBlobs m) did cid bs = (case mem_put m did cid bs of (m', r) \<Rightarrow> (MemoryBlobs m', r))"
| "blobs_put (FsBlobs s) did cid bs = (case fs_put s did cid bs of (s', r) \<Rightarrow> (FsBlobs s', r))"

fun blobs_get :: "blobs \<Rightarrow> string \<Rightarrow> string \<Rightarrow> (bytes, BlobError) result" where
  "blobs_get (MemoryBlobs m) did cid = mem_get m did cid"
| "blobs_get (FsBlobs s) did cid = fs_get s did cid"

fun blobs_has :: "blobs \<Rightarrow> string \<Rightarrow> string \<Rightarrow> bool" where
  "blobs_has (MemoryBlobs m) did cid = mem_has m did cid"
| "blobs_has (FsBlobs s) did cid = fs_has s did cid"

record Limits =
  store_ceiling :: u64
  did_cap :: "u64 option"

datatype CompactionPolicy = OnAck | Deferred

record AppState =
  as_provider :: Provider
  as_blobs :: blobs
  as_store :: Store
  as_limits :: Limits
  as_day :: u64
  as_replay :: ReplayGuard
  as_service_did :: string
  as_admin_dids :: "string list"
  as_admin_only_du :: bool
  as_compaction :: CompactionPolicy
  as_compute :: ComputeLedger

section \<open>Requests and outcomes\<close>

record AuthedWrite =
  aw_did :: string
  aw_jti :: "string option"

datatype Op =
    PutObject string string bytes
  | GetObject string string
  | PutManifest string string bytes
  | GetManifest string
  | GetMeter string
  | ListBlobs string
  | PutAssertion string string "string option" bytes "AuthedWrite option"
  | GetAssertion string string "string option"
  | DeleteAssertion string string "string option"
  | ListAssertions string string
  | GetChain string string "string option"
  | CompactChain string string "string option"
  | CountersignReceipt string string string
  | Du string

fun op_class :: "Op \<Rightarrow> string" where
  "op_class (PutObject _ _ _) = ''object-write''"
| "op_class (GetObject _ _) = ''object-read''"
| "op_class (PutManifest _ _ _) = ''manifest-write''"
| "op_class (GetManifest _) = ''manifest-read''"
| "op_class (GetMeter _) = ''meter-read''"
| "op_class (ListBlobs _) = ''list-blobs''"
| "op_class (PutAssertion _ _ _ _ _) = ''assertion-write''"
| "op_class (GetAssertion _ _ _) = ''assertion-read''"
| "op_class (DeleteAssertion _ _ _) = ''assertion-delete''"
| "op_class (ListAssertions _ _) = ''assertion-list''"
| "op_class (GetChain _ _ _) = ''chain-read''"
| "op_class (CompactChain _ _ _) = ''chain-compact''"
| "op_class (CountersignReceipt _ _ _) = ''countersign''"
| "op_class (Du _) = ''du''"

datatype OpOutcome =
    Stored string u64 ReceiptMode string
  | Bytes string bytes
  | ManifestSaved string u64
  | ManifestBody string
  | Meter u64 u64 u64 u64 u64 u64
  | BlobList "string list"
  | AssertionSaved u64 string
  | PolicyBodyOut string
  | UsageBody string
  | ChainBody string
  | ChainCompacted u64
  | AssertionErased
  | AssertionSubkeys "string list"

section \<open>Plumbing: the question mark\<close>

fun map_err :: "('e \<Rightarrow> 'f) \<Rightarrow> ('a, 'e) result \<Rightarrow> ('a, 'f) result" where
  "map_err f (Ok a) = Ok a"
| "map_err f (Err e) = Err (f e)"
| "map_err f Panic = Panic"

abbreviation persist :: "('a, PersistError) result \<Rightarrow> ('a, ServerError) result" where
  "persist \<equiv> map_err SePersist"

abbreviation no_error :: "('a, unit) result \<Rightarrow> ('a, ServerError) result" where
  "no_error \<equiv> map_err (\<lambda>_. TaskJoin)"

definition sbind :: "'s \<times> ('a, 'e) result \<Rightarrow> ('s \<Rightarrow> 'a \<Rightarrow> 's \<times> ('b, 'e) result) \<Rightarrow> 's \<times> ('b, 'e) result" where
  "sbind p f = (case p of (s, Ok a) \<Rightarrow> f s a | (s, Err e) \<Rightarrow> (s, Err e) | (s, Panic) \<Rightarrow> (s, Panic))"

definition on_store :: "AppState \<Rightarrow> Store \<times> ('a, PersistError) result \<Rightarrow> AppState \<times> ('a, ServerError) result" where
  "on_store s p = (case p of (st, r) \<Rightarrow> (s\<lparr>as_store := st\<rparr>, persist r))"

section \<open>Authorization\<close>

definition require_owner :: "Principal \<Rightarrow> string \<Rightarrow> (unit, ServerError) result" where
  "require_owner who did =
     (case principal_did who of
        None \<Rightarrow> Err Unauthorized
      | Some owner \<Rightarrow> if owner = did then Ok () else Err Forbidden)"

fun authorize :: "Principal \<Rightarrow> Op \<Rightarrow> (unit, ServerError) result" where
  "authorize who (PutObject did _ _) = require_owner who did"
| "authorize who (GetMeter did) = require_owner who did"
| "authorize who (DeleteAssertion did _ _) = require_owner who did"
| "authorize who (ListAssertions did _) = require_owner who did"
| "authorize who (GetChain did _ _) = require_owner who did"
| "authorize who (CompactChain did _ _) = require_owner who did"
| "authorize who _ = Ok ()"

fun authorize_read :: "AppState \<Rightarrow> Principal \<Rightarrow> Op \<Rightarrow> (unit, ServerError) result" where
  "authorize_read s who (GetObject did cid) =
     (let resolved = resolve_policy (as_store s) did (Some cid) in
      if rp_read_class resolved = World then Ok ()
      else if allows resolved (principal_did who) did then Ok ()
      else Err NotFound)"
| "authorize_read s who _ = Ok ()"

section \<open>Objects\<close>

definition boundary_receipt_mode :: "Store \<Rightarrow> string \<Rightarrow> usize \<Rightarrow> ReceiptMode" where
  "boundary_receipt_mode st did boundary =
     select_mode \<lparr>tc_bytes = boundary, tc_trust_distance = None\<rparr>
       (case receipt_mode_dial st did of BilateralChoice \<Rightarrow> Bilateral | UnilateralChoice \<Rightarrow> Unilateral)"

definition build_boundary_receipt :: "ext \<Rightarrow> Provider \<Rightarrow> ReceiptCore \<Rightarrow> ReceiptMode \<Rightarrow> Receipt" where
  "build_boundary_receipt X pv core mode =
     (case mode of
        Unilateral \<Rightarrow> make_unilateral_receipt X core (pv_id pv) (pv_keypair pv)
      | Bilateral \<Rightarrow>
          let h = content_hash X core
          in \<lparr>r_core = core, r_content_hash = h, r_mode = Bilateral,
              r_sigs = [(pv_id pv, sign_message X (pv_keypair pv) h)]\<rparr>)"

text \<open>The drawdown and spend-ceiling gates of a write, in the order of the code.\<close>

definition write_gates :: "Store \<Rightarrow> string \<Rightarrow> usize \<Rightarrow> (unit, ServerError) result" where
  "write_gates st did boundary =
     (if account_mode st did = Drawdown then Err DrawdownActive
      else case spend_dial st did of
        None \<Rightarrow> Ok ()
      | Some ceiling_cents \<Rightarrow>
          result_bind (persist (period_baseline st did)) (\<lambda>baseline.
          result_bind (persist (running_totals st did)) (\<lambda>totals.
          result_bind (total_bytes totals) (\<lambda>t.
            let period_bytes = saturating_sub t baseline;
                spent_cents = postage_cents period_bytes;
                needed_cents = postage_cents (saturating_add period_bytes boundary)
            in if needed_cents > ceiling_cents \<and> needed_cents > spent_cents
               then Err (SpendCeiling needed_cents spent_cents ceiling_cents)
               else Ok ()))))"

definition effective_cap :: "u64 option \<Rightarrow> u64 option \<Rightarrow> u64 option" where
  "effective_cap provider dial =
     (case (provider, dial) of
        (Some p, Some d) \<Rightarrow> Some (min p d)
      | (Some p, None) \<Rightarrow> Some p
      | (None, Some d) \<Rightarrow> Some d
      | (None, None) \<Rightarrow> None)"

text \<open>The quota of a new object: the ceiling of the whole store, which also reads the bytes the tenant has
  stored, and then the tenant's effective cap. The code reads the dial under a second lock.\<close>

definition ceiling_gate :: "Limits \<Rightarrow> Store \<Rightarrow> string \<Rightarrow> u64 \<Rightarrow> (u64, ServerError) result" where
  "ceiling_gate limits st did sz =
     result_bind (persist (store_usage st)) (\<lambda>store_used.
     result_bind (persist (did_stored_bytes st did)) (\<lambda>did_stored.
       if saturating_add store_used sz > store_ceiling limits then Err StoreFull else Ok did_stored))"

definition cap_gate :: "Limits \<Rightarrow> Store \<Rightarrow> string \<Rightarrow> u64 \<Rightarrow> u64 \<Rightarrow> (unit, ServerError) result" where
  "cap_gate limits st did did_stored sz =
     (case effective_cap (did_cap limits) (at_rest_dial st did) of
        None \<Rightarrow> Ok ()
      | Some cap \<Rightarrow> if saturating_add did_stored sz > cap then Err DidQuotaExceeded else Ok ())"

definition quota_gate :: "Limits \<Rightarrow> Store \<Rightarrow> string \<Rightarrow> u64 \<Rightarrow> (unit, ServerError) result" where
  "quota_gate limits st did sz =
     result_bind (ceiling_gate limits st did sz) (\<lambda>did_stored. cap_gate limits st did did_stored sz)"

text \<open>The receipt of a transfer: the running total before it plus its bytes, the account mode and
  the receipt mode of the moment.\<close>

definition transfer_receipt ::
  "ext \<Rightarrow> AppState \<Rightarrow> Direction \<Rightarrow> string \<Rightarrow> string \<Rightarrow> usize \<Rightarrow> (Receipt, ServerError) result" where
  "transfer_receipt X s direction did cid boundary =
     (let st = as_store s; pv = as_provider s in
      result_bind (persist (running_totals st did)) (\<lambda>totals.
      result_bind (total_bytes totals) (\<lambda>t.
        case u64_add t boundary of
          None \<Rightarrow> Panic
        | Some running \<Rightarrow>
            result_bind (no_error (receipt_core_new direction cid (0, boundary) running (as_day s) (account_mode st did)
                (case direction of Upload \<Rightarrow> pv_id pv | Download \<Rightarrow> did)
                (case direction of Upload \<Rightarrow> did | Download \<Rightarrow> pv_id pv)))
              (\<lambda>core. Ok (build_boundary_receipt X pv core (boundary_receipt_mode st did boundary))))))"

definition op_put_object ::
  "ext \<Rightarrow> AppState \<Rightarrow> string \<Rightarrow> string \<Rightarrow> bytes \<Rightarrow> AppState \<times> (OpOutcome, ServerError) result" where
  "op_put_object X s did key bs =
     (let boundary = length bs; cid = sha256_hex X bs in
      sbind (s, write_gates (as_store s) did boundary) (\<lambda>s _.
      let is_new_store = \<not> blobs_has (as_blobs s) did cid in
      sbind (s, if is_new_store then quota_gate (as_limits s) (as_store s) did boundary else Ok ()) (\<lambda>s _.
      sbind (case blobs_put (as_blobs s) did cid bs of (b, r) \<Rightarrow> (s\<lparr>as_blobs := b\<rparr>, map_err SeBlob r)) (\<lambda>s written.
      if written \<noteq> boundary then (s, Err (ByteCountMismatch boundary written))
      else sbind (s, transfer_receipt X s Upload did cid boundary) (\<lambda>s receipt.
        sbind (if is_new_store then on_store s (add_stored_bytes (as_store s) did boundary) else (s, Ok ())) (\<lambda>s _.
        sbind (on_store s (append_receipt (as_store s) did receipt)) (\<lambda>s _.
          (s, Ok (Stored cid boundary (r_mode receipt) (r_content_hash receipt))))))))))"

definition blob_error :: "BlobError \<Rightarrow> ServerError" where
  "blob_error e =
     (case e of
        BlobMissing _ _ \<Rightarrow> NotFound
      | BlobTooLarge _ _ sz mx \<Rightarrow> ObjectTooLarge sz mx
      | BlobIo d c \<Rightarrow> SeBlob (BlobIo d c))"

definition op_get_object :: "ext \<Rightarrow> AppState \<Rightarrow> string \<Rightarrow> string \<Rightarrow> AppState \<times> (OpOutcome, ServerError) result" where
  "op_get_object X s did cid =
     sbind (s, map_err blob_error (blobs_get (as_blobs s) did cid)) (\<lambda>s data.
     let actual = sha256_hex X data in
     if actual \<noteq> cid then (s, Err (Tampered cid actual))
     else sbind (s, transfer_receipt X s Download did cid (length data)) (\<lambda>s receipt.
       sbind (on_store s (append_receipt (as_store s) did receipt)) (\<lambda>s _.
         (s, Ok (Bytes cid data)))))"

section \<open>Manifests and the meter\<close>

definition op_put_manifest ::
  "ext \<Rightarrow> net \<Rightarrow> AppState \<Rightarrow> string \<Rightarrow> string \<Rightarrow> bytes \<Rightarrow> AppState \<times> (OpOutcome, ServerError) result" where
  "op_put_manifest X N s did pubkey_hex body =
     (case from_slice N de_manifest body of
        None \<Rightarrow> (s, Err (BadManifest ''body is not a valid manifest''))
      | Some manifest \<Rightarrow>
          (case public_key_from_hex X pubkey_hex of
             Ok key \<Rightarrow>
               if derive_id X key \<noteq> did then (s, Err DidKeyMismatch)
               else if m_signer_id manifest \<noteq> did then (s, Err (BadManifest ''manifest signer_id is not the DID''))
               else sbind (s, no_error (manifest_verify X manifest key)) (\<lambda>s verified.
                 if \<not> verified then (s, Err (BadManifest ''manifest signature/root invalid''))
                 else
                   let st = as_store s;
                       existing_total = (case load_manifest st did of None \<Rightarrow> 0 | Some m \<Rightarrow> m_total_bytes m)
                   in if account_mode st did = Drawdown \<and> m_total_bytes manifest > existing_total
                        then (s, Err DrawdownActive)
                      else if (case load_manifest st did of
                                 None \<Rightarrow> False | Some existing \<Rightarrow> m_seq manifest \<le> m_seq existing)
                        then (s, Err (AssertionStale ''manifest'' (m_seq manifest)))
                      else (s\<lparr>as_store := save_manifest st did manifest\<rparr>,
                            Ok (ManifestSaved (m_root manifest) (m_total_bytes manifest))))
           | Err _ \<Rightarrow> (s, Err BadPubkey)
           | Panic \<Rightarrow> (s, Panic)))"

definition op_get_manifest :: "ext \<Rightarrow> AppState \<Rightarrow> string \<Rightarrow> (OpOutcome, ServerError) result" where
  "op_get_manifest X s did =
     (case load_manifest (as_store s) did of
        None \<Rightarrow> Err NotFound
      | Some m \<Rightarrow> Ok (ManifestBody (render (scalar_text X) (manifest_json m))))"

definition op_get_meter :: "AppState \<Rightarrow> string \<Rightarrow> (OpOutcome, ServerError) result" where
  "op_get_meter s did =
     result_bind (persist (running_totals (as_store s) did)) (\<lambda>totals.
     result_bind (total_bytes totals) (\<lambda>t.
       Ok (Meter (rt_receipt_count totals) (rt_upload_bytes totals) (rt_download_bytes totals) t
             (postage_cents t) (rt_drawdown_download_bytes totals))))"

section \<open>Listings\<close>

definition uploads :: "Receipt list \<Rightarrow> Receipt list" where
  "uploads rs = filter (\<lambda>r. rc_direction (r_core r) = Upload) rs"

definition op_list_blobs :: "AppState \<Rightarrow> Principal \<Rightarrow> string \<Rightarrow> (OpOutcome, ServerError) result" where
  "op_list_blobs s who did =
     (let st = as_store s;
          distinct_cids = dedup_first {} (map (\<lambda>r. rc_cid (r_core r)) (uploads (load_receipts st did)));
          namespace = resolve_policy st did None
      in if rp_read_class namespace = World \<and> \<not> has_object_policies st did then Ok (BlobList distinct_cids)
         else Ok (BlobList (filter (\<lambda>cid.
                allows (case resolve_object_policy st did cid of Some object \<Rightarrow> object | None \<Rightarrow> namespace)
                  (principal_did who) did) distinct_cids)))"

text \<open>Upload bytes per distinct address, in first-upload order; a sum that leaves 64 bits panics.\<close>

fun du_loop :: "Receipt list \<Rightarrow> (string \<times> u64) list \<Rightarrow> (string \<times> u64) list option" where
  "du_loop [] sizes = Some sizes"
| "du_loop (r # rs) sizes =
     (let cid = rc_cid (r_core r); bs = rc_bytes (r_core r) in
      case map_of sizes cid of
        Some v \<Rightarrow> (case u64_add v bs of None \<Rightarrow> None | Some v' \<Rightarrow> du_loop rs (AList.update cid v' sizes))
      | None \<Rightarrow> du_loop rs (sizes @ [(cid, bs)]))"

definition op_du :: "ext \<Rightarrow> AppState \<Rightarrow> Principal \<Rightarrow> string \<Rightarrow> (OpOutcome, ServerError) result" where
  "op_du X s who did =
     (let caller = principal_did who in
      if caller \<noteq> Some did then Err Forbidden
      else if as_admin_only_du s \<and> \<not> (case caller of None \<Rightarrow> False | Some c \<Rightarrow> c \<in> set (as_admin_dids s))
        then Err DuLockedToAdmins
      else case du_loop (uploads (load_receipts (as_store s) did)) [] of
        None \<Rightarrow> Panic
      | Some sizes \<Rightarrow>
          if sum_list (map snd sizes) > u64_max then Panic
          else Ok (UsageBody (render (scalar_text X) (to_value (JObj
                 [(''objects'', JArr (map (\<lambda>(cid, n). JObj [(''cid'', JStr cid), (''bytes'', JInt (int n))]) sizes)),
                  (''total_bytes'', JInt (int (sum_list (map snd sizes))))])))))"

section \<open>Assertions\<close>

definition provider_at_rest_bound :: "Limits \<Rightarrow> u64" where
  "provider_at_rest_bound limits =
     (case did_cap limits of None \<Rightarrow> store_ceiling limits | Some cap \<Rightarrow> min cap (store_ceiling limits))"

definition is_chain_kind :: "string \<Rightarrow> bool" where
  "is_chain_kind kind = (case kind_spec kind of None \<Rightarrow> False | Some spec \<Rightarrow> ks_retention spec = Chain)"

definition ack_json :: "Ack \<Rightarrow> json" where
  "ack_json a = JObj [(''signer'', JStr (ack_signer a)), (''sig'', JStr (ack_sig a))]"

text \<open>The record a write carries: attested by the provider for an authenticated owner (Model C), or
  submitted signed (Model A).\<close>

definition write_record ::
  "ext \<Rightarrow> net \<Rightarrow> Provider \<Rightarrow> string \<Rightarrow> string \<Rightarrow> string option \<Rightarrow> bytes \<Rightarrow> AuthedWrite option
   \<Rightarrow> (SignedAssertion, ServerError) result" where
  "write_record X N pv did kind subkey body authed =
     (case authed of
        Some auth \<Rightarrow>
          if aw_did auth \<noteq> did then Err AssertionUnauthorized
          else (case from_slice N de_intent body of
                  None \<Rightarrow> Err (BadAssertion ''body is not a valid assertion intent'')
                | Some intent \<Rightarrow>
                    result_bind (map_err BadAssertion (kind_fold kind subkey (in_body intent))) (\<lambda>fold.
                      Ok (attest_provider X kind did subkey (in_seq intent) (in_body intent) fold
                            (case aw_jti auth of None \<Rightarrow> [] | Some j \<Rightarrow> j) (pv_attest_keypair pv))))
      | None \<Rightarrow>
          (case from_slice N de_signed_assertion body of
             None \<Rightarrow> Err (BadAssertion ''body is not a valid signed assertion'')
           | Some record \<Rightarrow>
               if sa_did record \<noteq> did \<or> sa_kind record \<noteq> kind \<or> sa_subkey record \<noteq> subkey
               then Err (BadAssertion ''assertion target does not match the route'')
               else Ok record))"

text \<open>The checks on the body before the store is consulted: its kind, its size, the ceiling dial
  against the provider's bound.\<close>

definition body_checks ::
  "ext \<Rightarrow> Limits \<Rightarrow> string \<Rightarrow> string option \<Rightarrow> SignedAssertion \<Rightarrow> (string, ServerError) result" where
  "body_checks X limits kind subkey record =
     result_bind (map_err BadAssertion (kind_fold kind subkey (sa_body record))) (\<lambda>fold.
     let sz = length (render (scalar_text X) (sa_body record)) in
     case kind_spec kind of
       Some spec \<Rightarrow>
         if sz > body_ceiling (ks_sizing spec)
         then Err (BodyAboveCeiling kind sz (body_ceiling (ks_sizing spec)))
         else if kind = CEILING_DIAL_KIND then
           (case Option.bind (de_ceiling (sa_body record)) cd_at_rest_bytes of
              Some asserted \<Rightarrow>
                if asserted > provider_at_rest_bound limits
                then Err (AssertionAboveBound asserted (provider_at_rest_bound limits)) else Ok fold
            | None \<Rightarrow> Ok fold)
         else Ok fold
     | None \<Rightarrow> Ok fold)"

definition append_verified_chain_entry ::
  "ext \<Rightarrow> AppState \<Rightarrow> string \<Rightarrow> string \<Rightarrow> string option \<Rightarrow> SignedAssertion \<Rightarrow> Ack
   \<Rightarrow> AppState \<times> (OpOutcome, ServerError) result" where
  "append_verified_chain_entry X s did kind subkey record ack =
     (let st = as_store s; saved = AssertionSaved (sa_seq record) (render (scalar_text X) (ack_json ack)) in
      case de_chain_step (sa_body record) of
        None \<Rightarrow> (s, Err (BadAssertion ''body is not a valid chain.counter entry''))
      | Some (Step body) \<Rightarrow>
          sbind (s, map_err (\<lambda>brk. ChainBroken (chain_break_reason brk))
                      (verify_step (latest_chain_entry st did kind subkey) body (sa_seq record))) (\<lambda>s _.
          sbind (on_store s (append_chain_entry st record ack body
                   (entry_hash X did kind subkey (sa_seq record) body))) (\<lambda>s _.
            (s, Ok saved)))
      | Some (Checkpoint body) \<Rightarrow>
          (case latest_chain_entry st did kind subkey of
             None \<Rightarrow> (s, Err (ChainBroken ''a checkpoint needs a chain to close (none exists)''))
           | Some prev \<Rightarrow>
               let expected_prev = (case latest_checkpoint_hash st did kind subkey of
                                      None \<Rightarrow> GENESIS_PREV_HASH | Some h \<Rightarrow> h)
               in sbind (s, map_err (\<lambda>brk. ChainBroken (chain_break_reason brk))
                           (verify_checkpoint prev expected_prev body (sa_seq record))) (\<lambda>s _.
                  sbind (on_store s (append_checkpoint_entry st record ack body
                           (checkpoint_hash X did kind subkey (sa_seq record) body))) (\<lambda>s _.
                    if as_compaction s = OnAck
                    then (s\<lparr>as_store := fst (compact_behind_latest_checkpoint (as_store s) did kind subkey)\<rparr>, Ok saved)
                    else (s, Ok saved)))))"

definition op_put_assertion ::
  "ext \<Rightarrow> net \<Rightarrow> AppState \<Rightarrow> string \<Rightarrow> string \<Rightarrow> string option \<Rightarrow> bytes \<Rightarrow> AuthedWrite option
   \<Rightarrow> AppState \<times> (OpOutcome, ServerError) result" where
  "op_put_assertion X N s did kind subkey body authed =
     sbind (s, write_record X N (as_provider s) did kind subkey body authed) (\<lambda>s record.
     sbind (s, body_checks X (as_limits s) kind subkey record) (\<lambda>s fold.
     if (case assertion_seq (as_store s) did kind subkey of None \<Rightarrow> False | Some prior \<Rightarrow> sa_seq record \<le> prior)
       then (s, Err (AssertionStale kind (sa_seq record)))
     else if \<not> assertion_verify X record fold None (attest_verifying_key X (as_provider s))
       then (s, Err AssertionUnauthorized)
     else
       let ack = make_ack X record (pv_attest_keypair (as_provider s)) in
       if is_chain_kind kind then append_verified_chain_entry X s did kind subkey record ack
       else sbind (on_store s (save_assertion (as_store s) record ack)) (\<lambda>s _.
         sbind (if kind = PERIOD_DIAL_KIND
                then (case result_bind (persist (running_totals (as_store s) did)) total_bytes of
                        Ok baseline \<Rightarrow> (s\<lparr>as_store := put_meta (as_store s) (baseline_key did) (show_nat baseline)\<rparr>, Ok ())
                      | Err e \<Rightarrow> (s, Err e)
                      | Panic \<Rightarrow> (s, Panic))
                else (s, Ok ())) (\<lambda>s _.
           (s, Ok (AssertionSaved (sa_seq record) (render (scalar_text X) (ack_json ack))))))))"

definition op_get_assertion ::
  "ext \<Rightarrow> AppState \<Rightarrow> Principal \<Rightarrow> string \<Rightarrow> string \<Rightarrow> string option \<Rightarrow> (OpOutcome, ServerError) result" where
  "op_get_assertion X s who did kind subkey =
     result_bind (persist (load_assertion (as_store s) did kind subkey)) (\<lambda>loaded.
     case loaded of
       None \<Rightarrow> Err NotFound
     | Some (record, ack) \<Rightarrow>
         let caller = principal_did who in
         if caller = Some did then
           Ok (PolicyBodyOut (render (scalar_text X) (to_value
                 (JObj [(''assertion'', assertion_json record), (''ack'', ack_json ack)]))))
         else if kind = POLICY_KIND then
           (case de_policy_body (sa_body record) of
              Some body \<Rightarrow>
                if allows (from_body body) caller did
                then Ok (PolicyBodyOut (render (scalar_text X) (to_value
                       (JObj [(''read_class'', JStr (read_class_tag (pb_read_class body))), (''may_read'', JBool True)]))))
                else Err NotFound
            | None \<Rightarrow> Err NotFound)
         else Err NotFound)"

definition op_delete_assertion ::
  "AppState \<Rightarrow> string \<Rightarrow> string \<Rightarrow> string option \<Rightarrow> AppState \<times> (OpOutcome, ServerError) result" where
  "op_delete_assertion s did kind subkey =
     (case kind_spec kind of
        None \<Rightarrow> (s, Err (BadAssertion ''unknown assertion kind''))
      | Some spec \<Rightarrow>
          if ks_erasure spec = Permanent then (s, Err (ErasureNotAllowed kind))
          else (case delete_assertion (as_store s) did kind subkey of
                  (st, deleted) \<Rightarrow>
                    (s\<lparr>as_store := st\<rparr>, if deleted then Ok AssertionErased else Err NotFound)))"

definition op_list_assertions :: "AppState \<Rightarrow> string \<Rightarrow> string \<Rightarrow> (OpOutcome, ServerError) result" where
  "op_list_assertions s did kind =
     (case kind_spec kind of
        None \<Rightarrow> Err (BadAssertion ''unknown assertion kind'')
      | Some spec \<Rightarrow>
          if ks_enumeration spec = PointOnly then Err (EnumerationNotAllowed kind)
          else Ok (AssertionSubkeys (list_assertion_subkeys (as_store s) did kind)))"

section \<open>Chains\<close>

definition op_get_chain ::
  "ext \<Rightarrow> AppState \<Rightarrow> string \<Rightarrow> string \<Rightarrow> string option \<Rightarrow> (OpOutcome, ServerError) result" where
  "op_get_chain X s did kind subkey =
     (if \<not> is_chain_kind kind then Err (BadAssertion ''kind does not support a chain read'')
      else
        let entries = chain_entries (as_store s) did kind subkey in
        result_bind (map_err (\<lambda>brk. ChainBroken (chain_break_reason brk)) (recompute_total X (map fst entries)))
          (\<lambda>t. Ok (ChainBody (render (scalar_text X) (to_value
             (JObj [(''entries'', JArr (map (\<lambda>(_, record). assertion_json record) entries)),
                    (''total'', JInt (int t))]))))))"

definition op_compact_chain ::
  "AppState \<Rightarrow> string \<Rightarrow> string \<Rightarrow> string option \<Rightarrow> AppState \<times> (OpOutcome, ServerError) result" where
  "op_compact_chain s did kind subkey =
     (if \<not> is_chain_kind kind then (s, Err (BadAssertion ''kind does not support compaction''))
      else case compact_behind_latest_checkpoint (as_store s) did kind subkey of
        (st, Some behind) \<Rightarrow> (s\<lparr>as_store := st\<rparr>, Ok (ChainCompacted behind))
      | (st, None) \<Rightarrow> (s\<lparr>as_store := st\<rparr>, Err (ChainBroken ''no acknowledged checkpoint to compact behind'')))"

definition op_countersign_receipt ::
  "ext \<Rightarrow> net \<Rightarrow> AppState \<Rightarrow> string \<Rightarrow> string \<Rightarrow> string \<Rightarrow> AppState \<times> (OpOutcome, ServerError) result" where
  "op_countersign_receipt X N s did h sig_payload =
     (case from_slice N de_countersign sig_payload of
        None \<Rightarrow> (s, Err (BadAssertion ''body is not a valid countersign''))
      | Some body \<Rightarrow>
          (case public_key_from_hex X (cs_signer body) of
             Ok key \<Rightarrow>
               if derive_id X key \<noteq> did then (s, Err AssertionUnauthorized)
               else if \<not> verify_message X key h (cs_sig body) then (s, Err AssertionUnauthorized)
               else (case countersign_receipt X (as_store s) did h did (cs_sig body) of
                       (st, None) \<Rightarrow> (s\<lparr>as_store := st\<rparr>, Err NotFound)
                     | (st, Some completed) \<Rightarrow>
                         (s\<lparr>as_store := st\<rparr>, Ok (PolicyBodyOut (render (scalar_text X) (receipt_json completed)))))
           | Err _ \<Rightarrow> (s, Err BadPubkey)
           | Panic \<Rightarrow> (s, Panic)))"

section \<open>Dispatch\<close>

fun dispatch_op ::
  "ext \<Rightarrow> net \<Rightarrow> AppState \<Rightarrow> Principal \<Rightarrow> Op \<Rightarrow> AppState \<times> (OpOutcome, ServerError) result" where
  "dispatch_op X N s who (PutObject did key bs) = op_put_object X s did key bs"
| "dispatch_op X N s who (GetObject did cid) = op_get_object X s did cid"
| "dispatch_op X N s who (PutManifest did pubkey_hex body) = op_put_manifest X N s did pubkey_hex body"
| "dispatch_op X N s who (GetManifest did) = (s, op_get_manifest X s did)"
| "dispatch_op X N s who (GetMeter did) = (s, op_get_meter s did)"
| "dispatch_op X N s who (ListBlobs did) = (s, op_list_blobs s who did)"
| "dispatch_op X N s who (PutAssertion did kind subkey body authed) =
     op_put_assertion X N s did kind subkey body authed"
| "dispatch_op X N s who (GetAssertion did kind subkey) = (s, op_get_assertion X s who did kind subkey)"
| "dispatch_op X N s who (DeleteAssertion did kind subkey) = op_delete_assertion s did kind subkey"
| "dispatch_op X N s who (ListAssertions did kind) = (s, op_list_assertions s did kind)"
| "dispatch_op X N s who (GetChain did kind subkey) = (s, op_get_chain X s did kind subkey)"
| "dispatch_op X N s who (CompactChain did kind subkey) = op_compact_chain s did kind subkey"
| "dispatch_op X N s who (CountersignReceipt did h sg) = op_countersign_receipt X N s did h sg"
| "dispatch_op X N s who (Du did) = (s, op_du X s who did)"

definition dispatch ::
  "ext \<Rightarrow> net \<Rightarrow> u64 \<Rightarrow> AppState \<Rightarrow> Principal \<Rightarrow> Op \<Rightarrow> AppState \<times> (OpOutcome, ServerError) result" where
  "dispatch X N micros s who oper =
     sbind (s, authorize who oper) (\<lambda>s _.
     sbind (s, authorize_read s who oper) (\<lambda>s _.
       case dispatch_op X N s who oper of
         (s', Panic) \<Rightarrow> (s', Panic)
       | (s', outcome) \<Rightarrow>
           (case compute_record (as_compute s')
               (case principal_did who of None \<Rightarrow> ANONYMOUS_CALLER | Some c \<Rightarrow> c) (op_class oper) micros of
              Ok ledger \<Rightarrow> (s'\<lparr>as_compute := ledger\<rparr>, outcome)
            | _ \<Rightarrow> (s', Panic))))"

definition dispatch_blocking ::
  "ext \<Rightarrow> net \<Rightarrow> u64 \<Rightarrow> AppState \<Rightarrow> Principal \<Rightarrow> Op \<Rightarrow> AppState \<times> (OpOutcome, ServerError) result" where
  "dispatch_blocking X N micros s who oper =
     (case dispatch X N micros s who oper of
        (s', Panic) \<Rightarrow> (s', Err TaskJoin)
      | (s', r) \<Rightarrow> (s', r))"

end
