(* ===== verification/Server_Laws.thy ===== *)
theory Server_Laws
  imports Server
begin

text \<open>
  What the operations of the server keep and promise: the backend contract for the server's choice
  of backend, the frame of every operation (what it can change, and for whom), the metering
  invariant, the storage quota, and the guarantees of each write and read.
\<close>

section \<open>Plumbing\<close>

lemma sbind_Ok: "sbind p f = (s', Ok b) \<longleftrightarrow> (\<exists>s a. p = (s, Ok a) \<and> f s a = (s', Ok b))"
  by (auto simp: sbind_def split: prod.splits result.splits)

lemma sbind_simps [simp]:
  "sbind (s, Ok a) f = f s a" "sbind (s, Err e) f = (s, Err e)" "sbind (s, Panic) f = (s, Panic)"
  by (simp_all add: sbind_def)

lemma sbind_inv:
  assumes "P (fst p)" "\<And>s a. p = (s, Ok a) \<Longrightarrow> P s \<Longrightarrow> P (fst (f s a))"
  shows "P (fst (sbind p f))"
  using assms by (auto simp: sbind_def split: prod.splits result.splits)

lemma map_err_Ok [simp]: "map_err f r = Ok a \<longleftrightarrow> r = Ok a"
  by (cases r) auto

lemma map_err_Panic [simp]: "map_err f r = Panic \<longleftrightarrow> r = Panic"
  by (cases r) auto

lemma on_store_Ok: "on_store s p = (s', Ok a) \<longleftrightarrow> (\<exists>st. p = (st, Ok a) \<and> s' = s\<lparr>as_store := st\<rparr>)"
  by (auto simp: on_store_def split: prod.splits)

lemma fst_on_store [simp]: "fst (on_store s p) = s\<lparr>as_store := fst p\<rparr>"
  by (simp add: on_store_def split: prod.splits)

section \<open>The backend behind the trait object\<close>

interpretation backend: blob_store blobs_put blobs_get blobs_has
proof unfold_locales
  fix s s' :: blobs and d c d' c' :: string and b x :: bytes and n r e
  show "n = length b" if "blobs_put s d c b = (s', Ok n)"
    using that memory.put_length filesystem.put_length by (cases s) (auto split: prod.splits)
  show "x = b" if "blobs_put s d c b = (s', Ok n)" "\<not> blobs_has s d c" "blobs_get s' d c = Ok x"
    using that memory.put_fresh filesystem.put_fresh by (cases s) (auto split: prod.splits)
  show "blobs_get s' d' c' = blobs_get s d' c'" if "blobs_put s d c b = (s', r)" "(d', c') \<noteq> (d, c)"
    using that memory.put_frame [OF _ that(2)] filesystem.put_frame [OF _ that(2)]
    by (cases s) (auto split: prod.splits)
  show "length x \<le> MAX_OBJECT_BYTES" if "blobs_get s d c = Ok x"
    using that memory.get_bound filesystem.get_bound by (cases s) auto
  show "blobs_get s' d c = blobs_get s d c" if "blobs_put s d c b = (s', Err e)"
    using that memory.put_failed filesystem.put_failed by (cases s) (auto split: prod.splits)
qed

section \<open>Invariants of every operation\<close>

text \<open>An operation changes the store by the store's own operations only, each for the tenant the
  operation names. A property of the store that each of them keeps, for every tenant \<open>T\<close>
  allows, is kept by every dispatch for such a tenant: the locale has the obligations once.\<close>

fun op_did :: "Op \<Rightarrow> string" where
  "op_did (PutObject did _ _) = did"
| "op_did (GetObject did _) = did"
| "op_did (PutManifest did _ _) = did"
| "op_did (GetManifest did) = did"
| "op_did (GetMeter did) = did"
| "op_did (ListBlobs did) = did"
| "op_did (PutAssertion did _ _ _ _) = did"
| "op_did (GetAssertion did _ _) = did"
| "op_did (DeleteAssertion did _ _) = did"
| "op_did (ListAssertions did _) = did"
| "op_did (GetChain did _ _) = did"
| "op_did (CompactChain did _ _) = did"
| "op_did (CountersignReceipt did _ _) = did"
| "op_did (Du did) = did"

lemma write_record_target:
  assumes "write_record X N pv did kind subkey body authed = Ok a"
  shows "sa_did a = did" "sa_kind a = kind" "sa_subkey a = subkey"
  using assms
  by (auto simp: write_record_def result_bind_Ok attest_provider_def split: option.splits if_splits)

locale table_invariant =
  fixes I :: "Store \<Rightarrow> bool" and T :: "string \<Rightarrow> bool"
  assumes save_manifest: "T did \<Longrightarrow> I st \<Longrightarrow> (\<And>old. load_manifest st did = Some old \<Longrightarrow> m_seq old < m_seq m) \<Longrightarrow>
      I (save_manifest st did m)"
    and save_assertion: "T (sa_did a) \<Longrightarrow> I st \<Longrightarrow> I (fst (save_assertion st a k))"
    and delete_assertion: "T did \<Longrightarrow> I st \<Longrightarrow> I (fst (delete_assertion st did kind sk))"
    and append_chain_entry: "T (sa_did a) \<Longrightarrow> I st \<Longrightarrow> I (fst (append_chain_entry st a k b h))"
    and append_checkpoint_entry: "T (sa_did a) \<Longrightarrow> I st \<Longrightarrow> I (fst (append_checkpoint_entry st a k cp h))"
    and compact: "T did \<Longrightarrow> I st \<Longrightarrow> I (fst (compact_behind_latest_checkpoint st did kind sk))"
    and put_baseline: "T did \<Longrightarrow> I st \<Longrightarrow> I (put_meta st (baseline_key did) v)"
    and countersign: "T did \<Longrightarrow> I st \<Longrightarrow> I (fst (countersign_receipt X st did h signer sg))"
begin

lemma chain_write:
  "T did \<Longrightarrow> sa_did a = did \<Longrightarrow> I (as_store s) \<Longrightarrow> I (as_store (fst (append_verified_chain_entry X s did kind sk a k)))"
  unfolding append_verified_chain_entry_def Let_def
  by (auto split: option.splits ChainStep.splits
      intro!: sbind_inv [where P = "\<lambda>s. I (as_store s)"] append_chain_entry append_checkpoint_entry compact)

lemma put_assertion:
  assumes "T did" "I (as_store s)"
  shows "I (as_store (fst (op_put_assertion X N s did kind sk body authed)))"
proof -
  have save: "I (as_store (fst (op_put_assertion X N s did kind sk body authed)))"
    if w: "write_record X N (as_provider s) did kind sk body authed = Ok a" for a
    using assms write_record_target(1) [OF w] unfolding op_put_assertion_def Let_def w
    by (auto split: option.splits result.splits
        intro!: sbind_inv [where P = "\<lambda>s. I (as_store s)"] chain_write save_assertion put_baseline)
  show ?thesis
  proof (cases "write_record X N (as_provider s) did kind sk body authed")
    case (Ok a)
    then show ?thesis by (rule save)
  qed (use assms in \<open>simp_all add: op_put_assertion_def\<close>)
qed

lemma put_manifest: "T did \<Longrightarrow> I (as_store s) \<Longrightarrow> I (as_store (fst (op_put_manifest X N s did pk body)))"
  unfolding op_put_manifest_def Let_def
  by (auto split: option.splits result.splits
      intro!: sbind_inv [where P = "\<lambda>s. I (as_store s)"] save_manifest)

lemma stepD:
  "delete_assertion st did kind sk = (st', del) \<Longrightarrow> T did \<Longrightarrow> I st \<Longrightarrow> I st'"
  "compact_behind_latest_checkpoint st did kind sk = (st', n) \<Longrightarrow> T did \<Longrightarrow> I st \<Longrightarrow> I st'"
  "countersign_receipt X st did h signer sg = (st', c) \<Longrightarrow> T did \<Longrightarrow> I st \<Longrightarrow> I st'"
  using delete_assertion compact countersign by (metis fst_conv)+

lemma tabled_ops:
  assumes "T (op_did oper)" "I (as_store s)" "\<And>did key bs. oper \<noteq> PutObject did key bs" "\<And>did cid. oper \<noteq> GetObject did cid"
  shows "I (as_store (fst (dispatch_op X N s who oper)))"
proof (cases oper)
  case (PutObject did key bs)
  then show ?thesis using assms(3) by blast
next
  case (GetObject did cid)
  then show ?thesis using assms(4) by blast
next
  case (DeleteAssertion did kind sk)
  then show ?thesis using assms(1,2)
    by (auto simp: op_delete_assertion_def split: option.splits prod.splits dest: stepD)
next
  case (CompactChain did kind sk)
  then show ?thesis using assms(1,2)
    by (auto simp: op_compact_chain_def split: option.splits prod.splits dest: stepD)
next
  case (CountersignReceipt did h sg)
  then show ?thesis using assms(1,2)
    by (auto simp: op_countersign_receipt_def split: option.splits prod.splits result.splits dest: stepD)
qed (use assms(1,2) put_assertion put_manifest in simp_all)

end

text \<open>With the receipts of transfers, every operation but an upload; with the stored bytes, every one.\<close>

locale store_invariant = table_invariant +
  assumes append_receipt: "T did \<Longrightarrow> I st \<Longrightarrow> I (fst (append_receipt st did r))"
begin

lemma get_object: "T did \<Longrightarrow> I (as_store s) \<Longrightarrow> I (as_store (fst (op_get_object X s did cid)))"
  unfolding op_get_object_def Let_def
  by (auto intro!: sbind_inv [where P = "\<lambda>s. I (as_store s)"] append_receipt)

lemma other_ops:
  assumes "T (op_did oper)" "I (as_store s)" "\<And>did key bs. oper \<noteq> PutObject did key bs"
  shows "I (as_store (fst (dispatch_op X N s who oper)))"
  using assms get_object tabled_ops [OF assms] by (cases oper) auto

end

locale ledger_invariant = store_invariant +
  assumes add_stored_bytes: "T did \<Longrightarrow> I st \<Longrightarrow> I (fst (add_stored_bytes st did n))"
begin

lemma put_object: "T did \<Longrightarrow> I (as_store s) \<Longrightarrow> I (as_store (fst (op_put_object X s did key bs)))"
  unfolding op_put_object_def Let_def
  by (auto split: prod.splits intro!: sbind_inv [where P = "\<lambda>s. I (as_store s)"] append_receipt add_stored_bytes)

lemma dispatch_op: "T (op_did oper) \<Longrightarrow> I (as_store s) \<Longrightarrow> I (as_store (fst (dispatch_op X N s who oper)))"
  using other_ops [of oper s] put_object by (cases oper) auto

end

text \<open>A dispatch is refused before it starts, or it is its operation plus one count in the
  compute ledger.\<close>

lemma dispatch_cases:
  assumes "dispatch X N micros s who oper = (s', r)"
  obtains (refused) e where "s' = s" "r = Err e" "authorize who oper = Err e \<or> authorize_read s who oper = Err e"
  | (ran) s1 r1 where "authorize who oper = Ok ()" "authorize_read s who oper = Ok ()"
      "dispatch_op X N s who oper = (s1, r1)" "as_store s' = as_store s1" "as_blobs s' = as_blobs s1"
      "as_limits s' = as_limits s1" "as_provider s' = as_provider s1" "as_replay s' = as_replay s1"
      "r = r1 \<or> r = Panic"
      "s' = s1 \<or> (\<exists>l. compute_record (as_compute s1)
         (case principal_did who of None \<Rightarrow> ANONYMOUS_CALLER | Some c \<Rightarrow> c) (op_class oper) micros = Ok l \<and>
         s' = s1\<lparr>as_compute := l\<rparr>)"
proof -
  have np: "authorize who oper \<noteq> Panic" "authorize_read s who oper \<noteq> Panic"
    by (cases oper; auto simp: require_owner_def Let_def split: option.splits)+
  show thesis
  proof (cases "authorize who oper")
    case (Err e)
    then show thesis using assms refused [of e] by (simp add: dispatch_def)
  next
    case (Ok u)
    show thesis
    proof (cases "authorize_read s who oper")
      case (Err e)
      then show thesis using assms refused [of e] Ok by (simp add: dispatch_def)
    next
      case ok2: (Ok u2)
      obtain s1 r1 where d: "dispatch_op X N s who oper = (s1, r1)" by fastforce
      let ?c = "compute_record (as_compute s1)
        (case principal_did who of None \<Rightarrow> ANONYMOUS_CALLER | Some c \<Rightarrow> c) (op_class oper) micros"
      have e: "(s', r) = (case r1 of Panic \<Rightarrow> (s1, Panic)
          | _ \<Rightarrow> (case ?c of Ok l \<Rightarrow> (s1\<lparr>as_compute := l\<rparr>, r1) | _ \<Rightarrow> (s1, Panic)))"
        using assms unfolding dispatch_def Ok ok2 sbind_simps d prod.case by (cases r1) auto
      have stop: thesis if "s' = s1" "r = Panic"
        by (rule ran [OF _ _ d]) (simp_all add: that Ok ok2)
      have go: thesis if "?c = Ok l" "s' = s1\<lparr>as_compute := l\<rparr>" "r = r1" for l
        by (rule ran [OF _ _ d]) (use that in \<open>simp_all add: Ok ok2\<close>)
      have run: thesis if "(s', r) = (case ?c of Ok l \<Rightarrow> (s1\<lparr>as_compute := l\<rparr>, r1) | _ \<Rightarrow> (s1, Panic))"
      proof (cases ?c)
        case (Ok l)
        show thesis by (rule go [OF Ok]) (use that Ok in simp_all)
      qed (rule stop; use that in simp)+
      show thesis
      proof (cases r1)
        case Panic
        show thesis by (rule stop) (use e Panic in simp_all)
      qed (rule run; use e in simp)+
    qed (use np in simp)
  qed (use np in simp)
qed

context ledger_invariant
begin

lemma dispatch:
  assumes t: "T (op_did oper)" and inv: "I (as_store s)"
  shows "I (as_store (fst (dispatch X N micros s who oper)))"
proof -
  obtain s' r where d: "dispatch X N micros s who oper = (s', r)" by fastforce
  from d show ?thesis
  proof (cases rule: dispatch_cases)
    case refused
    then show ?thesis using d inv by simp
  next
    case (ran s1 r1)
    then show ?thesis using d dispatch_op [OF t inv, of X N who] by simp
  qed
qed

end

lemma totals_inv_cong:
  "s_receipt st = s_receipt st' \<Longrightarrow> s_did_total st = s_did_total st' \<Longrightarrow> totals_inv st = totals_inv st'"
  by (simp add: totals_inv_def load_receipts_def)

lemma ledger_tables [simp]:
  "s_receipt (save_manifest st did m) = s_receipt st" "s_did_total (save_manifest st did m) = s_did_total st"
  "s_receipt (put_meta st key v) = s_receipt st" "s_did_total (put_meta st key v) = s_did_total st"
  "s_receipt (fst (upsert_assertion st a k)) = s_receipt st" "s_did_total (fst (upsert_assertion st a k)) = s_did_total st"
  "s_receipt (fst (save_assertion st a k)) = s_receipt st" "s_did_total (fst (save_assertion st a k)) = s_did_total st"
  "s_receipt (fst (delete_assertion st did kind sk)) = s_receipt st"
  "s_did_total (fst (delete_assertion st did kind sk)) = s_did_total st"
  "s_receipt (fst (append_chain_entry st a k b h)) = s_receipt st"
  "s_did_total (fst (append_chain_entry st a k b h)) = s_did_total st"
  "s_receipt (fst (append_checkpoint_entry st a k cp h)) = s_receipt st"
  "s_did_total (fst (append_checkpoint_entry st a k cp h)) = s_did_total st"
  "s_receipt (fst (compact_behind_latest_checkpoint st did kind sk)) = s_receipt st"
  "s_did_total (fst (compact_behind_latest_checkpoint st did kind sk)) = s_did_total st"
  by (auto simp: save_manifest_def put_meta_def save_assertion_def upsert_assertion_def delete_assertion_def
      append_chain_entry_def append_checkpoint_entry_def insert_chain_row_def
      compact_behind_latest_checkpoint_def Let_def split: option.splits)

lemma append_receipt_keeps: "totals_inv st \<Longrightarrow> totals_inv (fst (append_receipt st did r))"
proof -
  assume inv: "totals_inv st"
  obtain st' e where a: "append_receipt st did r = (st', e)" by fastforce
  show ?thesis
  proof (cases "e = Ok ()")
    case True
    then show ?thesis using append_receipt_inv(1) [of st did r st' "()"] a inv by simp
  next
    case False
    then show ?thesis using append_receipt_not_Ok [OF a] a inv by simp
  qed
qed

interpretation totals: ledger_invariant totals_inv "\<lambda>_. True"
proof unfold_locales
  fix X st did n h signer sg
  show "totals_inv (fst (add_stored_bytes st did n))" if "totals_inv st"
    using add_stored_bytes_inv [OF _ that] by (metis surjective_pairing)
  show "totals_inv (fst (countersign_receipt X st did h signer sg))" if "totals_inv st"
    using countersign_receipt_inv(1) [OF _ that] by (metis surjective_pairing)
qed (auto simp: append_receipt_keeps elim!: totals_inv_cong [THEN iffD1, rotated 2])

section \<open>Receipts at the boundary\<close>

lemma transfer_receipt_Ok:
  assumes "transfer_receipt X s dir did cid n = Ok r" "totals_inv (as_store s)"
  shows "rc_direction (r_core r) = dir" "rc_cid (r_core r) = cid" "rc_bytes (r_core r) = n"
    "rc_day (r_core r) = as_day s" "rc_account_mode (r_core r) = account_mode (as_store s) did"
    "rc_running_total (r_core r) =
       rt_upload_bytes (ledger_totals (load_receipts (as_store s) did)) +
       rt_download_bytes (ledger_totals (load_receipts (as_store s) did)) + n"
    "rc_running_total (r_core r) \<le> u64_max"
    "rc_receiver_id (r_core r) = (case dir of Upload \<Rightarrow> pv_id (as_provider s) | Download \<Rightarrow> did)"
    "rc_sender_id (r_core r) = (case dir of Upload \<Rightarrow> did | Download \<Rightarrow> pv_id (as_provider s))"
    "r = build_boundary_receipt X (as_provider s) (r_core r) (boundary_receipt_mode (as_store s) did n)"
proof -
  let ?L = "ledger_totals (load_receipts (as_store s) did)"
  have rc: "r_core (build_boundary_receipt X pv core m) = core" for pv core m
    by (simp add: build_boundary_receipt_def make_unilateral_receipt_def Let_def split: ReceiptMode.splits)
  obtain t core where t: "running_totals (as_store s) did = Ok t"
    and le: "rt_upload_bytes t + rt_download_bytes t + n \<le> u64_max"
    and core: "core = \<lparr>rc_direction = dir, rc_cid = cid, rc_byte_start = 0, rc_byte_end = n, rc_bytes = n,
        rc_running_total = rt_upload_bytes t + rt_download_bytes t + n, rc_day = as_day s,
        rc_account_mode = account_mode (as_store s) did,
        rc_receiver_id = (case dir of Upload \<Rightarrow> pv_id (as_provider s) | Download \<Rightarrow> did),
        rc_sender_id = (case dir of Upload \<Rightarrow> did | Download \<Rightarrow> pv_id (as_provider s))\<rparr>"
    and r: "r = build_boundary_receipt X (as_provider s) core (boundary_receipt_mode (as_store s) did n)"
    using assms(1)
    by (auto simp: transfer_receipt_def Let_def result_bind_Ok total_bytes_def receipt_core_new_def
        split: option.splits if_splits)
  have tl: "t = ?L" using running_totals_exact [OF assms(2) t] .
  have rcore: "r_core r = core" by (simp add: r rc)
  show "rc_direction (r_core r) = dir" "rc_cid (r_core r) = cid" "rc_bytes (r_core r) = n"
    "rc_day (r_core r) = as_day s" "rc_account_mode (r_core r) = account_mode (as_store s) did"
    "rc_running_total (r_core r) = rt_upload_bytes ?L + rt_download_bytes ?L + n"
    "rc_running_total (r_core r) \<le> u64_max"
    "rc_receiver_id (r_core r) = (case dir of Upload \<Rightarrow> pv_id (as_provider s) | Download \<Rightarrow> did)"
    "rc_sender_id (r_core r) = (case dir of Upload \<Rightarrow> did | Download \<Rightarrow> pv_id (as_provider s))"
    using le unfolding rcore core tl by simp_all
  show "r = build_boundary_receipt X (as_provider s) (r_core r) (boundary_receipt_mode (as_store s) did n)"
    unfolding rcore by (rule r)
qed

lemma sbind_pure_inv:
  "P s \<Longrightarrow> (\<And>a. r = Ok a \<Longrightarrow> P (fst (f s a))) \<Longrightarrow> P (fst (sbind (s, r) f))"
  by (cases r) auto

section \<open>Writing and reading an object\<close>

lemma op_put_object_Ok:
  assumes "op_put_object X s did key bs = (s', Ok out)"
  obtains r b s1 where
    "write_gates (as_store s) did (length bs) = Ok ()"
    "\<not> blobs_has (as_blobs s) did (sha256_hex X bs) \<Longrightarrow>
       quota_gate (as_limits s) (as_store s) did (length bs) = Ok ()"
    "blobs_put (as_blobs s) did (sha256_hex X bs) bs = (b, Ok (length bs))"
    "s1 = s\<lparr>as_blobs := b\<rparr>"
    "transfer_receipt X s1 Upload did (sha256_hex X bs) (length bs) = Ok r"
    "out = Stored (sha256_hex X bs) (length bs) (r_mode r) (r_content_hash r)"
    "\<exists>st1 st2. (if blobs_has (as_blobs s) did (sha256_hex X bs) then st1 = as_store s
                else add_stored_bytes (as_store s) did (length bs) = (st1, Ok ())) \<and>
       append_receipt st1 did r = (st2, Ok ()) \<and> s' = s1\<lparr>as_store := st2\<rparr>"
  using assms unfolding op_put_object_def Let_def
  by (auto simp: sbind_Ok on_store_Ok split: if_splits prod.splits)

lemma op_get_object_Ok:
  assumes "op_get_object X s did cid = (s', Ok out)"
  obtains data r st where "blobs_get (as_blobs s) did cid = Ok data" "sha256_hex X data = cid"
    "out = Bytes cid data" "transfer_receipt X s Download did cid (length data) = Ok r"
    "append_receipt (as_store s) did r = (st, Ok ())" "s' = s\<lparr>as_store := st\<rparr>"
  using assms unfolding op_get_object_def Let_def
  by (auto simp: sbind_Ok on_store_Ok split: if_splits)

section \<open>The storage quota\<close>

definition stored_total :: "Store \<Rightarrow> nat" where
  "stored_total st = sum_list (map (\<lambda>(_, row). tr_stored_bytes row) (s_did_total st))"

definition stored_of :: "Store \<Rightarrow> string \<Rightarrow> nat" where
  "stored_of st did = (case map_of (s_did_total st) did of None \<Rightarrow> 0 | Some row \<Rightarrow> tr_stored_bytes row)"

lemma sum_bump:
  "distinct (map fst al) \<Longrightarrow> map_of al did = Some row0 \<Longrightarrow>
   sum_list (map (\<lambda>(_, row). tr_stored_bytes row)
     (map (\<lambda>(d, row). (d, if d = did then row\<lparr>tr_stored_bytes := tr_stored_bytes row + n\<rparr> else row)) al)) =
   sum_list (map (\<lambda>(_, row). tr_stored_bytes row) al) + n"
proof (induction al)
  case (Cons p al)
  obtain d row where p: "p = (d, row)" by (cases p)
  show ?case
  proof (cases "d = did")
    case True
    then have "map (\<lambda>(d, row). (d, if d = did then row\<lparr>tr_stored_bytes := tr_stored_bytes row + n\<rparr> else row)) al = al"
      using Cons.prems(1) p by (intro map_idI) force
    then show ?thesis using p True by simp
  next
    case False
    then show ?thesis using Cons p by simp
  qed
qed simp

lemma sum_add_zero_row:
  "map_of al did = None \<Longrightarrow> tr_stored_bytes row = 0 \<Longrightarrow>
   sum_list (map (\<lambda>(_, row). tr_stored_bytes row) (AList.update did row al)) =
   sum_list (map (\<lambda>(_, row). tr_stored_bytes row) al)"
  by (induction al) (auto split: if_splits)

lemma ensure_total_row_stored:
  assumes "ensure_total_row st did = Ok st1"
  shows "stored_total st1 = stored_total st" "stored_of st1 d = stored_of st d"
  using assms
  by (auto simp: ensure_total_row_def stored_total_def stored_of_def sum_add_zero_row update_conv
      split: option.splits result.splits if_splits)

lemma append_receipt_stored:
  "stored_total (fst (append_receipt st did r)) = stored_total st"
  "stored_of (fst (append_receipt st did r)) d = stored_of st d"
proof -
  have keep: "stored_total (update_total_row did (\<lambda>row. row\<lparr>tr_totals := f row\<rparr>) st1) = stored_total st1"
    "stored_of (update_total_row did (\<lambda>row. row\<lparr>tr_totals := f row\<rparr>) st1) d = stored_of st1 d" for f st1
    by (simp_all add: stored_total_def stored_of_def map_of_update_total split: option.splits)
      (auto simp: update_total_row_def comp_def split_def intro!: arg_cong [where f = sum_list])
  have frame: "stored_total (st1\<lparr>s_receipt := x\<rparr>) = stored_total st1" "stored_of (st1\<lparr>s_receipt := x\<rparr>) d = stored_of st1 d"
    for st1 x
    by (simp_all add: stored_total_def stored_of_def)
  show "stored_total (fst (append_receipt st did r)) = stored_total st"
    "stored_of (fst (append_receipt st did r)) d = stored_of st d"
    by (auto simp: append_receipt_def Let_def keep frame ensure_total_row_stored split: result.splits)
qed

lemma add_stored_bytes_stored:
  assumes "add_stored_bytes st did n = (st', Ok u)" "totals_inv st"
  shows "stored_total st' = stored_total st + n" "stored_of st' did = stored_of st did + n" "n \<le> i64_max"
    "\<And>d. d \<noteq> did \<Longrightarrow> stored_of st' d = stored_of st d"
proof -
  obtain st1 where e: "ensure_total_row st did = Ok st1" and n: "n \<le> i64_max"
    and st': "st' = update_total_row did (\<lambda>row. row\<lparr>tr_stored_bytes := tr_stored_bytes row + n\<rparr>) st1"
    using assms(1) by (auto simp: add_stored_bytes_def not_less split: result.splits if_splits)
  note E = ensure_total_row_Ok [OF e assms(2)] and S = ensure_total_row_stored [OF e]
  obtain row where row: "map_of (s_did_total st1) did = Some row" using E(2) by blast
  have "distinct (map fst (s_did_total st1))" using E(1) by (simp add: totals_inv_iff)
  from sum_bump [OF this row, of n] show "stored_total st' = stored_total st + n"
    unfolding st' S(1) [symmetric] by (simp add: stored_total_def update_total_row_def)
  show "stored_of st' did = stored_of st did + n"
    unfolding st' S(2) [symmetric] by (simp add: stored_of_def map_of_update_total row)
  show "\<And>d. d \<noteq> did \<Longrightarrow> stored_of st' d = stored_of st d"
    unfolding st' S(2) [symmetric] by (simp add: stored_of_def map_of_update_total)
  show "n \<le> i64_max" by (rule n)
qed

lemma add_stored_bytes_not_Ok: "add_stored_bytes st did n = (st', e) \<Longrightarrow> e \<noteq> Ok () \<Longrightarrow> st' = st"
  by (auto simp: add_stored_bytes_def split: result.splits if_splits)

lemma quota_gate_Ok:
  assumes "quota_gate limits st did n = Ok ()" "n \<le> i64_max"
  shows "stored_total st + n \<le> store_ceiling limits"
    "effective_cap (did_cap limits) (at_rest_dial st did) = Some cap \<Longrightarrow> stored_of st did + n \<le> cap"
proof -
  have u: "store_usage st = Ok (stored_total st)" "stored_total st \<le> i64_max"
    "did_stored_bytes st did = Ok (stored_of st did)" "stored_of st did \<le> i64_max"
    using assms(1)
    by (auto simp: quota_gate_def ceiling_gate_def result_bind_Ok store_usage_def did_stored_bytes_def sql_int_def stored_total_def
        stored_of_def split: option.splits if_splits)
  have "i64_max + i64_max \<le> u64_max" by (simp add: i64_max_def u64_max_def)
  then have "saturating_add (stored_total st) n = stored_total st + n"
    "saturating_add (stored_of st did) n = stored_of st did + n"
    using u assms(2) by (simp_all add: saturating_add_def)
  then show "stored_total st + n \<le> store_ceiling limits"
    "effective_cap (did_cap limits) (at_rest_dial st did) = Some cap \<Longrightarrow> stored_of st did + n \<le> cap"
    using assms(1) u by (auto simp: quota_gate_def ceiling_gate_def cap_gate_def result_bind_Ok not_less split: if_splits)
qed

lemma put_object_quota:
  assumes inv: "totals_inv (as_store s)" and q: "stored_total (as_store s) \<le> store_ceiling (as_limits s)"
  shows "stored_total (as_store (fst (op_put_object X s did key bs))) \<le> store_ceiling (as_limits s)"
proof -
  let ?P = "\<lambda>s'. stored_total (as_store s') \<le> store_ceiling (as_limits s)"
  let ?new = "\<not> blobs_has (as_blobs s) did (sha256_hex X bs)"
  have add: "?P (fst (on_store s' (add_stored_bytes (as_store s') did (length bs))))"
    if "as_store s' = as_store s" "quota_gate (as_limits s) (as_store s) did (length bs) = Ok ()" for s'
  proof -
    obtain st' e where a: "add_stored_bytes (as_store s) did (length bs) = (st', e)" by fastforce
    have "stored_total st' \<le> store_ceiling (as_limits s)"
    proof (cases "e = Ok ()")
      case True
      then have a': "add_stored_bytes (as_store s) did (length bs) = (st', Ok ())" using a by simp
      show ?thesis using add_stored_bytes_stored(1,3) [OF a' inv] quota_gate_Ok(1) [OF that(2)] by simp
    next
      case False
      then show ?thesis using add_stored_bytes_not_Ok [OF a] q by simp
    qed
    then show ?thesis using that(1) a by simp
  qed
  have tail: "?P (fst (sbind (s', transfer_receipt X s' Upload did (sha256_hex X bs) (length bs)) (\<lambda>s receipt.
        sbind (if ?new then on_store s (add_stored_bytes (as_store s) did (length bs)) else (s, Ok ())) (\<lambda>s _.
        sbind (on_store s (append_receipt (as_store s) did receipt)) (\<lambda>s _.
          (s, Ok (Stored (sha256_hex X bs) (length bs) (r_mode receipt) (r_content_hash receipt))))))))"
    if "as_store s' = as_store s" "?new \<Longrightarrow> quota_gate (as_limits s) (as_store s) did (length bs) = Ok ()" for s'
    using that q add [OF that(1)]
    by (intro sbind_pure_inv [where P = ?P] sbind_inv [where P = ?P]) (auto simp: append_receipt_stored)
  show ?thesis
    unfolding op_put_object_def Let_def
    by (rule sbind_pure_inv [where P = ?P, OF q])+
      (auto simp: q split: prod.splits intro!: sbind_inv [where P = ?P] tail)
qed

lemma stored_total_cong: "s_did_total st = s_did_total st' \<Longrightarrow> stored_total st = stored_total st'"
  by (simp add: stored_total_def)

interpretation quota: store_invariant "\<lambda>st. stored_total st \<le> c" "\<lambda>_. True" for c
proof unfold_locales
  fix X :: ext and st did h signer sg
  show "stored_total (fst (countersign_receipt X st did h signer sg)) \<le> c" if "stored_total st \<le> c"
    using countersign_receipt_core(2) [of X st did h signer sg] that
    by (metis stored_total_cong prod.collapse)
qed (auto simp: append_receipt_stored elim!: stored_total_cong [THEN eq_refl, THEN order_trans, rotated])

end
