(* ===== verification/Tenants.thy ===== *)
theory Tenants
  imports Server_Laws
begin

text \<open>
  Tenant isolation. What the server keeps for one owner is a view of the store and the backend;
  an operation that names another owner leaves the view alone, whatever it does and whether it
  succeeds, is refused or panics. The configuration of the server is never changed by a request.
\<close>

definition tenant_rows ::
  "Store \<Rightarrow> string \<Rightarrow> Receipt list \<times> Manifest option \<times> (string \<times> string \<Rightarrow> assertion_row option) \<times>
     (string \<Rightarrow> string option \<Rightarrow> chain_row list) \<times> total_row option \<times> string option" where
  "tenant_rows st d =
     (load_receipts st d, load_manifest st d, (\<lambda>(k, sk). map_of (s_assertion st) (d, k, sk)),
      chain_rows st d, map_of (s_did_total st) d, get_meta st (baseline_key d))"

definition same_tenant :: "string \<Rightarrow> AppState \<Rightarrow> AppState \<Rightarrow> bool" where
  "same_tenant d s s' \<longleftrightarrow> tenant_rows (as_store s') d = tenant_rows (as_store s) d \<and>
     (\<forall>c. blobs_get (as_blobs s') d c = blobs_get (as_blobs s) d c)"

lemma same_tenant_refl [simp]: "same_tenant d s s"
  by (simp add: same_tenant_def)

lemma same_tenant_trans [trans]: "same_tenant d s t \<Longrightarrow> same_tenant d t u \<Longrightarrow> same_tenant d s u"
  by (simp add: same_tenant_def)

lemma tenant_rows_cong:
  assumes "load_receipts st' d = load_receipts st d" "load_manifest st' d = load_manifest st d"
    and "\<And>k sk. map_of (s_assertion st') (d, k, sk) = map_of (s_assertion st) (d, k, sk)"
    and "chain_rows st' d = chain_rows st d" "map_of (s_did_total st') d = map_of (s_did_total st) d"
    and "get_meta st' (baseline_key d) = get_meta st (baseline_key d)"
  shows "tenant_rows st' d = tenant_rows st d"
  using assms by (simp add: tenant_rows_def)

lemma baseline_key_inject [simp]: "baseline_key a = baseline_key b \<longleftrightarrow> a = b"
  by (simp add: baseline_key_def)

lemma ensure_total_row_rows:
  "ensure_total_row st did = Ok st1 \<Longrightarrow> d \<noteq> did \<Longrightarrow> tenant_rows st1 d = tenant_rows st d"
  by (auto simp: ensure_total_row_def update_conv load_receipts_def load_manifest_def chain_rows_def get_meta_def
      fun_eq_iff intro!: tenant_rows_cong split: option.splits result.splits if_splits)

lemma update_total_row_rows: "d \<noteq> did \<Longrightarrow> tenant_rows (update_total_row did f st) d = tenant_rows st d"
  by (intro tenant_rows_cong)
    (simp_all add: map_of_update_total, simp_all add: update_total_row_def load_manifest_def chain_rows_def get_meta_def fun_eq_iff)

lemma push_receipt_rows:
  "d \<noteq> did \<Longrightarrow> tenant_rows (st\<lparr>s_receipt := s_receipt st @ [(did, r)]\<rparr>) d = tenant_rows st d"
  by (intro tenant_rows_cong) (simp_all add: load_receipts_def load_manifest_def chain_rows_def get_meta_def fun_eq_iff)

lemma append_receipt_rows: "d \<noteq> did \<Longrightarrow> tenant_rows (fst (append_receipt st did r)) d = tenant_rows st d"
  by (auto simp: append_receipt_def Let_def update_total_row_rows push_receipt_rows ensure_total_row_rows
      split: result.splits)

lemma add_stored_bytes_rows: "d \<noteq> did \<Longrightarrow> tenant_rows (fst (add_stored_bytes st did n)) d = tenant_rows st d"
  by (auto simp: add_stored_bytes_def update_total_row_rows ensure_total_row_rows split: result.splits)

lemma upsert_assertion_rows: "sa_did a \<noteq> d \<Longrightarrow> tenant_rows (fst (upsert_assertion st a k)) d = tenant_rows st d"
  by (intro tenant_rows_cong)
    (auto simp: upsert_assertion_def Let_def update_conv akey_def load_receipts_def load_manifest_def chain_rows_def
      get_meta_def fun_eq_iff split: option.splits)

lemma save_assertion_rows: "sa_did a \<noteq> d \<Longrightarrow> tenant_rows (fst (save_assertion st a k)) d = tenant_rows st d"
  using upsert_assertion_rows [of a d st k] by (auto simp: save_assertion_def Let_def split: prod.splits)

lemma delete_assertion_rows: "did \<noteq> d \<Longrightarrow> tenant_rows (fst (delete_assertion st did kind sk)) d = tenant_rows st d"
  by (intro tenant_rows_cong)
    (auto simp: delete_assertion_def Let_def delete_conv' akey_def load_receipts_def load_manifest_def chain_rows_def
      get_meta_def fun_eq_iff)

lemma insert_chain_row_rows:
  "insert_chain_row st row = Ok st1 \<Longrightarrow> ch_did row \<noteq> d \<Longrightarrow> tenant_rows st1 d = tenant_rows st d"
  by (intro tenant_rows_cong)
    (auto simp: insert_chain_row_def akey_def load_receipts_def load_manifest_def chain_rows_def get_meta_def
      fun_eq_iff split: if_splits)

lemma append_chain_rows:
  assumes "sa_did a \<noteq> d"
  shows "tenant_rows (fst (append_chain_entry st a k b h)) d = tenant_rows st d"
    "tenant_rows (fst (append_checkpoint_entry st a k cp h)) d = tenant_rows st d"
  using assms
  by (auto simp: append_chain_entry_def append_checkpoint_entry_def Let_def upsert_assertion_rows
      split: result.splits dest!: insert_chain_row_rows [of st _ _ d])

lemma compact_other:
  "did \<noteq> d \<Longrightarrow> tenant_rows (fst (compact_behind_latest_checkpoint st did kind sk)) d = tenant_rows st d"
  by (intro tenant_rows_cong)
    (auto simp: compact_behind_latest_checkpoint_def akey_def load_receipts_def load_manifest_def chain_rows_def
      get_meta_def fun_eq_iff intro!: arg_cong [where f = "sort_key ch_seq"] filter_cong split: option.splits)

lemma countersign_other:
  assumes "did \<noteq> d"
  shows "tenant_rows (fst (countersign_receipt X st did h signer sg)) d = tenant_rows st d"
proof -
  obtain st' c where e: "countersign_receipt X st did h signer sg = (st', c)" by fastforce
  from e have "tenant_rows st' d = tenant_rows st d"
  proof (cases rule: countersign_receipt_cases)
    case (2 i r)
    have "filter (\<lambda>(x, _). x = d) ((s_receipt st)[i := (did, q)]) = filter (\<lambda>(x, _). x = d) (s_receipt st)" for q
    proof -
      let ?F = "filter (\<lambda>(x, _). x = d)"
      have "?F (s_receipt st) = ?F (take i (s_receipt st)) @ ?F (drop (Suc i) (s_receipt st))"
        using assms 2(2) by (subst id_take_nth_drop [OF 2(1)]) simp
      moreover have "?F ((s_receipt st)[i := (did, q)]) = ?F (take i (s_receipt st)) @ ?F (drop (Suc i) (s_receipt st))"
        using assms 2(1) by (simp add: upd_conv_take_nth_drop)
      ultimately show ?thesis by simp
    qed
    then show ?thesis
      unfolding 2(4)
      by (intro tenant_rows_cong) (simp_all add: load_receipts_def load_manifest_def chain_rows_def get_meta_def fun_eq_iff)
  qed simp
  then show ?thesis using e by simp
qed

interpretation isolation: ledger_invariant "\<lambda>st. tenant_rows st d = v" "\<lambda>x. x \<noteq> d" for d v
proof unfold_locales
  fix st did m w
  show "tenant_rows (save_manifest st did m) d = v" if "did \<noteq> d" "tenant_rows st d = v"
    using that(1) unfolding that(2) [symmetric]
    by (intro tenant_rows_cong)
      (simp_all add: save_manifest_def load_receipts_def load_manifest_def chain_rows_def get_meta_def fun_eq_iff update_conv)
  show "tenant_rows (put_meta st (baseline_key did) w) d = v" if "did \<noteq> d" "tenant_rows st d = v"
    using that(1) unfolding that(2) [symmetric]
    by (intro tenant_rows_cong)
      (simp_all add: put_meta_def load_receipts_def load_manifest_def chain_rows_def get_meta_def fun_eq_iff update_conv)
qed (simp_all add: append_receipt_rows add_stored_bytes_rows save_assertion_rows delete_assertion_rows append_chain_rows
    compact_other countersign_other)

section \<open>The backend and the configuration\<close>

definition config :: "AppState \<Rightarrow> Provider \<times> Limits \<times> u64 \<times> string \<times> string list \<times> bool \<times> CompactionPolicy" where
  "config s = (as_provider s, as_limits s, as_day s, as_service_did s, as_admin_dids s, as_admin_only_du s, as_compaction s)"

definition rest :: "AppState \<Rightarrow> (Provider \<times> Limits \<times> u64 \<times> string \<times> string list \<times> bool \<times> CompactionPolicy) \<times> ReplayGuard \<times> ComputeLedger" where
  "rest s = (config s, as_replay s, as_compute s)"

lemma rest_update [simp]: "rest (s\<lparr>as_store := st\<rparr>) = rest s" "rest (s\<lparr>as_blobs := b\<rparr>) = rest s"
  by (simp_all add: rest_def config_def)

lemma put_object_rest: "rest (fst (op_put_object X s did key bs)) = rest s"
  unfolding op_put_object_def Let_def
  by (auto split: prod.splits intro!: sbind_inv [where P = "\<lambda>s'. rest s' = rest s"])

lemma store_only:
  assumes "\<And>did key bs. oper \<noteq> PutObject did key bs"
  shows "as_blobs (fst (dispatch_op X N s who oper)) = as_blobs s \<and> rest (fst (dispatch_op X N s who oper)) = rest s"
proof -
  define P where "P s' \<longleftrightarrow> as_blobs s' = as_blobs s \<and> rest s' = rest s" for s'
  let ?P = P
  have st [simp]: "P (s'\<lparr>as_store := st\<rparr>) = P s'" for s' st by (simp add: P_def)
  have s [simp]: "P s" by (simp add: P_def)
  have chain: "?P (fst (append_verified_chain_entry X s did kind sk a k))" for did kind sk a k
    unfolding append_verified_chain_entry_def Let_def
    by (auto split: option.splits ChainStep.splits intro!: sbind_inv [where P = ?P])
  have "?P (fst (op_put_assertion X N s did kind sk body authed))" for did kind sk body authed
    unfolding op_put_assertion_def Let_def
    by (rule sbind_pure_inv [where P = ?P, OF s])+
      (auto simp: chain split: option.splits result.splits intro!: sbind_inv [where P = ?P])
  moreover have "?P (fst (op_put_manifest X N s did pk body))" for did pk body
    unfolding op_put_manifest_def Let_def
    by (auto split: option.splits result.splits intro!: sbind_inv [where P = ?P])
  moreover have "?P (fst (op_get_object X s did cid))" for did cid
    unfolding op_get_object_def Let_def by (auto intro!: sbind_inv [where P = ?P])
  ultimately have "P (fst (dispatch_op X N s who oper))"
  proof (cases oper)
    case (PutObject did key bs)
    then show ?thesis using assms by blast
  qed (auto simp: op_delete_assertion_def op_compact_chain_def op_countersign_receipt_def
        split: option.splits prod.splits result.splits)
  then show ?thesis by (simp add: P_def)
qed

lemma put_object_blobs:
  "as_blobs (fst (op_put_object X s did key bs)) \<in>
     {as_blobs s, fst (blobs_put (as_blobs s) did (sha256_hex X bs) bs)}"
proof -
  define B where "B = {as_blobs s, fst (blobs_put (as_blobs s) did (sha256_hex X bs) bs)}"
  let ?P = "\<lambda>s'. as_blobs s' \<in> B"
  have s: "?P s" by (simp add: B_def)
  have put: "?P (fst (case blobs_put (as_blobs s) did (sha256_hex X bs) bs of
      (b, r) \<Rightarrow> (s\<lparr>as_blobs := b\<rparr>, map_err SeBlob r)))"
    by (simp add: B_def split: prod.splits)
  have "?P (fst (op_put_object X s did key bs))"
    unfolding op_put_object_def Let_def
    by (rule sbind_pure_inv [where P = ?P, OF s])+ (auto intro!: sbind_inv [where P = ?P] put)
  then show ?thesis unfolding B_def .
qed

lemma dispatch_same_tenant:
  assumes "dispatch X N micros s who oper = (s', r)" "op_did oper \<noteq> d"
  shows "same_tenant d s s'"
proof -
  have rows: "tenant_rows (as_store s') d = tenant_rows (as_store s) d"
    using isolation.dispatch [of oper d s "tenant_rows (as_store s) d" X N micros who] assms by simp
  from assms(1) have "blobs_get (as_blobs s') d c = blobs_get (as_blobs s) d c" for c
  proof (cases rule: dispatch_cases)
    case (ran s1 r1)
    show ?thesis
    proof (cases oper)
      case (PutObject did key bs)
      obtain b e where b: "blobs_put (as_blobs s) did (sha256_hex X bs) bs = (b, e)" by fastforce
      have "as_blobs s' = as_blobs s \<or> as_blobs s' = b"
        using put_object_blobs [of X s did key bs] ran(3,5) PutObject b by auto
      then show ?thesis using backend.put_frame [OF b, of d c] assms(2) PutObject by auto
    qed (use store_only [of oper X N s who] ran(3,5) in simp_all)
  qed simp
  then show ?thesis using rows by (simp add: same_tenant_def)
qed

lemma dispatch_config:
  assumes "dispatch X N micros s who oper = (s', r)"
  shows "config s' = config s" "as_replay s' = as_replay s"
proof -
  have "config s' = config s \<and> as_replay s' = as_replay s"
    using assms
  proof (cases rule: dispatch_cases)
    case (ran s1 r1)
    have "rest s1 = rest s"
      using ran(3) put_object_rest [of X s] store_only [of oper X N s who] by (cases oper) (auto dest: arg_cong [where f = "\<lambda>p. rest (fst p)"])
    then show ?thesis using ran(10) by (auto simp: rest_def config_def)
  qed simp
  then show "config s' = config s" "as_replay s' = as_replay s" by auto
qed

end
