(* ===== verification/Access.thy ===== *)
theory Access
  imports Tenants
begin

text \<open>
  Who may do what: owner-only operations, the read gate and what a refusal reveals, the listing as
  the extension of the gate, usage reports and the meter.
\<close>

section \<open>Owner-only operations\<close>

fun owner_op :: "Op \<Rightarrow> bool" where
  "owner_op (PutObject _ _ _) = True"
| "owner_op (GetMeter _) = True"
| "owner_op (DeleteAssertion _ _ _) = True"
| "owner_op (ListAssertions _ _) = True"
| "owner_op (GetChain _ _ _) = True"
| "owner_op (CompactChain _ _ _) = True"
| "owner_op _ = False"

lemma authorize_iff:
  "authorize who oper =
     (if owner_op oper \<and> who \<noteq> Authenticated (op_did oper)
      then Err (if who = Anonymous then Unauthorized else Forbidden) else Ok ())"
  by (cases oper; cases who) (auto simp: require_owner_def)

lemma dispatch_refused_owner:
  assumes "owner_op oper" "who \<noteq> Authenticated (op_did oper)"
  shows "dispatch X N micros s who oper = (s, Err (if who = Anonymous then Unauthorized else Forbidden))"
  using assms by (simp add: dispatch_def authorize_iff)

section \<open>The read gate\<close>

lemma authorize_read_iff:
  "authorize_read s who (GetObject did cid) =
     (if allows (resolve_policy (as_store s) did (Some cid)) (principal_did who) did then Ok () else Err NotFound)"
  by (auto simp: Let_def allows_def)

lemma dispatch_refused_read:
  assumes "\<not> allows (resolve_policy (as_store s) did (Some cid)) (principal_did who) did"
  shows "dispatch X N micros s who (GetObject did cid) = (s, Err NotFound)"
  using assms by (simp add: dispatch_def authorize_read_iff del: authorize_read.simps)

lemma object_policy_first:
  "resolve_policy st did (Some cid) =
    (case resolve_object_policy st did cid of Some p \<Rightarrow> p | None \<Rightarrow> resolve_policy st did None)"
  by (cases "resolve_object_policy st did cid")
    (simp_all add: resolve_policy_object resolve_policy_namespace)

lemma op_list_blobs_filter:
  assumes "\<And>r. r \<in> set (uploads (load_receipts (as_store s) did)) \<Longrightarrow> rc_cid (r_core r) \<noteq> []"
  shows "op_list_blobs s who did = Ok (BlobList
    (filter (\<lambda>cid. allows (resolve_policy (as_store s) did (Some cid)) (principal_did who) did)
      (dedup_first {} (map (\<lambda>r. rc_cid (r_core r)) (uploads (load_receipts (as_store s) did))))))"
proof -
  let ?cids = "dedup_first {} (map (\<lambda>r. rc_cid (r_core r)) (uploads (load_receipts (as_store s) did)))"
  have ne: "cid \<noteq> []" if "cid \<in> set ?cids" for cid
    using that assms by (auto simp: set_dedup_first)
  let ?ns = "resolve_policy (as_store s) did None"
  note gate = object_policy_first [of "as_store s" did]
  show ?thesis
  proof (cases "rp_read_class ?ns = World \<and> \<not> has_object_policies (as_store s) did")
    case True
    have "allows (resolve_policy (as_store s) did (Some cid)) (principal_did who) did" if "cid \<in> set ?cids" for cid
      using True no_object_policies [OF _ ne [OF that], of "as_store s" did] by (simp add: gate allows_def)
    then have "filter (\<lambda>cid. allows (resolve_policy (as_store s) did (Some cid)) (principal_did who) did) ?cids = ?cids"
      by (intro filter_True) blast
    then show ?thesis using True by (simp add: op_list_blobs_def Let_def)
  next
    case False
    have "filter (\<lambda>cid. allows (case resolve_object_policy (as_store s) did cid of Some p \<Rightarrow> p | None \<Rightarrow> ?ns)
        (principal_did who) did) ?cids =
      filter (\<lambda>cid. allows (resolve_policy (as_store s) did (Some cid)) (principal_did who) did) ?cids"
      by (simp only: gate)
    then show ?thesis using False unfolding op_list_blobs_def Let_def by auto
  qed
qed

section \<open>Usage\<close>

definition upload_sum :: "Receipt list \<Rightarrow> string \<Rightarrow> nat" where
  "upload_sum rs cid = sum_list (map (\<lambda>r. rc_bytes (r_core r)) (filter (\<lambda>r. rc_cid (r_core r) = cid) rs))"

lemma upload_sum_Cons:
  "upload_sum (r # rs) cid = (if rc_cid (r_core r) = cid then rc_bytes (r_core r) else 0) + upload_sum rs cid"
  by (simp add: upload_sum_def)

lemma update_keys: "map_of al k = Some v \<Longrightarrow> map fst (AList.update k w al) = map fst al"
  by (induction al) auto

lemma du_loop_spec:
  assumes "du_loop rs sizes = Some out" "distinct (map fst sizes)"
  shows "map fst out = map fst sizes @ dedup_first (set (map fst sizes)) (map (\<lambda>r. rc_cid (r_core r)) rs)"
    "\<And>cid. cid \<in> set (map fst out) \<Longrightarrow>
       map_of out cid = Some ((case map_of sizes cid of None \<Rightarrow> 0 | Some v \<Rightarrow> v) + upload_sum rs cid)"
  using assms
proof (induction rs arbitrary: sizes)
  case Nil
  {
    case 1 then show ?case by simp
  next
    case (2 cid)
    then show ?case by (auto simp: upload_sum_def dest!: map_of_eq_None_iff [THEN iffD1] split: option.splits)
  }
next
  case (Cons r rs)
  let ?c = "rc_cid (r_core r)" and ?b = "rc_bytes (r_core r)"
  have step: "\<exists>sz. du_loop rs sz = Some out \<and> distinct (map fst sz) \<and>
      (\<forall>cid. (case map_of sz cid of None \<Rightarrow> 0 | Some v \<Rightarrow> v) =
         (case map_of sizes cid of None \<Rightarrow> 0 | Some v \<Rightarrow> v) + (if cid = ?c then ?b else 0)) \<and>
      map fst sz = map fst sizes @ (if ?c \<in> set (map fst sizes) then [] else [?c])"
    if d: "du_loop (r # rs) sizes = Some out" "distinct (map fst sizes)" for sizes
  proof (cases "map_of sizes ?c")
    case None
    then have n: "?c \<notin> set (map fst sizes)" by (simp add: map_of_eq_None_iff)
    have "map_of (sizes @ [(?c, ?b)]) cid = (if cid = ?c then Some ?b else map_of sizes cid)" for cid
      using None by (auto simp: map_add_def split: option.splits)
    then show ?thesis
      using d None n by (intro exI [of _ "sizes @ [(?c, ?b)]"]) (auto simp: Let_def)
  next
    case (Some v)
    then have i: "?c \<in> set (map fst sizes)" by (metis map_of_eq_None_iff option.distinct(1) list.set_map)
    show ?thesis
      using d Some i
      by (intro exI [of _ "AList.update ?c (v + ?b) sizes"])
        (auto simp: Let_def update_conv update_keys [OF Some] simp del: set_map split: option.splits)
  qed
  {
    case (1 sizes)
    obtain sz where sz: "du_loop rs sz = Some out" "distinct (map fst sz)"
      "map fst sz = map fst sizes @ (if ?c \<in> set (map fst sizes) then [] else [?c])"
      using step [OF 1] by (elim exE conjE) (rule that)
    have ins: "set (map fst sz) = insert ?c (set (map fst sizes))" unfolding sz(3) by auto
    show ?case using Cons.IH(1) [OF sz(1,2)] unfolding ins unfolding sz(3) by (auto simp: insert_absorb)
  next
    case (2 cid sizes)
    obtain sz where sz: "du_loop rs sz = Some out" "distinct (map fst sz)"
      "\<forall>cid. (case map_of sz cid of None \<Rightarrow> 0 | Some v \<Rightarrow> v) =
         (case map_of sizes cid of None \<Rightarrow> 0 | Some v \<Rightarrow> v) + (if cid = ?c then ?b else 0)"
      using step [OF 2(2,3)] by (elim exE conjE) (rule that)
    show ?case using Cons.IH(2) [OF 2(1) sz(1,2)] sz(3) by (auto simp: upload_sum_Cons)
  }
qed

lemma op_du_self:
  assumes "op_du X s who did = Ok out"
  shows "who = Authenticated did" "as_admin_only_du s \<Longrightarrow> did \<in> set (as_admin_dids s)"
  using assms by (cases who; auto simp: op_du_def Let_def split: if_splits)+

end
