(* ===== verification/Writes.thy ===== *)
theory Writes
  imports Access
begin

text \<open>
  What an accepted write guarantees, branch by branch: assertions (verified, acknowledged, newer
  than what they replace, readable back), chain entries (the stored chain keeps recomputing),
  manifests, erasures and countersignatures.
\<close>

section \<open>Assertions\<close>

lemma put_meta_assertion [simp]: "s_assertion (put_meta st k v) = s_assertion st"
  by (simp add: put_meta_def)

lemma body_checks_Ok:
  assumes "body_checks X limits kind subkey a = Ok f"
  shows "kind_fold kind subkey (sa_body a) = Ok f"
    "\<And>spec. kind_spec kind = Some spec \<Longrightarrow> length (render (scalar_text X) (sa_body a)) \<le> body_ceiling (ks_sizing spec)"
    "\<And>body n. kind = CEILING_DIAL_KIND \<Longrightarrow> de_ceiling (sa_body a) = Some body \<Longrightarrow> cd_at_rest_bytes body = Some n \<Longrightarrow>
       n \<le> provider_at_rest_bound limits"
  using assms
  by (auto simp: body_checks_def result_bind_Ok Let_def not_less split: option.splits if_splits)

definition record_baseline :: "AppState \<Rightarrow> string \<Rightarrow> string \<Rightarrow> AppState \<times> (unit, ServerError) result" where
  "record_baseline s did kind =
     (if kind = PERIOD_DIAL_KIND
      then (case result_bind (persist (running_totals (as_store s) did)) total_bytes of
              Ok baseline \<Rightarrow> (s\<lparr>as_store := put_meta (as_store s) (baseline_key did) (show_nat baseline)\<rparr>, Ok ())
            | Err e \<Rightarrow> (s, Err e)
            | Panic \<Rightarrow> (s, Panic))
      else (s, Ok ()))"

lemma record_baseline_Ok:
  assumes "record_baseline s did kind = (s', Ok ())"
  shows "as_store s' = as_store s \<or> (\<exists>v. as_store s' = put_meta (as_store s) (baseline_key did) v)"
proof (cases "kind = PERIOD_DIAL_KIND")
  case True
  then show ?thesis using assms
    by (cases "result_bind (persist (running_totals (as_store s) did)) total_bytes") (auto simp: record_baseline_def)
qed (use assms in \<open>simp add: record_baseline_def\<close>)

lemma op_put_assertion_Ok:
  assumes "op_put_assertion X N s did kind sk body authed = (s', Ok out)"
  obtains a f where "write_record X N (as_provider s) did kind sk body authed = Ok a"
    "body_checks X (as_limits s) kind sk a = Ok f"
    "\<And>p. assertion_seq (as_store s) did kind sk = Some p \<Longrightarrow> p < sa_seq a"
    "assertion_verify X a f None (attest_verifying_key X (as_provider s))"
    "(if is_chain_kind kind
      then append_verified_chain_entry X s did kind sk a (make_ack X a (pv_attest_keypair (as_provider s))) = (s', Ok out)
      else out = AssertionSaved (sa_seq a) (render (scalar_text X) (ack_json (make_ack X a (pv_attest_keypair (as_provider s))))) \<and>
        (\<exists>st1. save_assertion (as_store s) a (make_ack X a (pv_attest_keypair (as_provider s))) = (st1, Ok ()) \<and>
          (as_store s' = st1 \<or> (\<exists>v. as_store s' = put_meta st1 (baseline_key did) v))))"
proof -
  obtain a where a: "write_record X N (as_provider s) did kind sk body authed = Ok a"
    and r1: "sbind (s, body_checks X (as_limits s) kind sk a) (\<lambda>s fold.
     if (case assertion_seq (as_store s) did kind sk of None \<Rightarrow> False | Some prior \<Rightarrow> sa_seq a \<le> prior)
       then (s, Err (AssertionStale kind (sa_seq a)))
     else if \<not> assertion_verify X a fold None (attest_verifying_key X (as_provider s))
       then (s, Err AssertionUnauthorized)
     else
       let ack = make_ack X a (pv_attest_keypair (as_provider s)) in
       if is_chain_kind kind then append_verified_chain_entry X s did kind sk a ack
       else sbind (on_store s (save_assertion (as_store s) a ack)) (\<lambda>s _.
         sbind (if kind = PERIOD_DIAL_KIND
                then (case result_bind (persist (running_totals (as_store s) did)) total_bytes of
                        Ok baseline \<Rightarrow> (s\<lparr>as_store := put_meta (as_store s) (baseline_key did) (show_nat baseline)\<rparr>, Ok ())
                      | Err e \<Rightarrow> (s, Err e)
                      | Panic \<Rightarrow> (s, Panic))
                else (s, Ok ())) (\<lambda>s _.
           (s, Ok (AssertionSaved (sa_seq a) (render (scalar_text X) (ack_json ack))))))) = (s', Ok out)"
    using assms unfolding op_put_assertion_def by (subst (asm) sbind_Ok) auto
  obtain f where f: "body_checks X (as_limits s) kind sk a = Ok f"
    using r1 by (subst (asm) sbind_Ok) auto
  note r2 = r1 [unfolded f sbind_simps Let_def]
  have seq: "p < sa_seq a" if "assertion_seq (as_store s) did kind sk = Some p" for p
    using r2 that by (auto split: if_splits)
  have ver: "assertion_verify X a f None (attest_verifying_key X (as_provider s))"
    using r2 by (auto split: if_splits)
  have fin: "if is_chain_kind kind
      then append_verified_chain_entry X s did kind sk a (make_ack X a (pv_attest_keypair (as_provider s))) = (s', Ok out)
      else out = AssertionSaved (sa_seq a) (render (scalar_text X) (ack_json (make_ack X a (pv_attest_keypair (as_provider s))))) \<and>
        (\<exists>st1. save_assertion (as_store s) a (make_ack X a (pv_attest_keypair (as_provider s))) = (st1, Ok ()) \<and>
          (as_store s' = st1 \<or> (\<exists>v. as_store s' = put_meta st1 (baseline_key did) v)))"
  proof (cases "is_chain_kind kind")
    case True
    then show ?thesis using r2 ver by (simp split: if_splits)
  next
    case False
    let ?ack = "make_ack X a (pv_attest_keypair (as_provider s))"
    have "sbind (on_store s (save_assertion (as_store s) a ?ack)) (\<lambda>s _.
         sbind (record_baseline s did kind) (\<lambda>s _.
           (s, Ok (AssertionSaved (sa_seq a) (render (scalar_text X) (ack_json ?ack)))))) = (s', Ok out)"
      using r2 ver False by (simp add: record_baseline_def split: if_splits)
    then obtain s1 s2 where s1: "on_store s (save_assertion (as_store s) a ?ack) = (s1, Ok ())"
      and s2: "record_baseline s1 did kind = (s2, Ok ())" and "s' = s2"
      and out: "out = AssertionSaved (sa_seq a) (render (scalar_text X) (ack_json ?ack))"
      by (auto simp: sbind_Ok)
    moreover have "as_store s2 = as_store s1 \<or> (\<exists>v. as_store s2 = put_meta (as_store s1) (baseline_key did) v)"
      using s2 by (rule record_baseline_Ok)
    moreover have "save_assertion (as_store s) a ?ack = (as_store s1, Ok ())"
      using s1 by (auto simp: on_store_Ok)
    ultimately show ?thesis using False by auto
  qed
  show thesis by (rule that [OF a f _ ver fin]) (rule seq)
qed

lemma put_setting_Ok:
  assumes "op_put_assertion X N s did kind sk body authed = (s', Ok out)" "\<not> is_chain_kind kind"
  obtains a f where "sa_did a = did" "sa_kind a = kind" "sa_subkey a = sk"
    "kind_fold kind sk (sa_body a) = Ok f"
    "assertion_verify X a f (assertion_seq (as_store s) did kind sk) (attest_verifying_key X (as_provider s))"
    "load_assertion (as_store s') did kind sk = Ok (Some (a, make_ack X a (pv_attest_keypair (as_provider s))))"
    "assertion_seq (as_store s') did kind sk = Some (min (sa_seq a) i64_max)"
proof -
  obtain a f st1 where w: "write_record X N (as_provider s) did kind sk body authed = Ok a"
    and b: "body_checks X (as_limits s) kind sk a = Ok f"
    and seq: "\<And>p. assertion_seq (as_store s) did kind sk = Some p \<Longrightarrow> p < sa_seq a"
    and ver: "assertion_verify X a f None (attest_verifying_key X (as_provider s))"
    and sv: "save_assertion (as_store s) a (make_ack X a (pv_attest_keypair (as_provider s))) = (st1, Ok ())"
    and st: "as_store s' = st1 \<or> (\<exists>v. as_store s' = put_meta st1 (baseline_key did) v)"
    using assms(2) by (rule_tac op_put_assertion_Ok [OF assms(1)]) (auto split: if_splits)
  note t = write_record_target [OF w]
  have same: "s_assertion (as_store s') = s_assertion st1" using st by auto
  have v: "assertion_verify X a f (assertion_seq (as_store s) did kind sk) (attest_verifying_key X (as_provider s))"
    using ver seq by (auto simp: assertion_verify_def not_le split: result.splits option.splits if_splits)
  have "load_assertion (as_store s') did kind sk = Ok (Some (a, make_ack X a (pv_attest_keypair (as_provider s))))"
    "assertion_seq (as_store s') did kind sk = Some (min (sa_seq a) i64_max)"
    using save_assertion_Ok(1,2) [OF sv] same unfolding t by (simp_all add: load_assertion_def assertion_seq_def)
  then show thesis using that [OF t body_checks_Ok(1) [OF b] v] by blast
qed

section \<open>Chains\<close>

definition chain_ok :: "ext \<Rightarrow> Store \<Rightarrow> string \<Rightarrow> string \<Rightarrow> string option \<Rightarrow> bool" where
  "chain_ok X st did kind sk \<longleftrightarrow> chain_inv X st did kind sk \<and> (\<forall>c \<in> set (chain_rows st did kind sk). 0 \<le> ch_seq c)"

lemma chain_ok_cong: "s_chain_entry st = s_chain_entry st' \<Longrightarrow> chain_ok X st did kind sk = chain_ok X st' did kind sk"
  by (simp add: chain_ok_def chain_inv_def chain_pk_def chain_rows_def)

lemma chain_entries_cong: "s_chain_entry st = s_chain_entry st' \<Longrightarrow> chain_entries st = chain_entries st'"
  by (simp add: chain_entries_def chain_rows_def fun_eq_iff)

lemma chain_ok_compact:
  assumes "chain_ok X st did kind sk"
  shows "chain_ok X (fst (compact_behind_latest_checkpoint st did kind sk)) did kind sk"
    "recompute_total X (map fst (chain_entries (fst (compact_behind_latest_checkpoint st did kind sk)) did kind sk)) =
     recompute_total X (map fst (chain_entries st did kind sk))"
proof -
  obtain st' n where c: "compact_behind_latest_checkpoint st did kind sk = (st', n)" by fastforce
  have "chain_ok X st' did kind sk \<and> recompute_total X (map fst (chain_entries st' did kind sk)) =
     recompute_total X (map fst (chain_entries st did kind sk))"
  proof (cases n)
    case None
    then have "st' = st" using c by (auto simp: compact_behind_latest_checkpoint_def split: option.splits)
    then show ?thesis using assms by simp
  next
    case (Some m)
    have inv: "chain_inv X st did kind sk" using assms by (simp add: chain_ok_def)
    have "set (chain_rows st' did kind sk) \<subseteq> set (chain_rows st did kind sk)"
      using c by (auto simp: chain_rows_set compact_behind_latest_checkpoint_def split: option.splits)
    then show ?thesis using compact_keeps [OF inv c [unfolded Some]] assms by (auto simp: chain_ok_def)
  qed
  then show "chain_ok X (fst (compact_behind_latest_checkpoint st did kind sk)) did kind sk"
    "recompute_total X (map fst (chain_entries (fst (compact_behind_latest_checkpoint st did kind sk)) did kind sk)) =
     recompute_total X (map fst (chain_entries st did kind sk))"
    using c by auto
qed

lemma chain_ok_insert:
  assumes ok: "chain_ok X st did kind sk" and ins: "insert_chain_row st row = Ok st1"
    and "(ch_did row, ch_kind row, ch_subkey row) = akey did kind sk"
    and "ch_entry_hash row = head_hash X (row_entry did kind sk row)"
    and "check_entry (latest_chain_entry st did kind sk)
        (case latest_checkpoint_hash st did kind sk of None \<Rightarrow> GENESIS_PREV_HASH | Some h \<Rightarrow> h)
        (row_entry did kind sk row) = Ok u"
    and pos: "0 \<le> ch_seq row" and st': "s_chain_entry st' = s_chain_entry st1"
  shows "chain_ok X st' did kind sk"
    "recompute_total X (map fst (chain_entries st' did kind sk)) = Ok (step_total (ce_step (row_entry did kind sk row)))"
proof -
  have inv: "chain_inv X st did kind sk" and nn: "\<And>c. c \<in> set (chain_rows st did kind sk) \<Longrightarrow> 0 \<le> ch_seq c"
    using ok by (auto simp: chain_ok_def)
  note I = chain_inv_insert [OF inv ins assms(3-5) pos nn]
  have "chain_ok X st1 did kind sk" using I(1,2) nn pos by (auto simp: chain_ok_def)
  then show "chain_ok X st' did kind sk" using chain_ok_cong [OF st'] by blast
  show "recompute_total X (map fst (chain_entries st' did kind sk)) = Ok (step_total (ce_step (row_entry did kind sk row)))"
    using I(3) chain_entries_cong [OF st'] by simp
qed

lemma append_chain_entry_Ok:
  assumes "append_chain_entry st a k b h = (st', Ok u)"
  obtains st1 where "insert_chain_row st \<lparr>ch_did = sa_did a, ch_kind = sa_kind a, ch_subkey = unwrap_or_empty (sa_subkey a),
      ch_seq = clamp_i64 (sa_seq a), ch_delta = cc_delta b, ch_total = clamp_i64 (cc_total b),
      ch_prev_entry_hash = cc_prev_entry_hash b, ch_entry_hash = h, ch_is_checkpoint = False,
      ch_prev_checkpoint = [], ch_json = a, ch_ack = k\<rparr> = Ok st1" "s_chain_entry st' = s_chain_entry st1"
  using assms by (auto simp: append_chain_entry_def Let_def split: result.splits)

lemma append_checkpoint_entry_Ok:
  assumes "append_checkpoint_entry st a k b h = (st', Ok u)"
  obtains st1 where "insert_chain_row st \<lparr>ch_did = sa_did a, ch_kind = sa_kind a, ch_subkey = unwrap_or_empty (sa_subkey a),
      ch_seq = clamp_i64 (sa_seq a), ch_delta = 0, ch_total = clamp_i64 (cp_closing_total b),
      ch_prev_entry_hash = cp_chain_head_hash b, ch_entry_hash = h, ch_is_checkpoint = True,
      ch_prev_checkpoint = cp_prev_checkpoint b, ch_json = a, ch_ack = k\<rparr> = Ok st1" "s_chain_entry st' = s_chain_entry st1"
  using assms by (auto simp: append_checkpoint_entry_def Let_def split: result.splits)

lemma checkpoint_append_Ok:
  assumes w: "append_verified_chain_entry X s did kind sk a k = (s', Ok out)"
    and step: "de_chain_step (sa_body a) = Some (Checkpoint b)"
  obtains prev st' where "latest_chain_entry (as_store s) did kind sk = Some prev"
    "verify_checkpoint prev (case latest_checkpoint_hash (as_store s) did kind sk of None \<Rightarrow> GENESIS_PREV_HASH | Some h \<Rightarrow> h)
       b (sa_seq a) = Ok ()"
    "append_checkpoint_entry (as_store s) a k b (checkpoint_hash X did kind sk (sa_seq a) b) = (st', Ok ())"
    "as_store s' = st' \<or> as_store s' = fst (compact_behind_latest_checkpoint st' did kind sk)"
proof (cases "latest_chain_entry (as_store s) did kind sk")
  case None
  then show thesis using w step by (simp add: append_verified_chain_entry_def)
next
  case (Some prev)
  let ?exp = "case latest_checkpoint_hash (as_store s) did kind sk of None \<Rightarrow> GENESIS_PREV_HASH | Some h \<Rightarrow> h"
  let ?ap = "append_checkpoint_entry (as_store s) a k b (checkpoint_hash X did kind sk (sa_seq a) b)"
  have v: "verify_checkpoint prev ?exp b (sa_seq a) = Ok ()"
    using w unfolding append_verified_chain_entry_def Let_def step Some option.case ChainStep.case
    by (subst (asm) sbind_Ok) auto
  then have w2: "sbind (on_store s ?ap) (\<lambda>s1 _.
      if as_compaction s1 = OnAck
      then (s1\<lparr>as_store := fst (compact_behind_latest_checkpoint (as_store s1) did kind sk)\<rparr>,
            Ok (AssertionSaved (sa_seq a) (render (scalar_text X) (ack_json k))))
      else (s1, Ok (AssertionSaved (sa_seq a) (render (scalar_text X) (ack_json k))))) =
        (s', Ok out :: (OpOutcome, ServerError) result)"
    using w unfolding append_verified_chain_entry_def Let_def step Some option.case ChainStep.case by simp
  then obtain s1 u where on: "on_store s ?ap = (s1, Ok u)"
    and w3: "(if as_compaction s1 = OnAck
      then (s1\<lparr>as_store := fst (compact_behind_latest_checkpoint (as_store s1) did kind sk)\<rparr>,
            Ok (AssertionSaved (sa_seq a) (render (scalar_text X) (ack_json k))))
      else (s1, Ok (AssertionSaved (sa_seq a) (render (scalar_text X) (ack_json k))))) =
        (s', Ok out :: (OpOutcome, ServerError) result)"
    unfolding sbind_Ok by (elim exE conjE) (rule that)
  have "as_store s' = as_store s1 \<or> as_store s' = fst (compact_behind_latest_checkpoint (as_store s1) did kind sk)"
    using w3 by (cases "as_compaction s1 = OnAck") auto
  moreover have "?ap = (as_store s1, Ok ())" using on unfolding on_store_Ok by auto
  ultimately show thesis using that [OF Some v] by blast
qed

lemma chain_append_keeps:
  assumes ok: "chain_ok X (as_store s) did kind sk"
    and a: "sa_did a = did" "sa_kind a = kind" "sa_subkey a = sk"
    and w: "append_verified_chain_entry X s did kind sk a k = (s', Ok out)"
    and step: "de_chain_step (sa_body a) = Some step" and fits: "sa_seq a \<le> i64_max" "step_total step \<le> i64_max"
  shows "chain_ok X (as_store s') did kind sk"
    "recompute_total X (map fst (chain_entries (as_store s') did kind sk)) = Ok (step_total step)"
proof -
  let ?st = "as_store s"
  have id: "u64_or_zero (clamp_i64 n) = n" if "n \<le> i64_max" for n using that by (simp add: u64_or_zero_clamp)
  have pos: "0 \<le> clamp_i64 n" for n by (simp add: clamp_i64_def)
  have key: "(did, kind, unwrap_or_empty sk) = akey did kind sk" by (simp add: akey_def)
  have "chain_ok X (as_store s') did kind sk \<and>
    recompute_total X (map fst (chain_entries (as_store s') did kind sk)) = Ok (step_total step)"
  proof (cases step)
    case (Step b)
    obtain st' where v: "verify_step (latest_chain_entry ?st did kind sk) b (sa_seq a) = Ok ()"
      and ap: "append_chain_entry ?st a k b (entry_hash X did kind sk (sa_seq a) b) = (st', Ok ())"
      and s': "as_store s' = st'"
      using w Step step unfolding append_verified_chain_entry_def Let_def
      by (auto simp: sbind_Ok on_store_Ok)
    obtain st1 where ins: "insert_chain_row ?st \<lparr>ch_did = did, ch_kind = kind, ch_subkey = unwrap_or_empty sk,
        ch_seq = clamp_i64 (sa_seq a), ch_delta = cc_delta b, ch_total = clamp_i64 (cc_total b),
        ch_prev_entry_hash = cc_prev_entry_hash b, ch_entry_hash = entry_hash X did kind sk (sa_seq a) b,
        ch_is_checkpoint = False, ch_prev_checkpoint = [], ch_json = a, ch_ack = k\<rparr> = Ok st1" (is "insert_chain_row _ ?row = _")
      and eq: "s_chain_entry st' = s_chain_entry st1"
      by (rule append_chain_entry_Ok [OF ap, unfolded a])
    have re: "row_entry did kind sk ?row = \<lparr>ce_did = did, ce_kind = kind, ce_subkey = sk, ce_seq = sa_seq a, ce_step = Step b\<rparr>"
      using fits Step by (simp add: row_entry_def id step_total_def)
    note I = chain_ok_insert [OF ok ins, of "()" st']
    show ?thesis
      unfolding s'
      by (rule conjI; rule I(1) I(2) [THEN trans])
        (use a key pos eq v Step in \<open>simp_all add: re, simp_all add: head_hash_def check_entry_def\<close>)
  next
    case (Checkpoint b)
    obtain prev st' where p: "latest_chain_entry ?st did kind sk = Some prev"
      and v: "verify_checkpoint prev (case latest_checkpoint_hash ?st did kind sk of None \<Rightarrow> GENESIS_PREV_HASH | Some h \<Rightarrow> h)
         b (sa_seq a) = Ok ()"
      and ap: "append_checkpoint_entry ?st a k b (checkpoint_hash X did kind sk (sa_seq a) b) = (st', Ok ())"
      and s': "as_store s' = st' \<or> as_store s' = fst (compact_behind_latest_checkpoint st' did kind sk)"
      by (rule checkpoint_append_Ok [OF w step [unfolded Checkpoint]])
    obtain st1 where ins: "insert_chain_row ?st \<lparr>ch_did = did, ch_kind = kind, ch_subkey = unwrap_or_empty sk,
        ch_seq = clamp_i64 (sa_seq a), ch_delta = 0, ch_total = clamp_i64 (cp_closing_total b),
        ch_prev_entry_hash = cp_chain_head_hash b, ch_entry_hash = checkpoint_hash X did kind sk (sa_seq a) b,
        ch_is_checkpoint = True, ch_prev_checkpoint = cp_prev_checkpoint b, ch_json = a, ch_ack = k\<rparr> = Ok st1"
        (is "insert_chain_row _ ?row = _")
      and eq: "s_chain_entry st' = s_chain_entry st1"
      by (rule append_checkpoint_entry_Ok [OF ap, unfolded a])
    have re: "row_entry did kind sk ?row = \<lparr>ce_did = did, ce_kind = kind, ce_subkey = sk, ce_seq = sa_seq a, ce_step = Checkpoint b\<rparr>"
      using fits Checkpoint by (simp add: row_entry_def id step_total_def)
    note I = chain_ok_insert [OF ok ins, of "()" st']
    have st': "chain_ok X st' did kind sk \<and> recompute_total X (map fst (chain_entries st' did kind sk)) = Ok (step_total step)"
      by (rule conjI; rule I(1) I(2) [THEN trans])
        (use a key pos eq v p Checkpoint in \<open>simp_all add: re, simp_all add: head_hash_def check_entry_def\<close>)
    then show ?thesis using s' chain_ok_compact [of X st' did kind sk] by auto
  qed
  then show "chain_ok X (as_store s') did kind sk"
    "recompute_total X (map fst (chain_entries (as_store s') did kind sk)) = Ok (step_total step)" by auto
qed

end
