(* ===== verification/Metering.thy ===== *)
theory Metering
  imports Writes
begin

text \<open>
  What the metered operations leave behind: the receipt of an upload or a download, its running
  total and its signatures, the countersignature that completes a bilateral receipt, the accepted
  manifest, the erased flag, and the bytes a download serves.
\<close>

section \<open>Receipts\<close>

definition provider_key :: "ext \<Rightarrow> AppState \<Rightarrow> verifying_key" where
  "provider_key X s = keypair_verifying_key X (pv_keypair (as_provider s))"

definition issued_by :: "ext \<Rightarrow> Provider \<Rightarrow> Receipt \<Rightarrow> bool" where
  "issued_by X pv r \<longleftrightarrow> core_matches X r \<and>
     (\<exists>sg. r_sigs r = [(pv_id pv, sg)] \<and>
        verify_message X (keypair_verifying_key X (pv_keypair pv)) (r_content_hash r) sg)"

lemma boundary_receipt_core [simp]:
  "r_core (build_boundary_receipt X pv core m) = core" "r_mode (build_boundary_receipt X pv core m) = m"
  "r_content_hash (build_boundary_receipt X pv core m) = content_hash X core"
  by (simp_all add: build_boundary_receipt_def make_unilateral_receipt_def Let_def split: ReceiptMode.splits)

lemma boundary_receipt_issued:
  assumes "hex_law X" "sign_law X" "length (kp_signing_key (pv_keypair pv)) = 32"
  shows "issued_by X pv (build_boundary_receipt X pv core m)"
  using verify_message_sign [OF assms]
  by (auto simp: issued_by_def core_matches_def build_boundary_receipt_def make_unilateral_receipt_def Let_def
      split: ReceiptMode.splits)

lemma issued_unilateral:
  assumes "issued_by X pv r" "r_mode r = Unilateral"
    and "bt_get ring (pv_id pv) = Some (keypair_verifying_key X (pv_keypair pv))"
  shows "verify_unilateral X r ring"
  using assms by (auto simp: issued_by_def verify_unilateral_def)

definition ledger_bytes :: "Store \<Rightarrow> string \<Rightarrow> nat" where
  "ledger_bytes st did = sum_list (map (\<lambda>r. rc_bytes (r_core r)) (load_receipts st did))"

lemma ledger_bytes_totals:
  "ledger_bytes st did =
     rt_upload_bytes (ledger_totals (load_receipts st did)) + rt_download_bytes (ledger_totals (load_receipts st did))"
proof -
  have "sum_list (map (\<lambda>r. rc_bytes (r_core r)) rs) = sum_list (map receipt_up rs) + sum_list (map receipt_down rs)" for rs
    by (induction rs) (auto simp: receipt_up_def receipt_down_def split: Direction.splits)
  then show ?thesis by (simp add: ledger_bytes_def ledger_totals_sums)
qed

lemma add_stored_bytes_receipts [simp]: "s_receipt (fst (add_stored_bytes st did n)) = s_receipt st"
  by (auto simp: add_stored_bytes_def ensure_total_row_def update_total_row_def
      split: option.splits result.splits if_splits)

text \<open>What a transfer of \<open>n\<close> bytes adds: one receipt, whose running total is the byte count of the
  whole ledger including itself.\<close>

definition metered ::
  "ext \<Rightarrow> AppState \<Rightarrow> AppState \<Rightarrow> Direction \<Rightarrow> string \<Rightarrow> string \<Rightarrow> nat \<Rightarrow> Receipt \<Rightarrow> bool" where
  "metered X s s' dir did cid n r \<longleftrightarrow>
     load_receipts (as_store s') did = load_receipts (as_store s) did @ [r] \<and>
     (\<forall>d. d \<noteq> did \<longrightarrow> load_receipts (as_store s') d = load_receipts (as_store s) d) \<and>
     rc_direction (r_core r) = dir \<and> rc_cid (r_core r) = cid \<and> rc_bytes (r_core r) = n \<and>
     rc_running_total (r_core r) = ledger_bytes (as_store s') did \<and> rc_running_total (r_core r) \<le> u64_max \<and>
     rc_account_mode (r_core r) = account_mode (as_store s) did \<and> rc_day (r_core r) = as_day s \<and>
     (rc_receiver_id (r_core r), rc_sender_id (r_core r)) =
       (case dir of Upload \<Rightarrow> (pv_id (as_provider s), did) | Download \<Rightarrow> (did, pv_id (as_provider s))) \<and>
     r = build_boundary_receipt X (as_provider s) (r_core r) (boundary_receipt_mode (as_store s) did n)"

lemma transfer_metered:
  assumes t: "transfer_receipt X s dir did cid n = Ok r" and inv: "totals_inv (as_store s)" "totals_inv st"
    and same: "load_receipts st = load_receipts (as_store s)"
    and ap: "append_receipt st did r = (as_store s', Ok u)"
  shows "metered X s s' dir did cid n r"
proof -
  note T = transfer_receipt_Ok [OF t inv(1)] and A = append_receipt_inv [OF ap inv(2)]
  have "ledger_bytes (as_store s') did = ledger_bytes (as_store s) did + n"
    using A(2) T(3) by (simp add: ledger_bytes_def same)
  then have run: "rc_running_total (r_core r) = ledger_bytes (as_store s') did"
    using T(6) by (simp add: ledger_bytes_totals)
  have ids: "(rc_receiver_id (r_core r), rc_sender_id (r_core r)) =
      (case dir of Upload \<Rightarrow> (pv_id (as_provider s), did) | Download \<Rightarrow> (did, pv_id (as_provider s)))"
    using T(8,9) by (cases dir) auto
  show ?thesis
    unfolding metered_def using A(2,3) T(1-5,7,10) run ids same by simp
qed

lemma put_object_metered:
  assumes p: "op_put_object X s did key bs = (s', Ok out)" and inv: "totals_inv (as_store s)"
  obtains r where "metered X s s' Upload did (sha256_hex X bs) (length bs) r"
    "out = Stored (sha256_hex X bs) (length bs) (r_mode r) (r_content_hash r)"
proof -
  let ?c = "sha256_hex X bs"
  obtain r b st1 st2 where t: "transfer_receipt X (s\<lparr>as_blobs := b\<rparr>) Upload did ?c (length bs) = Ok r"
    and out: "out = Stored ?c (length bs) (r_mode r) (r_content_hash r)"
    and st1: "if blobs_has (as_blobs s) did ?c then st1 = as_store s
       else add_stored_bytes (as_store s) did (length bs) = (st1, Ok ())"
    and ap: "append_receipt st1 did r = (st2, Ok ())" and s': "s' = s\<lparr>as_blobs := b, as_store := st2\<rparr>"
    by (rule op_put_object_Ok [OF p]) blast
  have i1: "totals_inv st1" using st1 add_stored_bytes_inv inv by (auto split: if_splits)
  have l1: "load_receipts st1 = load_receipts (as_store s)"
  proof (cases "blobs_has (as_blobs s) did ?c")
    case False
    then obtain st0 where e: "ensure_total_row (as_store s) did = Ok st0"
      and "st1 = update_total_row did (\<lambda>row. row\<lparr>tr_stored_bytes := tr_stored_bytes row + length bs\<rparr>) st0"
      using st1 by (auto simp: add_stored_bytes_def split: result.splits if_splits)
    then show ?thesis using ensure_total_row_Ok(3) [OF e inv] by (simp add: fun_eq_iff)
  qed (use st1 in simp)
  have "metered X (s\<lparr>as_blobs := b\<rparr>) s' Upload did ?c (length bs) r"
    by (rule transfer_metered [OF t _ i1]) (use inv l1 ap s' in simp_all)
  then have "metered X s s' Upload did ?c (length bs) r" by (simp add: metered_def)
  then show thesis using out by (rule that)
qed

lemma get_object_metered:
  assumes g: "op_get_object X s did cid = (s', Ok out)" and inv: "totals_inv (as_store s)"
  obtains r data where "metered X s s' Download did cid (length data) r" "out = Bytes cid data"
    "sha256_hex X data = cid" "blobs_get (as_blobs s) did cid = Ok data" "length data \<le> MAX_OBJECT_BYTES"
proof -
  obtain data r st where d: "blobs_get (as_blobs s) did cid = Ok data" and h: "sha256_hex X data = cid"
    and out: "out = Bytes cid data" and t: "transfer_receipt X s Download did cid (length data) = Ok r"
    and ap: "append_receipt (as_store s) did r = (st, Ok ())" and s': "s' = s\<lparr>as_store := st\<rparr>"
    by (rule op_get_object_Ok [OF g])
  have "metered X s s' Download did cid (length data) r"
    by (rule transfer_metered [OF t inv inv refl]) (use ap s' in simp)
  then show thesis using out h d backend.get_bound [OF d] by (rule that)
qed

lemma result_bind_Err:
  "result_bind r f = Err e \<longleftrightarrow> r = Err e \<or> (\<exists>a. r = Ok a \<and> f a = Err e)"
  by (cases r) auto

lemma transfer_not_tampered: "transfer_receipt X s dir did cid n \<noteq> Err (Tampered c a)"
proof
  assume "transfer_receipt X s dir did cid n = Err (Tampered c a)"
  then show False
    by (cases "running_totals (as_store s) did")
      (auto simp: transfer_receipt_def Let_def result_bind_Err total_bytes_def receipt_core_new_def
        split: option.splits if_splits)
qed

lemma get_object_errors:
  assumes "op_get_object X s did cid = (s', Err (Tampered cid a))"
  shows "\<exists>b. blobs_get (as_blobs s) did cid = Ok b \<and> sha256_hex X b \<noteq> cid"
proof (cases "blobs_get (as_blobs s) did cid")
  case (Ok b)
  have "sha256_hex X b \<noteq> cid"
  proof
    assume h: "sha256_hex X b = cid"
    show False
    proof (cases "transfer_receipt X s Download did cid (length b)")
      case r: (Ok r)
      obtain st e where "append_receipt (as_store s) did r = (st, e)" by fastforce
      then show False using assms Ok h r by (cases e) (auto simp: op_get_object_def on_store_def)
    next
      case (Err e)
      then show False using assms Ok h transfer_not_tampered by (auto simp: op_get_object_def)
    qed (use assms Ok h in \<open>auto simp: op_get_object_def\<close>)
  qed
  then show ?thesis using Ok by blast
qed (use assms in \<open>auto simp: op_get_object_def blob_error_def split: BlobError.splits\<close>)

section \<open>The gates of an upload\<close>

lemma write_gates_Ok:
  assumes "write_gates st did n = Ok ()" "totals_inv st"
  shows "account_mode st did \<noteq> Drawdown"
    "\<And>cents base. spend_dial st did = Some cents \<Longrightarrow> period_baseline st did = Ok base \<Longrightarrow>
       postage_cents (saturating_add (saturating_sub (ledger_bytes st did) base) n) \<le> cents \<or>
       postage_cents (saturating_add (saturating_sub (ledger_bytes st did) base) n) \<le>
         postage_cents (saturating_sub (ledger_bytes st did) base)"
proof -
  show m: "account_mode st did \<noteq> Drawdown" using assms(1) by (auto simp: write_gates_def)
  fix cents base
  assume sp: "spend_dial st did = Some cents" and b: "period_baseline st did = Ok base"
  obtain t where t: "running_totals st did = Ok t" and u: "rt_upload_bytes t + rt_download_bytes t \<le> u64_max"
    using assms(1) m sp b by (auto simp: write_gates_def result_bind_Ok total_bytes_def split: option.splits if_splits)
  have "ledger_bytes st did = rt_upload_bytes t + rt_download_bytes t"
    using running_totals_exact [OF assms(2) t] by (simp add: ledger_bytes_totals)
  then show "postage_cents (saturating_add (saturating_sub (ledger_bytes st did) base) n) \<le> cents \<or>
       postage_cents (saturating_add (saturating_sub (ledger_bytes st did) base) n) \<le>
         postage_cents (saturating_sub (ledger_bytes st did) base)"
    using assms(1) m sp b t u
    by (auto simp: write_gates_def result_bind_Ok total_bytes_def Let_def not_less split: option.splits if_splits)
qed

lemma upload_stored:
  assumes p: "op_put_object X s did key bs = (s', Ok out)" and inv: "totals_inv (as_store s)"
  shows "stored_of (as_store s') did = stored_of (as_store s) did +
      (if blobs_has (as_blobs s) did (sha256_hex X bs) then 0 else length bs)"
    "\<And>cap. \<not> blobs_has (as_blobs s) did (sha256_hex X bs) \<Longrightarrow>
       effective_cap (did_cap (as_limits s)) (at_rest_dial (as_store s) did) = Some cap \<Longrightarrow> stored_of (as_store s') did \<le> cap"
proof -
  let ?has = "blobs_has (as_blobs s) did (sha256_hex X bs)"
  obtain r st1 st2 where q: "\<not> ?has \<Longrightarrow> quota_gate (as_limits s) (as_store s) did (length bs) = Ok ()"
    and st1: "if ?has then st1 = as_store s else add_stored_bytes (as_store s) did (length bs) = (st1, Ok ())"
    and ap: "append_receipt st1 did r = (st2, Ok ())" and s': "as_store s' = st2"
    by (rule op_put_object_Ok [OF p]) fastforce
  have stored: "stored_of (as_store s') did = stored_of st1 did"
    using append_receipt_stored(2) [of st1 did r did] ap s' by simp
  have add: "stored_of st1 did = stored_of (as_store s) did + length bs" "length bs \<le> i64_max" if "\<not> ?has"
    using add_stored_bytes_stored(2,3) [of "as_store s" did "length bs" st1 "()", OF _ inv] st1 that by auto
  show "stored_of (as_store s') did = stored_of (as_store s) did + (if ?has then 0 else length bs)"
    using stored st1 add by (cases ?has) simp_all
  show "stored_of (as_store s') did \<le> cap"
    if "\<not> ?has" "effective_cap (did_cap (as_limits s)) (at_rest_dial (as_store s) did) = Some cap" for cap
    using quota_gate_Ok(2) [OF q [OF that(1)] add(2) [OF that(1)] that(2)] stored add(1) [OF that(1)] by simp
qed

section \<open>Countersignatures\<close>

lemma op_countersign_Ok:
  assumes "op_countersign_receipt X N s did h payload = (s', Ok out)"
  obtains body key i r where "from_slice N de_countersign payload = Some body"
    "public_key_from_hex X (cs_signer body) = Ok key" "derive_id X key = did" "verify_message X key h (cs_sig body)"
    "i < length (s_receipt (as_store s))" "s_receipt (as_store s) ! i = (did, r)" "r_content_hash r = h"
    "as_store s' = (as_store s)\<lparr>s_receipt := (s_receipt (as_store s))[i :=
       (did, r\<lparr>r_sigs := bt_insert did (cs_sig body) (r_sigs r)\<rparr>)]\<rparr>"
    "out = PolicyBodyOut (render (scalar_text X) (receipt_json (r\<lparr>r_sigs := bt_insert did (cs_sig body) (r_sigs r)\<rparr>)))"
proof -
  obtain body where b: "from_slice N de_countersign payload = Some body"
    using assms by (cases "from_slice N de_countersign payload") (auto simp: op_countersign_receipt_def)
  obtain key where k: "public_key_from_hex X (cs_signer body) = Ok key"
    using assms b by (cases "public_key_from_hex X (cs_signer body)") (auto simp: op_countersign_receipt_def)
  obtain st c where cs: "countersign_receipt X (as_store s) did h did (cs_sig body) = (st, c)" by fastforce
  have d: "derive_id X key = did" and v: "verify_message X key h (cs_sig body)"
    using assms b k by (auto simp: op_countersign_receipt_def split: if_splits)
  have r: "(case c of None \<Rightarrow> (s\<lparr>as_store := st\<rparr>, Err NotFound)
      | Some completed \<Rightarrow> (s\<lparr>as_store := st\<rparr>, Ok (PolicyBodyOut (render (scalar_text X) (receipt_json completed))))) = (s', Ok out)"
    using assms b k d v cs by (simp add: op_countersign_receipt_def split: option.splits)
  from cs show thesis
  proof (cases rule: countersign_receipt_cases)
    case 1
    then show thesis using r by simp
  next
    case (2 i rr)
    then show thesis using r by (intro that [OF b k d v]) auto
  qed
qed

lemma countersign_completes:
  assumes "issued_by X pv r" "r_mode r = Bilateral" "pv_id pv \<noteq> did"
    and ids: "{rc_receiver_id (r_core r), rc_sender_id (r_core r)} = {pv_id pv, did}"
    and ring: "bt_get ring (pv_id pv) = Some (keypair_verifying_key X (pv_keypair pv))" "bt_get ring did = Some key"
    and sg: "verify_message X key (r_content_hash r) sg"
  shows "verify_bilateral X (r\<lparr>r_sigs := bt_insert did sg (r_sigs r)\<rparr>) ring"
proof -
  obtain psg where p: "r_sigs r = [(pv_id pv, psg)]"
    "verify_message X (keypair_verifying_key X (pv_keypair pv)) (r_content_hash r) psg"
    and m: "core_matches X r"
    using assms(1) by (auto simp: issued_by_def)
  have m': "core_matches X (r\<lparr>r_sigs := z\<rparr>)" for z using m by (simp add: core_matches_def)
  have g: "bt_get (bt_insert did sg (r_sigs r)) = [pv_id pv \<mapsto> psg, did \<mapsto> sg]"
    unfolding p by (subst bt_get_insert) (auto simp: btree_wf_def bt_get_def fun_eq_iff)
  have "rc_receiver_id (r_core r) = pv_id pv \<and> rc_sender_id (r_core r) = did \<or>
      rc_receiver_id (r_core r) = did \<and> rc_sender_id (r_core r) = pv_id pv"
    using ids assms(3) by (auto simp: doubleton_eq_iff)
  then show ?thesis
    using assms(2,3) ring sg p(2) m' by (auto simp: verify_bilateral_def g)
qed

section \<open>Manifests\<close>

lemma op_put_manifest_Ok:
  assumes "op_put_manifest X N s did pk body = (s', Ok out)"
  obtains m key where "from_slice N de_manifest body = Some m" "public_key_from_hex X pk = Ok key"
    "derive_id X key = did" "m_signer_id m = did" "manifest_verify X m key = Ok True"
    "\<And>old. load_manifest (as_store s) did = Some old \<Longrightarrow> m_seq old < m_seq m"
    "account_mode (as_store s) did = Drawdown \<Longrightarrow>
       m_total_bytes m \<le> (case load_manifest (as_store s) did of None \<Rightarrow> 0 | Some old \<Rightarrow> m_total_bytes old)"
    "as_store s' = save_manifest (as_store s) did m" "out = ManifestSaved (m_root m) (m_total_bytes m)"
proof -
  obtain m where m: "from_slice N de_manifest body = Some m"
    using assms by (cases "from_slice N de_manifest body") (auto simp: op_put_manifest_def)
  obtain key where k: "public_key_from_hex X pk = Ok key"
    using assms m by (cases "public_key_from_hex X pk") (auto simp: op_put_manifest_def)
  have d: "derive_id X key = did" "m_signer_id m = did"
    using assms m k by (auto simp: op_put_manifest_def split: if_splits)
  have v: "manifest_verify X m key = Ok True"
    using assms m k d by (auto simp: op_put_manifest_def sbind_Ok split: if_splits)
  define cap where "cap = (case load_manifest (as_store s) did of None \<Rightarrow> 0 | Some old \<Rightarrow> m_total_bytes old)"
  define stale where "stale = (case load_manifest (as_store s) did of
      None \<Rightarrow> False | Some old \<Rightarrow> m_seq m \<le> m_seq old)"
  have "op_put_manifest X N s did pk body =
      (if account_mode (as_store s) did = Drawdown \<and> m_total_bytes m > cap then (s, Err DrawdownActive)
      else if stale then (s, Err (AssertionStale ''manifest'' (m_seq m)))
      else (s\<lparr>as_store := save_manifest (as_store s) did m\<rparr>, Ok (ManifestSaved (m_root m) (m_total_bytes m))))"
    using m k d v by (simp add: op_put_manifest_def cap_def stale_def Let_def)
  then have "account_mode (as_store s) did = Drawdown \<Longrightarrow> m_total_bytes m \<le> cap" "\<not> stale"
    "as_store s' = save_manifest (as_store s) did m" "out = ManifestSaved (m_root m) (m_total_bytes m)"
    using assms by (auto simp: not_less split: if_splits)
  then show thesis
    by (intro that [OF m k d v]) (auto simp: cap_def stale_def not_le)
qed

section \<open>Erasure\<close>

lemma op_delete_Ok:
  assumes "op_delete_assertion s did kind sk = (s', Ok out)"
  shows "kind = FLAG_KIND" "assertion_seq (as_store s) did kind sk \<noteq> None"
    "load_assertion (as_store s') did kind sk = Ok None"
    "\<And>d k z. akey d k z \<noteq> akey did kind sk \<Longrightarrow> load_assertion (as_store s') d k z = load_assertion (as_store s) d k z"
    "s_chain_entry (as_store s') = s_chain_entry (as_store s)"
proof -
  obtain spec where sp: "kind_spec kind = Some spec"
    using assms by (cases "kind_spec kind") (auto simp: op_delete_assertion_def)
  have er: "ks_erasure spec \<noteq> Permanent" using assms sp by (auto simp: op_delete_assertion_def)
  then show "kind = FLAG_KIND" using kind_spec_erasure [OF sp] by blast
  have s': "as_store s' = (as_store s)\<lparr>s_assertion := AList.delete (akey did kind sk) (s_assertion (as_store s))\<rparr>"
    and ex: "map_of (s_assertion (as_store s)) (akey did kind sk) \<noteq> None"
    using assms sp er by (auto simp: op_delete_assertion_def delete_assertion_def Let_def split: if_splits)
  show "assertion_seq (as_store s) did kind sk \<noteq> None" using ex by (auto simp: assertion_seq_def split: option.splits)
  show "load_assertion (as_store s') did kind sk = Ok None"
    "\<And>d k z. akey d k z \<noteq> akey did kind sk \<Longrightarrow> load_assertion (as_store s') d k z = load_assertion (as_store s) d k z"
    "s_chain_entry (as_store s') = s_chain_entry (as_store s)"
    by (simp_all add: load_assertion_def s' delete_conv)
qed

end
