(* ===== verification/Http.thy ===== *)
theory Http
  imports Server
begin

text \<open>
  The HTTP edge of \<^verbatim>\<open>src/src/server.rs\<close> (handlers, responses, start-up decisions), the atproto blob
  surface \<^verbatim>\<open>src/src/pds_api.rs\<close> and the address bridge \<^verbatim>\<open>src/src/cidv1.rs\<close>. A handler is the function
  behind a route: it validates the path, authenticates, and dispatches. Routing itself, timeouts
  and the concurrency limit are the HTTP framework's. The resolver and the clock are arguments.
\<close>

section \<open>cidv1.rs\<close>

definition RAW_CODEC :: u64 where "RAW_CODEC = 0x55"
definition SHA2_256 :: u64 where "SHA2_256 = 0x12"
definition DIGEST_LEN :: usize where "DIGEST_LEN = 32"

definition cid_from_digest :: "bytes \<Rightarrow> cid" where
  "cid_from_digest digest =
     \<lparr>cid_version = 1, cid_codec = RAW_CODEC, cid_mh_code = SHA2_256, cid_digest = digest\<rparr>"

definition blob_cid_string :: "ext \<Rightarrow> net \<Rightarrow> bytes \<Rightarrow> string" where
  "blob_cid_string X N bs = cid_show N (cid_from_digest (sha256 X bs))"

definition from_sha256_hex :: "ext \<Rightarrow> net \<Rightarrow> string \<Rightarrow> (string, CidError) result" where
  "from_sha256_hex X N hex_digest =
     (case hex_decode X hex_digest of
        None \<Rightarrow> Err CidBadHex
      | Some bs \<Rightarrow>
          if length bs \<noteq> DIGEST_LEN then Err (BadDigestLen (length bs))
          else Ok (cid_show N (cid_from_digest bs)))"

definition to_sha256_hex :: "ext \<Rightarrow> net \<Rightarrow> string \<Rightarrow> (string, CidError) result" where
  "to_sha256_hex X N cid_str =
     (case cid_parse N cid_str of
        None \<Rightarrow> Err Unparseable
      | Some c \<Rightarrow>
          if cid_version c \<noteq> 1 \<or> cid_codec c \<noteq> RAW_CODEC then Err NotRawSha256
          else if cid_mh_code c \<noteq> SHA2_256 \<or> length (cid_digest c) \<noteq> DIGEST_LEN then Err NotRawSha256
          else Ok (hex_encode X (cid_digest c)))"

section \<open>Responses\<close>

fun error_status :: "ServerError \<Rightarrow> nat" where
  "error_status NotFound = 404"
| "error_status (BadManifest _) = 400"
| "error_status BadPubkey = 400"
| "error_status (BadCid _) = 400"
| "error_status (BadAssertion _) = 400"
| "error_status (AssertionAboveBound _ _) = 400"
| "error_status (BodyAboveCeiling _ _ _) = 400"
| "error_status (BadIdentifier _) = 400"
| "error_status DidKeyMismatch = 403"
| "error_status Forbidden = 403"
| "error_status DuLockedToAdmins = 403"
| "error_status AssertionUnauthorized = 403"
| "error_status (AssertionStale _ _) = 409"
| "error_status DrawdownActive = 409"
| "error_status (ChainBroken _) = 409"
| "error_status (ErasureNotAllowed _) = 405"
| "error_status (EnumerationNotAllowed _) = 405"
| "error_status (SpendCeiling _ _ _) = 402"
| "error_status Unauthorized = 401"
| "error_status (ObjectTooLarge _ _) = 413"
| "error_status StoreFull = 507"
| "error_status DidQuotaExceeded = 507"
| "error_status (Tampered _ _) = 500"
| "error_status (ByteCountMismatch _ _) = 500"
| "error_status (SePersist _) = 500"
| "error_status (SeBlob _) = 500"
| "error_status SeJson = 500"
| "error_status BadConfig = 500"
| "error_status ProviderSeedMissing = 500"
| "error_status TaskJoin = 500"

record Response =
  rs_status :: nat
  rs_headers :: "(string \<times> string) list"
  rs_body :: bytes

text \<open>\<open>display\<close> is the \<^verbatim>\<open>Display\<close> text that \<^verbatim>\<open>thiserror\<close> generates.\<close>

definition error_response :: "(ServerError \<Rightarrow> string) \<Rightarrow> ServerError \<Rightarrow> Response" where
  "error_response display e =
     (let status = error_status e; quota = (e = StoreFull \<or> e = DidQuotaExceeded)
      in \<lparr>rs_status = status, rs_headers = [],
          rs_body = (if 500 \<le> status \<and> status < 600 \<and> \<not> quota then ''internal error'' else display e)\<rparr>)"

definition BLOB_SECURITY_HEADERS :: "(string \<times> string) list" where
  "BLOB_SECURITY_HEADERS =
     [(''x-content-type-options'', ''nosniff''), (''content-disposition'', ''attachment''),
      (''content-security-policy'', ''default-src '' @ [CHR 0x27] @ ''none'' @ [CHR 0x27] @ ''; sandbox'')]"

definition etag :: "string \<Rightarrow> string" where
  "etag cid = CHR 0x22 # cid @ [CHR 0x22]"

definition json_response :: "ext \<Rightarrow> json \<Rightarrow> Response" where
  "json_response X j =
     \<lparr>rs_status = 200, rs_headers = [(''content-type'', ''application/json'')],
      rs_body = render (scalar_text X) (to_value j)\<rparr>"

definition text_json_response :: "string \<Rightarrow> Response" where
  "text_json_response t = \<lparr>rs_status = 200, rs_headers = [(''content-type'', ''application/json'')], rs_body = t\<rparr>"

definition mode_text :: "ReceiptMode \<Rightarrow> string" where
  "mode_text m = (case m of Unilateral \<Rightarrow> ''unilateral'' | Bilateral \<Rightarrow> ''bilateral'')"

fun outcome_response :: "ext \<Rightarrow> net \<Rightarrow> OpOutcome \<Rightarrow> Response" where
  "outcome_response X N (Stored cid n mode h) =
     (let r = json_response X (JObj [(''cid'', JStr cid), (''bytes'', JInt (int n)),
            (''receipt_mode'', JStr (mode_text mode)), (''receipt_hash'', JStr h)])
      in r\<lparr>rs_headers := rs_headers r @ [(''etag'', etag cid)]\<rparr>)"
| "outcome_response X N (Bytes cid data) =
     \<lparr>rs_status = 200, rs_headers = (''content-type'', ''application/octet-stream'') # (''etag'', etag cid) # BLOB_SECURITY_HEADERS,
      rs_body = data\<rparr>"
| "outcome_response X N (ManifestSaved root n) =
     json_response X (JObj [(''root'', JStr root), (''total_bytes'', JInt (int n))])"
| "outcome_response X N (ManifestBody t) = text_json_response t"
| "outcome_response X N (PolicyBodyOut t) = text_json_response t"
| "outcome_response X N (UsageBody t) = text_json_response t"
| "outcome_response X N (ChainBody t) = text_json_response t"
| "outcome_response X N (Meter c u d r p w) =
     json_response X (JObj [(''receipt_count'', JInt (int c)), (''upload_bytes'', JInt (int u)),
       (''download_bytes'', JInt (int d)), (''running_total_bytes'', JInt (int r)),
       (''postage_cents'', JInt (int p)), (''drawdown_download_bytes'', JInt (int w))])"
| "outcome_response X N (BlobList cids) = json_response X (JObj [(''cids'', JArr (map JStr cids))])"
| "outcome_response X N (AssertionSaved sq t) =
     json_response X (JObj [(''seq'', JInt (int sq)),
       (''ack'', case json_parse N t of None \<Rightarrow> JNull | Some v \<Rightarrow> v)])"
| "outcome_response X N (ChainCompacted n) = json_response X (JObj [(''compacted_behind'', JInt (int n))])"
| "outcome_response X N AssertionErased = json_response X (JObj [(''erased'', JBool True)])"
| "outcome_response X N (AssertionSubkeys ks) = json_response X (JObj [(''subkeys'', JArr (map JStr ks))])"

section \<open>Lossy UTF-8\<close>

text \<open>\<open>String::from_utf8_lossy\<close>: how many bytes the next character takes, or (with \<open>False\<close>) how
  many bytes the next ill-formed sequence takes, which is replaced by U+FFFD.\<close>

definition in_range :: "nat \<Rightarrow> nat \<Rightarrow> string \<Rightarrow> nat \<Rightarrow> bool" where
  "in_range lo hi s i \<longleftrightarrow> i < length s \<and> lo \<le> (of_char (s ! i) :: nat) \<and> (of_char (s ! i) :: nat) \<le> hi"

definition utf8_step :: "string \<Rightarrow> nat \<times> bool" where
  "utf8_step s =
     (let cont = in_range 0x80 0xBF s in
      if in_range 0 0x7F s 0 then (1, True)
      else if in_range 0xC2 0xDF s 0 then (if cont 1 then (2, True) else (1, False))
      else if in_range 0xE0 0xEF s 0 then
        (if in_range (if in_range 0xE0 0xE0 s 0 then 0xA0 else 0x80) (if in_range 0xED 0xED s 0 then 0x9F else 0xBF) s 1
         then (if cont 2 then (3, True) else (2, False)) else (1, False))
      else if in_range 0xF0 0xF4 s 0 then
        (if in_range (if in_range 0xF0 0xF0 s 0 then 0x90 else 0x80) (if in_range 0xF4 0xF4 s 0 then 0x8F else 0xBF) s 1
         then (if cont 2 then (if cont 3 then (4, True) else (3, False)) else (2, False)) else (1, False))
      else (1, False))"

lemma utf8_step_pos [simp]: "0 < fst (utf8_step s)"
  by (simp add: utf8_step_def Let_def)

function utf8_lossy :: "string \<Rightarrow> string" where
  "utf8_lossy s =
     (if s = [] then []
      else case utf8_step s of (n, valid) \<Rightarrow>
        (if valid then take n s else [CHR 0xEF, CHR 0xBF, CHR 0xBD]) @ utf8_lossy (drop n s))"
  by pat_completeness auto

termination utf8_lossy
proof (relation "measure length", goal_cases)
  case (2 s n valid)
  then have "0 < n" using utf8_step_pos [of s] by (metis fst_conv)
  then show ?case using 2 by simp
qed simp

declare utf8_lossy.simps [simp del]

lemma utf8_lossy_ascii: "list_all (\<lambda>c. (of_char c :: nat) < 128) s \<Longrightarrow> utf8_lossy s = s"
proof (induction s)
  case (Cons c s)
  then have "utf8_step (c # s) = (1, True)" by (simp add: utf8_step_def in_range_def)
  then show ?case using Cons utf8_lossy.simps [of "c # s"] by simp
qed (simp add: utf8_lossy.simps)

section \<open>Handlers\<close>

type_synonym handler_result = "AppState \<times> (OpOutcome, ServerError) result"

definition with_did :: "AppState \<Rightarrow> string \<Rightarrow> (string \<Rightarrow> AppState \<times> ('a, ServerError) result) \<Rightarrow> AppState \<times> ('a, ServerError) result" where
  "with_did s raw k =
     (case did_parse raw of
        Ok d \<Rightarrow> k (did_str d)
      | Err e \<Rightarrow> (s, Err (BadIdentifier e))
      | Panic \<Rightarrow> (s, Panic))"

text \<open>Authentication against the shared replay guard, then the rest of the handler.\<close>

definition auth_step ::
  "ext \<Rightarrow> net \<Rightarrow> resolver \<Rightarrow> u64 \<Rightarrow> AppState \<Rightarrow> HeaderMap \<Rightarrow> string \<Rightarrow> AppState \<times> Principal" where
  "auth_step X N resolve now s headers lxm =
     (case authenticate_atproto X N resolve (as_service_did s) now (as_replay s) headers lxm of
        (g, who) \<Rightarrow> (s\<lparr>as_replay := g\<rparr>, who))"

definition put_object_handler ::
  "ext \<Rightarrow> net \<Rightarrow> u64 \<Rightarrow> AppState \<Rightarrow> string \<Rightarrow> string \<Rightarrow> HeaderMap \<Rightarrow> bytes \<Rightarrow> handler_result" where
  "put_object_handler X N micros s did_raw key headers body =
     with_did s did_raw (\<lambda>did.
       dispatch_blocking X N micros s (authenticate X headers) (PutObject did key body))"

definition get_object_handler ::
  "ext \<Rightarrow> net \<Rightarrow> u64 \<Rightarrow> AppState \<Rightarrow> string \<Rightarrow> string \<Rightarrow> HeaderMap \<Rightarrow> handler_result" where
  "get_object_handler X N micros s did_raw addr headers =
     with_did s did_raw (\<lambda>did.
       case content_addr_parse addr of
         Ok a \<Rightarrow> dispatch_blocking X N micros s (authenticate X headers) (GetObject did (addr_str a))
       | Err e \<Rightarrow> (s, Err (BadIdentifier e))
       | Panic \<Rightarrow> (s, Panic))"

definition put_manifest_handler ::
  "ext \<Rightarrow> net \<Rightarrow> u64 \<Rightarrow> AppState \<Rightarrow> string \<Rightarrow> HeaderMap \<Rightarrow> bytes \<Rightarrow> handler_result" where
  "put_manifest_handler X N micros s did_raw headers body =
     with_did s did_raw (\<lambda>did.
       let pubkey_hex = (case headers PUBKEY_HEADER of None \<Rightarrow> [] | Some v \<Rightarrow> v)
       in dispatch_blocking X N micros s Anonymous (PutManifest did pubkey_hex body))"

definition get_manifest_handler :: "ext \<Rightarrow> net \<Rightarrow> u64 \<Rightarrow> AppState \<Rightarrow> string \<Rightarrow> handler_result" where
  "get_manifest_handler X N micros s did_raw =
     with_did s did_raw (\<lambda>did. dispatch_blocking X N micros s Anonymous (GetManifest did))"

definition PUT_ASSERTION_LXM :: string where "PUT_ASSERTION_LXM = ''ing.croft.ciss.putAssertion''"
definition GET_POLICY_LXM :: string where "GET_POLICY_LXM = ''ing.croft.ciss.getPolicy''"
definition DU_LXM :: string where "DU_LXM = ''ing.croft.ciss.du''"
definition METER_LXM :: string where "METER_LXM = ''ing.croft.ciss.meter''"
definition DELETE_ASSERTION_LXM :: string where "DELETE_ASSERTION_LXM = ''ing.croft.ciss.deleteAssertion''"
definition LIST_ASSERTIONS_LXM :: string where "LIST_ASSERTIONS_LXM = ''ing.croft.ciss.listAssertions''"
definition COMPACT_CHAIN_LXM :: string where "COMPACT_CHAIN_LXM = ''ing.croft.ciss.compactChain''"

definition assertion_write_auth ::
  "net \<Rightarrow> resolver \<Rightarrow> u64 \<Rightarrow> AppState \<Rightarrow> HeaderMap \<Rightarrow> AppState \<times> (AuthedWrite option, ServerError) result" where
  "assertion_write_auth N resolve now s headers =
     (case bearer_token headers of
        None \<Rightarrow> (s, Ok None)
      | Some jwt \<Rightarrow>
          (case verify_service_auth_full N resolve (as_service_did s) now (as_replay s) jwt PUT_ASSERTION_LXM of
             (g, who, jti) \<Rightarrow>
               (s\<lparr>as_replay := g\<rparr>,
                case principal_did who of
                  Some did \<Rightarrow> Ok (Some \<lparr>aw_did = did, aw_jti = jti\<rparr>)
                | None \<Rightarrow> Err AssertionUnauthorized)))"

definition put_assertion_handler ::
  "ext \<Rightarrow> net \<Rightarrow> resolver \<Rightarrow> u64 \<Rightarrow> u64 \<Rightarrow> AppState \<Rightarrow> string \<Rightarrow> string \<Rightarrow> HeaderMap \<Rightarrow> bytes \<Rightarrow> handler_result" where
  "put_assertion_handler X N resolve now micros s did_raw kind headers body =
     with_did s did_raw (\<lambda>did.
       sbind (assertion_write_auth N resolve now s headers) (\<lambda>s authed.
         dispatch_blocking X N micros s Anonymous (PutAssertion did kind None body authed)))"

definition put_assertion_subkey_handler ::
  "ext \<Rightarrow> net \<Rightarrow> resolver \<Rightarrow> u64 \<Rightarrow> u64 \<Rightarrow> AppState \<Rightarrow> string \<Rightarrow> string \<Rightarrow> string \<Rightarrow> HeaderMap \<Rightarrow> bytes \<Rightarrow> handler_result" where
  "put_assertion_subkey_handler X N resolve now micros s did_raw kind subkey headers body =
     with_did s did_raw (\<lambda>did.
       sbind (assertion_write_auth N resolve now s headers) (\<lambda>s authed.
         dispatch_blocking X N micros s Anonymous (PutAssertion did kind (Some subkey) body authed)))"

definition countersign_receipt_handler ::
  "ext \<Rightarrow> net \<Rightarrow> u64 \<Rightarrow> AppState \<Rightarrow> string \<Rightarrow> string \<Rightarrow> bytes \<Rightarrow> handler_result" where
  "countersign_receipt_handler X N micros s did_raw h body =
     with_did s did_raw (\<lambda>did.
       dispatch_blocking X N micros s Anonymous (CountersignReceipt did h (utf8_lossy body)))"

definition get_assertion_handler ::
  "ext \<Rightarrow> net \<Rightarrow> resolver \<Rightarrow> u64 \<Rightarrow> u64 \<Rightarrow> AppState \<Rightarrow> string \<Rightarrow> string \<Rightarrow> HeaderMap \<Rightarrow> handler_result" where
  "get_assertion_handler X N resolve now micros s did_raw kind headers =
     with_did s did_raw (\<lambda>did.
       case auth_step X N resolve now s headers GET_POLICY_LXM of
         (s, who) \<Rightarrow> dispatch_blocking X N micros s who (GetAssertion did kind None))"

definition get_assertion_subkey_handler ::
  "ext \<Rightarrow> net \<Rightarrow> resolver \<Rightarrow> u64 \<Rightarrow> u64 \<Rightarrow> AppState \<Rightarrow> string \<Rightarrow> string \<Rightarrow> string \<Rightarrow> string option \<Rightarrow> HeaderMap \<Rightarrow> handler_result" where
  "get_assertion_subkey_handler X N resolve now micros s did_raw kind subkey chain headers =
     with_did s did_raw (\<lambda>did.
       case auth_step X N resolve now s headers GET_POLICY_LXM of
         (s, who) \<Rightarrow>
           dispatch_blocking X N micros s who
             (if chain \<noteq> None then GetChain did kind (Some subkey) else GetAssertion did kind (Some subkey)))"

definition delete_assertion_handler ::
  "ext \<Rightarrow> net \<Rightarrow> resolver \<Rightarrow> u64 \<Rightarrow> u64 \<Rightarrow> AppState \<Rightarrow> string \<Rightarrow> string \<Rightarrow> HeaderMap \<Rightarrow> handler_result" where
  "delete_assertion_handler X N resolve now micros s did_raw kind headers =
     with_did s did_raw (\<lambda>did.
       case auth_step X N resolve now s headers DELETE_ASSERTION_LXM of
         (s, who) \<Rightarrow> dispatch_blocking X N micros s who (DeleteAssertion did kind None))"

definition delete_assertion_subkey_handler ::
  "ext \<Rightarrow> net \<Rightarrow> resolver \<Rightarrow> u64 \<Rightarrow> u64 \<Rightarrow> AppState \<Rightarrow> string \<Rightarrow> string \<Rightarrow> string \<Rightarrow> HeaderMap \<Rightarrow> handler_result" where
  "delete_assertion_subkey_handler X N resolve now micros s did_raw kind subkey headers =
     with_did s did_raw (\<lambda>did.
       case auth_step X N resolve now s headers DELETE_ASSERTION_LXM of
         (s, who) \<Rightarrow> dispatch_blocking X N micros s who (DeleteAssertion did kind (Some subkey)))"

definition list_assertions_handler ::
  "ext \<Rightarrow> net \<Rightarrow> resolver \<Rightarrow> u64 \<Rightarrow> u64 \<Rightarrow> AppState \<Rightarrow> string \<Rightarrow> string \<Rightarrow> HeaderMap \<Rightarrow> handler_result" where
  "list_assertions_handler X N resolve now micros s did_raw kind headers =
     with_did s did_raw (\<lambda>did.
       case auth_step X N resolve now s headers LIST_ASSERTIONS_LXM of
         (s, who) \<Rightarrow> dispatch_blocking X N micros s who (ListAssertions did kind))"

definition compact_chain_handler ::
  "ext \<Rightarrow> net \<Rightarrow> resolver \<Rightarrow> u64 \<Rightarrow> u64 \<Rightarrow> AppState \<Rightarrow> string \<Rightarrow> string \<Rightarrow> string \<Rightarrow> HeaderMap \<Rightarrow> handler_result" where
  "compact_chain_handler X N resolve now micros s did_raw kind subkey headers =
     with_did s did_raw (\<lambda>did.
       case auth_step X N resolve now s headers COMPACT_CHAIN_LXM of
         (s, who) \<Rightarrow> dispatch_blocking X N micros s who (CompactChain did kind (Some subkey)))"

definition get_meter_handler ::
  "ext \<Rightarrow> net \<Rightarrow> resolver \<Rightarrow> u64 \<Rightarrow> u64 \<Rightarrow> AppState \<Rightarrow> string \<Rightarrow> HeaderMap \<Rightarrow> handler_result" where
  "get_meter_handler X N resolve now micros s did_raw headers =
     with_did s did_raw (\<lambda>did.
       case auth_step X N resolve now s headers METER_LXM of
         (s, who) \<Rightarrow> dispatch_blocking X N micros s who (GetMeter did))"

definition du_handler ::
  "ext \<Rightarrow> net \<Rightarrow> resolver \<Rightarrow> u64 \<Rightarrow> u64 \<Rightarrow> AppState \<Rightarrow> string \<Rightarrow> HeaderMap \<Rightarrow> handler_result" where
  "du_handler X N resolve now micros s did_raw headers =
     with_did s did_raw (\<lambda>did.
       case auth_step X N resolve now s headers DU_LXM of
         (s, who) \<Rightarrow> dispatch_blocking X N micros s who (Du did))"

section \<open>pds\_api.rs\<close>

definition DEFAULT_MIME :: string where "DEFAULT_MIME = ''application/octet-stream''"
definition MAX_MEDIA_TYPE_LEN :: usize where "MAX_MEDIA_TYPE_LEN = 128"

definition is_valid_media_type :: "string \<Rightarrow> bool" where
  "is_valid_media_type s \<longleftrightarrow> length s \<le> MAX_MEDIA_TYPE_LEN \<and>
     (case split_once (CHR ''/'') s of None \<Rightarrow> False | Some (t, sub) \<Rightarrow> t \<noteq> [] \<and> sub \<noteq> []) \<and>
     list_all (\<lambda>b. is_ascii_alphanumeric b \<or> b \<in> {CHR ''/'', CHR ''.'', CHR ''+'', CHR ''-''}) s"

definition sanitize_media_type :: "string option \<Rightarrow> string" where
  "sanitize_media_type declared =
     (case map_option trim declared of
        Some s \<Rightarrow> if is_valid_media_type s then s else DEFAULT_MIME
      | None \<Rightarrow> DEFAULT_MIME)"

definition upload_blob ::
  "ext \<Rightarrow> net \<Rightarrow> resolver \<Rightarrow> u64 \<Rightarrow> u64 \<Rightarrow> AppState \<Rightarrow> HeaderMap \<Rightarrow> bytes \<Rightarrow> AppState \<times> (Response, ServerError) result" where
  "upload_blob X N resolve now micros s headers body =
     (case auth_step X N resolve now s headers ''com.atproto.repo.uploadBlob'' of (s, who) \<Rightarrow>
        (case principal_did who of
           None \<Rightarrow> (s, Err Unauthorized)
         | Some did \<Rightarrow>
             let mime = sanitize_media_type (headers ''content-type'') in
             sbind (dispatch_blocking X N micros s who (PutObject did ''uploadBlob'' body)) (\<lambda>s outcome.
               case outcome of
                 Stored cid n _ _ \<Rightarrow>
                   sbind (s, map_err BadCid (from_sha256_hex X N cid)) (\<lambda>s link.
                     (s, Ok (json_response X (JObj [(''blob'', JObj [(''$type'', JStr ''blob''),
                        (''ref'', JObj [(''$link'', JStr link)]), (''mimeType'', JStr mime),
                        (''size'', JInt (int n))])]))))
               | _ \<Rightarrow> (s, Err BadConfig))))"

definition get_blob ::
  "ext \<Rightarrow> net \<Rightarrow> resolver \<Rightarrow> u64 \<Rightarrow> u64 \<Rightarrow> AppState \<Rightarrow> HeaderMap \<Rightarrow> string \<Rightarrow> string \<Rightarrow> AppState \<times> (Response, ServerError) result" where
  "get_blob X N resolve now micros s headers did_raw cid_param =
     with_did s did_raw (\<lambda>did.
     sbind (s, map_err BadCid (to_sha256_hex X N cid_param)) (\<lambda>s h.
       case auth_step X N resolve now s headers ''com.atproto.sync.getBlob'' of (s, who) \<Rightarrow>
         sbind (dispatch_blocking X N micros s who (GetObject did h)) (\<lambda>s outcome.
           case outcome of
             Bytes _ data \<Rightarrow>
               (s, Ok \<lparr>rs_status = 200, rs_headers = (''content-type'', DEFAULT_MIME) # BLOB_SECURITY_HEADERS,
                       rs_body = data\<rparr>)
           | _ \<Rightarrow> (s, Err BadConfig))))"

fun sequence_result :: "('a, 'e) result list \<Rightarrow> ('a list, 'e) result" where
  "sequence_result [] = Ok []"
| "sequence_result (r # rs) = result_bind r (\<lambda>x. result_bind (sequence_result rs) (\<lambda>xs. Ok (x # xs)))"

definition list_blobs ::
  "ext \<Rightarrow> net \<Rightarrow> resolver \<Rightarrow> u64 \<Rightarrow> u64 \<Rightarrow> AppState \<Rightarrow> HeaderMap \<Rightarrow> string \<Rightarrow> AppState \<times> (Response, ServerError) result" where
  "list_blobs X N resolve now micros s headers did_raw =
     with_did s did_raw (\<lambda>did.
       case auth_step X N resolve now s headers ''com.atproto.sync.listBlobs'' of (s, who) \<Rightarrow>
         sbind (dispatch_blocking X N micros s who (ListBlobs did)) (\<lambda>s outcome.
           case outcome of
             BlobList cids \<Rightarrow>
               sbind (s, map_err BadCid (sequence_result (map (from_sha256_hex X N) cids))) (\<lambda>s links.
                 (s, Ok (json_response X (JObj [(''cids'', JArr (map JStr links))]))))
           | _ \<Rightarrow> (s, Err BadConfig)))"

section \<open>Start-up\<close>

definition DEFAULT_STORE_CEILING_BYTES :: u64 where
  "DEFAULT_STORE_CEILING_BYTES = 50 * 1024 * 1024 * 1024"

definition env_limit :: "string option \<Rightarrow> u64 option" where
  "env_limit v =
     (case Option.bind v (\<lambda>s. parse_u64 (trim s)) of
        Some n \<Rightarrow> if n > 0 then Some n else None
      | None \<Rightarrow> None)"

definition limits_from_env :: "string option \<Rightarrow> string option \<Rightarrow> Limits" where
  "limits_from_env max_store max_did =
     \<lparr>store_ceiling = (case env_limit max_store of None \<Rightarrow> DEFAULT_STORE_CEILING_BYTES | Some n \<Rightarrow> n),
      did_cap = env_limit max_did\<rparr>"

definition persist_limits :: "Store \<Rightarrow> Limits \<Rightarrow> Store" where
  "persist_limits st limits =
     put_meta (put_meta st ''store_ceiling'' (show_nat (store_ceiling limits))) ''did_cap''
       (case did_cap limits of None \<Rightarrow> [] | Some c \<Rightarrow> show_nat c)"

definition assemble :: "Provider \<Rightarrow> blobs \<Rightarrow> Store \<Rightarrow> Limits \<Rightarrow> string \<Rightarrow> AppState" where
  "assemble pv b st limits service_did =
     \<lparr>as_provider = pv, as_blobs = b, as_store = st, as_limits = limits, as_day = 0, as_replay = [],
      as_service_did = service_did, as_admin_dids = [], as_admin_only_du = False, as_compaction = OnAck,
      as_compute = compute_new\<rparr>"

definition with_limits :: "ext \<Rightarrow> string \<Rightarrow> blobs \<Rightarrow> Store \<Rightarrow> Limits \<Rightarrow> string \<Rightarrow> AppState" where
  "with_limits X seed b st limits service_did =
     assemble (provider_from_seed X seed) b (persist_limits st limits) limits service_did"

datatype SeedDecision = UseSeed string | GenerateEphemeral | FailClosed

definition decide_seed :: "string option \<Rightarrow> string option \<Rightarrow> bool \<Rightarrow> SeedDecision" where
  "decide_seed credential env under_systemd =
     (case credential of
        Some (c # cs) \<Rightarrow> UseSeed (c # cs)
      | _ \<Rightarrow>
          (case env of
             Some (c # cs) \<Rightarrow> UseSeed (c # cs)
           | _ \<Rightarrow> if under_systemd then FailClosed else GenerateEphemeral))"

text \<open>The systemd credential file and the random bytes of a development seed are arguments;
  a credential that exists and cannot be read is \<open>Err\<close>.\<close>

definition resolve_provider_seed ::
  "ext \<Rightarrow> (string option, unit) result \<Rightarrow> string option \<Rightarrow> bool \<Rightarrow> bytes option \<Rightarrow> (string, ServerError) result" where
  "resolve_provider_seed X credential env under_systemd random_bytes =
     result_bind (map_err (\<lambda>_. BadConfig) credential) (\<lambda>cred.
       case decide_seed (map_option trim cred) env under_systemd of
         UseSeed seed \<Rightarrow> Ok seed
       | FailClosed \<Rightarrow> Err ProviderSeedMissing
       | GenerateEphemeral \<Rightarrow>
           (case random_bytes of None \<Rightarrow> Err BadConfig | Some bs \<Rightarrow> Ok (hex_encode X bs)))"

definition with_provider_from_secret ::
  "ext \<Rightarrow> (string, ServerError) result \<Rightarrow> blobs \<Rightarrow> Store \<Rightarrow> Limits \<Rightarrow> string \<Rightarrow> (AppState, ServerError) result" where
  "with_provider_from_secret X seed b st limits service_did =
     result_bind seed (\<lambda>sd.
       let pv = provider_from_seed X sd;
           st1 = put_meta st ''provider_pubkey'' (public_key_hex X (pv_keypair pv))
       in Ok (assemble pv b (persist_limits st1 limits) limits service_did))"

definition flush_compute :: "AppState \<Rightarrow> AppState" where
  "flush_compute s = s\<lparr>as_store := replace_compute_usage (as_store s) (snapshot (as_compute s))\<rparr>"

definition service_endpoint :: "string \<Rightarrow> string" where
  "service_endpoint did = (case strip_prefix ''did:web:'' did of None \<Rightarrow> [] | Some host \<Rightarrow> ''https://'' @ host)"

definition well_known_did_handler :: "ext \<Rightarrow> AppState \<Rightarrow> Response" where
  "well_known_did_handler X s =
     (let did = as_service_did s;
          vm = (\<lambda>frag kp. JObj [(''id'', JStr (did @ frag)), (''type'', JStr ''Ed25519VerificationKey2020''),
                 (''controller'', JStr did), (''publicKeyHex'', JStr (public_key_hex X kp))])
      in json_response X (JObj [
           (''@context'', JArr [JStr ''https://www.w3.org/ns/did/v1'']), (''id'', JStr did),
           (''verificationMethod'', JArr [vm ''#assertion-ack'' (pv_attest_keypair (as_provider s)),
              vm ''#receipts'' (pv_keypair (as_provider s))]),
           (''service'', JArr [JObj [(''id'', JStr ''#ciss_storage''), (''type'', JStr ''CissItemStorage''),
              (''serviceEndpoint'', JStr (service_endpoint did))]])]))"

definition oauth_protected_resource_handler :: "ext \<Rightarrow> AppState \<Rightarrow> Response" where
  "oauth_protected_resource_handler X s =
     json_response X (JObj [(''resource'', JStr (service_endpoint (as_service_did s))),
       (''authorization_servers'', JArr [JStr ''https://bsky.social''])])"

definition parse_u32 :: "string \<Rightarrow> nat option" where
  "parse_u32 s = (case parse_u64 s of Some n \<Rightarrow> if n < 2 ^ 32 then Some n else None | None \<Rightarrow> None)"

definition inherit_fd_requested :: "string option \<Rightarrow> string option \<Rightarrow> nat \<Rightarrow> bool" where
  "inherit_fd_requested listen_fds listen_pid my_pid \<longleftrightarrow>
     map_option trim listen_fds = Some ''1'' \<and>
     Option.bind listen_pid (\<lambda>p. parse_u32 (trim p)) = Some my_pid"

end
