(* ===== verification/Router.thy ===== *)
theory Router
  imports Http
begin

text \<open>
  The route table of \<^verbatim>\<open>App::router\<close> in \<^verbatim>\<open>src/src/server.rs\<close> and of \<^verbatim>\<open>routes\<close> in
  \<^verbatim>\<open>src/src/pds_api.rs\<close>: every entry is a constructor of \<open>Route\<close> with the path parameters of its
  pattern, and \<open>serve\<close> runs the handler the entry names and turns its result into a response.
  Matching a URL against the patterns, the request timeout and the concurrency limit are axum's
  and tower's.
\<close>

datatype Route =
    RtPutObject string string | RtGetObject string string
  | RtPutManifest string | RtGetManifest string
  | RtPutAssertion string string | RtGetAssertion string string | RtDeleteAssertion string string
  | RtPutAssertionSubkey string string string | RtGetAssertionSubkey string string string
  | RtDeleteAssertionSubkey string string string
  | RtListAssertions string string
  | RtCompactChain string string string
  | RtCountersign string string
  | RtGetMeter string | RtDu string
  | RtUploadBlob | RtGetBlob string string | RtListBlobs string
  | RtHealthz | RtWellKnownDid | RtOauthProtectedResource | RtFallback

text \<open>What a request carries beyond its route; \<open>rq_now\<close> and \<open>rq_micros\<close> are the clock readings the
  handler takes, \<open>rq_resolve\<close> the answers of the DID resolver at that moment.\<close>

record Request =
  rq_headers :: HeaderMap
  rq_body :: bytes
  rq_chain :: "string option"
  rq_now :: u64
  rq_micros :: u64
  rq_resolve :: resolver

definition healthz_handler :: Response where
  "healthz_handler = \<lparr>rs_status = 200, rs_headers = [(''content-type'', ''text/plain; charset=utf-8'')], rs_body = ''ok''\<rparr>"

definition unimplemented_s3 :: Response where
  "unimplemented_s3 = \<lparr>rs_status = 501, rs_headers = [(''content-type'', ''text/plain; charset=utf-8'')],
     rs_body = ''not implemented in v0 (SEAM: S3 verb surface beyond PUT/GET)''\<rparr>"

text \<open>\<open>None\<close> is a handler that panicked: no response is written.\<close>

definition respond :: "(ServerError \<Rightarrow> string) \<Rightarrow> (Response, ServerError) result \<Rightarrow> Response option" where
  "respond display r = (case r of Ok resp \<Rightarrow> Some resp | Err e \<Rightarrow> Some (error_response display e) | Panic \<Rightarrow> None)"

definition map_ok :: "('a \<Rightarrow> 'b) \<Rightarrow> ('a, 'e) result \<Rightarrow> ('b, 'e) result" where
  "map_ok f r = result_bind r (\<lambda>a. Ok (f a))"

definition handler_response ::
  "ext \<Rightarrow> net \<Rightarrow> handler_result \<Rightarrow> AppState \<times> (Response, ServerError) result" where
  "handler_response X N p = (case p of (s, r) \<Rightarrow> (s, map_ok (outcome_response X N) r))"

fun run_route ::
  "ext \<Rightarrow> net \<Rightarrow> AppState \<Rightarrow> Request \<Rightarrow> Route \<Rightarrow> AppState \<times> (Response, ServerError) result" where
  "run_route X N s q (RtPutObject did addr) =
     handler_response X N (put_object_handler X N (rq_micros q) s did addr (rq_headers q) (rq_body q))"
| "run_route X N s q (RtGetObject did addr) =
     handler_response X N (get_object_handler X N (rq_micros q) s did addr (rq_headers q))"
| "run_route X N s q (RtPutManifest did) =
     handler_response X N (put_manifest_handler X N (rq_micros q) s did (rq_headers q) (rq_body q))"
| "run_route X N s q (RtGetManifest did) = handler_response X N (get_manifest_handler X N (rq_micros q) s did)"
| "run_route X N s q (RtPutAssertion did kind) = handler_response X N
     (put_assertion_handler X N (rq_resolve q) (rq_now q) (rq_micros q) s did kind (rq_headers q) (rq_body q))"
| "run_route X N s q (RtGetAssertion did kind) = handler_response X N
     (get_assertion_handler X N (rq_resolve q) (rq_now q) (rq_micros q) s did kind (rq_headers q))"
| "run_route X N s q (RtDeleteAssertion did kind) = handler_response X N
     (delete_assertion_handler X N (rq_resolve q) (rq_now q) (rq_micros q) s did kind (rq_headers q))"
| "run_route X N s q (RtPutAssertionSubkey did kind sk) = handler_response X N
     (put_assertion_subkey_handler X N (rq_resolve q) (rq_now q) (rq_micros q) s did kind sk (rq_headers q) (rq_body q))"
| "run_route X N s q (RtGetAssertionSubkey did kind sk) = handler_response X N
     (get_assertion_subkey_handler X N (rq_resolve q) (rq_now q) (rq_micros q) s did kind sk (rq_chain q) (rq_headers q))"
| "run_route X N s q (RtDeleteAssertionSubkey did kind sk) = handler_response X N
     (delete_assertion_subkey_handler X N (rq_resolve q) (rq_now q) (rq_micros q) s did kind sk (rq_headers q))"
| "run_route X N s q (RtListAssertions did kind) = handler_response X N
     (list_assertions_handler X N (rq_resolve q) (rq_now q) (rq_micros q) s did kind (rq_headers q))"
| "run_route X N s q (RtCompactChain did kind sk) = handler_response X N
     (compact_chain_handler X N (rq_resolve q) (rq_now q) (rq_micros q) s did kind sk (rq_headers q))"
| "run_route X N s q (RtCountersign did h) =
     handler_response X N (countersign_receipt_handler X N (rq_micros q) s did h (rq_body q))"
| "run_route X N s q (RtGetMeter did) = handler_response X N
     (get_meter_handler X N (rq_resolve q) (rq_now q) (rq_micros q) s did (rq_headers q))"
| "run_route X N s q (RtDu did) = handler_response X N
     (du_handler X N (rq_resolve q) (rq_now q) (rq_micros q) s did (rq_headers q))"
| "run_route X N s q RtUploadBlob =
     upload_blob X N (rq_resolve q) (rq_now q) (rq_micros q) s (rq_headers q) (rq_body q)"
| "run_route X N s q (RtGetBlob did cid) =
     get_blob X N (rq_resolve q) (rq_now q) (rq_micros q) s (rq_headers q) did cid"
| "run_route X N s q (RtListBlobs did) =
     list_blobs X N (rq_resolve q) (rq_now q) (rq_micros q) s (rq_headers q) did"
| "run_route X N s q RtHealthz = (s, Ok healthz_handler)"
| "run_route X N s q RtWellKnownDid = (s, Ok (well_known_did_handler X s))"
| "run_route X N s q RtOauthProtectedResource = (s, Ok (oauth_protected_resource_handler X s))"
| "run_route X N s q RtFallback = (s, Ok unimplemented_s3)"

definition serve ::
  "ext \<Rightarrow> net \<Rightarrow> (ServerError \<Rightarrow> string) \<Rightarrow> AppState \<Rightarrow> Request \<Rightarrow> Route \<Rightarrow> AppState \<times> Response option" where
  "serve X N display s q rt = (case run_route X N s q rt of (s', r) \<Rightarrow> (s', respond display r))"

end
