(* ===== verification/Runs.thy ===== *)
theory Runs
  imports Metering Router
begin

text \<open>
  The server as a transition system: a step serves one request, or flushes the compute ledger to
  the database as the periodic task and the shutdown path do. Every route is shown to move the
  state by authentications and dispatches only, so an invariant of the store's own operations is
  an invariant of every run.
\<close>

section \<open>Atomic moves\<close>

inductive move :: "ext \<Rightarrow> net \<Rightarrow> AppState \<Rightarrow> AppState \<Rightarrow> bool" for X N where
  stay: "move X N s s"
| auth: "move X N s s' \<Longrightarrow> verify_service_auth_full N resolve (as_service_did s') now (as_replay s') jwt lxm = (g, p, j) \<Longrightarrow>
    move X N s (s'\<lparr>as_replay := g\<rparr>)"
| request: "move X N s s' \<Longrightarrow> dispatch X N micros s' who oper = (s'', r) \<Longrightarrow> move X N s s''"

lemma move_trans: "move X N s t \<Longrightarrow> move X N t u \<Longrightarrow> move X N s u"
  by (rotate_tac 1) (induction rule: move.induct; blast intro: move.intros)

lemma move_dispatch: "move X N s (fst (dispatch_blocking X N micros s who oper))"
proof -
  obtain s' r where d: "dispatch X N micros s who oper = (s', r)" by fastforce
  then have "fst (dispatch_blocking X N micros s who oper) = s'"
    by (cases r) (simp_all add: dispatch_blocking_def)
  then show ?thesis using move.request [OF move.stay d] by simp
qed

lemma move_full:
  "verify_service_auth_full N resolve (as_service_did s) now (as_replay s) jwt lxm = (g, p, j) \<Longrightarrow>
   move X N s (s\<lparr>as_replay := g\<rparr>)"
  using move.auth [OF move.stay] by simp

lemma move_auth_step: "move X N s (fst (auth_step X N resolve now s headers lxm))"
proof (cases "bearer_token headers")
  case None
  then show ?thesis using move.stay [of X N s] by (simp add: auth_step_def authenticate_atproto_def)
next
  case (Some jwt)
  obtain g p j where v: "verify_service_auth_full N resolve (as_service_did s) now (as_replay s) jwt lxm = (g, p, j)"
    by (metis prod_cases3)
  then show ?thesis using move_full [OF v, of X] Some
    by (simp add: auth_step_def authenticate_atproto_def verify_service_auth_def)
qed

lemma move_write_auth: "move X N s (fst (assertion_write_auth N resolve now s headers))"
proof (cases "bearer_token headers")
  case None
  then show ?thesis using move.stay [of X N s] by (simp add: assertion_write_auth_def)
next
  case (Some jwt)
  obtain g p j where v: "verify_service_auth_full N resolve (as_service_did s) now (as_replay s) jwt PUT_ASSERTION_LXM = (g, p, j)"
    by (metis prod_cases3)
  then show ?thesis using move_full [OF v, of X] Some by (simp add: assertion_write_auth_def)
qed

lemma move_with_did: "(\<And>did. move X N s (fst (k did))) \<Longrightarrow> move X N s (fst (with_did s raw k))"
  using move.stay [of X N s] by (simp add: with_did_def split: result.splits)

lemma move_sbind:
  assumes "move X N s (fst p)" "\<And>s1 a. p = (s1, Ok a) \<Longrightarrow> move X N s1 (fst (f s1 a))"
  shows "move X N s (fst (sbind p f))"
proof -
  obtain s1 r where p: "p = (s1, r)" by (cases p)
  show ?thesis
  proof (cases r)
    case (Ok a)
    then show ?thesis using assms p by (auto intro: move_trans)
  qed (use assms(1) p in simp_all)
qed

lemma move_auth_then:
  "(\<And>s1 who. move X N s1 (fst (f s1 who))) \<Longrightarrow>
   move X N s (fst (case auth_step X N resolve now s headers lxm of (s1, who) \<Rightarrow> f s1 who))"
  using move_auth_step [of X N s resolve now headers lxm] by (auto split: prod.splits intro: move_trans)

lemmas move_rules = move_with_did move_auth_then move_sbind move_dispatch move_write_auth move.stay

lemma fst_handler_response [simp]: "fst (handler_response X N p) = fst p"
  by (simp add: handler_response_def split: prod.splits)

text \<open>Every route moves the state by authentications and dispatches.\<close>

lemma blob_routes_move:
  "move X N s (fst (upload_blob X N resolve now micros s headers body))"
  "move X N s (fst (get_blob X N resolve now micros s headers did cid))"
  "move X N s (fst (list_blobs X N resolve now micros s headers did))"
proof -
  have tail: "move X N s1 (fst (case r of Stored cid n m h \<Rightarrow> sbind (s1, g cid) (\<lambda>s2 a. (s2, Ok (k cid n a))) | _ \<Rightarrow> (s1, Err BadConfig)))"
    for s1 r g and k :: "string \<Rightarrow> u64 \<Rightarrow> string \<Rightarrow> Response"
    by (cases r) (auto intro!: move_sbind move.stay)
  show "move X N s (fst (upload_blob X N resolve now micros s headers body))"
    unfolding upload_blob_def Let_def
    by (intro move_auth_then)
      (auto split: option.splits intro!: move_sbind move_dispatch move.stay tail)
  show "move X N s (fst (get_blob X N resolve now micros s headers did cid))"
    unfolding get_blob_def
    by (intro move_with_did move_sbind move_auth_then)
      (auto split: OpOutcome.splits intro!: move_dispatch move.stay)
  show "move X N s (fst (list_blobs X N resolve now micros s headers did))"
    unfolding list_blobs_def
    by (intro move_with_did move_auth_then move_sbind)
      (auto split: OpOutcome.splits intro!: move_dispatch move.stay move_sbind)
qed

lemma run_route_moves: "move X N s (fst (run_route X N s q rt))"
proof (cases rt)
  case (RtGetObject did addr)
  then show ?thesis
    by (auto simp: get_object_handler_def split: result.splits intro!: move_with_did move_dispatch move.stay)
qed (auto simp: put_object_handler_def put_manifest_handler_def get_manifest_handler_def put_assertion_handler_def
    put_assertion_subkey_handler_def countersign_receipt_handler_def get_assertion_handler_def
    get_assertion_subkey_handler_def delete_assertion_handler_def delete_assertion_subkey_handler_def
    list_assertions_handler_def compact_chain_handler_def get_meter_handler_def du_handler_def Let_def
    blob_routes_move intro!: move_rules)

section \<open>Runs\<close>

inductive step :: "ext \<Rightarrow> net \<Rightarrow> AppState \<Rightarrow> AppState \<Rightarrow> bool" for X N where
  served: "serve X N display s q rt = (s', resp) \<Longrightarrow> step X N s s'"
| flushed: "step X N s (flush_compute s)"

inductive_cases stepE: "step X N s s'"

inductive reachable :: "ext \<Rightarrow> net \<Rightarrow> AppState \<Rightarrow> AppState \<Rightarrow> bool" for X N s0 where
  start: "reachable X N s0 s0"
| next_step: "reachable X N s0 s \<Longrightarrow> step X N s s' \<Longrightarrow> reachable X N s0 s'"

lemma serve_state: "serve X N display s q rt = (s', resp) \<Longrightarrow> s' = fst (run_route X N s q rt)"
  by (simp add: serve_def split: prod.splits)

lemma step_cases:
  assumes "step X N s s'"
  obtains "move X N s s'" | "s' = flush_compute s"
  using assms run_route_moves [of X N s] by (auto elim!: stepE dest!: serve_state)

text \<open>An invariant of the whole state that authentications, dispatches and flushes keep.\<close>

locale state_invariant =
  fixes X :: ext and N :: net and J :: "AppState \<Rightarrow> bool"
  assumes on_auth: "J s \<Longrightarrow> J (s\<lparr>as_replay := g\<rparr>)"
    and on_dispatch: "J s \<Longrightarrow> dispatch X N micros s who oper = (s', r) \<Longrightarrow> J s'"
    and on_flush: "J s \<Longrightarrow> J (flush_compute s)"
begin

lemma move: "move X N s s' \<Longrightarrow> J s \<Longrightarrow> J s'"
  by (induction rule: move.induct) (auto intro: on_auth on_dispatch)

lemma step: "step X N s s' \<Longrightarrow> J s \<Longrightarrow> J s'"
  using move on_flush by (blast elim: step_cases)

lemma always: "reachable X N s0 s \<Longrightarrow> J s0 \<Longrightarrow> J s"
  by (induction rule: reachable.induct) (auto intro: step)

end

text \<open>A property of the store that every operation and the flush keep is such an invariant.\<close>

locale run_invariant = ledger_invariant I "\<lambda>_. True" for I +
  assumes on_flush_store: "I st \<Longrightarrow> I (replace_compute_usage st rows)"
begin

lemma state_invariant: "state_invariant X N (\<lambda>s. I (as_store s))"
proof
  show "I (as_store s')" if "I (as_store s)" "dispatch X N micros s who oper = (s', r)" for s s' micros who oper r
    using dispatch [where oper = oper and s = s and X = X and N = N and micros = micros and who = who] that by simp
qed (simp_all add: flush_compute_def on_flush_store)

lemmas store_always = state_invariant.always [OF state_invariant]

end

lemma compute_usage_tables [simp]:
  "s_receipt (replace_compute_usage st rows) = s_receipt st" "s_did_total (replace_compute_usage st rows) = s_did_total st"
  "s_manifest (replace_compute_usage st rows) = s_manifest st" "s_assertion (replace_compute_usage st rows) = s_assertion st"
  "s_chain_entry (replace_compute_usage st rows) = s_chain_entry st"
  by (simp_all add: replace_compute_usage_def)

interpretation run_totals: run_invariant totals_inv
  by unfold_locales (auto elim!: totals_inv_cong [THEN iffD1, rotated 2])

section \<open>The ledger only grows\<close>

text \<open>What a receipt meters is never rewritten and never dropped: the cores of a tenant's ledger
  at one moment are a prefix of those at every later moment.\<close>

definition ledger_cores :: "Store \<Rightarrow> string \<Rightarrow> ReceiptCore list" where
  "ledger_cores st d = map r_core (load_receipts st d)"

lemma ledger_cores_cong:
  "map (\<lambda>(d, r). (d, r_core r)) (s_receipt st') = map (\<lambda>(d, r). (d, r_core r)) (s_receipt st) \<Longrightarrow>
   ledger_cores st' d = ledger_cores st d"
proof -
  have "ledger_cores st d = map snd (filter (\<lambda>(e, _). e = d) (map (\<lambda>(d, r). (d, r_core r)) (s_receipt st)))" for st
    by (simp add: ledger_cores_def load_receipts_def filter_map comp_def split_def)
  then show "map (\<lambda>(d, r). (d, r_core r)) (s_receipt st') = map (\<lambda>(d, r). (d, r_core r)) (s_receipt st) \<Longrightarrow> ?thesis"
    by simp
qed

lemma append_receipt_cores: "prefix (ledger_cores st d) (ledger_cores (fst (append_receipt st did r)) d)"
proof -
  have ens: "s_receipt st1 = s_receipt st" if "ensure_total_row st did = Ok st1" for st1
    using that by (auto simp: ensure_total_row_def split: option.splits result.splits if_splits)
  then have "\<exists>rs. s_receipt (fst (append_receipt st did r)) = s_receipt st @ rs"
    by (auto simp: append_receipt_def update_total_row_def Let_def split: result.splits)
  then show ?thesis by (auto simp: ledger_cores_def load_receipts_def)
qed

interpretation append_only: run_invariant "\<lambda>st. prefix cs (ledger_cores st d)" for cs d
proof unfold_locales
  fix X :: ext and st did r h signer sg n
  show "prefix cs (ledger_cores (fst (append_receipt st did r)) d)" if "prefix cs (ledger_cores st d)"
    using that append_receipt_cores by (rule prefix_order.trans)
  show "prefix cs (ledger_cores (fst (countersign_receipt X st did h signer sg)) d)" if "prefix cs (ledger_cores st d)"
    using ledger_cores_cong [OF countersign_receipt_core(1) [of X st did h signer sg, OF prod.collapse [symmetric]]] that
    by simp
qed (simp_all add: ledger_cores_def load_receipts_def)

section \<open>Manifests never roll back\<close>

lemma manifest_tables [simp]:
  "s_manifest (fst (append_receipt st did r)) = s_manifest st" "s_manifest (fst (save_assertion st a k)) = s_manifest st"
  "s_manifest (fst (delete_assertion st did kind sk)) = s_manifest st" "s_manifest (put_meta st key v) = s_manifest st"
  "s_manifest (fst (append_chain_entry st a k b h)) = s_manifest st"
  "s_manifest (fst (append_checkpoint_entry st a k cp h)) = s_manifest st"
  "s_manifest (fst (compact_behind_latest_checkpoint st did kind sk)) = s_manifest st"
  "s_manifest (fst (add_stored_bytes st did n)) = s_manifest st"
  by (auto simp: append_receipt_def add_stored_bytes_def ensure_total_row_def update_total_row_def put_meta_def
      save_assertion_def upsert_assertion_def delete_assertion_def append_chain_entry_def append_checkpoint_entry_def
      insert_chain_row_def compact_behind_latest_checkpoint_def Let_def split: option.splits result.splits if_splits)

lemma countersign_manifest [simp]: "s_manifest (fst (countersign_receipt X st did h signer sg)) = s_manifest st"
  by (auto simp: countersign_receipt_def Let_def split: option.splits prod.splits)

definition manifest_at_least :: "u64 \<Rightarrow> string \<Rightarrow> Store \<Rightarrow> bool" where
  "manifest_at_least n d st \<longleftrightarrow> (\<exists>m. load_manifest st d = Some m \<and> n \<le> m_seq m)"

lemma manifest_at_least_cong: "s_manifest st = s_manifest st' \<Longrightarrow> manifest_at_least n d st = manifest_at_least n d st'"
  by (simp add: manifest_at_least_def load_manifest_def)

interpretation manifests: run_invariant "manifest_at_least n d" for n d
proof unfold_locales
  fix st did and m :: Manifest
  show "manifest_at_least n d (save_manifest st did m)"
    if "manifest_at_least n d st" "\<And>old. load_manifest st did = Some old \<Longrightarrow> m_seq old < m_seq m"
    using that by (force simp: manifest_at_least_def load_manifest_def save_manifest_def update_conv)
qed (auto elim!: manifest_at_least_cong [THEN iffD1, rotated])

section \<open>Quota, compute ledger, configuration, content addresses\<close>

definition within_quota :: "AppState \<Rightarrow> bool" where
  "within_quota s \<longleftrightarrow> totals_inv (as_store s) \<and> stored_total (as_store s) \<le> store_ceiling (as_limits s)"

lemma dispatch_quota:
  assumes "within_quota s" "dispatch X N micros s who oper = (s', r)"
  shows "within_quota s'"
proof -
  have inv: "totals_inv (as_store s)" and q: "stored_total (as_store s) \<le> store_ceiling (as_limits s)"
    using assms(1) by (auto simp: within_quota_def)
  have t: "totals_inv (as_store s')" using totals.dispatch [where oper = oper and s = s and X = X and N = N and micros = micros and who = who] inv assms(2) by simp
  have l: "as_limits s' = as_limits s" using dispatch_config(1) [OF assms(2)] by (simp add: config_def)
  have "stored_total (as_store (fst (dispatch_op X N s who oper))) \<le> store_ceiling (as_limits s)"
    using quota.other_ops [where oper = oper and s = s and c = "store_ceiling (as_limits s)" and X = X and N = N and who = who] put_object_quota [OF inv q] q
    by (cases oper) auto
  with assms(2) q have "stored_total (as_store s') \<le> store_ceiling (as_limits s)"
    by (cases rule: dispatch_cases) auto
  then show ?thesis using t l by (simp add: within_quota_def)
qed

interpretation quota_run: state_invariant X N within_quota for X N
  by unfold_locales
    (auto simp: within_quota_def flush_compute_def stored_total_def intro: dispatch_quota [unfolded within_quota_def, THEN conjunct1]
      run_totals.on_flush_store dest: dispatch_quota [unfolded within_quota_def stored_total_def, THEN conjunct2, rotated])

lemma dispatch_compute:
  assumes "compute_inv (as_compute s)" "dispatch X N micros s who oper = (s', r)"
  shows "compute_inv (as_compute s')"
  using assms(2)
proof (cases rule: dispatch_cases)
  case (ran s1 r1)
  have "as_compute s1 = as_compute s"
    using ran(3) put_object_rest [of X s] store_only [of oper X N s who]
    by (cases oper) (auto simp: rest_def dest: arg_cong [where f = "\<lambda>p. rest (fst p)"])
  then show ?thesis using ran(10) compute_record_inv assms(1) by auto
qed (use assms(1) in simp)

interpretation compute_run: state_invariant X N "\<lambda>s. compute_inv (as_compute s)" for X N
  by unfold_locales (auto simp: flush_compute_def dest: dispatch_compute)

interpretation config_run: state_invariant X N "\<lambda>s. config s = c" for X N c
  by unfold_locales (auto simp: flush_compute_def config_def dest: dispatch_config(1) [unfolded config_def])

text \<open>Every object is stored under the digest of its bytes.\<close>

definition content_addressed :: "ext \<Rightarrow> AppState \<Rightarrow> bool" where
  "content_addressed X s \<longleftrightarrow> (\<forall>d c b. blobs_get (as_blobs s) d c = Ok b \<longrightarrow> sha256_hex X b = c)"

lemma blobs_put_value:
  assumes "blobs_put s d c b = (s', r)" "blobs_get s' d' c' = Ok x"
  shows "x = b \<and> c' = c \<or> blobs_get s d' c' = Ok x"
proof (cases "(d', c') = (d, c)")
  case True
  show ?thesis
  proof (cases s)
    case (MemoryBlobs m)
    then show ?thesis using assms True by (auto simp: mem_put_def mem_get_def split: if_splits)
  next
    case (FsBlobs f)
    then obtain f' where f: "fs_put f d c b = (f', r)" "s' = FsBlobs f'" using assms(1) by (auto split: prod.splits)
    note P = fs_put_cases [OF f(1)]
    show ?thesis
      using P assms(2) True FsBlobs f(2) fs_get_cong [of f' f d c]
      by (cases r) (auto simp: fs_get_def permanent_path_def Let_def split: if_splits)
  qed
qed (use backend.put_frame [OF assms(1)] assms(2) in simp)

lemma dispatch_content:
  assumes "content_addressed X s" "dispatch X N micros s who oper = (s', r)"
  shows "content_addressed X s'"
  using assms(2)
proof (cases rule: dispatch_cases)
  case (ran s1 r1)
  show ?thesis
  proof (cases oper)
    case (PutObject did key bs)
    obtain b e where b: "blobs_put (as_blobs s) did (sha256_hex X bs) bs = (b, e)" by fastforce
    have "as_blobs s' = as_blobs s \<or> as_blobs s' = b"
      using put_object_blobs [of X s did key bs] ran(3,5) PutObject b by auto
    then show ?thesis using blobs_put_value [OF b] assms(1) unfolding content_addressed_def by metis
  qed (use store_only [of oper X N s who] ran(3,5) assms(1) in \<open>simp_all add: content_addressed_def\<close>)
qed (use assms(1) in simp)

interpretation content_run: state_invariant X N "content_addressed X" for X N
  by unfold_locales (auto simp: flush_compute_def content_addressed_def
      dest: dispatch_content [unfolded content_addressed_def, rotated])

end
