(* ===== verification/Progress.thy ===== *)
theory Progress
  imports Metering
begin

text \<open>
  Uploads and downloads that succeed: when the gates pass, the counters have room and the backend
  does not fail, an upload is stored and metered and a download of it returns its bytes.
\<close>

section \<open>Room in the counters\<close>

text \<open>The stored counters fit SQLite's signed integers and the running total fits \<open>u64\<close> after
  \<open>n\<close> more bytes.\<close>

definition can_meter :: "Store \<Rightarrow> string \<Rightarrow> nat \<Rightarrow> bool" where
  "can_meter st did n \<longleftrightarrow>
     totals_le (ledger_totals (load_receipts st did)) i64_max \<and> ledger_bytes st did + n \<le> u64_max \<and> n \<le> i64_max"

lemma totals_le_u64: "totals_le t i64_max \<Longrightarrow> totals_le t u64_max"
  by (auto simp: totals_le_def i64_max_def u64_max_def)

lemma sum_receipts_Ok:
  "totals_le (ledger_totals (load_receipts st did)) i64_max \<Longrightarrow> sum_receipts st did = Ok (ledger_totals (load_receipts st did))"
  by (simp add: sum_receipts_def Let_def totals_le_u64)

lemma running_totals_Ok:
  assumes "totals_inv st" "can_meter st did n"
  shows "running_totals st did = Ok (ledger_totals (load_receipts st did))"
  using assms by (auto simp: running_totals_def can_meter_def sum_receipts_Ok totals_inv_iff split: option.splits)

lemma ensure_total_row_total:
  assumes "can_meter st did n"
  shows "\<exists>st1. ensure_total_row st did = Ok st1"
  using assms by (auto simp: ensure_total_row_def can_meter_def sum_receipts_Ok split: option.splits)

lemma transfer_receipt_total:
  assumes "totals_inv (as_store s)" "can_meter (as_store s) did n"
  shows "\<exists>r. transfer_receipt X s dir did cid n = Ok r"
proof -
  let ?t = "ledger_totals (load_receipts (as_store s) did)"
  have b: "rt_upload_bytes ?t + rt_download_bytes ?t + n \<le> u64_max"
    using assms(2) by (simp add: can_meter_def ledger_bytes_totals)
  then have u: "u64_add (rt_upload_bytes ?t + rt_download_bytes ?t) n = Some (rt_upload_bytes ?t + rt_download_bytes ?t + n)"
    "u64_add (rt_upload_bytes ?t) (rt_download_bytes ?t) = Some (rt_upload_bytes ?t + rt_download_bytes ?t)" by simp_all
  show ?thesis
    by (simp add: transfer_receipt_def Let_def running_totals_Ok [OF assms] total_bytes_def u receipt_core_new_def)
qed

lemma append_receipt_total:
  assumes "can_meter st did n" "rc_bytes (r_core r) = n"
  shows "\<exists>st'. append_receipt st did r = (st', Ok ())"
  using ensure_total_row_total [OF assms(1)] assms by (auto simp: append_receipt_def can_meter_def Let_def)

lemma add_stored_bytes_total:
  assumes "can_meter st did n"
  shows "\<exists>st'. add_stored_bytes st did n = (st', Ok ())"
  using ensure_total_row_total [OF assms(1)] assms by (auto simp: add_stored_bytes_def can_meter_def)

lemma add_stored_bytes_meter:
  assumes "totals_inv st" "add_stored_bytes st did n = (st', Ok ())"
  shows "can_meter st' d k = can_meter st d k"
proof -
  have "load_receipts st' d = load_receipts st d"
    using add_stored_bytes_receipts [of st did n] assms(2) by (simp add: load_receipts_def)
  then show ?thesis by (simp add: can_meter_def ledger_bytes_def)
qed

lemma meter_answers:
  assumes "totals_inv (as_store s)" "length (load_receipts (as_store s) did) \<le> i64_max" "ledger_bytes (as_store s) did \<le> i64_max"
  obtains c u d r p w where "op_get_meter s did = Ok (Meter c u d r p w)"
proof -
  have "can_meter (as_store s) did 0"
    using assms(2,3) drain_le_download [of "load_receipts (as_store s) did"]
    by (simp add: can_meter_def totals_le_def ledger_bytes_totals ledger_totals_sums i64_max_def u64_max_def)
  note t = running_totals_Ok [OF assms(1) this]
  have "ledger_bytes (as_store s) did \<le> u64_max" using assms(3) by (simp add: i64_max_def u64_max_def)
  then have "total_bytes (ledger_totals (load_receipts (as_store s) did)) = (Ok (ledger_bytes (as_store s) did) :: (nat, ServerError) result)"
    by (auto simp: total_bytes_def ledger_bytes_totals split: option.splits)
  then show thesis by (intro that) (simp add: op_get_meter_def t)
qed

section \<open>Uploads\<close>

lemma put_object_succeeds:
  assumes inv: "totals_inv (as_store s)" and room: "can_meter (as_store s) did (length bs)"
    and gates: "write_gates (as_store s) did (length bs) = Ok ()"
    and quota: "blobs_has (as_blobs s) did (sha256_hex X bs) \<or> quota_gate (as_limits s) (as_store s) did (length bs) = Ok ()"
    and put: "blobs_put (as_blobs s) did (sha256_hex X bs) bs = (b, Ok (length bs))"
  obtains s' mode h where "op_put_object X s did key bs = (s', Ok (Stored (sha256_hex X bs) (length bs) mode h))"
    "as_blobs s' = b"
proof -
  let ?c = "sha256_hex X bs" and ?s = "s\<lparr>as_blobs := b\<rparr>"
  let ?new = "\<not> blobs_has (as_blobs s) did ?c"
  obtain r where r: "transfer_receipt X ?s Upload did ?c (length bs) = Ok r"
    using transfer_receipt_total [of ?s did "length bs" X Upload ?c] inv room by auto
  have rb: "rc_bytes (r_core r) = length bs" using transfer_receipt_Ok(3) [OF r] inv by simp
  obtain st1 where st1: "if ?new then add_stored_bytes (as_store s) did (length bs) = (st1, Ok ()) else st1 = as_store s"
    and m1: "can_meter st1 did (length bs)"
  proof (cases ?new)
    case True
    obtain st1 where a: "add_stored_bytes (as_store s) did (length bs) = (st1, Ok ())"
      using add_stored_bytes_total [OF room] by blast
    show thesis by (rule that [of st1]) (use True a room add_stored_bytes_meter [OF inv a] in simp_all)
  next
    case False
    show thesis by (rule that [of "as_store s"]) (use False room in simp_all)
  qed
  obtain st2 where st2: "append_receipt st1 did r = (st2, Ok ())"
    using append_receipt_total [OF m1 rb] by blast
  have "op_put_object X s did key bs =
      (?s\<lparr>as_store := st2\<rparr>, Ok (Stored ?c (length bs) (r_mode r) (r_content_hash r)))"
    using quota st1 st2 unfolding op_put_object_def Let_def gates
    by (cases ?new) (auto simp: put r on_store_def)
  then show thesis by (rule that) simp
qed

section \<open>Downloads\<close>

lemma get_object_succeeds:
  assumes inv: "totals_inv (as_store s)" and room: "can_meter (as_store s) did (length data)"
    and get: "blobs_get (as_blobs s) did (sha256_hex X data) = Ok data"
  obtains s' where "op_get_object X s did (sha256_hex X data) = (s', Ok (Bytes (sha256_hex X data) data))"
proof -
  let ?c = "sha256_hex X data"
  obtain r where r: "transfer_receipt X s Download did ?c (length data) = Ok r"
    using transfer_receipt_total [OF inv room] by blast
  have rb: "rc_bytes (r_core r) = length data" using transfer_receipt_Ok(3) [OF r inv] .
  obtain st where st: "append_receipt (as_store s) did r = (st, Ok ())"
    using append_receipt_total [OF room rb] by blast
  show thesis
    by (rule that [of "s\<lparr>as_store := st\<rparr>"]) (simp add: op_get_object_def get r st on_store_def Let_def)
qed

fun blobs_reliable :: "blobs \<Rightarrow> bool" where
  "blobs_reliable (MemoryBlobs m) = True"
| "blobs_reliable (FsBlobs f) = (healthy f = f)"

lemma reliable_put_get:
  assumes "blobs_reliable bl" "\<not> blobs_has bl d c" "length b \<le> MAX_OBJECT_BYTES"
  obtains bl' where "blobs_put bl d c b = (bl', Ok (length b))" "blobs_get bl' d c = Ok b"
proof (cases bl)
  case (MemoryBlobs m)
  obtain m' where p: "mem_put m d c b = (m', Ok (length b))" using memory.put_ok by blast
  show thesis
    by (rule that [of "MemoryBlobs m'"]) (use MemoryBlobs p memory.get_put [OF p] assms in simp_all)
next
  case (FsBlobs f)
  obtain f' where p: "fs_put f d c b = (f', Ok (length b))" and h: "healthy f' = f'"
    using disk.put_ok [of f d c b] healthy_put(1) [of f d c b] assms(1) FsBlobs by (auto simp: healthy_defs)
  have "fs_get f' d c = Ok b"
    using disk.get_put [of f d c b f' "length b"] assms FsBlobs p h by (simp add: healthy_defs)
  then show thesis by (intro that [of "FsBlobs f'"]) (use FsBlobs p in simp_all)
qed

text \<open>Room for the upload and for its download.\<close>

lemma put_then_get:
  assumes inv: "totals_inv (as_store s)" and gates: "write_gates (as_store s) did (length bs) = Ok ()"
    and new: "\<not> blobs_has (as_blobs s) did (sha256_hex X bs)"
    and quota: "quota_gate (as_limits s) (as_store s) did (length bs) = Ok ()"
    and rel: "blobs_reliable (as_blobs s)" and len: "length bs \<le> MAX_OBJECT_BYTES"
    and room: "rt_receipt_count (ledger_totals (load_receipts (as_store s) did)) < i64_max"
      "ledger_bytes (as_store s) did + 2 * length bs \<le> i64_max"
  shows "\<exists>s1 s2 mode h. op_put_object X s did key bs = (s1, Ok (Stored (sha256_hex X bs) (length bs) mode h)) \<and>
    op_get_object X s1 did (sha256_hex X bs) = (s2, Ok (Bytes (sha256_hex X bs) bs))"
proof -
  let ?c = "sha256_hex X bs"
  have i: "i64_max \<le> u64_max" by (simp add: i64_max_def u64_max_def)
  have le: "totals_le (ledger_totals (load_receipts st did)) i64_max"
    if "rt_receipt_count (ledger_totals (load_receipts st did)) \<le> i64_max" "ledger_bytes st did \<le> i64_max" for st
    using that drain_le_download [of "load_receipts st did"] by (simp add: totals_le_def ledger_bytes_totals)
  have m0: "can_meter (as_store s) did (length bs)"
    using room le [of "as_store s"] i by (simp add: can_meter_def)
  obtain b where b: "blobs_put (as_blobs s) did ?c bs = (b, Ok (length bs))" and g: "blobs_get b did ?c = Ok bs"
    by (rule reliable_put_get [OF rel new len])
  obtain s1 mode h where p: "op_put_object X s did key bs = (s1, Ok (Stored ?c (length bs) mode h))"
    and b1: "as_blobs s1 = b"
    by (rule put_object_succeeds [OF inv m0 gates disjI2 [OF quota] b])
  obtain r' where m: "metered X s s1 Upload did ?c (length bs) r'" by (rule put_object_metered [OF p inv])
  then have L: "load_receipts (as_store s1) did = load_receipts (as_store s) did @ [r']" "rc_bytes (r_core r') = length bs"
    by (simp_all add: metered_def)
  have "can_meter (as_store s1) did (length bs)"
    using room L i le [of "as_store s1"]
    by (simp add: can_meter_def ledger_bytes_def ledger_totals_snoc add_receipt_totals_def)
  moreover have "totals_inv (as_store s1)"
    using totals.put_object [where s = s and X = X and did = did and key = key and bs = bs] inv p by simp
  ultimately obtain s2 where "op_get_object X s1 did ?c = (s2, Ok (Bytes ?c bs))"
    using get_object_succeeds [of s1 did bs X] g b1 by auto
  then show ?thesis using p by blast
qed

section \<open>Attested writes\<close>

text \<open>The record the provider attests for an authenticated owner.\<close>

definition attested :: "ext \<Rightarrow> AppState \<Rightarrow> string \<Rightarrow> string \<Rightarrow> string option \<Rightarrow> Intent \<Rightarrow> string \<Rightarrow> string option \<Rightarrow> SignedAssertion" where
  "attested X s did kind sk intent f jti =
     attest_provider X kind did sk (in_seq intent) (in_body intent) f (case jti of None \<Rightarrow> [] | Some j \<Rightarrow> j)
       (pv_attest_keypair (as_provider s))"

lemma attested_write:
  assumes laws: "hex_law X" "sign_law X" "length (kp_signing_key (pv_attest_keypair (as_provider s))) = 32"
    and did: "did_parse did = Ok d" and kind: "kind \<noteq> []" "CHR '':'' \<notin> set kind" "kind \<noteq> PERIOD_DIAL_KIND"
    and sk: "subkey_well_formed sk"
    and intent: "from_slice N de_intent body = Some intent" and fold: "kind_fold kind sk (in_body intent) = Ok f"
    and checks: "body_checks X (as_limits s) kind sk (attested X s did kind sk intent f jti) = Ok f"
    and fresh: "assertion_seq (as_store s) did kind sk = None"
  shows "op_put_assertion X N s did kind sk body (Some \<lparr>aw_did = did, aw_jti = jti\<rparr>) =
     (let a = attested X s did kind sk intent f jti; ack = make_ack X a (pv_attest_keypair (as_provider s)) in
      if is_chain_kind kind then append_verified_chain_entry X s did kind sk a ack
      else sbind (on_store s (save_assertion (as_store s) a ack))
        (\<lambda>s _. (s, Ok (AssertionSaved (in_seq intent) (render (scalar_text X) (ack_json ack))))))"
proof -
  let ?a = "attested X s did kind sk intent f jti"
  have w: "write_record X N (as_provider s) did kind sk body (Some \<lparr>aw_did = did, aw_jti = jti\<rparr>) = Ok ?a"
    by (simp add: write_record_def intent fold attested_def split: option.splits)
  have v: "assertion_verify X ?a f None (attest_verifying_key X (as_provider s))"
    unfolding attested_def attest_verifying_key_def
    by (rule attest_provider_verifies [OF laws did kind(1,2) sk]) simp
  have q: "sa_seq ?a = in_seq intent" by (simp add: attested_def attest_provider_def)
  show ?thesis
    unfolding op_put_assertion_def w sbind_simps checks fresh Let_def
    by (simp add: v q kind(3))
qed

text \<open>The first write of a setting is stored, with the provider's acknowledgement.\<close>

lemma first_setting:
  assumes "assertion_seq st (sa_did a) (sa_kind a) (sa_subkey a) = None"
  obtains st' where "save_assertion st a k = (st', Ok ())"
proof -
  have "map_of (s_assertion st) (akey (sa_did a) (sa_kind a) (sa_subkey a)) = None"
    using assms by (auto simp: assertion_seq_def split: option.splits)
  then have "snd (save_assertion st a k) = Ok ()"
    by (simp add: save_assertion_def upsert_assertion_def Let_def split: prod.splits)
  then show thesis by (intro that [of "fst (save_assertion st a k)"]) (metis prod.collapse)
qed

text \<open>The first entry of a chain.\<close>

lemma first_chain_entry:
  assumes "latest_chain_entry (as_store s) did kind sk = None" "s_chain_entry (as_store s) = []"
    and "de_chain_step (sa_body a) = Some (Step b)" "verify_step None b (sa_seq a) = Ok ()"
  obtains s' out where "append_verified_chain_entry X s did kind sk a k = (s', Ok out)"
proof -
  have "snd (append_chain_entry (as_store s) a k b h) = Ok ()" for h
    using assms(2) by (simp add: append_chain_entry_def insert_chain_row_def Let_def)
  then obtain st' where ap: "append_chain_entry (as_store s) a k b (entry_hash X did kind sk (sa_seq a) b) = (st', Ok ())"
    by (metis prod.collapse)
  have "append_verified_chain_entry X s did kind sk a k =
      (s\<lparr>as_store := st'\<rparr>, Ok (AssertionSaved (sa_seq a) (render (scalar_text X) (ack_json k))))"
    using assms(1,3,4) ap by (simp add: append_verified_chain_entry_def on_store_def Let_def)
  then show thesis by (rule that)
qed

section \<open>The countersignature finds its receipt\<close>

lemma sql_like_rest: "sql_like ''%'' s"
  by (induction s) auto

lemma sql_like_literal: "CHR ''%'' \<notin> set h \<Longrightarrow> sql_like (h @ ''%'') (h @ b)"
  by (induction h) (auto simp: sql_like_rest)

lemma sql_like_skip: "sql_like p s \<Longrightarrow> sql_like (CHR ''%'' # p) (a @ s)"
proof (induction a)
  case Nil
  then show ?case by (cases s) auto
qed auto

lemma sql_like_contains: "CHR ''%'' \<notin> set h \<Longrightarrow> sql_like (''%'' @ h @ ''%'') (a @ h @ b)"
  using sql_like_skip [OF sql_like_literal] by simp

lemma receipt_text_hash: "\<exists>a b. render enc (receipt_json r) = a @ enc (JStr (r_content_hash r)) @ b"
proof -
  have "render enc (receipt_json r) =
      (''{'' @ enc (JStr ''core'') @ '':'' @ render enc (core_json (r_core r)) @ '','' @ enc (JStr ''content_hash'') @ '':'') @
      enc (JStr (r_content_hash r)) @
      ('','' @ enc (JStr ''mode'') @ '':'' @ enc (JStr (case r_mode r of Unilateral \<Rightarrow> ''unilateral'' | Bilateral \<Rightarrow> ''bilateral'')) @
       '','' @ enc (JStr ''sigs'') @ '':'' @ render enc (JObj (map (\<lambda>(i, s). (i, JStr s)) (r_sigs r))) @ ''}'')"
    by (simp add: receipt_json_def)
  then show ?thesis by blast
qed

lemma find_last_idx_snoc: "P x \<Longrightarrow> find_last_idx P (xs @ [x]) = Some (length xs)"
  by (induction xs) auto

lemma countersign_newest:
  assumes "s_receipt st = rs @ [(did, r)]" "r_content_hash r = h" "CHR ''%'' \<notin> set h"
    and txt_hash: "\<exists>a b. scalar_text X (JStr h) = a @ h @ b"
  obtains st' where "countersign_receipt X st did h signer sg = (st', Some (r\<lparr>r_sigs := bt_insert signer sg (r_sigs r)\<rparr>))"
proof -
  obtain a b a' b' where "render (scalar_text X) (receipt_json r) = a @ (a' @ h @ b') @ b"
    using receipt_text_hash [of "scalar_text X" r] txt_hash assms(2) by metis
  then have "render (scalar_text X) (receipt_json r) = (a @ a') @ h @ (b' @ b)" by simp
  then have like: "sql_like (''%'' @ h @ ''%'') (render (scalar_text X) (receipt_json r))"
    using sql_like_contains [OF assms(3)] by metis
  have "find_last_idx (\<lambda>(d, r). d = did \<and> sql_like (''%'' @ h @ ''%'') (render (scalar_text X) (receipt_json r)))
      (s_receipt st) = Some (length rs)"
    unfolding assms(1) by (rule find_last_idx_snoc) (use like in simp)
  then show thesis
    using that assms(1,2) by (simp add: countersign_receipt_def Let_def nth_append)
qed

end
