(* ===== verification/Demo.thy ===== *)
theory Demo
  imports Wire
begin

text \<open>
  One concrete instance of the external interfaces, on which the hypotheses about them hold
  together: two-digit hexadecimal, a 32-byte digest made of the length and the last bytes, a
  signature that is the key followed by the message, a JSON scalar writer with backslash escapes.
  It models no cryptography; it shows that the laws the properties assume are satisfiable, and the
  witnesses of the properties evaluate on it.
\<close>

definition hex_digit :: "nat \<Rightarrow> char" where
  "hex_digit n = (if n < 10 then char_of (48 + n) else char_of (87 + n))"

definition hex_value :: "char \<Rightarrow> nat option" where
  "hex_value c =
     (let n = of_char c :: nat in
      if 48 \<le> n \<and> n \<le> 57 then Some (n - 48)
      else if 97 \<le> n \<and> n \<le> 102 then Some (n - 87)
      else if 65 \<le> n \<and> n \<le> 70 then Some (n - 55) else None)"

fun demo_encode :: "bytes \<Rightarrow> string" where
  "demo_encode [] = []"
| "demo_encode (b # bs) = (let n = of_char b :: nat in hex_digit (n div 16) # hex_digit (n mod 16) # demo_encode bs)"

fun demo_decode :: "string \<Rightarrow> bytes option" where
  "demo_decode [] = Some []"
| "demo_decode (a # b # s) =
     (case (hex_value a, hex_value b, demo_decode s) of
        (Some x, Some y, Some bs) \<Rightarrow> Some (char_of (16 * x + y) # bs) | _ \<Rightarrow> None)"
| "demo_decode [a] = None"

definition demo_digest :: "bytes \<Rightarrow> bytes" where
  "demo_digest m = char_of (length m mod 256) # rev (take 31 (rev m @ replicate 31 (CHR 0x00)))"

fun escape :: "string \<Rightarrow> string" where
  "escape [] = []"
| "escape (c # s) = (if c = CHR 0x22 \<or> c = CHR 0x5C then CHR 0x5C # c # escape s else c # escape s)"

fun demo_scalar :: "json \<Rightarrow> string" where
  "demo_scalar JNull = ''null''"
| "demo_scalar (JBool b) = show_bool b"
| "demo_scalar (JInt i) = show_int i"
| "demo_scalar (JFloat s) = s"
| "demo_scalar (JStr s) = CHR 0x22 # escape s @ [CHR 0x22]"
| "demo_scalar v = []"

definition demo :: ext where
  "demo = \<lparr>sha256 = demo_digest, hex_encode = demo_encode, hex_decode = demo_decode,
     vk_from_bytes = Some, vk_is_weak = (\<lambda>_. False), ed_public = (\<lambda>s. s), ed_sign = (\<lambda>s m. s @ m),
     sig_from_slice = Some, verify_strict = (\<lambda>vk m sg. sg = vk @ m), scalar_text = demo_scalar\<rparr>"

section \<open>The laws hold\<close>

lemma hex_value_digit: "n < 16 \<Longrightarrow> hex_value (hex_digit n) = Some n"
  by (auto simp: hex_value_def hex_digit_def of_char_of)

lemma hex_digit_lower: "n < 16 \<Longrightarrow> lower_hex_char (hex_digit n)"
  by (auto simp: lower_hex_char_def hex_digit_def is_digit_def of_char_of)

lemma of_char_div16: "(of_char b :: nat) div 16 < 16"
proof -
  have "(of_char b :: nat) mod 256 < 256" by (rule mod_less_divisor) simp
  then have "(of_char b :: nat) < 256" by simp
  then show ?thesis by (simp add: div_less_dividend less_mult_imp_div_less)
qed

lemma demo_decode_encode: "demo_decode (demo_encode b) = Some b"
proof (induction b)
  case (Cons c b)
  have "16 * ((of_char c :: nat) div 16) + of_char c mod 16 = of_char c" by simp
  then show ?case using Cons of_char_div16 [of c] by (simp add: Let_def hex_value_digit)
qed simp

lemma length_demo_encode: "length (demo_encode b) = 2 * length b"
  by (induction b) (auto simp: Let_def)

lemma demo_encode_lower: "list_all lower_hex_char (demo_encode b)"
  by (induction b) (auto simp: Let_def hex_digit_lower of_char_div16)

lemma demo_hex_law: "hex_law demo"
  by (simp add: hex_law_def demo_def demo_decode_encode length_demo_encode demo_encode_lower)

lemma demo_digest_law: "digest_law demo"
  by (auto simp: digest_law_def demo_def demo_digest_def min_def)

lemma demo_key_law: "key_law demo"
  by (simp add: key_law_def demo_def)

lemma demo_sign_law: "sign_law demo"
  by (simp add: sign_law_def demo_def)

lemma escape_inject:
  "escape s @ CHR 0x22 # x = escape t @ CHR 0x22 # y \<Longrightarrow> s = t \<and> x = y"
proof (induction s arbitrary: t)
  case Nil
  then show ?case by (cases t) (auto split: if_splits)
next
  case (Cons c s)
  then show ?case by (cases t) (auto split: if_splits)
qed

definition number_char :: "char \<Rightarrow> bool" where
  "number_char c \<longleftrightarrow> is_digit c \<or> c = CHR ''-''"

lemma show_int_number: "list_all number_char (show_int i)"
proof -
  have "list_all number_char (show_nat n)" for n
    by (auto simp: list_all_iff number_char_def show_nat_digits)
  then show ?thesis by (auto simp: show_int_def number_char_def)
qed

lemma show_int_start: "show_int i \<noteq> [] \<and> number_char (hd (show_int i))"
proof -
  have "show_int i \<noteq> []" by (simp add: show_int_def)
  then show ?thesis using show_int_number [of i] by (cases "show_int i") auto
qed

lemma follow_not_number: "follow x \<Longrightarrow> takeWhile number_char x = []"
  by (cases x) (auto simp: follow_def delim_char_def number_char_def is_digit_def)

lemma show_int_follow:
  assumes "show_int i @ x = show_int j @ y" "follow x" "follow y"
  shows "i = j \<and> x = y"
proof -
  have tw: "takeWhile number_char (show_int k @ z) = show_int k" if "follow z" for k z
    using show_int_number [of k] follow_not_number [OF that]
    by (simp add: takeWhile_append list_all_iff)
  have "show_int i = show_int j" using tw [OF assms(2), of i] tw [OF assms(3), of j] assms(1) by simp
  then show ?thesis using assms(1) by (simp add: show_int_inject)
qed

lemma float_start: "float_text s \<Longrightarrow> s \<noteq> [] \<and> number_char (hd s)"
  by (auto simp: float_text_def number_char_def)

lemma float_chars: "follow x \<Longrightarrow> list_all float_char s \<Longrightarrow> takeWhile float_char (s @ x) = s"
  by (cases x) (auto simp: takeWhile_append list_all_iff follow_def delim_char_def float_char_def is_digit_def)

lemma number_chars: "list_all float_char (show_int i)"
  using show_int_number [of i] by (auto simp: list_all_iff number_char_def float_char_def)

lemma float_follow:
  assumes "s @ x = t @ y" "list_all float_char s" "list_all float_char t" "follow x" "follow y"
  shows "s = t \<and> x = y"
  using float_chars [OF assms(4,2)] float_chars [OF assms(5,3)] assms(1) by simp

lemma float_not_int: "float_text s \<Longrightarrow> s @ x = show_int i @ y \<Longrightarrow> follow x \<Longrightarrow> follow y \<Longrightarrow> False"
  using float_follow [of s x "show_int i" y] number_chars [of i] show_int_number [of i]
  by (auto simp: float_text_def list_all_iff number_char_def is_digit_def)

lemma demo_scalar_hd:
  "is_scalar s \<Longrightarrow> demo_scalar s \<noteq> [] \<and>
     hd (demo_scalar s) = (case s of JNull \<Rightarrow> CHR ''n'' | JBool b \<Rightarrow> if b then CHR ''t'' else CHR ''f''
       | JStr t \<Rightarrow> CHR 0x22 | JInt i \<Rightarrow> hd (show_int i) | JFloat t \<Rightarrow> hd t)"
  using show_int_start float_start by (cases s) (auto simp: show_bool_def)

fun number :: "json \<Rightarrow> bool" where
  "number (JInt i) = True"
| "number (JFloat s) = True"
| "number _ = False"

lemma number_not:
  "\<not> number_char (CHR ''n'')" "\<not> number_char (CHR ''t'')" "\<not> number_char (CHR ''f'')" "\<not> number_char (CHR 0x22)"
  "\<not> number_char (CHR ''{'')" "\<not> number_char (CHR ''['')" "delim_char c \<Longrightarrow> \<not> number_char c"
  by (auto simp: number_char_def is_digit_def delim_char_def)

lemma demo_scalar_start: "is_scalar s \<Longrightarrow> scalar_start (demo_scalar s)"
proof (cases s)
  case (JInt i)
  then show ?thesis using show_int_start [of i] number_not by (auto simp: scalar_start_def)
next
  case (JFloat t)
  then show "is_scalar s \<Longrightarrow> ?thesis" using float_start [of t] number_not by (auto simp: scalar_start_def)
qed (auto simp: scalar_start_def show_bool_def delim_char_def)

lemma demo_scalar_same_kind:
  assumes "is_scalar s" "is_scalar t" "hd (demo_scalar s) = hd (demo_scalar t)"
  shows "s = t \<or> (number s \<and> number t) \<or> (\<exists>u v. s = JStr u \<and> t = JStr v)"
proof -
  have n: "number_char (hd (demo_scalar z)) = number z" if "is_scalar z" for z
    using that show_int_start float_start number_not by (cases z) (auto simp: show_bool_def)
  show ?thesis
    using assms(3) n [OF assms(1)] n [OF assms(2)] assms(1,2)
    by (cases s; cases t) (auto simp: show_bool_def split: if_splits)
qed

lemma demo_number_follow:
  assumes "number s" "number t" "is_scalar s" "is_scalar t" "demo_scalar s @ x = demo_scalar t @ y" "follow x" "follow y"
  shows "s = t \<and> x = y"
proof -
  have c: "list_all float_char (demo_scalar z)" if "number z" "is_scalar z" for z
    using that number_chars by (cases z) (auto simp: float_text_def)
  have e: "demo_scalar s = demo_scalar t \<and> x = y"
    using float_follow [OF assms(5) c [OF assms(1,3)] c [OF assms(2,4)] assms(6,7)] .
  have f: "\<not> float_text (show_int i)" for i
    using float_not_int [of "show_int i" "[]" i "[]"] by auto
  show ?thesis
    using e assms(1-4) f show_int_inject by (cases s; cases t) auto
qed

lemma demo_text_law: "text_law demo"
proof -
  have "s = t \<and> x = y"
    if st: "is_scalar s" "is_scalar t" and f: "follow x" "follow y"
      and e: "demo_scalar s @ x = demo_scalar t @ y" for s t x y
  proof -
    have "hd (demo_scalar s) = hd (demo_scalar t)"
      using e demo_scalar_hd [OF st(1)] demo_scalar_hd [OF st(2)] by (metis hd_append2)
    from demo_scalar_same_kind [OF st this] show ?thesis
      using e f st by (auto dest: escape_inject demo_number_follow)
  qed
  then show ?thesis using demo_scalar_start by (auto simp: scalar_codec_def demo_def)
qed

lemmas demo_laws = demo_hex_law demo_digest_law demo_key_law demo_sign_law demo_text_law

end
