(* ===== verification/Demo_State.thy ===== *)
theory Demo_State
  imports Runs Progress Demo
begin

text \<open>
  A fresh server on the concrete externals of \<open>Demo\<close>: an empty database, an empty in-memory
  backend, a small storage ceiling. The witnesses of the server's properties run on it.
\<close>

definition demo_limits :: Limits where
  "demo_limits = \<lparr>store_ceiling = 100, did_cap = Some 50\<rparr>"

definition demo_state :: AppState where
  "demo_state = with_limits demo ''seed'' (MemoryBlobs (\<lambda>_. None)) open_in_memory demo_limits ''did:web:ciss.example''"

definition alice :: Keypair where
  "alice = derive_keypair demo ''alice'' ''device''"

definition alice_did :: string where
  "alice_did = derive_id demo (keypair_verifying_key demo alice)"

definition demo_manifest :: Manifest where
  "demo_manifest = \<lparr>m_leaves = [], m_root = [], m_total_bytes = 0, m_signer_id = [], m_seq = 7, m_signature = [], m_heads = None\<rparr>"

definition bob_did :: string where
  "bob_did = ''did:plc:bob''"

lemma alice_not_bob: "alice_did \<noteq> bob_did"
  unfolding alice_did_def derive_id_eq [OF demo_hex_law demo_digest_law] by (simp add: bob_did_def)

lemma demo_tables [simp]:
  "s_receipt (as_store demo_state) = []" "s_did_total (as_store demo_state) = []" "s_assertion (as_store demo_state) = []"
  "s_manifest (as_store demo_state) = []" "s_chain_entry (as_store demo_state) = []"
  "as_blobs demo_state = MemoryBlobs (\<lambda>_. None)" "as_limits demo_state = demo_limits" "as_compute demo_state = compute_new"
  "as_provider demo_state = provider_from_seed demo ''seed''"
  by (simp_all add: demo_state_def with_limits_def assemble_def persist_limits_def put_meta_def open_in_memory_def
      split: option.splits)

lemma demo_load [simp]:
  "load_receipts (as_store demo_state) d = []" "load_manifest (as_store demo_state) d = None"
  "load_assertion (as_store demo_state) d k sk = Ok None" "assertion_seq (as_store demo_state) d k sk = None"
  by (simp_all add: load_receipts_def load_manifest_def load_assertion_def assertion_seq_def)

lemma demo_totals_inv: "totals_inv (as_store demo_state)"
  by (simp add: totals_inv_iff)

lemma demo_dials [simp]:
  "account_mode (as_store demo_state) d = Active" "spend_dial (as_store demo_state) d = None"
  "at_rest_dial (as_store demo_state) d = None" "receipt_mode_dial (as_store demo_state) d = UnilateralChoice"
  by (simp_all add: account_mode_def spend_dial_def at_rest_dial_def receipt_mode_dial_def ceiling_dial_def
      assertion_json_row_def)

lemma demo_gates: "write_gates (as_store demo_state) d n = Ok ()"
  by (simp add: write_gates_def)

lemma demo_quota: "n \<le> 50 \<Longrightarrow> quota_gate demo_limits (as_store demo_state) d n = Ok ()"
  by (simp add: quota_gate_def ceiling_gate_def cap_gate_def store_usage_def did_stored_bytes_def sql_int_def demo_limits_def effective_cap_def
      saturating_add_def u64_max_def)

text \<open>An upload of five bytes and its download succeed.\<close>

lemma demo_put_get:
  "\<exists>s1 s2 mode h. op_put_object demo demo_state d key ''hello'' = (s1, Ok (Stored (sha256_hex demo ''hello'') 5 mode h)) \<and>
     op_get_object demo s1 d (sha256_hex demo ''hello'') = (s2, Ok (Bytes (sha256_hex demo ''hello'') ''hello''))"
proof -
  have "ledger_bytes (as_store demo_state) d = 0" "rt_receipt_count (ledger_totals []) = 0"
    by (simp_all add: ledger_bytes_def ledger_totals_def zero_totals_def)
  moreover have "length ''hello'' = 5" by simp
  ultimately show ?thesis
    using put_then_get [of demo_state d "''hello''" demo key, unfolded \<open>length ''hello'' = 5\<close>] demo_totals_inv demo_gates demo_quota [of 5 d]
    by (simp add: mem_has_def MAX_OBJECT_BYTES_def i64_max_def)
qed

lemma demo_put:
  obtains s1 mode h where
    "op_put_object demo demo_state d key ''hello'' = (s1, Ok (Stored (sha256_hex demo ''hello'') 5 mode h))"
  using demo_put_get by blast

section \<open>A request\<close>

definition demo_net :: "(bytes \<Rightarrow> json option) \<Rightarrow> net" where
  "demo_net parse = \<lparr>json_parse = parse, b64url_decode = Some, multibase_decode = Some, k256_from_sec1 = Some,
     k256_sig = Some, k256_high_s = (\<lambda>_. False), k256_verify = (\<lambda>vk m sg. sg = vk), p256_from_sec1 = Some,
     p256_sig = Some, p256_high_s = (\<lambda>_. False), p256_verify = (\<lambda>vk m sg. sg = vk),
     cid_parse = (\<lambda>s. case s of CHR ''b'' # d \<Rightarrow> Some (cid_from_digest d) | _ \<Rightarrow> None),
     cid_show = (\<lambda>c. CHR ''b'' # cid_digest c)\<rparr>"

definition demo_headers :: HeaderMap where
  "demo_headers = [PUBKEY_HEADER \<mapsto> public_key_hex demo alice,
     SESSION_HEADER \<mapsto> sign_message demo alice (SESSION_CHALLENGE_PREFIX @ alice_did)]"

definition demo_request :: Request where
  "demo_request = \<lparr>rq_headers = demo_headers, rq_body = ''hello'', rq_chain = None, rq_now = 50, rq_micros = 7,
     rq_resolve = (\<lambda>_ _. None)\<rparr>"

lemma alice_key: "length (kp_signing_key alice) = 32"
  unfolding alice_def by (rule derive_keypair_seed_length [OF demo_digest_law])

lemma demo_authenticated: "authenticate demo demo_headers = Authenticated alice_did"
proof -
  have "PUBKEY_HEADER \<noteq> SESSION_HEADER" by (simp add: PUBKEY_HEADER_def SESSION_HEADER_def)
  then show ?thesis
    unfolding authenticate_iff
    using public_key_from_hex_keypair [OF demo_hex_law demo_key_law alice_key]
      verify_message_sign [OF demo_hex_law demo_sign_law alice_key]
    by (auto simp: demo_headers_def alice_did_def)
qed

lemma demo_uploaded_receipt:
  obtains s1 out r where
    "dispatch demo N 7 demo_state (Authenticated alice_did) (PutObject alice_did key ''hello'') = (s1, Ok out)"
    "load_receipts (as_store s1) alice_did = [r]" "rc_cid (r_core r) = sha256_hex demo ''hello''"
    "rc_direction (r_core r) = Upload" "rc_bytes (r_core r) = 5"
proof -
  obtain s1 mode h where p: "op_put_object demo demo_state alice_did key ''hello'' = (s1, Ok (Stored (sha256_hex demo ''hello'') 5 mode h))"
    by (rule demo_put)
  obtain r where m: "metered demo demo_state s1 Upload alice_did (sha256_hex demo ''hello'') (length ''hello'') r"
    by (rule put_object_metered [OF p demo_totals_inv])
  have "as_compute s1 = compute_new" using put_object_rest [of demo demo_state alice_did key "''hello''"] p by (simp add: rest_def)
  then obtain l where l: "compute_record (as_compute s1) alice_did ''object-write'' 7 = Ok l"
    using compute_record_total [OF compute_inv_new, of alice_did "''object-write''" 7] by (auto simp: compute_new_def u64_max_def)
  have "dispatch demo N 7 demo_state (Authenticated alice_did) (PutObject alice_did key ''hello'') =
      (s1\<lparr>as_compute := l\<rparr>, Ok (Stored (sha256_hex demo ''hello'') 5 mode h))"
    using p l by (simp add: dispatch_def require_owner_def)
  then show thesis by (rule that [where r = r]) (use m in \<open>simp_all add: metered_def\<close>)
qed

lemma demo_uploaded:
  obtains s1 out where
    "dispatch demo N 7 demo_state (Authenticated alice_did) (PutObject alice_did key ''hello'') = (s1, Ok out)"
    "ledger_bytes (as_store s1) alice_did = 5" "length (load_receipts (as_store s1) alice_did) = 1"
  by (rule demo_uploaded_receipt [of N key]) (auto simp: ledger_bytes_def)

lemma demo_served:
  obtains s1 resp where "serve demo N display demo_state demo_request (RtPutObject alice_did key) = (s1, Some resp)"
    "rs_status resp = 200" "ledger_bytes (as_store s1) alice_did = 5" "length (load_receipts (as_store s1) alice_did) = 1"
proof -
  obtain s1 out where d: "dispatch demo N 7 demo_state (Authenticated alice_did) (PutObject alice_did key ''hello'') = (s1, Ok out)"
    and b: "ledger_bytes (as_store s1) alice_did = 5" "length (load_receipts (as_store s1) alice_did) = 1"
    by (rule demo_uploaded)
  have "did_parse alice_did = Ok (Did alice_did)"
    unfolding alice_did_def by (rule did_parse_derive_id(1) [OF demo_hex_law demo_digest_law])
  then have "serve demo N display demo_state demo_request (RtPutObject alice_did key) = (s1, Some (outcome_response demo N out))"
    using d demo_authenticated
    by (simp add: serve_def handler_response_def put_object_handler_def with_did_def demo_request_def
        dispatch_blocking_def respond_def map_ok_def)
  moreover have "rs_status (outcome_response demo N out) = 200"
    by (cases out) (simp_all add: json_response_def text_json_response_def Let_def)
  ultimately show thesis using that b by blast
qed

lemma demo_reachable:
  obtains s1 where "reachable demo N demo_state s1" "ledger_bytes (as_store s1) alice_did = 5"
    "length (load_receipts (as_store s1) alice_did) = 1"
  by (rule demo_served) (blast intro: reachable.start reachable.next_step step.served)

section \<open>A tenant whose policy cannot be read\<close>

definition locked_state :: AppState where
  "locked_state = demo_state\<lparr>as_store := (as_store demo_state)\<lparr>s_assertion :=
     [(akey alice_did POLICY_KIND None, \<lparr>ar_seq = 1, ar_json = None, ar_ack = None\<rparr>)]\<rparr>\<rparr>"

lemma locked_policy: "resolve_policy (as_store locked_state) alice_did (Some cid) = deny_policy" if "cid \<noteq> []"
  using that
  by (simp add: locked_state_def resolve_policy_def resolve_object_policy_def assertion_json_row_def akey_def
      resolved_from_json_def)

section \<open>Attested writes\<close>

definition drawdown_body :: json where
  "drawdown_body = JObj [(''mode'', JStr ''drawdown'')]"

definition genesis_body :: json where
  "genesis_body = JObj [(''delta'', JInt 3), (''prev_entry_hash'', JStr GENESIS_PREV_HASH), (''total'', JInt 3)]"

definition intent_net :: "json \<Rightarrow> net" where
  "intent_net b = demo_net (\<lambda>s. if s = ''intent'' then Some (JObj [(''seq'', JInt 1), (''body'', b)]) else None)"

lemma to_value_bodies [simp]: "to_value drawdown_body = drawdown_body" "to_value genesis_body = genesis_body"
  by (simp_all add: drawdown_body_def genesis_body_def)

lemma intent_slice:
  "from_slice (intent_net drawdown_body) de_intent ''intent'' = Some \<lparr>in_seq = 1, in_body = drawdown_body\<rparr>"
  "from_slice (intent_net genesis_body) de_intent ''intent'' = Some \<lparr>in_seq = 1, in_body = genesis_body\<rparr>"
  by (simp_all add: from_slice_def intent_net_def demo_net_def de_intent_def text_fields_def req_def de_u64_def u64_max_def)

lemma demo_attest_key: "length (kp_signing_key (pv_attest_keypair (as_provider demo_state))) = 32"
  by (simp add: provider_from_seed_def Let_def derive_keypair_seed_length [OF demo_digest_law])

lemma demo_provider_key: "length (kp_signing_key (pv_keypair (as_provider demo_state))) = 32"
  by (simp add: provider_from_seed_def Let_def derive_keypair_seed_length [OF demo_digest_law])

lemma alice_parses: "did_parse alice_did = Ok (Did alice_did)"
  unfolding alice_did_def by (rule did_parse_derive_id(1) [OF demo_hex_law demo_digest_law])

lemma attested_body [simp]: "sa_body (attested X s did kind sk i f jti) = in_body i" "sa_seq (attested X s did kind sk i f jti) = in_seq i"
  by (simp_all add: attested_def attest_provider_def)

lemma demo_scalar_text [simp]: "scalar_text demo = demo_scalar"
  by (simp add: demo_def)

lemma drawdown_size: "length (render demo_scalar drawdown_body) = 19"
  by (simp add: drawdown_body_def)

lemma mode_kind_text:
  "ACCOUNT_MODE_DIAL_KIND \<noteq> []" "CHR '':'' \<notin> set ACCOUNT_MODE_DIAL_KIND" "ACCOUNT_MODE_DIAL_KIND \<noteq> PERIOD_DIAL_KIND"
  by (simp_all add: ACCOUNT_MODE_DIAL_KIND_def PERIOD_DIAL_KIND_def)

lemma demo_setting:
  obtains s1 out where "op_put_assertion demo (intent_net drawdown_body) demo_state alice_did ACCOUNT_MODE_DIAL_KIND None
     ''intent'' (Some \<lparr>aw_did = alice_did, aw_jti = None\<rparr>) = (s1, Ok out)"
proof -
  let ?i = "\<lparr>in_seq = 1, in_body = drawdown_body\<rparr>"
  have fold: "kind_fold ACCOUNT_MODE_DIAL_KIND None drawdown_body = Ok ''mode=drawdown''"
    by (simp add: kind_fold_def drawdown_body_def de_account_mode_body_def struct_fields_def req_def de_account_mode_def
        de_unit_enum_def account_mode_body_fold_def)
  have fold': "kind_fold ACCOUNT_MODE_DIAL_KIND None (in_body ?i) = Ok ''mode=drawdown''" using fold by simp
  have checks: "body_checks demo (as_limits demo_state) ACCOUNT_MODE_DIAL_KIND None
      (attested demo demo_state alice_did ACCOUNT_MODE_DIAL_KIND None ?i ''mode=drawdown'' None) = Ok ''mode=drawdown''"
    by (simp add: body_checks_def fold drawdown_size dial_spec_def SMALL_BODY_CEILING_BYTES_def)
  obtain s1 where "save_assertion (as_store demo_state)
      (attested demo demo_state alice_did ACCOUNT_MODE_DIAL_KIND None ?i ''mode=drawdown'' None)
      (make_ack demo (attested demo demo_state alice_did ACCOUNT_MODE_DIAL_KIND None ?i ''mode=drawdown'' None)
        (pv_attest_keypair (as_provider demo_state))) = (s1, Ok ())"
    by (rule first_setting [OF demo_load(4)])
  moreover note attested_write [OF demo_hex_law demo_sign_law demo_attest_key alice_parses mode_kind_text _ intent_slice(1) fold' checks demo_load(4)]
  ultimately show thesis
    using that by (simp add: on_store_def is_chain_kind_def dial_spec_def subkey_well_formed_def Let_def)
qed

lemma genesis_step:
  "de_chain_step genesis_body = Some (Step \<lparr>cc_delta = 3, cc_total = 3, cc_prev_entry_hash = GENESIS_PREV_HASH\<rparr>)"
  by (simp add: genesis_body_def de_chain_step_def de_checkpoint_def de_counter_def struct_fields_def req_def de_i64_def
      de_u64_def de_str_def u64_max_def)

lemma genesis_size: "length (render demo_scalar genesis_body) \<le> SMALL_BODY_CEILING_BYTES"
proof -
  have "escape (replicate n (CHR ''0'')) = replicate n (CHR ''0'')" for n by (induction n) auto
  moreover have "length (show_nat 3) = 1" by (subst show_nat.simps) simp
  ultimately show ?thesis
    by (simp add: genesis_body_def GENESIS_PREV_HASH_def SMALL_BODY_CEILING_BYTES_def show_int_def)
qed

abbreviation genesis_put :: "AppState \<times> (OpOutcome, ServerError) result" where
  "genesis_put \<equiv> op_put_assertion demo (intent_net genesis_body) demo_state alice_did CHAIN_COUNTER_KIND (Some ''hits'')
     ''intent'' (Some \<lparr>aw_did = alice_did, aw_jti = None\<rparr>)"

lemma chain_kind_text:
  "CHAIN_COUNTER_KIND \<noteq> []" "CHR '':'' \<notin> set CHAIN_COUNTER_KIND" "CHAIN_COUNTER_KIND \<noteq> PERIOD_DIAL_KIND"
  by (simp_all add: CHAIN_COUNTER_KIND_def PERIOD_DIAL_KIND_def)

lemma demo_chain:
  obtains s1 out where "genesis_put = (s1, Ok out)"
proof -
  let ?i = "\<lparr>in_seq = 1, in_body = genesis_body\<rparr>" and ?b = "\<lparr>cc_delta = 3, cc_total = 3, cc_prev_entry_hash = GENESIS_PREV_HASH\<rparr>"
  let ?f = "step_fold (Step ?b)"
  let ?a = "attested demo demo_state alice_did CHAIN_COUNTER_KIND (Some ''hits'') ?i ?f None"
  have sk: "subkey_valid (Some ''hits'')" "subkey_well_formed (Some ''hits'')"
    by (simp_all add: subkey_valid_def subkey_well_formed_def is_ascii_alphanumeric_def is_ascii_lowercase_def MAX_SUBKEY_LEN_def)
  have fold: "kind_fold CHAIN_COUNTER_KIND (Some ''hits'') genesis_body = Ok ?f"
    by (simp add: kind_fold_chain_eq sk genesis_step)
  have fold': "kind_fold CHAIN_COUNTER_KIND (Some ''hits'') (in_body ?i) = Ok ?f" using fold by simp
  have checks: "body_checks demo (as_limits demo_state) CHAIN_COUNTER_KIND (Some ''hits'') ?a = Ok ?f"
    using genesis_size by (simp add: body_checks_def fold CHAIN_COUNTER_SPEC_def)
  have late: "latest_chain_entry (as_store demo_state) alice_did CHAIN_COUNTER_KIND (Some ''hits'') = None"
    by (simp add: latest_chain_entry_def chain_rows_def Let_def)
  have v: "verify_step None ?b (sa_seq ?a) = Ok ()" by (simp add: verify_step_Ok)
  obtain s1 out where "append_verified_chain_entry demo demo_state alice_did CHAIN_COUNTER_KIND (Some ''hits'') ?a
      (make_ack demo ?a (pv_attest_keypair (as_provider demo_state))) = (s1, Ok out)"
    by (rule first_chain_entry [OF late _ _ v]) (simp_all add: genesis_step)
  moreover note attested_write [OF demo_hex_law demo_sign_law demo_attest_key alice_parses chain_kind_text sk(2) intent_slice(2) fold' checks demo_load(4)]
  ultimately show thesis
    using that by (simp add: is_chain_kind_def CHAIN_COUNTER_SPEC_def Let_def)
qed

section \<open>A bilateral receipt and its countersignature\<close>

text \<open>A receipt-mode dial that does not decode asks for bilateral receipts.\<close>

definition bilateral_state :: AppState where
  "bilateral_state = demo_state\<lparr>as_store := (as_store demo_state)\<lparr>s_assertion :=
     [(akey alice_did RECEIPT_MODE_DIAL_KIND None, \<lparr>ar_seq = 1, ar_json = None, ar_ack = None\<rparr>)]\<rparr>\<rparr>"

definition cosign_net :: "string \<Rightarrow> net" where
  "cosign_net h = demo_net (\<lambda>s. if s = ''countersign''
     then Some (JObj [(''signer'', JStr (public_key_hex demo alice)), (''sig'', JStr (sign_message demo alice h))]) else None)"

lemma cosign_slice:
  "from_slice (cosign_net h) de_countersign ''countersign'' =
     Some \<lparr>cs_signer = public_key_hex demo alice, cs_sig = sign_message demo alice h\<rparr>"
  by (simp add: from_slice_def cosign_net_def demo_net_def de_countersign_def text_fields_def req_def de_str_def)

lemma bilateral_facts [simp]:
  "s_receipt (as_store bilateral_state) = []" "s_did_total (as_store bilateral_state) = []"
  "as_blobs bilateral_state = MemoryBlobs (\<lambda>_. None)" "as_limits bilateral_state = demo_limits"
  "as_provider bilateral_state = as_provider demo_state" "load_receipts (as_store bilateral_state) d = []"
  by (simp_all add: bilateral_state_def load_receipts_def)

lemma bilateral_dials [simp]:
  "account_mode (as_store bilateral_state) d = Active" "spend_dial (as_store bilateral_state) d = None"
  "at_rest_dial (as_store bilateral_state) d = None" "receipt_mode_dial (as_store bilateral_state) alice_did = BilateralChoice"
  by (simp_all add: bilateral_state_def account_mode_def spend_dial_def at_rest_dial_def receipt_mode_dial_def ceiling_dial_def
      assertion_json_row_def akey_def)

lemma escape_hex: "list_all lower_hex_char s \<Longrightarrow> escape s = s"
  by (induction s) (auto simp: lower_hex_char_def is_digit_def)

lemma only_receipt:
  assumes "\<And>d. load_receipts st d = (if d = did then [r] else [])"
  shows "s_receipt st = [(did, r)]"
proof -
  have own: "fst p = did" if "p \<in> set (s_receipt st)" for p
  proof (rule ccontr)
    assume "fst p \<noteq> did"
    then have "load_receipts st (fst p) = []" using assms by simp
    then show False using that by (cases p) (auto simp: load_receipts_def filter_empty_conv)
  qed
  then have "filter (\<lambda>(d, _). d = did) (s_receipt st) = s_receipt st" by (intro filter_True) auto
  then have "map snd (s_receipt st) = [r]" using assms [of did] by (simp add: load_receipts_def)
  then obtain d where "s_receipt st = [(d, r)]" by (cases "s_receipt st") auto
  then show ?thesis using own by simp
qed

lemma bilateral_put:
  obtains s1 h r where
    "op_put_object demo bilateral_state alice_did ''k'' ''hello'' = (s1, Ok (Stored (sha256_hex demo ''hello'') 5 Bilateral h))"
    "s_receipt (as_store s1) = [(alice_did, r)]" "metered demo bilateral_state s1 Upload alice_did (sha256_hex demo ''hello'') 5 r"
    "r_content_hash r = h" "r_mode r = Bilateral" "h = content_hash demo (r_core r)"
proof -
  have inv: "totals_inv (as_store bilateral_state)" by (simp add: totals_inv_iff)
  have z: "ledger_bytes (as_store bilateral_state) alice_did = 0" "rt_receipt_count (ledger_totals []) = 0"
    by (simp_all add: ledger_bytes_def ledger_totals_def zero_totals_def)
  have len: "length ''hello'' = 5" by simp
  have gates: "write_gates (as_store bilateral_state) alice_did 5 = Ok ()" by (simp add: write_gates_def)
  have quota: "quota_gate demo_limits (as_store bilateral_state) alice_did 5 = Ok ()"
    by (simp add: quota_gate_def ceiling_gate_def cap_gate_def store_usage_def did_stored_bytes_def sql_int_def demo_limits_def effective_cap_def
        saturating_add_def u64_max_def)
  obtain s1 mode h where p: "op_put_object demo bilateral_state alice_did ''k'' ''hello'' = (s1, Ok (Stored (sha256_hex demo ''hello'') 5 mode h))"
    using put_then_get [of bilateral_state alice_did "''hello''" demo "''k''", unfolded len] inv z gates quota
    by (auto simp: mem_has_def MAX_OBJECT_BYTES_def i64_max_def)
  obtain r where m: "metered demo bilateral_state s1 Upload alice_did (sha256_hex demo ''hello'') 5 r"
    and o: "mode = r_mode r" "h = r_content_hash r"
    using put_object_metered [OF p inv, unfolded len] by auto
  have b: "r = build_boundary_receipt demo (as_provider bilateral_state) (r_core r) Bilateral"
    using m by (simp add: metered_def boundary_receipt_mode_def select_mode_def)
  have mode: "r_mode r = Bilateral" and hash: "r_content_hash r = content_hash demo (r_core r)"
    by (subst b, simp)+
  have only: "load_receipts (as_store s1) d = (if d = alice_did then [r] else [])" for d
    using m by (auto simp: metered_def)
  have "s_receipt (as_store s1) = [(alice_did, r)]"
    using only_receipt [OF only] .
  then show thesis using that p m o mode hash by simp
qed

lemma demo_countersign:
  assumes "s_receipt (as_store s) = [(alice_did, r)]" "r_content_hash r = h" "h = content_hash demo (r_core r)"
  obtains s' out where "op_countersign_receipt demo (cosign_net h) s alice_did h ''countersign'' = (s', Ok out)"
proof -
  have h: "list_all lower_hex_char h" unfolding assms(3) content_hash_def by (rule sha256_hex_lower [OF demo_hex_law])
  then have "scalar_text demo (JStr h) = [CHR 0x22] @ h @ [CHR 0x22]" by (simp add: escape_hex)
  then have "\<exists>a b. scalar_text demo (JStr h) = a @ h @ b" by blast
  moreover have "CHR ''%'' \<notin> set h"
    using h by (auto simp: list_all_iff lower_hex_char_def is_digit_def)
  ultimately obtain st' where "countersign_receipt demo (as_store s) alice_did h alice_did (sign_message demo alice h) =
      (st', Some (r\<lparr>r_sigs := bt_insert alice_did (sign_message demo alice h) (r_sigs r)\<rparr>))"
    using countersign_newest [of "as_store s" "[]" alice_did r h demo alice_did "sign_message demo alice h"] assms(1,2)
    by (metis append_Nil)
  then show thesis
    using that cosign_slice [of h] public_key_from_hex_keypair [OF demo_hex_law demo_key_law alice_key]
      verify_message_sign [OF demo_hex_law demo_sign_law alice_key]
    by (auto simp: op_countersign_receipt_def alice_did_def)
qed

lemma demo_provider_not_alice: "pv_id (as_provider demo_state) \<noteq> alice_did"
proof -
  have inj: "demo_encode a = demo_encode b \<longleftrightarrow> a = b" for a b by (metis demo_decode_encode option.inject)
  have "derive_id demo vk = ''id:'' @ demo_encode (demo_digest vk)" for vk
    using derive_id_eq [OF demo_hex_law demo_digest_law] by (simp add: sha256_hex_def demo_def)
  then have "derive_id demo v = derive_id demo w \<longleftrightarrow> demo_digest v = demo_digest w" for v w by (simp add: inj)
  moreover have "replicate 9 c = replicate 8 c @ [c]" for c :: char by (simp add: numeral_eq_Suc)
  ultimately show ?thesis
    by (simp add: provider_from_seed_def alice_did_def alice_def derive_keypair_def keypair_verifying_key_def Let_def)
      (simp add: demo_def demo_digest_def)
qed

lemma demo_chain_ok: "chain_ok demo (as_store demo_state) d k sk"
  by (simp add: chain_ok_def chain_inv_def chain_pk_def chain_rows_def rows_ok_def recompute_total_def)

lemma demo_chain_written:
  assumes "genesis_put = (s1, Ok out)"
  shows "chain_ok demo (as_store s1) alice_did CHAIN_COUNTER_KIND (Some ''hits'')"
proof -
  have k: "is_chain_kind CHAIN_COUNTER_KIND" by (simp add: is_chain_kind_def CHAIN_COUNTER_SPEC_def)
  obtain a where w: "write_record demo (intent_net genesis_body) (as_provider demo_state) alice_did CHAIN_COUNTER_KIND (Some ''hits'')
      ''intent'' (Some \<lparr>aw_did = alice_did, aw_jti = None\<rparr>) = Ok a"
    and ap: "append_verified_chain_entry demo demo_state alice_did CHAIN_COUNTER_KIND (Some ''hits'') a
      (make_ack demo a (pv_attest_keypair (as_provider demo_state))) = (s1, Ok out)"
    using k by (rule_tac op_put_assertion_Ok [OF assms]) (auto split: if_splits)
  have "sa_seq a = 1" "sa_body a = genesis_body"
    using w by (auto simp: write_record_def intent_slice result_bind_Ok attest_provider_def)
  then show ?thesis
    using chain_append_keeps(1) [OF demo_chain_ok write_record_target [OF w] ap, of "Step \<lparr>cc_delta = 3, cc_total = 3, cc_prev_entry_hash = GENESIS_PREV_HASH\<rparr>"]
    by (simp add: genesis_step step_total_def i64_max_def)
qed

definition demo_entry :: ChainEntry where
  "demo_entry = \<lparr>ce_did = ''d'', ce_kind = ''k'', ce_subkey = Some ''s'', ce_seq = 1,
     ce_step = Step \<lparr>cc_delta = 3, cc_total = 3, cc_prev_entry_hash = GENESIS_PREV_HASH\<rparr>\<rparr>"

lemma demo_entry_hash: "head_hash demo demo_entry \<noteq> GENESIS_PREV_HASH"
proof -
  have n: "length (show_nat 3) = 1" "length (show_nat 1) = 1" "length (show_nat (Suc 0)) = 1"
    by (subst show_nat.simps, simp)+
  have "length (entry_text demo_entry) = 93"
    by (simp add: demo_entry_def entry_text_def unwrap_or_empty_def step_fold_def chain_counter_body_fold_def show_int_def
        GENESIS_PREV_HASH_def n)
  then have "hd (head_hash demo demo_entry) = hex_digit 5"
    by (simp add: head_hash_text sha256_hex_def demo_def demo_digest_def Let_def)
  moreover have "hd GENESIS_PREV_HASH = CHR ''0''" by (simp add: GENESIS_PREV_HASH_def numeral_eq_Suc)
  moreover have "(of_char (hex_digit 5) :: nat) \<noteq> of_char (CHR ''0'')" by (simp add: hex_digit_def)
  ultimately show ?thesis by metis
qed

section \<open>A signed manifest, a flag\<close>

definition signed_manifest :: Manifest where
  "signed_manifest = (case build_manifest demo [] alice_did alice 1 of Ok m \<Rightarrow> m | _ \<Rightarrow> demo_manifest)"

definition manifest_net :: "Manifest \<Rightarrow> net" where
  "manifest_net m = demo_net (\<lambda>s. if s = ''manifest'' then Some (manifest_json m) else None)"

lemma signed_manifest_facts:
  "manifest_verify demo signed_manifest (keypair_verifying_key demo alice) = Ok True" "m_seq signed_manifest = 1"
  "m_signer_id signed_manifest = alice_did" "m_heads signed_manifest = None" "m_leaves signed_manifest = []"
  "m_total_bytes signed_manifest = 0"
proof -
  obtain m where "build_signed demo [] alice_did alice 1 None = Ok m"
    "manifest_verify demo m (keypair_verifying_key demo alice) = Ok True" "m_total_bytes m = sum_list (map ml_size [])"
    "mset (m_leaves m) = mset []" "m_seq m = 1" "m_signer_id m = alice_did" "m_heads m = None"
    by (rule build_signed_verifies [OF demo_hex_law demo_sign_law alice_key, of "[]" alice_did 1 None]) simp_all
  then show "manifest_verify demo signed_manifest (keypair_verifying_key demo alice) = Ok True" "m_seq signed_manifest = 1"
    "m_signer_id signed_manifest = alice_did" "m_heads signed_manifest = None" "m_leaves signed_manifest = []"
    "m_total_bytes signed_manifest = 0"
    by (simp_all add: signed_manifest_def build_manifest_def)
qed

lemma manifest_slice: "from_slice (manifest_net signed_manifest) de_manifest ''manifest'' = Some signed_manifest"
proof -
  have "manifest_wf signed_manifest" by (simp add: manifest_wf_def signed_manifest_facts u64_max_def)
  then show ?thesis using de_manifest_json by (simp add: from_slice_def manifest_net_def demo_net_def)
qed

lemma demo_manifest_put:
  obtains s1 out where
    "op_put_manifest demo (manifest_net signed_manifest) demo_state alice_did (public_key_hex demo alice) ''manifest'' = (s1, Ok out)"
  using that manifest_slice public_key_from_hex_keypair [OF demo_hex_law demo_key_law alice_key] signed_manifest_facts
  by (auto simp: op_put_manifest_def alice_did_def)

definition flag_state :: AppState where
  "flag_state = demo_state\<lparr>as_store := (as_store demo_state)\<lparr>s_assertion :=
     [(akey alice_did FLAG_KIND (Some ''f''), \<lparr>ar_seq = 1, ar_json = None, ar_ack = None\<rparr>)]\<rparr>\<rparr>"

section \<open>A service token\<close>

definition token_net :: net where
  "token_net = demo_net (\<lambda>s.
     if s = ''h'' then Some (JObj [(''alg'', JStr ''ES256K'')])
     else if s = ''p'' then Some (JObj [(''iss'', JStr bob_did), (''aud'', JStr ''did:web:ciss.example''), (''lxm'', JStr ''lxm''),
       (''exp'', JInt 100), (''jti'', JStr ''j1'')])
     else None)"

definition demo_resolve :: resolver where
  "demo_resolve = (\<lambda>did fresh. Some (''did:key:'' @ [CHR 0xE7, CHR 0x01] @ ''s''))"

lemma bob_parses: "did_parse bob_did = Ok (Did bob_did)" "did_space (Did bob_did) = AtprotoSpace"
  by (simp_all add: did_parse_Ok bob_did_def is_valid_did_def strip_prefix_def split_once_def starts_with_def MAX_DID_LEN_def
      is_ascii_lowercase_def is_msid_byte_def is_ascii_alphanumeric_def did_space_def)

lemma strip_prefix_append: "strip_prefix p (p @ s) = Some s"
  by (simp add: strip_prefix_Some)

lemma demo_token_granted:
  "verify_service_auth_full token_net demo_resolve ''did:web:ciss.example'' 50 [] ''h.p.s'' ''lxm'' =
     ([(''j1'', 100)], Authenticated bob_did, Some ''j1'')"
proof -
  have fields: "b64url_decode token_net = Some" "multibase_decode token_net = Some" "k256_from_sec1 token_net = Some"
    "k256_sig token_net = Some" "k256_high_s token_net = (\<lambda>_. False)" "k256_verify token_net = (\<lambda>vk m sg. sg = vk)"
    by (simp_all add: token_net_def demo_net_def)
  have split: "split_on (CHR ''.'') ''h.p.s'' = [''h'', ''p'', ''s'']" by simp
  have hdr: "decode_json token_net de_header_alg ''h'' = Some ''ES256K''"
    by (simp add: decode_json_def from_slice_def fields de_header_alg_def text_fields_def req_def de_str_def)
      (simp add: token_net_def demo_net_def de_header_alg_def text_fields_def req_def de_str_def)
  have claims: "decode_json token_net de_claims ''p'' =
      Some \<lparr>c_iss = bob_did, c_aud = ''did:web:ciss.example'', c_lxm = Some ''lxm'', c_exp = 100, c_jti = Some ''j1''\<rparr>"
    by (simp add: decode_json_def from_slice_def fields)
      (simp add: token_net_def demo_net_def de_claims_def text_fields_def req_def opt_def de_str_def de_u64_def u64_max_def)
  have iss: "peek_iss token_net ''h.p.s'' = Ok bob_did"
    by (simp add: peek_iss_def decode_json_def from_slice_def fields)
      (simp add: token_net_def demo_net_def de_iss_only_def text_fields_def req_def de_str_def)
  have key: "from_did_key token_net (''did:key:'' @ [CHR 0xE7, CHR 0x01] @ ''s'') = Ok (Secp256k1 ''s'')"
    unfolding from_did_key_def strip_prefix_append option.case fields by simp
  have v: "verify_service_auth_jwt token_net ''h.p.s'' (''did:key:'' @ [CHR 0xE7, CHR 0x01] @ ''s'')
      \<lparr>expected_iss = bob_did, expected_aud = ''did:web:ciss.example'', expected_lxm = ''lxm'', sp_now_unix_s = 50\<rparr> =
      Ok \<lparr>v_did = bob_did, v_jti = Some ''j1'', v_exp_unix_s = 100\<rparr>"
    unfolding verify_service_auth_jwt_def split
    by (simp add: hdr claims key fields atproto_verify_def Let_def del: append_Cons append_Nil)
  show ?thesis
    unfolding verify_service_auth_full_def iss
    by (simp add: bob_parses require_atproto_def demo_resolve_def v [simplified] verified_principal_def check_and_record_def
        Let_def)
qed

section \<open>Counters at the edge of SQLite's integers\<close>

definition full_state :: AppState where
  "full_state = demo_state\<lparr>as_store := (as_store demo_state)\<lparr>s_did_total :=
     [(alice_did, \<lparr>tr_totals = \<lparr>rt_receipt_count = 1, rt_upload_bytes = 2 ^ 63, rt_download_bytes = 0, rt_drawdown_download_bytes = 0\<rparr>,
       tr_stored_bytes = 0\<rparr>)]\<rparr>\<rparr>"

lemma full_state_fails:
  "run_route demo (demo_net (\<lambda>_. None)) full_state demo_request (RtGetMeter alice_did) =
     (fst (run_route demo (demo_net (\<lambda>_. None)) full_state demo_request (RtGetMeter alice_did)), Err (SePersist PSqlite))"
proof -
  have nb: "bearer_token demo_headers = None"
    by (simp add: bearer_token_def demo_headers_def PUBKEY_HEADER_def SESSION_HEADER_def)
  have "running_totals (as_store full_state) alice_did = Err PSqlite"
    by (simp add: running_totals_def full_state_def totals_le_def i64_max_def)
  moreover obtain l where "compute_record compute_new alice_did ''meter-read'' 7 = Ok l"
    using compute_record_total [OF compute_inv_new, of alice_did "''meter-read''" 7] by (auto simp: compute_new_def u64_max_def)
  ultimately show ?thesis
    using demo_authenticated alice_parses nb
    by (simp add: handler_response_def get_meter_handler_def with_did_def demo_request_def auth_step_def authenticate_atproto_def
        dispatch_blocking_def dispatch_def require_owner_def op_get_meter_def map_ok_def full_state_def)
qed

section \<open>A signed policy\<close>

definition demo_policy_body :: PolicyBody where
  "demo_policy_body = \<lparr>pb_read_class = OwnerOnly, pb_readers = []\<rparr>"

definition demo_policy :: "u64 \<Rightarrow> SignedAssertion" where
  "demo_policy n = sign_owner demo POLICY_KIND alice_did None n JNull (policy_body_fold demo_policy_body) alice"

section \<open>A leaf, a statement\<close>

lemma demo_digest_length: "sha256_hex demo a = sha256_hex demo b \<Longrightarrow> length a mod 256 = length b mod 256"
proof -
  assume "sha256_hex demo a = sha256_hex demo b"
  then have "demo_digest a = demo_digest b"
    by (simp add: sha256_hex_def demo_def) (metis demo_decode_encode option.inject)
  then have "(of_char (char_of (length a mod 256)) :: nat) = of_char (char_of (length b mod 256))"
    by (simp add: demo_digest_def)
  then show ?thesis by simp
qed

definition demo_leaf :: "usize \<Rightarrow> ManifestLeaf" where
  "demo_leaf n = \<lparr>ml_cid = replicate 64 (CHR ''0''), ml_size = n\<rparr>"

lemma demo_leaf_facts:
  "leaf_is_valid (demo_leaf 3)" "inj_on (sha256_hex demo) (root_texts demo [demo_leaf 3])"
proof -
  show "leaf_is_valid (demo_leaf 3)"
    by (simp add: leaf_is_valid_def demo_leaf_def MAX_OBJECT_BYTES_def list_all_iff lower_hex_char_def is_digit_def)
  have "length (show_nat 3) = 1" by (subst show_nat.simps) simp
  then have "length (leaf_text (demo_leaf 3)) = 71" by (simp add: leaf_text_def demo_leaf_def)
  then have "sha256_hex demo (leaf_text (demo_leaf 3)) \<noteq> sha256_hex demo ''empty-manifest''"
    using demo_digest_length by fastforce
  then show "inj_on (sha256_hex demo) (root_texts demo [demo_leaf 3])"
    by (auto simp: root_texts_def merkle_texts.simps)
qed

lemma demo_root_inj: "inj_on (sha256_hex demo) (root_texts demo [])"
  by (simp add: root_texts_def merkle_texts.simps)

definition demo_statement :: StatementBody where
  "demo_statement = \<lparr>sb_period = 0, sb_period_start_day = 0, sb_period_end_day = 30, sb_opening_root = [], sb_closing_root = [],
     sb_byte_days = 0, sb_rent_cents = 0, sb_postage_bytes = 0, sb_postage_cents = 0, sb_audit_count = 0, sb_audit_bytes = 0,
     sb_audit_cents = 0, sb_audit_tier = [], sb_grace_cents = 0, sb_fees_cents = 0, sb_total_cents = 0,
     sb_prev_statement_hash = GENESIS_STATEMENT\<rparr>"

lemma last_demo_encode: "bs \<noteq> [] \<Longrightarrow> last (demo_encode bs) = hex_digit (of_char (last bs) mod 16)"
proof (induction bs)
  case (Cons b bs)
  then show ?case by (cases bs) (simp_all add: Let_def)
qed simp

lemma last_demo_hash: "m \<noteq> [] \<Longrightarrow> last (sha256_hex demo m) = hex_digit (of_char (last m) mod 16)"
proof -
  assume m: "m \<noteq> []"
  have "last (demo_digest m) = last m"
    using m by (cases m rule: rev_cases) (simp_all add: demo_digest_def)
  moreover have "demo_digest m \<noteq> []" by (simp add: demo_digest_def)
  ultimately show ?thesis using last_demo_encode [of "demo_digest m"] by (simp add: sha256_hex_def demo_def)
qed

lemma demo_statement_hash: "st_hash (build_statement demo b) \<noteq> GENESIS_STATEMENT"
proof -
  obtain t where t: "to_canonical_bytes demo (statement_json b) = t @ [CHR ''}'']"
    unfolding to_canonical_bytes_def statement_json_def by simp
  have "last (st_hash (build_statement demo b)) = hex_digit 13"
    using last_demo_hash [of "t @ [CHR ''}'']"] by (simp add: build_statement_def t)
  moreover have "last GENESIS_STATEMENT = CHR ''0''" by (simp add: GENESIS_STATEMENT_def)
  moreover have "(of_char (hex_digit 13) :: nat) \<noteq> of_char (CHR ''0'')" by (simp add: hex_digit_def)
  ultimately show ?thesis by metis
qed

end
