(* ===== verification/Ledger.thy ===== *)
theory Ledger
  imports Crypto Btree Hash_Chain
begin

text \<open>
  \<^verbatim>\<open>src/src/ledger.rs\<close>: the append-only, hash-linked, signed ledger of an actor. \<open>ledger_append\<close>
  and \<open>verify_entries\<close> are the code; the lemmas say that an appended ledger verifies, that the
  verifier reports every deviation, and that the hash of the last entry commits to the position,
  link, time stamp, kind and body of every entry before it (the \<open>hash_chain\<close> interface).
\<close>

section \<open>Operations\<close>

definition GENESIS_PREV :: string where
  "GENESIS_PREV = replicate 64 (CHR ''0'')"

record Signer =
  sg_actor_id :: string
  sg_keypair :: Keypair

record LedgerEntry =
  le_seq :: usize
  le_prev_hash :: string
  le_ts :: string
  le_kind :: string
  le_body :: json
  le_hash :: string
  le_sigs :: "string btree"

definition ledger_preimage :: "usize \<Rightarrow> string \<Rightarrow> string \<Rightarrow> string \<Rightarrow> json \<Rightarrow> json" where
  "ledger_preimage seq prev_hash ts kind body =
     JObj [(''seq'', JInt (int seq)), (''prev_hash'', JStr prev_hash), (''ts'', JStr ts),
           (''kind'', JStr kind), (''body'', body)]"

definition ledger_entry_hash :: "ext \<Rightarrow> usize \<Rightarrow> string \<Rightarrow> string \<Rightarrow> string \<Rightarrow> json \<Rightarrow> string" where
  "ledger_entry_hash X seq prev_hash ts kind body =
     sha256_hex X (to_canonical_bytes X (ledger_preimage seq prev_hash ts kind body))"

record Ledger =
  lg_owner_id :: string
  lg_entries :: "LedgerEntry list"

definition ledger_new :: "string \<Rightarrow> Ledger" where
  "ledger_new owner_id = \<lparr>lg_owner_id = owner_id, lg_entries = []\<rparr>"

definition last_hash :: "Ledger \<Rightarrow> string" where
  "last_hash l = (if lg_entries l = [] then GENESIS_PREV else le_hash (last (lg_entries l)))"

definition collect_sigs :: "ext \<Rightarrow> string \<Rightarrow> Signer list \<Rightarrow> string btree" where
  "collect_sigs X h signers =
     fold (\<lambda>s t. bt_insert (sg_actor_id s) (sign_message X (sg_keypair s) h) t) signers []"

definition ledger_append ::
  "ext \<Rightarrow> Ledger \<Rightarrow> string \<Rightarrow> string \<Rightarrow> json \<Rightarrow> Signer list \<Rightarrow> Ledger" where
  "ledger_append X l kind ts body signers =
     (let seq = length (lg_entries l);
          prev_hash = last_hash l;
          h = ledger_entry_hash X seq prev_hash ts kind body
      in l\<lparr>lg_entries := lg_entries l @
           [\<lparr>le_seq = seq, le_prev_hash = prev_hash, le_ts = ts, le_kind = kind, le_body = body,
             le_hash = h, le_sigs = collect_sigs X h signers\<rparr>]\<rparr>)"

record VerifyIssue =
  vi_seq :: usize
  vi_problem :: string

definition issue_if :: "bool \<Rightarrow> usize \<Rightarrow> string \<Rightarrow> VerifyIssue list" where
  "issue_if c seq problem = (if c then [\<lparr>vi_seq = seq, vi_problem = problem\<rparr>] else [])"

definition sig_issues :: "ext \<Rightarrow> verifying_key btree \<Rightarrow> LedgerEntry \<Rightarrow> VerifyIssue list" where
  "sig_issues X keyring e =
     concat (map (\<lambda>(signer_id, sg).
       case bt_get keyring signer_id of
         None \<Rightarrow> [\<lparr>vi_seq = le_seq e, vi_problem = ''no pinned key for signer '' @ signer_id\<rparr>]
       | Some public_key \<Rightarrow>
           issue_if (\<not> verify_message X public_key (le_hash e) sg) (le_seq e)
             (''bad signature from '' @ signer_id)) (le_sigs e))"

definition entry_issues :: "ext \<Rightarrow> verifying_key btree \<Rightarrow> nat \<Rightarrow> string \<Rightarrow> LedgerEntry \<Rightarrow> VerifyIssue list" where
  "entry_issues X keyring idx expected_prev e =
     issue_if (le_seq e \<noteq> idx) (le_seq e) (''seq out of order: expected '' @ show_nat idx) @
     issue_if (le_prev_hash e \<noteq> expected_prev) (le_seq e) ''prev_hash breaks the chain link'' @
     issue_if (ledger_entry_hash X (le_seq e) (le_prev_hash e) (le_ts e) (le_kind e) (le_body e) \<noteq> le_hash e)
       (le_seq e) ''hash does not match body (entry edited)'' @
     issue_if (le_sigs e = []) (le_seq e) ''entry carries no signature'' @
     sig_issues X keyring e"

fun verify_entries_loop ::
  "ext \<Rightarrow> verifying_key btree \<Rightarrow> nat \<Rightarrow> string \<Rightarrow> LedgerEntry list \<Rightarrow> VerifyIssue list" where
  "verify_entries_loop X keyring idx expected_prev [] = []"
| "verify_entries_loop X keyring idx expected_prev (e # es) =
     entry_issues X keyring idx expected_prev e @
     verify_entries_loop X keyring (Suc idx) (le_hash e) es"

definition verify_entries :: "ext \<Rightarrow> LedgerEntry list \<Rightarrow> verifying_key btree \<Rightarrow> VerifyIssue list" where
  "verify_entries X entries keyring = verify_entries_loop X keyring 0 GENESIS_PREV entries"

section \<open>What an empty report means\<close>

definition sound_sigs :: "ext \<Rightarrow> verifying_key btree \<Rightarrow> LedgerEntry \<Rightarrow> bool" where
  "sound_sigs X keyring e \<longleftrightarrow>
     list_all (\<lambda>(i, sg). \<exists>k. bt_get keyring i = Some k \<and> verify_message X k (le_hash e) sg) (le_sigs e)"

definition sound_entry :: "ext \<Rightarrow> verifying_key btree \<Rightarrow> nat \<Rightarrow> string \<Rightarrow> LedgerEntry \<Rightarrow> bool" where
  "sound_entry X keyring idx expected_prev e \<longleftrightarrow>
     le_seq e = idx \<and> le_prev_hash e = expected_prev \<and>
     ledger_entry_hash X (le_seq e) (le_prev_hash e) (le_ts e) (le_kind e) (le_body e) = le_hash e \<and>
     le_sigs e \<noteq> [] \<and> sound_sigs X keyring e"

lemma issue_if_Nil [simp]: "issue_if c s p = [] \<longleftrightarrow> \<not> c"
  by (simp add: issue_if_def)

lemma entry_issues_Nil: "entry_issues X keyring idx p e = [] \<longleftrightarrow> sound_entry X keyring idx p e"
  by (auto simp: entry_issues_def sound_entry_def sig_issues_def sound_sigs_def list_all_iff
      split: option.splits)

lemma verify_entries_loop_append:
  "verify_entries_loop X k i p (xs @ ys) =
     verify_entries_loop X k i p xs @ verify_entries_loop X k (i + length xs) (head_of le_hash p xs) ys"
  by (induction xs arbitrary: i p) auto

lemma verify_entries_loop_Nil_iff:
  "verify_entries_loop X k i p es = [] \<longleftrightarrow>
     (\<forall>j < length es. sound_entry X k (i + j) (head_of le_hash p (take j es)) (es ! j))"
proof (induction es arbitrary: i p)
  case Nil
  then show ?case by simp
next
  case (Cons e es)
  show ?case
    by (auto simp: Cons.IH entry_issues_Nil All_less_Suc2)
qed

lemma verify_entries_complete:
  "verify_entries X es k = [] \<longleftrightarrow>
     (\<forall>j < length es. sound_entry X k j (head_of le_hash GENESIS_PREV (take j es)) (es ! j))"
  by (simp add: verify_entries_def verify_entries_loop_Nil_iff)

lemma last_hash_head: "last_hash l = head_of le_hash GENESIS_PREV (lg_entries l)"
  by (cases "lg_entries l" rule: rev_cases) (simp_all add: last_hash_def)

section \<open>Appending keeps the ledger valid\<close>

lemma collect_sigs_wf: "btree_wf (collect_sigs X h signers)"
proof -
  have "btree_wf (fold (\<lambda>s t. bt_insert (sg_actor_id s) (sign_message X (sg_keypair s) h) t) signers t)"
    if "btree_wf t" for t
    using that by (induction signers arbitrary: t) (auto simp: btree_wf_insert)
  then show ?thesis by (simp add: collect_sigs_def btree_wf_def)
qed

lemma collect_sigs_members:
  "(i, sg) \<in> set (collect_sigs X h signers) \<Longrightarrow>
     \<exists>s \<in> set signers. i = sg_actor_id s \<and> sg = sign_message X (sg_keypair s) h"
proof -
  have "(i, sg) \<in> set t \<or> (\<exists>s \<in> set signers. i = sg_actor_id s \<and> sg = sign_message X (sg_keypair s) h)"
    if "(i, sg) \<in> set (fold (\<lambda>s t. bt_insert (sg_actor_id s) (sign_message X (sg_keypair s) h) t) signers t)"
      "btree_wf t" for t
    using that
  proof (induction signers arbitrary: t)
    case (Cons s signers)
    from Cons.IH [of "bt_insert (sg_actor_id s) (sign_message X (sg_keypair s) h) t"] Cons.prems
    show ?case using bt_insert_set [OF Cons.prems(2)] by (fastforce simp: btree_wf_insert)
  qed simp
  from this [of "[]"] show "(i, sg) \<in> set (collect_sigs X h signers) \<Longrightarrow> ?thesis"
    by (simp add: collect_sigs_def btree_wf_def)
qed

lemma collect_sigs_nonempty: "signers \<noteq> [] \<Longrightarrow> collect_sigs X h signers \<noteq> []"
proof -
  have "fold (\<lambda>s t. bt_insert (sg_actor_id s) (sign_message X (sg_keypair s) h) t) signers t \<noteq> []"
    if "t \<noteq> [] \<or> signers \<noteq> []" for t :: "string btree"
    using that
  proof (induction signers arbitrary: t)
    case (Cons s signers)
    have "bt_insert (sg_actor_id s) (sign_message X (sg_keypair s) h) t \<noteq> []"
      by (cases t) (auto split: if_splits)
    then show ?case using Cons.IH by simp
  qed simp
  then show "signers \<noteq> [] \<Longrightarrow> ?thesis" by (simp add: collect_sigs_def)
qed

definition pinned :: "ext \<Rightarrow> verifying_key btree \<Rightarrow> Signer \<Rightarrow> bool" where
  "pinned X keyring s \<longleftrightarrow>
     length (kp_signing_key (sg_keypair s)) = 32 \<and>
     bt_get keyring (sg_actor_id s) = Some (keypair_verifying_key X (sg_keypair s))"

lemma ledger_append_valid:
  assumes "hex_law X" "sign_law X" "verify_entries X (lg_entries l) keyring = []"
    and "signers \<noteq> []" "\<And>s. s \<in> set signers \<Longrightarrow> pinned X keyring s"
  shows "verify_entries X (lg_entries (ledger_append X l kind ts body signers)) keyring = []"
proof -
  let ?h = "ledger_entry_hash X (length (lg_entries l)) (last_hash l) ts kind body"
  have "\<exists>k. bt_get keyring i = Some k \<and> verify_message X k ?h sg"
    if "(i, sg) \<in> set (collect_sigs X ?h signers)" for i sg
    using collect_sigs_members [OF that] assms(5) verify_message_sign [OF assms(1,2)]
    by (fastforce simp: pinned_def)
  then show ?thesis
    using assms(3,4)
    by (auto simp: ledger_append_def Let_def verify_entries_def verify_entries_loop_append
        entry_issues_Nil sound_entry_def sound_sigs_def list_all_iff collect_sigs_nonempty last_hash_head)
qed

section \<open>Tamper evidence\<close>

text \<open>The content of an entry is what its hash is taken over, everything but the signatures; bodies
  are objects in key order (\<^verbatim>\<open>serde_json::Map\<close>), which the canonical form does not distinguish
  from any other order.\<close>

definition entry_content :: "LedgerEntry \<Rightarrow> json" where
  "entry_content e = ledger_preimage (le_seq e) (le_prev_hash e) (le_ts e) (le_kind e) (le_body e)"

definition ledger_accepts :: "ext \<Rightarrow> verifying_key btree \<Rightarrow> LedgerEntry list \<Rightarrow> bool" where
  "ledger_accepts X keyring es \<longleftrightarrow> verify_entries X es keyring = []"

lemma ledger_accepts_linked: "ledger_accepts X k es \<Longrightarrow> linked le_prev_hash le_hash GENESIS_PREV es"
proof -
  have "verify_entries_loop X k i p es = [] \<Longrightarrow> linked le_prev_hash le_hash p es" for i p
    by (induction es arbitrary: i p) (auto simp: entry_issues_Nil sound_entry_def)
  then show "ledger_accepts X k es \<Longrightarrow> ?thesis"
    by (simp add: ledger_accepts_def verify_entries_def)
qed

lemma ledger_accepts_hash:
  assumes "ledger_accepts X k es" "e \<in> set es"
  shows "le_hash e = sha256_hex X (to_canonical_bytes X (entry_content e))"
proof -
  obtain j where "j < length es" "e = es ! j" using assms(2) by (auto simp: in_set_conv_nth)
  then show ?thesis
    using assms(1)
    by (auto simp: ledger_accepts_def verify_entries_complete sound_entry_def ledger_entry_hash_def
        entry_content_def)
qed

lemma ledger_preimage_inject:
  assumes "jnorm (ledger_preimage s p t k b) = jnorm (ledger_preimage s' p' t' k' b')"
  shows "s = s' \<and> p = p' \<and> t = t' \<and> k = k' \<and> jnorm b = jnorm b'"
proof -
  let ?f = "\<lambda>s p t k b. [(''seq'', JInt (int s)), (''prev_hash'', JStr p), (''ts'', JStr t),
           (''kind'', JStr k), (''body'', b)]"
  have f: "map_option jnorm (map_of (?f s p t k b) key) = map_option jnorm (map_of (?f s' p' t' k' b') key)" for key
    by (rule jnorm_field) (use assms in \<open>simp_all add: ledger_preimage_def\<close>)
  show ?thesis
    using f [of "''seq''"] f [of "''prev_hash''"] f [of "''ts''"] f [of "''kind''"] f [of "''body''"]
    by simp
qed

interpretation ledger_chain:
  hash_chain le_prev_hash le_hash "\<lambda>e. jnorm (entry_content e)" GENESIS_PREV "ledger_accepts X k" for X k
  by unfold_locales (auto simp: ledger_accepts_linked entry_content_def dest: ledger_preimage_inject)

lemma jwf_entry_content: "jwf (le_body e) \<Longrightarrow> jwf (entry_content e)"
  by (simp add: entry_content_def ledger_preimage_def)

lemma ledger_commits:
  assumes "text_law X" "ledger_accepts X k xs" "ledger_accepts X k' ys"
    and "\<And>e. e \<in> set xs \<union> set ys \<Longrightarrow> jwf (le_body e)"
    and inj: "inj_on (sha256_hex X) ((\<lambda>e. to_canonical_bytes X (entry_content e)) ` (set xs \<union> set ys))"
  shows "commits le_hash (\<lambda>e. jnorm (entry_content e)) (set xs \<union> set ys)"
  unfolding commits_def
proof (intro ballI impI)
  fix a b assume ab: "a \<in> set xs \<union> set ys" "b \<in> set xs \<union> set ys" and h: "le_hash a = le_hash b"
  have hs: "le_hash e = sha256_hex X (to_canonical_bytes X (entry_content e))" if "e \<in> set xs \<union> set ys" for e
    using that ledger_accepts_hash assms(2,3) by auto
  have "to_canonical_bytes X (entry_content a) = to_canonical_bytes X (entry_content b)"
    by (rule inj_onD [OF inj]) (use h ab hs in auto)
  then show "jnorm (entry_content a) = jnorm (entry_content b)"
    using to_canonical_bytes_inject [OF assms(1)] assms(4) ab by (simp add: jwf_entry_content)
qed

end
