(* ===== verification/Billing.thy ===== *)
theory Billing
  imports Statements Ledger
begin

text \<open>
  \<^verbatim>\<open>src/src/grace.rs\<close> and \<^verbatim>\<open>src/src/dial.rs\<close>: grace entries that net to zero against the grace
  account, and the assurance dial with its linear price and its pro-rating. Both write signed
  entries to the ledger of \<open>Ledger\<close>.
\<close>

section \<open>grace.rs\<close>

definition GRACE_EVENT_KIND :: string where
  "GRACE_EVENT_KIND = ''grace-event''"

record GraceEvent =
  ge_reason_code :: string
  ge_amount_cents :: u64
  ge_note :: string
  ge_customer_credit_cents :: i64
  ge_grace_account_charge_cents :: i64
  ge_grace_account_balance_cents :: i64

record GraceAccount =
  ga_balance_cents :: i64
  ga_customer_credits_cents :: i64

definition grace_new :: GraceAccount where
  "grace_new = \<lparr>ga_balance_cents = 0, ga_customer_credits_cents = 0\<rparr>"

definition grace_json :: "GraceEvent \<Rightarrow> json" where
  "grace_json e =
     JObj [(''reason_code'', JStr (ge_reason_code e)), (''amount_cents'', JInt (int (ge_amount_cents e))),
           (''note'', JStr (ge_note e)), (''customer_credit_cents'', JInt (ge_customer_credit_cents e)),
           (''grace_account_charge_cents'', JInt (ge_grace_account_charge_cents e)),
           (''grace_account_balance_cents'', JInt (ge_grace_account_balance_cents e))]"

definition in_i64 :: "int \<Rightarrow> bool" where
  "in_i64 i \<longleftrightarrow> - (2 ^ 63) \<le> i \<and> i < 2 ^ 63"

text \<open>The conversion to \<open>i64\<close> and the two running sums panic out of range.\<close>

definition record_event ::
  "ext \<Rightarrow> GraceAccount \<Rightarrow> Ledger \<Rightarrow> string \<Rightarrow> string \<Rightarrow> u64 \<Rightarrow> string \<Rightarrow> Signer \<Rightarrow> Signer
   \<Rightarrow> (GraceAccount \<times> Ledger \<times> GraceEvent, unit) result" where
  "record_event X g l ts reason_code amount_cents note s1 s2 =
     (let amount = int amount_cents;
          credits = ga_customer_credits_cents g - amount;
          balance = ga_balance_cents g + amount
      in if \<not> in_i64 amount then Panic
         else if \<not> in_i64 credits then Panic
         else if \<not> in_i64 balance then Panic
         else let event = \<lparr>ge_reason_code = reason_code, ge_amount_cents = amount_cents, ge_note = note,
                   ge_customer_credit_cents = - amount, ge_grace_account_charge_cents = amount,
                   ge_grace_account_balance_cents = balance\<rparr>
              in Ok (\<lparr>ga_balance_cents = balance, ga_customer_credits_cents = credits\<rparr>,
                     ledger_append X l GRACE_EVENT_KIND ts (grace_json event) [s1, s2], event))"

definition grace_balanced :: "GraceAccount \<Rightarrow> bool" where
  "grace_balanced g \<longleftrightarrow> ga_balance_cents g + ga_customer_credits_cents g = 0"

lemma grace_new_balanced: "grace_balanced grace_new"
  by (simp add: grace_balanced_def grace_new_def)

lemma record_event_balanced:
  assumes "record_event X g l ts rc n note s1 s2 = Ok (g', l', e)" "grace_balanced g"
  shows "grace_balanced g'" "ge_customer_credit_cents e + ge_grace_account_charge_cents e = 0"
    "ge_grace_account_balance_cents e = ga_balance_cents g'" "ga_balance_cents g' = ga_balance_cents g + int n"
    "l' = ledger_append X l GRACE_EVENT_KIND ts (grace_json e) [s1, s2]"
  using assms by (auto simp: record_event_def Let_def grace_balanced_def split: if_splits)

lemma record_event_total:
  assumes "grace_balanced g" "0 \<le> ga_balance_cents g" "ga_balance_cents g + int n < 2 ^ 63"
  shows "\<exists>r. record_event X g l ts rc n note s1 s2 = Ok r"
proof -
  have "ga_customer_credits_cents g = - ga_balance_cents g"
    using assms(1) by (simp add: grace_balanced_def)
  then show ?thesis using assms(2,3) by (simp add: record_event_def in_i64_def Let_def)
qed

section \<open>dial.rs\<close>

record Tier =
  t_name :: string
  t_k :: u64
  t_audits_per_period :: u64

definition per_audit_cents :: "u64 \<Rightarrow> u64 \<Rightarrow> (u64, unit) result" where
  "per_audit_cents k avg_item_bytes =
     (case checked (k * avg_item_bytes) of Ok b \<Rightarrow> audit_cents b 1 | r \<Rightarrow> r)"

definition tier_cost :: "Tier \<Rightarrow> u64 \<Rightarrow> (u64, unit) result" where
  "tier_cost t avg_item_bytes =
     (case per_audit_cents (t_k t) avg_item_bytes of
        Ok c \<Rightarrow> checked (t_audits_per_period t * c)
      | r \<Rightarrow> r)"

definition audits_for :: "u64 \<Rightarrow> u64 \<Rightarrow> u64 \<Rightarrow> (u64, unit) result" where
  "audits_for audits_per_period days period_days =
     (if period_days = 0 then Panic
      else case checked (audits_per_period * days) of
             Ok p \<Rightarrow>
               (case checked (p + period_days div 2) of
                  Ok q \<Rightarrow> Ok (q div period_days)
                | r \<Rightarrow> r)
           | r \<Rightarrow> r)"

record DialDeclaration =
  dd_tier :: string
  dd_k :: u64
  dd_audits_per_period :: u64

definition from_tier :: "Tier \<Rightarrow> DialDeclaration" where
  "from_tier t = \<lparr>dd_tier = t_name t, dd_k = t_k t, dd_audits_per_period = t_audits_per_period t\<rparr>"

definition dial_to_body :: "DialDeclaration \<Rightarrow> json" where
  "dial_to_body d =
     JObj [(''tier'', JStr (dd_tier d)), (''k'', JInt (int (dd_k d))),
           (''audits_per_period'', JInt (int (dd_audits_per_period d)))]"

definition declare_tier :: "ext \<Rightarrow> Ledger \<Rightarrow> Tier \<Rightarrow> string \<Rightarrow> Signer \<Rightarrow> Ledger" where
  "declare_tier X l t ts signer =
     ledger_append X l ''dial-declaration'' ts (dial_to_body (from_tier t)) [signer]"

lemma checked_Ok [simp]: "checked n = Ok m \<longleftrightarrow> m = n \<and> n \<le> u64_max"
  by (auto simp: checked_def)

lemma tier_cost_Ok:
  assumes "tier_cost t avg = Ok c"
  shows "c = t_audits_per_period t * (t_k t * avg div 1000 + 2)"
  using assms
  by (auto simp: tier_cost_def per_audit_cents_def audit_cents_def AUDIT_BYTES_PER_CENT_def
      AUDIT_OVERHEAD_CENTS_def split: result.splits)

text \<open>A mid-period change splits a period into two legs whose audits add up to the whole, with at
  most one audit of rounding, never fewer.\<close>

lemma audits_for_legs:
  assumes "d \<le> p" "audits_for a d p = Ok x" "audits_for a (p - d) p = Ok y"
  shows "a \<le> x + y \<and> x + y \<le> a + 1"
proof -
  have p: "0 < p" and x: "x = (a * d + p div 2) div p" and y: "y = (a * (p - d) + p div 2) div p"
    using assms(2,3) by (auto simp: audits_for_def split: if_splits result.splits)
  have "a * d + a * (p - d) = a * p"
    using assms(1) by (metis add_mult_distrib2 le_add_diff_inverse)
  define r where "r = a * d mod p"
  define q where "q = a * d div p"
  have ad: "a * d = q * p + r" and r: "r < p" using p by (simp_all add: q_def r_def)
  have x': "x = q + (r + p div 2) div p" using p by (simp add: x ad add.assoc)
  show ?thesis
  proof (cases "r = 0")
    case True
    have "a * (p - d) = (a - q) * p"
      using \<open>a * d + a * (p - d) = a * p\<close> ad True by (simp add: diff_mult_distrib)
    moreover have "q \<le> a"
      using \<open>a * d + a * (p - d) = a * p\<close> ad True p by (metis le_add1 add.right_neutral mult_le_cancel2)
    ultimately show ?thesis using p x' y True by simp
  next
    case False
    have "q < a"
    proof (rule ccontr)
      assume "\<not> q < a"
      then have "a * p \<le> q * p" by (intro mult_le_mono1) simp
      then show False using \<open>a * d + a * (p - d) = a * p\<close> ad False by linarith
    qed
    then obtain e where e: "a = q + 1 + e" by (metis less_imp_Suc_add Suc_eq_plus1 add.assoc add.commute)
    have "a * (p - d) = e * p + (p - r)"
      using \<open>a * d + a * (p - d) = a * p\<close> ad r by (simp add: e algebra_simps)
    then have y': "y = e + ((p - r) + p div 2) div p" using p by (simp add: y add.assoc)
    have "(r + p div 2) div p \<le> 1" "((p - r) + p div 2) div p \<le> 1"
      using r p by (simp_all add: less_mult_imp_div_less div_le_mono flip: less_Suc_eq_le)
    moreover have "1 \<le> (r + p div 2) div p \<or> 1 \<le> ((p - r) + p div 2) div p"
    proof (cases "p \<le> r + p div 2")
      case True
      then have "p div p \<le> (r + p div 2) div p" by (rule div_le_mono)
      then show ?thesis using p by simp
    next
      case False
      then have "p \<le> (p - r) + p div 2" by linarith
      then have "p div p \<le> ((p - r) + p div 2) div p" by (rule div_le_mono)
      then show ?thesis using p by simp
    qed
    ultimately show ?thesis using x' y' e by linarith
  qed
qed

end
