(* ===== verification/Item.thy ===== *)
theory Item
  imports Manifest "HOL-Library.AList" "HOL-Library.Word"
begin

text \<open>
  \<^verbatim>\<open>src/src/item.rs\<close>, \<^verbatim>\<open>src/src/seal.rs\<close>, \<^verbatim>\<open>src/src/rng.rs\<close> and \<^verbatim>\<open>src/src/audit.rs\<close>: content-addressed
  items and their store, sealing, the seeded generator (on 32-bit words) and the spot check. A
  \<^verbatim>\<open>HashMap\<close> is an association list with distinct keys.
\<close>

unbundle bit_operations_syntax

section \<open>item.rs\<close>

record Item =
  it_label :: string
  it_bytes :: bytes
  it_cid :: string
  it_size :: usize

definition from_bytes :: "ext \<Rightarrow> string \<Rightarrow> bytes \<Rightarrow> Item" where
  "from_bytes X label bs =
     \<lparr>it_label = label, it_bytes = bs, it_cid = sha256_hex X bs, it_size = length bs\<rparr>"

datatype RetrieveError = RetrieveMissing string | RetrieveTampered string string

type_synonym content_store = "(string \<times> bytes) list"

definition cs_write :: "content_store \<Rightarrow> string \<Rightarrow> bytes \<Rightarrow> content_store" where
  "cs_write st key bs = AList.update key bs st"

definition cs_put :: "content_store \<Rightarrow> Item \<Rightarrow> content_store" where
  "cs_put st item = cs_write st (it_cid item) (it_bytes item)"

definition cs_has :: "content_store \<Rightarrow> string \<Rightarrow> bool" where
  "cs_has st cid \<longleftrightarrow> map_of st cid \<noteq> None"

definition stored_bytes :: "content_store \<Rightarrow> (usize, unit) result" where
  "stored_bytes st =
     (let s = sum_list (map (length \<circ> snd) st) in if s \<le> u64_max then Ok s else Panic)"

definition retrieve_verified :: "ext \<Rightarrow> content_store \<Rightarrow> string \<Rightarrow> (bytes, RetrieveError) result" where
  "retrieve_verified X st cid =
     (case map_of st cid of
        None \<Rightarrow> Err (RetrieveMissing cid)
      | Some stored \<Rightarrow>
          let actual = sha256_hex X stored in
          if actual \<noteq> cid then Err (RetrieveTampered cid actual) else Ok stored)"

definition cs_remove :: "content_store \<Rightarrow> string \<Rightarrow> content_store" where
  "cs_remove st cid = AList.delete cid st"

definition audit_read_cost :: "content_store \<Rightarrow> string list \<Rightarrow> (u64, unit) result" where
  "audit_read_cost st cids =
     (let s = sum_list (map length (List.map_filter (map_of st) cids)) in
      if s \<le> u64_max then Ok s else Panic)"

section \<open>seal.rs\<close>

record SealDeclaration =
  sd_collection_id :: string
  sd_pinned_root :: string
  sd_day :: u64
  sd_signer_id :: string
  sd_signature :: string

definition seal_message :: "string \<Rightarrow> string \<Rightarrow> string" where
  "seal_message collection_id root = ''seal:'' @ collection_id @ '':'' @ root"

definition rotate_message :: "string \<Rightarrow> string \<Rightarrow> string" where
  "rotate_message collection_id root = ''rotate:'' @ collection_id @ '':'' @ root"

definition seal_verify :: "ext \<Rightarrow> SealDeclaration \<Rightarrow> verifying_key \<Rightarrow> bool" where
  "seal_verify X d customer_key =
     verify_message X customer_key (seal_message (sd_collection_id d) (sd_pinned_root d)) (sd_signature d)"

definition sign_seal :: "ext \<Rightarrow> string \<Rightarrow> string \<Rightarrow> u64 \<Rightarrow> string \<Rightarrow> Keypair \<Rightarrow> SealDeclaration" where
  "sign_seal X collection_id pinned_root day customer_id customer_key =
     \<lparr>sd_collection_id = collection_id, sd_pinned_root = pinned_root, sd_day = day,
      sd_signer_id = customer_id,
      sd_signature = sign_message X customer_key (seal_message collection_id pinned_root)\<rparr>"

datatype SealError = Sealed

record CollectionWriter =
  cw_credential :: "Keypair option"

definition writer_new :: "Keypair \<Rightarrow> CollectionWriter" where
  "writer_new credential = \<lparr>cw_credential = Some credential\<rparr>"

definition writer_write :: "CollectionWriter \<Rightarrow> content_store \<Rightarrow> Item \<Rightarrow> content_store \<times> (unit, SealError) result" where
  "writer_write w st item =
     (if cw_credential w = None then (st, Err Sealed) else (cs_put st item, Ok ()))"

definition destroy_credential :: "CollectionWriter \<Rightarrow> CollectionWriter" where
  "destroy_credential w = w\<lparr>cw_credential := None\<rparr>"

record RootAnnouncement =
  ra_collection_id :: string
  ra_new_root :: string
  ra_day :: u64
  ra_signer_id :: string
  ra_signature :: string

record UnsealAuthority =
  ua_key :: "Keypair option"
  ua_owner_id :: string

definition unseal_new :: "string \<Rightarrow> Keypair \<Rightarrow> UnsealAuthority" where
  "unseal_new owner_id key = \<lparr>ua_key = Some key, ua_owner_id = owner_id\<rparr>"

definition rotate_root :: "ext \<Rightarrow> UnsealAuthority \<Rightarrow> string \<Rightarrow> string \<Rightarrow> u64 \<Rightarrow> RootAnnouncement option" where
  "rotate_root X u collection_id new_root day =
     (case ua_key u of
        None \<Rightarrow> None
      | Some key \<Rightarrow>
          Some \<lparr>ra_collection_id = collection_id, ra_new_root = new_root, ra_day = day,
            ra_signer_id = ua_owner_id u,
            ra_signature = sign_message X key (rotate_message collection_id new_root)\<rparr>)"

definition unseal_destroy :: "UnsealAuthority \<Rightarrow> UnsealAuthority" where
  "unseal_destroy u = u\<lparr>ua_key := None\<rparr>"

datatype WatchEvent = CustomerInitiated string u64 | Alarm string u64 string

record RotationWatch =
  rw_collection_id :: string
  rw_customer_id :: string
  rw_customer_key :: verifying_key
  rw_events :: "WatchEvent list"

definition watch_new :: "string \<Rightarrow> string \<Rightarrow> verifying_key \<Rightarrow> RotationWatch" where
  "watch_new collection_id customer_id customer_key =
     \<lparr>rw_collection_id = collection_id, rw_customer_id = customer_id, rw_customer_key = customer_key,
      rw_events = []\<rparr>"

definition observe :: "ext \<Rightarrow> RotationWatch \<Rightarrow> RootAnnouncement \<Rightarrow> RotationWatch \<times> WatchEvent" where
  "observe X w a =
     (let valid_customer_sig =
            ra_signer_id a = rw_customer_id w \<and>
            verify_message X (rw_customer_key w) (rotate_message (rw_collection_id w) (ra_new_root a))
              (ra_signature a);
          event = (if valid_customer_sig then CustomerInitiated (ra_new_root a) (ra_day a)
                   else Alarm (ra_new_root a) (ra_day a) ''root change not signed by the customer'')
      in (w\<lparr>rw_events := rw_events w @ [event]\<rparr>, event))"

section \<open>rng.rs\<close>

text \<open>The generator's arithmetic is that of \<open>u32\<close>: wrapping sums and products, logical shifts. A
  draw is the word \<open>t\<close> of which the code takes \<open>t / 2^32\<close>.\<close>

definition rng_new :: "ext \<Rightarrow> string \<Rightarrow> 32 word" where
  "rng_new X seed =
     (let d = sha256 X seed;
          b = (\<lambda>i. of_nat (of_char (d ! i)) :: 32 word)
      in b 0 + push_bit 8 (b 1) + push_bit 16 (b 2) + push_bit 24 (b 3))"

definition rng_next :: "32 word \<Rightarrow> 32 word \<times> 32 word" where
  "rng_next state0 =
     (let state = state0 + 0x6d2b79f5;
          t = (state XOR drop_bit 15 state) * (1 OR state);
          t' = (t + (t XOR drop_bit 7 t) * (0x3d OR t)) XOR t
      in (state, t' XOR drop_bit 14 t'))"

text \<open>\<open>(t / 2^32 * n) as usize\<close>. The floating-point product is exact for \<open>n \<le> 2^21\<close> (the 53-bit
  significand holds it), which is the range this definition models.\<close>

definition rng_int :: "32 word \<Rightarrow> usize \<Rightarrow> 32 word \<times> usize" where
  "rng_int state n = (let (s, t) = rng_next state in (s, unat t * n div 2 ^ 32))"

definition swap_at :: "nat \<Rightarrow> nat \<Rightarrow> 'a list \<Rightarrow> 'a list" where
  "swap_at i j xs = xs[i := xs ! j, j := xs ! i]"

text \<open>The loop over \<open>i in 0..count\<close>, with \<open>m\<close> iterations left.\<close>

fun sample_loop :: "nat \<Rightarrow> nat \<Rightarrow> nat \<Rightarrow> 32 word \<Rightarrow> nat list \<Rightarrow> 32 word \<times> nat list" where
  "sample_loop n i 0 s pool = (s, pool)"
| "sample_loop n i (Suc m) s pool =
     (let (s', r) = rng_int s (n - i); j = i + r
      in sample_loop n (Suc i) m s' (swap_at i j pool))"

definition sample_indices :: "32 word \<Rightarrow> usize \<Rightarrow> usize \<Rightarrow> 32 word \<times> usize list" where
  "sample_indices s n k =
     (let count = min k n;
          (s', pool) = sample_loop n 0 count s [0..<n]
      in (s', sort (take count pool)))"

section \<open>audit.rs\<close>

record AuditOutcome =
  ao_sampled :: "string list"
  ao_passed :: bool
  ao_bytes_read :: u64
  ao_failures :: "string list"

definition audit_sample ::
  "ext \<Rightarrow> ManifestLeaf list \<Rightarrow> content_store \<Rightarrow> 32 word \<Rightarrow> usize \<Rightarrow> (32 word \<times> AuditOutcome, unit) result" where
  "audit_sample X leaves st rng k =
     (let (rng', idxs) = sample_indices rng (length leaves) k;
          sampled = map (\<lambda>i. ml_cid (leaves ! i)) idxs;
          failures = filter (\<lambda>cid. \<not> is_ok (retrieve_verified X st cid)) sampled
      in case audit_read_cost st sampled of
           Ok bytes_read \<Rightarrow>
             Ok (rng', \<lparr>ao_sampled = sampled, ao_passed = (failures = []), ao_bytes_read = bytes_read,
                        ao_failures = failures\<rparr>)
         | Err e \<Rightarrow> Err e
         | Panic \<Rightarrow> Panic)"

section \<open>Lemmas: the content store\<close>

lemma retrieve_after_put: "retrieve_verified X (cs_put st (from_bytes X l b)) (sha256_hex X b) = Ok b"
  by (simp add: retrieve_verified_def cs_put_def cs_write_def from_bytes_def update_conv Let_def)

lemma retrieve_verified_Ok: "retrieve_verified X st cid = Ok b \<longleftrightarrow> map_of st cid = Some b \<and> sha256_hex X b = cid"
  by (auto simp: retrieve_verified_def Let_def split: option.splits)

text \<open>What the store returns under a fingerprint is the item that was fingerprinted, whatever was
  written to the store behind its back.\<close>

lemma retrieve_genuine:
  assumes "retrieve_verified X st (sha256_hex X b) = Ok b'" "inj_on (sha256_hex X) {b, b'}"
  shows "b' = b"
  using assms by (auto simp: retrieve_verified_Ok dest: inj_onD)

section \<open>Lemmas: sealing\<close>

lemma sign_seal_verifies:
  assumes "hex_law X" "sign_law X" "length (kp_signing_key kp) = 32"
  shows "seal_verify X (sign_seal X c r d cid kp) (keypair_verifying_key X kp)"
  using verify_message_sign [OF assms] by (simp add: seal_verify_def sign_seal_def)

lemma sealed_write_refused: "writer_write (destroy_credential w) st item = (st, Err Sealed)"
  by (simp add: writer_write_def destroy_credential_def)

lemma tombstone_no_rotation: "rotate_root X (unseal_destroy u) c r d = None"
  by (simp add: rotate_root_def unseal_destroy_def)

lemma observe_rotation:
  assumes "hex_law X" "sign_law X" "length (kp_signing_key kp) = 32"
    and "rotate_root X (unseal_new cust kp) c r d = Some a"
  shows "snd (observe X (watch_new c cust (keypair_verifying_key X kp)) a) = CustomerInitiated r d"
  using assms(4) verify_message_sign [OF assms(1-3)]
  by (auto simp: rotate_root_def unseal_new_def observe_def watch_new_def Let_def)

lemma observe_customer_signed:
  "snd (observe X w a) = CustomerInitiated r d \<Longrightarrow>
     ra_signer_id a = rw_customer_id w \<and> ra_new_root a = r \<and>
     verify_message X (rw_customer_key w) (rotate_message (rw_collection_id w) r) (ra_signature a)"
  by (auto simp: observe_def Let_def split: if_splits)

lemma seal_rotate_disjoint: "seal_message c r \<noteq> rotate_message c' r'"
  by (simp add: seal_message_def rotate_message_def)

section \<open>Lemmas: sampling\<close>

lemma rng_int_less: "0 < n \<Longrightarrow> snd (rng_int s n) < n"
proof -
  assume n: "0 < n"
  obtain s' t where st: "rng_next s = (s', t)" by (cases "rng_next s")
  have "unat t < 2 ^ 32" using unsigned_less [of t] by simp
  then have "unat t * n < n * 2 ^ 32" using n by simp
  then show "snd (rng_int s n) < n" by (simp add: rng_int_def st less_mult_imp_div_less)
qed

lemma mset_swap_at: "i < length xs \<Longrightarrow> j < length xs \<Longrightarrow> mset (swap_at i j xs) = mset xs"
  by (simp add: swap_at_def mset_swap)

lemma length_swap_at [simp]: "length (swap_at i j xs) = length xs"
  by (simp add: swap_at_def)

lemma sample_loop_mset:
  "i + m \<le> n \<Longrightarrow> length pool = n \<Longrightarrow> mset (snd (sample_loop n i m s pool)) = mset pool"
proof (induction m arbitrary: i s pool)
  case (Suc m)
  obtain s' r where r: "rng_int s (n - i) = (s', r)" by (cases "rng_int s (n - i)")
  have "r < n - i" using rng_int_less [of "n - i" s] r Suc.prems(1) by simp
  then have "mset (swap_at i (i + r) pool) = mset pool"
    using Suc.prems by (intro mset_swap_at) auto
  then show ?case using Suc.IH [of "Suc i" "swap_at i (i + r) pool" s'] Suc.prems by (simp add: r)
qed simp

lemma sample_indices_spec:
  assumes "sample_indices s n k = (s', idxs)"
  shows "length idxs = min k n" "sorted idxs" "distinct idxs" "set idxs \<subseteq> {..<n}"
proof -
  obtain s2 pool where p: "sample_loop n 0 (min k n) s [0..<n] = (s2, pool)"
    by (cases "sample_loop n 0 (min k n) s [0..<n]")
  have m: "mset pool = mset [0..<n]" using sample_loop_mset [of 0 "min k n" n "[0..<n]" s] p by simp
  then have len: "length pool = n" by (metis length_upt minus_nat.diff_0 size_mset)
  have dist: "distinct pool" using m by (metis distinct_upt mset_eq_imp_distinct_iff)
  have pset: "set pool = {..<n}" using m by (metis atLeast_upt mset_eq_setD)
  have idxs: "idxs = sort (take (min k n) pool)" using assms p by (simp add: sample_indices_def Let_def)
  show "length idxs = min k n" "sorted idxs" "distinct idxs"
    using len dist by (simp_all add: idxs)
  show "set idxs \<subseteq> {..<n}" using set_take_subset [of "min k n" pool] pset by (simp add: idxs)
qed

lemma audit_sample_positions:
  assumes "audit_sample X leaves st rng k = Ok (rng', out)"
  shows "\<exists>idxs. sample_indices rng (length leaves) k = (rng', idxs) \<and> ao_sampled out = map (\<lambda>i. ml_cid (leaves ! i)) idxs \<and>
    length idxs = min k (length leaves) \<and> sorted idxs \<and> distinct idxs \<and> set idxs \<subseteq> {..<length leaves}"
proof -
  obtain r idxs where i: "sample_indices rng (length leaves) k = (r, idxs)"
    by (cases "sample_indices rng (length leaves) k")
  show ?thesis
    using assms i sample_indices_spec [OF i] by (auto simp: audit_sample_def Let_def split: result.splits)
qed

lemma audit_sample_spec:
  assumes "audit_sample X leaves st rng k = Ok (rng', out)"
  shows "length (ao_sampled out) = min k (length leaves)"
    "set (ao_sampled out) \<subseteq> ml_cid ` set leaves"
    "ao_passed out \<longleftrightarrow> (\<forall>cid \<in> set (ao_sampled out). is_ok (retrieve_verified X st cid))"
    "set (ao_failures out) = {cid \<in> set (ao_sampled out). \<not> is_ok (retrieve_verified X st cid)}"
    "ao_bytes_read out = sum_list (map length (List.map_filter (map_of st) (ao_sampled out)))"
proof -
  obtain r idxs where i: "sample_indices rng (length leaves) k = (r, idxs)"
    by (cases "sample_indices rng (length leaves) k")
  note sp = sample_indices_spec [OF i]
  let ?s = "map (\<lambda>i. ml_cid (leaves ! i)) idxs"
  let ?f = "filter (\<lambda>cid. \<not> is_ok (retrieve_verified X st cid)) ?s"
  obtain b where b: "audit_read_cost st ?s = Ok b"
    and o: "out = \<lparr>ao_sampled = ?s, ao_passed = (?f = []), ao_bytes_read = b, ao_failures = ?f\<rparr>"
    using assms unfolding audit_sample_def i Let_def prod.case by (cases "audit_read_cost st ?s") simp_all
  show "length (ao_sampled out) = min k (length leaves)" using sp(1) o by simp
  show "set (ao_sampled out) \<subseteq> ml_cid ` set leaves" using sp(4) o by auto
  show "ao_passed out \<longleftrightarrow> (\<forall>cid \<in> set (ao_sampled out). is_ok (retrieve_verified X st cid))"
    by (simp add: o filter_empty_conv)
  show "set (ao_failures out) = {cid \<in> set (ao_sampled out). \<not> is_ok (retrieve_verified X st cid)}"
    by (simp add: o)
  show "ao_bytes_read out = sum_list (map length (List.map_filter (map_of st) (ao_sampled out)))"
    using b by (simp add: o audit_read_cost_def Let_def split: if_splits)
qed

end
