(* ===== verification/Gaps.thy ===== *)
theory Gaps
  imports Progress
begin

text \<open>
  Places where a check is weaker than the text beside it says, each as a lemma over the model: a
  subkey that one validator accepts and the next refuses, the text under a manifest's frontier digest,
  the folds of a checkpoint, the clamp of a chain row, a token without an identifier and the search
  for the receipt to countersign.
\<close>

lemma flag_subkey_colon_never_verifies:
  "subkey_valid (Some ''a:b'') \<and> (sa_subkey a = Some ''a:b'' \<longrightarrow> \<not> assertion_verify X a f prior k)"
  by (auto simp: subkey_valid_def MAX_SUBKEY_LEN_def is_ascii_alphanumeric_def is_ascii_lowercase_def assertion_verify_def
      subkey_well_formed_def split: result.splits)

lemma heads_text_ambiguous:
  "heads_text [(''d'', ''x;e=y'')] = heads_text [(''d'', ''x''), (''e'', ''y'')]"
  by (simp add: heads_text_def)

lemma checkpoint_fold_ambiguous:
  "checkpoint_body_fold \<lparr>cp_closing_total = 0, cp_chain_head_hash = ''a;prev_checkpoint=b'', cp_prev_checkpoint = ''c''\<rparr> =
   checkpoint_body_fold \<lparr>cp_closing_total = 0, cp_chain_head_hash = ''a'', cp_prev_checkpoint = ''b;prev_checkpoint=c''\<rparr>"
  by (simp add: checkpoint_body_fold_def)

lemma chain_total_clamped:
  assumes "append_chain_entry st record ack body h = (st', Ok ())" "cc_total body > i64_max"
  shows "\<exists>row \<in> set (s_chain_entry st'). u64_or_zero (ch_total row) = i64_max \<and> u64_or_zero (ch_total row) < cc_total body"
proof -
  have "s_chain_entry (fst (upsert_assertion s r a)) = s_chain_entry s" for s r a
    by (simp add: upsert_assertion_def Let_def split: option.split)
  then show ?thesis
    using assms by (auto simp: append_chain_entry_def insert_chain_row_def u64_or_zero_clamp Let_def
        split: result.splits if_splits)
qed

lemma token_without_jti_not_recorded:
  assumes "verify_service_auth_full N resolve svc now replay jwt lxm = (replay', p, None)"
    and "p \<noteq> Anonymous"
  shows "verify_service_auth_full N resolve svc now replay' jwt lxm = (replay', p, None)"
  using assms
  by (auto simp: verify_service_auth_full_def Let_def split: result.splits option.splits if_splits prod.splits)

lemma receipt_text_cid: "\<exists>a b. render enc (receipt_json r) = a @ enc (JStr (rc_cid (r_core r))) @ b"
proof -
  have "\<exists>b. render enc (core_json (r_core r)) = (''{'' @ enc (JStr ''direction'') @ '':'' @
      render enc (direction_json (rc_direction (r_core r))) @ '','' @ enc (JStr ''cid'') @ '':'') @ enc (JStr (rc_cid (r_core r))) @ b"
    by (simp add: core_json_def core_fields_def)
  then obtain a b where c: "render enc (core_json (r_core r)) = a @ enc (JStr (rc_cid (r_core r))) @ b" by blast
  have "\<exists>e. render enc (receipt_json r) = (''{'' @ enc (JStr ''core'') @ '':'') @ render enc (core_json (r_core r)) @ e"
    by (simp add: receipt_json_def)
  with c show ?thesis by (metis append.assoc)
qed

text \<open>Uploading the bytes a receipt was hashed from makes the newest receipt mention that hash as an
  object's address; the search for the receipt to countersign stops there and reports none.\<close>

lemma countersign_shadowed:
  assumes "s_receipt st = rs @ [(did, r)]" "rc_cid (r_core r) = h" "r_content_hash r \<noteq> h" "CHR ''%'' \<notin> set h"
    and txt_hash: "\<exists>a b. scalar_text X (JStr h) = a @ h @ b"
  shows "countersign_receipt X st did h signer sg = (st, None)"
proof -
  obtain a b a' b' where "render (scalar_text X) (receipt_json r) = a @ (a' @ h @ b') @ b"
    using receipt_text_cid [of "scalar_text X" r] txt_hash assms(2) by metis
  then have "render (scalar_text X) (receipt_json r) = (a @ a') @ h @ (b' @ b)" by simp
  then have like: "sql_like (''%'' @ h @ ''%'') (render (scalar_text X) (receipt_json r))"
    using sql_like_contains [OF assms(4)] by metis
  have "find_last_idx (\<lambda>(d, r). d = did \<and> sql_like (''%'' @ h @ ''%'') (render (scalar_text X) (receipt_json r)))
      (s_receipt st) = Some (length rs)"
    unfolding assms(1) by (rule find_last_idx_snoc) (use like in simp)
  then show ?thesis
    using assms(1,3) by (simp add: countersign_receipt_def Let_def nth_append)
qed

end
