(* ===== verification/Client.thy ===== *)
theory Client
  imports Http
begin

text \<open>
  The HTTP client of \<^verbatim>\<open>ciss-cli/src/client.rs\<close>: the signed session, one function per server call, the
  mapping of statuses to errors and the check of every downloaded body against its address. The \<^verbatim>\<open>reqwest\<close>
  client is the record \<open>http\<close>: what a request does to the other side and what comes back. An \<^verbatim>\<open>anyhow\<close>
  error is its alternate rendering, the contexts and causes joined by colons.
\<close>

section \<open>Requests and answers\<close>

datatype HttpMethod = HGet | HPut | HPost | HDelete

record HttpRequest =
  hq_method :: HttpMethod
  hq_url :: string
  hq_headers :: "(string \<times> string) list"
  hq_body :: bytes

datatype SendError = Unreachable | SendFailed string

text \<open>The body may break off while it is read.\<close>

record Answer =
  an_status :: nat
  an_headers :: "(string \<times> string) list"
  an_body :: "string + bytes"

record 's http =
  ht_send :: "'s \<Rightarrow> HttpRequest \<Rightarrow> 's \<times> (SendError + Answer)"
  ht_json_error :: "bytes \<Rightarrow> string"

type_synonym ('s, 'a) call = "'s \<times> ('a, string) result"

definition EM_DASH :: string where "EM_DASH = [CHR 0xE2, CHR 0x80, CHR 0x94]"

definition header_owned :: "Answer \<Rightarrow> string \<Rightarrow> string option" where
  "header_owned a nm =
     (case map_of (an_headers a) nm of
        Some v \<Rightarrow> if list_all (\<lambda>c. c = CHR 0x09 \<or> 32 \<le> (of_char c :: nat) \<and> (of_char c :: nat) < 127) v then Some v else None
      | None \<Rightarrow> None)"

text \<open>\<open>Value\<close> access as \<^verbatim>\<open>serde_json\<close> has it: indexing what is not there gives null.\<close>

definition value_at :: "json \<Rightarrow> string \<Rightarrow> json" where
  "value_at v k =
     (case to_value v of
        JObj kvs \<Rightarrow> (case map_of kvs k of Some x \<Rightarrow> x | None \<Rightarrow> JNull)
      | _ \<Rightarrow> JNull)"

definition ok_or :: "'e \<Rightarrow> 'a option \<Rightarrow> ('a, 'e) result" where
  "ok_or e v = (case v of Some a \<Rightarrow> Ok a | None \<Rightarrow> Err e)"

definition as_array :: "json \<Rightarrow> json list option" where
  "as_array j = (case j of JArr xs \<Rightarrow> Some xs | _ \<Rightarrow> None)"

definition json_body :: "net \<Rightarrow> 's http \<Rightarrow> (json \<Rightarrow> 'a option) \<Rightarrow> string \<Rightarrow> Answer \<Rightarrow> ('a, string) result" where
  "json_body N H de context_text a =
     (case an_body a of
        Inl e \<Rightarrow> Err (context_text @ '': '' @ e)
      | Inr b \<Rightarrow> ok_or (context_text @ '': '' @ ht_json_error H b) (from_slice N de b))"

definition raw_body :: "string \<Rightarrow> Answer \<Rightarrow> (bytes, string) result" where
  "raw_body context_text a = (case an_body a of Inl e \<Rightarrow> Err (context_text @ '': '' @ e) | Inr b \<Rightarrow> Ok b)"

section \<open>Sessions\<close>

definition CLIENT_CHALLENGE_PREFIX :: string where "CLIENT_CHALLENGE_PREFIX = ''ciss-session/v1/''"

record Session =
  sn_did :: string
  sn_pubkey :: string
  sn_signature :: string

definition session_headers :: "Session \<Rightarrow> (string \<times> string) list" where
  "session_headers sn = [(''x-croft-pubkey'', sn_pubkey sn), (''x-croft-session'', sn_signature sn)]"

definition with_session :: "Session option \<Rightarrow> (string \<times> string) list" where
  "with_session session = (case session of Some sn \<Rightarrow> session_headers sn | None \<Rightarrow> [])"

definition bearer_auth :: "string \<Rightarrow> (string \<times> string) list" where
  "bearer_auth token = [(''authorization'', ''Bearer '' @ token)]"

definition session_for :: "ext \<Rightarrow> Keypair \<Rightarrow> Session" where
  "session_for X keypair =
     (let did = derive_id X (keypair_verifying_key X keypair) in
      \<lparr>sn_did = did, sn_pubkey = public_key_hex X keypair,
       sn_signature = sign_message X keypair (CLIENT_CHALLENGE_PREFIX @ did)\<rparr>)"

section \<open>Results\<close>

record PutResult =
  pr_cid :: string
  pr_bytes :: u64
  pr_receipt_mode :: string
  pr_etag :: "string option"
  pr_receipt_hash :: "string option"

record GetResult =
  gr_bytes :: bytes
  gr_etag :: "string option"

record BlobUpload =
  bu_cid :: string
  bu_cidv1 :: string
  bu_bytes :: u64

record UsageObject =
  uo_cid :: string
  uo_bytes :: u64

record Usage =
  us_objects :: "UsageObject list"
  us_total_bytes :: u64

record MeterView =
  mv_receipt_count :: u64
  mv_upload_bytes :: u64
  mv_download_bytes :: u64
  mv_running_total_bytes :: u64
  mv_postage_cents :: u64
  mv_drawdown_download_bytes :: u64

definition de_usage_object :: "json \<Rightarrow> UsageObject option" where
  "de_usage_object j =
     (case text_fields False [''cid'', ''bytes''] 0 j of
        Some [c, b] \<Rightarrow>
          (case (req de_str c, req de_u64 b) of
             (Some cid, Some n) \<Rightarrow> Some \<lparr>uo_cid = cid, uo_bytes = n\<rparr>
           | _ \<Rightarrow> None)
      | _ \<Rightarrow> None)"

definition de_usage :: "json \<Rightarrow> Usage option" where
  "de_usage j =
     (case text_fields False [''objects'', ''total_bytes''] 0 j of
        Some [os, t] \<Rightarrow>
          (case (req (de_vec de_usage_object) os, req de_u64 t) of
             (Some objects, Some n) \<Rightarrow> Some \<lparr>us_objects = objects, us_total_bytes = n\<rparr>
           | _ \<Rightarrow> None)
      | _ \<Rightarrow> None)"

definition de_meter :: "json \<Rightarrow> MeterView option" where
  "de_meter j =
     (case text_fields False [''receipt_count'', ''upload_bytes'', ''download_bytes'', ''running_total_bytes'',
             ''postage_cents'', ''drawdown_download_bytes''] 0 j of
        Some [c, u, d, r, p, w] \<Rightarrow>
          (case (req de_u64 c, req de_u64 u, req de_u64 d, req de_u64 r, req de_u64 p, req de_u64 w) of
             (Some c, Some u, Some d, Some r, Some p, Some w) \<Rightarrow>
               Some \<lparr>mv_receipt_count = c, mv_upload_bytes = u, mv_download_bytes = d, mv_running_total_bytes = r,
                     mv_postage_cents = p, mv_drawdown_download_bytes = w\<rparr>
           | _ \<Rightarrow> None)
      | _ \<Rightarrow> None)"

section \<open>Errors and addresses\<close>

definition status_hint :: "nat \<Rightarrow> string" where
  "status_hint code =
     (if code = 401 then ''no or invalid credential '' @ EM_DASH @
        '' check your id: key (`ciss-ctl key gen`) or your did: credential/token''
      else if code = 403 then ''forbidden '' @ EM_DASH @ '' bad signature or wrong signer for this namespace''
      else if code = 404 then ''not found, or not visible to you '' @ EM_DASH @
        '' a gated object denies reads without disclosing whether it exists''
      else if code = 409 then ''conflict '' @ EM_DASH @ '' stale seq: the record does not supersede the stored one''
      else ''the server rejected the request'')"

definition hex_upper :: "nat \<Rightarrow> char" where
  "hex_upper n = (if n < 10 then char_of (48 + n) else char_of (55 + n))"

definition unreserved :: "char \<Rightarrow> bool" where
  "unreserved c \<longleftrightarrow> is_ascii_alphanumeric c \<or> c \<in> {CHR ''-'', CHR ''_'', CHR ''.'', CHR ''~''}"

definition enc_byte :: "char \<Rightarrow> string" where
  "enc_byte b = (if unreserved b then [b] else CHR 0x25 # [hex_upper (of_char b div 16), hex_upper (of_char b mod 16)])"

definition enc :: "string \<Rightarrow> string" where
  "enc v = concat (map enc_byte v)"

definition verify_cid :: "ext \<Rightarrow> string \<Rightarrow> bytes \<Rightarrow> (unit, string) result" where
  "verify_cid X expected_cid bs =
     (let actual = sha256_hex X bs in
      if actual = expected_cid then Ok ()
      else Err (''content mismatch: requested '' @ expected_cid @ '', but the '' @ show_nat (length bs) @
             '' bytes received hash to '' @ actual @ '' (corrupt or substituted body '' @ EM_DASH @ '' not written)''))"

section \<open>The client\<close>

record Client = cl_base :: string

definition client_new :: "string \<Rightarrow> Client" where
  "client_new base = \<lparr>cl_base = rev (dropWhile (\<lambda>c. c = CHR ''/'') (rev base))\<rparr>"

definition send :: "Client \<Rightarrow> 's http \<Rightarrow> HttpRequest \<Rightarrow> string \<Rightarrow> 's \<Rightarrow> ('s, Answer) call" where
  "send C H rq action s =
     (case ht_send H s rq of
        (s', Inl Unreachable) \<Rightarrow> (s', Err (action @ '' failed: server unreachable at '' @ cl_base C))
      | (s', Inl (SendFailed e)) \<Rightarrow> (s', Err (action @ '' failed: '' @ e))
      | (s', Inr a) \<Rightarrow> (s', Ok a))"

definition ensure_success :: "Answer \<Rightarrow> string \<Rightarrow> (Answer, string) result" where
  "ensure_success a action =
     (if 200 \<le> an_status a \<and> an_status a < 300 then Ok a
      else
        let code = an_status a;
            body = (case an_body a of Inl _ \<Rightarrow> [] | Inr b \<Rightarrow> utf8_lossy b);
            trimmed = trim body;
            detail = (if trimmed = [] then [] else '' ('' @ trimmed @ '')'')
        in Err (action @ '' failed: HTTP '' @ show_nat code @ '' '' @ EM_DASH @ '' '' @ status_hint code @ detail))"

text \<open>A request and the success check, as every call but the status-returning ones has them.\<close>

definition send_ok :: "Client \<Rightarrow> 's http \<Rightarrow> HttpRequest \<Rightarrow> string \<Rightarrow> 's \<Rightarrow> ('s, Answer) call" where
  "send_ok C H rq action s = sbind (send C H rq action s) (\<lambda>s a. (s, ensure_success a action))"

definition request :: "Client \<Rightarrow> HttpMethod \<Rightarrow> string \<Rightarrow> (string \<times> string) list \<Rightarrow> bytes \<Rightarrow> HttpRequest" where
  "request C hm path headers body = \<lparr>hq_method = hm, hq_url = cl_base C @ path, hq_headers = headers, hq_body = body\<rparr>"

definition put_s3 :: "net \<Rightarrow> 's http \<Rightarrow> Client \<Rightarrow> Session \<Rightarrow> string \<Rightarrow> bytes \<Rightarrow> 's \<Rightarrow> ('s, PutResult) call" where
  "put_s3 N H C session key body s =
     sbind (send_ok C H (request C HPut (''/'' @ sn_did session @ ''/objects/'' @ key) (session_headers session) body) ''upload'' s) (\<lambda>s a.
     sbind (s, json_body N H Some ''parse upload response'' a) (\<lambda>s v.
       (s, result_bind (ok_or ''upload response missing cid'' (de_str (value_at v ''cid''))) (\<lambda>cid.
           result_bind (ok_or ''upload response missing bytes'' (de_u64 (value_at v ''bytes''))) (\<lambda>n.
             Ok \<lparr>pr_cid = cid, pr_bytes = n,
                 pr_receipt_mode = (case de_str (value_at v ''receipt_mode'') of Some m \<Rightarrow> m | None \<Rightarrow> []),
                 pr_etag = header_owned a ''etag'',
                 pr_receipt_hash = de_str (value_at v ''receipt_hash'')\<rparr>)))))"

definition get_s3 :: "ext \<Rightarrow> 's http \<Rightarrow> Client \<Rightarrow> Session option \<Rightarrow> string \<Rightarrow> string \<Rightarrow> 's \<Rightarrow> ('s, GetResult) call" where
  "get_s3 X H C session did cid s =
     sbind (send_ok C H (request C HGet (''/'' @ did @ ''/objects/'' @ cid) (with_session session) []) ''download'' s) (\<lambda>s a.
     sbind (s, raw_body ''read download body'' a) (\<lambda>s bs.
     sbind (s, verify_cid X cid bs) (\<lambda>s _.
       (s, Ok \<lparr>gr_bytes = bs, gr_etag = header_owned a ''etag''\<rparr>))))"

definition get_meter :: "net \<Rightarrow> 's http \<Rightarrow> Client \<Rightarrow> Session \<Rightarrow> 's \<Rightarrow> ('s, MeterView) call" where
  "get_meter N H C session s =
     sbind (send_ok C H (request C HGet (''/'' @ sn_did session @ ''/meter'') (session_headers session) []) ''meter'' s) (\<lambda>s a.
       (s, json_body N H de_meter ''parse meter response'' a))"

definition get_meter_bearer :: "net \<Rightarrow> 's http \<Rightarrow> Client \<Rightarrow> string \<Rightarrow> string \<Rightarrow> 's \<Rightarrow> ('s, MeterView) call" where
  "get_meter_bearer N H C token did s =
     sbind (send_ok C H (request C HGet (''/'' @ did @ ''/meter'') (bearer_auth token) []) ''meter'' s) (\<lambda>s a.
       (s, json_body N H de_meter ''parse meter response'' a))"

text \<open>\<open>cid_text\<close> renders the quoted value and the CID error.\<close>

definition bridge_failed :: "(string \<Rightarrow> CidError \<Rightarrow> string) \<Rightarrow> string \<Rightarrow> string \<Rightarrow> CidError \<Rightarrow> string" where
  "bridge_failed cid_text direction v e =
     ''bridge '' @ direction @ '' failed for '' @ cid_text v e"

definition parse_blob_upload ::
  "ext \<Rightarrow> net \<Rightarrow> (string \<Rightarrow> CidError \<Rightarrow> string) \<Rightarrow> 's http \<Rightarrow> Answer \<Rightarrow> u64 \<Rightarrow> (BlobUpload, string) result" where
  "parse_blob_upload X N cid_text H a fallback_len =
     result_bind (json_body N H Some ''parse uploadBlob response'' a) (\<lambda>v.
     let blob = value_at v ''blob'' in
     result_bind (ok_or ''uploadBlob response missing blob.ref.$link''
         (de_str (value_at (value_at blob ''ref'') ''$link''))) (\<lambda>cidv1.
     let n = (case de_u64 (value_at blob ''size'') of Some n \<Rightarrow> n | None \<Rightarrow> fallback_len) in
     result_bind (map_err (bridge_failed cid_text ''CIDv1 -> sha256 hex'' cidv1) (to_sha256_hex X N cidv1)) (\<lambda>cid.
       Ok \<lparr>bu_cid = cid, bu_cidv1 = cidv1, bu_bytes = n\<rparr>)))"

definition upload_blob_as ::
  "ext \<Rightarrow> net \<Rightarrow> (string \<Rightarrow> CidError \<Rightarrow> string) \<Rightarrow> 's http \<Rightarrow> Client \<Rightarrow> (string \<times> string) list \<Rightarrow> bytes \<Rightarrow> 's \<Rightarrow> ('s, BlobUpload) call" where
  "upload_blob_as X N cid_text H C headers body s =
     sbind (send_ok C H (request C HPost ''/xrpc/com.atproto.repo.uploadBlob'' headers body) ''upload'' s) (\<lambda>s a.
       (s, parse_blob_upload X N cid_text H a (length body)))"

definition client_upload_blob ::
  "ext \<Rightarrow> net \<Rightarrow> (string \<Rightarrow> CidError \<Rightarrow> string) \<Rightarrow> 's http \<Rightarrow> Client \<Rightarrow> Session \<Rightarrow> bytes \<Rightarrow> 's \<Rightarrow> ('s, BlobUpload) call" where
  "client_upload_blob X N cid_text H C session body s = upload_blob_as X N cid_text H C (session_headers session) body s"

definition upload_blob_bearer ::
  "ext \<Rightarrow> net \<Rightarrow> (string \<Rightarrow> CidError \<Rightarrow> string) \<Rightarrow> 's http \<Rightarrow> Client \<Rightarrow> string \<Rightarrow> bytes \<Rightarrow> 's \<Rightarrow> ('s, BlobUpload) call" where
  "upload_blob_bearer X N cid_text H C token body s = upload_blob_as X N cid_text H C (bearer_auth token) body s"

definition discover_service_did :: "net \<Rightarrow> 's http \<Rightarrow> Client \<Rightarrow> 's \<Rightarrow> ('s, string) call" where
  "discover_service_did N H C s =
     sbind (send_ok C H (request C HGet ''/.well-known/did.json'' [] []) ''discover service DID'' s) (\<lambda>s a.
     sbind (s, json_body N H Some ''parse did.json'' a) (\<lambda>s v.
       (s, ok_or ''did.json missing id'' (de_str (value_at v ''id'')))))"

definition get_blob_as ::
  "ext \<Rightarrow> net \<Rightarrow> (string \<Rightarrow> CidError \<Rightarrow> string) \<Rightarrow> 's http \<Rightarrow> Client \<Rightarrow> (string \<times> string) list \<Rightarrow> string \<Rightarrow> string \<Rightarrow> 's \<Rightarrow> ('s, GetResult) call" where
  "get_blob_as X N cid_text H C headers did cid s =
     sbind (s, map_err (bridge_failed cid_text ''sha256 hex -> CIDv1'' cid) (from_sha256_hex X N cid)) (\<lambda>s cidv1.
     sbind (send_ok C H (request C HGet (''/xrpc/com.atproto.sync.getBlob?did='' @ enc did @ ''&cid='' @ enc cidv1) headers [])
         ''download'' s) (\<lambda>s a.
     sbind (s, raw_body ''read getBlob body'' a) (\<lambda>s bs.
     sbind (s, verify_cid X cid bs) (\<lambda>s _.
       (s, Ok \<lparr>gr_bytes = bs, gr_etag = None\<rparr>)))))"

definition client_get_blob ::
  "ext \<Rightarrow> net \<Rightarrow> (string \<Rightarrow> CidError \<Rightarrow> string) \<Rightarrow> 's http \<Rightarrow> Client \<Rightarrow> Session option \<Rightarrow> string \<Rightarrow> string \<Rightarrow> 's \<Rightarrow> ('s, GetResult) call" where
  "client_get_blob X N cid_text H C session did cid s = get_blob_as X N cid_text H C (with_session session) did cid s"

definition get_blob_bearer ::
  "ext \<Rightarrow> net \<Rightarrow> (string \<Rightarrow> CidError \<Rightarrow> string) \<Rightarrow> 's http \<Rightarrow> Client \<Rightarrow> string \<Rightarrow> string \<Rightarrow> string \<Rightarrow> 's \<Rightarrow> ('s, GetResult) call" where
  "get_blob_bearer X N cid_text H C did cid token s = get_blob_as X N cid_text H C (bearer_auth token) did cid s"

definition list_blobs_path :: "string \<Rightarrow> string" where
  "list_blobs_path did = ''/xrpc/com.atproto.sync.listBlobs?did='' @ enc did"

fun parse_cids :: "ext \<Rightarrow> net \<Rightarrow> (string \<Rightarrow> CidError \<Rightarrow> string) \<Rightarrow> json list \<Rightarrow> (string list, string) result" where
  "parse_cids X N cid_text [] = Ok []"
| "parse_cids X N cid_text (c # cs) =
     result_bind (ok_or ''cid entry is not a string'' (de_str c)) (\<lambda>link.
     result_bind (map_err (bridge_failed cid_text ''CIDv1 -> sha256 hex'' link) (to_sha256_hex X N link)) (\<lambda>h.
     result_bind (parse_cids X N cid_text cs) (\<lambda>hs. Ok (h # hs))))"

definition parse_cid_list :: "ext \<Rightarrow> net \<Rightarrow> (string \<Rightarrow> CidError \<Rightarrow> string) \<Rightarrow> 's http \<Rightarrow> Answer \<Rightarrow> (string list, string) result" where
  "parse_cid_list X N cid_text H a =
     result_bind (json_body N H Some ''parse listBlobs response'' a) (\<lambda>v.
     result_bind (ok_or ''listBlobs response missing cids array'' (as_array (value_at v ''cids''))) (parse_cids X N cid_text))"

definition client_list_blobs ::
  "ext \<Rightarrow> net \<Rightarrow> (string \<Rightarrow> CidError \<Rightarrow> string) \<Rightarrow> 's http \<Rightarrow> Client \<Rightarrow> Session option \<Rightarrow> string \<Rightarrow> 's \<Rightarrow> ('s, string list) call" where
  "client_list_blobs X N cid_text H C session did s =
     sbind (send_ok C H (request C HGet (list_blobs_path did) (with_session session) []) ''list'' s) (\<lambda>s a.
       (s, parse_cid_list X N cid_text H a))"

definition list_blobs_bearer ::
  "ext \<Rightarrow> net \<Rightarrow> (string \<Rightarrow> CidError \<Rightarrow> string) \<Rightarrow> 's http \<Rightarrow> Client \<Rightarrow> string \<Rightarrow> string \<Rightarrow> 's \<Rightarrow> ('s, string list) call" where
  "list_blobs_bearer X N cid_text H C token did s =
     sbind (send_ok C H (request C HGet (list_blobs_path did) (bearer_auth token) []) ''list'' s) (\<lambda>s a.
       (s, parse_cid_list X N cid_text H a))"

text \<open>\<open>json!(\<dots>).to_string()\<close> writes the members sorted by key.\<close>

definition client_countersign ::
  "ext \<Rightarrow> net \<Rightarrow> 's http \<Rightarrow> Client \<Rightarrow> Session \<Rightarrow> string \<Rightarrow> string \<Rightarrow> string \<Rightarrow> 's \<Rightarrow> ('s, json) call" where
  "client_countersign X N H C session did receipt_hash sg s =
     sbind (send_ok C H (request C HPost (''/'' @ did @ ''/receipt/'' @ receipt_hash @ ''/countersign'') []
         (render (scalar_text X) (to_value (JObj [(''signer'', JStr (sn_pubkey session)), (''sig'', JStr sg)]))))
         ''countersign receipt'' s) (\<lambda>s a.
       (s, json_body N H Some ''parse countersigned receipt'' a))"

definition assertion_path :: "string \<Rightarrow> string \<Rightarrow> string option \<Rightarrow> string" where
  "assertion_path did kind subkey =
     (case subkey of
        None \<Rightarrow> ''/'' @ did @ ''/assertion/'' @ kind
      | Some sk \<Rightarrow> ''/'' @ did @ ''/assertion/'' @ kind @ ''/'' @ sk)"

definition client_put_assertion ::
  "net \<Rightarrow> 's http \<Rightarrow> Client \<Rightarrow> string \<Rightarrow> string \<Rightarrow> string option \<Rightarrow> bytes \<Rightarrow> 's \<Rightarrow> ('s, u64 \<times> json) call" where
  "client_put_assertion N H C did kind subkey record_json s =
     sbind (send_ok C H (request C HPut (assertion_path did kind subkey) [] record_json) ''put assertion'' s) (\<lambda>s a.
     sbind (s, json_body N H Some ''parse assertion response'' a) (\<lambda>s v.
       (s, result_bind (ok_or ''assertion response missing seq'' (de_u64 (value_at v ''seq''))) (\<lambda>n.
             Ok (n, value_at v ''ack'')))))"

text \<open>A read that takes 404 for absence.\<close>

definition get_optional ::
  "net \<Rightarrow> 's http \<Rightarrow> Client \<Rightarrow> (json \<Rightarrow> 'a option) \<Rightarrow> string \<Rightarrow> (string \<times> string) list \<Rightarrow> string \<Rightarrow> string \<Rightarrow> 's \<Rightarrow> ('s, 'a option) call" where
  "get_optional N H C de path headers action context_text s =
     sbind (send C H (request C HGet path headers []) action s) (\<lambda>s a.
       if an_status a = 404 then (s, Ok None)
       else (s, result_bind (ensure_success a action) (\<lambda>a.
              result_bind (json_body N H de context_text a) (\<lambda>v. Ok (Some v)))))"

definition client_get_assertion ::
  "net \<Rightarrow> 's http \<Rightarrow> Client \<Rightarrow> Session option \<Rightarrow> string \<Rightarrow> string \<Rightarrow> string option \<Rightarrow> 's \<Rightarrow> ('s, json option) call" where
  "client_get_assertion N H C session did kind subkey s =
     get_optional N H C Some (assertion_path did kind subkey) (with_session session) ''get assertion'' ''parse assertion body'' s"

definition client_delete_assertion ::
  "'s http \<Rightarrow> Client \<Rightarrow> Session option \<Rightarrow> string \<Rightarrow> string \<Rightarrow> string option \<Rightarrow> 's \<Rightarrow> ('s, nat) call" where
  "client_delete_assertion H C session did kind subkey s =
     sbind (send C H (request C HDelete (assertion_path did kind subkey) (with_session session) []) ''delete assertion'' s) (\<lambda>s a.
       (s, Ok (an_status a)))"

definition client_list_assertions ::
  "net \<Rightarrow> 's http \<Rightarrow> Client \<Rightarrow> Session option \<Rightarrow> string \<Rightarrow> string \<Rightarrow> 's \<Rightarrow> ('s, nat \<times> string list) call" where
  "client_list_assertions N H C session did kind s =
     sbind (send C H (request C HGet (''/'' @ did @ ''/assertions/'' @ kind) (with_session session) []) ''list assertions'' s) (\<lambda>s a.
       if an_status a \<noteq> 200 then (s, Ok (an_status a, []))
       else (s, result_bind (json_body N H Some ''parse subkey list'' a) (\<lambda>v.
              Ok (an_status a, case as_array (value_at v ''subkeys'') of
                                 Some xs \<Rightarrow> List.map_filter de_str xs
                               | None \<Rightarrow> []))))"

definition client_get_chain ::
  "net \<Rightarrow> 's http \<Rightarrow> Client \<Rightarrow> Session option \<Rightarrow> string \<Rightarrow> string \<Rightarrow> string \<Rightarrow> 's \<Rightarrow> ('s, json) call" where
  "client_get_chain N H C session did kind subkey s =
     sbind (send_ok C H (request C HGet (assertion_path did kind (Some subkey) @ ''?chain=1'') (with_session session) []) ''get chain'' s) (\<lambda>s a.
       (s, json_body N H Some ''parse chain'' a))"

definition client_compact_chain ::
  "'s http \<Rightarrow> Client \<Rightarrow> Session option \<Rightarrow> string \<Rightarrow> string \<Rightarrow> string \<Rightarrow> 's \<Rightarrow> ('s, nat) call" where
  "client_compact_chain H C session did kind subkey s =
     sbind (send C H (request C HPost (assertion_path did kind (Some subkey) @ ''/compact'') (with_session session) []) ''compact chain'' s) (\<lambda>s a.
       (s, Ok (an_status a)))"

definition put_policy_as ::
  "net \<Rightarrow> 's http \<Rightarrow> Client \<Rightarrow> (string \<times> string) list \<Rightarrow> string \<Rightarrow> string \<Rightarrow> bytes \<Rightarrow> 's \<Rightarrow> ('s, u64) call" where
  "put_policy_as N H C headers did cid body s =
     sbind (send_ok C H (request C HPut (''/'' @ did @ ''/assertion/policy/'' @ cid) headers body) ''set policy'' s) (\<lambda>s a.
     sbind (s, json_body N H Some ''parse policy response'' a) (\<lambda>s v.
       (s, ok_or ''policy response missing seq'' (de_u64 (value_at v ''seq'')))))"

definition put_object_policy :: "net \<Rightarrow> 's http \<Rightarrow> Client \<Rightarrow> string \<Rightarrow> string \<Rightarrow> bytes \<Rightarrow> 's \<Rightarrow> ('s, u64) call" where
  "put_object_policy N H C did cid record_json s = put_policy_as N H C [] did cid record_json s"

definition put_object_policy_intent ::
  "net \<Rightarrow> 's http \<Rightarrow> Client \<Rightarrow> string \<Rightarrow> string \<Rightarrow> bytes \<Rightarrow> string \<Rightarrow> 's \<Rightarrow> ('s, u64) call" where
  "put_object_policy_intent N H C did cid intent_json token s = put_policy_as N H C (bearer_auth token) did cid intent_json s"

definition get_object_policy ::
  "net \<Rightarrow> 's http \<Rightarrow> Client \<Rightarrow> Session option \<Rightarrow> string \<Rightarrow> string \<Rightarrow> 's \<Rightarrow> ('s, json option) call" where
  "get_object_policy N H C session did cid s =
     get_optional N H C Some (''/'' @ did @ ''/assertion/policy/'' @ cid) (with_session session) ''get policy'' ''parse policy body'' s"

definition get_object_policy_bearer ::
  "net \<Rightarrow> 's http \<Rightarrow> Client \<Rightarrow> string \<Rightarrow> string \<Rightarrow> string \<Rightarrow> 's \<Rightarrow> ('s, json option) call" where
  "get_object_policy_bearer N H C did cid token s =
     get_optional N H C Some (''/'' @ did @ ''/assertion/policy/'' @ cid) (bearer_auth token) ''get policy'' ''parse policy body'' s"

definition client_du :: "net \<Rightarrow> 's http \<Rightarrow> Client \<Rightarrow> Session option \<Rightarrow> string \<Rightarrow> 's \<Rightarrow> ('s, Usage) call" where
  "client_du N H C session did s =
     sbind (send_ok C H (request C HGet (''/'' @ did @ ''/du'') (with_session session) []) ''du'' s) (\<lambda>s a.
       (s, json_body N H de_usage ''parse du response'' a))"

definition du_bearer :: "net \<Rightarrow> 's http \<Rightarrow> Client \<Rightarrow> string \<Rightarrow> string \<Rightarrow> 's \<Rightarrow> ('s, Usage) call" where
  "du_bearer N H C token did s =
     sbind (send_ok C H (request C HGet (''/'' @ did @ ''/du'') (bearer_auth token) []) ''du'' s) (\<lambda>s a.
       (s, json_body N H de_usage ''parse du response'' a))"

definition client_put_manifest :: "ext \<Rightarrow> 's http \<Rightarrow> Client \<Rightarrow> Session \<Rightarrow> Manifest \<Rightarrow> 's \<Rightarrow> ('s, unit) call" where
  "client_put_manifest X H C session manifest s =
     sbind (send_ok C H (request C HPut (''/'' @ sn_did session @ ''/manifest'') [(''x-croft-pubkey'', sn_pubkey session)]
         (render (scalar_text X) (manifest_json manifest))) ''manifest commit'' s) (\<lambda>s _. (s, Ok ()))"

definition client_get_manifest :: "net \<Rightarrow> 's http \<Rightarrow> Client \<Rightarrow> string \<Rightarrow> 's \<Rightarrow> ('s, Manifest option) call" where
  "client_get_manifest N H C did s =
     get_optional N H C de_manifest (''/'' @ did @ ''/manifest'') [] ''manifest fetch'' ''parse manifest response'' s"

section \<open>Lemmas\<close>

text \<open>The credential the client builds is the one the server accepts.\<close>

lemma session_accepted:
  assumes "hex_law X" "key_law X" "sign_law X" "length (kp_signing_key kp) = 32"
  shows "authenticate X (map_of (session_headers (session_for X kp))) = Authenticated (sn_did (session_for X kp))"
  unfolding authenticate_iff
  using assms
  by (intro exI [of _ "public_key_hex X kp"] exI [of _ "sn_signature (session_for X kp)"] exI [of _ "keypair_verifying_key X kp"])
    (simp add: session_headers_def session_for_def Let_def PUBKEY_HEADER_def SESSION_HEADER_def public_key_from_hex_def public_key_hex_def
      hex_law_def key_law_def sign_law_def keypair_verifying_key_def PUBLIC_KEY_LEN_def verify_message_def sign_message_def
      CLIENT_CHALLENGE_PREFIX_def SESSION_CHALLENGE_PREFIX_def)

text \<open>No downloaded body is trusted before it hashes to the address asked for, whoever answered.\<close>

lemma verify_cid_Ok: "verify_cid X cid bs = Ok u \<longleftrightarrow> sha256_hex X bs = cid"
  by (simp add: verify_cid_def Let_def)

lemma get_s3_verified: "get_s3 X H C session did cid s = (s', Ok g) \<Longrightarrow> sha256_hex X (gr_bytes g) = cid"
  by (auto simp: get_s3_def sbind_def verify_cid_Ok split: prod.splits result.splits)

lemma get_blob_verified: "get_blob_as X N ct H C headers did cid s = (s', Ok g) \<Longrightarrow> sha256_hex X (gr_bytes g) = cid"
  by (auto simp: get_blob_as_def sbind_def verify_cid_Ok split: prod.splits result.splits)

text \<open>Percent-encoding is injective and leaves no character a query string gives a meaning to.\<close>

lemma of_hex_upper: "n < 16 \<Longrightarrow> of_char (hex_upper n) = (if n < 10 then 48 + n else 55 + n)"
  by (simp add: hex_upper_def)

lemma hex_upper_plain: "n < 16 \<Longrightarrow> unreserved (hex_upper n)"
  by (auto simp: unreserved_def is_ascii_alphanumeric_def is_digit_def is_ascii_uppercase_def of_hex_upper)

lemma hex_upper_inject: "m < 16 \<Longrightarrow> n < 16 \<Longrightarrow> hex_upper m = hex_upper n \<longleftrightarrow> m = n"
proof
  assume b: "m < 16" "n < 16" and e: "hex_upper m = hex_upper n"
  have "of_char (hex_upper m) = (of_char (hex_upper n) :: nat)" by (simp only: e)
  then show "m = n" using b by (simp only: of_hex_upper) (simp split: if_splits)
qed simp

lemma nibbles: "of_char c div 16 < (16::nat)" "of_char c mod 16 < (16::nat)"
  using nat_of_char_less_256 [of c] by (simp_all add: div_less_iff_less_mult del: nat_of_char_less_256)

lemma percent_reserved: "\<not> unreserved (CHR 0x25)"
  by (simp add: unreserved_def is_ascii_alphanumeric_def is_digit_def is_ascii_uppercase_def is_ascii_lowercase_def)

lemma enc_alphabet: "c \<in> set (enc v) \<Longrightarrow> unreserved c \<or> c = CHR 0x25"
proof -
  show "c \<in> set (enc v) \<Longrightarrow> unreserved c \<or> c = CHR 0x25"
    by (auto simp: enc_def enc_byte_def hex_upper_plain nibbles split: if_splits)
qed

lemma enc_byte_prefix: "enc_byte a @ x = enc_byte b @ y \<Longrightarrow> a = b \<and> x = y"
proof -
  assume e: "enc_byte a @ x = enc_byte b @ y"
  have "a = b" if "of_char a div 16 = (of_char b div 16 :: nat)" "of_char a mod 16 = (of_char b mod 16 :: nat)"
  proof -
    have "of_char a = (of_char b :: nat)" using that by (metis div_mult_mod_eq)
    then show ?thesis by simp
  qed
  then show ?thesis
    using e percent_reserved by (auto simp: enc_byte_def hex_upper_inject nibbles split: if_splits)
qed

lemma enc_inject: "enc v = enc w \<longleftrightarrow> v = w"
proof
  show "v = w" if "enc v = enc w"
    using that
  proof (induction v arbitrary: w)
    case Nil
    then show ?case by (cases w) (auto simp: enc_def enc_byte_def split: if_splits)
  next
    case (Cons a v)
    then obtain b w' where w: "w = b # w'" by (cases w) (auto simp: enc_def enc_byte_def split: if_splits)
    show ?case using enc_byte_prefix [of a "enc v" b "enc w'"] Cons by (auto simp: enc_def w)
  qed
qed simp

end
