(* ===== verification/Custody.thy ===== *)
theory Custody
  imports Runs
begin

text \<open>
  Custody: what a signed upload receipt is worth. In every state a run reaches, each object a tenant's
  ledger says was uploaded is in the backend, under the digest of its bytes, whatever requests, faults of
  the file system and refusals came in between; and no request takes an object away.
\<close>

fun blob_node :: "blobs \<Rightarrow> string \<Rightarrow> string \<Rightarrow> fs_node option" where
  "blob_node (MemoryBlobs m) d c = map_option RegularFile (m (d, c))"
| "blob_node (FsBlobs f) d c = fs_files f (permanent_path f d c)"

definition clean_backend :: "ext \<Rightarrow> blobs \<Rightarrow> bool" where
  "clean_backend X b \<longleftrightarrow> (\<forall>d c n. blob_node b d c = Some n \<longrightarrow> (\<exists>bs. n = RegularFile bs \<and> sha256_hex X bs = c))"

definition uploaded :: "Store \<Rightarrow> string \<Rightarrow> string set" where
  "uploaded st d = rc_cid ` {c \<in> set (ledger_cores st d). rc_direction c = Upload}"

definition stored_objects :: "blobs \<Rightarrow> string \<Rightarrow> string set" where
  "stored_objects b d = {c. blob_node b d c \<noteq> None}"

definition custody :: "ext \<Rightarrow> AppState \<Rightarrow> bool" where
  "custody X s \<longleftrightarrow> clean_backend X (as_blobs s) \<and> (\<forall>d. uploaded (as_store s) d \<subseteq> stored_objects (as_blobs s) d)"

lemma blobs_put_node:
  assumes "blobs_put b d c bs = (b', r)"
  shows "blob_node b' d' c' = blob_node b d' c' \<or> (d', c') = (d, c) \<and> blob_node b' d' c' = Some (RegularFile bs)"
    "r = Ok n \<Longrightarrow> blob_node b' d c \<noteq> None"
proof -
  have "(blob_node b' d' c' = blob_node b d' c' \<or> (d', c') = (d, c) \<and> blob_node b' d' c' = Some (RegularFile bs)) \<and>
    (r = Ok n \<longrightarrow> blob_node b' d c \<noteq> None)"
  proof (cases b)
    case (MemoryBlobs m)
    then show ?thesis using assms by (auto simp: mem_put_def split: if_splits)
  next
    case (FsBlobs f)
    then obtain f' where f: "fs_put f d c bs = (f', r)" "b' = FsBlobs f'" using assms by (auto split: prod.splits)
    have root: "permanent_path f' = permanent_path f"
      using fs_put_cases [OF f(1)] by (auto simp: permanent_path_def fun_eq_iff)
    show ?thesis
      using fs_put_cases [OF f(1)] FsBlobs f(2) root by (cases r; cases "(d', c') = (d, c)") (auto simp: path_exists_def split: if_splits)
  qed
  then show "blob_node b' d' c' = blob_node b d' c' \<or> (d', c') = (d, c) \<and> blob_node b' d' c' = Some (RegularFile bs)"
    "r = Ok n \<Longrightarrow> blob_node b' d c \<noteq> None" by auto
qed

lemma blobs_put_stored: "blobs_put b d c bs = (b', r) \<Longrightarrow> stored_objects b e \<subseteq> stored_objects b' e"
  using blobs_put_node(1) unfolding stored_objects_def by (metis (mono_tags, lifting) Collect_mono option.distinct(1))

lemma blobs_put_clean:
  assumes "blobs_put b d (sha256_hex X bs) bs = (b', r)" "clean_backend X b"
  shows "clean_backend X b'"
  unfolding clean_backend_def
proof (intro allI impI)
  fix d' c' n assume n: "blob_node b' d' c' = Some n"
  show "\<exists>bs. n = RegularFile bs \<and> sha256_hex X bs = c'"
    using blobs_put_node(1) [OF assms(1), of d' c'] n assms(2) unfolding clean_backend_def by auto
qed

lemma transfer_receipt_core:
  "transfer_receipt X s dir did cid n = Ok r \<Longrightarrow> rc_direction (r_core r) = dir \<and> rc_cid (r_core r) = cid"
  by (auto simp: transfer_receipt_def Let_def result_bind_Ok receipt_core_new_def build_boundary_receipt_def
      make_unilateral_receipt_def split: option.splits if_splits ReceiptMode.splits)

lemma append_receipt_cores_le:
  "set (ledger_cores (fst (append_receipt st did r)) d) \<subseteq> set (ledger_cores st d) \<union> (if d = did then {r_core r} else {})"
proof -
  have ens: "s_receipt st1 = s_receipt st" if "ensure_total_row st did = Ok st1" for st1
    using that by (auto simp: ensure_total_row_def split: option.splits result.splits if_splits)
  then have "s_receipt (fst (append_receipt st did r)) \<in> {s_receipt st, s_receipt st @ [(did, r)]}"
    by (auto simp: append_receipt_def update_total_row_def Let_def split: result.splits)
  then show ?thesis by (auto simp: ledger_cores_def load_receipts_def)
qed

lemma append_upload: "uploaded (fst (append_receipt st did r)) d \<subseteq> uploaded st d \<union> (if d = did then {rc_cid (r_core r)} else {})"
  using append_receipt_cores_le [of st did r d] unfolding uploaded_def by (auto split: if_splits)

lemma append_download: "rc_direction (r_core r) = Download \<Longrightarrow> uploaded (fst (append_receipt st did r)) d \<subseteq> uploaded st d"
  using append_receipt_cores_le [of st did r d] unfolding uploaded_def by (fastforce split: if_splits)

lemma uploaded_cong: "s_receipt st' = s_receipt st \<Longrightarrow> uploaded st' d = uploaded st d"
  by (simp add: uploaded_def ledger_cores_def load_receipts_def)

lemma uploaded_countersign: "uploaded (fst (countersign_receipt X st did h signer sg)) d = uploaded st d"
  unfolding uploaded_def
  using ledger_cores_cong [OF countersign_receipt_core(1) [of X st did h signer sg, OF prod.collapse [symmetric]]] by simp

interpretation upload_tables: table_invariant "\<lambda>st. \<forall>d. uploaded st d \<subseteq> K d" "\<lambda>_. True" for K
  by unfold_locales (simp_all add: uploaded_countersign uploaded_cong [OF ledger_tables(1)] uploaded_cong [OF ledger_tables(3)]
    uploaded_cong [OF ledger_tables(7)] uploaded_cong [OF ledger_tables(9)] uploaded_cong [OF ledger_tables(11)]
    uploaded_cong [OF ledger_tables(13)] uploaded_cong [OF ledger_tables(15)])

lemma stored_bytes_keep_receipts: "s_receipt (fst (add_stored_bytes st did n)) = s_receipt st"
  by (auto simp: add_stored_bytes_def ensure_total_row_def update_total_row_def Let_def split: option.splits result.splits if_splits)

lemma put_object_custody:
  assumes "custody X s"
  shows "custody X (fst (op_put_object X s did key bs))"
proof -
  let ?c = "sha256_hex X bs"
  obtain b e where b: "blobs_put (as_blobs s) did ?c bs = (b, e)" by fastforce
  define s1 where "s1 = s\<lparr>as_blobs := b\<rparr>"
  have c1: "custody X s1"
    using assms blobs_put_clean [OF b] blobs_put_stored [OF b] unfolding custody_def s1_def by (auto intro: subset_trans)
  have tail: "custody X (fst (sbind (if f then on_store s1 (add_stored_bytes (as_store s1) did n) else (s1, Ok ())) (\<lambda>s _.
        sbind (on_store s (append_receipt (as_store s) did r)) (\<lambda>s _. (s, Ok (g r))))))"
    if e: "e = Ok n'" and r: "rc_cid (r_core r) = ?c" for f n n' r g
  proof -
    have node: "?c \<in> stored_objects b did" using blobs_put_node(2) [OF b e] by (simp add: stored_objects_def)
    define Q where "Q = (\<lambda>s. custody X s \<and> as_blobs s = b)"
    have app: "Q (s2\<lparr>as_store := fst (append_receipt (as_store s2) did r)\<rparr>)" if "Q s2" for s2
    proof -
      have "uploaded (fst (append_receipt (as_store s2) did r)) d \<subseteq> stored_objects b d" for d
        using append_upload [of "as_store s2" did r d] that node r unfolding Q_def custody_def by (cases "d = did") auto
      then show ?thesis using that by (auto simp: Q_def custody_def)
    qed
    have first: "Q (fst (if f then on_store s1 (add_stored_bytes (as_store s1) did n) else (s1, Ok ())))"
      using c1 by (cases f) (simp_all add: Q_def s1_def custody_def uploaded_cong [OF stored_bytes_keep_receipts])
    have second: "Q (fst (sbind (on_store s2 (append_receipt (as_store s2) did r)) (\<lambda>s _. (s, Ok (g r)))))" if "Q s2" for s2
      by (rule sbind_inv [where P = Q]) (use app [OF that] in simp_all)
    have "Q (fst (sbind (if f then on_store s1 (add_stored_bytes (as_store s1) did n) else (s1, Ok ())) (\<lambda>s _.
        sbind (on_store s (append_receipt (as_store s) did r)) (\<lambda>s _. (s, Ok (g r))))))"
      by (rule sbind_inv [where P = Q, OF first]) (rule second)
    then show ?thesis by (simp add: Q_def)
  qed
  show ?thesis
  proof (cases e)
    case (Ok n)
    have main: "custody X (fst (if n \<noteq> length bs then (s1, Err z)
      else sbind (s1, transfer_receipt X s1 Upload did ?c (length bs)) (\<lambda>s receipt.
        sbind (if f then on_store s (add_stored_bytes (as_store s) did (length bs)) else (s, Ok ())) (\<lambda>s _.
        sbind (on_store s (append_receipt (as_store s) did receipt)) (\<lambda>s _. (s, Ok (g receipt)))))))" for z f and g :: "Receipt \<Rightarrow> OpOutcome"
    proof (cases "n = length bs")
      case True
      show ?thesis
        unfolding if_not_P [OF not_not [THEN iffD2, OF True]]
        by (intro sbind_pure_inv [where P = "custody X"] c1 tail [OF Ok]) (use transfer_receipt_core in blast)
    qed (use c1 in simp)
    have third: "custody X (fst (sbind (case blobs_put (as_blobs s) did ?c bs of (b, r) \<Rightarrow> (s\<lparr>as_blobs := b\<rparr>, map_err SeBlob r)) (\<lambda>s written.
      if written \<noteq> length bs then (s, Err (ByteCountMismatch (length bs) written))
      else sbind (s, transfer_receipt X s Upload did ?c (length bs)) (\<lambda>s receipt.
        sbind (if f then on_store s (add_stored_bytes (as_store s) did (length bs)) else (s, Ok ())) (\<lambda>s _.
        sbind (on_store s (append_receipt (as_store s) did receipt)) (\<lambda>s _.
          (s, Ok (Stored ?c (length bs) (r_mode receipt) (r_content_hash receipt)))))))))" for f
      unfolding b prod.case Ok map_err.simps s1_def [symmetric] sbind_simps by (rule main)
    show ?thesis
      unfolding op_put_object_def Let_def by (intro sbind_pure_inv [where P = "custody X"] assms third)
  qed (unfold op_put_object_def Let_def, (intro sbind_pure_inv [where P = "custody X"] assms; use c1 b in \<open>simp add: s1_def\<close>)+)
qed

lemma get_object_custody: "custody X s \<Longrightarrow> custody X (fst (op_get_object X s did cid))"
proof -
  assume c: "custody X s"
  have app: "custody X (fst (on_store s (append_receipt (as_store s) did r)))" if "transfer_receipt X s Download did cid n = Ok r" for r n
  proof -
    have "uploaded (fst (append_receipt (as_store s) did r)) d \<subseteq> uploaded (as_store s) d" for d
      using append_download transfer_receipt_core [OF that] by blast
    then show ?thesis using c by (auto simp: custody_def)
  qed
  show ?thesis
    unfolding op_get_object_def Let_def
    by (intro sbind_pure_inv [where P = "custody X"] c) (auto intro!: sbind_pure_inv [where P = "custody X"] sbind_inv [where P = "custody X"] app c)
qed

lemma dispatch_custody:
  assumes "custody X s" "dispatch X N micros s who oper = (s', r)"
  shows "custody X s'"
  using assms(2)
proof (cases rule: dispatch_cases)
  case (ran s1 r1)
  have "custody X (fst (dispatch_op X N s who oper))"
  proof (cases "(\<exists>did key bs. oper = PutObject did key bs) \<or> (\<exists>did cid. oper = GetObject did cid)")
    case True
    then show ?thesis using put_object_custody [OF assms(1)] get_object_custody [OF assms(1)] by auto
  next
    case False
    then have "as_blobs (fst (dispatch_op X N s who oper)) = as_blobs s" using store_only [of oper X N s who] by auto
    moreover have "\<forall>d. uploaded (as_store (fst (dispatch_op X N s who oper))) d \<subseteq> stored_objects (as_blobs s) d"
      by (rule upload_tables.tabled_ops) (use assms(1) False in \<open>auto simp: custody_def\<close>)
    ultimately show ?thesis using assms(1) by (simp add: custody_def)
  qed
  then show ?thesis using ran(3-5) by (simp add: custody_def)
qed (use assms(1) in simp)

interpretation custody_run: state_invariant X N "custody X" for X N
proof unfold_locales
  show "custody X s'" if "custody X s" "dispatch X N micros s who oper = (s', r)" for s s' micros who oper r
    using that by (rule dispatch_custody)
qed (simp_all add: flush_compute_def custody_def uploaded_cong [OF compute_usage_tables(1)])

text \<open>No step takes an object or an upload receipt away.\<close>

definition still_held :: "string set \<Rightarrow> string \<Rightarrow> AppState \<Rightarrow> bool" where
  "still_held K d s \<longleftrightarrow> K \<subseteq> stored_objects (as_blobs s) d"

lemma dispatch_still_held:
  assumes "still_held K d s" "dispatch X N micros s who oper = (s', r)"
  shows "still_held K d s'"
  using assms(2)
proof (cases rule: dispatch_cases)
  case (ran s1 r1)
  have "stored_objects (as_blobs s) d \<subseteq> stored_objects (as_blobs s1) d"
  proof (cases "\<exists>did key bs. oper = PutObject did key bs")
    case True
    then obtain did key bs where o: "oper = PutObject did key bs" by blast
    obtain b e where b: "blobs_put (as_blobs s) did (sha256_hex X bs) bs = (b, e)" by fastforce
    have "as_blobs s1 = as_blobs s \<or> as_blobs s1 = b"
      using put_object_blobs [of X s did key bs] ran(3) o b by auto
    then show ?thesis using blobs_put_stored [OF b] by auto
  next
    case False
    then show ?thesis using store_only [of oper X N s who] ran(3) by auto
  qed
  then show ?thesis using assms(1) ran(5) by (auto simp: still_held_def)
qed (use assms(1) in simp)

interpretation held_run: state_invariant X N "still_held K d" for X N K d
proof unfold_locales
  show "still_held K d s'" if "still_held K d s" "dispatch X N micros s who oper = (s', r)" for s s' micros who oper r
    using that by (rule dispatch_still_held)
qed (simp_all add: flush_compute_def still_held_def)

end
