(* ===== verification/Sync_Data.thy ===== *)
theory Sync_Data
  imports Crypto Btree
begin

text \<open>
  The data of the sync engine, crate \<^verbatim>\<open>ciss-sync\<close>: \<^verbatim>\<open>error.rs\<close>, \<^verbatim>\<open>chunk.rs\<close> (content-defined chunks with
  two addresses), \<^verbatim>\<open>manifest.rs\<close> (the tree of a device) and \<^verbatim>\<open>device_head.rs\<close> (a device's signed commit).
  The chunk cutter, BLAKE3 and the CBOR codec are third-party crates, fields of the record \<open>sync_ext\<close>;
  a codec failure carries the text of its error.
\<close>

section \<open>error.rs\<close>

text \<open>The operating system's and SQLite's own errors are not kept in \<open>SIo\<close> and \<open>SIndex\<close>.\<close>

datatype SyncError =
    InvalidChunkLen u64 u64
  | SIo string
  | SEncode string
  | SDecode string
  | WrongKind string
  | SIndex
  | NonUtf8Path string
  | CidMismatch string string
  | STransport string
  | ChangedDuringBackup string
  | EvictUnbacked string "string list"
  | HydrateWouldOverwrite string
  | NoPlaceholder string
  | StaleSeq u64
  | CeilingDeferred string u64 u64 u64

section \<open>chunk.rs\<close>

definition CHUNK_MIN_BYTES :: nat where "CHUNK_MIN_BYTES = 64 * 1024"
definition CHUNK_AVG_BYTES :: nat where "CHUNK_AVG_BYTES = 256 * 1024"
definition CHUNK_MAX_BYTES :: nat where "CHUNK_MAX_BYTES = 1024 * 1024"
definition OBJECT_CAP :: nat where "OBJECT_CAP = 2 * 1024 * 1024"
definition u32_max :: nat where "u32_max = 2 ^ 32 - 1"

type_synonym Hash32 = bytes

definition lower_hex_digit :: "nat \<Rightarrow> char" where
  "lower_hex_digit n = (if n < 10 then char_of (48 + n) else char_of (87 + n))"

definition to_hex :: "Hash32 \<Rightarrow> string" where
  "to_hex h = concat (map (\<lambda>b. let n = of_char b :: nat in [lower_hex_digit (n div 16), lower_hex_digit (n mod 16)]) h)"

record ChunkRef =
  cr_sha256 :: Hash32
  cr_blake3 :: Hash32
  cr_len :: nat

definition chunk_ref_new :: "Hash32 \<Rightarrow> Hash32 \<Rightarrow> nat \<Rightarrow> (ChunkRef, SyncError) result" where
  "chunk_ref_new s b n =
     (if n = 0 \<or> n \<ge> OBJECT_CAP then Err (InvalidChunkLen n OBJECT_CAP)
      else Ok \<lparr>cr_sha256 = s, cr_blake3 = b, cr_len = n\<rparr>)"

definition ref_hex :: "ChunkRef \<Rightarrow> string" where
  "ref_hex r = to_hex (cr_sha256 r)"

definition blake3_hex :: "ChunkRef \<Rightarrow> string" where
  "blake3_hex r = to_hex (cr_blake3 r)"

record Chunk =
  ck_ref :: ChunkRef
  ck_start :: nat
  ck_end :: nat

section \<open>manifest.rs and the head of device\_head.rs\<close>

definition FS_MANIFEST_KIND :: string where "FS_MANIFEST_KIND = ''croft.fs-manifest/v1''"

record FileEntry =
  fe_mode :: nat
  fe_mtime_secs :: i64
  fe_mtime_nanos :: nat
  fe_size :: u64
  fe_chunks :: "ChunkRef list"

record FsManifest =
  fm_kind :: string
  fm_entries :: "FileEntry btree"

definition fs_manifest_new :: FsManifest where
  "fs_manifest_new = \<lparr>fm_kind = FS_MANIFEST_KIND, fm_entries = []\<rparr>"

definition fm_insert :: "string \<Rightarrow> FileEntry \<Rightarrow> FsManifest \<Rightarrow> FsManifest" where
  "fm_insert path entry m = m\<lparr>fm_entries := bt_insert path entry (fm_entries m)\<rparr>"

definition DEVICE_HEAD_KIND :: string where "DEVICE_HEAD_KIND = ''croft.device-head/v1''"
definition HEAD_SIG_DOMAIN :: string where "HEAD_SIG_DOMAIN = ''croft.device-head/v1''"

record DeviceHead =
  dh_kind :: string
  dh_device_id :: string
  dh_counter :: u64
  dh_fs_root :: string
  dh_parent :: "string option"
  dh_base :: "string option"
  dh_signature :: string

text \<open>\<open>fastcdc bytes min avg max\<close> is the list of offsets and lengths the cutter yields.\<close>

record sync_ext =
  fastcdc :: "bytes \<Rightarrow> nat \<Rightarrow> nat \<Rightarrow> nat \<Rightarrow> (nat \<times> nat) list"
  blake3 :: "bytes \<Rightarrow> Hash32"
  cbor_manifest :: "FsManifest \<Rightarrow> string + bytes"
  uncbor_manifest :: "bytes \<Rightarrow> string + FsManifest"
  json_manifest :: "FsManifest \<Rightarrow> string + bytes"
  unjson_manifest :: "bytes \<Rightarrow> string + FsManifest"
  cbor_entry :: "FileEntry \<Rightarrow> string + bytes"
  uncbor_entry :: "bytes \<Rightarrow> string + FileEntry"
  cbor_head :: "DeviceHead \<Rightarrow> string + bytes"
  uncbor_head :: "bytes \<Rightarrow> string + DeviceHead"
  debug_str :: "string \<Rightarrow> string"

definition digest_hex :: "ext \<Rightarrow> bytes \<Rightarrow> string" where
  "digest_hex X bs = to_hex (sha256 X bs)"

section \<open>Cutting a file\<close>

definition slice :: "nat \<Rightarrow> nat \<Rightarrow> bytes \<Rightarrow> bytes" where
  "slice a b bs = take (b - a) (drop a bs)"

fun chunk_cuts :: "ext \<Rightarrow> sync_ext \<Rightarrow> bytes \<Rightarrow> (nat \<times> nat) list \<Rightarrow> (Chunk list, SyncError) result" where
  "chunk_cuts X Y bs [] = Ok []"
| "chunk_cuts X Y bs ((off, n) # cuts) =
     (if off + n > length bs \<or> n > u32_max then Panic
      else let piece = slice off (off + n) bs in
           case chunk_ref_new (sha256 X piece) (blake3 Y piece) n of
             Ok r \<Rightarrow> result_bind (chunk_cuts X Y bs cuts) (\<lambda>cs. Ok (\<lparr>ck_ref = r, ck_start = off, ck_end = off + n\<rparr> # cs))
           | _ \<Rightarrow> Panic)"

definition chunk_file :: "ext \<Rightarrow> sync_ext \<Rightarrow> bytes \<Rightarrow> (Chunk list, SyncError) result" where
  "chunk_file X Y bs =
     (if bs = [] then Ok []
      else chunk_cuts X Y bs (fastcdc Y bs CHUNK_MIN_BYTES CHUNK_AVG_BYTES CHUNK_MAX_BYTES))"

section \<open>The codecs\<close>

definition check_kind :: "FsManifest \<Rightarrow> (FsManifest, SyncError) result" where
  "check_kind m = (if fm_kind m = FS_MANIFEST_KIND then Ok m else Err (WrongKind (fm_kind m)))"

definition dagcbor_encode :: "sync_ext \<Rightarrow> FsManifest \<Rightarrow> (bytes, SyncError) result" where
  "dagcbor_encode Y m = (case cbor_manifest Y m of Inr bs \<Rightarrow> Ok bs | Inl e \<Rightarrow> Err (SEncode e))"

definition dagcbor_decode :: "sync_ext \<Rightarrow> bytes \<Rightarrow> (FsManifest, SyncError) result" where
  "dagcbor_decode Y bs = (case uncbor_manifest Y bs of Inr m \<Rightarrow> check_kind m | Inl e \<Rightarrow> Err (SDecode e))"

definition prettyjson_encode :: "sync_ext \<Rightarrow> FsManifest \<Rightarrow> (bytes, SyncError) result" where
  "prettyjson_encode Y m = (case json_manifest Y m of Inr bs \<Rightarrow> Ok bs | Inl e \<Rightarrow> Err (SEncode e))"

definition prettyjson_decode :: "sync_ext \<Rightarrow> bytes \<Rightarrow> (FsManifest, SyncError) result" where
  "prettyjson_decode Y bs = (case unjson_manifest Y bs of Inr m \<Rightarrow> check_kind m | Inl e \<Rightarrow> Err (SDecode e))"

definition content_id :: "ext \<Rightarrow> sync_ext \<Rightarrow> FsManifest \<Rightarrow> (string, SyncError) result" where
  "content_id X Y m = result_bind (dagcbor_encode Y m) (\<lambda>bs. Ok (digest_hex X bs))"

section \<open>device\_head.rs\<close>

definition unwrap_or :: "string \<Rightarrow> string option \<Rightarrow> string" where
  "unwrap_or d x = (case x of Some s \<Rightarrow> s | None \<Rightarrow> d)"

definition head_preimage :: "string \<Rightarrow> u64 \<Rightarrow> string \<Rightarrow> string option \<Rightarrow> string option \<Rightarrow> string" where
  "head_preimage device counter fs_root parent base =
     HEAD_SIG_DOMAIN @ '':'' @ device @ '':'' @ show_nat counter @ '':'' @ fs_root @ '':'' @
     unwrap_or ''-'' parent @ '':'' @ unwrap_or ''-'' base"

definition head_new_signed ::
  "ext \<Rightarrow> string \<Rightarrow> u64 \<Rightarrow> string \<Rightarrow> string option \<Rightarrow> string option \<Rightarrow> Keypair \<Rightarrow> DeviceHead" where
  "head_new_signed X device counter fs_root parent base kp =
     \<lparr>dh_kind = DEVICE_HEAD_KIND, dh_device_id = device, dh_counter = counter, dh_fs_root = fs_root,
      dh_parent = parent, dh_base = base,
      dh_signature = sign_message X kp (head_preimage device counter fs_root parent base)\<rparr>"

definition head_encode :: "sync_ext \<Rightarrow> DeviceHead \<Rightarrow> (bytes, SyncError) result" where
  "head_encode Y h = (case cbor_head Y h of Inr bs \<Rightarrow> Ok bs | Inl e \<Rightarrow> Err (SEncode (''device head: '' @ e)))"

definition head_text :: "DeviceHead \<Rightarrow> string" where
  "head_text h = head_preimage (dh_device_id h) (dh_counter h) (dh_fs_root h) (dh_parent h) (dh_base h)"

definition decode_verified :: "ext \<Rightarrow> sync_ext \<Rightarrow> bytes \<Rightarrow> verifying_key \<Rightarrow> (DeviceHead, SyncError) result" where
  "decode_verified X Y bs verifier =
     (case uncbor_head Y bs of
        Inl e \<Rightarrow> Err (SDecode (''device head: '' @ e))
      | Inr h \<Rightarrow>
          if dh_kind h \<noteq> DEVICE_HEAD_KIND
            then Err (SDecode (''not a device head (kind = '' @ debug_str Y (dh_kind h) @ '')''))
          else if \<not> verify_message X verifier (head_text h) (dh_signature h)
            then Err (SDecode (''device head '' @ dh_device_id h @ '' signature invalid '' @
                   [CHR 0xE2, CHR 0x80, CHR 0x94] @ '' refusing the asserted head''))
          else Ok h)"

section \<open>Laws of the external code\<close>

text \<open>What the cutter documents: the cuts are contiguous, not empty, at most the maximum long, and
  cover the input.\<close>

fun cuts_cover :: "nat \<Rightarrow> (nat \<times> nat) list \<Rightarrow> nat \<Rightarrow> bool" where
  "cuts_cover off [] n \<longleftrightarrow> off = n"
| "cuts_cover off ((p, l) # cuts) n \<longleftrightarrow> p = off \<and> 0 < l \<and> l \<le> CHUNK_MAX_BYTES \<and> cuts_cover (off + l) cuts n"

definition cdc_law :: "sync_ext \<Rightarrow> bool" where
  "cdc_law Y \<longleftrightarrow> (\<forall>bs. bs \<noteq> [] \<longrightarrow>
     cuts_cover 0 (fastcdc Y bs CHUNK_MIN_BYTES CHUNK_AVG_BYTES CHUNK_MAX_BYTES) (length bs))"

definition cbor_law :: "sync_ext \<Rightarrow> bool" where
  "cbor_law Y \<longleftrightarrow>
     (\<forall>m bs. cbor_manifest Y m = Inr bs \<longrightarrow> uncbor_manifest Y bs = Inr m) \<and>
     (\<forall>e bs. cbor_entry Y e = Inr bs \<longrightarrow> uncbor_entry Y bs = Inr e) \<and>
     (\<forall>h bs. cbor_head Y h = Inr bs \<longrightarrow> uncbor_head Y bs = Inr h)"

section \<open>Lemmas: addresses\<close>

lemma of_char_hex: "n < 16 \<Longrightarrow> (of_char (lower_hex_digit n) :: nat) = (if n < 10 then 48 + n else 87 + n)"
  by (simp add: lower_hex_digit_def of_char_of)

lemma lower_hex_digit_inject:
  assumes "a < 16" "b < 16"
  shows "lower_hex_digit a = lower_hex_digit b \<longleftrightarrow> a = b"
proof
  assume "lower_hex_digit a = lower_hex_digit b"
  then have "(if a < 10 then 48 + a else 87 + a) = (if b < 10 then 48 + b else 87 + b)"
    using of_char_hex [OF assms(1)] of_char_hex [OF assms(2)] by simp
  then show "a = b" by (cases "a < 10"; cases "b < 10") simp_all
qed simp

lemma to_hex_Cons:
  "to_hex (b # bs) = lower_hex_digit ((of_char b :: nat) div 16) # lower_hex_digit ((of_char b :: nat) mod 16) # to_hex bs"
  by (simp add: to_hex_def Let_def)

lemma to_hex_Nil [simp]: "to_hex [] = []"
  by (simp add: to_hex_def)

lemma of_char_div_16: "(of_char c :: nat) div 16 < 16"
proof -
  have "(of_char c :: nat) mod 256 < 256" by (rule mod_less_divisor) simp
  then have "(of_char c :: nat) < 256" by simp
  then show ?thesis by (simp add: less_mult_imp_div_less)
qed

lemma to_hex_inject [simp]: "to_hex a = to_hex b \<longleftrightarrow> a = b"
proof (induction a arbitrary: b)
  case Nil
  then show ?case by (cases b) (auto simp: to_hex_Cons)
next
  case (Cons x xs)
  show ?case
  proof (cases b)
    case (Cons y ys)
    have "(of_char x :: nat) = of_char y \<longleftrightarrow> (of_char x :: nat) div 16 = of_char y div 16 \<and> (of_char x :: nat) mod 16 = of_char y mod 16"
      by (metis div_mult_mod_eq)
    then show ?thesis
      using Cons.IH by (auto simp: Cons to_hex_Cons lower_hex_digit_inject of_char_div_16 of_char_eq_iff)
  qed (simp add: to_hex_Cons)
qed

lemma length_to_hex [simp]: "length (to_hex h) = 2 * length h"
  by (induction h) (simp_all add: to_hex_Cons)

lemma lower_hex_digit_char: "n < 16 \<Longrightarrow> lower_hex_char (lower_hex_digit n)"
  by (auto simp: lower_hex_char_def lower_hex_digit_def is_digit_def of_char_of)

lemma to_hex_lower: "list_all lower_hex_char (to_hex h)"
  by (induction h) (auto simp: to_hex_Cons lower_hex_digit_char of_char_div_16)

lemma to_hex_no_colon: "CHR '':'' \<notin> set (to_hex h)"
proof
  assume "CHR '':'' \<in> set (to_hex h)"
  then have "lower_hex_char (CHR '':'')" using to_hex_lower [of h] by (auto simp: list_all_iff)
  then show False by (simp add: lower_hex_char_def is_digit_def)
qed

section \<open>Lemmas: chunks\<close>

definition piece :: "bytes \<Rightarrow> Chunk \<Rightarrow> bytes" where
  "piece bs c = slice (ck_start c) (ck_end c) bs"

definition chunk_of :: "ext \<Rightarrow> sync_ext \<Rightarrow> bytes \<Rightarrow> ChunkRef" where
  "chunk_of X Y p = \<lparr>cr_sha256 = sha256 X p, cr_blake3 = blake3 Y p, cr_len = length p\<rparr>"

lemma slice_append: "a \<le> b \<Longrightarrow> b \<le> c \<Longrightarrow> slice a b bs @ slice b c bs = slice a c bs"
proof -
  assume ab: "a \<le> b" and bc: "b \<le> c"
  have "slice a c bs = take ((b - a) + (c - b)) (drop a bs)" using ab bc by (simp add: slice_def)
  also have "\<dots> = take (b - a) (drop a bs) @ take (c - b) (drop (b - a) (drop a bs))" by (rule take_add)
  finally show ?thesis using ab by (simp add: slice_def)
qed

lemma length_slice: "b \<le> length bs \<Longrightarrow> length (slice a b bs) = b - a"
  by (auto simp: slice_def)

lemma cuts_cover_le: "cuts_cover off cuts n \<Longrightarrow> off \<le> n"
  by (induction off cuts n rule: cuts_cover.induct) auto

lemma chunk_cuts_cover:
  assumes "cuts_cover off cuts (length bs)"
  shows "\<exists>cs. chunk_cuts X Y bs cuts = Ok cs \<and> concat (map (piece bs) cs) = slice off (length bs) bs \<and>
    (\<forall>c \<in> set cs. ck_ref c = chunk_of X Y (piece bs c) \<and> 0 < cr_len (ck_ref c) \<and> cr_len (ck_ref c) \<le> CHUNK_MAX_BYTES)"
  using assms
proof (induction cuts arbitrary: off)
  case Nil
  then show ?case by (simp add: slice_def)
next
  case (Cons c cuts)
  obtain l where c: "c = (off, l)" "0 < l" "l \<le> CHUNK_MAX_BYTES" and rest: "cuts_cover (off + l) cuts (length bs)"
    using Cons.prems by (cases c) auto
  have le: "off + l \<le> length bs" by (rule cuts_cover_le [OF rest])
  obtain cs where cs: "chunk_cuts X Y bs cuts = Ok cs" "concat (map (piece bs) cs) = slice (off + l) (length bs) bs"
    "\<forall>c \<in> set cs. ck_ref c = chunk_of X Y (piece bs c) \<and> 0 < cr_len (ck_ref c) \<and> cr_len (ck_ref c) \<le> CHUNK_MAX_BYTES"
    using Cons.IH [OF rest] by blast
  have small: "l \<le> u32_max" "\<not> OBJECT_CAP \<le> l"
    using c(3) by (simp_all add: CHUNK_MAX_BYTES_def u32_max_def OBJECT_CAP_def)
  let ?c = "\<lparr>ck_ref = chunk_of X Y (slice off (off + l) bs), ck_start = off, ck_end = off + l\<rparr>"
  have len: "length (slice off (off + l) bs) = l" using length_slice [OF le, of off] by simp
  have pc: "piece bs ?c = slice off (off + l) bs" by (simp add: piece_def)
  have ok: "chunk_cuts X Y bs (c # cuts) = Ok (?c # cs)"
    using cs(1) c le small len by (simp add: chunk_ref_new_def chunk_of_def Let_def)
  have cat: "concat (map (piece bs) (?c # cs)) = slice off (length bs) bs"
    using slice_append [of off "off + l" "length bs" bs] le by (simp add: pc cs(2))
  have "\<forall>d \<in> set (?c # cs). ck_ref d = chunk_of X Y (piece bs d) \<and> 0 < cr_len (ck_ref d) \<and> cr_len (ck_ref d) \<le> CHUNK_MAX_BYTES"
  proof
    fix d assume "d \<in> set (?c # cs)"
    then consider "d = ?c" | "d \<in> set cs" by auto
    then show "ck_ref d = chunk_of X Y (piece bs d) \<and> 0 < cr_len (ck_ref d) \<and> cr_len (ck_ref d) \<le> CHUNK_MAX_BYTES"
    proof cases
      case 1
      then show ?thesis using c(2,3) len pc by (simp add: chunk_of_def)
    next
      case 2
      then show ?thesis using cs(3) by blast
    qed
  qed
  with ok cat show ?case by blast
qed

text \<open>A file is cut into chunks that concatenate to it, each within the limits and named by its own
  digests; cutting never fails.\<close>

lemma chunk_file_spec:
  assumes "cdc_law Y"
  obtains cs where "chunk_file X Y bs = Ok cs" "concat (map (piece bs) cs) = bs"
    "\<And>c. c \<in> set cs \<Longrightarrow> ck_ref c = chunk_of X Y (piece bs c)"
    "\<And>c. c \<in> set cs \<Longrightarrow> 0 < cr_len (ck_ref c) \<and> cr_len (ck_ref c) \<le> CHUNK_MAX_BYTES"
proof (cases "bs = []")
  case True
  then show ?thesis using that by (simp add: chunk_file_def)
next
  case False
  then have "cuts_cover 0 (fastcdc Y bs CHUNK_MIN_BYTES CHUNK_AVG_BYTES CHUNK_MAX_BYTES) (length bs)"
    using assms by (simp add: cdc_law_def)
  from chunk_cuts_cover [OF this, of X Y] obtain cs
    where "chunk_file X Y bs = Ok cs" "concat (map (piece bs) cs) = slice 0 (length bs) bs"
      "\<forall>c \<in> set cs. ck_ref c = chunk_of X Y (piece bs c) \<and> 0 < cr_len (ck_ref c) \<and> cr_len (ck_ref c) \<le> CHUNK_MAX_BYTES"
    using False by (auto simp: chunk_file_def)
  moreover have "slice 0 (length bs) bs = bs" by (simp add: slice_def)
  ultimately show ?thesis by (intro that [of cs]) auto
qed

section \<open>Lemmas: device heads\<close>

lemma head_round_trip:
  assumes "hex_law X" "sign_law X" "cbor_law Y" "length (kp_signing_key kp) = 32"
    and "head_encode Y (head_new_signed X device counter fs_root parent base kp) = Ok bs"
  shows "decode_verified X Y bs (keypair_verifying_key X kp) = Ok (head_new_signed X device counter fs_root parent base kp)"
proof -
  have "uncbor_head Y bs = Inr (head_new_signed X device counter fs_root parent base kp)"
    using assms(3,5) by (auto simp: head_encode_def cbor_law_def split: sum.splits)
  then show ?thesis
    using assms(1,2,4) by (simp add: decode_verified_def head_new_signed_def head_text_def verify_message_def
        sign_message_def keypair_verifying_key_def hex_law_def sign_law_def)
qed

lemma decode_verified_Ok:
  "decode_verified X Y bs vk = Ok h \<longleftrightarrow>
     uncbor_head Y bs = Inr h \<and> dh_kind h = DEVICE_HEAD_KIND \<and> verify_message X vk (head_text h) (dh_signature h)"
  by (auto simp: decode_verified_def split: sum.splits)

definition head_wf :: "DeviceHead \<Rightarrow> bool" where
  "head_wf h \<longleftrightarrow> CHR '':'' \<notin> set (dh_device_id h) \<and> CHR '':'' \<notin> set (dh_fs_root h) \<and>
     (\<forall>p. dh_parent h = Some p \<longrightarrow> CHR '':'' \<notin> set p \<and> p \<noteq> ''-'') \<and>
     (\<forall>b. dh_base h = Some b \<longrightarrow> CHR '':'' \<notin> set b \<and> b \<noteq> ''-'')"

lemma colon_not_digit [simp]: "\<not> is_digit (CHR '':'')"
  by (simp add: is_digit_def)

text \<open>The signed text determines every field of a head whose labels hold no separator.\<close>

lemma head_text_binds:
  assumes "head_wf a" "head_wf b" "head_text a = head_text b"
  shows "dh_device_id a = dh_device_id b" "dh_counter a = dh_counter b" "dh_fs_root a = dh_fs_root b"
    "dh_parent a = dh_parent b" "dh_base a = dh_base b"
proof -
  have u: "CHR '':'' \<notin> set (unwrap_or ''-'' (dh_parent h))" if "head_wf h" for h
    using that by (auto simp: head_wf_def unwrap_or_def split: option.split)
  have inj: "unwrap_or ''-'' x = unwrap_or ''-'' y \<longleftrightarrow> x = y" if "x \<noteq> Some ''-''" "y \<noteq> Some ''-''" for x y
    using that by (auto simp: unwrap_or_def split: option.splits)
  have "dh_device_id a = dh_device_id b \<and> dh_counter a = dh_counter b \<and> dh_fs_root a = dh_fs_root b \<and>
    unwrap_or ''-'' (dh_parent a) = unwrap_or ''-'' (dh_parent b) \<and> unwrap_or ''-'' (dh_base a) = unwrap_or ''-'' (dh_base b)"
    using assms(1-3) u [OF assms(1)] u [OF assms(2)] show_nat_no_char [OF colon_not_digit]
    by (simp add: head_text_def head_preimage_def head_wf_def append_delim_eq)
  moreover have "dh_parent h \<noteq> Some ''-''" "dh_base h \<noteq> Some ''-''" if "head_wf h" for h
    using that by (auto simp: head_wf_def)
  ultimately show "dh_device_id a = dh_device_id b" "dh_counter a = dh_counter b" "dh_fs_root a = dh_fs_root b"
    "dh_parent a = dh_parent b" "dh_base a = dh_base b"
    using assms(1,2) inj by simp_all
qed

end
