(* ===== verification/Sync_State.thy ===== *)
theory Sync_State
  imports Sync_Data Statements "HOL-Library.AList"
begin

text \<open>
  What a synced tree remembers, crate \<^verbatim>\<open>ciss-sync\<close>: \<^verbatim>\<open>ledger.rs\<close> (the spend ledger and its ceiling),
  \<^verbatim>\<open>cache.rs\<close> (the budgeted chunk cache), \<^verbatim>\<open>placeholder.rs\<close>, \<^verbatim>\<open>index.rs\<close>, \<^verbatim>\<open>aliases.rs\<close> and
  \<^verbatim>\<open>state.rs\<close>. A SQLite table is the list of its rows; a bound integer above 63 bits is refused, and a
  sum that leaves 63 bits is an error, as SQLite does. Opening files, the schema and its migration and
  failures of the disk under SQLite are not modelled. The message of a configuration value that does
  not parse is cut after the key.
\<close>

section \<open>ledger.rs\<close>

definition KEY_CEILING :: string where "KEY_CEILING = ''ceiling_cents''"
definition KEY_PERIOD :: string where "KEY_PERIOD = ''spend_period''"
definition KEY_BASELINE :: string where "KEY_BASELINE = ''reconcile_baseline_bytes''"
definition KEY_BASELINE_PERIOD :: string where "KEY_BASELINE_PERIOD = ''reconcile_baseline_period''"

datatype ReconcileOutcome = Adopted u64 | CaughtUp u64 | InSync | LocalAhead u64

record spend_row =
  sp_ts :: nat
  sp_bytes :: nat
  sp_period :: nat

text \<open>The two tables of a ledger file; \<^verbatim>\<open>scope\<close> names it in errors.\<close>

record SpendLedger =
  sl_scope :: string
  sl_config :: "(string \<times> string) list"
  sl_spend :: "spend_row list"

definition config_get_u64 :: "SpendLedger \<Rightarrow> string \<Rightarrow> (u64 option, SyncError) result" where
  "config_get_u64 l key =
     (case map_of (sl_config l) key of
        None \<Rightarrow> Ok None
      | Some v \<Rightarrow> (case parse_u64 v of Some n \<Rightarrow> Ok (Some n) | None \<Rightarrow> Err (SDecode (''ledger config '' @ key))))"

definition config_set_u64 :: "SpendLedger \<Rightarrow> string \<Rightarrow> u64 \<Rightarrow> SpendLedger" where
  "config_set_u64 l key v = l\<lparr>sl_config := AList.update key (show_nat v) (sl_config l)\<rparr>"

definition ceiling_cents :: "SpendLedger \<Rightarrow> (u64 option, SyncError) result" where
  "ceiling_cents l = config_get_u64 l KEY_CEILING"

definition set_ceiling_cents :: "SpendLedger \<Rightarrow> u64 option \<Rightarrow> SpendLedger" where
  "set_ceiling_cents l cents =
     (case cents of
        Some c \<Rightarrow> config_set_u64 l KEY_CEILING c
      | None \<Rightarrow> l\<lparr>sl_config := AList.delete KEY_CEILING (sl_config l)\<rparr>)"

definition current_period :: "SpendLedger \<Rightarrow> (u64, SyncError) result" where
  "current_period l =
     result_bind (config_get_u64 l KEY_PERIOD) (\<lambda>p. Ok (case p of Some n \<Rightarrow> n | None \<Rightarrow> 0))"

definition reset_spend :: "SpendLedger \<Rightarrow> SpendLedger \<times> (u64, SyncError) result" where
  "reset_spend l =
     (case current_period l of
        Ok p \<Rightarrow> if p + 1 > u64_max then (l, Panic) else (config_set_u64 l KEY_PERIOD (p + 1), Ok (p + 1))
      | Err e \<Rightarrow> (l, Err e)
      | Panic \<Rightarrow> (l, Panic))"

definition record_bytes :: "nat \<Rightarrow> SpendLedger \<Rightarrow> u64 \<Rightarrow> SpendLedger \<times> (unit, SyncError) result" where
  "record_bytes ts l bytes =
     (case current_period l of
        Ok period \<Rightarrow>
          if ts > i64_max \<or> bytes > i64_max \<or> period > i64_max then (l, Err SIndex)
          else (l\<lparr>sl_spend := sl_spend l @ [\<lparr>sp_ts = ts, sp_bytes = bytes, sp_period = period\<rparr>]\<rparr>, Ok ())
      | Err e \<Rightarrow> (l, Err e)
      | Panic \<Rightarrow> (l, Panic))"

definition period_bytes :: "SpendLedger \<Rightarrow> u64 \<Rightarrow> nat" where
  "period_bytes l period = sum_list (map sp_bytes (filter (\<lambda>r. sp_period r = period) (sl_spend l)))"

definition spent_bytes_in :: "SpendLedger \<Rightarrow> u64 \<Rightarrow> (u64, SyncError) result" where
  "spent_bytes_in l period =
     (if period > i64_max \<or> period_bytes l period > i64_max then Err SIndex
      else Ok (period_bytes l period))"

definition spent_bytes :: "SpendLedger \<Rightarrow> (u64, SyncError) result" where
  "spent_bytes l = result_bind (current_period l) (spent_bytes_in l)"

definition spent_cents :: "SpendLedger \<Rightarrow> (u64, SyncError) result" where
  "spent_cents l = result_bind (spent_bytes l) (\<lambda>b. Ok (postage_cents b))"

definition reconcile_to_meter :: "nat \<Rightarrow> SpendLedger \<Rightarrow> u64 \<Rightarrow> SpendLedger \<times> (ReconcileOutcome, SyncError) result" where
  "reconcile_to_meter ts l meter_total_bytes =
     (case (current_period l, spent_bytes l, config_get_u64 l KEY_BASELINE, config_get_u64 l KEY_BASELINE_PERIOD) of
        (Ok period, Ok local, Ok baseline, Ok baseline_period) \<Rightarrow>
          if baseline = None \<or> baseline_period \<noteq> Some period then
            let adopted = saturating_sub meter_total_bytes local
            in (config_set_u64 (config_set_u64 l KEY_BASELINE adopted) KEY_BASELINE_PERIOD period, Ok (Adopted adopted))
          else
            let account_spent = saturating_sub meter_total_bytes (case baseline of Some b \<Rightarrow> b | None \<Rightarrow> 0) in
            if account_spent > local then
              (case record_bytes ts l (account_spent - local) of
                 (l', Ok _) \<Rightarrow> (l', Ok (CaughtUp (account_spent - local)))
               | (l', Err e) \<Rightarrow> (l', Err e)
               | (l', Panic) \<Rightarrow> (l', Panic))
            else if local > account_spent then (l, Ok (LocalAhead (local - account_spent)))
            else (l, Ok InSync)
      | (Err e, _, _, _) \<Rightarrow> (l, Err e) | (Panic, _, _, _) \<Rightarrow> (l, Panic)
      | (_, Err e, _, _) \<Rightarrow> (l, Err e) | (_, Panic, _, _) \<Rightarrow> (l, Panic)
      | (_, _, Err e, _) \<Rightarrow> (l, Err e) | (_, _, Panic, _) \<Rightarrow> (l, Panic)
      | (_, _, _, Err e) \<Rightarrow> (l, Err e) | (_, _, _, Panic) \<Rightarrow> (l, Panic))"

definition ledger_check :: "SpendLedger \<Rightarrow> u64 \<Rightarrow> (unit, SyncError) result" where
  "ledger_check l want_bytes =
     result_bind (ceiling_cents l) (\<lambda>c. case c of
        None \<Rightarrow> Ok ()
      | Some ceiling \<Rightarrow>
          result_bind (spent_bytes l) (\<lambda>spent.
            if spent + want_bytes > u64_max then Panic
            else let spent_c = postage_cents spent; needed_c = postage_cents (spent + want_bytes) in
                 if needed_c > ceiling \<and> needed_c > spent_c
                 then Err (CeilingDeferred (sl_scope l) needed_c spent_c ceiling)
                 else Ok ()))"

section \<open>cache.rs\<close>

record cache_row =
  ca_size :: nat
  ca_seq :: nat
  ca_pinned :: bool

datatype CacheCall = CacheWrite | CacheRead | CacheRemove

text \<open>The directory of blobs is a map; \<open>kc_fault\<close> says which file operation fails.\<close>

record ChunkCache =
  kc_rows :: "(string \<times> cache_row) list"
  kc_files :: "string \<Rightarrow> bytes option"
  kc_budget :: u64
  kc_fault :: "CacheCall \<Rightarrow> string \<Rightarrow> bool"

definition verify_server_cid :: "string \<Rightarrow> string \<Rightarrow> (unit, SyncError) result" where
  "verify_server_cid expected got = (if expected = got then Ok () else Err (CidMismatch expected got))"

definition verify_content :: "ext \<Rightarrow> string \<Rightarrow> bytes \<Rightarrow> (unit, SyncError) result" where
  "verify_content X expected bs = verify_server_cid expected (digest_hex X bs)"

definition cached_bytes :: "ChunkCache \<Rightarrow> nat" where
  "cached_bytes c = sum_list (map (\<lambda>(_, r). ca_size r) (kc_rows c))"

definition pinned_bytes :: "ChunkCache \<Rightarrow> nat" where
  "pinned_bytes c = sum_list (map (\<lambda>(_, r). ca_size r) (filter (\<lambda>(_, r). ca_pinned r) (kc_rows c)))"

definition cache_total :: "ChunkCache \<Rightarrow> (u64, SyncError) result" where
  "cache_total c = (if cached_bytes c > i64_max then Err SIndex else Ok (cached_bytes c))"

definition next_seq :: "ChunkCache \<Rightarrow> (nat, SyncError) result" where
  "next_seq c = (let m = Max (insert 0 (set (map (\<lambda>(_, r). ca_seq r) (kc_rows c)))) in
     if m + 1 > i64_max then Err SIndex else Ok (m + 1))"

definition cache_remove :: "ChunkCache \<Rightarrow> string \<Rightarrow> ChunkCache \<times> (unit, SyncError) result" where
  "cache_remove c cid =
     (if kc_files c cid \<noteq> None \<and> kc_fault c CacheRemove cid then (c, Err (SIo cid))
      else (c\<lparr>kc_files := (kc_files c)(cid := None), kc_rows := AList.delete cid (kc_rows c)\<rparr>, Ok ()))"

text \<open>\<open>SELECT cid \<dots> WHERE pinned = 0 ORDER BY access_seq ASC LIMIT 1\<close>.\<close>

definition lru_victim :: "ChunkCache \<Rightarrow> string option" where
  "lru_victim c =
     (case sort_key (\<lambda>(_, r). ca_seq r) (filter (\<lambda>(_, r). \<not> ca_pinned r) (kc_rows c)) of
        [] \<Rightarrow> None | (cid, _) # _ \<Rightarrow> Some cid)"

lemma lru_victim_in: "lru_victim c = Some cid \<Longrightarrow> \<exists>r. (cid, r) \<in> set (kc_rows c) \<and> \<not> ca_pinned r"
proof -
  assume v: "lru_victim c = Some cid"
  obtain r rs where "sort_key (\<lambda>(_, r). ca_seq r) (filter (\<lambda>(_, r). \<not> ca_pinned r) (kc_rows c)) = (cid, r) # rs"
    using v by (auto simp: lru_victim_def split: list.splits)
  then have "(cid, r) \<in> set (filter (\<lambda>(_, r). \<not> ca_pinned r) (kc_rows c))" by (metis list.set_intros(1) set_sort)
  then show ?thesis by auto
qed

lemma cache_remove_rows: "cache_remove c cid = (c', Ok ()) \<Longrightarrow> kc_rows c' = AList.delete cid (kc_rows c) \<and> kc_budget c' = kc_budget c"
  by (auto simp: cache_remove_def split: if_splits)

function evict_to_budget :: "ChunkCache \<Rightarrow> ChunkCache \<times> (unit, SyncError) result" where
  "evict_to_budget c =
     (case cache_total c of
        Err e \<Rightarrow> (c, Err e)
      | Panic \<Rightarrow> (c, Panic)
      | Ok t \<Rightarrow>
          if t \<le> kc_budget c then (c, Ok ())
          else (case lru_victim c of
                  None \<Rightarrow> (c, Ok ())
                | Some cid \<Rightarrow>
                    (case cache_remove c cid of
                       (c', Ok _) \<Rightarrow> evict_to_budget c'
                     | (c', Err e) \<Rightarrow> (c', Err e)
                     | (c', Panic) \<Rightarrow> (c', Panic))))"
  by pat_completeness auto
termination
proof (relation "measure (\<lambda>c. length (kc_rows c))", goal_cases)
  case (2 c t cid c' r u)
  then obtain x where "(cid, x) \<in> set (kc_rows c)" using lru_victim_in by blast
  then have "length (AList.delete cid (kc_rows c)) < length (kc_rows c)"
    unfolding AList.delete_eq by (rule length_filter_less) simp
  moreover have "cache_remove c cid = (c', Ok ())" using 2 by simp
  ultimately show ?case using cache_remove_rows [of c cid c'] by simp
qed simp

declare evict_to_budget.simps [simp del]

definition cache_insert :: "ChunkCache \<Rightarrow> string \<Rightarrow> bytes \<Rightarrow> ChunkCache \<times> (bool, SyncError) result" where
  "cache_insert c cid bs =
     (let n = length bs in
      if pinned_bytes c > i64_max then (c, Err SIndex)
      else if n > kc_budget c then (c, Ok False)
      else if n + pinned_bytes c > u64_max then (c, Panic)
      else if n + pinned_bytes c > kc_budget c then (c, Ok False)
      else if kc_fault c CacheWrite cid then (c, Err (SIo cid))
      else let c1 = c\<lparr>kc_files := (kc_files c)(cid \<mapsto> bs)\<rparr> in
           case next_seq c1 of
             Err e \<Rightarrow> (c1, Err e)
           | Panic \<Rightarrow> (c1, Panic)
           | Ok seq \<Rightarrow>
               if n > i64_max then (c1, Panic)
               else let row = (case map_of (kc_rows c1) cid of
                                 None \<Rightarrow> \<lparr>ca_size = n, ca_seq = seq, ca_pinned = False\<rparr>
                               | Some r \<Rightarrow> r\<lparr>ca_size := n, ca_seq := seq\<rparr>);
                        c2 = c1\<lparr>kc_rows := AList.update cid row (kc_rows c1)\<rparr>
                    in case evict_to_budget c2 of
                         (c3, Ok _) \<Rightarrow> (c3, Ok True)
                       | (c3, Err e) \<Rightarrow> (c3, Err e)
                       | (c3, Panic) \<Rightarrow> (c3, Panic))"

definition cache_get :: "ext \<Rightarrow> ChunkCache \<Rightarrow> string \<Rightarrow> ChunkCache \<times> (bytes option, SyncError) result" where
  "cache_get X c cid =
     (case map_of (kc_rows c) cid of
        None \<Rightarrow> (c, Ok None)
      | Some row \<Rightarrow>
          (case (if kc_fault c CacheRead cid then None else kc_files c cid) of
             None \<Rightarrow>
               (case cache_remove c cid of
                  (c', Ok _) \<Rightarrow> (c', Ok None) | (c', Err e) \<Rightarrow> (c', Err e) | (c', Panic) \<Rightarrow> (c', Panic))
           | Some bs \<Rightarrow>
               if \<not> is_ok (verify_content X cid bs) then
                 (case cache_remove c cid of
                    (c', Ok _) \<Rightarrow> (c', Ok None) | (c', Err e) \<Rightarrow> (c', Err e) | (c', Panic) \<Rightarrow> (c', Panic))
               else
                 (case next_seq c of
                    Ok seq \<Rightarrow> (c\<lparr>kc_rows := AList.update cid (row\<lparr>ca_seq := seq\<rparr>) (kc_rows c)\<rparr>, Ok (Some bs))
                  | Err e \<Rightarrow> (c, Err e)
                  | Panic \<Rightarrow> (c, Panic))))"

definition cache_set_pin :: "bool \<Rightarrow> ChunkCache \<Rightarrow> string \<Rightarrow> ChunkCache \<times> bool" where
  "cache_set_pin b c cid =
     (case map_of (kc_rows c) cid of
        None \<Rightarrow> (c, False)
      | Some r \<Rightarrow> (c\<lparr>kc_rows := AList.update cid (r\<lparr>ca_pinned := b\<rparr>) (kc_rows c)\<rparr>, True))"

definition cache_pin :: "ChunkCache \<Rightarrow> string \<Rightarrow> ChunkCache \<times> bool" where
  "cache_pin = cache_set_pin True"

definition cache_unpin :: "ChunkCache \<Rightarrow> string \<Rightarrow> ChunkCache \<times> bool" where
  "cache_unpin = cache_set_pin False"

section \<open>placeholder.rs, index.rs and aliases.rs\<close>

type_synonym PlaceholderStore = "(string \<times> bytes) list"

definition placeholder_record :: "sync_ext \<Rightarrow> PlaceholderStore \<Rightarrow> string \<Rightarrow> FileEntry \<Rightarrow> (PlaceholderStore, SyncError) result" where
  "placeholder_record Y ps path entry =
     (case cbor_entry Y entry of
        Inl e \<Rightarrow> Err (SEncode (''placeholder for '' @ path @ '': '' @ e))
      | Inr blob \<Rightarrow> Ok (AList.update path blob ps))"

definition decode_placeholder :: "sync_ext \<Rightarrow> string \<Rightarrow> bytes \<Rightarrow> (FileEntry, SyncError) result" where
  "decode_placeholder Y path blob =
     (case uncbor_entry Y blob of
        Inl e \<Rightarrow> Err (SDecode (''placeholder for '' @ path @ '': '' @ e))
      | Inr entry \<Rightarrow> Ok entry)"

definition placeholder_get :: "sync_ext \<Rightarrow> PlaceholderStore \<Rightarrow> string \<Rightarrow> (FileEntry option, SyncError) result" where
  "placeholder_get Y ps path =
     (case map_of ps path of
        None \<Rightarrow> Ok None
      | Some blob \<Rightarrow> result_bind (decode_placeholder Y path blob) (\<lambda>e. Ok (Some e)))"

definition placeholder_remove :: "PlaceholderStore \<Rightarrow> string \<Rightarrow> PlaceholderStore" where
  "placeholder_remove ps path = AList.delete path ps"

fun placeholder_all :: "sync_ext \<Rightarrow> PlaceholderStore \<Rightarrow> (FileEntry btree, SyncError) result" where
  "placeholder_all Y [] = Ok []"
| "placeholder_all Y ((path, blob) # rows) =
     result_bind (decode_placeholder Y path blob) (\<lambda>e.
       result_bind (placeholder_all Y rows) (\<lambda>t. Ok (bt_insert path e t)))"

record index_row =
  ir_secs :: i64
  ir_nanos :: nat
  ir_size :: nat
  ir_blob :: bytes

record Index =
  ix_rows :: "(string \<times> index_row) list"
  ix_hits :: nat
  ix_misses :: nat

definition index_lookup ::
  "sync_ext \<Rightarrow> Index \<Rightarrow> string \<Rightarrow> i64 \<Rightarrow> nat \<Rightarrow> u64 \<Rightarrow> Index \<times> (FileEntry option, SyncError) result" where
  "index_lookup Y ix path secs nanos sz =
     (if sz > i64_max then (ix, Err SIndex)
      else case map_of (ix_rows ix) path of
        Some row \<Rightarrow>
          if ir_secs row = secs \<and> ir_nanos row = nanos \<and> ir_size row = sz then
            (case uncbor_entry Y (ir_blob row) of
               Inl e \<Rightarrow> (ix, Err (SDecode (''index entry for '' @ path @ '': '' @ e)))
             | Inr entry \<Rightarrow> (ix\<lparr>ix_hits := ix_hits ix + 1\<rparr>, Ok (Some entry)))
          else (ix\<lparr>ix_misses := ix_misses ix + 1\<rparr>, Ok None)
      | None \<Rightarrow> (ix\<lparr>ix_misses := ix_misses ix + 1\<rparr>, Ok None))"

definition index_store :: "sync_ext \<Rightarrow> Index \<Rightarrow> string \<Rightarrow> FileEntry \<Rightarrow> Index \<times> (unit, SyncError) result" where
  "index_store Y ix path entry =
     (case cbor_entry Y entry of
        Inl e \<Rightarrow> (ix, Err (SEncode (''index entry for '' @ path @ '': '' @ e)))
      | Inr blob \<Rightarrow>
          if fe_size entry > i64_max then (ix, Err SIndex)
          else (ix\<lparr>ix_rows := AList.update path
                 \<lparr>ir_secs = fe_mtime_secs entry, ir_nanos = fe_mtime_nanos entry, ir_size = fe_size entry, ir_blob = blob\<rparr>
                 (ix_rows ix)\<rparr>, Ok ()))"

type_synonym AliasStore = "(string \<times> bytes) list"

definition alias_set :: "AliasStore \<Rightarrow> string \<Rightarrow> Hash32 \<Rightarrow> AliasStore" where
  "alias_set al cid b = AList.update cid b al"

definition alias_value :: "string \<Rightarrow> bytes \<Rightarrow> (Hash32, SyncError) result" where
  "alias_value cid raw =
     (if length raw = 32 then Ok raw else Err (SDecode (''alias for '' @ cid @ '': not 32 bytes'')))"

definition alias_get :: "AliasStore \<Rightarrow> string \<Rightarrow> (Hash32 option, SyncError) result" where
  "alias_get al cid =
     (case map_of al cid of
        None \<Rightarrow> Ok None
      | Some raw \<Rightarrow> result_bind (alias_value cid raw) (\<lambda>h. Ok (Some h)))"

fun alias_all :: "AliasStore \<Rightarrow> ((string \<times> Hash32) list, SyncError) result" where
  "alias_all [] = Ok []"
| "alias_all ((cid, raw) # rows) =
     result_bind (alias_value cid raw) (\<lambda>h. result_bind (alias_all rows) (\<lambda>r. Ok ((cid, h) # r)))"

section \<open>state.rs\<close>

definition DEFAULT_CACHE_BUDGET :: u64 where "DEFAULT_CACHE_BUDGET = 256 * 1024 * 1024"

text \<open>The tree's ledger and the configuration share one table of \<^verbatim>\<open>state.sqlite\<close>.\<close>

record SyncState =
  ss_index :: Index
  ss_placeholders :: PlaceholderStore
  ss_cache :: ChunkCache
  ss_spend :: SpendLedger
  ss_aliases :: AliasStore
  ss_profile :: "SpendLedger option"

definition config_get :: "SyncState \<Rightarrow> string \<Rightarrow> string option" where
  "config_get s key = map_of (sl_config (ss_spend s)) key"

definition config_set :: "SyncState \<Rightarrow> string \<Rightarrow> string \<Rightarrow> SyncState" where
  "config_set s key v = s\<lparr>ss_spend := (ss_spend s)\<lparr>sl_config := AList.update key v (sl_config (ss_spend s))\<rparr>\<rparr>"

definition attach_profile_ledger :: "SyncState \<Rightarrow> SpendLedger \<Rightarrow> SyncState" where
  "attach_profile_ledger s l = s\<lparr>ss_profile := Some l\<rparr>"

definition set_cache_budget :: "SyncState \<Rightarrow> u64 \<Rightarrow> SyncState" where
  "set_cache_budget s budget =
     (config_set s ''cache_budget'' (show_nat budget))\<lparr>ss_cache := (ss_cache s)\<lparr>kc_budget := budget\<rparr>\<rparr>"

definition check_ceilings :: "SyncState \<Rightarrow> u64 \<Rightarrow> (unit, SyncError) result" where
  "check_ceilings s want_bytes =
     result_bind (ledger_check (ss_spend s) want_bytes) (\<lambda>_.
       case ss_profile s of None \<Rightarrow> Ok () | Some profile \<Rightarrow> ledger_check profile want_bytes)"

definition record_spend_all :: "nat \<Rightarrow> SyncState \<Rightarrow> u64 \<Rightarrow> SyncState \<times> (unit, SyncError) result" where
  "record_spend_all ts s bytes =
     (case record_bytes ts (ss_spend s) bytes of
        (l, Ok _) \<Rightarrow>
          (case ss_profile s of
             None \<Rightarrow> (s\<lparr>ss_spend := l\<rparr>, Ok ())
           | Some profile \<Rightarrow>
               (case record_bytes ts profile bytes of
                  (p, r) \<Rightarrow> (s\<lparr>ss_spend := l, ss_profile := Some p\<rparr>, r)))
      | (l, r) \<Rightarrow> (s\<lparr>ss_spend := l\<rparr>, r))"

definition tree_id :: "ext \<Rightarrow> string \<Rightarrow> string \<Rightarrow> string" where
  "tree_id X profile tree = take 16 (digest_hex X (profile @ [CHR 0x00] @ tree))"

section \<open>Lemmas: the spend ledger\<close>

lemma config_get_set:
  "v \<le> u64_max \<Longrightarrow> config_get_u64 (config_set_u64 l k v) k' = (if k' = k then Ok (Some v) else config_get_u64 l k')"
  by (simp add: config_get_u64_def config_set_u64_def update_conv)

lemma config_set_frame [simp]: "sl_spend (config_set_u64 l k v) = sl_spend l" "sl_scope (config_set_u64 l k v) = sl_scope l"
  by (simp_all add: config_set_u64_def)

lemma period_bytes_config [simp]: "period_bytes (config_set_u64 l k v) p = period_bytes l p"
  by (simp add: period_bytes_def)

lemma config_get_spend [simp]: "config_get_u64 (l\<lparr>sl_spend := xs\<rparr>) k = config_get_u64 l k"
  by (simp add: config_get_u64_def)

lemma current_period_spend [simp]: "current_period (l\<lparr>sl_spend := xs\<rparr>) = current_period l"
  by (simp add: current_period_def)

lemma config_get_bound: "config_get_u64 l k = Ok (Some n) \<Longrightarrow> n \<le> u64_max"
  by (auto simp: config_get_u64_def parse_u64_def Let_def split: option.splits if_splits)

lemma current_period_bound: "current_period l = Ok p \<Longrightarrow> p \<le> u64_max"
  by (auto simp: current_period_def result_bind_Ok dest: config_get_bound split: option.splits)

lemma record_bytes_Ok:
  assumes "record_bytes ts l b = (l', Ok ())"
  shows "\<exists>p. current_period l = Ok p \<and> p \<le> i64_max \<and>
    l' = l\<lparr>sl_spend := sl_spend l @ [\<lparr>sp_ts = ts, sp_bytes = b, sp_period = p\<rparr>]\<rparr>"
  using assms by (auto simp: record_bytes_def split: result.splits if_splits)

text \<open>A transfer is charged to the current period and to no other.\<close>

lemma record_bytes_period:
  assumes "record_bytes ts l b = (l', Ok ())" "current_period l = Ok p"
  shows "period_bytes l' q = period_bytes l q + (if q = p then b else 0)" "current_period l' = Ok p"
    "prefix (sl_spend l) (sl_spend l')"
  using record_bytes_Ok [OF assms(1)] assms(2) by (auto simp: period_bytes_def)

text \<open>Starting a period deletes nothing.\<close>

lemma reset_spend_Ok:
  assumes "reset_spend l = (l', Ok p)"
  shows "current_period l' = Ok p" "sl_spend l' = sl_spend l" "\<exists>q. current_period l = Ok q \<and> p = q + 1"
    "period_bytes l' x = period_bytes l x"
proof -
  obtain q where q: "current_period l = Ok q" "p = q + 1" "p \<le> u64_max" and l': "l' = config_set_u64 l KEY_PERIOD p"
    using assms by (auto simp: reset_spend_def split: result.splits if_splits)
  from q show "\<exists>q. current_period l = Ok q \<and> p = q + 1" by blast
  from q(3) show "current_period l' = Ok p" "sl_spend l' = sl_spend l" "period_bytes l' x = period_bytes l x"
    by (simp_all add: l' current_period_def config_get_set)
qed

text \<open>The ceiling: a transfer that passes the check leaves the priced total within the ceiling, or adds
  nothing to it.\<close>

lemma ledger_check_Ok:
  assumes "ledger_check l w = Ok ()" "ceiling_cents l = Ok (Some c)" "spent_bytes l = Ok s"
  shows "postage_cents (s + w) \<le> max c (postage_cents s)"
  using assms by (auto simp: ledger_check_def Let_def split: if_splits)

lemma ledger_check_defers:
  assumes "ledger_check l w = Err (CeilingDeferred sc needed spent ceiling)"
  shows "\<exists>s. spent_bytes l = Ok s \<and> ceiling_cents l = Ok (Some ceiling) \<and> needed = postage_cents (s + w) \<and>
    spent = postage_cents s \<and> ceiling < needed \<and> spent < needed"
proof -
  have nodec: "config_get_u64 l k \<noteq> Err (CeilingDeferred sc needed spent ceiling)" for k
    by (simp add: config_get_u64_def split: option.split)
  have "spent_bytes l \<noteq> Err (CeilingDeferred sc needed spent ceiling)"
    using nodec [of KEY_PERIOD] by (cases "config_get_u64 l KEY_PERIOD")
      (auto simp: spent_bytes_def current_period_def spent_bytes_in_def)
  with nodec [of KEY_CEILING] show ?thesis
    using assms by (cases "ceiling_cents l"; cases "spent_bytes l")
      (auto simp: ledger_check_def ceiling_cents_def Let_def split: option.splits if_splits)
qed

text \<open>Reconciling twice against one meter reading charges at most once.\<close>

lemma spent_bytes_eq: "spent_bytes l = Ok s \<longleftrightarrow> (\<exists>p. current_period l = Ok p \<and> p \<le> i64_max \<and> s = period_bytes l p \<and> s \<le> i64_max)"
  by (cases "current_period l") (auto simp: spent_bytes_def spent_bytes_in_def)

lemma key_distinct: "KEY_BASELINE \<noteq> KEY_PERIOD" "KEY_BASELINE_PERIOD \<noteq> KEY_PERIOD" "KEY_BASELINE \<noteq> KEY_BASELINE_PERIOD"
  by (simp_all add: KEY_BASELINE_def KEY_PERIOD_def KEY_BASELINE_PERIOD_def)

lemma reconcile_steady:
  assumes "current_period l = Ok p" "spent_bytes l = Ok s" "config_get_u64 l KEY_BASELINE = Ok (Some b)"
    "config_get_u64 l KEY_BASELINE_PERIOD = Ok (Some p)" "m - b \<le> s"
  shows "\<exists>r. reconcile_to_meter ts l m = (l, Ok r) \<and> (r = InSync \<or> (\<exists>x. r = LocalAhead x))"
  using assms by (simp add: reconcile_to_meter_def saturating_sub_def Let_def)

lemma reconcile_once:
  assumes "reconcile_to_meter ts l m = (l', Ok out)" "m \<le> i64_max"
  shows "\<exists>r. reconcile_to_meter ts' l' m = (l', Ok r) \<and> (r = InSync \<or> (\<exists>x. r = LocalAhead x))"
proof -
  obtain p s b bp where g: "current_period l = Ok p" "spent_bytes l = Ok s" "config_get_u64 l KEY_BASELINE = Ok b"
    "config_get_u64 l KEY_BASELINE_PERIOD = Ok bp"
    using assms(1) by (auto simp: reconcile_to_meter_def split: result.splits)
  have sp: "p \<le> i64_max" "s = period_bytes l p" "s \<le> i64_max" using g(1,2) by (auto simp: spent_bytes_eq)
  have i: "i64_max \<le> u64_max" by (simp add: i64_max_def u64_max_def)
  show ?thesis
  proof (cases "b = None \<or> bp \<noteq> Some p")
    case True
    then have l': "l' = config_set_u64 (config_set_u64 l KEY_BASELINE (m - s)) KEY_BASELINE_PERIOD p"
      using assms(1) g by (auto simp: reconcile_to_meter_def saturating_sub_def Let_def)
    have ms: "m - s \<le> u64_max" "p \<le> u64_max" using assms(2) sp i by simp_all
    have "current_period l' = Ok p" using g(1) key_distinct ms by (auto simp: l' current_period_def config_get_set)
    moreover from this have "spent_bytes l' = Ok s" using sp by (simp add: spent_bytes_eq l')
    ultimately show ?thesis
      using key_distinct ms by (intro reconcile_steady [where b = "m - s" and p = p and s = s]) (auto simp: l' config_get_set)
  next
    case False
    then obtain b' where b: "b = Some b'" "bp = Some p" by auto
    show ?thesis
    proof (cases "m - b' > s")
      case True
      then obtain u where r: "record_bytes ts l (m - b' - s) = (l', Ok u)"
        using assms(1) g b by (auto simp: reconcile_to_meter_def saturating_sub_def Let_def split: prod.splits result.splits)
      then obtain xs where l': "l' = l\<lparr>sl_spend := xs\<rparr>" using record_bytes_Ok [of ts l "m - b' - s" l'] by auto
      have "period_bytes l' p = m - b'"
        using record_bytes_period(1) [of ts l "m - b' - s" l' p p] r g(1) sp True by simp
      then have "spent_bytes l' = Ok (m - b')" using g(1) sp assms(2) by (simp add: spent_bytes_eq l')
      then show ?thesis
        using g b by (intro reconcile_steady [where b = b' and p = p and s = "m - b'"]) (simp_all add: l')
    next
      case False
      then have "l' = l" using assms(1) g b by (auto simp: reconcile_to_meter_def saturating_sub_def Let_def split: if_splits)
      then show ?thesis using g b False by (intro reconcile_steady [where b = b' and p = p and s = s]) simp_all
    qed
  qed
qed

section \<open>Lemmas: the cache\<close>

text \<open>What the cache returns under an address hashes to it.\<close>

lemma cache_get_verified:
  "cache_get X c cid = (c', Ok (Some bs)) \<Longrightarrow> digest_hex X bs = cid \<and> kc_files c cid = Some bs"
  by (auto simp: cache_get_def verify_content_def verify_server_cid_def split: option.splits if_splits result.splits prod.splits)

definition cache_wf :: "ChunkCache \<Rightarrow> bool" where
  "cache_wf c \<longleftrightarrow> distinct (map fst (kc_rows c))"

lemma delete_absent: "cid \<notin> fst ` set rows \<Longrightarrow> AList.delete cid rows = rows"
  by (induction rows) auto

lemma sum_delete:
  fixes f :: "cache_row \<Rightarrow> nat"
  assumes "distinct (map fst rows)" "(cid, r) \<in> set rows" "P r"
  shows "sum_list (map (\<lambda>(_, r). f r) (filter (\<lambda>(_, r). P r) rows)) =
    f r + sum_list (map (\<lambda>(_, r). f r) (filter (\<lambda>(_, r). P r) (AList.delete cid rows))) \<and> map_of rows cid = Some r"
  using assms
proof (induction rows)
  case (Cons a rows)
  obtain k x where a: "a = (k, x)" by (cases a)
  show ?case
  proof (cases "k = cid")
    case True
    then have "x = r" using Cons.prems by (force simp: a)
    moreover have "AList.delete cid rows = rows"
      by (rule delete_absent) (use Cons.prems(1) True in \<open>auto simp: a\<close>)
    ultimately show ?thesis using True Cons.prems(3) by (simp add: a)
  next
    case False
    then show ?thesis using Cons by (simp add: a)
  qed
qed simp

lemma pinned_delete_unpinned:
  "distinct (map fst rows) \<Longrightarrow> (cid, r) \<in> set rows \<Longrightarrow> \<not> ca_pinned r \<Longrightarrow>
     filter (\<lambda>(_, r). ca_pinned r) (AList.delete cid rows) = filter (\<lambda>(_, r). ca_pinned r) rows"
proof (induction rows)
  case (Cons a rows)
  obtain k x where a: "a = (k, x)" by (cases a)
  show ?case
  proof (cases "k = cid")
    case True
    then have "x = r" using Cons.prems by (force simp: a)
    moreover have "AList.delete cid rows = rows"
      by (rule delete_absent) (use Cons.prems(1) True in \<open>auto simp: a\<close>)
    ultimately show ?thesis using True Cons.prems(3) by (simp add: a)
  next
    case False
    then show ?thesis using Cons by (simp add: a)
  qed
qed simp

lemma lru_victim_least:
  assumes "lru_victim c = Some cid" "distinct (map fst (kc_rows c))" "(cid, r) \<in> set (kc_rows c)"
    and "(k, x) \<in> set (kc_rows c)" "\<not> ca_pinned x"
  shows "ca_seq r \<le> ca_seq x"
proof -
  let ?u = "filter (\<lambda>(_, r). \<not> ca_pinned r) (kc_rows c)"
  obtain r' rs where s: "sort_key (\<lambda>(_, r). ca_seq r) ?u = (cid, r') # rs"
    using assms(1) by (auto simp: lru_victim_def split: list.splits)
  have "(cid, r') \<in> set (kc_rows c)" 
  proof -
    have "(cid, r') \<in> set (sort_key (\<lambda>(_, r). ca_seq r) ?u)" unfolding s by simp
    then show ?thesis by simp
  qed
  then have "r' = r" using assms(2,3) eq_key_imp_eq_value by metis
  have "(k, x) \<in> set ((cid, r') # rs)" using assms(4,5) s [symmetric] by simp
  moreover have "sorted (map (\<lambda>(_, r). ca_seq r) ((cid, r') # rs))" using s [symmetric] by (simp only: sorted_sort_key)
  ultimately show ?thesis using \<open>r' = r\<close> by auto
qed

lemma lru_victim_None: "lru_victim c = None \<Longrightarrow> (k, r) \<in> set (kc_rows c) \<Longrightarrow> ca_pinned r"
proof -
  assume v: "lru_victim c = None" and m: "(k, r) \<in> set (kc_rows c)"
  have "sort_key (\<lambda>(_, r). ca_seq r) (filter (\<lambda>(_, r). \<not> ca_pinned r) (kc_rows c)) = []"
    using v by (auto simp: lru_victim_def split: list.splits)
  then have "filter (\<lambda>(_, r). \<not> ca_pinned r) (kc_rows c) = []" by (metis length_0_conv length_sort)
  then show ?thesis using m by (auto simp: filter_empty_conv)
qed

lemma cached_delete:
  assumes "distinct (map fst (kc_rows c))" "(cid, r) \<in> set (kc_rows c)"
  shows "cached_bytes c = ca_size r + sum_list (map (\<lambda>(_, r). ca_size r) (AList.delete cid (kc_rows c)))"
  using sum_delete [of "kc_rows c" cid r "\<lambda>_. True" ca_size] assms by (simp add: cached_bytes_def case_prod_beta)

text \<open>One turn of the eviction loop, and what the loop keeps and reaches: the pinned rows stay, the total
  fits the budget at the end, and the most recent row stays when it fits beside the pinned ones.\<close>

lemma evict_step:
  assumes "evict_to_budget c = (c', Ok ())" "cached_bytes c > kc_budget c" "lru_victim c = Some cid"
  obtains c1 where "cache_remove c cid = (c1, Ok ())" "evict_to_budget c1 = (c', Ok ())"
  using assms evict_to_budget.simps [of c]
  by (auto simp: cache_total_def split: if_splits prod.splits result.splits)

lemma evict_stop:
  assumes "evict_to_budget c = (c', Ok ())" "cached_bytes c \<le> kc_budget c \<or> lru_victim c = None"
  shows "c' = c"
  using assms evict_to_budget.simps [of c] by (auto simp: cache_total_def split: if_splits)

lemma evict_fits:
  assumes "evict_to_budget c = (c', Ok ())" "cache_wf c" "pinned_bytes c \<le> kc_budget c"
  shows "cached_bytes c' \<le> kc_budget c' \<and> cache_wf c' \<and> kc_budget c' = kc_budget c \<and>
    filter (\<lambda>(_, r). ca_pinned r) (kc_rows c') = filter (\<lambda>(_, r). ca_pinned r) (kc_rows c)"
  using assms
proof (induction c rule: evict_to_budget.induct)
  case (1 c)
  show ?case
  proof (cases "cached_bytes c \<le> kc_budget c")
    case True
    then show ?thesis using evict_stop [OF 1(2)] 1(3) by simp
  next
    case over: False
    show ?thesis
    proof (cases "lru_victim c")
      case None
      have "filter (\<lambda>(_, r). ca_pinned r) (kc_rows c) = kc_rows c"
        using lru_victim_None [OF None] by (auto simp: filter_id_conv)
      then have "pinned_bytes c = cached_bytes c" by (simp add: pinned_bytes_def cached_bytes_def)
      then show ?thesis using over 1(4) by simp
    next
      case (Some cid)
      obtain c1 where r: "cache_remove c cid = (c1, Ok ())" and e: "evict_to_budget c1 = (c', Ok ())"
        using evict_step [OF 1(2) _ Some] over by auto
      obtain row where row: "(cid, row) \<in> set (kc_rows c)" "\<not> ca_pinned row" using lru_victim_in [OF Some] by blast
      have k: "kc_rows c1 = AList.delete cid (kc_rows c)" "kc_budget c1 = kc_budget c" using cache_remove_rows [OF r] by simp_all
      have pin: "filter (\<lambda>(_, r). ca_pinned r) (kc_rows c1) = filter (\<lambda>(_, r). ca_pinned r) (kc_rows c)"
        using pinned_delete_unpinned [OF _ row] 1(3) by (simp add: k cache_wf_def)
      have tot: "cache_total c = Ok (cached_bytes c)"
        using 1(2) by (auto simp: evict_to_budget.simps [of c] cache_total_def split: if_splits)
      have "cache_wf c1" using 1(3) by (simp add: cache_wf_def k distinct_delete)
      moreover have "pinned_bytes c1 \<le> kc_budget c1" using 1(4) pin by (simp add: pinned_bytes_def k)
      ultimately have "cached_bytes c' \<le> kc_budget c' \<and> cache_wf c' \<and> kc_budget c' = kc_budget c1 \<and>
          filter (\<lambda>(_, r). ca_pinned r) (kc_rows c') = filter (\<lambda>(_, r). ca_pinned r) (kc_rows c1)"
        using 1(1) [OF tot _ Some r [symmetric] refl e] over by simp
      then show ?thesis using pin k(2) by simp
    qed
  qed
qed

lemma evict_keeps_newest:
  assumes "evict_to_budget c = (c', Ok ())" "cache_wf c" "map_of (kc_rows c) cid = Some r"
    and "ca_pinned r \<or> ca_size r + pinned_bytes c \<le> kc_budget c"
    and "\<And>k x. (k, x) \<in> set (kc_rows c) \<Longrightarrow> k \<noteq> cid \<Longrightarrow> ca_seq x < ca_seq r"
  shows "map_of (kc_rows c') cid = Some r \<and> kc_files c' cid = kc_files c cid"
  using assms
proof (induction c rule: evict_to_budget.induct)
  case (1 c)
  show ?case
  proof (cases "cached_bytes c \<le> kc_budget c \<or> lru_victim c = None")
    case True
    then show ?thesis using evict_stop [OF 1(2)] 1(4) by simp
  next
    case False
    then obtain v where over: "cached_bytes c > kc_budget c" and v: "lru_victim c = Some v" by auto
    obtain c1 where rm: "cache_remove c v = (c1, Ok ())" and e: "evict_to_budget c1 = (c', Ok ())"
      using evict_step [OF 1(2) over v] by auto
    have k: "kc_rows c1 = AList.delete v (kc_rows c)" "kc_budget c1 = kc_budget c" using cache_remove_rows [OF rm] by simp_all
    obtain row where row: "(v, row) \<in> set (kc_rows c)" "\<not> ca_pinned row" using lru_victim_in [OF v] by blast
    have dist: "distinct (map fst (kc_rows c))" using 1(3) by (simp add: cache_wf_def)
    have rin: "(cid, r) \<in> set (kc_rows c)" using 1(4) by (rule map_of_SomeD)
    have "v \<noteq> cid"
    proof
      assume eq: "v = cid"
      then have "row = r" using row(1) rin dist eq_key_imp_eq_value by metis
      then have np: "\<not> ca_pinned r" using row(2) by simp
      have all: "ca_pinned x" if "(kk, x) \<in> set (AList.delete cid (kc_rows c))" for kk x
      proof (rule ccontr)
        assume "\<not> ca_pinned x"
        moreover have "(kk, x) \<in> set (kc_rows c)" "kk \<noteq> cid" using that by (auto simp: AList.delete_eq)
        ultimately show False
          using lru_victim_least [OF v dist, of r kk x] 1(6) [of kk x] rin eq by auto
      qed
      have "filter (\<lambda>(_, r). ca_pinned r) (AList.delete cid (kc_rows c)) = AList.delete cid (kc_rows c)"
        using all by (auto simp: filter_id_conv)
      then have "pinned_bytes c = sum_list (map (\<lambda>(_, r). ca_size r) (AList.delete cid (kc_rows c)))"
        using pinned_delete_unpinned [OF dist rin np] by (simp add: pinned_bytes_def)
      then have "cached_bytes c = ca_size r + pinned_bytes c" using cached_delete [OF dist rin] by simp
      then show False using over 1(5) np by simp
    qed
    have tot: "cache_total c = Ok (cached_bytes c)"
      using 1(2) by (auto simp: evict_to_budget.simps [of c] cache_total_def split: if_splits)
    have pin: "pinned_bytes c1 = pinned_bytes c"
      using pinned_delete_unpinned [OF dist row] by (simp add: pinned_bytes_def k)
    have "map_of (kc_rows c') cid = Some r \<and> kc_files c' cid = kc_files c1 cid"
    proof (rule 1(1) [OF tot _ v rm [symmetric] refl e])
      show "\<not> cached_bytes c \<le> kc_budget c" using over by simp
      show "cache_wf c1" using 1(3) by (simp add: cache_wf_def k distinct_delete)
      show "map_of (kc_rows c1) cid = Some r" using 1(4) \<open>v \<noteq> cid\<close> by (simp add: k delete_conv)
      show "ca_pinned r \<or> ca_size r + pinned_bytes c1 \<le> kc_budget c1" using 1(5) by (simp add: pin k)
      show "ca_seq x < ca_seq r" if "(kk, x) \<in> set (kc_rows c1)" "kk \<noteq> cid" for kk x
        using 1(6) that by (auto simp: k AList.delete_eq)
    qed
    moreover have "kc_files c1 cid = kc_files c cid"
      using rm \<open>v \<noteq> cid\<close> by (auto simp: cache_remove_def split: if_splits)
    ultimately show ?thesis by simp
  qed
qed

lemma next_seq_greater: "next_seq c = Ok q \<Longrightarrow> (k, r) \<in> set (kc_rows c) \<Longrightarrow> ca_seq r < q"
proof -
  assume q: "next_seq c = Ok q" and m: "(k, r) \<in> set (kc_rows c)"
  let ?S = "insert 0 (set (map (\<lambda>(_, r). ca_seq r) (kc_rows c)))"
  have "ca_seq r \<in> ?S" using m by force
  then have "ca_seq r \<le> Max ?S" by (intro Max_ge) simp_all
  then show ?thesis using q by (simp add: next_seq_def Let_def split: if_splits)
qed

lemma pinned_update:
  assumes "distinct (map fst rows)"
    and "case map_of rows cid of None \<Rightarrow> \<not> ca_pinned r | Some o' \<Rightarrow> ca_pinned r = ca_pinned o'"
  shows "sum_list (map (\<lambda>(_, r). ca_size r) (filter (\<lambda>(_, r). ca_pinned r) (AList.update cid r rows))) \<le>
    ca_size r + sum_list (map (\<lambda>(_, r). ca_size r) (filter (\<lambda>(_, r). ca_pinned r) rows))"
    and "\<not> ca_pinned r \<Longrightarrow> filter (\<lambda>(_, r). ca_pinned r) (AList.update cid r rows) = filter (\<lambda>(_, r). ca_pinned r) rows"
  using assms by (induction rows) (auto split: option.splits if_splits)

text \<open>An insertion keeps the cache within its budget and never evicts what it has just stored.\<close>

lemma cache_insert_Ok:
  assumes "cache_insert c cid bs = (c', Ok stored)" "cache_wf c" "cached_bytes c \<le> kc_budget c"
  shows "cache_wf c' \<and> cached_bytes c' \<le> kc_budget c' \<and> kc_budget c' = kc_budget c \<and>
    (stored \<longrightarrow> kc_files c' cid = Some bs \<and> (\<exists>r. map_of (kc_rows c') cid = Some r \<and> ca_size r = length bs)) \<and>
    (stored \<longleftrightarrow> length bs + pinned_bytes c \<le> kc_budget c)"
proof (cases stored)
  case False
  have ne: "snd (case evict_to_budget x of (c3, Ok _) \<Rightarrow> (c3, Ok True) | (c3, Err e) \<Rightarrow> (c3, Err e) | (c3, Panic) \<Rightarrow> (c3, Panic)) \<noteq>
      (Ok False :: (bool, SyncError) result)" for x
    by (simp split: prod.split result.split)
  have "c' = c \<and> \<not> length bs + pinned_bytes c \<le> kc_budget c"
    using assms(1) ne False
    by (auto simp: cache_insert_def Let_def split: if_splits result.splits option.splits prod.splits)
  then show ?thesis using assms False by simp
next
  case True
  let ?n = "length bs" and ?c1 = "c\<lparr>kc_files := (kc_files c)(cid \<mapsto> bs)\<rparr>"
  have fit: "?n + pinned_bytes c \<le> kc_budget c"
    using assms(1) True by (auto simp: cache_insert_def Let_def split: if_splits)
  obtain q where q: "next_seq ?c1 = Ok q"
    using assms(1) True by (auto simp: cache_insert_def Let_def split: if_splits result.splits)
  define row where "row = (case map_of (kc_rows c) cid of
      None \<Rightarrow> \<lparr>ca_size = ?n, ca_seq = q, ca_pinned = False\<rparr> | Some r \<Rightarrow> r\<lparr>ca_size := ?n, ca_seq := q\<rparr>)"
  define c2 where "c2 = ?c1\<lparr>kc_rows := AList.update cid row (kc_rows c)\<rparr>"
  have e: "evict_to_budget c2 = (c', Ok ())"
    using assms(1) True q by (auto simp: cache_insert_def Let_def c2_def row_def split: if_splits result.splits prod.splits)
  have dist: "distinct (map fst (kc_rows c))" using assms(2) by (simp add: cache_wf_def)
  have size: "ca_size row = ?n" "ca_seq row = q" by (simp_all add: row_def split: option.split)
  have pin: "case map_of (kc_rows c) cid of None \<Rightarrow> \<not> ca_pinned row | Some o' \<Rightarrow> ca_pinned row = ca_pinned o'"
    by (simp add: row_def split: option.split)
  have wf2: "cache_wf c2" using dist by (simp add: cache_wf_def c2_def distinct_update)
  have p2: "pinned_bytes c2 \<le> kc_budget c2"
    using pinned_update(1) [OF dist pin] fit size by (simp add: pinned_bytes_def c2_def)
  have m2: "map_of (kc_rows c2) cid = Some row" by (simp add: c2_def update_conv)
  have guard: "ca_pinned row \<or> ca_size row + pinned_bytes c2 \<le> kc_budget c2"
    using pinned_update(2) [OF dist pin] fit size by (cases "ca_pinned row") (simp_all add: pinned_bytes_def c2_def)
  have newest: "ca_seq x < ca_seq row" if "(k, x) \<in> set (kc_rows c2)" "k \<noteq> cid" for k x
  proof -
    have "map_of (kc_rows c2) k = Some x" using that(1) wf2 by (simp add: cache_wf_def)
    then have "(k, x) \<in> set (kc_rows ?c1)" using that(2) by (auto simp: c2_def update_conv dest: map_of_SomeD)
    then show ?thesis using next_seq_greater [OF q] size by simp
  qed
  have "kc_files c2 cid = Some bs" by (simp add: c2_def)
  then show ?thesis
    using evict_keeps_newest [OF e wf2 m2 guard newest] evict_fits [OF e wf2 p2] size fit True
    by (auto simp: c2_def)
qed

section \<open>Lemmas: placeholders and the index\<close>

lemma placeholder_round_trip:
  assumes "cbor_law Y" "placeholder_record Y ps path entry = Ok ps'"
  shows "placeholder_get Y ps' path = Ok (Some entry)"
    "q \<noteq> path \<Longrightarrow> placeholder_get Y ps' q = placeholder_get Y ps q"
  using assms by (auto simp: placeholder_record_def placeholder_get_def decode_placeholder_def cbor_law_def update_conv split: sum.splits)

lemma placeholder_remove_get: "placeholder_get Y (placeholder_remove ps path) q = (if q = path then Ok None else placeholder_get Y ps q)"
  by (simp add: placeholder_get_def placeholder_remove_def delete_conv)

lemma placeholder_all_Ok:
  assumes "placeholder_all Y ps = Ok t" "distinct (map fst ps)"
  shows "btree_wf t \<and> (\<forall>p. placeholder_get Y ps p = Ok (bt_get t p))"
  using assms
proof (induction ps arbitrary: t)
  case Nil
  then show ?case by (auto simp: btree_wf_def placeholder_get_def bt_get_def)
next
  case (Cons a ps)
  obtain path blob where a: "a = (path, blob)" by (cases a)
  obtain e t' where e: "decode_placeholder Y path blob = Ok e" and t': "placeholder_all Y ps = Ok t'"
    and t: "t = bt_insert path e t'"
    using Cons.prems(1) by (auto simp: a result_bind_Ok)
  have ih: "btree_wf t'" "\<And>p. placeholder_get Y ps p = Ok (bt_get t' p)" using Cons.IH [OF t'] Cons.prems(2) by auto
  show ?case
    using ih e by (auto simp: t a btree_wf_insert bt_get_insert placeholder_get_def)
qed

text \<open>A hit of the index is the entry that was stored for the same name, time and size.\<close>

lemma index_store_lookup:
  assumes "cbor_law Y" "index_store Y ix path entry = (ix', Ok ())"
  shows "\<exists>ix2. index_lookup Y ix' path (fe_mtime_secs entry) (fe_mtime_nanos entry) (fe_size entry) = (ix2, Ok (Some entry))"
  using assms by (auto simp: index_store_def index_lookup_def cbor_law_def update_conv split: sum.splits if_splits)

end
