(* ===== verification/Sync_Fs.thy ===== *)
theory Sync_Fs
  imports Sync_State Server_Laws
begin

text \<open>
  The local tree: \<^verbatim>\<open>ciss-sync/src/scan.rs\<close> (walking it into a manifest) and
  \<^verbatim>\<open>ciss-sync/src/materialize.rs\<close> (the one verified write). A directory tree is the list of its files in
  the order the walk meets them, keyed by the path below the root with forward slashes; a predicate
  says which system call on which path fails. Paths are compared as text.
\<close>

section \<open>The file system\<close>

text \<open>Content, mode and modification time in nanoseconds since the epoch. A symbolic link carries what
  reading through it finds.\<close>

type_synonym file_data = "bytes \<times> nat \<times> int"

datatype fnode = Regular file_data | Symlink "file_data option" | Special

datatype FsCall = FReadDir | FFileType | FMetadata | FReadFile | FCreateDir | FWriteFile | FSetPermissions | FOpenFile
  | FSetModified | FRenameFile | FRemoveFile

record TreeFs =
  tf_nodes :: "(string \<times> fnode) list"
  tf_fault :: "FsCall \<Rightarrow> string \<Rightarrow> bool"
  tf_utf8 :: "string \<Rightarrow> bool"
  tf_new_mode :: nat
  tf_now :: int

definition read_target :: "TreeFs \<Rightarrow> string \<Rightarrow> file_data option" where
  "read_target F p =
     (case map_of (tf_nodes F) p of
        Some (Regular f) \<Rightarrow> Some f
      | Some (Symlink t) \<Rightarrow> t
      | _ \<Rightarrow> None)"

definition tree_path_exists :: "TreeFs \<Rightarrow> string \<Rightarrow> bool" where
  "tree_path_exists F p \<longleftrightarrow>
     (case map_of (tf_nodes F) p of
        Some (Symlink t) \<Rightarrow> t \<noteq> None
      | Some _ \<Rightarrow> True
      | None \<Rightarrow> list_ex (\<lambda>(q, _). starts_with (p @ ''/'') q) (tf_nodes F))"

definition fs_read :: "TreeFs \<Rightarrow> string \<Rightarrow> (bytes, SyncError) result" where
  "fs_read F p =
     (case read_target F p of
        Some (bs, _, _) \<Rightarrow> if tf_fault F FReadFile p then Err (SIo p) else Ok bs
      | None \<Rightarrow> Err (SIo p))"

definition fs_metadata :: "TreeFs \<Rightarrow> string \<Rightarrow> (file_data, SyncError) result" where
  "fs_metadata F p =
     (case read_target F p of
        Some f \<Rightarrow> if tf_fault F FMetadata p then Err (SIo p) else Ok f
      | None \<Rightarrow> Err (SIo p))"

definition fs_remove_file :: "TreeFs \<Rightarrow> string \<Rightarrow> TreeFs \<times> (unit, SyncError) result" where
  "fs_remove_file F p =
     (if map_of (tf_nodes F) p = None \<or> tf_fault F FRemoveFile p then (F, Err (SIo p))
      else (F\<lparr>tf_nodes := AList.delete p (tf_nodes F)\<rparr>, Ok ()))"

section \<open>scan.rs\<close>

definition mtime_parts :: "int \<Rightarrow> string \<Rightarrow> (i64 \<times> nat, SyncError) result" where
  "mtime_parts t p =
     (if t \<ge> 0 then
        if t div 1000000000 > int i64_max then Err (SIo p) else Ok (t div 1000000000, nat (t mod 1000000000))
      else
        let d = - t in
        if d div 1000000000 > int i64_max then Err (SIo p) else Ok (- (d div 1000000000), nat (d mod 1000000000)))"

definition file_entry_for :: "ext \<Rightarrow> sync_ext \<Rightarrow> string \<Rightarrow> file_data \<Rightarrow> bytes \<Rightarrow> (FileEntry, SyncError) result" where
  "file_entry_for X Y p meta bs =
     (case meta of (_, mode, mtime) \<Rightarrow>
        result_bind (mtime_parts mtime p) (\<lambda>(secs, nanos).
        result_bind (chunk_file X Y bs) (\<lambda>cs.
          Ok \<lparr>fe_mode = mode mod 4096, fe_mtime_secs = secs, fe_mtime_nanos = nanos, fe_size = length bs,
              fe_chunks = map ck_ref cs\<rparr>)))"

definition entry_for :: "ext \<Rightarrow> sync_ext \<Rightarrow> TreeFs \<Rightarrow> string \<Rightarrow> file_data \<Rightarrow> (FileEntry, SyncError) result" where
  "entry_for X Y F p meta = result_bind (fs_read F p) (file_entry_for X Y p meta)"

text \<open>The entry of one regular file, through the index when there is one.\<close>

definition scan_file ::
  "ext \<Rightarrow> sync_ext \<Rightarrow> TreeFs \<Rightarrow> string \<Rightarrow> file_data \<Rightarrow> Index option \<Rightarrow> Index option \<times> (FileEntry, SyncError) result" where
  "scan_file X Y F p f index =
     (case f of (bs, mode, mtime) \<Rightarrow>
        sbind (index, mtime_parts mtime p) (\<lambda>index (secs, nanos).
          case index of
            None \<Rightarrow> (None, entry_for X Y F p f)
          | Some ix \<Rightarrow>
              (case index_lookup Y ix p secs nanos (length bs) of
                 (ix1, Ok (Some hit)) \<Rightarrow> (Some ix1, Ok hit)
               | (ix1, Ok None) \<Rightarrow>
                   sbind (Some ix1, entry_for X Y F p f) (\<lambda>_ fresh.
                     case index_store Y ix1 p fresh of
                       (ix2, Ok _) \<Rightarrow> (Some ix2, Ok fresh)
                     | (ix2, Err e) \<Rightarrow> (Some ix2, Err e)
                     | (ix2, Panic) \<Rightarrow> (Some ix2, Panic))
               | (ix1, Err e) \<Rightarrow> (Some ix1, Err e)
               | (ix1, Panic) \<Rightarrow> (Some ix1, Panic))))"

fun walk ::
  "ext \<Rightarrow> sync_ext \<Rightarrow> TreeFs \<Rightarrow> (string \<times> fnode) list \<Rightarrow> FsManifest \<Rightarrow> Index option \<Rightarrow>
   Index option \<times> (FsManifest, SyncError) result" where
  "walk X Y F [] m index = (index, Ok m)"
| "walk X Y F ((p, node) # rest) m index =
     (if tf_fault F FReadDir p \<or> tf_fault F FFileType p then (index, Err (SIo p))
      else case node of
        Symlink _ \<Rightarrow> walk X Y F rest m index
      | Special \<Rightarrow> walk X Y F rest m index
      | Regular f \<Rightarrow>
          if \<not> tf_utf8 F p then (index, Err (NonUtf8Path p))
          else if tf_fault F FMetadata p then (index, Err (SIo p))
          else sbind (scan_file X Y F p f index) (\<lambda>index entry. walk X Y F rest (fm_insert p entry m) index))"

definition scan_tree :: "ext \<Rightarrow> sync_ext \<Rightarrow> TreeFs \<Rightarrow> (FsManifest, SyncError) result" where
  "scan_tree X Y F = snd (walk X Y F (tf_nodes F) fs_manifest_new None)"

definition scan_tree_indexed :: "ext \<Rightarrow> sync_ext \<Rightarrow> TreeFs \<Rightarrow> Index \<Rightarrow> Index option \<times> (FsManifest, SyncError) result" where
  "scan_tree_indexed X Y F ix = walk X Y F (tf_nodes F) fs_manifest_new (Some ix)"

section \<open>materialize.rs\<close>

fun split_last :: "string \<Rightarrow> string \<times> string" where
  "split_last [] = ([], [])"
| "split_last (c # s) =
     (let (d, b) = split_last s in
      if CHR ''/'' \<in> set (c # s) then (if CHR ''/'' \<in> set s then (c # d, b) else ([c], s)) else ([], c # s))"

definition tmp_name :: "string \<Rightarrow> string" where
  "tmp_name p = (case split_last p of (d, b) \<Rightarrow> d @ ''.ciss-restore-'' @ b @ ''.tmp'')"

definition put_node :: "TreeFs \<Rightarrow> string \<Rightarrow> file_data \<Rightarrow> TreeFs" where
  "put_node F p f = F\<lparr>tf_nodes := AList.update p (Regular f) (tf_nodes F)\<rparr>"

definition restore_metadata :: "TreeFs \<Rightarrow> string \<Rightarrow> file_data \<Rightarrow> FileEntry \<Rightarrow> TreeFs \<times> (unit, SyncError) result" where
  "restore_metadata F p f entry =
     (case f of (bs, mode, mtime) \<Rightarrow>
      if tf_fault F FSetPermissions p then (F, Err (SIo p))
      else let F1 = put_node F p (bs, fe_mode entry, mtime) in
           if fe_mtime_secs entry \<ge> 0 then
             let t = fe_mtime_secs entry * 1000000000 + int (fe_mtime_nanos entry) in
             if t div 1000000000 > int i64_max then (F1, Panic)
             else if tf_fault F FOpenFile p then (F1, Err (SIo p))
             else if tf_fault F FSetModified p then (F1, Err (SIo p))
             else (put_node F1 p (bs, fe_mode entry, t), Ok ())
           else (F1, Ok ()))"

text \<open>A write that fails leaves the truncated temporary file.\<close>

definition write_verified_file ::
  "TreeFs \<Rightarrow> string \<Rightarrow> FileEntry \<Rightarrow> bytes \<Rightarrow> TreeFs \<times> (unit, SyncError) result" where
  "write_verified_file F p entry content =
     (let tmp = tmp_name p in
      if length content \<noteq> fe_size entry
        then (F, Err (SDecode (p @ '': reassembled '' @ show_nat (length content) @ '' bytes, manifest says '' @
               show_nat (fe_size entry))))
      else if tf_fault F FCreateDir p then (F, Err (SIo (fst (split_last p))))
      else if tf_fault F FWriteFile tmp then (put_node F tmp ([], tf_new_mode F, tf_now F), Err (SIo tmp))
      else
        sbind (restore_metadata (put_node F tmp (content, tf_new_mode F, tf_now F)) tmp (content, tf_new_mode F, tf_now F) entry)
          (\<lambda>F _.
             if tf_fault F FRenameFile tmp then (F, Err (SIo p))
             else case map_of (tf_nodes F) tmp of
               Some node \<Rightarrow> (F\<lparr>tf_nodes := AList.update p node (AList.delete tmp (tf_nodes F))\<rparr>, Ok ())
             | None \<Rightarrow> (F, Err (SIo p))))"

section \<open>Lemmas: the scan\<close>

lemma mtime_parts_nonneg: "mtime_parts t p = Ok (s, n) \<Longrightarrow> 0 \<le> t \<Longrightarrow> s * 1000000000 + int n = t \<and> 0 \<le> s \<and> n < 1000000000"
  by (auto simp: mtime_parts_def div_mult_mod_eq nat_less_iff split: if_splits)

text \<open>A time within the second before the epoch is recorded as one after it.\<close>

lemma mtime_parts_folds_sign: "mtime_parts (- 500000000) p = mtime_parts 500000000 p"
  by (simp add: mtime_parts_def i64_max_def)

text \<open>The files the walk turns into entries.\<close>

definition regular_files :: "TreeFs \<Rightarrow> (string \<times> file_data) list" where
  "regular_files F = List.map_filter (\<lambda>(p, n). case n of Regular f \<Rightarrow> Some (p, f) | _ \<Rightarrow> None) (tf_nodes F)"

definition tree_wf :: "TreeFs \<Rightarrow> bool" where
  "tree_wf F \<longleftrightarrow> distinct (map fst (tf_nodes F))"

lemma scan_file_fresh:
  assumes "scan_file X Y F p f None = (ix, Ok e)"
  shows "ix = None \<and> entry_for X Y F p f = Ok e"
  using assms by (cases f) (auto simp: scan_file_def sbind_Ok)

lemma walk_entries:
  assumes "walk X Y F rest m None = (ix, Ok m')" "btree_wf (fm_entries m)" "distinct (map fst rest)"
  shows "btree_wf (fm_entries m') \<and> fm_kind m' = fm_kind m \<and>
    (\<forall>p. bt_get (fm_entries m') p =
       (case map_of rest p of
          Some (Regular f) \<Rightarrow> (case entry_for X Y F p f of Ok e \<Rightarrow> Some e | _ \<Rightarrow> None)
        | _ \<Rightarrow> bt_get (fm_entries m) p)) \<and>
    (\<forall>p f. map_of rest p = Some (Regular f) \<longrightarrow> is_ok (entry_for X Y F p f))"
  using assms
proof (induction rest arbitrary: m)
  case Nil
  then show ?case by auto
next
  case (Cons a rest)
  obtain q node where a: "a = (q, node)" by (cases a)
  have d: "distinct (map fst rest)" "map_of rest q = None"
    using Cons.prems(3) by (auto simp: a map_of_eq_None_iff)
  show ?case
  proof (cases node)
    case (Regular f)
    obtain ix1 e where s: "scan_file X Y F q f None = (ix1, Ok e)" and w: "walk X Y F rest (fm_insert q e m) ix1 = (ix, Ok m')"
      using Cons.prems(1) by (auto simp: a Regular sbind_Ok split: if_splits)
    note sf = scan_file_fresh [OF s]
    have "btree_wf (fm_entries (fm_insert q e m))" using Cons.prems(2) by (simp add: fm_insert_def btree_wf_insert)
    from Cons.IH [OF w [unfolded conjunct1 [OF sf]] this d(1)] show ?thesis
      using sf d(2) Cons.prems(2) by (auto simp: a Regular fm_insert_def bt_get_insert split: option.splits fnode.splits)
  next
    case (Symlink t)
    then have w: "walk X Y F rest m None = (ix, Ok m')" using Cons.prems(1) by (auto simp: a split: if_splits)
    show ?thesis using Cons.IH [OF w Cons.prems(2) d(1)] d(2) by (auto simp: a Symlink)
  next
    case Special
    then have w: "walk X Y F rest m None = (ix, Ok m')" using Cons.prems(1) by (auto simp: a split: if_splits)
    show ?thesis using Cons.IH [OF w Cons.prems(2) d(1)] d(2) by (auto simp: a Special)
  qed
qed

lemma scan_tree_Ok:
  assumes "scan_tree X Y F = Ok m" "tree_wf F"
  shows "btree_wf (fm_entries m)" "fm_kind m = FS_MANIFEST_KIND"
    "bt_get (fm_entries m) p = Some e \<longleftrightarrow> (\<exists>f. map_of (tf_nodes F) p = Some (Regular f) \<and> entry_for X Y F p f = Ok e)"
    "map_of (tf_nodes F) p = Some (Regular f) \<Longrightarrow> is_ok (entry_for X Y F p f)"
proof -
  obtain ix where "walk X Y F (tf_nodes F) fs_manifest_new None = (ix, Ok m)"
    using assms(1) by (cases "walk X Y F (tf_nodes F) fs_manifest_new None") (auto simp: scan_tree_def)
  note w = walk_entries [OF this]
  have ok: "btree_wf (fm_entries fs_manifest_new)" "distinct (map fst (tf_nodes F))"
    using assms(2) by (simp_all add: fs_manifest_new_def btree_wf_def tree_wf_def)
  show "btree_wf (fm_entries m)" "fm_kind m = FS_MANIFEST_KIND" using w [OF ok] by (simp_all add: fs_manifest_new_def)
  show regular: "is_ok (entry_for X Y F p f)" if "map_of (tf_nodes F) p = Some (Regular f)" for f
    using w [OF ok] that by blast
  have get: "bt_get (fm_entries m) p =
       (case map_of (tf_nodes F) p of
          Some (Regular f) \<Rightarrow> (case entry_for X Y F p f of Ok e \<Rightarrow> Some e | _ \<Rightarrow> None)
        | _ \<Rightarrow> None)"
  proof -
    have "bt_get (fm_entries fs_manifest_new) p = None" by (simp add: fs_manifest_new_def bt_get_def)
    moreover have "bt_get (fm_entries m) p =
       (case map_of (tf_nodes F) p of
          Some (Regular f) \<Rightarrow> (case entry_for X Y F p f of Ok e \<Rightarrow> Some e | _ \<Rightarrow> None)
        | _ \<Rightarrow> bt_get (fm_entries fs_manifest_new) p)" using w [OF ok] by blast
    ultimately show ?thesis by (simp split: option.split fnode.split)
  qed
  show "bt_get (fm_entries m) p = Some e \<longleftrightarrow> (\<exists>f. map_of (tf_nodes F) p = Some (Regular f) \<and> entry_for X Y F p f = Ok e)"
    unfolding get using regular by (auto split: option.splits fnode.splits result.splits)
qed

section \<open>Lemmas: the verified write\<close>

lemma split_last_append: "split_last p = (d, b) \<Longrightarrow> p = d @ b"
  by (induction p arbitrary: d b) (auto simp: Let_def split: prod.splits if_splits)

lemma tmp_name_fresh: "tmp_name p \<noteq> p"
proof
  assume eq: "tmp_name p = p"
  obtain d b where s: "split_last p = (d, b)" by (cases "split_last p")
  have "length (tmp_name p) = length d + length b + 18" by (simp add: tmp_name_def s)
  then show False using split_last_append [OF s] eq by simp
qed

lemma put_node_simps [simp]:
  "map_of (tf_nodes (put_node F p f)) = (map_of (tf_nodes F))(p \<mapsto> Regular f)"
  "tf_fault (put_node F p f) = tf_fault F" "tf_now (put_node F p f) = tf_now F"
  "tf_new_mode (put_node F p f) = tf_new_mode F" "tf_utf8 (put_node F p f) = tf_utf8 F"
  by (simp_all add: put_node_def update_conv')

lemma tree_wf_put: "tree_wf F \<Longrightarrow> tree_wf (put_node F p f)"
  by (simp add: tree_wf_def put_node_def distinct_update)

text \<open>The time a restored file carries.\<close>

definition restored_time :: "TreeFs \<Rightarrow> FileEntry \<Rightarrow> int" where
  "restored_time F e = (if fe_mtime_secs e \<ge> 0 then fe_mtime_secs e * 1000000000 + int (fe_mtime_nanos e) else tf_now F)"

text \<open>The time a recorded one is restored to: itself from the epoch on, the time of the write when it is a
  second or more before the epoch, and its mirror image in the second before.\<close>

definition kept_time :: "int \<Rightarrow> int \<Rightarrow> int" where
  "kept_time now t = (if 0 \<le> t then t else if t \<le> - 1000000000 then now else - t)"

lemma restored_recorded:
  assumes "mtime_parts t p = Ok (fe_mtime_secs e, fe_mtime_nanos e)"
  shows "restored_time F e = kept_time (tf_now F) t"
proof (cases "0 \<le> t \<or> t \<le> - 1000000000")
  case True
  have "1 \<le> (- t) div 1000000000" if "t \<le> - 1000000000" using that zdiv_mono1 [of 1000000000 "- t" 1000000000] by simp
  then show ?thesis using assms True mtime_parts_nonneg [of t p "fe_mtime_secs e" "fe_mtime_nanos e"]
    by (auto simp: restored_time_def kept_time_def mtime_parts_def Let_def split: if_splits)
next
  case False
  then have "(- t) div 1000000000 = 0" "(- t) mod 1000000000 = - t" by (simp_all add: div_pos_pos_trivial mod_pos_pos_trivial)
  with assms False show ?thesis by (auto simp: restored_time_def kept_time_def mtime_parts_def Let_def split: if_splits)
qed

lemma restore_metadata_frame:
  assumes "restore_metadata F p f e = (F', r)" "map_of (tf_nodes F) p \<noteq> None"
  shows "(\<forall>q. q \<noteq> p \<longrightarrow> map_of (tf_nodes F') q = map_of (tf_nodes F) q) \<and> map_of (tf_nodes F') p \<noteq> None \<and>
    tf_fault F' = tf_fault F \<and> tf_now F' = tf_now F \<and> tf_new_mode F' = tf_new_mode F \<and> tf_utf8 F' = tf_utf8 F"
  using assms by (cases f) (auto simp: restore_metadata_def Let_def split: if_splits)

lemma restore_metadata_Ok:
  assumes "restore_metadata F p (bs, m, tf_now F) e = (F', Ok ())"
  shows "map_of (tf_nodes F') p = Some (Regular (bs, fe_mode e, restored_time F e))"
  using assms by (auto simp: restore_metadata_def Let_def restored_time_def split: if_splits)

lemma write_verified_file_cases:
  assumes "write_verified_file F p e content = (F', r)"
  shows "r = Ok () \<and> length content = fe_size e \<and>
      map_of (tf_nodes F') p = Some (Regular (content, fe_mode e, restored_time F e)) \<and>
      (\<forall>q. q \<noteq> p \<and> q \<noteq> tmp_name p \<longrightarrow> map_of (tf_nodes F') q = map_of (tf_nodes F) q) \<or>
    r \<noteq> Ok () \<and> (\<forall>q. q \<noteq> tmp_name p \<longrightarrow> map_of (tf_nodes F') q = map_of (tf_nodes F) q)"
proof -
  let ?t = "tmp_name p" and ?c = "(content, tf_new_mode F, tf_now F)"
  let ?F1 = "put_node F ?t ?c"
  obtain F2 r2 where m: "restore_metadata ?F1 ?t ?c e = (F2, r2)" by (cases "restore_metadata ?F1 ?t ?c e")
  note frame = restore_metadata_frame [OF m]
  have meta: "map_of (tf_nodes F2) ?t = Some (Regular (content, fe_mode e, restored_time F e))" if "r2 = Ok ()"
    using restore_metadata_Ok [of ?F1 ?t content "tf_new_mode F" e F2] m that by (simp add: restored_time_def)
  show ?thesis
  proof (cases "length content = fe_size e \<and> \<not> tf_fault F FCreateDir p \<and> \<not> tf_fault F FWriteFile ?t")
    case False
    then show ?thesis using assms by (auto simp: write_verified_file_def Let_def split: if_splits)
  next
    case True
    then have w: "sbind (F2, r2) (\<lambda>F _.
             if tf_fault F FRenameFile ?t then (F, Err (SIo p))
             else case map_of (tf_nodes F) ?t of
               Some node \<Rightarrow> (F\<lparr>tf_nodes := AList.update p node (AList.delete ?t (tf_nodes F))\<rparr>, Ok ())
             | None \<Rightarrow> (F, Err (SIo p))) = (F', r)"
      using assms m by (simp add: write_verified_file_def Let_def)
    show ?thesis
    proof (cases r2)
      case (Ok u)
      then show ?thesis
        using w True frame meta tmp_name_fresh [of p]
        by (auto simp: update_conv delete_conv split: if_splits)
    qed (use w frame in auto)
  qed
qed

text \<open>A failed write leaves the destination as it was.\<close>

lemma write_verified_file_Ok:
  assumes "write_verified_file F p e content = (F', Ok ())"
  shows "length content = fe_size e" "map_of (tf_nodes F') p = Some (Regular (content, fe_mode e, restored_time F e))"
    "q \<noteq> p \<Longrightarrow> q \<noteq> tmp_name p \<Longrightarrow> map_of (tf_nodes F') q = map_of (tf_nodes F) q"
  using write_verified_file_cases [OF assms] by auto

lemma write_verified_file_fails:
  assumes "write_verified_file F p e content = (F', r)" "r \<noteq> Ok ()" "q \<noteq> tmp_name p"
  shows "map_of (tf_nodes F') q = map_of (tf_nodes F) q"
  using write_verified_file_cases [OF assms(1)] assms(2,3) by auto

end
