(* ===== verification/Sync_Fold.thy ===== *)
theory Sync_Fold
  imports Sync_Data "HOL-Library.Product_Lexorder"
begin

text \<open>
  \<^verbatim>\<open>ciss-sync/src/fold.rs\<close>: the current tree as a function of the devices' trees and the last converged
  base. The lemmas: what each path becomes, that an edit is never lost as long as the names of the
  conflict copies are free, that an unopposed deletion propagates, and that a converged pool is
  stable. \<open>fold_loses_a_copy\<close> is the case where a copy's name is taken.
\<close>

record ConflictNote =
  cn_path :: string
  cn_winner :: string
  cn_loser :: string
  cn_loser_path :: string

record FoldOutcome =
  fo_tree :: FsManifest
  fo_conflicts :: "ConflictNote list"

definition entry_digest :: "ext \<Rightarrow> sync_ext \<Rightarrow> FileEntry \<Rightarrow> (string, SyncError) result" where
  "entry_digest X Y e =
     (case cbor_entry Y e of
        Inl t \<Rightarrow> Err (SEncode (''entry digest: '' @ t))
      | Inr bs \<Rightarrow> Ok (digest_hex X bs))"

definition same_content :: "FileEntry \<Rightarrow> FileEntry \<Rightarrow> bool" where
  "same_content a b \<longleftrightarrow> fe_size a = fe_size b \<and> fe_chunks a = fe_chunks b"

definition is_changed :: "FileEntry option \<Rightarrow> FileEntry option \<Rightarrow> bool" where
  "is_changed base_entry entry =
     (case (base_entry, entry) of
        (Some b, Some e) \<Rightarrow> \<not> same_content b e
      | (None, Some _) \<Rightarrow> True
      | (Some _, None) \<Rightarrow> True
      | (None, None) \<Rightarrow> False)"

text \<open>The loop over the heads: the devices that changed the path, and the entry an unchanged path
  keeps.\<close>

fun scan_heads ::
  "FileEntry option \<Rightarrow> string \<Rightarrow> FsManifest btree \<Rightarrow> FileEntry option \<Rightarrow>
   (string \<times> FileEntry option) list \<times> FileEntry option" where
  "scan_heads base_entry path [] unchanged = ([], unchanged)"
| "scan_heads base_entry path ((device, head_tree) # heads) unchanged =
     (let entry = bt_get (fm_entries head_tree) path in
      if is_changed base_entry entry
      then (let (changed, u) = scan_heads base_entry path heads unchanged in ((device, entry) # changed, u))
      else scan_heads base_entry path heads (if entry = None then unchanged else entry))"

fun collect_edits ::
  "(string \<times> FileEntry) list \<Rightarrow> (string \<times> FileEntry option) list \<Rightarrow> (string \<times> FileEntry) list" where
  "collect_edits edits [] = edits"
| "collect_edits edits ((device, None) # changed) = collect_edits edits changed"
| "collect_edits edits ((device, Some e) # changed) =
     (if list_ex (\<lambda>(_, kept). same_content kept e) edits then collect_edits edits changed
      else collect_edits (edits @ [(device, e)]) changed)"

fun rank_edits ::
  "ext \<Rightarrow> sync_ext \<Rightarrow> (string \<times> FileEntry) list \<Rightarrow> ((string \<times> string \<times> FileEntry) list, SyncError) result" where
  "rank_edits X Y [] = Ok []"
| "rank_edits X Y ((device, e) # edits) =
     result_bind (entry_digest X Y e) (\<lambda>d. result_bind (rank_edits X Y edits) (\<lambda>rs. Ok ((d, device, e) # rs)))"

definition conflict_path :: "string \<Rightarrow> string \<Rightarrow> string" where
  "conflict_path path device = path @ ''.conflict-'' @ device"

text \<open>One path: the insertions it makes into the tree, in order, and the conflicts it confs.\<close>

definition fold_path ::
  "ext \<Rightarrow> sync_ext \<Rightarrow> FsManifest btree \<Rightarrow> FsManifest option \<Rightarrow> string \<Rightarrow>
   ((string \<times> FileEntry) list \<times> ConflictNote list, SyncError) result" where
  "fold_path X Y heads base path =
     (let base_entry = (case base of None \<Rightarrow> None | Some b \<Rightarrow> bt_get (fm_entries b) path);
          (changed, unchanged_entry) = scan_heads base_entry path heads base_entry;
          edits = collect_edits [] changed;
          any_delete = list_ex (\<lambda>(_, e). e = None) changed
      in case edits of
           [] \<Rightarrow> Ok (if any_delete then ([], [])
                     else (case unchanged_entry of Some e \<Rightarrow> ([(path, e)], []) | None \<Rightarrow> ([], [])))
         | [(_, e)] \<Rightarrow> Ok ([(path, e)], [])
         | _ \<Rightarrow>
             result_bind (rank_edits X Y edits) (\<lambda>rs.
               case sort_key (\<lambda>(d, device, _). (d, device)) rs of
                 [] \<Rightarrow> Panic
               | (_, winner, winner_entry) # losers \<Rightarrow>
                   Ok ((path, winner_entry) # map (\<lambda>(_, loser, e). (conflict_path path loser, e)) losers,
                       map (\<lambda>(_, loser, _). \<lparr>cn_path = path, cn_winner = winner, cn_loser = loser,
                              cn_loser_path = conflict_path path loser\<rparr>) losers)))"

definition fold_keys :: "FsManifest btree \<Rightarrow> FsManifest option \<Rightarrow> string list" where
  "fold_keys heads base =
     remdups (sort (concat (map (\<lambda>(_, t). map fst (fm_entries t)) heads) @
       (case base of None \<Rightarrow> [] | Some b \<Rightarrow> map fst (fm_entries b))))"

fun fold_loop ::
  "ext \<Rightarrow> sync_ext \<Rightarrow> FsManifest btree \<Rightarrow> FsManifest option \<Rightarrow> string list \<Rightarrow> FsManifest \<Rightarrow> ConflictNote list \<Rightarrow>
   (FoldOutcome, SyncError) result" where
  "fold_loop X Y heads base [] tree conflicts = Ok \<lparr>fo_tree = tree, fo_conflicts = conflicts\<rparr>"
| "fold_loop X Y heads base (path # ps) tree conflicts =
     result_bind (fold_path X Y heads base path) (\<lambda>(ins, confs).
       fold_loop X Y heads base ps (foldl (\<lambda>t (p, e). fm_insert p e t) tree ins) (conflicts @ confs))"

definition fold_trees ::
  "ext \<Rightarrow> sync_ext \<Rightarrow> FsManifest btree \<Rightarrow> FsManifest option \<Rightarrow> (FoldOutcome, SyncError) result" where
  "fold_trees X Y heads base = fold_loop X Y heads base (fold_keys heads base) fs_manifest_new []"

section \<open>What a path becomes\<close>

definition base_at :: "FsManifest option \<Rightarrow> string \<Rightarrow> FileEntry option" where
  "base_at base path = (case base of None \<Rightarrow> None | Some b \<Rightarrow> bt_get (fm_entries b) path)"

definition head_at :: "FsManifest btree \<Rightarrow> string \<Rightarrow> (string \<times> FileEntry option) list" where
  "head_at heads path = map (\<lambda>(d, t). (d, bt_get (fm_entries t) path)) heads"

definition changes :: "FsManifest btree \<Rightarrow> FsManifest option \<Rightarrow> string \<Rightarrow> (string \<times> FileEntry option) list" where
  "changes heads base path = filter (\<lambda>(d, e). is_changed (base_at base path) e) (head_at heads path)"

lemma scan_heads_changed:
  "fst (scan_heads b p hs u) = filter (\<lambda>(d, e). is_changed b e) (head_at hs p)"
  by (induction b p hs u rule: scan_heads.induct) (auto simp: head_at_def Let_def split: prod.splits)

lemma scan_heads_unchanged:
  "snd (scan_heads b p hs u) = u \<or> (\<exists>(d, t) \<in> set hs. bt_get (fm_entries t) p = snd (scan_heads b p hs u))"
proof (induction hs arbitrary: u)
  case (Cons h hs)
  obtain d t where h: "h = (d, t)" by (cases h)
  consider "is_changed b (bt_get (fm_entries t) p)" | "\<not> is_changed b (bt_get (fm_entries t) p)" by blast
  then show ?case
  proof cases
    case 1
    then show ?thesis using Cons [of u] by (auto simp: h Let_def split: prod.splits)
  next
    case 2
    then show ?thesis
      using Cons [of "if bt_get (fm_entries t) p = None then u else bt_get (fm_entries t) p"]
      by (auto simp: h Let_def split: if_splits)
  qed
qed simp

lemma scan_heads_same:
  assumes "\<And>d t. (d, t) \<in> set hs \<Longrightarrow> bt_get (fm_entries t) p = Some x" "\<not> is_changed b (Some x)"
  shows "snd (scan_heads b p hs u) = (if hs = [] then u else Some x)"
  using assms(1)
proof (induction hs arbitrary: u)
  case (Cons h hs)
  obtain d t where h: "h = (d, t)" by (cases h)
  have t: "bt_get (fm_entries t) p = Some x" using Cons.prems [of d t] h by simp
  have "snd (scan_heads b p hs (Some x)) = (if hs = [] then Some x else Some x)"
    by (rule Cons.IH) (use Cons.prems h in auto)
  then show ?case using assms(2) by (simp add: h t Let_def)
qed simp

lemma same_content_refl [simp]: "same_content a a"
  by (simp add: same_content_def)

lemma collect_edits_mono: "set ed \<subseteq> set (collect_edits ed ch)"
  by (induction ed ch rule: collect_edits.induct) auto

lemma collect_edits_from: "(d, e) \<in> set (collect_edits ed ch) \<Longrightarrow> (d, e) \<in> set ed \<or> (d, Some e) \<in> set ch"
  by (induction ed ch rule: collect_edits.induct) (auto split: if_splits)

lemma collect_edits_covers:
  assumes "(d, Some e) \<in> set ch"
  shows "\<exists>d' e'. (d', e') \<in> set (collect_edits ed ch) \<and> same_content e' e"
  using assms
proof (induction ed ch rule: collect_edits.induct)
  case (3 ed dev x ch)
  show ?case
  proof (cases "(d, Some e) \<in> set ch")
    case True
    then show ?thesis using 3 by (cases "list_ex (\<lambda>(_, kept). same_content kept x) ed") simp_all
  next
    case False
    then have e: "x = e" using 3 by auto
    show ?thesis
    proof (cases "list_ex (\<lambda>(_, kept). same_content kept x) ed")
      case True
      then obtain d' e' where "(d', e') \<in> set ed" "same_content e' e" by (auto simp: list_ex_iff e)
      moreover have "(d', e') \<in> set (collect_edits ed ch)" using calculation(1) collect_edits_mono by blast
      ultimately show ?thesis using True by auto
    next
      case False
      have "(dev, x) \<in> set (collect_edits (ed @ [(dev, x)]) ch)" using collect_edits_mono by fastforce
      then have "(dev, x) \<in> set (collect_edits ed ((dev, Some x) # ch))" using False by simp
      then show ?thesis using same_content_refl [of e] unfolding e by blast
    qed
  qed
qed auto

lemma collect_edits_devices:
  "distinct (map fst ed @ map fst ch) \<Longrightarrow> distinct (map fst (collect_edits ed ch)) \<and>
     fst ` set (collect_edits ed ch) \<subseteq> fst ` set ed \<union> fst ` set ch"
  by (induction ed ch rule: collect_edits.induct) auto

lemma collect_edits_single:
  assumes "\<And>d e. (d, Some e) \<in> set ch \<Longrightarrow> same_content x e" "(d0, x) \<in> set ed" "length ed = 1"
  shows "collect_edits ed ch = ed"
  using assms by (induction ed ch rule: collect_edits.induct) (auto simp: list_ex_iff length_Suc_conv)

lemma rank_edits_Ok: "rank_edits X Y es = Ok rs \<Longrightarrow> map snd rs = es"
  by (induction es arbitrary: rs) (auto simp: result_bind_Ok)

lemma rank_edits_total: "(\<And>e. is_ok (entry_digest X Y e)) \<Longrightarrow> is_ok (rank_edits X Y es)"
proof (induction es)
  case (Cons x es)
  then obtain d rs where "entry_digest X Y (snd x) = Ok d" "rank_edits X Y es = Ok rs"
    unfolding is_ok_iff by blast
  then show ?case by (cases x) simp
qed simp

lemma fold_path_unfold:
  "fold_path X Y heads base path =
     (case collect_edits [] (changes heads base path) of
        [] \<Rightarrow> Ok (if list_ex (\<lambda>(_, e). e = None) (changes heads base path) then ([], [])
                  else (case snd (scan_heads (base_at base path) path heads (base_at base path)) of
                          Some e \<Rightarrow> ([(path, e)], []) | None \<Rightarrow> ([], [])))
      | [(_, e)] \<Rightarrow> Ok ([(path, e)], [])
      | _ \<Rightarrow>
          result_bind (rank_edits X Y (collect_edits [] (changes heads base path))) (\<lambda>rs.
            case sort_key (\<lambda>(d, device, _). (d, device)) rs of
              [] \<Rightarrow> Panic
            | (_, winner, winner_entry) # losers \<Rightarrow>
                Ok ((path, winner_entry) # map (\<lambda>(_, loser, e). (conflict_path path loser, e)) losers,
                    map (\<lambda>(_, loser, _). \<lparr>cn_path = path, cn_winner = winner, cn_loser = loser,
                           cn_loser_path = conflict_path path loser\<rparr>) losers)))"
  unfolding fold_path_def Let_def base_at_def [symmetric] changes_def
  by (subst prod.collapse [symmetric, of "scan_heads _ _ _ _"], simp only: prod.case scan_heads_changed)

text \<open>The facts about one path that the tree-wide lemmas use. \<open>devices\<close> are distinct because the heads
  are a map.\<close>

lemma changes_devices: "btree_wf heads \<Longrightarrow> distinct (map fst (changes heads base path))"
proof -
  assume "btree_wf heads"
  then have "distinct (map fst heads)" by (rule btree_distinct)
  moreover have "map fst (head_at heads path) = map fst heads" by (simp add: head_at_def case_prod_beta)
  ultimately show ?thesis unfolding changes_def by (simp add: distinct_map_filter)
qed

lemma changes_device: "(d, e) \<in> set (changes heads base path) \<Longrightarrow> d \<in> fst ` set heads"
  by (force simp: changes_def head_at_def)

lemma fold_path_ranked:
  assumes "collect_edits [] (changes heads base path) = a # b # es"
    and "fold_path X Y heads base path = Ok (ins, confs)"
  obtains dg :: string and w we losers where "mset (map snd ((dg, w, we) # losers)) = mset (a # b # es)"
    "ins = (path, we) # map (\<lambda>(_, loser, e). (conflict_path path loser, e)) losers"
    "confs = map (\<lambda>(_, loser, _). \<lparr>cn_path = path, cn_winner = w, cn_loser = loser,
       cn_loser_path = conflict_path path loser\<rparr>) losers"
proof -
  obtain rs where r: "rank_edits X Y (a # b # es) = Ok rs"
    and c: "((case sort_key (\<lambda>(d, device, _). (d, device)) rs of
              [] \<Rightarrow> Panic
            | (_, winner, winner_entry) # losers \<Rightarrow>
                Ok ((path, winner_entry) # map (\<lambda>(_, loser, e). (conflict_path path loser, e)) losers,
                    map (\<lambda>(_, loser, _). \<lparr>cn_path = path, cn_winner = winner, cn_loser = loser,
                           cn_loser_path = conflict_path path loser\<rparr>) losers)) :: (_, SyncError) result) = Ok (ins, confs)"
    using assms by (auto simp: fold_path_unfold result_bind_Ok split: prod.splits)
  obtain dg w we losers where s: "sort_key (\<lambda>(d, device, _). (d, device)) rs = (dg, w, we) # losers"
    using c by (auto split: list.splits)
  have "mset ((dg, w, we) # losers) = mset rs" using s [symmetric] by simp
  then have "image_mset snd (mset ((dg, w, we) # losers)) = image_mset snd (mset rs)" by simp
  then have "mset (map snd ((dg, w, we) # losers)) = mset (map snd rs)" by simp
  then show thesis using that [of dg w we losers] c s rank_edits_Ok [OF r] by simp
qed

lemma fold_path_inserts:
  assumes "btree_wf heads" "fold_path X Y heads base path = Ok (ins, confs)"
  shows "distinct (map fst ins)"
    and "(p, e) \<in> set ins \<Longrightarrow> p = path \<or> (\<exists>d \<in> fst ` set heads. p = conflict_path path d)"
    and "(p, e) \<in> set ins \<Longrightarrow> base_at base path = Some e \<or> (\<exists>(d, t) \<in> set heads. bt_get (fm_entries t) path = Some e)"
    and "(d, Some e) \<in> set (changes heads base path) \<Longrightarrow> \<exists>p e'. (p, e') \<in> set ins \<and> same_content e' e"
proof -
  let ?ed = "collect_edits [] (changes heads base path)"
  have dist: "distinct (map fst ?ed)"
    using collect_edits_devices [of "[]" "changes heads base path"] changes_devices [OF assms(1)] by simp
  have from_ch: "(d, Some e) \<in> set (changes heads base path)" if "(d, e) \<in> set ?ed" for d e
    using collect_edits_from [OF that] by simp
  have head: "\<exists>(d, t) \<in> set heads. bt_get (fm_entries t) path = Some e" if "(d, e) \<in> set ?ed" for d e
    using from_ch [OF that] by (force simp: changes_def head_at_def)
  have "distinct (map fst ins) \<and>
    (\<forall>(p, e) \<in> set ins. (p = path \<or> (\<exists>d \<in> fst ` set heads. p = conflict_path path d)) \<and>
      (base_at base path = Some e \<or> (\<exists>(d, t) \<in> set heads. bt_get (fm_entries t) path = Some e))) \<and>
    (\<forall>(d, e) \<in> set ?ed. e \<in> snd ` set ins)"
  proof (cases ?ed)
    case Nil
    then show ?thesis
      using assms(2) scan_heads_unchanged [of "base_at base path" path heads "base_at base path"]
      by (auto simp: fold_path_unfold split: if_splits option.splits)
  next
    case one: (Cons a es)
    show ?thesis
    proof (cases es)
      case Nil
      obtain d e where a: "a = (d, e)" by (cases a)
      have ins: "ins = [(path, e)]" using assms(2) by (simp add: fold_path_unfold one Nil a)
      show ?thesis using head [of d e] by (simp add: ins one Nil a)
    next
      case (Cons b es')
      have two: "collect_edits [] (changes heads base path) = a # b # es'" using one Cons by simp
      obtain dg :: string and w we losers where m: "mset (map snd ((dg, w, we) # losers)) = mset ?ed"
        and ins: "ins = (path, we) # map (\<lambda>(_, loser, e). (conflict_path path loser, e)) losers"
        by (rule fold_path_ranked [OF two assms(2)]) (rule that, simp_all add: two)
      have st: "set (map snd ((dg, w, we) # losers)) = set ?ed" using m by (metis set_mset_mset)
      have "mset (map fst (map snd ((dg, w, we) # losers))) = mset (map fst ?ed)" using m by (metis mset_map)
      then have dl: "distinct (map fst (map snd ((dg, w, we) # losers)))" using dist by (metis mset_eq_imp_distinct_iff)
      have keys: "map fst ins = path # map (\<lambda>l. conflict_path path (fst (snd l))) losers"
        by (simp add: ins case_prod_beta)
      have d: "distinct (map fst ins)"
        unfolding keys using dl by (auto simp: distinct_map conflict_path_def inj_on_def comp_def)
      have mem: "\<exists>d \<in> fst ` set heads. (d, e) \<in> set ?ed \<and> (p = path \<or> p = conflict_path path d)" if "(p, e) \<in> set ins" for p e
      proof -
        obtain d where "(d, e) \<in> set (map snd ((dg, w, we) # losers))" "p = path \<or> p = conflict_path path d"
        proof (cases "(p, e) = (path, we)")
          case True
          then show ?thesis using that [of w] by simp
        next
          case False
          then obtain l where "l \<in> set losers" "p = conflict_path path (fst (snd l))" "e = snd (snd l)"
            using \<open>(p, e) \<in> set ins\<close> by (auto simp: ins)
          then show ?thesis using that [of "fst (snd l)"] by (simp add: image_iff) (metis prod.collapse)
        qed
        then show ?thesis using changes_device [OF from_ch] unfolding st by blast
      qed
      have cov: "e \<in> snd ` set ins" if "(d, e) \<in> set ?ed" for d e
        using that unfolding st [symmetric] by (force simp: ins)
      show ?thesis
        using d mem head cov by blast
    qed
  qed
  note all = this [THEN conjunct1] this [THEN conjunct2, THEN conjunct1, THEN bspec] this [THEN conjunct2, THEN conjunct2, THEN bspec]
  show "distinct (map fst ins)" by (rule all(1))
  show "p = path \<or> (\<exists>d \<in> fst ` set heads. p = conflict_path path d)" if "(p, e) \<in> set ins"
    using all(2) [OF that] by simp
  show "base_at base path = Some e \<or> (\<exists>(d, t) \<in> set heads. bt_get (fm_entries t) path = Some e)" if "(p, e) \<in> set ins"
    using all(2) [OF that] by simp
  show "\<exists>p e'. (p, e') \<in> set ins \<and> same_content e' e" if ch: "(d, Some e) \<in> set (changes heads base path)"
  proof -
    obtain d' e' where "(d', e') \<in> set ?ed" "same_content e' e" using collect_edits_covers [OF ch] by blast
    then obtain p where "(p, e') \<in> set ins" using all(3) [of "(d', e')"] by (auto simp: image_iff)
    then show ?thesis using \<open>same_content e' e\<close> by blast
  qed
qed

section \<open>The tree\<close>

definition path_result ::
  "ext \<Rightarrow> sync_ext \<Rightarrow> FsManifest btree \<Rightarrow> FsManifest option \<Rightarrow> string \<Rightarrow> (string \<times> FileEntry) list \<times> ConflictNote list" where
  "path_result X Y heads base p = (case fold_path X Y heads base p of Ok r \<Rightarrow> r | _ \<Rightarrow> ([], []))"

definition insert_all :: "FsManifest \<Rightarrow> (string \<times> FileEntry) list \<Rightarrow> FsManifest" where
  "insert_all t xs = foldl (\<lambda>t (p, e). fm_insert p e t) t xs"

lemma bt_get_Nil: "bt_get [] = Map.empty"
  by (simp add: bt_get_def fun_eq_iff)

lemma insert_all_append: "insert_all t (xs @ ys) = insert_all (insert_all t xs) ys"
  by (simp add: insert_all_def)

lemma insert_all_get:
  assumes "btree_wf (fm_entries t)"
  shows "btree_wf (fm_entries (insert_all t xs)) \<and> fm_kind (insert_all t xs) = fm_kind t \<and>
    bt_get (fm_entries (insert_all t xs)) = bt_get (fm_entries t) ++ map_of (rev xs)"
  using assms
proof (induction xs rule: rev_induct)
  case (snoc x xs)
  obtain p e where x: "x = (p, e)" by (cases x)
  have "insert_all t (xs @ [x]) = fm_insert p e (insert_all t xs)" by (simp add: insert_all_def x)
  then show ?case
    using snoc by (auto simp: x fm_insert_def btree_wf_insert bt_get_insert fun_eq_iff map_add_def)
qed (simp add: insert_all_def)

lemma fold_loop_Ok:
  assumes "fold_loop X Y heads base ps t cs = Ok out"
  shows "(\<forall>p \<in> set ps. fold_path X Y heads base p = Ok (path_result X Y heads base p)) \<and>
    fo_tree out = insert_all t (concat (map (\<lambda>p. fst (path_result X Y heads base p)) ps)) \<and>
    fo_conflicts out = cs @ concat (map (\<lambda>p. snd (path_result X Y heads base p)) ps)"
  using assms
proof (induction ps arbitrary: t cs)
  case Nil
  then show ?case by (auto simp: insert_all_def)
next
  case (Cons p ps)
  obtain ins confs where fp: "fold_path X Y heads base p = Ok (ins, confs)"
    and l: "fold_loop X Y heads base ps (insert_all t ins) (cs @ confs) = Ok out"
    using Cons.prems by (auto simp: result_bind_Ok insert_all_def)
  have pr: "path_result X Y heads base p = (ins, confs)" by (simp add: path_result_def fp)
  show ?case using Cons.IH [OF l] by (simp add: fp pr insert_all_append)
qed

text \<open>The names of the conflict copies are free: none is a path of a tree, and no two are equal.\<close>

definition copies_free :: "FsManifest btree \<Rightarrow> FsManifest option \<Rightarrow> bool" where
  "copies_free heads base \<longleftrightarrow>
     (let ks = set (fold_keys heads base); ds = fst ` set heads in
      (\<forall>p \<in> ks. \<forall>d \<in> ds. conflict_path p d \<notin> ks) \<and>
      (\<forall>p \<in> ks. \<forall>d \<in> ds. \<forall>p' \<in> ks. \<forall>d' \<in> ds. conflict_path p d = conflict_path p' d' \<longrightarrow> p = p'))"

lemma copies_freeD:
  assumes "copies_free heads base"
  shows "p \<in> set (fold_keys heads base) \<Longrightarrow> d \<in> fst ` set heads \<Longrightarrow> conflict_path p d \<notin> set (fold_keys heads base)"
    and "p \<in> set (fold_keys heads base) \<Longrightarrow> d \<in> fst ` set heads \<Longrightarrow> p' \<in> set (fold_keys heads base) \<Longrightarrow>
      d' \<in> fst ` set heads \<Longrightarrow> conflict_path p d = conflict_path p' d' \<Longrightarrow> p = p'"
  using assms unfolding copies_free_def Let_def by (blast, blast)

lemma distinct_concat_disjoint:
  assumes "distinct ps" "\<And>p. p \<in> set ps \<Longrightarrow> distinct (map fst (f p))"
    and "\<And>p q k. p \<in> set ps \<Longrightarrow> q \<in> set ps \<Longrightarrow> k \<in> fst ` set (f p) \<Longrightarrow> k \<in> fst ` set (f q) \<Longrightarrow> p = q"
  shows "distinct (map fst (concat (map f ps)))"
  using assms
proof (induction ps)
  case (Cons p ps)
  have "distinct (map fst (concat (map f ps)))" by (rule Cons.IH) (use Cons.prems in auto)
  moreover have "fst ` set (f p) \<inter> fst ` set (concat (map f ps)) = {}"
  proof (rule ccontr)
    assume "fst ` set (f p) \<inter> fst ` set (concat (map f ps)) \<noteq> {}"
    then obtain k q where kq: "k \<in> fst ` set (f p)" "q \<in> set ps" "k \<in> fst ` set (f q)" by auto
    then have "p = q" using Cons.prems(3) [of p q k] by simp
    then show False using kq(2) Cons.prems(1) by simp
  qed
  ultimately show ?case using Cons.prems(2) [of p] by simp
qed simp

lemma fold_tree_lookup:
  assumes "btree_wf heads" "copies_free heads base" "fold_trees X Y heads base = Ok out"
  shows "bt_get (fm_entries (fo_tree out)) k = Some e \<longleftrightarrow>
    (\<exists>p \<in> set (fold_keys heads base). (k, e) \<in> set (fst (path_result X Y heads base p)))"
proof -
  let ?ks = "fold_keys heads base" and ?f = "\<lambda>p. fst (path_result X Y heads base p)"
  note o = fold_loop_Ok [OF assms(3) [unfolded fold_trees_def]]
  have fp: "fold_path X Y heads base p = Ok (?f p, snd (path_result X Y heads base p))" if "p \<in> set ?ks" for p
    using o that by simp
  note ins = fold_path_inserts [OF assms(1) fp]
  have key: "k = p \<or> (\<exists>d \<in> fst ` set heads. k = conflict_path p d)"
    if p: "p \<in> set ?ks" and k: "k \<in> fst ` set (?f p)" for p k
  proof -
    obtain e' where "(k, e') \<in> set (?f p)" using k by auto
    from ins(2) [OF p this] show ?thesis .
  qed
  have uniq: "p = q" if pq: "p \<in> set ?ks" "q \<in> set ?ks" and k: "k \<in> fst ` set (?f p)" "k \<in> fst ` set (?f q)" for p q k
    using key [OF pq(1) k(1)] key [OF pq(2) k(2)] copies_freeD [OF assms(2)] pq by (elim disjE bexE) blast+
  have d: "distinct (map fst (concat (map ?f ?ks)))"
    by (rule distinct_concat_disjoint) (simp add: fold_keys_def, rule ins(1), assumption, rule uniq)
  have "bt_get (fm_entries (fo_tree out)) = map_of (rev (concat (map ?f ?ks)))"
    using o insert_all_get [of fs_manifest_new "concat (map ?f ?ks)"]
    by (simp add: fs_manifest_new_def btree_wf_def bt_get_Nil)
  moreover have "distinct (map fst (rev (concat (map ?f ?ks))))" using d by (simp add: rev_map [symmetric])
  ultimately have "bt_get (fm_entries (fo_tree out)) k = Some e \<longleftrightarrow> (k, e) \<in> set (rev (concat (map ?f ?ks)))"
    by (simp only: map_of_eq_Some_iff)
  then show ?thesis by auto
qed

lemma set_fold_keys:
  "set (fold_keys heads base) = (\<Union>(d, t) \<in> set heads. fst ` set (fm_entries t)) \<union>
     (case base of None \<Rightarrow> {} | Some b \<Rightarrow> fst ` set (fm_entries b))"
  by (auto simp: fold_keys_def split: option.split)

lemma fold_keys_head: "(d, t) \<in> set heads \<Longrightarrow> bt_get (fm_entries t) p = Some e \<Longrightarrow> p \<in> set (fold_keys heads base)"
  unfolding set_fold_keys bt_get_def by (force dest: map_of_SomeD)

lemma changes_iff:
  "(d, e) \<in> set (changes heads base p) \<longleftrightarrow>
     (\<exists>t. (d, t) \<in> set heads \<and> e = bt_get (fm_entries t) p) \<and> is_changed (base_at base p) e"
  by (auto simp: changes_def head_at_def)

text \<open>An edit is never lost: its content is in the folded tree, at its path or at a copy of it.\<close>

lemma fold_keeps_edits:
  assumes "btree_wf heads" "copies_free heads base" "fold_trees X Y heads base = Ok out"
    and "(d, t) \<in> set heads" "bt_get (fm_entries t) p = Some e" "is_changed (base_at base p) (Some e)"
  shows "\<exists>k e'. bt_get (fm_entries (fo_tree out)) k = Some e' \<and> same_content e' e \<and>
    (k = p \<or> (\<exists>d' \<in> fst ` set heads. k = conflict_path p d'))"
proof -
  have p: "p \<in> set (fold_keys heads base)" by (rule fold_keys_head [OF assms(4,5)])
  have fp: "fold_path X Y heads base p = Ok (fst (path_result X Y heads base p), snd (path_result X Y heads base p))"
    using fold_loop_Ok [OF assms(3) [unfolded fold_trees_def]] p by simp
  have "(d, Some e) \<in> set (changes heads base p)" using assms(4-6) changes_iff by metis
  from fold_path_inserts(4) [OF assms(1) fp this] obtain k e'
    where k: "(k, e') \<in> set (fst (path_result X Y heads base p))" and c: "same_content e' e" by blast
  have "bt_get (fm_entries (fo_tree out)) k = Some e'"
    using fold_tree_lookup [OF assms(1-3)] k p by blast
  with c fold_path_inserts(2) [OF assms(1) fp k] show ?thesis by blast
qed

text \<open>Nothing is invented: an entry of the folded tree is some device's or the base's entry for the path
  it is at, or for the path it is a copy of.\<close>

lemma fold_invents_nothing:
  assumes "btree_wf heads" "copies_free heads base" "fold_trees X Y heads base = Ok out"
    and "bt_get (fm_entries (fo_tree out)) k = Some e"
  shows "\<exists>p. (k = p \<or> (\<exists>d \<in> fst ` set heads. k = conflict_path p d)) \<and>
    (base_at base p = Some e \<or> (\<exists>(d, t) \<in> set heads. bt_get (fm_entries t) p = Some e))"
proof -
  obtain p where p: "p \<in> set (fold_keys heads base)" "(k, e) \<in> set (fst (path_result X Y heads base p))"
    using fold_tree_lookup [OF assms(1-3)] assms(4) by blast
  have fp: "fold_path X Y heads base p = Ok (fst (path_result X Y heads base p), snd (path_result X Y heads base p))"
    using fold_loop_Ok [OF assms(3) [unfolded fold_trees_def]] p(1) by simp
  show ?thesis using fold_path_inserts(2,3) [OF assms(1) fp p(2)] by blast
qed

text \<open>A deletion nobody opposes propagates.\<close>

lemma fold_propagates_deletion:
  assumes "btree_wf heads" "copies_free heads base" "fold_trees X Y heads base = Ok out"
    and "(d, t) \<in> set heads" "bt_get (fm_entries t) p = None" "base_at base p = Some b"
    and "\<And>d t e. (d, t) \<in> set heads \<Longrightarrow> bt_get (fm_entries t) p = Some e \<Longrightarrow> same_content b e"
  shows "bt_get (fm_entries (fo_tree out)) p = None"
proof (rule ccontr)
  assume "bt_get (fm_entries (fo_tree out)) p \<noteq> None"
  then obtain e where "bt_get (fm_entries (fo_tree out)) p = Some e" by auto
  then obtain q where q: "q \<in> set (fold_keys heads base)" "(p, e) \<in> set (fst (path_result X Y heads base q))"
    using fold_tree_lookup [OF assms(1-3)] by blast
  have fq: "fold_path X Y heads base q = Ok (fst (path_result X Y heads base q), snd (path_result X Y heads base q))"
    using fold_loop_Ok [OF assms(3) [unfolded fold_trees_def]] q(1) by simp
  have pk: "p \<in> set (fold_keys heads base)"
    using assms(6) unfolding set_fold_keys base_at_def bt_get_def by (force dest: map_of_SomeD split: option.splits)
  have pq: "p = q"
    using fold_path_inserts(2) [OF assms(1) fq q(2)] copies_freeD(1) [OF assms(2) q(1)] pk by blast
  have ch: "e' = None" if "(d', e') \<in> set (changes heads base p)" for d' e'
    using that assms(6,7) by (cases e') (auto simp: changes_iff is_changed_def)
  have "collect_edits [] (changes heads base p) = []"
  proof (rule ccontr)
    assume "collect_edits [] (changes heads base p) \<noteq> []"
    then obtain a b where "(a, b) \<in> set (collect_edits [] (changes heads base p))" by (metis hd_in_set prod.collapse)
    from collect_edits_from [OF this] ch show False by fastforce
  qed
  moreover have "(d, None) \<in> set (changes heads base p)"
    using assms(4-6) by (auto simp: changes_iff is_changed_def)
  ultimately have "fold_path X Y heads base p = Ok ([], [])"
    by (auto simp: fold_path_unfold list_ex_iff)
  then show False using q(2) by (simp add: pq path_result_def)
qed

section \<open>Agreement and totality\<close>

lemma option_eq_by_Some: "(\<And>e. a = Some e \<longleftrightarrow> b = Some e) \<Longrightarrow> a = b"
  by (cases a; cases b) auto

lemma btree_ext:
  assumes "btree_wf a" "btree_wf b" "bt_get a = bt_get b"
  shows "a = b"
proof -
  have "map_of a = map_of b" using assms(3) by (simp add: bt_get_def fun_eq_iff)
  then have st: "set a = set b" using btree_distinct [OF assms(1)] btree_distinct [OF assms(2)] by (simp add: map_of_inject_set)
  have "sorted (map fst a)" "sorted (map fst b)"
    using assms(1,2) unfolding btree_wf_def strict_sorted_iff by simp_all
  moreover have "inj_on fst (set a \<union> set b)" using btree_distinct [OF assms(1)] st by (simp add: distinct_map)
  ultimately show ?thesis
    using st btree_distinct [OF assms(1)] btree_distinct [OF assms(2)] by (intro map_sorted_distinct_set_unique)
qed

lemma fold_path_total:
  assumes "\<And>e. is_ok (entry_digest X Y e)"
  shows "is_ok (fold_path X Y heads base p)"
proof -
  let ?ed = "collect_edits [] (changes heads base p)"
  obtain rs where rs: "rank_edits X Y ?ed = Ok rs" using rank_edits_total [OF assms] is_ok_iff by metis
  have len: "length (sort_key (\<lambda>(d, device, _). (d, device)) rs) = length ?ed"
    using rank_edits_Ok [OF rs] by (metis length_map length_sort)
  consider "?ed = []" | d e where "?ed = [(d, e)]" | a b es where "?ed = a # b # es"
    by (metis list.exhaust prod.exhaust)
  then show ?thesis
  proof cases
    case 3
    obtain dg w we ls where "sort_key (\<lambda>(d, device, _). (d, device)) rs = (dg, w, we) # ls"
      using len 3 by (cases "sort_key (\<lambda>(d, device, _). (d, device)) rs") auto
    then show ?thesis using rs by (simp add: fold_path_unfold 3 del: rank_edits.simps split: prod.splits)
  qed (simp_all add: fold_path_unfold split: option.split)
qed

lemma fold_trees_total:
  assumes "\<And>e. is_ok (entry_digest X Y e)"
  shows "is_ok (fold_trees X Y heads base)"
proof -
  have "is_ok (fold_loop X Y heads base ps t cs)" for ps t cs
  proof (induction ps arbitrary: t cs)
    case (Cons p ps)
    obtain r where "fold_path X Y heads base p = Ok r" using fold_path_total [OF assms] is_ok_iff by metis
    then show ?case using Cons by (cases r) simp
  qed simp
  then show ?thesis by (simp add: fold_trees_def)
qed

lemma fold_path_agree:
  assumes "heads \<noteq> []" "\<And>d t. (d, t) \<in> set heads \<Longrightarrow> bt_get (fm_entries t) p = x"
  shows "fold_path X Y heads base p = Ok (case x of None \<Rightarrow> [] | Some e \<Rightarrow> [(p, e)], [])"
proof -
  have ch: "e = x \<and> is_changed (base_at base p) x" if "(d, e) \<in> set (changes heads base p)" for d e
    using that assms(2) by (auto simp: changes_iff)
  have ne: "changes heads base p \<noteq> []" if "is_changed (base_at base p) x"
  proof -
    obtain d t where "(d, t) \<in> set heads" using assms(1) by (cases heads) auto
    then have "(d, x) \<in> set (changes heads base p)" using assms(2) that by (auto simp: changes_iff)
    then show ?thesis by auto
  qed
  show ?thesis
  proof (cases "is_changed (base_at base p) x")
    case False
    then have none: "changes heads base p = []" using ch by (metis list.set_intros(1) neq_Nil_conv prod.collapse)
    show ?thesis
    proof (cases x)
      case None
      then have "base_at base p = None" using False by (cases "base_at base p") (auto simp: is_changed_def)
      moreover have "snd (scan_heads None p heads None) = None"
        using scan_heads_unchanged [of None p heads None] assms(2) None by auto
      ultimately show ?thesis by (simp add: fold_path_unfold none None)
    next
      case (Some e)
      then show ?thesis
        using scan_heads_same [of heads p e "base_at base p" "base_at base p"] assms False
        by (simp add: fold_path_unfold none)
    qed
  next
    case True
    show ?thesis
    proof (cases x)
      case None
      have "collect_edits [] (changes heads base p) = []"
      proof (rule ccontr)
        assume "collect_edits [] (changes heads base p) \<noteq> []"
        then obtain a b where "(a, b) \<in> set (collect_edits [] (changes heads base p))" by (metis hd_in_set prod.collapse)
        from collect_edits_from [OF this] ch None show False by fastforce
      qed
      moreover have "list_ex (\<lambda>(_, e). e = None) (changes heads base p)"
        using ne [OF True] ch None by (cases "changes heads base p") auto
      ultimately show ?thesis by (simp add: fold_path_unfold None)
    next
      case (Some e)
      obtain d cs where c: "changes heads base p = (d, Some e) # cs"
        using ne [OF True] ch Some by (cases "changes heads base p") auto
      have "collect_edits [(d, e)] cs = [(d, e)]"
      proof (rule collect_edits_single)
        show "same_content e e'" if "(d', Some e') \<in> set cs" for d' e'
          using ch [of d' "Some e'"] that Some by (simp add: c)
      qed simp_all
      then show ?thesis by (simp add: fold_path_unfold c Some)
    qed
  qed
qed

text \<open>A pool whose devices hold one tree folds to that tree, with no conflict, whatever the base.\<close>

lemma fold_agree:
  assumes "heads \<noteq> []" "\<And>d t. (d, t) \<in> set heads \<Longrightarrow> fm_entries t = T" "btree_wf T"
  shows "fold_trees X Y heads base = Ok \<lparr>fo_tree = \<lparr>fm_kind = FS_MANIFEST_KIND, fm_entries = T\<rparr>, fo_conflicts = []\<rparr>"
proof -
  let ?ins = "\<lambda>p. case bt_get T p of None \<Rightarrow> [] | Some e \<Rightarrow> [(p, e)]"
  have fp: "fold_path X Y heads base p = Ok (?ins p, [])" for p
    using fold_path_agree [OF assms(1), of p "bt_get T p"] assms(2) by simp
  have loop: "fold_loop X Y heads base ps t cs = Ok \<lparr>fo_tree = insert_all t (concat (map ?ins ps)), fo_conflicts = cs\<rparr>" for ps t cs
    by (induction ps arbitrary: t) (simp_all add: fp insert_all_def)
  let ?ks = "fold_keys heads base"
  have g: "btree_wf (fm_entries (insert_all fs_manifest_new xs)) \<and> fm_kind (insert_all fs_manifest_new xs) = FS_MANIFEST_KIND \<and>
    bt_get (fm_entries (insert_all fs_manifest_new xs)) = map_of (rev xs)" for xs
    using insert_all_get [of fs_manifest_new xs] by (simp add: fs_manifest_new_def btree_wf_def bt_get_Nil)
  have "map_of (rev (concat (map ?ins ?ks))) p = bt_get T p" for p
  proof -
    have "distinct (map fst (concat (map ?ins ?ks)))"
      by (rule distinct_concat_disjoint) (auto simp: fold_keys_def split: option.splits)
    then have m: "map_of (rev (concat (map ?ins ?ks))) p = Some e \<longleftrightarrow> (p, e) \<in> set (rev (concat (map ?ins ?ks)))" for e
      by (intro map_of_eq_Some_iff) (simp add: rev_map [symmetric])
    obtain d t where "(d, t) \<in> set heads" using assms(1) by (cases heads) auto
    then have "p \<in> set ?ks" if "bt_get T p = Some e" for e using fold_keys_head [of d t] assms(2) that by blast
    then have "map_of (rev (concat (map ?ins ?ks))) p = Some e \<longleftrightarrow> bt_get T p = Some e" for e
      unfolding m by (auto split: option.splits)
    then show ?thesis by (rule option_eq_by_Some)
  qed
  then have "fm_entries (insert_all fs_manifest_new (concat (map ?ins ?ks))) = T"
    using g assms(3) by (intro btree_ext) (auto simp: fun_eq_iff)
  then show ?thesis using g by (simp add: fold_trees_def loop)
qed

section \<open>A copy that is lost\<close>

text \<open>Device \<open>a\<close> holds a file whose name is that of the copy the fold makes for device \<open>b\<close>: the copy is
  written first and then replaced by the file, and the content of \<open>b\<close> is nowhere in the tree although the
  fold reports it as preserved.\<close>

definition sized_entry :: "nat \<Rightarrow> FileEntry" where
  "sized_entry n = \<lparr>fe_mode = 0, fe_mtime_secs = 0, fe_mtime_nanos = 0, fe_size = n, fe_chunks = []\<rparr>"

definition colliding_heads :: "FsManifest btree" where
  "colliding_heads =
     [(''a'', \<lparr>fm_kind = FS_MANIFEST_KIND, fm_entries = [(''f'', sized_entry 1), (''f.conflict-b'', sized_entry 3)]\<rparr>),
      (''b'', \<lparr>fm_kind = FS_MANIFEST_KIND, fm_entries = [(''f'', sized_entry 2)]\<rparr>)]"

lemma fold_loses_a_copy:
  assumes "entry_digest X Y (sized_entry 1) = Ok ''1''" "entry_digest X Y (sized_entry 2) = Ok ''2''"
  shows "fold_trees X Y colliding_heads None = Ok \<lparr>fo_tree = \<lparr>fm_kind = FS_MANIFEST_KIND,
       fm_entries = [(''f'', sized_entry 1), (''f.conflict-b'', sized_entry 3)]\<rparr>,
     fo_conflicts = [\<lparr>cn_path = ''f'', cn_winner = ''a'', cn_loser = ''b'', cn_loser_path = ''f.conflict-b''\<rparr>]\<rparr>"
proof -
  have ks: "fold_keys colliding_heads None = [''f'', ''f.conflict-b'']"
    by (simp add: fold_keys_def colliding_heads_def)
  have ne: "\<not> same_content (sized_entry (Suc 0)) (sized_entry 2)" by (simp add: same_content_def sized_entry_def)
  have f: "fold_path X Y colliding_heads None ''f'' = Ok ([(''f'', sized_entry 1), (''f.conflict-b'', sized_entry 2)],
      [\<lparr>cn_path = ''f'', cn_winner = ''a'', cn_loser = ''b'', cn_loser_path = ''f.conflict-b''\<rparr>])"
    using assms ne by (simp add: fold_path_def colliding_heads_def bt_get_def is_changed_def conflict_path_def)
  have c: "fold_path X Y colliding_heads None ''f.conflict-b'' = Ok ([(''f.conflict-b'', sized_entry 3)], [])"
    by (simp add: fold_path_def colliding_heads_def bt_get_def is_changed_def)
  show ?thesis
    by (simp add: fold_trees_def ks f c fs_manifest_new_def fm_insert_def)
qed

end
