(* ===== verification/Sync_Flows.thy ===== *)
theory Sync_Flows
  imports Sync_Fs Sync_Fold
begin

text \<open>
  The flows of the sync engine: \<^verbatim>\<open>transport.rs\<close>, \<^verbatim>\<open>backup.rs\<close>, \<^verbatim>\<open>price.rs\<close>, \<^verbatim>\<open>restore.rs\<close>, \<^verbatim>\<open>evict.rs\<close>,
  \<^verbatim>\<open>hydrate.rs\<close>, \<^verbatim>\<open>frontier.rs\<close> and \<^verbatim>\<open>converge.rs\<close> of \<^verbatim>\<open>ciss-sync\<close>. A flow runs on a world: the local
  tree, the tree's state and the other side. The traits \<^verbatim>\<open>BlobTransport\<close>, \<^verbatim>\<open>ManifestSlot\<close> and \<^verbatim>\<open>AccountKey\<close> are
  the record \<open>remote\<close> of functions on the state of the other side, whatever that is, so what other
  devices do between two calls is part of those functions.
\<close>

section \<open>transport.rs\<close>

record FrontierView =
  fv_seq :: u64
  fv_heads :: "string btree"
  fv_leaves :: "(string \<times> u64) list"

record 's remote =
  rm_have :: "'s \<Rightarrow> 's \<times> (string list, SyncError) result"
  rm_put :: "'s \<Rightarrow> string \<Rightarrow> bytes \<Rightarrow> 's \<times> (unit, SyncError) result"
  rm_get :: "'s \<Rightarrow> string \<Rightarrow> 's \<times> (bytes, SyncError) result"
  rm_metered :: bool
  rm_current_seq :: "'s \<Rightarrow> 's \<times> (u64 option, SyncError) result"
  rm_keep_set :: "'s \<Rightarrow> 's \<times> ((string \<times> u64) list option, SyncError) result"
  rm_frontier :: "'s \<Rightarrow> 's \<times> (FrontierView option, SyncError) result"
  rm_commit_keep_set :: "'s \<Rightarrow> (string \<times> u64) list \<Rightarrow> u64 \<Rightarrow> 's \<times> (unit, SyncError) result"
  rm_commit_frontier :: "'s \<Rightarrow> (string \<times> u64) list \<Rightarrow> u64 \<Rightarrow> string btree \<Rightarrow> 's \<times> (unit, SyncError) result"
  rm_keypair :: Keypair

record 's world =
  w_fs :: TreeFs
  w_state :: SyncState
  w_remote :: 's
  w_clock :: nat

definition on_remote :: "('s \<Rightarrow> 's \<times> ('a, SyncError) result) \<Rightarrow> 's world \<Rightarrow> 's world \<times> ('a, SyncError) result" where
  "on_remote f w = (case f (w_remote w) of (s, r) \<Rightarrow> (w\<lparr>w_remote := s\<rparr>, r))"

definition on_cache :: "(ChunkCache \<Rightarrow> ChunkCache \<times> ('a, SyncError) result) \<Rightarrow> 's world \<Rightarrow> 's world \<times> ('a, SyncError) result" where
  "on_cache f w = (case f (ss_cache (w_state w)) of (c, r) \<Rightarrow> (w\<lparr>w_state := (w_state w)\<lparr>ss_cache := c\<rparr>\<rparr>, r))"

definition on_fs :: "(TreeFs \<Rightarrow> TreeFs \<times> ('a, SyncError) result) \<Rightarrow> 's world \<Rightarrow> 's world \<times> ('a, SyncError) result" where
  "on_fs f w = (case f (w_fs w) of (F, r) \<Rightarrow> (w\<lparr>w_fs := F\<rparr>, r))"

definition missing_blobs :: "(string \<times> u64) list \<Rightarrow> string list \<Rightarrow> (string \<times> u64) list" where
  "missing_blobs blobs have = filter (\<lambda>(cid, _). cid \<notin> set have) blobs"

definition u64_sum :: "nat list \<Rightarrow> (u64, SyncError) result" where
  "u64_sum ns = (if sum_list ns \<le> u64_max then Ok (sum_list ns) else Panic)"

section \<open>backup.rs\<close>

fun merge_placeholders ::
  "(string \<times> FileEntry) list \<Rightarrow> FsManifest \<Rightarrow> PlaceholderStore \<Rightarrow> FsManifest \<times> PlaceholderStore" where
  "merge_placeholders [] m ps = (m, ps)"
| "merge_placeholders ((path, entry) # rest) m ps =
     (if bt_get (fm_entries m) path \<noteq> None then merge_placeholders rest m (placeholder_remove ps path)
      else merge_placeholders rest (fm_insert path entry m) ps)"

text \<open>\<open>use_state\<close> says whether the caller passed a state.\<close>

definition logical_tree :: "ext \<Rightarrow> sync_ext \<Rightarrow> bool \<Rightarrow> 's world \<Rightarrow> 's world \<times> (FsManifest, SyncError) result" where
  "logical_tree X Y use_state w =
     (if \<not> use_state then (w, scan_tree X Y (w_fs w))
      else case scan_tree_indexed X Y (w_fs w) (ss_index (w_state w)) of
        (ix, r) \<Rightarrow>
          let w1 = (case ix of Some i \<Rightarrow> w\<lparr>w_state := (w_state w)\<lparr>ss_index := i\<rparr>\<rparr> | None \<Rightarrow> w) in
          sbind (w1, r) (\<lambda>w1 scanned.
          sbind (w1, placeholder_all Y (ss_placeholders (w_state w1))) (\<lambda>w1 rows.
            case merge_placeholders rows scanned (ss_placeholders (w_state w1)) of
              (m, ps) \<Rightarrow> (w1\<lparr>w_state := (w_state w1)\<lparr>ss_placeholders := ps\<rparr>\<rparr>, Ok m))))"

fun dedup_blobs :: "string set \<Rightarrow> (string \<times> u64) list \<Rightarrow> (string \<times> u64) list" where
  "dedup_blobs seen [] = []"
| "dedup_blobs seen ((cid, n) # rest) =
     (if cid \<in> seen then dedup_blobs seen rest else (cid, n) # dedup_blobs (insert cid seen) rest)"

definition tree_chunks :: "FsManifest \<Rightarrow> (string \<times> u64) list" where
  "tree_chunks m = concat (map (\<lambda>(_, e). map (\<lambda>c. (ref_hex c, cr_len c)) (fe_chunks e)) (fm_entries m))"

record PushPlan =
  pp_manifest :: FsManifest
  pp_manifest_bytes :: bytes
  pp_cid :: string
  pp_needed :: "(string \<times> u64) list"
  pp_want :: "(string \<times> u64) list"
  pp_want_bytes :: u64
  pp_chunks_total :: u64
  pp_chunks_to_upload :: u64

definition plan_push :: "ext \<Rightarrow> sync_ext \<Rightarrow> 's remote \<Rightarrow> bool \<Rightarrow> 's world \<Rightarrow> 's world \<times> (PushPlan, SyncError) result" where
  "plan_push X Y R use_state w =
     sbind (logical_tree X Y use_state w) (\<lambda>w m.
     sbind (w, dagcbor_encode Y m) (\<lambda>w mb.
     sbind (w, content_id X Y m) (\<lambda>w cid.
     let chunks = dedup_blobs {} (tree_chunks m); needed = chunks @ [(cid, length mb)] in
     sbind (on_remote (rm_have R) w) (\<lambda>w have.
     let want = missing_blobs needed have in
     sbind (w, u64_sum (map snd want)) (\<lambda>w want_bytes.
       (w, Ok \<lparr>pp_manifest = m, pp_manifest_bytes = mb, pp_cid = cid, pp_needed = needed, pp_want = want,
               pp_want_bytes = want_bytes, pp_chunks_total = length chunks,
               pp_chunks_to_upload = length (filter (\<lambda>(c, _). c \<noteq> cid) want)\<rparr>))))))"

fun recover_cids ::
  "ext \<Rightarrow> 's remote \<Rightarrow> string \<Rightarrow> string set \<Rightarrow> string list \<Rightarrow> 's world \<Rightarrow> nat \<Rightarrow> nat \<Rightarrow> 's world \<times> (nat \<times> nat, SyncError) result" where
  "recover_cids X R path want [] w n b = (w, Ok (n, b))"
| "recover_cids X R path want (cid # cids) w n b =
     (if cid \<notin> want then recover_cids X R path want cids w n b
      else sbind (on_cache (\<lambda>c. cache_get X c cid) w) (\<lambda>w found.
        case found of
          None \<Rightarrow> (w, Err (STransport (''evicted file '' @ path @ '': chunk '' @ take 12 cid @
                    '' lost server-side and not in the local cache'')))
        | Some bs \<Rightarrow>
            sbind (on_remote (\<lambda>s. rm_put R s cid bs) w) (\<lambda>w _.
              recover_cids X R path want cids w (n + 1) (b + length bs))))"

definition recover_evicted_from_cache ::
  "ext \<Rightarrow> 's remote \<Rightarrow> string \<Rightarrow> string list \<Rightarrow> string set \<Rightarrow> bool \<Rightarrow> 's world \<Rightarrow> 's world \<times> (nat \<times> nat, SyncError) result" where
  "recover_evicted_from_cache X R path cids want use_state w =
     (if \<not> use_state then (w, Err (STransport (''evicted file '' @ path @
          '' has chunks the server lost and no state/cache to recover from'')))
      else recover_cids X R path want cids w 0 0)"

fun upload_cids ::
  "'s remote \<Rightarrow> string set \<Rightarrow> (string \<Rightarrow> bytes option) \<Rightarrow> string list \<Rightarrow> 's world \<Rightarrow> nat \<Rightarrow> nat \<Rightarrow>
   's world \<times> (nat \<times> nat, SyncError) result" where
  "upload_cids R want by_cid [] w n b = (w, Ok (n, b))"
| "upload_cids R want by_cid (cid # cids) w n b =
     (if cid \<notin> want then upload_cids R want by_cid cids w n b
      else case by_cid cid of
        None \<Rightarrow> (w, Panic)
      | Some p \<Rightarrow>
          sbind (on_remote (\<lambda>s. rm_put R s cid p) w) (\<lambda>w _.
            upload_cids R want by_cid cids w (n + 1) (b + length p)))"

definition upload_entry ::
  "ext \<Rightarrow> sync_ext \<Rightarrow> 's remote \<Rightarrow> string set \<Rightarrow> bool \<Rightarrow> string \<Rightarrow> FileEntry \<Rightarrow> 's world \<Rightarrow>
   's world \<times> (nat \<times> nat, SyncError) result" where
  "upload_entry X Y R want use_state path entry w =
     (let cids = map ref_hex (fe_chunks entry) in
      if \<not> list_ex (\<lambda>c. c \<in> want) cids then (w, Ok (0, 0))
      else if \<not> tree_path_exists (w_fs w) path then recover_evicted_from_cache X R path cids want use_state w
      else sbind (w, fs_read (w_fs w) path) (\<lambda>w bs.
        sbind (w, chunk_file X Y bs) (\<lambda>w rechunked.
          let by_cid = map_of (rev (map (\<lambda>c. (ref_hex (ck_ref c), piece bs c)) rechunked)) in
          if length rechunked \<noteq> length (fe_chunks entry) \<or> \<not> list_all (\<lambda>c. by_cid c \<noteq> None) cids
            then (w, Err (ChangedDuringBackup path))
          else upload_cids R want by_cid cids w 0 0)))"

fun upload_entries ::
  "ext \<Rightarrow> sync_ext \<Rightarrow> 's remote \<Rightarrow> string set \<Rightarrow> bool \<Rightarrow> (string \<times> FileEntry) list \<Rightarrow> 's world \<Rightarrow> nat \<Rightarrow> nat \<Rightarrow>
   's world \<times> (nat \<times> nat, SyncError) result" where
  "upload_entries X Y R want use_state [] w n b = (w, Ok (n, b))"
| "upload_entries X Y R want use_state ((path, entry) # rest) w n b =
     sbind (upload_entry X Y R want use_state path entry w) (\<lambda>w (n', b').
       upload_entries X Y R want use_state rest w (n + n') (b + b'))"

record PushedTree =
  pt_files :: u64
  pt_chunks_total :: u64
  pt_chunks_uploaded :: u64
  pt_bytes_uploaded :: u64
  pt_cid :: string
  pt_needed :: "(string \<times> u64) list"

definition push_tree :: "ext \<Rightarrow> sync_ext \<Rightarrow> 's remote \<Rightarrow> bool \<Rightarrow> 's world \<Rightarrow> 's world \<times> (PushedTree, SyncError) result" where
  "push_tree X Y R use_state w =
     sbind (plan_push X Y R use_state w) (\<lambda>w plan.
     let want = fst ` set (pp_want plan) in
     sbind (w, if rm_metered R \<and> use_state then check_ceilings (w_state w) (pp_want_bytes plan) else Ok ()) (\<lambda>w _.
     sbind (upload_entries X Y R want use_state (fm_entries (pp_manifest plan)) w 0 0) (\<lambda>w (n, b).
     sbind (if pp_cid plan \<in> want
            then sbind (on_remote (\<lambda>s. rm_put R s (pp_cid plan) (pp_manifest_bytes plan)) w) (\<lambda>w _.
                   (w, Ok (b + length (pp_manifest_bytes plan))))
            else (w, Ok b)) (\<lambda>w b.
     sbind (if b > 0 \<and> rm_metered R \<and> use_state
            then (case record_spend_all (w_clock w) (w_state w) b of (s, r) \<Rightarrow> (w\<lparr>w_state := s\<rparr>, r))
            else (w, Ok ())) (\<lambda>w _.
       (w, Ok \<lparr>pt_files = length (fm_entries (pp_manifest plan)), pt_chunks_total = pp_chunks_total plan,
               pt_chunks_uploaded = n, pt_bytes_uploaded = b, pt_cid = pp_cid plan, pt_needed = pp_needed plan\<rparr>))))))"

record BackupReport =
  br_files :: u64
  br_chunks_total :: u64
  br_chunks_uploaded :: u64
  br_bytes_uploaded :: u64
  br_cid :: string
  br_seq :: u64

definition next_of :: "u64 option \<Rightarrow> (u64, SyncError) result" where
  "next_of s = (case s of None \<Rightarrow> Ok 1 | Some n \<Rightarrow> if n + 1 \<le> u64_max then Ok (n + 1) else Panic)"

definition backup :: "ext \<Rightarrow> sync_ext \<Rightarrow> 's remote \<Rightarrow> bool \<Rightarrow> 's world \<Rightarrow> 's world \<times> (BackupReport, SyncError) result" where
  "backup X Y R use_state w =
     sbind (push_tree X Y R use_state w) (\<lambda>w pushed.
     sbind (on_remote (rm_current_seq R) w) (\<lambda>w current.
     sbind (w, next_of current) (\<lambda>w seq.
     sbind (on_remote (\<lambda>s. rm_commit_keep_set R s (pt_needed pushed) seq) w) (\<lambda>w _.
       (w, Ok \<lparr>br_files = pt_files pushed, br_chunks_total = pt_chunks_total pushed,
               br_chunks_uploaded = pt_chunks_uploaded pushed, br_bytes_uploaded = pt_bytes_uploaded pushed,
               br_cid = pt_cid pushed, br_seq = seq\<rparr>)))))"

section \<open>price.rs\<close>

record PriceQuote =
  pq_files :: u64
  pq_chunks_to_upload :: u64
  pq_chunks_skipped :: u64
  pq_bytes :: u64
  pq_postage_cents :: u64
  pq_at_rest_bytes :: u64
  pq_at_rest_bytes_after :: u64
  pq_rent_cents_per_day :: u64

definition price_backup :: "ext \<Rightarrow> sync_ext \<Rightarrow> 's remote \<Rightarrow> bool \<Rightarrow> 's world \<Rightarrow> 's world \<times> (PriceQuote, SyncError) result" where
  "price_backup X Y R use_state w =
     sbind (plan_push X Y R use_state w) (\<lambda>w plan.
     sbind (on_remote (rm_keep_set R) w) (\<lambda>w keep.
     sbind (w, case keep of None \<Rightarrow> Ok 0 | Some leaves \<Rightarrow> u64_sum (map snd leaves)) (\<lambda>w at_rest.
     sbind (w, u64_sum (map snd (pp_needed plan))) (\<lambda>w after.
     case rent_cents after of
       Ok rent \<Rightarrow>
         (w, Ok \<lparr>pq_files = length (fm_entries (pp_manifest plan)), pq_chunks_to_upload = pp_chunks_to_upload plan,
                 pq_chunks_skipped = pp_chunks_total plan - pp_chunks_to_upload plan, pq_bytes = pp_want_bytes plan,
                 pq_postage_cents = postage_cents (pp_want_bytes plan), pq_at_rest_bytes = at_rest,
                 pq_at_rest_bytes_after = after, pq_rent_cents_per_day = rent\<rparr>)
     | _ \<Rightarrow> (w, Panic)))))"

section \<open>restore.rs\<close>

fun try_leaves ::
  "ext \<Rightarrow> sync_ext \<Rightarrow> 's remote \<Rightarrow> (string \<times> u64) list \<Rightarrow> 's world \<Rightarrow> 's world \<times> ((string \<times> bytes) option, SyncError) result" where
  "try_leaves X Y R [] w = (w, Ok None)"
| "try_leaves X Y R ((cid, _) # leaves) w =
     sbind (on_remote (\<lambda>s. rm_get R s cid) w) (\<lambda>w bs.
     sbind (w, verify_content X cid bs) (\<lambda>w _.
       if is_ok (dagcbor_decode Y bs) then (w, Ok (Some (cid, bs))) else try_leaves X Y R leaves w))"

definition discover_fs_manifest ::
  "ext \<Rightarrow> sync_ext \<Rightarrow> 's remote \<Rightarrow> 's world \<Rightarrow> 's world \<times> (string \<times> bytes, SyncError) result" where
  "discover_fs_manifest X Y R w =
     sbind (on_remote (rm_keep_set R) w) (\<lambda>w keep.
       case keep of
         None \<Rightarrow> (w, Err (SDecode ''no keep-set manifest on the server''))
       | Some leaves \<Rightarrow>
           sbind (try_leaves X Y R (sort_key snd leaves) w) (\<lambda>w found.
             case found of
               Some r \<Rightarrow> (w, Ok r)
             | None \<Rightarrow> (w, Err (SDecode (''no fs-manifest among the '' @ show_nat (length leaves) @ '' keep-set leaves'')))))"

fun fetch_chunks ::
  "ext \<Rightarrow> 's remote \<Rightarrow> ChunkRef list \<Rightarrow> 's world \<Rightarrow> bytes \<Rightarrow> nat \<Rightarrow> 's world \<times> (bytes \<times> nat, SyncError) result" where
  "fetch_chunks X R [] w content n = (w, Ok (content, n))"
| "fetch_chunks X R (c # cs) w content n =
     sbind (on_remote (\<lambda>s. rm_get R s (ref_hex c)) w) (\<lambda>w bs.
     sbind (w, verify_content X (ref_hex c) bs) (\<lambda>w _.
       fetch_chunks X R cs w (content @ bs) (n + 1)))"

fun restore_entries ::
  "ext \<Rightarrow> 's remote \<Rightarrow> (string \<times> FileEntry) list \<Rightarrow> 's world \<Rightarrow> nat \<Rightarrow> nat \<Rightarrow> 's world \<times> (nat \<times> nat, SyncError) result" where
  "restore_entries X R [] w n b = (w, Ok (n, b))"
| "restore_entries X R ((path, entry) # rest) w n b =
     sbind (fetch_chunks X R (fe_chunks entry) w [] 0) (\<lambda>w (content, k).
     sbind (on_fs (\<lambda>F. write_verified_file F path entry content) w) (\<lambda>w _.
       restore_entries X R rest w (n + k) (b + length content)))"

record RestoreReport =
  rr_files :: u64
  rr_chunks_fetched :: u64
  rr_bytes_fetched :: u64
  rr_cid :: string

definition restore :: "ext \<Rightarrow> sync_ext \<Rightarrow> 's remote \<Rightarrow> string option \<Rightarrow> 's world \<Rightarrow> 's world \<times> (RestoreReport, SyncError) result" where
  "restore X Y R fs_manifest_cid w =
     sbind (case fs_manifest_cid of
              Some cid \<Rightarrow>
                sbind (on_remote (\<lambda>s. rm_get R s cid) w) (\<lambda>w bs.
                sbind (w, verify_content X cid bs) (\<lambda>w _. (w, Ok (cid, bs))))
            | None \<Rightarrow> discover_fs_manifest X Y R w) (\<lambda>w (cid, mb).
     sbind (w, dagcbor_decode Y mb) (\<lambda>w m.
     sbind (restore_entries X R (fm_entries m) w 0 0) (\<lambda>w (n, b).
       (w, Ok \<lparr>rr_files = length (fm_entries m), rr_chunks_fetched = n, rr_bytes_fetched = b, rr_cid = cid\<rparr>))))"

section \<open>evict.rs\<close>

record EvictReport =
  er_evicted :: u64
  er_bytes_freed :: u64
  er_chunks_cached :: u64

fun spill_chunks :: "bytes \<Rightarrow> Chunk list \<Rightarrow> 's world \<Rightarrow> nat \<Rightarrow> 's world \<times> (nat, SyncError) result" where
  "spill_chunks bs [] w n = (w, Ok n)"
| "spill_chunks bs (c # cs) w n =
     sbind (on_cache (\<lambda>k. cache_insert k (ref_hex (ck_ref c)) (piece bs c)) w) (\<lambda>w stored.
       spill_chunks bs cs w (if stored then n + 1 else n))"

definition set_placeholders :: "PlaceholderStore \<Rightarrow> 's world \<Rightarrow> 's world" where
  "set_placeholders ps w = w\<lparr>w_state := (w_state w)\<lparr>ss_placeholders := ps\<rparr>\<rparr>"

definition evict_one ::
  "ext \<Rightarrow> sync_ext \<Rightarrow> string list \<Rightarrow> string list \<Rightarrow> string \<Rightarrow> 's world \<Rightarrow> nat \<Rightarrow> 's world \<times> (u64 \<times> nat, SyncError) result" where
  "evict_one X Y have keep path w cached =
     sbind (w, fs_read (w_fs w) path) (\<lambda>w bs.
     sbind (w, fs_metadata (w_fs w) path) (\<lambda>w meta.
     sbind (w, file_entry_for X Y path meta bs) (\<lambda>w entry.
     let missing = filter (\<lambda>cid. cid \<notin> set have \<or> cid \<notin> set keep) (map ref_hex (fe_chunks entry)) in
     if missing \<noteq> [] then (w, Err (EvictUnbacked path missing))
     else sbind (w, chunk_file X Y bs) (\<lambda>w chunks.
       sbind (spill_chunks bs chunks w cached) (\<lambda>w cached.
       sbind (w, placeholder_record Y (ss_placeholders (w_state w)) path entry) (\<lambda>w ps.
       sbind (on_fs (\<lambda>F. fs_remove_file F path) (set_placeholders ps w)) (\<lambda>w _.
         (w, Ok (fe_size entry, cached)))))))))"

fun evict_loop ::
  "ext \<Rightarrow> sync_ext \<Rightarrow> string list \<Rightarrow> string list \<Rightarrow> string list \<Rightarrow> 's world \<Rightarrow> EvictReport \<Rightarrow> 's world \<times> (EvictReport, SyncError) result" where
  "evict_loop X Y have keep [] w rep = (w, Ok rep)"
| "evict_loop X Y have keep (path # paths) w rep =
     sbind (evict_one X Y have keep path w (er_chunks_cached rep)) (\<lambda>w (freed, cached).
       evict_loop X Y have keep paths w
         \<lparr>er_evicted = er_evicted rep + 1, er_bytes_freed = er_bytes_freed rep + freed, er_chunks_cached = cached\<rparr>)"

definition evict :: "ext \<Rightarrow> sync_ext \<Rightarrow> 's remote \<Rightarrow> string list \<Rightarrow> 's world \<Rightarrow> 's world \<times> (EvictReport, SyncError) result" where
  "evict X Y R paths w =
     sbind (on_remote (rm_have R) w) (\<lambda>w have.
     sbind (on_remote (rm_keep_set R) w) (\<lambda>w keep.
       evict_loop X Y have (case keep of None \<Rightarrow> [] | Some leaves \<Rightarrow> map fst leaves) paths w
         \<lparr>er_evicted = 0, er_bytes_freed = 0, er_chunks_cached = 0\<rparr>))"

section \<open>hydrate.rs\<close>

record HydrateReport =
  hr_files :: u64
  hr_from_cache :: u64
  hr_from_server :: u64
  hr_bytes_written :: u64

text \<open>The bytes of one chunk: from the cache when it holds them, else from the other side, verified and
  cached. The flag says where they came from.\<close>

definition cached_chunk :: "ext \<Rightarrow> 's remote \<Rightarrow> string \<Rightarrow> 's world \<Rightarrow> 's world \<times> (bytes \<times> bool, SyncError) result" where
  "cached_chunk X R cid w =
     sbind (on_cache (\<lambda>c. cache_get X c cid) w) (\<lambda>w found.
       case found of
         Some bs \<Rightarrow> (w, Ok (bs, True))
       | None \<Rightarrow>
           sbind (on_remote (\<lambda>s. rm_get R s cid) w) (\<lambda>w bs.
           sbind (w, verify_content X cid bs) (\<lambda>w _.
           sbind (on_cache (\<lambda>c. cache_insert c cid bs) w) (\<lambda>w _. (w, Ok (bs, False))))))"

fun assemble_chunks ::
  "ext \<Rightarrow> 's remote \<Rightarrow> ChunkRef list \<Rightarrow> 's world \<Rightarrow> bytes \<Rightarrow> nat \<Rightarrow> nat \<Rightarrow> 's world \<times> (bytes \<times> nat \<times> nat, SyncError) result" where
  "assemble_chunks X R [] w content nc ns = (w, Ok (content, nc, ns))"
| "assemble_chunks X R (c # cs) w content nc ns =
     sbind (cached_chunk X R (ref_hex c) w) (\<lambda>w (bs, hit).
       assemble_chunks X R cs w (content @ bs) (if hit then nc + 1 else nc) (if hit then ns else ns + 1))"

definition hydrate_one ::
  "ext \<Rightarrow> sync_ext \<Rightarrow> 's remote \<Rightarrow> string \<Rightarrow> 's world \<Rightarrow> 's world \<times> (u64 \<times> nat \<times> nat, SyncError) result" where
  "hydrate_one X Y R path w =
     sbind (w, placeholder_get Y (ss_placeholders (w_state w)) path) (\<lambda>w entry.
       case entry of
         None \<Rightarrow> (w, Err (NoPlaceholder path))
       | Some entry \<Rightarrow>
           if tree_path_exists (w_fs w) path then (w, Err (HydrateWouldOverwrite path))
           else sbind (assemble_chunks X R (fe_chunks entry) w [] 0 0) (\<lambda>w (content, nc, ns).
             sbind (on_fs (\<lambda>F. write_verified_file F path entry content) w) (\<lambda>w _.
               (set_placeholders (placeholder_remove (ss_placeholders (w_state w)) path) w,
                Ok (fe_size entry, nc, ns)))))"

fun hydrate_loop ::
  "ext \<Rightarrow> sync_ext \<Rightarrow> 's remote \<Rightarrow> string list \<Rightarrow> 's world \<Rightarrow> HydrateReport \<Rightarrow> 's world \<times> (HydrateReport, SyncError) result" where
  "hydrate_loop X Y R [] w rep = (w, Ok rep)"
| "hydrate_loop X Y R (path # paths) w rep =
     sbind (hydrate_one X Y R path w) (\<lambda>w (sz, nc, ns).
       hydrate_loop X Y R paths w
         \<lparr>hr_files = hr_files rep + 1, hr_from_cache = hr_from_cache rep + nc,
          hr_from_server = hr_from_server rep + ns, hr_bytes_written = hr_bytes_written rep + sz\<rparr>)"

definition hydrate :: "ext \<Rightarrow> sync_ext \<Rightarrow> 's remote \<Rightarrow> string list option \<Rightarrow> 's world \<Rightarrow> 's world \<times> (HydrateReport, SyncError) result" where
  "hydrate X Y R paths w =
     sbind (w, case paths of
                 Some ps \<Rightarrow> Ok ps
               | None \<Rightarrow> result_bind (placeholder_all Y (ss_placeholders (w_state w))) (\<lambda>t. Ok (map fst t))) (\<lambda>w targets.
       hydrate_loop X Y R targets w \<lparr>hr_files = 0, hr_from_cache = 0, hr_from_server = 0, hr_bytes_written = 0\<rparr>)"

section \<open>frontier.rs\<close>

definition MAX_COMMIT_RETRIES :: nat where "MAX_COMMIT_RETRIES = 3"
definition KEY_COUNTER :: string where "KEY_COUNTER = ''device_counter''"
definition KEY_LAST_HEAD :: string where "KEY_LAST_HEAD = ''last_head_cid''"
definition KEY_BASE :: string where "KEY_BASE = ''base_fs_root''"

record FrontierReport =
  fr_files :: u64
  fr_chunks_total :: u64
  fr_chunks_uploaded :: u64
  fr_bytes_uploaded :: u64
  fr_cid :: string
  fr_seq :: u64
  fr_head_cid :: string
  fr_retries :: nat

definition read_chain :: "SyncState \<Rightarrow> (u64 \<times> string option \<times> string option, SyncError) result" where
  "read_chain s =
     result_bind (case config_get s KEY_COUNTER of
                    None \<Rightarrow> Ok 0
                  | Some v \<Rightarrow> (case parse_u64 v of Some n \<Rightarrow> Ok n | None \<Rightarrow> Err (SDecode ''device_counter''))) (\<lambda>counter.
       Ok (counter, config_get s KEY_LAST_HEAD, config_get s KEY_BASE))"

fun insert_chunks :: "(string \<times> u64) list \<Rightarrow> u64 btree \<Rightarrow> u64 btree" where
  "insert_chunks [] leaves = leaves"
| "insert_chunks ((cid, n) # cs) leaves = insert_chunks cs (bt_insert cid n leaves)"

definition extend_with_head_closure ::
  "ext \<Rightarrow> sync_ext \<Rightarrow> 's remote \<Rightarrow> verifying_key \<Rightarrow> string \<Rightarrow> u64 btree \<Rightarrow> 's world \<Rightarrow> 's world \<times> (u64 btree, SyncError) result" where
  "extend_with_head_closure X Y R verifier head_cid leaves w =
     sbind (on_remote (\<lambda>s. rm_get R s head_cid) w) (\<lambda>w head_bytes.
     sbind (w, decode_verified X Y head_bytes verifier) (\<lambda>w head.
     let leaves1 = bt_insert head_cid (length head_bytes) leaves in
     sbind (on_remote (\<lambda>s. rm_get R s (dh_fs_root head)) w) (\<lambda>w mb.
     sbind (w, dagcbor_decode Y mb) (\<lambda>w m.
     let leaves2 = insert_chunks (tree_chunks m) (bt_insert (dh_fs_root head) (length mb) leaves1) in
     case dh_base head of
       None \<Rightarrow> (w, Ok leaves2)
     | Some base \<Rightarrow>
         if bt_get leaves2 base \<noteq> None then (w, Ok leaves2)
         else sbind (on_remote (\<lambda>s. rm_get R s base) w) (\<lambda>w bb. (w, Ok (bt_insert base (length bb) leaves2)))))))"

fun close_heads ::
  "ext \<Rightarrow> sync_ext \<Rightarrow> 's remote \<Rightarrow> verifying_key \<Rightarrow> string \<Rightarrow> (string \<times> string) list \<Rightarrow> u64 btree \<Rightarrow> 's world \<Rightarrow>
   's world \<times> (u64 btree, SyncError) result" where
  "close_heads X Y R verifier device [] leaves w = (w, Ok leaves)"
| "close_heads X Y R verifier device ((other, cid) # heads) leaves w =
     (if other = device then close_heads X Y R verifier device heads leaves w
      else sbind (extend_with_head_closure X Y R verifier cid leaves w) (\<lambda>w leaves.
        close_heads X Y R verifier device heads leaves w))"

text \<open>One attempt: read the frontier, apply this device's slot, cover every head, commit.\<close>

definition try_commit ::
  "ext \<Rightarrow> sync_ext \<Rightarrow> 's remote \<Rightarrow> string \<Rightarrow> PushedTree \<Rightarrow> string \<Rightarrow> nat \<Rightarrow> 's world \<Rightarrow>
   's world \<times> (u64 \<times> (unit, SyncError) result, SyncError) result" where
  "try_commit X Y R device pushed head_cid head_len w =
     sbind (on_remote (rm_frontier R) w) (\<lambda>w frontier.
     sbind (w, next_of (map_option fv_seq frontier)) (\<lambda>w seq.
     let heads = bt_insert device head_cid (case frontier of Some v \<Rightarrow> fv_heads v | None \<Rightarrow> []);
         own = bt_insert head_cid head_len (insert_chunks (pt_needed pushed) []) in
     sbind (close_heads X Y R (keypair_verifying_key X (rm_keypair R)) device heads own w) (\<lambda>w leaves.
       case on_remote (\<lambda>s. rm_commit_frontier R s leaves seq heads) w of (w, r) \<Rightarrow> (w, Ok (seq, r)))))"

function commit_loop ::
  "ext \<Rightarrow> sync_ext \<Rightarrow> 's remote \<Rightarrow> string \<Rightarrow> PushedTree \<Rightarrow> string \<Rightarrow> nat \<Rightarrow> nat \<Rightarrow> 's world \<Rightarrow>
   's world \<times> (u64 \<times> nat, SyncError) result" where
  "commit_loop X Y R device pushed head_cid head_len retries w =
     (case try_commit X Y R device pushed head_cid head_len w of
        (w, Ok (seq, Ok _)) \<Rightarrow> (w, Ok (seq, retries))
      | (w, Ok (seq, Err (StaleSeq attempted))) \<Rightarrow>
          if retries < MAX_COMMIT_RETRIES
          then commit_loop X Y R device pushed head_cid head_len (retries + 1) w
          else (w, Err (StaleSeq attempted))
      | (w, Ok (seq, Err e)) \<Rightarrow> (w, Err e)
      | (w, Ok (seq, Panic)) \<Rightarrow> (w, Panic)
      | (w, Err e) \<Rightarrow> (w, Err e)
      | (w, Panic) \<Rightarrow> (w, Panic))"
  by pat_completeness auto
termination by (relation "measure (\<lambda>(_, _, _, _, _, _, _, retries, _). MAX_COMMIT_RETRIES - retries)") auto

declare commit_loop.simps [simp del]

definition backup_frontier ::
  "ext \<Rightarrow> sync_ext \<Rightarrow> 's remote \<Rightarrow> string \<Rightarrow> 's world \<Rightarrow> 's world \<times> (FrontierReport, SyncError) result" where
  "backup_frontier X Y R device w =
     sbind (push_tree X Y R True w) (\<lambda>w pushed.
     sbind (w, read_chain (w_state w)) (\<lambda>w (counter, parent, base).
     sbind (w, next_of (Some counter)) (\<lambda>w counter'.
     sbind (w, head_encode Y (head_new_signed X device counter' (pt_cid pushed) parent base (rm_keypair R))) (\<lambda>w hb.
     let head_cid = digest_hex X hb in
     sbind (on_remote (\<lambda>s. rm_put R s head_cid hb) w) (\<lambda>w _.
     sbind (commit_loop X Y R device pushed head_cid (length hb) 0 w) (\<lambda>w (seq, retries).
       (w\<lparr>w_state := config_set (config_set (w_state w) KEY_COUNTER (show_nat counter')) KEY_LAST_HEAD head_cid\<rparr>,
        Ok \<lparr>fr_files = pt_files pushed, fr_chunks_total = pt_chunks_total pushed,
            fr_chunks_uploaded = pt_chunks_uploaded pushed, fr_bytes_uploaded = pt_bytes_uploaded pushed,
            fr_cid = pt_cid pushed, fr_seq = seq, fr_head_cid = head_cid, fr_retries = retries\<rparr>)))))))"

section \<open>converge.rs\<close>

record ConvergeReport =
  cg_files :: u64
  cg_files_written :: u64
  cg_files_deleted :: u64
  cg_conflicts :: "string list"
  cg_cid :: string
  cg_seq :: u64

definition fetch_manifest :: "ext \<Rightarrow> sync_ext \<Rightarrow> 's remote \<Rightarrow> string \<Rightarrow> 's world \<Rightarrow> 's world \<times> (FsManifest, SyncError) result" where
  "fetch_manifest X Y R cid w =
     sbind (on_remote (\<lambda>s. rm_get R s cid) w) (\<lambda>w bs.
     sbind (w, verify_content X cid bs) (\<lambda>w _. (w, dagcbor_decode Y bs)))"

fun fetch_heads ::
  "ext \<Rightarrow> sync_ext \<Rightarrow> 's remote \<Rightarrow> (string \<times> string) list \<Rightarrow> FsManifest btree \<Rightarrow> 's world \<Rightarrow>
   's world \<times> (FsManifest btree, SyncError) result" where
  "fetch_heads X Y R [] trees w = (w, Ok trees)"
| "fetch_heads X Y R ((dev, cid) # heads) trees w =
     sbind (on_remote (\<lambda>s. rm_get R s cid) w) (\<lambda>w hb.
     sbind (w, decode_verified X Y hb (keypair_verifying_key X (rm_keypair R))) (\<lambda>w head.
     sbind (fetch_manifest X Y R (dh_fs_root head) w) (\<lambda>w m.
       fetch_heads X Y R heads (bt_insert dev m trees) w)))"

fun write_delta ::
  "ext \<Rightarrow> 's remote \<Rightarrow> FsManifest \<Rightarrow> (string \<times> FileEntry) list \<Rightarrow> 's world \<Rightarrow> nat \<Rightarrow> 's world \<times> (nat, SyncError) result" where
  "write_delta X R mine [] w n = (w, Ok n)"
| "write_delta X R mine ((path, entry) # rest) w n =
     (if bt_get (fm_entries mine) path = Some entry then write_delta X R mine rest w n
      else sbind (assemble_chunks X R (fe_chunks entry) w [] 0 0) (\<lambda>w (content, _, _).
        sbind (on_fs (\<lambda>F. write_verified_file F path entry content) w) (\<lambda>w _.
          write_delta X R mine rest w (n + 1))))"

fun delete_dropped ::
  "FsManifest \<Rightarrow> string list \<Rightarrow> 's world \<Rightarrow> nat \<Rightarrow> 's world \<times> (nat, SyncError) result" where
  "delete_dropped tree [] w n = (w, Ok n)"
| "delete_dropped tree (path # paths) w n =
     (if bt_get (fm_entries tree) path \<noteq> None then delete_dropped tree paths w n
      else sbind (on_fs (\<lambda>F. fs_remove_file F path) w) (\<lambda>w _. delete_dropped tree paths w (n + 1)))"

definition converge ::
  "ext \<Rightarrow> sync_ext \<Rightarrow> 's remote \<Rightarrow> string \<Rightarrow> 's world \<Rightarrow> 's world \<times> (ConvergeReport, SyncError) result" where
  "converge X Y R device w =
     sbind (backup_frontier X Y R device w) (\<lambda>w _.
     sbind (on_remote (rm_frontier R) w) (\<lambda>w frontier.
     case frontier of
       None \<Rightarrow> (w, Err (SDecode ''no frontier to converge with''))
     | Some view \<Rightarrow>
         sbind (fetch_heads X Y R (fv_heads view) [] w) (\<lambda>w heads.
         sbind (case config_get (w_state w) ''base_fs_root'' of
                  Some cid \<Rightarrow> sbind (fetch_manifest X Y R cid w) (\<lambda>w m. (w, Ok (Some m)))
                | None \<Rightarrow> (w, Ok None)) (\<lambda>w base.
         sbind (w, fold_trees X Y heads base) (\<lambda>w out.
         let mine = (case bt_get heads device of Some m \<Rightarrow> m | None \<Rightarrow> fs_manifest_new) in
         sbind (write_delta X R mine (fm_entries (fo_tree out)) w 0) (\<lambda>w written.
         sbind (delete_dropped (fo_tree out) (map fst (fm_entries mine)) w 0) (\<lambda>w deleted.
         sbind (backup_frontier X Y R device w) (\<lambda>w rep.
           (w\<lparr>w_state := config_set (w_state w) ''base_fs_root'' (fr_cid rep)\<rparr>,
            Ok \<lparr>cg_files = length (fm_entries (fo_tree out)), cg_files_written = written, cg_files_deleted = deleted,
                cg_conflicts = map cn_loser_path (fo_conflicts out), cg_cid = fr_cid rep, cg_seq = fr_seq rep\<rparr>)))))))))"

end
