(* ===== verification/Sync_Laws.thy ===== *)
theory Sync_Laws
  imports Sync_Flows
begin

text \<open>
  What the flows promise. A restore that succeeds reproduces the scanned files byte for byte whatever
  the other side does, because every blob is checked against its address; an evicted file hydrates to
  what it was; a push names only blobs the other side holds; a frontier commit changes one slot, covers
  every head and ends.
\<close>

section \<open>Calls to the other side\<close>

lemma on_remote_Ok: "on_remote f w = (w', Ok a) \<longleftrightarrow> (\<exists>s. f (w_remote w) = (s, Ok a) \<and> w' = w\<lparr>w_remote := s\<rparr>)"
  by (auto simp: on_remote_def split: prod.splits)

lemma on_cache_Ok:
  "on_cache f w = (w', Ok a) \<longleftrightarrow>
     (\<exists>c. f (ss_cache (w_state w)) = (c, Ok a) \<and> w' = w\<lparr>w_state := (w_state w)\<lparr>ss_cache := c\<rparr>\<rparr>)"
  by (auto simp: on_cache_def split: prod.splits)

lemma on_fs_Ok: "on_fs f w = (w', Ok a) \<longleftrightarrow> (\<exists>F. f (w_fs w) = (F, Ok a) \<and> w' = w\<lparr>w_fs := F\<rparr>)"
  by (auto simp: on_fs_def split: prod.splits)

lemma verify_content_Ok: "verify_content X cid bs = Ok u \<longleftrightarrow> digest_hex X bs = cid"
  by (auto simp: verify_content_def verify_server_cid_def)

lemmas flow_Ok = sbind_Ok on_remote_Ok on_cache_Ok on_fs_Ok verify_content_Ok

text \<open>The blobs the other side ever returns.\<close>

definition returns_in :: "'s remote \<Rightarrow> bytes set \<Rightarrow> bool" where
  "returns_in R S \<longleftrightarrow> (\<forall>s cid s' b. rm_get R s cid = (s', Ok b) \<longrightarrow> b \<in> S)"

section \<open>Blobs named by their digests\<close>

definition named :: "ext \<Rightarrow> bytes set \<Rightarrow> ChunkRef list \<Rightarrow> bytes list \<Rightarrow> bool" where
  "named X S cs bss \<longleftrightarrow> list_all2 (\<lambda>c b. digest_hex X b = ref_hex c \<and> b \<in> S) cs bss"

definition pieces :: "ext \<Rightarrow> sync_ext \<Rightarrow> bytes \<Rightarrow> bytes set" where
  "pieces X Y bs = (case chunk_file X Y bs of Ok cks \<Rightarrow> piece bs ` set cks | _ \<Rightarrow> {})"

lemma digest_hex_ref: "digest_hex X b = ref_hex c \<longleftrightarrow> sha256 X b = cr_sha256 c"
  by (simp add: digest_hex_def ref_hex_def)

lemma named_pieces:
  assumes "cdc_law Y" "chunk_file X Y bs = Ok cks" "named X S (map ck_ref cks) bss" "inj_on (sha256 X) (S \<union> pieces X Y bs)"
  shows "concat bss = bs"
proof -
  obtain cks' where c: "chunk_file X Y bs = Ok cks'" "concat (map (piece bs) cks') = bs"
    "\<And>c. c \<in> set cks' \<Longrightarrow> ck_ref c = chunk_of X Y (piece bs c)"
    by (rule chunk_file_spec [OF assms(1), of X bs], rule that)
  then have eq: "cks' = cks" using assms(2) by simp
  have "b = piece bs c" if "c \<in> set cks" "sha256 X b = cr_sha256 (ck_ref c)" "b \<in> S" for b c
  proof -
    have "sha256 X b = sha256 X (piece bs c)" using that c(3) [of c] eq by (simp add: chunk_of_def)
    moreover have "piece bs c \<in> pieces X Y bs" using that(1) assms(2) by (simp add: pieces_def)
    ultimately show ?thesis using assms(4) that(3) by (auto dest: inj_onD)
  qed
  then have "list_all2 (\<lambda>c b. b = piece bs c) cks bss"
    using assms(3) by (auto simp: named_def digest_hex_ref list_all2_conv_all_nth)
  then have "bss = map (piece bs) cks" by (auto simp: list_all2_conv_all_nth intro: nth_equalityI)
  then show ?thesis using c(2) eq by simp
qed

section \<open>Restoring\<close>

lemma fetch_chunks_Ok:
  assumes "fetch_chunks X R cs w c0 n = (w', Ok (content, n'))" "returns_in R S"
  shows "w_fs w' = w_fs w \<and> w_state w' = w_state w \<and> n' = n + length cs \<and> (\<exists>bss. content = c0 @ concat bss \<and> named X S cs bss)"
  using assms(1)
proof (induction cs arbitrary: w c0 n)
  case Nil
  then show ?case by (auto simp: named_def)
next
  case (Cons c cs)
  obtain s b where g: "rm_get R (w_remote w) (ref_hex c) = (s, Ok b)" "digest_hex X b = ref_hex c"
    and f: "fetch_chunks X R cs (w\<lparr>w_remote := s\<rparr>) (c0 @ b) (n + 1) = (w', Ok (content, n'))"
    using Cons.prems by (auto simp: flow_Ok)
  obtain bss where "content = (c0 @ b) @ concat bss" "named X S cs bss" "w_fs w' = w_fs w" "w_state w' = w_state w" "n' = n + 1 + length cs"
    using Cons.IH [OF f] by auto
  moreover have "named X S (c # cs) (b # bss)" using calculation(2) g assms(2) by (auto simp: named_def returns_in_def)
  ultimately show ?case by (intro conjI exI [of _ "b # bss"]) auto
qed

lemma write_verified_file_now: "tf_now (fst (write_verified_file F p e content)) = tf_now F"
proof -
  let ?c = "(content, tf_new_mode F, tf_now F)"
  have "tf_now (fst (restore_metadata (put_node F (tmp_name p) ?c) (tmp_name p) ?c e)) = tf_now F"
    using restore_metadata_frame [of "put_node F (tmp_name p) ?c" "tmp_name p" ?c e] by (metis fun_upd_same option.distinct(1) prod.collapse put_node_simps(1) put_node_simps(3))
  then show ?thesis
    by (auto simp: write_verified_file_def Let_def sbind_def split: prod.splits result.splits option.splits)
qed

definition no_tmp_clash :: "string list \<Rightarrow> bool" where
  "no_tmp_clash ps \<longleftrightarrow> (\<forall>p \<in> set ps. \<forall>q \<in> set ps. tmp_name p \<noteq> q)"

lemma restore_entries_Ok:
  assumes "restore_entries X R es w n b = (w', Ok out)" "returns_in R S" "distinct (map fst es)" "no_tmp_clash (map fst es)"
  shows "(\<forall>(p, e) \<in> set es. \<exists>bss. named X S (fe_chunks e) bss \<and>
      map_of (tf_nodes (w_fs w')) p = Some (Regular (concat bss, fe_mode e, restored_time (w_fs w) e))) \<and>
    (\<forall>q. q \<notin> fst ` set es \<and> q \<notin> tmp_name ` fst ` set es \<longrightarrow> map_of (tf_nodes (w_fs w')) q = map_of (tf_nodes (w_fs w)) q) \<and>
    tf_now (w_fs w') = tf_now (w_fs w)"
  using assms(1,3,4)
proof (induction es arbitrary: w n b)
  case Nil
  then show ?case by simp
next
  case (Cons a es)
  obtain p e where a: "a = (p, e)" by (cases a)
  obtain w1 content k F where f: "fetch_chunks X R (fe_chunks e) w [] 0 = (w1, Ok (content, k))"
    and wr: "write_verified_file (w_fs w1) p e content = (F, Ok ())"
    and r: "restore_entries X R es (w1\<lparr>w_fs := F\<rparr>) (n + k) (b + length content) = (w', Ok out)"
    using Cons.prems(1) by (auto simp: a flow_Ok)
  obtain bss where bss: "content = concat bss" "named X S (fe_chunks e) bss" and fs: "w_fs w1 = w_fs w"
    using fetch_chunks_Ok [OF f assms(2)] by auto
  note wo = write_verified_file_Ok [OF wr]
  have now: "tf_now F = tf_now (w_fs w)" using write_verified_file_now [of "w_fs w1" p e content] wr fs by simp
  have time: "restored_time F x = restored_time (w_fs w) x" for x by (simp add: restored_time_def now)
  have pn: "p \<notin> fst ` set es" "p \<notin> tmp_name ` fst ` set es"
    using Cons.prems(2,3) by (auto simp: a no_tmp_clash_def)
  have ih: "(\<forall>(p, e) \<in> set es. \<exists>bss. named X S (fe_chunks e) bss \<and>
      map_of (tf_nodes (w_fs w')) p = Some (Regular (concat bss, fe_mode e, restored_time F e))) \<and>
    (\<forall>q. q \<notin> fst ` set es \<and> q \<notin> tmp_name ` fst ` set es \<longrightarrow> map_of (tf_nodes (w_fs w')) q = map_of (tf_nodes F) q) \<and>
    tf_now (w_fs w') = tf_now F"
    using Cons.IH [OF r] Cons.prems(2,3) by (simp add: a no_tmp_clash_def)
  have "map_of (tf_nodes (w_fs w')) p = Some (Regular (concat bss, fe_mode e, restored_time (w_fs w) e))"
    using ih pn wo(2) fs bss(1) by simp
  moreover have "map_of (tf_nodes (w_fs w')) q = map_of (tf_nodes (w_fs w)) q"
    if "q \<notin> fst ` set (a # es)" "q \<notin> tmp_name ` fst ` set (a # es)" for q
    using ih that wo(3) [of q] fs by (simp add: a)
  ultimately show ?case using ih bss(2) now time by (auto simp: a)
qed

lemma restore_by_cid_Ok:
  assumes "restore X Y R (Some cid) w = (w', Ok rep)" "returns_in R S"
  obtains s mb m out where "digest_hex X mb = cid" "mb \<in> S" "dagcbor_decode Y mb = Ok m"
    "restore_entries X R (fm_entries m) (w\<lparr>w_remote := s\<rparr>) 0 0 = (w', Ok out)"
proof -
  obtain s mb m out where "rm_get R (w_remote w) cid = (s, Ok mb)" "digest_hex X mb = cid" "dagcbor_decode Y mb = Ok m"
    "restore_entries X R (fm_entries m) (w\<lparr>w_remote := s\<rparr>) 0 0 = (w', Ok out)"
    using assms(1) by (auto simp: restore_def flow_Ok)
  then show thesis using that assms(2) by (auto simp: returns_in_def)
qed

text \<open>The pieces of every file of a tree.\<close>

definition tree_pieces :: "ext \<Rightarrow> sync_ext \<Rightarrow> TreeFs \<Rightarrow> bytes set" where
  "tree_pieces X Y F = (\<Union>(p, n) \<in> set (tf_nodes F). case n of Regular (bs, _, _) \<Rightarrow> pieces X Y bs | _ \<Rightarrow> {})"

lemma entry_for_Ok:
  assumes "entry_for X Y F p (bs, mode, t) = Ok e" "map_of (tf_nodes F) p = Some (Regular (bs, mode, t))"
  obtains cks where "chunk_file X Y bs = Ok cks" "fe_chunks e = map ck_ref cks" "fe_mode e = mode mod 4096"
    "mtime_parts t p = Ok (fe_mtime_secs e, fe_mtime_nanos e)" "fe_size e = length bs"
proof -
  have "fs_read F p = Ok bs" using assms by (auto simp: entry_for_def fs_read_def read_target_def result_bind_Ok split: if_splits)
  then show thesis using assms(1) that by (auto simp: entry_for_def file_entry_for_def result_bind_Ok)
qed

lemma restore_scanned:
  assumes laws: "cdc_law Y" "cbor_law Y"
    and scan: "scan_tree X Y F = Ok m" "tree_wf F" "dagcbor_encode Y m = Ok mb" "no_tmp_clash (map fst (fm_entries m))"
    and restore: "restore X Y R (Some (digest_hex X mb)) w = (w', Ok rep)"
    and collisions: "returns_in R S" "inj_on (sha256 X) (S \<union> {mb} \<union> tree_pieces X Y F)"
    and src: "map_of (tf_nodes F) p = Some (Regular (bs, mode, t))"
  shows "map_of (tf_nodes (w_fs w')) p = Some (Regular (bs, mode mod 4096, kept_time (tf_now (w_fs w)) t))"
proof -
  obtain s mb' m' out where r: "digest_hex X mb' = digest_hex X mb" "mb' \<in> S" "dagcbor_decode Y mb' = Ok m'"
    "restore_entries X R (fm_entries m') (w\<lparr>w_remote := s\<rparr>) 0 0 = (w', Ok out)"
    by (rule restore_by_cid_Ok [OF restore collisions(1)])
  have "mb' = mb" using inj_onD [OF collisions(2), of mb' mb] r(1,2) by (simp add: digest_hex_def)
  moreover have "uncbor_manifest Y mb = Inr m"
    using scan(3) laws(2) by (auto simp: dagcbor_encode_def cbor_law_def split: sum.splits)
  ultimately have m': "m' = m"
    using r(3) scan_tree_Ok(2) [OF scan(1,2)] by (auto simp: dagcbor_decode_def check_kind_def)
  obtain e where e: "entry_for X Y F p (bs, mode, t) = Ok e"
    using scan_tree_Ok(4) [OF scan(1,2) src] by (auto simp: is_ok_iff)
  have "bt_get (fm_entries m) p = Some e" using scan_tree_Ok(3) [OF scan(1,2)] src e by blast
  then have pe: "(p, e) \<in> set (fm_entries m)" by (auto simp: bt_get_def dest: map_of_SomeD)
  have d: "distinct (map fst (fm_entries m))" by (rule btree_distinct [OF scan_tree_Ok(1) [OF scan(1,2)]])
  have "\<forall>(p, e) \<in> set (fm_entries m). \<exists>bss. named X S (fe_chunks e) bss \<and>
      map_of (tf_nodes (w_fs w')) p = Some (Regular (concat bss, fe_mode e, restored_time (w_fs w) e))"
    using restore_entries_Ok [OF r(4) collisions(1)] d scan(4) by (simp add: m')
  then obtain bss where n: "named X S (fe_chunks e) bss"
    and f: "map_of (tf_nodes (w_fs w')) p = Some (Regular (concat bss, fe_mode e, restored_time (w_fs w) e))"
    using pe by blast
  obtain cks where c: "chunk_file X Y bs = Ok cks" "fe_chunks e = map ck_ref cks" "fe_mode e = mode mod 4096"
    "mtime_parts t p = Ok (fe_mtime_secs e, fe_mtime_nanos e)"
    by (rule entry_for_Ok [OF e src])
  have "pieces X Y bs \<subseteq> tree_pieces X Y F"
    using map_of_SomeD [OF src] by (force simp: tree_pieces_def)
  then have "inj_on (sha256 X) (S \<union> pieces X Y bs)" using collisions(2) by (rule_tac inj_on_subset) auto
  then have "concat bss = bs" by (rule named_pieces [OF laws(1) c(1) n [unfolded c(2)]])
  then show ?thesis using f c(3) restored_recorded [OF c(4)] by simp
qed

section \<open>Evicting and hydrating\<close>

text \<open>What the cache holds on disk only shrinks, except for the blob just inserted.\<close>

definition spilled :: "ChunkCache \<Rightarrow> bytes set" where "spilled c = ran (kc_files c)"

lemma cache_remove_spilled: "cache_remove c cid = (c', r) \<Longrightarrow> spilled c' \<subseteq> spilled c"
  by (auto simp: cache_remove_def spilled_def ran_def split: if_splits)

lemma evict_to_budget_spilled: "evict_to_budget c = (c', r) \<Longrightarrow> spilled c' \<subseteq> spilled c"
proof (induction c arbitrary: c' r rule: evict_to_budget.induct)
  case (1 c)
  show ?case
  proof (cases "\<exists>t cid c1 u. cache_total c = Ok t \<and> \<not> t \<le> kc_budget c \<and> lru_victim c = Some cid \<and> cache_remove c cid = (c1, Ok u)")
    case True
    then obtain t cid c1 u where s: "cache_total c = Ok t" "\<not> t \<le> kc_budget c" "lru_victim c = Some cid" "cache_remove c cid = (c1, Ok u)"
      by blast
    then have "evict_to_budget c1 = (c', r)" using 1(2) by (subst (asm) evict_to_budget.simps) simp
    then show ?thesis using 1(1) [OF s(1-3) s(4) [symmetric]] cache_remove_spilled [OF s(4)] by blast
  next
    case False
    then show ?thesis
      using 1(2) by (subst (asm) evict_to_budget.simps)
        (auto split: result.splits if_splits option.splits prod.splits dest: cache_remove_spilled)
  qed
qed

lemma cache_insert_spilled: "cache_insert c cid bs = (c', r) \<Longrightarrow> spilled c' \<subseteq> insert bs (spilled c)"
proof -
  have ins: "spilled (c\<lparr>kc_files := (kc_files c)(cid \<mapsto> bs)\<rparr>) \<subseteq> insert bs (spilled c)"
    by (auto simp: spilled_def ran_def split: if_splits)
  have ev: "spilled d \<subseteq> insert bs (spilled c)" if "evict_to_budget (c\<lparr>kc_files := (kc_files c)(cid \<mapsto> bs), kc_rows := rs\<rparr>) = (d, x)" for d x rs
    using evict_to_budget_spilled [OF that] ins by (auto simp: spilled_def)
  assume "cache_insert c cid bs = (c', r)"
  then show ?thesis
    using ins by (simp add: cache_insert_def Let_def split: if_splits result.splits prod.splits) (auto dest: ev)
qed

lemma cache_get_spilled:
  assumes "cache_get X c cid = (c', r)"
  shows "spilled c' \<subseteq> spilled c" "r = Ok (Some bs) \<Longrightarrow> bs \<in> spilled c \<and> digest_hex X bs = cid"
  using assms
  by (auto simp: cache_get_def spilled_def ran_def verify_content_def verify_server_cid_def is_ok_iff cache_remove_def
      split: option.splits if_splits result.splits prod.splits)

lemma cached_chunk_Ok:
  assumes "cached_chunk X R cid w = (w', Ok (bs, hit))" "returns_in R S" "spilled (ss_cache (w_state w)) \<subseteq> S"
  shows "digest_hex X bs = cid \<and> bs \<in> S \<and> w_fs w' = w_fs w \<and> spilled (ss_cache (w_state w')) \<subseteq> S \<and>
    ss_placeholders (w_state w') = ss_placeholders (w_state w)"
proof -
  obtain c found where g: "cache_get X (ss_cache (w_state w)) cid = (c, Ok found)"
    and k: "(case found of
         Some bs \<Rightarrow> (w\<lparr>w_state := (w_state w)\<lparr>ss_cache := c\<rparr>\<rparr>, Ok (bs, True))
       | None \<Rightarrow>
           sbind (on_remote (\<lambda>s. rm_get R s cid) (w\<lparr>w_state := (w_state w)\<lparr>ss_cache := c\<rparr>\<rparr>)) (\<lambda>w bs.
           sbind (w, verify_content X cid bs) (\<lambda>w _.
           sbind (on_cache (\<lambda>c. cache_insert c cid bs) w) (\<lambda>w _. (w, Ok (bs, False)))))) = (w', Ok (bs, hit))"
    using assms(1) by (auto simp: cached_chunk_def flow_Ok)
  have sub: "spilled c \<subseteq> S" using cache_get_spilled(1) [OF g] assms(3) by blast
  show ?thesis
  proof (cases found)
    case None
    then obtain s c' st where "rm_get R (w_remote w) cid = (s, Ok bs)" "digest_hex X bs = cid"
      "cache_insert c cid bs = (c', Ok st)" "w' = w\<lparr>w_state := (w_state w)\<lparr>ss_cache := c'\<rparr>, w_remote := s\<rparr>"
      using k by (auto simp: flow_Ok)
    moreover from this have "bs \<in> S" using assms(2) by (auto simp: returns_in_def)
    ultimately show ?thesis using cache_insert_spilled [of c cid bs c'] sub by auto
  next
    case (Some b)
    then show ?thesis using k cache_get_spilled(2) [OF g, of b] sub assms(3) by auto
  qed
qed

lemma assemble_chunks_Ok:
  assumes "assemble_chunks X R cs w c0 nc ns = (w', Ok (content, nc', ns'))" "returns_in R S" "spilled (ss_cache (w_state w)) \<subseteq> S"
  shows "w_fs w' = w_fs w \<and> nc' + ns' = nc + ns + length cs \<and> spilled (ss_cache (w_state w')) \<subseteq> S \<and>
    ss_placeholders (w_state w') = ss_placeholders (w_state w) \<and> (\<exists>bss. content = c0 @ concat bss \<and> named X S cs bss)"
  using assms(1,3)
proof (induction cs arbitrary: w c0 nc ns)
  case Nil
  then show ?case by (auto simp: named_def)
next
  case (Cons c cs)
  obtain w1 b hit where g: "cached_chunk X R (ref_hex c) w = (w1, Ok (b, hit))"
    and f: "assemble_chunks X R cs w1 (c0 @ b) (if hit then nc + 1 else nc) (if hit then ns else ns + 1) = (w', Ok (content, nc', ns'))"
    using Cons.prems(1) by (auto simp: flow_Ok)
  note o = cached_chunk_Ok [OF g assms(2) Cons.prems(2)]
  obtain bss where "content = (c0 @ b) @ concat bss" "named X S cs bss"
    using Cons.IH [OF f] o by blast
  moreover have "named X S (c # cs) (b # bss)" using calculation(2) o by (simp add: named_def)
  ultimately have "\<exists>bss. content = c0 @ concat bss \<and> named X S (c # cs) bss" by (intro exI [of _ "b # bss"]) simp
  then show ?case using Cons.IH [OF f] o by (cases hit) auto
qed

lemma spill_chunks_Ok:
  assumes "spill_chunks bs cks w n = (w', Ok n')" "piece bs ` set cks \<subseteq> S" "spilled (ss_cache (w_state w)) \<subseteq> S"
  shows "w_fs w' = w_fs w \<and> ss_placeholders (w_state w') = ss_placeholders (w_state w) \<and> spilled (ss_cache (w_state w')) \<subseteq> S"
  using assms
proof (induction cks arbitrary: w n)
  case Nil
  then show ?case by simp
next
  case (Cons c cks)
  obtain k st where i: "cache_insert (ss_cache (w_state w)) (ref_hex (ck_ref c)) (piece bs c) = (k, Ok st)"
    and r: "spill_chunks bs cks (w\<lparr>w_state := (w_state w)\<lparr>ss_cache := k\<rparr>\<rparr>) (if st then n + 1 else n) = (w', Ok n')"
    using Cons.prems(1) by (auto simp: flow_Ok)
  have "spilled k \<subseteq> S" using cache_insert_spilled [OF i] Cons.prems(2,3) by auto
  then show ?case using Cons.IH [OF r] Cons.prems(2) by simp
qed

lemma evict_one_Ok:
  assumes "evict_one X Y have keep path w n = (w', Ok out)" "map_of (tf_nodes (w_fs w)) path = Some (Regular (bs, mode, t))"
    "spilled (ss_cache (w_state w)) \<subseteq> S" "pieces X Y bs \<subseteq> S"
  obtains e cks ps where "entry_for X Y (w_fs w) path (bs, mode, t) = Ok e" "chunk_file X Y bs = Ok cks"
    "\<And>c. c \<in> set (fe_chunks e) \<Longrightarrow> ref_hex c \<in> set have \<and> ref_hex c \<in> set keep"
    "placeholder_record Y (ss_placeholders (w_state w)) path e = Ok ps" "ss_placeholders (w_state w') = ps"
    "tf_nodes (w_fs w') = AList.delete path (tf_nodes (w_fs w))" "spilled (ss_cache (w_state w')) \<subseteq> S"
    "tf_now (w_fs w') = tf_now (w_fs w)"
proof -
  have rd: "read_target (w_fs w) path = Some (bs, mode, t)" using assms(2) by (simp add: read_target_def)
  obtain e cks w1 n1 ps F where f: "fs_read (w_fs w) path = Ok bs" "file_entry_for X Y path (bs, mode, t) bs = Ok e"
    "filter (\<lambda>cid. cid \<notin> set have \<or> cid \<notin> set keep) (map ref_hex (fe_chunks e)) = []"
    "chunk_file X Y bs = Ok cks" "spill_chunks bs cks w n = (w1, Ok n1)"
    "placeholder_record Y (ss_placeholders (w_state w1)) path e = Ok ps"
    "fs_remove_file (w_fs w1) path = (F, Ok ())" "w' = (set_placeholders ps w1)\<lparr>w_fs := F\<rparr>"
    using assms(1) rd
    by (auto simp: evict_one_def flow_Ok fs_read_def fs_metadata_def Let_def set_placeholders_def split: if_splits)
  have s: "w_fs w1 = w_fs w \<and> ss_placeholders (w_state w1) = ss_placeholders (w_state w) \<and> spilled (ss_cache (w_state w1)) \<subseteq> S"
    using spill_chunks_Ok [OF f(5) _ assms(3)] f(4) assms(4) by (simp add: pieces_def)
  show thesis
    by (rule that [of e cks ps]) (use f s in \<open>auto simp: entry_for_def filter_empty_conv set_placeholders_def fs_remove_file_def split: if_splits\<close>)
qed

text \<open>An eviction goes through only when every chunk of the file is held and kept by the other side;
  hydrating the path afterwards writes back the file that was evicted.\<close>

lemma evict_hydrate:
  assumes laws: "cdc_law Y" "cbor_law Y"
    and evict: "evict_one X Y have keep path w n = (w1, Ok out)"
    and hydrate: "hydrate_one X Y R path w1 = (w2, Ok out')"
    and src: "map_of (tf_nodes (w_fs w)) path = Some (Regular (bs, mode, t))" "0 \<le> t"
    and collisions: "returns_in R S" "spilled (ss_cache (w_state w)) \<subseteq> S" "pieces X Y bs \<subseteq> S" "inj_on (sha256 X) S"
  shows "map_of (tf_nodes (w_fs w1)) path = None"
    "map_of (tf_nodes (w_fs w2)) path = Some (Regular (bs, mode mod 4096, t))"
    "q \<noteq> path \<Longrightarrow> q \<noteq> tmp_name path \<Longrightarrow> map_of (tf_nodes (w_fs w2)) q = map_of (tf_nodes (w_fs w)) q"
    "placeholder_get Y (ss_placeholders (w_state w2)) path = Ok None"
proof -
  obtain e cks ps where e: "entry_for X Y (w_fs w) path (bs, mode, t) = Ok e"
    and ps: "placeholder_record Y (ss_placeholders (w_state w)) path e = Ok ps" "ss_placeholders (w_state w1) = ps"
    and fs: "tf_nodes (w_fs w1) = AList.delete path (tf_nodes (w_fs w))" "spilled (ss_cache (w_state w1)) \<subseteq> S"
    by (rule evict_one_Ok [OF evict src(1) collisions(2,3)], rule that)
  show "map_of (tf_nodes (w_fs w1)) path = None" by (simp add: fs(1) delete_conv)
  have "placeholder_get Y (ss_placeholders (w_state w1)) path = Ok (Some e)"
    using placeholder_round_trip(1) [OF laws(2) ps(1)] ps(2) by simp
  then obtain w3 content nc ns F where a: "assemble_chunks X R (fe_chunks e) w1 [] 0 0 = (w3, Ok (content, nc, ns))"
    and wr: "write_verified_file (w_fs w3) path e content = (F, Ok ())"
    and w2: "w2 = set_placeholders (placeholder_remove (ss_placeholders (w_state w3)) path) (w3\<lparr>w_fs := F\<rparr>)"
    using hydrate by (auto simp: hydrate_one_def flow_Ok split: if_splits)
  obtain bss where n: "content = concat bss" "named X S (fe_chunks e) bss" and w3: "w_fs w3 = w_fs w1"
    using assemble_chunks_Ok [OF a collisions(1) fs(2)] by auto
  obtain cks where c: "chunk_file X Y bs = Ok cks" "fe_chunks e = map ck_ref cks" "fe_mode e = mode mod 4096"
    "mtime_parts t path = Ok (fe_mtime_secs e, fe_mtime_nanos e)"
    by (rule entry_for_Ok [OF e src(1)])
  have "inj_on (sha256 X) (S \<union> pieces X Y bs)" using collisions(3,4) by (simp add: Un_absorb2)
  then have "concat bss = bs" by (rule named_pieces [OF laws(1) c(1) n(2) [unfolded c(2)]])
  then show "map_of (tf_nodes (w_fs w2)) path = Some (Regular (bs, mode mod 4096, t))"
    using write_verified_file_Ok(2) [OF wr] c(3) n(1) mtime_parts_nonneg [OF c(4) src(2)]
    by (simp add: restored_time_def w2 set_placeholders_def)
  show "map_of (tf_nodes (w_fs w2)) q = map_of (tf_nodes (w_fs w)) q" if "q \<noteq> path" "q \<noteq> tmp_name path"
    using write_verified_file_Ok(3) [OF wr that] that by (simp add: w2 set_placeholders_def w3 fs(1) delete_conv)
  show "placeholder_get Y (ss_placeholders (w_state w2)) path = Ok None"
    by (simp add: w2 set_placeholders_def placeholder_remove_get)
qed

section \<open>Pushing\<close>

text \<open>What the engine relies on of the other side: a state invariant, and a set of held addresses that a
  listing does not exceed, that an accepted upload enters and that no call before the commit leaves.\<close>

definition keeps :: "('s \<Rightarrow> bool) \<Rightarrow> ('s \<Rightarrow> string set) \<Rightarrow> ('s \<Rightarrow> 's \<times> 'a) \<Rightarrow> bool" where
  "keeps good held f \<longleftrightarrow> (\<forall>s. good s \<longrightarrow> good (fst (f s)) \<and> held s \<subseteq> held (fst (f s)))"

lemma keepsD: "keeps good held f \<Longrightarrow> f s = (s', r) \<Longrightarrow> good s \<Longrightarrow> good s' \<and> held s \<subseteq> held s'"
  unfolding keeps_def by (metis fst_conv)

lemma dedup_blobs_cids: "fst ` set (dedup_blobs seen xs) = fst ` set xs - seen"
  by (induction seen xs rule: dedup_blobs.induct) auto

lemma dedup_blobs_distinct: "distinct (map fst (dedup_blobs seen xs))"
  by (induction seen xs rule: dedup_blobs.induct) (simp_all add: dedup_blobs_cids)

lemma tree_chunks_cids: "fst ` set (tree_chunks m) = (\<Union>x \<in> set (fm_entries m). ref_hex ` set (fe_chunks (snd x)))"
  by (force simp: tree_chunks_def)

lemma needed_cids:
  "fst ` set (dedup_blobs {} (tree_chunks m) @ [(cid, n)]) = insert cid (\<Union>x \<in> set (fm_entries m). ref_hex ` set (fe_chunks (snd x)))"
  by (simp add: image_Un dedup_blobs_cids tree_chunks_cids)

lemma missing_blobs_cids: "fst ` set (missing_blobs bs hs) = fst ` set bs - set hs"
  by (force simp: missing_blobs_def)

lemma plan_push_Ok:
  assumes "plan_push X Y R use w = (w', Ok plan)"
  obtains w1 s hs where "logical_tree X Y use w = (w1, Ok (pp_manifest plan))" "rm_have R (w_remote w1) = (s, Ok hs)"
    "w' = w1\<lparr>w_remote := s\<rparr>" "pp_want plan = missing_blobs (pp_needed plan) hs"
    "pp_needed plan = dedup_blobs {} (tree_chunks (pp_manifest plan)) @ [(pp_cid plan, length (pp_manifest_bytes plan))]"
    "dagcbor_encode Y (pp_manifest plan) = Ok (pp_manifest_bytes plan)" "content_id X Y (pp_manifest plan) = Ok (pp_cid plan)"
    "pp_want_bytes plan = sum_list (map snd (pp_want plan))" "pp_want_bytes plan \<le> u64_max"
  using assms by (auto simp: plan_push_def flow_Ok Let_def u64_sum_def split: if_splits)

lemma logical_tree_remote: "logical_tree X Y use w = (w', r) \<Longrightarrow> w_remote w' = w_remote w \<and> w_fs w' = w_fs w"
  by (auto simp: logical_tree_def sbind_def Let_def split: if_splits prod.splits result.splits option.splits)

lemma record_spend_remote:
  assumes "(if c then (case record_spend_all t (w_state w) b of (s, r) \<Rightarrow> (w\<lparr>w_state := s\<rparr>, r)) else (w, Ok ())) = (w', Ok u)"
  shows "w_remote w' = w_remote w"
  using assms by (auto split: if_splits prod.splits)

lemma push_tree_Ok:
  assumes "push_tree X Y R use w = (w', Ok pushed)"
  obtains w1 plan w2 n b and w3 :: "'s world" where "plan_push X Y R use w = (w1, Ok plan)"
    "upload_entries X Y R (fst ` set (pp_want plan)) use (fm_entries (pp_manifest plan)) w1 0 0 = (w2, Ok (n, b))"
    "w_remote w3 = w_remote w2 \<and> pp_cid plan \<notin> fst ` set (pp_want plan) \<or>
        rm_put R (w_remote w2) (pp_cid plan) (pp_manifest_bytes plan) = (w_remote w3, Ok ())"
    "w_remote w' = w_remote w3" "pt_needed pushed = pp_needed plan" "pt_cid pushed = pp_cid plan"
    "rm_metered R \<and> use \<Longrightarrow> check_ceilings (w_state w1) (pp_want_bytes plan) = Ok ()"
    "pt_bytes_uploaded pushed = b + (if pp_cid plan \<in> fst ` set (pp_want plan) then length (pp_manifest_bytes plan) else 0)"
    "pt_chunks_uploaded pushed = n"
proof -
  obtain w1 plan w2 n b b3 and w3 :: "'s world" where s: "plan_push X Y R use w = (w1, Ok plan)"
    "(if rm_metered R \<and> use then check_ceilings (w_state w1) (pp_want_bytes plan) else Ok ()) = Ok ()"
    "upload_entries X Y R (fst ` set (pp_want plan)) use (fm_entries (pp_manifest plan)) w1 0 0 = (w2, Ok (n, b))"
    "(if pp_cid plan \<in> fst ` set (pp_want plan)
      then sbind (on_remote (\<lambda>s. rm_put R s (pp_cid plan) (pp_manifest_bytes plan)) w2) (\<lambda>w _.
             (w, Ok (b + length (pp_manifest_bytes plan))))
      else (w2, Ok b)) = (w3, Ok b3)"
    "(if b3 > 0 \<and> rm_metered R \<and> use
      then (case record_spend_all (w_clock w3) (w_state w3) b3 of (s, r) \<Rightarrow> (w3\<lparr>w_state := s\<rparr>, r))
      else (w3, Ok ())) = (w', Ok ())"
    "pushed = \<lparr>pt_files = length (fm_entries (pp_manifest plan)), pt_chunks_total = pp_chunks_total plan,
       pt_chunks_uploaded = n, pt_bytes_uploaded = b3, pt_cid = pp_cid plan, pt_needed = pp_needed plan\<rparr>"
    using assms unfolding push_tree_def Let_def sbind_Ok by (clarsimp simp: sbind_Ok)
  have r: "w_remote w' = w_remote w3" by (rule record_spend_remote [OF s(5)])
  show thesis
  proof (cases "pp_cid plan \<in> fst ` set (pp_want plan)")
    case True
    then have "rm_put R (w_remote w2) (pp_cid plan) (pp_manifest_bytes plan) = (w_remote w3, Ok ())" "b3 = b + length (pp_manifest_bytes plan)"
      using s(4) by (auto simp: flow_Ok)
    then show thesis using s r True by (intro that [of w1 plan w2 n b w3]) simp_all
  next
    case False
    then show thesis using s r by (intro that [of w1 plan w2 n b w3]) simp_all
  qed
qed

locale blob_side =
  fixes R :: "'s remote"
    and good :: "'s \<Rightarrow> bool"
    and held :: "'s \<Rightarrow> string set"
    and addr :: "string \<Rightarrow> bool"
  assumes have_held: "good s \<Longrightarrow> rm_have R s = (s', Ok cs) \<Longrightarrow> set cs \<subseteq> held s'"
    and put_held: "good s \<Longrightarrow> addr cid \<Longrightarrow> rm_put R s cid bs = (s', Ok u) \<Longrightarrow> cid \<in> held s'"
    and hex_addr: "addr (to_hex h)"
    and have_keeps: "keeps good held (rm_have R)"
    and put_keeps: "keeps good held (\<lambda>s. rm_put R s cid bs)"
    and get_keeps: "keeps good held (\<lambda>s. rm_get R s cid)"
    and seq_keeps: "keeps good held (rm_current_seq R)"
    and frontier_keeps: "keeps good held (rm_frontier R)"

context blob_side
begin

lemma upload_cids_held:
  assumes "upload_cids R want by_cid cids w n b = (w', Ok out)" "good (w_remote w)" "list_all addr cids"
  shows "good (w_remote w') \<and> held (w_remote w) \<subseteq> held (w_remote w') \<and> set cids \<inter> want \<subseteq> held (w_remote w')"
  using assms
proof (induction cids arbitrary: w n b)
  case Nil
  then show ?case by simp
next
  case (Cons cid cids)
  show ?case
  proof (cases "cid \<in> want")
    case True
    then obtain p s where p: "rm_put R (w_remote w) cid p = (s, Ok ())"
      and r: "upload_cids R want by_cid cids (w\<lparr>w_remote := s\<rparr>) (n + 1) (b + length p) = (w', Ok out)"
      using Cons.prems(1) by (auto simp: flow_Ok split: option.splits)
    have "good s" "held (w_remote w) \<subseteq> held s" "cid \<in> held s"
      using keepsD [OF put_keeps p Cons.prems(2)] put_held [OF Cons.prems(2) _ p] Cons.prems(3) by auto
    then show ?thesis using Cons.IH [OF r] Cons.prems(3) by auto
  next
    case False
    then show ?thesis using Cons.IH [of w n b] Cons.prems by auto
  qed
qed

lemma recover_cids_held:
  assumes "recover_cids X R path want cids w n b = (w', Ok out)" "good (w_remote w)" "list_all addr cids"
  shows "good (w_remote w') \<and> held (w_remote w) \<subseteq> held (w_remote w') \<and> set cids \<inter> want \<subseteq> held (w_remote w')"
  using assms
proof (induction cids arbitrary: w n b)
  case Nil
  then show ?case by simp
next
  case (Cons cid cids)
  show ?case
  proof (cases "cid \<in> want")
    case True
    then obtain c p s where p: "rm_put R (w_remote w) cid p = (s, Ok ())"
      and r: "recover_cids X R path want cids (w\<lparr>w_state := (w_state w)\<lparr>ss_cache := c\<rparr>, w_remote := s\<rparr>) (n + 1) (b + length p) = (w', Ok out)"
      using Cons.prems(1) by (auto simp: flow_Ok split: option.splits)
    have "good s" "held (w_remote w) \<subseteq> held s" "cid \<in> held s"
      using keepsD [OF put_keeps p Cons.prems(2)] put_held [OF Cons.prems(2) _ p] Cons.prems(3) by auto
    then show ?thesis using Cons.IH [OF r] Cons.prems(3) by auto
  next
    case False
    then show ?thesis using Cons.IH [of w n b] Cons.prems by auto
  qed
qed

lemma upload_entry_held:
  assumes "upload_entry X Y R want use path e w = (w', Ok out)" "good (w_remote w)"
  shows "good (w_remote w') \<and> held (w_remote w) \<subseteq> held (w_remote w') \<and> ref_hex ` set (fe_chunks e) \<inter> want \<subseteq> held (w_remote w')"
proof (cases "list_ex (\<lambda>c. c \<in> want) (map ref_hex (fe_chunks e))")
  case False
  then show ?thesis using assms by (auto simp: upload_entry_def Let_def list_ex_iff)
next
  case True
  let ?cids = "map ref_hex (fe_chunks e)"
  consider (rec) "recover_cids X R path want ?cids w 0 0 = (w', Ok out)"
    | (up) by_cid where "upload_cids R want by_cid ?cids w 0 0 = (w', Ok out)"
    using assms(1) True
    by (auto simp: upload_entry_def Let_def flow_Ok recover_evicted_from_cache_def split: if_splits)
  then show ?thesis
    using recover_cids_held [of X path want ?cids w 0 0 w' out] upload_cids_held [of want _ ?cids w 0 0 w' out] assms(2)
    by cases (auto simp: hex_addr ref_hex_def list_all_iff)
qed

lemma upload_entries_held:
  assumes "upload_entries X Y R want use es w n b = (w', Ok out)" "good (w_remote w)"
  shows "good (w_remote w') \<and> held (w_remote w) \<subseteq> held (w_remote w') \<and>
    (\<Union>x \<in> set es. ref_hex ` set (fe_chunks (snd x))) \<inter> want \<subseteq> held (w_remote w')"
  using assms
proof (induction es arbitrary: w n b)
  case Nil
  then show ?case by simp
next
  case (Cons a es)
  obtain p e where a: "a = (p, e)" by (cases a)
  obtain w1 n1 b1 where u: "upload_entry X Y R want use p e w = (w1, Ok (n1, b1))"
    and r: "upload_entries X Y R want use es w1 (n + n1) (b + b1) = (w', Ok out)"
    using Cons.prems(1) by (auto simp: a flow_Ok)
  show ?case using upload_entry_held [OF u Cons.prems(2)] Cons.IH [OF r] by (simp add: a Int_Un_distrib2) blast
qed

lemma push_tree_held:
  assumes "push_tree X Y R use w = (w', Ok pushed)" "good (w_remote w)"
  shows "good (w_remote w') \<and> fst ` set (pt_needed pushed) \<subseteq> held (w_remote w') \<and> pt_cid pushed \<in> fst ` set (pt_needed pushed)"
proof -
  obtain w1 plan w2 n b and w3 :: "'s world" where p: "plan_push X Y R use w = (w1, Ok plan)"
    and u: "upload_entries X Y R (fst ` set (pp_want plan)) use (fm_entries (pp_manifest plan)) w1 0 0 = (w2, Ok (n, b))"
    and m: "w_remote w3 = w_remote w2 \<and> pp_cid plan \<notin> fst ` set (pp_want plan) \<or>
        rm_put R (w_remote w2) (pp_cid plan) (pp_manifest_bytes plan) = (w_remote w3, Ok ())"
    and e: "w_remote w' = w_remote w3" "pt_needed pushed = pp_needed plan" "pt_cid pushed = pp_cid plan"
    by (rule push_tree_Ok [OF assms(1)], rule that)
  obtain wl s hs where l: "logical_tree X Y use w = (wl, Ok (pp_manifest plan))" "rm_have R (w_remote wl) = (s, Ok hs)"
    "w1 = wl\<lparr>w_remote := s\<rparr>" "pp_want plan = missing_blobs (pp_needed plan) hs"
    "pp_needed plan = dedup_blobs {} (tree_chunks (pp_manifest plan)) @ [(pp_cid plan, length (pp_manifest_bytes plan))]"
    "content_id X Y (pp_manifest plan) = Ok (pp_cid plan)"
    by (rule plan_push_Ok [OF p], rule that)
  have "w_remote wl = w_remote w" using logical_tree_remote [OF l(1)] by simp
  then have g1: "good (w_remote w1)" and h1: "set hs \<subseteq> held (w_remote w1)"
    using l(2,3) keepsD [OF have_keeps l(2)] have_held [OF _ l(2)] assms(2) by auto
  note uh = upload_entries_held [OF u g1]
  have cid_addr: "addr (pp_cid plan)" using l(6) hex_addr by (auto simp: content_id_def digest_hex_def result_bind_Ok dest!: sym [of _ "pp_cid plan"])
  have k3: "good (w_remote w3) \<and> held (w_remote w2) \<subseteq> held (w_remote w3) \<and>
      (pp_cid plan \<in> fst ` set (pp_want plan) \<longrightarrow> pp_cid plan \<in> held (w_remote w3))"
    using m
  proof
    assume "w_remote w3 = w_remote w2 \<and> pp_cid plan \<notin> fst ` set (pp_want plan)"
    then show ?thesis using uh by simp
  next
    assume put: "rm_put R (w_remote w2) (pp_cid plan) (pp_manifest_bytes plan) = (w_remote w3, Ok ())"
    then show ?thesis using uh keepsD [OF put_keeps put] put_held [OF _ _ put] cid_addr by blast
  qed
  have "c \<in> held (w_remote w3)" if "c \<in> fst ` set (pp_needed plan)" for c
  proof (cases "c \<in> set hs")
    case True
    then show ?thesis using h1 uh k3 by auto
  next
    case False
    then have c: "c \<in> fst ` set (pp_want plan)" using that by (simp add: l(4) missing_blobs_cids)
    have "c = pp_cid plan \<or> c \<in> (\<Union>x \<in> set (fm_entries (pp_manifest plan)). ref_hex ` set (fe_chunks (snd x)))"
      using that by (simp only: l(5) needed_cids insert_iff)
    then show ?thesis
    proof (rule disjE)
      assume "c = pp_cid plan"
      then show ?thesis using c k3 by simp
    next
      assume "c \<in> (\<Union>x \<in> set (fm_entries (pp_manifest plan)). ref_hex ` set (fe_chunks (snd x)))"
      then have "c \<in> held (w_remote w2)" using conjunct2 [OF conjunct2 [OF uh]] c by (meson IntI subsetD)
      then show ?thesis using k3 by auto
    qed
  qed
  then show ?thesis using k3 by (auto simp: e l(5))
qed

text \<open>The keep set a backup commits names only blobs held at that moment.\<close>

lemma backup_commits_held:
  assumes "backup X Y R use w = (w', Ok rep)" "good (w_remote w)"
  obtains s needed where "rm_commit_keep_set R s needed (br_seq rep) = (w_remote w', Ok ())" "good s"
    "fst ` set needed \<subseteq> held s" "br_cid rep \<in> fst ` set needed"
proof -
  obtain w1 pushed s cur seq s' where p: "push_tree X Y R use w = (w1, Ok pushed)" and c: "rm_current_seq R (w_remote w1) = (s, Ok cur)"
    and k: "rm_commit_keep_set R s (pt_needed pushed) seq = (s', Ok ())" and r: "br_seq rep = seq" "br_cid rep = pt_cid pushed" "w_remote w' = s'"
    using assms(1) by (auto simp: backup_def flow_Ok)
  have "good s" "held (w_remote w1) \<subseteq> held s" using keepsD [OF seq_keeps c] push_tree_held [OF p assms(2)] by auto
  then show thesis using push_tree_held [OF p assms(2)] k r by (intro that [of s "pt_needed pushed"]) auto
qed

end

section \<open>The frontier\<close>

lemma insert_chunks_keys: "fst ` set (insert_chunks cs t) = fst ` set cs \<union> fst ` set t"
  by (induction cs t rule: insert_chunks.induct) (auto simp: bt_insert_keys)

text \<open>The closure of a head: its blob, the manifest it names, that manifest's chunks and the base, each
  as the other side returned it, the head under the account's key.\<close>

definition closure_covered :: "ext \<Rightarrow> sync_ext \<Rightarrow> 's remote \<Rightarrow> verifying_key \<Rightarrow> string \<Rightarrow> string set \<Rightarrow> bool" where
  "closure_covered X Y R vk cid ks \<longleftrightarrow>
     (\<exists>s s' hb head t t' mb m.
        rm_get R s cid = (s', Ok hb) \<and> decode_verified X Y hb vk = Ok head \<and>
        rm_get R t (dh_fs_root head) = (t', Ok mb) \<and> dagcbor_decode Y mb = Ok m \<and>
        {cid, dh_fs_root head} \<union> fst ` set (tree_chunks m) \<union> set_option (dh_base head) \<subseteq> ks)"

lemma closure_covered_mono: "closure_covered X Y R vk cid ks \<Longrightarrow> ks \<subseteq> ks' \<Longrightarrow> closure_covered X Y R vk cid ks'"
  unfolding closure_covered_def by (meson subset_trans)

lemma extend_with_head_closure_Ok:
  assumes "extend_with_head_closure X Y R vk cid leaves w = (w', Ok leaves')"
  shows "closure_covered X Y R vk cid (fst ` set leaves') \<and> fst ` set leaves \<subseteq> fst ` set leaves'"
proof -
  obtain s hb head s2 mb m where g: "rm_get R (w_remote w) cid = (s, Ok hb)" "decode_verified X Y hb vk = Ok head"
    "rm_get R s (dh_fs_root head) = (s2, Ok mb)" "dagcbor_decode Y mb = Ok m"
    and l: "(let leaves2 = insert_chunks (tree_chunks m) (bt_insert (dh_fs_root head) (length mb) (bt_insert cid (length hb) leaves)) in
       case dh_base head of
         None \<Rightarrow> (w\<lparr>w_remote := s, w_remote := s2\<rparr>, Ok leaves2)
       | Some base \<Rightarrow>
           if bt_get leaves2 base \<noteq> None then (w\<lparr>w_remote := s, w_remote := s2\<rparr>, Ok leaves2)
           else sbind (on_remote (\<lambda>s. rm_get R s base) (w\<lparr>w_remote := s, w_remote := s2\<rparr>)) (\<lambda>w bb. (w, Ok (bt_insert base (length bb) leaves2)))) = (w', Ok leaves')"
    using assms unfolding extend_with_head_closure_def Let_def by (clarsimp simp: flow_Ok)
  have k: "fst ` set leaves' = fst ` set (insert_chunks (tree_chunks m) (bt_insert (dh_fs_root head) (length mb) (bt_insert cid (length hb) leaves)))
              \<union> set_option (dh_base head)"
  proof (cases "dh_base head")
    case None
    then show ?thesis using l by simp
  next
    case (Some base)
    define L where "L = insert_chunks (tree_chunks m) (bt_insert (dh_fs_root head) (length mb) (bt_insert cid (length hb) leaves))"
    have "(leaves' = L \<and> base \<in> fst ` set L) \<or> (\<exists>v. leaves' = bt_insert base v L)"
      using l Some unfolding L_def [symmetric] by (auto simp: Let_def bt_get_def flow_Ok map_of_eq_None_iff split: if_splits)
    then show ?thesis unfolding L_def [symmetric] Some by (elim disjE exE conjE) (simp_all add: bt_insert_keys insert_absorb)
  qed
  from k have "{cid, dh_fs_root head} \<union> fst ` set (tree_chunks m) \<union> set_option (dh_base head) \<subseteq> fst ` set leaves'"
    "fst ` set leaves \<subseteq> fst ` set leaves'"
    by (auto simp: insert_chunks_keys bt_insert_keys)
  then show ?thesis unfolding closure_covered_def using g by blast
qed

lemma close_heads_Ok:
  assumes "close_heads X Y R vk device heads leaves w = (w', Ok leaves')"
  shows "fst ` set leaves \<subseteq> fst ` set leaves' \<and>
    (\<forall>(dev, cid) \<in> set heads. dev \<noteq> device \<longrightarrow> closure_covered X Y R vk cid (fst ` set leaves'))"
  using assms
proof (induction heads arbitrary: leaves w)
  case Nil
  then show ?case by simp
next
  case (Cons a heads)
  obtain dev cid where a: "a = (dev, cid)" by (cases a)
  show ?case
  proof (cases "dev = device")
    case True
    then show ?thesis using Cons by (simp add: a)
  next
    case False
    then obtain w1 l1 where e: "extend_with_head_closure X Y R vk cid leaves w = (w1, Ok l1)"
      and r: "close_heads X Y R vk device heads l1 w1 = (w', Ok leaves')"
      using Cons.prems by (auto simp: a flow_Ok)
    show ?thesis
      using extend_with_head_closure_Ok [OF e] Cons.IH [OF r] closure_covered_mono [of X Y R vk cid "fst ` set l1" "fst ` set leaves'"]
      by (simp add: a) blast
  qed
qed

lemma close_heads_frame: "close_heads X Y R vk device heads leaves w = (w', r) \<Longrightarrow> w_fs w' = w_fs w \<and> w_state w' = w_state w"
proof (induction heads arbitrary: leaves w)
  case (Cons a heads)
  obtain dev cid where a: "a = (dev, cid)" by (cases a)
  have "w_fs w1 = w_fs w \<and> w_state w1 = w_state w" if "extend_with_head_closure X Y R vk cid leaves w = (w1, x)" for w1 x
    using that by (auto simp: extend_with_head_closure_def sbind_def on_remote_def Let_def split: prod.splits result.splits option.splits if_splits)
  then show ?case using Cons by (auto simp: a sbind_def split: if_splits prod.splits result.splits)
qed simp

text \<open>A commit the other side accepts carries the next sequence number, changes this device's slot and no
  other, and keeps this device's tree and the closure of every other head.\<close>

lemma try_commit_Ok:
  assumes "try_commit X Y R device pushed head_cid head_len w = (w', Ok (seq, r))"
  obtains s view s1 leaves heads where "rm_frontier R (w_remote w) = (s, Ok view)" "rm_commit_frontier R s1 leaves seq heads = (w_remote w', r)"
    "seq = (case view of None \<Rightarrow> 1 | Some v \<Rightarrow> fv_seq v + 1)" "seq \<le> u64_max"
    "heads = bt_insert device head_cid (case view of Some v \<Rightarrow> fv_heads v | None \<Rightarrow> [])"
    "insert head_cid (fst ` set (pt_needed pushed)) \<subseteq> fst ` set leaves"
    "\<And>dev cid. (dev, cid) \<in> set heads \<Longrightarrow> dev \<noteq> device \<Longrightarrow>
       closure_covered X Y R (keypair_verifying_key X (rm_keypair R)) cid (fst ` set leaves)"
    "w_fs w' = w_fs w" "w_state w' = w_state w"
proof -
  define own where "own = bt_insert head_cid head_len (insert_chunks (pt_needed pushed) [])"
  obtain s view w1 leaves where f: "rm_frontier R (w_remote w) = (s, Ok view)" "next_of (map_option fv_seq view) = Ok seq"
    and c: "close_heads X Y R (keypair_verifying_key X (rm_keypair R)) device
        (bt_insert device head_cid (case view of Some v \<Rightarrow> fv_heads v | None \<Rightarrow> [])) own (w\<lparr>w_remote := s\<rparr>) = (w1, Ok leaves)"
    and k: "on_remote (\<lambda>s. rm_commit_frontier R s leaves seq (bt_insert device head_cid (case view of Some v \<Rightarrow> fv_heads v | None \<Rightarrow> []))) w1 = (w', r)"
    using assms by (clarsimp simp: try_commit_def flow_Ok Let_def own_def) (auto split: prod.splits)
  have fr: "w_fs w1 = w_fs w \<and> w_state w1 = w_state w" using close_heads_frame [OF c] by simp
  show thesis
  proof (rule that [OF f(1)])
    show "rm_commit_frontier R (w_remote w1) leaves seq (bt_insert device head_cid (case view of Some v \<Rightarrow> fv_heads v | None \<Rightarrow> [])) = (w_remote w', r)"
      using k by (auto simp: on_remote_def split: prod.splits)
    show "seq = (case view of None \<Rightarrow> 1 | Some v \<Rightarrow> fv_seq v + 1)" "seq \<le> u64_max"
      using f(2) by (auto simp: next_of_def u64_max_def split: option.splits if_splits)
    show "insert head_cid (fst ` set (pt_needed pushed)) \<subseteq> fst ` set leaves"
      using close_heads_Ok [OF c] by (auto simp: own_def bt_insert_keys insert_chunks_keys)
    show "closure_covered X Y R (keypair_verifying_key X (rm_keypair R)) cid (fst ` set leaves)"
      if "(dev, cid) \<in> set (bt_insert device head_cid (case view of Some v \<Rightarrow> fv_heads v | None \<Rightarrow> []))" "dev \<noteq> device" for dev cid
      using close_heads_Ok [OF c] that by blast
    show "w_fs w' = w_fs w" "w_state w' = w_state w" using k fr by (auto simp: on_remote_def split: prod.splits)
  qed simp
qed

text \<open>The retry loop as a search: it stops at the first attempt that is not refused as stale, and after the
  fourth in any case.\<close>

definition stale :: "('w \<times> (u64 \<times> (unit, SyncError) result, SyncError) result) \<Rightarrow> bool" where
  "stale p \<longleftrightarrow> (case p of (_, Ok (_, Err (StaleSeq _))) \<Rightarrow> True | _ \<Rightarrow> False)"

fun attempts :: "('w \<Rightarrow> 'w \<times> 'a) \<Rightarrow> nat \<Rightarrow> 'w \<Rightarrow> 'w" where
  "attempts f 0 w = w"
| "attempts f (Suc k) w = attempts f k (fst (f w))"

definition settle :: "nat \<Rightarrow> 'w \<times> (u64 \<times> (unit, SyncError) result, SyncError) result \<Rightarrow> 'w \<times> (u64 \<times> nat, SyncError) result" where
  "settle k p = (case p of (w, r) \<Rightarrow> (w, result_bind r (\<lambda>(seq, r'). result_bind r' (\<lambda>_. Ok (seq, k)))))"

lemma commit_loop_unfold:
  "commit_loop X Y R d pushed h n k w =
     (let p = try_commit X Y R d pushed h n w in
      if stale p \<and> k < MAX_COMMIT_RETRIES then commit_loop X Y R d pushed h n (Suc k) (fst p) else settle k p)"
  by (subst commit_loop.simps)
    (auto simp: stale_def settle_def Let_def split: prod.splits result.splits SyncError.splits)

lemma commit_loop_search:
  assumes f_def: "f = try_commit X Y R d pushed h n" and "k \<le> MAX_COMMIT_RETRIES"
  shows "\<exists>j. k + j \<le> MAX_COMMIT_RETRIES \<and> (\<forall>i < j. stale (f (attempts f i w))) \<and>
    (stale (f (attempts f j w)) \<longrightarrow> k + j = MAX_COMMIT_RETRIES) \<and>
    commit_loop X Y R d pushed h n k w = settle (k + j) (f (attempts f j w))"
  using assms(2)
proof (induction "MAX_COMMIT_RETRIES - k" arbitrary: k w)
  case 0
  then have "k = MAX_COMMIT_RETRIES" by simp
  then show ?case by (intro exI [of _ 0]) (simp add: commit_loop_unfold f_def)
next
  case (Suc x)
  show ?case
  proof (cases "stale (f w)")
    case True
    have "\<exists>j. Suc k + j \<le> MAX_COMMIT_RETRIES \<and> (\<forall>i < j. stale (f (attempts f i (fst (f w))))) \<and>
      (stale (f (attempts f j (fst (f w)))) \<longrightarrow> Suc k + j = MAX_COMMIT_RETRIES) \<and>
      commit_loop X Y R d pushed h n (Suc k) (fst (f w)) = settle (Suc k + j) (f (attempts f j (fst (f w))))"
      by (rule Suc.hyps(1)) (use Suc.hyps(2) in simp_all)
    then obtain j where j: "Suc k + j \<le> MAX_COMMIT_RETRIES" "\<forall>i < j. stale (f (attempts f i (fst (f w))))"
      "stale (f (attempts f j (fst (f w)))) \<longrightarrow> Suc k + j = MAX_COMMIT_RETRIES"
      "commit_loop X Y R d pushed h n (Suc k) (fst (f w)) = settle (Suc k + j) (f (attempts f j (fst (f w))))"
      by blast
    have "commit_loop X Y R d pushed h n k w = commit_loop X Y R d pushed h n (Suc k) (fst (f w))"
      using True j(1) by (subst commit_loop_unfold) (simp add: f_def Let_def)
    then show ?thesis using j True by (intro exI [of _ "Suc j"]) (auto simp: less_Suc_eq_0_disj)
  next
    case False
    then show ?thesis using Suc.prems by (intro exI [of _ 0]) (simp add: commit_loop_unfold f_def Let_def)
  qed
qed

lemma config_get_after: "config_get (config_set s k v) k' = (if k' = k then Some v else config_get s k')"
  by (simp add: config_get_def config_set_def update_conv)

lemma backup_frontier_Ok:
  assumes "backup_frontier X Y R device w = (w', Ok rep)"
  obtains w1 s0 s1 view s leaves heads pushed where
    "push_tree X Y R True w = (w1, Ok pushed)" "pt_cid pushed = fr_cid rep" "fr_retries rep \<le> MAX_COMMIT_RETRIES"
    "rm_frontier R s0 = (s1, Ok view)"
    "rm_commit_frontier R s leaves (fr_seq rep) heads = (w_remote w', Ok ())"
    "fr_seq rep = (case view of None \<Rightarrow> 1 | Some v \<Rightarrow> fv_seq v + 1)"
    "heads = bt_insert device (fr_head_cid rep) (case view of Some v \<Rightarrow> fv_heads v | None \<Rightarrow> [])"
    "insert (fr_head_cid rep) (fst ` set (pt_needed pushed)) \<subseteq> fst ` set leaves"
    "\<And>dev cid. (dev, cid) \<in> set heads \<Longrightarrow> dev \<noteq> device \<Longrightarrow>
       closure_covered X Y R (keypair_verifying_key X (rm_keypair R)) cid (fst ` set leaves)"
    "config_get (w_state w') KEY_LAST_HEAD = Some (fr_head_cid rep)"
proof -
  obtain w1 pushed counter parent base n hb s1 wc seq k where
    p: "push_tree X Y R True w = (w1, Ok pushed)"
    and h: "head_encode Y (head_new_signed X device n (pt_cid pushed) parent base (rm_keypair R)) = Ok hb"
    and c: "commit_loop X Y R device pushed (digest_hex X hb) (length hb) 0 (w1\<lparr>w_remote := s1\<rparr>) = (wc, Ok (seq, k))"
    and w': "w_remote w' = w_remote wc" "w_state w' = config_set (config_set (w_state wc) KEY_COUNTER (show_nat n)) KEY_LAST_HEAD (digest_hex X hb)"
    and rep: "fr_seq rep = seq" "fr_head_cid rep = digest_hex X hb" "fr_retries rep = k" "fr_cid rep = pt_cid pushed"
    using assms by (auto simp: backup_frontier_def flow_Ok Let_def)
  define f where "f = try_commit X Y R device pushed (digest_hex X hb) (length hb)"
  obtain j where j0: "0 + j \<le> MAX_COMMIT_RETRIES"
    "commit_loop X Y R device pushed (digest_hex X hb) (length hb) 0 (w1\<lparr>w_remote := s1\<rparr>) = settle (0 + j) (f (attempts f j (w1\<lparr>w_remote := s1\<rparr>)))"
    using commit_loop_search [OF f_def le0, of "w1\<lparr>w_remote := s1\<rparr>"] by blast
  have j: "j \<le> MAX_COMMIT_RETRIES" "settle j (f (attempts f j (w1\<lparr>w_remote := s1\<rparr>))) = (wc, Ok (seq, k))"
    using j0(1) j0(2) [unfolded c] by simp_all
  have k: "k \<le> MAX_COMMIT_RETRIES" and t: "f (attempts f j (w1\<lparr>w_remote := s1\<rparr>)) = (wc, Ok (seq, Ok ()))"
    using j by (auto simp: settle_def result_bind_Ok split: prod.splits)
  obtain s view s2 leaves heads where v:
    "rm_frontier R (w_remote (attempts f j (w1\<lparr>w_remote := s1\<rparr>))) = (s, Ok view)" "rm_commit_frontier R s2 leaves seq heads = (w_remote wc, Ok ())"
    "seq = (case view of None \<Rightarrow> 1 | Some v \<Rightarrow> fv_seq v + 1)"
    "heads = bt_insert device (digest_hex X hb) (case view of Some v \<Rightarrow> fv_heads v | None \<Rightarrow> [])"
    "insert (digest_hex X hb) (fst ` set (pt_needed pushed)) \<subseteq> fst ` set leaves"
    "\<And>dev cid. (dev, cid) \<in> set heads \<Longrightarrow> dev \<noteq> device \<Longrightarrow>
       closure_covered X Y R (keypair_verifying_key X (rm_keypair R)) cid (fst ` set leaves)"
    by (rule try_commit_Ok [OF t [unfolded f_def]], rule that) (unfold f_def)
  show thesis
    by (rule that [OF p _ _ v(1), of s2 leaves heads]) (use k w' rep v in \<open>auto simp: config_get_after\<close>)
qed

text \<open>The first commit of a device keeps its tree and its head; the base manifest its head names is kept
  only if the tree itself needs it.\<close>

lemma own_base_uncovered:
  assumes "try_commit X Y R device pushed head_cid head_len w = (w', Ok (seq, r))" "rm_frontier R (w_remote w) = (s, Ok None)"
  obtains leaves where "rm_commit_frontier R s leaves seq [(device, head_cid)] = (w_remote w', r)"
    "fst ` set leaves = insert head_cid (fst ` set (pt_needed pushed))"
  using assms by (auto simp: try_commit_def flow_Ok Let_def on_remote_def bt_insert_keys insert_chunks_keys split: prod.splits)

end
