(* ===== verification/Http_Ciss.thy ===== *)
theory Http_Ciss
  imports Client Custody Sync_Laws Access
begin

text \<open>
  The sync engine over HTTP: \<^verbatim>\<open>ciss-cli/src/sync.rs\<close>, the \<open>HttpCiss\<close> transport that puts the client's
  calls behind the engine's traits, and its composition with the server. The wire to the server runs
  \<open>serve\<close> on each request; in between other tenants and devices may take any steps, and a request or its
  answer may be lost. What the engine assumes of the other side is proved of that composition.
\<close>

section \<open>sync.rs\<close>

fun contains_text :: "string \<Rightarrow> string \<Rightarrow> bool" where
  "contains_text p [] = (p = [])"
| "contains_text p (c # s) = (starts_with p (c # s) \<or> contains_text p s)"

definition transport_err :: "('a, string) result \<Rightarrow> ('a, SyncError) result" where
  "transport_err r = map_err STransport r"

definition to_leaves :: "(string \<times> u64) list \<Rightarrow> ManifestLeaf list" where
  "to_leaves leaves = map (\<lambda>(cid, n). \<lparr>ml_cid = cid, ml_size = n\<rparr>) leaves"

definition leaf_pairs :: "Manifest \<Rightarrow> (string \<times> u64) list" where
  "leaf_pairs m = map (\<lambda>l. (ml_cid l, ml_size l)) (m_leaves m)"

definition of_call :: "('a \<Rightarrow> ('b, SyncError) result) \<Rightarrow> ('s, 'a) call \<Rightarrow> 's \<times> ('b, SyncError) result" where
  "of_call f p = (case p of (s, r) \<Rightarrow> (s, result_bind (transport_err r) f))"

definition hc_have :: "ext \<Rightarrow> net \<Rightarrow> 's http \<Rightarrow> Client \<Rightarrow> Keypair \<Rightarrow> 's \<Rightarrow> 's \<times> (string list, SyncError) result" where
  "hc_have X N H C kp s =
     (let sn = session_for X kp in
      of_call (\<lambda>u. Ok (map uo_cid (us_objects u))) (client_du N H C (Some sn) (sn_did sn) s))"

definition hc_put :: "ext \<Rightarrow> net \<Rightarrow> 's http \<Rightarrow> Client \<Rightarrow> Keypair \<Rightarrow> 's \<Rightarrow> string \<Rightarrow> bytes \<Rightarrow> 's \<times> (unit, SyncError) result" where
  "hc_put X N H C kp s cid bs =
     of_call (\<lambda>p. verify_server_cid cid (pr_cid p)) (put_s3 N H C (session_for X kp) cid bs s)"

definition hc_get :: "ext \<Rightarrow> 's http \<Rightarrow> Client \<Rightarrow> Keypair \<Rightarrow> 's \<Rightarrow> string \<Rightarrow> 's \<times> (bytes, SyncError) result" where
  "hc_get X H C kp s cid =
     (let sn = session_for X kp in
      of_call (\<lambda>g. Ok (gr_bytes g)) (get_s3 X H C (Some sn) (sn_did sn) cid s))"

definition hc_manifest ::
  "ext \<Rightarrow> net \<Rightarrow> 's http \<Rightarrow> Client \<Rightarrow> Keypair \<Rightarrow> (Manifest \<Rightarrow> 'a) \<Rightarrow> 's \<Rightarrow> 's \<times> ('a option, SyncError) result" where
  "hc_manifest X N H C kp f s =
     of_call (\<lambda>m. Ok (map_option f m)) (client_get_manifest N H C (sn_did (session_for X kp)) s)"

definition frontier_view :: "Manifest \<Rightarrow> FrontierView" where
  "frontier_view m =
     \<lparr>fv_seq = m_seq m, fv_heads = (case m_heads m of Some hs \<Rightarrow> hs | None \<Rightarrow> []), fv_leaves = leaf_pairs m\<rparr>"

text \<open>Building the manifest panics when the sizes exceed 64 bits and never fails otherwise.\<close>

definition hc_commit ::
  "ext \<Rightarrow> 's http \<Rightarrow> Client \<Rightarrow> Keypair \<Rightarrow> (string \<Rightarrow> SyncError) \<Rightarrow> (Manifest, unit) result \<Rightarrow> 's \<Rightarrow> 's \<times> (unit, SyncError) result" where
  "hc_commit X H C kp err m s =
     (case m of
        Ok manifest \<Rightarrow>
          (case client_put_manifest X H C (session_for X kp) manifest s of (s', r) \<Rightarrow> (s', map_err err r))
      | _ \<Rightarrow> (s, Panic))"

definition hc_commit_keep_set ::
  "ext \<Rightarrow> 's http \<Rightarrow> Client \<Rightarrow> Keypair \<Rightarrow> 's \<Rightarrow> (string \<times> u64) list \<Rightarrow> u64 \<Rightarrow> 's \<times> (unit, SyncError) result" where
  "hc_commit_keep_set X H C kp s leaves seq =
     hc_commit X H C kp STransport (build_manifest X (to_leaves leaves) (sn_did (session_for X kp)) kp seq) s"

definition hc_commit_frontier ::
  "ext \<Rightarrow> 's http \<Rightarrow> Client \<Rightarrow> Keypair \<Rightarrow> 's \<Rightarrow> (string \<times> u64) list \<Rightarrow> u64 \<Rightarrow> string btree \<Rightarrow> 's \<times> (unit, SyncError) result" where
  "hc_commit_frontier X H C kp s leaves seq heads =
     hc_commit X H C kp (\<lambda>e. if contains_text ''HTTP 409'' e then StaleSeq seq else STransport e)
       (build_manifest_with_heads X (to_leaves leaves) (sn_did (session_for X kp)) kp seq heads) s"

definition http_ciss :: "ext \<Rightarrow> net \<Rightarrow> 's http \<Rightarrow> Client \<Rightarrow> Keypair \<Rightarrow> 's remote" where
  "http_ciss X N H C kp =
     \<lparr>rm_have = hc_have X N H C kp, rm_put = hc_put X N H C kp, rm_get = hc_get X H C kp, rm_metered = True,
      rm_current_seq = hc_manifest X N H C kp m_seq, rm_keep_set = hc_manifest X N H C kp leaf_pairs,
      rm_frontier = hc_manifest X N H C kp frontier_view, rm_commit_keep_set = hc_commit_keep_set X H C kp,
      rm_commit_frontier = hc_commit_frontier X H C kp, rm_keypair = kp\<rparr>"

section \<open>The wire to a server\<close>

text \<open>What happens around one request: the steps of others before it, the server's clock and resolver, and
  whether the request or the answer is lost.\<close>

record moment =
  mo_between :: "AppState \<Rightarrow> AppState"
  mo_now :: u64
  mo_micros :: u64
  mo_resolve :: resolver
  mo_request_lost :: bool
  mo_answer_lost :: bool
  mo_failure :: string

text \<open>\<open>route\<close> is axum's match of a URL against the route table, with the \<open>chain\<close> query parameter.\<close>

definition answer_of :: "Response \<Rightarrow> Answer" where
  "answer_of r = \<lparr>an_status = rs_status r, an_headers = rs_headers r, an_body = Inr (rs_body r)\<rparr>"

definition server_request :: "moment \<Rightarrow> HttpRequest \<Rightarrow> string option \<Rightarrow> Request" where
  "server_request m q chain =
     \<lparr>rq_headers = map_of (hq_headers q), rq_body = hq_body q, rq_chain = chain, rq_now = mo_now m,
      rq_micros = mo_micros m, rq_resolve = mo_resolve m\<rparr>"

definition server_send ::
  "ext \<Rightarrow> net \<Rightarrow> (ServerError \<Rightarrow> string) \<Rightarrow> (HttpMethod \<Rightarrow> string \<Rightarrow> Route \<times> string option) \<Rightarrow> (nat \<Rightarrow> moment) \<Rightarrow>
   AppState \<times> nat \<Rightarrow> HttpRequest \<Rightarrow> (AppState \<times> nat) \<times> (SendError + Answer)" where
  "server_send X N display route E p q =
     (case p of (s, n) \<Rightarrow>
      let m = E n; s1 = mo_between m s in
      if mo_request_lost m then ((s1, n + 1), Inl Unreachable)
      else case route (hq_method q) (hq_url q) of (rt, chain) \<Rightarrow>
        (case serve X N display s1 (server_request m q chain) rt of
           (s2, None) \<Rightarrow> ((s2, n + 1), Inl (SendFailed (mo_failure m)))
         | (s2, Some r) \<Rightarrow> ((s2, n + 1), if mo_answer_lost m then Inl (SendFailed (mo_failure m)) else Inr (answer_of r))))"

definition server_http ::
  "ext \<Rightarrow> net \<Rightarrow> (ServerError \<Rightarrow> string) \<Rightarrow> (HttpMethod \<Rightarrow> string \<Rightarrow> Route \<times> string option) \<Rightarrow> (nat \<Rightarrow> moment) \<Rightarrow> (bytes \<Rightarrow> string) \<Rightarrow> (AppState \<times> nat) http" where
  "server_http X N display route E json_error = \<lparr>ht_send = server_send X N display route E, ht_json_error = json_error\<rparr>"

section \<open>What is assumed of the parts\<close>

text \<open>axum hands each URL the engine builds to the handler of its pattern; a path parameter does not match an
  empty segment.\<close>

definition url_part :: "string \<Rightarrow> bool" where
  "url_part s \<longleftrightarrow> list_all (\<lambda>c. unreserved c \<or> c = CHR '':'') s"

definition route_law :: "Client \<Rightarrow> (HttpMethod \<Rightarrow> string \<Rightarrow> Route \<times> string option) \<Rightarrow> bool" where
  "route_law C route \<longleftrightarrow> (\<forall>did key. did \<noteq> [] \<longrightarrow> url_part did \<longrightarrow> url_part key \<longrightarrow>
     route HPut (cl_base C @ ''/'' @ did @ ''/objects/'' @ key) = (if key = [] then RtFallback else RtPutObject did key, None) \<and>
     route HGet (cl_base C @ ''/'' @ did @ ''/du'') = (RtDu did, None) \<and>
     route HPut (cl_base C @ ''/'' @ did @ ''/manifest'') = (RtPutManifest did, None))"

text \<open>Parsing what \<^verbatim>\<open>serde_json\<close> printed gives back the value, for integers of 64 bits and without floats,
  whose parser rounds.\<close>

fun ints_fit :: "json \<Rightarrow> bool" where
  "ints_fit (JObj kvs) = list_all ints_fit (map snd kvs)"
| "ints_fit (JArr xs) = list_all ints_fit xs"
| "ints_fit (JInt i) = (- (2 ^ 63) \<le> i \<and> i \<le> int u64_max)"
| "ints_fit (JFloat s) = False"
| "ints_fit _ = True"

definition json_sound :: "ext \<Rightarrow> net \<Rightarrow> bool" where
  "json_sound X N \<longleftrightarrow>
     (\<forall>j v. jwf j \<longrightarrow> ints_fit j \<longrightarrow> json_parse N (render (scalar_text X) j) = Some v \<longrightarrow> v = j)"

definition others_step :: "ext \<Rightarrow> net \<Rightarrow> (nat \<Rightarrow> moment) \<Rightarrow> bool" where
  "others_step X N E \<longleftrightarrow> (\<forall>n s. reachable X N s (mo_between (E n) s))"

section \<open>Every call is one request\<close>

lemma fst_sbind_pure: "fst (sbind p (\<lambda>s a. (s, f a))) = fst p"
  by (simp add: sbind_def split: prod.splits result.splits)

lemma sbind_pure_step: "(\<And>s a. fst (f s a) = s) \<Longrightarrow> fst (sbind p f) = fst p"
  by (auto simp: sbind_def split: prod.splits result.splits)

lemma fst_send: "fst (send C H rq action s) = fst (ht_send H s rq)"
  by (simp add: send_def split: prod.splits sum.splits SendError.splits)

lemma fst_send_ok: "fst (send_ok C H rq action s) = fst (ht_send H s rq)"
  by (simp add: send_ok_def fst_sbind_pure fst_send)

lemma fst_of_call: "fst (of_call f p) = fst p"
  by (simp add: of_call_def split: prod.splits)

lemma send_ok_Ok: "send_ok C H rq action s = (s', Ok a) \<longleftrightarrow> ht_send H s rq = (s', Inr a) \<and> 200 \<le> an_status a \<and> an_status a < 300"
  by (auto simp: send_ok_def send_def ensure_success_def sbind_Ok Let_def split: prod.splits sum.splits SendError.splits if_splits)

lemma of_call_Ok: "of_call f p = (s', Ok b) \<longleftrightarrow> (\<exists>a. p = (s', Ok a) \<and> f a = Ok b)"
  by (cases p) (auto simp: of_call_def transport_err_def result_bind_Ok)

definition answered_by :: "'s http \<Rightarrow> ('s \<Rightarrow> 's \<times> 'a) \<Rightarrow> bool" where
  "answered_by H f \<longleftrightarrow> (\<forall>s. \<exists>rq. fst (f s) = fst (ht_send H s rq))"

lemma http_ciss_requests:
  "answered_by H (hc_have X N H C kp)" "answered_by H (\<lambda>s. hc_put X N H C kp s cid bs)" "answered_by H (\<lambda>s. hc_get X H C kp s cid)"
  "answered_by H (hc_manifest X N H C kp f)"
  by (auto simp: answered_by_def hc_have_def hc_put_def hc_get_def hc_manifest_def fst_of_call Let_def client_du_def put_s3_def get_s3_def
      client_get_manifest_def get_optional_def sbind_pure_step fst_send fst_send_ok)

section \<open>The server behind the wire\<close>

lemma server_send_reachable:
  assumes "others_step X N E" "server_send X N display route E (s, n) q = ((s', n'), a)"
  shows "reachable X N s s'"
proof -
  let ?m = "E n" and ?s1 = "mo_between (E n) s"
  have b: "reachable X N s ?s1" using assms(1) by (simp add: others_step_def)
  obtain rt chain where r: "route (hq_method q) (hq_url q) = (rt, chain)" by fastforce
  obtain s2 resp where v: "serve X N display ?s1 (server_request ?m q chain) rt = (s2, resp)" by fastforce
  have "s' = ?s1 \<or> s' = s2"
    using assms(2) r v by (auto simp: server_send_def Let_def split: if_splits option.splits)
  then show ?thesis using b reachable.next_step [OF b step.served [OF v]] by auto
qed

text \<open>The laws of the parts, and custody at the server.\<close>

definition parts_law :: "ext \<Rightarrow> net \<Rightarrow> Client \<Rightarrow> (HttpMethod \<Rightarrow> string \<Rightarrow> Route \<times> string option) \<Rightarrow> (nat \<Rightarrow> moment) \<Rightarrow> bool" where
  "parts_law X N C route E \<longleftrightarrow>
     hex_law X \<and> digest_law X \<and> json_sound X N \<and> route_law C route \<and> others_step X N E"

definition ciss_good ::
  "ext \<Rightarrow> net \<Rightarrow> Client \<Rightarrow> (HttpMethod \<Rightarrow> string \<Rightarrow> Route \<times> string option) \<Rightarrow> (nat \<Rightarrow> moment) \<Rightarrow> AppState \<times> nat \<Rightarrow> bool" where
  "ciss_good X N C route E p \<longleftrightarrow> parts_law X N C route E \<and> custody X (fst p)"

definition ciss_held :: "ext \<Rightarrow> Keypair \<Rightarrow> AppState \<times> nat \<Rightarrow> string set" where
  "ciss_held X kp p = stored_objects (as_blobs (fst p)) (sn_did (session_for X kp))"

lemma server_keeps:
  assumes "answered_by (server_http X N display route E je) f"
  shows "keeps (ciss_good X N C route E) (ciss_held X kp) f"
  unfolding keeps_def
proof (intro allI impI)
  fix p :: "AppState \<times> nat" assume g: "ciss_good X N C route E p"
  obtain s n where p: "p = (s, n)" by (cases p)
  obtain q where q: "fst (f p) = fst (server_send X N display route E (s, n) q)"
    using assms by (auto simp: answered_by_def server_http_def p)
  obtain s' n' a where e: "server_send X N display route E (s, n) q = ((s', n'), a)" by (metis prod.collapse)
  have r: "reachable X N s s'" by (rule server_send_reachable [OF _ e]) (use g in \<open>simp add: ciss_good_def parts_law_def\<close>)
  have "custody X s'" using custody_run.always [OF r] g by (simp add: ciss_good_def p)
  moreover have "still_held (stored_objects (as_blobs s) d) d s'" for d
    by (rule held_run.always [OF r]) (simp add: still_held_def)
  ultimately show "ciss_good X N C route E (fst (f p)) \<and> ciss_held X kp p \<subseteq> ciss_held X kp (fst (f p))"
    using q e g by (simp add: p ciss_good_def ciss_held_def still_held_def)
qed

lemma error_status_bounds: "400 \<le> error_status e"
  by (cases e) simp_all

text \<open>An answer of the server with a success status is its handler's outcome.\<close>

lemma server_success:
  assumes "server_send X N display route E (s, n) q = (p', Inr a)" "an_status a < 300" "route (hq_method q) (hq_url q) = (rt, chain)"
  obtains s2 resp where "run_route X N (mo_between (E n) s) (server_request (E n) q chain) rt = (s2, Ok resp)"
    "p' = (s2, n + 1)" "a = answer_of resp"
proof -
  obtain s2 r where r: "run_route X N (mo_between (E n) s) (server_request (E n) q chain) rt = (s2, r)" by fastforce
  have big [simp]: "\<not> error_status e < 300" for e using error_status_bounds [of e] by simp
  have "\<exists>resp. r = Ok resp \<and> p' = (s2, n + 1) \<and> a = answer_of resp"
    using assms r
    by (cases r) (auto simp: server_send_def serve_def respond_def answer_of_def error_response_def Let_def split: if_splits)
  then show thesis using that r by auto
qed

section \<open>Listing and uploading\<close>

lemma hex_url_part:
  assumes "list_all lower_hex_char h"
  shows "url_part h" "url_part (''id:'' @ h)"
proof -
  have "list_all unreserved h"
    using assms by (rule list.pred_mono_strong)
      (auto simp: lower_hex_char_def unreserved_def is_ascii_alphanumeric_def is_ascii_lowercase_def)
  then have "list_all (\<lambda>c. unreserved c \<or> c = CHR '':'') h" by (rule list.pred_mono_strong) simp
  then show "url_part h" "url_part (''id:'' @ h)"
    by (auto simp: url_part_def unreserved_def is_ascii_alphanumeric_def is_ascii_lowercase_def)
qed

lemma to_hex_url_part: "url_part (to_hex h)"
proof (rule hex_url_part(1))
  have "lower_hex_char (lower_hex_digit n)" if "n < 16" for n
    using that by (auto simp: lower_hex_char_def is_digit_def of_char_hex)
  then show "list_all lower_hex_char (to_hex h)" by (induction h) (auto simp: to_hex_def Let_def nibbles)
qed

lemma did_of_key:
  assumes "hex_law X" "digest_law X"
  shows "url_part (sn_did (session_for X kp))" "sn_did (session_for X kp) \<noteq> []" "did_parse (sn_did (session_for X kp)) = Ok (Did (sn_did (session_for X kp)))"
proof -
  have "sn_did (session_for X kp) = derive_id X (keypair_verifying_key X kp)" by (simp add: session_for_def Let_def)
  then show "did_parse (sn_did (session_for X kp)) = Ok (Did (sn_did (session_for X kp)))"
    "url_part (sn_did (session_for X kp))" "sn_did (session_for X kp) \<noteq> []"
    using did_parse_derive_id(1) [OF assms] hex_url_part(2) [OF sha256_hex_lower [OF assms(1)]]
    by (simp_all add: derive_id_eq [OF assms])
qed

lemma dispatch_blocking_Ok:
  "dispatch_blocking X N micros s who oper = (s', Ok out) \<longleftrightarrow> dispatch X N micros s who oper = (s', Ok out)"
  by (auto simp: dispatch_blocking_def split: prod.splits result.splits)

lemma dispatch_Ok_ran:
  assumes "dispatch X N micros s who oper = (s', Ok out)"
  obtains s1 where "dispatch_op X N s who oper = (s1, Ok out)" "as_store s' = as_store s1" "as_blobs s' = as_blobs s1"
  using assms by (cases rule: dispatch_cases) auto

lemma handler_response_Ok: "handler_response X N p = (s', Ok resp) \<longleftrightarrow> (\<exists>out. p = (s', Ok out) \<and> resp = outcome_response X N out)"
  by (cases p) (auto simp: handler_response_def map_ok_def result_bind_Ok)

definition usage_value :: "(string \<times> nat) list \<Rightarrow> json" where
  "usage_value sizes =
     JObj [(''objects'', JArr (map (\<lambda>(cid, n). JObj [(''bytes'', JInt (int n)), (''cid'', JStr cid)]) sizes)),
           (''total_bytes'', JInt (int (sum_list (map snd sizes))))]"

lemma usage_to_value:
  "to_value (JObj [(''objects'', JArr (map (\<lambda>(cid, n). JObj [(''cid'', JStr cid), (''bytes'', JInt (int n))]) sizes)),
      (''total_bytes'', JInt (int (sum_list (map snd sizes))))]) = usage_value sizes"
  by (simp add: usage_value_def split_def)

lemma usage_fits: "sum_list (map snd sizes) \<le> u64_max \<Longrightarrow> jwf (usage_value sizes) \<and> ints_fit (usage_value sizes)"
proof -
  assume t: "sum_list (map snd sizes) \<le> u64_max"
  have "snd x \<le> u64_max" if "x \<in> set sizes" for x
    using member_le_sum_list [of "snd x" "map snd sizes"] that t by simp
  then show ?thesis using t by (fastforce simp: usage_value_def list_all_iff)
qed

lemma de_usage_objects:
  assumes "de_usage (usage_value sizes) = Some u"
  shows "map uo_cid (us_objects u) = map fst sizes"
proof -
  have "sequence_opt (map (\<lambda>(cid, n). de_usage_object (JObj [(''bytes'', JInt (int n)), (''cid'', JStr cid)])) xs) = Some os \<Longrightarrow>
      map uo_cid os = map fst xs" for xs os
    by (induction xs arbitrary: os) (auto simp: de_usage_object_def text_fields_def req_def de_str_def split: option.splits)
  then show ?thesis
    using assms by (auto simp: de_usage_def usage_value_def text_fields_def req_def de_vec_def comp_def split_def split: option.splits)
qed

lemma op_du_Ok:
  assumes "op_du X s who did = Ok out"
  obtains sizes where "du_loop (uploads (load_receipts (as_store s) did)) [] = Some sizes" "sum_list (map snd sizes) \<le> u64_max"
    "out = UsageBody (render (scalar_text X) (usage_value sizes))" "fst ` set sizes = uploaded (as_store s) did"
proof -
  obtain sizes where d: "du_loop (uploads (load_receipts (as_store s) did)) [] = Some sizes" "sum_list (map snd sizes) \<le> u64_max"
    "out = UsageBody (render (scalar_text X) (usage_value sizes))"
    using assms by (auto simp: op_du_def Let_def usage_to_value split: if_splits option.splits simp del: to_value.simps)
  have "fst ` set sizes = set (map fst sizes)" by simp
  also have "\<dots> = set (map (\<lambda>r. rc_cid (r_core r)) (uploads (load_receipts (as_store s) did)))"
    unfolding du_loop_spec(1) [OF d(1), simplified] by (simp add: set_dedup_first)
  also have "\<dots> = uploaded (as_store s) did" by (auto simp: uploaded_def uploads_def ledger_cores_def)
  finally show thesis using that d by blast
qed

text \<open>A listing the client accepts names only objects the server stores.\<close>

lemma ciss_have_held:
  assumes good: "ciss_good X N C route E p" and have_ok: "hc_have X N (server_http X N display route E je) C kp p = (p', Ok cs)"
  shows "set cs \<subseteq> ciss_held X kp p'"
proof -
  have laws: "hex_law X" "digest_law X" "json_sound X N" "route_law C route" "others_step X N E"
    using good by (simp_all add: ciss_good_def parts_law_def)
  let ?did = "sn_did (session_for X kp)" and ?H = "server_http X N display route E je"
  obtain s n where p: "p = (s, n)" by (cases p)
  let ?q = "request C HGet (''/'' @ ?did @ ''/du'') (with_session (Some (session_for X kp))) []"
  obtain u a where c: "json_body N ?H de_usage ''parse du response'' a = Ok u" "cs = map uo_cid (us_objects u)"
    and a: "server_send X N display route E (s, n) ?q = (p', Inr a)" "an_status a < 300"
    using have_ok by (auto simp: hc_have_def of_call_Ok client_du_def sbind_Ok send_ok_Ok Let_def server_http_def p)
  have rt: "route (hq_method ?q) (hq_url ?q) = (RtDu ?did, None)"
    using laws(4) did_of_key(1,2) [OF laws(1,2), of kp] by (simp add: route_law_def request_def)
  obtain s2 resp where r: "run_route X N (mo_between (E n) s) (server_request (E n) ?q None) (RtDu ?did) = (s2, Ok resp)"
    "p' = (s2, n + 1)" "a = answer_of resp"
    by (rule server_success [OF a rt])
  obtain s3 who out where d: "dispatch X N (mo_micros (E n)) s3 who (Du ?did) = (s2, Ok out)" "resp = outcome_response X N out"
    using r(1) did_of_key(3) [OF laws(1,2), of kp]
    by (auto simp: handler_response_Ok du_handler_def with_did_def dispatch_blocking_Ok server_request_def split: prod.splits)
  obtain s4 where o: "dispatch_op X N s3 who (Du ?did) = (s4, Ok out)" "as_store s2 = as_store s4" "as_blobs s2 = as_blobs s4"
    by (rule dispatch_Ok_ran [OF d(1)])
  then have s4: "s4 = s3" "op_du X s3 who ?did = Ok out" by auto
  obtain sizes where z: "sum_list (map snd sizes) \<le> u64_max" "out = UsageBody (render (scalar_text X) (usage_value sizes))"
    "fst ` set sizes = uploaded (as_store s3) ?did"
    by (rule op_du_Ok [OF s4(2)], rule that)
  have body: "an_body a = Inr (render (scalar_text X) (usage_value sizes))"
    by (simp add: r(3) d(2) z(2) answer_of_def text_json_response_def)
  have "de_usage (usage_value sizes) = Some u"
    using c(1) body laws(3) usage_fits [OF z(1)]
    by (auto simp: json_body_def from_slice_def ok_or_def json_sound_def Option.bind_eq_Some_conv split: option.splits)
  then have "set cs = uploaded (as_store s2) ?did"
    using de_usage_objects [of sizes u] z(3) by (metis c(2) list.set_map o(2) s4(1))
  moreover have "custody X s2"
    using custody_run.always [OF server_send_reachable [OF laws(5) a(1) [unfolded r(2)]]] good by (simp add: ciss_good_def p)
  ultimately show ?thesis by (auto simp: ciss_held_def r(2) custody_def)
qed

definition stored_value :: "string \<Rightarrow> nat \<Rightarrow> ReceiptMode \<Rightarrow> string \<Rightarrow> json" where
  "stored_value cid n mode h =
     JObj [(''bytes'', JInt (int n)), (''cid'', JStr cid), (''receipt_hash'', JStr h), (''receipt_mode'', JStr (mode_text mode))]"

lemma stored_to_value:
  "to_value (JObj [(''cid'', JStr cid), (''bytes'', JInt (int n)), (''receipt_mode'', JStr (mode_text mode)), (''receipt_hash'', JStr h)]) =
     stored_value cid n mode h"
  by (simp add: stored_value_def)

lemma stored_fits: "n \<le> u64_max \<Longrightarrow> jwf (stored_value cid n mode h) \<and> ints_fit (stored_value cid n mode h)"
  by (simp add: stored_value_def)

lemma put_object_stored:
  assumes "op_put_object X s did key bs = (s', Ok out)"
  obtains r :: Receipt and b where "blobs_put (as_blobs s) did (sha256_hex X bs) bs = (b, Ok (length bs))"
    "out = Stored (sha256_hex X bs) (length bs) (r_mode r) (r_content_hash r)" "as_blobs s' = b" "length bs \<le> u64_max"
proof -
  obtain r b s1 where o: "blobs_put (as_blobs s) did (sha256_hex X bs) bs = (b, Ok (length bs))" "s1 = s\<lparr>as_blobs := b\<rparr>"
    "transfer_receipt X s1 Upload did (sha256_hex X bs) (length bs) = Ok r"
    "out = Stored (sha256_hex X bs) (length bs) (r_mode r) (r_content_hash r)"
    "\<exists>st1 st2. (if blobs_has (as_blobs s) did (sha256_hex X bs) then st1 = as_store s
                else add_stored_bytes (as_store s) did (length bs) = (st1, Ok ())) \<and>
       append_receipt st1 did r = (st2, Ok ()) \<and> s' = s1\<lparr>as_store := st2\<rparr>"
    by (rule op_put_object_Ok [OF assms], rule that)
  have "length bs \<le> u64_max"
    using o(3) by (auto simp: transfer_receipt_def Let_def result_bind_Ok split: option.splits if_splits)
  moreover have "as_blobs s' = b" using o(2,5) by auto
  ultimately show thesis using that [OF o(1,4)] by simp
qed

text \<open>An upload the client accepts is stored under the address it was sent for.\<close>

lemma ciss_put_held:
  assumes good: "ciss_good X N C route E p" and cid: "url_part cid" and put_ok: "hc_put X N (server_http X N display route E je) C kp p cid bs = (p', Ok u)"
  shows "cid \<in> ciss_held X kp p'"
proof -
  have laws: "hex_law X" "digest_law X" "json_sound X N" "route_law C route" "others_step X N E"
    using good by (simp_all add: ciss_good_def parts_law_def)
  let ?did = "sn_did (session_for X kp)" and ?H = "server_http X N display route E je"
  obtain s n where p: "p = (s, n)" by (cases p)
  let ?q = "request C HPut (''/'' @ ?did @ ''/objects/'' @ cid) (session_headers (session_for X kp)) bs"
  obtain v a where v: "json_body N ?H Some ''parse upload response'' a = Ok v" "de_str (value_at v ''cid'') = Some cid"
    and a: "server_send X N display route E (s, n) ?q = (p', Inr a)" "an_status a < 300"
    using put_ok by (auto simp: hc_put_def of_call_Ok put_s3_def sbind_Ok send_ok_Ok Let_def server_http_def p verify_server_cid_def
        result_bind_Ok ok_or_def split: option.splits if_splits)
  have rt: "route (hq_method ?q) (hq_url ?q) = (if cid = [] then RtFallback else RtPutObject ?did cid, None)"
    using laws(4) did_of_key(1,2) [OF laws(1,2), of kp] cid by (simp add: route_law_def request_def)
  have ne: "cid \<noteq> []"
  proof
    assume "cid = []"
    then have rt': "route (hq_method ?q) (hq_url ?q) = (RtFallback, None)" using rt by simp
    show False by (rule server_success [OF a rt']) (use a(2) in \<open>simp add: unimplemented_s3_def answer_of_def\<close>)
  qed
  obtain s2 resp where r: "run_route X N (mo_between (E n) s) (server_request (E n) ?q None) (RtPutObject ?did cid) = (s2, Ok resp)"
    "p' = (s2, n + 1)" "a = answer_of resp"
    by (rule server_success [OF a rt]) (simp add: ne that)
  obtain who out where d: "dispatch X N (mo_micros (E n)) (mo_between (E n) s) who (PutObject ?did cid bs) = (s2, Ok out)" "resp = outcome_response X N out"
    using r(1) did_of_key(3) [OF laws(1,2), of kp]
    by (auto simp: handler_response_Ok put_object_handler_def with_did_def dispatch_blocking_Ok server_request_def request_def split: prod.splits)
  obtain s4 where o: "op_put_object X (mo_between (E n) s) ?did cid bs = (s4, Ok out)" "as_blobs s2 = as_blobs s4"
    by (rule dispatch_Ok_ran [OF d(1)]) simp
  obtain rc :: Receipt and b where w: "blobs_put (as_blobs (mo_between (E n) s)) ?did (sha256_hex X bs) bs = (b, Ok (length bs))"
    "out = Stored (sha256_hex X bs) (length bs) (r_mode rc) (r_content_hash rc)" "as_blobs s4 = b" "length bs \<le> u64_max"
    by (rule put_object_stored [OF o(1)], rule that)
  have body: "an_body a = Inr (render (scalar_text X) (stored_value (sha256_hex X bs) (length bs) (r_mode rc) (r_content_hash rc)))"
    by (simp add: r(3) d(2) w(2) answer_of_def json_response_def Let_def stored_to_value del: to_value.simps)
  have "v = stored_value (sha256_hex X bs) (length bs) (r_mode rc) (r_content_hash rc)"
    using v(1) body laws(3) stored_fits [OF w(4)]
    by (auto simp: json_body_def from_slice_def ok_or_def json_sound_def Option.bind_eq_Some_conv split: option.splits)
  then have "cid = sha256_hex X bs" using v(2) by (simp add: value_at_def stored_value_def de_str_def)
  then show ?thesis using blobs_put_node(2) [OF w(1) refl] by (simp add: ciss_held_def r(2) o(2) w(3) stored_objects_def)
qed

interpretation http_server:
  blob_side "http_ciss X N (server_http X N display route E je) C kp" "ciss_good X N C route E" "ciss_held X kp" url_part
  for X N display route E je C kp
proof unfold_locales
  fix s s' cs cid bs and u :: unit
  let ?R = "http_ciss X N (server_http X N display route E je) C kp"
  show "set cs \<subseteq> ciss_held X kp s'" if "ciss_good X N C route E s" "rm_have ?R s = (s', Ok cs)"
    using ciss_have_held that by (simp add: http_ciss_def)
  show "cid \<in> ciss_held X kp s'" if "ciss_good X N C route E s" "url_part cid" "rm_put ?R s cid bs = (s', Ok u)"
    using ciss_put_held that by (simp add: http_ciss_def)
qed (simp_all add: http_ciss_def server_keeps [OF http_ciss_requests(1)] server_keeps [OF http_ciss_requests(2)]
    server_keeps [OF http_ciss_requests(3)] server_keeps [OF http_ciss_requests(4)] to_hex_url_part)

section \<open>Backups over HTTP\<close>

lemma manifest_fits:
  assumes "manifest_wf m" "m_heads m = None"
  shows "jwf (manifest_json m)" "ints_fit (manifest_json m)"
  using assms by (auto simp: manifest_json_def manifest_wf_def list_all_iff)

lemma build_manifest_Ok:
  assumes "build_manifest X items did kp seq = Ok m" "seq \<le> u64_max"
  shows "manifest_wf m" "m_heads m = None" "m_seq m = seq" "set (m_leaves m) = set items" "m_signer_id m = did"
proof -
  have m: "m_leaves m = sort_key ml_cid items" "m_heads m = None" "m_seq m = seq" "m_signer_id m = did"
    "m_total_bytes m = sum_list (map ml_size (m_leaves m))" "m_total_bytes m \<le> u64_max"
    using assms(1) by (auto simp: build_manifest_def build_signed_def Let_def sum_sizes_def split: if_splits result.splits)
  show "m_heads m = None" "m_seq m = seq" "set (m_leaves m) = set items" "m_signer_id m = did" using m by simp_all
  have "ml_size l \<le> u64_max" if "l \<in> set (m_leaves m)" for l
    using member_le_sum_list [of "ml_size l" "map ml_size (m_leaves m)"] that m(5,6) by simp
  then show "manifest_wf m" using m assms(2) by (auto simp: manifest_wf_def list_all_iff)
qed

text \<open>A keep set the client reports committed is the manifest the server stores.\<close>

lemma ciss_commit_stored:
  assumes good: "ciss_good X N C route E p" and seq: "seq \<le> u64_max"
    and commit_ok: "hc_commit_keep_set X (server_http X N display route E je) C kp p leaves seq = (p', Ok u)"
  shows "\<exists>m. load_manifest (as_store (fst p')) (sn_did (session_for X kp)) = Some m \<and> m_seq m = seq \<and>
      set (leaf_pairs m) = set leaves \<and> m_heads m = None" "custody X (fst p')"
    "ciss_held X kp p \<subseteq> ciss_held X kp p'"
proof -
  have laws: "hex_law X" "digest_law X" "json_sound X N" "route_law C route" "others_step X N E"
    using good by (simp_all add: ciss_good_def parts_law_def)
  let ?did = "sn_did (session_for X kp)" and ?H = "server_http X N display route E je"
  obtain s n where p: "p = (s, n)" by (cases p)
  obtain m where m: "build_manifest X (to_leaves leaves) ?did kp seq = Ok m"
    and put: "client_put_manifest X ?H C (session_for X kp) m p = (p', Ok ())"
    using commit_ok by (auto simp: hc_commit_keep_set_def hc_commit_def split: result.splits prod.splits)
  note bm = build_manifest_Ok [OF m seq]
  let ?q = "request C HPut (''/'' @ ?did @ ''/manifest'') [(''x-croft-pubkey'', sn_pubkey (session_for X kp))] (render (scalar_text X) (manifest_json m))"
  obtain a where a: "server_send X N display route E (s, n) ?q = (p', Inr a)" "an_status a < 300"
    using put by (auto simp: client_put_manifest_def sbind_Ok send_ok_Ok server_http_def p)
  have rt: "route (hq_method ?q) (hq_url ?q) = (RtPutManifest ?did, None)"
    using laws(4) did_of_key(1,2) [OF laws(1,2), of kp] by (simp add: route_law_def request_def url_part_def)
  obtain s2 resp where r: "run_route X N (mo_between (E n) s) (server_request (E n) ?q None) (RtPutManifest ?did) = (s2, Ok resp)"
    "p' = (s2, n + 1)" "a = answer_of resp"
    by (rule server_success [OF a rt])
  obtain pk out where d: "dispatch X N (mo_micros (E n)) (mo_between (E n) s) Anonymous
      (PutManifest ?did pk (render (scalar_text X) (manifest_json m))) = (s2, Ok out)"
    using r(1) did_of_key(3) [OF laws(1,2), of kp]
    by (auto simp: handler_response_Ok put_manifest_handler_def with_did_def dispatch_blocking_Ok server_request_def request_def Let_def)
  obtain s4 where o: "op_put_manifest X N (mo_between (E n) s) ?did pk (render (scalar_text X) (manifest_json m)) = (s4, Ok out)"
    "as_store s2 = as_store s4"
    by (rule dispatch_Ok_ran [OF d]) simp
  obtain m' where m': "from_slice N de_manifest (render (scalar_text X) (manifest_json m)) = Some m'"
    "as_store s4 = save_manifest (as_store (mo_between (E n) s)) ?did m'"
    by (rule op_put_manifest_Ok [OF o(1)], rule that)
  have "m' = m"
    using m'(1) laws(3) manifest_fits [OF bm(1,2)] de_manifest_json [OF bm(1)]
    by (auto simp: from_slice_def json_sound_def Option.bind_eq_Some_conv)
  then have "load_manifest (as_store (fst p')) ?did = Some m"
    using m'(2) o(2) by (simp add: r(2) load_manifest_def save_manifest_def update_conv)
  moreover have "set (leaf_pairs m) = set leaves"
    using bm(4) by (force simp: leaf_pairs_def to_leaves_def)
  ultimately show "\<exists>m. load_manifest (as_store (fst p')) ?did = Some m \<and> m_seq m = seq \<and> set (leaf_pairs m) = set leaves \<and> m_heads m = None"
    using bm by blast
  have re: "reachable X N s s2" using server_send_reachable [OF laws(5) a(1) [unfolded r(2)]] .
  show "custody X (fst p')" using custody_run.always [OF re] good by (simp add: ciss_good_def p r(2))
  have "still_held (stored_objects (as_blobs s) ?did) ?did s2" by (rule held_run.always [OF re]) (simp add: still_held_def)
  then show "ciss_held X kp p \<subseteq> ciss_held X kp p'" by (simp add: ciss_held_def p r(2) still_held_def)
qed

lemma next_of_Ok: "next_of v = Ok n \<Longrightarrow> n \<le> u64_max"
  by (auto simp: next_of_def u64_max_def split: option.splits if_splits)

lemma backup_seq: "backup X Y R use w = (w', Ok rep) \<Longrightarrow> br_seq rep \<le> u64_max"
  unfolding backup_def sbind_Ok by (clarsimp simp: sbind_Ok next_of_Ok)

text \<open>End to end: after a backup the server's manifest for the account lists the tree's blobs and nothing
  else, and every one of them is in the backend under its digest.\<close>

lemma backup_over_http:
  assumes "backup X Y (http_ciss X N (server_http X N display route E je) C kp) use w = (w', Ok rep)"
    "ciss_good X N C route E (w_remote w)"
  shows "\<exists>m. load_manifest (as_store (fst (w_remote w'))) (sn_did (session_for X kp)) = Some m \<and> m_seq m = br_seq rep \<and>
     br_cid rep \<in> fst ` set (leaf_pairs m) \<and> custody X (fst (w_remote w')) \<and>
     fst ` set (leaf_pairs m) \<subseteq> stored_objects (as_blobs (fst (w_remote w'))) (sn_did (session_for X kp))"
proof -
  let ?R = "http_ciss X N (server_http X N display route E je) C kp"
  obtain s needed where c: "rm_commit_keep_set ?R s needed (br_seq rep) = (w_remote w', Ok ())" "ciss_good X N C route E s"
    "fst ` set needed \<subseteq> ciss_held X kp s" "br_cid rep \<in> fst ` set needed"
    by (rule http_server.backup_commits_held [OF assms])
  have seq: "br_seq rep \<le> u64_max"
    using backup_seq [OF assms(1)] .
  have k: "hc_commit_keep_set X (server_http X N display route E je) C kp s needed (br_seq rep) = (w_remote w', Ok ())"
    using c(1) by (simp add: http_ciss_def)
  note st = ciss_commit_stored [OF c(2) seq k]
  obtain m where m: "load_manifest (as_store (fst (w_remote w'))) (sn_did (session_for X kp)) = Some m" "m_seq m = br_seq rep"
    "set (leaf_pairs m) = set needed"
    using st(1) by blast
  have "fst ` set (leaf_pairs m) \<subseteq> stored_objects (as_blobs (fst (w_remote w'))) (sn_did (session_for X kp))"
    using c(3) st(3) unfolding m(3) ciss_held_def by (rule subset_trans)
  then show ?thesis using m st(2) c(4) by (intro exI [of _ m]) (simp add: m(3))
qed

end
