(* ===== verification/Cli_Profile.thy ===== *)
theory Cli_Profile
  imports Http_Ciss
begin

text \<open>
  The profile of the command-line client: \<^verbatim>\<open>config.rs\<close>, \<^verbatim>\<open>identity.rs\<close>, \<^verbatim>\<open>atproto.rs\<close>, \<^verbatim>\<open>commands/key.rs\<close> and the
  settings of \<^verbatim>\<open>sync.rs\<close> in \<^verbatim>\<open>ciss-cli\<close>. The disk is a map of files and directories with their permission
  bits; any call may fail with an error of the operating system, and a failing write may leave a part of
  its bytes. Modes are those the calls pass (a process's umask only removes bits). The environment, the
  entropy source, the clock and the parser of OpenSSH keys are arguments.
\<close>

section \<open>The disk\<close>

datatype DiskCall = DMkdir | DChmod | DOpen | DRead | DReadDir | DRename

record Disk =
  dk_files :: "(string \<times> bytes \<times> nat) list"
  dk_dirs :: "(string \<times> nat) list"
  dk_default_file :: nat
  dk_default_dir :: nat
  dk_fails :: "DiskCall \<Rightarrow> string \<Rightarrow> string option"
  dk_write_fault :: "string \<Rightarrow> (nat \<times> string) option"

definition path_join :: "string \<Rightarrow> string \<Rightarrow> string" where
  "path_join b p =
     (if starts_with ''/'' p then p else if b = [] \<or> last b = CHR ''/'' then b @ p else b @ ''/'' @ p)"

definition disk_exists :: "Disk \<Rightarrow> string \<Rightarrow> bool" where
  "disk_exists d p \<longleftrightarrow> map_of (dk_files d) p \<noteq> None \<or> map_of (dk_dirs d) p \<noteq> None"

definition is_utf8 :: "bytes \<Rightarrow> bool" where
  "is_utf8 b \<longleftrightarrow> utf8_lossy b = b"

definition disk_read :: "Disk \<Rightarrow> string \<Rightarrow> (bytes, string) result" where
  "disk_read d p =
     (case dk_fails d DRead p of
        Some e \<Rightarrow> Err e
      | None \<Rightarrow>
          (case map_of (dk_files d) p of
             Some (b, _) \<Rightarrow> Ok b
           | None \<Rightarrow> Err (if map_of (dk_dirs d) p = None then ''No such file or directory (os error 2)'' else ''Is a directory (os error 21)'')))"

definition read_to_string :: "Disk \<Rightarrow> string \<Rightarrow> (string, string) result" where
  "read_to_string d p =
     result_bind (disk_read d p) (\<lambda>b. if is_utf8 b then Ok b else Err ''stream did not contain valid UTF-8'')"

text \<open>The directory and its ancestors, each created when it is not there.\<close>

definition ancestors :: "string \<Rightarrow> string list" where
  "ancestors p = map (\<lambda>i. take i p) (filter (\<lambda>i. i < length p \<and> p ! i = CHR ''/'') [1..<length p]) @ [p]"

definition add_dir :: "nat \<Rightarrow> (string \<times> nat) list \<Rightarrow> string \<Rightarrow> (string \<times> nat) list" where
  "add_dir m ds p = (if map_of ds p = None then ds @ [(p, m)] else ds)"

definition create_dir_all :: "Disk \<Rightarrow> string \<Rightarrow> Disk \<times> (unit, string) result" where
  "create_dir_all d p =
     (case dk_fails d DMkdir p of
        Some e \<Rightarrow> (d, Err e)
      | None \<Rightarrow>
          if map_of (dk_files d) p \<noteq> None then (d, Err ''File exists (os error 17)'')
          else (d\<lparr>dk_dirs := foldl (add_dir (dk_default_dir d)) (dk_dirs d) (ancestors p)\<rparr>, Ok ()))"

definition set_permissions :: "Disk \<Rightarrow> string \<Rightarrow> nat \<Rightarrow> Disk \<times> (unit, string) result" where
  "set_permissions d p m =
     (case dk_fails d DChmod p of
        Some e \<Rightarrow> (d, Err e)
      | None \<Rightarrow>
          (case map_of (dk_files d) p of
             Some (b, _) \<Rightarrow> (d\<lparr>dk_files := AList.update p (b, m) (dk_files d)\<rparr>, Ok ())
           | None \<Rightarrow>
               if map_of (dk_dirs d) p = None then (d, Err ''No such file or directory (os error 2)'')
               else (d\<lparr>dk_dirs := AList.update p m (dk_dirs d)\<rparr>, Ok ())))"

text \<open>\<open>write_all\<close> to a file that was opened empty.\<close>

definition write_all :: "Disk \<Rightarrow> string \<Rightarrow> nat \<Rightarrow> bytes \<Rightarrow> Disk \<times> (unit, string) result" where
  "write_all d p m b =
     (case dk_write_fault d p of
        None \<Rightarrow> (d\<lparr>dk_files := AList.update p (b, m) (dk_files d)\<rparr>, Ok ())
      | Some (k, e) \<Rightarrow> (d\<lparr>dk_files := AList.update p (take k b, m) (dk_files d)\<rparr>, Err e))"

text \<open>Opening for writing: with \<open>create_new\<close> the path must be free, else the file is truncated and keeps its mode.\<close>

definition open_new :: "Disk \<Rightarrow> string \<Rightarrow> nat \<Rightarrow> (nat, string) result" where
  "open_new d p m =
     (case dk_fails d DOpen p of
        Some e \<Rightarrow> Err e
      | None \<Rightarrow> if disk_exists d p then Err ''File exists (os error 17)'' else Ok m)"

definition open_truncate :: "Disk \<Rightarrow> string \<Rightarrow> nat \<Rightarrow> (nat, string) result" where
  "open_truncate d p m =
     (case dk_fails d DOpen p of
        Some e \<Rightarrow> Err e
      | None \<Rightarrow>
          if map_of (dk_dirs d) p \<noteq> None then Err ''Is a directory (os error 21)''
          else Ok (case map_of (dk_files d) p of Some (_, old) \<Rightarrow> old | None \<Rightarrow> m))"

definition disk_write :: "Disk \<Rightarrow> string \<Rightarrow> bytes \<Rightarrow> Disk \<times> (unit, string) result" where
  "disk_write d p b = sbind (d, open_truncate d p (dk_default_file d)) (\<lambda>d m. write_all d p m b)"

definition disk_rename :: "Disk \<Rightarrow> string \<Rightarrow> string \<Rightarrow> Disk \<times> (unit, string) result" where
  "disk_rename d from to =
     (case dk_fails d DRename from of
        Some e \<Rightarrow> (d, Err e)
      | None \<Rightarrow>
          (case map_of (dk_files d) from of
             None \<Rightarrow> (d, Err ''No such file or directory (os error 2)'')
           | Some v \<Rightarrow>
               if map_of (dk_dirs d) to \<noteq> None then (d, Err ''Is a directory (os error 21)'')
               else (d\<lparr>dk_files := AList.update to v (if from = to then dk_files d else AList.delete from (dk_files d))\<rparr>, Ok ())))"

definition with_context :: "string \<Rightarrow> ('a, string) result \<Rightarrow> ('a, string) result" where
  "with_context t r = map_err (\<lambda>e. t @ '': '' @ e) r"

definition in_context :: "string \<Rightarrow> 's \<times> ('a, string) result \<Rightarrow> 's \<times> ('a, string) result" where
  "in_context t p = (case p of (s, r) \<Rightarrow> (s, with_context t r))"

section \<open>config.rs\<close>

record Config =
  cf_root :: string
  cf_profile :: string

type_synonym env = "string \<Rightarrow> string option"

definition config_root :: "env \<Rightarrow> (string, string) result" where
  "config_root env =
     (case env ''XDG_CONFIG_HOME'' of
        Some (c # cs) \<Rightarrow> Ok (path_join (c # cs) ''ciss-ctl'')
      | _ \<Rightarrow>
          (case env ''HOME'' of
             Some home \<Rightarrow> Ok (path_join (path_join home ''.config'') ''ciss-ctl'')
           | None \<Rightarrow> Err ''cannot locate config: neither XDG_CONFIG_HOME nor HOME is set''))"

definition config_new :: "env \<Rightarrow> string \<Rightarrow> (Config, string) result" where
  "config_new env profile = result_bind (config_root env) (\<lambda>root. Ok \<lparr>cf_root = root, cf_profile = profile\<rparr>)"

definition profile_dir :: "Config \<Rightarrow> string" where
  "profile_dir cfg = path_join (path_join (cf_root cfg) ''profiles'') (cf_profile cfg)"

definition key_path :: "Config \<Rightarrow> string" where
  "key_path cfg = path_join (profile_dir cfg) ''identity.key''"

definition credential_path :: "Config \<Rightarrow> string" where
  "credential_path cfg = path_join (profile_dir cfg) ''pds.json''"

definition for_profile :: "Config \<Rightarrow> string \<Rightarrow> Config" where
  "for_profile cfg profile = cfg\<lparr>cf_profile := profile\<rparr>"

text \<open>The names of the subdirectories that are text, sorted.\<close>

definition child_name :: "string \<Rightarrow> string \<Rightarrow> string option" where
  "child_name dir p = Option.bind (strip_prefix (dir @ ''/'') p) (\<lambda>n. if n = [] \<or> CHR ''/'' \<in> set n then None else Some n)"

definition profiles :: "Disk \<Rightarrow> Config \<Rightarrow> (string list, string) result" where
  "profiles d cfg =
     (let dir = path_join (cf_root cfg) ''profiles'' in
      if \<not> disk_exists d dir then Ok []
      else case dk_fails d DReadDir dir of
        Some e \<Rightarrow> Err (''read '' @ dir @ '': '' @ e)
      | None \<Rightarrow>
          if map_of (dk_dirs d) dir = None then Err (''read '' @ dir @ '': Not a directory (os error 20)'')
          else Ok (sort (filter is_utf8 (List.map_filter (\<lambda>(p, _). child_name dir p) (dk_dirs d)))))"

section \<open>identity.rs\<close>

definition KEY_LABEL :: string where "KEY_LABEL = ''client''"

definition did_of_seed :: "ext \<Rightarrow> bytes \<Rightarrow> string" where
  "did_of_seed X seed = derive_id X (keypair_verifying_key X (from_seed seed KEY_LABEL))"

definition tighten_dir :: "Disk \<Rightarrow> string \<Rightarrow> Disk \<times> (unit, string) result" where
  "tighten_dir d dir = in_context (''chmod 0700 '' @ dir) (set_permissions d dir 448)"

definition write_secret_file :: "Disk \<Rightarrow> string \<Rightarrow> bytes \<Rightarrow> Disk \<times> (unit, string) result" where
  "write_secret_file d p b =
     sbind (d, with_context (''create key file '' @ p) (open_new d p 384)) (\<lambda>d m.
       in_context (''write key file '' @ p) (write_all d p m b))"

definition write_seed :: "ext \<Rightarrow> Disk \<Rightarrow> Config \<Rightarrow> bytes \<Rightarrow> Disk \<times> (unit, string) result" where
  "write_seed X d cfg seed =
     (let dir = profile_dir cfg in
      sbind (in_context (''create '' @ dir) (create_dir_all d dir)) (\<lambda>d _.
      sbind (tighten_dir d dir) (\<lambda>d _.
        write_secret_file d (key_path cfg) (hex_encode X seed))))"

text \<open>\<open>hex_error\<close> is the text of the hexadecimal decoder's error.\<close>

definition decode_seed :: "ext \<Rightarrow> (string \<Rightarrow> string) \<Rightarrow> string \<Rightarrow> (bytes, string) result" where
  "decode_seed X hex_error s =
     (case hex_decode X s of
        None \<Rightarrow> Err (''stored seed is not valid hex: '' @ hex_error s)
      | Some b \<Rightarrow> if length b = 32 then Ok b else Err (''seed must be 32 bytes, got '' @ show_nat (length b)))"

definition generate :: "ext \<Rightarrow> (bytes, string) result \<Rightarrow> Config \<Rightarrow> Disk \<Rightarrow> Disk \<times> (string, string) result" where
  "generate X entropy cfg d =
     (if disk_exists d (key_path cfg) then
        (d, Err (''an identity already exists at '' @ key_path cfg @ '' (remove it to generate a new one)''))
      else
        sbind (d, with_context ''gather entropy for a new key'' entropy) (\<lambda>d seed.
        sbind (write_seed X d cfg seed) (\<lambda>d _. (d, Ok (did_of_seed X seed)))))"

record SshKey =
  sk_encrypted :: bool
  sk_ed25519 :: "bytes option"
  sk_algorithm :: string

definition import_key ::
  "ext \<Rightarrow> (string \<Rightarrow> string + SshKey) \<Rightarrow> Config \<Rightarrow> string \<Rightarrow> Disk \<Rightarrow> Disk \<times> (string, string) result" where
  "import_key X from_openssh cfg path d =
     (if disk_exists d (key_path cfg) then
        (d, Err (''an identity already exists at '' @ key_path cfg @ '' (remove it to import a different key)''))
      else
        sbind (d, with_context (''read '' @ path) (read_to_string d path)) (\<lambda>d pem.
        case from_openssh pem of
          Inl e \<Rightarrow> (d, Err (''parse OpenSSH private key '' @ path @ '': '' @ e))
        | Inr key \<Rightarrow>
            if sk_encrypted key then
              (d, Err (path @ '' is an encrypted (passphrase-protected) key; ciss-ctl v1 imports only unencrypted ed25519 keys '' @
                 EM_DASH @ '' decrypt it first with `ssh-keygen -p -f <path>`''))
            else case sk_ed25519 key of
              None \<Rightarrow> (d, Err (path @ '' is not an ed25519 key (algorithm: '' @ sk_algorithm key @ '')''))
            | Some seed \<Rightarrow> sbind (write_seed X d cfg seed) (\<lambda>d _. (d, Ok (did_of_seed X seed)))))"

definition load_keypair :: "ext \<Rightarrow> (string \<Rightarrow> string) \<Rightarrow> Disk \<Rightarrow> Config \<Rightarrow> (Keypair, string) result" where
  "load_keypair X hex_error d cfg =
     (case read_to_string d (key_path cfg) of
        Ok contents \<Rightarrow> result_bind (decode_seed X hex_error (trim contents)) (\<lambda>seed. Ok (from_seed seed KEY_LABEL))
      | Err e \<Rightarrow> Err (''no identity for this profile ('' @ key_path cfg @ '': '' @ e @ ''). run `ciss-ctl key gen`'')
      | Panic \<Rightarrow> Panic)"

definition whoami :: "ext \<Rightarrow> (string \<Rightarrow> string) \<Rightarrow> Disk \<Rightarrow> Config \<Rightarrow> (string, string) result" where
  "whoami X hex_error d cfg =
     result_bind (load_keypair X hex_error d cfg) (\<lambda>kp. Ok (derive_id X (keypair_verifying_key X kp)))"

definition profile_did :: "ext \<Rightarrow> (string \<Rightarrow> string) \<Rightarrow> Disk \<Rightarrow> Config \<Rightarrow> string option" where
  "profile_did X hex_error d cfg =
     (case load_keypair X hex_error d cfg of Ok kp \<Rightarrow> Some (derive_id X (keypair_verifying_key X kp)) | _ \<Rightarrow> None)"

definition show_key :: "ext \<Rightarrow> (string \<Rightarrow> string) \<Rightarrow> Disk \<Rightarrow> Config \<Rightarrow> (string \<times> string, string) result" where
  "show_key X hex_error d cfg =
     result_bind (load_keypair X hex_error d cfg) (\<lambda>kp. Ok (derive_id X (keypair_verifying_key X kp), public_key_hex X kp))"

section \<open>atproto.rs\<close>

definition CREATE_SESSION :: string where "CREATE_SESSION = ''com.atproto.server.createSession''"
definition GET_SERVICE_AUTH :: string where "GET_SERVICE_AUTH = ''com.atproto.server.getServiceAuth''"

text \<open>A request to the PDS: a failed one names the host, an answer that is no success its status and text.\<close>

definition pds_error :: "string \<Rightarrow> string \<Rightarrow> SendError \<Rightarrow> string" where
  "pds_error action host e =
     (case e of
        Unreachable \<Rightarrow> action @ '' failed: server unreachable at '' @ host
      | SendFailed t \<Rightarrow> action @ '' failed: '' @ t)"

definition http_error_detail :: "Answer \<Rightarrow> string" where
  "http_error_detail a =
     (let trimmed = trim (case an_body a of Inl _ \<Rightarrow> [] | Inr b \<Rightarrow> utf8_lossy b) in
      if trimmed = [] then ''HTTP '' @ show_nat (an_status a)
      else ''HTTP '' @ show_nat (an_status a) @ '' '' @ EM_DASH @ '' '' @ trimmed)"

definition pds_call :: "'s http \<Rightarrow> string \<Rightarrow> string \<Rightarrow> HttpRequest \<Rightarrow> 's \<Rightarrow> ('s, Answer) call" where
  "pds_call H host action rq s =
     (case ht_send H s rq of
        (s', Inl e) \<Rightarrow> (s', Err (pds_error action host e))
      | (s', Inr a) \<Rightarrow>
          if 200 \<le> an_status a \<and> an_status a < 300 then (s', Ok a)
          else (s', Err (action @ '' failed: '' @ http_error_detail a)))"

record PdsCredential =
  pc_pds_host :: string
  pc_identifier :: string
  pc_app_password :: string

definition de_pds_credential :: "json \<Rightarrow> PdsCredential option" where
  "de_pds_credential j =
     (case text_fields False [''pds_host'', ''identifier'', ''app_password''] 0 j of
        Some [h, i, p] \<Rightarrow>
          (case (req de_str h, req de_str i, req de_str p) of
             (Some h, Some i, Some p) \<Rightarrow> Some \<lparr>pc_pds_host = h, pc_identifier = i, pc_app_password = p\<rparr>
           | _ \<Rightarrow> None)
      | _ \<Rightarrow> None)"

definition credential_json :: "PdsCredential \<Rightarrow> json" where
  "credential_json c =
     JObj [(''pds_host'', JStr (pc_pds_host c)), (''identifier'', JStr (pc_identifier c)), (''app_password'', JStr (pc_app_password c))]"

text \<open>\<open>to_vec_pretty\<close> of the struct: its members in order, one per line.\<close>

definition pretty_credential :: "ext \<Rightarrow> PdsCredential \<Rightarrow> string" where
  "pretty_credential X c =
     (let quote = (\<lambda>t. scalar_text X (JStr t)); line = (\<lambda>k v. ''  '' @ quote k @ '': '' @ quote v); nl = [CHR 0x0A] in
      ''{'' @ nl @ line ''pds_host'' (pc_pds_host c) @ '','' @ nl @ line ''identifier'' (pc_identifier c) @ '','' @ nl @
      line ''app_password'' (pc_app_password c) @ nl @ ''}'')"

text \<open>\<open>json_error\<close> is the text of the JSON parser's error.\<close>

definition load_credential ::
  "net \<Rightarrow> (string \<Rightarrow> string) \<Rightarrow> env \<Rightarrow> Disk \<Rightarrow> Config \<Rightarrow> (PdsCredential, string) result" where
  "load_credential N json_error env d cfg =
     (case (env ''CISS_PDS_HOST'', env ''CISS_PDS_IDENTIFIER'', env ''CISS_PDS_APP_PASSWORD'') of
        (Some h, Some i, Some p) \<Rightarrow> Ok \<lparr>pc_pds_host = h, pc_identifier = i, pc_app_password = p\<rparr>
      | _ \<Rightarrow>
          let path = credential_path cfg in
          (case read_to_string d path of
             Ok t \<Rightarrow> ok_or (''parse '' @ path @ '': '' @ json_error t) (from_slice N de_pds_credential t)
           | Err e \<Rightarrow> Err (''no did: credential ('' @ path @ '': '' @ e @
               ''). set CISS_PDS_HOST / CISS_PDS_IDENTIFIER / CISS_PDS_APP_PASSWORD, or write '' @ path)
           | Panic \<Rightarrow> Panic))"

definition replace_secret_file :: "Disk \<Rightarrow> string \<Rightarrow> bytes \<Rightarrow> Disk \<times> (unit, string) result" where
  "replace_secret_file d p b =
     sbind (d, with_context (''create credential file '' @ p) (open_truncate d p 384)) (\<lambda>d m.
     sbind (in_context (''write credential file '' @ p) (write_all d p m b)) (\<lambda>d _.
       in_context (''chmod 0600 '' @ p) (set_permissions d p 384)))"

definition save_credential :: "ext \<Rightarrow> Disk \<Rightarrow> Config \<Rightarrow> PdsCredential \<Rightarrow> Disk \<times> (unit, string) result" where
  "save_credential X d cfg cred =
     (let dir = profile_dir cfg in
      sbind (in_context (''create '' @ dir) (create_dir_all d dir)) (\<lambda>d _.
      sbind (tighten_dir d dir) (\<lambda>d _.
        replace_secret_file d (credential_path cfg) (pretty_credential X cred))))"

definition profile_identifier :: "net \<Rightarrow> Disk \<Rightarrow> Config \<Rightarrow> string option" where
  "profile_identifier N d cfg =
     (case read_to_string d (credential_path cfg) of
        Ok t \<Rightarrow> map_option pc_identifier (from_slice N de_pds_credential t)
      | _ \<Rightarrow> None)"

record PdsSession =
  ps_access_jwt :: string
  ps_did :: string

definition trim_slashes :: "string \<Rightarrow> string" where
  "trim_slashes s = rev (dropWhile (\<lambda>c. c = CHR ''/'') (rev s))"

definition json_text :: "ext \<Rightarrow> json \<Rightarrow> string" where
  "json_text X j = render (scalar_text X) (to_value j)"

definition create_session :: "ext \<Rightarrow> net \<Rightarrow> 's http \<Rightarrow> PdsCredential \<Rightarrow> 's \<Rightarrow> ('s, PdsSession) call" where
  "create_session X N H cred s =
     sbind (pds_call H (pc_pds_host cred) ''PDS login''
         \<lparr>hq_method = HPost, hq_url = trim_slashes (pc_pds_host cred) @ ''/xrpc/'' @ CREATE_SESSION,
          hq_headers = [(''content-type'', ''application/json'')],
          hq_body = json_text X (JObj [(''identifier'', JStr (pc_identifier cred)), (''password'', JStr (pc_app_password cred))])\<rparr> s) (\<lambda>s a.
     sbind (s, json_body N H Some ''parse createSession response'' a) (\<lambda>s v.
       (s, result_bind (ok_or ''createSession response missing accessJwt'' (de_str (value_at v ''accessJwt''))) (\<lambda>jwt.
           result_bind (ok_or ''createSession response missing did'' (de_str (value_at v ''did''))) (\<lambda>did.
             Ok \<lparr>ps_access_jwt = jwt, ps_did = did\<rparr>)))))"

definition get_service_auth ::
  "net \<Rightarrow> 's http \<Rightarrow> string \<Rightarrow> string \<Rightarrow> string \<Rightarrow> string \<Rightarrow> u64 \<Rightarrow> 's \<Rightarrow> ('s, string) call" where
  "get_service_auth N H host access_jwt aud lxm exp_unix_s s =
     sbind (pds_call H host ''getServiceAuth''
         \<lparr>hq_method = HGet,
          hq_url = trim_slashes host @ ''/xrpc/'' @ GET_SERVICE_AUTH @ ''?aud='' @ enc aud @ ''&lxm='' @ enc lxm @ ''&exp='' @ show_nat exp_unix_s,
          hq_headers = bearer_auth access_jwt, hq_body = []\<rparr> s) (\<lambda>s a.
     sbind (s, json_body N H Some ''parse getServiceAuth response'' a) (\<lambda>s v.
       (s, ok_or ''getServiceAuth response missing token'' (de_str (value_at v ''token'')))))"

definition sixty_from :: "(u64, string) result \<Rightarrow> (u64, string) result" where
  "sixty_from now = result_bind now (\<lambda>t. if t + 60 \<le> u64_max then Ok (t + 60) else Panic)"

definition mint_service_auth ::
  "ext \<Rightarrow> net \<Rightarrow> 's http \<Rightarrow> (u64, string) result \<Rightarrow> PdsCredential \<Rightarrow> string \<Rightarrow> string \<Rightarrow> 's \<Rightarrow> ('s, string \<times> string) call" where
  "mint_service_auth X N H now cred aud lxm s =
     sbind (create_session X N H cred s) (\<lambda>s session.
     sbind (s, sixty_from now) (\<lambda>s exp.
     sbind (get_service_auth N H (pc_pds_host cred) (ps_access_jwt session) aud lxm exp s) (\<lambda>s token.
       (s, Ok (token, ps_did session)))))"

fun mint_each ::
  "net \<Rightarrow> 's http \<Rightarrow> string \<Rightarrow> string \<Rightarrow> string \<Rightarrow> u64 \<Rightarrow> string list \<Rightarrow> 's \<Rightarrow> ('s, string list) call" where
  "mint_each N H host jwt aud exp [] s = (s, Ok [])"
| "mint_each N H host jwt aud exp (lxm # lxms) s =
     sbind (get_service_auth N H host jwt aud lxm exp s) (\<lambda>s token.
     sbind (mint_each N H host jwt aud exp lxms s) (\<lambda>s tokens. (s, Ok (token # tokens))))"

definition service_auth_tokens ::
  "ext \<Rightarrow> net \<Rightarrow> 's http \<Rightarrow> (u64, string) result \<Rightarrow> PdsCredential \<Rightarrow> string \<Rightarrow> string list \<Rightarrow> 's \<Rightarrow> ('s, string \<times> string list) call" where
  "service_auth_tokens X N H now cred aud lxms s =
     sbind (create_session X N H cred s) (\<lambda>s session.
     sbind (s, sixty_from now) (\<lambda>s exp.
     sbind (mint_each N H (pc_pds_host cred) (ps_access_jwt session) aud exp lxms s) (\<lambda>s tokens.
       (s, Ok (ps_did session, tokens)))))"

section \<open>Settings of sync.rs\<close>

definition device_id :: "(bytes, string) result \<Rightarrow> Config \<Rightarrow> Disk \<Rightarrow> Disk \<times> (string, string) result" where
  "device_id entropy cfg d =
     (let path = path_join (profile_dir cfg) ''device_id'' in
      case read_to_string d path of
        Ok existing \<Rightarrow> (d, if trim existing = [] then Err (''empty device_id at '' @ path) else Ok (trim existing))
      | Panic \<Rightarrow> (d, Panic)
      | Err _ \<Rightarrow>
          sbind (d, map_err (\<lambda>e. ''entropy: '' @ e) entropy) (\<lambda>d raw.
          let label = concat (map (\<lambda>b. [lower_hex_digit (of_char b div 16), lower_hex_digit (of_char b mod 16)]) raw) in
          sbind (create_dir_all d (profile_dir cfg)) (\<lambda>d _.
          sbind (disk_write d path (label @ [CHR 0x0A])) (\<lambda>d _. (d, Ok label)))))"

definition data_home :: "env \<Rightarrow> (string, string) result" where
  "data_home env =
     (case env ''XDG_DATA_HOME'' of
        Some (c # cs) \<Rightarrow> Ok (c # cs)
      | _ \<Rightarrow>
          (case env ''HOME'' of
             Some home \<Rightarrow> Ok (path_join home ''.local/share'')
           | None \<Rightarrow> Err ''neither XDG_DATA_HOME nor HOME is set''))"

text \<open>\<open>canonicalize\<close> is the file system's.\<close>

definition default_state_dir ::
  "ext \<Rightarrow> (string \<Rightarrow> (string, string) result) \<Rightarrow> env \<Rightarrow> string \<Rightarrow> string \<Rightarrow> (string, string) result" where
  "default_state_dir X canonicalize env profile tree =
     result_bind (map_err (\<lambda>e. ''cannot resolve '' @ tree @ '': '' @ e) (canonicalize tree)) (\<lambda>canonical.
     result_bind (data_home env) (\<lambda>home.
       Ok (path_join (path_join home ''ciss-ctl/sync'') (tree_id X profile canonical))))"

definition DEFAULT_RELAY_URL :: string where "DEFAULT_RELAY_URL = ''https://relay.croft.ing:8443''"

definition resolve_relay :: "bool \<Rightarrow> string option \<Rightarrow> string option \<Rightarrow> string option" where
  "resolve_relay no_relay flag profile_setting =
     (if no_relay then None
      else case flag of
        Some url \<Rightarrow> Some url
      | None \<Rightarrow>
          (case map_option trim profile_setting of
             Some url \<Rightarrow> if url = ''disabled'' then None else if url \<noteq> [] then Some url else Some DEFAULT_RELAY_URL
           | None \<Rightarrow> Some DEFAULT_RELAY_URL))"

definition profile_relay_setting :: "Disk \<Rightarrow> Config \<Rightarrow> string option" where
  "profile_relay_setting d cfg = (case read_to_string d (path_join (profile_dir cfg) ''relay'') of Ok t \<Rightarrow> Some t | _ \<Rightarrow> None)"

text \<open>\<open>open_ledger\<close> is the opening of the ledger's database.\<close>

definition profile_ledger ::
  "(string \<Rightarrow> string \<Rightarrow> (SpendLedger, string) result) \<Rightarrow> env \<Rightarrow> string \<Rightarrow> Disk \<Rightarrow> Disk \<times> (SpendLedger, string) result" where
  "profile_ledger open_ledger env profile d =
     sbind (d, data_home env) (\<lambda>d home.
     let dir = path_join (path_join home ''ciss-ctl/profiles'') profile in
     sbind (create_dir_all d dir) (\<lambda>d _. (d, open_ledger (path_join dir ''ledger.sqlite'') ''profile'')))"

section \<open>commands/key.rs\<close>

definition NEWLINE :: string where "NEWLINE = [CHR 0x0A]"

definition opt_str :: "string option \<Rightarrow> json" where
  "opt_str v = (case v of Some t \<Rightarrow> JStr t | None \<Rightarrow> JNull)"

definition json_line :: "ext \<Rightarrow> json \<Rightarrow> string" where
  "json_line X j = json_text X j @ NEWLINE"

text \<open>\<open>{:<n}\<close> and \<open>{:>n}\<close>; the width counts characters, and no byte of a text after the first of a
  character is below 128 or above 191.\<close>

definition char_count :: "string \<Rightarrow> nat" where
  "char_count s = length (filter (\<lambda>c. of_char c div 64 \<noteq> (2::nat)) s)"

definition pad_right :: "nat \<Rightarrow> string \<Rightarrow> string" where
  "pad_right n s = s @ replicate (n - char_count s) (CHR '' '')"

definition pad_left :: "nat \<Rightarrow> string \<Rightarrow> string" where
  "pad_left n s = replicate (n - char_count s) (CHR '' '') @ s"

type_synonym key_row = "string \<times> string option \<times> string option \<times> bool"

definition key_row_json :: "key_row \<Rightarrow> json" where
  "key_row_json row = (case row of (profile, i, did, active) \<Rightarrow>
     JObj [(''profile'', JStr profile), (''active'', JBool active), (''id'', opt_str i), (''did'', opt_str did)])"

definition key_row_line :: "key_row \<Rightarrow> string" where
  "key_row_line row = (case row of (profile, i, did, active) \<Rightarrow>
     let (kind, ident) = (case i of Some x \<Rightarrow> (''id '', x) | None \<Rightarrow>
           (case did of Some x \<Rightarrow> (''did'', x) | None \<Rightarrow> (''?  '', ''(empty)''))) in
     (if active then ''* '' else ''  '') @ pad_right 12 profile @ '' '' @ kind @ ''  '' @ ident @ NEWLINE)"

definition key_list ::
  "ext \<Rightarrow> net \<Rightarrow> (string \<Rightarrow> string) \<Rightarrow> Disk \<Rightarrow> Config \<Rightarrow> string \<Rightarrow> bool \<Rightarrow> (string, string) result" where
  "key_list X N hex_error d cfg active_profile json_out =
     result_bind (profiles d cfg) (\<lambda>names.
     let rows = map (\<lambda>p. let pc = for_profile cfg p in
           (p, profile_did X hex_error d pc, profile_identifier N d pc, p = active_profile)) names in
     Ok (if json_out then json_line X (JArr (map key_row_json rows))
         else if rows = [] then
           ''(no identities yet '' @ EM_DASH @ '' run `ciss-ctl key gen` or `ciss-ctl login`)'' @ NEWLINE
         else concat (map key_row_line rows) @ ''  (* = active profile; select another with --profile <name>)'' @ NEWLINE))"

end
