(* ===== verification/Cli_Commands.thy ===== *)
theory Cli_Commands
  imports Cli_Profile
begin

text \<open>
  The commands on objects, read policies and dials: \<^verbatim>\<open>commands/object.rs\<close>, \<^verbatim>\<open>commands/acl.rs\<close> and the dial
  commands of \<^verbatim>\<open>main.rs\<close> in \<^verbatim>\<open>ciss-cli\<close>. A command runs on the client's disk and on the other side of the
  network and returns the text it prints. What the operating system and the libraries supply to a run is
  the record \<open>machine\<close>.
\<close>

section \<open>A run's surroundings\<close>

record 's machine =
  mc_ext :: ext
  mc_net :: net
  mc_http :: "'s http"
  mc_env :: env
  mc_entropy :: "nat \<Rightarrow> (bytes, string) result"
  mc_now :: "(u64, string) result"
  mc_ssh :: "string \<Rightarrow> string + SshKey"
  mc_hex_error :: "string \<Rightarrow> string"
  mc_json_error :: "string \<Rightarrow> string"
  mc_cid_text :: "string \<Rightarrow> CidError \<Rightarrow> string"
  mc_debug :: "string \<Rightarrow> string"
  mc_int_error :: "string \<Rightarrow> string"
  mc_pretty :: "json \<Rightarrow> string"
  mc_prompt :: "string \<Rightarrow> (string, string) result"
  mc_stdout_fails :: "string option"
  mc_man :: "(bytes, string) result"

type_synonym ('s, 'a) run = "(Disk \<times> 's) \<times> ('a, string) result"

definition on_disk :: "(Disk \<Rightarrow> Disk \<times> ('a, string) result) \<Rightarrow> Disk \<times> 's \<Rightarrow> ('s, 'a) run" where
  "on_disk f c = (case c of (d, s) \<Rightarrow> case f d of (d', r) \<Rightarrow> ((d', s), r))"

definition on_net :: "('s \<Rightarrow> ('s, 'a) call) \<Rightarrow> Disk \<times> 's \<Rightarrow> ('s, 'a) run" where
  "on_net f c = (case c of (d, s) \<Rightarrow> case f s of (s', r) \<Rightarrow> ((d, s'), r))"

definition nat_json :: "nat \<Rightarrow> json" where
  "nat_json n = JInt (int n)"

definition println :: "string \<Rightarrow> string" where
  "println t = t @ NEWLINE"

section \<open>commands/object.rs\<close>

datatype Plane = S3 | Pds

text \<open>\<open>Path::file_name\<close> and \<open>Path::with_extension\<close>: trailing slashes and dots do not count.\<close>

fun drop_tail :: "string \<Rightarrow> string" where
  "drop_tail (c # s) =
     (if s \<noteq> [] \<and> (c = CHR ''/'' \<or> c = CHR ''.'' \<and> hd s = CHR ''/'') then drop_tail s else c # s)"
| "drop_tail [] = []"

definition path_parts :: "string \<Rightarrow> string \<times> string" where
  "path_parts p = split_last (rev (drop_tail (rev p)))"

definition file_name :: "string \<Rightarrow> string option" where
  "file_name p = (let n = snd (path_parts p) in if n \<in> {[], ''.'', ''..''} then None else Some n)"

definition file_stem :: "string \<Rightarrow> string" where
  "file_stem n =
     (let r = dropWhile (\<lambda>c. c \<noteq> CHR ''.'') (rev n) in if length r \<le> 1 then n else rev (tl r))"

definition with_extension :: "string \<Rightarrow> string \<Rightarrow> string" where
  "with_extension p ext =
     (case file_name p of
        None \<Rightarrow> p
      | Some n \<Rightarrow> fst (path_parts p) @ file_stem n @ ''.'' @ ext)"

definition write_atomic :: "string \<Rightarrow> bytes \<Rightarrow> Disk \<Rightarrow> Disk \<times> (unit, string) result" where
  "write_atomic path b d =
     (let tmp = with_extension path ''ciss-download-tmp'' in
      sbind (in_context (''write '' @ tmp) (disk_write d tmp b)) (\<lambda>d _.
        in_context (''finalize '' @ path) (disk_rename d tmp path)))"

definition put_result_text :: "ext \<Rightarrow> bool \<Rightarrow> PutResult \<Rightarrow> string" where
  "put_result_text X json_out res =
     (if json_out then
        json_line X (JObj [(''cid'', JStr (pr_cid res)), (''bytes'', nat_json (pr_bytes res)), (''receipt_mode'', JStr (pr_receipt_mode res)),
          (''etag'', opt_str (pr_etag res)), (''via'', JStr ''s3'')])
      else
        println ''uploaded via s3'' @ println (''  cid:     '' @ pr_cid res) @ println (''  bytes:   '' @ show_nat (pr_bytes res)) @
        println (''  receipt: '' @ pr_receipt_mode res) @
        (case pr_etag res of Some tag \<Rightarrow> println (''  etag:    '' @ tag) | None \<Rightarrow> []))"

definition blob_upload_text :: "ext \<Rightarrow> bool \<Rightarrow> string \<Rightarrow> BlobUpload \<Rightarrow> string" where
  "blob_upload_text X json_out title res =
     (if json_out then
        json_line X (JObj [(''cid'', JStr (bu_cid res)), (''cidv1'', JStr (bu_cidv1 res)), (''bytes'', nat_json (bu_bytes res)), (''via'', JStr ''pds'')])
      else
        println title @ println (''  cid:   '' @ bu_cid res) @ println (''  cidv1: '' @ bu_cidv1 res) @
        println (''  bytes: '' @ show_nat (bu_bytes res)))"

definition object_put ::
  "'s machine \<Rightarrow> Client \<Rightarrow> Session \<Rightarrow> string \<Rightarrow> Plane \<Rightarrow> bool \<Rightarrow> Disk \<times> 's \<Rightarrow> ('s, string) run" where
  "object_put M C session path via json_out c =
     sbind (c, with_context (''read '' @ path) (disk_read (fst c) path)) (\<lambda>c body.
     sbind (c, ok_or ''input file has no usable name'' (Option.bind (file_name path) (\<lambda>n. if is_utf8 n then Some n else None))) (\<lambda>c key.
       case via of
         S3 \<Rightarrow> sbind (on_net (put_s3 (mc_net M) (mc_http M) C session key body) c) (\<lambda>c res.
                 (c, Ok (put_result_text (mc_ext M) json_out res)))
       | Pds \<Rightarrow> sbind (on_net (client_upload_blob (mc_ext M) (mc_net M) (mc_cid_text M) (mc_http M) C session body) c) (\<lambda>c res.
                 (c, Ok (blob_upload_text (mc_ext M) json_out ''uploaded via pds (atproto uploadBlob)'' res)))))"

definition object_get ::
  "'s machine \<Rightarrow> Client \<Rightarrow> Session option \<Rightarrow> string \<Rightarrow> string \<Rightarrow> string option \<Rightarrow> Plane \<Rightarrow> bool \<Rightarrow> Disk \<times> 's \<Rightarrow> ('s, string) run" where
  "object_get M C session did cid output via json_out c =
     sbind (on_net (case via of
                      S3 \<Rightarrow> get_s3 (mc_ext M) (mc_http M) C session did cid
                    | Pds \<Rightarrow> client_get_blob (mc_ext M) (mc_net M) (mc_cid_text M) (mc_http M) C session did cid) c) (\<lambda>c res.
       case output of
         Some path \<Rightarrow>
           sbind (on_disk (write_atomic path (gr_bytes res)) c) (\<lambda>c _.
             (c, Ok (if json_out then
                       json_line (mc_ext M) (JObj [(''cid'', JStr cid), (''bytes'', nat_json (length (gr_bytes res))), (''output'', JStr path)])
                     else println (''wrote '' @ show_nat (length (gr_bytes res)) @ '' bytes to '' @ path @ '' (cid verified)''))))
       | None \<Rightarrow>
           (c, case mc_stdout_fails M of Some e \<Rightarrow> Err (''write bytes to stdout: '' @ e) | None \<Rightarrow> Ok (gr_bytes res)))"

definition print_meter :: "ext \<Rightarrow> MeterView \<Rightarrow> bool \<Rightarrow> string" where
  "print_meter X m json_out =
     (if json_out then
        json_line X (JObj [(''receipt_count'', nat_json (mv_receipt_count m)), (''upload_bytes'', nat_json (mv_upload_bytes m)),
          (''download_bytes'', nat_json (mv_download_bytes m)), (''running_total_bytes'', nat_json (mv_running_total_bytes m)),
          (''postage_cents'', nat_json (mv_postage_cents m))])
      else
        println (''receipts:            '' @ show_nat (mv_receipt_count m)) @ println (''upload bytes:        '' @ show_nat (mv_upload_bytes m)) @
        println (''download bytes:      '' @ show_nat (mv_download_bytes m)) @
        println (''running total bytes: '' @ show_nat (mv_running_total_bytes m)) @
        println (''postage (cents):     '' @ show_nat (mv_postage_cents m)))"

definition object_meter :: "'s machine \<Rightarrow> Client \<Rightarrow> Session \<Rightarrow> bool \<Rightarrow> Disk \<times> 's \<Rightarrow> ('s, string) run" where
  "object_meter M C session json_out c =
     sbind (on_net (get_meter (mc_net M) (mc_http M) C session) c) (\<lambda>c m. (c, Ok (print_meter (mc_ext M) m json_out)))"

definition print_usage :: "ext \<Rightarrow> Usage \<Rightarrow> bool \<Rightarrow> string" where
  "print_usage X u json_out =
     (if json_out then
        json_line X (JObj [(''objects'', JArr (map (\<lambda>p. JObj [(''cid'', JStr (uo_cid p)), (''bytes'', nat_json (uo_bytes p))]) (us_objects u))),
          (''total_bytes'', nat_json (us_total_bytes u))])
      else if us_objects u = [] then println ''(no objects stored)''
      else
        concat (map (\<lambda>p. println (pad_left 12 (show_nat (uo_bytes p)) @ ''  '' @ uo_cid p)) (us_objects u)) @
        println (pad_left 12 (show_nat (us_total_bytes u)) @ ''  total ('' @ show_nat (length (us_objects u)) @ '' object'' @
          (if length (us_objects u) = 1 then [] else ''s'') @ '')''))"

definition print_cids :: "ext \<Rightarrow> string list \<Rightarrow> bool \<Rightarrow> string" where
  "print_cids X cids json_out =
     (if json_out then json_line X (JObj [(''cids'', JArr (map JStr cids))])
      else if cids = [] then println ''(no objects stored)''
      else concat (map println cids))"

definition object_ls :: "'s machine \<Rightarrow> Client \<Rightarrow> Session option \<Rightarrow> string \<Rightarrow> bool \<Rightarrow> Disk \<times> 's \<Rightarrow> ('s, string) run" where
  "object_ls M C session did json_out c =
     sbind (on_net (client_list_blobs (mc_ext M) (mc_net M) (mc_cid_text M) (mc_http M) C session did) c) (\<lambda>c cids.
       (c, Ok (print_cids (mc_ext M) cids json_out)))"

section \<open>commands/acl.rs\<close>

definition parse_class :: "(string \<Rightarrow> string) \<Rightarrow> string \<Rightarrow> (ReadClass, string) result" where
  "parse_class debug s =
     (if s = ''world'' then Ok World
      else if s = ''grantees'' then Ok Grantees
      else if s = ''owner'' then Ok OwnerOnly
      else Err (''--class must be world|grantees|owner, got '' @ debug s))"

text \<open>The number after the one the server reports for the current record.\<close>

definition current_seq :: "json option \<Rightarrow> u64" where
  "current_seq current =
     (case Option.bind current (\<lambda>v. de_u64 (value_at (value_at v ''assertion'') ''seq'')) of Some n \<Rightarrow> n | None \<Rightarrow> 0)"

definition following_seq :: "json option \<Rightarrow> (u64, string) result" where
  "following_seq current = (if current_seq current + 1 \<le> u64_max then Ok (current_seq current + 1) else Panic)"

definition record_text :: "ext \<Rightarrow> SignedAssertion \<Rightarrow> bytes" where
  "record_text X a = render (scalar_text X) (assertion_json a)"

definition policy_set_text :: "ext \<Rightarrow> bool \<Rightarrow> string \<Rightarrow> string \<Rightarrow> string \<Rightarrow> u64 \<Rightarrow> string \<Rightarrow> string" where
  "policy_set_text X json_out title cid class seq model =
     (if json_out then
        json_line X (JObj [(''cid'', JStr cid), (''read_class'', JStr class), (''seq'', nat_json seq), (''model'', JStr model)])
      else println (title @ '': '' @ cid @ '' class='' @ class @ '' seq='' @ show_nat seq))"

definition acl_set ::
  "'s machine \<Rightarrow> Client \<Rightarrow> Keypair \<Rightarrow> string \<Rightarrow> string \<Rightarrow> string list \<Rightarrow> bool \<Rightarrow> Disk \<times> 's \<Rightarrow> ('s, string) run" where
  "acl_set M C keypair cid class readers json_out c =
     (let X = mc_ext M; N = mc_net M; H = mc_http M; session = session_for X keypair; did = sn_did session in
      sbind (c, parse_class (mc_debug M) class) (\<lambda>c read_class.
      sbind (on_net (get_object_policy N H C (Some session) did cid) c) (\<lambda>c current.
      sbind (c, following_seq current) (\<lambda>c next_seq.
      let body = \<lparr>pb_read_class = read_class, pb_readers = readers\<rparr>;
          record = sign_owner X POLICY_KIND did (Some cid) next_seq (ser_policy_body body) (policy_body_fold body) keypair in
      sbind (on_net (put_object_policy N H C did cid (record_text X record)) c) (\<lambda>c seq.
        (c, Ok (policy_set_text X json_out ''policy set'' cid class seq ''A'')))))))"

definition acl_set_model_c ::
  "'s machine \<Rightarrow> Client \<Rightarrow> string \<Rightarrow> string \<Rightarrow> string \<Rightarrow> string list \<Rightarrow> string \<times> string \<Rightarrow> bool \<Rightarrow> Disk \<times> 's \<Rightarrow> ('s, string) run" where
  "acl_set_model_c M C owner_did cid class readers tokens json_out c =
     (let X = mc_ext M; N = mc_net M; H = mc_http M in
      sbind (c, parse_class (mc_debug M) class) (\<lambda>c _.
      sbind (on_net (get_object_policy_bearer N H C owner_did cid (fst tokens)) c) (\<lambda>c current.
      sbind (c, following_seq current) (\<lambda>c next_seq.
      let intent = json_text X (JObj [(''seq'', nat_json next_seq),
            (''body'', JObj [(''read_class'', JStr class), (''readers'', JArr (map JStr readers))])]) in
      sbind (on_net (put_object_policy_intent N H C owner_did cid intent (snd tokens)) c) (\<lambda>c seq.
        (c, Ok (policy_set_text X json_out ''policy set (Model C)'' cid class seq ''C'')))))))"

definition policy_text :: "'s machine \<Rightarrow> string \<Rightarrow> bool \<Rightarrow> json option \<Rightarrow> (string, string) result" where
  "policy_text M cid json_out policy =
     (case policy of
        Some v \<Rightarrow> Ok (println (if json_out then json_text (mc_ext M) v else mc_pretty M v))
      | None \<Rightarrow> Err (''no policy on '' @ cid @ '' (or it is not visible to you)''))"

definition acl_get_model_c ::
  "'s machine \<Rightarrow> Client \<Rightarrow> string \<Rightarrow> string \<Rightarrow> string \<Rightarrow> bool \<Rightarrow> Disk \<times> 's \<Rightarrow> ('s, string) run" where
  "acl_get_model_c M C owner_did cid get_token json_out c =
     sbind (on_net (get_object_policy_bearer (mc_net M) (mc_http M) C owner_did cid get_token) c) (\<lambda>c policy.
       (c, policy_text M cid json_out policy))"

definition acl_get :: "'s machine \<Rightarrow> Client \<Rightarrow> Keypair \<Rightarrow> string \<Rightarrow> bool \<Rightarrow> Disk \<times> 's \<Rightarrow> ('s, string) run" where
  "acl_get M C keypair cid json_out c =
     (let session = session_for (mc_ext M) keypair in
      sbind (on_net (get_object_policy (mc_net M) (mc_http M) C (Some session) (sn_did session) cid) c) (\<lambda>c policy.
        (c, policy_text M cid json_out policy)))"

section \<open>The dial commands of main.rs\<close>

definition opt_nat :: "u64 option \<Rightarrow> json" where
  "opt_nat v = (case v of Some n \<Rightarrow> nat_json n | None \<Rightarrow> JNull)"

definition ser_ceiling :: "CeilingDialBody \<Rightarrow> json" where
  "ser_ceiling b = JObj [(''at_rest_bytes'', opt_nat (cd_at_rest_bytes b)), (''spend_cents'', opt_nat (cd_spend_cents b))]"

definition ser_account_mode :: "AccountMode \<Rightarrow> json" where
  "ser_account_mode m = JStr (case m of Active \<Rightarrow> ''active'' | Drawdown \<Rightarrow> ''drawdown'')"

definition ser_receipt_mode :: "ReceiptModeChoice \<Rightarrow> json" where
  "ser_receipt_mode m = JStr (case m of UnilateralChoice \<Rightarrow> ''unilateral'' | BilateralChoice \<Rightarrow> ''bilateral'')"

text \<open>Reading the current setting, and signing and sending the next one.\<close>

definition dial_current :: "'s machine \<Rightarrow> Client \<Rightarrow> Keypair \<Rightarrow> string \<Rightarrow> Disk \<times> 's \<Rightarrow> ('s, json option) run" where
  "dial_current M C keypair kind c =
     (let session = session_for (mc_ext M) keypair in
      on_net (client_get_assertion (mc_net M) (mc_http M) C (Some session) (sn_did session) kind None) c)"

definition dial_assert ::
  "'s machine \<Rightarrow> Client \<Rightarrow> Keypair \<Rightarrow> string \<Rightarrow> json option \<Rightarrow> json \<Rightarrow> string \<Rightarrow> Disk \<times> 's \<Rightarrow> ('s, u64 \<times> json) run" where
  "dial_assert M C keypair kind current body body_fold c =
     (let X = mc_ext M; did = derive_id X (keypair_verifying_key X keypair) in
      sbind (c, following_seq current) (\<lambda>c next_seq.
        on_net (client_put_assertion (mc_net M) (mc_http M) C did kind None
          (record_text X (sign_owner X kind did None next_seq body body_fold keypair))) c))"

definition debug_opt :: "u64 option \<Rightarrow> string" where
  "debug_opt v = (case v of Some n \<Rightarrow> ''Some('' @ show_nat n @ '')'' | None \<Rightarrow> ''None'')"

definition ceiling_shown :: "ext \<Rightarrow> bool \<Rightarrow> json option \<Rightarrow> string" where
  "ceiling_shown X json_out current =
     (case current of
        None \<Rightarrow> println ''ceiling dial: none asserted''
      | Some v \<Rightarrow>
          if json_out then json_line X v
          else
            let body = value_at (value_at v ''assertion'') ''body'' in
            println (''ceiling dial: at_rest='' @ json_text X (value_at body ''at_rest_bytes'') @ '' spend_cents='' @
              json_text X (value_at body ''spend_cents'') @ '' (seq '' @ show_nat (current_seq current) @ ''; ack held)''))"

text \<open>Setting one half keeps the other half's current value.\<close>

definition next_ceiling :: "json option \<Rightarrow> u64 option \<Rightarrow> u64 option \<Rightarrow> bool \<Rightarrow> CeilingDialBody" where
  "next_ceiling current at_rest spend clear =
     (let existing = (\<lambda>k. Option.bind current (\<lambda>v. de_u64 (value_at (value_at (value_at v ''assertion'') ''body'') k))) in
      if clear then \<lparr>cd_at_rest_bytes = None, cd_spend_cents = None\<rparr>
      else \<lparr>cd_at_rest_bytes = (case at_rest of Some n \<Rightarrow> Some n | None \<Rightarrow> existing ''at_rest_bytes''),
            cd_spend_cents = (case spend of Some n \<Rightarrow> Some n | None \<Rightarrow> existing ''spend_cents'')\<rparr>)"

definition dial_ceiling ::
  "'s machine \<Rightarrow> Client \<Rightarrow> bool \<Rightarrow> Config \<Rightarrow> u64 option \<Rightarrow> u64 option \<Rightarrow> bool \<Rightarrow> Disk \<times> 's \<Rightarrow> ('s, string) run" where
  "dial_ceiling M C json_out cfg at_rest spend clear c =
     sbind (c, load_keypair (mc_ext M) (mc_hex_error M) (fst c) cfg) (\<lambda>c keypair.
     sbind (dial_current M C keypair CEILING_DIAL_KIND c) (\<lambda>c current.
       if at_rest = None \<and> spend = None \<and> \<not> clear then (c, Ok (ceiling_shown (mc_ext M) json_out current))
       else
         let body = next_ceiling current at_rest spend clear in
         sbind (dial_assert M C keypair CEILING_DIAL_KIND current (ser_ceiling body) (ceiling_body_fold body) c) (\<lambda>c (seq, ack).
           (c, Ok (if json_out then
                     json_line (mc_ext M) (JObj [(''seq'', nat_json seq), (''ack'', ack), (''at_rest_bytes'', opt_nat (cd_at_rest_bytes body)),
                       (''spend_cents'', opt_nat (cd_spend_cents body))])
                   else println (''ceiling dial asserted: at_rest='' @ debug_opt (cd_at_rest_bytes body) @ '' spend_cents='' @
                     debug_opt (cd_spend_cents body) @ '' (seq '' @ show_nat seq @ ''; ack received)''))))))"

definition dial_period :: "'s machine \<Rightarrow> Client \<Rightarrow> bool \<Rightarrow> Config \<Rightarrow> Disk \<times> 's \<Rightarrow> ('s, string) run" where
  "dial_period M C json_out cfg c =
     sbind (c, load_keypair (mc_ext M) (mc_hex_error M) (fst c) cfg) (\<lambda>c keypair.
     sbind (dial_current M C keypair PERIOD_DIAL_KIND c) (\<lambda>c current.
     sbind (dial_assert M C keypair PERIOD_DIAL_KIND current (JObj []) PERIOD_BODY_FOLD c) (\<lambda>c (seq, ack).
       (c, Ok (if json_out then json_line (mc_ext M) (JObj [(''period'', nat_json seq), (''ack'', ack)])
               else println (''spend period '' @ show_nat seq @ '' started (baseline snapshotted; ack received)''))))))"

definition dial_account_mode :: "'s machine \<Rightarrow> Client \<Rightarrow> bool \<Rightarrow> Config \<Rightarrow> bool \<Rightarrow> bool \<Rightarrow> Disk \<times> 's \<Rightarrow> ('s, string) run" where
  "dial_account_mode M C json_out cfg drawdown active c =
     (if drawdown = active then (c, Err ''pass exactly one of --drawdown | --active'')
      else
        sbind (c, load_keypair (mc_ext M) (mc_hex_error M) (fst c) cfg) (\<lambda>c keypair.
        sbind (dial_current M C keypair ACCOUNT_MODE_DIAL_KIND c) (\<lambda>c current.
        let mode = (if drawdown then Drawdown else Active) in
        sbind (dial_assert M C keypair ACCOUNT_MODE_DIAL_KIND current (JObj [(''mode'', ser_account_mode mode)])
            (account_mode_body_fold \<lparr>am_mode = mode\<rparr>) c) (\<lambda>c (seq, ack).
          (c, Ok (if json_out then
                    json_line (mc_ext M) (JObj [(''mode'', ser_account_mode mode), (''seq'', nat_json seq), (''ack'', ack)])
                  else println (''account mode: '' @ (if drawdown then ''drawdown (books closed; egress serves)'' else ''active'') @
                    '' (seq '' @ show_nat seq @ ''; ack received)'')))))))"

definition dial_receipt_mode :: "'s machine \<Rightarrow> Client \<Rightarrow> bool \<Rightarrow> Config \<Rightarrow> bool \<Rightarrow> bool \<Rightarrow> Disk \<times> 's \<Rightarrow> ('s, string) run" where
  "dial_receipt_mode M C json_out cfg bilateral unilateral c =
     (if bilateral = unilateral then (c, Err ''pass exactly one of --bilateral | --unilateral'')
      else
        sbind (c, load_keypair (mc_ext M) (mc_hex_error M) (fst c) cfg) (\<lambda>c keypair.
        sbind (dial_current M C keypair RECEIPT_MODE_DIAL_KIND c) (\<lambda>c current.
        let mode = (if bilateral then BilateralChoice else UnilateralChoice) in
        sbind (dial_assert M C keypair RECEIPT_MODE_DIAL_KIND current (JObj [(''mode'', ser_receipt_mode mode)])
            (receipt_mode_body_fold \<lparr>rm_mode = mode\<rparr>) c) (\<lambda>c (seq, ack).
          (c, Ok (if json_out then
                    json_line (mc_ext M) (JObj [(''mode'', ser_receipt_mode mode), (''seq'', nat_json seq), (''ack'', ack)])
                  else println (''receipt mode: '' @ (if bilateral then ''bilateral (countersign each receipt)'' else ''unilateral'') @
                    '' (seq '' @ show_nat seq @ ''; ack received)'')))))))"

definition dial_countersign :: "'s machine \<Rightarrow> Client \<Rightarrow> bool \<Rightarrow> Config \<Rightarrow> string \<Rightarrow> Disk \<times> 's \<Rightarrow> ('s, string) run" where
  "dial_countersign M C json_out cfg hash c =
     (let X = mc_ext M in
      sbind (c, load_keypair X (mc_hex_error M) (fst c) cfg) (\<lambda>c keypair.
      let session = session_for X keypair in
      sbind (on_net (client_countersign X (mc_net M) (mc_http M) C session (sn_did session) hash (sign_message X keypair hash)) c) (\<lambda>c completed.
        (c, Ok (if json_out then json_line X completed
                else println (''receipt '' @ hash @ '' countersigned '' @ EM_DASH @ '' '' @
                  show_nat (case to_value (value_at completed ''sigs'') of JObj kvs \<Rightarrow> length kvs | _ \<Rightarrow> 0) @
                  '' signatures (doubly-signed fact)''))))))"

end
