(* ===== verification/Mesh.thy ===== *)
theory Mesh
  imports Sync_Laws Store_Laws
begin

text \<open>
  The peer-to-peer transport, \<^verbatim>\<open>ciss-iroh/src/lib.rs\<close> and \<^verbatim>\<open>mesh.rs\<close>: the index from SHA-256 addresses to
  BLAKE3 ones, the peer that fetches by BLAKE3 and checks the SHA-256 digest, the composition with an
  origin, and the mesh, where devices announce their heads by gossip and the newest counter wins. The
  iroh libraries are the record \<open>iroh\<close> over a state of their own: the blob store, the downloader, the address
  book, gossip and the JSON text of an announcement. Gossip is handled between two transport calls.
\<close>

section \<open>lib.rs\<close>

record 'a Announcement =
  an_kind :: string
  an_device_id :: string
  an_counter :: u64
  an_head_sha256 :: string
  an_head_blake3 :: Hash32
  an_fs_root_sha256 :: string
  an_fs_root_blake3 :: Hash32
  an_addr :: 'a

text \<open>\<open>ir_alias_fails\<close>: the durable write of an alias fails, which is only logged.\<close>

record ('s, 'a) iroh =
  ir_add_bytes :: "'s \<Rightarrow> bytes \<Rightarrow> 's \<times> (string + Hash32)"
  ir_has :: "'s \<Rightarrow> Hash32 \<Rightarrow> 's \<times> (string + bool)"
  ir_download :: "'s \<Rightarrow> Hash32 \<Rightarrow> string list \<Rightarrow> 's \<times> (string + unit)"
  ir_get_bytes :: "'s \<Rightarrow> Hash32 \<Rightarrow> 's \<times> (string + bytes)"
  ir_add_endpoint :: "'s \<Rightarrow> 'a \<Rightarrow> 's"
  ir_addr :: "'s \<Rightarrow> 'a"
  ir_broadcast :: "'s \<Rightarrow> bytes \<Rightarrow> 's \<times> (string + unit)"
  ir_alias_fails :: "'s \<Rightarrow> string \<Rightarrow> bool"
  ir_addr_id :: "'a \<Rightarrow> string"
  ir_ann_text :: "'a Announcement \<Rightarrow> string + bytes"
  ir_ann_parse :: "bytes \<Rightarrow> 'a Announcement option"

record Mapping =
  mp_blake3 :: Hash32
  mp_providers :: "string list"
  mp_local :: bool

record 's IrohPeer =
  ip_index :: "(string \<times> Mapping) list"
  ip_aliases :: "AliasStore option"
  ip_net :: 's

definition iroh_err :: "string \<Rightarrow> string \<Rightarrow> SyncError" where
  "iroh_err ctx e = STransport (''iroh '' @ ctx @ '': '' @ e)"

text \<open>A call into the iroh libraries, its error mapped.\<close>

definition on_iroh :: "('s \<Rightarrow> 's \<times> (string + 'b)) \<Rightarrow> string \<Rightarrow> 's IrohPeer \<Rightarrow> 's IrohPeer \<times> ('b, SyncError) result" where
  "on_iroh f ctx p =
     (case f (ip_net p) of
        (s, Inl e) \<Rightarrow> (p\<lparr>ip_net := s\<rparr>, Err (iroh_err ctx e))
      | (s, Inr b) \<Rightarrow> (p\<lparr>ip_net := s\<rparr>, Ok b))"

definition write_alias :: "('s, 'a) iroh \<Rightarrow> 's IrohPeer \<Rightarrow> string \<Rightarrow> Hash32 \<Rightarrow> 's IrohPeer" where
  "write_alias I p cid h =
     (case ip_aliases p of
        Some al \<Rightarrow> if ir_alias_fails I (ip_net p) cid then p else p\<lparr>ip_aliases := Some (alias_set al cid h)\<rparr>
      | None \<Rightarrow> p)"

definition add_provider :: "string \<Rightarrow> Mapping \<Rightarrow> Mapping" where
  "add_provider ep m = (if ep \<in> set (mp_providers m) then m else m\<lparr>mp_providers := mp_providers m @ [ep]\<rparr>)"

definition register_mapping ::
  "('s, 'a) iroh \<Rightarrow> 's IrohPeer \<Rightarrow> string \<Rightarrow> Hash32 \<Rightarrow> 'a option \<Rightarrow> 's IrohPeer" where
  "register_mapping I p cid h provider =
     (let p1 = (case provider of Some addr \<Rightarrow> p\<lparr>ip_net := ir_add_endpoint I (ip_net p) addr\<rparr> | None \<Rightarrow> p);
          p2 = write_alias I p1 cid h;
          entry = (case map_of (ip_index p2) cid of
                     Some m \<Rightarrow> m | None \<Rightarrow> \<lparr>mp_blake3 = h, mp_providers = [], mp_local = False\<rparr>);
          entry' = (case provider of Some addr \<Rightarrow> add_provider (ir_addr_id I addr) entry | None \<Rightarrow> entry)
      in p2\<lparr>ip_index := AList.update cid entry' (ip_index p2)\<rparr>)"

definition learn :: "('s, 'a) iroh \<Rightarrow> 's IrohPeer \<Rightarrow> string \<Rightarrow> Hash32 \<Rightarrow> 'a \<Rightarrow> 's IrohPeer \<times> (unit, SyncError) result" where
  "learn I p cid h provider = (register_mapping I p cid h (Some provider), Ok ())"

definition mark_local :: "'s IrohPeer \<Rightarrow> string \<Rightarrow> 's IrohPeer" where
  "mark_local p cid =
     (case map_of (ip_index p) cid of
        Some m \<Rightarrow> p\<lparr>ip_index := AList.update cid (m\<lparr>mp_local := True\<rparr>) (ip_index p)\<rparr>
      | None \<Rightarrow> p)"

definition peer_have :: "'s IrohPeer \<Rightarrow> 's IrohPeer \<times> (string list, SyncError) result" where
  "peer_have p = (p, Ok (map fst (filter (\<lambda>(_, m). mp_local m) (ip_index p))))"

definition peer_put ::
  "ext \<Rightarrow> ('s, 'a) iroh \<Rightarrow> 's IrohPeer \<Rightarrow> string \<Rightarrow> bytes \<Rightarrow> 's IrohPeer \<times> (unit, SyncError) result" where
  "peer_put X I p cid bs =
     (if digest_hex X bs \<noteq> cid then (p, Err (CidMismatch cid (digest_hex X bs)))
      else sbind (on_iroh (\<lambda>s. ir_add_bytes I s bs) ''add_bytes'' p) (\<lambda>p tag.
        let p1 = write_alias I p cid tag;
            entry = (case map_of (ip_index p1) cid of
                       Some m \<Rightarrow> m\<lparr>mp_blake3 := tag, mp_local := True\<rparr>
                     | None \<Rightarrow> \<lparr>mp_blake3 = tag, mp_providers = [], mp_local = True\<rparr>)
        in (p1\<lparr>ip_index := AList.update cid entry (ip_index p1)\<rparr>, Ok ())))"

definition ARROW :: string where "ARROW = [CHR 0xE2, CHR 0x86, CHR 0x92]"

definition peer_get ::
  "ext \<Rightarrow> ('s, 'a) iroh \<Rightarrow> 's IrohPeer \<Rightarrow> string \<Rightarrow> 's IrohPeer \<times> (bytes, SyncError) result" where
  "peer_get X I p cid =
     (case map_of (ip_index p) cid of
        None \<Rightarrow> (p, Err (STransport (''no sha256'' @ ARROW @ ''blake3 mapping for '' @ cid)))
      | Some m \<Rightarrow>
          sbind (on_iroh (\<lambda>s. ir_has I s (mp_blake3 m)) ''has'' p) (\<lambda>p held.
          sbind (if held then (p, Ok ())
                 else on_iroh (\<lambda>s. ir_download I s (mp_blake3 m) (mp_providers m)) (''download '' @ cid) p) (\<lambda>p _.
          sbind (on_iroh (\<lambda>s. ir_get_bytes I s (mp_blake3 m)) ''get_bytes'' p) (\<lambda>p bs.
            if digest_hex X bs \<noteq> cid then (p, Err (CidMismatch cid (digest_hex X bs)))
            else (mark_local p cid, Ok bs)))))"

text \<open>Reads from the peer first, everything else on the origin.\<close>

definition peer_first :: "ext \<Rightarrow> ('s, 'a) iroh \<Rightarrow> 'o remote \<Rightarrow> ('s IrohPeer \<times> 'o) remote" where
  "peer_first X I R =
     \<lparr>rm_have = (\<lambda>(p, s). case rm_have R s of (s', r) \<Rightarrow> ((p, s'), r)),
       rm_put = (\<lambda>(p, s) cid bs. case rm_put R s cid bs of (s', r) \<Rightarrow> ((p, s'), r)),
       rm_get = (\<lambda>(p, s) cid.
          case peer_get X I p cid of
            (p', Ok bs) \<Rightarrow> ((p', s), Ok bs)
          | (p', Panic) \<Rightarrow> ((p', s), Panic)
          | (p', Err _) \<Rightarrow> (case rm_get R s cid of (s', r) \<Rightarrow> ((p', s'), r))),
       rm_metered = rm_metered R,
       rm_current_seq = (\<lambda>(p, s). case rm_current_seq R s of (s', r) \<Rightarrow> ((p, s'), r)),
       rm_keep_set = (\<lambda>(p, s). case rm_keep_set R s of (s', r) \<Rightarrow> ((p, s'), r)),
       rm_frontier = (\<lambda>(p, s). case rm_frontier R s of (s', r) \<Rightarrow> ((p, s'), r)),
       rm_commit_keep_set = (\<lambda>(p, s) leaves seq. case rm_commit_keep_set R s leaves seq of (s', r) \<Rightarrow> ((p, s'), r)),
       rm_commit_frontier = (\<lambda>(p, s) leaves seq heads. case rm_commit_frontier R s leaves seq heads of (s', r) \<Rightarrow> ((p, s'), r)),
       rm_keypair = rm_keypair R\<rparr>"

datatype 'u RelayMode = RelayDisabled | RelayCustom 'u

definition relay_mode ::
  "(string \<Rightarrow> string) \<Rightarrow> (string \<Rightarrow> string + 'u) \<Rightarrow> string option \<Rightarrow> ('u RelayMode, SyncError) result" where
  "relay_mode dbg parse_url relay =
     (case relay of
        None \<Rightarrow> Ok RelayDisabled
      | Some url \<Rightarrow>
          (case parse_url url of
             Inl e \<Rightarrow> Err (SDecode (''relay url '' @ dbg url @ '': '' @ e))
           | Inr u \<Rightarrow> Ok (RelayCustom u)))"

section \<open>mesh.rs\<close>

definition ANNOUNCE_KIND :: string where "ANNOUNCE_KIND = ''croft.sync-announce/v1''"
definition TOPIC_DOMAIN :: string where "TOPIC_DOMAIN = ''croft.sync-topic/v1:''"

record SlotState =
  sl_seq :: "u64 option"
  sl_leaves :: "(string \<times> u64) list"
  sl_own_head :: "(string \<times> string) option"
  sl_remote :: "(u64 \<times> string) btree"

definition slot_default :: SlotState where
  "slot_default = \<lparr>sl_seq = None, sl_leaves = [], sl_own_head = None, sl_remote = []\<rparr>"

definition merge_announcement :: "SlotState \<Rightarrow> string \<Rightarrow> u64 \<Rightarrow> string \<Rightarrow> SlotState \<times> bool" where
  "merge_announcement slot device counter head_cid =
     (case bt_get (sl_remote slot) device of
        Some (have_counter, _) \<Rightarrow>
          if have_counter \<ge> counter then (slot, False)
          else (slot\<lparr>sl_remote := bt_insert device (counter, head_cid) (sl_remote slot)\<rparr>, True)
      | None \<Rightarrow> (slot\<lparr>sl_remote := bt_insert device (counter, head_cid) (sl_remote slot)\<rparr>, True))"

definition topic_for :: "ext \<Rightarrow> Keypair \<Rightarrow> Hash32" where
  "topic_for X keypair = sha256 X (TOPIC_DOMAIN @ keypair_verifying_key X keypair)"

text \<open>Tickets, over the address's JSON text and URL-safe base64.\<close>

definition ticket_for :: "('a \<Rightarrow> string + bytes) \<Rightarrow> (bytes \<Rightarrow> string) \<Rightarrow> 'a \<Rightarrow> (string, SyncError) result" where
  "ticket_for addr_text b64 addr =
     (case addr_text addr of Inl e \<Rightarrow> Err (SEncode (''ticket: '' @ e)) | Inr json \<Rightarrow> Ok (b64 json))"

definition addr_from_ticket ::
  "(string \<Rightarrow> string + bytes) \<Rightarrow> (bytes \<Rightarrow> string + 'a) \<Rightarrow> string \<Rightarrow> ('a, SyncError) result" where
  "addr_from_ticket unb64 addr_parse ticket =
     (case unb64 (trim ticket) of
        Inl e \<Rightarrow> Err (SDecode (''ticket base64: '' @ e))
      | Inr json \<Rightarrow>
          (case addr_parse json of
             Inl e \<Rightarrow> Err (SDecode (''ticket json: '' @ e))
           | Inr addr \<Rightarrow> Ok addr))"

record ('s, 'a) MeshPeer =
  me_peer :: "'s IrohPeer"
  me_slot :: SlotState
  me_last_announce :: "'a Announcement option"
  me_listening :: bool

definition mesh_on_peer ::
  "('s IrohPeer \<Rightarrow> 's IrohPeer \<times> ('b, SyncError) result) \<Rightarrow> ('s, 'a) MeshPeer \<Rightarrow> ('s, 'a) MeshPeer \<times> ('b, SyncError) result" where
  "mesh_on_peer f M = (case f (me_peer M) of (p, r) \<Rightarrow> (M\<lparr>me_peer := p\<rparr>, r))"

text \<open>The part of \<open>spawn\<close> that fills the index from the durable aliases.\<close>

fun rehydrate ::
  "('s, 'a) iroh \<Rightarrow> (string \<times> Hash32) list \<Rightarrow> 's IrohPeer \<Rightarrow> 's IrohPeer \<times> (unit, SyncError) result" where
  "rehydrate I [] p = (p, Ok ())"
| "rehydrate I ((cid, h) # rows) p =
     sbind (on_iroh (\<lambda>s. ir_has I s h) ''has'' p) (\<lambda>p held.
       let entry = (case map_of (ip_index p) cid of
                      Some m \<Rightarrow> m | None \<Rightarrow> \<lparr>mp_blake3 = h, mp_providers = [], mp_local = held\<rparr>)
       in rehydrate I rows (p\<lparr>ip_index := AList.update cid entry (ip_index p)\<rparr>))"

definition mesh_spawn ::
  "('s, 'a) iroh \<Rightarrow> AliasStore option \<Rightarrow> 'a list \<Rightarrow> 's \<Rightarrow> ('s, 'a) MeshPeer \<times> (unit, SyncError) result" where
  "mesh_spawn I aliases bootstrap s =
     (let p = \<lparr>ip_index = [], ip_aliases = aliases, ip_net = s\<rparr>;
          mesh = (\<lambda>p. \<lparr>me_peer = p, me_slot = slot_default, me_last_announce = None, me_listening = True\<rparr>);
          start = (\<lambda>p. p\<lparr>ip_net := fold (\<lambda>a s. ir_add_endpoint I s a) bootstrap (ip_net p)\<rparr>)
      in case aliases of
           None \<Rightarrow> (mesh (start p), Ok ())
         | Some al \<Rightarrow>
             (case alias_all al of
                Ok rows \<Rightarrow> (case rehydrate I rows p of (p', r) \<Rightarrow> (if is_ok r then mesh (start p') else mesh p', r))
              | Err e \<Rightarrow> (mesh p, Err e)
              | Panic \<Rightarrow> (mesh p, Panic)))"

definition ingest :: "('s, 'a) iroh \<Rightarrow> ('s, 'a) MeshPeer \<Rightarrow> 'a Announcement \<Rightarrow> ('s, 'a) MeshPeer \<times> bool" where
  "ingest I M ann =
     (let p1 = register_mapping I (me_peer M) (an_head_sha256 ann) (an_head_blake3 ann) (Some (an_addr ann));
          p2 = register_mapping I p1 (an_fs_root_sha256 ann) (an_fs_root_blake3 ann) (Some (an_addr ann))
      in case merge_announcement (me_slot M) (an_device_id ann) (an_counter ann) (an_head_sha256 ann) of
           (slot, b) \<Rightarrow> (M\<lparr>me_peer := p2, me_slot := slot\<rparr>, b))"

datatype GossipEvent = Received bytes | NeighborUp | NeighborDown | Lagged | StreamError

definition re_announce :: "('s, 'a) iroh \<Rightarrow> ('s, 'a) MeshPeer \<Rightarrow> ('s, 'a) MeshPeer" where
  "re_announce I M =
     (case me_last_announce M of
        None \<Rightarrow> M
      | Some ann \<Rightarrow>
          (case ir_ann_text I ann of
             Inl _ \<Rightarrow> M
           | Inr bs \<Rightarrow>
               M\<lparr>me_peer := (me_peer M)\<lparr>ip_net := fst (ir_broadcast I (ip_net (me_peer M)) bs)\<rparr>\<rparr>))"

fun receive_loop :: "('s, 'a) iroh \<Rightarrow> GossipEvent list \<Rightarrow> ('s, 'a) MeshPeer \<Rightarrow> ('s, 'a) MeshPeer" where
  "receive_loop I [] M = M"
| "receive_loop I (Received bs # es) M =
     (case ir_ann_parse I bs of
        None \<Rightarrow> receive_loop I es M
      | Some ann \<Rightarrow>
          if an_kind ann \<noteq> ANNOUNCE_KIND then receive_loop I es M
          else receive_loop I es (fst (ingest I M ann)))"
| "receive_loop I (NeighborUp # es) M = receive_loop I es (re_announce I M)"
| "receive_loop I (NeighborDown # es) M = receive_loop I es M"
| "receive_loop I (Lagged # es) M = receive_loop I es M"
| "receive_loop I (StreamError # es) M = M\<lparr>me_listening := False\<rparr>"

text \<open>\<open>await_devices\<close> reads the slot and then the clock, again and again: \<open>None\<close> when it still waits after the
  given readings.\<close>

definition known_devices :: "string \<Rightarrow> SlotState \<Rightarrow> nat" where
  "known_devices device slot = length (filter (\<lambda>d. d \<noteq> device) (map fst (sl_remote slot)))"

fun await_devices :: "string \<Rightarrow> nat \<Rightarrow> nat \<Rightarrow> (SlotState \<times> nat) list \<Rightarrow> (unit, SyncError) result option" where
  "await_devices device n deadline [] = None"
| "await_devices device n deadline ((slot, now) # rs) =
     (let known = known_devices device slot in
      if known \<ge> n then Some (Ok ())
      else if now \<ge> deadline
        then Some (Err (STransport (''timed out waiting for '' @ show_nat n @ '' peer device(s); '' @ show_nat known @ '' known'')))
      else await_devices device n deadline rs)"

definition announcement_for ::
  "ext \<Rightarrow> sync_ext \<Rightarrow> ('s, 'a) iroh \<Rightarrow> Keypair \<Rightarrow> string \<Rightarrow> string \<Rightarrow> ('s, 'a) MeshPeer \<Rightarrow>
   ('s, 'a) MeshPeer \<times> ('a Announcement, SyncError) result" where
  "announcement_for X Y I keypair device head_cid M =
     sbind (mesh_on_peer (\<lambda>p. peer_get X I p head_cid) M) (\<lambda>M head_bytes.
     sbind (M, decode_verified X Y head_bytes (keypair_verifying_key X keypair)) (\<lambda>M head.
     let blake3_of = (\<lambda>cid. case map_of (ip_index (me_peer M)) cid of
            Some m \<Rightarrow> Ok (mp_blake3 m)
          | None \<Rightarrow> Err (STransport (''no blake3 alias for '' @ cid @ '' at announce time''))) in
     sbind (M, blake3_of head_cid) (\<lambda>M hb.
     sbind (M, blake3_of (dh_fs_root head)) (\<lambda>M fb.
       (M, Ok \<lparr>an_kind = ANNOUNCE_KIND, an_device_id = device, an_counter = dh_counter head, an_head_sha256 = head_cid,
               an_head_blake3 = hb, an_fs_root_sha256 = dh_fs_root head, an_fs_root_blake3 = fb,
               an_addr = ir_addr I (ip_net (me_peer M))\<rparr>)))))"

text \<open>A fetched tree teaches the addresses of its chunks, with the tree's providers.\<close>

definition prime_chunk :: "('s, 'a) iroh \<Rightarrow> string list \<Rightarrow> ChunkRef \<Rightarrow> 's IrohPeer \<Rightarrow> 's IrohPeer" where
  "prime_chunk I providers c p =
     (let p1 = register_mapping I p (ref_hex c) (cr_blake3 c) None in
      case map_of (ip_index p1) (ref_hex c) of
        Some m \<Rightarrow> p1\<lparr>ip_index := AList.update (ref_hex c) (fold add_provider providers m) (ip_index p1)\<rparr>
      | None \<Rightarrow> p1)"

definition prime :: "('s, 'a) iroh \<Rightarrow> string \<Rightarrow> FsManifest \<Rightarrow> 's IrohPeer \<Rightarrow> 's IrohPeer" where
  "prime I cid m p =
     (let providers = (case map_of (ip_index p) cid of Some q \<Rightarrow> mp_providers q | None \<Rightarrow> []) in
      fold (prime_chunk I providers) (concat (map (\<lambda>(_, e). fe_chunks e) (fm_entries m))) p)"

definition mesh_get ::
  "ext \<Rightarrow> sync_ext \<Rightarrow> ('s, 'a) iroh \<Rightarrow> ('s, 'a) MeshPeer \<Rightarrow> string \<Rightarrow> ('s, 'a) MeshPeer \<times> (bytes, SyncError) result" where
  "mesh_get X Y I M cid =
     sbind (mesh_on_peer (\<lambda>p. peer_get X I p cid) M) (\<lambda>M bs.
       (case dagcbor_decode Y bs of
          Ok m \<Rightarrow> (if fm_kind m = FS_MANIFEST_KIND then M\<lparr>me_peer := prime I cid m (me_peer M)\<rparr> else M, Ok bs)
        | _ \<Rightarrow> (M, Ok bs)))"

definition mesh_frontier :: "SlotState \<Rightarrow> FrontierView option" where
  "mesh_frontier slot =
     (if sl_seq slot = None \<and> sl_remote slot = [] then None
      else
        let heads = map (\<lambda>(d, _, cid). (d, cid)) (sl_remote slot);
            heads' = (case sl_own_head slot of Some (dev, cid) \<Rightarrow> bt_insert dev cid heads | None \<Rightarrow> heads)
        in Some \<lparr>fv_seq = (case sl_seq slot of Some n \<Rightarrow> n | None \<Rightarrow> 0), fv_heads = heads', fv_leaves = sl_leaves slot\<rparr>)"

definition stale_for :: "u64 \<Rightarrow> SlotState \<Rightarrow> bool" where
  "stale_for seq slot \<longleftrightarrow> (case sl_seq slot of Some cur \<Rightarrow> seq \<le> cur | None \<Rightarrow> False)"

definition mesh_commit_keep_set ::
  "('s, 'a) MeshPeer \<Rightarrow> (string \<times> u64) list \<Rightarrow> u64 \<Rightarrow> ('s, 'a) MeshPeer \<times> (unit, SyncError) result" where
  "mesh_commit_keep_set M leaves seq =
     (if stale_for seq (me_slot M) then (M, Err (StaleSeq seq))
      else (M\<lparr>me_slot := (me_slot M)\<lparr>sl_seq := Some seq, sl_leaves := leaves\<rparr>\<rparr>, Ok ()))"

definition mesh_commit_frontier ::
  "ext \<Rightarrow> sync_ext \<Rightarrow> ('s, 'a) iroh \<Rightarrow> Keypair \<Rightarrow> string \<Rightarrow> ('s, 'a) MeshPeer \<Rightarrow> (string \<times> u64) list \<Rightarrow> u64 \<Rightarrow> string btree \<Rightarrow>
   ('s, 'a) MeshPeer \<times> (unit, SyncError) result" where
  "mesh_commit_frontier X Y I keypair device M leaves seq heads =
     (case bt_get heads device of
        None \<Rightarrow> (M, Err (STransport (''frontier commit without a head for this device ('' @ device @ '')'')))
      | Some own_head \<Rightarrow>
          if stale_for seq (me_slot M) then (M, Err (StaleSeq seq))
          else
            let M1 = M\<lparr>me_slot := (me_slot M)\<lparr>sl_seq := Some seq, sl_leaves := leaves, sl_own_head := Some (device, own_head)\<rparr>\<rparr> in
            sbind (announcement_for X Y I keypair device own_head M1) (\<lambda>M ann.
              case ir_ann_text I ann of
                Inl e \<Rightarrow> (M, Err (SEncode (''announcement: '' @ e)))
              | Inr bs \<Rightarrow>
                  mesh_on_peer (on_iroh (\<lambda>s. ir_broadcast I s bs) ''announce broadcast'') (M\<lparr>me_last_announce := Some ann\<rparr>)))"

text \<open>The engine's view: before each call the gossip that arrived since the last one is handled.\<close>

definition hear :: "('s, 'a) iroh \<Rightarrow> (nat \<Rightarrow> GossipEvent list) \<Rightarrow> ('s, 'a) MeshPeer \<times> nat \<Rightarrow> ('s, 'a) MeshPeer" where
  "hear I E q = (if me_listening (fst q) then receive_loop I (E (snd q)) (fst q) else fst q)"

definition heard ::
  "('s, 'a) iroh \<Rightarrow> (nat \<Rightarrow> GossipEvent list) \<Rightarrow> (('s, 'a) MeshPeer \<Rightarrow> ('s, 'a) MeshPeer \<times> 'b) \<Rightarrow> ('s, 'a) MeshPeer \<times> nat \<Rightarrow>
   (('s, 'a) MeshPeer \<times> nat) \<times> 'b" where
  "heard I E f q = (case f (hear I E q) of (M, r) \<Rightarrow> ((M, snd q + 1), r))"

definition mesh_remote ::
  "ext \<Rightarrow> sync_ext \<Rightarrow> ('s, 'a) iroh \<Rightarrow> (nat \<Rightarrow> GossipEvent list) \<Rightarrow> Keypair \<Rightarrow> string \<Rightarrow> (('s, 'a) MeshPeer \<times> nat) remote" where
  "mesh_remote X Y I E keypair device =
     \<lparr>rm_have = heard I E (mesh_on_peer peer_have),
      rm_put = (\<lambda>q cid bs. heard I E (mesh_on_peer (\<lambda>p. peer_put X I p cid bs)) q),
      rm_get = (\<lambda>q cid. heard I E (\<lambda>M. mesh_get X Y I M cid) q),
      rm_metered = False,
      rm_current_seq = heard I E (\<lambda>M. (M, Ok (sl_seq (me_slot M)))),
      rm_keep_set = heard I E (\<lambda>M. (M, Ok (map_option (\<lambda>_. sl_leaves (me_slot M)) (sl_seq (me_slot M))))),
      rm_frontier = heard I E (\<lambda>M. (M, Ok (mesh_frontier (me_slot M)))),
      rm_commit_keep_set = (\<lambda>q leaves seq. heard I E (\<lambda>M. mesh_commit_keep_set M leaves seq) q),
      rm_commit_frontier = (\<lambda>q leaves seq heads. heard I E (\<lambda>M. mesh_commit_frontier X Y I keypair device M leaves seq heads) q),
      rm_keypair = keypair\<rparr>"

section \<open>Blobs are checked\<close>

lemma on_iroh_index: "on_iroh f ctx p = (p', r) \<Longrightarrow> ip_index p' = ip_index p \<and> ip_aliases p' = ip_aliases p \<and> ip_net p' = fst (f (ip_net p))"
  by (auto simp: on_iroh_def split: prod.splits sum.splits)

lemma on_iroh_Ok: "on_iroh f ctx p = (p', Ok b) \<longleftrightarrow> (\<exists>s. f (ip_net p) = (s, Inr b) \<and> p' = p\<lparr>ip_net := s\<rparr>)"
  by (auto simp: on_iroh_def split: prod.splits sum.splits)

text \<open>Whatever the index, the aliases and the providers say, bytes a peer read returns have the asked digest.\<close>

lemma peer_get_verified: "peer_get X I p cid = (p', Ok bs) \<Longrightarrow> digest_hex X bs = cid"
  by (auto simp: peer_get_def sbind_Ok split: option.splits if_splits)

lemma mesh_get_verified: "mesh_get X Y I M cid = (M', Ok bs) \<Longrightarrow> digest_hex X bs = cid"
proof -
  assume g: "mesh_get X Y I M cid = (M', Ok bs)"
  obtain p r where r: "peer_get X I (me_peer M) cid = (p, r)" by fastforce
  have "r = Ok bs"
  proof (cases r)
    case (Ok b)
    then show ?thesis using g r by (cases "dagcbor_decode Y b") (simp_all add: mesh_get_def mesh_on_peer_def)
  qed (use g r in \<open>simp_all add: mesh_get_def mesh_on_peer_def\<close>)
  then show ?thesis using r peer_get_verified by blast
qed

lemma peer_first_verified:
  assumes "rm_get (peer_first X I R) (p, s) cid = (q, Ok bs)"
  shows "digest_hex X bs = cid \<or> (\<exists>s'. rm_get R s cid = (s', Ok bs))"
  using assms by (auto simp: peer_first_def split: prod.splits result.splits dest: peer_get_verified)

section \<open>What the store of a device holds\<close>

text \<open>The blob store keeps what it has, and reads and writes are of what it holds.\<close>

definition store_law :: "('s, 'a) iroh \<Rightarrow> ('s \<Rightarrow> Hash32 \<Rightarrow> bytes \<Rightarrow> bool) \<Rightarrow> bool" where
  "store_law I holds \<longleftrightarrow>
     (\<forall>s bs s' h. ir_add_bytes I s bs = (s', Inr h) \<longrightarrow> holds s' h bs) \<and>
     (\<forall>s h s' bs. ir_get_bytes I s h = (s', Inr bs) \<longrightarrow> holds s' h bs) \<and>
     (\<forall>s h bs. holds s h bs \<longrightarrow>
        (\<forall>b. holds (fst (ir_add_bytes I s b)) h bs) \<and> (\<forall>k. holds (fst (ir_has I s k)) h bs) \<and>
        (\<forall>k ps. holds (fst (ir_download I s k ps)) h bs) \<and> (\<forall>k. holds (fst (ir_get_bytes I s k)) h bs) \<and>
        (\<forall>a. holds (ir_add_endpoint I s a) h bs) \<and> (\<forall>b. holds (fst (ir_broadcast I s b)) h bs))"

definition local_cids :: "'s IrohPeer \<Rightarrow> string set" where
  "local_cids p = {cid. \<exists>m. map_of (ip_index p) cid = Some m \<and> mp_local m}"

definition index_sound :: "ext \<Rightarrow> ('s \<Rightarrow> Hash32 \<Rightarrow> bytes \<Rightarrow> bool) \<Rightarrow> 's IrohPeer \<Rightarrow> bool" where
  "index_sound X holds p \<longleftrightarrow> distinct (map fst (ip_index p)) \<and>
     (\<forall>cid m. map_of (ip_index p) cid = Some m \<and> mp_local m \<longrightarrow> (\<exists>bs. holds (ip_net p) (mp_blake3 m) bs \<and> digest_hex X bs = cid))"

definition grows :: "ext \<Rightarrow> ('s \<Rightarrow> Hash32 \<Rightarrow> bytes \<Rightarrow> bool) \<Rightarrow> 's IrohPeer \<Rightarrow> 's IrohPeer \<Rightarrow> bool" where
  "grows X holds p p' \<longleftrightarrow> (index_sound X holds p \<longrightarrow> index_sound X holds p') \<and> local_cids p \<subseteq> local_cids p'"

lemma grows_refl [simp]: "grows X holds p p"
  by (simp add: grows_def)

lemma grows_trans: "grows X holds p q \<Longrightarrow> grows X holds q r \<Longrightarrow> grows X holds p r"
  by (auto simp: grows_def)

text \<open>A step that keeps the index and what the store holds.\<close>

lemma grows_same_index:
  assumes "ip_index p' = ip_index p" "\<And>h b. holds (ip_net p) h b \<Longrightarrow> holds (ip_net p') h b"
  shows "grows X holds p p'"
proof -
  have "index_sound X holds p'" if "index_sound X holds p"
    using that assms(2) unfolding index_sound_def assms(1) by blast
  then show ?thesis by (simp add: grows_def local_cids_def assms(1))
qed

lemma on_iroh_grows:
  assumes "\<And>h b. holds (ip_net p) h b \<Longrightarrow> holds (fst (f (ip_net p))) h b" "on_iroh f ctx p = (p', r)"
  shows "grows X holds p p'"
  using on_iroh_index [OF assms(2)] assms(1) by (intro grows_same_index) auto

text \<open>A change of one entry that keeps its address and its flag, or that flags a blob the store holds.\<close>

lemma grows_update:
  assumes "mp_local e \<Longrightarrow> (\<exists>m. map_of (ip_index p) cid = Some m \<and> mp_local m \<and> mp_blake3 e = mp_blake3 m) \<or>
      (\<exists>bs. holds (ip_net p) (mp_blake3 e) bs \<and> digest_hex X bs = cid)"
    and "\<And>m. map_of (ip_index p) cid = Some m \<Longrightarrow> mp_local m \<Longrightarrow> mp_local e"
  shows "grows X holds p (p\<lparr>ip_index := AList.update cid e (ip_index p)\<rparr>)"
proof -
  have "index_sound X holds (p\<lparr>ip_index := AList.update cid e (ip_index p)\<rparr>)" if s: "index_sound X holds p"
    unfolding index_sound_def
  proof (intro conjI allI impI)
    show "distinct (map fst (ip_index (p\<lparr>ip_index := AList.update cid e (ip_index p)\<rparr>)))"
      using s by (simp add: index_sound_def distinct_update)
    fix c n
    assume n: "map_of (ip_index (p\<lparr>ip_index := AList.update cid e (ip_index p)\<rparr>)) c = Some n \<and> mp_local n"
    show "\<exists>bs. holds (ip_net (p\<lparr>ip_index := AList.update cid e (ip_index p)\<rparr>)) (mp_blake3 n) bs \<and> digest_hex X bs = c"
    proof (cases "c = cid")
      case True
      then have "n = e" using n by (simp add: update_conv)
      then have "(\<exists>m. map_of (ip_index p) cid = Some m \<and> mp_local m \<and> mp_blake3 n = mp_blake3 m) \<or>
          (\<exists>bs. holds (ip_net p) (mp_blake3 n) bs \<and> digest_hex X bs = cid)" using assms(1) n by blast
      then show ?thesis using s True unfolding index_sound_def by fastforce
    next
      case False
      then show ?thesis using n s unfolding index_sound_def by (simp add: update_conv)
    qed
  qed
  moreover have "local_cids p \<subseteq> local_cids (p\<lparr>ip_index := AList.update cid e (ip_index p)\<rparr>)"
    using assms(2) by (auto simp: local_cids_def update_conv)
  ultimately show ?thesis by (simp add: grows_def)
qed

lemma write_alias_fields: "ip_index (write_alias I p cid h) = ip_index p" "ip_net (write_alias I p cid h) = ip_net p"
  by (simp_all add: write_alias_def split: option.splits)

lemma add_provider_fields [simp]: "mp_blake3 (add_provider ep m) = mp_blake3 m" "mp_local (add_provider ep m) = mp_local m"
  by (simp_all add: add_provider_def)

lemma fold_provider_fields [simp]:
  "mp_blake3 (fold add_provider eps m) = mp_blake3 m" "mp_local (fold add_provider eps m) = mp_local m"
  by (induction eps arbitrary: m) simp_all

lemma holds_kept:
  assumes "store_law I holds" "holds s h b"
  shows "holds (fst (ir_add_bytes I s bs)) h b" "holds (fst (ir_has I s k)) h b" "holds (fst (ir_download I s k ps)) h b"
    "holds (fst (ir_get_bytes I s k)) h b" "holds (ir_add_endpoint I s a) h b" "holds (fst (ir_broadcast I s bs)) h b"
  using assms unfolding store_law_def by blast+

lemma register_grows:
  assumes "store_law I holds"
  shows "grows X holds p (register_mapping I p cid h provider)"
proof -
  let ?p1 = "case provider of Some addr \<Rightarrow> p\<lparr>ip_net := ir_add_endpoint I (ip_net p) addr\<rparr> | None \<Rightarrow> p"
  let ?p2 = "write_alias I ?p1 cid h"
  have "grows X holds p ?p2"
    by (rule grows_same_index) (auto simp: write_alias_fields holds_kept [OF assms] split: option.splits)
  moreover have "grows X holds ?p2 (register_mapping I p cid h provider)"
    unfolding register_mapping_def Let_def by (rule grows_update) (auto split: option.splits)
  ultimately show ?thesis by (rule grows_trans)
qed

lemma peer_put_grows:
  assumes law: "store_law I holds" and put: "peer_put X I p cid bs = (p', r)"
  shows "grows X holds p p'" "r = Ok u \<Longrightarrow> cid \<in> local_cids p'"
proof -
  have "grows X holds p p' \<and> (r = Ok u \<longrightarrow> cid \<in> local_cids p')"
  proof (cases "digest_hex X bs = cid")
    case True
    obtain q a where a: "on_iroh (\<lambda>s. ir_add_bytes I s bs) ''add_bytes'' p = (q, a)" by fastforce
    have g: "grows X holds p q" by (rule on_iroh_grows [OF _ a]) (simp add: holds_kept [OF law])
    show ?thesis
    proof (cases a)
      case (Ok tag)
      let ?q = "write_alias I q cid tag"
      let ?e = "case map_of (ip_index ?q) cid of Some m \<Rightarrow> m\<lparr>mp_blake3 := tag, mp_local := True\<rparr>
                | None \<Rightarrow> \<lparr>mp_blake3 = tag, mp_providers = [], mp_local = True\<rparr>"
      have h: "holds (ip_net ?q) tag bs" using a Ok law by (auto simp: on_iroh_Ok write_alias_fields store_law_def)
      have e: "mp_blake3 ?e = tag" "mp_local ?e" by (simp_all split: option.splits)
      have p': "p' = ?q\<lparr>ip_index := AList.update cid ?e (ip_index ?q)\<rparr>" "r = Ok ()"
        using put True a Ok by (simp_all add: peer_put_def Let_def)
      have "grows X holds q ?q" by (rule grows_same_index) (simp_all add: write_alias_fields)
      moreover have "grows X holds ?q p'"
        unfolding p' by (rule grows_update) (use e h True in auto)
      moreover have "cid \<in> local_cids p'" using e by (simp add: p' local_cids_def update_conv)
      ultimately show ?thesis using g grows_trans by blast
    qed (use put True a g in \<open>auto simp: peer_put_def\<close>)
  qed (use put in \<open>auto simp: peer_put_def\<close>)
  then show "grows X holds p p'" "r = Ok u \<Longrightarrow> cid \<in> local_cids p'" by blast+
qed

lemma sbind_grows:
  assumes "\<And>p' r. f = (p', r) \<Longrightarrow> grows X holds p p'" "\<And>q a. f = (q, Ok a) \<Longrightarrow> grows X holds q (fst (g q a))"
  shows "grows X holds p (fst (sbind f g))"
proof -
  obtain q r where f: "f = (q, r)" by fastforce
  show ?thesis using assms(1) [OF f] assms(2) [of q] f grows_trans by (cases r) fastforce+
qed

lemma peer_get_grows:
  assumes law: "store_law I holds"
  shows "grows X holds p (fst (peer_get X I p cid))"
proof (cases "map_of (ip_index p) cid")
  case (Some m)
  have "grows X holds q (mark_local q cid)"
    if "map_of (ip_index q) cid = Some m" "holds (ip_net q) (mp_blake3 m) bs" "digest_hex X bs = cid" for q bs
    unfolding mark_local_def that(1) option.case by (rule grows_update) (use that in auto)
  then have last: "grows X holds q (fst (if digest_hex X bs \<noteq> cid then (q, Err (CidMismatch cid (digest_hex X bs))) else (mark_local q cid, Ok bs)))"
    if "map_of (ip_index q) cid = Some m" "holds (ip_net q) (mp_blake3 m) bs" for q bs
    using that by auto
  show ?thesis
    unfolding peer_get_def Some option.case
  proof (rule sbind_grows)
    fix q r assume "on_iroh (\<lambda>s. ir_has I s (mp_blake3 m)) ''has'' p = (q, r)"
    then show "grows X holds p q" by (rule on_iroh_grows [rotated]) (simp add: holds_kept [OF law])
  next
    fix q held assume q: "on_iroh (\<lambda>s. ir_has I s (mp_blake3 m)) ''has'' p = (q, Ok held)"
    show "grows X holds q (fst (sbind (if held then (q, Ok ()) else on_iroh (\<lambda>s. ir_download I s (mp_blake3 m) (mp_providers m)) (''download '' @ cid) q)
        (\<lambda>p _. sbind (on_iroh (\<lambda>s. ir_get_bytes I s (mp_blake3 m)) ''get_bytes'' p)
           (\<lambda>p bs. if digest_hex X bs \<noteq> cid then (p, Err (CidMismatch cid (digest_hex X bs))) else (mark_local p cid, Ok bs)))))"
    proof (intro sbind_grows)
      fix u r assume "(if held then (q, Ok ()) else on_iroh (\<lambda>s. ir_download I s (mp_blake3 m) (mp_providers m)) (''download '' @ cid) q) = (u, r)"
      then have "u = q \<or> on_iroh (\<lambda>s. ir_download I s (mp_blake3 m) (mp_providers m)) (''download '' @ cid) q = (u, r)" by (cases held) simp_all
      then show "grows X holds q u" by (elim disjE on_iroh_grows [rotated]) (simp_all add: holds_kept [OF law])
    next
      fix u v r assume "on_iroh (\<lambda>s. ir_get_bytes I s (mp_blake3 m)) ''get_bytes'' u = (v, r)"
      then show "grows X holds u v" by (rule on_iroh_grows [rotated]) (simp add: holds_kept [OF law])
    next
      fix u x v bs
      assume u: "(if held then (q, Ok ()) else on_iroh (\<lambda>s. ir_download I s (mp_blake3 m) (mp_providers m)) (''download '' @ cid) q) = (u, Ok x)"
        and v: "on_iroh (\<lambda>s. ir_get_bytes I s (mp_blake3 m)) ''get_bytes'' u = (v, Ok bs)"
      have "u = q \<or> on_iroh (\<lambda>s. ir_download I s (mp_blake3 m) (mp_providers m)) (''download '' @ cid) q = (u, Ok x)" using u by (cases held) simp_all
      then have "ip_index u = ip_index q" by (elim disjE) (simp_all add: on_iroh_index)
      then have "map_of (ip_index v) cid = Some m" using on_iroh_index [OF q] on_iroh_index [OF v] Some by simp
      moreover have "holds (ip_net v) (mp_blake3 m) bs" using v law by (auto simp: on_iroh_Ok store_law_def)
      ultimately show "grows X holds v (fst (if digest_hex X bs \<noteq> cid then (v, Err (CidMismatch cid (digest_hex X bs))) else (mark_local v cid, Ok bs)))"
        by (rule last)
    qed
  qed
qed (simp add: peer_get_def)

lemma fold_grows: "(\<And>x p. grows X holds p (f x p)) \<Longrightarrow> grows X holds p (fold f xs p)"
proof (induction xs arbitrary: p)
  case (Cons x xs)
  have "grows X holds (f x p) (fold f xs (f x p))" by (rule Cons.IH [OF Cons.prems])
  then show ?case using grows_trans [OF Cons.prems [of p x]] by simp
qed simp

lemma prime_grows: "store_law I holds \<Longrightarrow> grows X holds p (prime I cid m p)"
  unfolding prime_def Let_def
proof (rule fold_grows)
  fix c p assume law: "store_law I holds"
  show "grows X holds p (prime_chunk I ps c p)" for ps
  proof -
    let ?p = "register_mapping I p (ref_hex c) (cr_blake3 c) None"
    have "grows X holds ?p (prime_chunk I ps c p)"
      unfolding prime_chunk_def Let_def by (cases "map_of (ip_index ?p) (ref_hex c)") (simp_all, rule grows_update, auto)
    then show ?thesis using grows_trans [OF register_grows [OF law]] by blast
  qed
qed

lemma ingest_grows: "store_law I holds \<Longrightarrow> grows X holds (me_peer M) (me_peer (fst (ingest I M ann)))"
  unfolding ingest_def Let_def using register_grows grows_trans by (simp add: split_def) blast

lemma re_announce_grows: "store_law I holds \<Longrightarrow> grows X holds (me_peer M) (me_peer (re_announce I M))"
  unfolding re_announce_def by (auto intro!: grows_same_index simp: holds_kept split: option.splits sum.splits)

lemma receive_grows: "store_law I holds \<Longrightarrow> grows X holds (me_peer M) (me_peer (receive_loop I es M))"
proof (induction I es M rule: receive_loop.induct)
  case (2 I bs es M)
  show ?case
  proof (cases "ir_ann_parse I bs")
    case (Some ann)
    show ?thesis
      using 2 Some grows_trans [OF ingest_grows [OF 2(4), of X M ann]] by (cases "an_kind ann = ANNOUNCE_KIND") simp_all
  qed (use 2 in simp)
next
  case (3 I es M)
  then show ?case using grows_trans [OF re_announce_grows [OF 3(2), of X M]] by simp
qed simp_all

section \<open>The engine over the mesh\<close>

definition mesh_good :: "ext \<Rightarrow> ('s, 'a) iroh \<Rightarrow> ('s \<Rightarrow> Hash32 \<Rightarrow> bytes \<Rightarrow> bool) \<Rightarrow> ('s, 'a) MeshPeer \<times> nat \<Rightarrow> bool" where
  "mesh_good X I holds q \<longleftrightarrow> store_law I holds \<and> index_sound X holds (me_peer (fst q))"

definition mesh_held :: "('s, 'a) MeshPeer \<times> nat \<Rightarrow> string set" where
  "mesh_held q = local_cids (me_peer (fst q))"

lemma heard_keeps:
  assumes "\<And>M. store_law I holds \<Longrightarrow> grows X holds (me_peer M) (me_peer (fst (f M)))"
  shows "keeps (mesh_good X I holds) mesh_held (heard I E f)"
  unfolding keeps_def
proof (intro allI impI)
  fix q :: "('a, 'b) MeshPeer \<times> nat" assume g: "mesh_good X I holds q"
  then have law: "store_law I holds" by (simp add: mesh_good_def)
  have "grows X holds (me_peer (fst q)) (me_peer (hear I E q))" unfolding hear_def by (simp add: receive_grows [OF law])
  then have "grows X holds (me_peer (fst q)) (me_peer (fst (f (hear I E q))))" by (rule grows_trans) (rule assms [OF law])
  then show "mesh_good X I holds (fst (heard I E f q)) \<and> mesh_held q \<subseteq> mesh_held (fst (heard I E f q))"
    using g by (cases "f (hear I E q)") (simp add: mesh_good_def mesh_held_def grows_def heard_def)
qed

lemma mesh_get_grows: "store_law I holds \<Longrightarrow> grows X holds (me_peer M) (me_peer (fst (mesh_get X Y I M cid)))"
proof -
  assume law: "store_law I holds"
  obtain p r where r: "peer_get X I (me_peer M) cid = (p, r)" by fastforce
  have p: "grows X holds (me_peer M) p" using peer_get_grows [OF law, of X "me_peer M" cid] r by simp
  show ?thesis
  proof (cases r)
    case (Ok b)
    then show ?thesis
      using r p grows_trans [OF p prime_grows [OF law, of X p cid]]
      by (cases "dagcbor_decode Y b") (simp_all add: mesh_get_def mesh_on_peer_def)
  qed (use r p in \<open>simp_all add: mesh_get_def mesh_on_peer_def\<close>)
qed

lemma peer_have_local: "index_sound X holds p \<Longrightarrow> peer_have p = (p', Ok cs) \<Longrightarrow> p' = p \<and> set cs = local_cids p"
  by (auto simp: peer_have_def local_cids_def index_sound_def image_iff)

interpretation mesh: blob_side "mesh_remote X Y I E keypair device" "mesh_good X I holds" mesh_held "\<lambda>_. True"
  for X Y and I :: "('s, 'a) iroh" and E keypair device holds
proof unfold_locales
  fix q q' :: "('s, 'a) MeshPeer \<times> nat" and cs cid bs u
  let ?R = "mesh_remote X Y I E keypair device"
  assume g: "mesh_good X I holds q"
  then have law: "store_law I holds" by (simp add: mesh_good_def)
  have heard_good: "index_sound X holds (me_peer (hear I E q))"
    using g receive_grows [OF law, of X "fst q" "E (snd q)"] by (auto simp: mesh_good_def hear_def grows_def)
  show "set cs \<subseteq> mesh_held q'" if h: "rm_have ?R q = (q', Ok cs)"
  proof -
    obtain p where "peer_have (me_peer (hear I E q)) = (p, Ok cs)" "q' = ((hear I E q)\<lparr>me_peer := p\<rparr>, snd q + 1)"
      using h by (cases "peer_have (me_peer (hear I E q))") (auto simp: mesh_remote_def heard_def mesh_on_peer_def)
    then show ?thesis using peer_have_local [OF heard_good] by (simp add: mesh_held_def)
  qed
  show "cid \<in> mesh_held q'" if h: "rm_put ?R q cid bs = (q', Ok u)"
  proof -
    obtain p where "peer_put X I (me_peer (hear I E q)) cid bs = (p, Ok u)" "q' = ((hear I E q)\<lparr>me_peer := p\<rparr>, snd q + 1)"
      using h by (cases "peer_put X I (me_peer (hear I E q)) cid bs") (auto simp: mesh_remote_def heard_def mesh_on_peer_def)
    then show ?thesis using peer_put_grows(2) [OF law] by (simp add: mesh_held_def)
  qed
next
  have put: "grows X holds (me_peer M) (me_peer (fst (mesh_on_peer (\<lambda>p. peer_put X I p cid bs) M)))" if "store_law I holds"
    for M :: "('s, 'a) MeshPeer" and cid bs
    using peer_put_grows(1) [OF that] by (auto simp: mesh_on_peer_def split: prod.splits)
  show "keeps (mesh_good X I holds) mesh_held (\<lambda>s. rm_put (mesh_remote X Y I E keypair device) s cid bs)" for cid bs
    using heard_keeps [OF put] by (simp add: mesh_remote_def)
qed (simp_all add: mesh_remote_def heard_keeps mesh_on_peer_def peer_have_def mesh_get_grows)

text \<open>After a backup into the mesh, every blob the keep set lists is in this device's own store, under its
  digest, whatever gossip it heard meanwhile.\<close>

lemma mesh_backup_held:
  assumes "backup X Y (mesh_remote X Y I E keypair device) use w = (w', Ok rep)" "mesh_good X I holds (w_remote w)"
  obtains leaves where "sl_leaves (me_slot (fst (w_remote w'))) = leaves" "br_cid rep \<in> fst ` set leaves"
    "\<And>cid. cid \<in> fst ` set leaves \<Longrightarrow> \<exists>h bs. holds (ip_net (me_peer (fst (w_remote w')))) h bs \<and> digest_hex X bs = cid"
    "sl_seq (me_slot (fst (w_remote w'))) = Some (br_seq rep)"
proof -
  let ?R = "mesh_remote X Y I E keypair device"
  obtain q needed where c: "rm_commit_keep_set ?R q needed (br_seq rep) = (w_remote w', Ok ())" "mesh_good X I holds q"
    "fst ` set needed \<subseteq> mesh_held q" "br_cid rep \<in> fst ` set needed"
    by (rule mesh.backup_commits_held [OF assms])
  have law: "store_law I holds" using c(2) by (simp add: mesh_good_def)
  let ?M = "hear I E q"
  have M: "index_sound X holds (me_peer ?M)" "mesh_held q \<subseteq> local_cids (me_peer ?M)"
    using c(2) receive_grows [OF law, of X "fst q" "E (snd q)"] by (auto simp: mesh_good_def mesh_held_def hear_def grows_def)
  have w': "fst (w_remote w') = ?M\<lparr>me_slot := (me_slot ?M)\<lparr>sl_seq := Some (br_seq rep), sl_leaves := needed\<rparr>\<rparr>"
    using c(1) by (simp add: mesh_remote_def heard_def mesh_commit_keep_set_def split: if_splits) (metis fst_conv)
  have "\<exists>h bs. holds (ip_net (me_peer (fst (w_remote w')))) h bs \<and> digest_hex X bs = cid" if cid: "cid \<in> fst ` set needed" for cid
  proof -
    obtain m where "map_of (ip_index (me_peer ?M)) cid = Some m" "mp_local m" using cid c(3) M(2) by (auto simp: local_cids_def)
    then have "\<exists>bs. holds (ip_net (me_peer ?M)) (mp_blake3 m) bs \<and> digest_hex X bs = cid" using M(1) unfolding index_sound_def by blast
    then show ?thesis by (auto simp: w')
  qed
  then show thesis by (intro that [of needed]) (simp_all add: w' c(4))
qed

section \<open>The frontier of the mesh\<close>

lemma bt_get_bt_insert: "bt_get (bt_insert k v t) = (bt_get t)(k \<mapsto> v)"
  unfolding bt_get_def by (induction k v t rule: bt_insert.induct) (auto simp: fun_eq_iff)

definition merge_step :: "SlotState \<Rightarrow> string \<times> u64 \<times> string \<Rightarrow> SlotState" where
  "merge_step slot a = (case a of (device, counter, head_cid) \<Rightarrow> fst (merge_announcement slot device counter head_cid))"

definition device_counter :: "SlotState \<Rightarrow> string \<Rightarrow> u64 option" where
  "device_counter slot device = map_option fst (bt_get (sl_remote slot) device)"

lemma merge_step_get:
  "bt_get (sl_remote (merge_step slot (d, c, h))) =
     (case bt_get (sl_remote slot) d of
        Some (c', _) \<Rightarrow> if c' \<ge> c then bt_get (sl_remote slot) else (bt_get (sl_remote slot))(d \<mapsto> (c, h))
      | None \<Rightarrow> (bt_get (sl_remote slot))(d \<mapsto> (c, h)))"
  by (simp add: merge_step_def merge_announcement_def bt_get_bt_insert split: option.splits prod.splits)

interpretation counters: monotone_register device_counter merge_step
proof unfold_locales
  fix slot k n and a :: "string \<times> u64 \<times> string"
  assume n: "device_counter slot k = Some n"
  obtain d c h where a: "a = (d, c, h)" by (cases a)
  show "\<exists>m. device_counter (merge_step slot a) k = Some m \<and> n \<le> m"
    using n by (cases "bt_get (sl_remote slot) d") (auto simp: a device_counter_def merge_step_get split: if_splits)
qed

text \<open>What the slot holds of a device after a history of announcements: the newest of them.\<close>

definition newest :: "(string \<times> u64 \<times> string) set \<Rightarrow> string \<Rightarrow> (u64 \<times> string) option \<Rightarrow> bool" where
  "newest A d v \<longleftrightarrow>
     (case v of
        None \<Rightarrow> \<forall>c h. (d, c, h) \<notin> A
      | Some (c, h) \<Rightarrow> (d, c, h) \<in> A \<and> (\<forall>c' h'. (d, c', h') \<in> A \<longrightarrow> c' \<le> c))"

definition one_head_per_counter :: "(string \<times> u64 \<times> string) set \<Rightarrow> bool" where
  "one_head_per_counter A \<longleftrightarrow> (\<forall>d c h h'. (d, c, h) \<in> A \<and> (d, c, h') \<in> A \<longrightarrow> h = h')"

lemma newest_merge:
  assumes "newest A d (bt_get (sl_remote slot) d)"
  shows "newest (insert a A) d (bt_get (sl_remote (merge_step slot a)) d)"
proof -
  obtain e c h where a: "a = (e, c, h)" by (cases a)
  show ?thesis
  proof (cases "e = d")
    case True
    then show ?thesis using assms
      by (cases "bt_get (sl_remote slot) d") (fastforce simp: a merge_step_get newest_def split: if_splits)+
  next
    case False
    then have "bt_get (sl_remote (merge_step slot a)) d = bt_get (sl_remote slot) d"
      by (simp add: a merge_step_get split: option.splits)
    then show ?thesis using assms False by (auto simp: a newest_def split: option.splits)
  qed
qed

lemma merged_newest: "newest (set as) d (bt_get (sl_remote (foldl merge_step slot_default as)) d)"
proof (induction as rule: rev_induct)
  case Nil
  then show ?case by (simp add: newest_def slot_default_def bt_get_def)
next
  case (snoc a as)
  then show ?case using newest_merge [OF snoc] by simp
qed

lemma newest_unique: "one_head_per_counter A \<Longrightarrow> newest A d v \<Longrightarrow> newest A d v' \<Longrightarrow> v = v'"
  by (cases v; cases v') (auto simp: newest_def one_head_per_counter_def intro: le_antisym, (metis le_antisym)+)

lemma merge_step_wf: "btree_wf (sl_remote slot) \<Longrightarrow> btree_wf (sl_remote (merge_step slot a))"
  by (cases a) (simp add: merge_step_def merge_announcement_def btree_wf_insert split: option.splits)

lemma merged_wf: "btree_wf (sl_remote (foldl merge_step slot_default as))"
proof (induction as rule: rev_induct)
  case Nil
  then show ?case by (simp add: slot_default_def btree_wf_def)
qed (simp add: merge_step_wf)

text \<open>The announcements a device takes from a stream of gossip.\<close>

fun announced :: "('s, 'a) iroh \<Rightarrow> GossipEvent list \<Rightarrow> (string \<times> u64 \<times> string) list" where
  "announced I [] = []"
| "announced I (StreamError # es) = []"
| "announced I (Received bs # es) =
     (case ir_ann_parse I bs of
        Some ann \<Rightarrow> if an_kind ann = ANNOUNCE_KIND then (an_device_id ann, an_counter ann, an_head_sha256 ann) # announced I es
                    else announced I es
      | None \<Rightarrow> announced I es)"
| "announced I (_ # es) = announced I es"

lemma ingest_slot: "me_slot (fst (ingest I M ann)) = merge_step (me_slot M) (an_device_id ann, an_counter ann, an_head_sha256 ann)"
  by (simp add: ingest_def merge_step_def Let_def split: prod.splits)

lemma re_announce_slot: "me_slot (re_announce I M) = me_slot M"
  by (simp add: re_announce_def split: option.splits sum.splits)

lemma receive_slot: "me_slot (receive_loop I es M) = foldl merge_step (me_slot M) (announced I es)"
  by (induction I es M rule: receive_loop.induct) (auto simp: ingest_slot re_announce_slot split: option.splits)

lemma merged_converge:
  assumes "set as = set bs" "one_head_per_counter (set as)"
  shows "sl_remote (foldl merge_step slot_default as) = sl_remote (foldl merge_step slot_default bs)"
proof (rule btree_ext [OF merged_wf merged_wf])
  show "bt_get (sl_remote (foldl merge_step slot_default as)) = bt_get (sl_remote (foldl merge_step slot_default bs))"
    using newest_unique [OF assms(2) merged_newest] merged_newest [of bs] unfolding assms(1) by blast
qed

section \<open>Commits\<close>

lemma mesh_commit_frontier_Ok:
  assumes "mesh_commit_frontier X Y I keypair device M leaves seq heads = (M', Ok u)"
  shows "bt_get heads device \<noteq> None" "\<forall>cur. sl_seq (me_slot M) = Some cur \<longrightarrow> cur < seq"
    "me_slot M' = (me_slot M)\<lparr>sl_seq := Some seq, sl_leaves := leaves, sl_own_head := Some (device, the (bt_get heads device))\<rparr>"
proof -
  obtain own where own: "bt_get heads device = Some own" using assms by (auto simp: mesh_commit_frontier_def split: option.splits)
  have st: "\<not> stale_for seq (me_slot M)" using assms own by (auto simp: mesh_commit_frontier_def split: if_splits)
  let ?M1 = "M\<lparr>me_slot := (me_slot M)\<lparr>sl_seq := Some seq, sl_leaves := leaves, sl_own_head := Some (device, own)\<rparr>\<rparr>"
  have on: "me_slot (fst (mesh_on_peer f K)) = me_slot K" for f K by (simp add: mesh_on_peer_def split: prod.splits)
  have on': "mesh_on_peer f K = (K', r) \<Longrightarrow> me_slot K' = me_slot K" for f K K' r using on [of f K] by simp
  have ann: "me_slot (fst (announcement_for X Y I keypair device own K)) = me_slot K" for K
  proof -
    obtain K1 r where "mesh_on_peer (\<lambda>p. peer_get X I p own) K = (K1, r)" by fastforce
    then show ?thesis
      using on [of "\<lambda>p. peer_get X I p own" K] by (cases r) (auto simp: announcement_for_def sbind_def Let_def split: result.splits option.splits)
  qed
  obtain M2 ra where a: "announcement_for X Y I keypair device own ?M1 = (M2, ra)" by fastforce
  have M2: "me_slot M2 = me_slot ?M1" using ann [of ?M1] a by simp
  have "me_slot M' = me_slot ?M1"
    using assms own st a M2
    by (auto simp: mesh_commit_frontier_def sbind_def Let_def split: result.splits sum.splits dest!: on')
  then show "bt_get heads device \<noteq> None" "\<forall>cur. sl_seq (me_slot M) = Some cur \<longrightarrow> cur < seq"
    "me_slot M' = (me_slot M)\<lparr>sl_seq := Some seq, sl_leaves := leaves, sl_own_head := Some (device, the (bt_get heads device))\<rparr>"
    using own st by (auto simp: stale_for_def)
qed

section \<open>What a false announcement can do\<close>

text \<open>An announcement is not signed. One with the largest counter takes the device's slot for good: no later
  announcement of that device, true or false, changes it.\<close>

lemma slot_frozen:
  assumes "bt_get (sl_remote slot) d = Some (u64_max, h)" "\<forall>(_, c, _) \<in> set as. c \<le> u64_max"
  shows "bt_get (sl_remote (foldl merge_step slot as)) d = Some (u64_max, h)"
  using assms
proof (induction as arbitrary: slot)
  case (Cons a as)
  obtain e c k where a: "a = (e, c, k)" by (cases a)
  have "bt_get (sl_remote (merge_step slot a)) d = Some (u64_max, h)"
    using Cons.prems by (cases "e = d") (auto simp: a merge_step_get split: option.splits)
  then show ?case using Cons.IH [of "merge_step slot a"] Cons.prems(2) by simp
qed simp

text \<open>A mapping learned from gossip does not change the index of a blob the device holds, but it replaces the
  durable alias, from which the index is rebuilt at the next start.\<close>

lemma alias_overwritten:
  assumes "ip_aliases p = Some al" "map_of (ip_index p) cid = Some m" "\<And>s. \<not> ir_alias_fails I s cid"
  shows "map_of (ip_index (register_mapping I p cid h (Some a))) cid = Some (add_provider (ir_addr_id I a) m) \<and>
    (\<exists>al'. ip_aliases (register_mapping I p cid h (Some a)) = Some al' \<and> map_of al' cid = Some h)"
  using assms by (simp add: register_mapping_def write_alias_def alias_set_def update_conv Let_def)

text \<open>At a start, an alias whose BLAKE3 address the store holds makes the device claim the blob, whatever the
  digest of the bytes there.\<close>

lemma rehydrate_claims:
  assumes "rehydrate I [(cid, h)] p = (p', Ok ())" "snd (ir_has I (ip_net p) h) = Inr True" "map_of (ip_index p) cid = None"
  shows "cid \<in> local_cids p'"
  using assms by (auto simp: on_iroh_def local_cids_def update_conv Let_def sbind_def split: prod.splits sum.splits)

section \<open>Waiting\<close>

text \<open>The wait ends at the first reading that shows enough devices or a clock past the deadline.\<close>

lemma await_devices_ends:
  assumes "(slot, now) \<in> set rs" "deadline \<le> now"
  shows "\<exists>r. await_devices device n deadline rs = Some r"
  using assms by (induction rs) (auto simp: Let_def)

lemma await_devices_Ok:
  "await_devices device n deadline rs = Some (Ok ()) \<Longrightarrow> \<exists>(slot, now) \<in> set rs. n \<le> known_devices device slot"
  by (induction rs) (auto simp: Let_def split: if_splits)

text \<open>A ticket round trips when the address text and the alphabet do.\<close>

lemma ticket_round_trip:
  assumes "addr_text a = Inr json" "addr_parse json = Inr a" "unb64 (b64 json) = Inr json" "trim (b64 json) = b64 json"
  shows "result_bind (ticket_for addr_text b64 a) (addr_from_ticket unb64 addr_parse) = Ok a"
  using assms by (simp add: ticket_for_def addr_from_ticket_def)

end
