(* ===== verification/Cli.thy ===== *)
theory Cli
  imports Cli_Commands Mesh
begin

text \<open>
  The command-line client, \<^verbatim>\<open>ciss-cli/src/main.rs\<close>: the commands of the \<open>did:\<close> plane, the sync commands over
  the server and over the mesh, and the dispatch of a parsed command line. The state is the client's
  disk, its sync databases, the tree under the directory the command names, the other side of the network and
  the iroh libraries'. Parsing of arguments, logging and messages to standard error are left out.
\<close>

section \<open>State and surroundings\<close>

text \<open>The databases: one per state root, and one ledger per profile. Opening one may fail.\<close>

record Stores =
  so_states :: "(string \<times> SyncState) list"
  so_ledgers :: "(string \<times> SpendLedger) list"
  so_fails :: "string \<Rightarrow> SyncError option"

record ('s, 'n) cli =
  ct_disk :: Disk
  ct_stores :: Stores
  ct_tree :: TreeFs
  ct_server :: 's
  ct_clock :: nat
  ct_iroh :: 'n

text \<open>\<open>sn_waits\<close> is the gossip between the polls of \<open>await_devices\<close> with the time of each, and the last gossip
  before the deadline; \<open>sn_bind\<close>, \<open>sn_load\<close> and \<open>sn_subscribe\<close> are failures of the iroh libraries.\<close>

record ('s, 'n, 'a) station =
  sn_machine :: "'s machine"
  sn_sync :: sync_ext
  sn_text :: "SyncError \<Rightarrow> string"
  sn_io :: "string \<Rightarrow> string"
  sn_canonicalize :: "string \<Rightarrow> (string, string) result"
  sn_iroh :: "('n, 'a) iroh"
  sn_gossip :: "nat \<Rightarrow> GossipEvent list"
  sn_waits :: "(GossipEvent list \<times> nat) list \<times> GossipEvent list"
  sn_parse_url :: "string \<Rightarrow> string + string"
  sn_bind :: "string RelayMode \<Rightarrow> SyncError option"
  sn_load :: "string \<Rightarrow> string option"
  sn_subscribe :: "string option"
  sn_addr_text :: "'a \<Rightarrow> string + bytes"
  sn_addr_parse :: "bytes \<Rightarrow> string + 'a"
  sn_b64 :: "bytes \<Rightarrow> string"
  sn_unb64 :: "string \<Rightarrow> string + bytes"
  sn_interrupt :: "(unit, string) result"

type_synonym ('s, 'n, 'b) action = "('s, 'n) cli \<Rightarrow> ('s, 'n) cli \<times> ('b, string) result"

definition on_io :: "(Disk \<times> 's \<Rightarrow> ('s, 'b) run) \<Rightarrow> ('s, 'n, 'b) action" where
  "on_io f c = (case f (ct_disk c, ct_server c) of ((d, s), r) \<Rightarrow> (c\<lparr>ct_disk := d, ct_server := s\<rparr>, r))"

definition on_config :: "(Disk \<Rightarrow> Disk \<times> ('b, string) result) \<Rightarrow> ('s, 'n, 'b) action" where
  "on_config f c = (case f (ct_disk c) of (d, r) \<Rightarrow> (c\<lparr>ct_disk := d\<rparr>, r))"

section \<open>state.rs: opening a state root\<close>

definition fresh_state :: SyncState where
  "fresh_state = \<lparr>ss_index = \<lparr>ix_rows = [], ix_hits = 0, ix_misses = 0\<rparr>, ss_placeholders = [],
     ss_cache = \<lparr>kc_rows = [], kc_files = Map.empty, kc_budget = DEFAULT_CACHE_BUDGET, kc_fault = (\<lambda>_ _. False)\<rparr>,
     ss_spend = \<lparr>sl_scope = ''tree'', sl_config = [], sl_spend = []\<rparr>, ss_aliases = [], ss_profile = None\<rparr>"

text \<open>\<open>int_error\<close> is the text of the number parser's error.\<close>

definition read_budget :: "(string \<Rightarrow> string) \<Rightarrow> (string \<Rightarrow> string) \<Rightarrow> SyncState \<Rightarrow> (u64, SyncError) result" where
  "read_budget debug int_error st =
     (case config_get st ''cache_budget'' of
        None \<Rightarrow> Ok DEFAULT_CACHE_BUDGET
      | Some v \<Rightarrow> (case parse_u64 v of Some n \<Rightarrow> Ok n | None \<Rightarrow> Err (SDecode (''config cache_budget='' @ debug v @ '': '' @ int_error v))))"

definition state_open :: "(string \<Rightarrow> string) \<Rightarrow> (string \<Rightarrow> string) \<Rightarrow> Stores \<Rightarrow> string \<Rightarrow> (SyncState, SyncError) result" where
  "state_open debug int_error so root =
     (case so_fails so root of
        Some e \<Rightarrow> Err e
      | None \<Rightarrow>
          let st = (case map_of (so_states so) root of Some st \<Rightarrow> st | None \<Rightarrow> fresh_state) in
          result_bind (read_budget debug int_error st) (\<lambda>budget.
            Ok (st\<lparr>ss_index := (ss_index st)\<lparr>ix_hits := 0, ix_misses := 0\<rparr>, ss_cache := (ss_cache st)\<lparr>kc_budget := budget\<rparr>,
                   ss_profile := None\<rparr>)))"

definition ledger_open :: "Stores \<Rightarrow> string \<Rightarrow> string \<Rightarrow> (SpendLedger, SyncError) result" where
  "ledger_open so db scope =
     (case so_fails so db of
        Some e \<Rightarrow> Err e
      | None \<Rightarrow> Ok ((case map_of (so_ledgers so) db of Some l \<Rightarrow> l | None \<Rightarrow> \<lparr>sl_scope = scope, sl_config = [], sl_spend = []\<rparr>)\<lparr>sl_scope := scope\<rparr>))"

section \<open>main.rs: arguments\<close>

datatype IdentityKind = IdKind | DidKind

datatype ReadClassArg = ArgWorld | ArgGrantees | ArgOwner

fun read_class_arg :: "ReadClassArg \<Rightarrow> string" where
  "read_class_arg ArgWorld = ''world''"
| "read_class_arg ArgGrantees = ''grantees''"
| "read_class_arg ArgOwner = ''owner''"

record GlobalArgs =
  ga_server :: string
  ga_profile :: string
  ga_identity :: IdentityKind
  ga_aud :: "string option"
  ga_json :: bool

record RelayArgs =
  ra_relay :: "string option"
  ra_no_relay :: bool

datatype KeyCommand = KeyGen | KeyList | KeyShow | KeyImport string

datatype AclCommand = AclSet string ReadClassArg "string list" | AclGet string

datatype DialCommand = DialCeiling "u64 option" "u64 option" bool | DialPeriod | DialAccountMode bool bool
  | DialReceiptMode bool bool | DialCountersign string

datatype P2pCommand = P2pShare string RelayArgs "string option" | P2pConverge string string RelayArgs "string option"

record CeilingArgs =
  ca_profile :: bool
  ca_cents :: "u64 option"
  ca_clear :: bool
  ca_reset_spend :: bool
  ca_reconcile :: bool

datatype SyncCommand = SyncBackup string "string option" bool | SyncEvict string "string list" "string option"
  | SyncConverge string "string option" | SyncHydrate string "string list" "string option" | SyncStatus string "string option"
  | SyncRestore string "string option" | SyncPrice string "string option" | SyncCeiling string CeilingArgs "string option"
  | SyncP2p P2pCommand

datatype Commands = KeyCmd KeyCommand | Login string string | Whoami | PutCmd string Plane
  | GetCmd string "string option" "string option" Plane | MeterCmd | LsCmd | DuCmd | AclCmd AclCommand | SyncCmd SyncCommand
  | DialCmd DialCommand | Man

definition relay_args_resolve :: "RelayArgs \<Rightarrow> Disk \<Rightarrow> Config \<Rightarrow> string option" where
  "relay_args_resolve ra d cfg = resolve_relay (ra_no_relay ra) (ra_relay ra) (profile_relay_setting d cfg)"

definition server_client :: "GlobalArgs \<Rightarrow> Client" where
  "server_client g = client_new (ga_server g)"

definition print_did :: "ext \<Rightarrow> string \<Rightarrow> bool \<Rightarrow> string" where
  "print_did X did json_out = (if json_out then json_line X (JObj [(''did'', JStr did)]) else println did)"

definition keypair_of :: "'s machine \<Rightarrow> Config \<Rightarrow> Disk \<Rightarrow> (Keypair, string) result" where
  "keypair_of M cfg d = load_keypair (mc_ext M) (mc_hex_error M) d cfg"

section \<open>main.rs: the did: plane\<close>

definition UPLOAD_LXM :: string where "UPLOAD_LXM = ''com.atproto.repo.uploadBlob''"
definition LISTBLOBS_LXM :: string where "LISTBLOBS_LXM = ''com.atproto.sync.listBlobs''"
definition CLI_DU_LXM :: string where "CLI_DU_LXM = ''ing.croft.ciss.du''"
definition CLI_METER_LXM :: string where "CLI_METER_LXM = ''ing.croft.ciss.meter''"
definition SET_POLICY_LXM :: string where "SET_POLICY_LXM = ''ing.croft.ciss.putAssertion''"
definition CLI_GET_POLICY_LXM :: string where "CLI_GET_POLICY_LXM = ''ing.croft.ciss.getPolicy''"

definition login :: "'s machine \<Rightarrow> GlobalArgs \<Rightarrow> Config \<Rightarrow> string \<Rightarrow> string \<Rightarrow> Disk \<times> 's \<Rightarrow> ('s, string) run" where
  "login M g cfg pds identifier c =
     sbind (c, case mc_env M ''CISS_PDS_APP_PASSWORD'' of
                 Some (k # ks) \<Rightarrow> Ok (k # ks)
               | _ \<Rightarrow> with_context ''read app password'' (mc_prompt M (''app password for '' @ identifier @ '' at '' @ pds @ '': ''))) (\<lambda>c pw.
     let cred = \<lparr>pc_pds_host = pds, pc_identifier = identifier, pc_app_password = pw\<rparr> in
     sbind (on_net (create_session (mc_ext M) (mc_net M) (mc_http M) cred) c) (\<lambda>c session.
     sbind (on_disk (\<lambda>d. save_credential (mc_ext M) d cfg cred) c) (\<lambda>c _.
       (c, Ok (if ga_json g then
                 json_line (mc_ext M) (JObj [(''did'', JStr (ps_did session)), (''identifier'', JStr identifier), (''profile'', JStr (ga_profile g))])
               else println (''logged in as '' @ identifier @ '' ('' @ ps_did session @ '') '' @ EM_DASH @ '' credential saved to profile '' @
                      [CHR 0x27] @ ga_profile g @ [CHR 0x27] @ ''.'') @
                    println (''run `did:` commands with:  ciss-ctl --identity did --profile '' @ ga_profile g @ '' '' @ [CHR 0xE2, CHR 0x80, CHR 0xA6]))))))"

definition resolve_aud :: "'s machine \<Rightarrow> GlobalArgs \<Rightarrow> Disk \<times> 's \<Rightarrow> ('s, string) run" where
  "resolve_aud M g c =
     (case ga_aud g of
        Some aud \<Rightarrow> (c, Ok aud)
      | None \<Rightarrow> on_net (discover_service_did (mc_net M) (mc_http M) (server_client g)) c)"

text \<open>The steps every \<open>did:\<close> command begins with: credential, audience, login and one token per method.\<close>

definition did_tokens ::
  "'s machine \<Rightarrow> GlobalArgs \<Rightarrow> Config \<Rightarrow> string list \<Rightarrow> Disk \<times> 's \<Rightarrow> ('s, string \<times> string list) run" where
  "did_tokens M g cfg lxms c =
     sbind (c, load_credential (mc_net M) (mc_json_error M) (mc_env M) (fst c) cfg) (\<lambda>c cred.
     sbind (resolve_aud M g c) (\<lambda>c aud.
       on_net (service_auth_tokens (mc_ext M) (mc_net M) (mc_http M) (mc_now M) cred aud lxms) c))"

definition token_at :: "string list \<Rightarrow> nat \<Rightarrow> (string, string) result" where
  "token_at tokens i = (if i < length tokens then Ok (tokens ! i) else Panic)"

definition did_put :: "'s machine \<Rightarrow> GlobalArgs \<Rightarrow> Config \<Rightarrow> string \<Rightarrow> Plane \<Rightarrow> Disk \<times> 's \<Rightarrow> ('s, string) run" where
  "did_put M g cfg path via c =
     (if via = S3 then
        (c, Err (''--via s3 needs an id: identity (a local signing key); a did: identity uses the atproto plane '' @ EM_DASH @
           '' retry with --via pds''))
      else
        sbind (c, load_credential (mc_net M) (mc_json_error M) (mc_env M) (fst c) cfg) (\<lambda>c cred.
        sbind (resolve_aud M g c) (\<lambda>c aud.
        sbind (on_net (mint_service_auth (mc_ext M) (mc_net M) (mc_http M) (mc_now M) cred aud UPLOAD_LXM) c) (\<lambda>c (token, _).
        sbind (c, with_context (''read '' @ path) (disk_read (fst c) path)) (\<lambda>c body.
        sbind (on_net (upload_blob_bearer (mc_ext M) (mc_net M) (mc_cid_text M) (mc_http M) (server_client g) token body) c) (\<lambda>c res.
          (c, Ok (blob_upload_text (mc_ext M) (ga_json g) ''uploaded via pds (did: service-auth)'' res))))))))"

definition did_get ::
  "'s machine \<Rightarrow> GlobalArgs \<Rightarrow> Config \<Rightarrow> string \<Rightarrow> string option \<Rightarrow> string option \<Rightarrow> Plane \<Rightarrow> Disk \<times> 's \<Rightarrow> ('s, string) run" where
  "did_get M g cfg cid output owner via c =
     (if via = S3 then (c, Err (''a did: identity reads over the atproto plane '' @ EM_DASH @ '' retry with --via pds''))
      else
        sbind (case owner of
                 Some did \<Rightarrow> (c, Ok did)
               | None \<Rightarrow>
                   sbind (c, load_credential (mc_net M) (mc_json_error M) (mc_env M) (fst c) cfg) (\<lambda>c cred.
                   sbind (on_net (create_session (mc_ext M) (mc_net M) (mc_http M) cred) c) (\<lambda>c session. (c, Ok (ps_did session))))) (\<lambda>c did.
          object_get M (server_client g) None did cid output via (ga_json g) c))"

definition did_acl_set ::
  "'s machine \<Rightarrow> GlobalArgs \<Rightarrow> Config \<Rightarrow> string \<Rightarrow> string \<Rightarrow> string list \<Rightarrow> Disk \<times> 's \<Rightarrow> ('s, string) run" where
  "did_acl_set M g cfg cid class readers c =
     sbind (did_tokens M g cfg [CLI_GET_POLICY_LXM, SET_POLICY_LXM] c) (\<lambda>c (did, tokens).
     sbind (c, token_at tokens 0) (\<lambda>c t0.
     sbind (c, token_at tokens 1) (\<lambda>c t1.
       acl_set_model_c M (server_client g) did cid class readers (t0, t1) (ga_json g) c)))"

definition did_acl_get :: "'s machine \<Rightarrow> GlobalArgs \<Rightarrow> Config \<Rightarrow> string \<Rightarrow> Disk \<times> 's \<Rightarrow> ('s, string) run" where
  "did_acl_get M g cfg cid c =
     sbind (did_tokens M g cfg [CLI_GET_POLICY_LXM] c) (\<lambda>c (did, tokens).
     sbind (c, token_at tokens 0) (\<lambda>c t. acl_get_model_c M (server_client g) did cid t (ga_json g) c))"

definition did_meter :: "'s machine \<Rightarrow> GlobalArgs \<Rightarrow> Config \<Rightarrow> Disk \<times> 's \<Rightarrow> ('s, string) run" where
  "did_meter M g cfg c =
     sbind (did_tokens M g cfg [CLI_METER_LXM] c) (\<lambda>c (did, tokens).
     sbind (c, token_at tokens 0) (\<lambda>c t.
     sbind (on_net (get_meter_bearer (mc_net M) (mc_http M) (server_client g) t did) c) (\<lambda>c m.
       (c, Ok (print_meter (mc_ext M) m (ga_json g))))))"

definition did_du :: "'s machine \<Rightarrow> GlobalArgs \<Rightarrow> Config \<Rightarrow> Disk \<times> 's \<Rightarrow> ('s, string) run" where
  "did_du M g cfg c =
     sbind (did_tokens M g cfg [CLI_DU_LXM] c) (\<lambda>c (did, tokens).
     sbind (c, token_at tokens 0) (\<lambda>c t.
     sbind (on_net (du_bearer (mc_net M) (mc_http M) (server_client g) t did) c) (\<lambda>c u.
       (c, Ok (print_usage (mc_ext M) u (ga_json g))))))"

definition did_ls :: "'s machine \<Rightarrow> GlobalArgs \<Rightarrow> Config \<Rightarrow> Disk \<times> 's \<Rightarrow> ('s, string) run" where
  "did_ls M g cfg c =
     sbind (did_tokens M g cfg [LISTBLOBS_LXM] c) (\<lambda>c (did, tokens).
     sbind (c, token_at tokens 0) (\<lambda>c t.
     sbind (on_net (list_blobs_bearer (mc_ext M) (mc_net M) (mc_cid_text M) (mc_http M) (server_client g) t did) c) (\<lambda>c cids.
       (c, Ok (print_cids (mc_ext M) cids (ga_json g))))))"

definition emit_man_page :: "'s machine \<Rightarrow> (string, string) result" where
  "emit_man_page M =
     result_bind (with_context ''render man page'' (mc_man M)) (\<lambda>b.
       case mc_stdout_fails M of Some e \<Rightarrow> Err (''write man page: '' @ e) | None \<Rightarrow> Ok b)"

section \<open>main.rs: sync over the server\<close>

definition CENT :: string where "CENT = [CHR 0xC2, CHR 0xA2]"

text \<open>An open state: where it and the profile's ledger live, and what they hold.\<close>

record OpenState =
  op_root :: string
  op_ledger :: string
  op_state :: SyncState

definition resolve_state ::
  "('s, 'n, 'a) station \<Rightarrow> GlobalArgs \<Rightarrow> string \<Rightarrow> string option \<Rightarrow> ('s, 'n, OpenState) action" where
  "resolve_state S g dir state_dir c =
     (let M = sn_machine S in
      sbind (c, case state_dir of
                  Some p \<Rightarrow> Ok p
                | None \<Rightarrow> default_state_dir (mc_ext M) (sn_canonicalize S) (mc_env M) (ga_profile g) dir) (\<lambda>c root.
      sbind (c, map_err (sn_text S) (state_open (mc_debug M) (mc_int_error M) (ct_stores c) root)) (\<lambda>c st.
      sbind (on_config (\<lambda>d. profile_ledger
               (\<lambda>db scope. map_err (sn_text S) (ledger_open (ct_stores c) db scope)) (mc_env M) (ga_profile g) d) c) (\<lambda>c ledger.
      sbind (c, data_home (mc_env M)) (\<lambda>c home.
        (c, Ok \<lparr>op_root = root, op_ledger = path_join (path_join (path_join home ''ciss-ctl/profiles'') (ga_profile g)) ''ledger.sqlite'',
                op_state = attach_profile_ledger st ledger\<rparr>))))))"

text \<open>The databases hold what was written through them, also when the command then fails.\<close>

definition keep_state :: "OpenState \<Rightarrow> SyncState \<Rightarrow> Stores \<Rightarrow> Stores" where
  "keep_state op st so =
     so\<lparr>so_states := AList.update (op_root op) (st\<lparr>ss_profile := None\<rparr>) (so_states so),
        so_ledgers := (case ss_profile st of Some l \<Rightarrow> AList.update (op_ledger op) l (so_ledgers so) | None \<Rightarrow> so_ledgers so)\<rparr>"

definition on_world ::
  "('s, 'n, 'a) station \<Rightarrow> OpenState \<Rightarrow> ('s world \<Rightarrow> 's world \<times> ('b, SyncError) result) \<Rightarrow> ('s, 'n, 'b) action" where
  "on_world S op f c =
     (case f \<lparr>w_fs = ct_tree c, w_state = op_state op, w_remote = ct_server c, w_clock = ct_clock c\<rparr> of (w, r) \<Rightarrow>
        (c\<lparr>ct_tree := w_fs w, ct_server := w_remote w, ct_clock := w_clock w, ct_stores := keep_state op (w_state w) (ct_stores c)\<rparr>,
         map_err (sn_text S) r))"

definition server_remote :: "('s, 'n, 'a) station \<Rightarrow> GlobalArgs \<Rightarrow> Keypair \<Rightarrow> 's remote" where
  "server_remote S g kp = http_ciss (mc_ext (sn_machine S)) (mc_net (sn_machine S)) (mc_http (sn_machine S)) (server_client g) kp"

definition print_backup_report ::
  "ext \<Rightarrow> bool \<Rightarrow> u64 \<Rightarrow> u64 \<Rightarrow> u64 \<Rightarrow> u64 \<Rightarrow> string \<Rightarrow> u64 \<Rightarrow> string option \<Rightarrow> string" where
  "print_backup_report X json_out files chunks_total chunks_uploaded bytes_uploaded cid seq head =
     (if json_out then
        json_line X (JObj [(''files'', nat_json files), (''chunks_total'', nat_json chunks_total), (''chunks_uploaded'', nat_json chunks_uploaded),
          (''bytes_uploaded'', nat_json bytes_uploaded), (''fs_manifest_cid'', JStr cid), (''manifest_seq'', nat_json seq),
          (''device_head_cid'', opt_str head)])
      else
        println (''backed up '' @ show_nat files @ '' files: '' @ show_nat chunks_uploaded @ ''/'' @ show_nat chunks_total @
          '' chunks uploaded ('' @ show_nat bytes_uploaded @ '' bytes), fs-manifest '' @ cid @ '', keep-set seq '' @ show_nat seq @
          (case head of Some h \<Rightarrow> '', device head '' @ take 12 h | None \<Rightarrow> [])))"

definition stateless_refused :: "('s, 'n, 'a) station \<Rightarrow> (OpenState, string) result \<Rightarrow> (unit, string) result" where
  "stateless_refused S opened =
     (case opened of
        Ok op \<Rightarrow>
          result_bind (map_err (sn_text S) (placeholder_all (sn_sync S) (ss_placeholders (op_state op)))) (\<lambda>ps.
            if ps = [] then Ok ()
            else Err ''--no-state refused: this tree has evicted files; a stateless backup would drop them from the committed tree'')
      | Err _ \<Rightarrow> Ok ()
      | Panic \<Rightarrow> Panic)"

definition sync_backup ::
  "('s, 'n, 'a) station \<Rightarrow> GlobalArgs \<Rightarrow> Config \<Rightarrow> string \<Rightarrow> string option \<Rightarrow> bool \<Rightarrow> ('s, 'n, string) action" where
  "sync_backup S g cfg dir state_dir no_state c =
     (let M = sn_machine S; X = mc_ext M; Y = sn_sync S in
      sbind (c, keypair_of M cfg (ct_disk c)) (\<lambda>c kp.
        if no_state then
          case resolve_state S g dir state_dir c of (c, opened) \<Rightarrow>
            sbind (c, stateless_refused S opened) (\<lambda>c _.
            case backup X Y (server_remote S g kp) False
                \<lparr>w_fs = ct_tree c, w_state = fresh_state, w_remote = ct_server c, w_clock = ct_clock c\<rparr> of (w, r) \<Rightarrow>
              sbind (c\<lparr>ct_tree := w_fs w, ct_server := w_remote w, ct_clock := w_clock w\<rparr>, map_err (sn_text S) r) (\<lambda>c rep.
                (c, Ok (print_backup_report X (ga_json g) (br_files rep) (br_chunks_total rep) (br_chunks_uploaded rep)
                   (br_bytes_uploaded rep) (br_cid rep) (br_seq rep) None))))
        else
          sbind (resolve_state S g dir state_dir c) (\<lambda>c op.
          sbind (on_config (device_id (mc_entropy M 4) cfg) c) (\<lambda>c device.
          sbind (on_world S op (backup_frontier X Y (server_remote S g kp) device) c) (\<lambda>c rep.
            (c, Ok (print_backup_report X (ga_json g) (fr_files rep) (fr_chunks_total rep) (fr_chunks_uploaded rep)
               (fr_bytes_uploaded rep) (fr_cid rep) (fr_seq rep) (Some (fr_head_cid rep)))))))))"

definition sync_evict ::
  "('s, 'n, 'a) station \<Rightarrow> GlobalArgs \<Rightarrow> Config \<Rightarrow> string \<Rightarrow> string list \<Rightarrow> string option \<Rightarrow> ('s, 'n, string) action" where
  "sync_evict S g cfg dir paths state_dir c =
     (let M = sn_machine S; X = mc_ext M in
      sbind (c, keypair_of M cfg (ct_disk c)) (\<lambda>c kp.
      sbind (resolve_state S g dir state_dir c) (\<lambda>c op.
      sbind (on_world S op (evict X (sn_sync S) (server_remote S g kp) paths) c) (\<lambda>c rep.
        (c, Ok (if ga_json g then
                  json_line X (JObj [(''evicted'', nat_json (er_evicted rep)), (''bytes_freed'', nat_json (er_bytes_freed rep)),
                    (''chunks_cached'', nat_json (er_chunks_cached rep))])
                else println (''evicted '' @ show_nat (er_evicted rep) @ '' file(s): '' @ show_nat (er_bytes_freed rep) @ '' bytes freed, '' @
                  show_nat (er_chunks_cached rep) @ '' chunk(s) kept in the local cache'')))))))"

definition print_converge_report :: "ext \<Rightarrow> bool \<Rightarrow> ConvergeReport \<Rightarrow> string" where
  "print_converge_report X json_out rep =
     (if json_out then
        json_line X (JObj [(''files'', nat_json (cg_files rep)), (''files_written'', nat_json (cg_files_written rep)),
          (''files_deleted'', nat_json (cg_files_deleted rep)), (''conflicts'', JArr (map JStr (cg_conflicts rep))),
          (''fs_manifest_cid'', JStr (cg_cid rep)), (''manifest_seq'', nat_json (cg_seq rep))])
      else
        println (''converged: '' @ show_nat (cg_files rep) @ '' files ('' @ show_nat (cg_files_written rep) @ '' written, '' @
          show_nat (cg_files_deleted rep) @ '' deleted), fs-manifest '' @ cg_cid rep @ '', seq '' @ show_nat (cg_seq rep)) @
        concat (map (\<lambda>p. println (''  conflict preserved: '' @ p)) (cg_conflicts rep)))"

definition sync_converge ::
  "('s, 'n, 'a) station \<Rightarrow> GlobalArgs \<Rightarrow> Config \<Rightarrow> string \<Rightarrow> string option \<Rightarrow> ('s, 'n, string) action" where
  "sync_converge S g cfg dir state_dir c =
     (let M = sn_machine S; X = mc_ext M in
      sbind (c, keypair_of M cfg (ct_disk c)) (\<lambda>c kp.
      sbind (resolve_state S g dir state_dir c) (\<lambda>c op.
      sbind (on_config (device_id (mc_entropy M 4) cfg) c) (\<lambda>c device.
      sbind (on_world S op (converge X (sn_sync S) (server_remote S g kp) device) c) (\<lambda>c rep.
        (c, Ok (print_converge_report X (ga_json g) rep)))))))"

definition sync_price ::
  "('s, 'n, 'a) station \<Rightarrow> GlobalArgs \<Rightarrow> Config \<Rightarrow> string \<Rightarrow> string option \<Rightarrow> ('s, 'n, string) action" where
  "sync_price S g cfg dir state_dir c =
     (let M = sn_machine S; X = mc_ext M in
      sbind (c, keypair_of M cfg (ct_disk c)) (\<lambda>c kp.
      sbind (resolve_state S g dir state_dir c) (\<lambda>c op.
      sbind (on_world S op (price_backup X (sn_sync S) (server_remote S g kp) True) c) (\<lambda>c q.
        (c, Ok (if ga_json g then
                  json_line X (JObj [(''files'', nat_json (pq_files q)), (''chunks_to_upload'', nat_json (pq_chunks_to_upload q)),
                    (''chunks_skipped'', nat_json (pq_chunks_skipped q)), (''bytes'', nat_json (pq_bytes q)),
                    (''postage_cents'', nat_json (pq_postage_cents q)), (''at_rest_bytes'', nat_json (pq_at_rest_bytes q)),
                    (''at_rest_bytes_after'', nat_json (pq_at_rest_bytes_after q)), (''rent_cents_per_day'', nat_json (pq_rent_cents_per_day q))])
                else
                  println (''quote: '' @ show_nat (pq_files q) @ '' file(s), '' @ show_nat (pq_chunks_to_upload q) @ '' chunk(s) to upload ('' @
                    show_nat (pq_chunks_skipped q) @ '' already held), '' @ show_nat (pq_bytes q) @ '' bytes = '' @
                    show_nat (pq_postage_cents q) @ CENT @ '' postage'') @
                  println (''at rest: '' @ show_nat (pq_at_rest_bytes q) @ '' bytes now '' @ ARROW @ '' '' @
                    show_nat (pq_at_rest_bytes_after q) @ '' bytes after this sync (rent '' @ show_nat (pq_rent_cents_per_day q) @
                    CENT @ ''/day)'')))))))"

definition sync_hydrate ::
  "('s, 'n, 'a) station \<Rightarrow> GlobalArgs \<Rightarrow> Config \<Rightarrow> string \<Rightarrow> string list \<Rightarrow> string option \<Rightarrow> ('s, 'n, string) action" where
  "sync_hydrate S g cfg dir paths state_dir c =
     (let M = sn_machine S; X = mc_ext M in
      sbind (c, keypair_of M cfg (ct_disk c)) (\<lambda>c kp.
      sbind (resolve_state S g dir state_dir c) (\<lambda>c op.
      sbind (on_world S op (hydrate X (sn_sync S) (server_remote S g kp) (if paths = [] then None else Some paths)) c) (\<lambda>c rep.
        (c, Ok (if ga_json g then
                  json_line X (JObj [(''files'', nat_json (hr_files rep)), (''chunks_from_cache'', nat_json (hr_from_cache rep)),
                    (''chunks_from_server'', nat_json (hr_from_server rep)), (''bytes_written'', nat_json (hr_bytes_written rep))])
                else println (''hydrated '' @ show_nat (hr_files rep) @ '' file(s): '' @ show_nat (hr_bytes_written rep) @ '' bytes ('' @
                  show_nat (hr_from_cache rep) @ '' chunk(s) from cache, '' @ show_nat (hr_from_server rep) @ '' from the server)'')))))))"

text \<open>Regular files only, wherever their names lead.\<close>

fun count_files :: "('s, 'n, 'a) station \<Rightarrow> TreeFs \<Rightarrow> (string \<times> fnode) list \<Rightarrow> (nat, string) result" where
  "count_files S F [] = Ok 0"
| "count_files S F ((p, node) # nodes) =
     (if tf_fault F FReadDir p \<or> tf_fault F FFileType p then Err (sn_io S p)
      else result_bind (count_files S F nodes) (\<lambda>n. Ok (case node of Regular _ \<Rightarrow> n + 1 | _ \<Rightarrow> n)))"

definition sync_status ::
  "('s, 'n, 'a) station \<Rightarrow> GlobalArgs \<Rightarrow> Config \<Rightarrow> string \<Rightarrow> string option \<Rightarrow> ('s, 'n, string) action" where
  "sync_status S g cfg dir state_dir c =
     (let M = sn_machine S; X = mc_ext M in
      sbind (c, keypair_of M cfg (ct_disk c)) (\<lambda>c kp.
      sbind (resolve_state S g dir state_dir c) (\<lambda>c op.
      sbind (c, map_err (sn_text S) (placeholder_all (sn_sync S) (ss_placeholders (op_state op)))) (\<lambda>c ps.
      sbind (c, count_files S (ct_tree c) (tf_nodes (ct_tree c))) (\<lambda>c present.
      sbind (c, map_err (sn_text S) (cache_total (ss_cache (op_state op)))) (\<lambda>c cache_bytes.
      sbind (on_io (on_net (client_get_manifest (mc_net M) (mc_http M) (server_client g) (sn_did (session_for X kp)))) c) (\<lambda>c manifest.
      sbind (c, case manifest of None \<Rightarrow> Ok 0 | Some m \<Rightarrow> map_err (sn_text S) (u64_sum (map ml_size (m_leaves m)))) (\<lambda>c at_rest.
      case rent_cents at_rest of
        Ok rent \<Rightarrow>
          (c, Ok (if ga_json g then
                    json_line X (JObj [(''present_files'', nat_json present), (''evicted_files'', nat_json (length ps)),
                      (''evicted_paths'', JArr (map (\<lambda>(p, _). JStr p) ps)), (''cache_bytes'', nat_json cache_bytes),
                      (''cache_budget'', nat_json (kc_budget (ss_cache (op_state op)))), (''keep_set_seq'', opt_nat (map_option m_seq manifest)),
                      (''at_rest_bytes'', nat_json at_rest), (''rent_cents_per_day'', nat_json rent)])
                  else
                    println (show_nat present @ '' file(s) present, '' @ show_nat (length ps) @ '' evicted; cache '' @ show_nat cache_bytes @
                      ''/'' @ show_nat (kc_budget (ss_cache (op_state op))) @ '' bytes; keep-set seq '' @
                      (case manifest of None \<Rightarrow> ''none'' | Some m \<Rightarrow> show_nat (m_seq m))) @
                    println (''at rest: '' @ show_nat at_rest @ '' bytes (rent '' @ show_nat rent @ CENT @ ''/day)'') @
                    concat (map (\<lambda>(p, _). println (''  evicted: '' @ p)) ps)))
      | _ \<Rightarrow> (c, Panic)))))))))"

definition sync_restore ::
  "('s, 'n, 'a) station \<Rightarrow> GlobalArgs \<Rightarrow> Config \<Rightarrow> string option \<Rightarrow> ('s, 'n, string) action" where
  "sync_restore S g cfg manifest c =
     (let M = sn_machine S; X = mc_ext M in
      sbind (c, keypair_of M cfg (ct_disk c)) (\<lambda>c kp.
        case restore X (sn_sync S) (server_remote S g kp) manifest
            \<lparr>w_fs = ct_tree c, w_state = fresh_state, w_remote = ct_server c, w_clock = ct_clock c\<rparr> of (w, r) \<Rightarrow>
          sbind (c\<lparr>ct_tree := w_fs w, ct_server := w_remote w, ct_clock := w_clock w\<rparr>, map_err (sn_text S) r) (\<lambda>c rep.
            (c, Ok (if ga_json g then
                      json_line X (JObj [(''files'', nat_json (rr_files rep)), (''chunks_fetched'', nat_json (rr_chunks_fetched rep)),
                        (''bytes_fetched'', nat_json (rr_bytes_fetched rep)), (''fs_manifest_cid'', JStr (rr_cid rep))])
                    else println (''restored '' @ show_nat (rr_files rep) @ '' files: '' @ show_nat (rr_chunks_fetched rep) @
                      '' chunks fetched ('' @ show_nat (rr_bytes_fetched rep) @ '' bytes), fs-manifest '' @ rr_cid rep))))))"

text \<open>A step on the open state: what it writes stays, also when it fails.\<close>

definition on_state ::
  "('s, 'n, 'a) station \<Rightarrow> OpenState \<Rightarrow> (SyncState \<Rightarrow> SyncState \<times> ('b, SyncError) result) \<Rightarrow> ('s, 'n, OpenState \<times> 'b) action" where
  "on_state S op f c =
     (case f (op_state op) of (st, r) \<Rightarrow>
        (c\<lparr>ct_stores := keep_state op st (ct_stores c)\<rparr>, result_bind (map_err (sn_text S) r) (\<lambda>b. Ok (op\<lparr>op_state := st\<rparr>, b))))"

definition on_ledger ::
  "bool \<Rightarrow> (SpendLedger \<Rightarrow> SpendLedger \<times> ('b, SyncError) result) \<Rightarrow> SyncState \<Rightarrow> SyncState \<times> ('b, SyncError) result" where
  "on_ledger profile f st =
     (if profile then
        (case ss_profile st of
           Some l \<Rightarrow> (case f l of (l', r) \<Rightarrow> (st\<lparr>ss_profile := Some l'\<rparr>, r))
         | None \<Rightarrow> (st, Panic))
      else case f (ss_spend st) of (l', r) \<Rightarrow> (st\<lparr>ss_spend := l'\<rparr>, r))"

definition ceiling_update :: "CeilingArgs \<Rightarrow> SpendLedger \<Rightarrow> SpendLedger \<times> (unit, SyncError) result" where
  "ceiling_update ca l =
     (case ca_cents ca of
        Some n \<Rightarrow> (set_ceiling_cents l (Some n), Ok ())
      | None \<Rightarrow> if ca_clear ca then (set_ceiling_cents l None, Ok ()) else (l, Ok ()))"

definition scope_json :: "SpendLedger \<Rightarrow> (json, SyncError) result" where
  "scope_json l =
     result_bind (ceiling_cents l) (\<lambda>ceiling. result_bind (spent_bytes l) (\<lambda>b. result_bind (spent_cents l) (\<lambda>n.
     result_bind (current_period l) (\<lambda>p.
       Ok (JObj [(''ceiling_cents'', opt_nat ceiling), (''spent_bytes'', nat_json b), (''spent_cents'', nat_json n), (''period'', nat_json p)])))))"

definition scope_line :: "SpendLedger \<Rightarrow> (string, SyncError) result" where
  "scope_line l =
     result_bind (spent_cents l) (\<lambda>n. result_bind (spent_bytes l) (\<lambda>b. result_bind (current_period l) (\<lambda>p.
     result_bind (ceiling_cents l) (\<lambda>ceiling.
       Ok (println (pad_left 7 (sl_scope l) @ '' ceiling: '' @ (case ceiling of Some k \<Rightarrow> show_nat k @ CENT | None \<Rightarrow> ''none'') @ '' '' @
         EM_DASH @ '' spent '' @ show_nat n @ CENT @ '' ('' @ show_nat b @ '' bytes, period '' @ show_nat p @ '')''))))))"

definition ceiling_report :: "ext \<Rightarrow> bool \<Rightarrow> SyncState \<Rightarrow> (string, SyncError) result" where
  "ceiling_report X json_out st =
     (case ss_profile st of
        None \<Rightarrow> Panic
      | Some l \<Rightarrow>
          if json_out then
            result_bind (scope_json (ss_spend st)) (\<lambda>t. result_bind (scope_json l) (\<lambda>p.
              Ok (json_line X (JObj [(''tree'', t), (''profile'', p)]))))
          else
            result_bind (scope_line (ss_spend st)) (\<lambda>t. result_bind (scope_line l) (\<lambda>p. Ok (t @ p))))"

definition sync_ceiling ::
  "('s, 'n, 'a) station \<Rightarrow> GlobalArgs \<Rightarrow> Config \<Rightarrow> string \<Rightarrow> CeilingArgs \<Rightarrow> string option \<Rightarrow> ('s, 'n, string) action" where
  "sync_ceiling S g cfg dir ca state_dir c =
     (let M = sn_machine S; X = mc_ext M in
      sbind (resolve_state S g dir state_dir c) (\<lambda>c op.
      sbind (on_state S op (on_ledger (ca_profile ca) (ceiling_update ca)) c) (\<lambda>c (op, _).
      sbind (if ca_reset_spend ca then on_state S op (on_ledger (ca_profile ca) reset_spend) c else (c, Ok (op, 0))) (\<lambda>c (op, _).
      sbind (if \<not> ca_reconcile ca then (c, Ok (op, InSync))
             else
               sbind (c, keypair_of M cfg (ct_disk c)) (\<lambda>c kp.
               sbind (on_io (on_net (get_meter (mc_net M) (mc_http M) (server_client g) (session_for X kp))) c) (\<lambda>c m.
                 on_state S op (on_ledger True (\<lambda>l. reconcile_to_meter (ct_clock c) l (mv_running_total_bytes m))) c))) (\<lambda>c (op, _).
        (c, map_err (sn_text S) (ceiling_report X (ga_json g) (op_state op))))))))"

section \<open>main.rs: sync over the mesh\<close>

text \<open>\<open>MeshPeer::spawn\<close> around the part modelled in \<open>mesh_spawn\<close>: binding, loading the blob store, subscribing.\<close>

definition spawn_mesh ::
  "('s, 'n, 'a) station \<Rightarrow> OpenState \<Rightarrow> 'a list \<Rightarrow> string option \<Rightarrow> ('s, 'n) cli \<Rightarrow>
   ('s, 'n) cli \<times> (('n, 'a) MeshPeer, SyncError) result" where
  "spawn_mesh S op bootstrap relay c =
     sbind (c, relay_mode (mc_debug (sn_machine S)) (sn_parse_url S) relay) (\<lambda>c mode.
     sbind (c, case sn_bind S mode of Some e \<Rightarrow> Err e | None \<Rightarrow> Ok ()) (\<lambda>c _.
     sbind (c, case sn_load S (path_join (op_root op) ''iroh'') of Some e \<Rightarrow> Err (iroh_err ''fs store load'' e) | None \<Rightarrow> Ok ()) (\<lambda>c _.
       case mesh_spawn (sn_iroh S) (Some (ss_aliases (op_state op))) bootstrap (ct_iroh c) of (P, r) \<Rightarrow>
         sbind (c\<lparr>ct_iroh := ip_net (me_peer P)\<rparr>, r) (\<lambda>c _.
           (c, case sn_subscribe S of Some e \<Rightarrow> Err (iroh_err ''gossip subscribe'' e) | None \<Rightarrow> Ok P)))))"

text \<open>A flow over the mesh; the aliases the device learned are in its state's database.\<close>

definition on_mesh ::
  "('s, 'n, 'a) station \<Rightarrow> OpenState \<Rightarrow> ('n, 'a) MeshPeer \<Rightarrow>
   ((('n, 'a) MeshPeer \<times> nat) world \<Rightarrow> (('n, 'a) MeshPeer \<times> nat) world \<times> ('b, SyncError) result) \<Rightarrow>
   ('s, 'n, ('n, 'a) MeshPeer \<times> 'b) action" where
  "on_mesh S op P f c =
     (case f \<lparr>w_fs = ct_tree c, w_state = op_state op, w_remote = (P, 0), w_clock = ct_clock c\<rparr> of (w, r) \<Rightarrow>
        let P' = fst (w_remote w);
            st = (w_state w)\<lparr>ss_aliases := (case ip_aliases (me_peer P') of Some al \<Rightarrow> al | None \<Rightarrow> ss_aliases (w_state w))\<rparr>
        in (c\<lparr>ct_tree := w_fs w, ct_clock := w_clock w, ct_iroh := ip_net (me_peer P'), ct_stores := keep_state op st (ct_stores c)\<rparr>,
            result_bind (map_err (sn_text S) r) (\<lambda>b. Ok (P', b))))"

text \<open>The wait for other devices; after the listed polls the next one is past the deadline.\<close>

fun await_mesh ::
  "('n, 'a) iroh \<Rightarrow> string \<Rightarrow> nat \<Rightarrow> nat \<Rightarrow> (GossipEvent list \<times> nat) list \<Rightarrow> GossipEvent list \<Rightarrow> ('n, 'a) MeshPeer \<Rightarrow>
   ('n, 'a) MeshPeer \<times> (unit, SyncError) result" where
  "await_mesh I device n deadline [] final P =
     (let P' = (if me_listening P then receive_loop I final P else P) in
      case await_devices device n deadline [(me_slot P', deadline)] of Some r \<Rightarrow> (P', r) | None \<Rightarrow> (P', Panic))"
| "await_mesh I device n deadline ((es, now) # polls) final P =
     (let P' = (if me_listening P then receive_loop I es P else P) in
      case await_devices device n deadline [(me_slot P', now)] of
        Some r \<Rightarrow> (P', r)
      | None \<Rightarrow> await_mesh I device n deadline polls final P')"

definition sync_p2p_share ::
  "('s, 'n, 'a) station \<Rightarrow> GlobalArgs \<Rightarrow> Config \<Rightarrow> string \<Rightarrow> string option \<Rightarrow> string option \<Rightarrow> ('s, 'n, string) action" where
  "sync_p2p_share S g cfg dir relay state_dir c =
     (let M = sn_machine S; X = mc_ext M in
      sbind (c, keypair_of M cfg (ct_disk c)) (\<lambda>c kp.
      sbind (resolve_state S g dir state_dir c) (\<lambda>c op.
      sbind (on_config (device_id (mc_entropy M 4) cfg) c) (\<lambda>c device.
      sbind (case spawn_mesh S op [] relay c of (c, r) \<Rightarrow> (c, map_err (sn_text S) r)) (\<lambda>c P.
      sbind (on_mesh S op P (backup_frontier X (sn_sync S) (mesh_remote X (sn_sync S) (sn_iroh S) (sn_gossip S) kp device) device) c) (\<lambda>c (P, rep).
      sbind (c, map_err (sn_text S) (ticket_for (sn_addr_text S) (sn_b64 S) (ir_addr (sn_iroh S) (ip_net (me_peer P))))) (\<lambda>c ticket.
      sbind (c, sn_interrupt S) (\<lambda>c _.
        (c, Ok (if ga_json g then
                  json_line X (JObj [(''ticket'', JStr ticket), (''device_id'', JStr device), (''fs_manifest_cid'', JStr (fr_cid rep)),
                    (''files'', nat_json (fr_files rep))])
                else println (''sharing '' @ show_nat (fr_files rep) @ '' file(s) as device '' @ device) @
                     println ''pairing ticket (run on the other device):'' @
                     println (''  ciss-ctl sync p2p converge <dir> --ticket '' @ ticket)))))))))))"

definition sync_p2p_converge ::
  "('s, 'n, 'a) station \<Rightarrow> GlobalArgs \<Rightarrow> Config \<Rightarrow> string \<Rightarrow> string \<Rightarrow> string option \<Rightarrow> string option \<Rightarrow> ('s, 'n, string) action" where
  "sync_p2p_converge S g cfg dir ticket relay state_dir c =
     (let M = sn_machine S; X = mc_ext M in
      sbind (c, keypair_of M cfg (ct_disk c)) (\<lambda>c kp.
      sbind (resolve_state S g dir state_dir c) (\<lambda>c op.
      sbind (on_config (device_id (mc_entropy M 4) cfg) c) (\<lambda>c device.
      sbind (c, map_err (sn_text S) (addr_from_ticket (sn_unb64 S) (sn_addr_parse S) ticket)) (\<lambda>c addr.
      sbind (case spawn_mesh S op [addr] relay c of (c, r) \<Rightarrow> (c, map_err (sn_text S) r)) (\<lambda>c P.
      case await_mesh (sn_iroh S) device 1 (ct_clock c + 30) (fst (sn_waits S)) (snd (sn_waits S)) P of (P, waited) \<Rightarrow>
        sbind (c\<lparr>ct_iroh := ip_net (me_peer P)\<rparr>, map_err (sn_text S) waited) (\<lambda>c _.
        sbind (on_mesh S op P (converge X (sn_sync S) (mesh_remote X (sn_sync S) (sn_iroh S) (sn_gossip S) kp device) device) c) (\<lambda>c (_, rep).
          (c, Ok (print_converge_report X (ga_json g) rep))))))))))"

section \<open>main.rs: dispatch\<close>

definition SYNC_NEEDS_ID :: string where
  "SYNC_NEEDS_ID = ''sync uses the id: identity '' @ EM_DASH @ '' the keep-set manifest must be signed by the namespace key''"

definition sync_dispatch :: "('s, 'n, 'a) station \<Rightarrow> GlobalArgs \<Rightarrow> Config \<Rightarrow> SyncCommand \<Rightarrow> ('s, 'n, string) action" where
  "sync_dispatch S g cfg cmd c =
     (case cmd of
        SyncCeiling dir ca state_dir \<Rightarrow> sync_ceiling S g cfg dir ca state_dir c
      | SyncP2p p \<Rightarrow>
          if ga_identity g = DidKind then
            (c, Err (''sync uses the id: identity '' @ EM_DASH @ '' device heads must be signed by the namespace key''))
          else (case p of
             P2pShare dir ra state_dir \<Rightarrow> sync_p2p_share S g cfg dir (relay_args_resolve ra (ct_disk c) cfg) state_dir c
           | P2pConverge dir ticket ra state_dir \<Rightarrow> sync_p2p_converge S g cfg dir ticket (relay_args_resolve ra (ct_disk c) cfg) state_dir c)
      | _ \<Rightarrow>
          if ga_identity g = DidKind then (c, Err SYNC_NEEDS_ID)
          else (case cmd of
             SyncBackup dir state_dir no_state \<Rightarrow> sync_backup S g cfg dir state_dir no_state c
           | SyncEvict dir paths state_dir \<Rightarrow> sync_evict S g cfg dir paths state_dir c
           | SyncConverge dir state_dir \<Rightarrow> sync_converge S g cfg dir state_dir c
           | SyncHydrate dir paths state_dir \<Rightarrow> sync_hydrate S g cfg dir paths state_dir c
           | SyncStatus dir state_dir \<Rightarrow> sync_status S g cfg dir state_dir c
           | SyncRestore dir manifest \<Rightarrow> sync_restore S g cfg manifest c
           | SyncPrice dir state_dir \<Rightarrow> sync_price S g cfg dir state_dir c
           | _ \<Rightarrow> (c, Panic)))"

definition dial_dispatch :: "'s machine \<Rightarrow> GlobalArgs \<Rightarrow> Config \<Rightarrow> DialCommand \<Rightarrow> Disk \<times> 's \<Rightarrow> ('s, string) run" where
  "dial_dispatch M g cfg cmd c =
     (if ga_identity g = DidKind then (c, Err ''dials use the id: identity in v1 (Model C intent support is a follow-on)'')
      else
        let C = server_client g; j = ga_json g in
        (case cmd of
           DialCeiling at_rest spend clear \<Rightarrow> dial_ceiling M C j cfg at_rest spend clear c
         | DialPeriod \<Rightarrow> dial_period M C j cfg c
         | DialAccountMode drawdown active \<Rightarrow> dial_account_mode M C j cfg drawdown active c
         | DialReceiptMode bilateral unilateral \<Rightarrow> dial_receipt_mode M C j cfg bilateral unilateral c
         | DialCountersign hash \<Rightarrow> dial_countersign M C j cfg hash c))"

definition key_dispatch :: "'s machine \<Rightarrow> GlobalArgs \<Rightarrow> Config \<Rightarrow> KeyCommand \<Rightarrow> Disk \<Rightarrow> Disk \<times> (string, string) result" where
  "key_dispatch M g cfg cmd d =
     (let X = mc_ext M in
      case cmd of
        KeyGen \<Rightarrow> sbind (generate X (mc_entropy M 32) cfg d) (\<lambda>d did. (d, Ok (print_did X did (ga_json g))))
      | KeyList \<Rightarrow> (d, key_list X (mc_net M) (mc_hex_error M) d cfg (ga_profile g) (ga_json g))
      | KeyShow \<Rightarrow>
          (d, result_bind (show_key X (mc_hex_error M) d cfg) (\<lambda>(did, key).
            Ok (if ga_json g then json_line X (JObj [(''did'', JStr did), (''public_key'', JStr key)])
                else println (''DID:        '' @ did) @ println (''public key: '' @ key))))
      | KeyImport path \<Rightarrow> sbind (import_key X (mc_ssh M) cfg path d) (\<lambda>d did. (d, Ok (print_did X did (ga_json g)))))"

text \<open>The commands that use the disk and the network only.\<close>

definition io_dispatch :: "'s machine \<Rightarrow> GlobalArgs \<Rightarrow> Config \<Rightarrow> Commands \<Rightarrow> Disk \<times> 's \<Rightarrow> ('s, string) run" where
  "io_dispatch M g cfg cmd c =
     (let X = mc_ext M; C = server_client g; j = ga_json g; own = ga_identity g = IdKind;
          as_key = (\<lambda>f. sbind (c, keypair_of M cfg (fst c)) (\<lambda>c kp. f kp c)) in
      case cmd of
        KeyCmd k \<Rightarrow> on_disk (key_dispatch M g cfg k) c
      | Login pds identifier \<Rightarrow> login M g cfg pds identifier c
      | Whoami \<Rightarrow> (c, result_bind (whoami X (mc_hex_error M) (fst c) cfg) (\<lambda>did. Ok (print_did X did j)))
      | PutCmd path via \<Rightarrow> if own then as_key (\<lambda>kp. object_put M C (session_for X kp) path via j) else did_put M g cfg path via c
      | GetCmd cid output owner via \<Rightarrow>
          if own then as_key (\<lambda>kp. object_get M C (Some (session_for X kp)) (case owner of Some d \<Rightarrow> d | None \<Rightarrow> sn_did (session_for X kp))
            cid output via j)
          else did_get M g cfg cid output owner via c
      | MeterCmd \<Rightarrow> if own then as_key (\<lambda>kp. object_meter M C (session_for X kp) j) else did_meter M g cfg c
      | LsCmd \<Rightarrow> if own then as_key (\<lambda>kp. object_ls M C (Some (session_for X kp)) (sn_did (session_for X kp)) j) else did_ls M g cfg c
      | DuCmd \<Rightarrow>
          if own then as_key (\<lambda>kp c. sbind (on_net (client_du (mc_net M) (mc_http M) C (Some (session_for X kp)) (sn_did (session_for X kp))) c)
            (\<lambda>c u. (c, Ok (print_usage X u j))))
          else did_du M g cfg c
      | AclCmd (AclSet cid class readers) \<Rightarrow>
          if own then as_key (\<lambda>kp. acl_set M C kp cid (read_class_arg class) readers j)
          else did_acl_set M g cfg cid (read_class_arg class) readers c
      | AclCmd (AclGet cid) \<Rightarrow> if own then as_key (\<lambda>kp. acl_get M C kp cid j) else did_acl_get M g cfg cid c
      | DialCmd d \<Rightarrow> dial_dispatch M g cfg d c
      | Man \<Rightarrow> (c, emit_man_page M)
      | SyncCmd _ \<Rightarrow> (c, Panic))"

definition cli_dispatch :: "('s, 'n, 'a) station \<Rightarrow> GlobalArgs \<Rightarrow> Commands \<Rightarrow> ('s, 'n, string) action" where
  "cli_dispatch S g cmd c =
     sbind (c, config_new (mc_env (sn_machine S)) (ga_profile g)) (\<lambda>c cfg.
       case cmd of
         SyncCmd s \<Rightarrow> sync_dispatch S g cfg s c
       | _ \<Rightarrow> on_io (io_dispatch (sn_machine S) g cfg cmd) c)"

end
