(* ===== verification/Cli_Laws.thy ===== *)
theory Cli_Laws
  imports Cli Writes
begin

text \<open>
  What the commands of the client achieve. A setting command that reports success changed the setting at
  the server; a download leaves verified bytes or nothing; no command overwrites a key or opens a
  secret to others.
\<close>

section \<open>A signed setting over the wire\<close>

text \<open>axum hands the URL of a setting to its handler.\<close>

definition setting_route :: "Client \<Rightarrow> (HttpMethod \<Rightarrow> string \<Rightarrow> Route \<times> string option) \<Rightarrow> bool" where
  "setting_route C route \<longleftrightarrow> (\<forall>did kind sk. did \<noteq> [] \<longrightarrow> url_part did \<longrightarrow> kind \<noteq> [] \<longrightarrow> url_part kind \<longrightarrow>
     (case sk of None \<Rightarrow> True | Some k \<Rightarrow> k \<noteq> [] \<and> url_part k) \<longrightarrow>
     route HPut (cl_base C @ assertion_path did kind sk) =
       (case sk of None \<Rightarrow> RtPutAssertion did kind | Some k \<Rightarrow> RtPutAssertionSubkey did kind k, None))"

lemma run_put_setting:
  assumes "run_route X N s q (case sk of None \<Rightarrow> RtPutAssertion did kind | Some k \<Rightarrow> RtPutAssertionSubkey did kind k) = (s', Ok resp)"
    and "rq_headers q = Map.empty" "did_parse did = Ok (Did did)"
  obtains s1 out where "op_put_assertion X N s did kind sk (rq_body q) None = (s1, Ok out)" "as_store s' = as_store s1"
proof -
  have "dispatch X N (rq_micros q) s Anonymous (PutAssertion did kind sk (rq_body q) None) = (s', Ok out) \<Longrightarrow> thesis" for out
    using that by (auto elim!: dispatch_Ok_ran)
  moreover have "bearer_token Map.empty = None" by (simp add: bearer_token_def)
  ultimately show thesis
    using assms by (cases sk) (auto simp: handler_response_Ok put_assertion_handler_def put_assertion_subkey_handler_def with_did_def
      assertion_write_auth_def dispatch_blocking_Ok)
qed

text \<open>A record the client signed reads back from its text.\<close>

definition body_fits :: "json \<Rightarrow> bool" where
  "body_fits b \<longleftrightarrow> jwf b \<and> ints_fit b \<and> to_value b = b"

lemma record_read:
  assumes "json_sound X N" "body_fits b" "n \<le> u64_max" "from_slice N de_signed_assertion (record_text X (sign_owner X kind did sk n b bf kp)) = Some a"
  shows "a = sign_owner X kind did sk n b bf kp"
proof -
  let ?a = "sign_owner X kind did sk n b bf kp"
  have "jwf (assertion_json ?a)" "ints_fit (assertion_json ?a)"
    using assms(2,3) by (cases sk; simp add: assertion_json_def sign_owner_def authorization_json_def ser_opt_def body_fits_def)+
  then have "json_parse N (record_text X ?a) = Some v \<Longrightarrow> v = assertion_json ?a" for v
    using assms(1) by (simp add: json_sound_def record_text_def)
  moreover have "de_signed_assertion (assertion_json ?a) = Some ?a"
    by (rule de_signed_assertion_json) (use assms(2,3) in \<open>simp add: assertion_wf_def sign_owner_def body_fits_def\<close>)
  ultimately show ?thesis using assms(4) by (auto simp: from_slice_def Option.bind_eq_Some_conv)
qed

text \<open>A signed setting whose write is answered with a success is the server's current record when the answer
  arrives.\<close>

lemma setting_stored:
  assumes sent: "server_send X N display route E (s, n) (request C HPut (assertion_path did kind sk) [] (record_text X a)) = (p', Inr ans)"
      "an_status ans < 300"
    and a: "a = sign_owner X kind did sk num b bf kp" "body_fits b" "num \<le> u64_max"
    and laws: "json_sound X N" "setting_route C route"
    and target: "did \<noteq> []" "url_part did" "did_parse did = Ok (Did did)" "kind \<noteq> []" "url_part kind" "\<not> is_chain_kind kind"
      "case sk of None \<Rightarrow> True | Some k \<Rightarrow> k \<noteq> [] \<and> url_part k"
  shows "\<exists>ack. load_assertion (as_store (fst p')) did kind sk = Ok (Some (a, ack))"
proof -
  let ?q = "request C HPut (assertion_path did kind sk) [] (record_text X a)"
  let ?rt = "case sk of None \<Rightarrow> RtPutAssertion did kind | Some k \<Rightarrow> RtPutAssertionSubkey did kind k"
  have rt: "route (hq_method ?q) (hq_url ?q) = (?rt, None)"
    using laws(2) target by (simp add: setting_route_def request_def)
  obtain s2 resp where r: "run_route X N (mo_between (E n) s) (server_request (E n) ?q None) ?rt = (s2, Ok resp)" "p' = (s2, n + 1)"
    by (rule server_success [OF sent rt], rule that)
  have q: "rq_headers (server_request (E n) ?q None) = Map.empty" "rq_body (server_request (E n) ?q None) = record_text X a"
    by (simp_all add: server_request_def request_def)
  obtain s1 out where w: "op_put_assertion X N (mo_between (E n) s) did kind sk (record_text X a) None = (s1, Ok out)" "as_store s2 = as_store s1"
    by (rule run_put_setting [OF r(1) q(1) target(3)]) (simp add: q(2) that)
  obtain a' st1 where w': "write_record X N (as_provider (mo_between (E n) s)) did kind sk (record_text X a) None = Ok a'"
    and st: "save_assertion (as_store (mo_between (E n) s)) a' (make_ack X a' (pv_attest_keypair (as_provider (mo_between (E n) s)))) = (st1, Ok ())"
      "as_store s1 = st1 \<or> (\<exists>v. as_store s1 = put_meta st1 (baseline_key did) v)"
    using target(6) by (rule_tac op_put_assertion_Ok [OF w(1)]) (auto split: if_splits)
  have a': "a' = a" "sa_did a = did" "sa_kind a = kind" "sa_subkey a = sk"
    using w' record_read [OF laws(1) a(2,3), of kind did sk bf kp a'] by (auto simp: write_record_def a(1) split: option.splits if_splits)
  have "load_assertion (as_store s1) = load_assertion st1" using st(2) by (auto simp: load_assertion_def fun_eq_iff)
  then show ?thesis using save_assertion_Ok(1) [OF st(1)] by (simp add: r(2) w(2) a')
qed

lemma policy_body_fits: "body_fits (ser_policy_body b)"
  by (simp add: body_fits_def ser_policy_body_def list_all_iff comp_def)

lemma on_net_Ok: "on_net f (d, s) = (c', Ok v) \<longleftrightarrow> (\<exists>s'. f s = (s', Ok v) \<and> c' = (d, s'))"
  by (auto simp: on_net_def split: prod.splits)

lemma following_seq_bound: "following_seq current = Ok m \<Longrightarrow> m \<le> u64_max"
  by (simp add: following_seq_def split: if_splits)

text \<open>What a client needs of the server's address and of the libraries for a setting of its own.\<close>

definition setting_laws :: "ext \<Rightarrow> net \<Rightarrow> Client \<Rightarrow> (HttpMethod \<Rightarrow> string \<Rightarrow> Route \<times> string option) \<Rightarrow> bool" where
  "setting_laws X N C route \<longleftrightarrow> hex_law X \<and> digest_law X \<and> json_sound X N \<and> setting_route C route"

lemma own_setting_stored:
  assumes "server_send X N display route E p (request C HPut (assertion_path did kind sk) [] (record_text X a)) = (p', Inr ans)" "an_status ans < 300"
    and "a = sign_owner X kind did sk num b bf kp" "body_fits b" "num \<le> u64_max" "setting_laws X N C route"
    and "did = sn_did (session_for X kp)" "kind \<noteq> []" "url_part kind" "\<not> is_chain_kind kind"
      "case sk of None \<Rightarrow> True | Some k \<Rightarrow> k \<noteq> [] \<and> url_part k"
  shows "assertion_json_row (as_store (fst p')) did kind sk = Some (Some a)"
proof -
  obtain s n where p: "p = (s, n)" by (cases p)
  have l: "hex_law X" "digest_law X" "json_sound X N" "setting_route C route" using assms(6) by (simp_all add: setting_laws_def)
  obtain ack where "load_assertion (as_store (fst p')) did kind sk = Ok (Some (a, ack))"
    using setting_stored [OF assms(1) [unfolded p] assms(2-5) l(3,4)] did_of_key [OF l(1,2), of kp] assms(7-) by auto
  then show ?thesis by (auto simp: load_assertion_def assertion_json_row_def split: option.splits)
qed

lemma setting_kinds:
  assumes "kind \<in> {POLICY_KIND, CEILING_DIAL_KIND, PERIOD_DIAL_KIND, ACCOUNT_MODE_DIAL_KIND, RECEIPT_MODE_DIAL_KIND}"
  shows "kind \<noteq> []" "url_part kind" "\<not> is_chain_kind kind"
proof -
  show "\<not> is_chain_kind kind" using assms by (auto simp: is_chain_kind_def POLICY_SPEC_def dial_spec_def)
  show "kind \<noteq> []" "url_part kind"
    using assms by (auto simp: kind_defs url_part_def unreserved_def is_ascii_alphanumeric_def is_ascii_lowercase_def)
qed

lemma acl_set_effect:
  assumes "acl_set M C kp cid class readers j (d, p) = ((d', p'), Ok out)"
    and "mc_http M = server_http (mc_ext M) (mc_net M) display route E je" "setting_laws (mc_ext M) (mc_net M) C route" "cid \<noteq> []" "url_part cid"
  obtains rc where "parse_class (mc_debug M) class = Ok rc" "d' = d"
    "resolve_policy (as_store (fst p')) (sn_did (session_for (mc_ext M) kp)) (Some cid) = \<lparr>rp_read_class = rc, rp_readers = readers\<rparr>"
proof -
  let ?X = "mc_ext M" and ?N = "mc_net M" and ?H = "mc_http M"
  let ?did = "sn_did (session_for ?X kp)"
  obtain rc p1 current m p2 seq where r: "parse_class (mc_debug M) class = Ok rc" "following_seq current = Ok m"
    and put: "put_object_policy ?N ?H C ?did cid (record_text ?X (sign_owner ?X POLICY_KIND ?did (Some cid) m
        (ser_policy_body \<lparr>pb_read_class = rc, pb_readers = readers\<rparr>) (policy_body_fold \<lparr>pb_read_class = rc, pb_readers = readers\<rparr>) kp)) p1 = (p2, Ok seq)"
    and out: "d' = d" "p' = p2"
    using assms(1) by (auto simp: acl_set_def sbind_Ok on_net_Ok Let_def)
  let ?b = "\<lparr>pb_read_class = rc, pb_readers = readers\<rparr>"
  let ?a = "sign_owner ?X POLICY_KIND ?did (Some cid) m (ser_policy_body ?b) (policy_body_fold ?b) kp"
  have path: "''/'' @ ?did @ ''/assertion/policy/'' @ cid = assertion_path ?did POLICY_KIND (Some cid)"
    by (simp add: assertion_path_def POLICY_KIND_def)
  obtain ans where send: "server_send ?X ?N display route E p1 (request C HPut (assertion_path ?did POLICY_KIND (Some cid)) [] (record_text ?X ?a)) =
      (p2, Inr ans)" "an_status ans < 300"
    using put unfolding put_object_policy_def put_policy_as_def path by (auto simp: sbind_Ok send_ok_Ok assms(2) server_http_def)
  have "assertion_json_row (as_store (fst p2)) ?did POLICY_KIND (Some cid) = Some (Some ?a)"
    by (rule own_setting_stored [OF send refl policy_body_fits following_seq_bound [OF r(2)] assms(3) refl setting_kinds])
      (simp_all add: assms(4,5))
  then have "resolve_policy (as_store (fst p2)) ?did (Some cid) = from_body ?b"
    by (simp add: resolve_policy_def resolved_from_json_def sign_owner_def de_ser_policy)
  then show thesis using that r(1) out by (simp add: from_body_def)
qed

lemma mode_body_fits: "body_fits (JObj [(''mode'', JStr m)])"
  by (simp add: body_fits_def)

text \<open>The account-mode dial, likewise.\<close>

lemma dial_account_mode_effect:
  assumes "dial_account_mode M C j cfg drawdown active (d, p) = ((d', p'), Ok out)"
    and "mc_http M = server_http (mc_ext M) (mc_net M) display route E je" "setting_laws (mc_ext M) (mc_net M) C route"
  obtains kp where "load_keypair (mc_ext M) (mc_hex_error M) d cfg = Ok kp" "d' = d"
    "account_mode (as_store (fst p')) (sn_did (session_for (mc_ext M) kp)) = (if drawdown then Drawdown else Active)"
proof -
  let ?X = "mc_ext M" and ?N = "mc_net M" and ?H = "mc_http M" and ?m = "if drawdown then Drawdown else Active"
  obtain kp current p1 seq ack where k: "load_keypair ?X (mc_hex_error M) d cfg = Ok kp"
    and a: "dial_assert M C kp ACCOUNT_MODE_DIAL_KIND current (JObj [(''mode'', ser_account_mode ?m)]) (account_mode_body_fold \<lparr>am_mode = ?m\<rparr>) (d, p1) =
      ((d', p'), Ok (seq, ack))"
    using assms(1) by (cases "drawdown = active") (auto simp: dial_account_mode_def dial_current_def sbind_Ok on_net_Ok Let_def, blast+)
  let ?did = "sn_did (session_for ?X kp)"
  obtain n p2 where n: "following_seq current = Ok n" and out: "d' = d" "p' = p2"
    and put: "client_put_assertion ?N ?H C ?did ACCOUNT_MODE_DIAL_KIND None (record_text ?X (sign_owner ?X ACCOUNT_MODE_DIAL_KIND ?did None n
      (JObj [(''mode'', ser_account_mode ?m)]) (account_mode_body_fold \<lparr>am_mode = ?m\<rparr>) kp)) p1 = (p2, Ok (seq, ack))"
    using a by (auto simp: dial_assert_def sbind_Ok on_net_Ok session_for_def Let_def)
  let ?a = "sign_owner ?X ACCOUNT_MODE_DIAL_KIND ?did None n (JObj [(''mode'', ser_account_mode ?m)]) (account_mode_body_fold \<lparr>am_mode = ?m\<rparr>) kp"
  obtain ans where send: "server_send ?X ?N display route E p1 (request C HPut (assertion_path ?did ACCOUNT_MODE_DIAL_KIND None) [] (record_text ?X ?a)) =
      (p2, Inr ans)" "an_status ans < 300"
    using put by (auto simp: client_put_assertion_def sbind_Ok send_ok_Ok assms(2) server_http_def)
  have "assertion_json_row (as_store (fst p2)) ?did ACCOUNT_MODE_DIAL_KIND None = Some (Some ?a)"
    by (rule own_setting_stored [OF send refl _ following_seq_bound [OF n] assms(3) refl setting_kinds])
      (simp_all add: ser_account_mode_def mode_body_fits)
  then have "account_mode (as_store (fst p2)) ?did = ?m"
    by (simp add: account_mode_def sign_owner_def de_account_mode_body_def struct_fields_def req_def ser_account_mode_def de_account_mode_def
        de_unit_enum_def)
  then show thesis using that k out by simp
qed

lemma on_io_Ok:
  "on_io f c = (c', Ok v) \<longleftrightarrow> (\<exists>d s. f (ct_disk c, ct_server c) = ((d, s), Ok v) \<and> c' = c\<lparr>ct_disk := d, ct_server := s\<rparr>)"
  by (cases "f (ct_disk c, ct_server c)") (auto simp: on_io_def split: prod.splits)

text \<open>The command itself, run with the profile's key.\<close>

text \<open>The class the argument names.\<close>

definition asked_class :: "ReadClassArg \<Rightarrow> ReadClass" where
  "asked_class k = (case k of ArgWorld \<Rightarrow> World | ArgGrantees \<Rightarrow> Grantees | ArgOwner \<Rightarrow> OwnerOnly)"

lemma parse_class_arg: "parse_class debug (read_class_arg k) = Ok (asked_class k)"
  by (cases k) (simp_all add: parse_class_def asked_class_def)

lemma acl_command_effect:
  assumes "cli_dispatch S g (AclCmd (AclSet cid class readers)) c = (c', Ok out)" "ga_identity g = IdKind"
    and "mc_http (sn_machine S) = server_http (mc_ext (sn_machine S)) (mc_net (sn_machine S)) display route E je"
    and "setting_laws (mc_ext (sn_machine S)) (mc_net (sn_machine S)) (server_client g) route" "cid \<noteq> []" "url_part cid"
  obtains cfg kp where "config_new (mc_env (sn_machine S)) (ga_profile g) = Ok cfg"
    "load_keypair (mc_ext (sn_machine S)) (mc_hex_error (sn_machine S)) (ct_disk c) cfg = Ok kp"
    "ct_disk c' = ct_disk c"
    "resolve_policy (as_store (fst (ct_server c'))) (sn_did (session_for (mc_ext (sn_machine S)) kp)) (Some cid) =
       \<lparr>rp_read_class = asked_class class, rp_readers = readers\<rparr>"
proof -
  obtain cfg kp d' p' where r: "config_new (mc_env (sn_machine S)) (ga_profile g) = Ok cfg"
      "load_keypair (mc_ext (sn_machine S)) (mc_hex_error (sn_machine S)) (ct_disk c) cfg = Ok kp"
    and a: "acl_set (sn_machine S) (server_client g) kp cid (read_class_arg class) readers (ga_json g) (ct_disk c, ct_server c) = ((d', p'), Ok out)"
    and c': "ct_disk c' = d'" "ct_server c' = p'"
    using assms(1,2) by (auto simp: cli_dispatch_def io_dispatch_def on_io_Ok keypair_of_def sbind_Ok Let_def)
  show thesis
    by (rule acl_set_effect [OF a assms(3-6)]) (rule that [OF r], simp_all add: c' parse_class_arg)
qed

section \<open>What the commands do to the disk\<close>

fun output_of :: "Commands \<Rightarrow> string option" where
  "output_of (GetCmd cid output owner via) = output"
| "output_of _ = None"

text \<open>A relation between the disk before and after that the few operations on it keep; \<open>allowed\<close> are the paths
  a download may be written to.\<close>

locale disk_rule =
  fixes keeps :: "Disk \<Rightarrow> Disk \<Rightarrow> bool" and allowed :: "string \<Rightarrow> bool"
  assumes keeps_refl: "keeps d d"
    and keeps_trans: "keeps d d1 \<Longrightarrow> keeps d1 d2 \<Longrightarrow> keeps d d2"
    and create_dir: "keeps d (fst (create_dir_all d p))"
    and seed: "keeps d (fst (write_seed X d cfg sd))"
    and credential: "keeps d (fst (save_credential X d cfg cred))"
    and label: "keeps d (fst (disk_write d (path_join (profile_dir cfg) ''device_id'') b))"
    and download: "allowed path \<Longrightarrow> keeps d (fst (write_atomic path b d))"
begin

lemma disk_sbind:
  "keeps d (fst p) \<Longrightarrow> (\<And>d1 a. keeps d d1 \<Longrightarrow> keeps d (fst (f d1 a))) \<Longrightarrow> keeps d (fst (sbind p f))"
  by (auto simp: sbind_def split: prod.splits result.splits)

lemma run_sbind:
  "keeps d (fst (fst p)) \<Longrightarrow> (\<And>c a. keeps d (fst c) \<Longrightarrow> keeps d (fst (fst (f c a)))) \<Longrightarrow> keeps d (fst (fst (sbind p f)))"
  by (auto simp: sbind_def split: prod.splits result.splits)

lemma cli_sbind:
  "keeps d (ct_disk (fst p)) \<Longrightarrow> (\<And>c a. keeps d (ct_disk c) \<Longrightarrow> keeps d (ct_disk (fst (f c a)))) \<Longrightarrow> keeps d (ct_disk (fst (sbind p f)))"
  by (auto simp: sbind_def split: prod.splits result.splits)

lemma net_keeps: "keeps d (fst c) \<Longrightarrow> keeps d (fst (fst (on_net f c)))"
  by (cases c) (auto simp: on_net_def split: prod.splits)

lemma disk_keeps: "keeps d (fst c) \<Longrightarrow> (\<And>d1. keeps d1 (fst (f d1))) \<Longrightarrow> keeps d (fst (fst (on_disk f c)))"
proof -
  assume h: "keeps d (fst c)" "\<And>d1. keeps d1 (fst (f d1))"
  have "fst (fst (on_disk f c)) = fst (f (fst c))" by (cases c) (auto simp: on_disk_def split: prod.splits)
  then show ?thesis using keeps_trans [OF h(1) h(2) [of "fst c"]] by simp
qed

lemma pure_keeps: "keeps d (fst c) \<Longrightarrow> keeps d (fst (fst (c, r)))" "keeps d d1 \<Longrightarrow> keeps d (fst (d1, q))"
  "keeps d (ct_disk cc) \<Longrightarrow> keeps d (ct_disk (fst (cc, r)))"
  by simp_all

lemmas rules = run_sbind net_keeps disk_keeps pure_keeps keeps_refl

lemmas writes = keeps_trans [OF _ seed] keeps_trans [OF _ create_dir] keeps_trans [OF _ label] keeps_trans [OF _ credential]

lemma generate_keeps: "keeps d (fst (generate X entropy cfg d))"
  unfolding generate_def by (auto intro!: disk_sbind writes keeps_refl)

lemma import_keeps: "keeps d (fst (import_key X ssh cfg path d))"
  unfolding import_key_def by (auto intro!: disk_sbind writes keeps_refl split: sum.splits option.splits)

lemma device_id_keeps: "keeps d (fst (device_id entropy cfg d))"
  unfolding device_id_def Let_def by (auto intro!: disk_sbind writes keeps_refl split: result.splits)

lemma profile_ledger_keeps: "keeps d (fst (profile_ledger op_l env profile d))"
  unfolding profile_ledger_def Let_def by (auto intro!: disk_sbind writes keeps_refl)

lemmas steps = keeps_trans [OF _ generate_keeps] keeps_trans [OF _ import_keeps] keeps_trans [OF _ device_id_keeps] keeps_trans [OF _ profile_ledger_keeps]

lemma key_dispatch_keeps: "keeps d (fst (key_dispatch M g cfg cmd d))"
  unfolding key_dispatch_def Let_def by (cases cmd) (auto intro!: disk_sbind steps keeps_refl)

text \<open>The commands that change nothing on the disk but a download.\<close>

lemma object_keeps:
  "keeps d (fst c) \<Longrightarrow> keeps d (fst (fst (object_put M C session path via j c)))"
  "keeps d (fst c) \<Longrightarrow> (\<And>p. output = Some p \<Longrightarrow> allowed p) \<Longrightarrow> keeps d (fst (fst (object_get M C so did cid output via j c)))"
  "keeps d (fst c) \<Longrightarrow> keeps d (fst (fst (object_meter M C session j c)))"
  "keeps d (fst c) \<Longrightarrow> keeps d (fst (fst (object_ls M C so did j c)))"
  unfolding object_put_def object_get_def object_meter_def object_ls_def
  by (auto intro!: rules download split: Plane.splits option.splits)

lemma acl_keeps:
  "keeps d (fst c) \<Longrightarrow> keeps d (fst (fst (acl_set M C kp cid class readers j c)))"
  "keeps d (fst c) \<Longrightarrow> keeps d (fst (fst (acl_set_model_c M C did cid class readers tokens j c)))"
  "keeps d (fst c) \<Longrightarrow> keeps d (fst (fst (acl_get M C kp cid j c)))"
  "keeps d (fst c) \<Longrightarrow> keeps d (fst (fst (acl_get_model_c M C did cid token j c)))"
  unfolding acl_set_def acl_set_model_c_def acl_get_def acl_get_model_c_def Let_def by (auto intro!: rules)

lemma dial_keeps: "keeps d (fst c) \<Longrightarrow> keeps d (fst (fst (dial_dispatch M g cfg cmd c)))"
  unfolding dial_dispatch_def Let_def dial_ceiling_def dial_period_def dial_account_mode_def dial_receipt_mode_def dial_countersign_def
    dial_current_def dial_assert_def
  by (auto intro!: rules split: DialCommand.splits)

lemma login_keeps: "keeps d (fst c) \<Longrightarrow> keeps d (fst (fst (login M g cfg pds identifier c)))"
  unfolding login_def Let_def by (auto intro!: rules credential)

lemma did_keeps:
  "keeps d (fst c) \<Longrightarrow> keeps d (fst (fst (did_put M g cfg path via c)))"
  "keeps d (fst c) \<Longrightarrow> (\<And>p. output = Some p \<Longrightarrow> allowed p) \<Longrightarrow> keeps d (fst (fst (did_get M g cfg cid output owner via c)))"
  "keeps d (fst c) \<Longrightarrow> keeps d (fst (fst (did_acl_set M g cfg cid class readers c)))"
  "keeps d (fst c) \<Longrightarrow> keeps d (fst (fst (did_acl_get M g cfg cid c)))"
  "keeps d (fst c) \<Longrightarrow> keeps d (fst (fst (did_meter M g cfg c)))"
  "keeps d (fst c) \<Longrightarrow> keeps d (fst (fst (did_du M g cfg c)))"
  "keeps d (fst c) \<Longrightarrow> keeps d (fst (fst (did_ls M g cfg c)))"
  unfolding did_put_def did_get_def did_acl_set_def did_acl_get_def did_meter_def did_du_def did_ls_def did_tokens_def resolve_aud_def
  by (auto intro!: rules object_keeps acl_keeps split: option.splits)

lemma io_dispatch_keeps:
  assumes "\<And>p. output_of cmd = Some p \<Longrightarrow> allowed p"
  shows "keeps (fst c) (fst (fst (io_dispatch M g cfg cmd c)))"
  using assms unfolding io_dispatch_def Let_def
  by (cases cmd) (auto intro!: rules key_dispatch_keeps login_keeps object_keeps did_keeps acl_keeps dial_keeps split: AclCommand.splits)

lemma on_io_keeps: "keeps d (ct_disk c) \<Longrightarrow> (\<And>c1. keeps (fst c1) (fst (fst (f c1)))) \<Longrightarrow> keeps d (ct_disk (fst (on_io f c)))"
proof -
  assume h: "keeps d (ct_disk c)" "\<And>c1. keeps (fst c1) (fst (fst (f c1)))"
  have "ct_disk (fst (on_io f c)) = fst (fst (f (ct_disk c, ct_server c)))" by (auto simp: on_io_def split: prod.splits)
  then show ?thesis using keeps_trans [OF h(1)] h(2) [of "(ct_disk c, ct_server c)"] by simp
qed

lemma on_config_keeps: "keeps d (ct_disk c) \<Longrightarrow> (\<And>d1. keeps d1 (fst (f d1))) \<Longrightarrow> keeps d (ct_disk (fst (on_config f c)))"
proof -
  assume h: "keeps d (ct_disk c)" "\<And>d1. keeps d1 (fst (f d1))"
  have "ct_disk (fst (on_config f c)) = fst (f (ct_disk c))" by (auto simp: on_config_def split: prod.splits)
  then show ?thesis using keeps_trans [OF h(1) h(2)] by simp
qed

lemma net_run_keeps: "keeps d (ct_disk c) \<Longrightarrow> keeps d (ct_disk (fst (on_io (on_net f) c)))"
  by (rule on_io_keeps) (auto intro: net_keeps keeps_refl)

lemma engine_disk:
  "ct_disk (fst (on_world S op f c)) = ct_disk c" "ct_disk (fst (on_state S op h c)) = ct_disk c"
  "ct_disk (fst (on_mesh S op P k c)) = ct_disk c"
  by (auto simp: on_world_def on_state_def on_mesh_def Let_def split: prod.splits)

lemma engine_keeps:
  "keeps d (ct_disk c) \<Longrightarrow> keeps d (ct_disk (fst (on_world S op f c)))" "keeps d (ct_disk c) \<Longrightarrow> keeps d (ct_disk (fst (on_state S op h c)))"
  "keeps d (ct_disk c) \<Longrightarrow> keeps d (ct_disk (fst (on_mesh S op P k c)))"
  by (simp_all add: engine_disk)

lemma resolve_state_keeps: "keeps d (ct_disk c) \<Longrightarrow> keeps d (ct_disk (fst (resolve_state S g dir sd c)))"
  unfolding resolve_state_def Let_def by (intro cli_sbind pure_keeps on_config_keeps profile_ledger_keeps)

lemma spawn_keeps: "keeps d (ct_disk c) \<Longrightarrow> keeps d (ct_disk (fst (spawn_mesh S op bootstrap relay c)))"
  unfolding spawn_mesh_def
  by (auto intro!: cli_sbind split: prod.splits)

lemmas sync_rules = cli_sbind pure_keeps engine_keeps resolve_state_keeps on_config_keeps device_id_keeps net_run_keeps

lemma sync_keeps:
  assumes "keeps d (ct_disk c)"
  shows "keeps d (ct_disk (fst (sync_evict S g cfg dir paths sd c)))" "keeps d (ct_disk (fst (sync_converge S g cfg dir sd c)))"
    "keeps d (ct_disk (fst (sync_price S g cfg dir sd c)))" "keeps d (ct_disk (fst (sync_hydrate S g cfg dir paths sd c)))"
  unfolding sync_evict_def sync_converge_def sync_price_def sync_hydrate_def Let_def
  by (intro sync_rules assms; assumption)+

lemma sync_local_keeps:
  assumes "keeps d (ct_disk c)"
  shows "keeps d (ct_disk (fst (sync_status S g cfg dir sd c)))" "keeps d (ct_disk (fst (sync_restore S g cfg manifest c)))"
    "keeps d (ct_disk (fst (sync_ceiling S g cfg dir ca sd c)))"
  unfolding sync_status_def sync_restore_def sync_ceiling_def Let_def
  by (auto intro!: sync_rules assms split: result.splits prod.splits)

lemma sync_backup_keeps:
  assumes "keeps d (ct_disk c)"
  shows "keeps d (ct_disk (fst (sync_backup S g cfg dir sd no_state c)))"
proof -
  have "keeps d (ct_disk c1)" if "resolve_state S g dir sd c0 = (c1, r)" "keeps d (ct_disk c0)" for c0 c1 r
    using resolve_state_keeps [OF that(2), of S g dir sd] that(1) by simp
  then show ?thesis
    unfolding sync_backup_def Let_def by (auto intro!: sync_rules assms split: prod.splits)
qed

lemma sync_p2p_keeps:
  assumes "keeps d (ct_disk c)"
  shows "keeps d (ct_disk (fst (sync_p2p_share S g cfg dir relay sd c)))" "keeps d (ct_disk (fst (sync_p2p_converge S g cfg dir ticket relay sd c)))"
proof -
  have m: "keeps d (ct_disk (fst (case spawn_mesh S op b relay c of (c, r) \<Rightarrow> (c, map_err (sn_text S) r))))" if "keeps d (ct_disk c)" for op b c
    using spawn_keeps [OF that, of S op b relay] by (cases "spawn_mesh S op b relay c") simp
  show "keeps d (ct_disk (fst (sync_p2p_share S g cfg dir relay sd c)))"
    unfolding sync_p2p_share_def Let_def by (auto intro!: sync_rules m assms)
  show "keeps d (ct_disk (fst (sync_p2p_converge S g cfg dir ticket relay sd c)))"
    unfolding sync_p2p_converge_def Let_def by (auto intro!: sync_rules m assms split: prod.splits)
qed

text \<open>Every command.\<close>

lemma cli_dispatch_keeps:
  assumes "\<And>p. output_of cmd = Some p \<Longrightarrow> allowed p"
  shows "keeps (ct_disk c) (ct_disk (fst (cli_dispatch S g cmd c)))"
proof -
  have "keeps (ct_disk c0) (ct_disk (fst (sync_dispatch S g cfg s c0)))" for c0 cfg s
    unfolding sync_dispatch_def
    by (auto intro!: sync_keeps sync_local_keeps sync_backup_keeps sync_p2p_keeps keeps_refl split: SyncCommand.splits P2pCommand.splits)
  moreover have "keeps (ct_disk c0) (ct_disk (fst (on_io (io_dispatch M g cfg cmd) c0)))" for c0 M cfg
    by (rule on_io_keeps [OF keeps_refl io_dispatch_keeps]) (rule assms)
  ultimately show ?thesis
    by (auto simp: cli_dispatch_def sbind_def keeps_refl split: result.splits Commands.splits)
qed

end

section \<open>Keys and secrets\<close>

definition file_named :: "string \<Rightarrow> string \<Rightarrow> bool" where
  "file_named n p \<longleftrightarrow> (\<exists>dir. p = dir @ n)"

definition secret_path :: "string \<Rightarrow> bool" where
  "secret_path p \<longleftrightarrow> file_named ''identity.key'' p \<or> file_named ''pds.json'' p"

lemma file_named_by: "p = dir @ n \<Longrightarrow> file_named n p"
  by (auto simp: file_named_def)

lemma file_named_last: "file_named n p \<Longrightarrow> n \<noteq> [] \<Longrightarrow> last p = last n"
  by (auto simp: file_named_def)

lemma path_join_file_named: "n \<noteq> [] \<Longrightarrow> \<not> starts_with ''/'' n \<Longrightarrow> file_named n (path_join b n)"
  by (auto simp: path_join_def file_named_def)

lemma path_names:
  "file_named ''identity.key'' (key_path cfg)" "file_named ''pds.json'' (credential_path cfg)" "\<not> file_named ''identity.key'' (credential_path cfg)"
  "\<not> secret_path (path_join (profile_dir cfg) ''device_id'')"
proof -
  have l: "last (path_join b ''pds.json'') = CHR ''n''" "last (path_join b ''device_id'') = CHR ''d''" for b
    by (auto simp: path_join_def starts_with_def)
  show "file_named ''identity.key'' (key_path cfg)" "file_named ''pds.json'' (credential_path cfg)"
    unfolding key_path_def credential_path_def by (rule path_join_file_named; simp add: starts_with_def)+
  show "\<not> file_named ''identity.key'' (credential_path cfg)" using file_named_last l by (fastforce simp: credential_path_def)
  show "\<not> secret_path (path_join (profile_dir cfg) ''device_id'')"
    using file_named_last l by (fastforce simp: secret_path_def)
qed

lemma tmp_name_plain: "\<not> secret_path p \<Longrightarrow> \<not> secret_path (with_extension p ''ciss-download-tmp'')"
proof -
  assume p: "\<not> secret_path p"
  have "last (with_extension p ''ciss-download-tmp'') = CHR ''p'' \<or> with_extension p ''ciss-download-tmp'' = p"
    by (auto simp: with_extension_def split: option.splits)
  then show ?thesis using p file_named_last by (fastforce simp: secret_path_def)
qed

text \<open>The files of a disk after each operation.\<close>

lemma create_dir_files: "dk_files (fst (create_dir_all d p)) = dk_files d"
  by (simp add: create_dir_all_def split: option.splits)

lemma create_dir_Ok: "create_dir_all d p = (d', Ok u) \<Longrightarrow> map_of (dk_files d) p = None \<and> dk_files d' = dk_files d"
  by (cases "map_of (dk_files d) p") (auto simp: create_dir_all_def split: option.splits)

lemma chmod_other: "q \<noteq> p \<Longrightarrow> map_of (dk_files (fst (set_permissions d p m))) q = map_of (dk_files d) q"
  by (simp add: set_permissions_def update_conv split: option.splits prod.splits)

lemma chmod_dir: "map_of (dk_files d) p = None \<Longrightarrow> dk_files (fst (set_permissions d p m)) = dk_files d"
  by (simp add: set_permissions_def split: option.splits)

lemma write_all_files:
  "\<exists>b'. map_of (dk_files (fst (write_all d p m b))) = (map_of (dk_files d))(p \<mapsto> (b', m))"
  by (cases "dk_write_fault d p") (auto simp: write_all_def update_conv' split: prod.splits intro: exI)

lemma write_all_other: "q \<noteq> p \<Longrightarrow> map_of (dk_files (fst (write_all d p m b))) q = map_of (dk_files d) q"
  using write_all_files [of d p m b] by auto

lemma rename_other:
  "q \<noteq> p \<Longrightarrow> q \<noteq> p' \<Longrightarrow> map_of (dk_files (fst (disk_rename d p p'))) q = map_of (dk_files d) q"
  by (simp add: disk_rename_def update_conv' delete_conv' split: option.splits)

text \<open>
  What no command does: overwrite, remove or shorten a key that is there (\<open>keys_kept\<close>), or leave a file of
  secrets readable by anyone but its owner (\<open>secrets_private\<close>, with mode 0600). A path is taken as the name of its file.
\<close>

definition keys_kept :: "Disk \<Rightarrow> Disk \<Rightarrow> bool" where
  "keys_kept d d' \<longleftrightarrow>
     (\<forall>p v. file_named ''identity.key'' p \<and> map_of (dk_files d) p = Some v \<longrightarrow> map_of (dk_files d') p = Some v)"

definition secrets_private :: "Disk \<Rightarrow> bool" where
  "secrets_private d \<longleftrightarrow> (\<forall>p b m. secret_path p \<and> map_of (dk_files d) p = Some (b, m) \<longrightarrow> m = 384)"

definition guarded :: "Disk \<Rightarrow> Disk \<Rightarrow> bool" where
  "guarded d d' \<longleftrightarrow> keys_kept d d' \<and> (secrets_private d \<longrightarrow> secrets_private d')"

lemma guarded_refl: "guarded d d"
  by (simp add: guarded_def keys_kept_def)

lemma guarded_trans: "guarded d d1 \<Longrightarrow> guarded d1 d2 \<Longrightarrow> guarded d d2"
  unfolding guarded_def keys_kept_def by blast

lemma guarded_other:
  "(\<And>q. secret_path q \<Longrightarrow> map_of (dk_files d') q = map_of (dk_files d) q) \<Longrightarrow> guarded d d'"
  unfolding guarded_def keys_kept_def secrets_private_def by (metis secret_path_def)

lemma guarded_same: "dk_files d' = dk_files d \<Longrightarrow> guarded d d'"
  by (rule guarded_other) simp

lemma guarded_sbind:
  "guarded d (fst p) \<Longrightarrow> (\<And>d1 a. p = (d1, Ok a) \<Longrightarrow> guarded d1 (fst (f d1 a))) \<Longrightarrow> guarded d (fst (sbind p f))"
  by (auto simp: sbind_def split: prod.splits result.splits intro: guarded_trans)

lemma in_context_fst [simp]: "fst (in_context t p) = fst p"
  by (simp add: in_context_def split: prod.splits)

lemma in_context_Ok [simp]: "in_context t p = (d, Ok a) \<longleftrightarrow> p = (d, Ok a)"
  by (cases "snd p") (auto simp: in_context_def with_context_def split: prod.splits)

lemma with_context_Ok [simp]: "with_context t r = Ok a \<longleftrightarrow> r = Ok a"
  by (cases r) (auto simp: with_context_def)

lemma guarded_write:
  assumes "file_named ''identity.key'' p \<Longrightarrow> map_of (dk_files d) p = None"
    and "\<And>b m'. secret_path p \<Longrightarrow> secrets_private d \<Longrightarrow> m = 384"
  shows "guarded d (fst (write_all d p m b))"
proof -
  obtain b' where f: "map_of (dk_files (fst (write_all d p m b))) = (map_of (dk_files d))(p \<mapsto> (b', m))"
    using write_all_files by blast
  show ?thesis
    using assms unfolding guarded_def keys_kept_def secrets_private_def f by auto
qed

lemma profile_dir_steps:
  assumes "\<And>d1. dk_files d1 = dk_files d \<Longrightarrow> guarded d1 (fst (f d1))"
  shows "guarded d (fst (sbind (in_context t (create_dir_all d dir)) (\<lambda>d _. sbind (tighten_dir d dir) (\<lambda>d _. f d))))"
proof (rule guarded_sbind)
  show "guarded d (fst (in_context t (create_dir_all d dir)))"
    by (simp add: guarded_same create_dir_files)
  fix d1 u assume "in_context t (create_dir_all d dir) = (d1, Ok u)"
  then have d1: "map_of (dk_files d1) dir = None" "dk_files d1 = dk_files d"
    using create_dir_Ok by fastforce+
  have s: "dk_files (fst (tighten_dir d1 dir)) = dk_files d1"
    using d1 by (simp add: tighten_dir_def chmod_dir)
  show "guarded d1 (fst (sbind (tighten_dir d1 dir) (\<lambda>d _. f d)))"
  proof (rule guarded_sbind)
    show "guarded d1 (fst (tighten_dir d1 dir))" using s by (rule guarded_same)
    fix d2 v assume "tighten_dir d1 dir = (d2, Ok v)"
    then show "guarded d2 (fst (f d2))" using s d1 assms by simp
  qed
qed

lemma open_new_free: "open_new d p m = Ok m' \<Longrightarrow> map_of (dk_files d) p = None \<and> m' = m"
  by (cases "map_of (dk_files d) p") (auto simp: open_new_def disk_exists_def split: option.splits if_splits)

lemma guarded_seed: "guarded d (fst (write_seed X d cfg sd))"
proof -
  have "guarded d1 (fst (write_secret_file d1 p b))" for d1 p b
    unfolding write_secret_file_def
    by (rule guarded_sbind)
       (auto simp: guarded_refl dest!: open_new_free intro!: guarded_write)
  then show ?thesis unfolding write_seed_def Let_def by (intro profile_dir_steps)
qed

lemma chmod_private: "secrets_private d \<Longrightarrow> secrets_private (fst (set_permissions d p 384))"
  unfolding secrets_private_def set_permissions_def by (auto simp: update_conv' split: option.splits if_splits)

lemma guarded_chmod: "\<not> file_named ''identity.key'' p \<Longrightarrow> guarded d (fst (set_permissions d p 384))"
proof -
  assume "\<not> file_named ''identity.key'' p"
  then have "map_of (dk_files (fst (set_permissions d p 384))) q = map_of (dk_files d) q" if "file_named ''identity.key'' q" for q
    using that by (intro chmod_other) auto
  then show ?thesis by (simp add: guarded_def keys_kept_def chmod_private)
qed

lemma open_truncate_mode:
  "open_truncate d p 384 = Ok m \<Longrightarrow> secret_path p \<Longrightarrow> secrets_private d \<Longrightarrow> m = 384"
  by (auto simp: open_truncate_def secrets_private_def split: option.splits if_splits)

lemma guarded_credential: "guarded d (fst (save_credential X d cfg cred))"
proof -
  have "guarded d1 (fst (replace_secret_file d1 (credential_path cfg) b))" for d1 b
    unfolding replace_secret_file_def
    by (rule guarded_sbind guarded_refl | auto simp: guarded_refl path_names intro!: guarded_sbind guarded_write guarded_chmod open_truncate_mode)+
  then show ?thesis unfolding save_credential_def Let_def by (intro profile_dir_steps)
qed

lemma disk_write_other: "q \<noteq> p \<Longrightarrow> map_of (dk_files (fst (disk_write d p b))) q = map_of (dk_files d) q"
  by (auto simp: disk_write_def sbind_def write_all_other split: result.splits)

lemma guarded_disk_write: "\<not> secret_path p \<Longrightarrow> guarded d (fst (disk_write d p b))"
  by (rule guarded_other, rule disk_write_other) auto

lemma guarded_download: "\<not> secret_path path \<Longrightarrow> guarded d (fst (write_atomic path b d))"
proof -
  assume p: "\<not> secret_path path"
  have "guarded d1 (fst (disk_rename d1 (with_extension path ''ciss-download-tmp'') path))" for d1
    by (rule guarded_other, rule rename_other) (use p tmp_name_plain in auto)
  then show ?thesis
    unfolding write_atomic_def Let_def
    by (intro guarded_sbind) (auto intro!: guarded_disk_write tmp_name_plain p)
qed

interpretation secrets: disk_rule guarded "\<lambda>p. \<not> secret_path p"
  by unfold_locales
     (auto intro: guarded_refl guarded_trans guarded_seed guarded_credential guarded_download guarded_disk_write
       simp: guarded_same create_dir_files path_names)

section \<open>A new key\<close>

lemma hex_text_plain:
  assumes "list_all lower_hex_char t"
  shows "is_utf8 t" "trim t = t"
proof -
  have "list_all (\<lambda>c. (of_char c :: nat) < 128) t" using assms by (auto simp: list_all_iff lower_hex_char_def is_digit_def)
  then show "is_utf8 t" unfolding is_utf8_def by (rule utf8_lossy_ascii)
  have "dropWhile is_space u = u" if "list_all lower_hex_char u" for u
    using that by (cases u) (auto simp: is_space_def lower_hex_char_def is_digit_def)
  then show "trim t = t" using assms by (simp add: trim_def)
qed

lemma create_dir_faults: "dk_fails (fst (create_dir_all d p)) = dk_fails d"
  by (simp add: create_dir_all_def split: option.splits)

lemma chmod_faults: "dk_fails (fst (set_permissions d p m)) = dk_fails d"
  by (simp add: set_permissions_def split: option.splits prod.splits)

text \<open>A seed that was written: its text at the key's path for the owner only, in a directory for the owner only.\<close>

lemma write_seed_Ok:
  assumes "write_seed X d cfg sd = (d', Ok u)"
  shows "map_of (dk_files d') (key_path cfg) = Some (hex_encode X sd, 384)" "map_of (dk_dirs d') (profile_dir cfg) = Some 448"
    "dk_fails d' = dk_fails d"
proof -
  obtain d1 d2 where m: "create_dir_all d (profile_dir cfg) = (d1, Ok ())" "set_permissions d1 (profile_dir cfg) 448 = (d2, Ok ())"
    and w: "open_new d2 (key_path cfg) 384 = Ok 384" "write_all d2 (key_path cfg) 384 (hex_encode X sd) = (d', Ok ())"
    using assms
    by (auto simp: write_seed_def write_secret_file_def tighten_dir_def Let_def sbind_Ok dest: open_new_free)
  have "map_of (dk_files d1) (profile_dir cfg) = None" using create_dir_Ok [OF m(1)] by simp
  then have dir: "map_of (dk_dirs d2) (profile_dir cfg) = Some 448"
    using m(2) by (auto simp: set_permissions_def update_conv' split: option.splits if_splits)
  have "dk_fails d2 = dk_fails d"
    using create_dir_faults [of d "profile_dir cfg"] chmod_faults [of d1 "profile_dir cfg" 448] m by simp
  then show "map_of (dk_files d') (key_path cfg) = Some (hex_encode X sd, 384)" "map_of (dk_dirs d') (profile_dir cfg) = Some 448"
    "dk_fails d' = dk_fails d"
    using w(2) dir by (auto simp: write_all_def update_conv' split: option.splits)
qed

lemma generate_Ok:
  assumes "generate X e cfg d = (d', Ok did)"
  obtains sd where "e = Ok sd" "write_seed X d cfg sd = (d', Ok ())" "did = did_of_seed X sd"
  using assms by (auto simp: generate_def sbind_Ok split: if_splits)

lemma seed_is_loaded:
  assumes "map_of (dk_files d) (key_path cfg) = Some (hex_encode X sd, m)" "dk_fails d DRead (key_path cfg) = None"
    and "hex_law X" "length sd = 32"
  shows "load_keypair X he d cfg = Ok (from_seed sd KEY_LABEL)"
  using assms hex_text_plain [of "hex_encode X sd"]
  by (simp add: load_keypair_def read_to_string_def disk_read_def decode_seed_def hex_law_def)

lemma new_key_works:
  assumes "cli_dispatch S g (KeyCmd KeyGen) c = (c', Ok out)" "config_new (mc_env (sn_machine S)) (ga_profile g) = Ok cfg"
    and "hex_law (mc_ext (sn_machine S))" "mc_entropy (sn_machine S) 32 = Ok sd" "length sd = 32"
    and "dk_fails (ct_disk c) DRead (key_path cfg) = None"
  shows "map_of (dk_files (ct_disk c')) (key_path cfg) = Some (hex_encode (mc_ext (sn_machine S)) sd, 384)"
    "map_of (dk_dirs (ct_disk c')) (profile_dir cfg) = Some 448"
    "cli_dispatch S g Whoami c' = (c', Ok out)"
    "fst (cli_dispatch S g (KeyCmd KeyGen) c') = c'"
proof -
  let ?X = "mc_ext (sn_machine S)"
  obtain d' where g: "write_seed ?X (ct_disk c) cfg sd = (d', Ok ())" "c' = c\<lparr>ct_disk := d'\<rparr>"
    and out: "out = print_did ?X (did_of_seed ?X sd) (ga_json g)"
    using assms(1,2,4)
    by (auto simp: cli_dispatch_def io_dispatch_def key_dispatch_def on_io_def on_disk_def sbind_Ok Let_def elim!: generate_Ok split: prod.splits)
  note f = write_seed_Ok [OF g(1)]
  then show "map_of (dk_files (ct_disk c')) (key_path cfg) = Some (hex_encode ?X sd, 384)"
    "map_of (dk_dirs (ct_disk c')) (profile_dir cfg) = Some 448" using g(2) by simp_all
  have l: "load_keypair ?X (mc_hex_error (sn_machine S)) d' cfg = Ok (from_seed sd KEY_LABEL)"
    using seed_is_loaded [OF f(1) _ assms(3,5)] f(3) assms(6) by simp
  show "cli_dispatch S g Whoami c' = (c', Ok out)"
    using assms(2) g(2) l out by (simp add: cli_dispatch_def io_dispatch_def on_io_def whoami_def did_of_seed_def Let_def)
  show "fst (cli_dispatch S g (KeyCmd KeyGen) c') = c'"
    using assms(2,4) g(2) f(1)
    by (simp add: cli_dispatch_def io_dispatch_def key_dispatch_def on_io_def on_disk_def generate_def disk_exists_def Let_def)
qed

end
