(* ===== verification/Resolve.thy ===== *)
theory Resolve
  imports Http
begin

text \<open>
  The resolution of atproto DIDs: the crate \<^verbatim>\<open>ciss-resolve\<close> (document parsing, URL routing, the timeout,
  caching, pinned and static resolvers) and its assembly in \<^verbatim>\<open>src/did_resolver.rs\<close>. A resolver passes the
  state of the other side through; a fetch that has not answered when the timer fires gives \<open>None\<close>. The
  interface \<open>key_source\<close> says what a layer promises of the keys it returns; each layer gives it to the layer
  around it. The cache is also a transition system, where calls overlap as the lock allows.
\<close>

section \<open>lib.rs, doc.rs\<close>

datatype ResolveError = ResolveNotFound | ResolveTimeout | BadDocument | UnsupportedKeyType | UnsupportedMethod | ResolveTransport

definition DEFAULT_PLC_DIRECTORY_URL :: string where "DEFAULT_PLC_DIRECTORY_URL = ''https://plc.directory''"

text \<open>\<open>ResolvedKeys\<close> wraps one signing key.\<close>

type_synonym resolved_keys = string
type_synonym 's did_resolver = "'s \<Rightarrow> string \<Rightarrow> bool \<Rightarrow> 's \<times> (resolved_keys, ResolveError) result"

record VerificationMethod =
  vm_id :: string
  vm_key_type :: string
  vm_public_key_multibase :: string

record DidDocument =
  dd_id :: string
  dd_verification_method :: "VerificationMethod list"

text \<open>A field with \<^verbatim>\<open>#[serde(default)]\<close>.\<close>

definition defaulted :: "'a \<Rightarrow> (json \<Rightarrow> 'a option) \<Rightarrow> json option \<Rightarrow> 'a option" where
  "defaulted d f v = (case v of None \<Rightarrow> Some d | Some j \<Rightarrow> f j)"

definition de_verification_method :: "json \<Rightarrow> VerificationMethod option" where
  "de_verification_method j =
     (case text_fields False [''id'', ''type'', ''publicKeyMultibase''] 1 j of
        Some [a, b, c] \<Rightarrow>
          (case (req de_str a, req de_str b, defaulted [] de_str c) of
             (Some x, Some y, Some z) \<Rightarrow> Some \<lparr>vm_id = x, vm_key_type = y, vm_public_key_multibase = z\<rparr>
           | _ \<Rightarrow> None)
      | _ \<Rightarrow> None)"

definition de_did_document :: "json \<Rightarrow> DidDocument option" where
  "de_did_document j =
     (case text_fields False [''id'', ''verificationMethod''] 1 j of
        Some [a, b] \<Rightarrow>
          (case (req de_str a, defaulted [] (de_vec de_verification_method) b) of
             (Some x, Some vs) \<Rightarrow> Some \<lparr>dd_id = x, dd_verification_method = vs\<rparr>
           | _ \<Rightarrow> None)
      | _ \<Rightarrow> None)"

definition ends_with :: "string \<Rightarrow> string \<Rightarrow> bool" where
  "ends_with p s \<longleftrightarrow> starts_with (rev p) (rev s)"

definition signing_key_from_doc :: "string \<Rightarrow> DidDocument \<Rightarrow> (resolved_keys, ResolveError) result" where
  "signing_key_from_doc did doc =
     (if dd_id doc \<noteq> did then Err BadDocument
      else case find (\<lambda>m. ends_with ''#atproto'' (vm_id m)) (dd_verification_method doc) of
        None \<Rightarrow> Err BadDocument
      | Some m \<Rightarrow>
          if vm_key_type m = ''Multikey'' then
            (let mb = vm_public_key_multibase m in
             if length mb < 2 \<or> \<not> starts_with ''z'' mb then Err BadDocument else Ok (''did:key:'' @ mb))
          else Err UnsupportedKeyType)"

section \<open>fetch.rs\<close>

type_synonym 's fetcher = "'s \<Rightarrow> string \<Rightarrow> 's \<times> (bytes, ResolveError) result option"

definition doc_url :: "string \<Rightarrow> string \<Rightarrow> (string, ResolveError) result" where
  "doc_url plc_base_url did =
     (if starts_with ''did:plc:'' did then Ok (plc_base_url @ ''/'' @ did)
      else case strip_prefix ''did:web:'' did of
        Some host \<Rightarrow>
          if host = [] \<or> CHR '':'' \<in> set host \<or> CHR ''/'' \<in> set host then Err UnsupportedMethod
          else Ok (''https://'' @ host @ ''/.well-known/did.json'')
      | None \<Rightarrow> Err UnsupportedMethod)"

definition document_key :: "net \<Rightarrow> string \<Rightarrow> bytes \<Rightarrow> (resolved_keys, ResolveError) result" where
  "document_key N did body =
     (case from_slice N de_did_document body of
        None \<Rightarrow> Err BadDocument
      | Some doc \<Rightarrow> signing_key_from_doc did doc)"

definition plc_web_resolve ::
  "net \<Rightarrow> 's fetcher \<Rightarrow> string \<Rightarrow> 's \<Rightarrow> string \<Rightarrow> bool \<Rightarrow> 's \<times> (resolved_keys, ResolveError) result option" where
  "plc_web_resolve N fetch plc_base_url s did force_refresh =
     (case doc_url plc_base_url did of
        Ok url \<Rightarrow>
          (case fetch s url of
             (s', None) \<Rightarrow> (s', None)
           | (s', Some r) \<Rightarrow> (s', Some (result_bind r (document_key N did))))
      | Err e \<Rightarrow> (s, Some (Err e))
      | Panic \<Rightarrow> (s, Some Panic))"

section \<open>timeout.rs, static\_resolver.rs, pinned.rs\<close>

definition timeout_resolve ::
  "('s \<Rightarrow> string \<Rightarrow> bool \<Rightarrow> 's \<times> (resolved_keys, ResolveError) result option) \<Rightarrow> 's did_resolver" where
  "timeout_resolve inner s did force_refresh =
     (case inner s did force_refresh of
        (s', Some r) \<Rightarrow> (s', r)
      | (s', None) \<Rightarrow> (s', Err ResolveTimeout))"

definition static_with :: "(string \<times> resolved_keys) list \<Rightarrow> string \<Rightarrow> string \<Rightarrow> (string \<times> resolved_keys) list" where
  "static_with keys did signing_key = AList.update did signing_key keys"

definition static_resolve :: "(string \<times> resolved_keys) list \<Rightarrow> 's did_resolver" where
  "static_resolve keys s did force_refresh =
     (s, case map_of keys did of Some k \<Rightarrow> Ok k | None \<Rightarrow> Err ResolveNotFound)"

definition pinned_resolve :: "(string \<times> resolved_keys) list \<Rightarrow> 's did_resolver \<Rightarrow> 's did_resolver" where
  "pinned_resolve pinned inner s did force_refresh =
     (case map_of pinned did of
        Some k \<Rightarrow> (s, Ok k)
      | None \<Rightarrow> inner s did force_refresh)"

section \<open>cache.rs\<close>

record CacheEntry =
  ce_expires_at_ms :: u64
  ce_keys :: resolved_keys

record CachingResolver =
  cr_cache :: "(string \<times> CacheEntry) list"
  cr_hits :: u64
  cr_misses :: u64

record CacheStats =
  cs_size :: usize
  cs_hits :: u64
  cs_misses :: u64

definition caching_new :: CachingResolver where
  "caching_new = \<lparr>cr_cache = [], cr_hits = 0, cr_misses = 0\<rparr>"

definition cache_stats :: "CachingResolver \<Rightarrow> CacheStats" where
  "cache_stats c = \<lparr>cs_size = length (cr_cache c), cs_hits = cr_hits c, cs_misses = cr_misses c\<rparr>"

text \<open>The two critical sections of a call: the read with its counter, and the write after a success. An
  atomic counter wraps.\<close>

definition cache_read :: "CachingResolver \<Rightarrow> u64 \<Rightarrow> string \<Rightarrow> bool \<Rightarrow> CachingResolver \<times> resolved_keys option" where
  "cache_read c now did force_refresh =
     (let hit = (if force_refresh then None
                 else (case map_of (cr_cache c) did of
                         Some e \<Rightarrow> if ce_expires_at_ms e > now then Some (ce_keys e) else None
                       | None \<Rightarrow> None))
      in case hit of
           Some k \<Rightarrow> (c\<lparr>cr_hits := (cr_hits c + 1) mod 2 ^ 64\<rparr>, Some k)
         | None \<Rightarrow> (c\<lparr>cr_misses := (cr_misses c + 1) mod 2 ^ 64\<rparr>, None))"

definition cache_write :: "u64 \<Rightarrow> CachingResolver \<Rightarrow> u64 \<Rightarrow> string \<Rightarrow> resolved_keys \<Rightarrow> CachingResolver" where
  "cache_write ttl_ms c now did keys =
     c\<lparr>cr_cache := AList.update did \<lparr>ce_expires_at_ms = saturating_add now ttl_ms, ce_keys = keys\<rparr> (cr_cache c)\<rparr>"

definition caching_resolve :: "'s did_resolver \<Rightarrow> u64 \<Rightarrow> u64 \<Rightarrow> (CachingResolver \<times> 's) did_resolver" where
  "caching_resolve inner ttl_ms now p did force_refresh =
     (case p of (c, s) \<Rightarrow>
      (case cache_read c now did force_refresh of
         (c1, Some k) \<Rightarrow> ((c1, s), Ok k)
       | (c1, None) \<Rightarrow>
           (case inner s did force_refresh of
              (s', Ok k) \<Rightarrow> ((cache_write ttl_ms c1 now did k, s'), Ok k)
            | (s', r) \<Rightarrow> ((c1, s'), r))))"

section \<open>did\_resolver.rs\<close>

definition DEFAULT_SERVICE_DID :: string where "DEFAULT_SERVICE_DID = ''did:web:ciss.croft.ing''"
definition DEFAULT_TIMEOUT_MS :: u64 where "DEFAULT_TIMEOUT_MS = 3000"
definition DEFAULT_CACHE_TTL_S :: u64 where "DEFAULT_CACHE_TTL_S = 300"

text \<open>The network adapter over \<^verbatim>\<open>reqwest\<close>: no connection, or a status with a body that may break off.\<close>

definition reqwest_fetch :: "('s \<Rightarrow> string \<Rightarrow> 's \<times> (nat \<times> bytes option) option option) \<Rightarrow> 's fetcher" where
  "reqwest_fetch get s url =
     (case get s url of
        (s', None) \<Rightarrow> (s', None)
      | (s', Some None) \<Rightarrow> (s', Some (Err ResolveTransport))
      | (s', Some (Some (status, body))) \<Rightarrow>
          (s', Some (if status = 200 then (case body of Some b \<Rightarrow> Ok b | None \<Rightarrow> Err ResolveTransport)
                     else if status = 404 then Err ResolveNotFound else Err ResolveTransport)))"

record ResolveConfig =
  rc_service_did :: string
  rc_plc_url :: string
  rc_timeout_ms :: u64
  rc_cache_ttl_ms :: u64
  rc_admin_pins :: "(string \<times> resolved_keys) list"

definition text_lines :: "string \<Rightarrow> string list" where
  "text_lines s =
     (let ls = split_on (CHR 0x0A) s; ls' = (if last ls = [] then butlast ls else ls)
      in map (\<lambda>l. if ends_with [CHR 0x0D] l then butlast l else l) ls')"

function split_whitespace :: "string \<Rightarrow> string list" where
  "split_whitespace [] = []"
| "split_whitespace (c # s) =
     (if is_space c then split_whitespace s
      else (c # takeWhile (\<lambda>c. \<not> is_space c) s) # split_whitespace (dropWhile (\<lambda>c. \<not> is_space c) s))"
  by pat_completeness auto

termination by (relation "measure length") (auto simp: le_imp_less_Suc length_dropWhile_le)

fun parse_pin_lines ::
  "(string \<Rightarrow> string) \<Rightarrow> nat \<Rightarrow> string list \<Rightarrow> (string \<times> resolved_keys) list \<Rightarrow> ((string \<times> resolved_keys) list, string) result" where
  "parse_pin_lines dbg n [] pins = Ok pins"
| "parse_pin_lines dbg n (raw # rest) pins =
     (let line = trim raw in
      if line = [] \<or> starts_with ''#'' line then parse_pin_lines dbg (n + 1) rest pins
      else case split_whitespace line of
        [did, key] \<Rightarrow>
          if starts_with ''did:'' did \<and> starts_with ''did:key:'' key
          then parse_pin_lines dbg (n + 1) rest (AList.update did key pins)
          else Err (''malformed admin pin at line '' @ show_nat (n + 1) @ '': '' @ dbg line)
      | _ \<Rightarrow> Err (''malformed admin pin at line '' @ show_nat (n + 1) @ '': '' @ dbg line))"

definition parse_admin_pins :: "(string \<Rightarrow> string) \<Rightarrow> string \<Rightarrow> ((string \<times> resolved_keys) list, string) result" where
  "parse_admin_pins dbg t = parse_pin_lines dbg 0 (text_lines t) []"

definition env_or :: "(string \<Rightarrow> string option) \<Rightarrow> string \<Rightarrow> string \<Rightarrow> string" where
  "env_or env key d = (case env key of Some v \<Rightarrow> v | None \<Rightarrow> d)"

definition env_u64 :: "(string \<Rightarrow> string) \<Rightarrow> (string \<Rightarrow> string option) \<Rightarrow> string \<Rightarrow> u64 \<Rightarrow> (u64, string) result" where
  "env_u64 dbg env key d =
     (case env key of
        Some v \<Rightarrow> (case parse_u64 v of Some n \<Rightarrow> Ok n | None \<Rightarrow> Err (key @ '' must be a number, got '' @ dbg v))
      | None \<Rightarrow> Ok d)"

text \<open>\<open>read_file\<close> gives the text of a file or the operating system's message.\<close>

definition resolve_config_from_env ::
  "(string \<Rightarrow> string) \<Rightarrow> (string \<Rightarrow> string option) \<Rightarrow> (string \<Rightarrow> (string, string) result) \<Rightarrow> (ResolveConfig, string) result" where
  "resolve_config_from_env dbg env read_file =
     (let service_did = env_or env ''CISS_SERVICE_DID'' DEFAULT_SERVICE_DID;
          plc_url = env_or env ''CISS_PLC_DIRECTORY_URL'' DEFAULT_PLC_DIRECTORY_URL in
      result_bind (env_u64 dbg env ''CISS_DID_RESOLVE_TIMEOUT_MS'' DEFAULT_TIMEOUT_MS) (\<lambda>timeout.
      result_bind (env_u64 dbg env ''CISS_DID_CACHE_TTL_S'' DEFAULT_CACHE_TTL_S) (\<lambda>ttl_s.
      if ttl_s * 1000 > u64_max then Panic
      else result_bind
        (case env ''CISS_ADMIN_PINS_FILE'' of
           Some path \<Rightarrow>
             result_bind (map_err (\<lambda>e. ''reading '' @ path @ '': '' @ e) (read_file path)) (parse_admin_pins dbg)
         | None \<Rightarrow> Ok [])
        (\<lambda>pins. Ok \<lparr>rc_service_did = service_did, rc_plc_url = plc_url, rc_timeout_ms = timeout,
                    rc_cache_ttl_ms = ttl_s * 1000, rc_admin_pins = pins\<rparr>))))"

definition build_resolver :: "net \<Rightarrow> 's fetcher \<Rightarrow> ResolveConfig \<Rightarrow> u64 \<Rightarrow> (CachingResolver \<times> 's) did_resolver" where
  "build_resolver N fetch cfg now =
     pinned_resolve (rc_admin_pins cfg)
       (caching_resolve (timeout_resolve (plc_web_resolve N fetch (rc_plc_url cfg))) (rc_cache_ttl_ms cfg) now)"

section \<open>What a layer promises\<close>

text \<open>A source of keys: from a good state it stays good, and a key it returns for a DID speaks for that DID.\<close>

definition cached_good :: "('s \<Rightarrow> bool) \<Rightarrow> (string \<Rightarrow> resolved_keys \<Rightarrow> bool) \<Rightarrow> CachingResolver \<times> 's \<Rightarrow> bool" where
  "cached_good good speaks p \<longleftrightarrow>
     good (snd p) \<and> (\<forall>did e. map_of (cr_cache (fst p)) did = Some e \<longrightarrow> speaks did (ce_keys e))"

definition pinned_speaks ::
  "(string \<Rightarrow> resolved_keys \<Rightarrow> bool) \<Rightarrow> (string \<times> resolved_keys) list \<Rightarrow> string \<Rightarrow> resolved_keys \<Rightarrow> bool" where
  "pinned_speaks speaks pins did k = (case map_of pins did of Some p \<Rightarrow> k = p | None \<Rightarrow> speaks did k)"

locale key_source =
  fixes resolve :: "'s did_resolver" and good :: "'s \<Rightarrow> bool" and speaks :: "string \<Rightarrow> resolved_keys \<Rightarrow> bool"
  assumes keeps_good: "good s \<Longrightarrow> resolve s did force = (s', r) \<Longrightarrow> good s'"
    and returns_speaker: "good s \<Longrightarrow> resolve s did force = (s', Ok k) \<Longrightarrow> speaks did k"
begin

text \<open>A cache in front: every entry speaks for its DID.\<close>

lemma cached_good_new: "good s \<Longrightarrow> cached_good good speaks (caching_new, s)"
  by (simp add: cached_good_def caching_new_def)

lemma cached_layer:
  assumes "cached_good good speaks p" "caching_resolve resolve ttl now p did force = (p', r)"
  shows "cached_good good speaks p' \<and> (\<forall>k. r = Ok k \<longrightarrow> speaks did k)"
proof -
  obtain c s where p: "p = (c, s)" by (cases p)
  obtain c1 hit where c1: "cache_read c now did force = (c1, hit)" by fastforce
  have c: "cr_cache c1 = cr_cache c" "\<And>k. hit = Some k \<Longrightarrow> \<exists>e. map_of (cr_cache c) did = Some e \<and> ce_keys e = k"
    using c1 by (auto simp: cache_read_def Let_def split: option.splits if_splits)
  show ?thesis
  proof (cases hit)
    case (Some k)
    then show ?thesis using assms c c1 by (fastforce simp: p caching_resolve_def cached_good_def)
  next
    case None
    obtain s' r' where i: "resolve s did force = (s', r')" by fastforce
    have g: "good s'" "\<And>k. r' = Ok k \<Longrightarrow> speaks did k"
      using keeps_good [OF _ i] returns_speaker [of s did force s'] i assms(1) by (auto simp: p cached_good_def)
    then show ?thesis
      using assms None c(1) c1 i
      by (cases r') (auto simp: p caching_resolve_def cached_good_def cache_write_def update_conv split: if_splits)
  qed
qed

lemma cached_source: "key_source (caching_resolve resolve ttl now) (cached_good good speaks) speaks"
  by unfold_locales (use cached_layer in blast)+

text \<open>Pins in front: a pinned DID is answered by its pin, and the layer below is not asked.\<close>

lemma pinned_source: "key_source (pinned_resolve pins resolve) good (pinned_speaks speaks pins)"
  by unfold_locales
    (auto simp: pinned_resolve_def pinned_speaks_def split: option.splits dest: keeps_good returns_speaker)

end

lemma pinned_is_local: "map_of pins did = Some k \<Longrightarrow> pinned_resolve pins inner s did force = (s, Ok k)"
  by (simp add: pinned_resolve_def)

text \<open>The network layer: the key stands in a document for that DID read from the DID's own URL.\<close>

definition published :: "net \<Rightarrow> 's fetcher \<Rightarrow> string \<Rightarrow> string \<Rightarrow> resolved_keys \<Rightarrow> bool" where
  "published N fetch base did k \<longleftrightarrow>
     (\<exists>url s s' body doc. doc_url base did = Ok url \<and> fetch s url = (s', Some (Ok body)) \<and>
        from_slice N de_did_document body = Some doc \<and> signing_key_from_doc did doc = Ok k)"

lemma plc_web_published:
  assumes "plc_web_resolve N fetch base s did force = (s', Some (Ok k))"
  shows "published N fetch base did k"
  using assms by (fastforce simp: plc_web_resolve_def published_def document_key_def result_bind_Ok split: result.splits prod.splits option.splits)

interpretation network: key_source "timeout_resolve (plc_web_resolve N fetch base)" "\<lambda>_. True" "published N fetch base" for N fetch base
  by unfold_locales (auto simp: timeout_resolve_def split: prod.splits option.splits dest: plc_web_published)

interpretation static: key_source "static_resolve keys" "\<lambda>_. True" "\<lambda>did k. map_of keys did = Some k" for keys
  by unfold_locales (auto simp: static_resolve_def split: option.splits)

lemma signing_key_from_doc_Ok:
  assumes "signing_key_from_doc did doc = Ok k"
  shows "dd_id doc = did" "\<exists>m. find (\<lambda>m. ends_with ''#atproto'' (vm_id m)) (dd_verification_method doc) = Some m \<and>
    vm_key_type m = ''Multikey'' \<and> k = ''did:key:'' @ vm_public_key_multibase m"
  using assms by (auto simp: signing_key_from_doc_def Let_def split: if_splits option.splits)

interpretation production: key_source "build_resolver N fetch cfg now"
    "cached_good (\<lambda>_. True) (published N fetch (rc_plc_url cfg))" "pinned_speaks (published N fetch (rc_plc_url cfg)) (rc_admin_pins cfg)"
  for N and fetch :: "'s fetcher" and cfg now
  unfolding build_resolver_def by (rule key_source.pinned_source [OF network.cached_source])

section \<open>Overlapping calls\<close>

text \<open>Calls of many tasks share the cache: each reads it in one critical section, waits for the layer below
  without the lock, and writes its success in another. \<open>rx_pending\<close> are the calls that wait, with the time
  they read the clock; \<open>rx_answers\<close> are the successes of the layer below, with that time.\<close>

record resolver_run =
  rx_cache :: CachingResolver
  rx_pending :: "(string \<times> u64) list"
  rx_answers :: "(string \<times> u64 \<times> resolved_keys) list"

inductive cache_move :: "u64 \<Rightarrow> resolver_run \<Rightarrow> resolver_run \<Rightarrow> bool" for ttl where
  served: "cache_read (rx_cache x) now did force = (c, Some k) \<Longrightarrow> cache_move ttl x (x\<lparr>rx_cache := c\<rparr>)"
| missed: "cache_read (rx_cache x) now did force = (c, None) \<Longrightarrow>
     cache_move ttl x (x\<lparr>rx_cache := c, rx_pending := (did, now) # rx_pending x\<rparr>)"
| answered: "(did, t) \<in> set (rx_pending x) \<Longrightarrow>
     cache_move ttl x (x\<lparr>rx_cache := cache_write ttl (rx_cache x) t did k, rx_pending := remove1 (did, t) (rx_pending x),
       rx_answers := (did, t, k) # rx_answers x\<rparr>)"
| failed: "(did, t) \<in> set (rx_pending x) \<Longrightarrow> cache_move ttl x (x\<lparr>rx_pending := remove1 (did, t) (rx_pending x)\<rparr>)"

inductive cache_runs :: "u64 \<Rightarrow> resolver_run \<Rightarrow> bool" for ttl where
  fresh: "cache_runs ttl \<lparr>rx_cache = caching_new, rx_pending = [], rx_answers = []\<rparr>"
| move: "cache_runs ttl x \<Longrightarrow> cache_move ttl x x' \<Longrightarrow> cache_runs ttl x'"

lemma cache_read_cache: "cache_read c now did force = (c', hit) \<Longrightarrow> cr_cache c' = cr_cache c"
  by (auto simp: cache_read_def Let_def split: option.splits if_splits)

lemma cache_read_hit:
  "cache_read c now did force = (c', Some k) \<Longrightarrow> \<not> force \<and> (\<exists>e. map_of (cr_cache c) did = Some e \<and> ce_keys e = k \<and> now < ce_expires_at_ms e)"
  by (auto simp: cache_read_def Let_def split: option.splits if_splits)

text \<open>Every entry of the cache is an answer of the layer below, dated by the start of its call.\<close>

lemma cache_entries_answered:
  assumes "cache_runs ttl x" "map_of (cr_cache (rx_cache x)) did = Some e"
  shows "\<exists>t. (did, t, ce_keys e) \<in> set (rx_answers x) \<and> ce_expires_at_ms e = saturating_add t ttl"
  using assms
proof (induction arbitrary: did e rule: cache_runs.induct)
  case fresh
  then show ?case by (simp add: caching_new_def)
next
  case (move x x')
  from move.hyps(2) show ?case
  proof cases
    case (answered d t k)
    then show ?thesis using move.IH [of did e] move.prems
      by (cases "d = did") (auto simp: cache_write_def update_conv split: if_splits)
  qed (use move.IH [of did e] move.prems cache_read_cache in auto)
qed

text \<open>A hit is never older than the time to live.\<close>

lemma hit_is_fresh:
  assumes "cache_runs ttl x" "cache_read (rx_cache x) now did force = (c, Some k)"
  shows "\<exists>t. (did, t, k) \<in> set (rx_answers x) \<and> now < t + ttl"
proof -
  obtain e where e: "map_of (cr_cache (rx_cache x)) did = Some e" "ce_keys e = k" "now < ce_expires_at_ms e"
    using cache_read_hit [OF assms(2)] by blast
  from cache_entries_answered [OF assms(1) e(1)] show ?thesis using e(2,3) by (auto simp: saturating_add_def)
qed

text \<open>A call that nobody interrupts is a run of the system.\<close>

lemma caching_resolve_runs:
  assumes "cache_runs ttl x" "caching_resolve inner ttl now (rx_cache x, s) did force = ((c', s'), r)"
  obtains x' where "cache_runs ttl x'" "rx_cache x' = c'" "\<And>k. r = Ok k \<Longrightarrow> \<exists>t. (did, t, k) \<in> set (rx_answers x') \<and> (t = now \<or> now < t + ttl)"
proof -
  obtain c1 hit where c1: "cache_read (rx_cache x) now did force = (c1, hit)" by fastforce
  show thesis
  proof (cases hit)
    case (Some k)
    have "cache_runs ttl (x\<lparr>rx_cache := c1\<rparr>)" using cache_runs.move [OF assms(1) served] c1 Some by blast
    moreover obtain t where "(did, t, k) \<in> set (rx_answers x)" "now < t + ttl" using hit_is_fresh [OF assms(1)] c1 Some by blast
    ultimately show thesis using assms(2) c1 Some by (intro that) (auto simp: caching_resolve_def)
  next
    case None
    let ?x = "x\<lparr>rx_cache := c1, rx_pending := (did, now) # rx_pending x\<rparr>"
    have m: "cache_runs ttl ?x" using cache_runs.move [OF assms(1) missed] c1 None by blast
    obtain s2 r2 where i: "inner s did force = (s2, r2)" by fastforce
    show thesis
    proof (cases r2)
      case (Ok k)
      show thesis by (rule that [OF cache_runs.move [OF m answered [where did = did and t = now and k = k]]])
          (use assms(2) c1 None i Ok in \<open>auto simp: caching_resolve_def\<close>)
    qed (rule that [OF m]; use assms(2) c1 None i in \<open>auto simp: caching_resolve_def\<close>)+
  qed
qed

section \<open>The resolver inside authentication\<close>

text \<open>The resolver of a server that started with an empty cache and has answered the given calls.\<close>

definition resolver_after :: "net \<Rightarrow> 's fetcher \<Rightarrow> ResolveConfig \<Rightarrow> 's \<Rightarrow> (u64 \<times> string \<times> bool) list \<Rightarrow> CachingResolver \<times> 's" where
  "resolver_after N fetch cfg s = foldl (\<lambda>p (now, did, force). fst (build_resolver N fetch cfg now p did force)) (caching_new, s)"

lemma resolver_after_good: "cached_good (\<lambda>_. True) (published N fetch (rc_plc_url cfg)) (resolver_after N fetch cfg s calls)"
proof (induction calls rule: rev_induct)
  case Nil
  then show ?case by (simp add: resolver_after_def network.cached_good_new)
next
  case (snoc call calls)
  obtain now did force where call: "call = (now, did, force)" by (cases call)
  have "resolver_after N fetch cfg s (calls @ [call]) = fst (build_resolver N fetch cfg now (resolver_after N fetch cfg s calls) did force)"
    by (simp add: resolver_after_def call)
  then show ?case using production.keeps_good [OF snoc.IH surjective_pairing] by simp
qed

text \<open>What one request sees: a first answer, and a refreshed one in the state the first call left.\<close>

definition resolver_view :: "net \<Rightarrow> 's fetcher \<Rightarrow> ResolveConfig \<Rightarrow> u64 \<Rightarrow> u64 \<Rightarrow> CachingResolver \<times> 's \<Rightarrow> resolver" where
  "resolver_view N fetch cfg t1 t2 p did force =
     (case build_resolver N fetch cfg t1 p did False of (p1, r1) \<Rightarrow>
        (case (if force then snd (build_resolver N fetch cfg t2 p1 did True) else r1) of Ok k \<Rightarrow> Some k | _ \<Rightarrow> None))"

lemma resolver_view_speaks:
  assumes "resolver_view N fetch cfg t1 t2 p did force = Some k" "cached_good (\<lambda>_. True) (published N fetch (rc_plc_url cfg)) p"
  shows "pinned_speaks (published N fetch (rc_plc_url cfg)) (rc_admin_pins cfg) did k"
proof -
  obtain p1 r1 where r1: "build_resolver N fetch cfg t1 p did False = (p1, r1)" by fastforce
  obtain p2 r2 where r2: "build_resolver N fetch cfg t2 p1 did True = (p2, r2)" by fastforce
  have "cached_good (\<lambda>_. True) (published N fetch (rc_plc_url cfg)) p1" using production.keeps_good [OF assms(2) r1] .
  then show ?thesis
    using assms r1 r2 production.returns_speaker [where s = p and N = N and fetch = fetch and cfg = cfg and now = t1 and did = did]
      production.returns_speaker [where s = p1 and N = N and fetch = fetch and cfg = cfg and now = t2 and did = did]
    by (cases force) (auto simp: resolver_view_def split: result.splits)
qed

lemma granted_key:
  assumes "verify_service_auth_full N (resolver_view N fetch cfg t1 t2 p) aud now g jwt lxm = (g', Authenticated did, j)"
    and "cached_good (\<lambda>_. True) (published N fetch (rc_plc_url cfg)) p"
  obtains k c where "token_proves N jwt k did aud lxm now c" "pinned_speaks (published N fetch (rc_plc_url cfg)) (rc_admin_pins cfg) did k"
proof -
  obtain fresh k c where "resolver_view N fetch cfg t1 t2 p did fresh = Some k" "token_proves N jwt k did aud lxm now c"
    by (rule service_auth_granted [OF assms(1)])
  then show thesis using that resolver_view_speaks [OF _ assms(2)] by blast
qed

section \<open>Pins\<close>

text \<open>A pin file is accepted only when every line that is not blank or a comment pins a key; what it pins
  stands on a line of the file, and the last line for a DID counts.\<close>

lemma parse_pin_lines_Ok:
  assumes "parse_pin_lines dbg n ls pins = Ok out" "map_of out did = Some k"
  shows "map_of pins did = Some k \<or> (\<exists>l \<in> set ls. split_whitespace (trim l) = [did, k] \<and> starts_with ''did:'' did \<and> starts_with ''did:key:'' k)"
  using assms
proof (induction dbg n ls pins rule: parse_pin_lines.induct)
  case (2 dbg n raw rest pins)
  show ?case
  proof (cases "trim raw = [] \<or> starts_with ''#'' (trim raw)")
    case True
    then show ?thesis using 2 by (auto simp: Let_def)
  next
    case False
    then obtain d q where f: "split_whitespace (trim raw) = [d, q]" "starts_with ''did:'' d" "starts_with ''did:key:'' q"
      "parse_pin_lines dbg (n + 1) rest (AList.update d q pins) = Ok out"
      using 2(3) by (auto simp: Let_def split: list.splits if_splits)
    then have "map_of (AList.update d q pins) did = Some k \<or>
        (\<exists>l \<in> set rest. split_whitespace (trim l) = [did, k] \<and> starts_with ''did:'' did \<and> starts_with ''did:key:'' k)"
      using 2(2) [OF refl False f(1) refl refl] 2(4) by auto
    then show ?thesis using f by (auto simp: update_conv split: if_splits)
  qed
qed simp

end
