(* ===== verification/Sync_Demo.thy ===== *)
theory Sync_Demo
  imports Http_Ciss Demo_State
begin

text \<open>
  A concrete instance of the sync engine's externals and of the other side, on which the witnesses of the
  engine's properties run: a cutter that takes maximal pieces, codecs that know the values used here, a
  remote that holds two blobs, and a remote that refuses the first commit as stale.
\<close>

section \<open>The externals\<close>

function demo_cuts :: "nat \<Rightarrow> nat \<Rightarrow> (nat \<times> nat) list" where
  "demo_cuts off n =
     (if n = 0 then [] else (off, min n CHUNK_MAX_BYTES) # demo_cuts (off + min n CHUNK_MAX_BYTES) (n - min n CHUNK_MAX_BYTES))"
  by pat_completeness auto
termination by (relation "measure snd") (auto simp: CHUNK_MAX_BYTES_def)

declare demo_cuts.simps [simp del]

definition hi_entry :: FileEntry where
  "hi_entry = \<lparr>fe_mode = 420, fe_mtime_secs = 5, fe_mtime_nanos = 0, fe_size = 2,
     fe_chunks = [\<lparr>cr_sha256 = demo_digest ''hi'', cr_blake3 = demo_digest ''hi'', cr_len = 2\<rparr>]\<rparr>"

definition hi_manifest :: FsManifest where
  "hi_manifest = \<lparr>fm_kind = FS_MANIFEST_KIND, fm_entries = [(''a'', hi_entry)]\<rparr>"

definition other_head :: DeviceHead where
  "other_head = head_new_signed demo ''other'' 1 (digest_hex demo ''M'') None None alice"

definition demo_sync :: sync_ext where
  "demo_sync = \<lparr>fastcdc = (\<lambda>bs _ _ _. demo_cuts 0 (length bs)), blake3 = demo_digest,
     cbor_manifest = (\<lambda>m. if m = hi_manifest then Inr ''M'' else if m = fs_manifest_new then Inr ''empty'' else Inl ''unknown''),
     uncbor_manifest = (\<lambda>b. if b = ''M'' then Inr hi_manifest else if b = ''empty'' then Inr fs_manifest_new else Inl ''unknown''),
     json_manifest = (\<lambda>_. Inl ''unknown''), unjson_manifest = (\<lambda>_. Inl ''unknown''),
     cbor_entry = (\<lambda>e. if e = sized_entry 1 then Inr ''1'' else if e = sized_entry 2 then Inr ''2'' else Inl ''unknown''),
     uncbor_entry = (\<lambda>b. if b = ''1'' then Inr (sized_entry 1) else if b = ''2'' then Inr (sized_entry 2) else Inl ''unknown''),
     cbor_head = (\<lambda>h. if h = other_head then Inr ''H'' else Inl ''unknown''),
     uncbor_head = (\<lambda>b. if b = ''H'' then Inr other_head else Inl ''unknown''), debug_str = (\<lambda>s. s)\<rparr>"

lemma demo_cuts_cover: "cuts_cover off (demo_cuts off n) (off + n)"
proof (induction off n rule: demo_cuts.induct)
  case (1 off n)
  show ?case
  proof (cases "n = 0")
    case False
    then have "cuts_cover (off + min n CHUNK_MAX_BYTES) (demo_cuts (off + min n CHUNK_MAX_BYTES) (n - min n CHUNK_MAX_BYTES)) (off + n)"
      using 1 [OF False] by simp
    moreover have "0 < min n CHUNK_MAX_BYTES" using False by (simp add: CHUNK_MAX_BYTES_def)
    ultimately show ?thesis using False by (subst demo_cuts.simps) simp
  qed (simp add: demo_cuts.simps)
qed

lemma demo_cdc_law: "cdc_law demo_sync"
  using demo_cuts_cover [of 0] by (simp add: cdc_law_def demo_sync_def)

lemma demo_cbor_law: "cbor_law demo_sync"
proof -
  have "hi_manifest \<noteq> fs_manifest_new" by (simp add: hi_manifest_def fs_manifest_new_def)
  then show ?thesis by (simp add: cbor_law_def demo_sync_def)
qed

lemma hi_chunks: "chunk_file demo demo_sync ''hi'' =
    Ok [\<lparr>ck_ref = \<lparr>cr_sha256 = demo_digest ''hi'', cr_blake3 = demo_digest ''hi'', cr_len = 2\<rparr>, ck_start = 0, ck_end = 2\<rparr>]"
  by (simp add: chunk_file_def demo_sync_def demo_cuts.simps chunk_ref_new_def OBJECT_CAP_def CHUNK_MAX_BYTES_def u32_max_def
      slice_def demo_def Let_def)

section \<open>A tree and its restore\<close>

definition empty_tree :: TreeFs where
  "empty_tree = \<lparr>tf_nodes = [], tf_fault = (\<lambda>_ _. False), tf_utf8 = (\<lambda>_. True), tf_new_mode = 420, tf_now = 0\<rparr>"

definition hi_tree :: TreeFs where
  "hi_tree = empty_tree\<lparr>tf_nodes := [(''a'', Regular (''hi'', 420, 5000000000))]\<rparr>"

definition demo_cache :: ChunkCache where
  "demo_cache = \<lparr>kc_rows = [], kc_files = (\<lambda>_. None), kc_budget = 1000, kc_fault = (\<lambda>_ _. False)\<rparr>"

definition demo_spend :: SpendLedger where
  "demo_spend = \<lparr>sl_scope = ''tree'', sl_config = [], sl_spend = []\<rparr>"

definition demo_sync_state :: SyncState where
  "demo_sync_state = \<lparr>ss_index = \<lparr>ix_rows = [], ix_hits = 0, ix_misses = 0\<rparr>, ss_placeholders = [], ss_cache = demo_cache,
     ss_spend = demo_spend, ss_aliases = [], ss_profile = None\<rparr>"

definition two_blobs :: "unit remote" where
  "two_blobs = \<lparr>rm_have = (\<lambda>s. (s, Ok [])), rm_put = (\<lambda>s _ _. (s, Ok ())),
     rm_get = (\<lambda>s cid. (s, if cid = digest_hex demo ''M'' then Ok ''M'' else if cid = digest_hex demo ''hi'' then Ok ''hi''
        else Err (STransport ''not found''))),
     rm_metered = True, rm_current_seq = (\<lambda>s. (s, Ok None)), rm_keep_set = (\<lambda>s. (s, Ok None)), rm_frontier = (\<lambda>s. (s, Ok None)),
     rm_commit_keep_set = (\<lambda>s _ _. (s, Ok ())), rm_commit_frontier = (\<lambda>s _ _ _. (s, Ok ())), rm_keypair = alice\<rparr>"

lemma two_digests: "demo_digest ''M'' \<noteq> demo_digest ''hi''"
  by (simp add: demo_digest_def)

lemma two_cids: "digest_hex demo ''M'' \<noteq> digest_hex demo ''hi''"
  using two_digests by (simp add: digest_hex_def demo_def)

lemma two_blobs_returns: "returns_in two_blobs {''M'', ''hi''}"
  by (auto simp: returns_in_def two_blobs_def split: if_splits)

lemma hi_scan: "scan_tree demo demo_sync hi_tree = Ok hi_manifest"
  by (simp add: scan_tree_def hi_tree_def empty_tree_def scan_file_def mtime_parts_def i64_max_def entry_for_def fs_read_def
      read_target_def file_entry_for_def hi_chunks fs_manifest_new_def fm_insert_def hi_manifest_def hi_entry_def)

lemma hi_pieces: "tree_pieces demo demo_sync hi_tree = {''hi''}"
  by (simp add: tree_pieces_def hi_tree_def pieces_def hi_chunks piece_def slice_def)

lemma hi_tmp: "tmp_name ''a'' = ''.ciss-restore-a.tmp''"
  by (simp add: tmp_name_def)

lemma hi_restored:
  "\<exists>w' rep. restore demo demo_sync two_blobs (Some (digest_hex demo ''M'')) \<lparr>w_fs = empty_tree, w_state = demo_sync_state, w_remote = (), w_clock = 0\<rparr> = (w', Ok rep)"
  using two_cids
  by (simp add: restore_def on_remote_def on_fs_def two_blobs_def verify_content_def verify_server_cid_def dagcbor_decode_def demo_sync_def
      check_kind_def hi_manifest_def hi_entry_def ref_hex_def digest_hex_def demo_def write_verified_file_def restore_metadata_def
      put_node_def empty_tree_def hi_tmp i64_max_def Let_def)

section \<open>A frontier that moves once\<close>

text \<open>The first commit finds that another device has committed; the second is accepted.\<close>

definition stale_once :: "nat remote" where
  "stale_once = \<lparr>rm_have = (\<lambda>s. (s, Ok [])), rm_put = (\<lambda>s _ _. (s, Ok ())),
     rm_get = (\<lambda>s cid. (s, if cid = digest_hex demo ''M'' then Ok ''M'' else if cid = digest_hex demo ''H'' then Ok ''H''
        else Err (STransport ''not found''))),
     rm_metered = True, rm_current_seq = (\<lambda>s. (s, Ok None)), rm_keep_set = (\<lambda>s. (s, Ok None)),
     rm_frontier = (\<lambda>s. (s, Ok (Some \<lparr>fv_seq = 4 + s, fv_heads = [(''other'', digest_hex demo ''H'')], fv_leaves = []\<rparr>))),
     rm_commit_keep_set = (\<lambda>s _ _. (s, Ok ())),
     rm_commit_frontier = (\<lambda>s _ seq _. if s = 0 then (1, Err (StaleSeq seq)) else (s + 1, Ok ())), rm_keypair = alice\<rparr>"

definition own_push :: PushedTree where
  "own_push = \<lparr>pt_files = 0, pt_chunks_total = 0, pt_chunks_uploaded = 0, pt_bytes_uploaded = 0, pt_cid = ''own'', pt_needed = [(''own'', 5)]\<rparr>"

definition frontier_world :: "nat \<Rightarrow> nat world" where
  "frontier_world s = \<lparr>w_fs = empty_tree, w_state = demo_sync_state, w_remote = s, w_clock = 0\<rparr>"

lemma other_head_verifies: "decode_verified demo demo_sync ''H'' (keypair_verifying_key demo alice) = Ok other_head"
  using verify_message_sign [OF demo_hex_law demo_sign_law alice_key]
  by (simp add: decode_verified_def demo_sync_def other_head_def head_new_signed_def head_text_def)

lemma head_cids: "digest_hex demo ''H'' \<noteq> digest_hex demo ''M''"
  by (simp add: digest_hex_def demo_def demo_digest_def)

lemma hi_decodes: "dagcbor_decode demo_sync ''M'' = Ok hi_manifest"
  by (simp add: dagcbor_decode_def demo_sync_def check_kind_def hi_manifest_def)

lemma closes_other:
  "\<exists>leaves. close_heads demo demo_sync stale_once (keypair_verifying_key demo alice) ''dev'' [(''dev'', ''h''), (''other'', digest_hex demo ''H'')] own
     (frontier_world s) = (frontier_world s, Ok leaves)"
  using head_cids
  by (simp add: extend_with_head_closure_def on_remote_def stale_once_def other_head_verifies other_head_def head_new_signed_def
      hi_decodes frontier_world_def Let_def)

lemma stale_once_tries:
  "try_commit demo demo_sync stale_once ''dev'' own_push ''h'' 1 (frontier_world 0) = (frontier_world 1, Ok (5, Err (StaleSeq 5)))"
  "try_commit demo demo_sync stale_once ''dev'' own_push ''h'' 1 (frontier_world 1) = (frontier_world 2, Ok (6, Ok ()))"
proof -
  have k: "rm_keypair stale_once = alice" by (simp add: stale_once_def)
  have f: "on_remote (rm_frontier stale_once) (frontier_world s) =
      (frontier_world s, Ok (Some \<lparr>fv_seq = 4 + s, fv_heads = [(''other'', digest_hex demo ''H'')], fv_leaves = []\<rparr>))" for s
    by (simp add: on_remote_def stale_once_def frontier_world_def)
  have c: "on_remote (\<lambda>s. rm_commit_frontier stale_once s l q hs) (frontier_world s) =
      (if s = 0 then (frontier_world 1, Err (StaleSeq q)) else (frontier_world (s + 1), Ok ()))" for l q hs s
    by (simp add: on_remote_def stale_once_def frontier_world_def)
  let ?own = "bt_insert ''h'' 1 (insert_chunks (pt_needed own_push) [])"
  obtain l0 where l0: "close_heads demo demo_sync stale_once (keypair_verifying_key demo alice) ''dev'' [(''dev'', ''h''), (''other'', digest_hex demo ''H'')] ?own
     (frontier_world 0) = (frontier_world 0, Ok l0)" using closes_other by blast
  obtain l1 where l1: "close_heads demo demo_sync stale_once (keypair_verifying_key demo alice) ''dev'' [(''dev'', ''h''), (''other'', digest_hex demo ''H'')] ?own
     (frontier_world 1) = (frontier_world 1, Ok l1)" using closes_other by blast
  have hs: "bt_insert ''dev'' ''h'' [(''other'', digest_hex demo ''H'')] = [(''dev'', ''h''), (''other'', digest_hex demo ''H'')]" by simp
  have n: "next_of (Some (4 + 0)) = Ok 5" "next_of (Some (4 + 1)) = Ok 6" by (simp_all add: next_of_def u64_max_def)
  show "try_commit demo demo_sync stale_once ''dev'' own_push ''h'' 1 (frontier_world 0) = (frontier_world 1, Ok (5, Err (StaleSeq 5)))"
    unfolding try_commit_def f sbind_simps k option.map FrontierView.select_convs n Let_def option.case hs l0 c by simp
  show "try_commit demo demo_sync stale_once ''dev'' own_push ''h'' 1 (frontier_world 1) = (frontier_world 2, Ok (6, Ok ()))"
    unfolding try_commit_def f sbind_simps k option.map FrontierView.select_convs n Let_def option.case hs l1 c by (simp add: numeral_2_eq_2)
qed

lemma stale_once_commits:
  "commit_loop demo demo_sync stale_once ''dev'' own_push ''h'' 1 0 (frontier_world 0) = (frontier_world 2, Ok (6, 1))"
  using stale_once_tries by (simp add: commit_loop.simps MAX_COMMIT_RETRIES_def)

section \<open>Two devices edit one file\<close>

definition edited_heads :: "FsManifest btree" where
  "edited_heads =
     [(''a'', \<lparr>fm_kind = FS_MANIFEST_KIND, fm_entries = [(''f'', sized_entry 1)]\<rparr>),
      (''b'', \<lparr>fm_kind = FS_MANIFEST_KIND, fm_entries = [(''f'', sized_entry 2)]\<rparr>)]"

lemma edited_keys: "fold_keys edited_heads None = [''f'']"
  by (simp add: fold_keys_def edited_heads_def)

lemma edited_free: "btree_wf edited_heads" "copies_free edited_heads None"
proof -
  show "btree_wf edited_heads" by (simp add: btree_wf_def edited_heads_def)
  have "fst ` set edited_heads = {''a'', ''b''}" by (simp add: edited_heads_def)
  then show "copies_free edited_heads None" unfolding copies_free_def edited_keys Let_def by (simp add: conflict_path_def)
qed

lemma edited_folds: "\<exists>out. fold_trees demo demo_sync edited_heads None = Ok out"
proof -
  obtain d1 d2 where d: "entry_digest demo demo_sync (sized_entry 1) = Ok d1" "entry_digest demo demo_sync (sized_entry 2) = Ok d2"
    by (simp add: entry_digest_def demo_sync_def sized_entry_def)
  have "\<exists>r. fold_path demo demo_sync edited_heads None ''f'' = Ok r"
    using d by (cases "(d1, ''a'') \<le> (d2, ''b'')")
      (simp_all add: fold_path_def edited_heads_def bt_get_def is_changed_def same_content_def sized_entry_def)
  then obtain ins confs where "fold_path demo demo_sync edited_heads None ''f'' = Ok (ins, confs)" by (metis prod.collapse)
  then show ?thesis unfolding fold_trees_def edited_keys by simp
qed

end
