(* ===== verification/Http_Demo.thy ===== *)
theory Http_Demo
  imports Sync_Demo
begin

text \<open>
  A backup over the wire to a fresh server, evaluated request by request: the listing, the upload of the
  tree's manifest, the read of the (absent) keep set and its commit. The route function splits the path
  at its slashes; the parser knows the texts of this run.
\<close>

section \<open>The parts\<close>

definition demo_client :: Client where
  "demo_client = client_new ''http://h''"

definition demo_route :: "HttpMethod \<Rightarrow> string \<Rightarrow> Route \<times> string option" where
  "demo_route hm url =
     (case strip_prefix ''http://h/'' url of
        None \<Rightarrow> (RtFallback, None)
      | Some path \<Rightarrow>
          (case (hm, split_on (CHR ''/'') path) of
             (HPut, [did, objects, key]) \<Rightarrow>
               (if objects = ''objects'' \<and> did \<noteq> [] \<and> key \<noteq> [] then RtPutObject did key else RtFallback, None)
           | (HGet, [did, leaf]) \<Rightarrow>
               (if did \<noteq> [] \<and> leaf = ''du'' then RtDu did
                else if did \<noteq> [] \<and> leaf = ''manifest'' then RtGetManifest did else RtFallback, None)
           | (HPut, [did, leaf]) \<Rightarrow> (if did \<noteq> [] \<and> leaf = ''manifest'' then RtPutManifest did else RtFallback, None)
           | _ \<Rightarrow> (RtFallback, None)))"

definition calm :: "nat \<Rightarrow> moment" where
  "calm n = \<lparr>mo_between = (\<lambda>s. s), mo_now = 50, mo_micros = 7, mo_resolve = (\<lambda>_ _. None), mo_request_lost = False,
     mo_answer_lost = False, mo_failure = []\<rparr>"

definition knows :: "json list \<Rightarrow> net" where
  "knows vs = demo_net (map_of (map (\<lambda>v. (render demo_scalar v, v)) vs))"

lemma split_on_nonempty: "split_on c s \<noteq> []"
  by (induction s) (auto split: list.splits)

lemma split_on_segment: "c \<notin> set a \<Longrightarrow> split_on c (a @ c # b) = a # split_on c b"
  using split_on_nonempty [of c b] by (induction a) (auto split: list.splits)

lemma split_on_last: "c \<notin> set a \<Longrightarrow> split_on c a = [a]"
  by (induction a) auto

lemma url_part_slash: "url_part s \<Longrightarrow> CHR ''/'' \<notin> set s"
  by (auto dest: bspec simp: url_part_def list_all_iff unreserved_def is_ascii_alphanumeric_def is_ascii_lowercase_def
      is_ascii_uppercase_def is_digit_def)

lemma demo_base: "cl_base demo_client = ''http://h''"
  by (simp add: demo_client_def client_new_def)

lemma demo_routes:
  assumes "did \<noteq> []" "url_part did" "url_part key"
  shows "demo_route HPut (''http://h'' @ ''/'' @ did @ ''/objects/'' @ key) = (if key = [] then RtFallback else RtPutObject did key, None)"
    "demo_route HGet (''http://h'' @ ''/'' @ did @ ''/du'') = (RtDu did, None)"
    "demo_route HPut (''http://h'' @ ''/'' @ did @ ''/manifest'') = (RtPutManifest did, None)"
    "demo_route HGet (''http://h'' @ ''/'' @ did @ ''/manifest'') = (RtGetManifest did, None)"
proof -
  note ns = url_part_slash [OF assms(2)] url_part_slash [OF assms(3)]
  have p: "strip_prefix ''http://h/'' (''http://h'' @ ''/'' @ x) = Some x" for x
    using strip_prefix_append [of "''http://h/''" x] by simp
  have s: "split_on (CHR ''/'') (did @ ''/objects/'' @ key) = [did, ''objects'', key]"
    "split_on (CHR ''/'') (did @ ''/du'') = [did, ''du'']" "split_on (CHR ''/'') (did @ ''/manifest'') = [did, ''manifest'']"
    using split_on_segment [OF ns(1), of "''objects/'' @ key"] split_on_segment [of "CHR ''/''" "''objects''" key]
      split_on_segment [OF ns(1), of "''du''"] split_on_segment [OF ns(1), of "''manifest''"] split_on_last [OF ns(2)]
    by simp_all
  show "demo_route HPut (''http://h'' @ ''/'' @ did @ ''/objects/'' @ key) = (if key = [] then RtFallback else RtPutObject did key, None)"
    "demo_route HGet (''http://h'' @ ''/'' @ did @ ''/du'') = (RtDu did, None)"
    "demo_route HPut (''http://h'' @ ''/'' @ did @ ''/manifest'') = (RtPutManifest did, None)"
    "demo_route HGet (''http://h'' @ ''/'' @ did @ ''/manifest'') = (RtGetManifest did, None)"
    using assms(1) by (simp_all only: demo_route_def p option.case s prod.case list.case HttpMethod.case) simp_all
qed

lemma demo_route_law: "route_law demo_client demo_route"
  using demo_routes by (simp add: route_law_def demo_base)

lemma calm_others: "others_step X N calm"
  by (simp add: others_step_def calm_def reachable.start)

lemma knows_sound:
  assumes "list_all jwf vs"
  shows "json_sound demo (knows vs)"
proof -
  have "v = j" if "jwf j" "map_of (map (\<lambda>v. (render demo_scalar v, v)) vs) (render demo_scalar j) = Some v" for j v
  proof -
    have v: "v \<in> set vs" "render demo_scalar v = render demo_scalar j" using map_of_SomeD [OF that(2)] by auto
    have "scalar_codec demo_scalar" using demo_text_law by simp
    moreover have "jwf v" using v(1) assms by (simp add: list_all_iff)
    moreover have "follow []" by (simp add: follow_def)
    ultimately show ?thesis using render_inject [of demo_scalar v j "[]" "[]"] that(1) v(2) by simp
  qed
  then show ?thesis by (auto simp: json_sound_def knows_def demo_net_def)
qed

lemma knows_parse:
  assumes "list_all jwf vs" "v \<in> set vs"
  shows "json_parse (knows vs) (render demo_scalar v) = Some v"
proof -
  obtain u where u: "map_of (map (\<lambda>v. (render demo_scalar v, v)) vs) (render demo_scalar v) = Some u"
    using assms(2) by (metis (mono_tags, lifting) image_eqI list.set_map map_of_eq_None_iff not_None_eq fst_conv)
  have "scalar_codec demo_scalar" using demo_text_law by simp
  moreover have "u \<in> set vs" "render demo_scalar u = render demo_scalar v" using map_of_SomeD [OF u] by auto
  moreover have "follow []" by (simp add: follow_def)
  ultimately have "u = v" using render_inject [of demo_scalar u v "[]" "[]"] assms by (simp add: list_all_iff)
  then show ?thesis using u by (simp add: knows_def demo_net_def)
qed

section \<open>One request\<close>

lemma calm_send:
  assumes "route (hq_method q) (hq_url q) = (rt, chain)" "run_route demo N s (server_request (calm n) q chain) rt = (s2, r)"
  shows "r = Ok resp \<Longrightarrow> server_send demo N display route calm (s, n) q = ((s2, n + 1), Inr (answer_of resp))"
    "r = Err e \<Longrightarrow> server_send demo N display route calm (s, n) q = ((s2, n + 1), Inr (answer_of (error_response display e)))"
  using assms by (simp_all add: server_send_def calm_def serve_def respond_def Let_def)

definition live :: "nat \<Rightarrow> AppState \<Rightarrow> bool" where
  "live k s \<longleftrightarrow> compute_inv (as_compute s) \<and> cl_tick (as_compute s) \<le> k"

lemma dispatch_runs:
  assumes "authorize who oper = Ok ()" "authorize_read s who oper = Ok ()" "dispatch_op X N s who oper = (s1, r)" "r \<noteq> Panic"
    and "as_compute s1 = as_compute s" "live k s" "k < u64_max"
  obtains l where "dispatch_blocking X N micros s who oper = (s1\<lparr>as_compute := l\<rparr>, r)" "live (Suc k) (s1\<lparr>as_compute := l\<rparr>)"
proof -
  let ?c = "case principal_did who of None \<Rightarrow> ANONYMOUS_CALLER | Some c \<Rightarrow> c"
  have i: "compute_inv (as_compute s1)" "cl_tick (as_compute s1) < u64_max" using assms(5-7) by (auto simp: live_def)
  obtain l where l: "compute_record (as_compute s1) ?c (op_class oper) micros = Ok l" using compute_record_total [OF i] by blast
  have "cl_tick l = cl_tick (as_compute s1) + 1"
    using l evict_for_inv(2) [OF i(1), of ?c] by (auto simp: compute_record_def Let_def split: option.splits)
  then have "live (Suc k) (s1\<lparr>as_compute := l\<rparr>)" using compute_record_inv [OF i(1) l] assms(5,6) by (simp add: live_def)
  moreover have "dispatch X N micros s who oper = (s1\<lparr>as_compute := l\<rparr>, r)"
    using assms(1-4) l by (cases r) (simp_all add: dispatch_def)
  then have "dispatch_blocking X N micros s who oper = (s1\<lparr>as_compute := l\<rparr>, r)"
    using assms(4) by (cases r) (simp_all add: dispatch_blocking_def)
  ultimately show thesis using that by blast
qed

lemma put_object_tables:
  assumes "op_put_object X s did key bs = (s', Ok out)"
  shows "s_manifest (as_store s') = s_manifest (as_store s)" "s_assertion (as_store s') = s_assertion (as_store s)"
    "as_compute s' = as_compute s"
proof -
  have ens: "s_manifest st' = s_manifest st \<and> s_assertion st' = s_assertion st" if "ensure_total_row st did = Ok st'" for st st'
    using that by (auto simp: ensure_total_row_def split: option.splits result.splits if_splits)
  have app: "s_manifest st' = s_manifest st \<and> s_assertion st' = s_assertion st" if "append_receipt st did r = (st', Ok ())" for st st' r
    using that ens by (auto simp: append_receipt_def update_total_row_def Let_def split: result.splits if_splits option.splits)
  have add: "s_manifest st' = s_manifest st \<and> s_assertion st' = s_assertion st" if "add_stored_bytes st did n = (st', Ok ())" for st st' n
    using that ens by (auto simp: add_stored_bytes_def update_total_row_def Let_def split: result.splits if_splits option.splits)
  obtain r b st1 st2 where "if blobs_has (as_blobs s) did (sha256_hex X bs) then st1 = as_store s
       else add_stored_bytes (as_store s) did (length bs) = (st1, Ok ())"
    "append_receipt st1 did r = (st2, Ok ())" "as_store s' = st2"
    by (rule op_put_object_Ok [OF assms]) auto
  then show "s_manifest (as_store s') = s_manifest (as_store s)" "s_assertion (as_store s') = s_assertion (as_store s)"
    using app add by (auto split: if_splits)
  show "as_compute s' = as_compute s" using put_object_rest [of X s did key bs] assms by (simp add: rest_def)
qed

section \<open>The four requests\<close>

definition demo_wire :: "net \<Rightarrow> (AppState \<times> nat) http" where
  "demo_wire N = server_http demo N (\<lambda>_. []) demo_route calm (\<lambda>_. [])"

lemma alice_session: "sn_did (session_for demo alice) = alice_did" "sn_pubkey (session_for demo alice) = public_key_hex demo alice"
  by (simp_all add: session_for_def alice_did_def Let_def)

lemma alice_part: "alice_did \<noteq> []" "url_part alice_did"
  using did_of_key [OF demo_hex_law demo_digest_law, of alice] by (simp_all add: alice_session)

lemma wire_ok:
  assumes "demo_route (hq_method q) (hq_url q) = (rt, None)" "run_route demo N s (server_request (calm n) q None) rt = (s2, Ok resp)"
    "200 \<le> rs_status resp" "rs_status resp < 300"
  shows "send_ok C (demo_wire N) q action (s, n) = ((s2, n + 1), Ok (answer_of resp))"
  using calm_send(1) [where route = demo_route, OF assms(1,2) refl, of "\<lambda>_. []"] assms(3,4)
  by (simp add: send_ok_Ok demo_wire_def server_http_def answer_of_def)

lemma listed_nothing:
  assumes "live k s" "k < u64_max" "as_store s = as_store demo_state" "\<not> as_admin_only_du s"
    and "json_parse N (render demo_scalar (usage_value [])) = Some (usage_value [])"
  obtains l where "hc_have demo N (demo_wire N) demo_client alice (s, n) = ((s\<lparr>as_compute := l\<rparr>, n + 1), Ok [])"
    "live (Suc k) (s\<lparr>as_compute := l\<rparr>)"
proof -
  let ?out = "UsageBody (render demo_scalar (usage_value []))"
  let ?q = "request demo_client HGet (''/'' @ alice_did @ ''/du'') (session_headers (session_for demo alice)) []"
  have u: "op_du demo s (Authenticated alice_did) alice_did = Ok ?out"
    using assms(3,4) usage_to_value [of "[]"] by (simp add: op_du_def uploads_def Let_def del: to_value.simps)
  obtain l where l: "dispatch_blocking demo N 7 s (Authenticated alice_did) (Du alice_did) = (s\<lparr>as_compute := l\<rparr>, Ok ?out)"
    "live (Suc k) (s\<lparr>as_compute := l\<rparr>)"
    by (rule dispatch_runs [where who = "Authenticated alice_did" and oper = "Du alice_did" and s = s and X = demo and N = N
          and r = "Ok ?out" and ?s1.0 = s and k = k and micros = 7])
      (use u assms(1,2) in \<open>simp_all add: require_owner_def\<close>)
  have auth: "authenticate demo (map_of (session_headers (session_for demo alice))) = Authenticated alice_did"
    using session_accepted [OF demo_hex_law demo_key_law demo_sign_law alice_key] by (simp add: alice_session)
  have bt: "bearer_token (map_of (session_headers (session_for demo alice))) = None"
    by (simp add: bearer_token_def session_headers_def)
  have rt: "demo_route (hq_method ?q) (hq_url ?q) = (RtDu alice_did, None)"
    using demo_routes(2) [OF alice_part, of "[]"] by (simp add: request_def demo_base url_part_def)
  have run: "run_route demo N s (server_request (calm n) ?q None) (RtDu alice_did) = (s\<lparr>as_compute := l\<rparr>, Ok (outcome_response demo N ?out))"
    using l(1) alice_parses auth bt
    by (simp add: du_handler_def with_did_def auth_step_def authenticate_atproto_def server_request_def request_def calm_def
        handler_response_def map_ok_def)
  have send: "send_ok demo_client (demo_wire N) ?q action (s, n) = ((s\<lparr>as_compute := l\<rparr>, n + 1), Ok (answer_of (outcome_response demo N ?out)))" for action
    by (rule wire_ok [OF rt run]) (simp_all add: text_json_response_def)
  have de: "de_usage (usage_value []) = Some \<lparr>us_objects = [], us_total_bytes = 0\<rparr>"
    by (simp add: de_usage_def usage_value_def text_fields_def req_def de_vec_def de_u64_def)
  have "hc_have demo N (demo_wire N) demo_client alice (s, n) = ((s\<lparr>as_compute := l\<rparr>, n + 1), Ok [])"
    unfolding hc_have_def client_du_def with_session_def alice_session Let_def option.case send
    by (simp add: of_call_def transport_err_def json_body_def answer_of_def text_json_response_def from_slice_def assms(5) de ok_or_def)
  then show thesis using l(2) that by blast
qed

lemma stored_blob:
  assumes "live k s" "k < u64_max" "length key \<noteq> 0" "url_part key"
    and put: "op_put_object demo s alice_did key bs = (s1, Ok (Stored (sha256_hex demo bs) (length bs) mode h))"
    and parse: "json_parse N (render demo_scalar (stored_value (sha256_hex demo bs) (length bs) mode h)) =
      Some (stored_value (sha256_hex demo bs) (length bs) mode h)"
    and key: "key = sha256_hex demo bs" and len: "length bs \<le> u64_max"
  obtains l where "hc_put demo N (demo_wire N) demo_client alice (s, n) key bs = ((s1\<lparr>as_compute := l\<rparr>, n + 1), Ok ())"
    "live (Suc k) (s1\<lparr>as_compute := l\<rparr>)"
proof -
  let ?out = "Stored (sha256_hex demo bs) (length bs) mode h"
  let ?q = "request demo_client HPut (''/'' @ alice_did @ ''/objects/'' @ key) (session_headers (session_for demo alice)) bs"
  obtain l where l: "dispatch_blocking demo N 7 s (Authenticated alice_did) (PutObject alice_did key bs) = (s1\<lparr>as_compute := l\<rparr>, Ok ?out)"
    "live (Suc k) (s1\<lparr>as_compute := l\<rparr>)"
    by (rule dispatch_runs [where who = "Authenticated alice_did" and oper = "PutObject alice_did key bs" and s = s and X = demo and N = N
          and r = "Ok ?out" and ?s1.0 = s1 and k = k and micros = 7])
      (use put assms(1,2) put_object_tables(3) [OF put] in \<open>simp_all add: require_owner_def\<close>)
  have auth: "authenticate demo (map_of (session_headers (session_for demo alice))) = Authenticated alice_did"
    using session_accepted [OF demo_hex_law demo_key_law demo_sign_law alice_key] by (simp add: alice_session)
  have rt: "demo_route (hq_method ?q) (hq_url ?q) = (RtPutObject alice_did key, None)"
    using demo_routes(1) [OF alice_part assms(4)] assms(3) by (simp add: request_def demo_base)
  have run: "run_route demo N s (server_request (calm n) ?q None) (RtPutObject alice_did key) =
      (s1\<lparr>as_compute := l\<rparr>, Ok (outcome_response demo N ?out))"
    using l(1) alice_parses auth
    by (simp add: put_object_handler_def with_did_def server_request_def request_def calm_def handler_response_def map_ok_def)
  have send: "send_ok demo_client (demo_wire N) ?q action (s, n) = ((s1\<lparr>as_compute := l\<rparr>, n + 1), Ok (answer_of (outcome_response demo N ?out)))" for action
    by (rule wire_ok [OF rt run]) (simp_all add: json_response_def Let_def)
  have body: "an_body (answer_of (outcome_response demo N ?out)) = Inr (render demo_scalar (stored_value (sha256_hex demo bs) (length bs) mode h))"
    by (simp add: answer_of_def json_response_def Let_def stored_to_value del: to_value.simps)
  have js: "json_body N (demo_wire N) Some c (answer_of (outcome_response demo N ?out)) = Ok (stored_value (sha256_hex demo bs) (length bs) mode h)" for c
    unfolding json_body_def body by (simp add: from_slice_def parse ok_or_def)
  have fields: "de_str (value_at (stored_value (sha256_hex demo bs) (length bs) mode h) ''cid'') = Some key"
    "de_u64 (value_at (stored_value (sha256_hex demo bs) (length bs) mode h) ''bytes'') = Some (length bs)"
    using len by (simp_all add: value_at_def stored_value_def de_str_def de_u64_def key)
  have "hc_put demo N (demo_wire N) demo_client alice (s, n) key bs = ((s1\<lparr>as_compute := l\<rparr>, n + 1), Ok ())"
    unfolding hc_put_def put_s3_def alice_session send sbind_simps js fields
    by (simp add: of_call_def transport_err_def ok_or_def verify_server_cid_def)
  then show thesis using l(2) that by blast
qed

lemma no_manifest:
  assumes "live k s" "k < u64_max" "load_manifest (as_store s) alice_did = None"
  obtains l where "hc_manifest demo N (demo_wire N) demo_client alice f (s, n) = ((s\<lparr>as_compute := l\<rparr>, n + 1), Ok None)"
    "live (Suc k) (s\<lparr>as_compute := l\<rparr>)"
proof -
  let ?q = "request demo_client HGet (''/'' @ alice_did @ ''/manifest'') [] []"
  obtain l where l: "dispatch_blocking demo N 7 s Anonymous (GetManifest alice_did) = (s\<lparr>as_compute := l\<rparr>, Err NotFound)"
    "live (Suc k) (s\<lparr>as_compute := l\<rparr>)"
    by (rule dispatch_runs [where who = Anonymous and oper = "GetManifest alice_did" and s = s and X = demo and N = N
          and r = "Err NotFound" and ?s1.0 = s and k = k and micros = 7])
      (use assms in \<open>simp_all add: op_get_manifest_def\<close>)
  have rt: "demo_route (hq_method ?q) (hq_url ?q) = (RtGetManifest alice_did, None)"
    using demo_routes(4) [OF alice_part, of "[]"] by (simp add: request_def demo_base url_part_def)
  have run: "run_route demo N s (server_request (calm n) ?q None) (RtGetManifest alice_did) = (s\<lparr>as_compute := l\<rparr>, Err NotFound)"
    using l(1) alice_parses
    by (simp add: get_manifest_handler_def with_did_def server_request_def request_def calm_def handler_response_def map_ok_def)
  have send: "send demo_client (demo_wire N) ?q action (s, n) =
      ((s\<lparr>as_compute := l\<rparr>, n + 1), Ok (answer_of (error_response (\<lambda>_. []) NotFound)))" for action
    using calm_send(2) [where route = demo_route, OF rt run refl, of "\<lambda>_. []"] by (simp add: send_def demo_wire_def server_http_def)
  have "hc_manifest demo N (demo_wire N) demo_client alice f (s, n) = ((s\<lparr>as_compute := l\<rparr>, n + 1), Ok None)"
    unfolding hc_manifest_def client_get_manifest_def get_optional_def alice_session send sbind_simps
    by (simp add: of_call_def transport_err_def answer_of_def error_response_def)
  then show thesis using l(2) that by blast
qed

lemma committed_keep_set:
  assumes "live k s" "k < u64_max" "load_manifest (as_store s) alice_did = None" "account_mode (as_store s) alice_did = Active"
    and m: "build_manifest demo (to_leaves leaves) alice_did alice seq = Ok m" "manifest_verify demo m (keypair_verifying_key demo alice) = Ok True"
      "m_signer_id m = alice_did"
    and parse: "from_slice N de_manifest (render demo_scalar (manifest_json m)) = Some m"
  obtains s' where "hc_commit_keep_set demo (demo_wire N) demo_client alice (s, n) leaves seq = ((s', n + 1), Ok ())"
    "load_manifest (as_store s') alice_did = Some m"
proof -
  let ?s1 = "s\<lparr>as_store := save_manifest (as_store s) alice_did m\<rparr>" and ?body = "render demo_scalar (manifest_json m)"
  let ?out = "ManifestSaved (m_root m) (m_total_bytes m)"
  let ?q = "request demo_client HPut (''/'' @ alice_did @ ''/manifest'') [(''x-croft-pubkey'', public_key_hex demo alice)] ?body"
  have o: "op_put_manifest demo N s alice_did (public_key_hex demo alice) ?body = (?s1, Ok ?out)"
    using parse public_key_from_hex_keypair [OF demo_hex_law demo_key_law alice_key] m(2,3) assms(3,4)
    by (simp add: op_put_manifest_def alice_did_def)
  obtain l where l: "dispatch_blocking demo N 7 s Anonymous (PutManifest alice_did (public_key_hex demo alice) ?body) = (?s1\<lparr>as_compute := l\<rparr>, Ok ?out)"
    by (rule dispatch_runs [where who = Anonymous and oper = "PutManifest alice_did (public_key_hex demo alice) ?body" and s = s and X = demo
          and N = N and r = "Ok ?out" and ?s1.0 = ?s1 and k = k and micros = 7])
      (use o assms(1,2) in simp_all)
  have rt: "demo_route (hq_method ?q) (hq_url ?q) = (RtPutManifest alice_did, None)"
    using demo_routes(3) [OF alice_part, of "[]"] by (simp add: request_def demo_base url_part_def)
  have run: "run_route demo N s (server_request (calm n) ?q None) (RtPutManifest alice_did) =
      (?s1\<lparr>as_compute := l\<rparr>, Ok (outcome_response demo N ?out))"
    using l alice_parses
    by (simp add: put_manifest_handler_def with_did_def server_request_def request_def calm_def handler_response_def map_ok_def
        PUBKEY_HEADER_def)
  have send: "send_ok demo_client (demo_wire N) ?q action (s, n) = ((?s1\<lparr>as_compute := l\<rparr>, n + 1), Ok (answer_of (outcome_response demo N ?out)))" for action
    by (rule wire_ok [OF rt run]) (simp_all add: json_response_def Let_def)
  have "hc_commit_keep_set demo (demo_wire N) demo_client alice (s, n) leaves seq = ((?s1\<lparr>as_compute := l\<rparr>, n + 1), Ok ())"
    unfolding hc_commit_keep_set_def hc_commit_def alice_session m(1) result.case client_put_manifest_def demo_scalar_text send sbind_simps
    by simp
  then show thesis using that by (simp add: load_manifest_def save_manifest_def update_conv)
qed

section \<open>The backup\<close>

lemma demo_to_hex: "demo_encode bs = to_hex bs"
  by (induction bs) (simp_all add: to_hex_def hex_digit_def lower_hex_digit_def Let_def)

lemma demo_addresses: "digest_hex demo bs = sha256_hex demo bs"
  by (simp add: digest_hex_def sha256_hex_def demo_def demo_to_hex)

definition backup_world :: "(AppState \<times> nat) world" where
  "backup_world = \<lparr>w_fs = empty_tree, w_state = demo_sync_state, w_remote = (demo_state, 0), w_clock = 0\<rparr>"

lemma empty_plan:
  "logical_tree demo demo_sync False backup_world = (backup_world, Ok fs_manifest_new)"
  "dagcbor_encode demo_sync fs_manifest_new = Ok ''empty''"
  "tree_chunks fs_manifest_new = []"
  by (simp_all add: logical_tree_def backup_world_def scan_tree_def empty_tree_def fs_manifest_new_def dagcbor_encode_def demo_sync_def
      hi_manifest_def tree_chunks_def)

text \<open>The receipt of the upload depends on the store, the provider and the day only.\<close>

lemma transfer_receipt_cong:
  "as_store s = as_store t \<Longrightarrow> as_provider s = as_provider t \<Longrightarrow> as_day s = as_day t \<Longrightarrow>
     transfer_receipt X s dir did cid n = transfer_receipt X t dir did cid n"
  by (simp add: transfer_receipt_def Let_def cong: option.case_cong)

definition empty_receipt :: Receipt where
  "empty_receipt = (case transfer_receipt demo demo_state Upload alice_did (sha256_hex demo ''empty'') 5 of Ok r \<Rightarrow> r)"

lemma empty_stored:
  assumes "s = demo_state\<lparr>as_compute := l\<rparr>"
  obtains s1 where "op_put_object demo s alice_did key ''empty'' =
    (s1, Ok (Stored (sha256_hex demo ''empty'') 5 (r_mode empty_receipt) (r_content_hash empty_receipt)))"
proof -
  have "ledger_bytes (as_store demo_state) alice_did = 0" "rt_receipt_count (ledger_totals []) = 0"
    by (simp_all add: ledger_bytes_def ledger_totals_def zero_totals_def)
  moreover have len: "length ''empty'' = 5" by simp
  ultimately obtain s1 mode h where p: "op_put_object demo s alice_did key ''empty'' = (s1, Ok (Stored (sha256_hex demo ''empty'') 5 mode h))"
    using put_then_get [of s alice_did "''empty''" demo key, unfolded len] demo_totals_inv demo_gates demo_quota [of 5 alice_did]
      assms by (auto simp: mem_has_def MAX_OBJECT_BYTES_def i64_max_def)
  obtain r b where r: "transfer_receipt demo (s\<lparr>as_blobs := b\<rparr>) Upload alice_did (sha256_hex demo ''empty'') (length ''empty'') = Ok r"
    "mode = r_mode r" "h = r_content_hash r"
    by (rule op_put_object_Ok [OF p]) (rule that, simp_all)
  have "transfer_receipt demo demo_state Upload alice_did (sha256_hex demo ''empty'') 5 = Ok r"
    using r(1) transfer_receipt_cong [of "s\<lparr>as_blobs := b\<rparr>" demo_state] unfolding len by (simp add: assms)
  then have "empty_receipt = r" by (simp add: empty_receipt_def)
  then show thesis using that p r(2,3) by simp
qed

definition empty_leaves :: "(string \<times> u64) list" where
  "empty_leaves = [(sha256_hex demo ''empty'', 5)]"

lemma empty_manifest:
  obtains m where "build_manifest demo (to_leaves empty_leaves) alice_did alice 1 = Ok m"
    "manifest_verify demo m (keypair_verifying_key demo alice) = Ok True" "m_signer_id m = alice_did" "manifest_wf m" "m_heads m = None"
proof -
  have v: "list_all leaf_is_valid (to_leaves empty_leaves)" "distinct (map ml_cid (to_leaves empty_leaves))"
    "sum_list (map ml_size (to_leaves empty_leaves)) \<le> u64_max"
    using sha256_hex_lower [OF demo_hex_law] sha256_hex_length [OF demo_hex_law demo_digest_law]
    by (simp_all add: to_leaves_def empty_leaves_def leaf_is_valid_def MAX_OBJECT_BYTES_def u64_max_def)
  obtain m where "build_signed demo (to_leaves empty_leaves) alice_did alice 1 None = Ok m"
    "manifest_verify demo m (keypair_verifying_key demo alice) = Ok True" "m_signer_id m = alice_did" "m_heads m = None"
    by (rule build_signed_verifies [OF demo_hex_law demo_sign_law alice_key v, of alice_did 1 None])
  then show thesis
    using build_manifest_Ok(1) [of demo "to_leaves empty_leaves" alice_did alice 1 m]
    by (intro that [of m]) (simp_all add: build_manifest_def u64_max_def)
qed

lemma demo_custody: "custody demo demo_state"
  by (simp add: custody_def clean_backend_def uploaded_def ledger_cores_def)

lemma empty_backup:
  obtains N w' rep where
    "backup demo demo_sync (http_ciss demo N (demo_wire N) demo_client alice) False backup_world = (w', Ok rep)"
    "ciss_good demo N demo_client demo_route calm (w_remote backup_world)"
    "br_seq rep = 1" "br_cid rep = sha256_hex demo ''empty''"
proof -
  obtain m where m: "build_manifest demo (to_leaves empty_leaves) alice_did alice 1 = Ok m"
    "manifest_verify demo m (keypair_verifying_key demo alice) = Ok True" "m_signer_id m = alice_did" "manifest_wf m" "m_heads m = None"
    by (rule empty_manifest)
  let ?c = "sha256_hex demo ''empty''"
  let ?stored = "stored_value ?c 5 (r_mode empty_receipt) (r_content_hash empty_receipt)"
  define vs where "vs = [usage_value [], ?stored, manifest_json m]"
  define N where "N = knows vs"
  let ?R = "http_ciss demo N (demo_wire N) demo_client alice"
  have wf: "list_all jwf vs"
    using usage_fits [of "[]"] stored_fits [of 5] manifest_fits(1) [OF m(4,5)] by (simp add: vs_def u64_max_def)
  have known: "json_parse N (render demo_scalar v) = Some v" if "v \<in> set vs" for v
    using knows_parse [OF wf that] by (simp add: N_def)
  have len: "length ''empty'' = 5" by simp
  have "json_parse N (render demo_scalar ?stored) = Some ?stored" by (rule known) (simp add: vs_def)
  then have known_stored: "json_parse N (render demo_scalar (stored_value ?c (length ''empty'') (r_mode empty_receipt) (r_content_hash empty_receipt))) =
      Some (stored_value ?c (length ''empty'') (r_mode empty_receipt) (r_content_hash empty_receipt))" unfolding len .
  have good: "ciss_good demo N demo_client demo_route calm (w_remote backup_world)"
    using knows_sound [OF wf] demo_laws demo_route_law calm_others demo_custody
    by (simp add: ciss_good_def parts_law_def backup_world_def N_def)
  have b: "0 < u64_max" "Suc 0 < u64_max" "Suc (Suc 0) < u64_max" "Suc (Suc (Suc 0)) < u64_max" by (simp_all add: u64_max_def)
  have live0: "live 0 demo_state" using compute_inv_new by (simp add: live_def compute_new_def)
  obtain l1 where s1: "hc_have demo N (demo_wire N) demo_client alice (demo_state, 0) = ((demo_state\<lparr>as_compute := l1\<rparr>, 0 + 1), Ok [])"
    "live (Suc 0) (demo_state\<lparr>as_compute := l1\<rparr>)"
    by (rule listed_nothing [OF live0 b(1) refl _ known, where n = 0]) (simp_all add: vs_def demo_state_def with_limits_def assemble_def)
  obtain t where t: "op_put_object demo (demo_state\<lparr>as_compute := l1\<rparr>) alice_did ?c ''empty'' =
      (t, Ok (Stored ?c (length ''empty'') (r_mode empty_receipt) (r_content_hash empty_receipt)))"
    unfolding len by (rule empty_stored [OF refl, where l = l1 and key = ?c])
  obtain l2 where s2: "hc_put demo N (demo_wire N) demo_client alice (demo_state\<lparr>as_compute := l1\<rparr>, 0 + 1) ?c ''empty'' =
      ((t\<lparr>as_compute := l2\<rparr>, 0 + 1 + 1), Ok ())" "live (Suc (Suc 0)) (t\<lparr>as_compute := l2\<rparr>)"
    by (rule stored_blob [OF s1(2) b(2) _ _ t, where N = N and n = "0 + 1"])
      (use sha256_hex_length [OF demo_hex_law demo_digest_law] hex_url_part(1) [OF sha256_hex_lower [OF demo_hex_law]]
        known_stored in \<open>simp_all add: u64_max_def\<close>)
  note tab = put_object_tables [OF t]
  have none: "load_manifest (as_store t) alice_did = None" "account_mode (as_store t) alice_did = Active"
    using tab by (simp_all add: load_manifest_def account_mode_def assertion_json_row_def)
  obtain l3 where s3: "hc_manifest demo N (demo_wire N) demo_client alice m_seq (t\<lparr>as_compute := l2\<rparr>, 0 + 1 + 1) =
      ((t\<lparr>as_compute := l2\<rparr>\<lparr>as_compute := l3\<rparr>, 0 + 1 + 1 + 1), Ok None)" "live (Suc (Suc (Suc 0))) (t\<lparr>as_compute := l2\<rparr>\<lparr>as_compute := l3\<rparr>)"
    by (rule no_manifest [OF s2(2) b(3), where n = "0 + 1 + 1"]) (simp add: none)
  have parse: "from_slice N de_manifest (render demo_scalar (manifest_json m)) = Some m"
    using known [of "manifest_json m"] de_manifest_json [OF m(4)] by (simp add: from_slice_def vs_def)
  obtain s' where s4: "hc_commit_keep_set demo (demo_wire N) demo_client alice (t\<lparr>as_compute := l2\<rparr>\<lparr>as_compute := l3\<rparr>, 0 + 1 + 1 + 1) empty_leaves 1 =
      ((s', 0 + 1 + 1 + 1 + 1), Ok ())"
    by (rule committed_keep_set [OF s3(2) b(4) _ _ m(1-3) parse]) (simp_all add: none)
  have cid: "content_id demo demo_sync fs_manifest_new = Ok ?c" by (simp add: content_id_def empty_plan demo_addresses)
  have plan: "plan_push demo demo_sync ?R False backup_world =
      (backup_world\<lparr>w_remote := (demo_state\<lparr>as_compute := l1\<rparr>, 1)\<rparr>,
       Ok \<lparr>pp_manifest = fs_manifest_new, pp_manifest_bytes = ''empty'', pp_cid = ?c, pp_needed = empty_leaves, pp_want = empty_leaves,
           pp_want_bytes = 5, pp_chunks_total = 0, pp_chunks_to_upload = 0\<rparr>)"
    unfolding plan_push_def empty_plan sbind_simps cid
    using s1(1) by (simp add: on_remote_def http_ciss_def backup_world_def missing_blobs_def empty_leaves_def u64_sum_def u64_max_def Let_def)
  have push: "push_tree demo demo_sync ?R False backup_world =
      (backup_world\<lparr>w_remote := (t\<lparr>as_compute := l2\<rparr>, 2)\<rparr>,
       Ok \<lparr>pt_files = 0, pt_chunks_total = 0, pt_chunks_uploaded = 0, pt_bytes_uploaded = 5, pt_cid = ?c, pt_needed = empty_leaves\<rparr>)"
    unfolding push_tree_def plan sbind_simps
    using s2(1) by (simp add: on_remote_def http_ciss_def backup_world_def empty_leaves_def fs_manifest_new_def Let_def)
  have "\<exists>w'. backup demo demo_sync ?R False backup_world = (w', Ok \<lparr>br_files = 0, br_chunks_total = 0, br_chunks_uploaded = 0,
       br_bytes_uploaded = 5, br_cid = ?c, br_seq = 1\<rparr>)"
    unfolding backup_def push sbind_simps
    using s3(1) s4 by (simp add: on_remote_def http_ciss_def backup_world_def next_of_def numeral_2_eq_2)
  then show thesis using that good by fastforce
qed

end
