(* ===== verification/Mesh_Demo.thy ===== *)
theory Mesh_Demo
  imports Mesh Resolve Http_Demo
begin

text \<open>
  A concrete instance of the iroh libraries (a list of blobs, addressed by the demo digest) and of the
  resolver's configuration, on which the witnesses of the mesh and of DID resolution run.
\<close>

section \<open>A blob store and three announcements\<close>

definition demo_announcement :: "string \<Rightarrow> u64 \<Rightarrow> string \<Rightarrow> unit Announcement" where
  "demo_announcement d c h = \<lparr>an_kind = ANNOUNCE_KIND, an_device_id = d, an_counter = c, an_head_sha256 = h, an_head_blake3 = [],
     an_fs_root_sha256 = ''root'', an_fs_root_blake3 = [], an_addr = ()\<rparr>"

definition demo_iroh :: "(bytes list, unit) iroh" where
  "demo_iroh = \<lparr>ir_add_bytes = (\<lambda>s b. (b # s, Inr (demo_digest b))),
     ir_has = (\<lambda>s h. (s, Inr (list_ex (\<lambda>b. demo_digest b = h) s))),
     ir_download = (\<lambda>s _ _. (s, Inl ''no provider'')),
     ir_get_bytes = (\<lambda>s h. (s, case find (\<lambda>b. demo_digest b = h) s of Some b \<Rightarrow> Inr b | None \<Rightarrow> Inl ''missing'')),
     ir_add_endpoint = (\<lambda>s _. s), ir_addr = (\<lambda>_. ()), ir_broadcast = (\<lambda>s _. (s, Inr ())), ir_alias_fails = (\<lambda>_ _. False),
     ir_addr_id = (\<lambda>_. ''peer''), ir_ann_text = (\<lambda>_. Inr []),
     ir_ann_parse = (\<lambda>b. if b = ''a1'' then Some (demo_announcement ''a'' 1 ''h1'') else if b = ''a2'' then Some (demo_announcement ''a'' 2 ''h2'')
        else if b = ''b1'' then Some (demo_announcement ''b'' 1 ''k1'') else None)\<rparr>"

definition demo_holds :: "bytes list \<Rightarrow> Hash32 \<Rightarrow> bytes \<Rightarrow> bool" where
  "demo_holds s h b \<longleftrightarrow> b \<in> set s \<and> demo_digest b = h"

definition demo_mesh :: "(bytes list, unit) MeshPeer" where
  "demo_mesh = fst (mesh_spawn demo_iroh None [] [])"

lemma demo_store_law: "store_law demo_iroh demo_holds"
  by (auto simp: store_law_def demo_iroh_def demo_holds_def find_Some_iff split: option.splits)

lemma demo_mesh_fields:
  "me_slot demo_mesh = slot_default" "me_listening demo_mesh" "me_peer demo_mesh = \<lparr>ip_index = [], ip_aliases = None, ip_net = []\<rparr>"
  by (simp_all add: demo_mesh_def mesh_spawn_def Let_def)

lemma demo_mesh_good: "mesh_good demo demo_iroh demo_holds (demo_mesh, 0)"
  by (simp add: mesh_good_def demo_store_law index_sound_def demo_mesh_fields)

lemma demo_announced:
  "announced demo_iroh [Received ''a1'', NeighborUp, Received ''b1'', Received ''a2''] = [(''a'', 1, ''h1''), (''b'', 1, ''k1''), (''a'', 2, ''h2'')]"
  "announced demo_iroh [Received ''a2'', Received ''noise'', Received ''a1'', Lagged, Received ''b1'', Received ''a2''] =
     [(''a'', 2, ''h2''), (''a'', 1, ''h1''), (''b'', 1, ''k1''), (''a'', 2, ''h2'')]"
  by (simp_all add: demo_iroh_def demo_announcement_def)

section \<open>A backup into the mesh\<close>

definition mesh_world :: "((bytes list, unit) MeshPeer \<times> nat) world" where
  "mesh_world = \<lparr>w_fs = empty_tree, w_state = demo_sync_state, w_remote = (demo_mesh, 0), w_clock = 0\<rparr>"

definition mesh_noise :: "nat \<Rightarrow> GossipEvent list" where
  "mesh_noise n = (if n = 1 then [Received ''a1'', NeighborUp] else [])"

lemma mesh_backup_runs:
  obtains w' rep where "backup demo demo_sync (mesh_remote demo demo_sync demo_iroh mesh_noise alice ''dev'') False mesh_world = (w', Ok rep)"
    "br_cid rep = digest_hex demo ''empty''"
proof -
  let ?c = "digest_hex demo ''empty''" and ?R = "mesh_remote demo demo_sync demo_iroh mesh_noise alice ''dev''"
  let ?M = "receive_loop demo_iroh [Received ''a1'', NeighborUp] demo_mesh"
  have hv: "rm_have ?R (demo_mesh, 0) = ((demo_mesh, 1), Ok [])"
    by (simp add: mesh_remote_def heard_def hear_def mesh_noise_def mesh_on_peer_def peer_have_def demo_mesh_fields)
  have slot: "sl_seq (me_slot ?M) = None"
    unfolding receive_slot demo_mesh_fields by (simp add: demo_iroh_def demo_announcement_def merge_step_def merge_announcement_def slot_default_def bt_get_def)
  obtain p where p: "peer_put demo demo_iroh (me_peer ?M) ?c ''empty'' = (p, Ok ())"
    by (simp add: peer_put_def on_iroh_def demo_iroh_def Let_def)
  have pt: "rm_put ?R (demo_mesh, 1) ?c ''empty'' = ((?M\<lparr>me_peer := p\<rparr>, 2), Ok ())"
    using p demo_mesh_fields(2) by (simp add: mesh_remote_def heard_def hear_def mesh_noise_def mesh_on_peer_def)
  have quiet: "hear demo_iroh mesh_noise (K, n) = K" if "n \<noteq> 1" for K n
    using that by (simp add: hear_def mesh_noise_def)
  have sq: "rm_current_seq ?R (?M\<lparr>me_peer := p\<rparr>, 2) = ((?M\<lparr>me_peer := p\<rparr>, 3), Ok None)"
    using slot by (simp add: mesh_remote_def heard_def quiet)
  obtain q where cm: "rm_commit_keep_set ?R (?M\<lparr>me_peer := p\<rparr>, 3) [(?c, 5)] 1 = (q, Ok ())"
    using slot by (simp add: mesh_remote_def heard_def quiet mesh_commit_keep_set_def stale_for_def)
  have scan: "logical_tree demo demo_sync False mesh_world = (mesh_world, Ok fs_manifest_new)"
    by (simp add: logical_tree_def mesh_world_def scan_tree_def empty_tree_def)
  have cid: "content_id demo demo_sync fs_manifest_new = Ok ?c" by (simp add: content_id_def empty_plan)
  have plan: "plan_push demo demo_sync ?R False mesh_world = (mesh_world\<lparr>w_remote := (demo_mesh, 1)\<rparr>,
       Ok \<lparr>pp_manifest = fs_manifest_new, pp_manifest_bytes = ''empty'', pp_cid = ?c, pp_needed = [(?c, 5)], pp_want = [(?c, 5)],
           pp_want_bytes = 5, pp_chunks_total = 0, pp_chunks_to_upload = 0\<rparr>)"
    unfolding plan_push_def scan sbind_simps empty_plan(2,3) cid
    using hv by (simp add: on_remote_def mesh_world_def missing_blobs_def u64_sum_def u64_max_def Let_def)
  have push: "push_tree demo demo_sync ?R False mesh_world = (mesh_world\<lparr>w_remote := (?M\<lparr>me_peer := p\<rparr>, 2)\<rparr>,
       Ok \<lparr>pt_files = 0, pt_chunks_total = 0, pt_chunks_uploaded = 0, pt_bytes_uploaded = 5, pt_cid = ?c, pt_needed = [(?c, 5)]\<rparr>)"
    unfolding push_tree_def plan sbind_simps
    using pt by (simp add: on_remote_def mesh_world_def fs_manifest_new_def Let_def)
  have "\<exists>w'. backup demo demo_sync ?R False mesh_world = (w', Ok \<lparr>br_files = 0, br_chunks_total = 0, br_chunks_uploaded = 0,
       br_bytes_uploaded = 5, br_cid = ?c, br_seq = 1\<rparr>)"
    unfolding backup_def push sbind_simps
    using sq cm by (simp add: on_remote_def mesh_world_def next_of_def)
  then show thesis using that by fastforce
qed

section \<open>A pinned administrator\<close>

definition bob_config :: ResolveConfig where
  "bob_config = \<lparr>rc_service_did = ''did:web:ciss.example'', rc_plc_url = DEFAULT_PLC_DIRECTORY_URL, rc_timeout_ms = 3000, rc_cache_ttl_ms = 300000,
     rc_admin_pins = [(bob_did, ''did:key:'' @ [CHR 0xE7, CHR 0x01] @ ''s'')]\<rparr>"

text \<open>A directory that answers every request with rubbish.\<close>

definition bad_fetch :: "unit fetcher" where
  "bad_fetch s url = (s, Some (Ok ''<html>''))"

lemma verify_resolve_cong:
  assumes iss: "peek_iss N jwt = Ok iss" and same: "resolve iss = resolve' iss"
  shows "verify_service_auth_full N resolve aud now g jwt lxm = verify_service_auth_full N resolve' aud now g jwt lxm"
  unfolding verify_service_auth_full_def iss result.case same ..

lemma pinned_token_granted:
  "verify_service_auth_full token_net (resolver_view token_net bad_fetch bob_config 0 0 p) ''did:web:ciss.example'' 50 [] ''h.p.s'' ''lxm'' =
     ([(''j1'', 100)], Authenticated bob_did, Some ''j1'')"
proof -
  have "b64url_decode token_net = Some" by (simp add: token_net_def demo_net_def)
  then have iss: "peek_iss token_net ''h.p.s'' = Ok bob_did"
    by (simp add: peek_iss_def decode_json_def from_slice_def)
      (simp add: token_net_def demo_net_def de_iss_only_def text_fields_def req_def de_str_def)
  have same: "resolver_view token_net bad_fetch bob_config 0 0 p bob_did = demo_resolve bob_did"
    by (simp add: fun_eq_iff resolver_view_def build_resolver_def pinned_resolve_def bob_config_def demo_resolve_def)
  show ?thesis by (rule trans [OF verify_resolve_cong demo_token_granted]) (rule iss same)+
qed

end
