(* ===== verification/Cli_Demo.thy ===== *)
theory Cli_Demo
  imports Cli_Laws Mesh_Demo
begin

text \<open>
  Two runs of the client: \<^verbatim>\<open>key gen\<close> on an empty disk, and \<^verbatim>\<open>acl set\<close> with that key against a fresh server over
  the wire, request by request.
\<close>

section \<open>A station and its disk\<close>

definition cli_seed :: bytes where
  "cli_seed = kp_signing_key alice"

definition cli_key :: Keypair where
  "cli_key = from_seed cli_seed KEY_LABEL"

definition cli_env :: env where
  "cli_env v = (if v = ''HOME'' then Some ''/h'' else None)"

definition cli_config :: Config where
  "cli_config = \<lparr>cf_root = ''/h/.config/ciss-ctl'', cf_profile = ''default''\<rparr>"

definition cli_machine :: "net \<Rightarrow> 's http \<Rightarrow> 's machine" where
  "cli_machine N H = \<lparr>mc_ext = demo, mc_net = N, mc_http = H, mc_env = cli_env, mc_entropy = (\<lambda>n. Ok (take n cli_seed)), mc_now = Ok 50,
     mc_ssh = (\<lambda>_. Inl ''not a key''), mc_hex_error = (\<lambda>_. []), mc_json_error = (\<lambda>_. []), mc_cid_text = (\<lambda>_ _. []), mc_debug = (\<lambda>t. t), mc_int_error = (\<lambda>_. []),
     mc_pretty = (\<lambda>_. []), mc_prompt = (\<lambda>_. Err ''no terminal''), mc_stdout_fails = None, mc_man = Ok []\<rparr>"

definition cli_station :: "net \<Rightarrow> 's http \<Rightarrow> ('s, bytes list, unit) station" where
  "cli_station N H = \<lparr>sn_machine = cli_machine N H, sn_sync = demo_sync, sn_text = (\<lambda>_. []), sn_io = (\<lambda>t. t), sn_canonicalize = Ok, sn_iroh = demo_iroh,
     sn_gossip = (\<lambda>_. []), sn_waits = ([], []), sn_parse_url = Inr, sn_bind = (\<lambda>_. None), sn_load = (\<lambda>_. None), sn_subscribe = None,
     sn_addr_text = (\<lambda>_. Inr []), sn_addr_parse = (\<lambda>_. Inr ()), sn_b64 = (\<lambda>b. b), sn_unb64 = Inr, sn_interrupt = Ok ()\<rparr>"

definition cli_args :: GlobalArgs where
  "cli_args = \<lparr>ga_server = ''http://h/'', ga_profile = ''default'', ga_identity = IdKind, ga_aud = None, ga_json = False\<rparr>"

definition cli_disk :: Disk where
  "cli_disk = \<lparr>dk_files = [(''/h/.config/ciss-ctl/profiles/work/identity.key'', ''00'', 384)], dk_dirs = [], dk_default_file = 420,
     dk_default_dir = 493, dk_fails = (\<lambda>_ _. None), dk_write_fault = (\<lambda>_. None)\<rparr>"

definition cli_start :: "'s \<Rightarrow> ('s, bytes list) cli" where
  "cli_start s = \<lparr>ct_disk = cli_disk, ct_stores = \<lparr>so_states = [], so_ledgers = [], so_fails = (\<lambda>_. None)\<rparr>, ct_tree = empty_tree, ct_server = s,
     ct_clock = 0, ct_iroh = []\<rparr>"

lemma cli_config_new: "config_new (mc_env (sn_machine (cli_station N H))) (ga_profile cli_args) = Ok cli_config"
  by (simp add: config_new_def config_root_def cli_station_def cli_machine_def cli_env_def cli_args_def cli_config_def path_join_def
      starts_with_def)

lemma cli_paths:
  "profile_dir cli_config = ''/h/.config/ciss-ctl/profiles/default''"
  "key_path cli_config = ''/h/.config/ciss-ctl/profiles/default/identity.key''"
  by (simp_all add: profile_dir_def key_path_def cli_config_def path_join_def starts_with_def)

lemma cli_entropy: "mc_entropy (sn_machine (cli_station N H)) 32 = Ok cli_seed" "length cli_seed = 32"
  using alice_key by (simp_all add: cli_station_def cli_machine_def cli_seed_def)

lemma cli_station_parts [simp]:
  "mc_ext (sn_machine (cli_station N H)) = demo" "mc_net (sn_machine (cli_station N H)) = N" "mc_http (sn_machine (cli_station N H)) = H"
  by (simp_all add: cli_station_def cli_machine_def)

section \<open>key gen\<close>

lemma add_dir_mem: "map_of (foldl (add_dir m) ds ps) p \<noteq> None \<longleftrightarrow> map_of ds p \<noteq> None \<or> p \<in> set ps"
  by (induction ps arbitrary: ds) (auto simp: add_dir_def map_of_eq_None_iff)

lemma cli_seed_written: "\<exists>d. write_seed demo cli_disk cli_config cli_seed = (d, Ok ())"
proof -
  let ?p = "profile_dir cli_config"
  have free: "map_of (dk_files cli_disk) ?p = None" "map_of (dk_files cli_disk) (key_path cli_config) = None"
    by (simp_all add: cli_disk_def cli_paths)
  obtain d1 where d1: "create_dir_all cli_disk ?p = (d1, Ok ())" "dk_files d1 = dk_files cli_disk" "map_of (dk_dirs d1) ?p \<noteq> None"
    "dk_fails d1 = (\<lambda>_ _. None)" "dk_write_fault d1 = (\<lambda>_. None)" "map_of (dk_dirs d1) (key_path cli_config) = None"
  proof -
    have "key_path cli_config \<notin> set (ancestors ?p)" by (simp add: ancestors_def cli_paths)
    then have "map_of (foldl (add_dir 493) [] (ancestors ?p)) (key_path cli_config) = None"
      using add_dir_mem [of 493 "[]" "ancestors ?p" "key_path cli_config"] by simp
    moreover have "map_of (foldl (add_dir 493) [] (ancestors ?p)) ?p \<noteq> None"
      using add_dir_mem [of 493 "[]" "ancestors ?p" ?p] by (simp add: ancestors_def)
    ultimately show thesis
      using that free(1) by (simp add: create_dir_all_def cli_disk_def)
  qed
  have ne: "key_path cli_config \<noteq> ?p" by (simp add: cli_paths)
  show ?thesis
    using d1 free ne
    by (auto simp: write_seed_def tighten_dir_def write_secret_file_def in_context_def with_context_def sbind_def set_permissions_def open_new_def
        disk_exists_def write_all_def update_conv' Let_def)
qed

lemma cli_key_gen:
  "\<exists>d out. cli_dispatch (cli_station N H) cli_args (KeyCmd KeyGen) (cli_start s) = ((cli_start s)\<lparr>ct_disk := d\<rparr>, Ok out) \<and> dk_fails d = (\<lambda>_ _. None)"
proof -
  obtain d where d: "write_seed demo cli_disk cli_config cli_seed = (d, Ok ())" using cli_seed_written by blast
  have "\<not> disk_exists cli_disk (key_path cli_config)" by (simp add: disk_exists_def cli_disk_def cli_paths)
  then have "generate demo (Ok cli_seed) cli_config cli_disk = (d, Ok (did_of_seed demo cli_seed))"
    using d by (simp add: generate_def with_context_def)
  then show ?thesis
    using cli_config_new [of N H] cli_entropy(1) [of N H] write_seed_Ok(3) [OF d, unfolded cli_disk_def]
    by (simp add: cli_dispatch_def io_dispatch_def key_dispatch_def on_io_def on_disk_def cli_start_def Let_def)
qed

section \<open>acl set\<close>

definition cli_route :: "HttpMethod \<Rightarrow> string \<Rightarrow> Route \<times> string option" where
  "cli_route hm url =
     (case strip_prefix ''http://h/'' url of
        None \<Rightarrow> (RtFallback, None)
      | Some path \<Rightarrow>
          (case (hm, split_on (CHR ''/'') path) of
             (HPut, [did, assertion, kind]) \<Rightarrow> (if assertion = ''assertion'' then RtPutAssertion did kind else RtFallback, None)
           | (HPut, [did, assertion, kind, sk]) \<Rightarrow> (if assertion = ''assertion'' then RtPutAssertionSubkey did kind sk else RtFallback, None)
           | (HGet, [did, assertion, kind, sk]) \<Rightarrow> (if assertion = ''assertion'' then RtGetAssertionSubkey did kind sk else RtFallback, None)
           | _ \<Rightarrow> (RtFallback, None)))"

definition cli_wire :: "net \<Rightarrow> (AppState \<times> nat) http" where
  "cli_wire N = server_http demo N (\<lambda>_. []) cli_route calm (\<lambda>_. [])"

lemma cli_client: "server_client cli_args = demo_client"
  by (simp add: server_client_def cli_args_def demo_client_def client_new_def)

lemma cli_routes:
  assumes "url_part did" "url_part kind" "url_part sk"
  shows "cli_route HPut (''http://h'' @ assertion_path did kind None) = (RtPutAssertion did kind, None)"
    "cli_route HPut (''http://h'' @ assertion_path did kind (Some sk)) = (RtPutAssertionSubkey did kind sk, None)"
    "cli_route HGet (''http://h'' @ assertion_path did kind (Some sk)) = (RtGetAssertionSubkey did kind sk, None)"
proof -
  note ns = url_part_slash [OF assms(1)] url_part_slash [OF assms(2)] url_part_slash [OF assms(3)]
  have p: "strip_prefix ''http://h/'' (''http://h'' @ ''/'' @ x) = Some x" for x
    using strip_prefix_append [of "''http://h/''" x] by simp
  have s: "split_on (CHR ''/'') (did @ ''/assertion/'' @ kind) = [did, ''assertion'', kind]"
    "split_on (CHR ''/'') (did @ ''/assertion/'' @ kind @ ''/'' @ sk) = [did, ''assertion'', kind, sk]"
    using split_on_segment [OF ns(1), of "''assertion/'' @ kind"] split_on_segment [of "CHR ''/''" "''assertion''" kind] split_on_last [OF ns(2)]
      split_on_segment [OF ns(1), of "''assertion/'' @ kind @ ''/'' @ sk"] split_on_segment [of "CHR ''/''" "''assertion''" "kind @ ''/'' @ sk"]
      split_on_segment [OF ns(2), of sk] split_on_last [OF ns(3)]
    by simp_all
  show "cli_route HPut (''http://h'' @ assertion_path did kind None) = (RtPutAssertion did kind, None)"
    "cli_route HPut (''http://h'' @ assertion_path did kind (Some sk)) = (RtPutAssertionSubkey did kind sk, None)"
    "cli_route HGet (''http://h'' @ assertion_path did kind (Some sk)) = (RtGetAssertionSubkey did kind sk, None)"
    by (simp_all only: assertion_path_def cli_route_def p option.case s prod.case list.case HttpMethod.case) simp_all
qed

lemma cli_setting_route: "setting_route demo_client cli_route"
  unfolding setting_route_def demo_base using cli_routes(1) [of _ _ "[]"] cli_routes(2)
  by (auto simp: url_part_def split: option.splits)

definition cli_cid :: string where
  "cli_cid = sha256_hex demo ''hello''"

lemma cli_cid_part: "cli_cid \<noteq> []" "url_part cli_cid" "is_ok (content_addr_parse cli_cid)"
proof -
  have h: "list_all lower_hex_char cli_cid" "length cli_cid = 64"
    using sha256_hex_lower [OF demo_hex_law] sha256_hex_length [OF demo_hex_law demo_digest_law] by (simp_all add: cli_cid_def)
  then show "cli_cid \<noteq> []" "url_part cli_cid" using hex_url_part(1) by auto
  show "is_ok (content_addr_parse cli_cid)" using h by (auto simp: content_addr_parse_def is_lower_hex_def CONTENT_ADDR_HEX_LEN_def)
qed

lemma cli_cid_subkey: "subkey_well_formed (Some cli_cid)"
proof -
  have "CHR '':'' \<notin> set cli_cid"
    unfolding cli_cid_def by (rule sha256_hex_no_char [OF demo_hex_law]) (simp add: lower_hex_char_def is_digit_def)
  moreover have "cli_cid \<noteq> ''-''" using sha256_hex_length [OF demo_hex_law demo_digest_law, of "''hello''"] by (auto simp: cli_cid_def)
  ultimately show ?thesis using cli_cid_part(1) by (simp add: subkey_well_formed_def)
qed

text \<open>The key on disk is alice's under another label.\<close>

lemma cli_key_same [simp]: "session_for demo cli_key = session_for demo alice" "sign_owner demo k d sk n b f cli_key = sign_owner demo k d sk n b f alice"
  by (simp_all add: cli_key_def cli_seed_def from_seed_def session_for_def sign_owner_def public_key_hex_def keypair_verifying_key_def
      sign_message_def)

definition cli_body :: PolicyBody where
  "cli_body = \<lparr>pb_read_class = World, pb_readers = []\<rparr>"

definition cli_record :: SignedAssertion where
  "cli_record = sign_owner demo POLICY_KIND alice_did (Some cli_cid) 1 (ser_policy_body cli_body) (policy_body_fold cli_body) alice"

definition cli_ack :: Ack where
  "cli_ack = make_ack demo cli_record (pv_attest_keypair (as_provider demo_state))"

definition saved_value :: json where
  "saved_value = to_value (JObj [(''seq'', JInt 1), (''ack'', ack_json cli_ack)])"

definition cli_values :: "json list" where
  "cli_values = [assertion_json cli_record, ack_json cli_ack, saved_value]"

definition cli_net :: net where
  "cli_net = knows cli_values"

lemma cli_values_jwf: "list_all jwf cli_values"
  using policy_body_fits [of cli_body] jwf_assertion_json [of cli_record]
  by (simp add: cli_values_def saved_value_def cli_record_def sign_owner_def body_fits_def ack_json_def)

lemma cli_parse: "v \<in> set cli_values \<Longrightarrow> json_parse cli_net (render demo_scalar v) = Some v"
  unfolding cli_net_def by (rule knows_parse [OF cli_values_jwf])

lemma cli_record_parsed: "from_slice cli_net de_signed_assertion (record_text demo cli_record) = Some cli_record"
proof -
  have "json_parse cli_net (render demo_scalar (assertion_json cli_record)) = Some (assertion_json cli_record)"
    by (rule cli_parse) (simp add: cli_values_def)
  moreover have "de_signed_assertion (assertion_json cli_record) = Some cli_record"
    by (rule de_signed_assertion_json)
      (use policy_body_fits [of cli_body] in \<open>simp add: assertion_wf_def cli_record_def sign_owner_def body_fits_def u64_max_def\<close>)
  ultimately show ?thesis by (simp add: from_slice_def record_text_def)
qed

lemma cli_write:
  assumes "as_store s = as_store demo_state" "as_provider s = as_provider demo_state"
  obtains st where "op_put_assertion demo cli_net s alice_did POLICY_KIND (Some cli_cid) (record_text demo cli_record) None =
    (s\<lparr>as_store := st\<rparr>, Ok (AssertionSaved 1 (render demo_scalar (ack_json cli_ack))))"
proof -
  have fields: "sa_did cli_record = alice_did" "sa_kind cli_record = POLICY_KIND" "sa_subkey cli_record = Some cli_cid" "sa_seq cli_record = 1"
    "sa_body cli_record = ser_policy_body cli_body"
    by (simp_all add: cli_record_def sign_owner_def)
  have w: "write_record demo cli_net (as_provider s) alice_did POLICY_KIND (Some cli_cid) (record_text demo cli_record) None = Ok cli_record"
    using cli_record_parsed fields by (simp add: write_record_def)
  have sz: "length (render demo_scalar (ser_policy_body cli_body)) \<le> POLICY_BODY_CEILING_BYTES"
    by (simp add: ser_policy_body_def cli_body_def POLICY_BODY_CEILING_BYTES_def)
  have f: "kind_fold POLICY_KIND (Some cli_cid) (ser_policy_body cli_body) = Ok (policy_body_fold cli_body)"
    using cli_cid_part(3) by (simp add: kind_fold_def de_ser_policy policy_body_valid_def) (simp add: cli_body_def)
  then have checks: "body_checks demo (as_limits s) POLICY_KIND (Some cli_cid) cli_record = Ok (policy_body_fold cli_body)"
    using sz by (simp add: body_checks_def fields POLICY_SPEC_def)
  have v: "assertion_verify demo cli_record (policy_body_fold cli_body) None pk" for pk
    unfolding cli_record_def alice_did_def
    by (rule sign_owner_verifies [OF demo_hex_law demo_digest_law demo_key_law demo_sign_law alice_key])
      (use cli_cid_subkey in \<open>simp_all add: POLICY_KIND_def\<close>)
  obtain st where "save_assertion (as_store demo_state) cli_record cli_ack = (st, Ok ())"
    by (rule first_setting [of "as_store demo_state" cli_record cli_ack]) (simp_all add: fields)
  then have "op_put_assertion demo cli_net s alice_did POLICY_KIND (Some cli_cid) (record_text demo cli_record) None =
      (s\<lparr>as_store := st\<rparr>, Ok (AssertionSaved 1 (render demo_scalar (ack_json cli_ack))))"
    unfolding op_put_assertion_def w sbind_simps checks
    by (simp add: assms v fields cli_ack_def on_store_def is_chain_kind_def POLICY_SPEC_def Let_def)
  then show thesis by (rule that)
qed

lemma no_policy:
  assumes "live k s" "k < u64_max" "as_store s = as_store demo_state"
  obtains l where "get_object_policy N (cli_wire N) demo_client (Some (session_for demo alice)) alice_did cli_cid (s, n) =
      ((s\<lparr>as_compute := l\<rparr>, n + 1), Ok None)" "live (Suc k) (s\<lparr>as_compute := l\<rparr>)"
proof -
  let ?q = "request demo_client HGet (''/'' @ alice_did @ ''/assertion/policy/'' @ cli_cid) (session_headers (session_for demo alice)) []"
  let ?who = "Authenticated alice_did" and ?oper = "GetAssertion alice_did POLICY_KIND (Some cli_cid)"
  obtain l where l: "dispatch_blocking demo N 7 s ?who ?oper = (s\<lparr>as_compute := l\<rparr>, Err NotFound)" "live (Suc k) (s\<lparr>as_compute := l\<rparr>)"
    by (rule dispatch_runs [where who = ?who and oper = ?oper and s = s and X = demo and N = N
          and r = "Err NotFound" and ?s1.0 = s and k = k and micros = 7])
      (use assms in \<open>simp_all add: op_get_assertion_def\<close>)
  have auth: "authenticate demo (map_of (session_headers (session_for demo alice))) = ?who"
    using session_accepted [OF demo_hex_law demo_key_law demo_sign_law alice_key] by (simp add: alice_session)
  have bt: "bearer_token (map_of (session_headers (session_for demo alice))) = None"
    by (simp add: bearer_token_def session_headers_def)
  have path: "''/'' @ alice_did @ ''/assertion/policy/'' @ cli_cid = assertion_path alice_did POLICY_KIND (Some cli_cid)"
    by (simp add: assertion_path_def POLICY_KIND_def)
  have rt: "cli_route (hq_method ?q) (hq_url ?q) = (RtGetAssertionSubkey alice_did POLICY_KIND cli_cid, None)"
    using cli_routes(3) [OF alice_part(2) setting_kinds(2) cli_cid_part(2)] unfolding path by (simp add: request_def demo_base)
  have run: "run_route demo N s (server_request (calm n) ?q None) (RtGetAssertionSubkey alice_did POLICY_KIND cli_cid) = (s\<lparr>as_compute := l\<rparr>, Err NotFound)"
    using l(1) alice_parses auth bt
    by (simp add: get_assertion_subkey_handler_def with_did_def auth_step_def authenticate_atproto_def server_request_def request_def calm_def
        handler_response_def map_ok_def)
  have send: "send demo_client (cli_wire N) ?q action (s, n) =
      ((s\<lparr>as_compute := l\<rparr>, n + 1), Ok (answer_of (error_response (\<lambda>_. []) NotFound)))" for action
    using calm_send(2) [where route = cli_route, OF rt run refl, of "\<lambda>_. []"] by (simp add: send_def cli_wire_def server_http_def)
  have "get_object_policy N (cli_wire N) demo_client (Some (session_for demo alice)) alice_did cli_cid (s, n) = ((s\<lparr>as_compute := l\<rparr>, n + 1), Ok None)"
    unfolding get_object_policy_def get_optional_def with_session_def option.case send sbind_simps
    by (simp add: answer_of_def error_response_def)
  then show thesis using l(2) that by blast
qed

lemma policy_put:
  assumes "live k s" "k < u64_max" "as_store s = as_store demo_state" "as_provider s = as_provider demo_state"
  obtains s' where "put_object_policy cli_net (cli_wire cli_net) demo_client alice_did cli_cid (record_text demo cli_record) (s, n) = ((s', n + 1), Ok 1)"
proof -
  let ?q = "request demo_client HPut (''/'' @ alice_did @ ''/assertion/policy/'' @ cli_cid) [] (record_text demo cli_record)"
  let ?oper = "PutAssertion alice_did POLICY_KIND (Some cli_cid) (record_text demo cli_record) None"
  obtain st where o: "op_put_assertion demo cli_net s alice_did POLICY_KIND (Some cli_cid) (record_text demo cli_record) None =
      (s\<lparr>as_store := st\<rparr>, Ok (AssertionSaved 1 (render demo_scalar (ack_json cli_ack))))" (is "_ = (?s1, Ok ?out)")
    by (rule cli_write [OF assms(3,4)])
  obtain l where l: "dispatch_blocking demo cli_net 7 s Anonymous ?oper = (?s1\<lparr>as_compute := l\<rparr>, Ok ?out)"
    by (rule dispatch_runs [where who = Anonymous and oper = ?oper and s = s and X = demo and N = cli_net
          and r = "Ok ?out" and ?s1.0 = ?s1 and k = k and micros = 7])
      (use o assms(1,2) in simp_all)
  have path: "''/'' @ alice_did @ ''/assertion/policy/'' @ cli_cid = assertion_path alice_did POLICY_KIND (Some cli_cid)"
    by (simp add: assertion_path_def POLICY_KIND_def)
  have rt: "cli_route (hq_method ?q) (hq_url ?q) = (RtPutAssertionSubkey alice_did POLICY_KIND cli_cid, None)"
    using cli_routes(2) [OF alice_part(2) setting_kinds(2) cli_cid_part(2)] unfolding path by (simp add: request_def demo_base)
  have run: "run_route demo cli_net s (server_request (calm n) ?q None) (RtPutAssertionSubkey alice_did POLICY_KIND cli_cid) =
      (?s1\<lparr>as_compute := l\<rparr>, Ok (outcome_response demo cli_net ?out))"
    using l alice_parses
    by (simp add: put_assertion_subkey_handler_def with_did_def assertion_write_auth_def bearer_token_def server_request_def request_def calm_def
        handler_response_def map_ok_def)
  have send: "send_ok demo_client (cli_wire cli_net) ?q action (s, n) = ((?s1\<lparr>as_compute := l\<rparr>, n + 1), Ok (answer_of (outcome_response demo cli_net ?out)))" for action
    using calm_send(1) [where route = cli_route, OF rt run refl, of "\<lambda>_. []"]
    by (simp add: send_ok_Ok cli_wire_def server_http_def answer_of_def json_response_def)
  have body: "an_body (answer_of (outcome_response demo cli_net ?out)) = Inr (render demo_scalar saved_value)"
    using cli_parse [of "ack_json cli_ack"] by (simp add: answer_of_def json_response_def saved_value_def cli_values_def del: to_value.simps)
  have js: "json_body cli_net (cli_wire cli_net) Some c (answer_of (outcome_response demo cli_net ?out)) = Ok saved_value" for c
    unfolding json_body_def body using cli_parse [of saved_value] by (simp add: from_slice_def cli_values_def ok_or_def)
  have "de_u64 (value_at saved_value ''seq'') = Some 1" by (simp add: value_at_def saved_value_def ack_json_def de_u64_def u64_max_def)
  then have "put_object_policy cli_net (cli_wire cli_net) demo_client alice_did cli_cid (record_text demo cli_record) (s, n) =
      ((?s1\<lparr>as_compute := l\<rparr>, n + 1), Ok 1)"
    unfolding put_object_policy_def put_policy_as_def send sbind_simps js by (simp add: ok_or_def)
  then show thesis by (rule that)
qed

text \<open>The command, with the key that \<^verbatim>\<open>key gen\<close> wrote.\<close>

lemma cli_acl_set:
  obtains c out c' where
    "cli_dispatch (cli_station cli_net (cli_wire cli_net)) cli_args (AclCmd (AclSet cli_cid ArgWorld [])) c = (c', Ok out)"
    "load_keypair demo (mc_hex_error (sn_machine (cli_station cli_net (cli_wire cli_net)))) (ct_disk c) cli_config = Ok cli_key"
    "ct_server c = (demo_state, 0)"
proof -
  let ?S = "cli_station cli_net (cli_wire cli_net)"
  obtain d t where gen: "cli_dispatch ?S cli_args (KeyCmd KeyGen) (cli_start (demo_state, 0)) = ((cli_start (demo_state, 0))\<lparr>ct_disk := d\<rparr>, Ok t)"
      "dk_fails d = (\<lambda>_ _. None)"
    using cli_key_gen [of cli_net "cli_wire cli_net" "(demo_state, 0)"] by blast
  define c where "c = (cli_start (demo_state, 0 :: nat))\<lparr>ct_disk := d\<rparr>"
  have g: "cli_dispatch ?S cli_args (KeyCmd KeyGen) (cli_start (demo_state, 0)) = (c, Ok t)" using gen(1) by (simp add: c_def)
  have calm_disk: "dk_fails (ct_disk (cli_start (demo_state, 0 :: nat))) = (\<lambda>_ _. None)" by (simp add: cli_start_def cli_disk_def)
  note k = new_key_works(1) [OF g cli_config_new _ cli_entropy, unfolded cli_station_parts, OF demo_hex_law]
  have c: "ct_server c = (demo_state, 0)" "dk_fails (ct_disk c) = (\<lambda>_ _. None)" by (simp_all add: c_def cli_start_def gen(2))
  have load: "load_keypair demo (mc_hex_error (sn_machine ?S)) (ct_disk c) cli_config = Ok cli_key"
    unfolding cli_key_def by (rule seed_is_loaded [OF k _ demo_hex_law cli_entropy(2)]) (simp_all add: c calm_disk)
  obtain l where l: "get_object_policy cli_net (cli_wire cli_net) demo_client (Some (session_for demo alice)) alice_did cli_cid (demo_state, 0) =
      ((demo_state\<lparr>as_compute := l\<rparr>, 0 + 1), Ok None)" "live (Suc 0) (demo_state\<lparr>as_compute := l\<rparr>)"
    by (rule no_policy [of 0 demo_state cli_net 0])
      (use compute_inv_new in \<open>simp_all add: live_def compute_new_def u64_max_def\<close>)
  obtain s' where s': "put_object_policy cli_net (cli_wire cli_net) demo_client alice_did cli_cid (record_text demo cli_record)
      (demo_state\<lparr>as_compute := l\<rparr>, 0 + 1) = ((s', 0 + 1 + 1), Ok 1)"
    by (rule policy_put [OF l(2), of "0 + 1"]) (simp_all add: u64_max_def)
  have seq: "following_seq None = Ok 1" by (simp add: following_seq_def current_seq_def u64_max_def)
  have id: "ga_identity cli_args = IdKind" by (simp add: cli_args_def)
  have "\<exists>c' out. cli_dispatch ?S cli_args (AclCmd (AclSet cli_cid ArgWorld [])) c = (c', Ok out)"
    using l(1) s' seq load cli_config_new [of cli_net "cli_wire cli_net"] c(1) id
    by (simp add: cli_dispatch_def io_dispatch_def on_io_def keypair_of_def acl_set_def on_net_def cli_client alice_session
        parse_class_def cli_record_def cli_body_def Let_def)
  then show thesis using that load c(1) by blast
qed

end
