(* ===== verification/Concurrent.thy ===== *)
theory Concurrent
  imports Runs
begin

text \<open>
  The operations as the blocking pool runs them: \<^verbatim>\<open>dispatch_blocking\<close> moves each dispatch to a thread of its
  own, and the dispatches share the store behind one mutex, the backend and the compute ledger. A
  dispatch is cut into sections where the code releases the store's lock, works without it (the backend,
  the compute ledger's own lock), or commits: a section holds at most one commit of the database, so a
  process that is killed leaves the store as it is between two sections. \<open>run_next\<close> runs the next section
  of one dispatch; run without interruption, the sections are \<open>dispatch\<close>. \<open>pool_event\<close> interleaves them.
\<close>

section \<open>The sections of an operation\<close>

text \<open>Where a dispatch stands. In \<open>Counted\<close>, \<open>Settled\<close> and \<open>Closed\<close> it holds the store's lock, between the two
  commits of an operation that has two.\<close>

datatype Phase =
    Entered
  | Allowed
  | Gated
  | Fresh
  | UnderCeiling u64
  | Storing bool
  | Written bool
  | Counted Receipt
  | Fetched bytes
  | Settled OpOutcome
  | Closed OpOutcome
  | Recording "(OpOutcome, ServerError) result"
  | Returned "(OpOutcome, ServerError) result"

record Task =
  tk_who :: Principal
  tk_op :: Op
  tk_micros :: u64
  tk_phase :: Phase

text \<open>An operation's outcome is recorded in the compute ledger; a panic unwinds past the recording.\<close>

definition finish :: "(OpOutcome, ServerError) result \<Rightarrow> Phase" where
  "finish r = (case r of Panic \<Rightarrow> Returned Panic | _ \<Rightarrow> Recording r)"

definition then_phase :: "AppState \<times> ('a, ServerError) result \<Rightarrow> ('a \<Rightarrow> Phase) \<Rightarrow> AppState \<times> Phase" where
  "then_phase p f =
     (case p of (s, Ok a) \<Rightarrow> (s, f a) | (s, Err e) \<Rightarrow> (s, Recording (Err e)) | (s, Panic) \<Rightarrow> (s, Returned Panic))"

text \<open>An upload: the drawdown and spend gates under the lock; the look at the backend; for a new object the
  usage under the lock and the ceiling, the dial under the lock and the cap; the write; and under the lock
  again the receipt, the commit of the stored bytes and the commit of the receipt.\<close>

fun put_object_section :: "ext \<Rightarrow> AppState \<Rightarrow> string \<Rightarrow> bytes \<Rightarrow> Phase \<Rightarrow> AppState \<times> Phase" where
  "put_object_section X s did bs Allowed =
     then_phase (s, write_gates (as_store s) did (length bs)) (\<lambda>_. Gated)"
| "put_object_section X s did bs Gated =
     (s, if blobs_has (as_blobs s) did (sha256_hex X bs) then Storing False else Fresh)"
| "put_object_section X s did bs Fresh =
     then_phase (s, ceiling_gate (as_limits s) (as_store s) did (length bs)) UnderCeiling"
| "put_object_section X s did bs (UnderCeiling did_stored) =
     then_phase (s, cap_gate (as_limits s) (as_store s) did did_stored (length bs)) (\<lambda>_. Storing True)"
| "put_object_section X s did bs (Storing is_new) =
     then_phase (case blobs_put (as_blobs s) did (sha256_hex X bs) bs of (b, r) \<Rightarrow> (s\<lparr>as_blobs := b\<rparr>, map_err SeBlob r))
       (\<lambda>written. if written \<noteq> length bs then Recording (Err (ByteCountMismatch (length bs) written)) else Written is_new)"
| "put_object_section X s did bs (Written is_new) =
     then_phase (sbind (s, transfer_receipt X s Upload did (sha256_hex X bs) (length bs)) (\<lambda>s receipt.
       sbind (if is_new then on_store s (add_stored_bytes (as_store s) did (length bs)) else (s, Ok ())) (\<lambda>s _. (s, Ok receipt))))
       Counted"
| "put_object_section X s did bs (Counted receipt) =
     then_phase (on_store s (append_receipt (as_store s) did receipt))
       (\<lambda>_. Recording (Ok (Stored (sha256_hex X bs) (length bs) (r_mode receipt) (r_content_hash receipt))))"
| "put_object_section X s did bs ph = (s, ph)"

text \<open>A download: the backend and the check of the digest without the lock, then the receipt under it.\<close>

fun get_object_section :: "ext \<Rightarrow> AppState \<Rightarrow> string \<Rightarrow> string \<Rightarrow> Phase \<Rightarrow> AppState \<times> Phase" where
  "get_object_section X s did cid Allowed =
     then_phase (s, map_err blob_error (blobs_get (as_blobs s) did cid))
       (\<lambda>data. let actual = sha256_hex X data in
          if actual \<noteq> cid then Recording (Err (Tampered cid actual)) else Fetched data)"
| "get_object_section X s did cid (Fetched data) =
     then_phase (sbind (s, transfer_receipt X s Download did cid (length data)) (\<lambda>s receipt.
       on_store s (append_receipt (as_store s) did receipt))) (\<lambda>_. Recording (Ok (Bytes cid data)))"
| "get_object_section X s did cid ph = (s, ph)"

text \<open>A write of an assertion: the checks and its row; for the period dial the baseline is a second commit, for a
  checkpoint the compaction on acknowledgement is one.\<close>

definition chain_commit ::
  "ext \<Rightarrow> AppState \<Rightarrow> string \<Rightarrow> string \<Rightarrow> string option \<Rightarrow> SignedAssertion \<Rightarrow> Ack \<Rightarrow> OpOutcome
   \<Rightarrow> AppState \<times> (Phase, ServerError) result" where
  "chain_commit X s did kind subkey record ack saved =
     (let st = as_store s in
      case de_chain_step (sa_body record) of
        None \<Rightarrow> (s, Err (BadAssertion ''body is not a valid chain.counter entry''))
      | Some (Step body) \<Rightarrow>
          sbind (s, map_err (\<lambda>brk. ChainBroken (chain_break_reason brk))
                      (verify_step (latest_chain_entry st did kind subkey) body (sa_seq record))) (\<lambda>s _.
          sbind (on_store s (append_chain_entry st record ack body
                   (entry_hash X did kind subkey (sa_seq record) body))) (\<lambda>s _. (s, Ok (Recording (Ok saved)))))
      | Some (Checkpoint body) \<Rightarrow>
          (case latest_chain_entry st did kind subkey of
             None \<Rightarrow> (s, Err (ChainBroken ''a checkpoint needs a chain to close (none exists)''))
           | Some prev \<Rightarrow>
               let expected_prev = (case latest_checkpoint_hash st did kind subkey of
                                      None \<Rightarrow> GENESIS_PREV_HASH | Some h \<Rightarrow> h)
               in sbind (s, map_err (\<lambda>brk. ChainBroken (chain_break_reason brk))
                           (verify_checkpoint prev expected_prev body (sa_seq record))) (\<lambda>s _.
                  sbind (on_store s (append_checkpoint_entry st record ack body
                           (checkpoint_hash X did kind subkey (sa_seq record) body))) (\<lambda>s _.
                    (s, Ok (if as_compaction s = OnAck then Closed saved else Recording (Ok saved)))))))"

definition assertion_commit ::
  "ext \<Rightarrow> net \<Rightarrow> AppState \<Rightarrow> string \<Rightarrow> string \<Rightarrow> string option \<Rightarrow> bytes \<Rightarrow> AuthedWrite option
   \<Rightarrow> AppState \<times> (Phase, ServerError) result" where
  "assertion_commit X N s did kind subkey body authed =
     sbind (s, write_record X N (as_provider s) did kind subkey body authed) (\<lambda>s record.
     sbind (s, body_checks X (as_limits s) kind subkey record) (\<lambda>s fold.
     if (case assertion_seq (as_store s) did kind subkey of None \<Rightarrow> False | Some prior \<Rightarrow> sa_seq record \<le> prior)
       then (s, Err (AssertionStale kind (sa_seq record)))
     else if \<not> assertion_verify X record fold None (attest_verifying_key X (as_provider s))
       then (s, Err AssertionUnauthorized)
     else
       let ack = make_ack X record (pv_attest_keypair (as_provider s));
           saved = AssertionSaved (sa_seq record) (render (scalar_text X) (ack_json ack)) in
       if is_chain_kind kind then chain_commit X s did kind subkey record ack saved
       else sbind (on_store s (save_assertion (as_store s) record ack)) (\<lambda>s _.
         (s, Ok (if kind = PERIOD_DIAL_KIND then Settled saved else Recording (Ok saved))))))"

fun put_assertion_section ::
  "ext \<Rightarrow> net \<Rightarrow> AppState \<Rightarrow> string \<Rightarrow> string \<Rightarrow> string option \<Rightarrow> bytes \<Rightarrow> AuthedWrite option \<Rightarrow> Phase
   \<Rightarrow> AppState \<times> Phase" where
  "put_assertion_section X N s did kind subkey body authed Allowed =
     then_phase (assertion_commit X N s did kind subkey body authed) (\<lambda>ph. ph)"
| "put_assertion_section X N s did kind subkey body authed (Settled saved) =
     then_phase (sbind (s, result_bind (persist (running_totals (as_store s) did)) total_bytes) (\<lambda>s baseline.
       (s\<lparr>as_store := put_meta (as_store s) (baseline_key did) (show_nat baseline)\<rparr>, Ok ()))) (\<lambda>_. Recording (Ok saved))"
| "put_assertion_section X N s did kind subkey body authed (Closed saved) =
     (s\<lparr>as_store := fst (compact_behind_latest_checkpoint (as_store s) did kind subkey)\<rparr>, Recording (Ok saved))"
| "put_assertion_section X N s did kind subkey body authed ph = (s, ph)"


text \<open>Every other operation is one section under the lock, with one commit or none.\<close>

fun op_section :: "ext \<Rightarrow> net \<Rightarrow> AppState \<Rightarrow> Principal \<Rightarrow> Op \<Rightarrow> Phase \<Rightarrow> AppState \<times> Phase" where
  "op_section X N s who (PutObject did key bs) ph = put_object_section X s did bs ph"
| "op_section X N s who (GetObject did cid) ph = get_object_section X s did cid ph"
| "op_section X N s who (PutAssertion did kind subkey body authed) ph =
     put_assertion_section X N s did kind subkey body authed ph"
| "op_section X N s who oper ph = (case dispatch_op X N s who oper of (s', r) \<Rightarrow> (s', finish r))"

definition run_next :: "ext \<Rightarrow> net \<Rightarrow> AppState \<Rightarrow> Task \<Rightarrow> AppState \<times> Phase" where
  "run_next X N s t =
     (case tk_phase t of
        Entered \<Rightarrow>
          (s, case result_bind (authorize (tk_who t) (tk_op t)) (\<lambda>_. authorize_read s (tk_who t) (tk_op t)) of
                Ok _ \<Rightarrow> Allowed | Err e \<Rightarrow> Returned (Err e) | Panic \<Rightarrow> Returned Panic)
      | Recording r \<Rightarrow>
          (case compute_record (as_compute s)
              (case principal_did (tk_who t) of None \<Rightarrow> ANONYMOUS_CALLER | Some c \<Rightarrow> c) (op_class (tk_op t)) (tk_micros t) of
             Ok ledger \<Rightarrow> (s\<lparr>as_compute := ledger\<rparr>, Returned r)
           | _ \<Rightarrow> (s, Returned Panic))
      | Returned r \<Rightarrow> (s, Returned r)
      | ph \<Rightarrow> op_section X N s (tk_who t) (tk_op t) ph)"

section \<open>The pool\<close>

definition holds_lock :: "Task \<Rightarrow> bool" where
  "holds_lock t = (case tk_phase t of Counted _ \<Rightarrow> True | Settled _ \<Rightarrow> True | Closed _ \<Rightarrow> True | _ \<Rightarrow> False)"

text \<open>Which next sections run under the store's lock.\<close>

definition needs_lock :: "Task \<Rightarrow> bool" where
  "needs_lock t =
     (case tk_phase t of
        Entered \<Rightarrow> (case tk_op t of GetObject _ _ \<Rightarrow> True | _ \<Rightarrow> False)
      | Allowed \<Rightarrow> (case tk_op t of GetObject _ _ \<Rightarrow> False | _ \<Rightarrow> True)
      | Gated \<Rightarrow> False
      | Storing _ \<Rightarrow> False
      | Recording _ \<Rightarrow> False
      | Returned _ \<Rightarrow> False
      | _ \<Rightarrow> True)"

text \<open>The shared state, the dispatches on the pool's threads, and the snapshot of the flush task between its two
  locks.\<close>

record Pool =
  po_app :: AppState
  po_tasks :: "Task list"
  po_snapshot :: "ComputeRow list option"

definition pool_of :: "AppState \<Rightarrow> Pool" where
  "pool_of s = \<lparr>po_app = s, po_tasks = [], po_snapshot = None\<rparr>"

definition lock_free_for :: "nat \<Rightarrow> Task list \<Rightarrow> bool" where
  "lock_free_for i ts = list_all (\<lambda>j. j = i \<or> \<not> holds_lock (ts ! j)) [0..<length ts]"

text \<open>What can happen next: a free thread takes an operation, a dispatch runs its next section, a finished one
  leaves its thread, a handler checks a bearer token, the flush task snapshots the compute ledger and later
  writes the snapshot. Two uploads of one object write the same temporary file, and what the backend holds
  while they overlap is left open: \<open>BackendBecame\<close> may put any other backend in its place at any moment.\<close>

datatype PoolEvent =
    Dispatched Principal Op u64
  | Advanced nat
  | Answered nat
  | TokenChecked resolver u64 string string
  | Snapshotted
  | Flushed
  | BackendBecame blobs

fun op_size :: "Op \<Rightarrow> nat" where
  "op_size (PutObject did key bs) = length bs"
| "op_size _ = 0"

text \<open>\<open>threads\<close> is the number of threads of tokio's blocking pool, \<open>limit\<close> axum's limit on the size of a body. An
  event that cannot happen in a state leaves it as it is.\<close>

fun pool_event :: "ext \<Rightarrow> net \<Rightarrow> nat \<Rightarrow> nat \<Rightarrow> Pool \<Rightarrow> PoolEvent \<Rightarrow> Pool" where
  "pool_event X N threads limit c (Dispatched who oper micros) =
     (if length (po_tasks c) < threads \<and> op_size oper \<le> limit
      then c\<lparr>po_tasks := po_tasks c @ [\<lparr>tk_who = who, tk_op = oper, tk_micros = micros, tk_phase = Entered\<rparr>]\<rparr> else c)"
| "pool_event X N threads limit c (Advanced i) =
     (if i < length (po_tasks c) \<and> (needs_lock (po_tasks c ! i) \<longrightarrow> lock_free_for i (po_tasks c))
      then case run_next X N (po_app c) (po_tasks c ! i) of (s, ph) \<Rightarrow>
        c\<lparr>po_app := s, po_tasks := (po_tasks c)[i := (po_tasks c ! i)\<lparr>tk_phase := ph\<rparr>]\<rparr>
      else c)"
| "pool_event X N threads limit c (Answered i) =
     (if i < length (po_tasks c) \<and> (case tk_phase (po_tasks c ! i) of Returned _ \<Rightarrow> True | _ \<Rightarrow> False)
      then c\<lparr>po_tasks := take i (po_tasks c) @ drop (Suc i) (po_tasks c)\<rparr> else c)"
| "pool_event X N threads limit c (TokenChecked resolve now jwt lxm) =
     (case verify_service_auth_full N resolve (as_service_did (po_app c)) now (as_replay (po_app c)) jwt lxm of
        (g, p, j) \<Rightarrow> c\<lparr>po_app := (po_app c)\<lparr>as_replay := g\<rparr>\<rparr>)"
| "pool_event X N threads limit c Snapshotted = c\<lparr>po_snapshot := Some (snapshot (as_compute (po_app c)))\<rparr>"
| "pool_event X N threads limit c Flushed =
     (case po_snapshot c of
        Some rows \<Rightarrow>
          if lock_free_for (length (po_tasks c)) (po_tasks c)
          then c\<lparr>po_app := (po_app c)\<lparr>as_store := replace_compute_usage (as_store (po_app c)) rows\<rparr>, po_snapshot := None\<rparr>
          else c
      | None \<Rightarrow> c)"
| "pool_event X N threads limit c (BackendBecame b) = c\<lparr>po_app := (po_app c)\<lparr>as_blobs := b\<rparr>\<rparr>"

definition pool_run :: "ext \<Rightarrow> net \<Rightarrow> nat \<Rightarrow> nat \<Rightarrow> Pool \<Rightarrow> PoolEvent list \<Rightarrow> Pool" where
  "pool_run X N threads limit c evs = foldl (pool_event X N threads limit) c evs"


section \<open>The sections without interruption are the dispatch\<close>

definition run_section :: "ext \<Rightarrow> net \<Rightarrow> AppState \<times> Task \<Rightarrow> AppState \<times> Task" where
  "run_section X N p = (case run_next X N (fst p) (snd p) of (s', ph) \<Rightarrow> (s', (snd p)\<lparr>tk_phase := ph\<rparr>))"

definition returns :: "ext \<Rightarrow> net \<Rightarrow> nat \<Rightarrow> AppState \<Rightarrow> Task \<Rightarrow> AppState \<times> (OpOutcome, ServerError) result \<Rightarrow> bool" where
  "returns X N k s t p \<longleftrightarrow> (run_section X N ^^ k) (s, t) = (fst p, t\<lparr>tk_phase := Returned (snd p)\<rparr>)"

text \<open>The end of a dispatch: one count in the compute ledger, unless the operation panicked.\<close>

definition recorded :: "Task \<Rightarrow> AppState \<times> (OpOutcome, ServerError) result \<Rightarrow> AppState \<times> (OpOutcome, ServerError) result" where
  "recorded t p =
     (case p of
        (s', Panic) \<Rightarrow> (s', Panic)
      | (s', outcome) \<Rightarrow>
          (case compute_record (as_compute s')
              (case principal_did (tk_who t) of None \<Rightarrow> ANONYMOUS_CALLER | Some c \<Rightarrow> c) (op_class (tk_op t)) (tk_micros t) of
             Ok ledger \<Rightarrow> (s'\<lparr>as_compute := ledger\<rparr>, outcome)
           | _ \<Rightarrow> (s', Panic)))"

lemma recorded_phase [simp]: "recorded (t\<lparr>tk_phase := ph\<rparr>) = recorded t"
  by (simp add: recorded_def fun_eq_iff)

lemma returns_now: "returns X N k s (t\<lparr>tk_phase := Returned r\<rparr>) (s, r)"
  by (induction k) (simp_all add: returns_def run_section_def run_next_def funpow_swap1)

lemma returns_Suc:
  "run_next X N s t = (s1, ph) \<Longrightarrow> returns X N k s1 (t\<lparr>tk_phase := ph\<rparr>) p \<Longrightarrow> returns X N (Suc k) s t p"
  by (simp add: returns_def run_section_def funpow_swap1)

lemma returns_recording:
  assumes "r \<noteq> Panic" "0 < k"
  shows "returns X N k s (t\<lparr>tk_phase := Recording r\<rparr>) (recorded t (s, r))"
proof -
  obtain m where k: "k = Suc m" using assms(2) by (cases k) auto
  have "run_next X N s (t\<lparr>tk_phase := Recording r\<rparr>) = (fst (recorded t (s, r)), Returned (snd (recorded t (s, r))))"
    using assms(1) by (cases r) (simp_all add: run_next_def recorded_def split: result.splits)
  then show ?thesis
    unfolding k by (rule returns_Suc) (use returns_now [where t = t and s = "fst (recorded t (s, r))" and r = "snd (recorded t (s, r))"] in simp)
qed

lemma returns_finish: "0 < k \<Longrightarrow> returns X N k s (t\<lparr>tk_phase := finish r\<rparr>) (recorded t (s, r))"
proof (cases "r = Panic")
  case True
  then show ?thesis using returns_now [where t = t and k = k] by (simp add: finish_def recorded_def)
next
  case False
  moreover from False have "finish r = Recording r" by (cases r) (simp_all add: finish_def)
  ultimately show "0 < k \<Longrightarrow> ?thesis" using returns_recording by simp
qed

lemma sbind_assoc: "sbind (sbind p f) g = sbind p (\<lambda>s a. sbind (f s a) g)"
  by (auto simp: sbind_def split: prod.splits result.splits)

lemma returns_mono:
  assumes "returns X N k s t p" "k \<le> n"
  shows "returns X N n s t p"
proof -
  have "(run_section X N ^^ n) (s, t) = (run_section X N ^^ (n - k)) ((run_section X N ^^ k) (s, t))"
    using assms(2) by (simp add: funpow_add [symmetric, THEN fun_cong, unfolded comp_def])
  then show ?thesis
    using assms(1) returns_now [where t = t and k = "n - k" and s = "fst p" and r = "snd p"] by (simp add: returns_def)
qed

text \<open>A section that goes on to a phase when it succeeds is a bind of the operation.\<close>

lemma returns_then:
  assumes "run_next X N s (t\<lparr>tk_phase := ph\<rparr>) = then_phase p f" "n = Suc k" "0 < k"
    and "\<And>s1 a. p = (s1, Ok a) \<Longrightarrow> returns X N k s1 (t\<lparr>tk_phase := f a\<rparr>) (recorded t (g s1 a))"
  shows "returns X N n s (t\<lparr>tk_phase := ph\<rparr>) (recorded t (sbind p g))"
proof -
  obtain s1 r where p: "p = (s1, r)" by (cases p)
  obtain s2 ph2 where a: "run_next X N s (t\<lparr>tk_phase := ph\<rparr>) = (s2, ph2)" by fastforce
  have "returns X N k s2 (t\<lparr>tk_phase := ph2\<rparr>) (recorded t (sbind p g))"
    using assms(1,3,4) a p returns_recording [of "Err _"] returns_now [where t = t and r = Panic]
    by (cases r) (simp_all add: then_phase_def recorded_def)
  then show ?thesis using returns_Suc [OF a, of k] assms(2) by simp
qed

lemma put_object_sections:
  assumes "tk_op t = PutObject did key bs"
  shows "returns X N 8 s (t\<lparr>tk_phase := Allowed\<rparr>) (recorded t (op_put_object X s did key bs))"
proof -
  let ?cid = "sha256_hex X bs"
  define final where "final is_new s = sbind (s, transfer_receipt X s Upload did ?cid (length bs)) (\<lambda>s receipt.
      sbind (if is_new then on_store s (add_stored_bytes (as_store s) did (length bs)) else (s, Ok ())) (\<lambda>s _.
      sbind (on_store s (append_receipt (as_store s) did receipt)) (\<lambda>s _.
        (s, Ok (Stored ?cid (length bs) (r_mode receipt) (r_content_hash receipt))))))" for is_new s
  define stored where "stored is_new s = sbind (case blobs_put (as_blobs s) did ?cid bs of (b, r) \<Rightarrow> (s\<lparr>as_blobs := b\<rparr>, map_err SeBlob r)) (\<lambda>s written.
      if written \<noteq> length bs then (s, Err (ByteCountMismatch (length bs) written)) else final is_new s)" for is_new s
  note adv = run_next_def assms
  have counted: "returns X N 2 s (t\<lparr>tk_phase := Counted r\<rparr>) (recorded t (sbind (on_store s (append_receipt (as_store s) did r)) (\<lambda>s _.
        (s, Ok (Stored ?cid (length bs) (r_mode r) (r_content_hash r))))))" for s r
    by (rule returns_then [where k = 1]) (auto simp: adv intro!: returns_recording)
  have written: "returns X N 3 s (t\<lparr>tk_phase := Written is_new\<rparr>) (recorded t (final is_new s))" for s is_new
  proof -
    have f: "final is_new s = sbind (sbind (s, transfer_receipt X s Upload did ?cid (length bs)) (\<lambda>s receipt.
        sbind (if is_new then on_store s (add_stored_bytes (as_store s) did (length bs)) else (s, Ok ())) (\<lambda>s _. (s, Ok receipt))))
        (\<lambda>s r. sbind (on_store s (append_receipt (as_store s) did r)) (\<lambda>s _.
        (s, Ok (Stored ?cid (length bs) (r_mode r) (r_content_hash r)))))"
      by (auto simp: final_def sbind_def split: prod.splits result.splits)
    show ?thesis unfolding f by (rule returns_then [where k = 2]) (auto simp: adv intro!: counted)
  qed
  have storing: "returns X N 4 s (t\<lparr>tk_phase := Storing is_new\<rparr>) (recorded t (stored is_new s))" for s is_new
    unfolding stored_def by (rule returns_then [where k = 3]) (auto simp: adv intro!: written returns_recording)
  have under: "returns X N 5 s (t\<lparr>tk_phase := UnderCeiling d\<rparr>)
      (recorded t (sbind (s, cap_gate (as_limits s) (as_store s) did d (length bs)) (\<lambda>s _. stored True s)))" for s d
    by (rule returns_then [where k = 4]) (auto simp: adv intro!: storing)
  have fresh: "returns X N 6 s (t\<lparr>tk_phase := Fresh\<rparr>)
      (recorded t (sbind (s, quota_gate (as_limits s) (as_store s) did (length bs)) (\<lambda>s _. stored True s)))" for s
  proof -
    have q: "sbind (s, quota_gate (as_limits s) (as_store s) did (length bs)) (\<lambda>s _. stored True s) =
        sbind (s, ceiling_gate (as_limits s) (as_store s) did (length bs)) (\<lambda>s' d.
        sbind (s, cap_gate (as_limits s) (as_store s) did d (length bs)) (\<lambda>s _. stored True s))"
      by (cases "ceiling_gate (as_limits s) (as_store s) did (length bs)") (simp_all add: quota_gate_def)
    show ?thesis unfolding q by (rule returns_then [where k = 5]) (auto simp: adv intro!: under)
  qed
  have gated: "returns X N 7 s (t\<lparr>tk_phase := Gated\<rparr>)
      (recorded t (sbind (s, if \<not> blobs_has (as_blobs s) did ?cid then quota_gate (as_limits s) (as_store s) did (length bs) else Ok ())
        (\<lambda>s' _. stored (\<not> blobs_has (as_blobs s) did ?cid) s')))" for s
  proof (cases "blobs_has (as_blobs s) did ?cid")
    case True
    then have a: "run_next X N s (t\<lparr>tk_phase := Gated\<rparr>) = (s, Storing False)" by (simp add: adv)
    have "returns X N 5 s (t\<lparr>tk_phase := Gated\<rparr>) (recorded t (stored False s))"
      using returns_Suc [OF a, of 4] storing [of s False] by simp
    from returns_mono [OF this, of 7] show ?thesis using True by simp
  next
    case False
    then have a: "run_next X N s (t\<lparr>tk_phase := Gated\<rparr>) = (s, Fresh)" by (simp add: adv)
    then show ?thesis using returns_Suc [OF a, of 6] fresh [of s] False by simp
  qed
  have op: "op_put_object X s did key bs = sbind (s, write_gates (as_store s) did (length bs)) (\<lambda>s _.
      sbind (s, if \<not> blobs_has (as_blobs s) did ?cid then quota_gate (as_limits s) (as_store s) did (length bs) else Ok ())
        (\<lambda>s' _. stored (\<not> blobs_has (as_blobs s) did ?cid) s'))"
    unfolding op_put_object_def stored_def final_def Let_def ..
  show ?thesis
    unfolding op
  proof (rule returns_then [where k = 7])
    show "returns X N 7 s1 (t\<lparr>tk_phase := Gated\<rparr>)
      (recorded t (sbind (s1, if \<not> blobs_has (as_blobs s1) did ?cid then quota_gate (as_limits s1) (as_store s1) did (length bs) else Ok ())
        (\<lambda>s' _. stored (\<not> blobs_has (as_blobs s1) did ?cid) s')))" for s1
      by (rule gated)
  qed (simp_all add: adv)
qed


lemma get_object_sections:
  assumes "tk_op t = GetObject did cid"
  shows "returns X N 3 s (t\<lparr>tk_phase := Allowed\<rparr>) (recorded t (op_get_object X s did cid))"
proof -
  note adv = run_next_def assms
  have fetched: "returns X N 2 s (t\<lparr>tk_phase := Fetched data\<rparr>) (recorded t (sbind (s, transfer_receipt X s Download did cid (length data)) (\<lambda>s receipt.
       sbind (on_store s (append_receipt (as_store s) did receipt)) (\<lambda>s _. (s, Ok (Bytes cid data))))))" for s data
  proof -
    have a: "sbind (s, transfer_receipt X s Download did cid (length data)) (\<lambda>s receipt.
       sbind (on_store s (append_receipt (as_store s) did receipt)) (\<lambda>s _. (s, Ok (Bytes cid data)))) =
       sbind (sbind (s, transfer_receipt X s Download did cid (length data)) (\<lambda>s receipt.
       on_store s (append_receipt (as_store s) did receipt))) (\<lambda>s _. (s, Ok (Bytes cid data)))"
      by (rule sbind_assoc [symmetric])
    show ?thesis unfolding a by (rule returns_then [where k = 1]) (auto simp: adv intro!: returns_recording)
  qed
  show ?thesis
    unfolding op_get_object_def Let_def
  proof (rule returns_then [where k = 2])
    show "returns X N 2 s1 (t\<lparr>tk_phase := if sha256_hex X a \<noteq> cid then Recording (Err (Tampered cid (sha256_hex X a))) else Fetched a\<rparr>)
        (recorded t (if sha256_hex X a \<noteq> cid then (s1, Err (Tampered cid (sha256_hex X a))) else
          sbind (s1, transfer_receipt X s1 Download did cid (length a)) (\<lambda>s receipt.
          sbind (on_store s (append_receipt (as_store s) did receipt)) (\<lambda>s _. (s, Ok (Bytes cid a))))))" for s1 a
      using fetched [of s1 a] returns_recording [of "Err (Tampered cid (sha256_hex X a))" 2] by (cases "sha256_hex X a = cid") simp_all
  qed (simp_all add: adv Let_def)
qed

text \<open>What is left of a write of an assertion after its first commit.\<close>

definition assertion_rest ::
  "string \<Rightarrow> string \<Rightarrow> string option \<Rightarrow> AppState \<Rightarrow> Phase \<Rightarrow> AppState \<times> (OpOutcome, ServerError) result" where
  "assertion_rest did kind subkey s ph =
     (case ph of
        Recording r \<Rightarrow> (s, r)
      | Settled saved \<Rightarrow>
          sbind (sbind (s, result_bind (persist (running_totals (as_store s) did)) total_bytes) (\<lambda>s baseline.
            (s\<lparr>as_store := put_meta (as_store s) (baseline_key did) (show_nat baseline)\<rparr>, Ok ()))) (\<lambda>s _. (s, Ok saved))
      | Closed saved \<Rightarrow>
          (s\<lparr>as_store := fst (compact_behind_latest_checkpoint (as_store s) did kind subkey)\<rparr>, Ok saved)
      | _ \<Rightarrow> (s, Panic))"

lemma assertion_rest_simps [simp]:
  "assertion_rest did kind subkey s (Recording r) = (s, r)"
  "assertion_rest did kind subkey s (if b then ph else ph') =
     (if b then assertion_rest did kind subkey s ph else assertion_rest did kind subkey s ph')"
  by (simp_all add: assertion_rest_def)

lemma assertion_rest_closed:
  "assertion_rest did kind subkey s (Closed saved) =
     (s\<lparr>as_store := fst (compact_behind_latest_checkpoint (as_store s) did kind subkey)\<rparr>, Ok saved)"
  by (simp add: assertion_rest_def)

lemma assertion_rest_settled:
  "assertion_rest did kind subkey s (Settled saved) =
     sbind (case result_bind (persist (running_totals (as_store s) did)) total_bytes of
        Ok baseline \<Rightarrow> (s\<lparr>as_store := put_meta (as_store s) (baseline_key did) (show_nat baseline)\<rparr>, Ok ())
      | Err e \<Rightarrow> (s, Err e)
      | Panic \<Rightarrow> (s, Panic)) (\<lambda>s _. (s, Ok saved))"
  by (simp add: assertion_rest_def split: result.splits)

lemma chain_commit_rest:
  "append_verified_chain_entry X s did kind subkey record ack =
     sbind (chain_commit X s did kind subkey record ack (AssertionSaved (sa_seq record) (render (scalar_text X) (ack_json ack))))
       (assertion_rest did kind subkey)"
  by (auto simp: append_verified_chain_entry_def chain_commit_def Let_def sbind_assoc assertion_rest_closed
      cong: if_cong split: option.splits ChainStep.splits)

lemma sbind_if: "sbind (if b then p else q) f = (if b then sbind p f else sbind q f)"
  by simp

lemma assertion_commit_rest:
  "op_put_assertion X N s did kind subkey body authed =
     sbind (assertion_commit X N s did kind subkey body authed) (assertion_rest did kind subkey)"
proof -
  have settle: "sbind (if kind = PERIOD_DIAL_KIND
        then (case result_bind (persist (running_totals (as_store s) did)) total_bytes of
                Ok baseline \<Rightarrow> (s\<lparr>as_store := put_meta (as_store s) (baseline_key did) (show_nat baseline)\<rparr>, Ok ())
              | Err e \<Rightarrow> (s, Err e)
              | Panic \<Rightarrow> (s, Panic))
        else (s, Ok ())) (\<lambda>s _. (s, Ok saved)) =
      assertion_rest did kind subkey s (if kind = PERIOD_DIAL_KIND then Settled saved else Recording (Ok saved))" for s saved
    by (simp add: assertion_rest_settled)
  show ?thesis
    unfolding op_put_assertion_def assertion_commit_def Let_def settle chain_commit_rest
    unfolding sbind_assoc sbind_if sbind_simps ..
qed

lemma assertion_commit_phase:
  assumes "assertion_commit X N s did kind subkey body authed = (s', Ok ph)"
  obtains saved where "ph = Recording (Ok saved) \<or> ph = Settled saved \<or> ph = Closed saved"
  using assms
  by (auto simp: assertion_commit_def chain_commit_def sbind_Ok Let_def split: if_splits option.splits ChainStep.splits)

lemma put_assertion_sections:
  assumes "tk_op t = PutAssertion did kind subkey body authed"
  shows "returns X N 3 s (t\<lparr>tk_phase := Allowed\<rparr>) (recorded t (op_put_assertion X N s did kind subkey body authed))"
proof -
  note adv = run_next_def assms
  have rest: "returns X N 2 s (t\<lparr>tk_phase := ph\<rparr>) (recorded t (assertion_rest did kind subkey s ph))"
    if "ph = Recording (Ok saved) \<or> ph = Settled saved \<or> ph = Closed saved" for s ph saved
  proof -
    have "returns X N 2 s (t\<lparr>tk_phase := Recording (Ok saved)\<rparr>) (recorded t (s, Ok saved))" by (rule returns_recording) simp_all
    moreover have "returns X N 2 s (t\<lparr>tk_phase := Settled saved\<rparr>) (recorded t (assertion_rest did kind subkey s (Settled saved)))"
      unfolding assertion_rest_def Phase.case
      by (rule returns_then [where k = 1]) (auto simp: adv intro!: returns_recording)
    moreover have "returns X N 2 s (t\<lparr>tk_phase := Closed saved\<rparr>) (recorded t (assertion_rest did kind subkey s (Closed saved)))"
    proof -
      have a: "run_next X N s (t\<lparr>tk_phase := Closed saved\<rparr>) =
          (s\<lparr>as_store := fst (compact_behind_latest_checkpoint (as_store s) did kind subkey)\<rparr>, Recording (Ok saved))"
        by (simp add: adv)
      show ?thesis
        using returns_Suc [OF a, of 1] returns_recording [of "Ok saved" 1] by (simp add: assertion_rest_closed numeral_2_eq_2)
    qed
    ultimately show ?thesis using that by auto
  qed
  show ?thesis
    unfolding assertion_commit_rest
  proof (rule returns_then [where k = 2])
    show "returns X N 2 s1 (t\<lparr>tk_phase := a\<rparr>) (recorded t (assertion_rest did kind subkey s1 a))"
      if "assertion_commit X N s did kind subkey body authed = (s1, Ok a)" for s1 a
      by (rule assertion_commit_phase [OF that]) (rule rest)
  qed (simp_all add: adv)
qed


lemma op_sections: "returns X N 8 s (t\<lparr>tk_phase := Allowed\<rparr>) (recorded t (dispatch_op X N s (tk_who t) (tk_op t)))"
proof -
  have one: "returns X N 8 s (t\<lparr>tk_phase := Allowed\<rparr>) (recorded t p)"
    if "run_next X N s (t\<lparr>tk_phase := Allowed\<rparr>) = (fst p, finish (snd p))" for p
    using returns_Suc [OF that, of 7] returns_finish [where k = 7 and s = "fst p" and t = t and r = "snd p"] by simp
  show ?thesis
  proof (cases "tk_op t")
    case (PutObject did key bs)
    then show ?thesis using put_object_sections [OF PutObject] by simp
  next
    case (GetObject did cid)
    then show ?thesis using returns_mono [OF get_object_sections [OF GetObject]] by simp
  next
    case (PutAssertion did kind subkey body authed)
    then show ?thesis using returns_mono [OF put_assertion_sections [OF PutAssertion]] by simp
  qed (rule one; simp add: run_next_def split: prod.splits)+
qed

text \<open>Nine sections at most, and nothing in between: the dispatch.\<close>

theorem sections_are_the_dispatch:
  "(run_section X N ^^ 9) (s, \<lparr>tk_who = who, tk_op = oper, tk_micros = micros, tk_phase = Entered\<rparr>) =
     (fst (dispatch X N micros s who oper),
      \<lparr>tk_who = who, tk_op = oper, tk_micros = micros, tk_phase = Returned (snd (dispatch X N micros s who oper))\<rparr>)"
proof -
  let ?t = "\<lparr>tk_who = who, tk_op = oper, tk_micros = micros, tk_phase = Entered\<rparr>"
  have d: "dispatch X N micros s who oper =
      (case result_bind (authorize who oper) (\<lambda>_. authorize_read s who oper) of
         Ok _ \<Rightarrow> recorded ?t (dispatch_op X N s who oper) | Err e \<Rightarrow> (s, Err e) | Panic \<Rightarrow> (s, Panic))"
    by (simp add: dispatch_def recorded_def sbind_def split: result.splits)
  have "returns X N 9 s ?t (dispatch X N micros s who oper)"
  proof (cases "result_bind (authorize who oper) (\<lambda>_. authorize_read s who oper)")
    case (Ok u)
    then have a: "run_next X N s ?t = (s, Allowed)" by (simp add: run_next_def)
    show ?thesis using returns_Suc [OF a, of 8] op_sections [of X N s ?t] Ok d by simp
  next
    case (Err e)
    then have a: "run_next X N s ?t = (s, Returned (Err e))" by (simp add: run_next_def)
    show ?thesis using returns_Suc [OF a, of 8] returns_now [where t = ?t] Err d by simp
  next
    case Panic
    then have a: "run_next X N s ?t = (s, Returned Panic)" by (simp add: run_next_def)
    show ?thesis using returns_Suc [OF a, of 8] returns_now [where t = ?t] Panic d by simp
  qed
  then show ?thesis by (simp add: returns_def)
qed


text \<open>While no other dispatch holds the lock, one can run on alone; so an uninterrupted dispatch is a run of the pool.\<close>

lemma pool_advances:
  assumes "i < length (po_tasks c)" "lock_free_for i (po_tasks c)" "(run_section X N ^^ k) (po_app c, po_tasks c ! i) = (s', t')"
  shows "pool_run X N threads limit c (replicate k (Advanced i)) = c\<lparr>po_app := s', po_tasks := (po_tasks c)[i := t']\<rparr>"
  using assms
proof (induction k arbitrary: c)
  case (Suc k)
  let ?t = "po_tasks c ! i"
  obtain s1 ph where a: "run_next X N (po_app c) ?t = (s1, ph)" by fastforce
  let ?c = "c\<lparr>po_app := s1, po_tasks := (po_tasks c)[i := ?t\<lparr>tk_phase := ph\<rparr>]\<rparr>"
  have r: "run_section X N (po_app c, ?t) = (s1, ?t\<lparr>tk_phase := ph\<rparr>)" using a by (simp add: run_section_def)
  have e: "pool_event X N threads limit c (Advanced i) = ?c" using Suc.prems a by simp
  have "pool_run X N threads limit ?c (replicate k (Advanced i)) = ?c\<lparr>po_app := s', po_tasks := (po_tasks ?c)[i := t']\<rparr>"
  proof (rule Suc.IH)
    show "lock_free_for i (po_tasks ?c)" using Suc.prems(2) by (auto simp: lock_free_for_def list_all_iff)
    show "(run_section X N ^^ k) (po_app ?c, po_tasks ?c ! i) = (s', t')"
      using Suc.prems(1,3) r by (simp add: funpow_swap1)
  qed (use Suc.prems in simp)
  then show ?case using e by (simp add: pool_run_def)
qed (auto simp: pool_run_def)

lemma pool_dispatches:
  assumes "length (po_tasks c) < threads" "op_size oper \<le> limit" "lock_free_for (length (po_tasks c)) (po_tasks c)"
  shows "pool_run X N threads limit c
      (Dispatched who oper micros # replicate 9 (Advanced (length (po_tasks c))) @ [Answered (length (po_tasks c))]) =
    c\<lparr>po_app := fst (dispatch X N micros (po_app c) who oper)\<rparr>"
proof -
  let ?n = "length (po_tasks c)" and ?t = "\<lparr>tk_who = who, tk_op = oper, tk_micros = micros, tk_phase = Entered\<rparr>"
  let ?c = "c\<lparr>po_tasks := po_tasks c @ [?t]\<rparr>" and ?d = "dispatch X N micros (po_app c) who oper"
  have "lock_free_for ?n (po_tasks ?c)"
    using assms(3) by (auto simp: lock_free_for_def list_all_iff nth_append less_Suc_eq)
  then have "pool_run X N threads limit ?c (replicate 9 (Advanced ?n)) =
      ?c\<lparr>po_app := fst ?d, po_tasks := (po_tasks ?c)[?n := ?t\<lparr>tk_phase := Returned (snd ?d)\<rparr>]\<rparr>"
    by (intro pool_advances) (simp_all add: sections_are_the_dispatch)
  moreover have "pool_run X N threads limit c (Dispatched who oper micros # es) = pool_run X N threads limit ?c es" for es
    using assms(1,2) by (simp add: pool_run_def)
  moreover have "pool_run X N threads limit c' (es @ [e]) = pool_event X N threads limit (pool_run X N threads limit c' es) e" for c' es e
    by (simp add: pool_run_def)
  ultimately show ?thesis by simp
qed

section \<open>Invariants of every interleaving\<close>

lemma fst_then_phase [simp]: "fst (then_phase p f) = fst p"
  by (simp add: then_phase_def split: prod.splits result.splits)

text \<open>What the store's own operations keep, every section keeps.\<close>

context table_invariant
begin

lemma chain_section:
  "T did \<Longrightarrow> sa_did a = did \<Longrightarrow> I (as_store s) \<Longrightarrow> I (as_store (fst (chain_commit X s did kind sk a k saved)))"
  unfolding chain_commit_def Let_def
  by (auto split: option.splits ChainStep.splits
      intro!: sbind_inv [where P = "\<lambda>s. I (as_store s)"] append_chain_entry append_checkpoint_entry)

lemma assertion_section:
  assumes "T did" "I (as_store s)"
  shows "I (as_store (fst (assertion_commit X N s did kind sk body authed)))"
proof (cases "write_record X N (as_provider s) did kind sk body authed")
  case (Ok a)
  show ?thesis
    using assms write_record_target(1) [OF Ok] unfolding assertion_commit_def Let_def Ok
    by (auto intro!: sbind_inv [where P = "\<lambda>s. I (as_store s)"] chain_section save_assertion)
qed (use assms in \<open>simp_all add: assertion_commit_def\<close>)

lemma put_assertion_sections_keep:
  "T did \<Longrightarrow> I (as_store s) \<Longrightarrow> I (as_store (fst (put_assertion_section X N s did kind sk body authed ph)))"
  by (cases ph) (auto intro!: sbind_inv [where P = "\<lambda>s. I (as_store s)"] assertion_section put_baseline compact)

end

context store_invariant
begin

lemma get_object_sections_keep:
  "T did \<Longrightarrow> I (as_store s) \<Longrightarrow> I (as_store (fst (get_object_section X s did cid ph)))"
  by (cases ph) (auto intro!: sbind_inv [where P = "\<lambda>s. I (as_store s)"] append_receipt)

lemma other_sections_keep:
  assumes "T (op_did oper)" "I (as_store s)" "\<And>did key bs. oper \<noteq> PutObject did key bs"
  shows "I (as_store (fst (op_section X N s who oper ph)))"
proof (cases oper)
  case (PutObject did key bs)
  then show ?thesis using assms(3) by blast
qed (use other_ops [OF assms, of X N who] assms(1,2) get_object_sections_keep put_assertion_sections_keep in
    \<open>simp_all add: split_beta\<close>)

end

context ledger_invariant
begin

lemma put_object_sections_keep:
  "T did \<Longrightarrow> I (as_store s) \<Longrightarrow> I (as_store (fst (put_object_section X s did bs ph)))"
  by (cases ph) (auto split: prod.splits intro!: sbind_inv [where P = "\<lambda>s. I (as_store s)"] append_receipt add_stored_bytes)

lemma section_keeps:
  assumes "T (op_did (tk_op t))" "I (as_store s)"
  shows "I (as_store (fst (run_next X N s t)))"
proof -
  have "I (as_store (fst (op_section X N s (tk_who t) (tk_op t) ph)))" for ph
    using assms put_object_sections_keep other_sections_keep [OF assms] by (cases "tk_op t") auto
  then show ?thesis using assms(2) by (cases "tk_phase t") (auto simp: run_next_def split: result.splits)
qed

end

context run_invariant
begin

lemma event_keeps: "I (as_store (po_app c)) \<Longrightarrow> I (as_store (po_app (pool_event X N threads limit c e)))"
proof (cases e)
  case (Advanced i)
  assume "I (as_store (po_app c))"
  then show ?thesis
    using Advanced section_keeps [where t = "po_tasks c ! i" and s = "po_app c"] by (simp add: split_beta)
qed (auto split: prod.splits option.splits intro: on_flush_store)

lemma pool_keeps: "I (as_store (po_app c)) \<Longrightarrow> I (as_store (po_app (pool_run X N threads limit c evs)))"
  unfolding pool_run_def by (induction evs arbitrary: c) (simp_all add: event_keeps)

end

text \<open>A section of an operation changes the store and the backend only; the compute ledger changes in the
  recording, and nothing changes the configuration.\<close>

lemma op_section_rest: "rest (fst (op_section X N s who oper ph)) = rest s"
proof -
  let ?P = "\<lambda>s'. rest s' = rest s"
  have u [simp]: "rest (s'\<lparr>as_store := st\<rparr>) = rest s'" "rest (s'\<lparr>as_blobs := b\<rparr>) = rest s'" for s' st b
    by (simp_all add: rest_def config_def)
  have chain: "?P (fst (chain_commit X s' did kind sk a k saved))" if "?P s'" for s' did kind sk a k saved
    using that unfolding chain_commit_def Let_def
    by (auto split: option.splits ChainStep.splits intro!: sbind_inv [where P = ?P])
  have assertion: "?P (fst (assertion_commit X N s did kind sk body authed))" for did kind sk body authed
    unfolding assertion_commit_def Let_def by (auto intro!: sbind_inv [where P = ?P] chain)
  have disp: "?P (fst (dispatch_op X N s who oper))"
    using put_object_rest [of X s] store_only [of oper X N s who] by (cases oper) (auto simp: rest_def)
  show ?thesis
  proof (cases oper)
    case (PutObject did key bs)
    then show ?thesis by (cases ph) (auto split: prod.splits intro!: sbind_inv [where P = ?P])
  next
    case (GetObject did cid)
    then show ?thesis by (cases ph) (auto intro!: sbind_inv [where P = ?P])
  next
    case (PutAssertion did kind sk body authed)
    then show ?thesis using assertion by (cases ph) (auto intro!: sbind_inv [where P = ?P])
  qed (use disp in \<open>simp_all add: split_beta\<close>)
qed

lemma run_next_config: "config (fst (run_next X N s t)) = config s"
proof -
  have "config (fst (op_section X N s who oper ph)) = config s" for who oper ph
    using op_section_rest [of X N s who oper ph] by (simp add: rest_def)
  moreover have "config (s\<lparr>as_compute := l\<rparr>) = config s" for l by (simp add: config_def)
  ultimately show ?thesis by (cases "tk_phase t") (auto simp: run_next_def split: result.splits)
qed

lemma run_next_compute: "compute_inv (as_compute s) \<Longrightarrow> compute_inv (as_compute (fst (run_next X N s t)))"
proof -
  assume inv: "compute_inv (as_compute s)"
  have "as_compute (fst (op_section X N s who oper ph)) = as_compute s" for who oper ph
    using op_section_rest [of X N s who oper ph] by (simp add: rest_def)
  then show ?thesis using inv by (cases "tk_phase t") (auto simp: run_next_def split: result.splits dest: compute_record_inv)
qed

lemma pool_compute:
  "compute_inv (as_compute (po_app c)) \<Longrightarrow> compute_inv (as_compute (po_app (pool_run X N threads limit c evs)))"
proof -
  have "compute_inv (as_compute (po_app (pool_event X N threads limit c e)))" if "compute_inv (as_compute (po_app c))" for c e
    using run_next_compute that by (cases e) (auto simp: split_beta split: prod.splits option.splits)
  then show "compute_inv (as_compute (po_app c)) \<Longrightarrow> ?thesis"
    unfolding pool_run_def by (induction evs arbitrary: c) simp_all
qed

lemma pool_config: "config (po_app (pool_run X N threads limit c evs)) = config (po_app c)"
proof -
  have "config (po_app (pool_event X N threads limit c e)) = config (po_app c)" for c e
    using run_next_config by (cases e) (auto simp: split_beta config_def split: prod.splits option.splits)
  then show ?thesis unfolding pool_run_def by (induction evs arbitrary: c) simp_all
qed

text \<open>The states of a server: those between requests served one after another, and those of every interleaving.\<close>

definition reached :: "ext \<Rightarrow> net \<Rightarrow> AppState \<Rightarrow> AppState \<Rightarrow> bool" where
  "reached X N s0 s \<longleftrightarrow>
     reachable X N s0 s \<or> (\<exists>threads limit evs. s = po_app (pool_run X N threads limit (pool_of s0) evs))"

context run_invariant
begin

lemma reached_keeps: "reached X N s0 s \<Longrightarrow> I (as_store s0) \<Longrightarrow> I (as_store s)"
  using store_always pool_keeps [of "pool_of s0"] by (auto simp: reached_def pool_of_def)

end

lemma reached_run: "reached X N s0 s \<Longrightarrow> config s = config s0 \<and> (compute_inv (as_compute s0) \<longrightarrow> compute_inv (as_compute s))"
  using config_run.always [of X N s0 s "config s0"] compute_run.always [of X N s0 s] pool_config [where c = "pool_of s0"]
    pool_compute [where c = "pool_of s0"]
  by (auto simp: reached_def pool_of_def)


section \<open>The ceiling under concurrent uploads\<close>

text \<open>The bytes of an upload that passed the ceiling and whose commit is still ahead.\<close>

fun phase_bytes :: "nat \<Rightarrow> Phase \<Rightarrow> nat" where
  "phase_bytes n (UnderCeiling _) = n"
| "phase_bytes n (Storing is_new) = (if is_new then n else 0)"
| "phase_bytes n (Written is_new) = (if is_new then n else 0)"
| "phase_bytes n _ = 0"

definition admitted :: "Task \<Rightarrow> nat" where
  "admitted t = phase_bytes (op_size (tk_op t)) (tk_phase t)"

lemma ceiling_gate_Ok:
  assumes "ceiling_gate limits st did n = Ok d" "n \<le> i64_max"
  shows "stored_total st + n \<le> store_ceiling limits"
proof -
  have u: "store_usage st = Ok (stored_total st)" "stored_total st \<le> i64_max"
    using assms(1)
    by (auto simp: ceiling_gate_def result_bind_Ok store_usage_def sql_int_def stored_total_def split: if_splits)
  have "i64_max + i64_max \<le> u64_max" by (simp add: i64_max_def u64_max_def)
  then have "saturating_add (stored_total st) n = stored_total st + n"
    using u assms(2) by (simp add: saturating_add_def)
  then show ?thesis using assms(1) u by (auto simp: ceiling_gate_def result_bind_Ok not_less split: if_splits)
qed

text \<open>A section moves the stored and the admitted bytes of its dispatch up to the ceiling, and not beyond.\<close>

lemma put_object_section_quota:
  assumes "totals_inv (as_store s)" "length bs \<le> i64_max" "put_object_section X s did bs ph = (s', ph')"
  shows "stored_total (as_store s') + phase_bytes (length bs) ph' \<le>
    max (stored_total (as_store s) + phase_bytes (length bs) ph) (store_ceiling (as_limits s))"
proof -
  have "stored_total (as_store s') + phase_bytes (length bs) ph' \<le> stored_total (as_store s) + phase_bytes (length bs) ph \<or>
      stored_total (as_store s') + phase_bytes (length bs) ph' \<le> store_ceiling (as_limits s)"
  proof (cases ph)
    case Fresh
    then show ?thesis using assms ceiling_gate_Ok [of "as_limits s" "as_store s" did "length bs"]
      by (cases "ceiling_gate (as_limits s) (as_store s) did (length bs)") (auto simp: then_phase_def)
  next
    case (Written b)
    obtain st e where a: "add_stored_bytes (as_store s) did (length bs) = (st, e)" by fastforce
    have "stored_total st \<le> stored_total (as_store s) + length bs"
      using add_stored_bytes_stored(1) [of "as_store s" did "length bs" st "()"] add_stored_bytes_not_Ok [OF a] a assms(1)
      by (cases "e = Ok ()") auto
    then show ?thesis
      using assms(3) Written a
      by (cases "transfer_receipt X s Upload did (sha256_hex X bs) (length bs)"; cases b; cases e)
        (auto simp: then_phase_def on_store_def)
  next
    case (Counted r)
    then have "as_store s' = fst (append_receipt (as_store s) did r)" "phase_bytes (length bs) ph' = 0"
      using assms by (auto simp: then_phase_def on_store_def split: prod.splits result.splits)
    then show ?thesis using append_receipt_stored(1) by simp
  next
    case (Storing b)
    then show ?thesis using assms by (auto simp: then_phase_def split: prod.splits result.splits if_splits)
  qed (use assms in \<open>auto simp: then_phase_def split: result.splits if_splits\<close>)
  then show ?thesis by linarith
qed

lemma phase_bytes_0 [simp]: "phase_bytes 0 ph = 0"
  by (cases ph) simp_all

lemma run_next_quota:
  assumes "totals_inv (as_store s)" "op_size (tk_op t) \<le> i64_max" "run_next X N s t = (s', ph)"
  shows "stored_total (as_store s') + admitted (t\<lparr>tk_phase := ph\<rparr>) \<le>
    max (stored_total (as_store s) + admitted t) (store_ceiling (as_limits s))"
proof (cases "\<exists>did key bs. tk_op t = PutObject did key bs")
  case True
  then obtain did key bs where o: "tk_op t = PutObject did key bs" by blast
  have "run_next X N s t = put_object_section X s did bs (tk_phase t)"
    if "tk_phase t \<noteq> Entered" "\<And>r. tk_phase t \<noteq> Recording r" "\<And>r. tk_phase t \<noteq> Returned r"
    using that o by (cases "tk_phase t") (auto simp: run_next_def)
  with assms(3) have "put_object_section X s did bs (tk_phase t) = (s', ph)"
    if "tk_phase t \<noteq> Entered" "\<And>r. tk_phase t \<noteq> Recording r" "\<And>r. tk_phase t \<noteq> Returned r"
    using that by metis
  then have "?thesis" if "tk_phase t \<noteq> Entered" "\<And>r. tk_phase t \<noteq> Recording r" "\<And>r. tk_phase t \<noteq> Returned r"
    using put_object_section_quota [OF assms(1), of bs X did "tk_phase t" s' ph] assms(2) that o by (simp add: admitted_def)
  moreover have "?thesis" if "tk_phase t = Entered \<or> (\<exists>r. tk_phase t = Recording r) \<or> (\<exists>r. tk_phase t = Returned r)"
    using that assms(3) by (auto simp: run_next_def admitted_def split: result.splits)
  ultimately show ?thesis by blast
next
  case False
  then have z: "op_size (tk_op t) = 0" by (cases "tk_op t") auto
  have "stored_total (as_store (fst (op_section X N s (tk_who t) (tk_op t) ph))) \<le> stored_total (as_store s)" for ph
    using quota.other_sections_keep [where oper = "tk_op t" and s = s and c = "stored_total (as_store s)" and X = X and N = N and who = "tk_who t" and ph = ph] False by simp
  then have "stored_total (as_store (fst (run_next X N s t))) \<le> stored_total (as_store s)"
    by (cases "tk_phase t") (auto simp: run_next_def split: result.splits)
  then have "stored_total (as_store s') \<le> stored_total (as_store s)" using assms(3) by simp
  then show ?thesis using z by (simp add: admitted_def)
qed


text \<open>All uploads that passed the ceiling are counted in full, and an upload passes it with at most all the other
  threads admitted before it.\<close>

definition pool_within :: "nat \<Rightarrow> nat \<Rightarrow> Pool \<Rightarrow> bool" where
  "pool_within threads limit c \<longleftrightarrow>
     totals_inv (as_store (po_app c)) \<and> length (po_tasks c) \<le> threads \<and> list_all (\<lambda>t. op_size (tk_op t) \<le> limit) (po_tasks c) \<and>
     stored_total (as_store (po_app c)) + sum_list (map admitted (po_tasks c)) \<le>
       store_ceiling (as_limits (po_app c)) + (threads - 1) * limit"

lemma admitted_le: "op_size (tk_op t) \<le> limit \<Longrightarrow> admitted t \<le> limit"
  by (cases "tk_phase t") (auto simp: admitted_def)

lemma removed_admitted:
  "i < length ts \<Longrightarrow> sum_list (map admitted ts) = admitted (ts ! i) + sum_list (map admitted (take i ts @ drop (Suc i) ts))"
  by (subst id_take_nth_drop [of i ts]) simp_all

lemma others_admitted:
  assumes "i < length ts" "list_all (\<lambda>t. op_size (tk_op t) \<le> limit) ts" "length ts \<le> threads"
  shows "sum_list (map admitted (ts[i := t])) = admitted t + (sum_list (map admitted ts) - admitted (ts ! i))"
    "admitted (ts ! i) \<le> sum_list (map admitted ts)"
    "sum_list (map admitted ts) - admitted (ts ! i) \<le> (threads - 1) * limit"
proof -
  let ?o = "take i ts @ drop (Suc i) ts"
  have split: "sum_list (map admitted ts) = admitted (ts ! i) + sum_list (map admitted ?o)"
    by (rule removed_admitted [OF assms(1)])
  have upd: "sum_list (map admitted (ts[i := t])) = admitted t + sum_list (map admitted ?o)"
    using assms(1) by (simp add: upd_conv_take_nth_drop)
  have "sum_list (map admitted ?o) \<le> sum_list (map (\<lambda>_. limit) ?o)"
    using assms(2) by (intro sum_list_mono admitted_le) (auto simp: list_all_iff dest: in_set_takeD in_set_dropD)
  also have "\<dots> = length ?o * limit" by (simp add: sum_list_triv add_mult_distrib)
  also have "\<dots> \<le> (threads - 1) * limit" using assms(1,3) by (intro mult_le_mono1) simp
  finally show "sum_list (map admitted ts) - admitted (ts ! i) \<le> (threads - 1) * limit" using split by simp
  show "sum_list (map admitted (ts[i := t])) = admitted t + (sum_list (map admitted ts) - admitted (ts ! i))"
    "admitted (ts ! i) \<le> sum_list (map admitted ts)"
    using split upd by simp_all
qed

lemma event_within:
  assumes w: "pool_within threads limit c" and l: "limit \<le> i64_max"
  shows "pool_within threads limit (pool_event X N threads limit c e)"
proof -
  let ?c = "pool_event X N threads limit c e"
  have t: "totals_inv (as_store (po_app ?c))" using run_totals.event_keeps w by (simp add: pool_within_def)
  show ?thesis
  proof (cases e)
    case (Advanced i)
    show ?thesis
    proof (cases "i < length (po_tasks c) \<and> (needs_lock (po_tasks c ! i) \<longrightarrow> lock_free_for i (po_tasks c))")
      case True
      let ?t = "po_tasks c ! i"
      obtain s' ph where a: "run_next X N (po_app c) ?t = (s', ph)" by fastforce
      have lim: "as_limits s' = as_limits (po_app c)"
        using run_next_config [of X N "po_app c" ?t] a by (simp add: config_def)
      have sz: "list_all (\<lambda>t. op_size (tk_op t) \<le> limit) (po_tasks c)" "length (po_tasks c) \<le> threads"
        using w by (simp_all add: pool_within_def)
      then have ti: "op_size (tk_op ?t) \<le> limit" using True by (simp add: list_all_length)
      note o = others_admitted [OF conjunct1 [OF True] sz]
      have "stored_total (as_store s') + admitted (?t\<lparr>tk_phase := ph\<rparr>) \<le>
          max (stored_total (as_store (po_app c)) + admitted ?t) (store_ceiling (as_limits (po_app c)))"
        by (rule run_next_quota [OF _ _ a]) (use w ti l in \<open>auto simp: pool_within_def\<close>)
      then have "stored_total (as_store s') + sum_list (map admitted ((po_tasks c)[i := ?t\<lparr>tk_phase := ph\<rparr>])) \<le>
          store_ceiling (as_limits (po_app c)) + (threads - 1) * limit"
        using o(1) [of "?t\<lparr>tk_phase := ph\<rparr>"] o(2,3) w unfolding pool_within_def by linarith
      moreover have "list_all (\<lambda>t. op_size (tk_op t) \<le> limit) ((po_tasks c)[i := ?t\<lparr>tk_phase := ph\<rparr>])"
        using sz(1) ti True by (auto simp: list_all_length nth_list_update)
      ultimately show ?thesis using t Advanced True a lim sz(2) by (simp add: pool_within_def)
    qed (use w Advanced in auto)
  next
    case (Answered i)
    then show ?thesis
      using w removed_admitted [of i "po_tasks c"]
      by (auto simp: pool_within_def list_all_iff dest: in_set_takeD in_set_dropD)
  next
    case Flushed
    then show ?thesis using w t by (auto simp: pool_within_def stored_total_def replace_compute_usage_def split: option.splits)
  qed (use w t in \<open>auto simp: pool_within_def admitted_def split: prod.splits\<close>)
qed

lemma pool_run_within:
  "pool_within threads limit c \<Longrightarrow> limit \<le> i64_max \<Longrightarrow> pool_within threads limit (pool_run X N threads limit c evs)"
  unfolding pool_run_def by (induction evs arbitrary: c) (simp_all add: event_within)

section \<open>Mutual exclusion\<close>

definition exclusive :: "Task list \<Rightarrow> bool" where
  "exclusive ts \<longleftrightarrow> length (filter holds_lock ts) \<le> 1"


lemma holds_needs: "holds_lock t \<Longrightarrow> needs_lock t"
  by (cases "tk_phase t") (simp_all add: holds_lock_def needs_lock_def)

text \<open>A dispatch that holds the lock after a section ran that section under the lock.\<close>

lemma run_next_lock:
  assumes "run_next X N s t = (s', ph)" "holds_lock (t\<lparr>tk_phase := ph\<rparr>)"
  shows "needs_lock t"
proof (rule ccontr)
  assume n: "\<not> needs_lock t"
  show False
  proof (cases "tk_phase t")
    case Entered
    then show ?thesis using assms by (auto simp: run_next_def holds_lock_def split: result.splits)
  next
    case Allowed
    then obtain did cid where "tk_op t = GetObject did cid" using n by (cases "tk_op t") (simp_all add: needs_lock_def)
    then show ?thesis
      using assms Allowed by (auto simp: run_next_def then_phase_def holds_lock_def Let_def split: result.splits if_splits)
  next
    case Gated
    then show ?thesis using assms
      by (cases "tk_op t")
        (auto simp: run_next_def holds_lock_def finish_def split: result.splits prod.splits if_splits)
  next
    case (Storing b)
    have "\<not> holds_lock (t\<lparr>tk_phase := ph\<rparr>)"
      using assms(1) unfolding run_next_def Storing Phase.case
      by (cases "tk_op t")
        (auto simp: then_phase_def holds_lock_def finish_def split: result.splits prod.splits if_splits)
    then show ?thesis using assms(2) by simp
  next
    case (Returned r)
    then have "ph = Returned r" using assms(1) by (simp add: run_next_def)
    then show ?thesis using assms(2) by (simp add: holds_lock_def)
  qed (use n assms in \<open>auto simp: needs_lock_def run_next_def holds_lock_def split: result.splits\<close>)
qed

lemma lock_free_others:
  assumes "i < length ts" "lock_free_for i ts"
  shows "filter holds_lock (take i ts @ drop (Suc i) ts) = []"
proof -
  have n: "\<not> holds_lock (ts ! j)" if "j < length ts" "j \<noteq> i" for j
    using assms(2) that by (auto simp: lock_free_for_def list_all_iff)
  have "\<not> holds_lock x" if "x \<in> set (take i ts)" for x
    using that n by (auto simp: in_set_conv_nth)
  moreover have "\<not> holds_lock x" if x: "x \<in> set (drop (Suc i) ts)" for x
  proof -
    obtain j where "j < length ts - Suc i" "x = ts ! (Suc i + j)" using x by (auto simp: in_set_conv_nth)
    then show ?thesis using n [of "Suc i + j"] by simp
  qed
  ultimately show ?thesis by (auto simp: filter_empty_conv)
qed

lemma filter_at: "i < length ts \<Longrightarrow> length (filter P ts) = length (filter P [ts ! i]) + length (filter P (take i ts @ drop (Suc i) ts))"
  by (subst id_take_nth_drop [of i ts]) simp_all

lemma event_exclusive:
  assumes "exclusive (po_tasks c)"
  shows "exclusive (po_tasks (pool_event X N threads limit c e))"
proof (cases e)
  case (Dispatched who oper micros)
  then show ?thesis using assms by (simp add: exclusive_def holds_lock_def)
next
  case (Advanced i)
  let ?ts = "po_tasks c"
  obtain s' ph where a: "run_next X N (po_app c) (?ts ! i) = (s', ph)" by fastforce
  show ?thesis
  proof (cases "i < length ?ts \<and> (needs_lock (?ts ! i) \<longrightarrow> lock_free_for i ?ts)")
    case True
    let ?t = "(?ts ! i)\<lparr>tk_phase := ph\<rparr>"
    have u: "length (filter holds_lock (?ts[i := ?t])) = length (filter holds_lock [?t]) + length (filter holds_lock (take i ?ts @ drop (Suc i) ?ts))"
      using True by (simp add: upd_conv_take_nth_drop)
    have "length (filter holds_lock (?ts[i := ?t])) \<le> 1"
    proof (cases "holds_lock ?t")
      case h: True
      then show ?thesis using u lock_free_others [of i ?ts] run_next_lock [OF a h] True by simp
    next
      case False
      then show ?thesis using u filter_at [of i ?ts holds_lock] True assms by (simp add: exclusive_def)
    qed
    then show ?thesis using True Advanced a by (simp add: exclusive_def)
  qed (use assms Advanced in auto)
next
  case (Answered i)
  then show ?thesis using assms filter_at [of i "po_tasks c" holds_lock] by (auto simp: exclusive_def)
qed (use assms in \<open>auto split: prod.splits option.splits\<close>)


lemma pool_exclusive: "exclusive (po_tasks c) \<Longrightarrow> exclusive (po_tasks (pool_run X N threads limit c evs))"
  unfolding pool_run_def by (induction evs arbitrary: c) (simp_all add: event_exclusive)

end
