(* ===== verification/Ciss_Main.thy ===== *)
theory Ciss_Main
  imports Concurrent Resolve Cli_Profile
begin

text \<open>
  The server's binary, \<^verbatim>\<open>main.rs\<close>: its arguments, the start of the service, its life until shutdown, and the
  \<^verbatim>\<open>usage\<close> report. A data directory holds the database and the blobs; a process opens it, runs dispatches on its
  pool and flushes in some interleaving, and either drains and checkpoints or ends without (an error of the
  listener, a kill), with whatever dispatches are between two of their sections. The environment, the files and the sockets of the host are arguments, and so is the floating-point
  arithmetic of the report's figures.
\<close>

section \<open>Arguments\<close>

record ServiceConfig =
  sv_data_dir :: string
  sv_listen :: string

fun parse_args_from :: "ServiceConfig \<Rightarrow> string list \<Rightarrow> (ServiceConfig, string) result" where
  "parse_args_from cfg [] = Ok cfg"
| "parse_args_from cfg (arg # args) =
     (if arg = ''--data-dir'' then
        (case args of v # args' \<Rightarrow> parse_args_from (cfg\<lparr>sv_data_dir := v\<rparr>) args' | [] \<Rightarrow> Err ''--data-dir requires a value'')
      else if arg = ''--listen'' then
        (case args of v # args' \<Rightarrow> parse_args_from (cfg\<lparr>sv_listen := v\<rparr>) args' | [] \<Rightarrow> Err ''--listen requires a value'')
      else Err (''unknown argument: '' @ arg))"

definition parse_args :: "string list \<Rightarrow> (ServiceConfig, string) result" where
  "parse_args args = parse_args_from \<lparr>sv_data_dir = ''./data'', sv_listen = ''127.0.0.1:8080''\<rparr> args"

fun usage_args :: "string option \<Rightarrow> string option \<Rightarrow> string list \<Rightarrow> (string option \<times> string option, string) result" where
  "usage_args dir did [] = Ok (dir, did)"
| "usage_args dir did (arg # args) =
     (if arg = ''--data-dir'' then
        (case args of v # args' \<Rightarrow> usage_args (Some v) did args' | [] \<Rightarrow> Err ''--data-dir requires a value'')
      else if arg = ''--did'' then
        (case args of v # args' \<Rightarrow> usage_args dir (Some v) args' | [] \<Rightarrow> Err ''--did requires a value'')
      else Err (''unknown argument: '' @ arg))"

definition help_line :: "string \<Rightarrow> string" where
  "help_line t = t @ NEWLINE"

definition TOP_HELP :: string where
  "TOP_HELP = concat (map help_line [
     ''ciss '' @ EM_DASH @ '' Croft Item Storage Server (metered PDS-like object store)'',
     [],
     ''USAGE:'',
     ''    ciss --data-dir <path> --listen <host:port>   run the metered-storage server'',
     ''    ciss usage --data-dir <path> [--did <did>]    print a storage-usage report'',
     ''    ciss --help                                   show this help'',
     [],
     ''SERVER FLAGS:'',
     ''    --data-dir <path>      state dir (meter.sqlite, blocks/, tmp/); default ./data'',
     ''    --listen <host:port>   loopback bind (TLS is Caddy'' @ [CHR 0x27] @ ''s); default 127.0.0.1:8080'',
     [],
     ''ENVIRONMENT:'',
     ''    CISS_PROVIDER_SEED     provider signing seed (hex). Normally a systemd'',
     ''                           credential ($CREDENTIALS_DIRECTORY/provider-seed);'',
     ''                           REQUIRED under systemd (the service fails closed).'',
     ''    CISS_MAX_STORE_BYTES   whole-store distinct-bytes ceiling (default 50 GiB)'',
     ''    CISS_MAX_DID_BYTES     optional per-DID cap; unset => opportunistic fill'',
     [],
     ''See '' @ ''`'' @ ''ciss usage --help'' @ ''`'' @ '' for the report subcommand, and ciss(1) for the man page.''])"

definition USAGE_HELP :: string where
  "USAGE_HELP = concat (map help_line [
     ''ciss usage '' @ EM_DASH @ '' storage-usage report (read-only)'',
     [],
     ''USAGE:'',
     ''    ciss usage --data-dir <path> [--did <did>]'',
     [],
     ''Prints the store ceiling (and its % of the partition the data dir is on) and each'',
     ''DID'' @ [CHR 0x27] @ ''s on-disk stored bytes alongside cumulative transferred bytes. With --did,'',
     ''reports one DID. Reads the live database read-only '' @ EM_DASH @ '' safe while the service runs.'',
     [],
     ''OPTIONS:'',
     ''    --data-dir <path>   the CISS data directory (contains meter.sqlite)'',
     ''    --did <did>         report a single DID (default: all DIDs)'',
     ''    -h, --help          show this help''])"

definition has_help :: "string list \<Rightarrow> bool" where
  "has_help args = list_ex (\<lambda>a. a = ''-h'' \<or> a = ''--help'') args"

section \<open>The usage report\<close>

text \<open>The arithmetic of \<^verbatim>\<open>f64\<close>: conversion of a \<^verbatim>\<open>u64\<close>, division, multiplication, comparison, and the text with one
  digit after the point.\<close>

record 'f floats =
  fl_of :: "nat \<Rightarrow> 'f"
  fl_div :: "'f \<Rightarrow> 'f \<Rightarrow> 'f"
  fl_mul :: "'f \<Rightarrow> 'f \<Rightarrow> 'f"
  fl_ge :: "'f \<Rightarrow> 'f \<Rightarrow> bool"
  fl_show :: "'f \<Rightarrow> string"

definition MICRO :: string where "MICRO = [CHR 0xC2, CHR 0xB5]"
definition MIDDLE_DOT :: string where "MIDDLE_DOT = [CHR 0xC2, CHR 0xB7]"

definition UNITS :: "string list" where
  "UNITS = [''B'', ''KiB'', ''MiB'', ''GiB'', ''TiB'']"

fun human_loop :: "'f floats \<Rightarrow> 'f \<Rightarrow> string \<Rightarrow> string list \<Rightarrow> 'f \<times> string" where
  "human_loop F v u (u' # us) = (if fl_ge F v (fl_of F 1024) then human_loop F (fl_div F v (fl_of F 1024)) u' us else (v, u))"
| "human_loop F v u [] = (v, u)"

definition human :: "'f floats \<Rightarrow> u64 \<Rightarrow> string" where
  "human F n =
     (case human_loop F (fl_of F n) (hd UNITS) (tl UNITS) of (v, u) \<Rightarrow>
        if u = hd UNITS then show_nat n @ '' B'' else fl_show F v @ '' '' @ u)"

definition pct :: "'f floats \<Rightarrow> u64 \<Rightarrow> u64 \<Rightarrow> 'f" where
  "pct F part whole =
     (if whole = 0 then fl_of F 0 else fl_mul F (fl_div F (fl_of F part) (fl_of F whole)) (fl_of F 100))"

definition human_micros :: "'f floats \<Rightarrow> u64 \<Rightarrow> string" where
  "human_micros F n =
     (if n \<ge> 1000000 then fl_show F (fl_div F (fl_of F n) (fl_of F 1000000)) @ ''s''
      else if n \<ge> 1000 then fl_show F (fl_div F (fl_of F n) (fl_of F 1000)) @ ''ms''
      else show_nat n @ MICRO @ ''s'')"

definition format_compute_section :: "'f floats \<Rightarrow> ComputeUsageRow list \<Rightarrow> string" where
  "format_compute_section F rows =
     (if rows = [] then []
      else ''  compute (dispatched requests since server start; derived, not billing):'' @ NEWLINE @
        concat (map (\<lambda>r. ''    '' @ pad_right 20 (cu_caller r) @ '' '' @ pad_right 16 (cu_class r) @ '' '' @ show_nat (nat (cu_requests r)) @
          '' req '' @ MIDDLE_DOT @ '' '' @ human_micros F (nat (cu_micros r)) @ NEWLINE) rows))"

text \<open>\<open>statvfs\<close> gives the block size and the numbers of blocks and of available blocks.\<close>

definition partition_bytes :: "(string \<Rightarrow> (u64 \<times> u64 \<times> u64) option) \<Rightarrow> string \<Rightarrow> ((u64 \<times> u64) option, string) result" where
  "partition_bytes statvfs path =
     (if CHR 0x00 \<in> set path then Ok None
      else case statvfs path of
        None \<Rightarrow> Ok None
      | Some (block, blocks, avail) \<Rightarrow>
          if blocks * block > u64_max \<or> avail * block > u64_max then Panic else Ok (Some (blocks * block, avail * block)))"

definition usage_line :: "'f floats \<Rightarrow> UsageRow \<Rightarrow> string" where
  "usage_line F r =
     ''  '' @ pad_right 46 (ur_did r) @ '' '' @ pad_left 14 (human F (ur_stored_bytes r)) @ '' '' @
     pad_left 18 (human F (ur_transferred_bytes r)) @ '' '' @ pad_left 9 (show_nat (ur_receipt_count r)) @ NEWLINE"

definition format_usage_report ::
  "'f floats \<Rightarrow> string \<Rightarrow> u64 option \<Rightarrow> u64 option \<Rightarrow> u64 \<Rightarrow> (u64 \<times> u64) option \<Rightarrow> UsageRow list \<Rightarrow> string option \<Rightarrow> string" where
  "format_usage_report F data_dir ceiling cap used part rows single_did =
     (let of_part = (\<lambda>l n r. case part of Some (all, _) \<Rightarrow> l @ fl_show F (pct F n all) @ r | None \<Rightarrow> []) in
      ''CISS storage '' @ EM_DASH @ '' data-dir '' @ data_dir @ NEWLINE @
      (case part of
         Some (all, free) \<Rightarrow> ''  partition:     '' @ human F all @ '' total, '' @ human F free @ '' free'' @ NEWLINE
       | None \<Rightarrow> []) @
      (case ceiling of
         Some n \<Rightarrow>
           ''  store ceiling: '' @ human F n @ of_part ''  ('' n ''% of partition)'' @ NEWLINE @
           ''  store used:    '' @ human F used @ ''  ('' @ fl_show F (pct F used n) @ ''% of ceiling'' @
             of_part ('' '' @ MIDDLE_DOT @ '' '') used ''% of partition'' @ '')'' @ NEWLINE
       | None \<Rightarrow> ''  store used:    '' @ human F used @ ''  (ceiling not initialized)'' @ NEWLINE) @
      (case cap of
         Some n \<Rightarrow> ''  per-DID cap:   '' @ human F n @ NEWLINE
       | None \<Rightarrow> ''  per-DID cap:   (none '' @ EM_DASH @ '' opportunistic)'' @ NEWLINE) @
      NEWLINE @
      ''  '' @ pad_right 46 ''DID'' @ '' '' @ pad_left 14 ''stored (disk)'' @ '' '' @ pad_left 18 ''transferred (cum)'' @ '' '' @
        pad_left 9 ''receipts'' @ NEWLINE @
      concat (map (usage_line F) rows) @
      (if rows \<noteq> [] then []
       else case single_did of
         Some d \<Rightarrow> ''  (no usage recorded for '' @ d @ '')'' @ NEWLINE
       | None \<Rightarrow> ''  (no DIDs yet)'' @ NEWLINE))"

definition meta_u64 :: "Store \<Rightarrow> string \<Rightarrow> u64 option" where
  "meta_u64 st key = Option.bind (get_meta st key) (\<lambda>v. if v = [] then None else parse_u64 v)"

definition usage_rows :: "Store \<Rightarrow> string option \<Rightarrow> UsageRow list" where
  "usage_rows st did =
     (case did of
        Some d \<Rightarrow> (case usage_for st d of Some r \<Rightarrow> [r] | None \<Rightarrow> [])
      | None \<Rightarrow> usage_all st)"

definition compute_rows :: "Store \<Rightarrow> string option \<Rightarrow> ComputeUsageRow list" where
  "compute_rows st did =
     filter (\<lambda>r. case did of None \<Rightarrow> True | Some d \<Rightarrow> cu_caller r = d) (load_compute_usage st)"

text \<open>\<open>open_readonly\<close> gives the database of a data directory; \<open>sqlite_text\<close> is the text of its error.\<close>

definition run_usage ::
  "'f floats \<Rightarrow> (string \<Rightarrow> (u64 \<times> u64 \<times> u64) option) \<Rightarrow> (PersistError \<Rightarrow> string) \<Rightarrow> (string \<Rightarrow> (Store, string) result) \<Rightarrow>
   string list \<Rightarrow> (string, string) result" where
  "run_usage F statvfs sqlite_text open_readonly args =
     result_bind (usage_args None None args) (\<lambda>(dir, did).
     result_bind (ok_or ''usage requires --data-dir'' dir) (\<lambda>data_dir.
     result_bind (if is_utf8 (path_join data_dir ''meter.sqlite'') then Ok () else Err ''non-UTF-8 data-dir'') (\<lambda>_.
     result_bind (map_err (\<lambda>e. ''open store: '' @ e) (open_readonly data_dir)) (\<lambda>st.
     result_bind (map_err sqlite_text (store_usage st)) (\<lambda>used.
     result_bind (partition_bytes statvfs data_dir) (\<lambda>part.
       Ok (format_usage_report F data_dir (meta_u64 st ''store_ceiling'') (meta_u64 st ''did_cap'') used part (usage_rows st did) did @
           format_compute_section F (compute_rows st did))))))))"

section \<open>The service\<close>

text \<open>The host: its environment, files and sockets, the threads of the pool and the limit of a body, what happens
  until the end, and how the process ends. \<open>ho_aborted\<close> is an end without a checkpoint, at the point the events
  have reached: a kill between any two sections of the dispatches on the pool. \<open>ho_after\<close> is what dispatches
  of requests that timed out still do after the checkpoint.

  An event is a request that is served with no other section in between, or an event of the pool.\<close>

datatype ServiceEvent = Requested Request Route | Pooled PoolEvent

record 'f host =
  ho_env :: "string \<Rightarrow> string option"
  ho_dbg :: "string \<Rightarrow> string"
  ho_display :: "ServerError \<Rightarrow> string"
  ho_sqlite :: "PersistError \<Rightarrow> string"
  ho_read_file :: "string \<Rightarrow> (string, string) result"
  ho_credential :: "string \<Rightarrow> (string option, unit) result"
  ho_random :: "bytes option"
  ho_mkdir :: "string \<Rightarrow> string option"
  ho_open :: "string \<Rightarrow> string option"
  ho_listen :: "string \<Rightarrow> bool \<Rightarrow> string option"
  ho_pid :: nat
  ho_statvfs :: "string \<Rightarrow> (u64 \<times> u64 \<times> u64) option"
  ho_floats :: "'f floats"
  ho_threads :: nat
  ho_limit :: nat
  ho_events :: "ServiceEvent list"
  ho_aborted :: "string option"
  ho_checkpoint :: "(bool \<times> string) option"
  ho_after :: "PoolEvent list"

type_synonym site = "Store \<times> FsBlobStore"

text \<open>The data directories, by their paths.\<close>

type_synonym sites = "string \<Rightarrow> site"

definition seed_from_credential :: "'f host \<Rightarrow> (string option, unit) result" where
  "seed_from_credential h =
     (case ho_env h ''CREDENTIALS_DIRECTORY'' of
        None \<Rightarrow> Ok None
      | Some dir \<Rightarrow> ho_credential h (path_join dir ''provider-seed''))"

definition with_did_resolver :: "string \<Rightarrow> AppState \<Rightarrow> AppState" where
  "with_did_resolver service_did s = s\<lparr>as_service_did := service_did\<rparr>"

definition with_admin_only_du :: "string list \<Rightarrow> bool \<Rightarrow> AppState \<Rightarrow> AppState" where
  "with_admin_only_du dids enabled s = s\<lparr>as_admin_dids := dids, as_admin_only_du := enabled\<rparr>"

definition flag_set :: "string option \<Rightarrow> bool" where
  "flag_set v = (case v of Some t \<Rightarrow> t = ''1'' \<or> map ascii_lower t = ''true'' | None \<Rightarrow> False)"

text \<open>The application before it listens: the provider's key, the limits, the resolver's configuration.\<close>

definition start_app :: "ext \<Rightarrow> 'f host \<Rightarrow> ResolveConfig \<Rightarrow> site \<Rightarrow> (AppState, string) result" where
  "start_app X h rc w =
     map_err (ho_display h) (result_bind
       (with_provider_from_secret X
          (resolve_provider_seed X (seed_from_credential h) (ho_env h ''CISS_PROVIDER_SEED'') (ho_env h ''INVOCATION_ID'' \<noteq> None) (ho_random h))
          (FsBlobs (snd w)) (fst w) (limits_from_env (ho_env h ''CISS_MAX_STORE_BYTES'') (ho_env h ''CISS_MAX_DID_BYTES''))
          (env_or (ho_env h) ''CISS_SERVICE_DID'' DEFAULT_SERVICE_DID))
       (\<lambda>s. Ok (with_admin_only_du (map fst (rc_admin_pins rc)) (flag_set (ho_env h ''CISS_ADMIN_ONLY_DU'')) (with_did_resolver (rc_service_did rc) s))))"

fun service_event :: "ext \<Rightarrow> net \<Rightarrow> 'f host \<Rightarrow> Pool \<Rightarrow> ServiceEvent \<Rightarrow> Pool" where
  "service_event X N h c (Requested q rt) =
     (if length (po_tasks c) < ho_threads h \<and> lock_free_for (length (po_tasks c)) (po_tasks c)
      then c\<lparr>po_app := fst (serve X N (ho_display h) (po_app c) q rt)\<rparr> else c)"
| "service_event X N h c (Pooled e) = pool_event X N (ho_threads h) (ho_limit h) c e"

text \<open>The checkpoint waits for the store's lock: a dispatch that holds it runs its section first.\<close>

definition release :: "ext \<Rightarrow> net \<Rightarrow> 'f host \<Rightarrow> Pool \<Rightarrow> Pool" where
  "release X N h c =
     pool_run X N (ho_threads h) (ho_limit h) c (map Advanced (filter (\<lambda>i. holds_lock (po_tasks c ! i)) [0..<length (po_tasks c)]))"

text \<open>The checkpoint flushes the compute ledger and truncates the write-ahead log; either may fail.\<close>

definition checkpoint :: "'f host \<Rightarrow> AppState \<Rightarrow> AppState \<times> (unit, string) result" where
  "checkpoint h s = (case ho_checkpoint h of Some (flushed, e) \<Rightarrow> (if flushed then flush_compute s else s, Err e) | None \<Rightarrow> (flush_compute s, Ok ()))"

text \<open>What a process leaves in its data directory.\<close>

definition leave :: "site \<Rightarrow> AppState \<Rightarrow> site" where
  "leave w s = (as_store s, case as_blobs s of FsBlobs f \<Rightarrow> f | MemoryBlobs _ \<Rightarrow> snd w)"

definition run_service :: "ext \<Rightarrow> net \<Rightarrow> 'f host \<Rightarrow> ServiceConfig \<Rightarrow> site \<Rightarrow> site \<times> (string, string) result" where
  "run_service X N h cfg w =
     (case ho_mkdir h (path_join (sv_data_dir cfg) ''blocks'') of
        Some e \<Rightarrow> (w, Err e)
      | None \<Rightarrow>
          sbind (w, resolve_config_from_env (ho_dbg h) (ho_env h) (ho_read_file h)) (\<lambda>w rc.
          case ho_open h (path_join (sv_data_dir cfg) ''meter.sqlite'') of
            Some e \<Rightarrow> (w, Err e)
          | None \<Rightarrow>
              sbind (w, start_app X h rc w) (\<lambda>w s0.
              case ho_listen h (sv_listen cfg) (inherit_fd_requested (ho_env h ''LISTEN_FDS'') (ho_env h ''LISTEN_PID'') (ho_pid h)) of
                Some e \<Rightarrow> (leave w s0, Err e)
              | None \<Rightarrow>
                  let c = foldl (service_event X N h) (pool_of s0) (ho_events h) in
                  (case ho_aborted h of
                     Some e \<Rightarrow> (leave w (po_app c), Err e)
                   | None \<Rightarrow>
                       let c = release X N h c in
                       (case checkpoint h (po_app c) of (s, r) \<Rightarrow>
                          (leave w (po_app (pool_run X N (ho_threads h) (ho_limit h) (c\<lparr>po_app := s\<rparr>) (ho_after h))), map_ok (\<lambda>_. []) r))))))"

datatype Mode = ShowTopHelp | ShowUsageHelp | UsageReport "string list" | Service "string list"

definition main_mode :: "string list \<Rightarrow> Mode" where
  "main_mode argv =
     (if argv \<noteq> [] \<and> hd argv = ''usage'' then
        (if has_help (tl argv) then ShowUsageHelp else UsageReport (tl argv))
      else if has_help argv then ShowTopHelp else Service argv)"

definition ciss_main ::
  "ext \<Rightarrow> net \<Rightarrow> 'f host \<Rightarrow> string list \<Rightarrow> sites \<Rightarrow> sites \<times> (string, string) result" where
  "ciss_main X N h argv d =
     (case main_mode argv of
        ShowTopHelp \<Rightarrow> (d, Ok TOP_HELP)
      | ShowUsageHelp \<Rightarrow> (d, Ok USAGE_HELP)
      | UsageReport args \<Rightarrow>
          (d, run_usage (ho_floats h) (ho_statvfs h) (ho_sqlite h)
            (\<lambda>dir. case ho_open h (path_join dir ''meter.sqlite'') of None \<Rightarrow> Ok (fst (d dir)) | Some e \<Rightarrow> Err e) args)
      | Service args \<Rightarrow>
          (case parse_args args of
             Ok cfg \<Rightarrow> (case run_service X N h cfg (d (sv_data_dir cfg)) of (w, r) \<Rightarrow> (d(sv_data_dir cfg := w), r))
           | Err e \<Rightarrow> (d, Err e)
           | Panic \<Rightarrow> (d, Panic)))"

text \<open>One process after another on the same directories.\<close>

fun processes :: "ext \<Rightarrow> net \<Rightarrow> ('f host \<times> string list) list \<Rightarrow> sites \<Rightarrow> sites" where
  "processes X N [] d = d"
| "processes X N ((h, argv) # ps) d = processes X N ps (fst (ciss_main X N h argv d))"

section \<open>What restarts keep\<close>

lemma start_app_Ok:
  assumes "start_app X h rc w = Ok s0"
  obtains k v limits where "as_store s0 = persist_limits (put_meta (fst w) k v) limits" "as_blobs s0 = FsBlobs (snd w)"
    "as_compute s0 = compute_new"
  using assms
  by (auto simp: start_app_def with_provider_from_secret_def result_bind_Ok with_admin_only_du_def with_did_resolver_def assemble_def Let_def)

text \<open>What a service leaves: the directory as it was, or a state with every property that the start of the
  application has, and that the events of the service and the flush keep.\<close>

lemma run_service_leaves:
  assumes start: "\<And>rc s. start_app X h rc w = Ok s \<Longrightarrow> P s"
    and pool: "\<And>c e. P (po_app c) \<Longrightarrow> P (po_app (pool_event X N (ho_threads h) (ho_limit h) c e))"
    and req: "\<And>s s'. step X N s s' \<Longrightarrow> P s \<Longrightarrow> P s'"
  obtains "fst (run_service X N h cfg w) = w" | s where "P s" "fst (run_service X N h cfg w) = leave w s"
proof (cases "ho_mkdir h (path_join (sv_data_dir cfg) ''blocks'') = None \<and> ho_open h (path_join (sv_data_dir cfg) ''meter.sqlite'') = None")
  case True
  have evs: "P (po_app (foldl (service_event X N h) c es))" if "P (po_app c)" for c es
  proof -
    have "P (po_app (service_event X N h c e))" if "P (po_app c)" for c e
      using that pool req [OF step.served [OF prod.collapse [symmetric]]] by (cases e) simp_all
    with that show ?thesis by (induction es arbitrary: c) simp_all
  qed
  have run: "P (po_app (pool_run X N (ho_threads h) (ho_limit h) c es))" if "P (po_app c)" for c es
    using that pool unfolding pool_run_def by (induction es arbitrary: c) simp_all
  show ?thesis
  proof (cases "resolve_config_from_env (ho_dbg h) (ho_env h) (ho_read_file h)")
    case rc: (Ok rc)
    show ?thesis
    proof (cases "start_app X h rc w")
      case (Ok s0)
      let ?c = "foldl (service_event X N h) (pool_of s0) (ho_events h)"
      have c: "P (po_app ?c)" using evs start [OF Ok] by (simp add: pool_of_def)
      have ck: "P (fst (checkpoint h s))" if "P s" for s
        using that req [OF step.flushed] by (simp add: checkpoint_def split: option.splits)
      let ?r = "release X N h ?c"
      let ?e = "pool_run X N (ho_threads h) (ho_limit h) (?r\<lparr>po_app := fst (checkpoint h (po_app ?r))\<rparr>) (ho_after h)"
      have r: "P (po_app ?r)" using run [OF c] by (simp add: release_def)
      have "P (po_app ?e)" by (rule run) (simp add: ck [OF r])
      moreover have "fst (run_service X N h cfg w) \<in> {leave w s0, leave w (po_app ?c), leave w (po_app ?e)}"
        using True rc Ok by (simp add: run_service_def Let_def split_beta split: option.splits)
      ultimately show thesis using that(2) start [OF Ok] c by blast
    qed (use that(1) True rc in \<open>simp_all add: run_service_def\<close>)
  qed (use that(1) True in \<open>simp_all add: run_service_def\<close>)
next
  case False
  then show ?thesis
    using that(1) by (cases "resolve_config_from_env (ho_dbg h) (ho_env h) (ho_read_file h)") (auto simp: run_service_def split: option.splits)
qed

text \<open>An invariant of every run that the start-up's rows of \<^verbatim>\<open>meta\<close> do not touch is an invariant of any sequence of
  processes, however each of them ends.\<close>

locale restart_invariant = run_invariant I for I +
  assumes on_meta: "I st \<Longrightarrow> I (put_meta st k v)"
begin

lemma service_keeps:
  assumes "I (fst w)"
  shows "I (fst (fst (run_service X N h cfg w)))"
proof (rule run_service_leaves [where P = "\<lambda>s. I (as_store s)" and w = w and X = X and N = N and h = h and cfg = cfg])
  show "I (as_store s)" if "start_app X h rc w = Ok s" for rc s
    by (rule start_app_Ok [OF that]) (use assms on_meta in \<open>simp add: persist_limits_def\<close>)
  show "I (as_store s')" if "step X N s s'" "I (as_store s)" for s s'
    using store_always [OF reachable.next_step [OF reachable.start that(1)]] that(2) .
qed (use assms event_keeps in \<open>auto simp: leave_def\<close>)

lemma main_keeps: "I (fst (d dir)) \<Longrightarrow> I (fst (fst (ciss_main X N h argv d) dir))"
  using service_keeps [of "d dir" X N h]
  by (auto simp: ciss_main_def split: Mode.splits result.splits prod.splits) (metis fst_conv)

lemma processes_keep: "I (fst (d dir)) \<Longrightarrow> I (fst (processes X N ps d dir))"
proof (induction ps arbitrary: d)
  case (Cons p ps)
  then show ?case using main_keeps [where d = d and dir = dir and X = X and N = N and h = "fst p" and argv = "snd p"] by (cases p) simp
qed simp

end

interpretation restart_totals: restart_invariant totals_inv
  by unfold_locales (auto elim!: totals_inv_cong [THEN iffD1, rotated 2])

interpretation restart_ledger: restart_invariant "\<lambda>st. prefix cs (ledger_cores st d)" for cs d
  by unfold_locales (simp add: ledger_cores_def load_receipts_def)

interpretation restart_manifests: restart_invariant "manifest_at_least n d" for n d
  by unfold_locales (auto elim!: manifest_at_least_cong [THEN iffD1, rotated])

text \<open>The figures of the report for one tenant are its ledger's.\<close>

lemma usage_row_is_the_ledger:
  assumes "totals_inv st" "r \<in> set (usage_rows st (Some did))"
  shows "ur_did r = did \<and> ur_receipt_count r = length (load_receipts st did) \<and> ur_transferred_bytes r = ledger_bytes st did"
proof -
  obtain row where row: "map_of (s_did_total st) did = Some row" "r = usage_row (did, row)"
    using assms(2) by (cases "map_of (s_did_total st) did") (simp_all add: usage_rows_def usage_for_def)
  then have "tr_totals row = ledger_totals (load_receipts st did)"
    using assms(1) by (auto simp: totals_inv_def dest!: map_of_SomeD)
  then show ?thesis using row(2) by (simp add: usage_row_def ledger_bytes_totals ledger_totals_sums)
qed

end
