(* ===== verification/Pool_Demo.thy ===== *)
theory Pool_Demo
  imports Concurrent Demo_State
begin

text \<open>
  Two uploads on two threads: both read the usage before either counts its bytes, so both pass the
  ceiling and the store ends above it. The bound of \<open>pool_run_within\<close> is reached.
\<close>

section \<open>An upload up to its write, and to its first commit\<close>

lemma upload_admitted:
  assumes "tk_op t = PutObject did key bs" "tk_who t = Authenticated did" "tk_phase t = Entered"
    and "write_gates (as_store s) did (length bs) = Ok ()" "\<not> blobs_has (as_blobs s) did (sha256_hex X bs)"
    and "quota_gate (as_limits s) (as_store s) did (length bs) = Ok ()"
  shows "(run_section X N ^^ 5) (s, t) = (s, t\<lparr>tk_phase := Storing True\<rparr>)"
proof -
  obtain d where g: "ceiling_gate (as_limits s) (as_store s) did (length bs) = Ok d"
    "cap_gate (as_limits s) (as_store s) did d (length bs) = Ok ()"
    using assms(6) by (auto simp: quota_gate_def result_bind_Ok)
  show ?thesis
    using assms g by (simp add: numeral_eq_Suc run_section_def run_next_def require_owner_def then_phase_def)
qed

lemma upload_counted:
  assumes "tk_op t = PutObject did key bs" "tk_phase t = Storing True" "totals_inv (as_store s)" "can_meter (as_store s) did (length bs)"
    and "blobs_put (as_blobs s) did (sha256_hex X bs) bs = (b, Ok (length bs))"
  obtains st r where "(run_section X N ^^ 2) (s, t) = (s\<lparr>as_blobs := b, as_store := st\<rparr>, t\<lparr>tk_phase := Counted r\<rparr>)"
    "add_stored_bytes (as_store s) did (length bs) = (st, Ok ())" "rc_bytes (r_core r) = length bs"
proof -
  let ?s = "s\<lparr>as_blobs := b\<rparr>" and ?c = "sha256_hex X bs"
  obtain r where r: "transfer_receipt X ?s Upload did ?c (length bs) = Ok r"
    using transfer_receipt_total [of ?s did "length bs" X Upload ?c] assms(3,4) by auto
  obtain st where st: "add_stored_bytes (as_store s) did (length bs) = (st, Ok ())"
    using add_stored_bytes_total [OF assms(4)] by blast
  have "(run_section X N ^^ 2) (s, t) = (s\<lparr>as_blobs := b, as_store := st\<rparr>, t\<lparr>tk_phase := Counted r\<rparr>)"
    using assms(1,2,5) r st by (simp add: numeral_eq_Suc run_section_def run_next_def then_phase_def on_store_def)
  then show thesis using st transfer_receipt_Ok(3) [OF r] assms(3) by (intro that) simp_all
qed

lemma upload_receipted:
  assumes "tk_op t = PutObject did key bs" "tk_phase t = Counted r" "can_meter (as_store s) did (length bs)" "rc_bytes (r_core r) = length bs"
  obtains st t' where "(run_section X N ^^ 1) (s, t) = (s\<lparr>as_store := st\<rparr>, t')" "append_receipt (as_store s) did r = (st, Ok ())"
    "\<not> holds_lock t'"
proof -
  obtain st where "append_receipt (as_store s) did r = (st, Ok ())" using append_receipt_total [OF assms(3,4)] by blast
  then show thesis
    using assms(1,2)
    by (intro that [where t' = "t\<lparr>tk_phase := Recording (Ok (Stored (sha256_hex X bs) (length bs) (r_mode r) (r_content_hash r)))\<rparr>"])
      (simp_all add: run_section_def run_next_def then_phase_def on_store_def holds_lock_def)
qed


section \<open>Two of them\<close>

definition tight_state :: AppState where
  "tight_state = demo_state\<lparr>as_limits := \<lparr>store_ceiling = 5, did_cap = None\<rparr>\<rparr>"

definition two_uploads :: "PoolEvent list" where
  "two_uploads =
     [Dispatched (Authenticated alice_did) (PutObject alice_did ''k'' ''hello'') 7,
      Dispatched (Authenticated bob_did) (PutObject bob_did ''k'' ''hello'') 7] @
     replicate 5 (Advanced 0) @ replicate 5 (Advanced 1) @ replicate 2 (Advanced 0) @ replicate 1 (Advanced 0) @ replicate 2 (Advanced 1)"

lemma tight_facts [simp]:
  "as_store tight_state = as_store demo_state" "as_blobs tight_state = MemoryBlobs (\<lambda>_. None)"
  "as_limits tight_state = \<lparr>store_ceiling = 5, did_cap = None\<rparr>"
  by (simp_all add: tight_state_def)

lemma tight_gates:
  "write_gates (as_store tight_state) d 5 = Ok ()" "quota_gate (as_limits tight_state) (as_store tight_state) d 5 = Ok ()"
  by (simp_all add: demo_gates quota_gate_def ceiling_gate_def cap_gate_def effective_cap_def store_usage_def did_stored_bytes_def
      sql_int_def saturating_add_def u64_max_def)

lemma no_receipts_meter: "load_receipts st d = [] \<Longrightarrow> n \<le> i64_max \<Longrightarrow> can_meter st d n"
  by (simp add: can_meter_def ledger_totals_def zero_totals_def totals_le_def ledger_bytes_def i64_max_def u64_max_def)

lemma pool_run_append: "pool_run X N threads limit c (as @ bs) = pool_run X N threads limit (pool_run X N threads limit c as) bs"
  by (simp add: pool_run_def)

abbreviation pair :: "AppState \<Rightarrow> Task \<Rightarrow> Task \<Rightarrow> Pool" where
  "pair s a b \<equiv> \<lparr>po_app = s, po_tasks = [a, b], po_snapshot = None\<rparr>"

lemma pair_advances:
  "(run_section X N ^^ k) (s, a) = (s', a') \<Longrightarrow> \<not> holds_lock b \<Longrightarrow>
     pool_run X N threads limit (pair s a b) (replicate k (Advanced 0)) = pair s' a' b"
  "(run_section X N ^^ k) (s, b) = (s', b') \<Longrightarrow> \<not> holds_lock a \<Longrightarrow>
     pool_run X N threads limit (pair s a b) (replicate k (Advanced 1)) = pair s' a b'"
  by (subst pool_advances; simp add: lock_free_for_def)+

definition upload_of :: "string \<Rightarrow> Phase \<Rightarrow> Task" where
  "upload_of d ph = \<lparr>tk_who = Authenticated d, tk_op = PutObject d ''k'' ''hello'', tk_micros = 7, tk_phase = ph\<rparr>"

lemma upload_of_simps [simp]:
  "tk_who (upload_of d ph) = Authenticated d" "tk_op (upload_of d ph) = PutObject d ''k'' ''hello''" "tk_phase (upload_of d ph) = ph"
  "upload_of d ph\<lparr>tk_phase := ph'\<rparr> = upload_of d ph'" "\<not> holds_lock (upload_of d Entered)" "\<not> holds_lock (upload_of d (Storing b))"
  by (simp_all add: upload_of_def holds_lock_def)

lemma tight_admitted: "(run_section demo N ^^ 5) (tight_state, upload_of d Entered) = (tight_state, upload_of d (Storing True))"
proof -
  have len: "length ''hello'' = 5" by simp
  show ?thesis
    using upload_admitted [of "upload_of d Entered" d "''k''" "''hello''" tight_state demo N, unfolded len] tight_gates [of d]
    by (simp add: mem_has_def)
qed

text \<open>Both pass the gates on the empty store.\<close>

lemma both_admitted:
  "pool_run demo N 2 5 (pool_of tight_state)
     ([Dispatched (Authenticated alice_did) (PutObject alice_did ''k'' ''hello'') 7,
       Dispatched (Authenticated bob_did) (PutObject bob_did ''k'' ''hello'') 7] @ replicate 5 (Advanced 0) @ replicate 5 (Advanced 1)) =
   pair tight_state (upload_of alice_did (Storing True)) (upload_of bob_did (Storing True))"
proof -
  have "pool_run demo N 2 5 (pool_of tight_state)
     [Dispatched (Authenticated alice_did) (PutObject alice_did ''k'' ''hello'') 7,
      Dispatched (Authenticated bob_did) (PutObject bob_did ''k'' ''hello'') 7] = pair tight_state (upload_of alice_did Entered) (upload_of bob_did Entered)"
    by (simp add: pool_run_def pool_of_def upload_of_def)
  then show ?thesis
    using pair_advances(1) [OF tight_admitted [of N alice_did], of "upload_of bob_did Entered" 2 5]
      pair_advances(2) [OF tight_admitted [of N bob_did], of "upload_of alice_did (Storing True)" 2 5]
    by (simp only: pool_run_append) simp
qed

text \<open>An admitted upload of a tenant without receipts counts its bytes, whatever is stored by then.\<close>

lemma hello_counted:
  assumes "totals_inv (as_store s)" "load_receipts (as_store s) d = []" "as_blobs s = MemoryBlobs m"
  obtains s' r where "(run_section demo N ^^ 2) (s, upload_of d (Storing True)) = (s', upload_of d (Counted r))"
    "totals_inv (as_store s')" "\<And>e. load_receipts (as_store s') e = load_receipts (as_store s) e" "\<exists>m. as_blobs s' = MemoryBlobs m"
    "stored_total (as_store s') = stored_total (as_store s) + 5" "rc_bytes (r_core r) = length ''hello''"
proof -
  have room: "can_meter (as_store s) d (length ''hello'')" using assms(2) by (rule no_receipts_meter) (simp add: i64_max_def)
  let ?b = "MemoryBlobs (m((d, sha256_hex demo ''hello'') \<mapsto> ''hello''))"
  have put: "blobs_put (as_blobs s) d (sha256_hex demo ''hello'') ''hello'' = (?b, Ok (length ''hello''))"
    by (simp add: assms(3) mem_put_def)
  obtain st r where c: "(run_section demo N ^^ 2) (s, upload_of d (Storing True)) = (s\<lparr>as_blobs := ?b, as_store := st\<rparr>, upload_of d (Counted r))"
    and a: "add_stored_bytes (as_store s) d (length ''hello'') = (st, Ok ())" "rc_bytes (r_core r) = length ''hello''"
    by (rule upload_counted [OF _ _ assms(1) room put, of "upload_of d (Storing True)" "''k''" N]) simp_all
  have "s_receipt st = s_receipt (as_store s)" using arg_cong [where f = "\<lambda>p. s_receipt (fst p)", OF a(1)] by simp
  then show thesis
    using that [OF c] add_stored_bytes_inv [OF a(1) assms(1)] add_stored_bytes_stored(1) [OF a(1) assms(1)] a(2)
    by (simp add: load_receipts_def)
qed

theorem two_uploads_overshoot:
  "stored_total (as_store (po_app (pool_run demo N 2 5 (pool_of tight_state) two_uploads))) = 10 \<and>
   store_ceiling (as_limits tight_state) = 5"
proof -
  obtain s1 ra where c1: "(run_section demo N ^^ 2) (tight_state, upload_of alice_did (Storing True)) = (s1, upload_of alice_did (Counted ra))"
    and s1: "totals_inv (as_store s1)" "\<And>e. load_receipts (as_store s1) e = []" "\<exists>m. as_blobs s1 = MemoryBlobs m"
      "stored_total (as_store s1) = 5" "rc_bytes (r_core ra) = length ''hello''"
    by (rule hello_counted [of tight_state alice_did "\<lambda>_. None" N]) (auto simp: demo_totals_inv stored_total_def)
  obtain st2 t2 where c2: "(run_section demo N ^^ 1) (s1, upload_of alice_did (Counted ra)) = (s1\<lparr>as_store := st2\<rparr>, t2)"
    and s2: "append_receipt (as_store s1) alice_did ra = (st2, Ok ())" "\<not> holds_lock t2"
    by (rule upload_receipted [of "upload_of alice_did (Counted ra)" alice_did "''k''" "''hello''" ra s1 demo N])
      (use no_receipts_meter [OF s1(2), of "length ''hello''"] s1(5) in \<open>auto simp: i64_max_def\<close>)
  note i2 = append_receipt_inv [OF s2(1) s1(1)]
  have r2: "load_receipts st2 bob_did = []" using i2(3) [of bob_did] s1(2) alice_not_bob by auto
  have t2: "stored_total st2 = 5" using append_receipt_stored(1) [of "as_store s1" alice_did ra] s2(1) s1(4) by simp
  obtain m where m: "as_blobs s1 = MemoryBlobs m" using s1(3) by blast
  obtain s3 rb where c3: "(run_section demo N ^^ 2) (s1\<lparr>as_store := st2\<rparr>, upload_of bob_did (Storing True)) = (s3, upload_of bob_did (Counted rb))"
    and s3: "stored_total (as_store s3) = 10"
    by (rule hello_counted [of "s1\<lparr>as_store := st2\<rparr>" bob_did m N]) (use i2(1) r2 m t2 in auto)
  have "pool_run demo N 2 5 (pool_of tight_state) two_uploads = pair s3 t2 (upload_of bob_did (Counted rb))"
    using both_admitted [of N] pair_advances(1) [OF c1, of "upload_of bob_did (Storing True)" 2 5]
      pair_advances(1) [OF c2, of "upload_of bob_did (Storing True)" 2 5] pair_advances(2) [OF c3 s2(2), of 2 5]
    unfolding two_uploads_def by (simp only: pool_run_append append_assoc [symmetric]) simp
  then show ?thesis using s3 by simp
qed

end
