(* ===== verification/Main_Demo.thy ===== *)
theory Main_Demo
  imports Ciss_Main Pool_Demo
begin

text \<open>
  A host on which the binary runs: a seed in the environment, a request and a flush, and a clean shutdown; and
  one that kills it in the middle of an upload, between the commit of the stored bytes and that of the receipt.
\<close>

definition demo_floats :: "nat floats" where
  "demo_floats = \<lparr>fl_of = (\<lambda>n. n), fl_div = (div), fl_mul = (*), fl_ge = (\<ge>), fl_show = show_nat\<rparr>"

definition demo_host :: "nat host" where
  "demo_host = \<lparr>ho_env = (\<lambda>v. if v = ''CISS_PROVIDER_SEED'' then Some ''seed'' else None), ho_dbg = (\<lambda>t. t), ho_display = (\<lambda>_. []), ho_sqlite = (\<lambda>_. []),
     ho_read_file = (\<lambda>_. Err []), ho_credential = (\<lambda>_. Ok None), ho_random = None, ho_mkdir = (\<lambda>_. None), ho_open = (\<lambda>_. None),
     ho_listen = (\<lambda>_ _. None), ho_pid = 1, ho_statvfs = (\<lambda>_. None), ho_floats = demo_floats,
     ho_threads = 2, ho_limit = 1000, ho_events = [Requested demo_request RtFallback, Pooled Snapshotted, Pooled Flushed],
     ho_aborted = None, ho_checkpoint = None, ho_after = []\<rparr>"

definition demo_fs :: FsBlobStore where
  "demo_fs = \<lparr>fs_root = ''./data'', fs_files = (\<lambda>_. None), fs_fault = (\<lambda>_ _. False)\<rparr>"

text \<open>A data directory with one receipt.\<close>

lemma demo_site:
  obtains d :: sites where "totals_inv (fst (d ''./data''))" "length (load_receipts (fst (d ''./data'')) alice_did) = 1"
proof -
  obtain s where s: "reachable demo (demo_net (\<lambda>_. None)) demo_state s" "length (load_receipts (as_store s) alice_did) = 1"
    by (rule demo_reachable)
  have "totals_inv (as_store s)" by (rule run_totals.store_always [OF s(1) demo_totals_inv])
  then show thesis using that [of "\<lambda>_. (as_store s, demo_fs)"] s(2) by simp
qed

lemma demo_main_runs: "snd (ciss_main demo N demo_host [] d) = Ok []"
proof -
  let ?w = "d ''./data''"
  have a: "parse_args [] = Ok \<lparr>sv_data_dir = ''./data'', sv_listen = ''127.0.0.1:8080''\<rparr>" by (simp add: parse_args_def)
  have rc: "\<exists>rc. resolve_config_from_env (ho_dbg demo_host) (ho_env demo_host) (ho_read_file demo_host) = Ok rc"
    by (simp add: resolve_config_from_env_def demo_host_def env_u64_def DEFAULT_TIMEOUT_MS_def DEFAULT_CACHE_TTL_S_def u64_max_def Let_def)
  have st: "\<exists>s0. start_app demo demo_host rc ?w = Ok s0" for rc
    by (simp add: start_app_def demo_host_def seed_from_credential_def resolve_provider_seed_def decide_seed_def with_provider_from_secret_def Let_def)
  have "snd (run_service demo N demo_host \<lparr>sv_data_dir = ''./data'', sv_listen = ''127.0.0.1:8080''\<rparr> ?w) = Ok []"
  proof -
    obtain rc where rc: "resolve_config_from_env (ho_dbg demo_host) (ho_env demo_host) (ho_read_file demo_host) = Ok rc" using rc by blast
    obtain s0 where "start_app demo demo_host rc ?w = Ok s0" using st by blast
    then show ?thesis
      using rc by (simp add: run_service_def) (simp add: demo_host_def checkpoint_def map_ok_def Let_def)
  qed
  then show ?thesis
    using a by (auto simp: ciss_main_def main_mode_def has_help_def split: prod.splits)
qed


section \<open>Killed in the middle of an upload\<close>

definition killed_host :: "nat host" where
  "killed_host = demo_host\<lparr>ho_events :=
     map Pooled (Dispatched (Authenticated alice_did) (PutObject alice_did ''k'' ''hello'') 7 # replicate 7 (Advanced 0)),
     ho_aborted := Some ''killed''\<rparr>"

lemma fresh_store:
  assumes "s_assertion st = []" "s_did_total st = []" "s_receipt st = []" "n \<le> 100"
  shows "write_gates st d n = Ok ()" "quota_gate \<lparr>store_ceiling = DEFAULT_STORE_CEILING_BYTES, did_cap = None\<rparr> st d n = Ok ()"
    "totals_inv st" "load_receipts st d = []"
  using assms
  by (simp_all add: write_gates_def account_mode_def spend_dial_def at_rest_dial_def ceiling_dial_def assertion_json_row_def
      quota_gate_def ceiling_gate_def cap_gate_def effective_cap_def store_usage_def did_stored_bytes_def sql_int_def saturating_add_def
      u64_max_def DEFAULT_STORE_CEILING_BYTES_def totals_inv_iff load_receipts_def)

lemma killed_starts:
  obtains rc s0 where "resolve_config_from_env (ho_dbg killed_host) (ho_env killed_host) (ho_read_file killed_host) = Ok rc"
    "start_app demo killed_host rc (open_in_memory, demo_fs) = Ok s0" "as_blobs s0 = FsBlobs demo_fs"
    "as_limits s0 = \<lparr>store_ceiling = DEFAULT_STORE_CEILING_BYTES, did_cap = None\<rparr>"
    "s_assertion (as_store s0) = []" "s_did_total (as_store s0) = []" "s_receipt (as_store s0) = []"
proof -
  obtain rc where rc: "resolve_config_from_env (ho_dbg killed_host) (ho_env killed_host) (ho_read_file killed_host) = Ok rc"
    by (simp add: resolve_config_from_env_def killed_host_def demo_host_def env_u64_def DEFAULT_TIMEOUT_MS_def DEFAULT_CACHE_TTL_S_def u64_max_def Let_def)
  obtain s0 where "start_app demo killed_host rc (open_in_memory, demo_fs) = Ok s0" "as_blobs s0 = FsBlobs demo_fs"
    "as_limits s0 = \<lparr>store_ceiling = DEFAULT_STORE_CEILING_BYTES, did_cap = None\<rparr>"
    "as_store s0 = persist_limits (put_meta open_in_memory ''provider_pubkey'' (public_key_hex demo (pv_keypair (as_provider s0)))) (as_limits s0)"
    by (simp add: start_app_def killed_host_def demo_host_def seed_from_credential_def resolve_provider_seed_def decide_seed_def with_provider_from_secret_def
        with_admin_only_du_def with_did_resolver_def assemble_def limits_from_env_def env_limit_def Let_def)
  then show thesis using that [OF rc] by (simp add: persist_limits_def put_meta_def open_in_memory_def)
qed

text \<open>Seven sections of the upload on a fresh application: the bytes are counted, the receipt is not there yet.\<close>

lemma fresh_counted:
  assumes b: "as_blobs s0 = FsBlobs demo_fs" and l: "as_limits s0 = \<lparr>store_ceiling = DEFAULT_STORE_CEILING_BYTES, did_cap = None\<rparr>"
    and e: "s_assertion (as_store s0) = []" "s_did_total (as_store s0) = []" "s_receipt (as_store s0) = []"
  obtains f st rr where "(run_section demo N ^^ 7) (s0, upload_of alice_did Entered) =
      (s0\<lparr>as_blobs := FsBlobs f, as_store := st\<rparr>, upload_of alice_did (Counted rr))"
    "stored_of st alice_did = 5" "load_receipts st alice_did = []"
proof -
  let ?t = "upload_of alice_did"
  have five: "length ''hello'' = 5" by simp
  have F: "write_gates (as_store s0) alice_did 5 = Ok ()" "quota_gate (as_limits s0) (as_store s0) alice_did 5 = Ok ()"
    "totals_inv (as_store s0)" "load_receipts (as_store s0) alice_did = []"
    using fresh_store [OF e, of 5] l by simp_all
  have adm: "(run_section demo N ^^ 5) (s0, ?t Entered) = (s0, ?t (Storing True))"
    using upload_admitted [of "?t Entered" alice_did "''k''" "''hello''" s0 demo N, unfolded five] F b
    by (simp add: fs_has_def path_exists_def demo_fs_def)
  obtain f where put: "blobs_put (as_blobs s0) alice_did (sha256_hex demo ''hello'') ''hello'' = (FsBlobs f, Ok (length ''hello''))"
    by (simp add: b fs_put_def demo_fs_def path_exists_def ensure_parent_def Let_def)
  have room: "can_meter (as_store s0) alice_did (length ''hello'')" by (rule no_receipts_meter) (use F(4) in \<open>simp_all add: i64_max_def\<close>)
  obtain st rr where cnt: "(run_section demo N ^^ 2) (s0, ?t (Storing True)) = (s0\<lparr>as_blobs := FsBlobs f, as_store := st\<rparr>, ?t (Counted rr))"
    and a: "add_stored_bytes (as_store s0) alice_did (length ''hello'') = (st, Ok ())"
    by (rule upload_counted [OF _ _ _ room put, of "?t (Storing True)" "''k''" N]) (use F(3) in simp_all)
  have "(run_section demo N ^^ (2 + 5)) (s0, ?t Entered) = (s0\<lparr>as_blobs := FsBlobs f, as_store := st\<rparr>, ?t (Counted rr))"
    unfolding funpow_add comp_def adm cnt ..
  then show thesis
    using that [of st f rr] add_stored_bytes_stored(2) [OF a F(3)] e(2,3) arg_cong [where f = "\<lambda>p. s_receipt (fst p)", OF a]
    by (simp add: stored_of_def load_receipts_def)
qed

lemma killed_in_upload:
  assumes "d ''./data'' = (open_in_memory, demo_fs)" "ciss_main demo N killed_host [] d = (d', r)"
  shows "r = Err ''killed''" "stored_of (fst (d' ''./data'')) alice_did = 5" "load_receipts (fst (d' ''./data'')) alice_did = []"
proof -
  obtain rc s0 where st0: "resolve_config_from_env (ho_dbg killed_host) (ho_env killed_host) (ho_read_file killed_host) = Ok rc"
    "start_app demo killed_host rc (open_in_memory, demo_fs) = Ok s0" "as_blobs s0 = FsBlobs demo_fs"
    "as_limits s0 = \<lparr>store_ceiling = DEFAULT_STORE_CEILING_BYTES, did_cap = None\<rparr>"
    "s_assertion (as_store s0) = []" "s_did_total (as_store s0) = []" "s_receipt (as_store s0) = []"
    by (rule killed_starts)
  obtain f st rr where c: "(run_section demo N ^^ 7) (s0, upload_of alice_did Entered) =
      (s0\<lparr>as_blobs := FsBlobs f, as_store := st\<rparr>, upload_of alice_did (Counted rr))"
    and left: "stored_of st alice_did = 5" "load_receipts st alice_did = []"
    by (rule fresh_counted [OF st0(3-7)])
  let ?s = "s0\<lparr>as_blobs := FsBlobs f, as_store := st\<rparr>" and ?c = "\<lparr>po_app = s0, po_tasks = [upload_of alice_did Entered], po_snapshot = None\<rparr>"
  let ?e = "Dispatched (Authenticated alice_did) (PutObject alice_did ''k'' ''hello'') 7"
  have "pool_run demo N 2 1000 ?c (replicate 7 (Advanced 0)) =
      \<lparr>po_app = ?s, po_tasks = [upload_of alice_did (Counted rr)], po_snapshot = None\<rparr>"
    by (subst pool_advances) (simp_all add: c lock_free_for_def)
  moreover have "foldl (service_event demo N killed_host) p (map Pooled es) = pool_run demo N 2 1000 p es" for p es
    by (induction es arbitrary: p) (simp_all add: pool_run_def killed_host_def demo_host_def)
  moreover have "pool_run demo N 2 1000 (pool_of s0) (?e # es) = pool_run demo N 2 1000 ?c es" for es
    by (simp add: pool_run_def pool_of_def upload_of_def)
  moreover have "ho_events killed_host = map Pooled (?e # replicate 7 (Advanced 0))"
    by (simp add: killed_host_def)
  ultimately have run: "po_app (foldl (service_event demo N killed_host) (pool_of s0) (ho_events killed_host)) = ?s" by (simp only:) simp
  have "run_service demo N killed_host \<lparr>sv_data_dir = ''./data'', sv_listen = ''127.0.0.1:8080''\<rparr> (open_in_memory, demo_fs) =
      (leave (open_in_memory, demo_fs) ?s, Err ''killed'')"
    using st0(1,2) run by (simp add: run_service_def Let_def) (simp add: killed_host_def demo_host_def)
  then have m: "d' = d(''./data'' := (st, f))" "r = Err ''killed''"
    using assms by (auto simp: ciss_main_def main_mode_def has_help_def parse_args_def leave_def)
  show "r = Err ''killed''" by (rule m)
  show "stored_of (fst (d' ''./data'')) alice_did = 5" "load_receipts (fst (d' ''./data'')) alice_did = []"
    using left m by simp_all
qed

end
