(* ===== verification/Records_Demo.thy ===== *)
theory Records_Demo
  imports Demo_State Writes
begin

text \<open>
  A chain of two rows: a step of three and a checkpoint that closes over it, not yet compacted. And a signed
  manifest of two leaves, with its leaves in either order.
\<close>

section \<open>A chain to compact\<close>

definition demo_record :: "u64 \<Rightarrow> SignedAssertion" where
  "demo_record n = \<lparr>sa_did = alice_did, sa_kind = CHAIN_COUNTER_KIND, sa_subkey = Some ''hits'', sa_seq = n, sa_body = JNull,
     sa_authorization = AuthOwnerSigned \<lparr>os_signer = [], os_sig = []\<rparr>\<rparr>"

definition step_hash :: string where
  "step_hash = entry_hash demo alice_did CHAIN_COUNTER_KIND (Some ''hits'') 1
     \<lparr>cc_delta = 3, cc_total = 3, cc_prev_entry_hash = GENESIS_PREV_HASH\<rparr>"

definition step_row :: chain_row where
  "step_row = \<lparr>ch_did = alice_did, ch_kind = CHAIN_COUNTER_KIND, ch_subkey = ''hits'', ch_seq = 1, ch_delta = 3, ch_total = 3,
     ch_prev_entry_hash = GENESIS_PREV_HASH, ch_entry_hash = step_hash, ch_is_checkpoint = False, ch_prev_checkpoint = [],
     ch_json = demo_record 1, ch_ack = \<lparr>ack_signer = [], ack_sig = []\<rparr>\<rparr>"

definition close_row :: chain_row where
  "close_row = \<lparr>ch_did = alice_did, ch_kind = CHAIN_COUNTER_KIND, ch_subkey = ''hits'', ch_seq = 2, ch_delta = 0, ch_total = 3,
     ch_prev_entry_hash = step_hash,
     ch_entry_hash = checkpoint_hash demo alice_did CHAIN_COUNTER_KIND (Some ''hits'') 2
       \<lparr>cp_closing_total = 3, cp_chain_head_hash = step_hash, cp_prev_checkpoint = GENESIS_PREV_HASH\<rparr>,
     ch_is_checkpoint = True, ch_prev_checkpoint = GENESIS_PREV_HASH,
     ch_json = demo_record 2, ch_ack = \<lparr>ack_signer = [], ack_sig = []\<rparr>\<rparr>"

definition closed_state :: AppState where
  "closed_state = demo_state\<lparr>as_store := (as_store demo_state)\<lparr>s_chain_entry := [step_row, close_row]\<rparr>\<rparr>"

abbreviation hits_rows :: "Store \<Rightarrow> chain_row list" where
  "hits_rows st \<equiv> chain_rows st alice_did CHAIN_COUNTER_KIND (Some ''hits'')"

lemma closed_rows: "hits_rows (as_store closed_state) = [step_row, close_row]"
  by (simp add: closed_state_def chain_rows_def akey_def unwrap_or_empty_def step_row_def close_row_def)

lemma closed_compacts:
  "op_compact_chain closed_state alice_did CHAIN_COUNTER_KIND (Some ''hits'') =
     (demo_state\<lparr>as_store := (as_store demo_state)\<lparr>s_chain_entry := [close_row]\<rparr>\<rparr>, Ok (ChainCompacted 2))"
proof -
  have k: "is_chain_kind CHAIN_COUNTER_KIND" by (simp add: is_chain_kind_def CHAIN_COUNTER_SPEC_def)
  have "latest_checkpoint (as_store closed_state) alice_did CHAIN_COUNTER_KIND (Some ''hits'') = Some close_row"
    by (simp add: latest_checkpoint_def closed_rows) (simp add: step_row_def close_row_def)
  then have "compact_behind_latest_checkpoint (as_store closed_state) alice_did CHAIN_COUNTER_KIND (Some ''hits'') =
      ((as_store demo_state)\<lparr>s_chain_entry := [close_row]\<rparr>, Some 2)"
    by (simp add: compact_behind_latest_checkpoint_def)
      (simp add: closed_state_def akey_def unwrap_or_empty_def step_row_def close_row_def u64_or_zero_def)
  then show ?thesis using k by (simp add: op_compact_chain_def closed_state_def)
qed

lemma closed_chain_ok: "chain_ok demo (as_store closed_state) alice_did CHAIN_COUNTER_KIND (Some ''hits'')"
proof -
  let ?st1 = "(as_store demo_state)\<lparr>s_chain_entry := [step_row]\<rparr>"
  have e1: "row_entry alice_did CHAIN_COUNTER_KIND (Some ''hits'') step_row =
      \<lparr>ce_did = alice_did, ce_kind = CHAIN_COUNTER_KIND, ce_subkey = Some ''hits'', ce_seq = 1,
       ce_step = Step \<lparr>cc_delta = 3, cc_total = 3, cc_prev_entry_hash = GENESIS_PREV_HASH\<rparr>\<rparr>"
    by (simp add: row_entry_def step_row_def u64_or_zero_def)
  have e2: "row_entry alice_did CHAIN_COUNTER_KIND (Some ''hits'') close_row =
      \<lparr>ce_did = alice_did, ce_kind = CHAIN_COUNTER_KIND, ce_subkey = Some ''hits'', ce_seq = 2,
       ce_step = Checkpoint \<lparr>cp_closing_total = 3, cp_chain_head_hash = step_hash, cp_prev_checkpoint = GENESIS_PREV_HASH\<rparr>\<rparr>"
    by (simp add: row_entry_def close_row_def u64_or_zero_def)
  have r1: "hits_rows ?st1 = [step_row]" by (simp add: chain_rows_def akey_def unwrap_or_empty_def step_row_def)
  have ok1: "chain_ok demo ?st1 alice_did CHAIN_COUNTER_KIND (Some ''hits'')"
  proof (rule chain_ok_insert(1) [OF demo_chain_ok, where row = step_row and st' = ?st1])
    show "insert_chain_row (as_store demo_state) step_row = Ok ?st1" by (simp add: insert_chain_row_def)
    show "ch_entry_hash step_row = head_hash demo (row_entry alice_did CHAIN_COUNTER_KIND (Some ''hits'') step_row)"
      unfolding e1 by (simp add: head_hash_def step_row_def step_hash_def)
    show "check_entry (latest_chain_entry (as_store demo_state) alice_did CHAIN_COUNTER_KIND (Some ''hits''))
        (case latest_checkpoint_hash (as_store demo_state) alice_did CHAIN_COUNTER_KIND (Some ''hits'') of None \<Rightarrow> GENESIS_PREV_HASH | Some h \<Rightarrow> h)
        (row_entry alice_did CHAIN_COUNTER_KIND (Some ''hits'') step_row) = Ok ()"
      unfolding e1 by (simp add: check_entry_def verify_step_def latest_chain_entry_def chain_rows_def)
  qed (simp_all add: step_row_def akey_def unwrap_or_empty_def)
  show ?thesis
  proof (rule chain_ok_insert(1) [OF ok1, where row = close_row and st' = "as_store closed_state" and ?st1.0 = "as_store closed_state"])
    show "insert_chain_row ?st1 close_row = Ok (as_store closed_state)"
      by (simp add: insert_chain_row_def closed_state_def) (simp add: step_row_def close_row_def)
    show "ch_entry_hash close_row = head_hash demo (row_entry alice_did CHAIN_COUNTER_KIND (Some ''hits'') close_row)"
      unfolding e2 by (simp add: head_hash_def close_row_def)
    show "check_entry (latest_chain_entry ?st1 alice_did CHAIN_COUNTER_KIND (Some ''hits''))
        (case latest_checkpoint_hash ?st1 alice_did CHAIN_COUNTER_KIND (Some ''hits'') of None \<Rightarrow> GENESIS_PREV_HASH | Some h \<Rightarrow> h)
        (row_entry alice_did CHAIN_COUNTER_KIND (Some ''hits'') close_row) = Ok ()"
      unfolding e2
      by (simp add: check_entry_def verify_checkpoint_def latest_chain_entry_def latest_checkpoint_hash_def latest_checkpoint_def r1 Let_def)
        (simp add: step_row_def u64_or_zero_def u64_add_def u64_max_def)
  qed (simp_all add: close_row_def akey_def unwrap_or_empty_def)
qed


section \<open>A manifest in two orders\<close>

definition other_leaf :: ManifestLeaf where
  "other_leaf = \<lparr>ml_cid = replicate 64 (CHR ''1''), ml_size = 33\<rparr>"

definition two_leaves :: "ManifestLeaf list" where
  "two_leaves = [demo_leaf 3, other_leaf]"

lemma two_leaves_facts:
  "list_all leaf_is_valid two_leaves" "distinct (map ml_cid two_leaves)" "sum_list (map ml_size two_leaves) = 36"
  "sort_key ml_cid two_leaves = two_leaves" "two_leaves \<noteq> rev two_leaves"
proof -
  show "list_all leaf_is_valid two_leaves"
    by (simp add: two_leaves_def other_leaf_def leaf_is_valid_def demo_leaf_def MAX_OBJECT_BYTES_def list_all_iff lower_hex_char_def is_digit_def)
  have "replicate 64 (CHR ''0'') = CHR ''0'' # replicate 63 (CHR ''0'')" "replicate 64 (CHR ''1'') = CHR ''1'' # replicate 63 (CHR ''1'')"
    by (simp_all add: numeral_eq_Suc)
  then have "replicate 64 (CHR ''0'') < replicate 64 (CHR ''1'')" by (simp add: list_less_def less_char_def)
  then show "sort_key ml_cid two_leaves = two_leaves" "distinct (map ml_cid two_leaves)"
    by (simp_all add: two_leaves_def demo_leaf_def other_leaf_def less_imp_le)
qed (simp_all add: two_leaves_def demo_leaf_def other_leaf_def)

lemma two_leaves_texts: "inj_on (sha256_hex demo) (root_texts demo two_leaves)"
proof -
  have n3: "length (show_nat 3) = 1" by (subst show_nat.simps) simp
  have n33: "length (show_nat 33) = 2" using n3 by (subst show_nat.simps) simp
  have h: "length (sha256_hex demo t) = 64" for t
    using sha256_hex_length [OF demo_hex_law demo_digest_law] .
  let ?node = "''node:'' @ sha256_hex demo (leaf_text (demo_leaf 3)) @ '':'' @ sha256_hex demo (leaf_text other_leaf)"
  have t: "root_texts demo two_leaves = {''empty-manifest'', leaf_text (demo_leaf 3), leaf_text other_leaf, ?node}"
    unfolding root_texts_def two_leaves_facts(4)
    by (subst merkle_texts.simps, subst merkle_texts.simps) (simp add: two_leaves_def merkle_level_def leaf_hash_def insert_commute)
  have "length (leaf_text (demo_leaf 3)) = 71" "length (leaf_text other_leaf) = 72" "length ?node = 134" "length ''empty-manifest'' = 14"
    using n3 n33 h by (simp_all add: leaf_text_def demo_leaf_def other_leaf_def)
  then have "inj_on length (root_texts demo two_leaves)" "\<forall>a \<in> root_texts demo two_leaves. length a mod 256 = length a"
    unfolding t by (auto simp: inj_on_def)
  then show ?thesis using demo_digest_length unfolding inj_on_def by metis
qed


text \<open>The order of the leaves is not signed: the reversed list is accepted as well.\<close>

lemma manifest_verify_rev:
  assumes "manifest_verify X m key = Ok True"
  shows "manifest_verify X (m\<lparr>m_leaves := rev (m_leaves m)\<rparr>) key = Ok True"
proof -
  have "merkle_root X (rev (m_leaves m)) = merkle_root X (m_leaves m)"
    using assms by (intro merkle_root_perm) (simp_all add: manifest_verify_True has_duplicate_cids_iff rev_map [symmetric])
  then show ?thesis using assms by (auto simp: manifest_verify_True rev_map [symmetric] list_all_iff)
qed

lemma sort_two_leaves: "sort_key ml_cid (rev two_leaves) = two_leaves"
  using two_leaves_facts(4) by (auto simp: two_leaves_def demo_leaf_def other_leaf_def split: if_splits)

end
