(* ===== verification/Spec2Isabelle.thy ===== *)
theory Spec2Isabelle
  imports Demo_State Billing Item Ledger Gaps Cli_Demo Main_Demo Records_Demo
begin

text \<open>
  CISS, a cooperative metered-storage server, and the theorems that make its meter, its reads and its
  records trustworthy.

  \<^bold>\<open>The program.\<close> A customer is a tenant, named by an identifier derived from an Ed25519 key
  (\<^verbatim>\<open>id:\<close>) or by an atproto DID. A request reaches an HTTP handler, is authenticated (a signed session or a
  service token), is turned into one operation, passes the authorization rules and the read gate, and
  runs on the one shared state: a SQLite record store, a byte backend and an in-memory compute ledger.
  Every byte that crosses the boundary appends a signed receipt to the tenant's ledger; settings, read
  policies, chain counters and manifests are signed records whose signatures are checked before they
  are stored and acknowledged. Around the server are libraries for statements, prices, seals, audits
  and grace accounts.

  \<^bold>\<open>The theories\<close>, each with the sources it translates:
  \<^item> \<open>Ciss_Prelude\<close>, \<open>Btree\<close>, \<open>Json\<close> (\<^verbatim>\<open>canonical.rs\<close>), \<open>Serde\<close>, \<open>Wire\<close>: results with
    panics as values, machine integers, ordered maps, JSON values, the canonical text, what
    \<^verbatim>\<open>derive(Deserialize)\<close> accepts.
  \<^item> \<open>Crypto\<close> (\<^verbatim>\<open>crypto.rs\<close>, \<^verbatim>\<open>identity.rs\<close>), \<open>Identifiers\<close> (\<^verbatim>\<open>identifiers.rs\<close>), \<open>Assertion\<close>
    (\<^verbatim>\<open>assertion.rs\<close>), \<open>Kind_Spec\<close>, \<open>Kinds\<close> (\<^verbatim>\<open>kind_spec.rs\<close>), \<open>Policy\<close> (\<^verbatim>\<open>policy.rs\<close>), \<open>Dials\<close>
    (\<^verbatim>\<open>dials.rs\<close>, \<^verbatim>\<open>kv.rs\<close>), \<open>Chain\<close> (\<^verbatim>\<open>chain_kind.rs\<close>), \<open>Receipts\<close> (\<^verbatim>\<open>receipts.rs\<close>), \<open>Ledger\<close>
    (\<^verbatim>\<open>ledger.rs\<close>), \<open>Manifest\<close> (\<^verbatim>\<open>manifest.rs\<close>), \<open>Statements\<close> (\<^verbatim>\<open>pricing.rs\<close>, \<^verbatim>\<open>clock.rs\<close>,
    \<^verbatim>\<open>statements.rs\<close>), \<open>Billing\<close> (\<^verbatim>\<open>grace.rs\<close>, \<^verbatim>\<open>dial.rs\<close>), \<open>Item\<close> (\<^verbatim>\<open>item.rs\<close>, \<^verbatim>\<open>seal.rs\<close>,
    \<^verbatim>\<open>rng.rs\<close>, \<^verbatim>\<open>audit.rs\<close>), \<open>Compute\<close> (\<^verbatim>\<open>compute.rs\<close>): the records and the libraries, each with the
    laws of its own data (signatures bind, hashes chain, totals add up).
  \<^item> \<open>Blob\<close> (\<^verbatim>\<open>blobstore.rs\<close>): the memory and the file backend; the file system is a map of paths with a
    predicate that says which call fails.
  \<^item> \<open>Store\<close> (\<^verbatim>\<open>persist.rs\<close>), \<open>Store_Laws\<close>: the tables as lists of rows, the statements as functions on
    them, 64-bit columns with their range errors and clamps.
  \<^item> \<open>Auth\<close> (the crate \<^verbatim>\<open>ciss-auth\<close> and its use in \<^verbatim>\<open>server.rs\<close>), \<open>Server\<close> (dispatch and every operation),
    \<open>Http\<close> (handlers, responses, start-up decisions, \<^verbatim>\<open>pds_api.rs\<close>, \<^verbatim>\<open>cidv1.rs\<close>), \<open>Router\<close> (the route
    table): the server from the request to the rows.
  \<^item> \<open>Server_Laws\<close>, \<open>Access\<close>, \<open>Tenants\<close>, \<open>Writes\<close>, \<open>Metering\<close>, \<open>Progress\<close>: what each operation
    keeps, refuses, guarantees and achieves.
  \<^item> \<open>Runs\<close>: the server as a transition system of whole requests (\<open>step\<close>, \<open>reachable\<close>) and its invariants.
    \<open>Concurrent\<close> (\<^verbatim>\<open>dispatch_blocking\<close>, \<^verbatim>\<open>lock_store\<close>): the same operations cut into sections and interleaved
    on the threads of the blocking pool (\<open>run_next\<close>, \<open>pool_event\<close>); uninterrupted sections are \<open>dispatch\<close>, at most one
    thread is inside the store's lock, and the invariants hold in every interleaving (\<open>reached\<close>). \<open>Ciss_Main\<close>
    (\<^verbatim>\<open>main.rs\<close>): the binary, from its arguments over the service's life to the usage report, and what a
    sequence of processes on one data directory keeps; \<open>Main_Demo\<close> is its host for the witness.
  \<^item> \<open>Demo\<close>, \<open>Demo_State\<close>, \<open>Pool_Demo\<close>, \<open>Records_Demo\<close>: one concrete instance of the external code and of the server, on which the
    witnesses evaluate. \<open>Gaps\<close>: places where a check is weaker than the text beside it.
  \<^item> \<open>Sync_Data\<close>, \<open>Sync_Fold\<close>, \<open>Sync_State\<close>, \<open>Sync_Fs\<close>, \<open>Sync_Flows\<close>, \<open>Sync_Laws\<close> (the crate
    \<^verbatim>\<open>ciss-sync\<close>): chunks, trees and device heads; the fold of the devices' trees; the tables of the local
    state; the scan and the writing of a tree; backup, restore, eviction, hydration, the frontier commit
    and converge over any remote (the record \<open>remote\<close>), and what they keep.
  \<^item> \<open>Custody\<close>, \<open>Client\<close> (\<^verbatim>\<open>client.rs\<close> of \<^verbatim>\<open>ciss-cli\<close>), \<open>Http_Ciss\<close> (\<^verbatim>\<open>sync.rs\<close> of \<^verbatim>\<open>ciss-cli\<close>): the
    server's custody of uploads, the HTTP client, and the client as a remote of the engine, composed with
    the server over a wire that loses requests and answers.
  \<^item> \<open>Resolve\<close> (\<^verbatim>\<open>did_resolver.rs\<close> and the crate \<^verbatim>\<open>ciss-resolve\<close>): documents, URLs, the layers of
    resolvers, the configuration and the pins.
  \<^item> \<open>Mesh\<close> (the crate \<^verbatim>\<open>ciss-iroh\<close>): the peer's index, the blob transport, gossip and the mesh device as a
    remote of the engine.
  \<^item> \<open>Cli_Profile\<close> (\<^verbatim>\<open>config.rs\<close>, \<^verbatim>\<open>identity.rs\<close>, \<^verbatim>\<open>atproto.rs\<close>, \<^verbatim>\<open>commands/key.rs\<close> and the settings of \<^verbatim>\<open>sync.rs\<close> in
    \<^verbatim>\<open>ciss-cli\<close>), \<open>Cli_Commands\<close> (\<^verbatim>\<open>commands/object.rs\<close>, \<^verbatim>\<open>commands/acl.rs\<close>, the dial commands), \<open>Cli\<close>
    (\<^verbatim>\<open>main.rs\<close>), \<open>Cli_Laws\<close>: the command-line client on a disk with permission bits, a server behind HTTP, its
    databases and the mesh; every command from its arguments to what it prints.
  \<^item> \<open>Sync_Demo\<close>, \<open>Http_Demo\<close>, \<open>Mesh_Demo\<close>, \<open>Cli_Demo\<close>: instances for the witnesses.

  \<^bold>\<open>Interfaces.\<close> \<open>hash_chain\<close> is what an append-only linked sequence promises; the ledger, the
  statements and the accounting chains interpret it. \<open>body_kind\<close> is what a signed record asks of its
  kind (a fold that binds the body); policies, dials, flags and chain entries interpret it.
  \<open>blob_store\<close> and \<open>reliable_blob_store\<close> are the byte backend; memory, file system and the server's
  choice of backend interpret them. \<open>monotone_register\<close> is a slot whose sequence number never goes
  back. \<open>store_invariant\<close> and \<open>ledger_invariant\<close> lift a fact every table operation keeps to every
  operation of the server, and \<open>state_invariant\<close> and \<open>run_invariant\<close> to every run, \<open>restart_invariant\<close> to every sequence of processes; totals, tenant
  isolation, append-only ledgers, manifests, the quota, the compute bound and content addresses are
  their interpretations.
  \<open>table_invariant\<close> is a fact every operation on a table of the local state keeps. \<open>blob_side\<close> is what
  the engine asks of a remote (what it reports and accepts is held, and stays held); the HTTP client over
  the server and the mesh device interpret it, and the engine's flows are proved once on top. \<open>key_source\<close>
  is what a layer of the DID resolver promises; network, static map and the production stack interpret it.
  The heads a device heard of interpret \<open>monotone_register\<close>.
  \<open>disk_rule\<close> is a relation on the client's disk that its few writing operations keep; every command keeps
  it, and the safety of keys and secrets is its interpretation.

  \<^bold>\<open>Modelling decisions.\<close> Strings and byte strings are character lists. Fallible code returns
  \<open>result\<close> with the constructors \<open>Ok\<close>, \<open>Err\<close> and \<open>Panic\<close>: the release profile checks overflow, so
  an overflowing sum, a failed \<^verbatim>\<open>expect\<close> or an index out of range is \<open>Panic\<close>, which the dispatcher turns
  into the error of a failed worker. \<^verbatim>\<open>u64\<close> and \<^verbatim>\<open>usize\<close> are natural numbers with the bound written out
  where the code relies on it, \<^verbatim>\<open>i64\<close> columns are integers, the generator of the audits works on 32-bit
  words. A loop is a structurally recursive function or has a termination proof; no fuel is used.
  Code outside the repository (SHA-256, hexadecimal, Ed25519, ECDSA, base64, the JSON text layer, CID text)
  is a field of the records \<open>ext\<close> and \<open>net\<close>, an argument of every definition that calls it. Its
  documented behaviour is stated by named predicates (\<open>hex_law\<close>, \<open>sign_law\<close>, \<open>text_law\<close>); freedom
  from collisions is always an explicit hypothesis on the finite set of texts at hand (\<open>inj_on\<close> of the
  digest, \<open>binding_on\<close> for signatures), and the demo instance satisfies all of them.

  \<^bold>\<open>Atomicity.\<close> The operations of \<open>Server\<close> and the handlers of \<open>Router\<close> are functions from one state to the next:
  what they say of one request holds while no other request is served. The server runs dispatches
  concurrently. \<open>Concurrent\<close> therefore cuts each operation where the code releases the store's lock, calls the
  backend or commits, and lets the sections of different dispatches follow in any order the lock allows; the
  meter (C6), the ceiling (C7), the append-only ledger (C8), the restarts with kills between any two commits (C9),
  the manifests (C10) and the run-time state (C12) are stated over these interleavings. The ceiling is not exact
  there: C7 gives the bound that holds and its witness reaches it. The other properties of the server are about one
  operation from the state it finds; C11, C23 and C32 are over sequences of whole requests. Two overlapping puts of one
  object share a temporary file: \<open>Blob\<close> represents one put at a time (C30), and in the pool the event
  \<open>BackendBecame\<close> lets the backend become anything, so no property over interleavings rests on it. The
  predicate of failing system calls is fixed during one operation.

  \<^bold>\<open>What is shown.\<close> Who may do what (tenant isolation, owner-only operations, the read gate, fail-closed
  policies, listings); what every run and every interleaving keeps (totals equal the ledger, the bound on the
  quota, append-only ledgers, no rollback of manifests, bounded run-time state), also across restarts and kills; what a transfer leaves behind and that it succeeds
  when it should; that accepted writes are verified and extend their chains; that sessions and tokens
  prove keys and are not replayed; that internal errors do not leak and production keys are not
  ephemeral; that canonical texts, signatures, roots, ledgers and statements commit to their content;
  that the backend writes atomically and the wire formats round trip.
  For the sync engine: a backup that reports success is in the server's custody, or in the device's own
  store on the mesh; the merge loses no edit and invents nothing; restore reproduces what a scan saw; the
  frontier commit ends and covers every head; devices that hear the same announcements agree; and a
  token's key is the pinned or the published one. For the client: no command loses or exposes a key, a
  new key is the one later commands use, and a policy command takes effect at the server's read gate.

  \<^bold>\<open>Not modelled.\<close> Logging, signals and sockets of the binary, URL matching, timeouts and the
  concurrency limit of the web framework, the queue in front of a full pool, SQLite's files and schema statements, the detection
  probability of \<^verbatim>\<open>audit.rs\<close> and the hit rate of the resolver's cache (the report's
  figures are over an abstract floating point), the
  client's argument parser, its messages on standard error and what a failing command printed before it
  failed, the aliases of a path (links, relative names), and the binding, relay attachment and
  shutdown of iroh endpoints: I/O, third-party code or presentation.
\<close>


section \<open>Who may do what\<close>

text \<open>C1: an operation names one tenant, and whoever sends it, whatever it carries and whether it
  succeeds or fails, every row the database keeps for any other tenant (receipts, totals,
  manifest, assertions, chain entries, baseline) and every object of any other tenant is unchanged.\<close>

theorem tenant_isolation:
  assumes "dispatch X N micros s who oper = (s', r)" and "op_did oper \<noteq> d"
  shows "same_tenant d s s'"
  using assms by (rule dispatch_same_tenant)

theorem tenant_isolation_witness:
  "same_tenant bob_did demo_state (fst (dispatch demo (demo_net (\<lambda>_. None)) 7 demo_state (Authenticated alice_did)
     (PutObject alice_did ''k'' ''hello'')))"
  by (rule tenant_isolation [OF prod.collapse [symmetric]]) (simp add: alice_not_bob)

text \<open>C2: uploads, the meter, erasure, subkey listings, chain reads and compaction are for the
  authenticated owner only: anyone else gets 401 (anonymous) or 403, and nothing in the server
  changes, not even the compute ledger.\<close>

theorem owner_operations_refused:
  assumes "owner_op oper" "who \<noteq> Authenticated (op_did oper)"
  shows "dispatch X N micros s who oper = (s, Err (if who = Anonymous then Unauthorized else Forbidden)) \<and>
    error_status (if who = Anonymous then Unauthorized else Forbidden) = (if who = Anonymous then 401 else 403)"
  using dispatch_refused_owner [OF assms] by simp

theorem owner_operations_refused_witness:
  "dispatch demo (demo_net (\<lambda>_. None)) 7 demo_state (Authenticated bob_did) (GetMeter ''did:plc:carol'') =
     (demo_state, Err Forbidden)"
  using owner_operations_refused [of "GetMeter ''did:plc:carol''" "Authenticated bob_did" demo "demo_net (\<lambda>_. None)" 7 demo_state]
  by (simp add: bob_did_def)

text \<open>C3: a read the object's policy (or else the namespace policy) does not allow gets the answer of
  an absent object, 404, before the backend is consulted, and meters nothing.\<close>

theorem denied_read_is_hidden:
  assumes "\<not> allows (resolve_policy (as_store s) did (Some cid)) (principal_did who) did"
    and "blobs_get (as_blobs t) did cid = Err (BlobMissing did cid)"
  shows "dispatch X N micros s who (GetObject did cid) = (s, Err NotFound) \<and> op_get_object X t did cid = (t, Err NotFound) \<and>
    rs_status (error_response display NotFound) = 404"
  using dispatch_refused_read [OF assms(1)] assms(2) by (simp add: op_get_object_def blob_error_def error_response_def Let_def)

theorem denied_read_is_hidden_witness:
  "dispatch demo (demo_net (\<lambda>_. None)) 7 locked_state Anonymous (GetObject alice_did ''c'') = (locked_state, Err NotFound) \<and>
   op_get_object demo demo_state alice_did ''c'' = (demo_state, Err NotFound)"
proof -
  have "\<not> allows (resolve_policy (as_store locked_state) alice_did (Some ''c'')) (principal_did Anonymous) alice_did"
    by (simp add: locked_policy allows_deny)
  moreover have "blobs_get (as_blobs demo_state) alice_did ''c'' = Err (BlobMissing alice_did ''c'')"
    by (simp add: mem_get_def)
  ultimately show ?thesis
    using denied_read_is_hidden by blast
qed

text \<open>C4: a stored policy that does not decode denies: an unreadable object policy, or an unreadable
  namespace policy with no object policy over it, leaves the object to its owner alone.\<close>

theorem unreadable_policy_fails_closed:
  assumes "assertion_json_row st did POLICY_KIND (Some cid) = Some j \<or>
      assertion_json_row st did POLICY_KIND (Some cid) = None \<and> assertion_json_row st did POLICY_KIND None = Some j"
    and "Option.bind j (\<lambda>a. de_policy_body (sa_body a)) = None"
  shows "allows (resolve_policy st did (Some cid)) caller did \<longleftrightarrow> caller = Some did"
  using unreadable_policy_denies [OF assms] by (simp add: allows_deny)

theorem unreadable_policy_fails_closed_witness:
  "\<not> allows (resolve_policy (as_store locked_state) alice_did (Some ''c'')) (Some bob_did) alice_did"
  using unreadable_policy_fails_closed [of "as_store locked_state" alice_did "''c''" None "Some bob_did"]
    alice_not_bob
  by (simp add: locked_state_def assertion_json_row_def akey_def)

text \<open>C5: the listing of a repository is exactly the distinct uploaded addresses, in upload order,
  whose download the same caller would be allowed: the shortcut for a world-readable namespace and
  the per-object filter agree with the gate of the download.\<close>

theorem listing_is_the_read_gate:
  assumes "\<And>r. r \<in> set (uploads (load_receipts (as_store s) did)) \<Longrightarrow> rc_cid (r_core r) \<noteq> []"
  shows "op_list_blobs s who did = Ok (BlobList
    (filter (\<lambda>cid. authorize_read s who (GetObject did cid) = Ok ())
      (dedup_first {} (map (\<lambda>r. rc_cid (r_core r)) (uploads (load_receipts (as_store s) did))))))"
proof -
  have "authorize_read s who (GetObject did cid) = Ok () \<longleftrightarrow>
      allows (resolve_policy (as_store s) did (Some cid)) (principal_did who) did" for cid
    unfolding authorize_read_iff by simp
  then show ?thesis using op_list_blobs_filter [OF assms] by simp
qed

theorem listing_is_the_read_gate_witness:
  "\<exists>s1 out. dispatch demo (demo_net (\<lambda>_. None)) 7 demo_state (Authenticated alice_did) (PutObject alice_did ''k'' ''hello'') = (s1, Ok out) \<and>
     op_list_blobs s1 Anonymous alice_did = Ok (BlobList
       (filter (\<lambda>cid. authorize_read s1 Anonymous (GetObject alice_did cid) = Ok ()) [sha256_hex demo ''hello'']))"
proof -
  obtain s1 out r where d: "dispatch demo (demo_net (\<lambda>_. None)) 7 demo_state (Authenticated alice_did) (PutObject alice_did ''k'' ''hello'') = (s1, Ok out)"
    and r: "load_receipts (as_store s1) alice_did = [r]" "rc_cid (r_core r) = sha256_hex demo ''hello''" "rc_direction (r_core r) = Upload"
    by (rule demo_uploaded_receipt)
  have "op_list_blobs s1 Anonymous alice_did = Ok (BlobList
    (filter (\<lambda>cid. authorize_read s1 Anonymous (GetObject alice_did cid) = Ok ())
      (dedup_first {} (map (\<lambda>r. rc_cid (r_core r)) (uploads (load_receipts (as_store s1) alice_did))))))"
    by (rule listing_is_the_read_gate)
      (use r sha256_hex_nonempty [OF demo_hex_law demo_digest_law] in \<open>auto simp: uploads_def\<close>)
  then show ?thesis using d r by (auto simp: uploads_def)
qed

section \<open>Every run of the server\<close>

text \<open>C6: in every state a server reaches by serving requests and flushing its compute ledger, one after
  another or interleaved on the threads of its pool (also between the two commits of one operation), from a
  database whose totals agree with its receipts, the meter of a tenant is the ledger of the
  tenant: its count is the number of receipts, its bytes are the sum of their bytes by direction
  and its postage is that of their sum.\<close>

theorem meter_is_the_ledger:
  assumes "totals_inv (as_store s0)" "reached X N s0 s"
    and "op_get_meter s did = Ok (Meter receipts up down run postage drawn)"
  shows "receipts = length (load_receipts (as_store s) did) \<and>
    up = sum_list (map receipt_up (load_receipts (as_store s) did)) \<and>
    down = sum_list (map receipt_down (load_receipts (as_store s) did)) \<and>
    run = ledger_bytes (as_store s) did \<and> run = up + down \<and> postage = postage_cents run \<and> drawn \<le> down"
proof -
  have inv: "totals_inv (as_store s)" using run_totals.reached_keeps [OF assms(2,1)] .
  obtain t where t: "running_totals (as_store s) did = Ok t"
    and m: "receipts = rt_receipt_count t" "up = rt_upload_bytes t" "down = rt_download_bytes t"
      "run = rt_upload_bytes t + rt_download_bytes t" "postage = postage_cents run" "drawn = rt_drawdown_download_bytes t"
    using assms(3) by (auto simp: op_get_meter_def result_bind_Ok total_bytes_def split: option.splits if_splits)
  note tl = running_totals_exact [OF inv t]
  show ?thesis
    using m drain_le_download [of "load_receipts (as_store s) did"] unfolding tl
    by (simp add: ledger_bytes_totals ledger_totals_sums)
qed

theorem meter_is_the_ledger_witness:
  "\<exists>s. reachable demo (demo_net (\<lambda>_. None)) demo_state s \<and>
     (\<exists>c u d p w. op_get_meter s alice_did = Ok (Meter c u d 5 p w) \<and> c = length (load_receipts (as_store s) alice_did) \<and> u + d = 5)"
proof -
  obtain s where s: "reachable demo (demo_net (\<lambda>_. None)) demo_state s" "ledger_bytes (as_store s) alice_did = 5"
    "length (load_receipts (as_store s) alice_did) = 1"
    by (rule demo_reachable)
  have inv: "totals_inv (as_store s)" by (rule run_totals.store_always [OF s(1) demo_totals_inv])
  obtain c u d r p w where m: "op_get_meter s alice_did = Ok (Meter c u d r p w)"
    by (rule meter_answers [OF inv, of alice_did]) (use s in \<open>simp_all add: i64_max_def\<close>)
  have "reached demo (demo_net (\<lambda>_. None)) demo_state s" using s(1) by (simp add: reached_def)
  from meter_is_the_ledger [OF demo_totals_inv this m] show ?thesis using s m by auto
qed

text \<open>C7: the ceiling on the bytes stored for all tenants together. When requests are served one after another it is
  never exceeded. When dispatches run on the threads of the pool and interleave at every point where the
  code gives up the store's lock, the bytes stored and the bytes of the uploads that have passed the
  ceiling and not yet counted theirs are together at most the ceiling plus one body of the largest size
  for every other thread (a body whose length fits a signed 64-bit integer): an upload reads the usage under one lock and adds its bytes under another, so
  concurrent uploads can pass the ceiling together, by this much and no more. With one thread the bound
  is the ceiling itself.\<close>

theorem storage_stays_within_quota:
  assumes "totals_inv (as_store s0)" "stored_total (as_store s0) \<le> store_ceiling (as_limits s0)"
  shows "(reachable X N s0 s \<longrightarrow> stored_total (as_store s) \<le> store_ceiling (as_limits s0)) \<and>
    (limit \<le> i64_max \<longrightarrow>
      stored_total (as_store (po_app (pool_run X N threads limit (pool_of s0) evs))) +
        sum_list (map admitted (po_tasks (pool_run X N threads limit (pool_of s0) evs))) \<le>
      store_ceiling (as_limits s0) + (threads - 1) * limit)"
proof -
  have "stored_total (as_store s) \<le> store_ceiling (as_limits s0)" if "reachable X N s0 s"
  proof -
    have "within_quota s" using quota_run.always [OF that] assms by (simp add: within_quota_def)
    moreover have "config s = config s0" using config_run.always [OF that] by blast
    ultimately show ?thesis by (simp add: within_quota_def config_def)
  qed
  moreover have "pool_within threads limit (pool_of s0)" using assms by (simp add: pool_within_def pool_of_def)
  moreover have "as_limits (po_app (pool_run X N threads limit (pool_of s0) evs)) = as_limits s0"
    using pool_config [of X N threads limit "pool_of s0" evs] by (simp add: config_def pool_of_def)
  ultimately show ?thesis using pool_run_within [of threads limit "pool_of s0" X N evs] by (auto simp: pool_within_def)
qed

theorem storage_stays_within_quota_witness:
  "stored_total (as_store (po_app (pool_run demo (demo_net (\<lambda>_. None)) 2 5 (pool_of tight_state) two_uploads))) = 10 \<and>
   store_ceiling (as_limits tight_state) + (2 - 1) * 5 = 10 \<and>
   stored_total (as_store (po_app (pool_run demo (demo_net (\<lambda>_. None)) 2 5 (pool_of tight_state) two_uploads))) +
     sum_list (map admitted (po_tasks (pool_run demo (demo_net (\<lambda>_. None)) 2 5 (pool_of tight_state) two_uploads))) \<le> 10"
proof -
  have "totals_inv (as_store tight_state)" "stored_total (as_store tight_state) \<le> store_ceiling (as_limits tight_state)"
    using demo_totals_inv by (simp_all add: stored_total_def)
  from storage_stays_within_quota [OF this, of demo "demo_net (\<lambda>_. None)" tight_state 5 2 two_uploads] show ?thesis
    using two_uploads_overshoot [of "demo_net (\<lambda>_. None)"] by (simp add: i64_max_def)
qed

text \<open>C8: the ledger of a tenant is append-only: in every later state the metered content of its
  receipts (everything but the signatures a countersignature adds) begins with what it was, however
  the requests interleave on the threads of the pool.\<close>

theorem ledger_only_grows:
  assumes "reached X N s0 s"
  shows "prefix (ledger_cores (as_store s0) d) (ledger_cores (as_store s) d)"
  by (rule append_only.reached_keeps [OF assms]) simp

theorem ledger_only_grows_witness:
  "\<exists>s1 s2. reachable demo (demo_net (\<lambda>_. None)) demo_state s1 \<and> length (load_receipts (as_store s1) alice_did) = 1 \<and>
     reachable demo (demo_net (\<lambda>_. None)) s1 s2 \<and> prefix (ledger_cores (as_store s1) alice_did) (ledger_cores (as_store s2) alice_did)"
proof -
  obtain s1 where s1: "reachable demo (demo_net (\<lambda>_. None)) demo_state s1" "length (load_receipts (as_store s1) alice_did) = 1"
    by (rule demo_reachable)
  have "reachable demo (demo_net (\<lambda>_. None)) s1 (flush_compute s1)" by (rule reachable.next_step [OF reachable.start step.flushed])
  then show ?thesis using s1 ledger_only_grows [of demo "demo_net (\<lambda>_. None)" s1 "flush_compute s1"] by (auto simp: reached_def)
qed

text \<open>C9: over any sequence of processes of the binary on a data directory (services whose dispatches interleave on
  the pool and that end by a shutdown, by an error or by a kill between any two commits, also those of one
  operation, and reports in between), a tenant's ledger only grows, its manifest never goes back, the totals
  still agree with the receipts, and the row of the tenant in \<^verbatim>\<open>ciss usage\<close> is its ledger: the number of its
  receipts and the sum of their bytes.\<close>

theorem ledger_survives_restarts:
  assumes "totals_inv (fst (d dir))"
  shows "prefix (ledger_cores (fst (d dir)) did) (ledger_cores (fst (processes X N ps d dir)) did) \<and>
    (load_manifest (fst (d dir)) did = Some m \<longrightarrow> manifest_at_least (m_seq m) did (fst (processes X N ps d dir))) \<and>
    totals_inv (fst (processes X N ps d dir)) \<and>
    (\<forall>r \<in> set (usage_rows (fst (processes X N ps d dir)) (Some did)). ur_did r = did \<and>
       ur_receipt_count r = length (load_receipts (fst (processes X N ps d dir)) did) \<and>
       ur_transferred_bytes r = ledger_bytes (fst (processes X N ps d dir)) did)"
proof -
  have t: "totals_inv (fst (processes X N ps d dir))" using restart_totals.processes_keep [where d = d and dir = dir] assms by simp
  have "prefix (ledger_cores (fst (d dir)) did) (ledger_cores (fst (processes X N ps d dir)) did)"
    by (rule restart_ledger.processes_keep [where d = d and dir = dir]) simp
  moreover have "manifest_at_least (m_seq m) did (fst (processes X N ps d dir))" if "load_manifest (fst (d dir)) did = Some m"
    by (rule restart_manifests.processes_keep [where d = d and dir = dir]) (use that in \<open>simp add: manifest_at_least_def\<close>)
  ultimately show ?thesis using t usage_row_is_the_ledger [OF t, of _ did] by blast
qed

theorem ledger_survives_restarts_witness:
  "\<exists>d. snd (ciss_main demo (demo_net (\<lambda>_. None)) killed_host [] d) = Err ''killed'' \<and>
     stored_of (fst (fst (ciss_main demo (demo_net (\<lambda>_. None)) killed_host [] d) ''./data'')) alice_did = 5 \<and>
     load_receipts (fst (fst (ciss_main demo (demo_net (\<lambda>_. None)) killed_host [] d) ''./data'')) alice_did = [] \<and>
     snd (ciss_main demo (demo_net (\<lambda>_. None)) demo_host [] d) = Ok [] \<and>
     totals_inv (fst (processes demo (demo_net (\<lambda>_. None)) [(killed_host, []), (demo_host, [])] d ''./data''))"
proof -
  let ?N = "demo_net (\<lambda>_. None)" and ?d = "\<lambda>_. (open_in_memory, demo_fs)"
  have "totals_inv (fst (?d ''./data''))" by (simp add: totals_inv_iff open_in_memory_def)
  from ledger_survives_restarts [where d = ?d and dir = "''./data''" and X = demo and N = ?N and ps = "[(killed_host, []), (demo_host, [])]", OF this]
  have "totals_inv (fst (processes demo ?N [(killed_host, []), (demo_host, [])] ?d ''./data''))" by blast
  then show ?thesis
    using killed_in_upload [where d = ?d, OF refl prod.collapse [symmetric], of ?N] demo_main_runs [of ?N ?d] by blast
qed

text \<open>C10: once a tenant's manifest with sequence number n is stored, every later state has a manifest
  of the tenant with a sequence number at least n, however the requests interleave.\<close>

theorem manifest_never_rolls_back:
  assumes "load_manifest (as_store s0) d = Some m" "reached X N s0 s"
  shows "\<exists>m'. load_manifest (as_store s) d = Some m' \<and> m_seq m \<le> m_seq m'"
  using manifests.reached_keeps [OF assms(2), of "m_seq m" d] assms(1) by (auto simp: manifest_at_least_def)

theorem manifest_never_rolls_back_witness:
  "\<exists>m'. load_manifest (as_store (flush_compute (demo_state\<lparr>as_store := save_manifest (as_store demo_state) alice_did demo_manifest\<rparr>))) alice_did = Some m' \<and>
     m_seq demo_manifest \<le> m_seq m'"
proof -
  let ?s = "demo_state\<lparr>as_store := save_manifest (as_store demo_state) alice_did demo_manifest\<rparr>"
  have "load_manifest (as_store ?s) alice_did = Some demo_manifest" by (simp add: load_manifest_def save_manifest_def)
  moreover have "reached demo (demo_net (\<lambda>_. None)) ?s (flush_compute ?s)"
    unfolding reached_def by (blast intro: reachable.start reachable.next_step step.flushed)
  ultimately show ?thesis by (rule manifest_never_rolls_back)
qed



text \<open>C12: in every run, however the requests interleave, the compute ledger tracks at most its fixed number of callers, whatever
  identities the requests claim, and the provider's keys, the limits and the rest of the
  configuration never change.\<close>

theorem run_time_state_is_bounded:
  assumes "compute_inv (as_compute s0)" "reached X N s0 s"
  shows "tracked_callers (as_compute s) \<le> MAX_TRACKED_CALLERS \<and> compute_inv (as_compute s) \<and> config s = config s0"
  using reached_run [OF assms(2)] assms(1) by (simp add: compute_inv_def tracked_callers_def)

theorem run_time_state_is_bounded_witness:
  "\<exists>s. reachable demo (demo_net (\<lambda>_. None)) demo_state s \<and> tracked_callers (as_compute s) \<le> MAX_TRACKED_CALLERS"
proof -
  obtain s where s: "reachable demo (demo_net (\<lambda>_. None)) demo_state s" by (rule demo_reachable)
  have "compute_inv (as_compute demo_state)" by (simp add: compute_inv_new)
  from run_time_state_is_bounded [OF this, of demo "demo_net (\<lambda>_. None)" s] show ?thesis using s by (auto simp: reached_def)
qed

section \<open>Metered transfers\<close>

text \<open>C13: an accepted upload appends exactly one receipt to the owner's ledger and to no other: an
  upload receipt for the content's digest and length, whose running total is the byte count of the
  whole ledger including itself, in the account mode of the moment, naming the provider as receiver
  and the owner as sender, whose content hash matches its content and whose one signature verifies
  under the provider's key; the answer carries that hash and mode.\<close>

theorem upload_is_metered:
  assumes "hex_law X" "sign_law X" "length (kp_signing_key (pv_keypair (as_provider s))) = 32"
    and "totals_inv (as_store s)" "op_put_object X s did key bs = (s', Ok out)"
  shows "\<exists>r. metered X s s' Upload did (sha256_hex X bs) (length bs) r \<and> issued_by X (as_provider s) r \<and>
    out = Stored (sha256_hex X bs) (length bs) (r_mode r) (r_content_hash r)"
proof -
  obtain r where m: "metered X s s' Upload did (sha256_hex X bs) (length bs) r"
    and o: "out = Stored (sha256_hex X bs) (length bs) (r_mode r) (r_content_hash r)"
    by (rule put_object_metered [OF assms(5,4)])
  have "r = build_boundary_receipt X (as_provider s) (r_core r) (boundary_receipt_mode (as_store s) did (length bs))"
    using m by (simp add: metered_def)
  then have "issued_by X (as_provider s) r" using boundary_receipt_issued [OF assms(1-3)] by metis
  then show ?thesis using m o by blast
qed

theorem upload_is_metered_witness:
  "\<exists>s1 out r. op_put_object demo demo_state alice_did ''k'' ''hello'' = (s1, Ok out) \<and>
     load_receipts (as_store s1) alice_did = [r] \<and> rc_running_total (r_core r) = 5 \<and> issued_by demo (as_provider demo_state) r"
proof -
  obtain s1 mode h where p: "op_put_object demo demo_state alice_did ''k'' ''hello'' = (s1, Ok (Stored (sha256_hex demo ''hello'') 5 mode h))"
    by (rule demo_put)
  from upload_is_metered [OF demo_hex_law demo_sign_law demo_provider_key demo_totals_inv p]
  show ?thesis using p by (auto simp: metered_def ledger_bytes_def)
qed

text \<open>A download that returns bytes returns the stored bytes under their digest, at most the
  object limit, and appends exactly one download receipt, naming the owner as receiver, whose
  running total is the byte count of the whole ledger including itself; a unilateral receipt
  verifies under a keyring that holds the provider's key.\<close>

theorem download_is_metered:
  assumes "hex_law X" "sign_law X" "length (kp_signing_key (pv_keypair (as_provider s))) = 32"
    and "totals_inv (as_store s)" "op_get_object X s did cid = (s', Ok out)"
    and "bt_get ring (pv_id (as_provider s)) = Some (provider_key X s)"
  shows "\<exists>data r. out = Bytes cid data \<and> blobs_get (as_blobs s) did cid = Ok data \<and> sha256_hex X data = cid \<and>
    length data \<le> MAX_OBJECT_BYTES \<and> metered X s s' Download did cid (length data) r \<and>
    issued_by X (as_provider s) r \<and> (r_mode r = Unilateral \<longrightarrow> verify_unilateral X r ring)"
proof -
  obtain r data where m: "metered X s s' Download did cid (length data) r" and o: "out = Bytes cid data"
    "sha256_hex X data = cid" "blobs_get (as_blobs s) did cid = Ok data" "length data \<le> MAX_OBJECT_BYTES"
    by (rule get_object_metered [OF assms(5,4)])
  have "r = build_boundary_receipt X (as_provider s) (r_core r) (boundary_receipt_mode (as_store s) did (length data))"
    using m by (simp add: metered_def)
  then have i: "issued_by X (as_provider s) r" using boundary_receipt_issued [OF assms(1-3)] by metis
  then have "r_mode r = Unilateral \<longrightarrow> verify_unilateral X r ring"
    using issued_unilateral assms(6) by (simp add: provider_key_def)
  then show ?thesis using m o i by blast
qed

theorem download_is_metered_witness:
  "\<exists>s1 s2 out r. op_get_object demo s1 alice_did (sha256_hex demo ''hello'') = (s2, Ok out) \<and>
     metered demo s1 s2 Download alice_did (sha256_hex demo ''hello'') (length ''hello'') r"
proof -
  obtain s1 s2 mode h where p: "op_put_object demo demo_state alice_did ''k'' ''hello'' = (s1, Ok (Stored (sha256_hex demo ''hello'') 5 mode h))"
    and g: "op_get_object demo s1 alice_did (sha256_hex demo ''hello'') = (s2, Ok (Bytes (sha256_hex demo ''hello'') ''hello''))"
    using demo_put_get by blast
  have pv: "as_provider s1 = as_provider demo_state"
    using put_object_rest [of demo demo_state alice_did "''k''" "''hello''"] p by (simp add: rest_def config_def)
  have inv: "totals_inv (as_store s1)"
    using totals.put_object [where s = demo_state and X = demo and did = alice_did and key = "''k''" and bs = "''hello''"]
      demo_totals_inv p by simp
  have "bt_get [(pv_id (as_provider s1), provider_key demo s1)] (pv_id (as_provider s1)) = Some (provider_key demo s1)"
    by (simp add: bt_get_def)
  from download_is_metered [OF demo_hex_law demo_sign_law demo_provider_key [folded pv] inv g this]
  show ?thesis using g by blast
qed

text \<open>An accepted upload was not in drawdown, its postage for the period stays within the owner's
  spend ceiling or does not rise, it adds its length to the owner's stored bytes exactly when the
  object is new, and then the result is within the lower of the provider's cap and the owner's own
  at-rest dial.\<close>

theorem upload_respects_limits:
  assumes "totals_inv (as_store s)" "op_put_object X s did key bs = (s', Ok out)"
  shows "account_mode (as_store s) did \<noteq> Drawdown \<and>
    (\<forall>cents base. spend_dial (as_store s) did = Some cents \<longrightarrow> period_baseline (as_store s) did = Ok base \<longrightarrow>
      (let spent = saturating_sub (ledger_bytes (as_store s) did) base in
       postage_cents (saturating_add spent (length bs)) \<le> cents \<or>
       postage_cents (saturating_add spent (length bs)) \<le> postage_cents spent)) \<and>
    stored_of (as_store s') did = stored_of (as_store s) did +
      (if blobs_has (as_blobs s) did (sha256_hex X bs) then 0 else length bs) \<and>
    (\<forall>cap. \<not> blobs_has (as_blobs s) did (sha256_hex X bs) \<longrightarrow>
      effective_cap (did_cap (as_limits s)) (at_rest_dial (as_store s) did) = Some cap \<longrightarrow>
      stored_of (as_store s') did \<le> cap)"
proof -
  have g: "write_gates (as_store s) did (length bs) = Ok ()" by (rule op_put_object_Ok [OF assms(2)])
  show ?thesis
    using write_gates_Ok [OF g assms(1)] upload_stored [OF assms(2,1)] unfolding Let_def by blast
qed

theorem upload_respects_limits_witness:
  "\<exists>s1 out. op_put_object demo demo_state alice_did ''k'' ''hello'' = (s1, Ok out) \<and> stored_of (as_store s1) alice_did = 5 \<and> 5 \<le> (50::nat)"
proof -
  obtain s1 mode h where p: "op_put_object demo demo_state alice_did ''k'' ''hello'' = (s1, Ok (Stored (sha256_hex demo ''hello'') 5 mode h))"
    by (rule demo_put)
  from upload_respects_limits [OF demo_totals_inv p] show ?thesis
    using p by (auto simp: stored_of_def mem_has_def demo_limits_def effective_cap_def)
qed

text \<open>C14: when the gates pass, the counters have room and the backend does not fail, an upload of a new
  object is stored and the download of its address that follows returns the same bytes, on the
  in-memory and on the file-system backend.\<close>

theorem upload_then_download:
  assumes "totals_inv (as_store s)" "write_gates (as_store s) did (length bs) = Ok ()"
    and "\<not> blobs_has (as_blobs s) did (sha256_hex X bs)" "quota_gate (as_limits s) (as_store s) did (length bs) = Ok ()"
    and "blobs_reliable (as_blobs s)" "length bs \<le> MAX_OBJECT_BYTES"
    and "rt_receipt_count (ledger_totals (load_receipts (as_store s) did)) < i64_max"
    and "ledger_bytes (as_store s) did + 2 * length bs \<le> i64_max"
  shows "\<exists>s1 s2 mode h. op_put_object X s did key bs = (s1, Ok (Stored (sha256_hex X bs) (length bs) mode h)) \<and>
    op_get_object X s1 did (sha256_hex X bs) = (s2, Ok (Bytes (sha256_hex X bs) bs))"
  using assms by (rule put_then_get)

theorem upload_then_download_witness:
  "\<exists>s1 s2 mode h. op_put_object demo demo_state bob_did ''k'' ''hello'' = (s1, Ok (Stored (sha256_hex demo ''hello'') 5 mode h)) \<and>
     op_get_object demo s1 bob_did (sha256_hex demo ''hello'') = (s2, Ok (Bytes (sha256_hex demo ''hello'') ''hello''))"
proof -
  have "ledger_bytes (as_store demo_state) bob_did = 0" "rt_receipt_count (ledger_totals []) = 0"
    by (simp_all add: ledger_bytes_def ledger_totals_def zero_totals_def)
  moreover have len: "length ''hello'' = 5" by simp
  ultimately show ?thesis
    using upload_then_download [of demo_state bob_did "''hello''" demo "''k''", unfolded len] demo_totals_inv demo_gates demo_quota [of 5 bob_did]
    by (simp add: mem_has_def i64_max_def MAX_OBJECT_BYTES_def)
qed

text \<open>C15: a countersignature is accepted only with a signature over the content hash of a receipt in the tenant's
  ledger that verifies under the submitted key, and only when that key derives the tenant. It replaces that
  one receipt by itself with the tenant's signature added; every other receipt, with its signatures, and
  everything else in the state is as before, so nothing that is metered changes. A bilateral receipt the
  provider issued to the tenant then verifies under every keyring that holds the two keys.\<close>

theorem countersignature_completes_receipt:
  assumes "op_countersign_receipt X N s did h payload = (s', Ok out)"
  shows "\<exists>body key i r. from_slice N de_countersign payload = Some body \<and> public_key_from_hex X (cs_signer body) = Ok key \<and>
    derive_id X key = did \<and> verify_message X key (r_content_hash r) (cs_sig body) \<and> r_content_hash r = h \<and>
    i < length (s_receipt (as_store s)) \<and> s_receipt (as_store s) ! i = (did, r) \<and>
    s' = s\<lparr>as_store := (as_store s)\<lparr>s_receipt :=
      (s_receipt (as_store s))[i := (did, r\<lparr>r_sigs := bt_insert did (cs_sig body) (r_sigs r)\<rparr>)]\<rparr>\<rparr> \<and>
    (\<forall>d. ledger_cores (as_store s') d = ledger_cores (as_store s) d) \<and>
    (\<forall>pv ring. issued_by X pv r \<longrightarrow> r_mode r = Bilateral \<longrightarrow>
       {rc_receiver_id (r_core r), rc_sender_id (r_core r)} = {pv_id pv, did} \<longrightarrow> pv_id pv \<noteq> did \<longrightarrow>
       bt_get ring (pv_id pv) = Some (keypair_verifying_key X (pv_keypair pv)) \<longrightarrow> bt_get ring did = Some key \<longrightarrow>
       verify_bilateral X (r\<lparr>r_sigs := bt_insert did (cs_sig body) (r_sigs r)\<rparr>) ring)"
proof -
  obtain body key i r where b: "from_slice N de_countersign payload = Some body" "public_key_from_hex X (cs_signer body) = Ok key"
    and k: "derive_id X key = did" "verify_message X key h (cs_sig body)"
    and i: "i < length (s_receipt (as_store s))" "s_receipt (as_store s) ! i = (did, r)" "r_content_hash r = h"
    and s': "as_store s' = (as_store s)\<lparr>s_receipt := (s_receipt (as_store s))[i :=
       (did, r\<lparr>r_sigs := bt_insert did (cs_sig body) (r_sigs r)\<rparr>)]\<rparr>"
    by (rule op_countersign_Ok [OF assms])
  have only: "s' = s\<lparr>as_store := as_store s'\<rparr>"
    using assms by (auto simp: op_countersign_receipt_def split: option.splits result.splits if_splits prod.splits)
  have "map (\<lambda>(d, r). (d, r_core r)) (s_receipt (as_store s')) = map (\<lambda>(d, r). (d, r_core r)) (s_receipt (as_store s))"
    using i s' by (simp add: map_update list_update_same_conv)
  then have cores: "ledger_cores (as_store s') d = ledger_cores (as_store s) d" for d by (rule ledger_cores_cong)
  have "verify_bilateral X (r\<lparr>r_sigs := bt_insert did (cs_sig body) (r_sigs r)\<rparr>) ring"
    if "issued_by X pv r" "r_mode r = Bilateral" "{rc_receiver_id (r_core r), rc_sender_id (r_core r)} = {pv_id pv, did}" "pv_id pv \<noteq> did"
      "bt_get ring (pv_id pv) = Some (keypair_verifying_key X (pv_keypair pv))" "bt_get ring did = Some key" for pv ring
    by (rule countersign_completes [where pv = pv and key = key]) (use that k i(3) in auto)
  then show ?thesis using b k i s' only cores by metis
qed

theorem countersignature_completes_receipt_witness:
  "\<exists>s1 s2 h out r key ring. op_put_object demo bilateral_state alice_did ''k'' ''hello'' = (s1, Ok (Stored (sha256_hex demo ''hello'') 5 Bilateral h)) \<and>
     op_countersign_receipt demo (cosign_net h) s1 alice_did h ''countersign'' = (s2, Ok out) \<and>
     s_receipt (as_store s2) = [(alice_did, r)] \<and> derive_id demo key = alice_did \<and>
     bt_get ring alice_did = Some key \<and> verify_bilateral demo r ring"
proof -
  obtain s1 h r where p: "op_put_object demo bilateral_state alice_did ''k'' ''hello'' = (s1, Ok (Stored (sha256_hex demo ''hello'') 5 Bilateral h))"
    and r: "s_receipt (as_store s1) = [(alice_did, r)]" "metered demo bilateral_state s1 Upload alice_did (sha256_hex demo ''hello'') 5 r"
    "r_content_hash r = h" "r_mode r = Bilateral" "h = content_hash demo (r_core r)"
    by (rule bilateral_put)
  obtain s2 out where c: "op_countersign_receipt demo (cosign_net h) s1 alice_did h ''countersign'' = (s2, Ok out)"
    by (rule demo_countersign [OF r(1,3,5)])
  let ?pv = "as_provider demo_state"
  have iss: "issued_by demo ?pv r" "{rc_receiver_id (r_core r), rc_sender_id (r_core r)} = {pv_id ?pv, alice_did}"
    using r(2) boundary_receipt_issued [OF demo_hex_law demo_sign_law demo_provider_key] unfolding metered_def
    by (metis (no_types, lifting) Direction.case(1) bilateral_facts(5) prod.inject)+
  from countersignature_completes_receipt [OF c] obtain key sg where k: "derive_id demo key = alice_did"
    and s2: "s_receipt (as_store s2) = [(alice_did, r\<lparr>r_sigs := bt_insert alice_did sg (r_sigs r)\<rparr>)]"
    and v: "\<And>ring. bt_get ring (pv_id ?pv) = Some (keypair_verifying_key demo (pv_keypair ?pv)) \<Longrightarrow> bt_get ring alice_did = Some key \<Longrightarrow>
      verify_bilateral demo (r\<lparr>r_sigs := bt_insert alice_did sg (r_sigs r)\<rparr>) ring"
    using r(1,4) iss demo_provider_not_alice by auto
  have "bt_get [(pv_id ?pv, keypair_verifying_key demo (pv_keypair ?pv)), (alice_did, key)] alice_did = Some key"
    "bt_get [(pv_id ?pv, keypair_verifying_key demo (pv_keypair ?pv)), (alice_did, key)] (pv_id ?pv) = Some (keypair_verifying_key demo (pv_keypair ?pv))"
    using demo_provider_not_alice by (simp_all add: bt_get_def)
  then show ?thesis using p c s2 k v by blast
qed

section \<open>Assertions, chains, manifests\<close>

text \<open>C16: an accepted write of a setting (any kind but a chain) stores a record for exactly the routed
  tenant, kind and subkey, of a registered kind whose body the kind accepts, authorized by the
  owner's key or by the provider's attestation, with a sequence number above the stored one; the
  record reads back with an acknowledgement that verifies under the provider's attestation key.\<close>

theorem setting_write_is_verified:
  assumes "hex_law X" "sign_law X" "length (kp_signing_key (pv_attest_keypair (as_provider s))) = 32"
    and "op_put_assertion X N s did kind sk body authed = (s', Ok out)" "\<not> is_chain_kind kind"
  shows "\<exists>a f ack. sa_did a = did \<and> sa_kind a = kind \<and> sa_subkey a = sk \<and> kind_fold kind sk (sa_body a) = Ok f \<and>
    assertion_verify X a f (assertion_seq (as_store s) did kind sk) (attest_verifying_key X (as_provider s)) \<and>
    load_assertion (as_store s') did kind sk = Ok (Some (a, ack)) \<and>
    verify_ack X a ack (attest_verifying_key X (as_provider s)) \<and>
    (\<forall>p. assertion_seq (as_store s) did kind sk = Some p \<longrightarrow> p < sa_seq a)"
proof -
  let ?kp = "pv_attest_keypair (as_provider s)"
  obtain a f where t: "sa_did a = did" "sa_kind a = kind" "sa_subkey a = sk" "kind_fold kind sk (sa_body a) = Ok f"
    and v: "assertion_verify X a f (assertion_seq (as_store s) did kind sk) (attest_verifying_key X (as_provider s))"
    and l: "load_assertion (as_store s') did kind sk = Ok (Some (a, make_ack X a ?kp))"
    by (rule put_setting_Ok [OF assms(4,5)])
  have "verify_ack X a (make_ack X a ?kp) (attest_verifying_key X (as_provider s))"
    unfolding attest_verifying_key_def by (rule make_ack_verifies [OF assms(1-3)])
  then show ?thesis using t v l assertion_verify_wf(5) [OF v] by blast
qed

theorem setting_write_is_verified_witness:
  "\<exists>s1 out a ack. op_put_assertion demo (intent_net drawdown_body) demo_state alice_did ACCOUNT_MODE_DIAL_KIND None
       ''intent'' (Some \<lparr>aw_did = alice_did, aw_jti = None\<rparr>) = (s1, Ok out) \<and>
     load_assertion (as_store s1) alice_did ACCOUNT_MODE_DIAL_KIND None = Ok (Some (a, ack)) \<and>
     verify_ack demo a ack (attest_verifying_key demo (as_provider demo_state))"
proof -
  obtain s1 out where w: "op_put_assertion demo (intent_net drawdown_body) demo_state alice_did ACCOUNT_MODE_DIAL_KIND None
     ''intent'' (Some \<lparr>aw_did = alice_did, aw_jti = None\<rparr>) = (s1, Ok out)"
    by (rule demo_setting)
  have "\<not> is_chain_kind ACCOUNT_MODE_DIAL_KIND" by (simp add: is_chain_kind_def dial_spec_def)
  from setting_write_is_verified [OF demo_hex_law demo_sign_law demo_attest_key w this] show ?thesis using w by blast
qed

text \<open>C17: an accepted write to a chain whose sequence number and total fit the database's signed 64-bit columns
  keeps the stored chain recomputable, with every link, sequence number and total checked again from the
  rows, and the recomputed total is the one the written entry claims; a checkpoint under
  compaction-on-acknowledgement keeps it too. A total beyond that range is accepted as well, and then the
  stored row holds the clamped total and not the signed one.\<close>

theorem chain_write_extends_the_chain:
  assumes "op_put_assertion X N s did kind sk body authed = (s', Ok out)" "is_chain_kind kind"
    and "chain_ok X (as_store s) did kind sk"
  shows "\<exists>a step. write_record X N (as_provider s) did kind sk body authed = Ok a \<and> de_chain_step (sa_body a) = Some step \<and>
    (sa_seq a \<le> i64_max \<longrightarrow> step_total step \<le> i64_max \<longrightarrow>
      chain_ok X (as_store s') did kind sk \<and>
      recompute_total X (map fst (chain_entries (as_store s') did kind sk)) = Ok (step_total step)) \<and>
    (\<forall>b. step = Step b \<longrightarrow> cc_total b > i64_max \<longrightarrow>
      (\<exists>row \<in> set (s_chain_entry (as_store s')). u64_or_zero (ch_total row) = i64_max \<and> u64_or_zero (ch_total row) < cc_total b))"
proof -
  obtain a f where w: "write_record X N (as_provider s) did kind sk body authed = Ok a"
    and ap: "append_verified_chain_entry X s did kind sk a (make_ack X a (pv_attest_keypair (as_provider s))) = (s', Ok out)"
    using assms(2) by (rule_tac op_put_assertion_Ok [OF assms(1)]) (auto split: if_splits)
  obtain step where st: "de_chain_step (sa_body a) = Some step"
    using ap by (cases "de_chain_step (sa_body a)") (auto simp: append_verified_chain_entry_def)
  have "\<exists>row \<in> set (s_chain_entry (as_store s')). u64_or_zero (ch_total row) = i64_max \<and> u64_or_zero (ch_total row) < cc_total b"
    if b: "step = Step b" "cc_total b > i64_max" for b
  proof -
    obtain st' where e: "append_chain_entry (as_store s) a (make_ack X a (pv_attest_keypair (as_provider s))) b
        (entry_hash X did kind sk (sa_seq a) b) = (st', Ok ())" "as_store s' = st'"
      using ap st b(1) by (auto simp: append_verified_chain_entry_def Let_def sbind_Ok on_store_Ok)
    then show ?thesis using chain_total_clamped [OF e(1) b(2)] by simp
  qed
  then show ?thesis
    using chain_append_keeps [OF assms(3) write_record_target [OF w] ap st] w st by blast
qed

theorem chain_write_extends_the_chain_witness:
  "\<exists>s1 out. genesis_put = (s1, Ok out) \<and> chain_ok demo (as_store s1) alice_did CHAIN_COUNTER_KIND (Some ''hits'') \<and>
     recompute_total demo (map fst (chain_entries (as_store s1) alice_did CHAIN_COUNTER_KIND (Some ''hits''))) = Ok 3"
proof -
  obtain s1 out where g: "genesis_put = (s1, Ok out)" by (rule demo_chain)
  have k: "is_chain_kind CHAIN_COUNTER_KIND" by (simp add: is_chain_kind_def CHAIN_COUNTER_SPEC_def)
  have rec: "sa_seq a = 1 \<and> sa_body a = genesis_body"
    if "write_record demo (intent_net genesis_body) (as_provider demo_state) alice_did CHAIN_COUNTER_KIND (Some ''hits'') ''intent''
        (Some \<lparr>aw_did = alice_did, aw_jti = None\<rparr>) = Ok a" for a
    using that by (auto simp: write_record_def intent_slice result_bind_Ok attest_provider_def)
  have "chain_ok demo (as_store demo_state) alice_did CHAIN_COUNTER_KIND (Some ''hits'')" by (rule demo_chain_ok)
  from chain_write_extends_the_chain [OF g k this] obtain a step where
    "write_record demo (intent_net genesis_body) (as_provider demo_state) alice_did CHAIN_COUNTER_KIND (Some ''hits'') ''intent''
        (Some \<lparr>aw_did = alice_did, aw_jti = None\<rparr>) = Ok a" "de_chain_step (sa_body a) = Some step"
    "sa_seq a \<le> i64_max \<Longrightarrow> step_total step \<le> i64_max \<Longrightarrow> chain_ok demo (as_store s1) alice_did CHAIN_COUNTER_KIND (Some ''hits'') \<and>
      recompute_total demo (map fst (chain_entries (as_store s1) alice_did CHAIN_COUNTER_KIND (Some ''hits''))) = Ok (step_total step)"
    by blast
  then show ?thesis using g rec by (auto simp: genesis_step step_total_def i64_max_def)
qed

text \<open>C18: compaction succeeds exactly on a chain with a checkpoint, drops the rows behind the newest one and
  nothing else: the rows left are that checkpoint and all that follows it, every other chain and everything
  else in the state is as before, and a refusal changes nothing. The chain that is left recomputes to the
  same total and still passes every check of its links, so the owner's chain read answers with the same
  total before and after.\<close>

theorem compaction_keeps_the_total:
  assumes "chain_ok X (as_store s) did kind sk" "is_chain_kind kind" "op_compact_chain s did kind sk = (s', r)"
  shows "(is_ok r \<longleftrightarrow> (\<exists>c \<in> set (chain_rows (as_store s) did kind sk). ch_is_checkpoint c)) \<and>
    (is_ok r \<longrightarrow> (\<exists>pre cp post. chain_rows (as_store s) did kind sk = pre @ cp # post \<and> ch_is_checkpoint cp \<and>
       list_all (\<lambda>c. \<not> ch_is_checkpoint c) post \<and> r = Ok (ChainCompacted (u64_or_zero (ch_seq cp))) \<and>
       chain_rows (as_store s') did kind sk = cp # post)) \<and>
    (\<not> is_ok r \<longrightarrow> s' = s) \<and>
    (\<forall>d k z. akey d k z \<noteq> akey did kind sk \<longrightarrow> chain_rows (as_store s') d k z = chain_rows (as_store s) d k z) \<and>
    s' = s\<lparr>as_store := (as_store s)\<lparr>s_chain_entry := s_chain_entry (as_store s')\<rparr>\<rparr> \<and>
    chain_ok X (as_store s') did kind sk \<and>
    recompute_total X (map fst (chain_entries (as_store s') did kind sk)) = recompute_total X (map fst (chain_entries (as_store s) did kind sk)) \<and>
    is_ok (op_get_chain X s' did kind sk) = is_ok (op_get_chain X s did kind sk)"
proof -
  obtain st' n where c: "compact_behind_latest_checkpoint (as_store s) did kind sk = (st', n)" by fastforce
  have s': "s' = s\<lparr>as_store := st'\<rparr>" "r = (case n of Some behind \<Rightarrow> Ok (ChainCompacted behind) |
      None \<Rightarrow> Err (ChainBroken ''no acknowledged checkpoint to compact behind''))"
    using assms(2,3) c by (auto simp: op_compact_chain_def split: option.splits)
  have ok: "is_ok r \<longleftrightarrow> n \<noteq> None" using s'(2) by (simp add: is_ok_iff split: option.splits)
  have none: "n \<noteq> None \<longleftrightarrow> (\<exists>c \<in> set (chain_rows (as_store s) did kind sk). ch_is_checkpoint c)" "n = None \<Longrightarrow> st' = as_store s"
    using c by (auto simp: compact_behind_latest_checkpoint_def latest_checkpoint_def filter_empty_conv Let_def split: option.splits if_splits)
  have store: "st' = (as_store s)\<lparr>s_chain_entry := s_chain_entry st'\<rparr>"
    using c by (auto simp: compact_behind_latest_checkpoint_def split: option.splits)
  have other: "chain_rows st' d k z = chain_rows (as_store s) d k z" if "akey d k z \<noteq> akey did kind sk" for d k z
  proof -
    have "filter (\<lambda>x. (ch_did x, ch_kind x, ch_subkey x) = akey d k z) (s_chain_entry st') =
        filter (\<lambda>x. (ch_did x, ch_kind x, ch_subkey x) = akey d k z) (s_chain_entry (as_store s))"
      using c that by (auto simp: compact_behind_latest_checkpoint_def split: option.splits) (rule filter_cong; auto)
    then show ?thesis by (simp add: chain_rows_def)
  qed
  have rows: "\<exists>pre cp post. chain_rows (as_store s) did kind sk = pre @ cp # post \<and> ch_is_checkpoint cp \<and>
       list_all (\<lambda>c. \<not> ch_is_checkpoint c) post \<and> r = Ok (ChainCompacted (u64_or_zero (ch_seq cp))) \<and>
       chain_rows (as_store s') did kind sk = cp # post" if "n = Some m" for m
    by (rule compact_rows [OF conjunct1 [OF assms(1) [unfolded chain_ok_def]] c [unfolded that]]) (use s' that in auto)
  have keep: "chain_ok X st' did kind sk"
    "recompute_total X (map fst (chain_entries st' did kind sk)) = recompute_total X (map fst (chain_entries (as_store s) did kind sk))"
    using chain_ok_compact [OF assms(1)] c by auto
  then have "is_ok (op_get_chain X s' did kind sk) = is_ok (op_get_chain X s did kind sk)"
    using s'(1) by (auto simp: op_get_chain_def Let_def is_ok_iff result_bind_Ok)
  then show ?thesis using ok none store other rows keep s'(1) by auto
qed

theorem compaction_keeps_the_total_witness:
  "\<exists>s'. op_compact_chain closed_state alice_did CHAIN_COUNTER_KIND (Some ''hits'') = (s', Ok (ChainCompacted 2)) \<and>
     hits_rows (as_store closed_state) = [step_row, close_row] \<and> hits_rows (as_store s') = [close_row] \<and>
     recompute_total demo (map fst (chain_entries (as_store s') alice_did CHAIN_COUNTER_KIND (Some ''hits''))) =
     recompute_total demo (map fst (chain_entries (as_store closed_state) alice_did CHAIN_COUNTER_KIND (Some ''hits'')))"
proof -
  have k: "is_chain_kind CHAIN_COUNTER_KIND" by (simp add: is_chain_kind_def CHAIN_COUNTER_SPEC_def)
  have cp: "\<not> ch_is_checkpoint step_row" "ch_is_checkpoint close_row" by (simp_all add: step_row_def close_row_def)
  obtain s' where c: "op_compact_chain closed_state alice_did CHAIN_COUNTER_KIND (Some ''hits'') = (s', Ok (ChainCompacted 2))"
    using closed_compacts by blast
  note C = compaction_keeps_the_total [OF closed_chain_ok k c]
  obtain pre row post where r: "[step_row, close_row] = pre @ row # post" "ch_is_checkpoint row"
    "hits_rows (as_store s') = row # post"
    using C closed_rows by (auto simp: is_ok_iff)
  have "row = close_row" "post = []" using r(1,2) cp(1) by (auto simp: Cons_eq_append_conv)
  then show ?thesis using C c r(3) closed_rows by blast
qed

text \<open>C19: two chains that recompute from genesis and end in the same entry hash are the same chain, entry
  by entry, unless the digest collides on their texts or hits the genesis marker: no entry can be
  altered, dropped, inserted or reordered behind a known head.\<close>

theorem chain_is_tamper_evident:
  assumes "whole_chain X xs" "whole_chain X ys" "\<And>e. e \<in> set xs \<union> set ys \<Longrightarrow> entry_wf e"
    and "inj_on (sha256_hex X) (entry_text ` (set xs \<union> set ys))"
    and "GENESIS_PREV_HASH \<notin> head_hash X ` (set xs \<union> set ys)"
    and "head_of (head_hash X) GENESIS_PREV_HASH xs = head_of (head_hash X) GENESIS_PREV_HASH ys"
  shows "xs = ys"
  using counter_chain.tamper_evident [OF assms(1,2,6) _ assms(5)] head_hash_inj_on [OF assms(4,3)]
  by (simp add: commits_id)

theorem chain_is_tamper_evident_witness:
  "whole_chain demo [demo_entry] \<and> entry_wf demo_entry \<and> head_hash demo demo_entry \<noteq> GENESIS_PREV_HASH \<and> [demo_entry] = [demo_entry]"
proof -
  have w: "whole_chain demo [demo_entry]" "entry_wf demo_entry"
    by (simp_all add: whole_chain_def recompute_total_def recompute_loop_Cons check_entry_def verify_step_def
        demo_entry_def entry_wf_def advance_def step_total_def is_checkpoint_def)
  then show ?thesis using chain_is_tamper_evident [OF w(1) w(1)] demo_entry_hash by auto
qed

text \<open>C20: an accepted manifest was signed by the key that derives the tenant, names it as signer, has a
  strictly newer sequence number than the stored one, distinct valid leaves, the root and the total
  of its leaves (at most the object limit per leaf), and in drawdown declares no more bytes than
  before; it is what a read of the manifest then finds.\<close>

theorem manifest_write_is_verified:
  assumes "op_put_manifest X N s did pk body = (s', Ok out)"
  shows "\<exists>m key. from_slice N de_manifest body = Some m \<and> public_key_from_hex X pk = Ok key \<and> derive_id X key = did \<and>
    m_signer_id m = did \<and> load_manifest (as_store s') did = Some m \<and> out = ManifestSaved (m_root m) (m_total_bytes m) \<and>
    list_all leaf_is_valid (m_leaves m) \<and> distinct (map ml_cid (m_leaves m)) \<and> merkle_root X (m_leaves m) = m_root m \<and>
    m_total_bytes m = sum_list (map ml_size (m_leaves m)) \<and> m_total_bytes m \<le> length (m_leaves m) * MAX_OBJECT_BYTES \<and>
    verify_message X key (manifest_text X m) (m_signature m) \<and>
    (\<forall>old. load_manifest (as_store s) did = Some old \<longrightarrow> m_seq old < m_seq m \<and>
       (account_mode (as_store s) did = Drawdown \<longrightarrow> m_total_bytes m \<le> m_total_bytes old))"
proof -
  obtain m key where m: "from_slice N de_manifest body = Some m" "public_key_from_hex X pk = Ok key"
    "derive_id X key = did" "m_signer_id m = did" "manifest_verify X m key = Ok True"
    "\<And>old. load_manifest (as_store s) did = Some old \<Longrightarrow> m_seq old < m_seq m"
    "account_mode (as_store s) did = Drawdown \<Longrightarrow>
       m_total_bytes m \<le> (case load_manifest (as_store s) did of None \<Rightarrow> 0 | Some old \<Rightarrow> m_total_bytes old)"
    "as_store s' = save_manifest (as_store s) did m" "out = ManifestSaved (m_root m) (m_total_bytes m)"
    by (rule op_put_manifest_Ok [OF assms], rule that)
  have "load_manifest (as_store s') did = Some m" using m(8) by (simp add: load_manifest_def save_manifest_def update_conv)
  moreover note v = m(5) [unfolded manifest_verify_True] verified_total_bound [OF m(5)] verified_signature [OF m(5)]
  ultimately show ?thesis
    using m v by (intro exI [of _ m] exI [of _ key]) auto
qed

theorem manifest_write_is_verified_witness:
  "\<exists>s1 out. op_put_manifest demo (manifest_net signed_manifest) demo_state alice_did (public_key_hex demo alice) ''manifest'' = (s1, Ok out) \<and>
     load_manifest (as_store s1) alice_did = Some signed_manifest"
proof -
  obtain s1 out where p: "op_put_manifest demo (manifest_net signed_manifest) demo_state alice_did (public_key_hex demo alice) ''manifest'' = (s1, Ok out)"
    by (rule demo_manifest_put)
  from manifest_write_is_verified [OF p] show ?thesis using p by (auto simp: manifest_slice)
qed

text \<open>An erasure that succeeds erased a flag that was there, and only it: the flag no longer reads
  back, and every other assertion, policy, dial and chain entry of every tenant stands.\<close>

theorem only_flags_are_erased:
  assumes "op_delete_assertion s did kind sk = (s', Ok out)"
  shows "kind = FLAG_KIND \<and> assertion_seq (as_store s) did kind sk \<noteq> None \<and> load_assertion (as_store s') did kind sk = Ok None \<and>
    (\<forall>d k z. akey d k z \<noteq> akey did kind sk \<longrightarrow> load_assertion (as_store s') d k z = load_assertion (as_store s) d k z) \<and>
    s_chain_entry (as_store s') = s_chain_entry (as_store s)"
  using op_delete_Ok [OF assms] by blast

theorem only_flags_are_erased_witness:
  "load_assertion (as_store (fst (op_delete_assertion flag_state alice_did FLAG_KIND (Some ''f'')))) alice_did FLAG_KIND (Some ''f'') = Ok None"
proof -
  have "op_delete_assertion flag_state alice_did FLAG_KIND (Some ''f'') =
      (fst (op_delete_assertion flag_state alice_did FLAG_KIND (Some ''f'')), Ok AssertionErased)"
    by (simp add: op_delete_assertion_def delete_assertion_def flag_state_def FLAG_SPEC_def Let_def)
  from only_flags_are_erased [OF this] show ?thesis by simp
qed

section \<open>Authentication\<close>

text \<open>C21: a signed session authenticates exactly the identifier derived from a key whose holder signed
  that identifier's challenge: nothing else in the headers makes a request act for an \<open>id:\<close> owner.\<close>

theorem session_proves_key_possession:
  "authenticate X headers = Authenticated did \<longleftrightarrow>
     (\<exists>pk sg key. headers PUBKEY_HEADER = Some pk \<and> headers SESSION_HEADER = Some sg \<and>
        public_key_from_hex X pk = Ok key \<and> derive_id X key = did \<and>
        verify_message X key (SESSION_CHALLENGE_PREFIX @ did) sg)"
  by (rule authenticate_iff)

text \<open>C22: a service token authenticates a \<open>did:\<close> only when a key resolved for that DID verified its
  signature, and the token names the DID as issuer, this service as audience and the called method,
  and is not expired; a token with an identifier is recorded before the request goes on, and an
  \<open>id:\<close> identifier never authenticates this way.\<close>

theorem service_token_proves_issuer:
  assumes "verify_service_auth_full N resolve aud now g jwt lxm = (g', Authenticated did, j)"
  shows "\<exists>fresh k c. resolve did fresh = Some k \<and> token_proves N jwt k did aud lxm now c \<and>
    did_space (Did did) = AtprotoSpace \<and> j = c_jti c \<and>
    (case c_jti c of None \<Rightarrow> g' = g | Some jti \<Rightarrow> (jti, c_exp c) \<in> set g' \<and> (\<forall>e. (jti, e) \<in> set g \<longrightarrow> e \<le> now))"
proof -
  obtain fresh k c where f: "resolve did fresh = Some k" "token_proves N jwt k did aud lxm now c"
    "did_space (Did did) = AtprotoSpace" "j = c_jti c"
    and g: "case c_jti c of None \<Rightarrow> g' = g | Some jti \<Rightarrow> check_and_record g jti (c_exp c) now = (g', Ok ())"
    by (rule service_auth_granted [OF assms])
  have "case c_jti c of None \<Rightarrow> g' = g | Some jti \<Rightarrow> (jti, c_exp c) \<in> set g' \<and> (\<forall>e. (jti, e) \<in> set g \<longrightarrow> e \<le> now)"
    using g check_and_record_Ok by (cases "c_jti c") auto
  then show ?thesis using f by blast
qed

theorem service_token_proves_issuer_witness:
  "verify_service_auth_full token_net demo_resolve ''did:web:ciss.example'' 50 [] ''h.p.s'' ''lxm'' =
     ([(''j1'', 100)], Authenticated bob_did, Some ''j1'') \<and> did_space (Did bob_did) = AtprotoSpace"
  using service_token_proves_issuer [OF demo_token_granted] demo_token_granted by blast

text \<open>C23: a token that carries an identifier is granted once: after a grant, in any later sequence of
  authentications in the order of the clock, interleaved with any other tokens, the same token is
  refused, both while it is valid (the guard still holds it) and after it has expired.\<close>

theorem token_is_granted_once:
  assumes "verify_service_auth_full N resolve aud t g jwt lxm = (g', Authenticated did, Some jti)"
    and "sorted (map fst rs)" "i < length rs" "rs ! i = (now, resolve', jwt, lxm')"
  shows "fst (auth_run N aud g' rs ! i) = Anonymous"
proof -
  obtain k c where c: "token_proves N jwt k did aud lxm t c" "Some jti = c_jti c"
    and g: "case c_jti c of None \<Rightarrow> g' = g | Some jti \<Rightarrow> check_and_record g jti (c_exp c) t = (g', Ok ())"
    by (rule service_auth_granted [OF assms(1)])
  have "(jti, c_exp c) \<in> set g'" using g c(2) [symmetric] check_and_record_Ok(1) by simp
  then show ?thesis using run_refuses [OF c(1) c(2) [symmetric]] assms(2-) by blast
qed

theorem token_is_granted_once_witness:
  "fst (auth_run token_net ''did:web:ciss.example'' [(''j1'', 100)] [(60, demo_resolve, ''h.p.s'', ''lxm'')] ! 0) = Anonymous"
  using token_is_granted_once [OF demo_token_granted, of "[(60, demo_resolve, ''h.p.s'', ''lxm'')]" 0 60 demo_resolve "''lxm''"]
  by simp

text \<open>C24: with the resolver a server builds, and whatever calls it answered before, a service token
  authenticates a \<open>did:\<close> only under the key an administrator pinned for it, and where there is no pin only
  under the signing key (the first \<^verbatim>\<open>#atproto\<close> method) of a document for that very DID, read from the DID's own URL; the layers
  of cache, timeout and refresh never let another DID's key through.\<close>

theorem token_key_is_pinned_or_published:
  assumes "verify_service_auth_full N (resolver_view N fetch cfg t1 t2 (resolver_after N fetch cfg s calls)) aud now g jwt lxm =
      (g', Authenticated did, j)"
  shows "\<exists>k c. token_proves N jwt k did aud lxm now c \<and>
    (case map_of (rc_admin_pins cfg) did of
       Some pin \<Rightarrow> k = pin
     | None \<Rightarrow> \<exists>url s1 s2 body doc m. doc_url (rc_plc_url cfg) did = Ok url \<and> fetch s1 url = (s2, Some (Ok body)) \<and>
         from_slice N de_did_document body = Some doc \<and> dd_id doc = did \<and>
         find (\<lambda>m. ends_with ''#atproto'' (vm_id m)) (dd_verification_method doc) = Some m \<and> vm_key_type m = ''Multikey'' \<and>
         k = ''did:key:'' @ vm_public_key_multibase m)"
proof -
  obtain k c where k: "token_proves N jwt k did aud lxm now c" "pinned_speaks (published N fetch (rc_plc_url cfg)) (rc_admin_pins cfg) did k"
    by (rule granted_key [OF assms resolver_after_good])
  show ?thesis
  proof (cases "map_of (rc_admin_pins cfg) did")
    case None
    then obtain url s1 s2 body doc where d: "doc_url (rc_plc_url cfg) did = Ok url" "fetch s1 url = (s2, Some (Ok body))"
      "from_slice N de_did_document body = Some doc" "signing_key_from_doc did doc = Ok k"
      using k(2) by (auto simp: pinned_speaks_def published_def)
    then show ?thesis using None k(1) signing_key_from_doc_Ok [OF d(4)] by (simp, blast)
  qed (use k in \<open>auto simp: pinned_speaks_def\<close>)
qed

theorem token_key_is_pinned_or_published_witness:
  "\<exists>c. token_proves token_net ''h.p.s'' (''did:key:'' @ [CHR 0xE7, CHR 0x01] @ ''s'') bob_did ''did:web:ciss.example'' ''lxm'' 50 c"
  using token_key_is_pinned_or_published [of token_net bad_fetch bob_config 0 0 "()" "[(0, ''did:plc:carol'', False)]", OF pinned_token_granted]
  by (simp add: bob_config_def)

section \<open>Failure\<close>

text \<open>C25: a request that fails inside the server (an error of the database, of the backend, of the JSON writer, of
  the configuration or the seed, stored bytes that do not hash to their address, a byte count the backend
  does not confirm, a worker that failed) is answered with status 500 and the fixed body
  \<^verbatim>\<open>internal error\<close>, whatever the texts of the errors are. The panic of an operation becomes such a failure, and
  not a lost connection.\<close>

theorem internal_errors_are_opaque:
  assumes "run_route X N s q rt = (s', Err e)"
    and "(\<exists>p. e = SePersist p) \<or> (\<exists>b. e = SeBlob b) \<or> (\<exists>cid actual. e = Tampered cid actual) \<or>
      (\<exists>m n. e = ByteCountMismatch m n) \<or> e \<in> {SeJson, BadConfig, ProviderSeedMissing, TaskJoin}"
  shows "serve X N display s q rt = (s', Some \<lparr>rs_status = 500, rs_headers = [], rs_body = ''internal error''\<rparr>) \<and>
    (dispatch X N micros t who oper = (t', Panic) \<longrightarrow> dispatch_blocking X N micros t who oper = (t', Err TaskJoin)) \<and>
    snd (dispatch_blocking X N micros t who oper) \<noteq> Panic"
proof -
  have "error_status e = 500" "e \<noteq> StoreFull" "e \<noteq> DidQuotaExceeded" using assms(2) by auto
  then have "serve X N display s q rt = (s', Some \<lparr>rs_status = 500, rs_headers = [], rs_body = ''internal error''\<rparr>)"
    using assms(1) by (simp add: serve_def respond_def error_response_def Let_def)
  moreover have "snd (dispatch_blocking X N micros t who oper) \<noteq> Panic"
    by (simp add: dispatch_blocking_def split: prod.splits result.splits)
  moreover have "dispatch_blocking X N micros t who oper = (t', Err TaskJoin)" if "dispatch X N micros t who oper = (t', Panic)"
    using that by (simp add: dispatch_blocking_def)
  ultimately show ?thesis by simp
qed

theorem internal_errors_are_opaque_witness:
  "serve demo (demo_net (\<lambda>_. None)) (\<lambda>_. ''disk path'') full_state demo_request (RtGetMeter alice_did) =
     (fst (run_route demo (demo_net (\<lambda>_. None)) full_state demo_request (RtGetMeter alice_did)),
      Some \<lparr>rs_status = 500, rs_headers = [], rs_body = ''internal error''\<rparr>)"
  by (rule internal_errors_are_opaque [OF full_state_fails, THEN conjunct1]) simp

text \<open>C26: under systemd the provider's keys come from the credential or the environment or the server
  does not start; it never runs on a random key there. The database is given the public key and
  never the seed.\<close>

theorem production_key_is_never_ephemeral:
  assumes "with_provider_from_secret X (resolve_provider_seed X credential env True random_bytes) b st limits service_did = Ok s"
  shows "\<exists>seed. seed \<noteq> [] \<and> (map_option trim (case credential of Ok c \<Rightarrow> c | _ \<Rightarrow> None) = Some seed \<or> env = Some seed) \<and>
    as_provider s = provider_from_seed X seed \<and>
    as_store s = persist_limits (put_meta st ''provider_pubkey'' (public_key_hex X (pv_keypair (provider_from_seed X seed)))) limits"
proof -
  obtain seed where sd: "resolve_provider_seed X credential env True random_bytes = Ok seed"
    and s: "s = assemble (provider_from_seed X seed) b
      (persist_limits (put_meta st ''provider_pubkey'' (public_key_hex X (pv_keypair (provider_from_seed X seed)))) limits) limits service_did"
    using assms by (auto simp: with_provider_from_secret_def result_bind_Ok Let_def)
  obtain c where c: "credential = Ok c" and d: "(case decide_seed (map_option trim c) env True of UseSeed x \<Rightarrow> Ok x
      | FailClosed \<Rightarrow> Err ProviderSeedMissing
      | GenerateEphemeral \<Rightarrow> (case random_bytes of None \<Rightarrow> Err BadConfig | Some bs \<Rightarrow> Ok (hex_encode X bs))) = Ok seed"
    using sd by (auto simp: resolve_provider_seed_def result_bind_Ok)
  have "decide_seed (map_option trim c) env True \<noteq> GenerateEphemeral"
    by (simp add: decide_seed_def split: option.splits list.splits)
  then have u: "decide_seed (map_option trim c) env True = UseSeed seed"
    using d by (cases "decide_seed (map_option trim c) env True") auto
  have "seed \<noteq> [] \<and> (map_option trim c = Some seed \<or> env = Some seed)"
    using u by (auto simp: decide_seed_def split: option.splits list.splits)
  then show ?thesis using s c by (intro exI [of _ seed]) (auto simp: assemble_def)
qed

theorem production_key_is_never_ephemeral_witness:
  "\<exists>s. with_provider_from_secret demo (resolve_provider_seed demo (Ok (Some ''secret'')) None True None)
        (MemoryBlobs (\<lambda>_. None)) open_in_memory demo_limits ''did:web:ciss.example'' = Ok s \<and>
     as_provider s = provider_from_seed demo ''secret''"
proof -
  let ?w = "with_provider_from_secret demo (resolve_provider_seed demo (Ok (Some ''secret'')) None True None)
        (MemoryBlobs (\<lambda>_. None)) open_in_memory demo_limits ''did:web:ciss.example''"
  have t: "trim ''secret'' = ''secret''" by (simp add: trim_def is_space_def)
  then obtain s where s: "?w = Ok s"
    by (auto simp: with_provider_from_secret_def resolve_provider_seed_def decide_seed_def Let_def)
  from production_key_is_never_ephemeral [OF s] show ?thesis using s t by auto
qed

section \<open>What signatures and digests commit to\<close>

text \<open>C27: the canonical text of two JSON values is the same exactly when the values are, up to the order
  of object members: what is hashed and signed over the canonical text determines the value. The values
  are those of \<^verbatim>\<open>serde_json::Value\<close>: objects with distinct keys at every level, integers, and finite floats, each
  with its own text.\<close>

theorem canonical_json_is_injective:
  assumes "text_law X" "jwf a" "jwf b"
  shows "(canonical_string (scalar_text X) a = canonical_string (scalar_text X) b \<longleftrightarrow> jnorm a = jnorm b) \<and>
    (to_canonical_bytes X a = to_canonical_bytes X b \<longleftrightarrow> jnorm a = jnorm b)"
  using canonical_string_inject [OF assms] by (simp add: to_canonical_bytes_def)

theorem canonical_json_is_injective_witness:
  "canonical_string demo_scalar (JObj [(''b'', JFloat ''1.5''), (''a'', JStr ''x'')]) =
     canonical_string demo_scalar (JObj [(''a'', JStr ''x''), (''b'', JFloat ''1.5'')]) \<and>
   canonical_string demo_scalar (JObj [(''b'', JFloat ''1.5'')]) \<noteq> canonical_string demo_scalar (JObj [(''b'', JInt 1)])"
proof -
  have f: "float_text ''1.5''" by (simp add: float_text_def float_char_def is_digit_def)
  show ?thesis
    using canonical_json_is_injective [OF demo_text_law, of "JObj [(''b'', JFloat ''1.5''), (''a'', JStr ''x'')]"
        "JObj [(''a'', JStr ''x''), (''b'', JFloat ''1.5'')]"]
      canonical_json_is_injective [OF demo_text_law, of "JObj [(''b'', JFloat ''1.5'')]" "JObj [(''b'', JInt 1)]"] f
    by (simp add: list_le_def list_less_def less_char_def)
qed

text \<open>One owner signature accepted for two policy records forces the same owner, kind, subkey,
  sequence number, read class and set of readers: a signed grant cannot be replayed for another
  object, rolled to another number or read as a wider grant.\<close>

theorem policy_signature_binds:
  assumes "assertion_verify X r (policy_body_fold a) p pk" "assertion_verify X s (policy_body_fold b) q pk"
    and "sa_authorization r = AuthOwnerSigned ow" "sa_authorization s = AuthOwnerSigned ow"
    and "policy_body_valid a" "policy_body_valid b"
    and "\<And>vk. public_key_from_hex X (os_signer ow) = Ok vk \<Longrightarrow> binding_on X vk
      {record_preimage (sa_kind r) (sa_did r) (sa_subkey r) (sa_seq r) (policy_body_fold a),
       record_preimage (sa_kind s) (sa_did s) (sa_subkey s) (sa_seq s) (policy_body_fold b)}"
  shows "sa_did r = sa_did s \<and> sa_kind r = sa_kind s \<and> sa_subkey r = sa_subkey s \<and> sa_seq r = sa_seq s \<and>
    allows (from_body a) = allows (from_body b)"
proof -
  have "sa_did r = sa_did s \<and> sa_kind r = sa_kind s \<and> sa_subkey r = sa_subkey s \<and> sa_seq r = sa_seq s \<and> same_policy a b"
    using assms by (rule policy_kind.owner_signature_binds)
  then show ?thesis using same_policy_allows by blast
qed

theorem policy_signature_binds_witness:
  "sa_seq (demo_policy 4) = 4 \<and> allows (from_body \<lparr>pb_read_class = OwnerOnly, pb_readers = []\<rparr>) = allows (from_body demo_policy_body)"
proof -
  have v: "assertion_verify demo (demo_policy 4) (policy_body_fold demo_policy_body) None pk" for pk
    unfolding demo_policy_def alice_did_def
    by (rule sign_owner_verifies [OF demo_laws(1-4) alice_key]) (simp_all add: POLICY_KIND_def subkey_well_formed_def)
  have ow: "\<exists>ow. sa_authorization (demo_policy 4) = AuthOwnerSigned ow" by (simp add: demo_policy_def sign_owner_def)
  have "policy_body_valid demo_policy_body" by (simp add: policy_body_valid_def demo_policy_body_def)
  then show ?thesis
    using policy_signature_binds [OF v v] ow by (auto simp: binding_on_def demo_policy_def sign_owner_def demo_policy_body_def)
qed

text \<open>The root of a manifest commits to its leaves: lists of valid leaves with the same root hold the
  same leaves, each with its address and size, unless the digest collides on the texts hashed on the
  way; leaves with distinct addresses have the same root in any order.\<close>

theorem merkle_root_commits:
  assumes "hex_law X" "inj_on (sha256_hex X) (root_texts X xs \<union> root_texts X ys)"
    and "\<And>l. l \<in> set xs \<union> set ys \<Longrightarrow> leaf_is_valid l" "distinct (map ml_cid xs)"
  shows "merkle_root X xs = merkle_root X ys \<longleftrightarrow> mset xs = mset ys"
proof
  assume "merkle_root X xs = merkle_root X ys"
  with merkle_root_inject [OF assms(1,2)] assms(3) have "sort_key ml_cid xs = sort_key ml_cid ys" by blast
  then show "mset xs = mset ys" by (metis mset_sort)
next
  assume "mset xs = mset ys"
  then show "merkle_root X xs = merkle_root X ys"
    by (rule merkle_root_perm) (simp add: has_duplicate_cids_iff assms(4))
qed

theorem merkle_root_commits_witness:
  "leaf_is_valid (demo_leaf 3) \<and> (merkle_root demo [demo_leaf 3] = merkle_root demo [demo_leaf 3] \<longleftrightarrow> mset [demo_leaf 3] = mset [demo_leaf 3])"
  using merkle_root_commits [OF demo_hex_law, of "[demo_leaf 3]" "[demo_leaf 3]"] demo_leaf_facts by simp

text \<open>C28: when one signature is accepted for two manifests under the same key, they have the same root, leaves (as a
  multiset), total, sequence number, signer and digest of device heads, unless the digest collides on the
  texts hashed for their roots or the key accepts one signature for two different texts. And the manifest
  the library builds from valid leaves with distinct addresses is accepted under the builder's key, with the
  leaves, the total, the sequence number, the signer and the heads it was given.\<close>

theorem signed_manifest_binds:
  assumes "hex_law X" "sign_law X"
  shows "(manifest_verify X m vk = Ok True \<longrightarrow> manifest_verify X m' vk = Ok True \<longrightarrow> m_signature m = m_signature m' \<longrightarrow>
      binding_on X vk {manifest_text X m, manifest_text X m'} \<longrightarrow>
      inj_on (sha256_hex X) (root_texts X (m_leaves m) \<union> root_texts X (m_leaves m')) \<longrightarrow>
      m_root m = m_root m' \<and> mset (m_leaves m) = mset (m_leaves m') \<and> m_total_bytes m = m_total_bytes m' \<and> m_seq m = m_seq m' \<and>
      m_signer_id m = m_signer_id m' \<and> heads_digest X (m_heads m) = heads_digest X (m_heads m')) \<and>
    (length (kp_signing_key kp) = 32 \<longrightarrow> list_all leaf_is_valid items \<longrightarrow> distinct (map ml_cid items) \<longrightarrow>
      sum_list (map ml_size items) \<le> u64_max \<longrightarrow>
      (\<exists>b. build_signed X items cust kp seq heads = Ok b \<and> manifest_verify X b (keypair_verifying_key X kp) = Ok True \<and>
        mset (m_leaves b) = mset items \<and> m_total_bytes b = sum_list (map ml_size items) \<and> m_seq b = seq \<and>
        m_signer_id b = cust \<and> m_heads b = heads))"
  using manifest_signature_binds [OF assms(1), of m vk m'] build_signed_verifies [OF assms, of kp items cust seq heads] by metis

theorem signed_manifest_binds_witness:
  "\<exists>m m'. build_signed demo two_leaves alice_did alice 1 None = Ok m \<and> m \<noteq> m' \<and>
     manifest_verify demo m (keypair_verifying_key demo alice) = Ok True \<and>
     manifest_verify demo m' (keypair_verifying_key demo alice) = Ok True \<and> m_signature m = m_signature m' \<and>
     m_root m = m_root m' \<and> m_total_bytes m' = 36 \<and> mset (m_leaves m') = mset two_leaves"
proof -
  note law = signed_manifest_binds [OF demo_hex_law demo_sign_law]
  obtain m where m: "build_signed demo two_leaves alice_did alice 1 None = Ok m"
    and v: "manifest_verify demo m (keypair_verifying_key demo alice) = Ok True"
    and f: "mset (m_leaves m) = mset two_leaves" "m_total_bytes m = 36"
    using law [THEN conjunct2, of alice two_leaves alice_did 1 None] alice_key two_leaves_facts by (auto simp: u64_max_def)
  let ?m = "m\<lparr>m_leaves := rev (m_leaves m)\<rparr>"
  have l: "m_leaves m = two_leaves"
    using m two_leaves_facts(4) by (auto simp: build_signed_def Let_def split: result.splits)
  have v': "manifest_verify demo ?m (keypair_verifying_key demo alice) = Ok True"
    by (rule manifest_verify_rev [OF v])
  have "root_texts demo (m_leaves ?m) = root_texts demo (m_leaves m)" "manifest_text demo ?m = manifest_text demo m"
    using sort_two_leaves two_leaves_facts(4) by (simp_all add: root_texts_def l manifest_text_def)
  then have "m_root m = m_root ?m \<and> m_total_bytes m = m_total_bytes ?m"
    using law [THEN conjunct1, of m "keypair_verifying_key demo alice" ?m] v v' two_leaves_texts l by (simp add: binding_on_def)
  moreover have "m \<noteq> ?m" using l two_leaves_facts(5) by (metis Manifest.select_convs(1) Manifest.surjective Manifest.update_convs(1))
  ultimately show ?thesis using m v v' f by (intro exI [of _ m] exI [of _ ?m]) simp
qed

text \<open>The ledger verifier reports no issue exactly when every entry has its index as sequence number,
  its predecessor's hash, the hash of its own content and at least one signature, all valid under
  the keyring; an append by pinned signers to a clean ledger leaves it clean.\<close>

theorem ledger_verification_is_complete:
  assumes "hex_law X" "sign_law X" "signers \<noteq> []" "\<And>s. s \<in> set signers \<Longrightarrow> pinned X ring s"
  shows "(verify_entries X es ring = [] \<longleftrightarrow>
      (\<forall>j < length es. sound_entry X ring j (head_of le_hash GENESIS_PREV (take j es)) (es ! j))) \<and>
    (verify_entries X (lg_entries l) ring = [] \<longrightarrow>
      verify_entries X (lg_entries (ledger_append X l kind ts body signers)) ring = [])"
  using verify_entries_complete ledger_append_valid [OF assms(1,2) _ assms(3,4)] by blast

theorem ledger_verification_is_complete_witness:
  "verify_entries demo (lg_entries (ledger_append demo (ledger_new ''o'') ''k'' ''t'' JNull [\<lparr>sg_actor_id = ''a'', sg_keypair = alice\<rparr>]))
     [(''a'', keypair_verifying_key demo alice)] = []"
proof -
  have "pinned demo [(''a'', keypair_verifying_key demo alice)] \<lparr>sg_actor_id = ''a'', sg_keypair = alice\<rparr>"
    by (simp add: pinned_def alice_key bt_get_def)
  then show ?thesis
    using ledger_verification_is_complete [OF demo_hex_law demo_sign_law,
        of "[\<lparr>sg_actor_id = ''a'', sg_keypair = alice\<rparr>]" "[(''a'', keypair_verifying_key demo alice)]" "[]" "ledger_new ''o''" "''k''" "''t''" JNull]
    by (simp add: ledger_new_def verify_entries_def)
qed

text \<open>Two chains of statements that verify and end in the same hash are equal, statement by
  statement, unless the digest collides on their canonical texts or hits the genesis marker: no
  settled period can be edited, dropped or reordered under a known last hash.\<close>

theorem statements_are_tamper_evident:
  assumes "text_law X" "verify_chain X xs = ChainOk" "verify_chain X ys = ChainOk"
    and "inj_on (sha256_hex X) ((\<lambda>s. to_canonical_bytes X (statement_json (st_body s))) ` (set xs \<union> set ys))"
    and "GENESIS_STATEMENT \<notin> st_hash ` (set xs \<union> set ys)"
    and "head_of st_hash GENESIS_STATEMENT xs = head_of st_hash GENESIS_STATEMENT ys"
  shows "xs = ys"
  using statement_chain.tamper_evident [OF assms(2,3,6) statement_commits [OF assms(1-4)] assms(5)] by simp

theorem statements_are_tamper_evident_witness:
  "verify_chain demo [build_statement demo demo_statement] = ChainOk \<and>
     [build_statement demo demo_statement] = [build_statement demo demo_statement]"
proof -
  have v: "verify_chain demo [build_statement demo demo_statement] = ChainOk"
    by (simp add: verify_chain_def build_statement_def demo_statement_def)
  show ?thesis
    using statements_are_tamper_evident [OF demo_text_law v v] demo_statement_hash v by auto
qed

section \<open>Boundaries and backends\<close>

text \<open>C29: an identifier the boundary accepts is a single path component with nothing to escape: no
  separator, quote, backslash, comma, bar, space or control character, and no byte outside printable
  ASCII; a content address is 64 lower-case hex digits, and every digest and every derived identifier
  is accepted.\<close>

theorem boundary_identifiers_are_safe:
  assumes "hex_law X" "digest_law X"
  shows "(did_parse raw = Ok d \<longrightarrow> d = Did raw \<and> raw \<noteq> [] \<and> length raw \<le> MAX_DID_LEN \<and> (\<forall>c \<in> set raw. \<not> unsafe_char c)) \<and>
    (content_addr_parse raw = Ok a \<longleftrightarrow> a = ContentAddr raw \<and> length raw = 64 \<and> set raw \<subseteq> set ''0123456789abcdef'') \<and>
    did_parse (derive_id X vk) = Ok (Did (derive_id X vk)) \<and>
    content_addr_parse (sha256_hex X bs) = Ok (ContentAddr (sha256_hex X bs))"
  using did_parse_derive_id(1) [OF assms] content_addr_sha256 [OF assms] is_valid_did_safe
  by (auto simp: did_parse_Ok content_addr_parse_Ok is_lower_hex_digits)

theorem boundary_identifiers_are_safe_witness:
  "did_parse bob_did = Ok (Did bob_did) \<and> CHR ''/'' \<notin> set bob_did \<and> did_parse alice_did = Ok (Did alice_did)"
  using boundary_identifiers_are_safe [OF demo_hex_law demo_digest_law, of bob_did "Did bob_did"] bob_parses(1) alice_parses
  by (auto simp: unsafe_char_def)



text \<open>C31: what the server stores and returns as JSON reads back as the same value: a manifest and a signed
  assertion survive serialization and strict deserialization unchanged, with their optional fields.\<close>

theorem wire_formats_round_trip:
  assumes "manifest_wf m" "assertion_wf a"
  shows "de_manifest (manifest_json m) = Some m \<and> de_signed_assertion (assertion_json a) = Some a"
  using de_manifest_json [OF assms(1)] de_signed_assertion_json [OF assms(2)] by blast

theorem wire_formats_round_trip_witness:
  "de_manifest (manifest_json demo_manifest) = Some demo_manifest \<and> de_signed_assertion (assertion_json (demo_policy 4)) = Some (demo_policy 4)"
  by (rule wire_formats_round_trip)
    (simp_all add: manifest_wf_def demo_manifest_def assertion_wf_def demo_policy_def sign_owner_def u64_max_def)

text \<open>An audit draws the asked number of distinct positions (all of them when there are fewer), in
  order and in range, for every state of the generator, and looks at exactly the addresses there; it
  reports as failures those whose stored bytes are missing or do not hash to them, passes when there
  are none, and charges the bytes it read.\<close>

theorem audit_sample_is_honest:
  assumes "audit_sample X leaves st rng k = Ok (rng', out)"
  shows "(\<exists>idxs. sample_indices rng (length leaves) k = (rng', idxs) \<and> ao_sampled out = map (\<lambda>i. ml_cid (leaves ! i)) idxs \<and>
      length idxs = min k (length leaves) \<and> sorted idxs \<and> distinct idxs \<and> set idxs \<subseteq> {..<length leaves}) \<and>
    (ao_passed out \<longleftrightarrow> (\<forall>cid \<in> set (ao_sampled out). is_ok (retrieve_verified X st cid))) \<and>
    set (ao_failures out) = {cid \<in> set (ao_sampled out). \<not> is_ok (retrieve_verified X st cid)} \<and>
    ao_bytes_read out = sum_list (map length (List.map_filter (map_of st) (ao_sampled out)))"
  using audit_sample_positions [OF assms] audit_sample_spec [OF assms] by blast

theorem audit_sample_is_honest_witness:
  "\<exists>rng' out. audit_sample demo [\<lparr>ml_cid = ''c'', ml_size = 1\<rparr>] [] 7 5 = Ok (rng', out) \<and> length (ao_sampled out) = 1 \<and>
     \<not> ao_passed out"
proof -
  obtain rng' out where a: "audit_sample demo [\<lparr>ml_cid = ''c'', ml_size = 1\<rparr>] [] 7 5 = Ok (rng', out)"
    by (cases "sample_indices 7 1 5") (simp add: audit_sample_def audit_read_cost_def List.map_filter_def Let_def)
  have "\<not> is_ok (retrieve_verified demo [] cid)" for cid by (simp add: retrieve_verified_def)
  with audit_sample_is_honest [OF a] show ?thesis using a by (auto simp: in_set_conv_nth)
qed

section \<open>The sync engine\<close>

text \<open>C32: when a backup over HTTP reports success, the server's record for the account is a manifest with the
  reported sequence number, it lists the tree's own manifest, and every blob it lists is in the
  server's backend, where each file is named by the digest of its bytes and every upload a ledger records is
  still present. This holds whatever requests of others the server runs in between and whichever
  requests or answers the wire loses, from any state of the server in which uploads are in custody.
  The laws of the parts are that hex digests have their length, that parsing a printed value gives
  that value or nothing, and that a URL reaches the handler of its pattern.\<close>

theorem backup_is_in_custody:
  assumes "backup X Y (http_ciss X N (server_http X N display route E je) C kp) use w = (w', Ok rep)"
    and "parts_law X N C route E" "custody X (fst (w_remote w))"
  shows "\<exists>m. load_manifest (as_store (fst (w_remote w'))) (sn_did (session_for X kp)) = Some m \<and> m_seq m = br_seq rep \<and>
     br_cid rep \<in> fst ` set (leaf_pairs m) \<and> custody X (fst (w_remote w')) \<and>
     fst ` set (leaf_pairs m) \<subseteq> stored_objects (as_blobs (fst (w_remote w'))) (sn_did (session_for X kp))"
  using backup_over_http [OF assms(1)] assms(2,3) by (simp add: ciss_good_def)

theorem backup_is_in_custody_witness:
  "\<exists>N w' rep m. backup demo demo_sync (http_ciss demo N (demo_wire N) demo_client alice) False backup_world = (w', Ok rep) \<and>
     load_manifest (as_store (fst (w_remote w'))) alice_did = Some m \<and> m_seq m = 1 \<and>
     sha256_hex demo ''empty'' \<in> stored_objects (as_blobs (fst (w_remote w'))) alice_did"
proof (rule empty_backup)
  fix N w' rep
  assume b: "backup demo demo_sync (http_ciss demo N (demo_wire N) demo_client alice) False backup_world = (w', Ok rep)"
    and g: "ciss_good demo N demo_client demo_route calm (w_remote backup_world)" and r: "br_seq rep = 1" "br_cid rep = sha256_hex demo ''empty''"
  have "parts_law demo N demo_client demo_route calm" "custody demo (fst (w_remote backup_world))" using g by (simp_all add: ciss_good_def)
  from backup_is_in_custody [OF b [unfolded demo_wire_def] this] obtain m where
    "load_manifest (as_store (fst (w_remote w'))) alice_did = Some m" "m_seq m = br_seq rep" "br_cid rep \<in> fst ` set (leaf_pairs m)"
    "fst ` set (leaf_pairs m) \<subseteq> stored_objects (as_blobs (fst (w_remote w'))) alice_did"
    unfolding alice_session by blast
  then show ?thesis using b by (intro exI [of _ N] exI [of _ w'] exI [of _ rep] exI [of _ m]) (use r in auto)
qed

text \<open>C33: the merge of the devices' trees loses no edit and makes nothing up. A file that some device created
  or changed since the common base is in the merged tree with its content, under its own path or
  under a conflict copy of that path; and every file of the merged tree is the base's or some device's file
  of that path, whatever order the devices are in. No path may already be named like a conflict copy.\<close>

theorem merged_tree_keeps_every_edit:
  assumes "btree_wf heads" "copies_free heads base" "fold_trees X Y heads base = Ok out"
  shows "(\<forall>d t p e. (d, t) \<in> set heads \<and> bt_get (fm_entries t) p = Some e \<and> is_changed (base_at base p) (Some e) \<longrightarrow>
      (\<exists>k e'. bt_get (fm_entries (fo_tree out)) k = Some e' \<and> same_content e' e \<and>
        (k = p \<or> (\<exists>d' \<in> fst ` set heads. k = conflict_path p d')))) \<and>
    (\<forall>k e. bt_get (fm_entries (fo_tree out)) k = Some e \<longrightarrow>
      (\<exists>p. (k = p \<or> (\<exists>d \<in> fst ` set heads. k = conflict_path p d)) \<and>
        (base_at base p = Some e \<or> (\<exists>(d, t) \<in> set heads. bt_get (fm_entries t) p = Some e))))"
  using fold_keeps_edits [OF assms] fold_invents_nothing [OF assms] by blast

theorem merged_tree_keeps_every_edit_witness:
  "\<exists>out k e. fold_trees demo demo_sync edited_heads None = Ok out \<and>
     bt_get (fm_entries (fo_tree out)) k = Some e \<and> same_content e (sized_entry 2)"
proof -
  obtain out where out: "fold_trees demo demo_sync edited_heads None = Ok out" using edited_folds by blast
  have "\<exists>t. (''b'', t) \<in> set edited_heads \<and> bt_get (fm_entries t) ''f'' = Some (sized_entry 2)"
    by (auto simp: edited_heads_def bt_get_def)
  moreover have "is_changed (base_at None ''f'') (Some (sized_entry 2))" by (simp add: is_changed_def base_at_def)
  ultimately show ?thesis using merged_tree_keeps_every_edit [OF edited_free out] out by blast
qed

text \<open>C34: restoring the manifest a scan of a tree produced, from any remote that answers with some bytes,
  gives each regular file its bytes and its permission bits back, and its modification time when that is
  not before the epoch; an earlier time becomes the time of the write, except in the last second before the
  epoch, where the sign is lost. It is asked that no file of the tree has the name of the temporary file of
  another. The remote is not trusted: that no two of the texts at hand have the same SHA-256 digest is all
  that is asked of it.\<close>

theorem restore_reproduces_the_tree:
  assumes "cdc_law Y" "cbor_law Y"
    and "scan_tree X Y F = Ok m" "tree_wf F" "dagcbor_encode Y m = Ok mb" "no_tmp_clash (map fst (fm_entries m))"
    and "restore X Y R (Some (digest_hex X mb)) w = (w', Ok rep)"
    and "returns_in R S" "inj_on (sha256 X) (S \<union> {mb} \<union> tree_pieces X Y F)"
    and "map_of (tf_nodes F) p = Some (Regular (bs, mode, t))"
  shows "map_of (tf_nodes (w_fs w')) p =
    Some (Regular (bs, mode mod 4096, if 0 \<le> t then t else if t \<le> - 1000000000 then tf_now (w_fs w) else - t))"
  using restore_scanned [OF assms] by (simp only: kept_time_def)

theorem restore_reproduces_the_tree_witness:
  "\<exists>w' rep. restore demo demo_sync two_blobs (Some (digest_hex demo ''M''))
       \<lparr>w_fs = empty_tree, w_state = demo_sync_state, w_remote = (), w_clock = 0\<rparr> = (w', Ok rep) \<and>
     map_of (tf_nodes (w_fs w')) ''a'' = Some (Regular (''hi'', 420, 5000000000))"
proof -
  let ?w = "\<lparr>w_fs = empty_tree, w_state = demo_sync_state, w_remote = (), w_clock = 0\<rparr>"
  obtain w' rep where r: "restore demo demo_sync two_blobs (Some (digest_hex demo ''M'')) ?w = (w', Ok rep)"
    using hi_restored by blast
  have facts: "tree_wf hi_tree" "dagcbor_encode demo_sync hi_manifest = Ok ''M''" "no_tmp_clash (map fst (fm_entries hi_manifest))"
    by (simp_all add: tree_wf_def hi_tree_def empty_tree_def dagcbor_encode_def demo_sync_def no_tmp_clash_def hi_manifest_def hi_tmp)
  have inj: "inj_on (sha256 demo) ({''M'', ''hi''} \<union> {''M''} \<union> tree_pieces demo demo_sync hi_tree)"
    unfolding hi_pieces using two_digests by (simp add: inj_on_def demo_def)
  have "map_of (tf_nodes hi_tree) ''a'' = Some (Regular (''hi'', 420, 5000000000))" by (simp add: hi_tree_def)
  from restore_reproduces_the_tree [OF demo_cdc_law demo_cbor_law hi_scan facts r two_blobs_returns inj this]
  show ?thesis using r by auto
qed

text \<open>C35: the commit of a device's head ends after at most one more attempt than the retry bound, whatever
  the other side does: only a stale answer leads to another attempt, which reads the frontier anew, and
  the result is that of the first attempt that is not stale, or the stale error of the last one. A commit that is
  accepted follows the frontier it read by one, changes this device's slot only and keeps this
  device's blobs and, for every other head, the head, its tree, the tree's chunks and its base.\<close>

theorem frontier_commit_ends:
  assumes "f = try_commit X Y R device pushed head_cid n"
  shows "(\<exists>j \<le> MAX_COMMIT_RETRIES. (\<forall>i < j. stale (f (attempts f i w))) \<and>
      (stale (f (attempts f j w)) \<longrightarrow> j = MAX_COMMIT_RETRIES) \<and>
      commit_loop X Y R device pushed head_cid n 0 w = settle j (f (attempts f j w))) \<and>
    (\<forall>w' seq k. commit_loop X Y R device pushed head_cid n 0 w = (w', Ok (seq, k)) \<longrightarrow>
      (\<exists>s view s1 leaves heads. rm_frontier R (w_remote (attempts f k w)) = (s, Ok view) \<and>
        rm_commit_frontier R s1 leaves seq heads = (w_remote w', Ok ()) \<and>
        seq = (case view of None \<Rightarrow> 1 | Some v \<Rightarrow> fv_seq v + 1) \<and>
        heads = bt_insert device head_cid (case view of Some v \<Rightarrow> fv_heads v | None \<Rightarrow> []) \<and>
        insert head_cid (fst ` set (pt_needed pushed)) \<subseteq> fst ` set leaves \<and>
        (\<forall>(dev, cid) \<in> set heads. dev \<noteq> device \<longrightarrow>
          closure_covered X Y R (keypair_verifying_key X (rm_keypair R)) cid (fst ` set leaves))))"
proof (intro conjI allI impI)
  obtain j where j: "j \<le> MAX_COMMIT_RETRIES" "\<forall>i < j. stale (f (attempts f i w))"
    "stale (f (attempts f j w)) \<longrightarrow> j = MAX_COMMIT_RETRIES"
    "commit_loop X Y R device pushed head_cid n 0 w = settle j (f (attempts f j w))"
    using commit_loop_search [OF assms, of 0 w] by auto
  then show "\<exists>j \<le> MAX_COMMIT_RETRIES. (\<forall>i < j. stale (f (attempts f i w))) \<and>
      (stale (f (attempts f j w)) \<longrightarrow> j = MAX_COMMIT_RETRIES) \<and>
      commit_loop X Y R device pushed head_cid n 0 w = settle j (f (attempts f j w))" by blast
  fix w' seq k
  assume "commit_loop X Y R device pushed head_cid n 0 w = (w', Ok (seq, k))"
  then have t: "try_commit X Y R device pushed head_cid n (attempts f k w) = (w', Ok (seq, Ok ()))"
    using j(4) by (auto simp: settle_def result_bind_Ok assms split: prod.splits)
  show "\<exists>s view s1 leaves heads. rm_frontier R (w_remote (attempts f k w)) = (s, Ok view) \<and>
        rm_commit_frontier R s1 leaves seq heads = (w_remote w', Ok ()) \<and>
        seq = (case view of None \<Rightarrow> 1 | Some v \<Rightarrow> fv_seq v + 1) \<and>
        heads = bt_insert device head_cid (case view of Some v \<Rightarrow> fv_heads v | None \<Rightarrow> []) \<and>
        insert head_cid (fst ` set (pt_needed pushed)) \<subseteq> fst ` set leaves \<and>
        (\<forall>(dev, cid) \<in> set heads. dev \<noteq> device \<longrightarrow>
          closure_covered X Y R (keypair_verifying_key X (rm_keypair R)) cid (fst ` set leaves))"
    by (rule try_commit_Ok [OF t], intro exI conjI) (assumption | simp add: split_paired_all)+
qed

theorem frontier_commit_ends_witness:
  "commit_loop demo demo_sync stale_once ''dev'' own_push ''h'' 1 0 (frontier_world 0) = (frontier_world 2, Ok (6, 1)) \<and>
   (\<exists>s1 leaves heads. rm_commit_frontier stale_once s1 leaves 6 heads = (2, Ok ()) \<and> {''h'', ''own''} \<subseteq> fst ` set leaves)"
proof -
  have e: "w_remote (frontier_world 2) = 2" "fst ` set (pt_needed own_push) = {''own''}" by (simp_all add: frontier_world_def own_push_def)
  note commit = frontier_commit_ends [OF refl, of demo demo_sync stale_once "''dev''" own_push "''h''" 1 "frontier_world 0",
      THEN conjunct2, rule_format, OF stale_once_commits, unfolded e]
  obtain s1 leaves heads where "rm_commit_frontier stale_once s1 leaves 6 heads = (2, Ok ())" "insert ''h'' {''own''} \<subseteq> fst ` set leaves"
    using commit by (elim exE conjE) (rule that)
  then show ?thesis using stale_once_commits by auto
qed

section \<open>The mesh\<close>

text \<open>C36: two devices that start without remote heads and hear the same announcements, in any order, any number of
  times and between any other traffic, hold the same heads; the head of each device is the announced
  one with the greatest counter. A device is to announce one head per counter.\<close>

theorem mesh_frontiers_converge:
  assumes "me_slot M1 = slot_default" "me_slot M2 = slot_default"
    and "set (announced I es1) = set (announced I es2)" "one_head_per_counter (set (announced I es1))"
  shows "sl_remote (me_slot (receive_loop I es1 M1)) = sl_remote (me_slot (receive_loop I es2 M2)) \<and>
    newest (set (announced I es1)) d (bt_get (sl_remote (me_slot (receive_loop I es1 M1))) d)"
  unfolding receive_slot assms(1,2) by (intro conjI merged_converge [OF assms(3,4)] merged_newest)

theorem mesh_frontiers_converge_witness:
  "sl_remote (me_slot (receive_loop demo_iroh [Received ''a1'', NeighborUp, Received ''b1'', Received ''a2''] demo_mesh)) =
   sl_remote (me_slot (receive_loop demo_iroh
     [Received ''a2'', Received ''noise'', Received ''a1'', Lagged, Received ''b1'', Received ''a2''] demo_mesh))"
  by (rule conjunct1 [OF mesh_frontiers_converge [OF demo_mesh_fields(1) demo_mesh_fields(1)]])
    (auto simp: demo_announced one_head_per_counter_def simp del: announced.simps)

text \<open>C37: when a backup into the mesh reports success, the device's slot has the reported sequence number and
  a keep set with the tree's manifest, and for every entry of the keep set the device's own store holds
  bytes with that SHA-256 digest, whatever gossip arrives between the calls. The store is to keep what it
  was given, and the claims of the index at the start are to be true.\<close>

theorem mesh_backup_is_held:
  assumes "backup X Y (mesh_remote X Y I E keypair device) use w = (w', Ok rep)"
    and "store_law I holds" "index_sound X holds (me_peer (fst (w_remote w)))"
  shows "sl_seq (me_slot (fst (w_remote w'))) = Some (br_seq rep) \<and>
    br_cid rep \<in> fst ` set (sl_leaves (me_slot (fst (w_remote w')))) \<and>
    (\<forall>cid \<in> fst ` set (sl_leaves (me_slot (fst (w_remote w')))).
       \<exists>h bs. holds (ip_net (me_peer (fst (w_remote w')))) h bs \<and> digest_hex X bs = cid)"
proof -
  have "mesh_good X I holds (w_remote w)" using assms(2,3) by (simp add: mesh_good_def)
  from mesh_backup_held [OF assms(1) this] show ?thesis by metis
qed

theorem mesh_backup_is_held_witness:
  "\<exists>w' rep h bs. backup demo demo_sync (mesh_remote demo demo_sync demo_iroh mesh_noise alice ''dev'') False mesh_world = (w', Ok rep) \<and>
     demo_holds (ip_net (me_peer (fst (w_remote w')))) h bs \<and> digest_hex demo bs = br_cid rep"
proof -
  obtain w' rep where b: "backup demo demo_sync (mesh_remote demo demo_sync demo_iroh mesh_noise alice ''dev'') False mesh_world = (w', Ok rep)"
    by (rule mesh_backup_runs)
  have "index_sound demo demo_holds (me_peer (fst (w_remote mesh_world)))"
    using demo_mesh_good by (simp add: mesh_good_def mesh_world_def)
  from mesh_backup_is_held [OF b demo_store_law this] show ?thesis using b by blast
qed

section \<open>The command-line client\<close>

text \<open>C38: whatever command the client runs, and however the disk, the network or the server fail during
  it, a key that was on the disk is neither overwritten nor changed nor lost, and when the files of
  secrets (keys and PDS credentials) were readable by their owner only, they still are, new ones included.
  Only the user can break this, by naming such a file as the output of a download. The synchronised
  tree and the databases are separate stores, and a path is the name of its file.\<close>

theorem cli_secrets_are_kept:
  assumes "cli_dispatch S g cmd c = (c', r)" "\<And>p. output_of cmd = Some p \<Longrightarrow> \<not> secret_path p"
  shows "(file_named ''identity.key'' q \<and> map_of (dk_files (ct_disk c)) q = Some v \<longrightarrow> map_of (dk_files (ct_disk c')) q = Some v) \<and>
    (secrets_private (ct_disk c) \<longrightarrow> secrets_private (ct_disk c'))"
proof -
  have "guarded (ct_disk c) (ct_disk c')"
    using secrets.cli_dispatch_keeps [of cmd c S g] assms by simp
  then show ?thesis unfolding guarded_def keys_kept_def by blast
qed

theorem cli_secrets_are_kept_witness:
  "\<exists>c' out. cli_dispatch (cli_station cli_net (cli_wire cli_net)) cli_args (KeyCmd KeyGen) (cli_start (demo_state, 0)) = (c', Ok out) \<and>
     map_of (dk_files (ct_disk c')) ''/h/.config/ciss-ctl/profiles/work/identity.key'' = Some (''00'', 384) \<and>
     secrets_private (ct_disk c')"
proof -
  let ?q = "''/h/.config/ciss-ctl/profiles/work/identity.key''"
  obtain c' out where g: "cli_dispatch (cli_station cli_net (cli_wire cli_net)) cli_args (KeyCmd KeyGen) (cli_start (demo_state, 0)) = (c', Ok out)"
    using cli_key_gen [of cli_net "cli_wire cli_net" "(demo_state, 0)"] by blast
  have n: "file_named ''identity.key'' ?q" by (rule file_named_by [of _ "''/h/.config/ciss-ctl/profiles/work/''"]) simp
  have d: "map_of (dk_files (ct_disk (cli_start (demo_state, 0 :: nat)))) ?q = Some (''00'', 384)" "secrets_private (ct_disk (cli_start (demo_state, 0 :: nat)))"
    by (simp_all add: cli_start_def cli_disk_def secrets_private_def)
  show ?thesis using cli_secrets_are_kept [OF g, of ?q "(''00'', 384)"] n d g by simp
qed

text \<open>C39: after \<^verbatim>\<open>key gen\<close> reports success, the key's file holds the seed with mode 0600 in a directory with
  mode 0700, \<^verbatim>\<open>whoami\<close> prints the identity that was reported, and a second \<^verbatim>\<open>key gen\<close> changes nothing. The
  entropy source is to give the 32 bytes it was asked for, and the key's file is to be readable.\<close>

theorem new_key_is_found:
  assumes "cli_dispatch S g (KeyCmd KeyGen) c = (c', Ok out)" "config_new (mc_env (sn_machine S)) (ga_profile g) = Ok cfg"
    and "hex_law (mc_ext (sn_machine S))" "mc_entropy (sn_machine S) 32 = Ok sd" "length sd = 32"
    and "dk_fails (ct_disk c) DRead (key_path cfg) = None"
  shows "map_of (dk_files (ct_disk c')) (key_path cfg) = Some (hex_encode (mc_ext (sn_machine S)) sd, 384) \<and>
    map_of (dk_dirs (ct_disk c')) (profile_dir cfg) = Some 448 \<and>
    cli_dispatch S g Whoami c' = (c', Ok out) \<and> fst (cli_dispatch S g (KeyCmd KeyGen) c') = c'"
  using new_key_works [OF assms] by simp

theorem new_key_is_found_witness:
  "\<exists>c' out. cli_dispatch (cli_station cli_net (cli_wire cli_net)) cli_args (KeyCmd KeyGen) (cli_start (demo_state, 0)) = (c', Ok out) \<and>
     map_of (dk_files (ct_disk c')) ''/h/.config/ciss-ctl/profiles/default/identity.key'' = Some (hex_encode demo cli_seed, 384) \<and>
     cli_dispatch (cli_station cli_net (cli_wire cli_net)) cli_args Whoami c' = (c', Ok out)"
proof -
  obtain c' out where g: "cli_dispatch (cli_station cli_net (cli_wire cli_net)) cli_args (KeyCmd KeyGen) (cli_start (demo_state, 0)) = (c', Ok out)"
    using cli_key_gen [of cli_net "cli_wire cli_net" "(demo_state, 0)"] by blast
  have "dk_fails (ct_disk (cli_start (demo_state, 0 :: nat))) DRead (key_path cli_config) = None" by (simp add: cli_start_def cli_disk_def)
  from new_key_is_found [OF g cli_config_new _ cli_entropy this, unfolded cli_station_parts, OF demo_hex_law]
  show ?thesis using g by (auto simp: cli_paths)
qed

text \<open>C40: when \<^verbatim>\<open>acl set\<close> reports success against a server behind the wire, the policy the server's read gate
  resolves for that object of the profile's own identity is exactly the requested class (\<^verbatim>\<open>world\<close> is
  world-readable, \<^verbatim>\<open>grantees\<close> the listed readers, \<^verbatim>\<open>owner\<close> the owner alone) and readers, at
  the moment the answer arrives, and the client's disk is as before. Other clients may act between the
  command's two requests.\<close>

theorem policy_command_takes_effect:
  assumes "cli_dispatch S g (AclCmd (AclSet cid class readers)) c = (c', Ok out)" "ga_identity g = IdKind"
    and "mc_http (sn_machine S) = server_http (mc_ext (sn_machine S)) (mc_net (sn_machine S)) display route E je"
    and "setting_laws (mc_ext (sn_machine S)) (mc_net (sn_machine S)) (server_client g) route" "cid \<noteq> []" "url_part cid"
  shows "\<exists>cfg kp. config_new (mc_env (sn_machine S)) (ga_profile g) = Ok cfg \<and>
    load_keypair (mc_ext (sn_machine S)) (mc_hex_error (sn_machine S)) (ct_disk c) cfg = Ok kp \<and>
    ct_disk c' = ct_disk c \<and>
    resolve_policy (as_store (fst (ct_server c'))) (sn_did (session_for (mc_ext (sn_machine S)) kp)) (Some cid) =
      \<lparr>rp_read_class = (case class of ArgWorld \<Rightarrow> World | ArgGrantees \<Rightarrow> Grantees | ArgOwner \<Rightarrow> OwnerOnly), rp_readers = readers\<rparr>"
  by (rule acl_command_effect [OF assms, unfolded asked_class_def]) blast

theorem policy_command_takes_effect_witness:
  "\<exists>c c' out. cli_dispatch (cli_station cli_net (cli_wire cli_net)) cli_args (AclCmd (AclSet cli_cid ArgWorld [])) c = (c', Ok out) \<and>
     ct_server c = (demo_state, 0) \<and>
     resolve_policy (as_store (fst (ct_server c'))) alice_did (Some cli_cid) = \<lparr>rp_read_class = World, rp_readers = []\<rparr>"
proof -
  let ?S = "cli_station cli_net (cli_wire cli_net)"
  obtain c out c' where r: "cli_dispatch ?S cli_args (AclCmd (AclSet cli_cid ArgWorld [])) c = (c', Ok out)"
    and k: "load_keypair demo (mc_hex_error (sn_machine ?S)) (ct_disk c) cli_config = Ok cli_key" and s: "ct_server c = (demo_state, 0)"
    by (rule cli_acl_set)
  have laws: "ga_identity cli_args = IdKind" "mc_http (sn_machine ?S) = server_http (mc_ext (sn_machine ?S)) (mc_net (sn_machine ?S)) (\<lambda>_. []) cli_route calm (\<lambda>_. [])"
    "setting_laws (mc_ext (sn_machine ?S)) (mc_net (sn_machine ?S)) (server_client cli_args) cli_route"
    using knows_sound [OF cli_values_jwf] cli_setting_route demo_hex_law demo_digest_law
    by (simp_all only: cli_station_parts cli_client cli_wire_def) (simp_all add: setting_laws_def cli_net_def cli_args_def)
  from policy_command_takes_effect [OF r laws cli_cid_part(1,2)] k cli_config_new [of cli_net "cli_wire cli_net"]
  have "resolve_policy (as_store (fst (ct_server c'))) alice_did (Some cli_cid) = \<lparr>rp_read_class = World, rp_readers = []\<rparr>"
    by (auto simp: alice_session)
  then show ?thesis using r s by blast
qed

end
